(* ===== verification/GoPrelude.thy ===== *)
theory GoPrelude
  imports Complex_Main "HOL-Library.AList" "HOL-Library.Multiset"
begin

text \<open>
  Shared vocabulary for the Go code under src/: how a method call ends, mutexes, maps,
  channels, slices sorted in place, time and floating point.

  \<^item> A method run by one goroutine ends in one of three ways (\<open>outcome\<close>): it returns a value
    and a memory, it parks for ever on a lock that nobody will release, or it panics. The
    memory is kept in all three cases, since other goroutines go on seeing it.
  \<^item> A Go map is an association list with distinct keys (\<open>gomap\<close>); a range over the map
    visits the list in order. Go leaves the order open: the theorems quantify over the list,
    so over every order that a range may take. A nil map is the empty map.
  \<^item> A buffered channel is its capacity and its buffered elements, oldest first.
  \<^item> A point in time is the number of nanoseconds since the zero time of package time, so
    \<open>IsZero\<close> is equality with 0. Clock readings are arguments of the operations.
  \<^item> float64 is modelled by exact rationals: rounding, infinities and NaN are outside the
    model. Where a bound rests on exact arithmetic this is the abstraction it rests on.
\<close>

section \<open>How a call ends\<close>

datatype ('r, 's) outcome = Returned 'r 's | Blocked 's | Panicked 's

fun andThen :: "('r, 's) outcome \<Rightarrow> ('r \<Rightarrow> 's \<Rightarrow> ('q, 's) outcome) \<Rightarrow> ('q, 's) outcome" where
  "andThen (Returned r s) f = f r s"
| "andThen (Blocked s) f = Blocked s"
| "andThen (Panicked s) f = Panicked s"

fun memory :: "('r, 's) outcome \<Rightarrow> 's" where
  "memory (Returned r s) = s"
| "memory (Blocked s) = s"
| "memory (Panicked s) = s"

fun is_returned :: "('r, 's) outcome \<Rightarrow> bool" where
  "is_returned (Returned r s) \<longleftrightarrow> True"
| "is_returned _ \<longleftrightarrow> False"

fun is_blocked :: "('r, 's) outcome \<Rightarrow> bool" where
  "is_blocked (Blocked s) \<longleftrightarrow> True"
| "is_blocked _ \<longleftrightarrow> False"

lemma andThen_assoc: "andThen (andThen m f) g = andThen m (\<lambda>r s. andThen (f r s) g)"
  by (cases m) simp_all

lemma andThen_Returned_iff:
  "andThen m f = Returned q t \<longleftrightarrow> (\<exists>r s. m = Returned r s \<and> f r s = Returned q t)"
  by (cases m) auto

lemma is_blocked_andThen [simp]:
  "is_blocked (andThen m f) \<longleftrightarrow>
     is_blocked m \<or> (\<exists>r s. m = Returned r s \<and> is_blocked (f r s))"
  by (cases m) auto

section \<open>Mutexes\<close>

text \<open>
  sync.RWMutex as one goroutine meets it: a second Lock, or an RLock while the writer lock is
  held, waits; both wait for ever when the holder is the caller itself.
\<close>

datatype rwmutex = Unlocked | RLocked nat | WLocked

fun can_lock :: "rwmutex \<Rightarrow> bool" where
  "can_lock Unlocked \<longleftrightarrow> True"
| "can_lock _ \<longleftrightarrow> False"

fun can_rlock :: "rwmutex \<Rightarrow> bool" where
  "can_rlock WLocked \<longleftrightarrow> False"
| "can_rlock _ \<longleftrightarrow> True"

fun rlock :: "rwmutex \<Rightarrow> rwmutex" where
  "rlock Unlocked = RLocked 1"
| "rlock (RLocked n) = RLocked (Suc n)"
| "rlock WLocked = WLocked"

fun runlock :: "rwmutex \<Rightarrow> rwmutex" where
  "runlock (RLocked (Suc (Suc n))) = RLocked (Suc n)"
| "runlock _ = Unlocked"

lemma can_lock_iff [simp]: "can_lock m \<longleftrightarrow> m = Unlocked"
  by (cases m) simp_all

lemma can_rlock_iff [simp]: "can_rlock m \<longleftrightarrow> m \<noteq> WLocked"
  by (cases m) simp_all

lemma runlock_rlock [simp]: "m = Unlocked \<Longrightarrow> runlock (rlock m) = m"
  by simp

section \<open>Time and numbers\<close>

type_synonym gotime = int   \<comment> \<open>nanoseconds since the zero time\<close>
type_synonym duration = int \<comment> \<open>nanoseconds\<close>
type_synonym float64 = rat

definition IsZero :: "gotime \<Rightarrow> bool" where
  "IsZero t \<longleftrightarrow> t = 0"

definition Second :: duration where
  "Second = 1000000000"

definition Millisecond :: duration where
  "Millisecond = 1000000"

definition Hour :: duration where
  "Hour = 3600 * Second"

text \<open>time.Time.UnixNano and Unix, counted from the year 1970.\<close>

definition UnixNano :: "gotime \<Rightarrow> nat" where
  "UnixNano now = nat (now - 62135596800 * Second)"

definition Unix :: "gotime \<Rightarrow> nat" where
  "Unix now = nat ((now - 62135596800 * Second) div Second)"

definition Seconds :: "duration \<Rightarrow> float64" where
  "Seconds d = of_int d / 1000000000"

lemma IsZero_0 [simp]: "IsZero 0"
  by (simp add: IsZero_def)

lemma Seconds_nonneg: "0 \<le> d \<Longrightarrow> 0 \<le> Seconds d"
  by (simp add: Seconds_def)

lemma Seconds_add: "Seconds (a + b) = Seconds a + Seconds b"
  by (simp add: Seconds_def add_divide_distrib)

text \<open>A 64-bit int after an addition or subtraction, and int(f), which truncates towards zero.\<close>

definition wrap64 :: "int \<Rightarrow> int" where
  "wrap64 x = (x + 2 ^ 63) mod 2 ^ 64 - 2 ^ 63"

lemma wrap64_id: "- (2 ^ 63) \<le> x \<Longrightarrow> x < 2 ^ 63 \<Longrightarrow> wrap64 x = x"
  by (simp add: wrap64_def)

definition trunc_int :: "float64 \<Rightarrow> int" where
  "trunc_int f = (if f \<ge> 0 then floor f else ceiling f)"

section \<open>Maps\<close>

type_synonym ('k, 'v) gomap = "('k \<times> 'v) list"

definition wf_map :: "('k, 'v) gomap \<Rightarrow> bool" where
  "wf_map m \<longleftrightarrow> distinct (map fst m)"

abbreviation get :: "('k, 'v) gomap \<Rightarrow> 'k \<Rightarrow> 'v option" where
  "get m k \<equiv> map_of m k"

abbreviation put :: "'k \<Rightarrow> 'v \<Rightarrow> ('k, 'v) gomap \<Rightarrow> ('k, 'v) gomap" where
  "put k v m \<equiv> AList.update k v m"

abbreviation del :: "'k \<Rightarrow> ('k, 'v) gomap \<Rightarrow> ('k, 'v) gomap" where
  "del k m \<equiv> AList.delete k m"

text \<open>Reading an absent key of a map of numbers gives zero.\<close>

definition get0 :: "('k, 'v::zero) gomap \<Rightarrow> 'k \<Rightarrow> 'v" where
  "get0 m k = (case get m k of None \<Rightarrow> 0 | Some v \<Rightarrow> v)"

definition has_key :: "('k, 'v) gomap \<Rightarrow> 'k \<Rightarrow> bool" where
  "has_key m k \<longleftrightarrow> get m k \<noteq> None"

text \<open>for k, v := range src \<open>{ dst[k] = v }\<close>\<close>

definition put_all :: "('k, 'v) gomap \<Rightarrow> ('k, 'v) gomap \<Rightarrow> ('k, 'v) gomap" where
  "put_all src dst = foldl (\<lambda>m (k, v). put k v m) dst src"

named_theorems map_simps \<open>reading a Go map after an update\<close>

lemma get_put [map_simps]: "get (put k v m) k' = (if k' = k then Some v else get m k')"
  by (simp add: update_conv')

lemma get_del [map_simps]: "get (del k m) k' = (if k' = k then None else get m k')"
  by (simp add: delete_conv')

lemma get0_put [map_simps]: "get0 (put k v m) k' = (if k' = k then v else get0 m k')"
  by (simp add: get0_def get_put)

lemma get0_Nil [simp]: "get0 [] k = 0"
  by (simp add: get0_def)

lemma get0_Cons [simp]: "get0 ((a, v) # m) k = (if k = a then v else get0 m k)"
  by (simp add: get0_def)

lemma has_key_put [map_simps]: "has_key (put k v m) k' \<longleftrightarrow> k' = k \<or> has_key m k'"
  by (auto simp: has_key_def get_put)

lemma has_key_del [map_simps]: "has_key (del k m) k' \<longleftrightarrow> k' \<noteq> k \<and> has_key m k'"
  by (auto simp: has_key_def get_del)

lemma has_key_iff: "has_key m k \<longleftrightarrow> k \<in> fst ` set m"
  unfolding has_key_def by (metis dom_map_of_conv_image_fst domIff)

lemma wf_map_Nil [simp]: "wf_map []"
  by (simp add: wf_map_def)

lemma wf_map_single [simp]: "wf_map [p]"
  by (simp add: wf_map_def)

lemma wf_put [simp]: "wf_map m \<Longrightarrow> wf_map (put k v m)"
  by (simp add: wf_map_def distinct_update)

lemma wf_del [simp]: "wf_map m \<Longrightarrow> wf_map (del k m)"
  by (simp add: wf_map_def distinct_delete)

lemma wf_map_Cons: "wf_map ((k, v) # m) \<longleftrightarrow> \<not> has_key m k \<and> wf_map m"
  by (simp add: wf_map_def has_key_iff)

lemma get_in_set: "get m k = Some v \<Longrightarrow> (k, v) \<in> set m"
  by (rule map_of_SomeD)

lemma get_iff_in_set: "wf_map m \<Longrightarrow> get m k = Some v \<longleftrightarrow> (k, v) \<in> set m"
  by (simp add: wf_map_def map_of_eq_Some_iff)

lemma set_put_subset: "set (put k v m) \<subseteq> insert (k, v) (set m)"
  by (induction m) auto

lemma set_del_subset: "set (del k m) \<subseteq> set m"
  by (auto simp: AList.delete_eq)

lemma put_all_Nil [simp]: "put_all [] dst = dst"
  by (simp add: put_all_def)

lemma put_all_Cons [simp]: "put_all ((k, v) # src) dst = put_all src (put k v dst)"
  by (simp add: put_all_def)

lemma wf_put_all [simp]: "wf_map dst \<Longrightarrow> wf_map (put_all src dst)"
  by (induction src arbitrary: dst) auto

lemma get_put_all_absent: "\<not> has_key src k \<Longrightarrow> get (put_all src dst) k = get dst k"
  by (induction src arbitrary: dst) (auto simp: has_key_def get_put split: if_splits)

lemma get_put_all:
  "wf_map src \<Longrightarrow>
   get (put_all src dst) k = (case get src k of None \<Rightarrow> get dst k | Some v \<Rightarrow> Some v)"
proof (induction src arbitrary: dst)
  case Nil
  then show ?case by simp
next
  case (Cons p src)
  obtain a v where p: "p = (a, v)" by (cases p)
  show ?case
  proof (cases "k = a")
    case True
    then have "\<not> has_key src k" using Cons.prems p by (simp add: wf_map_Cons)
    then show ?thesis using p True by (simp add: get_put_all_absent get_put)
  next
    case False
    then show ?thesis using Cons p by (simp add: wf_map_Cons get_put split: option.split)
  qed
qed

section \<open>Buffered channels\<close>

record 'a chan =
  ch_cap :: nat
  ch_buf :: "'a list"

definition make_chan :: "nat \<Rightarrow> 'a chan" where
  "make_chan n = \<lparr>ch_cap = n, ch_buf = []\<rparr>"

text \<open>The send and receive arms of a select with a default: \<open>None\<close> is the default arm.\<close>

definition try_send :: "'a \<Rightarrow> 'a chan \<Rightarrow> 'a chan option" where
  "try_send x c =
     (if length (ch_buf c) < ch_cap c then Some (c\<lparr>ch_buf := ch_buf c @ [x]\<rparr>) else None)"

definition try_recv :: "'a chan \<Rightarrow> ('a \<times> 'a chan) option" where
  "try_recv c = (case ch_buf c of [] \<Rightarrow> None | x # xs \<Rightarrow> Some (x, c\<lparr>ch_buf := xs\<rparr>))"

definition chan_ok :: "'a chan \<Rightarrow> bool" where
  "chan_ok c \<longleftrightarrow> length (ch_buf c) \<le> ch_cap c"

text \<open>
  The contract that the queues of the code rely on: first in, first out, bounded, and a
  send that fails exactly when the queue is full.
\<close>

locale bounded_fifo =
  fixes send :: "'a \<Rightarrow> 'q \<Rightarrow> 'q option"
    and recv :: "'q \<Rightarrow> ('a \<times> 'q) option"
    and contents :: "'q \<Rightarrow> 'a list"
    and bound :: "'q \<Rightarrow> nat"
    and ok :: "'q \<Rightarrow> bool"
  assumes send_full: "ok q \<Longrightarrow> send x q = None \<longleftrightarrow> length (contents q) = bound q"
    and send_contents: "ok q \<Longrightarrow> send x q = Some q' \<Longrightarrow> contents q' = contents q @ [x]"
    and send_bound: "ok q \<Longrightarrow> send x q = Some q' \<Longrightarrow> bound q' = bound q \<and> ok q'"
    and recv_empty: "ok q \<Longrightarrow> recv q = None \<longleftrightarrow> contents q = []"
    and recv_contents: "ok q \<Longrightarrow> recv q = Some (x, q') \<Longrightarrow> contents q = x # contents q'"
    and recv_bound: "ok q \<Longrightarrow> recv q = Some (x, q') \<Longrightarrow> bound q' = bound q \<and> ok q'"
    and ok_bound: "ok q \<Longrightarrow> length (contents q) \<le> bound q"
begin

lemma send_drop_oldest:
  \<comment> \<open>a full queue that gives up its oldest element takes the new one\<close>
  assumes "ok q" and "0 < bound q" and "send x q = None"
  shows "\<exists>y q1 q2. recv q = Some (y, q1) \<and> send x q1 = Some q2 \<and>
           contents q2 = tl (contents q) @ [x] \<and> bound q2 = bound q \<and> ok q2"
proof -
  have len: "length (contents q) = bound q" using assms by (simp add: send_full)
  then have "recv q \<noteq> None" using assms recv_empty by fastforce
  then obtain y q1 where r: "recv q = Some (y, q1)" by auto
  have q1: "contents q = y # contents q1" "bound q1 = bound q" "ok q1"
    using recv_contents[OF assms(1) r] recv_bound[OF assms(1) r] by auto
  then have "send x q1 \<noteq> None" using send_full len by fastforce
  then obtain q2 where s: "send x q1 = Some q2" by auto
  show ?thesis
    using r s q1 send_contents[OF q1(3) s] send_bound[OF q1(3) s] by simp
qed

lemma send_fails_iff_full: "ok q \<Longrightarrow> send x q = None \<longleftrightarrow> bound q \<le> length (contents q)"
  using send_full ok_bound by fastforce

end

interpretation chan: bounded_fifo try_send try_recv ch_buf ch_cap chan_ok
  by unfold_locales
    (auto simp: try_send_def try_recv_def chan_ok_def split: if_splits list.splits)

lemma chan_ok_make [simp]: "chan_ok (make_chan n)"
  by (simp add: chan_ok_def make_chan_def)

section \<open>sort.Slice\<close>

text \<open>
  sort.Slice orders a slice by a less function. For slices shorter than 12 it is the
  insertion sort below; longer slices may place equal elements in another order. What the
  theorems use of the result is that it is a permutation and that no later element is less
  than an earlier one.
\<close>

fun insert_by :: "('a \<Rightarrow> 'a \<Rightarrow> bool) \<Rightarrow> 'a \<Rightarrow> 'a list \<Rightarrow> 'a list" where
  "insert_by lt x [] = [x]"
| "insert_by lt x (y # ys) = (if lt x y then x # y # ys else y # insert_by lt x ys)"

definition sort_slice :: "('a \<Rightarrow> 'a \<Rightarrow> bool) \<Rightarrow> 'a list \<Rightarrow> 'a list" where
  "sort_slice lt xs = foldl (\<lambda>acc x. insert_by lt x acc) [] xs"

lemma mset_insert_by [simp]: "mset (insert_by lt x xs) = add_mset x (mset xs)"
  by (induction xs) auto

lemma mset_foldl_insert_by:
  "mset (foldl (\<lambda>acc x. insert_by lt x acc) acc xs) = mset acc + mset xs"
  by (induction xs arbitrary: acc) auto

lemma mset_sort_slice [simp]: "mset (sort_slice lt xs) = mset xs"
  by (simp add: sort_slice_def mset_foldl_insert_by)

lemma set_sort_slice [simp]: "set (sort_slice lt xs) = set xs"
  by (metis mset_sort_slice set_mset_mset)

lemma length_sort_slice [simp]: "length (sort_slice lt xs) = length xs"
  by (metis mset_sort_slice size_mset)

lemma sort_slice_eq_Nil [simp]: "sort_slice lt xs = [] \<longleftrightarrow> xs = []"
  by (metis length_0_conv length_sort_slice)

lemma sort_slice_Nil [simp]: "sort_slice lt [] = []"
  by simp

lemma set_insert_by [simp]: "set (insert_by lt x xs) = insert x (set xs)"
  by (induction xs) auto

text \<open>The less functions of the code compare keys of a linear order, or its reverse.\<close>

locale key_order =
  fixes lt :: "'a \<Rightarrow> 'a \<Rightarrow> bool" and key :: "'a \<Rightarrow> 'b::linorder"
  assumes less_key: "lt x y \<longleftrightarrow> key x < key y"
begin

lemma sorted_insert_by: "sorted (map key xs) \<Longrightarrow> sorted (map key (insert_by lt x xs))"
  by (induction xs) (fastforce simp: less_key)+

lemma sorted_foldl:
  "sorted (map key acc) \<Longrightarrow>
   sorted (map key (foldl (\<lambda>acc x. insert_by lt x acc) acc xs))"
  by (induction xs arbitrary: acc) (auto simp: sorted_insert_by)

lemma sorted_sort_slice: "sorted (map key (sort_slice lt xs))"
  by (simp add: sort_slice_def sorted_foldl)

lemma hd_sort_slice: "x \<in> set xs \<Longrightarrow> key (hd (sort_slice lt xs)) \<le> key x"
proof -
  assume x: "x \<in> set xs"
  then obtain y ys where s: "sort_slice lt xs = y # ys"
    by (metis list.exhaust sort_slice_eq_Nil empty_iff list.set(1))
  have "x \<in> set (y # ys)" using x by (metis s set_sort_slice)
  moreover have "sorted (map key (y # ys))" using sorted_sort_slice by (metis s)
  ultimately show ?thesis using s by auto
qed

end

lemma insert_by_cong:
  "(\<And>y. y \<in> set ys \<Longrightarrow> lt x y = lt' x y) \<Longrightarrow> insert_by lt x ys = insert_by lt' x ys"
  by (induction ys) auto

lemma foldl_insert_by_cong:
  "(\<And>x y. x \<in> set xs \<union> set acc \<Longrightarrow> y \<in> set xs \<union> set acc \<Longrightarrow> lt x y = lt' x y) \<Longrightarrow>
   foldl (\<lambda>acc x. insert_by lt x acc) acc xs = foldl (\<lambda>acc x. insert_by lt' x acc) acc xs"
proof (induction xs arbitrary: acc)
  case Nil
  then show ?case by simp
next
  case (Cons a xs)
  have "insert_by lt a acc = insert_by lt' a acc" using Cons.prems by (intro insert_by_cong) auto
  moreover have "foldl (\<lambda>acc x. insert_by lt x acc) (insert_by lt' a acc) xs =
      foldl (\<lambda>acc x. insert_by lt' x acc) (insert_by lt' a acc) xs"
    using Cons.prems by (intro Cons.IH) auto
  ultimately show ?case by simp
qed

lemma sort_slice_cong:
  "(\<And>x y. x \<in> set xs \<Longrightarrow> y \<in> set xs \<Longrightarrow> lt x y = lt' x y) \<Longrightarrow> sort_slice lt xs = sort_slice lt' xs"
  unfolding sort_slice_def by (rule foldl_insert_by_cong) auto

section \<open>Floating-point values with infinities\<close>

text \<open>
  A score may be a quotient with a zero divisor or start at minus infinity. NaN compares as
  false with everything; the linear order below, which puts it last, is only used as a sort key.
\<close>

datatype efloat = NegInf | Fin float64 | PosInf | NaN

fun fless :: "efloat \<Rightarrow> efloat \<Rightarrow> bool" where
  "fless NaN y \<longleftrightarrow> False"
| "fless x NaN \<longleftrightarrow> False"
| "fless NegInf y \<longleftrightarrow> y \<noteq> NegInf"
| "fless (Fin a) (Fin b) \<longleftrightarrow> a < b"
| "fless (Fin a) y \<longleftrightarrow> y = PosInf"
| "fless PosInf y \<longleftrightarrow> False"

definition fdiv :: "float64 \<Rightarrow> float64 \<Rightarrow> efloat" where
  "fdiv a b =
     (if b \<noteq> 0 then Fin (a / b) else if a > 0 then PosInf else if a < 0 then NegInf else NaN)"

instantiation efloat :: linorder
begin

fun less_eq_efloat :: "efloat \<Rightarrow> efloat \<Rightarrow> bool" where
  "less_eq_efloat NegInf y \<longleftrightarrow> True"
| "less_eq_efloat (Fin a) (Fin b) \<longleftrightarrow> a \<le> b"
| "less_eq_efloat (Fin a) y \<longleftrightarrow> y = PosInf \<or> y = NaN"
| "less_eq_efloat PosInf y \<longleftrightarrow> y = PosInf \<or> y = NaN"
| "less_eq_efloat NaN y \<longleftrightarrow> y = NaN"

definition less_efloat :: "efloat \<Rightarrow> efloat \<Rightarrow> bool" where
  "less_efloat x y \<longleftrightarrow> x \<le> y \<and> \<not> y \<le> (x :: efloat)"

instance
proof
  fix x y z :: efloat
  show "x < y \<longleftrightarrow> x \<le> y \<and> \<not> y \<le> x" by (rule less_efloat_def)
  show "x \<le> x" by (cases x) auto
  show "x \<le> y \<Longrightarrow> y \<le> z \<Longrightarrow> x \<le> z" by (cases x; cases y; cases z) auto
  show "x \<le> y \<Longrightarrow> y \<le> x \<Longrightarrow> x = y" by (cases x; cases y) auto
  show "x \<le> y \<or> y \<le> x" by (cases x; cases y) auto
qed

end

lemma fless_iff: "x \<noteq> NaN \<Longrightarrow> y \<noteq> NaN \<Longrightarrow> fless x y \<longleftrightarrow> x < y"
  by (cases x; cases y) (auto simp: less_efloat_def)

lemma Fin_le_iff [simp]: "Fin a \<le> Fin b \<longleftrightarrow> a \<le> b" "Fin a < Fin b \<longleftrightarrow> a < b"
  by (auto simp: less_efloat_def)

text \<open>Descending order of scores as an ascending key.\<close>

fun fneg :: "efloat \<Rightarrow> efloat" where
  "fneg NegInf = PosInf"
| "fneg (Fin a) = Fin (- a)"
| "fneg PosInf = NegInf"
| "fneg NaN = NaN"

lemma fneg_less: "x \<noteq> NaN \<Longrightarrow> y \<noteq> NaN \<Longrightarrow> fneg x < fneg y \<longleftrightarrow> y < x"
  by (cases x; cases y) (auto simp: less_efloat_def)

lemma fneg_le: "x \<noteq> NaN \<Longrightarrow> y \<noteq> NaN \<Longrightarrow> fneg x \<le> fneg y \<longleftrightarrow> y \<le> x"
  by (cases x; cases y) auto

section \<open>Strings\<close>

definition digit :: "nat \<Rightarrow> char" where
  "digit d = char_of (48 + d)"

fun dec :: "nat \<Rightarrow> string" where
  "dec n = (if n < 10 then [digit n] else dec (n div 10) @ [digit (n mod 10)])"

declare dec.simps [simp del]

definition dec_value :: "string \<Rightarrow> nat" where
  "dec_value s = foldl (\<lambda>a c. 10 * a + (of_char c - 48)) 0 s"

lemma digit_value: "d < 10 \<Longrightarrow> of_char (digit d) - 48 = (d::nat)"
  by (simp add: digit_def)

lemma dec_value_dec [simp]: "dec_value (dec n) = n"
proof (induction n rule: dec.induct)
  case (1 n)
  show ?case
  proof (cases "n < 10")
    case True
    then show ?thesis by (subst dec.simps) (simp add: dec_value_def digit_value)
  next
    case False
    then show ?thesis
      using 1 by (subst dec.simps) (simp add: dec_value_def digit_value)
  qed
qed

lemma dec_inj: "dec m = dec n \<longleftrightarrow> m = n"
  by (metis dec_value_dec)

text \<open>fmt's verb d for an int.\<close>

definition dec_int :: "int \<Rightarrow> string" where
  "dec_int i = (if i < 0 then ''-'' @ dec (nat (- i)) else dec (nat i))"

text \<open>strings.SplitN(s, sep, 2) for a one-character separator, when it gives two parts.\<close>

fun split_first :: "char \<Rightarrow> string \<Rightarrow> (string \<times> string) option" where
  "split_first c [] = None"
| "split_first c (x # xs) =
     (if x = c then Some ([], xs)
      else case split_first c xs of None \<Rightarrow> None | Some (a, b) \<Rightarrow> Some (x # a, b))"

lemma split_first_None: "split_first c s = None \<longleftrightarrow> c \<notin> set s"
  by (induction s) (auto split: option.splits)

lemma split_first_append: "c \<notin> set a \<Longrightarrow> split_first c (a @ c # b) = Some (a, b)"
  by (induction a) auto

lemma split_first_Some:
  assumes "split_first c s = Some (a, b)"
  shows "s = a @ c # b \<and> c \<notin> set a"
  using assms
proof (induction s arbitrary: a)
  case Nil
  then show ?case by simp
next
  case (Cons x xs)
  show ?case
  proof (cases "x = c")
    case True
    then show ?thesis using Cons.prems by simp
  next
    case False
    then obtain a' where "split_first c xs = Some (a', b)" and "a = x # a'"
      using Cons.prems by (auto split: option.splits)
    then show ?thesis using Cons.IH False by simp
  qed
qed

section \<open>Values of type any\<close>

text \<open>The dynamic types that the code inspects in a map[string]any.\<close>

datatype any =
    AFloat float64
  | AInt int
  | AStr string
  | ABool bool
  | AFloats "(string \<times> float64) list"  \<comment> \<open>map[string]float64\<close>
  | AMap "(string \<times> any) list"        \<comment> \<open>map[string]any\<close>
  | ASlice "any option list"            \<comment> \<open>[]any, with \<open>None\<close> for a nil element\<close>
  | AStrs "string list"                 \<comment> \<open>[]string\<close>
  | AOther

end
