(* ===== verification/RateLimit.thy ===== *)
theory RateLimit
  imports GoPrelude
begin

text \<open>
  Two parts of the code limit rates by token buckets, one in float64 and one in int: the QoS
  manager and the policy engine. What they share is the contract of the locale \<open>rate_limiter\<close>: a request
  never takes more than the level and what the time since the last refill brings. From it follows, once,
  the bound on any sequence of requests.
\<close>

text \<open>Requests, each with the clock reading at which it is served: what was granted, and the bucket.\<close>

fun serve :: "(float64 \<Rightarrow> gotime \<Rightarrow> 'b \<Rightarrow> bool \<times> 'b) \<Rightarrow> (float64 \<times> gotime) list \<Rightarrow> 'b \<Rightarrow> float64 \<times> 'b" where
  "serve tk [] b = (0, b)"
| "serve tk ((a, now) # rs) b =
     (let (ok, b') = tk a now b; (granted, b'') = serve tk rs b'
      in ((if ok then a else 0) + granted, b''))"

fun clock_ok :: "gotime \<Rightarrow> (float64 \<times> gotime) list \<Rightarrow> bool" where
  "clock_ok t [] \<longleftrightarrow> True"
| "clock_ok t ((a, now) # rs) \<longleftrightarrow> t \<le> now \<and> 0 \<le> a \<and> clock_ok now rs"

lemma serve_Cons:
  "serve tk ((a, now) # rs) b =
     ((if fst (tk a now b) then a else 0) + fst (serve tk rs (snd (tk a now b))),
      snd (serve tk rs (snd (tk a now b))))"
  by (simp add: case_prod_beta Let_def)

lemma clock_ok_earlier: "clock_ok t rs \<Longrightarrow> t' \<le> t \<Longrightarrow> clock_ok t' rs"
  by (induction rs arbitrary: t) auto

locale rate_limiter =
  fixes tk :: "float64 \<Rightarrow> gotime \<Rightarrow> 'b \<Rightarrow> bool \<times> 'b"
    and level :: "'b \<Rightarrow> float64"
    and rate :: "'b \<Rightarrow> float64"
    and last_refill :: "'b \<Rightarrow> gotime"
    and ok :: "'b \<Rightarrow> bool"
  assumes take_ok: "ok b \<Longrightarrow> last_refill b \<le> now \<Longrightarrow> 0 \<le> a \<Longrightarrow> ok (snd (tk a now b))"
    and take_rate: "ok b \<Longrightarrow> last_refill b \<le> now \<Longrightarrow> 0 \<le> a \<Longrightarrow> rate (snd (tk a now b)) = rate b"
    and take_last: "ok b \<Longrightarrow> last_refill b \<le> now \<Longrightarrow> 0 \<le> a \<Longrightarrow>
      last_refill b \<le> last_refill (snd (tk a now b)) \<and> last_refill (snd (tk a now b)) \<le> now"
    and take_balance: "ok b \<Longrightarrow> last_refill b \<le> now \<Longrightarrow> 0 \<le> a \<Longrightarrow>
      (if fst (tk a now b) then a else 0) + level (snd (tk a now b)) \<le>
        level b + Seconds (last_refill (snd (tk a now b)) - last_refill b) * rate b"
    and level_nonneg: "ok b \<Longrightarrow> 0 \<le> level b"
begin

lemma serve_balance:
  assumes "ok b" and "clock_ok (last_refill b) rs"
  shows "ok (snd (serve tk rs b)) \<and>
    fst (serve tk rs b) + level (snd (serve tk rs b))
      \<le> level b + Seconds (last_refill (snd (serve tk rs b)) - last_refill b) * rate b"
  using assms
proof (induction rs arbitrary: b)
  case Nil
  then show ?case by (simp add: Seconds_def)
next
  case (Cons p rs)
  obtain a now where p: "p = (a, now)" by (cases p)
  let ?b = "snd (tk a now b)"
  have h: "last_refill b \<le> now" "0 \<le> a" "clock_ok now rs" using Cons.prems p by simp_all
  note one = take_ok[OF Cons.prems(1) h(1,2)] take_rate[OF Cons.prems(1) h(1,2)]
    take_balance[OF Cons.prems(1) h(1,2)]
  have "clock_ok (last_refill ?b) rs"
    using clock_ok_earlier[OF h(3)] take_last[OF Cons.prems(1) h(1,2)] by blast
  note IH = Cons.IH[OF one(1) this]
  have "Seconds (last_refill (snd (serve tk rs ?b)) - last_refill b) =
      Seconds (last_refill (snd (serve tk rs ?b)) - last_refill ?b) + Seconds (last_refill ?b - last_refill b)"
    by (simp flip: Seconds_add)
  then show ?case
    using IH one(2,3) by (simp add: p serve_Cons algebra_simps del: serve.simps(2))
qed

lemma serve_last:
  assumes "ok b" and "clock_ok (last_refill b) rs" and "last_refill b \<le> t1" and "\<forall>r\<in>set rs. snd r \<le> t1"
  shows "last_refill (snd (serve tk rs b)) \<le> t1"
  using assms
proof (induction rs arbitrary: b)
  case Nil
  then show ?case by simp
next
  case (Cons p rs)
  obtain a now where p: "p = (a, now)" by (cases p)
  have h: "last_refill b \<le> now" "0 \<le> a" "clock_ok now rs" "now \<le> t1" using Cons.prems p by simp_all
  note one = take_ok[OF Cons.prems(1) h(1,2)] take_last[OF Cons.prems(1) h(1,2)]
  then have "clock_ok (last_refill (snd (tk a now b))) rs" using clock_ok_earlier[OF h(3)] by blast
  then show ?case using Cons.IH[OF one(1)] one(2) h(4) Cons.prems(4)
    by (simp add: p serve_Cons del: serve.simps(2))
qed

lemma serve_bounded:
  assumes "ok b" and "clock_ok (last_refill b) rs"
  shows "fst (serve tk rs b) \<le> level b + Seconds (last_refill (snd (serve tk rs b)) - last_refill b) * rate b"
  using serve_balance[OF assms] level_nonneg by fastforce

end

end
