(* ===== verification/QoS.thy ===== *)
theory QoS
  imports RateLimit
begin

text \<open>
  The quality-of-service manager of \<^verbatim>\<open>src/internal/qos/qos.go\<close>: token buckets, admission by
  bucket, three bounded priority queues, usage accounting and the refill loop. A method is one
  sequential transition of the manager: its critical sections never nest, so it cannot block.
  Reading the clock and the result of the file system are arguments; writing the usage file is
  reduced to what it would contain. The policies that apply to a target are found in the order
  of the policy map.
\<close>

section \<open>Token buckets\<close>

record tokenBucket =
  tb_capacity :: float64
  tb_rate :: float64
  tb_tokens :: float64
  tb_last :: gotime

definition newTokenBucket :: "float64 \<Rightarrow> float64 \<Rightarrow> gotime \<Rightarrow> tokenBucket" where
  "newTokenBucket capacity rate now =
     \<lparr>tb_capacity = capacity, tb_rate = rate, tb_tokens = capacity, tb_last = now\<rparr>"

definition refill :: "gotime \<Rightarrow> tokenBucket \<Rightarrow> float64" where
  "refill now t =
     (let tokens = tb_tokens t + Seconds (now - tb_last t) * tb_rate t
      in if tokens > tb_capacity t then tb_capacity t else tokens)"

definition consume :: "float64 \<Rightarrow> gotime \<Rightarrow> tokenBucket \<Rightarrow> bool \<times> tokenBucket" where
  "consume amount now t =
     (let tokens = refill now t; t = t\<lparr>tb_tokens := tokens, tb_last := now\<rparr>
      in if tokens \<ge> amount then (True, t\<lparr>tb_tokens := tokens - amount\<rparr>) else (False, t))"

definition bucket_ok :: "tokenBucket \<Rightarrow> bool" where
  "bucket_ok t \<longleftrightarrow> 0 \<le> tb_tokens t \<and> tb_tokens t \<le> tb_capacity t \<and>
     0 < tb_capacity t \<and> 0 \<le> tb_rate t"

lemma newTokenBucket_ok: "0 < c \<Longrightarrow> 0 \<le> r \<Longrightarrow> bucket_ok (newTokenBucket c r now)"
  by (simp add: bucket_ok_def newTokenBucket_def)

lemma refill_bounds:
  assumes "bucket_ok t" and "tb_last t \<le> now"
  shows "tb_tokens t \<le> refill now t" and "refill now t \<le> tb_capacity t"
    and "refill now t \<le> tb_tokens t + Seconds (now - tb_last t) * tb_rate t"
  using assms Seconds_nonneg[of "now - tb_last t"]
  by (auto simp: refill_def bucket_ok_def Let_def)

lemma consume_frame [simp]:
  "tb_capacity (snd (consume a now t)) = tb_capacity t"
  "tb_rate (snd (consume a now t)) = tb_rate t"
  "tb_last (snd (consume a now t)) = now"
  by (simp_all add: consume_def Let_def)

lemma consume_granted: "fst (consume a now t) \<longleftrightarrow> a \<le> refill now t"
  by (simp add: consume_def Let_def)

lemma consume_tokens:
  "tb_tokens (snd (consume a now t)) = refill now t - (if fst (consume a now t) then a else 0)"
  by (simp add: consume_def Let_def)

lemma consume_ok:
  assumes "bucket_ok t" and "tb_last t \<le> now" and "0 \<le> a"
  shows "bucket_ok (snd (consume a now t))"
  using assms refill_bounds[OF assms(1,2)]
  by (auto simp: bucket_ok_def consume_tokens consume_granted)

text \<open>
  A request of a negative bandwidth, which nothing refuses, gives tokens instead of taking them: such a
  bucket may hold more than its capacity until it is refilled.
\<close>

definition bucket_sound :: "bool \<Rightarrow> tokenBucket \<Rightarrow> bool" where
  "bucket_sound neg t \<longleftrightarrow> 0 \<le> tb_tokens t \<and> (neg \<or> tb_tokens t \<le> tb_capacity t) \<and>
     0 < tb_capacity t \<and> 0 \<le> tb_rate t"

lemma bucket_ok_sound: "bucket_ok t \<Longrightarrow> bucket_sound neg t"
  by (simp add: bucket_ok_def bucket_sound_def)

lemma consume_sound:
  assumes "bucket_sound neg t" and "tb_last t \<le> now" and "neg \<or> 0 \<le> a"
  shows "bucket_sound neg (snd (consume a now t))"
proof -
  have "0 \<le> Seconds (now - tb_last t) * tb_rate t"
    using assms Seconds_nonneg[of "now - tb_last t"] by (simp add: bucket_sound_def)
  then have "0 \<le> refill now t" "refill now t \<le> tb_capacity t"
    using assms(1) by (auto simp: refill_def bucket_sound_def Let_def)
  then show ?thesis using assms by (auto simp: bucket_sound_def consume_tokens consume_granted)
qed

interpretation bucket: rate_limiter consume tb_tokens tb_rate tb_last bucket_ok
proof
  fix b :: tokenBucket and now :: gotime and a :: float64
  assume h: "bucket_ok b" "tb_last b \<le> now" "0 \<le> a"
  show "bucket_ok (snd (consume a now b))" using consume_ok h by blast
  show "tb_rate (snd (consume a now b)) = tb_rate b"
    "tb_last b \<le> tb_last (snd (consume a now b)) \<and> tb_last (snd (consume a now b)) \<le> now"
    using h by simp_all
  show "(if fst (consume a now b) then a else 0) + tb_tokens (snd (consume a now b)) \<le>
      tb_tokens b + Seconds (tb_last (snd (consume a now b)) - tb_last b) * tb_rate b"
    using refill_bounds(3)[OF h(1,2)] by (simp add: consume_tokens)
qed (simp add: bucket_ok_def)

section \<open>The manager\<close>

record QoSPolicy =
  q_ID :: string
  q_Class :: string
  q_Bandwidth :: int
  q_Priority :: int
  q_AppliesTo :: string
  q_EnforcementMode :: string
  q_TTL :: gotime
  q_Meta :: "(string, any) gomap"

record QueuedTask =
  qt_TaskID :: string
  qt_Owner :: string
  qt_ReqBW :: int
  qt_Priority :: int
  qt_Meta :: "(string, any) gomap"
  qt_Enqueued :: gotime

record UsageReport =
  ur_AppliesTo :: string
  ur_Consumed :: float64
  ur_Period :: string

text \<open>
  Refill goroutines are numbered as they are started; \<open>refillers\<close> holds those that have not returned, with
  whether their context is done, and \<open>refillCancel\<close> the one that the stored cancel function belongs to.
\<close>

record QoSManager =
  policies :: "(string, QoSPolicy) gomap"
  buckets :: "(string, tokenBucket) gomap"
  usage :: "(string, float64) gomap"
  baseDir :: string
  refillCancel :: "nat option"
  highQueue :: "QueuedTask chan"
  medQueue :: "QueuedTask chan"
  lowQueue :: "QueuedTask chan"
  adaptFn :: "(UsageReport \<Rightarrow> QoSPolicy) option"
  refillRunning :: bool
  refillers :: "(nat, bool) gomap"
  refillStarted :: nat

definition NewQoSManager :: "string \<Rightarrow> QoSManager" where
  "NewQoSManager dir =
     \<lparr>policies = [], buckets = [], usage = [], baseDir = dir, refillCancel = None,
      highQueue = make_chan 1000, medQueue = make_chan 1000, lowQueue = make_chan 1000,
      adaptFn = None, refillRunning = False, refillers = [], refillStarted = 0\<rparr>"

datatype qos_error = PolicyIDRequired | AppliesToRequired | PersistFailed string | NoAdaptHook

text \<open>
  Writing the usage file: \<open>io\<close> is the error of the first file-system step that fails. The
  second component is what the renamed file holds, when it is replaced.
\<close>

definition persistUsageSnapshot ::
    "string option \<Rightarrow> QoSManager \<Rightarrow> string option \<times> (string, float64) gomap option" where
  "persistUsageSnapshot io qm =
     (if baseDir qm = '''' then (None, None)
      else case io of Some e \<Rightarrow> (Some e, None) | None \<Rightarrow> (None, Some (usage qm)))"

definition SetPolicy ::
    "QoSPolicy \<Rightarrow> gotime \<Rightarrow> string option \<Rightarrow> QoSManager \<Rightarrow> qos_error option \<times> QoSManager" where
  "SetPolicy p now io qm =
     (if q_ID p = '''' then (Some PolicyIDRequired, qm)
      else if q_AppliesTo p = '''' then (Some AppliesToRequired, qm)
      else
        let qm = qm\<lparr>policies := put (q_ID p) p (policies qm)\<rparr>;
            capacity = of_int (q_Bandwidth p);
            capacity = (if capacity \<le> 0 then 1 else capacity);
            qm = qm\<lparr>buckets := put (q_AppliesTo p) (newTokenBucket capacity capacity now) (buckets qm)\<rparr>
        in case fst (persistUsageSnapshot io qm) of
             Some e \<Rightarrow> (Some (PersistFailed e), qm)
           | None \<Rightarrow> (None, qm))"

definition RemovePolicy :: "string \<Rightarrow> QoSManager \<Rightarrow> QoSManager" where
  "RemovePolicy pid qm =
     (case get (policies qm) pid of
        None \<Rightarrow> qm
      | Some p \<Rightarrow> qm\<lparr>buckets := del (q_AppliesTo p) (buckets qm), policies := del pid (policies qm)\<rparr>)"

text \<open>The policy whose mode decides, \<open>None\<close> standing for the empty \<open>QoSPolicy{}\<close>.\<close>

definition policy_for :: "string \<Rightarrow> QoSManager \<Rightarrow> QoSPolicy option" where
  "policy_for appliesTo qm = find (\<lambda>p. q_AppliesTo p = appliesTo) (map snd (policies qm))"

definition CheckAdmission ::
    "string \<Rightarrow> int \<Rightarrow> gotime \<Rightarrow> QoSManager \<Rightarrow> (bool \<times> string) \<times> QoSManager" where
  "CheckAdmission appliesTo requiredBandwidth now qm =
     (case get (buckets qm) appliesTo of
        None \<Rightarrow> ((False, ''no_policy''), qm)
      | Some b \<Rightarrow>
          let (okConsume, b') = consume (of_int requiredBandwidth) now b;
              qm' = qm\<lparr>buckets := put appliesTo b' (buckets qm)\<rparr>
          in if okConsume then
               ((True, ''admitted''),
                qm'\<lparr>usage := put appliesTo (get0 (usage qm) appliesTo + of_int requiredBandwidth) (usage qm)\<rparr>)
             else if (case policy_for appliesTo qm of None \<Rightarrow> '''' | Some p \<Rightarrow> q_EnforcementMode p) = ''soft''
             then ((True, ''soft_throttle''), qm')
             else ((False, ''insufficient_tokens''), qm'))"

definition EnqueueTaskWithQoS ::
    "QueuedTask \<Rightarrow> string \<Rightarrow> gotime \<Rightarrow> QoSManager \<Rightarrow> (bool \<times> string) \<times> QoSManager" where
  "EnqueueTaskWithQoS t policyID now qm =
     (case get (policies qm) policyID of
        None \<Rightarrow> ((False, ''policy_not_found''), qm)
      | Some p \<Rightarrow>
          let ((admit, reason), qm) = CheckAdmission (q_AppliesTo p) (qt_ReqBW t) now qm
          in if \<not> admit \<and> q_EnforcementMode p = ''hard'' then ((False, reason), qm)
             else if qt_Priority t \<ge> 8 then
               (case try_send t (highQueue qm) of
                  None \<Rightarrow> ((False, ''high_queue_full''), qm)
                | Some c \<Rightarrow> ((True, ''enqueued''), qm\<lparr>highQueue := c\<rparr>))
             else if qt_Priority t \<ge> 4 then
               (case try_send t (medQueue qm) of
                  None \<Rightarrow> ((False, ''med_queue_full''), qm)
                | Some c \<Rightarrow> ((True, ''enqueued''), qm\<lparr>medQueue := c\<rparr>))
             else
               (case try_send t (lowQueue qm) of
                  None \<Rightarrow> ((False, ''low_queue_full''), qm)
                | Some c \<Rightarrow> ((True, ''enqueued''), qm\<lparr>lowQueue := c\<rparr>)))"

definition StartRefiller :: "QoSManager \<Rightarrow> QoSManager" where
  "StartRefiller qm =
     (if refillRunning qm then qm
      else qm\<lparr>refillCancel := Some (refillStarted qm), refillRunning := True,
              refillers := put (refillStarted qm) False (refillers qm), refillStarted := Suc (refillStarted qm)\<rparr>)"

text \<open>
  A refill goroutine goes on to tick until it sees, in the same select, that its context is done: by the end of
  its parent context or by \<open>StopRefiller\<close>, whose cancel function belongs to the goroutine started last.
\<close>

definition refill_tick :: "nat \<Rightarrow> gotime \<Rightarrow> QoSManager \<Rightarrow> QoSManager" where
  "refill_tick g now qm =
     (if has_key (refillers qm) g
      then qm\<lparr>buckets := map (\<lambda>(k, b). (k, snd (consume 0 now b))) (buckets qm)\<rparr> else qm)"

definition refill_exit :: "nat \<Rightarrow> QoSManager \<Rightarrow> QoSManager" where
  "refill_exit g qm = (if get (refillers qm) g = Some True then qm\<lparr>refillers := del g (refillers qm)\<rparr> else qm)"

definition context_done :: "nat \<Rightarrow> QoSManager \<Rightarrow> QoSManager" where
  "context_done g qm = (if has_key (refillers qm) g then qm\<lparr>refillers := put g True (refillers qm)\<rparr> else qm)"

definition StopRefiller :: "QoSManager \<Rightarrow> QoSManager" where
  "StopRefiller qm =
     (case refillCancel qm of None \<Rightarrow> qm | Some g \<Rightarrow> (context_done g qm)\<lparr>refillRunning := False\<rparr>)"

definition GetUsage :: "string \<Rightarrow> string \<Rightarrow> QoSManager \<Rightarrow> UsageReport" where
  "GetUsage appliesTo today qm =
     \<lparr>ur_AppliesTo = appliesTo, ur_Consumed = get0 (usage qm) appliesTo, ur_Period = today\<rparr>"

definition RegisterAdaptationHook :: "(UsageReport \<Rightarrow> QoSPolicy) option \<Rightarrow> QoSManager \<Rightarrow> QoSManager" where
  "RegisterAdaptationHook fn qm = qm\<lparr>adaptFn := fn\<rparr>"

text \<open>
  The loop of \<open>RunAdaptation\<close> over the copied keys; the readings \<open>now\<close>, the date and the
  file-system result are those of one run.
\<close>

fun adapt_each ::
    "(UsageReport \<Rightarrow> QoSPolicy) \<Rightarrow> gotime \<Rightarrow> string \<Rightarrow> string option \<Rightarrow> string list \<Rightarrow> QoSManager \<Rightarrow> QoSManager" where
  "adapt_each fn now today io [] qm = qm"
| "adapt_each fn now today io (k # ks) qm =
     adapt_each fn now today io ks (snd (SetPolicy (fn (GetUsage k today qm)) now io qm))"

definition RunAdaptation ::
    "gotime \<Rightarrow> string \<Rightarrow> string option \<Rightarrow> QoSManager \<Rightarrow> qos_error option \<times> QoSManager" where
  "RunAdaptation now today io qm =
     (case adaptFn qm of
        None \<Rightarrow> (Some NoAdaptHook, qm)
      | Some fn \<Rightarrow> (None, adapt_each fn now today io (map fst (usage qm)) qm))"

section \<open>Lemmas on the operations\<close>

named_theorems qos_defs \<open>the operations of the manager\<close>

lemmas [qos_defs] = SetPolicy_def RemovePolicy_def CheckAdmission_def EnqueueTaskWithQoS_def
  StartRefiller_def StopRefiller_def refill_tick_def refill_exit_def context_done_def RegisterAdaptationHook_def

text \<open>Requests for one target are served by its bucket alone, and charged to its usage.\<close>

lemma CheckAdmission_bucket:
  assumes "get (buckets qm) k = Some b"
  shows "get (buckets (snd (CheckAdmission k bw now qm))) k = Some (snd (consume (of_int bw) now b))"
    and "get0 (usage (snd (CheckAdmission k bw now qm))) k =
           get0 (usage qm) k + (if fst (consume (of_int bw) now b) then of_int bw else 0)"
  using assms by (auto simp: CheckAdmission_def case_prod_beta Let_def map_simps)

lemma CheckAdmission_other:
  assumes "k' \<noteq> k"
  shows "get (buckets (snd (CheckAdmission k bw now qm))) k' = get (buckets qm) k'"
    and "get0 (usage (snd (CheckAdmission k bw now qm))) k' = get0 (usage qm) k'"
  using assms by (auto simp: CheckAdmission_def case_prod_beta Let_def map_simps split: option.split)

lemma CheckAdmission_frame [simp]:
  "policies (snd (CheckAdmission k bw now qm)) = policies qm"
  "highQueue (snd (CheckAdmission k bw now qm)) = highQueue qm"
  "medQueue (snd (CheckAdmission k bw now qm)) = medQueue qm"
  "lowQueue (snd (CheckAdmission k bw now qm)) = lowQueue qm"
  "refillers (snd (CheckAdmission k bw now qm)) = refillers qm"
  "refillCancel (snd (CheckAdmission k bw now qm)) = refillCancel qm"
  "refillRunning (snd (CheckAdmission k bw now qm)) = refillRunning qm"
  by (auto simp: CheckAdmission_def case_prod_beta Let_def split: option.split)

lemma policy_for_Some:
  "policy_for k qm = Some p \<Longrightarrow> q_AppliesTo p = k \<and> (\<exists>i. (i, p) \<in> set (policies qm))"
proof -
  assume "policy_for k qm = Some p"
  then obtain i where "i < length (policies qm)" "snd (policies qm ! i) = p" "q_AppliesTo p = k"
    by (auto simp: policy_for_def find_Some_iff)
  then show ?thesis by (metis nth_mem prod.collapse)
qed

text \<open>The requests of a run of \<open>CheckAdmission\<close> calls for one target.\<close>

fun check_all :: "string \<Rightarrow> (int \<times> gotime) list \<Rightarrow> QoSManager \<Rightarrow> QoSManager" where
  "check_all k [] qm = qm"
| "check_all k ((bw, now) # rs) qm = check_all k rs (snd (CheckAdmission k bw now qm))"

definition requests :: "(int \<times> gotime) list \<Rightarrow> (float64 \<times> gotime) list" where
  "requests rs = map (\<lambda>(bw, now). (of_int bw, now)) rs"

lemma check_all_serve:
  assumes "get (buckets qm) k = Some b"
  shows "get (buckets (check_all k rs qm)) k = Some (snd (serve consume (requests rs) b)) \<and>
         get0 (usage (check_all k rs qm)) k = get0 (usage qm) k + fst (serve consume (requests rs) b)"
  using assms
proof (induction rs arbitrary: qm b)
  case Nil
  then show ?case by (simp add: requests_def)
next
  case (Cons p rs)
  obtain bw now where p: "p = (bw, now)" by (cases p)
  note step = CheckAdmission_bucket[OF Cons.prems, of bw now]
  show ?case
    using Cons.IH[OF step(1)] step(2)
    by (simp add: p requests_def serve_Cons del: serve.simps(2))
qed

text \<open>
  Invariant of the manager at time \<open>now\<close>; the flag allows for requests of negative bandwidth. The only refiller
  that has not been told to stop is the one that \<open>StopRefiller\<close> would stop.
\<close>

definition refillers_ok :: "QoSManager \<Rightarrow> bool" where
  "refillers_ok qm \<longleftrightarrow>
     (\<forall>g c. get (refillers qm) g = Some c \<longrightarrow>
        g < refillStarted qm \<and> (\<not> c \<longrightarrow> refillCancel qm = Some g \<and> refillRunning qm))"

definition qos_ok :: "bool \<Rightarrow> gotime \<Rightarrow> QoSManager \<Rightarrow> bool" where
  "qos_ok neg now qm \<longleftrightarrow>
     wf_map (buckets qm) \<and> (\<forall>(k, b) \<in> set (buckets qm). bucket_sound neg b \<and> tb_last b \<le> now) \<and>
     (\<forall>c \<in> {highQueue qm, medQueue qm, lowQueue qm}. chan_ok c \<and> ch_cap c = 1000) \<and> refillers_ok qm"

lemma qos_ok_later: "qos_ok neg t qm \<Longrightarrow> t \<le> now \<Longrightarrow> qos_ok neg now qm"
  unfolding qos_ok_def by fastforce

lemma refillers_frame [simp]:
  "refillers_ok (qm\<lparr>buckets := bs\<rparr>) = refillers_ok qm" "refillers_ok (qm\<lparr>usage := u\<rparr>) = refillers_ok qm"
  "refillers_ok (qm\<lparr>policies := ps\<rparr>) = refillers_ok qm" "refillers_ok (qm\<lparr>adaptFn := f\<rparr>) = refillers_ok qm"
  "refillers_ok (qm\<lparr>highQueue := c\<rparr>) = refillers_ok qm" "refillers_ok (qm\<lparr>medQueue := c\<rparr>) = refillers_ok qm"
  "refillers_ok (qm\<lparr>lowQueue := c\<rparr>) = refillers_ok qm"
  by (simp_all add: refillers_ok_def)

lemma qos_ok_put_bucket:
  assumes "qos_ok neg now qm" and "bucket_sound neg b" and "tb_last b \<le> now"
  shows "qos_ok neg now (qm\<lparr>buckets := put k b (buckets qm)\<rparr>)"
proof -
  have "\<forall>(k', b') \<in> set (put k b (buckets qm)). bucket_sound neg b' \<and> tb_last b' \<le> now"
    using assms set_put_subset[of k b "buckets qm"] unfolding qos_ok_def by fastforce
  then show ?thesis using assms by (simp add: qos_ok_def)
qed

lemma qos_ok_bucket:
  "qos_ok neg now qm \<Longrightarrow> get (buckets qm) k = Some b \<Longrightarrow> bucket_sound neg b \<and> tb_last b \<le> now"
  unfolding qos_ok_def by (auto dest!: get_in_set)

text \<open>Fields the invariant does not read.\<close>

lemma qos_ok_fields [simp]:
  "qos_ok neg now (qm\<lparr>usage := u\<rparr>) = qos_ok neg now qm"
  "qos_ok neg now (qm\<lparr>policies := ps\<rparr>) = qos_ok neg now qm"
  "qos_ok neg now (qm\<lparr>adaptFn := f\<rparr>) = qos_ok neg now qm"
  by (simp_all add: qos_ok_def)

lemma qos_ok_SetPolicy: "qos_ok neg now qm \<Longrightarrow> qos_ok neg now (snd (SetPolicy p now io qm))"
proof -
  assume ok: "qos_ok neg now qm"
  let ?c = "if (of_int (q_Bandwidth p) :: float64) \<le> 0 then 1 else of_int (q_Bandwidth p)"
  have "bucket_ok (newTokenBucket ?c ?c now)" by (rule newTokenBucket_ok) auto
  then have "bucket_sound neg (newTokenBucket ?c ?c now)" by (rule bucket_ok_sound)
  moreover have "tb_last (newTokenBucket ?c ?c now) \<le> now" by (simp add: newTokenBucket_def)
  ultimately have "qos_ok neg now (qm\<lparr>policies := put (q_ID p) p (policies qm),
      buckets := put (q_AppliesTo p) (newTokenBucket ?c ?c now) (buckets qm)\<rparr>)"
    using ok qos_ok_put_bucket[of neg now "qm\<lparr>policies := put (q_ID p) p (policies qm)\<rparr>"] by simp
  then show ?thesis using ok by (auto simp: SetPolicy_def Let_def split: option.split if_splits)
qed

lemma qos_ok_CheckAdmission:
  assumes "qos_ok neg now qm" and "neg \<or> 0 \<le> bw"
  shows "qos_ok neg now (snd (CheckAdmission k bw now qm))"
proof (cases "get (buckets qm) k")
  case None
  then show ?thesis using assms by (simp add: CheckAdmission_def)
next
  case (Some b)
  let ?b = "snd (consume (of_int bw) now b)"
  have "bucket_sound neg ?b" "tb_last ?b \<le> now"
    using qos_ok_bucket[OF assms(1) Some] assms(2) by (auto intro!: consume_sound)
  then have "qos_ok neg now (qm\<lparr>buckets := put k ?b (buckets qm)\<rparr>)"
    by (rule qos_ok_put_bucket[OF assms(1)])
  then show ?thesis using Some by (simp add: CheckAdmission_def case_prod_beta Let_def)
qed

lemma try_send_ok: "try_send x c = Some c' \<Longrightarrow> chan_ok c \<Longrightarrow> chan_ok c' \<and> ch_cap c' = ch_cap c"
  using chan.send_bound[of c x c'] by simp

lemma qos_ok_Enqueue:
  assumes "qos_ok neg now qm" and "neg \<or> 0 \<le> qt_ReqBW t"
  shows "qos_ok neg now (snd (EnqueueTaskWithQoS t pid now qm))"
proof (cases "get (policies qm) pid")
  case None
  then show ?thesis using assms by (simp add: EnqueueTaskWithQoS_def)
next
  case (Some p)
  have "qos_ok neg now (snd (CheckAdmission (q_AppliesTo p) (qt_ReqBW t) now qm))"
    using assms by (rule qos_ok_CheckAdmission)
  then show ?thesis
    using Some
    by (auto simp: EnqueueTaskWithQoS_def qos_ok_def case_prod_beta Let_def
        dest: try_send_ok split: option.split)
qed

lemma qos_ok_tick:
  assumes "qos_ok neg now qm"
  shows "qos_ok neg now (refill_tick g now qm)"
proof -
  have "\<forall>(k, b) \<in> set (buckets qm). bucket_sound neg (snd (consume 0 now b))"
    using assms by (auto simp: qos_ok_def intro!: consume_sound)
  moreover have "wf_map (map (\<lambda>(k, b). (k, snd (consume 0 now b))) (buckets qm))"
    using assms by (simp add: qos_ok_def wf_map_def comp_def case_prod_beta)
  ultimately show ?thesis using assms by (auto simp: qos_ok_def refill_tick_def)
qed

lemma qos_ok_Remove: "qos_ok neg now qm \<Longrightarrow> qos_ok neg now (RemovePolicy pid qm)"
proof -
  assume ok: "qos_ok neg now qm"
  have "qos_ok neg now (qm\<lparr>buckets := del k (buckets qm)\<rparr>)" for k
    using ok set_del_subset[of k "buckets qm"] by (auto simp: qos_ok_def)
  then show ?thesis using ok by (simp add: RemovePolicy_def split: option.split)
qed

lemma refillers_ok_steps:
  assumes "refillers_ok qm"
  shows "refillers_ok (StartRefiller qm)" and "refillers_ok (StopRefiller qm)"
    and "refillers_ok (refill_exit g qm)" and "refillers_ok (context_done g qm)"
proof -
  show "refillers_ok (StartRefiller qm)"
    using assms by (auto simp: refillers_ok_def StartRefiller_def map_simps less_Suc_eq split: if_splits)
  show "refillers_ok (refill_exit g qm)"
    using assms by (auto simp: refillers_ok_def refill_exit_def map_simps split: if_splits)
  show "refillers_ok (context_done g qm)"
    using assms by (auto simp: refillers_ok_def context_done_def has_key_def map_simps split: if_splits)
  show "refillers_ok (StopRefiller qm)"
  proof (cases "refillCancel qm")
    case (Some g)
    then show ?thesis using assms
      by (fastforce simp: refillers_ok_def StopRefiller_def context_done_def has_key_def map_simps split: if_splits)
  qed (simp add: StopRefiller_def assms)
qed

lemma qos_ok_refiller:
  assumes "qos_ok neg now qm"
  shows "qos_ok neg now (StartRefiller qm)" and "qos_ok neg now (StopRefiller qm)"
    and "qos_ok neg now (refill_exit g qm)" and "qos_ok neg now (context_done g qm)"
  using assms refillers_ok_steps[of qm]
  by (auto simp: qos_ok_def StartRefiller_def StopRefiller_def refill_exit_def context_done_def split: option.split)

lemma qos_ok_RunAdaptation: "qos_ok neg now qm \<Longrightarrow> qos_ok neg now (snd (RunAdaptation now today io qm))"
proof -
  have each: "qos_ok neg now q \<Longrightarrow> qos_ok neg now (adapt_each fn now today io ks q)" for fn ks q
    by (induction ks arbitrary: q) (auto intro: qos_ok_SetPolicy)
  assume "qos_ok neg now qm"
  then show ?thesis by (simp add: RunAdaptation_def each split: option.split)
qed

text \<open>
  The states the manager can be in at a time, the clock only moving forward. The flag says whether requests may
  have a negative bandwidth.
\<close>

inductive qos_reach :: "bool \<Rightarrow> gotime \<Rightarrow> QoSManager \<Rightarrow> bool" for neg where
  new: "qos_reach neg now (NewQoSManager dir)"
| wait: "qos_reach neg t qm \<Longrightarrow> t \<le> now \<Longrightarrow> qos_reach neg now qm"
| set_policy: "qos_reach neg now qm \<Longrightarrow> qos_reach neg now (snd (SetPolicy p now io qm))"
| remove_policy: "qos_reach neg now qm \<Longrightarrow> qos_reach neg now (RemovePolicy pid qm)"
| check: "qos_reach neg now qm \<Longrightarrow> neg \<or> 0 \<le> bw \<Longrightarrow> qos_reach neg now (snd (CheckAdmission k bw now qm))"
| enqueue: "qos_reach neg now qm \<Longrightarrow> neg \<or> 0 \<le> qt_ReqBW t \<Longrightarrow>
    qos_reach neg now (snd (EnqueueTaskWithQoS t pid now qm))"
| start: "qos_reach neg now qm \<Longrightarrow> qos_reach neg now (StartRefiller qm)"
| tick: "qos_reach neg now qm \<Longrightarrow> qos_reach neg now (refill_tick g now qm)"
| exit: "qos_reach neg now qm \<Longrightarrow> qos_reach neg now (refill_exit g qm)"
| cancelled: "qos_reach neg now qm \<Longrightarrow> qos_reach neg now (context_done g qm)"
| stop: "qos_reach neg now qm \<Longrightarrow> qos_reach neg now (StopRefiller qm)"
| register: "qos_reach neg now qm \<Longrightarrow> qos_reach neg now (RegisterAdaptationHook fn qm)"
| adapt: "qos_reach neg now qm \<Longrightarrow> qos_reach neg now (snd (RunAdaptation now today io qm))"

section \<open>Properties\<close>

lemma qos_reach_ok: "qos_reach neg now qm \<Longrightarrow> qos_ok neg now qm"
proof (induction rule: qos_reach.induct)
  case (new now dir)
  show ?case by (simp add: qos_ok_def NewQoSManager_def refillers_ok_def) (simp add: make_chan_def)
next
  case (wait t qm now)
  then show ?case by (blast intro: qos_ok_later)
next
  case (register now qm fn)
  then show ?case by (simp add: RegisterAdaptationHook_def)
qed (auto intro: qos_ok_SetPolicy qos_ok_Remove qos_ok_CheckAdmission qos_ok_Enqueue
    qos_ok_refiller qos_ok_tick qos_ok_RunAdaptation)

text \<open>
  C11: in every reachable state every bucket has a positive capacity, was last refilled in the past, and never
  holds fewer than 0 tokens; as long as no request asks for a negative bandwidth it never holds more than its
  capacity. The three queues never hold more than their 1000 slots. And of the refill goroutines that have not
  returned at most one has not been told to stop, the one that \<open>StopRefiller\<close> would stop.
\<close>

theorem qos_reachable_ok:
  assumes "qos_reach neg now qm"
  shows "(get (buckets qm) k = Some b \<longrightarrow>
      0 < tb_capacity b \<and> tb_last b \<le> now \<and> 0 \<le> tb_tokens b \<and> (neg \<or> tb_tokens b \<le> tb_capacity b)) \<and>
    length (ch_buf (highQueue qm)) \<le> 1000 \<and> length (ch_buf (medQueue qm)) \<le> 1000 \<and> length (ch_buf (lowQueue qm)) \<le> 1000 \<and>
    (get (refillers qm) g = Some False \<longrightarrow> refillCancel qm = Some g \<and> refillRunning qm)"
proof -
  have ok: "qos_ok neg now qm" by (rule qos_reach_ok[OF assms])
  show ?thesis using ok qos_ok_bucket[OF ok, of k b]
    by (auto simp: qos_ok_def refillers_ok_def bucket_sound_def chan_ok_def)
qed

definition sample_policy :: QoSPolicy where
  "sample_policy =
     \<lparr>q_ID = ''p1'', q_Class = ''batch'', q_Bandwidth = 10, q_Priority = 5, q_AppliesTo = ''alice'',
      q_EnforcementMode = ''hard'', q_TTL = 0, q_Meta = []\<rparr>"

definition sample_manager :: QoSManager where
  "sample_manager = snd (SetPolicy sample_policy 5 None (NewQoSManager ''qos''))"

lemma sample_buckets:
  "buckets sample_manager = [(''alice'', newTokenBucket 10 10 5)]"
  "policies sample_manager = [(''p1'', sample_policy)]"
  "usage sample_manager = []"
  by (simp_all add: sample_manager_def sample_policy_def SetPolicy_def NewQoSManager_def
      persistUsageSnapshot_def Let_def)

theorem qos_reachable_ok_witness:
  "tb_tokens (newTokenBucket 10 10 5) \<le> 10 \<and> refillCancel (StartRefiller sample_manager) = Some 0"
proof -
  have r: "qos_reach False 5 (StartRefiller sample_manager)"
    unfolding sample_manager_def by (intro qos_reach.set_policy qos_reach.new qos_reach.start)
  have b: "get (buckets (StartRefiller sample_manager)) ''alice'' = Some (newTokenBucket 10 10 5)"
    by (simp add: StartRefiller_def sample_buckets)
  have g: "get (refillers (StartRefiller sample_manager)) 0 = Some False"
    by (simp add: StartRefiller_def sample_manager_def sample_policy_def SetPolicy_def NewQoSManager_def
        persistUsageSnapshot_def Let_def)
  show ?thesis using qos_reachable_ok[OF r, of "''alice''" "newTokenBucket 10 10 5" 0] b g
    by (simp add: newTokenBucket_def)
qed

text \<open>
  C16: rate limiting. Over any run of admission checks for one target, what is charged to the
  target's usage is at most the tokens the bucket started with (never more than its capacity)
  plus the refill rate times the time that passed.
\<close>

theorem qos_usage_rate_limited:
  assumes "get (buckets qm) k = Some b" and "bucket_ok b"
    and "clock_ok (tb_last b) (requests rs)"
  shows "\<exists>b'. get (buckets (check_all k rs qm)) k = Some b' \<and>
     get0 (usage (check_all k rs qm)) k - get0 (usage qm) k
       \<le> tb_tokens b + Seconds (tb_last b' - tb_last b) * tb_rate b - tb_tokens b' \<and>
     0 \<le> tb_tokens b' \<and> tb_tokens b \<le> tb_capacity b"
  using check_all_serve[OF assms(1), of rs] bucket.serve_balance[OF assms(2,3)] assms(2)
  by (auto simp: bucket_ok_def)

theorem qos_usage_rate_limited_witness:
  "get0 (usage (check_all ''alice'' [(7, 5), (7, 5)] sample_manager)) ''alice'' \<le> 10"
proof -
  have "\<exists>b'. get (buckets (check_all ''alice'' [(7, 5), (7, 5)] sample_manager)) ''alice'' = Some b' \<and>
     get0 (usage (check_all ''alice'' [(7, 5), (7, 5)] sample_manager)) ''alice''
        - get0 (usage sample_manager) ''alice''
       \<le> tb_tokens (newTokenBucket 10 10 5) + Seconds (tb_last b' - tb_last (newTokenBucket 10 10 5))
          * tb_rate (newTokenBucket 10 10 5) - tb_tokens b' \<and>
     0 \<le> tb_tokens b' \<and> tb_tokens (newTokenBucket 10 10 5) \<le> tb_capacity (newTokenBucket 10 10 5)"
    by (rule qos_usage_rate_limited)
      (simp_all add: sample_buckets newTokenBucket_ok requests_def, simp add: newTokenBucket_def)
  moreover have "get (buckets (check_all ''alice'' [(7, 5), (7, 5)] sample_manager)) ''alice''
      = Some b' \<Longrightarrow> tb_last b' = 5" for b'
    using check_all_serve[of sample_manager "''alice''" "newTokenBucket 10 10 5" "[(7, 5), (7, 5)]"]
    by (auto simp: sample_buckets requests_def serve_Cons simp del: serve.simps(2))
  ultimately show ?thesis
    by (fastforce simp: sample_buckets newTokenBucket_def Seconds_def)
qed

text \<open>
  hard enforcement. When every policy of a target is hard, a task is only enqueued if its
  bucket held the requested bandwidth, which is then taken from the bucket and charged to the
  target's usage.
\<close>

theorem qos_hard_enforced:
  assumes "get (policies qm) pid = Some p"
    and "\<forall>(i, q) \<in> set (policies qm). q_AppliesTo q = q_AppliesTo p \<longrightarrow> q_EnforcementMode q = ''hard''"
    and "EnqueueTaskWithQoS t pid now qm = ((True, reason), qm')"
  shows "\<exists>b. get (buckets qm) (q_AppliesTo p) = Some b \<and> of_int (qt_ReqBW t) \<le> refill now b \<and>
     (\<exists>b'. get (buckets qm') (q_AppliesTo p) = Some b' \<and>
        tb_tokens b' = refill now b - of_int (qt_ReqBW t)) \<and>
     get0 (usage qm') (q_AppliesTo p) = get0 (usage qm) (q_AppliesTo p) + of_int (qt_ReqBW t)"
proof -
  let ?c = "CheckAdmission (q_AppliesTo p) (qt_ReqBW t) now qm"
  have hard: "q_EnforcementMode p = ''hard''" using assms(1,2) by (auto dest!: get_in_set)
  have soft: "(case policy_for (q_AppliesTo p) qm of None \<Rightarrow> '''' | Some p \<Rightarrow> q_EnforcementMode p) \<noteq> ''soft''"
    using assms(2) by (auto dest!: policy_for_Some split: option.split)
  have adm: "fst (fst ?c)" and same: "buckets qm' = buckets (snd ?c)" "usage qm' = usage (snd ?c)"
    using assms(1,3) hard
    by (auto simp: EnqueueTaskWithQoS_def case_prod_beta Let_def split: if_splits option.splits)
  obtain b where b: "get (buckets qm) (q_AppliesTo p) = Some b"
    using adm by (cases "get (buckets qm) (q_AppliesTo p)") (auto simp: CheckAdmission_def)
  have granted: "fst (consume (of_int (qt_ReqBW t)) now b)"
    using adm b soft by (auto simp: CheckAdmission_def case_prod_beta Let_def split: if_splits)
  show ?thesis
    using b granted CheckAdmission_bucket[OF b, of "qt_ReqBW t" now] same
    by (simp add: consume_granted consume_tokens)
qed

definition sample_task :: QueuedTask where
  "sample_task = \<lparr>qt_TaskID = ''t1'', qt_Owner = ''alice'', qt_ReqBW = 7, qt_Priority = 9, qt_Meta = [],
     qt_Enqueued = 5\<rparr>"

theorem qos_hard_enforced_witness:
  "get0 (usage (snd (EnqueueTaskWithQoS sample_task ''p1'' 5 sample_manager))) ''alice'' = 7"
proof -
  let ?r = "EnqueueTaskWithQoS sample_task ''p1'' 5 sample_manager"
  have t: "fst (fst ?r)"
    by (simp add: EnqueueTaskWithQoS_def CheckAdmission_def sample_buckets sample_task_def
        sample_policy_def consume_def refill_def newTokenBucket_def Let_def try_send_def
        Seconds_def sample_manager_def SetPolicy_def NewQoSManager_def make_chan_def
        persistUsageSnapshot_def)
  have r: "?r = ((True, snd (fst ?r)), snd ?r)" using t by (metis prod.collapse)
  have h: "\<forall>(i, q) \<in> set (policies sample_manager). q_AppliesTo q = q_AppliesTo sample_policy \<longrightarrow>
      q_EnforcementMode q = ''hard''"
    by (simp add: sample_buckets) (simp add: sample_policy_def)
  have "get0 (usage (snd ?r)) (q_AppliesTo sample_policy) =
      get0 (usage sample_manager) (q_AppliesTo sample_policy) + of_int (qt_ReqBW sample_task)"
    using qos_hard_enforced[OF _ h r] by (auto simp: sample_buckets)
  then show ?thesis by (simp add: sample_buckets) (simp add: sample_policy_def sample_task_def)
qed

definition queue_of :: "QueuedTask \<Rightarrow> QoSManager \<Rightarrow> QueuedTask chan" where
  "queue_of t qm =
     (if 8 \<le> qt_Priority t then highQueue qm else if 4 \<le> qt_Priority t then medQueue qm else lowQueue qm)"

text \<open>
  routing. An enqueued task joins the end of exactly the queue of its priority class
  (8 and above high, 4 to 7 medium, below 4 low) and the other two queues are unchanged; a
  task that is not enqueued changes no queue.
\<close>

theorem qos_enqueue_routing:
  "case EnqueueTaskWithQoS t pid now qm of ((ok, reason), qm') \<Rightarrow>
     (let pr = qt_Priority t; c = queue_of t qm;
          c' = (if ok then c\<lparr>ch_buf := ch_buf c @ [t]\<rparr> else c)
      in highQueue qm' = (if 8 \<le> pr then c' else highQueue qm) \<and>
         medQueue qm' = (if 4 \<le> pr \<and> pr < 8 then c' else medQueue qm) \<and>
         lowQueue qm' = (if pr < 4 then c' else lowQueue qm))"
  by (auto simp: EnqueueTaskWithQoS_def queue_of_def try_send_def case_prod_beta Let_def
      split: option.splits if_splits)

end
