(* ===== verification/ResourcePool.thy ===== *)
theory ResourcePool
  imports GoPrelude
begin

text \<open>
  The data and the node bookkeeping of the resource pool, \<^verbatim>\<open>src/internal/aggregation/resource_pool.go\<close>:
  nodes, reservations, the pool record with its mutex, trace and KPIs, node management, the
  debit and credit of a node's resources, affinity, and the fresh reservation IDs.

  The pool's methods take the mutex explicitly: \<open>snapshotForExplain\<close> takes the read lock, and
  most methods call it while they hold the write lock, where Go's RWMutex makes the caller wait
  for itself. The explanatory payloads of a trace entry (details and snapshot) are left out; the
  locking that computing a snapshot does is not. A node reached through the map is the map's
  entry. Listener goroutines are counted, not run.
\<close>

section \<open>Types\<close>

type_synonym ResourceType = string
type_synonym NODE_STATUS = string
type_synonym vec = "(string, float64) gomap"

definition ResourceCPU :: ResourceType where "ResourceCPU = ''cpu''"
definition ResourceGPU :: ResourceType where "ResourceGPU = ''gpu''"
definition ResourceRAM :: ResourceType where "ResourceRAM = ''ram''"

definition NODE_ONLINE :: NODE_STATUS where "NODE_ONLINE = ''online''"
definition NODE_OFFLINE :: NODE_STATUS where "NODE_OFFLINE = ''offline''"
definition NODE_DEGRADED :: NODE_STATUS where "NODE_DEGRADED = ''degraded''"
definition NODE_MAINT :: NODE_STATUS where "NODE_MAINT = ''maintenance''"

lemmas resource_names = ResourceCPU_def ResourceGPU_def ResourceRAM_def
lemmas status_names = NODE_ONLINE_def NODE_OFFLINE_def NODE_DEGRADED_def NODE_MAINT_def

record NUMANode =
  nu_ID :: string
  nu_Cores :: int
  nu_Memory :: int

record GPUPartition =
  gp_ID :: string
  gp_Memory :: int
  gp_SMs :: int
  gp_Type :: string

record NetworkInterface =
  ni_ID :: string
  ni_Type :: string
  ni_Bandwidth :: int

record ResourceNode =
  n_ID :: string
  n_Provider :: string
  n_Region :: string
  n_Labels :: "(string, string) gomap"
  n_Resources :: "(ResourceType, float64) gomap"
  n_NUMATop :: "NUMANode list"
  n_GPUTop :: "GPUPartition list"
  n_NICs :: "NetworkInterface list"
  n_Status :: NODE_STATUS
  n_TDP :: int
  n_PoolTier :: string
  n_SLO :: vec
  n_LastSeen :: gotime
  n_Meta :: "(string, any) gomap"
  n_Allocated :: "(ResourceType, float64) gomap"

record Reservation =
  r_ID :: string
  r_NodeID :: string
  r_RType :: ResourceType
  r_Requirements :: "(ResourceType, float64) gomap"
  r_Amount :: float64
  r_Priority :: int
  r_Soft :: bool
  r_Affinity :: "string list"
  r_AntiAffinity :: "string list"
  r_SLO :: vec
  r_Start :: gotime
  r_Deadline :: gotime
  r_Policy :: string
  r_CreatedAt :: gotime
  r_Owner :: string
  r_Weights :: vec
  r_enqueuedAt :: gotime

datatype TraceLevel = TraceInfo | TraceWarn | TraceError

record TraceEntry =
  te_Time :: gotime
  te_Level :: TraceLevel
  te_Op :: string
  te_Msg :: string

datatype pool_error =
    ErrNoResource | ErrQueued
  | PolicyNotFound string | PolicyError string
  | NodeNotFound string | NodeDisappeared string
  | ForecastSaturated ResourceType string
  | ReservationNotFound string
  | LoaderNil | VerifierMissing | VerificationFailed string | LoaderError string
  | DSLCompileError string

text \<open>
  A policy is what the pool calls of it: its name and its choice among the nodes, which it
  reads under the read lock. \<open>ForecastHook\<close> answers \<open>None\<close> when it misses the 200 ms deadline.
  Of the hooks that the pool only stores or starts, it is recorded whether they are set.
\<close>

record PoolPolicy =
  p_Name :: string
  p_Allocate :: "(string, ResourceNode) gomap \<Rightarrow> Reservation \<Rightarrow> pool_error + string \<times> vec"

record ResourcePool =
  Mu :: rwmutex
  Nodes :: "(string, ResourceNode) gomap"
  Reserves :: "(string, Reservation) gomap"
  Policies :: "(string, PoolPolicy) gomap"
  KPIs :: vec
  Trace :: "TraceEntry list"
  AutoDev :: bool
  OnChange :: nat
  RebalanceHook :: bool
  ForecastHook :: "(ResourceType \<Rightarrow> string \<Rightarrow> duration \<Rightarrow> float64 option) option"
  autoscalerHook :: bool
  allocatorHook :: bool
  policyVerifier :: "(char list \<Rightarrow> string option) option"
  healthCheckInterval :: duration
  healthTimeout :: duration
  stopHealthCh :: bool
  deadlineInterval :: duration
  stopDeadlineCh :: bool
  TraceMax :: nat
  pendingQueue :: "Reservation list"
  allocatorInterval :: duration
  allocatorStopCh :: bool
  autoscalerInterval :: duration
  autoscalerStopCh :: bool
  notified :: nat

definition rebalThreshold :: float64 where "rebalThreshold = 0.8"
definition maxRepairsPerTick :: nat where "maxRepairsPerTick = 10"

section \<open>Locks, trace and KPIs\<close>

definition Mu_Lock :: "ResourcePool \<Rightarrow> (unit, ResourcePool) outcome" where
  "Mu_Lock rp = (if can_lock (Mu rp) then Returned () (rp\<lparr>Mu := WLocked\<rparr>) else Blocked rp)"

definition Mu_Unlock :: "ResourcePool \<Rightarrow> (unit, ResourcePool) outcome" where
  "Mu_Unlock rp = (if Mu rp = WLocked then Returned () (rp\<lparr>Mu := Unlocked\<rparr>) else Panicked rp)"

definition Mu_RLock :: "ResourcePool \<Rightarrow> (unit, ResourcePool) outcome" where
  "Mu_RLock rp = (if can_rlock (Mu rp) then Returned () (rp\<lparr>Mu := rlock (Mu rp)\<rparr>) else Blocked rp)"

definition Mu_RUnlock :: "ResourcePool \<Rightarrow> (unit, ResourcePool) outcome" where
  "Mu_RUnlock rp =
     (case Mu rp of RLocked n \<Rightarrow> Returned () (rp\<lparr>Mu := runlock (Mu rp)\<rparr>) | _ \<Rightarrow> Panicked rp)"

text \<open>A method body between Lock and a deferred Unlock.\<close>

definition locked ::
    "(ResourcePool \<Rightarrow> ('r, ResourcePool) outcome) \<Rightarrow> ResourcePool \<Rightarrow> ('r, ResourcePool) outcome" where
  "locked body rp =
     andThen (Mu_Lock rp) (\<lambda>_ rp.
     andThen (body rp) (\<lambda>r rp.
     andThen (Mu_Unlock rp) (\<lambda>_ rp. Returned r rp)))"

text \<open>A method that reads under RLock.\<close>

definition read_locked :: "(ResourcePool \<Rightarrow> 'r) \<Rightarrow> ResourcePool \<Rightarrow> ('r, ResourcePool) outcome" where
  "read_locked f rp =
     andThen (Mu_RLock rp) (\<lambda>_ rp.
     let r = f rp in andThen (Mu_RUnlock rp) (\<lambda>_ rp. Returned r rp))"

definition TraceAppend ::
    "TraceLevel \<Rightarrow> string \<Rightarrow> string \<Rightarrow> gotime \<Rightarrow> ResourcePool \<Rightarrow> ResourcePool" where
  "TraceAppend level op msg now rp =
     (let tr = Trace rp @ [\<lparr>te_Time = now, te_Level = level, te_Op = op, te_Msg = msg\<rparr>]
      in rp\<lparr>Trace := if length tr > TraceMax rp then drop (length tr - TraceMax rp) tr else tr\<rparr>)"

definition notify :: "ResourcePool \<Rightarrow> ResourcePool" where
  "notify rp = rp\<lparr>notified := notified rp + OnChange rp\<rparr>"

text \<open>Reading a node for a trace entry: the result is the node's fields, or nil.\<close>

definition snapshotForExplain ::
    "string \<Rightarrow> ResourcePool \<Rightarrow> (ResourceNode option, ResourcePool) outcome" where
  "snapshotForExplain nid rp = read_locked (\<lambda>rp. get (Nodes rp) nid) rp"

text \<open>\<open>rp.TraceAppend(level, op, msg, \<dots>, rp.snapshotForExplain(id))\<close>: the snapshot comes first.\<close>

definition TraceSnapshot ::
    "TraceLevel \<Rightarrow> string \<Rightarrow> string \<Rightarrow> string \<Rightarrow> gotime \<Rightarrow> ResourcePool \<Rightarrow> (unit, ResourcePool) outcome" where
  "TraceSnapshot level op msg nid now rp =
     andThen (snapshotForExplain nid rp) (\<lambda>_ rp. Returned () (TraceAppend level op msg now rp))"

definition sum_nodes :: "(ResourceNode \<Rightarrow> float64) \<Rightarrow> ResourcePool \<Rightarrow> float64" where
  "sum_nodes f rp = sum_list (map (f \<circ> snd) (Nodes rp))"

definition node_total :: "ResourceType \<Rightarrow> ResourceNode \<Rightarrow> float64" where
  "node_total rt n = get0 (n_Resources n) rt + get0 (n_Allocated n) rt"

definition node_used :: "ResourceType \<Rightarrow> ResourceNode \<Rightarrow> float64" where
  "node_used rt n = get0 (n_Allocated n) rt"

definition node_joules :: "ResourceNode \<Rightarrow> float64" where
  "node_joules n =
     (let cpuCap = node_total ResourceCPU n
      in if cpuCap > 0 then of_int (n_TDP n) * (node_used ResourceCPU n / cpuCap) else 0)"

definition utilization :: "ResourceType \<Rightarrow> ResourcePool \<Rightarrow> float64" where
  "utilization rt rp =
     (let total = sum_nodes (node_total rt) rp
      in if total > 0 then sum_nodes (node_used rt) rp / total else 0)"

definition updateKPIsLocked :: "ResourcePool \<Rightarrow> ResourcePool" where
  "updateKPIsLocked rp =
     (let k = put ''utilization_cpu'' (utilization ResourceCPU rp) (KPIs rp);
          k = put ''utilization_gpu'' (utilization ResourceGPU rp) k;
          count = of_nat (length (Reserves rp));
          k = put ''reservations_count'' count k;
          totalJ = sum_nodes node_joules rp;
          k = put ''joules_per_task_estimate'' (if count > 0 then totalJ / count else 0) k
      in rp\<lparr>KPIs := k\<rparr>)"

definition updateAvgAllocLatency :: "float64 \<Rightarrow> ResourcePool \<Rightarrow> ResourcePool" where
  "updateAvgAllocLatency ms rp =
     (let prev = get0 (KPIs rp) ''avg_alloc_latency_ms''
      in if prev = 0 then rp\<lparr>KPIs := put ''avg_alloc_latency_ms'' ms (KPIs rp)\<rparr>
         else rp\<lparr>KPIs := put ''avg_alloc_latency_ms'' (0.2 * ms + (1 - 0.2) * prev) (KPIs rp)\<rparr>)"

definition bump_failed :: "ResourcePool \<Rightarrow> ResourcePool" where
  "bump_failed rp = rp\<lparr>KPIs := put ''failed_allocs'' (get0 (KPIs rp) ''failed_allocs'' + 1) (KPIs rp)\<rparr>"

definition callForecastWithTimeout ::
    "ResourceType \<Rightarrow> string \<Rightarrow> duration \<Rightarrow> ResourcePool \<Rightarrow> (float64, ResourcePool) outcome" where
  "callForecastWithTimeout rt region horizon rp =
     andThen (Mu_RLock rp) (\<lambda>_ rp.
     let hook = ForecastHook rp
     in andThen (Mu_RUnlock rp) (\<lambda>_ rp.
        case hook of
          None \<Rightarrow> Returned 0 rp
        | Some h \<Rightarrow> Returned (case h rt region horizon of Some v \<Rightarrow> v | None \<Rightarrow> 0) rp))"

section \<open>Node management\<close>

definition AddNode_body :: "ResourceNode \<Rightarrow> gotime \<Rightarrow> string \<Rightarrow> ResourcePool \<Rightarrow> (unit, ResourcePool) outcome" where
  "AddNode_body n now op rp =
     (let n = n\<lparr>n_LastSeen := now\<rparr>;
          n = (if n_Status n = '''' then n\<lparr>n_Status := NODE_ONLINE\<rparr> else n);
          rp = rp\<lparr>Nodes := put (n_ID n) n (Nodes rp)\<rparr>
      in TraceSnapshot TraceInfo op ''Node-added'' (n_ID n) now rp)"

definition AddNode :: "ResourceNode \<Rightarrow> gotime \<Rightarrow> ResourcePool \<Rightarrow> (unit, ResourcePool) outcome" where
  "AddNode n now rp =
     andThen (locked (AddNode_body n now ''AddNode'') rp) (\<lambda>_ rp. Returned () (notify rp))"

fun AddNodes_loop :: "ResourceNode list \<Rightarrow> gotime \<Rightarrow> ResourcePool \<Rightarrow> (unit, ResourcePool) outcome" where
  "AddNodes_loop [] now rp = Returned () rp"
| "AddNodes_loop (n # ns) now rp =
     andThen (AddNode_body n now ''AddNodes'' rp) (\<lambda>_ rp. AddNodes_loop ns now rp)"

definition AddNodes :: "ResourceNode list \<Rightarrow> gotime \<Rightarrow> ResourcePool \<Rightarrow> (unit, ResourcePool) outcome" where
  "AddNodes ns now rp =
     andThen (locked (AddNodes_loop ns now) rp) (\<lambda>_ rp. Returned () (notify rp))"

definition RemoveNode :: "string \<Rightarrow> gotime \<Rightarrow> ResourcePool \<Rightarrow> (unit, ResourcePool) outcome" where
  "RemoveNode nid now rp =
     andThen (locked (\<lambda>rp. Returned ()
       (TraceAppend TraceWarn ''RemoveNode'' ''Node-removed'' now (rp\<lparr>Nodes := del nid (Nodes rp)\<rparr>))) rp)
     (\<lambda>_ rp. Returned () (notify rp))"

text \<open>The shape of the three update methods: change the node, stamp it, trace and notify.\<close>

definition update_node ::
    "(ResourceNode \<Rightarrow> ResourceNode) \<Rightarrow> string \<Rightarrow> string \<Rightarrow> string \<Rightarrow> gotime \<Rightarrow> ResourcePool
      \<Rightarrow> (pool_error option, ResourcePool) outcome" where
  "update_node f op msg nid now =
     locked (\<lambda>rp. case get (Nodes rp) nid of
       None \<Rightarrow> Returned (Some (NodeNotFound nid)) rp
     | Some n \<Rightarrow>
         andThen (TraceSnapshot TraceInfo op msg nid now
            (rp\<lparr>Nodes := put nid ((f n)\<lparr>n_LastSeen := now\<rparr>) (Nodes rp)\<rparr>))
         (\<lambda>_ rp. Returned None (notify rp)))"

definition UpdateNodeStatus ::
    "string \<Rightarrow> NODE_STATUS \<Rightarrow> gotime \<Rightarrow> ResourcePool \<Rightarrow> (pool_error option, ResourcePool) outcome" where
  "UpdateNodeStatus nid status now =
     update_node (\<lambda>n. n\<lparr>n_Status := status\<rparr>) ''UpdateNodeStatus'' status nid now"

definition UpdateNodeResources ::
    "string \<Rightarrow> (ResourceType, float64) gomap \<Rightarrow> gotime \<Rightarrow> ResourcePool
      \<Rightarrow> (pool_error option, ResourcePool) outcome" where
  "UpdateNodeResources nid res now =
     update_node (\<lambda>n. n\<lparr>n_Resources := res\<rparr>) ''UpdateNodeResources'' ''updated-resources'' nid now"

definition UpdateNodeMeta ::
    "string \<Rightarrow> (string, string) gomap \<Rightarrow> (string, any) gomap \<Rightarrow> gotime \<Rightarrow> ResourcePool
      \<Rightarrow> (pool_error option, ResourcePool) outcome" where
  "UpdateNodeMeta nid labels meta now =
     update_node (\<lambda>n. n\<lparr>n_Labels := put_all labels (n_Labels n), n_Meta := put_all meta (n_Meta n)\<rparr>)
       ''UpdateNodeMeta'' ''labels-meta-updated'' nid now"

definition GetNodeInfo :: "string \<Rightarrow> ResourcePool \<Rightarrow> (ResourceNode option, ResourcePool) outcome" where
  "GetNodeInfo nid rp = read_locked (\<lambda>rp. get (Nodes rp) nid) rp"

end
