(* ===== verification/PoolBooking.thy ===== *)
theory PoolBooking
  imports ResourcePool
begin

text \<open>
  What a reservation does to a node: the requirements it stands for, the capacity test in its
  two forms, the debit and the credit of a node, affinity matching, and the generation of a
  reservation ID that is not in use (\<^verbatim>\<open>src/internal/aggregation/resource_pool.go\<close>).
\<close>

section \<open>Requirements and capacity\<close>

definition reqs_of :: "Reservation \<Rightarrow> (ResourceType, float64) gomap" where
  "reqs_of req =
     (if r_Requirements req \<noteq> [] then put_all (r_Requirements req) []
      else if r_RType req \<noteq> '''' \<and> r_Amount req > 0 then put (r_RType req) (r_Amount req) []
      else [])"

text \<open>\<open>if avail, ok := n.Resources[rt]; !ok || avail < amt\<close>: an absent resource is refused.\<close>

definition has_capacity :: "(ResourceType, float64) gomap \<Rightarrow> ResourceNode \<Rightarrow> bool" where
  "has_capacity reqs n \<longleftrightarrow>
     list_all (\<lambda>(rt, amt). case get (n_Resources n) rt of None \<Rightarrow> False | Some avail \<Rightarrow> \<not> avail < amt) reqs"

text \<open>\<open>if n.Resources[rt] < amt\<close>: an absent resource counts as zero.\<close>

definition has_capacity0 :: "(ResourceType, float64) gomap \<Rightarrow> ResourceNode \<Rightarrow> bool" where
  "has_capacity0 reqs n \<longleftrightarrow> list_all (\<lambda>(rt, amt). \<not> get0 (n_Resources n) rt < amt) reqs"

definition debit1 :: "ResourceNode \<Rightarrow> ResourceType \<times> float64 \<Rightarrow> ResourceNode" where
  "debit1 n p = (case p of (rt, amt) \<Rightarrow>
     n\<lparr>n_Resources := put rt (get0 (n_Resources n) rt - amt) (n_Resources n),
       n_Allocated := put rt (get0 (n_Allocated n) rt + amt) (n_Allocated n)\<rparr>)"

definition debit :: "(ResourceType, float64) gomap \<Rightarrow> ResourceNode \<Rightarrow> ResourceNode" where
  "debit reqs n = foldl debit1 n reqs"

definition credit1 :: "ResourceNode \<Rightarrow> ResourceType \<times> float64 \<Rightarrow> ResourceNode" where
  "credit1 n p = (case p of (rt, amt) \<Rightarrow>
     n\<lparr>n_Resources := put rt (get0 (n_Resources n) rt + amt) (n_Resources n),
       n_Allocated := put rt (max 0 (get0 (n_Allocated n) rt - amt)) (n_Allocated n)\<rparr>)"

definition credit :: "(ResourceType, float64) gomap \<Rightarrow> ResourceNode \<Rightarrow> ResourceNode" where
  "credit reqs n = foldl credit1 n reqs"

named_theorems booking \<open>what debit and credit do to the fields of a node\<close>

lemma wf_reqs_of [simp]: "wf_map (reqs_of req)"
  by (simp add: reqs_of_def)

lemma has_capacity_imp0: "has_capacity reqs n \<Longrightarrow> has_capacity0 reqs n"
  by (auto simp: has_capacity_def has_capacity0_def list_all_iff get0_def split: option.splits)

lemma has_capacity0_iff:
  "wf_map reqs \<Longrightarrow>
   has_capacity0 reqs n \<longleftrightarrow> (\<forall>rt. has_key reqs rt \<longrightarrow> get0 reqs rt \<le> get0 (n_Resources n) rt)"
proof -
  assume wf: "wf_map reqs"
  have "has_capacity0 reqs n \<longleftrightarrow> (\<forall>rt amt. get reqs rt = Some amt \<longrightarrow> amt \<le> get0 (n_Resources n) rt)"
    by (auto simp: has_capacity0_def list_all_iff get_iff_in_set[OF wf] not_less)
  then show ?thesis by (auto simp: has_key_def get0_def[of reqs])
qed

lemma get0_absent: "\<not> has_key m k \<Longrightarrow> get0 m k = 0"
  by (simp add: has_key_def get0_def)

lemma debit_Nil [simp]: "debit [] n = n"
  by (simp add: debit_def)

lemma debit_Cons: "debit (p # reqs) n = debit reqs (debit1 n p)"
  by (simp add: debit_def)

lemma credit_Nil [simp]: "credit [] n = n"
  by (simp add: credit_def)

lemma credit_Cons: "credit (p # reqs) n = credit reqs (credit1 n p)"
  by (simp add: credit_def)

lemma debit1_fields [simp]:
  "get0 (n_Resources (debit1 n (rt, amt))) k = get0 (n_Resources n) k - (if k = rt then amt else 0)"
  "get0 (n_Allocated (debit1 n (rt, amt))) k = get0 (n_Allocated n) k + (if k = rt then amt else 0)"
  by (simp_all add: debit1_def map_simps)

lemma credit1_fields [simp]:
  "get0 (n_Resources (credit1 n (rt, amt))) k = get0 (n_Resources n) k + (if k = rt then amt else 0)"
  "get0 (n_Allocated (credit1 n (rt, amt))) k =
     (if k = rt then max 0 (get0 (n_Allocated n) k - amt) else get0 (n_Allocated n) k)"
  by (simp_all add: credit1_def map_simps)

text \<open>The fields a booking leaves alone.\<close>

lemma booking1_frame:
  "n_ID (debit1 n p) = n_ID n" "n_Status (debit1 n p) = n_Status n"
  "n_Labels (debit1 n p) = n_Labels n" "n_TDP (debit1 n p) = n_TDP n"
  "n_ID (credit1 n p) = n_ID n" "n_Status (credit1 n p) = n_Status n"
  "n_Labels (credit1 n p) = n_Labels n" "n_TDP (credit1 n p) = n_TDP n"
  by (simp_all add: debit1_def credit1_def split: prod.split)

lemma booking_frame [booking]:
  "n_ID (debit reqs n) = n_ID n" "n_Status (debit reqs n) = n_Status n"
  "n_Labels (debit reqs n) = n_Labels n" "n_TDP (debit reqs n) = n_TDP n"
  "n_ID (credit reqs n) = n_ID n" "n_Status (credit reqs n) = n_Status n"
  "n_Labels (credit reqs n) = n_Labels n" "n_TDP (credit reqs n) = n_TDP n"
  by (induction reqs arbitrary: n) (simp_all add: debit_Cons credit_Cons booking1_frame)

lemma debit_Resources [booking]:
  "wf_map reqs \<Longrightarrow> get0 (n_Resources (debit reqs n)) k = get0 (n_Resources n) k - get0 reqs k"
  by (induction reqs arbitrary: n) (auto simp: debit_Cons wf_map_Cons get0_absent)

lemma debit_Allocated [booking]:
  "wf_map reqs \<Longrightarrow> get0 (n_Allocated (debit reqs n)) k = get0 (n_Allocated n) k + get0 reqs k"
  by (induction reqs arbitrary: n) (auto simp: debit_Cons wf_map_Cons get0_absent)

lemma credit_Resources [booking]:
  "wf_map reqs \<Longrightarrow> get0 (n_Resources (credit reqs n)) k = get0 (n_Resources n) k + get0 reqs k"
  by (induction reqs arbitrary: n) (auto simp: credit_Cons wf_map_Cons get0_absent)

lemma credit_Allocated [booking]:
  "wf_map reqs \<Longrightarrow> get0 (n_Allocated (credit reqs n)) k =
     (if has_key reqs k then max 0 (get0 (n_Allocated n) k - get0 reqs k) else get0 (n_Allocated n) k)"
  by (induction reqs arbitrary: n) (auto simp: credit_Cons wf_map_Cons has_key_def split: if_splits)

text \<open>Free plus allocated capacity.\<close>

lemma debit_total [booking]: "wf_map reqs \<Longrightarrow> node_total k (debit reqs n) = node_total k n"
  by (simp add: node_total_def booking)

lemma credit_total:
  assumes "wf_map reqs" and "get0 reqs k \<le> get0 (n_Allocated n) k"
  shows "node_total k (credit reqs n) = node_total k n"
  using assms by (simp add: node_total_def booking get0_absent)

lemma credit_debit:
  assumes "wf_map reqs" and "0 \<le> get0 (n_Allocated n) k"
  shows "get0 (n_Resources (credit reqs (debit reqs n))) k = get0 (n_Resources n) k"
    and "get0 (n_Allocated (credit reqs (debit reqs n))) k = get0 (n_Allocated n) k"
  using assms by (simp_all add: booking get0_absent)

section \<open>Affinity\<close>

definition label_match :: "string \<Rightarrow> ResourceNode \<Rightarrow> bool" where
  "label_match a n \<longleftrightarrow>
     a = n_ID n \<or>
     (case split_first CHR ''='' a of
        None \<Rightarrow> False
      | Some (k, v) \<Rightarrow> get (n_Labels n) k = Some v)"

definition matchesAffinity :: "ResourceNode \<Rightarrow> Reservation \<Rightarrow> bool" where
  "matchesAffinity n r =
     (if r_Affinity r = [] \<and> r_AntiAffinity r = [] then True
      else if r_Affinity r \<noteq> [] \<and> \<not> list_ex (\<lambda>a. label_match a n) (r_Affinity r) then False
      else \<not> list_ex (\<lambda>a. label_match a n) (r_AntiAffinity r))"

lemma matchesAffinity_iff:
  "matchesAffinity n r \<longleftrightarrow>
     (r_Affinity r = [] \<or> (\<exists>a \<in> set (r_Affinity r). label_match a n)) \<and>
     (\<forall>a \<in> set (r_AntiAffinity r). \<not> label_match a n)"
  by (auto simp: matchesAffinity_def list_ex_iff)

section \<open>Fresh reservation IDs\<close>

text \<open>
  The loop \<open>for i := 1; ; i++\<close> over the candidate IDs, with a bound on the number of rounds;
  one round more than there are reservations is enough.
\<close>

definition suffixed :: "string \<Rightarrow> nat \<Rightarrow> string" where
  "suffixed base i = base @ ''-'' @ dec i"

fun fresh_suffix :: "nat \<Rightarrow> string \<Rightarrow> (string, 'v) gomap \<Rightarrow> nat \<Rightarrow> string option" where
  "fresh_suffix 0 base m i = None"
| "fresh_suffix (Suc fuel) base m i =
     (if has_key m (suffixed base i) then fresh_suffix fuel base m (Suc i)
      else Some (suffixed base i))"

text \<open>\<open>gen\<close> is what \<open>genReservationID\<close> returns.\<close>

definition ensureUniqueReservationIDUnlocked ::
    "string \<Rightarrow> ResourcePool \<Rightarrow> Reservation \<Rightarrow> Reservation option" where
  "ensureUniqueReservationIDUnlocked gen rp r =
     (let r = (if r_ID r = '''' then r\<lparr>r_ID := gen\<rparr> else r)
      in if has_key (Reserves rp) (r_ID r) then
           map_option (\<lambda>i. r\<lparr>r_ID := i\<rparr>)
             (fresh_suffix (Suc (length (Reserves rp))) (r_ID r) (Reserves rp) 1)
         else Some r)"

lemma suffixed_inj: "suffixed base i = suffixed base j \<longleftrightarrow> i = j"
  by (simp add: suffixed_def dec_inj)

lemma fresh_suffix_fresh: "fresh_suffix fuel base m i = Some s \<Longrightarrow> \<not> has_key m s"
  by (induction fuel arbitrary: i) (auto split: if_splits)

lemma fresh_suffix_least:
  "fresh_suffix fuel base m i = Some s \<Longrightarrow>
   \<exists>j \<ge> i. s = suffixed base j \<and> (\<forall>k. i \<le> k \<and> k < j \<longrightarrow> has_key m (suffixed base k))"
proof (induction fuel arbitrary: i)
  case 0
  then show ?case by simp
next
  case (Suc fuel)
  show ?case
  proof (cases "has_key m (suffixed base i)")
    case True
    then have "fresh_suffix fuel base m (Suc i) = Some s" using Suc.prems by simp
    then obtain j where j: "j \<ge> Suc i" "s = suffixed base j"
      "\<forall>k. Suc i \<le> k \<and> k < j \<longrightarrow> has_key m (suffixed base k)" using Suc.IH by blast
    have "\<forall>k. i \<le> k \<and> k < j \<longrightarrow> has_key m (suffixed base k)"
      using j(3) True by (metis Suc_leI le_neq_implies_less)
    then show ?thesis using j by (intro exI[of _ j]) auto
  next
    case False
    then show ?thesis using Suc.prems by (intro exI[of _ i]) auto
  qed
qed

lemma fresh_suffix_None:
  "fresh_suffix fuel base m i = None \<Longrightarrow> suffixed base ` {i..<i + fuel} \<subseteq> fst ` set m"
proof (induction fuel arbitrary: i)
  case 0
  then show ?case by simp
next
  case (Suc fuel)
  then have "has_key m (suffixed base i)" and "fresh_suffix fuel base m (Suc i) = None"
    by (auto split: if_splits)
  moreover have "{i..<i + Suc fuel} = insert i {Suc i..<Suc i + fuel}" by auto
  ultimately show ?case using Suc.IH[of "Suc i"] by (simp add: has_key_iff)
qed

lemma fresh_suffix_enough: "length m < fuel \<Longrightarrow> fresh_suffix fuel base m i \<noteq> None"
proof
  assume fuel: "length m < fuel" and none: "fresh_suffix fuel base m i = None"
  have "card (suffixed base ` {i..<i + fuel}) = fuel"
    by (subst card_image) (auto simp: inj_on_def suffixed_inj)
  moreover have "card (suffixed base ` {i..<i + fuel}) \<le> card (fst ` set m)"
    by (rule card_mono[OF _ fresh_suffix_None[OF none]]) simp
  moreover have "card (fst ` set m) \<le> length m"
    by (metis card_image_le card_length finite_set le_trans)
  ultimately show False using fuel by linarith
qed

lemma ensureUnique_total: "ensureUniqueReservationIDUnlocked gen rp r \<noteq> None"
  using fresh_suffix_enough[of "Reserves rp" "Suc (length (Reserves rp))"]
  by (auto simp: ensureUniqueReservationIDUnlocked_def Let_def)

lemma reqs_of_frame [simp]:
  "reqs_of (r\<lparr>r_ID := x\<rparr>) = reqs_of r" "reqs_of (r\<lparr>r_NodeID := x\<rparr>) = reqs_of r"
  "reqs_of (r\<lparr>r_enqueuedAt := t\<rparr>) = reqs_of r" "reqs_of (r\<lparr>r_CreatedAt := t\<rparr>) = reqs_of r"
  by (simp_all add: reqs_of_def)

text \<open>The reservation as \<open>Allocate\<close> goes on with it differs from the request in its ID only.\<close>

lemma ensureUnique_Some:
  assumes "ensureUniqueReservationIDUnlocked gen rp r = Some r'"
  shows "\<not> has_key (Reserves rp) (r_ID r')" and "r' = r\<lparr>r_ID := r_ID r'\<rparr>"
    and "reqs_of r' = reqs_of r"
proof -
  show eq: "r' = r\<lparr>r_ID := r_ID r'\<rparr>"
    using assms by (auto simp: ensureUniqueReservationIDUnlocked_def Let_def split: if_splits)
  show "reqs_of r' = reqs_of r"
    by (subst eq) simp
  show "\<not> has_key (Reserves rp) (r_ID r')"
    using assms
    by (auto simp: ensureUniqueReservationIDUnlocked_def Let_def split: if_splits
        dest: fresh_suffix_fresh)
qed

end
