(* ===== verification/PoolPolicies.thy ===== *)
theory PoolPolicies
  imports PoolBooking
begin

text \<open>
  The placement policies of the pool: Pareto dominance on score vectors, the fair-share, the
  cost-aware and the expression policy, and the interface through which the pool calls a policy.
  A policy sees the nodes in the order in which the range over the node map visits them.
  Compiling and evaluating an expression is the work of the govaluate package: an expression
  is the function that its \<open>Evaluate\<close> computes, and the compiler is an argument.
\<close>

section \<open>Dominance\<close>

fun dominates_loop :: "vec \<Rightarrow> vec \<Rightarrow> bool \<Rightarrow> bool" where
  "dominates_loop a [] anyGreater = anyGreater"
| "dominates_loop a ((k, bv) # b) anyGreater =
     (case get a k of
        None \<Rightarrow> False
      | Some av \<Rightarrow>
          if av < bv then False else dominates_loop a b (anyGreater \<or> av > bv))"

definition dominates :: "vec \<Rightarrow> vec \<Rightarrow> bool" where
  "dominates a b = dominates_loop a b False"

definition dominatesVec :: "vec \<Rightarrow> vec \<Rightarrow> bool" where
  "dominatesVec a b = (if b = [] then True else dominates_loop a b False)"

lemma dominates_loop_iff:
  "dominates_loop a b g \<longleftrightarrow>
     (\<forall>(k, bv) \<in> set b. \<exists>av. get a k = Some av \<and> bv \<le> av) \<and>
     (g \<or> (\<exists>(k, bv) \<in> set b. \<exists>av. get a k = Some av \<and> bv < av))"
proof (induction b arbitrary: g)
  case Nil
  then show ?case by simp
next
  case (Cons p b)
  obtain k bv where p: "p = (k, bv)" by (cases p)
  show ?case
    by (cases "get a k") (auto simp: p Cons.IH)
qed

lemma dominates_iff:
  "dominates a b \<longleftrightarrow>
     (\<forall>(k, bv) \<in> set b. \<exists>av. get a k = Some av \<and> bv \<le> av) \<and>
     (\<exists>(k, bv) \<in> set b. \<exists>av. get a k = Some av \<and> bv < av)"
  by (simp add: dominates_def dominates_loop_iff)

lemma dominatesVec_eq: "b \<noteq> [] \<Longrightarrow> dominatesVec a b = dominates a b"
  by (simp add: dominatesVec_def dominates_def)

lemma dominates_irrefl: "wf_map a \<Longrightarrow> \<not> dominates a a"
  by (auto simp: dominates_iff get_iff_in_set[symmetric])

lemma dominates_ge:
  assumes "dominates a b" and "get b k = Some bv"
  obtains av where "get a k = Some av" and "bv \<le> av"
  using assms(1) get_in_set[OF assms(2)] by (auto simp: dominates_iff)

lemma dominates_gt:
  assumes "dominates a b"
  obtains k bv av where "(k, bv) \<in> set b" and "get a k = Some av" and "bv < av"
  using assms by (auto simp: dominates_iff)

lemma dominates_trans:
  assumes ab: "dominates a b" and bc: "dominates b c"
  shows "dominates a c"
proof -
  have all: "\<exists>av. get a k = Some av \<and> cv \<le> av" if c: "(k, cv) \<in> set c" for k cv
  proof -
    obtain bv where b: "get b k = Some bv" "cv \<le> bv" using bc c by (auto simp: dominates_iff)
    obtain av where "get a k = Some av" "bv \<le> av" using dominates_ge[OF ab b(1)] .
    then show ?thesis using b(2) by auto
  qed
  obtain k cv bv where c: "(k, cv) \<in> set c" and b: "get b k = Some bv" "cv < bv"
    using dominates_gt[OF bc] .
  obtain av where "get a k = Some av" "bv \<le> av" using dominates_ge[OF ab b(1)] .
  then have "\<exists>(k, cv) \<in> set c. \<exists>av. get a k = Some av \<and> cv < av" using b(2) c by force
  then show ?thesis using all by (auto simp: dominates_iff)
qed

section \<open>The Pareto front\<close>

record candScore =
  cs_Node :: ResourceNode
  cs_Vec :: vec
  cs_Order :: nat

text \<open>The inner loop marks \<open>i\<close> when another candidate dominates it.\<close>

definition IsDominated :: "candScore list \<Rightarrow> nat \<Rightarrow> bool" where
  "IsDominated Scores i \<longleftrightarrow>
     list_ex (\<lambda>j. i \<noteq> j \<and> dominates (cs_Vec (Scores ! j)) (cs_Vec (Scores ! i))) [0..<length Scores]"

definition paretoFrontIndices :: "candScore list \<Rightarrow> nat list" where
  "paretoFrontIndices Scores = filter (\<lambda>i. \<not> IsDominated Scores i) [0..<length Scores]"

lemma IsDominated_iff:
  "IsDominated Scores i \<longleftrightarrow>
     (\<exists>j < length Scores. i \<noteq> j \<and> dominates (cs_Vec (Scores ! j)) (cs_Vec (Scores ! i)))"
  by (auto simp: IsDominated_def list_ex_iff)

text \<open>Dominance is a strict order, so a finite non-empty set of candidates has a front.\<close>

lemma front_nonempty:
  assumes "Scores \<noteq> []" and wf: "\<forall>s \<in> set Scores. wf_map (cs_Vec s)"
  shows "paretoFrontIndices Scores \<noteq> []"
proof -
  let ?I = "{..<length Scores}"
  let ?R = "{(i, j). i < length Scores \<and> j < length Scores \<and>
      dominates (cs_Vec (Scores ! i)) (cs_Vec (Scores ! j))}"
  have sub: "?R \<subseteq> ?I \<times> ?I" by auto
  then have fin: "finite ?R" by (rule finite_subset) simp
  have "trans ?R" by (intro transI) (auto intro: dominates_trans)
  moreover have "irrefl ?R" using wf by (auto simp: irrefl_def dominates_irrefl)
  ultimately have "acyclic ?R" by (simp add: acyclic_irrefl)
  with fin have "wf ?R" by (rule finite_acyclic_wf)
  then obtain i where i: "i \<in> ?I" "\<And>j. (j, i) \<in> ?R \<Longrightarrow> j \<notin> ?I"
    using assms(1) by (metis (no_types, lifting) wfE_min lessThan_iff length_greater_0_conv)
  then have "\<not> IsDominated Scores i" by (auto simp: IsDominated_iff)
  then have "i \<in> set (paretoFrontIndices Scores)" using i by (simp add: paretoFrontIndices_def)
  then show ?thesis by auto
qed

section \<open>The policies\<close>

definition eligible :: "(string, ResourceNode) gomap \<Rightarrow> Reservation \<Rightarrow> ResourceNode list" where
  "eligible nodes req =
     filter (\<lambda>n. n_Status n = NODE_ONLINE \<and> matchesAffinity n req \<and> has_capacity (reqs_of req) n)
       (map snd nodes)"

definition free_capacity :: "ResourceNode \<Rightarrow> float64" where
  "free_capacity n =
     get0 (n_Resources n) ResourceCPU + get0 (n_Resources n) ResourceGPU + get0 (n_Resources n) ResourceRAM"

definition fair_vec :: "ResourceNode \<Rightarrow> vec" where
  "fair_vec n = [(''free_capacity'', free_capacity n), (''energy_score'', - of_int (n_TDP n))]"

definition fair_step :: "ResourceNode \<times> vec \<Rightarrow> ResourceNode \<Rightarrow> ResourceNode \<times> vec" where
  "fair_step best n = (if dominatesVec (fair_vec n) (snd best) then (n, fair_vec n) else best)"

definition DefaultFairShare_Allocate ::
    "(string, ResourceNode) gomap \<Rightarrow> Reservation \<Rightarrow> pool_error + string \<times> vec" where
  "DefaultFairShare_Allocate nodes req =
     (case eligible nodes req of
        [] \<Rightarrow> Inl ErrNoResource
      | n # ns \<Rightarrow>
          let (best, bestVec) = foldl fair_step (n, fair_vec n) ns in Inr (n_ID best, bestVec))"

definition cost_of :: "ResourceNode \<Rightarrow> float64" where
  "cost_of n =
     (case get (n_Meta n) ''cost'' of
        Some (AFloat t) \<Rightarrow> t
      | Some (AInt t) \<Rightarrow> of_int t
      | _ \<Rightarrow> 1)"

record cost_cand =
  cc_Node :: ResourceNode
  cc_Vec :: vec
  cc_score :: efloat

definition cost_cand :: "ResourceNode \<Rightarrow> cost_cand" where
  "cost_cand n =
     \<lparr>cc_Node = n, cc_Vec = [(''free'', free_capacity n), (''cost'', cost_of n)],
      cc_score = fdiv (free_capacity n) (cost_of n)\<rparr>"

definition cost_candidates :: "(string, ResourceNode) gomap \<Rightarrow> Reservation \<Rightarrow> cost_cand list" where
  "cost_candidates nodes req =
     map cost_cand
       (filter (\<lambda>n. n_Status n = NODE_ONLINE \<and> matchesAffinity n req \<and> has_capacity0 (reqs_of req) n)
         (map snd nodes))"

definition cost_before :: "cost_cand \<Rightarrow> cost_cand \<Rightarrow> bool" where
  "cost_before a b \<longleftrightarrow> fless (cc_score b) (cc_score a)"

definition CostAware_Allocate ::
    "(string, ResourceNode) gomap \<Rightarrow> Reservation \<Rightarrow> pool_error + string \<times> vec" where
  "CostAware_Allocate nodes req =
     (case sort_slice cost_before (cost_candidates nodes req) of
        [] \<Rightarrow> Inl ErrNoResource
      | c # _ \<Rightarrow> Inr (n_ID (cc_Node c), cc_Vec c))"

type_synonym params = "(string, any) gomap"
type_synonym expr = "params \<Rightarrow> string + any"

record ExprPolicy =
  ep_name :: string
  ep_exprs :: "(string, expr) gomap"
  ep_Dims :: "string list"
  ep_rawDSL :: string

definition replace_dash :: "string \<Rightarrow> string" where
  "replace_dash s = map (\<lambda>c. if c = CHR ''-'' then CHR ''_'' else c) s"

definition expr_params :: "Reservation \<Rightarrow> ResourceNode \<Rightarrow> params" where
  "expr_params req n =
     put_all (map (\<lambda>(k, v). (''meta_'' @ replace_dash k, v)) (n_Meta n))
       [(''req_amount'', AFloat (r_Amount req)), (''req_priority'', AInt (r_Priority req)),
        (''Node_tdp'', AInt (n_TDP n)), (''Node_pooltier'', AStr (n_PoolTier n)),
        (''Node_region'', AStr (n_Region n)),
        (''Node_cpu'', AFloat (get0 (n_Resources n) ResourceCPU)),
        (''Node_gpu'', AFloat (get0 (n_Resources n) ResourceGPU)),
        (''Node_ram'', AFloat (get0 (n_Resources n) ResourceRAM)),
        (''Node_alloc_cpu'', AFloat (get0 (n_Allocated n) ResourceCPU)),
        (''Node_alloc_gpu'', AFloat (get0 (n_Allocated n) ResourceGPU))]"

text \<open>
  The loop over the dimensions; \<open>None\<close> when the candidate is skipped. A dimension without an
  expression is passed over, an error or a value that is not a number skips the candidate.
\<close>

fun eval_dims :: "(string, expr) gomap \<Rightarrow> params \<Rightarrow> string list \<Rightarrow> vec \<Rightarrow> vec option" where
  "eval_dims exprs ps [] v = Some v"
| "eval_dims exprs ps (d # ds) v =
     (case get exprs d of
        None \<Rightarrow> eval_dims exprs ps ds v
      | Some e \<Rightarrow>
          (case e ps of
             Inl _ \<Rightarrow> None
           | Inr (AFloat f) \<Rightarrow> eval_dims exprs ps ds (put d f v)
           | Inr (AInt i) \<Rightarrow> eval_dims exprs ps ds (put d (of_int i) v)
           | Inr _ \<Rightarrow> None))"

fun expr_scores :: "ExprPolicy \<Rightarrow> Reservation \<Rightarrow> ResourceNode list \<Rightarrow> nat \<Rightarrow> candScore list" where
  "expr_scores p req [] i = []"
| "expr_scores p req (n # ns) i =
     (case eval_dims (ep_exprs p) (expr_params req n) (ep_Dims p) [] of
        None \<Rightarrow> expr_scores p req ns (Suc i)
      | Some v \<Rightarrow> \<lparr>cs_Node = n, cs_Vec = v, cs_Order = i\<rparr> # expr_scores p req ns (Suc i))"

definition expr_weights :: "ExprPolicy \<Rightarrow> Reservation \<Rightarrow> vec" where
  "expr_weights p req =
     (if r_Weights req \<noteq> [] then put_all (r_Weights req) []
      else foldl (\<lambda>w d. put d 1 w) [] (ep_Dims p))"

definition weighted_sum :: "vec \<Rightarrow> vec \<Rightarrow> float64" where
  "weighted_sum w v = sum_list (map (\<lambda>(d, x). get0 w d * x) v)"

text \<open>The loop over the front that keeps the first index of the greatest weighted sum.\<close>

definition best_step :: "(nat \<Rightarrow> float64) \<Rightarrow> efloat \<times> nat \<Rightarrow> nat \<Rightarrow> efloat \<times> nat" where
  "best_step score best idx = (if fless (fst best) (Fin (score idx)) then (Fin (score idx), idx) else best)"

definition ExprPolicy_Allocate ::
    "ExprPolicy \<Rightarrow> (string, ResourceNode) gomap \<Rightarrow> Reservation \<Rightarrow> pool_error + string \<times> vec" where
  "ExprPolicy_Allocate p nodes req =
     (let Cands = eligible nodes req
      in if Cands = [] then Inl ErrNoResource
         else
           let Scores = expr_scores p req Cands 0
           in if Scores = [] then Inl ErrNoResource
              else
                let Indices = paretoFrontIndices Scores
                in case Indices of
                     [i] \<Rightarrow> Inr (n_ID (cs_Node (Scores ! i)), cs_Vec (Scores ! i))
                   | _ \<Rightarrow>
                       let w = expr_weights p req;
                           best = snd (foldl (best_step (\<lambda>i. weighted_sum w (cs_Vec (Scores ! i))))
                                    (NegInf, hd Indices) Indices)
                       in Inr (n_ID (cs_Node (Scores ! best)), cs_Vec (Scores ! best)))"

definition DefaultFairSharePolicy :: PoolPolicy where
  "DefaultFairSharePolicy = \<lparr>p_Name = ''default-fairshare'', p_Allocate = DefaultFairShare_Allocate\<rparr>"

definition CostAwarePolicy :: PoolPolicy where
  "CostAwarePolicy = \<lparr>p_Name = ''cost-aware'', p_Allocate = CostAware_Allocate\<rparr>"

definition expr_policy :: "ExprPolicy \<Rightarrow> PoolPolicy" where
  "expr_policy p = \<lparr>p_Name = ep_name p, p_Allocate = ExprPolicy_Allocate p\<rparr>"

section \<open>What the policies choose\<close>

text \<open>Two nodes compared by their fair-share vectors.\<close>

lemma fair_vec_dominates:
  "dominates (fair_vec a) (fair_vec b) \<longleftrightarrow>
     free_capacity b \<le> free_capacity a \<and> n_TDP a \<le> n_TDP b \<and>
     (free_capacity b < free_capacity a \<or> n_TDP a < n_TDP b)"
  by (simp add: dominates_iff fair_vec_def)

lemma fair_fold:
  assumes "b0 \<in> S" and "\<forall>x \<in> S. \<not> dominates (fair_vec x) (fair_vec b0)"
  shows "\<exists>b \<in> S \<union> set ns. foldl fair_step (b0, fair_vec b0) ns = (b, fair_vec b) \<and>
           (\<forall>x \<in> S \<union> set ns. \<not> dominates (fair_vec x) (fair_vec b))"
  using assms
proof (induction ns arbitrary: b0 S)
  case Nil
  then show ?case by auto
next
  case (Cons n ns)
  show ?case
  proof (cases "dominates (fair_vec n) (fair_vec b0)")
    case True
    then have step: "fair_step (b0, fair_vec b0) n = (n, fair_vec n)"
      by (simp add: fair_step_def dominatesVec_eq fair_vec_def[of b0])
    have "\<not> dominates (fair_vec n) (fair_vec n)" by (simp add: fair_vec_dominates)
    then have "\<forall>x \<in> insert n S. \<not> dominates (fair_vec x) (fair_vec n)"
      using Cons.prems(2) dominates_trans[OF _ True] by blast
    then show ?thesis using Cons.IH[of n "insert n S"] step by auto
  next
    case False
    then have step: "fair_step (b0, fair_vec b0) n = (b0, fair_vec b0)"
      by (simp add: fair_step_def dominatesVec_eq fair_vec_def[of b0])
    then show ?thesis using Cons.IH[of b0 "insert n S"] Cons.prems False by auto
  qed
qed

lemma DefaultFairShare_choice:
  assumes "DefaultFairShare_Allocate nodes req = Inr (nid, v)"
  shows "\<exists>n \<in> set (eligible nodes req). nid = n_ID n \<and> v = fair_vec n \<and>
           (\<forall>m \<in> set (eligible nodes req). \<not> dominates (fair_vec m) (fair_vec n))"
proof -
  obtain n ns where e: "eligible nodes req = n # ns"
    using assms by (auto simp: DefaultFairShare_Allocate_def split: list.splits)
  obtain b where "b \<in> set (n # ns)" "foldl fair_step (n, fair_vec n) ns = (b, fair_vec b)"
    "\<forall>x \<in> set (n # ns). \<not> dominates (fair_vec x) (fair_vec b)"
    using fair_fold[of n "{n}" ns] by (auto simp: fair_vec_dominates)
  then show ?thesis using assms e by (auto simp: DefaultFairShare_Allocate_def)
qed

definition cost_eligible :: "(string, ResourceNode) gomap \<Rightarrow> Reservation \<Rightarrow> ResourceNode set" where
  "cost_eligible nodes req =
     {n \<in> snd ` set nodes. n_Status n = NODE_ONLINE \<and> matchesAffinity n req \<and> has_capacity0 (reqs_of req) n}"

lemma cost_candidates_set: "set (cost_candidates nodes req) = cost_cand ` cost_eligible nodes req"
  by (auto simp: cost_candidates_def cost_eligible_def)

text \<open>Sorting by descending score puts a greatest element first.\<close>

interpretation by_score: key_order "\<lambda>a b. fneg (score a) < fneg (score b)" "\<lambda>c. fneg (score c)"
  for score :: "'a \<Rightarrow> efloat"
  by unfold_locales simp

lemma desc_sort_hd:
  fixes score :: "'a \<Rightarrow> efloat"
  assumes "\<forall>c \<in> set cs. score c \<noteq> NaN" and "c \<in> set cs"
  shows "score c \<le> score (hd (sort_slice (\<lambda>a b. fless (score b) (score a)) cs))"
proof -
  let ?s = "sort_slice (\<lambda>a b. fless (score b) (score a)) cs"
  have same: "?s = sort_slice (\<lambda>a b. fneg (score a) < fneg (score b)) cs"
    using assms(1) by (intro sort_slice_cong) (simp add: fless_iff fneg_less)
  have "hd ?s \<in> set ?s" using assms(2) by (metis hd_in_set sort_slice_eq_Nil empty_iff empty_set)
  then have "hd ?s \<in> set cs" by simp
  then show ?thesis
    using by_score.hd_sort_slice[OF assms(2), of score] assms fneg_le same by metis
qed

lemma cost_sort_hd:
  assumes "\<forall>c \<in> set cs. cc_score c \<noteq> NaN" and "c \<in> set cs"
  shows "cc_score c \<le> cc_score (hd (sort_slice cost_before cs))"
  using desc_sort_hd[OF assms] by (simp add: cost_before_def[abs_def])

lemma CostAware_choice:
  assumes "CostAware_Allocate nodes req = Inr (nid, v)"
  shows "\<exists>n \<in> cost_eligible nodes req. nid = n_ID n"
    and "(\<And>m. m \<in> cost_eligible nodes req \<Longrightarrow> 0 < cost_of m) \<Longrightarrow>
         \<exists>n \<in> cost_eligible nodes req. nid = n_ID n \<and>
           (\<forall>m \<in> cost_eligible nodes req. free_capacity m / cost_of m \<le> free_capacity n / cost_of n)"
proof -
  let ?cs = "cost_candidates nodes req"
  obtain c cs where s: "sort_slice cost_before ?cs = c # cs" and c: "nid = n_ID (cc_Node c)"
    using assms by (auto simp: CostAware_Allocate_def split: list.splits)
  have "c \<in> set (sort_slice cost_before ?cs)" using s by simp
  then obtain n where n: "n \<in> cost_eligible nodes req" "c = cost_cand n"
    by (auto simp: cost_candidates_set)
  then show "\<exists>n \<in> cost_eligible nodes req. nid = n_ID n" using c by (auto simp: cost_cand_def)
  assume pos: "\<And>m. m \<in> cost_eligible nodes req \<Longrightarrow> 0 < cost_of m"
  have score: "cc_score (cost_cand m) = Fin (free_capacity m / cost_of m)"
    if "m \<in> cost_eligible nodes req" for m
    using pos[OF that] by (simp add: cost_cand_def fdiv_def)
  have "cc_score (cost_cand m) \<le> cc_score c" if "m \<in> cost_eligible nodes req" for m
    using cost_sort_hd[of ?cs "cost_cand m"] that score by (auto simp: cost_candidates_set s)
  then show "\<exists>n \<in> cost_eligible nodes req. nid = n_ID n \<and>
      (\<forall>m \<in> cost_eligible nodes req. free_capacity m / cost_of m \<le> free_capacity n / cost_of n)"
    using n c score by (intro bexI[of _ n]) (auto simp: cost_cand_def)
qed

lemma eval_dims_wf: "eval_dims exprs ps ds v = Some w \<Longrightarrow> wf_map v \<Longrightarrow> wf_map w"
  by (induction ds arbitrary: v) (auto split: option.splits sum.splits any.splits)

lemma expr_scores_member:
  "s \<in> set (expr_scores p req ns i) \<Longrightarrow>
   cs_Node s \<in> set ns \<and> eval_dims (ep_exprs p) (expr_params req (cs_Node s)) (ep_Dims p) [] = Some (cs_Vec s)"
  by (induction ns arbitrary: i) (auto split: option.splits)

lemma best_step_fold:
  fixes "is" :: "nat list"
  assumes "fst b = NegInf \<or> fst b = Fin (score (snd b))"
  defines "r \<equiv> foldl (best_step score) b is"
  shows "(fst r = NegInf \<or> fst r = Fin (score (snd r))) \<and> fst b \<le> fst r \<and>
     (\<forall>j \<in> set is. Fin (score j) \<le> fst r) \<and> snd r \<in> insert (snd b) (set is)"
  using assms(1) unfolding r_def
proof (induction "is" arbitrary: b)
  case Nil
  then show ?case by simp
next
  case (Cons i "is")
  let ?b = "best_step score b i"
  have b: "fst ?b = Fin (score (snd ?b))" "fst b \<le> fst ?b" "Fin (score i) \<le> fst ?b"
    "snd ?b \<in> {snd b, i}"
    using Cons.prems by (auto simp: best_step_def)
  let ?r = "foldl (best_step score) ?b is"
  have IH: "fst ?r = NegInf \<or> fst ?r = Fin (score (snd ?r))" "fst ?b \<le> fst ?r"
    "\<forall>j \<in> set is. Fin (score j) \<le> fst ?r" "snd ?r \<in> insert (snd ?b) (set is)"
    using Cons.IH[of ?b] b(1) by blast+
  have "fst b \<le> fst ?r" and "Fin (score i) \<le> fst ?r" using b(2,3) IH(2) by (blast intro: order_trans)+
  then show ?case using IH b(4) by auto
qed

text \<open>Started as the code does, the loop returns a maximum of the list.\<close>

lemma best_step_max:
  fixes score :: "nat \<Rightarrow> float64"
  assumes "is \<noteq> []"
  defines "b \<equiv> snd (foldl (best_step score) (NegInf, hd is) is)"
  shows "b \<in> set is" and "\<forall>j \<in> set is. score j \<le> score b"
proof -
  let ?r = "foldl (best_step score) (NegInf, hd is) is"
  have r: "fst ?r = NegInf \<or> fst ?r = Fin (score (snd ?r))"
    "\<forall>j \<in> set is. Fin (score j) \<le> fst ?r" "snd ?r \<in> insert (hd is) (set is)"
    using best_step_fold[of "(NegInf, hd is)" score "is"] by auto
  then show "b \<in> set is" using assms(1) by (auto simp: b_def)
  have "Fin (score (hd is)) \<le> fst ?r" using r(2) assms(1) by simp
  then have "fst ?r = Fin (score b)" using r(1) by (auto simp: b_def)
  then show "\<forall>j \<in> set is. score j \<le> score b" using r(2) by auto
qed

lemma ExprPolicy_choice:
  assumes "ExprPolicy_Allocate p nodes req = Inr (nid, v)"
  defines "Scores \<equiv> expr_scores p req (eligible nodes req) 0"
  shows "\<exists>i \<in> set (paretoFrontIndices Scores).
           nid = n_ID (cs_Node (Scores ! i)) \<and> v = cs_Vec (Scores ! i) \<and>
           (\<forall>j \<in> set (paretoFrontIndices Scores).
              weighted_sum (expr_weights p req) (cs_Vec (Scores ! j)) \<le>
              weighted_sum (expr_weights p req) (cs_Vec (Scores ! i)))"
proof -
  let ?I = "paretoFrontIndices Scores"
  let ?f = "\<lambda>i. weighted_sum (expr_weights p req) (cs_Vec (Scores ! i))"
  let ?b = "snd (foldl (best_step ?f) (NegInf, hd ?I) ?I)"
  have ne: "eligible nodes req \<noteq> []" "Scores \<noteq> []"
    using assms by (auto simp: ExprPolicy_Allocate_def Let_def split: if_splits)
  have "\<forall>s \<in> set Scores. wf_map (cs_Vec s)"
    unfolding Scores_def by (auto dest!: expr_scores_member eval_dims_wf)
  then have front: "?I \<noteq> []" using ne front_nonempty by blast
  have pick: "(nid, v) = (n_ID (cs_Node (Scores ! ?b)), cs_Vec (Scores ! ?b))"
    using assms(1) ne front
    by (auto simp: ExprPolicy_Allocate_def Let_def Scores_def[symmetric] best_step_def
        split: list.splits)
  show ?thesis using best_step_max[OF front, of ?f] pick by blast
qed

section \<open>The policy interface\<close>

text \<open>
  What the pool relies on when it calls a policy: a chosen node is online, respects the
  affinities and holds the requirements; a failure is \<open>ErrNoResource\<close>.
\<close>

definition suitable :: "Reservation \<Rightarrow> ResourceNode \<Rightarrow> bool" where
  "suitable req n \<longleftrightarrow>
     n_Status n = NODE_ONLINE \<and> matchesAffinity n req \<and> has_capacity0 (reqs_of req) n"

definition nodes_ok :: "(string, ResourceNode) gomap \<Rightarrow> bool" where
  "nodes_ok nodes \<longleftrightarrow> wf_map nodes \<and> (\<forall>(k, n) \<in> set nodes. n_ID n = k)"

locale pool_policy =
  fixes alloc :: "(string, ResourceNode) gomap \<Rightarrow> Reservation \<Rightarrow> pool_error + string \<times> vec"
  assumes alloc_suitable:
      "alloc nodes req = Inr (nid, v) \<Longrightarrow> \<exists>n \<in> snd ` set nodes. n_ID n = nid \<and> suitable req n"
    and alloc_error: "alloc nodes req = Inl e \<Longrightarrow> e = ErrNoResource"
begin

lemma alloc_registered:
  assumes "nodes_ok nodes" and "alloc nodes req = Inr (nid, v)"
  shows "\<exists>n. get nodes nid = Some n \<and> n_ID n = nid \<and> suitable req n"
proof -
  obtain k n where "(k, n) \<in> set nodes" "n_ID n = nid" "suitable req n"
    using alloc_suitable[OF assms(2)] by auto
  then show ?thesis using assms(1) by (auto simp: nodes_ok_def get_iff_in_set)
qed

lemma alloc_enough:
  assumes "nodes_ok nodes" and "alloc nodes req = Inr (nid, v)" and "get nodes nid = Some n"
  shows "has_key (reqs_of req) rt \<Longrightarrow> get0 (reqs_of req) rt \<le> get0 (n_Resources n) rt"
  using alloc_registered[OF assms(1,2)] assms(3) by (auto simp: suitable_def has_capacity0_iff)

end

lemma eligible_suitable: "n \<in> set (eligible nodes req) \<Longrightarrow> n \<in> snd ` set nodes \<and> suitable req n"
  by (auto simp: eligible_def suitable_def has_capacity_imp0)

interpretation fair: pool_policy DefaultFairShare_Allocate
proof
  show "\<exists>n \<in> snd ` set nodes. n_ID n = nid \<and> suitable req n"
    if "DefaultFairShare_Allocate nodes req = Inr (nid, v)" for nodes req nid v
    using DefaultFairShare_choice[OF that] eligible_suitable by blast
  show "e = ErrNoResource" if "DefaultFairShare_Allocate nodes req = Inl e" for nodes req e
    using that by (auto simp: DefaultFairShare_Allocate_def split: list.splits prod.splits)
qed

interpretation cost: pool_policy CostAware_Allocate
proof
  show "\<exists>n \<in> snd ` set nodes. n_ID n = nid \<and> suitable req n"
    if "CostAware_Allocate nodes req = Inr (nid, v)" for nodes req nid v
    using CostAware_choice(1)[OF that] by (auto simp: cost_eligible_def suitable_def)
  show "e = ErrNoResource" if "CostAware_Allocate nodes req = Inl e" for nodes req e
    using that by (auto simp: CostAware_Allocate_def split: list.splits)
qed

interpretation expr: pool_policy "ExprPolicy_Allocate p" for p
proof
  show "\<exists>n \<in> snd ` set nodes. n_ID n = nid \<and> suitable req n"
    if chosen: "ExprPolicy_Allocate p nodes req = Inr (nid, v)" for nodes req nid v
  proof -
    let ?S = "expr_scores p req (eligible nodes req) 0"
    obtain i where "i < length ?S" "nid = n_ID (cs_Node (?S ! i))"
      using ExprPolicy_choice[OF chosen] by (auto simp: paretoFrontIndices_def)
    then show ?thesis using expr_scores_member eligible_suitable nth_mem by metis
  qed
  show "e = ErrNoResource" if "ExprPolicy_Allocate p nodes req = Inl e" for nodes req e
    using that by (auto simp: ExprPolicy_Allocate_def Let_def split: if_splits list.splits)
qed

end
