(* ===== verification/SchedAlgos.thy ===== *)
theory SchedAlgos
  imports PoolPolicies "HOL-Library.Product_Lexorder"
begin

text \<open>
  The scheduler's algorithms, \<^verbatim>\<open>src/internal/scheduler/advanced.go\<close>: the task model, reading the
  requirements out of a task's payload, the affinity check, and the seven built-in algorithms
  behind the interface \<open>SchedulerAlgorithm\<close>.

  An algorithm object is its mutable state; its \<open>Schedule\<close> returns the decisions and the state
  afterwards. Of an explanation the node that it names is kept, not the wording. The algorithms
  that look for the best node share one loop (\<open>best_node\<close>) and one pass over the tasks
  (\<open>assign\<close>), which the code repeats in each of them. Clock readings during one call are one
  value, \<open>now\<close>. Scores that divide use \<open>efloat\<close>, so a zero divisor gives the infinity that Go
  computes.
\<close>

section \<open>Tasks\<close>

record Task =
  t_ID :: string
  t_Type :: string
  t_Payload :: "(string, any) gomap"
  t_Priority :: int
  t_Deadline :: gotime
  t_Affinity :: "string list"
  t_Region :: string
  t_Status :: string
  t_AssignedTo :: string
  t_SLO :: "(string, any) gomap"
  t_CreatedAt :: gotime
  t_UpdatedAt :: gotime
  t_Owner :: string

datatype sched_error = NoNodesAvailable | NoNodes | LoadedError string

type_synonym telemetry = "(string, any) gomap"
type_synonym decisions = "(string, string) gomap"
type_synonym meta = "(string, any) gomap option"

section \<open>Requirements\<close>

fun num_of :: "any \<Rightarrow> float64 option" where
  "num_of (AFloat f) = Some f"
| "num_of (AInt i) = Some (of_int i)"
| "num_of _ = None"

definition put_num :: "string \<Rightarrow> any option \<Rightarrow> vec \<Rightarrow> vec" where
  "put_num k v m =
     (case v of None \<Rightarrow> m | Some a \<Rightarrow> (case num_of a of None \<Rightarrow> m | Some f \<Rightarrow> put k f m))"

fun put_nums :: "(string \<times> any) list \<Rightarrow> vec \<Rightarrow> vec" where
  "put_nums [] m = m"
| "put_nums ((k, a) # ps) m = put_nums ps (put_num k (Some a) m)"

definition parseRequirementsFromPayload :: "(string, any) gomap \<Rightarrow> vec" where
  "parseRequirementsFromPayload payload =
     (case get payload ''requirements'' of
        Some (AFloats m) \<Rightarrow> put_all m []
      | Some (AMap m) \<Rightarrow> put_nums m []
      | Some _ \<Rightarrow> []
      | None \<Rightarrow>
          put_num ResourceRAM (get payload ''ram'')
            (put_num ResourceGPU (get payload ''gpu'')
              (put_num ResourceCPU (get payload ''cpu'') [])))"

definition bsonRequirementsFromTask :: "Task \<Rightarrow> vec" where
  "bsonRequirementsFromTask t = parseRequirementsFromPayload (t_Payload t)"

lemma wf_put_num [simp]: "wf_map m \<Longrightarrow> wf_map (put_num k v m)"
  by (simp add: put_num_def split: option.split)

lemma wf_put_nums [simp]: "wf_map m \<Longrightarrow> wf_map (put_nums ps m)"
  by (induction ps m rule: put_nums.induct) auto

lemma wf_requirements [simp]: "wf_map (bsonRequirementsFromTask t)"
  by (simp add: bsonRequirementsFromTask_def parseRequirementsFromPayload_def split: option.split any.split)

section \<open>Affinity\<close>

text \<open>The loops over the affinities and the anti-affinities, as they are written.\<close>

fun shim_any :: "ResourceNode \<Rightarrow> string list \<Rightarrow> bool" where
  "shim_any n [] \<longleftrightarrow> False"
| "shim_any n (a # as) \<longleftrightarrow>
     (if a = n_ID n then True
      else case split_first CHR ''='' a of
             Some (k, v) \<Rightarrow> if get (n_Labels n) k = Some v then True else shim_any n as
           | None \<Rightarrow> shim_any n as)"

definition aggregationMatchesAffinityShim :: "ResourceNode \<Rightarrow> string list \<Rightarrow> string list \<Rightarrow> bool" where
  "aggregationMatchesAffinityShim n affinity anti =
     (if affinity = [] \<and> anti = [] then True
      else if affinity \<noteq> [] \<and> \<not> shim_any n affinity then False
      else \<not> shim_any n anti)"

lemma shim_any_iff: "shim_any n as \<longleftrightarrow> (\<exists>a \<in> set as. label_match a n)"
  by (induction "as") (auto simp: label_match_def split: option.split)

lemma shim_iff:
  "aggregationMatchesAffinityShim n affinity anti \<longleftrightarrow>
     (affinity = [] \<or> (\<exists>a \<in> set affinity. label_match a n)) \<and> (\<forall>a \<in> set anti. \<not> label_match a n)"
  by (auto simp: aggregationMatchesAffinityShim_def shim_any_iff)

text \<open>\<open>aggregationMatchesAffinityShim(n, Reservation{Affinity: t.Affinity})\<close>\<close>

definition task_matches :: "Task \<Rightarrow> ResourceNode \<Rightarrow> bool" where
  "task_matches t n \<longleftrightarrow> aggregationMatchesAffinityShim n (t_Affinity t) []"

definition task_fits :: "Task \<Rightarrow> ResourceNode \<Rightarrow> bool" where
  "task_fits t n \<longleftrightarrow> task_matches t n \<and> has_capacity0 (bsonRequirementsFromTask t) n"

section \<open>The two shared loops\<close>

text \<open>\<open>best := -1; bestScore := math.Inf(-1)\<close>, then the strict maximum from the left.\<close>

fun best_loop ::
    "(ResourceNode \<Rightarrow> bool) \<Rightarrow> (ResourceNode \<Rightarrow> efloat) \<Rightarrow> ResourceNode list
      \<Rightarrow> ResourceNode option \<Rightarrow> efloat \<Rightarrow> ResourceNode option" where
  "best_loop ok score [] best bestScore = best"
| "best_loop ok score (n # ns) best bestScore =
     (if \<not> ok n then best_loop ok score ns best bestScore
      else if fless bestScore (score n) then best_loop ok score ns (Some n) (score n)
      else best_loop ok score ns best bestScore)"

definition best_node ::
    "(ResourceNode \<Rightarrow> bool) \<Rightarrow> (ResourceNode \<Rightarrow> efloat) \<Rightarrow> ResourceNode list \<Rightarrow> ResourceNode option" where
  "best_node ok score ns = best_loop ok score ns None NegInf"

lemma best_loop_ok:
  "best_loop ok score ns best bs = Some n \<Longrightarrow> best = Some n \<or> (n \<in> set ns \<and> ok n)"
proof (induction ns arbitrary: best bs)
  case Nil
  then show ?case by simp
next
  case (Cons x ns)
  show ?case
  proof (cases "ok x \<and> fless bs (score x)")
    case True
    then have "Some x = Some n \<or> (n \<in> set ns \<and> ok n)"
      using Cons.prems Cons.IH[of "Some x" "score x"] by simp
    then show ?thesis using True by auto
  next
    case False
    then have "best_loop ok score ns best bs = Some n" using Cons.prems by (simp split: if_splits)
    then show ?thesis using Cons.IH[of best bs] by auto
  qed
qed

lemma best_loop_max:
  assumes "best_loop ok score ns best bs = Some n" and "bs \<noteq> NaN" and "\<forall>m \<in> set ns. score m \<noteq> NaN"
    and "best \<noteq> None \<longrightarrow> bs = score (the best)" and "best = None \<longrightarrow> bs = NegInf"
  shows "bs \<le> score n \<and> (\<forall>m \<in> set ns. ok m \<longrightarrow> score m \<le> score n)"
  using assms
proof (induction ns arbitrary: best bs)
  case Nil
  then show ?case by simp
next
  case (Cons x ns)
  show ?case
  proof (cases "ok x \<and> fless bs (score x)")
    case True
    have run: "best_loop ok score ns (Some x) (score x) = Some n" using Cons.prems(1) True by simp
    have "score x \<le> score n \<and> (\<forall>m \<in> set ns. ok m \<longrightarrow> score m \<le> score n)"
      by (rule Cons.IH[OF run]) (use Cons.prems(3) in simp_all)
    moreover have "bs \<le> score x" using True Cons.prems(2,3) fless_iff[of bs "score x"] by (simp add: less_imp_le)
    ultimately show ?thesis by (auto intro: order_trans)
  next
    case False
    then have run: "best_loop ok score ns best bs = Some n" using Cons.prems(1) by (simp split: if_splits)
    have "bs \<le> score n \<and> (\<forall>m \<in> set ns. ok m \<longrightarrow> score m \<le> score n)"
      by (rule Cons.IH[OF run Cons.prems(2) _ Cons.prems(4,5)]) (use Cons.prems(3) in simp)
    moreover have "ok x \<Longrightarrow> score x \<le> bs"
      using False Cons.prems(2,3) fless_iff[of bs "score x"] by auto
    ultimately show ?thesis by (auto intro: order_trans)
  qed
qed

lemma best_loop_keeps: "best_loop ok score ns (Some b) bs \<noteq> None"
  by (induction ns arbitrary: b bs) auto

lemma best_loop_found:
  assumes "m \<in> set ns" and "ok m" and "\<exists>x. score m = Fin x"
  shows "best_loop ok score ns best NegInf \<noteq> None"
  using assms(1)
proof (induction ns arbitrary: best)
  case Nil
  then show ?case by simp
next
  case (Cons x ns)
  show ?case
  proof (cases "x = m")
    case True
    then show ?thesis using assms best_loop_keeps by auto
  next
    case False
    then show ?thesis using Cons best_loop_keeps by auto
  qed
qed

lemma best_node_ok: "best_node ok score ns = Some n \<Longrightarrow> n \<in> set ns \<and> ok n"
  unfolding best_node_def using best_loop_ok[of ok score ns None NegInf n] by simp

lemma best_node_max:
  "best_node ok score ns = Some n \<Longrightarrow> \<forall>m \<in> set ns. score m \<noteq> NaN \<Longrightarrow>
   \<forall>m \<in> set ns. ok m \<longrightarrow> score m \<le> score n"
  using best_loop_max[of ok score ns None NegInf n] unfolding best_node_def by simp

lemma best_node_None:
  assumes "\<forall>m \<in> set ns. \<exists>x. score m = Fin x"
  shows "best_node ok score ns = None \<longleftrightarrow> (\<forall>m \<in> set ns. \<not> ok m)"
proof
  assume none: "best_node ok score ns = None"
  show "\<forall>m \<in> set ns. \<not> ok m"
  proof (intro ballI notI)
    fix m assume "m \<in> set ns" "ok m"
    then show False using best_loop_found[of m ns ok score None] assms none by (auto simp: best_node_def)
  qed
next
  assume "\<forall>m \<in> set ns. \<not> ok m"
  then show "best_node ok score ns = None" 
    by (cases "best_node ok score ns") (auto dest: best_node_ok)
qed

text \<open>The pass over the tasks: \<open>out[t.ID] = n.ID\<close> when a node was found, and the explanation.\<close>

definition assign1 ::
    "(Task \<Rightarrow> ResourceNode option) \<Rightarrow> decisions \<times> decisions \<Rightarrow> Task \<Rightarrow> decisions \<times> decisions" where
  "assign1 pick acc t =
     (case pick t of
        None \<Rightarrow> acc
      | Some n \<Rightarrow> (put (t_ID t) (n_ID n) (fst acc), put (t_ID t) (n_ID n) (snd acc)))"

definition assign ::
    "(Task \<Rightarrow> ResourceNode option) \<Rightarrow> Task list \<Rightarrow> decisions \<times> decisions \<Rightarrow> decisions \<times> decisions" where
  "assign pick tasks acc = foldl (assign1 pick) acc tasks"

lemma assign_Nil [simp]: "assign pick [] acc = acc"
  by (simp add: assign_def)

lemma assign_Cons [simp]: "assign pick (t # ts) acc = assign pick ts (assign1 pick acc t)"
  by (simp add: assign_def)

lemma assign_wf: "wf_map (fst acc) \<Longrightarrow> wf_map (fst (assign pick tasks acc))"
  by (induction tasks arbitrary: acc) (auto simp: assign1_def split: option.split)

text \<open>A task's decision is the last one among the tasks with its ID.\<close>

lemma assign_get:
  "get (fst (assign pick tasks acc)) i =
     (case filter (\<lambda>t. t_ID t = i \<and> pick t \<noteq> None) tasks of
        [] \<Rightarrow> get (fst acc) i
      | ts \<Rightarrow> map_option n_ID (pick (last ts)))"
proof (induction tasks arbitrary: acc)
  case Nil
  then show ?case by simp
next
  case (Cons t tasks)
  have "get (fst (assign1 pick acc t)) i =
      (if t_ID t = i \<and> pick t \<noteq> None then map_option n_ID (pick t) else get (fst acc) i)"
    by (auto simp: assign1_def map_simps split: option.split)
  then show ?case
    by (cases "t_ID t = i \<and> pick t \<noteq> None") (auto simp: Cons split: list.split)
qed

lemma assign_Some:
  assumes "get (fst (assign pick tasks ([], e))) i = Some nid"
  shows "\<exists>t \<in> set tasks. \<exists>n. t_ID t = i \<and> pick t = Some n \<and> n_ID n = nid"
proof -
  let ?ts = "filter (\<lambda>t. t_ID t = i \<and> pick t \<noteq> None) tasks"
  have ne: "?ts \<noteq> []" and eq: "map_option n_ID (pick (last ?ts)) = Some nid"
    using assms by (auto simp: assign_get split: list.splits)
  have "last ?ts \<in> set ?ts" using ne by (rule last_in_set)
  then show ?thesis using eq by auto
qed

text \<open>With distinct IDs the order of the tasks does not matter.\<close>

lemma assign_get_distinct:
  assumes "distinct (map t_ID tasks)" and "t \<in> set tasks"
  shows "get (fst (assign pick tasks ([], e))) (t_ID t) = map_option n_ID (pick t)"
proof -
  have "filter (\<lambda>s. t_ID s = t_ID t) tasks = [t]"
  proof -
    obtain ys zs where "tasks = ys @ t # zs" using split_list[OF assms(2)] by blast
    moreover from this have "filter (\<lambda>s. t_ID s = t_ID t) ys = []" "filter (\<lambda>s. t_ID s = t_ID t) zs = []"
      using assms(1) by (simp_all add: filter_empty_conv) (metis image_eqI)+
    ultimately show ?thesis by simp
  qed
  moreover have "filter (\<lambda>s. t_ID s = t_ID t \<and> pick s \<noteq> None) tasks =
      filter (\<lambda>s. pick s \<noteq> None) (filter (\<lambda>s. t_ID s = t_ID t) tasks)" by (simp add: filter_filter)
  ultimately have "filter (\<lambda>s. t_ID s = t_ID t \<and> pick s \<noteq> None) tasks = (if pick t = None then [] else [t])"
    by simp
  then show ?thesis by (auto simp: assign_get)
qed

lemma assign_perm:
  assumes "distinct (map t_ID tasks)" and "mset tasks' = mset tasks"
  shows "get (fst (assign pick tasks' ([], e))) = get (fst (assign pick tasks ([], e)))"
proof
  fix i
  have "mset (map t_ID tasks') = mset (map t_ID tasks)" using assms(2) by simp
  then have d: "distinct (map t_ID tasks')" using assms(1) mset_eq_imp_distinct_iff by blast
  have s: "set tasks' = set tasks" using assms(2) by (metis set_mset_mset)
  show "get (fst (assign pick tasks' ([], e))) i = get (fst (assign pick tasks ([], e))) i"
  proof (cases "\<exists>t \<in> set tasks. t_ID t = i")
    case True
    then show ?thesis using assign_get_distinct[OF d] assign_get_distinct[OF assms(1)] s by auto
  next
    case False
    then have "filter (\<lambda>t. t_ID t = i \<and> pick t \<noteq> None) ts = []" if "set ts = set tasks" for ts
      using that by (auto simp: filter_empty_conv)
    then show ?thesis using s by (simp add: assign_get)
  qed
qed

section \<open>The algorithms\<close>

record RoundRobinAlgo =
  rr_idx :: nat
  rr_name :: string
  rr_lastExplain :: decisions

text \<open>The fields of the cost, energy, fair-share, throughput and deadline algorithms.\<close>

record AlgoState =
  al_name :: string
  al_lastExplain :: decisions

record LearningAlgo =
  la_name :: string
  la_memory :: "(string, telemetry) gomap"
  la_lastExplain :: decisions

definition NewRoundRobinAlgo :: "string \<Rightarrow> RoundRobinAlgo" where
  "NewRoundRobinAlgo nm = \<lparr>rr_idx = 0, rr_name = nm, rr_lastExplain = []\<rparr>"

definition NewAlgoState :: "string \<Rightarrow> AlgoState" where
  "NewAlgoState nm = \<lparr>al_name = nm, al_lastExplain = []\<rparr>"

definition NewLearningAlgo :: "string \<Rightarrow> LearningAlgo" where
  "NewLearningAlgo nm = \<lparr>la_name = nm, la_memory = [], la_lastExplain = []\<rparr>"

text \<open>Round robin: the first matching node from the cursor on, else the node under the cursor.\<close>

definition rr_find :: "nat \<Rightarrow> Task \<Rightarrow> ResourceNode list \<Rightarrow> nat option" where
  "rr_find start t nodes =
     find (\<lambda>j. task_matches t (nodes ! j)) (map (\<lambda>i. (start + i) mod length nodes) [0..<length nodes])"

definition RoundRobin_step ::
    "ResourceNode list \<Rightarrow> nat \<times> decisions \<times> decisions \<Rightarrow> Task \<Rightarrow> nat \<times> decisions \<times> decisions" where
  "RoundRobin_step nodes st t =
     (let (idx, out, ex) = st; len = length nodes;
          (assigned, idx) = (case rr_find (idx mod len) t nodes of
                               None \<Rightarrow> ('''', idx)
                             | Some j \<Rightarrow> (n_ID (nodes ! j), (j + 1) mod len));
          (assigned, idx) = (if assigned = '''' then (n_ID (nodes ! (idx mod len)), (idx + 1) mod len)
                             else (assigned, idx))
      in (idx, put (t_ID t) assigned out, put (t_ID t) assigned ex))"

definition RoundRobin_Schedule ::
    "RoundRobinAlgo \<Rightarrow> Task list \<Rightarrow> ResourceNode list \<Rightarrow> telemetry
      \<Rightarrow> (sched_error + decisions \<times> meta) \<times> RoundRobinAlgo" where
  "RoundRobin_Schedule rr tasks nodes tel =
     (if nodes = [] then (Inl NoNodesAvailable, rr)
      else
        let (idx, out, ex) = foldl (RoundRobin_step nodes) (rr_idx rr, [], rr_lastExplain rr) tasks
        in (Inr (out, None), rr\<lparr>rr_idx := idx, rr_lastExplain := ex\<rparr>))"

text \<open>The shape that the other algorithms share: pick a node for each task.\<close>

definition run_assign ::
    "(Task \<Rightarrow> ResourceNode option) \<Rightarrow> AlgoState \<Rightarrow> Task list \<Rightarrow> ResourceNode list
      \<Rightarrow> (sched_error + decisions \<times> meta) \<times> AlgoState" where
  "run_assign pick a tasks nodes =
     (if nodes = [] then (Inl NoNodes, a)
      else
        let (out, ex) = assign pick tasks ([], al_lastExplain a)
        in (Inr (out, None), a\<lparr>al_lastExplain := ex\<rparr>))"

definition cost_score :: "ResourceNode \<Rightarrow> efloat" where
  "cost_score n = fdiv (free_capacity n) (cost_of n + 1 / 1000000)"

definition cost_pick :: "ResourceNode list \<Rightarrow> Task \<Rightarrow> ResourceNode option" where
  "cost_pick nodes t =
     (case sort_slice (\<lambda>a b. fless (cost_score b) (cost_score a)) (filter (task_fits t) nodes) of
        [] \<Rightarrow> None
      | c # _ \<Rightarrow> Some c)"

definition CostAware_Schedule ::
    "AlgoState \<Rightarrow> Task list \<Rightarrow> ResourceNode list \<Rightarrow> telemetry
      \<Rightarrow> (sched_error + decisions \<times> meta) \<times> AlgoState" where
  "CostAware_Schedule a tasks nodes tel = run_assign (cost_pick nodes) a tasks nodes"

definition energy_score :: "ResourceNode \<Rightarrow> efloat" where
  "energy_score n = Fin (free_capacity n - 0.05 * of_int (n_TDP n))"

definition energy_pick :: "ResourceNode list \<Rightarrow> Task \<Rightarrow> ResourceNode option" where
  "energy_pick nodes t = best_node (task_fits t) energy_score nodes"

definition EnergyAware_Schedule ::
    "AlgoState \<Rightarrow> Task list \<Rightarrow> ResourceNode list \<Rightarrow> telemetry
      \<Rightarrow> (sched_error + decisions \<times> meta) \<times> AlgoState" where
  "EnergyAware_Schedule a tasks nodes tel = run_assign (energy_pick nodes) a tasks nodes"

definition ownerUsage :: "telemetry \<Rightarrow> vec" where
  "ownerUsage tel =
     (case get tel ''owner_usage'' of
        Some (AFloats m) \<Rightarrow> m
      | Some (AMap mm) \<Rightarrow> put_nums mm []
      | _ \<Rightarrow> [])"

fun fadd :: "efloat \<Rightarrow> float64 \<Rightarrow> efloat" where
  "fadd (Fin a) b = Fin (a + b)"
| "fadd x b = x"

definition fair_score :: "vec \<Rightarrow> Task \<Rightarrow> ResourceNode \<Rightarrow> efloat" where
  "fair_score usage t n = fadd (fdiv 1 (1 + get0 usage (t_Owner t))) (free_capacity n * 0.001)"

definition FairShare_Schedule ::
    "AlgoState \<Rightarrow> Task list \<Rightarrow> ResourceNode list \<Rightarrow> telemetry
      \<Rightarrow> (sched_error + decisions \<times> meta) \<times> AlgoState" where
  "FairShare_Schedule a tasks nodes tel =
     run_assign (\<lambda>t. best_node (task_fits t) (fair_score (ownerUsage tel) t) nodes) a tasks nodes"

definition expected_runtime :: "Task \<Rightarrow> float64" where
  "expected_runtime t =
     (case get (t_Payload t) ''expected_runtime'' of Some (AFloat f) \<Rightarrow> f | _ \<Rightarrow> 1000000000)"

definition throughput_score :: "ResourceNode \<Rightarrow> efloat" where
  "throughput_score n = Fin (free_capacity n)"

definition Throughput_Schedule ::
    "AlgoState \<Rightarrow> Task list \<Rightarrow> ResourceNode list \<Rightarrow> telemetry
      \<Rightarrow> (sched_error + decisions \<times> meta) \<times> AlgoState" where
  "Throughput_Schedule a tasks nodes tel =
     run_assign (\<lambda>t. best_node (task_fits t) throughput_score nodes) a
       (sort_slice (\<lambda>s t. expected_runtime s < expected_runtime t) tasks) nodes"

text \<open>The learning algorithm's round robin starts at 0 in each call and skips a task that no node matches.\<close>

definition Learning_step ::
    "ResourceNode list \<Rightarrow> nat \<times> decisions \<times> decisions \<Rightarrow> Task \<Rightarrow> nat \<times> decisions \<times> decisions" where
  "Learning_step nodes st t =
     (case st of (idx, out, ex) \<Rightarrow>
        (case rr_find idx t nodes of
           None \<Rightarrow> (idx, out, ex)
         | Some j \<Rightarrow>
             ((idx + 1) mod length nodes, put (t_ID t) (n_ID (nodes ! j)) out,
              put (t_ID t) (n_ID (nodes ! j)) ex)))"

definition cpuUtil :: "telemetry \<Rightarrow> float64" where
  "cpuUtil tel = (case get tel ''kpis'' of Some (AFloats m) \<Rightarrow> get0 m ''utilization_cpu'' | _ \<Rightarrow> 0)"

definition Learning_Schedule ::
    "LearningAlgo \<Rightarrow> Task list \<Rightarrow> ResourceNode list \<Rightarrow> telemetry
      \<Rightarrow> (sched_error + decisions \<times> meta) \<times> LearningAlgo" where
  "Learning_Schedule la tasks nodes tel =
     (if nodes = [] then (Inl NoNodes, la)
      else
        let useEnergy = cpuUtil tel > 0.7;
            (out, ex) = (if useEnergy then assign (energy_pick nodes) tasks ([], la_lastExplain la)
                         else snd (foldl (Learning_step nodes) (0, [], la_lastExplain la) tasks))
        in (Inr (out, Some [(''policy'', AStr ''learning-stub''), (''use_energy'', ABool useEnergy)]),
            la\<lparr>la_memory := put ''last_telemetry'' tel (la_memory la), la_lastExplain := ex\<rparr>))"

definition deadline_before :: "Task \<Rightarrow> Task \<Rightarrow> bool" where
  "deadline_before a b \<longleftrightarrow>
     (if t_Priority a \<noteq> t_Priority b then t_Priority a > t_Priority b
      else if IsZero (t_Deadline a) \<and> IsZero (t_Deadline b) then t_CreatedAt a < t_CreatedAt b
      else if IsZero (t_Deadline a) then False
      else if IsZero (t_Deadline b) then True
      else t_Deadline a < t_Deadline b)"

definition deadline_score :: "gotime \<Rightarrow> Task \<Rightarrow> ResourceNode \<Rightarrow> efloat" where
  "deadline_score now t n =
     (let score = (if t_Region t \<noteq> '''' \<and> n_Region n = t_Region t then 10 else 0) + free_capacity n;
          rem = Seconds (t_Deadline t - now)
      in Fin (if IsZero (t_Deadline t) then score
              else if rem > 0 then score + 1 / (rem + 1)
              else score + 1000))"

definition DeadlineFirst_Schedule ::
    "gotime \<Rightarrow> AlgoState \<Rightarrow> Task list \<Rightarrow> ResourceNode list \<Rightarrow> telemetry
      \<Rightarrow> (sched_error + decisions \<times> meta) \<times> AlgoState" where
  "DeadlineFirst_Schedule now a tasks nodes tel =
     run_assign (\<lambda>t. best_node (task_fits t) (deadline_score now t) nodes) a
       (sort_slice deadline_before tasks) nodes"

section \<open>The interface\<close>

text \<open>
  An algorithm that came through a loader is what the scheduler calls of it: name, decisions,
  explanation.
\<close>

datatype explanation = ChoseNode string | DefaultText | Text string

record LoadedAlgo =
  ld_name :: string
  ld_Schedule :: "Task list \<Rightarrow> ResourceNode list \<Rightarrow> telemetry \<Rightarrow> sched_error + decisions \<times> meta"
  ld_Explain :: "string \<Rightarrow> string"

datatype SchedulerAlgorithm =
    RoundRobin RoundRobinAlgo
  | CostAware AlgoState
  | EnergyAware AlgoState
  | FairShare AlgoState
  | Throughput AlgoState
  | Learning LearningAlgo
  | DeadlineFirst AlgoState
  | Loaded LoadedAlgo

definition or_default :: "string \<Rightarrow> string \<Rightarrow> string" where
  "or_default nm d = (if nm = '''' then d else nm)"

fun Algo_Name :: "SchedulerAlgorithm \<Rightarrow> string" where
  "Algo_Name (RoundRobin a) = or_default (rr_name a) ''round-robin''"
| "Algo_Name (CostAware a) = or_default (al_name a) ''cost-aware''"
| "Algo_Name (EnergyAware a) = or_default (al_name a) ''energy-aware''"
| "Algo_Name (FairShare a) = or_default (al_name a) ''fair-share''"
| "Algo_Name (Throughput a) = or_default (al_name a) ''throughput''"
| "Algo_Name (Learning a) = or_default (la_name a) ''learning''"
| "Algo_Name (DeadlineFirst a) = or_default (al_name a) ''deadline-first''"
| "Algo_Name (Loaded a) = ld_name a"

fun Algo_Schedule ::
    "gotime \<Rightarrow> SchedulerAlgorithm \<Rightarrow> Task list \<Rightarrow> ResourceNode list \<Rightarrow> telemetry
      \<Rightarrow> (sched_error + decisions \<times> meta) \<times> SchedulerAlgorithm" where
  "Algo_Schedule now (RoundRobin a) ts ns tel = map_prod id RoundRobin (RoundRobin_Schedule a ts ns tel)"
| "Algo_Schedule now (CostAware a) ts ns tel = map_prod id CostAware (CostAware_Schedule a ts ns tel)"
| "Algo_Schedule now (EnergyAware a) ts ns tel = map_prod id EnergyAware (EnergyAware_Schedule a ts ns tel)"
| "Algo_Schedule now (FairShare a) ts ns tel = map_prod id FairShare (FairShare_Schedule a ts ns tel)"
| "Algo_Schedule now (Throughput a) ts ns tel = map_prod id Throughput (Throughput_Schedule a ts ns tel)"
| "Algo_Schedule now (Learning a) ts ns tel = map_prod id Learning (Learning_Schedule a ts ns tel)"
| "Algo_Schedule now (DeadlineFirst a) ts ns tel =
     map_prod id DeadlineFirst (DeadlineFirst_Schedule now a ts ns tel)"
| "Algo_Schedule now (Loaded a) ts ns tel = (ld_Schedule a ts ns tel, Loaded a)"

definition explained :: "decisions \<Rightarrow> string \<Rightarrow> explanation" where
  "explained ex tid = (case get ex tid of Some n \<Rightarrow> ChoseNode n | None \<Rightarrow> DefaultText)"

fun Algo_ExplainDecision :: "SchedulerAlgorithm \<Rightarrow> string \<Rightarrow> explanation" where
  "Algo_ExplainDecision (RoundRobin a) tid = explained (rr_lastExplain a) tid"
| "Algo_ExplainDecision (CostAware a) tid = explained (al_lastExplain a) tid"
| "Algo_ExplainDecision (EnergyAware a) tid = explained (al_lastExplain a) tid"
| "Algo_ExplainDecision (FairShare a) tid = explained (al_lastExplain a) tid"
| "Algo_ExplainDecision (Throughput a) tid = explained (al_lastExplain a) tid"
| "Algo_ExplainDecision (Learning a) tid = explained (la_lastExplain a) tid"
| "Algo_ExplainDecision (DeadlineFirst a) tid = explained (al_lastExplain a) tid"
| "Algo_ExplainDecision (Loaded a) tid = Text (ld_Explain a tid)"

end
