(* ===== verification/SchedCorrect.thy ===== *)
theory SchedCorrect
  imports SchedAlgos
begin

text \<open>
  Correctness of the scheduler's algorithms: the contract of the interface as a locale, every
  built-in algorithm as an instance of it, optimality of the scoring algorithms, the order of
  round robin, and what the sorting of the tasks is (not) worth.
\<close>

section \<open>The contract\<close>

locale scheduler_algorithm =
  fixes run :: "'st \<Rightarrow> Task list \<Rightarrow> ResourceNode list \<Rightarrow> telemetry \<Rightarrow> (sched_error + decisions \<times> meta) \<times> 'st"
  assumes no_nodes: "\<exists>e. run st ts [] tel = (Inl e, st)"
    and decides: "ns \<noteq> [] \<Longrightarrow> \<exists>out m. fst (run st ts ns tel) = Inr (out, m) \<and> wf_map out"
    and known: "fst (run st ts ns tel) = Inr (out, m) \<Longrightarrow> get out i = Some nid \<Longrightarrow>
          \<exists>t \<in> set ts. \<exists>n \<in> set ns. t_ID t = i \<and> n_ID n = nid"
begin

lemma error_iff: "(\<exists>e. fst (run st ts ns tel) = Inl e) \<longleftrightarrow> ns = []"
proof (cases "ns = []")
  case True
  obtain e where "run st ts [] tel = (Inl e, st)" using no_nodes by blast
  then show ?thesis using True by simp
next
  case False
  obtain out m where "fst (run st ts ns tel) = Inr (out, m)" using decides[OF False] by blast
  then show ?thesis using False by simp
qed

lemma domain: "fst (run st ts ns tel) = Inr (out, m) \<Longrightarrow> fst ` set out \<subseteq> t_ID ` set ts"
proof
  fix i assume r: "fst (run st ts ns tel) = Inr (out, m)" and "i \<in> fst ` set out"
  then have "has_key out i" by (simp add: has_key_iff)
  then obtain nid where "get out i = Some nid" by (auto simp: has_key_def)
  then show "i \<in> t_ID ` set ts" using known[OF r] by blast
qed

lemma at_most_one_each:
  assumes "fst (run st ts ns tel) = Inr (out, m)"
  shows "length out \<le> length ts"
proof -
  have "ns \<noteq> []" using error_iff[of st ts ns tel] assms by auto
  then have "distinct (map fst out)" using decides[of ns st ts tel] assms by (auto simp: wf_map_def)
  then have "length out = card (fst ` set out)" by (metis distinct_card length_map set_map)
  also have "\<dots> \<le> card (t_ID ` set ts)" using domain[OF assms] by (simp add: card_mono)
  also have "\<dots> \<le> length ts" by (metis card_image_le card_length finite_set le_trans)
  finally show ?thesis .
qed

end

text \<open>Algorithms that check affinity and capacity.\<close>

locale fitting_algorithm = scheduler_algorithm run
  for run :: "'st \<Rightarrow> Task list \<Rightarrow> ResourceNode list \<Rightarrow> telemetry \<Rightarrow> (sched_error + decisions \<times> meta) \<times> 'st" +
  assumes fits: "fst (run st ts ns tel) = Inr (out, m) \<Longrightarrow> get out i = Some nid \<Longrightarrow>
          \<exists>t \<in> set ts. \<exists>n \<in> set ns. t_ID t = i \<and> n_ID n = nid \<and> task_fits t n"
begin

lemma hard_affinity_respected:
  assumes "fst (run st ts ns tel) = Inr (out, m)" and "distinct (map t_ID ts)" and "t \<in> set ts"
    and "get out (t_ID t) = Some nid"
  shows "\<exists>n \<in> set ns. n_ID n = nid \<and> task_fits t n"
proof -
  obtain s n where "s \<in> set ts" "n \<in> set ns" "t_ID s = t_ID t" "n_ID n = nid" "task_fits s n"
    using fits[OF assms(1,4)] by blast
  moreover from this have "s = t" using assms(2,3) by (auto simp: distinct_map inj_on_def)
  ultimately show ?thesis by blast
qed

end

section \<open>Every built-in algorithm keeps it\<close>

text \<open>A pass that assigns each task a fitting node.\<close>

lemma run_assign_decides:
  "ns \<noteq> [] \<Longrightarrow> fst (run_assign pick a ts ns) = Inr (fst (assign pick ts ([], al_lastExplain a)), None)"
  by (simp add: run_assign_def split: prod.split)

lemma run_assign_no_nodes: "run_assign pick a ts [] = (Inl NoNodes, a)"
  by (simp add: run_assign_def)

lemma fitting_run_assign:
  assumes "\<And>tel ns t n. pick tel ns t = Some n \<Longrightarrow> n \<in> set ns \<and> task_fits t n"
    and "\<And>ts. set (order ts) = set ts"
  shows "fitting_algorithm (\<lambda>a ts ns tel. run_assign (pick tel ns) a (order ts) ns)"
proof
  show "\<exists>e. run_assign (pick tel []) a (order ts) [] = (Inl e, a)" for a ts tel
    by (simp add: run_assign_no_nodes)
  show "\<exists>out m. fst (run_assign (pick tel ns) a (order ts) ns) = Inr (out, m) \<and> wf_map out"
    if "ns \<noteq> []" for ns a ts tel
    using that by (simp add: run_assign_decides assign_wf)
  show fits: "\<exists>t \<in> set ts. \<exists>n \<in> set ns. t_ID t = i \<and> n_ID n = nid \<and> task_fits t n"
    if "fst (run_assign (pick tel ns) a (order ts) ns) = Inr (out, m)" "get out i = Some nid"
    for a ts ns tel out m i nid
  proof -
    have "ns \<noteq> []" using that(1) by (auto simp: run_assign_no_nodes)
    then have "get (fst (assign (pick tel ns) (order ts) ([], al_lastExplain a))) i = Some nid"
      using that by (simp add: run_assign_decides)
    then show ?thesis using assign_Some assms by metis
  qed
  then show "\<exists>t \<in> set ts. \<exists>n \<in> set ns. t_ID t = i \<and> n_ID n = nid"
    if "fst (run_assign (pick tel ns) a (order ts) ns) = Inr (out, m)" "get out i = Some nid"
    for a ts ns tel out m i nid
    using that by blast
qed

lemma cost_pick_ok: "cost_pick ns t = Some n \<Longrightarrow> n \<in> set ns \<and> task_fits t n"
proof -
  let ?f = "sort_slice (\<lambda>a b. fless (cost_score b) (cost_score a)) (filter (task_fits t) ns)"
  assume "cost_pick ns t = Some n"
  then obtain cs where "?f = n # cs" by (auto simp: cost_pick_def split: list.splits)
  then have "n \<in> set ?f" by (metis list.set_intros(1))
  then show ?thesis by simp
qed

lemma best_node_fits: "best_node (task_fits t) score ns = Some n \<Longrightarrow> n \<in> set ns \<and> task_fits t n"
  by (rule best_node_ok)

interpretation cost_algo: fitting_algorithm CostAware_Schedule
  unfolding CostAware_Schedule_def[abs_def]
  by (rule fitting_run_assign[of "\<lambda>tel ns. cost_pick ns" "\<lambda>ts. ts"]) (simp_all add: cost_pick_ok)

interpretation energy_algo: fitting_algorithm EnergyAware_Schedule
  unfolding EnergyAware_Schedule_def[abs_def]
  by (rule fitting_run_assign[of "\<lambda>tel ns. energy_pick ns" "\<lambda>ts. ts"])
     (simp_all add: energy_pick_def best_node_fits)

interpretation fair_algo: fitting_algorithm FairShare_Schedule
  unfolding FairShare_Schedule_def[abs_def]
  by (rule fitting_run_assign[of
        "\<lambda>tel ns t. best_node (task_fits t) (fair_score (ownerUsage tel) t) ns" "\<lambda>ts. ts"])
     (simp_all add: best_node_fits)

interpretation throughput_algo: fitting_algorithm Throughput_Schedule
  unfolding Throughput_Schedule_def[abs_def]
  by (rule fitting_run_assign[of "\<lambda>tel ns t. best_node (task_fits t) throughput_score ns"
        "sort_slice (\<lambda>s t. expected_runtime s < expected_runtime t)"])
     (simp_all add: best_node_fits)

interpretation deadline_algo: fitting_algorithm "DeadlineFirst_Schedule now" for now
  unfolding DeadlineFirst_Schedule_def[abs_def]
  by (rule fitting_run_assign[of "\<lambda>tel ns t. best_node (task_fits t) (deadline_score now t) ns"
        "sort_slice deadline_before"])
     (simp_all add: best_node_fits)

text \<open>Round robin.\<close>

lemma rr_find_range: "ns \<noteq> [] \<Longrightarrow> rr_find s t ns = Some j \<Longrightarrow> j < length ns \<and> task_matches t (ns ! j)"
  by (auto simp: rr_find_def find_Some_iff)

lemma RoundRobin_step_out:
  assumes "ns \<noteq> []"
  shows "\<exists>n \<in> set ns. \<exists>idx'. RoundRobin_step ns (idx, out, ex) t =
    (idx', put (t_ID t) (n_ID n) out, put (t_ID t) (n_ID n) ex)"
proof -
  have mod: "ns ! (k mod length ns) \<in> set ns" for k using assms by simp
  show ?thesis
  proof (cases "rr_find (idx mod length ns) t ns")
    case None
    then show ?thesis using mod[of idx] by (auto simp: RoundRobin_step_def Let_def)
  next
    case (Some j)
    have "ns ! j \<in> set ns" using rr_find_range[OF assms Some] by simp
    then show ?thesis
      using Some mod[of "(j + 1) mod length ns"]
      by (cases "n_ID (ns ! j) = ''''") (auto simp: RoundRobin_step_def Let_def)
  qed
qed

lemma RoundRobin_fold:
  assumes "ns \<noteq> []" and "wf_map out"
    and "\<And>i nid. get out i = Some nid \<Longrightarrow> \<exists>t \<in> S. \<exists>n \<in> set ns. t_ID t = i \<and> n_ID n = nid"
  shows "let r = foldl (RoundRobin_step ns) (idx, out, ex) ts in wf_map (fst (snd r)) \<and>
    (\<forall>i nid. get (fst (snd r)) i = Some nid \<longrightarrow>
       (\<exists>t \<in> S \<union> set ts. \<exists>n \<in> set ns. t_ID t = i \<and> n_ID n = nid))"
  using assms(2,3)
proof (induction ts arbitrary: idx out ex S)
  case Nil
  then show ?case by (simp add: Let_def)
next
  case (Cons t ts)
  obtain n idx' where n: "n \<in> set ns" "RoundRobin_step ns (idx, out, ex) t =
      (idx', put (t_ID t) (n_ID n) out, put (t_ID t) (n_ID n) ex)"
    using RoundRobin_step_out[OF assms(1)] by blast
  have "wf_map (put (t_ID t) (n_ID n) out)" using Cons.prems(1) by simp
  moreover have "\<exists>s \<in> insert t S. \<exists>m \<in> set ns. t_ID s = i \<and> n_ID m = nid"
    if "get (put (t_ID t) (n_ID n) out) i = Some nid" for i nid
    using that n(1) Cons.prems(2) by (auto simp: map_simps split: if_splits)
  ultimately show ?case
    using Cons.IH[of "put (t_ID t) (n_ID n) out" "insert t S" idx' "put (t_ID t) (n_ID n) ex"] n(2)
    by (simp add: Let_def)
qed

lemma RoundRobin_fst:
  "ns \<noteq> [] \<Longrightarrow> fst (RoundRobin_Schedule rr ts ns tel) =
     Inr (fst (snd (foldl (RoundRobin_step ns) (rr_idx rr, [], rr_lastExplain rr) ts)), None)"
  by (simp add: RoundRobin_Schedule_def Let_def split: prod.split)

interpretation rr_algo: scheduler_algorithm RoundRobin_Schedule
proof
  show "\<exists>e. RoundRobin_Schedule st ts [] tel = (Inl e, st)" for st ts tel
    by (simp add: RoundRobin_Schedule_def)
next
  fix ns :: "ResourceNode list" and st ts and tel :: telemetry
  assume ns: "ns \<noteq> []"
  show "\<exists>out m. fst (RoundRobin_Schedule st ts ns tel) = Inr (out, m) \<and> wf_map out"
    using RoundRobin_fold[OF ns, of "[]" "{}" "rr_idx st" "rr_lastExplain st" ts]
    by (simp add: RoundRobin_fst[OF ns] Let_def)
next
  fix st ts and ns :: "ResourceNode list" and tel :: telemetry and out m i nid
  assume a: "fst (RoundRobin_Schedule st ts ns tel) = Inr (out, m)" "get out i = Some nid"
  then have ns: "ns \<noteq> []" by (auto simp: RoundRobin_Schedule_def)
  show "\<exists>t \<in> set ts. \<exists>n \<in> set ns. t_ID t = i \<and> n_ID n = nid"
    using RoundRobin_fold[OF ns, of "[]" "{}" "rr_idx st" "rr_lastExplain st" ts] a
    by (simp add: RoundRobin_fst[OF ns] Let_def)
qed

lemma Learning_fold:
  assumes "ns \<noteq> []" and "wf_map out"
    and "\<And>i nid. get out i = Some nid \<Longrightarrow> \<exists>t \<in> S. \<exists>n \<in> set ns. t_ID t = i \<and> n_ID n = nid"
  shows "let r = foldl (Learning_step ns) (idx, out, ex) ts in wf_map (fst (snd r)) \<and>
    (\<forall>i nid. get (fst (snd r)) i = Some nid \<longrightarrow>
       (\<exists>t \<in> S \<union> set ts. \<exists>n \<in> set ns. t_ID t = i \<and> n_ID n = nid))"
  using assms(2,3)
proof (induction ts arbitrary: idx out ex S)
  case Nil
  then show ?case by (simp add: Let_def)
next
  case (Cons t ts)
  show ?case
  proof (cases "rr_find idx t ns")
    case None
    have "\<exists>s \<in> insert t S. \<exists>n \<in> set ns. t_ID s = i \<and> n_ID n = nid" if "get out i = Some nid" for i nid
      using Cons.prems(2)[OF that] by blast
    then show ?thesis
      using Cons.IH[of out "insert t S" idx ex] Cons.prems(1) None by (simp add: Learning_step_def Let_def)
  next
    case (Some j)
    let ?n = "ns ! j"
    have n: "?n \<in> set ns" using rr_find_range[OF assms(1) Some] by simp
    have "\<exists>s \<in> insert t S. \<exists>m \<in> set ns. t_ID s = i \<and> n_ID m = nid"
      if "get (put (t_ID t) (n_ID ?n) out) i = Some nid" for i nid
      using that n Cons.prems(2) by (auto simp: map_simps split: if_splits)
    then show ?thesis
      using Cons.IH[of "put (t_ID t) (n_ID ?n) out" "insert t S" "(idx + 1) mod length ns"
          "put (t_ID t) (n_ID ?n) ex"] Cons.prems(1) Some
      by (simp add: Learning_step_def Let_def)
  qed
qed

lemma Learning_fst:
  "ns \<noteq> [] \<Longrightarrow> \<exists>m. fst (Learning_Schedule la ts ns tel) =
     Inr (fst (if cpuUtil tel > 0.7 then assign (energy_pick ns) ts ([], la_lastExplain la)
               else snd (foldl (Learning_step ns) (0, [], la_lastExplain la) ts)), m)"
  by (simp add: Learning_Schedule_def Let_def split: prod.split)

interpretation learning_algo: scheduler_algorithm Learning_Schedule
proof
  show "\<exists>e. Learning_Schedule st ts [] tel = (Inl e, st)" for st ts tel
    by (simp add: Learning_Schedule_def)
next
  fix ns :: "ResourceNode list" and st ts and tel :: telemetry
  assume ns: "ns \<noteq> []"
  then obtain m where m: "fst (Learning_Schedule st ts ns tel) =
      Inr (fst (if cpuUtil tel > 0.7 then assign (energy_pick ns) ts ([], la_lastExplain st)
               else snd (foldl (Learning_step ns) (0, [], la_lastExplain st) ts)), m)"
    using Learning_fst by blast
  show "\<exists>out m. fst (Learning_Schedule st ts ns tel) = Inr (out, m) \<and> wf_map out"
    unfolding m using Learning_fold[OF ns, of "[]" "{}" 0 "la_lastExplain st" ts]
    by (auto simp: assign_wf Let_def)
next
  fix st ts and ns :: "ResourceNode list" and tel :: telemetry and out m i nid
  assume a: "fst (Learning_Schedule st ts ns tel) = Inr (out, m)" "get out i = Some nid"
  then have ns: "ns \<noteq> []" by (auto simp: Learning_Schedule_def)
  obtain m' where m: "fst (Learning_Schedule st ts ns tel) =
      Inr (fst (if cpuUtil tel > 0.7 then assign (energy_pick ns) ts ([], la_lastExplain st)
               else snd (foldl (Learning_step ns) (0, [], la_lastExplain st) ts)), m')"
    using Learning_fst[OF ns] by blast
  show "\<exists>t \<in> set ts. \<exists>n \<in> set ns. t_ID t = i \<and> n_ID n = nid"
  proof (cases "cpuUtil tel > 0.7")
    case True
    then have "get (fst (assign (energy_pick ns) ts ([], la_lastExplain st))) i = Some nid"
      using a m by simp
    then obtain t n where "t \<in> set ts" "t_ID t = i" "energy_pick ns t = Some n" "n_ID n = nid"
      using assign_Some by blast
    then show ?thesis using best_node_ok by (metis energy_pick_def)
  next
    case False
    then show ?thesis
      using a m Learning_fold[OF ns, of "[]" "{}" 0 "la_lastExplain st" ts] by (simp add: Let_def)
  qed
qed

section \<open>Scores\<close>

text \<open>The score by which an algorithm compares the fitting nodes of a task.\<close>

fun scoring :: "gotime \<Rightarrow> SchedulerAlgorithm \<Rightarrow> telemetry \<Rightarrow> (Task \<Rightarrow> ResourceNode \<Rightarrow> efloat) option" where
  "scoring now (CostAware a) tel = Some (\<lambda>t. cost_score)"
| "scoring now (EnergyAware a) tel = Some (\<lambda>t. energy_score)"
| "scoring now (FairShare a) tel = Some (fair_score (ownerUsage tel))"
| "scoring now (Throughput a) tel = Some (\<lambda>t. throughput_score)"
| "scoring now (DeadlineFirst a) tel = Some (deadline_score now)"
| "scoring now _ tel = None"

definition best_for :: "(Task \<Rightarrow> ResourceNode \<Rightarrow> efloat) \<Rightarrow> ResourceNode list \<Rightarrow> Task \<Rightarrow> ResourceNode \<Rightarrow> bool" where
  "best_for score ns t n \<longleftrightarrow>
     n \<in> set ns \<and> task_fits t n \<and> (\<forall>m \<in> set ns. task_fits t m \<longrightarrow> score t m \<le> score t n)"

lemma best_node_best_for:
  assumes "\<forall>m \<in> set ns. \<exists>x. score t m = Fin x"
  shows "best_node (task_fits t) (score t) ns = None \<longleftrightarrow> (\<forall>m \<in> set ns. \<not> task_fits t m)"
    and "best_node (task_fits t) (score t) ns = Some n \<Longrightarrow> best_for score ns t n"
proof -
  have "\<forall>m \<in> set ns. score t m \<noteq> NaN" using assms by fastforce
  then show "best_node (task_fits t) (score t) ns = Some n \<Longrightarrow> best_for score ns t n"
    using best_node_max best_node_fits unfolding best_for_def by blast
qed (rule best_node_None[OF assms])

lemma cost_pick_best_for:
  assumes "\<forall>m \<in> set ns. \<exists>x. cost_score m = Fin x"
  shows "cost_pick ns t = None \<longleftrightarrow> (\<forall>m \<in> set ns. \<not> task_fits t m)"
    and "cost_pick ns t = Some n \<Longrightarrow> best_for (\<lambda>t. cost_score) ns t n"
proof -
  let ?F = "filter (task_fits t) ns"
  let ?lt = "\<lambda>a b. fless (cost_score b) (cost_score a)"
  have "cost_pick ns t = None \<longleftrightarrow> sort_slice ?lt ?F = []"
    by (auto simp: cost_pick_def split: list.split)
  then show "cost_pick ns t = None \<longleftrightarrow> (\<forall>m \<in> set ns. \<not> task_fits t m)"
    by (simp add: filter_empty_conv)
next
  let ?F = "filter (task_fits t) ns"
  assume "cost_pick ns t = Some n"
  then obtain cs where s: "sort_slice (\<lambda>a b. fless (cost_score b) (cost_score a)) ?F = n # cs"
    by (auto simp: cost_pick_def split: list.splits)
  have "\<forall>m \<in> set ?F. cost_score m \<noteq> NaN" using assms by fastforce
  then have "\<forall>m \<in> set ?F. cost_score m \<le> cost_score n" using desc_sort_hd[of ?F cost_score] s by auto
  then show "best_for (\<lambda>t. cost_score) ns t n"
    using cost_pick_ok[OF \<open>cost_pick ns t = Some n\<close>] by (auto simp: best_for_def)
qed

text \<open>Each scoring algorithm picks for each task by itself, in some order of the tasks.\<close>

lemma scoring_run:
  assumes "scoring now a tel = Some score" and "ns \<noteq> []" and "\<forall>t. \<forall>m \<in> set ns. \<exists>x. score t m = Fin x"
  obtains pick order e where
    "\<And>ts. fst (Algo_Schedule now a ts ns tel) = Inr (fst (assign pick (order ts) ([], e)), None)"
    "\<And>ts. mset (order ts) = mset ts"
    "\<And>t. pick t = None \<longleftrightarrow> (\<forall>m \<in> set ns. \<not> task_fits t m)"
    "\<And>t n. pick t = Some n \<Longrightarrow> best_for score ns t n"
proof -
  let ?best = "\<lambda>t. best_node (task_fits t) (score t) ns"
  have best: "\<And>t. ?best t = None \<longleftrightarrow> (\<forall>m \<in> set ns. \<not> task_fits t m)"
      "\<And>t n. ?best t = Some n \<Longrightarrow> best_for score ns t n"
    using assms(3) best_node_best_for by blast+
  have cost: "\<And>t. cost_pick ns t = None \<longleftrightarrow> (\<forall>m \<in> set ns. \<not> task_fits t m)"
      "\<And>t n. cost_pick ns t = Some n \<Longrightarrow> best_for score ns t n"
    if "score = (\<lambda>t. cost_score)"
    using assms(3) that cost_pick_best_for by auto
  note run = run_assign_decides[OF assms(2)]
  consider x where "a = CostAware x" "score = (\<lambda>t. cost_score)"
    | x where "a = EnergyAware x" "score = (\<lambda>t. energy_score)"
    | x where "a = FairShare x" "score = fair_score (ownerUsage tel)"
    | x where "a = Throughput x" "score = (\<lambda>t. throughput_score)"
    | x where "a = DeadlineFirst x" "score = deadline_score now"
    using assms(1) by (cases a) auto
  then show thesis
  proof cases
    case (1 x)
    show ?thesis
      by (rule that[of "cost_pick ns" "\<lambda>ts. ts" "al_lastExplain x"])
         (use 1 cost run in \<open>simp_all add: CostAware_Schedule_def\<close>)
  next
    case (2 x)
    show ?thesis
      by (rule that[of ?best "\<lambda>ts. ts" "al_lastExplain x"])
         (use 2 best run in \<open>simp_all add: EnergyAware_Schedule_def energy_pick_def[abs_def]\<close>)
  next
    case (3 x)
    show ?thesis
      by (rule that[of ?best "\<lambda>ts. ts" "al_lastExplain x"])
         (use 3 best run in \<open>simp_all add: FairShare_Schedule_def\<close>)
  next
    case (4 x)
    show ?thesis
      by (rule that[of ?best "sort_slice (\<lambda>s t. expected_runtime s < expected_runtime t)" "al_lastExplain x"])
         (use 4 best run in \<open>simp_all add: Throughput_Schedule_def\<close>)
  next
    case (5 x)
    show ?thesis
      by (rule that[of ?best "sort_slice deadline_before" "al_lastExplain x"])
         (use 5 best run in \<open>simp_all add: DeadlineFirst_Schedule_def\<close>)
  qed
qed

section \<open>Order\<close>

definition deadline_key :: "Task \<Rightarrow> int \<times> int \<times> int" where
  "deadline_key t =
     (- t_Priority t,
      if IsZero (t_Deadline t) then (1, t_CreatedAt t) else (0, t_Deadline t))"

interpretation by_deadline: key_order deadline_before deadline_key
  by unfold_locales (auto simp: deadline_before_def deadline_key_def IsZero_def)

interpretation by_runtime: key_order "\<lambda>s t. expected_runtime s < expected_runtime t" expected_runtime
  by unfold_locales simp

text \<open>Round robin without affinity constraints walks the nodes cyclically.\<close>

lemma rr_find_free:
  assumes "ns \<noteq> []" and "s < length ns" and "t_Affinity t = []"
  shows "rr_find s t ns = Some s"
proof -
  have "task_matches t n" for n using assms(3) by (simp add: task_matches_def shim_iff)
  moreover obtain m where "length ns = Suc m" using assms(1) by (cases ns) auto
  then have "map (\<lambda>i. (s + i) mod length ns) [0..<length ns] = s # map (\<lambda>i. (s + i) mod length ns) [1..<length ns]"
    using assms(2) by (simp add: upt_conv_Cons del: upt_Suc)
  ultimately show ?thesis unfolding rr_find_def by simp
qed

lemma RoundRobin_step_free:
  assumes "ns \<noteq> []" and "\<forall>n \<in> set ns. n_ID n \<noteq> ''''" and "t_Affinity t = []"
  shows "RoundRobin_step ns (idx, out, ex) t =
    ((idx + 1) mod length ns, put (t_ID t) (n_ID (ns ! (idx mod length ns))) out,
     put (t_ID t) (n_ID (ns ! (idx mod length ns))) ex)"
proof -
  have l: "idx mod length ns < length ns" using assms(1) by simp
  moreover from this have "n_ID (ns ! (idx mod length ns)) \<noteq> ''''" using assms(2) by simp
  ultimately show ?thesis
    using rr_find_free[OF assms(1) l assms(3)]
    by (simp add: RoundRobin_step_def Let_def mod_Suc_eq)
qed

lemma RoundRobin_fold_free:
  assumes "ns \<noteq> []" and "\<forall>n \<in> set ns. n_ID n \<noteq> ''''" and "\<forall>t \<in> set ts. t_Affinity t = []"
    and "distinct (map t_ID ts)"
  shows "(\<forall>k < length ts. get (fst (snd (foldl (RoundRobin_step ns) (idx, out, ex) ts))) (t_ID (ts ! k)) =
            Some (n_ID (ns ! ((idx + k) mod length ns)))) \<and>
         (\<forall>i. i \<notin> t_ID ` set ts \<longrightarrow>
            get (fst (snd (foldl (RoundRobin_step ns) (idx, out, ex) ts))) i = get out i)"
  using assms(3,4)
proof (induction ts arbitrary: idx out ex)
  case Nil
  then show ?case by simp
next
  case (Cons t ts)
  let ?n = "n_ID (ns ! (idx mod length ns))"
  let ?r = "foldl (RoundRobin_step ns) ((idx + 1) mod length ns, put (t_ID t) ?n out, put (t_ID t) ?n ex) ts"
  have run: "foldl (RoundRobin_step ns) (idx, out, ex) (t # ts) = ?r"
    using RoundRobin_step_free[OF assms(1,2)] Cons.prems by simp
  have IH: "\<forall>k < length ts. get (fst (snd ?r)) (t_ID (ts ! k)) =
        Some (n_ID (ns ! (((idx + 1) mod length ns + k) mod length ns)))"
      "\<forall>i. i \<notin> t_ID ` set ts \<longrightarrow> get (fst (snd ?r)) i = get (put (t_ID t) ?n out) i"
    using Cons.IH[of "(idx + 1) mod length ns" "put (t_ID t) ?n out" "put (t_ID t) ?n ex"] Cons.prems
    by simp_all
  have "get (fst (snd ?r)) (t_ID ((t # ts) ! k)) = Some (n_ID (ns ! ((idx + k) mod length ns)))"
    if "k < length (t # ts)" for k
  proof (cases k)
    case 0
    then show ?thesis using IH(2) Cons.prems by (simp add: map_simps)
  next
    case (Suc j)
    then show ?thesis using IH(1) that by (simp add: mod_add_left_eq)
  qed
  then show ?case unfolding run using IH(2) by (auto simp: map_simps)
qed

section \<open>Properties\<close>

text \<open>Two tasks and two nodes.\<close>

definition task1 :: Task where
  "task1 = \<lparr>t_ID = ''t1'', t_Type = ''batch'', t_Payload = [(''cpu'', AFloat 1)], t_Priority = 1,
     t_Deadline = 0, t_Affinity = [], t_Region = '''', t_Status = ''pending'', t_AssignedTo = '''',
     t_SLO = [], t_CreatedAt = 1, t_UpdatedAt = 1, t_Owner = ''bob''\<rparr>"

definition task2 :: Task where
  "task2 = task1\<lparr>t_ID := ''t2'', t_Deadline := 50, t_Payload := [(''requirements'', AMap [(''cpu'', AInt 2)])]\<rparr>"

definition small :: ResourceNode where
  "small = \<lparr>n_ID = ''a'', n_Provider = '''', n_Region = ''eu'', n_Labels = [], n_Resources = [(''cpu'', 2)],
     n_NUMATop = [], n_GPUTop = [], n_NICs = [], n_Status = ''online'', n_TDP = 10, n_PoolTier = '''',
     n_SLO = [], n_LastSeen = 0, n_Meta = [], n_Allocated = []\<rparr>"

definition large :: ResourceNode where
  "large = small\<lparr>n_ID := ''b'', n_Resources := [(''cpu'', 8)]\<rparr>"

text \<open>
  the contract of the built-in algorithms. Each fails exactly when there are no nodes;
  otherwise it decides for at most as many tasks as it was given, and every decision names one of
  these tasks and one of the nodes.
\<close>

theorem builtin_algorithms_contract:
  assumes "\<forall>l. a \<noteq> Loaded l"
  shows "((\<exists>e. fst (Algo_Schedule now a ts ns tel) = Inl e) \<longleftrightarrow> ns = []) \<and>
    (\<forall>out m. fst (Algo_Schedule now a ts ns tel) = Inr (out, m) \<longrightarrow>
       length out \<le> length ts \<and>
       (\<forall>i nid. get out i = Some nid \<longrightarrow> (\<exists>t \<in> set ts. \<exists>n \<in> set ns. t_ID t = i \<and> n_ID n = nid)))"
proof (cases a)
  case (RoundRobin x)
  then show ?thesis using rr_algo.error_iff rr_algo.at_most_one_each rr_algo.known by simp
next
  case (CostAware x)
  then show ?thesis using cost_algo.error_iff cost_algo.at_most_one_each cost_algo.known by simp
next
  case (EnergyAware x)
  then show ?thesis using energy_algo.error_iff energy_algo.at_most_one_each energy_algo.known by simp
next
  case (FairShare x)
  then show ?thesis using fair_algo.error_iff fair_algo.at_most_one_each fair_algo.known by simp
next
  case (Throughput x)
  then show ?thesis
    using throughput_algo.error_iff throughput_algo.at_most_one_each throughput_algo.known by simp
next
  case (Learning x)
  then show ?thesis using learning_algo.error_iff learning_algo.at_most_one_each learning_algo.known by simp
next
  case (DeadlineFirst x)
  then show ?thesis using deadline_algo.error_iff deadline_algo.at_most_one_each deadline_algo.known by simp
next
  case (Loaded x)
  then show ?thesis using assms by simp
qed

theorem builtin_algorithms_contract_witness:
  "\<exists>e. fst (Algo_Schedule 7 (Learning (NewLearningAlgo '''')) [task1] [] []) = Inl e"
  using builtin_algorithms_contract[of "Learning (NewLearningAlgo '''')" 7 "[task1]" "[]" "[]"] by simp

text \<open>
  C12: the cost, energy, fair-share, throughput and deadline algorithms, on tasks with distinct IDs
  and finite scores. A task gets no node exactly when no node matches its affinity and holds its
  requirements; otherwise it gets a node that does and whose score is greatest among them.
\<close>

theorem scoring_algorithms_choose_the_best:
  assumes "scoring now a tel = Some score" and "ns \<noteq> []"
    and "\<forall>t. \<forall>m \<in> set ns. \<exists>x. score t m = Fin x" and "distinct (map t_ID ts)" and "t \<in> set ts"
  shows "\<exists>out. fst (Algo_Schedule now a ts ns tel) = Inr (out, None) \<and>
    (get out (t_ID t) = None \<longleftrightarrow> (\<forall>n \<in> set ns. \<not> task_fits t n)) \<and>
    (\<forall>nid. get out (t_ID t) = Some nid \<longrightarrow> (\<exists>n. best_for score ns t n \<and> n_ID n = nid))"
  using assms(1-3)
proof (rule scoring_run)
  fix pick order e
  assume run: "\<And>ts. fst (Algo_Schedule now a ts ns tel) = Inr (fst (assign pick (order ts) ([], e)), None)"
    and perm: "\<And>ts. mset (order ts) = mset ts"
    and none: "\<And>t. pick t = None \<longleftrightarrow> (\<forall>m \<in> set ns. \<not> task_fits t m)"
    and some: "\<And>t n. pick t = Some n \<Longrightarrow> best_for score ns t n"
  have "get (fst (assign pick (order ts) ([], e))) (t_ID t) = map_option n_ID (pick t)"
    using assign_perm[OF assms(4) perm[of ts]] assign_get_distinct[OF assms(4,5)] by simp
  then show ?thesis using run[of ts] none[of t] some[of t] by (cases "pick t") auto
qed

theorem scoring_algorithms_choose_the_best_witness:
  "\<exists>out. fst (Algo_Schedule 7 (EnergyAware (NewAlgoState '''')) [task1, task2] [small, large] []) = Inr (out, None) \<and>
     get out ''t1'' \<noteq> None"
proof -
  have "task_fits task1 large"
    by (simp add: task_fits_def task_matches_def shim_iff task1_def has_capacity0_def large_def small_def
        bsonRequirementsFromTask_def parseRequirementsFromPayload_def put_num_def resource_names)
  moreover have "t_ID task1 = ''t1''" "distinct (map t_ID [task1, task2])"
    by (simp_all add: task1_def task2_def)
  ultimately show ?thesis
    using scoring_algorithms_choose_the_best[of 7 "EnergyAware (NewAlgoState '''')" "[]" "\<lambda>t. energy_score"
        "[small, large]" "[task1, task2]" task1]
    by (auto simp: energy_score_def)
qed

text \<open>
  the order of the tasks is irrelevant to these algorithms, although two of them sort the tasks
  first: on any permutation of tasks with distinct IDs they decide the same. No algorithm books what
  it hands out, so short tasks and early deadlines gain nothing by coming first.
\<close>

theorem task_order_is_irrelevant:
  assumes "scoring now a tel = Some score" and "ns \<noteq> []"
    and "\<forall>t. \<forall>m \<in> set ns. \<exists>x. score t m = Fin x" and "distinct (map t_ID ts)" and "mset ts' = mset ts"
  shows "\<exists>out out'. fst (Algo_Schedule now a ts ns tel) = Inr (out, None) \<and>
    fst (Algo_Schedule now a ts' ns tel) = Inr (out', None) \<and> get out' = get out"
  using assms(1-3)
proof (rule scoring_run)
  fix pick order e
  assume run: "\<And>ts. fst (Algo_Schedule now a ts ns tel) = Inr (fst (assign pick (order ts) ([], e)), None)"
    and perm: "\<And>ts. mset (order ts) = mset ts"
  have d: "distinct (map t_ID (order ts))"
    using assms(4) perm[of ts] by (metis mset_eq_imp_distinct_iff mset_map)
  have "mset (order ts') = mset (order ts)" using perm assms(5) by simp
  from assign_perm[OF d this] show ?thesis using run by blast
qed

theorem task_order_is_irrelevant_witness:
  "\<exists>out out'. fst (Algo_Schedule 7 (Throughput (NewAlgoState '''')) [task1, task2] [small] []) = Inr (out, None) \<and>
     fst (Algo_Schedule 7 (Throughput (NewAlgoState '''')) [task2, task1] [small] []) = Inr (out', None) \<and>
     get out' = get out"
proof -
  have "distinct (map t_ID [task1, task2])" by (simp add: task1_def task2_def)
  then show ?thesis
    using task_order_is_irrelevant[of 7 "Throughput (NewAlgoState '''')" "[]" "\<lambda>t. throughput_score" "[small]"
        "[task1, task2]" "[task2, task1]"]
    by (simp add: throughput_score_def add_mset_commute)
qed

text \<open>
  the deadline algorithm's comparison is a proper order: higher priority first, within a
  priority the tasks with a deadline before those without, by deadline, the others by creation
  time; what its sort returns is a permutation in that order.
\<close>

theorem deadline_sort_is_lexicographic:
  "mset (sort_slice deadline_before ts) = mset ts \<and>
   sorted_wrt (\<lambda>a b. t_Priority b < t_Priority a \<or>
      (t_Priority a = t_Priority b \<and>
        ((t_Deadline a \<noteq> 0 \<and> (t_Deadline b = 0 \<or> t_Deadline a \<le> t_Deadline b)) \<or>
         (t_Deadline a = 0 \<and> t_Deadline b = 0 \<and> t_CreatedAt a \<le> t_CreatedAt b))))
     (sort_slice deadline_before ts)"
proof -
  have "sorted_wrt (\<lambda>a b. deadline_key a \<le> deadline_key b) (sort_slice deadline_before ts)"
    using by_deadline.sorted_sort_slice[of ts] by (simp add: sorted_map)
  then show ?thesis
    by (auto elim!: sorted_wrt_mono_rel[rotated] simp: deadline_key_def IsZero_def split: if_splits)
qed

text \<open>
  round robin. Tasks with distinct IDs and no affinity are dealt to the nodes in turn, the k-th
  task to the k-th node after the cursor, cyclically.
\<close>

theorem round_robin_deals_in_turn:
  assumes "ns \<noteq> []" and "\<forall>n \<in> set ns. n_ID n \<noteq> ''''" and "\<forall>t \<in> set ts. t_Affinity t = []"
    and "distinct (map t_ID ts)" and "k < length ts"
  shows "\<exists>out. fst (RoundRobin_Schedule rr ts ns tel) = Inr (out, None) \<and>
    get out (t_ID (ts ! k)) = Some (n_ID (ns ! ((rr_idx rr + k) mod length ns)))"
  using RoundRobin_fold_free[OF assms(1-4), of "rr_idx rr" "[]" "rr_lastExplain rr"] assms(5)
  by (simp add: RoundRobin_fst[OF assms(1)])

theorem round_robin_deals_in_turn_witness:
  "\<exists>out. fst (RoundRobin_Schedule (NewRoundRobinAlgo '''') [task1, task2] [small, large] []) = Inr (out, None) \<and>
     get out ''t2'' = Some ''b''"
proof -
  have "distinct (map t_ID [task1, task2])" "\<forall>t \<in> set [task1, task2]. t_Affinity t = []"
    "\<forall>n \<in> set [small, large]. n_ID n \<noteq> ''''" "t_ID task2 = ''t2''" "n_ID large = ''b''"
    by (simp_all add: task1_def task2_def small_def large_def)
  then show ?thesis
    using round_robin_deals_in_turn[of "[small, large]" "[task1, task2]" 1 "NewRoundRobinAlgo ''''" "[]"]
    by (simp add: NewRoundRobinAlgo_def)
qed

text \<open>
  the scheduler's own affinity check agrees with the resource pool's on every node and
  reservation.
\<close>

theorem shim_agrees_with_pool:
  "aggregationMatchesAffinityShim n (r_Affinity r) (r_AntiAffinity r) \<longleftrightarrow> matchesAffinity n r"
  by (simp add: shim_iff matchesAffinity_iff)

end
