(* ===== verification/PoolAllocate.thy ===== *)
theory PoolAllocate
  imports PoolPolicies
begin

text \<open>
  Allocation and release in the resource pool (\<^verbatim>\<open>src/internal/aggregation/resource_pool.go\<close>):
  construction, \<open>Allocate\<close> with its three phases (admission under the lock, the policy's choice
  with the lock released, booking under the lock), \<open>Free\<close>, \<open>FreeMany\<close> and the policy registry.
  Run by one goroutine with the mutex free at the start. \<open>gen\<close> is the generated reservation ID,
  \<open>now\<close> the clock reading, \<open>lat\<close> the measured latency in milliseconds.
\<close>

section \<open>Construction\<close>

definition NewResourcePool :: ResourcePool where
  "NewResourcePool =
     \<lparr>Mu = Unlocked, Nodes = [], Reserves = [],
      Policies = [(''default-fairshare'', DefaultFairSharePolicy), (''cost-aware'', CostAwarePolicy)],
      KPIs = [(''utilization_cpu'', 0), (''utilization_gpu'', 0), (''failed_allocs'', 0),
              (''avg_alloc_latency_ms'', 0), (''reservations_count'', 0),
              (''joules_per_task_estimate'', 0)],
      Trace = [], AutoDev = False, OnChange = 0, RebalanceHook = False, ForecastHook = None,
      autoscalerHook = False, allocatorHook = False, policyVerifier = None,
      healthCheckInterval = 15 * Second, healthTimeout = 30 * Second, stopHealthCh = False,
      deadlineInterval = 5 * Second, stopDeadlineCh = False, TraceMax = 2000, pendingQueue = [],
      allocatorInterval = 2 * Second, allocatorStopCh = False, autoscalerInterval = 30 * Second,
      autoscalerStopCh = False, notified = 0\<rparr>"

section \<open>Allocate\<close>

definition queue_soft :: "string \<Rightarrow> Reservation \<Rightarrow> gotime \<Rightarrow> ResourcePool \<Rightarrow> ResourcePool" where
  "queue_soft msg req now rp =
     TraceAppend TraceInfo ''Allocate'' msg now
       (rp\<lparr>pendingQueue := pendingQueue rp @ [req\<lparr>r_enqueuedAt := now\<rparr>]\<rparr>)"

definition policy_name :: "Reservation \<Rightarrow> string" where
  "policy_name req = (if r_Policy req = '''' then ''default-fairshare'' else r_Policy req)"

definition canSatisfy :: "Reservation \<Rightarrow> ResourcePool \<Rightarrow> bool" where
  "canSatisfy req rp \<longleftrightarrow>
     list_ex (\<lambda>(k, n). n_Status n = NODE_ONLINE \<and> matchesAffinity n req \<and> has_capacity (reqs_of req) n)
       (Nodes rp)"

text \<open>A policy call: the policy takes the read lock around reading the nodes.\<close>

definition call_policy ::
    "PoolPolicy \<Rightarrow> Reservation \<Rightarrow> ResourcePool \<Rightarrow> (pool_error + string \<times> vec, ResourcePool) outcome" where
  "call_policy p req rp =
     andThen (Mu_RLock rp) (\<lambda>_ rp.
     let r = p_Allocate p (Nodes rp) req
     in andThen (Mu_RUnlock rp) (\<lambda>_ rp. Returned r rp))"

fun forecast_blocks ::
    "ResourceType list \<Rightarrow> string \<Rightarrow> ResourcePool \<Rightarrow> (ResourceType option, ResourcePool) outcome" where
  "forecast_blocks [] region rp = Returned None rp"
| "forecast_blocks (rt # rts) region rp =
     andThen (callForecastWithTimeout rt region (30 * Second) rp) (\<lambda>v rp.
       if v \<ge> 0.95 then Returned (Some rt) rp else forecast_blocks rts region rp)"

text \<open>The last phase: find the node again, forecast guard, capacity check, booking.\<close>

definition book ::
    "Reservation \<Rightarrow> string \<Rightarrow> ResourcePool \<Rightarrow> ResourceNode \<Rightarrow> ResourcePool" where
  "book req nid rp n =
     rp\<lparr>Nodes := put nid (debit (reqs_of req) n) (Nodes rp),
        Reserves := put (r_ID req) req (Reserves rp)\<rparr>"

definition Allocate_book ::
    "Reservation \<Rightarrow> string \<Rightarrow> vec \<Rightarrow> gotime \<Rightarrow> float64 \<Rightarrow> ResourcePool
      \<Rightarrow> (pool_error + string \<times> vec, ResourcePool) outcome" where
  "Allocate_book req nid v now lat rp =
     (case get (Nodes rp) nid of
        None \<Rightarrow>
          Returned (Inl (NodeDisappeared nid))
            (updateAvgAllocLatency lat
              (TraceAppend TraceError ''Allocate'' ''Node-missing-after-policy'' now (bump_failed rp)))
      | Some n \<Rightarrow>
          andThen
            (if ForecastHook rp \<noteq> None then forecast_blocks (map fst (reqs_of req)) (n_Region n) rp
             else Returned None rp) (\<lambda>blocked rp.
          case blocked of
            Some rt \<Rightarrow>
              andThen (TraceSnapshot TraceWarn ''Allocate'' ''forecast-block'' nid now rp) (\<lambda>_ rp.
              let rp = bump_failed rp
              in if r_Soft req then
                   Returned (Inl ErrQueued)
                     (updateAvgAllocLatency lat (queue_soft ''queued-due-to-forecast'' req now rp))
                 else
                   Returned (Inl (ForecastSaturated rt (n_Region n))) (updateAvgAllocLatency lat rp))
          | None \<Rightarrow>
              if \<not> has_capacity0 (reqs_of req) n then
                andThen (TraceSnapshot TraceWarn ''Allocate'' ''insufficient-after-decision'' nid now (bump_failed rp))
                  (\<lambda>_ rp. Returned (Inl ErrNoResource) (updateAvgAllocLatency lat rp))
              else
                andThen (TraceSnapshot TraceInfo ''Allocate'' ''ok'' nid now (book req nid rp n))
                  (\<lambda>_ rp. Returned (Inr (nid, v))
                     (notify (updateAvgAllocLatency lat (updateKPIsLocked rp))))))"

definition Allocate_policy_failed ::
    "Reservation \<Rightarrow> pool_error \<Rightarrow> gotime \<Rightarrow> float64 \<Rightarrow> ResourcePool
      \<Rightarrow> (pool_error + string \<times> vec, ResourcePool) outcome" where
  "Allocate_policy_failed req e now lat rp =
     (let rp = updateAvgAllocLatency lat
                 (TraceAppend TraceWarn ''Allocate'' ''policy-failed'' now (bump_failed rp))
      in if r_Soft req then Returned (Inl ErrQueued) (queue_soft ''queued-after-policy-fail'' req now rp)
         else Returned (Inl e) rp)"

text \<open>
  The first phase: \<open>Inl\<close> is an early return, after which the latency is recorded when the
  flag says so; \<open>Inr\<close> goes on with the chosen policy and the request under its final ID.
\<close>

definition Allocate_admit ::
    "string \<Rightarrow> Reservation \<Rightarrow> gotime \<Rightarrow> ResourcePool
      \<Rightarrow> ((pool_error \<times> bool) + PoolPolicy \<times> Reservation, ResourcePool) outcome" where
  "Allocate_admit gen req now rp =
     (case ensureUniqueReservationIDUnlocked gen rp req of
        None \<Rightarrow> Blocked rp
      | Some req \<Rightarrow>
          (case get (Policies rp) (policy_name req) of
             None \<Rightarrow>
               let rp = TraceAppend TraceWarn ''Allocate'' ''policy-missing'' now rp
               in if r_Soft req then
                    Returned (Inl (ErrQueued, False)) (queue_soft ''queued-soft-missing-policy'' req now rp)
                  else Returned (Inl (PolicyNotFound (policy_name req), True)) (bump_failed rp)
           | Some policy \<Rightarrow>
               if \<not> canSatisfy req rp then
                 if r_Soft req then
                   Returned (Inl (ErrQueued, False)) (queue_soft ''queued-soft-no-capacity'' req now rp)
                 else
                   Returned (Inl (ErrNoResource, True))
                     (TraceAppend TraceWarn ''Allocate'' ''no-capacity'' now (bump_failed rp))
               else Returned (Inr (policy, req)) rp))"

definition Allocate ::
    "string \<Rightarrow> Reservation \<Rightarrow> gotime \<Rightarrow> float64 \<Rightarrow> ResourcePool
      \<Rightarrow> (pool_error + string \<times> vec, ResourcePool) outcome" where
  "Allocate gen req now lat rp =
     (let req = (if IsZero (r_CreatedAt req) then req\<lparr>r_CreatedAt := now\<rparr> else req)
      in andThen (locked (Allocate_admit gen req now) rp) (\<lambda>admitted rp.
         case admitted of
           Inl (e, record_latency) \<Rightarrow>
             Returned (Inl e) (if record_latency then updateAvgAllocLatency lat rp else rp)
         | Inr (policy, req) \<Rightarrow>
             andThen (call_policy policy req rp) (\<lambda>choice rp.
             case choice of
               Inl e \<Rightarrow> locked (Allocate_policy_failed req e now lat) rp
             | Inr (nid, v) \<Rightarrow> locked (Allocate_book req nid v now lat) rp)))"

section \<open>Release\<close>

text \<open>Give a reservation's resources back to the node it names, and forget it.\<close>

definition release :: "string \<Rightarrow> Reservation \<Rightarrow> ResourcePool \<Rightarrow> ResourcePool" where
  "release resID req rp =
     (let rp = (case get (Nodes rp) (r_NodeID req) of
                  None \<Rightarrow> rp
                | Some n \<Rightarrow> rp\<lparr>Nodes := put (r_NodeID req) (credit (reqs_of req) n) (Nodes rp)\<rparr>)
      in rp\<lparr>Reserves := del resID (Reserves rp)\<rparr>)"

definition Free :: "string \<Rightarrow> gotime \<Rightarrow> ResourcePool \<Rightarrow> (pool_error option, ResourcePool) outcome" where
  "Free resID now =
     locked (\<lambda>rp. case get (Reserves rp) resID of
       None \<Rightarrow>
         Returned (Some (ReservationNotFound resID))
           (TraceAppend TraceWarn ''Free'' ''reservation-not-found'' now rp)
     | Some req \<Rightarrow>
         andThen (TraceSnapshot TraceInfo ''Free'' ''released'' (r_NodeID req) now (release resID req rp))
           (\<lambda>_ rp. Returned None (notify (updateKPIsLocked rp))))"

fun FreeMany_loop :: "string list \<Rightarrow> gotime \<Rightarrow> ResourcePool \<Rightarrow> (unit, ResourcePool) outcome" where
  "FreeMany_loop [] now rp = Returned () rp"
| "FreeMany_loop (i # ids) now rp =
     (case get (Reserves rp) i of
        None \<Rightarrow> FreeMany_loop ids now rp
      | Some req \<Rightarrow>
          andThen (TraceSnapshot TraceInfo ''FreeMany'' ''released'' (r_NodeID req) now (release i req rp))
            (\<lambda>_ rp. FreeMany_loop ids now rp))"

definition FreeMany :: "string list \<Rightarrow> gotime \<Rightarrow> ResourcePool \<Rightarrow> (unit, ResourcePool) outcome" where
  "FreeMany ids now rp =
     andThen (locked (FreeMany_loop ids now) rp) (\<lambda>_ rp. Returned () (notify (updateKPIsLocked rp)))"

section \<open>The policy registry\<close>

definition InjectPolicy :: "string \<Rightarrow> PoolPolicy \<Rightarrow> gotime \<Rightarrow> ResourcePool \<Rightarrow> (unit, ResourcePool) outcome" where
  "InjectPolicy name p now rp =
     andThen (locked (\<lambda>rp. Returned ()
       (TraceAppend TraceInfo ''InjectPolicy'' ''policy-injected'' now
         (rp\<lparr>Policies := put name p (Policies rp)\<rparr>))) rp)
     (\<lambda>_ rp. Returned () (notify rp))"

definition RemovePolicy :: "string \<Rightarrow> gotime \<Rightarrow> ResourcePool \<Rightarrow> (unit, ResourcePool) outcome" where
  "RemovePolicy name now rp =
     andThen (locked (\<lambda>rp. Returned ()
       (TraceAppend TraceWarn ''RemovePolicy'' ''policy-removed'' now
         (rp\<lparr>Policies := del name (Policies rp)\<rparr>))) rp)
     (\<lambda>_ rp. Returned () (notify rp))"

definition SetPolicyVerifier ::
    "(char list \<Rightarrow> string option) option \<Rightarrow> gotime \<Rightarrow> ResourcePool \<Rightarrow> (unit, ResourcePool) outcome" where
  "SetPolicyVerifier v now rp =
     andThen (locked (\<lambda>rp. Returned () (rp\<lparr>policyVerifier := v\<rparr>)) rp)
     (\<lambda>_ rp. Returned () (TraceAppend TraceInfo ''SetPolicyVerifier'' ''verifier-set'' now rp))"

definition RegisterPolicyFromDSL ::
    "(string \<Rightarrow> string + expr) \<Rightarrow> string \<Rightarrow> string \<Rightarrow> gotime \<Rightarrow> ResourcePool
      \<Rightarrow> (pool_error option, ResourcePool) outcome" where
  "RegisterPolicyFromDSL compile name script now rp =
     (case compile script of
        Inl e \<Rightarrow> Returned (Some (DSLCompileError e)) rp
      | Inr ex \<Rightarrow>
          andThen (InjectPolicy name
            (expr_policy \<lparr>ep_name = name, ep_exprs = [(''score'', ex)], ep_Dims = [''score''],
                          ep_rawDSL = script\<rparr>) now rp)
          (\<lambda>_ rp. Returned None rp))"

fun compile_dims ::
    "(string \<Rightarrow> string + expr) \<Rightarrow> (string \<times> string) list \<Rightarrow> string + (string, expr) gomap \<times> string list" where
  "compile_dims compile [] = Inr ([], [])"
| "compile_dims compile ((k, s) # ds) =
     (case compile s of
        Inl e \<Rightarrow> Inl e
      | Inr ex \<Rightarrow>
          (case compile_dims compile ds of
             Inl e \<Rightarrow> Inl e
           | Inr (exprs, dims) \<Rightarrow> Inr (put k ex exprs, k # dims)))"

definition RegisterMultiDimPolicyFromDSL ::
    "(string \<Rightarrow> string + expr) \<Rightarrow> string \<Rightarrow> (string \<times> string) list \<Rightarrow> gotime \<Rightarrow> ResourcePool
      \<Rightarrow> (pool_error option, ResourcePool) outcome" where
  "RegisterMultiDimPolicyFromDSL compile name DimExprs now rp =
     (case compile_dims compile DimExprs of
        Inl e \<Rightarrow> Returned (Some (DSLCompileError e)) rp
      | Inr (exprs, dims) \<Rightarrow>
          andThen (InjectPolicy name
            (expr_policy \<lparr>ep_name = name, ep_exprs = exprs, ep_Dims = dims, ep_rawDSL = ''<Multi-Dim>''\<rparr>) now rp)
          (\<lambda>_ rp. Returned None rp))"

text \<open>\<open>loader\<close> is \<open>None\<close> for a nil loader.\<close>

definition RegisterPolicyFromLoader ::
    "string \<Rightarrow> char list \<Rightarrow> (char list \<Rightarrow> string + PoolPolicy) option \<Rightarrow> gotime \<Rightarrow> ResourcePool
      \<Rightarrow> (pool_error option, ResourcePool) outcome" where
  "RegisterPolicyFromLoader name policyBytes loader now rp =
     (case loader of
        None \<Rightarrow> Returned (Some LoaderNil) rp
      | Some load \<Rightarrow>
          andThen (Mu_RLock rp) (\<lambda>_ rp.
          let verifier = policyVerifier rp
          in andThen (Mu_RUnlock rp) (\<lambda>_ rp.
             case verifier of
               None \<Rightarrow> Returned (Some VerifierMissing) rp
             | Some verify \<Rightarrow>
                 (case verify policyBytes of
                    Some e \<Rightarrow> Returned (Some (VerificationFailed e)) rp
                  | None \<Rightarrow>
                      (case load policyBytes of
                         Inl e \<Rightarrow> Returned (Some (LoaderError e)) rp
                       | Inr p \<Rightarrow> andThen (InjectPolicy name p now rp) (\<lambda>_ rp. Returned None rp))))))"

definition ListReservations :: "ResourcePool \<Rightarrow> (Reservation list, ResourcePool) outcome" where
  "ListReservations rp = read_locked (\<lambda>rp. map snd (Reserves rp)) rp"

definition ListPending :: "ResourcePool \<Rightarrow> (Reservation list, ResourcePool) outcome" where
  "ListPending rp = read_locked pendingQueue rp"

definition GetKPIs :: "ResourcePool \<Rightarrow> (vec, ResourcePool) outcome" where
  "GetKPIs rp = read_locked KPIs rp"

definition GetTrace :: "ResourcePool \<Rightarrow> (TraceEntry list, ResourcePool) outcome" where
  "GetTrace rp = read_locked Trace rp"

definition PredictUtilization :: "ResourcePool \<Rightarrow> (vec, ResourcePool) outcome" where
  "PredictUtilization rp =
     read_locked (\<lambda>rp. [(''cpu'', utilization ResourceCPU rp), (''gpu'', utilization ResourceGPU rp)]) rp"

end
