(* ===== verification/PoolCorrect.thy ===== *)
theory PoolCorrect
  imports PoolAllocate
begin

text \<open>
  Correctness of allocation and release: which calls return and which wait for their own lock,
  what an allocation books, conservation of capacity, the fate of soft requests, fresh
  reservation IDs, what a release gives back, and the guard on binary policies.
\<close>

section \<open>Lock behaviour\<close>

named_theorems pool_locks \<open>how a step behaves under a held or free mutex\<close>

lemma TraceSnapshot_WLocked [pool_locks]: "Mu rp = WLocked \<Longrightarrow> TraceSnapshot l op m i now rp = Blocked rp"
  by (simp add: TraceSnapshot_def snapshotForExplain_def read_locked_def Mu_RLock_def)

lemma callForecast_WLocked [pool_locks]:
  "Mu rp = WLocked \<Longrightarrow> callForecastWithTimeout rt region h rp = Blocked rp"
  by (simp add: callForecastWithTimeout_def Mu_RLock_def)

lemma forecast_blocks_WLocked [pool_locks]:
  "Mu rp = WLocked \<Longrightarrow>
   forecast_blocks rts region rp = (if rts = [] then Returned None rp else Blocked rp)"
  by (cases rts) (simp_all add: pool_locks)

lemma locked_Unlocked [pool_locks]:
  "Mu rp = Unlocked \<Longrightarrow>
   locked body rp = andThen (body (rp\<lparr>Mu := WLocked\<rparr>)) (\<lambda>r rp. andThen (Mu_Unlock rp) (\<lambda>_ rp. Returned r rp))"
  by (simp add: locked_def Mu_Lock_def)

lemma locked_busy [pool_locks]: "Mu rp \<noteq> Unlocked \<Longrightarrow> locked body rp = Blocked rp"
  by (simp add: locked_def Mu_Lock_def)

lemma call_policy_Unlocked [pool_locks]:
  "Mu rp = Unlocked \<Longrightarrow> call_policy p req rp = Returned (p_Allocate p (Nodes rp) req) rp"
  by (simp add: call_policy_def Mu_RLock_def Mu_RUnlock_def)

lemma Mu_Unlock_WLocked [pool_locks]: "Mu rp = WLocked \<Longrightarrow> Mu_Unlock rp = Returned () (rp\<lparr>Mu := Unlocked\<rparr>)"
  by (simp add: Mu_Unlock_def)

text \<open>What tracing, counting and notifying leave alone.\<close>

lemma bookkeeping_frame [simp]:
  "Mu (TraceAppend l op m now rp) = Mu rp" "Nodes (TraceAppend l op m now rp) = Nodes rp"
  "Reserves (TraceAppend l op m now rp) = Reserves rp"
  "Policies (TraceAppend l op m now rp) = Policies rp"
  "pendingQueue (TraceAppend l op m now rp) = pendingQueue rp"
  "ForecastHook (TraceAppend l op m now rp) = ForecastHook rp"
  "TraceMax (TraceAppend l op m now rp) = TraceMax rp"
  "Mu (bump_failed rp) = Mu rp" "Nodes (bump_failed rp) = Nodes rp"
  "Reserves (bump_failed rp) = Reserves rp" "Policies (bump_failed rp) = Policies rp"
  "pendingQueue (bump_failed rp) = pendingQueue rp" "ForecastHook (bump_failed rp) = ForecastHook rp"
  "Mu (updateAvgAllocLatency ms rp) = Mu rp" "Nodes (updateAvgAllocLatency ms rp) = Nodes rp"
  "Reserves (updateAvgAllocLatency ms rp) = Reserves rp"
  "Policies (updateAvgAllocLatency ms rp) = Policies rp"
  "pendingQueue (updateAvgAllocLatency ms rp) = pendingQueue rp"
  by (simp_all add: TraceAppend_def bump_failed_def updateAvgAllocLatency_def Let_def)

lemma notify_frame [simp]:
  "Mu (notify rp) = Mu rp" "Nodes (notify rp) = Nodes rp" "Reserves (notify rp) = Reserves rp"
  "Policies (notify rp) = Policies rp" "Trace (notify rp) = Trace rp"
  by (simp_all add: notify_def)

lemma queue_soft_frame [simp]:
  "Mu (queue_soft m req now rp) = Mu rp" "Nodes (queue_soft m req now rp) = Nodes rp"
  "Reserves (queue_soft m req now rp) = Reserves rp" "Policies (queue_soft m req now rp) = Policies rp"
  "pendingQueue (queue_soft m req now rp) = pendingQueue rp @ [req\<lparr>r_enqueuedAt := now\<rparr>]"
  by (simp_all add: queue_soft_def)

section \<open>The phases of an allocation\<close>

lemma Allocate_admit_cases:
  obtains (early) e b rp' where "Allocate_admit gen req now rp = Returned (Inl (e, b)) rp'"
      "Mu rp' = Mu rp" "Nodes rp' = Nodes rp" "Reserves rp' = Reserves rp"
      "r_Soft req \<longrightarrow> e = ErrQueued \<and> (\<exists>q. pendingQueue rp' = pendingQueue rp @ [q] \<and> reqs_of q = reqs_of req)"
      "\<not> r_Soft req \<longrightarrow> pendingQueue rp' = pendingQueue rp"
  | (go) policy req' where "Allocate_admit gen req now rp = Returned (Inr (policy, req')) rp"
      "get (Policies rp) (policy_name req') = Some policy" "canSatisfy req' rp"
      "\<not> has_key (Reserves rp) (r_ID req')" "req' = req\<lparr>r_ID := r_ID req'\<rparr>"
proof -
  obtain req' where u: "ensureUniqueReservationIDUnlocked gen rp req = Some req'"
    using ensureUnique_total by blast
  note fresh = ensureUnique_Some[OF u]
  have soft: "r_Soft req' = r_Soft req" by (subst fresh(2)) simp
  have q: "\<exists>q. xs @ [req'\<lparr>r_enqueuedAt := now\<rparr>] = xs @ [q] \<and> reqs_of q = reqs_of req" for xs
    using fresh(3) by auto
  show thesis
  proof (cases "get (Policies rp) (policy_name req')")
    case None
    then show ?thesis
      using early u soft q by (cases "r_Soft req") (auto simp: Allocate_admit_def Let_def)
  next
    case (Some policy)
    show ?thesis
    proof (cases "canSatisfy req' rp")
      case True
      then show ?thesis using go u Some fresh by (auto simp: Allocate_admit_def)
    next
      case False
      then show ?thesis
        using early u Some soft q by (cases "r_Soft req") (auto simp: Allocate_admit_def)
    qed
  qed
qed

text \<open>
  Booking under the write lock: either the capacity check fails or the reservation is booked, and
  then the snapshot for the trace entry waits for the lock. Only a vanished node makes it return.
\<close>

lemma Allocate_book_WLocked:
  assumes "Mu rp = WLocked"
  shows "Allocate_book req nid v now lat rp =
     (case get (Nodes rp) nid of
        None \<Rightarrow> Returned (Inl (NodeDisappeared nid))
          (updateAvgAllocLatency lat
            (TraceAppend TraceError ''Allocate'' ''Node-missing-after-policy'' now (bump_failed rp)))
      | Some n \<Rightarrow>
          Blocked
            (if ForecastHook rp \<noteq> None \<and> reqs_of req \<noteq> [] then rp
             else if \<not> has_capacity0 (reqs_of req) n then bump_failed rp
             else book req nid rp n))"
  using assms
  by (auto simp: Allocate_book_def pool_locks book_def split: option.split)

lemma Allocate_admitted:
  assumes "Mu rp = Unlocked"
    and "Allocate_admit gen (if IsZero (r_CreatedAt req) then req\<lparr>r_CreatedAt := now\<rparr> else req) now
           (rp\<lparr>Mu := WLocked\<rparr>) = Returned (Inr (policy, req')) (rp\<lparr>Mu := WLocked\<rparr>)"
  shows "Allocate gen req now lat rp =
     (case p_Allocate policy (Nodes rp) req' of
        Inl e \<Rightarrow> locked (Allocate_policy_failed req' e now lat) rp
      | Inr (nid, v) \<Rightarrow> locked (Allocate_book req' nid v now lat) rp)"
proof -
  have unlock: "rp\<lparr>Mu := Unlocked\<rparr> = rp" using assms(1) by simp
  show ?thesis
    using assms unlock by (simp add: Allocate_def Let_def pool_locks split: sum.split)
qed

lemma Allocate_policy_failed_frame:
  "\<exists>e' rp'. Allocate_policy_failed req e now lat rp = Returned (Inl e') rp' \<and>
     Mu rp' = Mu rp \<and> Nodes rp' = Nodes rp \<and> Reserves rp' = Reserves rp \<and>
     (r_Soft req \<longrightarrow> e' = ErrQueued \<and> pendingQueue rp' = pendingQueue rp @ [req\<lparr>r_enqueuedAt := now\<rparr>]) \<and>
     (\<not> r_Soft req \<longrightarrow> e' = e \<and> pendingQueue rp' = pendingQueue rp)"
  by (simp add: Allocate_policy_failed_def Let_def)

text \<open>Everything that an allocation can do from a free mutex.\<close>

definition alloc_error :: "Reservation \<Rightarrow> ResourcePool \<Rightarrow> pool_error \<Rightarrow> ResourcePool \<Rightarrow> bool" where
  "alloc_error req rp e rp' \<longleftrightarrow>
     Mu rp' = Unlocked \<and> Nodes rp' = Nodes rp \<and> Reserves rp' = Reserves rp \<and>
     (if r_Soft req
      then e = ErrQueued \<and> (\<exists>q. pendingQueue rp' = pendingQueue rp @ [q] \<and> reqs_of q = reqs_of req)
      else pendingQueue rp' = pendingQueue rp)"

definition alloc_booked :: "Reservation \<Rightarrow> ResourcePool \<Rightarrow> ResourcePool \<Rightarrow> bool" where
  "alloc_booked req rp rp' \<longleftrightarrow>
     (\<exists>policy req' nid v n.
        get (Policies rp) (policy_name req') = Some policy \<and>
        p_Allocate policy (Nodes rp) req' = Inr (nid, v) \<and>
        get (Nodes rp) nid = Some n \<and> has_capacity0 (reqs_of req) n \<and>
        reqs_of req' = reqs_of req \<and> r_NodeID req' = r_NodeID req \<and>
        \<not> has_key (Reserves rp) (r_ID req') \<and>
        rp' = book req' nid (rp\<lparr>Mu := WLocked\<rparr>) n)"

lemma Allocate_outcome [consumes 1, case_names error vanished stuck booked]:
  assumes "Mu rp = Unlocked"
  obtains (error) e rp' where "Allocate gen req now lat rp = Returned (Inl e) rp'" "alloc_error req rp e rp'"
  | (vanished) nid rp' p q v where
      "Allocate gen req now lat rp = Returned (Inl (NodeDisappeared nid)) rp'"
      "Mu rp' = Unlocked" "Nodes rp' = Nodes rp" "Reserves rp' = Reserves rp"
      "get (Policies rp) (policy_name q) = Some p" "p_Allocate p (Nodes rp) q = Inr (nid, v)"
      "get (Nodes rp) nid = None"
  | (stuck) rp' where "Allocate gen req now lat rp = Blocked rp'" "Mu rp' = WLocked"
      "Nodes rp' = Nodes rp" "Reserves rp' = Reserves rp"
      "ForecastHook rp = None \<longrightarrow>
         (\<exists>p q nid v n. get (Policies rp) (policy_name q) = Some p \<and> reqs_of q = reqs_of req \<and>
            p_Allocate p (Nodes rp) q = Inr (nid, v) \<and> get (Nodes rp) nid = Some n \<and>
            \<not> has_capacity0 (reqs_of q) n)"
  | (booked) rp' where "Allocate gen req now lat rp = Blocked rp'" "alloc_booked req rp rp'"
proof -
  let ?req = "if IsZero (r_CreatedAt req) then req\<lparr>r_CreatedAt := now\<rparr> else req"
  let ?w = "rp\<lparr>Mu := WLocked\<rparr>"
  have req: "r_Soft ?req = r_Soft req" "reqs_of ?req = reqs_of req" "r_NodeID ?req = r_NodeID req"
    by simp_all
  show thesis
  proof (cases rule: Allocate_admit_cases[of gen ?req now ?w])
    case (early e b rp1)
    let ?r = "if b then updateAvgAllocLatency lat (rp1\<lparr>Mu := Unlocked\<rparr>) else rp1\<lparr>Mu := Unlocked\<rparr>"
    have "Allocate gen req now lat rp = Returned (Inl e) ?r"
      using assms early(1,2) by (simp add: Allocate_def pool_locks Let_def)
    moreover have "alloc_error req rp e ?r"
      using early(3-6) req by (auto simp: alloc_error_def)
    ultimately show ?thesis by (rule error)
  next
    case (go policy req')
    have r': "r_Soft req' = r_Soft req" "reqs_of req' = reqs_of req" "r_NodeID req' = r_NodeID req"
      by (subst go(5), simp)+
    note run = Allocate_admitted[OF assms go(1)]
    show ?thesis
    proof (cases "p_Allocate policy (Nodes rp) req'")
      case (Inl e)
      obtain e' rp1 where f: "Allocate_policy_failed req' e now lat ?w = Returned (Inl e') rp1"
          "Mu rp1 = WLocked" "Nodes rp1 = Nodes rp" "Reserves rp1 = Reserves rp"
          "r_Soft req' \<longrightarrow> e' = ErrQueued \<and> pendingQueue rp1 = pendingQueue rp @ [req'\<lparr>r_enqueuedAt := now\<rparr>]"
          "\<not> r_Soft req' \<longrightarrow> e' = e \<and> pendingQueue rp1 = pendingQueue rp"
        using Allocate_policy_failed_frame[of req' e now lat ?w] by auto
      have "Allocate gen req now lat rp = Returned (Inl e') (rp1\<lparr>Mu := Unlocked\<rparr>)"
        using run Inl assms f(1,2) by (simp add: pool_locks)
      moreover have "alloc_error req rp e' (rp1\<lparr>Mu := Unlocked\<rparr>)"
        using f(3-6) r' by (auto simp: alloc_error_def)
      ultimately show ?thesis by (rule error)
    next
      case (Inr c)
      obtain nid v where c: "c = (nid, v)" by (cases c)
      have run': "Allocate gen req now lat rp = locked (Allocate_book req' nid v now lat) rp"
        using run Inr c by simp
      show ?thesis
      proof (cases "get (Nodes rp) nid")
        case None
        then show ?thesis
          using run' assms vanished[of nid _ req' policy v] Inr c go(2)
          by (simp add: pool_locks Allocate_book_WLocked)
      next
        case (Some n)
        consider (fore) "ForecastHook rp \<noteq> None \<and> reqs_of req' \<noteq> []"
          | (lacking) "\<not> has_capacity0 (reqs_of req') n" "\<not> (ForecastHook rp \<noteq> None \<and> reqs_of req' \<noteq> [])"
          | (enough) "has_capacity0 (reqs_of req') n" "\<not> (ForecastHook rp \<noteq> None \<and> reqs_of req' \<noteq> [])"
          by blast
        then show ?thesis
        proof cases
          case fore
          then show ?thesis using run' assms Some stuck by (auto simp: pool_locks Allocate_book_WLocked)
        next
          case lacking
          have b: "Allocate gen req now lat rp = Blocked (bump_failed ?w)"
            using run' assms Some lacking by (auto simp: pool_locks Allocate_book_WLocked)
          have ex: "\<exists>p q nid v n. get (Policies rp) (policy_name q) = Some p \<and> reqs_of q = reqs_of req \<and>
              p_Allocate p (Nodes rp) q = Inr (nid, v) \<and> get (Nodes rp) nid = Some n \<and>
              \<not> has_capacity0 (reqs_of q) n"
            by (rule exI[of _ policy], rule exI[of _ req'], rule exI[of _ nid], rule exI[of _ v],
                rule exI[of _ n]) (use lacking(1) Some Inr c go(2) r'(2) in simp)
          show ?thesis by (rule stuck[OF b]) (use ex in simp_all)
        next
          case enough
          have b: "Allocate gen req now lat rp = Blocked (book req' nid ?w n)"
            using run' assms Some enough by (auto simp: pool_locks Allocate_book_WLocked)
          have "alloc_booked req rp (book req' nid ?w n)"
            using enough Some Inr c go(2,4) r' by (auto simp: alloc_booked_def)
          with b show ?thesis by (rule booked)
        qed
      qed
    qed
  qed
qed

lemma Allocate_no_node:
  "Allocate gen req now lat rp \<noteq> Returned (Inr r) rp'"
proof (cases "Mu rp = Unlocked")
  case True
  then show ?thesis
    by (cases rule: Allocate_outcome[of rp gen req now lat]) auto
next
  case False
  then show ?thesis by (simp add: Allocate_def Let_def pool_locks)
qed

section \<open>Policies that keep their contract\<close>

definition policies_ok :: "ResourcePool \<Rightarrow> bool" where
  "policies_ok rp \<longleftrightarrow> (\<forall>(k, p) \<in> set (Policies rp). pool_policy (p_Allocate p))"

text \<open>Every policy that the code can build keeps it.\<close>

lemma builtin_policies_ok:
  "pool_policy (p_Allocate DefaultFairSharePolicy)" "pool_policy (p_Allocate CostAwarePolicy)"
  "pool_policy (p_Allocate (expr_policy p))"
  by (simp_all add: DefaultFairSharePolicy_def CostAwarePolicy_def expr_policy_def
      fair.pool_policy_axioms cost.pool_policy_axioms expr.pool_policy_axioms)

lemma policies_ok_get: "policies_ok rp \<Longrightarrow> get (Policies rp) k = Some p \<Longrightarrow> pool_policy (p_Allocate p)"
  unfolding policies_ok_def by (auto dest!: get_in_set)

lemma policies_ok_New: "policies_ok NewResourcePool"
  by (simp add: policies_ok_def NewResourcePool_def builtin_policies_ok)

lemma policy_choice:
  assumes "policies_ok rp" and "nodes_ok (Nodes rp)" and "get (Policies rp) k = Some p"
    and "p_Allocate p (Nodes rp) q = Inr (nid, v)"
  shows "\<exists>n. get (Nodes rp) nid = Some n \<and> suitable q n"
  using pool_policy.alloc_registered[OF policies_ok_get[OF assms(1,3)] assms(2,4)] by blast

lemma Allocate_two_outcomes:
  assumes "Mu rp = Unlocked" and "nodes_ok (Nodes rp)" and "policies_ok rp"
    and "ForecastHook rp = None"
  shows "(\<exists>e rp'. Allocate gen req now lat rp = Returned (Inl e) rp' \<and> alloc_error req rp e rp') \<or>
         (\<exists>rp'. Allocate gen req now lat rp = Blocked rp' \<and> alloc_booked req rp rp')"
  using assms(1)
proof (cases rule: Allocate_outcome[of rp gen req now lat])
  case (vanished nid rp' p q v)
  then show ?thesis using policy_choice[OF assms(3,2) vanished(5,6)] by simp
next
  case (stuck rp')
  then obtain p q nid v n where "get (Policies rp) (policy_name q) = Some p"
      "p_Allocate p (Nodes rp) q = Inr (nid, v)" "get (Nodes rp) nid = Some n"
      "\<not> has_capacity0 (reqs_of q) n"
    using assms(4) by blast
  then show ?thesis using policy_choice[OF assms(3,2)] by (fastforce simp: suitable_def)
qed blast+

text \<open>A pool with one node of four free CPUs and a request for three of them.\<close>

definition node1 :: ResourceNode where
  "node1 = \<lparr>n_ID = ''n1'', n_Provider = ''aws'', n_Region = ''eu'', n_Labels = [(''zone'', ''a'')],
     n_Resources = [(''cpu'', 4)], n_NUMATop = [], n_GPUTop = [], n_NICs = [], n_Status = ''online'',
     n_TDP = 100, n_PoolTier = ''hot'', n_SLO = [], n_LastSeen = 1, n_Meta = [], n_Allocated = []\<rparr>"

definition pool1 :: ResourcePool where
  "pool1 = NewResourcePool\<lparr>Nodes := [(''n1'', node1)]\<rparr>"

definition req3 :: Reservation where
  "req3 = \<lparr>r_ID = '''', r_NodeID = '''', r_RType = ''cpu'', r_Requirements = [], r_Amount = 3,
     r_Priority = 1, r_Soft = True, r_Affinity = [''zone=a''], r_AntiAffinity = [], r_SLO = [],
     r_Start = 0, r_Deadline = 0, r_Policy = '''', r_CreatedAt = 0, r_Owner = ''bob'', r_Weights = [],
     r_enqueuedAt = 0\<rparr>"

lemma pool1_ok: "Mu pool1 = Unlocked" "nodes_ok (Nodes pool1)" "policies_ok pool1" "ForecastHook pool1 = None"
  using policies_ok_New
  by (simp_all add: pool1_def NewResourcePool_def nodes_ok_def node1_def policies_ok_def)

lemma pool1_Allocate: "is_blocked (Allocate ''res-1'' req3 7 0 pool1)"
  by (simp add: Allocate_def pool_locks Allocate_admit_def Allocate_book_WLocked pool1_def
      NewResourcePool_def ensureUniqueReservationIDUnlocked_def req3_def has_key_def policy_name_def
      canSatisfy_def matchesAffinity_def label_match_def node1_def status_names has_capacity_def
      reqs_of_def DefaultFairSharePolicy_def DefaultFairShare_Allocate_def eligible_def Let_def)

lemma pool1_booked: "\<exists>rp'. Allocate ''res-1'' req3 7 0 pool1 = Blocked rp' \<and> alloc_booked req3 pool1 rp'"
  using Allocate_two_outcomes[OF pool1_ok, of "''res-1''" req3 7 0] pool1_Allocate by auto

section \<open>Properties\<close>

text \<open>
  C15: allocation. Without a forecast hook, and when every registered policy, as a choice that changes no node
  itself, answers only with a registered node that is online and can hold the request, or with \<open>ErrNoResource\<close>,
  as the built-in ones do,
  a call from a free mutex has two outcomes. Either it returns an error with nodes and reservations untouched
  and the mutex free, a soft request being queued with exactly its requirements and reported as
  \<open>ErrQueued\<close>, a hard one not being queued. Or an existing node is debited by exactly the
  requirements, which it can satisfy, and the reservation is stored under an ID that was not in
  use, after which the caller waits for the mutex it holds itself.
\<close>

theorem Allocate_books_or_reports:
  assumes "Mu rp = Unlocked" and "nodes_ok (Nodes rp)" and "policies_ok rp"
    and "ForecastHook rp = None"
  shows "(\<exists>e rp'. Allocate gen req now lat rp = Returned (Inl e) rp' \<and> alloc_error req rp e rp') \<or>
         (\<exists>rp'. Allocate gen req now lat rp = Blocked rp' \<and> alloc_booked req rp rp')"
  using assms by (rule Allocate_two_outcomes)

theorem Allocate_books_or_reports_witness:
  "\<exists>rp'. Allocate ''res-1'' req3 7 0 pool1 = Blocked rp' \<and> alloc_booked req3 pool1 rp'"
  using Allocate_books_or_reports[OF pool1_ok, of "''res-1''" req3 7 0] pool1_Allocate by auto

text \<open>
  C19: no call of \<open>Allocate\<close> ever returns a node, whatever the policies do: the only successful
  path computes a trace snapshot, which takes the read lock, while it holds the write lock.
\<close>

theorem Allocate_never_returns_a_node:
  "Allocate gen req now lat rp \<noteq> Returned (Inr r) rp'"
  by (rule Allocate_no_node)

text \<open>
  C3: conservation. Whatever the policies do and however the call ends, the memory it leaves
  holds the same nodes, each with the same total (free plus allocated) of every resource, and no
  free amount that was non-negative has become negative.
\<close>

theorem Allocate_conserves_capacity:
  assumes "Mu rp = Unlocked"
  shows "(get (Nodes (memory (Allocate gen req now lat rp))) i = None \<longleftrightarrow> get (Nodes rp) i = None) \<and>
    (\<forall>n'. get (Nodes (memory (Allocate gen req now lat rp))) i = Some n' \<longrightarrow>
       (\<exists>n. get (Nodes rp) i = Some n \<and> node_total rt n' = node_total rt n \<and>
          (0 \<le> get0 (n_Resources n) rt \<longrightarrow> 0 \<le> get0 (n_Resources n') rt)))"
  using assms
proof (cases rule: Allocate_outcome[of rp gen req now lat])
  case (booked rp')
  from booked(2) obtain q nid n where b: "get (Nodes rp) nid = Some n"
      "has_capacity0 (reqs_of q) n" "Nodes rp' = put nid (debit (reqs_of q) n) (Nodes rp)"
    by (auto simp: alloc_booked_def book_def)
  have "0 \<le> get0 (n_Resources n) rt \<Longrightarrow> 0 \<le> get0 (n_Resources (debit (reqs_of q) n)) rt"
    using b(2) by (cases "has_key (reqs_of q) rt") (auto simp: has_capacity0_iff booking get0_absent)
  then show ?thesis using booked(1) b by (auto simp: map_simps booking)
qed (auto simp: alloc_error_def)

theorem Allocate_conserves_capacity_witness:
  "\<exists>n. get (Nodes pool1) ''n1'' = Some n \<and>
     (\<forall>n'. get (Nodes (memory (Allocate ''res-1'' req3 7 0 pool1))) ''n1'' = Some n' \<longrightarrow>
        node_total ''cpu'' n' = 4)"
proof -
  have "get (Nodes pool1) ''n1'' = Some node1" by (simp add: pool1_def)
  moreover have "node_total ''cpu'' node1 = 4" by (simp add: node_total_def node1_def)
  ultimately show ?thesis
    using Allocate_conserves_capacity[OF pool1_ok(1), of "''res-1''" req3 7 0 "''n1''" "''cpu''"] by auto
qed

text \<open>
  the reservation that \<open>Allocate\<close> stores keeps the caller's \<open>NodeID\<close> instead of the chosen
  node. When the caller left it empty (or named no node), releasing the reservation gives nothing
  back: the node that was debited keeps the debit.
\<close>

theorem Allocate_release_leaks:
  assumes "alloc_booked req rp rp'" and "get (Nodes rp) (r_NodeID req) = None"
  shows "\<exists>resID stored. get (Reserves rp') resID = Some stored \<and> get (Reserves rp) resID = None \<and>
           reqs_of stored = reqs_of req \<and> Nodes (release resID stored rp') = Nodes rp'"
proof -
  from assms(1) obtain q nid n where b: "get (Nodes rp) nid = Some n" "reqs_of q = reqs_of req"
      "r_NodeID q = r_NodeID req" "\<not> has_key (Reserves rp) (r_ID q)"
      "rp' = book q nid (rp\<lparr>Mu := WLocked\<rparr>) n"
    by (auto simp: alloc_booked_def)
  have "r_NodeID q \<noteq> nid" using assms(2) b(1,3) by auto
  then have "Nodes (release (r_ID q) q rp') = Nodes rp'"
    using assms(2) b(3,5) by (simp add: release_def book_def map_simps)
  moreover have "get (Reserves rp') (r_ID q) = Some q" using b(5) by (simp add: book_def map_simps)
  ultimately show ?thesis using b(2,4) by (auto simp: has_key_def)
qed

theorem Allocate_release_leaks_witness:
  "\<exists>rp' resID stored. alloc_booked req3 pool1 rp' \<and> Nodes (release resID stored rp') = Nodes rp'"
proof -
  obtain rp' where "alloc_booked req3 pool1 rp'" using pool1_booked by blast
  moreover have "get (Nodes pool1) (r_NodeID req3) = None" by (simp add: pool1_def req3_def)
  ultimately show ?thesis using Allocate_release_leaks by blast
qed

end
