(* ===== verification/PoolMaintenance.thy ===== *)
theory PoolMaintenance
  imports PoolCorrect
begin

text \<open>
  The background work of the resource pool (\<^verbatim>\<open>src/internal/aggregation/resource_pool.go\<close>):
  rebalancing, health checks and repair, the deadline watcher, the pending queue, and the
  switches of the periodic loops. Each function is one run of the loop body by one goroutine
  with the mutex free at the start; sleeping between steps has no effect on the memory.
\<close>

section \<open>Moving a reservation\<close>

text \<open>Credit the source node, if it is still there, then debit the target.\<close>

definition migrate :: "string \<Rightarrow> string \<Rightarrow> (ResourceType, float64) gomap \<Rightarrow> ResourcePool \<Rightarrow> ResourcePool" where
  "migrate src tid reqs rp =
     (let rp = (case get (Nodes rp) src of
                  None \<Rightarrow> rp
                | Some s \<Rightarrow> rp\<lparr>Nodes := put src (credit reqs s) (Nodes rp)\<rparr>)
      in case get (Nodes rp) tid of
           None \<Rightarrow> rp
         | Some t \<Rightarrow> rp\<lparr>Nodes := put tid (debit reqs t) (Nodes rp)\<rparr>)"

definition reassign :: "string \<Rightarrow> Reservation \<Rightarrow> string \<Rightarrow> ResourcePool \<Rightarrow> ResourcePool" where
  "reassign resID r tid rp = rp\<lparr>Reserves := put resID (r\<lparr>r_NodeID := tid\<rparr>) (Reserves rp)\<rparr>"

section \<open>Rebalance\<close>

definition node_util :: "ResourceNode \<Rightarrow> float64" where
  "node_util n =
     (let totalAllocated = sum_list (map (\<lambda>(rt, avail). get0 (n_Allocated n) rt) (n_Resources n));
          totalCap = sum_list (map (\<lambda>(rt, avail). avail + get0 (n_Allocated n) rt) (n_Resources n))
      in if totalCap \<le> 0 then 0 else totalAllocated / totalCap)"

definition overloaded_nodes :: "ResourcePool \<Rightarrow> string list" where
  "overloaded_nodes rp =
     map fst (sort_slice (\<lambda>a b. snd a > snd b)
       (filter (\<lambda>(i, u). u \<ge> rebalThreshold) (map (\<lambda>(i, n). (i, node_util n)) (Nodes rp))))"

fun rebalance_targets ::
    "string \<Rightarrow> string \<Rightarrow> Reservation \<Rightarrow> gotime \<Rightarrow> string list \<Rightarrow> ResourcePool
      \<Rightarrow> (unit, ResourcePool) outcome" where
  "rebalance_targets src resID r now [] rp = Returned () rp"
| "rebalance_targets src resID r now (tid # tids) rp =
     (case get (Nodes rp) tid of
        None \<Rightarrow> rebalance_targets src resID r now tids rp
      | Some tn \<Rightarrow>
          if tid = src \<or> n_Status tn \<noteq> NODE_ONLINE then rebalance_targets src resID r now tids rp
          else
            andThen
              (if ForecastHook rp \<noteq> None then forecast_blocks [ResourceCPU, ResourceGPU] (n_Region tn) rp
               else Returned None rp) (\<lambda>predBlock rp.
            if predBlock \<noteq> None \<or> \<not> matchesAffinity tn r \<or> \<not> has_capacity0 (reqs_of r) tn
            then rebalance_targets src resID r now tids rp
            else TraceSnapshot TraceInfo ''Rebalance'' ''migrated'' tid now
                   (reassign resID r tid (migrate src tid (reqs_of r) rp))))"

fun rebalance_reserves ::
    "string \<Rightarrow> gotime \<Rightarrow> (string \<times> Reservation) list \<Rightarrow> ResourcePool \<Rightarrow> (unit, ResourcePool) outcome" where
  "rebalance_reserves src now [] rp = Returned () rp"
| "rebalance_reserves src now ((resID, r) # rs) rp =
     (if r_NodeID r \<noteq> src \<or> \<not> r_Soft r \<or> r_Priority r > 5 then rebalance_reserves src now rs rp
      else andThen (rebalance_targets src resID r now (map fst (Nodes rp)) rp)
             (\<lambda>_ rp. rebalance_reserves src now rs rp))"

fun rebalance_sources :: "gotime \<Rightarrow> string list \<Rightarrow> ResourcePool \<Rightarrow> (unit, ResourcePool) outcome" where
  "rebalance_sources now [] rp = Returned () rp"
| "rebalance_sources now (src # srcs) rp =
     andThen (rebalance_reserves src now (Reserves rp) rp) (\<lambda>_ rp. rebalance_sources now srcs rp)"

definition Rebalance :: "gotime \<Rightarrow> ResourcePool \<Rightarrow> (unit, ResourcePool) outcome" where
  "Rebalance now rp =
     andThen (locked (\<lambda>rp.
        let rp = TraceAppend TraceInfo ''Rebalance'' ''start'' now rp
        in if overloaded_nodes rp = [] then Returned False (TraceAppend TraceInfo ''Rebalance'' ''no-overload'' now rp)
           else andThen (rebalance_sources now (overloaded_nodes rp) rp)
                  (\<lambda>_ rp. Returned True (updateKPIsLocked rp))) rp)
     (\<lambda>worked rp. Returned ()
        (if worked then TraceAppend TraceInfo ''Rebalance'' ''end'' now (notify rp) else rp))"

section \<open>Health\<close>

fun health_mark :: "gotime \<Rightarrow> string list \<Rightarrow> ResourcePool \<Rightarrow> (string list, ResourcePool) outcome" where
  "health_mark now [] rp = Returned [] rp"
| "health_mark now (i # is) rp =
     (case get (Nodes rp) i of
        None \<Rightarrow> health_mark now is rp
      | Some n \<Rightarrow>
          if now - n_LastSeen n > healthTimeout rp \<and> n_Status n = NODE_ONLINE then
            andThen (TraceSnapshot TraceWarn ''HealthCheck'' ''Node-marked-offline'' i now
              (rp\<lparr>Nodes := put i (n\<lparr>n_Status := NODE_OFFLINE\<rparr>) (Nodes rp)\<rparr>)) (\<lambda>_ rp.
            andThen (health_mark now is rp) (\<lambda>rest rp. Returned (i # rest) rp))
          else health_mark now is rp)"

definition health_repair1 :: "gotime \<Rightarrow> string \<Rightarrow> ResourcePool \<Rightarrow> (unit, ResourcePool) outcome" where
  "health_repair1 now i =
     locked (\<lambda>rp. case get (Nodes rp) i of
       None \<Rightarrow> Returned () rp
     | Some n \<Rightarrow>
         if n_Status n = NODE_OFFLINE then
           let rp = TraceAppend TraceInfo ''HealthRepair'' ''Node-maintenance-start'' now
                      (rp\<lparr>Nodes := put i (n\<lparr>n_Status := NODE_MAINT\<rparr>) (Nodes rp)\<rparr>);
               rp = rp\<lparr>Nodes := put i (n\<lparr>n_Status := NODE_ONLINE, n_LastSeen := now\<rparr>) (Nodes rp)\<rparr>
           in andThen (TraceSnapshot TraceInfo ''HealthRepair'' ''Node-repaired'' i now rp)
                (\<lambda>_ rp. Returned () (notify rp))
         else Returned () rp)"

fun health_repair :: "gotime \<Rightarrow> string list \<Rightarrow> ResourcePool \<Rightarrow> (unit, ResourcePool) outcome" where
  "health_repair now [] rp = Returned () rp"
| "health_repair now (i # is) rp =
     andThen (health_repair1 now i rp) (\<lambda>_ rp. health_repair now is rp)"

definition performHealthCheck :: "gotime \<Rightarrow> ResourcePool \<Rightarrow> (unit, ResourcePool) outcome" where
  "performHealthCheck now rp =
     andThen (locked (\<lambda>rp. health_mark now (map fst (Nodes rp)) rp) rp)
       (\<lambda>toRepair rp. health_repair now (take maxRepairsPerTick toRepair) rp)"

fun repair_loop :: "gotime \<Rightarrow> string list \<Rightarrow> ResourcePool \<Rightarrow> (string list, ResourcePool) outcome" where
  "repair_loop now [] rp = Returned [] rp"
| "repair_loop now (i # is) rp =
     (case get (Nodes rp) i of
        None \<Rightarrow> repair_loop now is rp
      | Some n \<Rightarrow>
          if n_Status n = NODE_OFFLINE \<or> n_Status n = NODE_DEGRADED then
            if now - n_LastSeen n \<le> 2 * healthTimeout rp then
              andThen (TraceSnapshot TraceInfo ''CheckAndRepair'' ''repaired'' i now
                (rp\<lparr>Nodes := put i (n\<lparr>n_LastSeen := now, n_Status := NODE_ONLINE\<rparr>) (Nodes rp)\<rparr>)) (\<lambda>_ rp.
              andThen (repair_loop now is rp) (\<lambda>rest rp. Returned (i # rest) rp))
            else repair_loop now is (TraceAppend TraceWarn ''CheckAndRepair'' ''quarantine'' now rp)
          else repair_loop now is rp)"

definition CheckAndRepair :: "gotime \<Rightarrow> ResourcePool \<Rightarrow> (string list, ResourcePool) outcome" where
  "CheckAndRepair now =
     locked (\<lambda>rp. andThen (repair_loop now (map fst (Nodes rp)) rp) (\<lambda>repaired rp.
       Returned repaired (if repaired \<noteq> [] then notify (updateKPIsLocked rp) else rp)))"

section \<open>Deadlines\<close>

fun deadline_targets ::
    "string \<Rightarrow> Reservation \<Rightarrow> gotime \<Rightarrow> string list \<Rightarrow> ResourcePool \<Rightarrow> (unit, ResourcePool) outcome" where
  "deadline_targets resID r now [] rp = Returned () rp"
| "deadline_targets resID r now (nid # nids) rp =
     (case get (Nodes rp) nid of
        None \<Rightarrow> deadline_targets resID r now nids rp
      | Some n \<Rightarrow>
          if nid = r_NodeID r \<or> n_Status n \<noteq> NODE_ONLINE \<or> \<not> has_capacity0 (reqs_of r) n
          then deadline_targets resID r now nids rp
          else TraceSnapshot TraceInfo ''DeadlineWatcher'' ''rescheduled'' nid now
                 (reassign resID r nid (migrate (r_NodeID r) nid (reqs_of r) rp)))"

fun deadline_reserves ::
    "gotime \<Rightarrow> (string \<times> Reservation) list \<Rightarrow> ResourcePool \<Rightarrow> (unit, ResourcePool) outcome" where
  "deadline_reserves now [] rp = Returned () rp"
| "deadline_reserves now ((resID, r) # rs) rp =
     (if \<not> IsZero (r_Deadline r) \<and> r_Deadline r - now < 30 * Second
      then andThen (deadline_targets resID r now (map fst (Nodes rp)) rp) (\<lambda>_ rp. deadline_reserves now rs rp)
      else deadline_reserves now rs rp)"

definition enforceDeadlines :: "gotime \<Rightarrow> ResourcePool \<Rightarrow> (unit, ResourcePool) outcome" where
  "enforceDeadlines now = locked (\<lambda>rp. deadline_reserves now (Reserves rp) rp)"

section \<open>The pending queue\<close>

definition pending_book :: "Reservation \<Rightarrow> string \<Rightarrow> gotime \<Rightarrow> ResourcePool \<Rightarrow> (bool, ResourcePool) outcome" where
  "pending_book req nid now =
     locked (\<lambda>rp. case get (Nodes rp) nid of
       None \<Rightarrow> Returned False rp
     | Some n \<Rightarrow>
         if \<not> has_capacity0 (reqs_of req) n then Returned False rp
         else andThen (TraceSnapshot TraceInfo ''Allocator'' ''allocated-from-queue'' nid now
                (book (req\<lparr>r_NodeID := nid\<rparr>) nid rp n)) (\<lambda>_ rp. Returned True (updateKPIsLocked rp)))"

fun pending_loop :: "Reservation list \<Rightarrow> gotime \<Rightarrow> ResourcePool \<Rightarrow> (Reservation list, ResourcePool) outcome" where
  "pending_loop [] now rp = Returned [] rp"
| "pending_loop (req # queue) now rp =
     andThen (Mu_RLock rp) (\<lambda>_ rp.
     let policy = get (Policies rp) (policy_name req)
     in andThen (Mu_RUnlock rp) (\<lambda>_ rp.
     case policy of
       None \<Rightarrow> andThen (pending_loop queue now rp) (\<lambda>rest rp. Returned (req # rest) rp)
     | Some p \<Rightarrow>
         andThen (call_policy p req rp) (\<lambda>choice rp.
         case choice of
           Inl e \<Rightarrow> andThen (pending_loop queue now rp) (\<lambda>rest rp. Returned (req # rest) rp)
         | Inr (nid, v) \<Rightarrow>
             andThen (pending_book req nid now rp) (\<lambda>booked rp.
             andThen (pending_loop queue now rp) (\<lambda>rest rp.
               Returned (if booked then rest else req # rest) rp)))))"

definition processPendingOnce :: "gotime \<Rightarrow> ResourcePool \<Rightarrow> (unit, ResourcePool) outcome" where
  "processPendingOnce now rp =
     andThen (locked (\<lambda>rp. Returned (pendingQueue rp) (rp\<lparr>pendingQueue := []\<rparr>)) rp) (\<lambda>queue rp.
     if queue = [] then Returned () rp
     else
       andThen (pending_loop queue now rp) (\<lambda>remaining rp.
       andThen (locked (\<lambda>rp. Returned () (rp\<lparr>pendingQueue := pendingQueue rp @ remaining\<rparr>)) rp) (\<lambda>_ rp.
       Returned () (if remaining \<noteq> [] then TraceAppend TraceInfo ''Allocator'' ''queue-left'' now rp else rp))))"

section \<open>Switches of the periodic loops and hooks\<close>

definition StartHealthChecker ::
    "duration \<Rightarrow> duration \<Rightarrow> gotime \<Rightarrow> ResourcePool \<Rightarrow> (unit, ResourcePool) outcome" where
  "StartHealthChecker interval timeout now rp =
     andThen (locked (\<lambda>rp.
        if stopHealthCh rp then Returned False rp
        else Returned True (rp\<lparr>healthCheckInterval := if interval \<le> 0 then healthCheckInterval rp else interval,
               healthTimeout := if timeout \<le> 0 then healthTimeout rp else timeout, stopHealthCh := True\<rparr>)) rp)
     (\<lambda>started rp. Returned () (if started then TraceAppend TraceInfo ''HealthChecker'' ''started'' now rp else rp))"

definition StopHealthChecker :: "gotime \<Rightarrow> ResourcePool \<Rightarrow> (unit, ResourcePool) outcome" where
  "StopHealthChecker now rp =
     andThen (locked (\<lambda>rp. Returned (stopHealthCh rp) (rp\<lparr>stopHealthCh := False\<rparr>)) rp)
     (\<lambda>was rp. Returned () (if was then TraceAppend TraceInfo ''HealthChecker'' ''stopped'' now rp else rp))"

definition StartDeadlineWatcher :: "duration \<Rightarrow> gotime \<Rightarrow> ResourcePool \<Rightarrow> (unit, ResourcePool) outcome" where
  "StartDeadlineWatcher interval now rp =
     andThen (locked (\<lambda>rp.
        if stopDeadlineCh rp then Returned False rp else Returned True (rp\<lparr>stopDeadlineCh := True\<rparr>)) rp)
     (\<lambda>started rp. Returned () (if started then TraceAppend TraceInfo ''DeadlineWatcher'' ''started'' now rp else rp))"

definition StopDeadlineWatcher :: "gotime \<Rightarrow> ResourcePool \<Rightarrow> (unit, ResourcePool) outcome" where
  "StopDeadlineWatcher now rp =
     andThen (locked (\<lambda>rp. Returned (stopDeadlineCh rp) (rp\<lparr>stopDeadlineCh := False\<rparr>)) rp)
     (\<lambda>was rp. Returned () (if was then TraceAppend TraceInfo ''DeadlineWatcher'' ''stopped'' now rp else rp))"

definition StartAllocator :: "duration \<Rightarrow> gotime \<Rightarrow> ResourcePool \<Rightarrow> (unit, ResourcePool) outcome" where
  "StartAllocator interval now rp =
     andThen (locked (\<lambda>rp.
        if allocatorStopCh rp then Returned False rp
        else Returned True (rp\<lparr>allocatorInterval := if interval \<le> 0 then allocatorInterval rp else interval,
               allocatorStopCh := True\<rparr>)) rp)
     (\<lambda>started rp. Returned () (if started then TraceAppend TraceInfo ''Allocator'' ''started'' now rp else rp))"

definition StopAllocator :: "gotime \<Rightarrow> ResourcePool \<Rightarrow> (unit, ResourcePool) outcome" where
  "StopAllocator now rp =
     andThen (locked (\<lambda>rp. Returned (allocatorStopCh rp) (rp\<lparr>allocatorStopCh := False\<rparr>)) rp)
     (\<lambda>was rp. Returned () (if was then TraceAppend TraceInfo ''Allocator'' ''stopped'' now rp else rp))"

definition StartAutoscaler :: "duration \<Rightarrow> gotime \<Rightarrow> ResourcePool \<Rightarrow> (unit, ResourcePool) outcome" where
  "StartAutoscaler interval now rp =
     andThen (locked (\<lambda>rp.
        if autoscalerStopCh rp then Returned False rp
        else Returned True (rp\<lparr>autoscalerInterval := if interval \<le> 0 then autoscalerInterval rp else interval,
               autoscalerStopCh := True\<rparr>)) rp)
     (\<lambda>started rp. Returned () (if started then TraceAppend TraceInfo ''Autoscaler'' ''started'' now rp else rp))"

definition StopAutoscaler :: "gotime \<Rightarrow> ResourcePool \<Rightarrow> (unit, ResourcePool) outcome" where
  "StopAutoscaler now rp =
     andThen (locked (\<lambda>rp. Returned (autoscalerStopCh rp) (rp\<lparr>autoscalerStopCh := False\<rparr>)) rp)
     (\<lambda>was rp. Returned () (if was then TraceAppend TraceInfo ''Autoscaler'' ''stopped'' now rp else rp))"

definition SetAutoDev :: "gotime \<Rightarrow> ResourcePool \<Rightarrow> (unit, ResourcePool) outcome" where
  "SetAutoDev now rp =
     andThen (locked (\<lambda>rp. Returned ()
       (TraceAppend TraceInfo ''SetAutoDev'' ''autodev-hook-set'' now (rp\<lparr>AutoDev := True\<rparr>))) rp)
     (\<lambda>_ rp. Returned () (notify rp))"

definition SetForecastHook ::
    "(ResourceType \<Rightarrow> string \<Rightarrow> duration \<Rightarrow> float64 option) option \<Rightarrow> gotime \<Rightarrow> ResourcePool
      \<Rightarrow> (unit, ResourcePool) outcome" where
  "SetForecastHook h now rp =
     andThen (locked (\<lambda>rp. Returned () (rp\<lparr>ForecastHook := h\<rparr>)) rp)
     (\<lambda>_ rp. Returned () (notify (TraceAppend TraceInfo ''SetForecastHook'' ''forecast-hook-set'' now rp)))"

definition SetAllocatorHook :: "bool \<Rightarrow> gotime \<Rightarrow> ResourcePool \<Rightarrow> (unit, ResourcePool) outcome" where
  "SetAllocatorHook h now rp =
     andThen (locked (\<lambda>rp. Returned () (rp\<lparr>allocatorHook := h\<rparr>)) rp)
     (\<lambda>_ rp. Returned () (TraceAppend TraceInfo ''SetAllocatorHook'' ''hook-set'' now rp))"

definition SetAutoscalerHook :: "bool \<Rightarrow> gotime \<Rightarrow> ResourcePool \<Rightarrow> (unit, ResourcePool) outcome" where
  "SetAutoscalerHook h now rp =
     andThen (locked (\<lambda>rp. Returned () (rp\<lparr>autoscalerHook := h\<rparr>)) rp)
     (\<lambda>_ rp. Returned () (TraceAppend TraceInfo ''SetAutoscalerHook'' ''hook-set'' now rp))"

definition SetRebalanceHook :: "bool \<Rightarrow> gotime \<Rightarrow> ResourcePool \<Rightarrow> (unit, ResourcePool) outcome" where
  "SetRebalanceHook h now rp =
     andThen (locked (\<lambda>rp. Returned () (rp\<lparr>RebalanceHook := h\<rparr>)) rp)
     (\<lambda>_ rp. Returned () (TraceAppend TraceInfo ''SetRebalanceHook'' ''hook-set'' now rp))"

definition RegisterOnChange :: "ResourcePool \<Rightarrow> (unit, ResourcePool) outcome" where
  "RegisterOnChange rp = locked (\<lambda>rp. Returned () (rp\<lparr>OnChange := Suc (OnChange rp)\<rparr>)) rp"

end
