(* ===== verification/PoolProps.thy ===== *)
theory PoolProps
  imports PoolMaintenance
begin

text \<open>
  Properties of the resource pool beyond allocation: the mutators that wait for their own lock,
  the background loops (rebalancing, deadlines, health, pending queue), the placement policies,
  fresh reservation IDs, the bounded trace, the guard on binary policies and the KPIs.
\<close>

section \<open>Mutators under the lock\<close>

lemma AddNode_run:
  "Mu rp = Unlocked \<Longrightarrow>
   AddNode n now rp =
     Blocked (rp\<lparr>Mu := WLocked,
       Nodes := put (n_ID n) (n\<lparr>n_LastSeen := now,
          n_Status := if n_Status n = '''' then NODE_ONLINE else n_Status n\<rparr>) (Nodes rp)\<rparr>)"
  by (simp add: AddNode_def AddNode_body_def pool_locks Let_def)

lemma update_node_run:
  "Mu rp = Unlocked \<Longrightarrow>
   update_node f op msg i now rp =
     (case get (Nodes rp) i of
        None \<Rightarrow> Returned (Some (NodeNotFound i)) rp
      | Some n \<Rightarrow> Blocked (rp\<lparr>Mu := WLocked, Nodes := put i ((f n)\<lparr>n_LastSeen := now\<rparr>) (Nodes rp)\<rparr>))"
  by (simp add: update_node_def pool_locks split: option.split)

lemma Free_run:
  "Mu rp = Unlocked \<Longrightarrow>
   Free i now rp =
     (case get (Reserves rp) i of
        None \<Rightarrow> Returned (Some (ReservationNotFound i))
          (TraceAppend TraceWarn ''Free'' ''reservation-not-found'' now rp)
      | Some req \<Rightarrow> Blocked (release i req (rp\<lparr>Mu := WLocked\<rparr>)))"
  by (cases "get (Nodes rp) (r_NodeID (the (get (Reserves rp) i)))")
     (simp_all add: Free_def pool_locks release_def TraceAppend_def Let_def split: option.split)

text \<open>A pool whose write lock is never given back refuses everybody.\<close>

lemma dead_pool:
  assumes "Mu rp = WLocked"
  shows "is_blocked (AddNode n now rp)" "is_blocked (Free i now rp)" "is_blocked (Allocate gen req now lat rp)"
    "is_blocked (GetNodeInfo i rp)" "is_blocked (Rebalance now rp)" "is_blocked (enforceDeadlines now rp)"
    "is_blocked (processPendingOnce now rp)" "is_blocked (performHealthCheck now rp)"
    "is_blocked (RemoveNode i now rp)" "is_blocked (InjectPolicy name p now rp)"
  using assms
  by (simp_all add: AddNode_def Free_def Allocate_def GetNodeInfo_def read_locked_def Rebalance_def enforceDeadlines_def
      processPendingOnce_def performHealthCheck_def RemoveNode_def InjectPolicy_def pool_locks
      Mu_RLock_def Let_def)

text \<open>
  registering a node from a free mutex stores the node, online unless it says otherwise, and
  then waits for its own lock; from then on no allocation, release, lookup or background step of
  any other goroutine gets past the mutex.
\<close>

theorem AddNode_kills_pool:
  assumes "Mu rp = Unlocked"
  shows "\<exists>rp'. AddNode n now rp = Blocked rp' \<and>
    get (Nodes rp') (n_ID n) =
      Some (n\<lparr>n_LastSeen := now, n_Status := if n_Status n = '''' then NODE_ONLINE else n_Status n\<rparr>) \<and>
    is_blocked (Allocate gen req now' lat rp') \<and> is_blocked (Free i now' rp') \<and>
    is_blocked (GetNodeInfo j rp') \<and> is_blocked (processPendingOnce now' rp')"
  using assms by (simp add: AddNode_run dead_pool map_simps)

theorem AddNode_kills_pool_witness:
  "\<exists>rp'. AddNode node1 7 NewResourcePool = Blocked rp' \<and> is_blocked (Free ''r'' 8 rp')"
proof -
  have "Mu NewResourcePool = Unlocked" by (simp add: NewResourcePool_def)
  from AddNode_kills_pool[OF this, of node1 7 "''g''" req3 8 0 "''r''" "''n1''"] show ?thesis by blast
qed

text \<open>
  what \<open>Free\<close> and the update methods do on a pool with a free mutex. They return exactly when
  the reservation or node does not exist, with the corresponding error and the nodes unchanged;
  on an existing one they apply the change and then wait for their own lock.
\<close>

theorem Free_and_updates_return_iff_absent:
  assumes "Mu rp = Unlocked"
  shows "(is_returned (Free i now rp) \<longleftrightarrow> get (Reserves rp) i = None) \<and>
    (\<forall>req. get (Reserves rp) i = Some req \<longrightarrow>
       Nodes (memory (Free i now rp)) = Nodes (release i req rp)) \<and>
    (is_returned (UpdateNodeStatus nid st now rp) \<longleftrightarrow> get (Nodes rp) nid = None) \<and>
    (is_returned (UpdateNodeResources nid res now rp) \<longleftrightarrow> get (Nodes rp) nid = None) \<and>
    (is_returned (UpdateNodeMeta nid labels meta now rp) \<longleftrightarrow> get (Nodes rp) nid = None)"
  using assms
  by (auto simp: Free_run update_node_run UpdateNodeStatus_def UpdateNodeResources_def
      UpdateNodeMeta_def release_def Let_def split: option.split)

theorem Free_and_updates_return_iff_absent_witness:
  "is_returned (Free ''r'' 7 pool1) \<and> \<not> is_returned (UpdateNodeStatus ''n1'' ''offline'' 7 pool1)"
proof -
  have "get (Reserves pool1) ''r'' = None" "get (Nodes pool1) ''n1'' = Some node1"
    by (simp_all add: pool1_def NewResourcePool_def)
  then show ?thesis
    using Free_and_updates_return_iff_absent[OF pool1_ok(1), of "''r''" 7 "''n1''" "''offline''"] by simp
qed

section \<open>Moving reservations\<close>

text \<open>
  \<open>moved\<close>: the memory differs from \<open>rp\<close> by one reservation that changed from its node to an
  online node \<open>tid\<close> holding its requirements; the write lock is still held.
\<close>

definition moved :: "string \<Rightarrow> Reservation \<Rightarrow> string \<Rightarrow> ResourcePool \<Rightarrow> ResourcePool \<Rightarrow> bool" where
  "moved resID r tid rp rp' \<longleftrightarrow>
     (\<exists>t. get (Nodes rp) tid = Some t \<and> tid \<noteq> r_NodeID r \<and> n_Status t = NODE_ONLINE \<and>
        has_capacity0 (reqs_of r) t \<and>
        Nodes rp' = Nodes (migrate (r_NodeID r) tid (reqs_of r) rp) \<and>
        Reserves rp' = put resID (r\<lparr>r_NodeID := tid\<rparr>) (Reserves rp))"

lemma migrate_Nodes:
  assumes "src \<noteq> tid"
  shows "get (Nodes (migrate src tid reqs rp)) k =
    (if k = tid then map_option (debit reqs) (get (Nodes rp) tid)
     else if k = src then map_option (credit reqs) (get (Nodes rp) src)
     else get (Nodes rp) k)"
  using assms by (auto simp: migrate_def map_simps split: option.splits)

lemma migrate_frame [simp]:
  "Reserves (migrate src tid reqs rp) = Reserves rp" "Mu (migrate src tid reqs rp) = Mu rp"
  by (simp_all add: migrate_def Let_def split: option.splits)

lemma moved_frame:
  "moved resID r tid rp1 rp' \<Longrightarrow> Nodes rp1 = Nodes rp \<Longrightarrow> Reserves rp1 = Reserves rp \<Longrightarrow> moved resID r tid rp rp'"
  by (auto simp: moved_def migrate_def Let_def split: option.splits)

text \<open>A move conserves every node's capacity and keeps free amounts non-negative.\<close>

lemma moved_conserves:
  assumes "moved resID r tid rp rp'" and "get (Nodes rp) k = Some n"
    and "k = r_NodeID r \<Longrightarrow> get0 (reqs_of r) rt \<le> get0 (n_Allocated n) rt"
    and "0 \<le> get0 (reqs_of r) rt" and "0 \<le> get0 (n_Resources n) rt"
  shows "\<exists>n'. get (Nodes rp') k = Some n' \<and> node_total rt n' = node_total rt n \<and>
           0 \<le> get0 (n_Resources n') rt"
proof -
  from assms(1) obtain t where t: "get (Nodes rp) tid = Some t" "tid \<noteq> r_NodeID r"
      "has_capacity0 (reqs_of r) t" "Nodes rp' = Nodes (migrate (r_NodeID r) tid (reqs_of r) rp)"
    by (auto simp: moved_def)
  note N = migrate_Nodes[of "r_NodeID r" tid "reqs_of r" rp k]
  consider "k = tid" | "k = r_NodeID r" | "k \<noteq> tid" "k \<noteq> r_NodeID r" by blast
  then show ?thesis
  proof cases
    case 1
    then have "n = t" using t(1) assms(2) by simp
    then have "get0 (reqs_of r) rt \<le> get0 (n_Resources n) rt"
      using t(3) assms(5) by (cases "has_key (reqs_of r) rt") (auto simp: has_capacity0_iff get0_absent)
    then show ?thesis using 1 N t \<open>n = t\<close> by (simp add: booking)
  next
    case 2
    then show ?thesis using N t assms(2-5) by (simp add: booking credit_total)
  next
    case 3
    then show ?thesis using N t assms(2,5) by simp
  qed
qed

text \<open>The same as a relation between the memory before and after.\<close>

definition conserving :: "Reservation \<Rightarrow> ResourcePool \<Rightarrow> ResourcePool \<Rightarrow> bool" where
  "conserving r rp rp' \<longleftrightarrow>
     (\<forall>k n rt. get (Nodes rp) k = Some n \<and> 0 \<le> get0 (reqs_of r) rt \<and> 0 \<le> get0 (n_Resources n) rt \<and>
        (k = r_NodeID r \<longrightarrow> get0 (reqs_of r) rt \<le> get0 (n_Allocated n) rt) \<longrightarrow>
        (\<exists>n'. get (Nodes rp') k = Some n' \<and> node_total rt n' = node_total rt n \<and>
           0 \<le> get0 (n_Resources n') rt))"

lemma moved_conserving: "moved resID r tid rp rp' \<Longrightarrow> conserving r rp rp'"
  unfolding conserving_def using moved_conserves by blast

text \<open>The two ways in which a pass over reservations and targets ends under the lock.\<close>

definition idle_or_moved ::
    "(string \<Rightarrow> Reservation \<Rightarrow> string \<Rightarrow> bool) \<Rightarrow> ResourcePool \<Rightarrow> (unit, ResourcePool) outcome \<Rightarrow> bool" where
  "idle_or_moved P rp out \<longleftrightarrow>
     out = Returned () rp \<or>
     (\<exists>resID r tid rp'. out = Blocked rp' \<and> P resID r tid \<and> moved resID r tid rp rp')"

lemma idle_or_moved_idle [simp]: "idle_or_moved P rp (Returned () rp)"
  by (simp add: idle_or_moved_def)

lemma idle_or_moved_mono:
  "idle_or_moved P rp out \<Longrightarrow> (\<And>i r t. P i r t \<Longrightarrow> Q i r t) \<Longrightarrow> idle_or_moved Q rp out"
  unfolding idle_or_moved_def by blast

lemma idle_or_moved_andThen:
  "idle_or_moved P rp m \<Longrightarrow> idle_or_moved P rp (f () rp) \<Longrightarrow> idle_or_moved P rp (andThen m f)"
  unfolding idle_or_moved_def by auto

lemma idle_or_moved_relocate:
  assumes "Mu rp = WLocked" and "get (Nodes rp) tid = Some t" and "tid \<noteq> r_NodeID r"
    and "n_Status t = NODE_ONLINE" and "has_capacity0 (reqs_of r) t" and "P resID r tid"
  shows "idle_or_moved P rp (TraceSnapshot l op m tid now
           (reassign resID r tid (migrate (r_NodeID r) tid (reqs_of r) rp)))"
proof -
  let ?rp = "reassign resID r tid (migrate (r_NodeID r) tid (reqs_of r) rp)"
  have "moved resID r tid rp ?rp" using assms by (auto simp: moved_def reassign_def)
  moreover have "Mu ?rp = WLocked" using assms(1) by (simp add: reassign_def)
  ultimately show ?thesis
    using assms(6) unfolding idle_or_moved_def by (auto simp: TraceSnapshot_WLocked)
qed

section \<open>Deadlines\<close>

definition due :: "gotime \<Rightarrow> Reservation \<Rightarrow> bool" where
  "due now r \<longleftrightarrow> r_Deadline r \<noteq> 0 \<and> r_Deadline r - now < 30 * Second"

lemma deadline_targets_WLocked:
  "Mu rp = WLocked \<Longrightarrow>
   idle_or_moved (\<lambda>i r' t. i = resID \<and> r' = r) rp (deadline_targets resID r now nids rp)"
  by (induction nids) (auto intro: idle_or_moved_relocate split: option.split)

lemma deadline_reserves_WLocked:
  assumes "Mu rp = WLocked"
  shows "idle_or_moved (\<lambda>i r t. (i, r) \<in> set rs \<and> due now r) rp (deadline_reserves now rs rp)"
proof (induction rs)
  case Nil
  then show ?case by simp
next
  case (Cons p rs)
  obtain i r where p: "p = (i, r)" by (cases p)
  let ?P = "\<lambda>i r t. (i, r) \<in> set (p # rs) \<and> due now r"
  have rest: "idle_or_moved ?P rp (deadline_reserves now rs rp)"
    by (rule idle_or_moved_mono[OF Cons]) auto
  have "idle_or_moved ?P rp (deadline_targets i r now nids rp)" if "due now r" for nids
    by (rule idle_or_moved_mono[OF deadline_targets_WLocked[OF assms]]) (use that p in auto)
  then show ?case
    using rest by (auto simp: p due_def IsZero_def intro!: idle_or_moved_andThen)
qed

text \<open>
  one pass of the deadline watcher either returns without touching a node or a reservation, or
  it moves one reservation that is due within 30 seconds (or overdue) to another online node with
  enough capacity, and then waits for its own lock; the move keeps each node's total capacity when
  the source's books cover the reservation.
\<close>

theorem enforceDeadlines_moves_at_most_one:
  assumes "Mu rp = Unlocked"
  shows "(enforceDeadlines now rp = Returned () rp) \<or>
    (\<exists>resID r tid rp'. enforceDeadlines now rp = Blocked rp' \<and> (resID, r) \<in> set (Reserves rp) \<and>
       due now r \<and> moved resID r tid rp rp' \<and> conserving r rp rp')"
proof -
  let ?w = "rp\<lparr>Mu := WLocked\<rparr>"
  have run: "enforceDeadlines now rp =
      andThen (deadline_reserves now (Reserves rp) ?w) (\<lambda>r rp. andThen (Mu_Unlock rp) (\<lambda>_ rp. Returned r rp))"
    using assms by (simp add: enforceDeadlines_def pool_locks)
  have id: "rp\<lparr>Mu := Unlocked\<rparr> = rp" using assms by simp
  from deadline_reserves_WLocked[of ?w "Reserves rp" now]
  have "idle_or_moved (\<lambda>i r t. (i, r) \<in> set (Reserves rp) \<and> due now r) ?w
      (deadline_reserves now (Reserves rp) ?w)" by simp
  then show ?thesis
    unfolding idle_or_moved_def
  proof (elim disjE exE conjE)
    assume "deadline_reserves now (Reserves rp) ?w = Returned () ?w"
    then show ?thesis using run id by (simp add: pool_locks)
  next
    fix resID r tid rp'
    assume "deadline_reserves now (Reserves rp) ?w = Blocked rp'" "(resID, r) \<in> set (Reserves rp)"
      "due now r" "moved resID r tid ?w rp'"
    moreover from this have m: "moved resID r tid rp rp'" using moved_frame by fastforce
    ultimately show ?thesis using run moved_conserving[OF m] by auto
  qed
qed

text \<open>A due reservation that refuses the only other node.\<close>

definition node2 :: ResourceNode where
  "node2 = node1\<lparr>n_ID := ''n2''\<rparr>"

definition picky :: Reservation where
  "picky = req3\<lparr>r_ID := ''r'', r_NodeID := ''n1'', r_Affinity := [''n1''], r_AntiAffinity := [''n2''],
     r_Deadline := 5\<rparr>"

definition pool2 :: ResourcePool where
  "pool2 = NewResourcePool\<lparr>Nodes := [(''n1'', debit [(''cpu'', 3)] node1), (''n2'', node2)],
     Reserves := [(''r'', picky)]\<rparr>"

lemma pool2_due: "Mu pool2 = Unlocked" "is_blocked (enforceDeadlines 7 pool2)"
  by (simp_all add: pool2_def NewResourcePool_def enforceDeadlines_def pool_locks picky_def req3_def
      IsZero_def Second_def node2_def node1_def status_names has_capacity0_def reqs_of_def
      debit_def debit1_def TraceSnapshot_WLocked reassign_def)

theorem enforceDeadlines_moves_at_most_one_witness:
  "\<exists>rp'. enforceDeadlines 7 pool2 = Blocked rp' \<and> (\<exists>tid. moved ''r'' picky tid pool2 rp')"
  using enforceDeadlines_moves_at_most_one[OF pool2_due(1), of 7] pool2_due(2)
  by (auto simp: pool2_def)

text \<open>
  The deadline watcher ignores affinity. A reservation that is tied to its node by affinity
  and keeps away from the other one by anti-affinity is moved there all the same.
\<close>

theorem enforceDeadlines_breaks_affinity:
  "\<exists>rp'. enforceDeadlines 7 pool2 = Blocked rp' \<and>
     get (Reserves rp') ''r'' = Some (picky\<lparr>r_NodeID := ''n2''\<rparr>) \<and>
     get (Nodes pool2) ''n2'' = Some node2 \<and> \<not> matchesAffinity node2 picky"
  by (simp add: pool2_def NewResourcePool_def enforceDeadlines_def pool_locks picky_def req3_def
      IsZero_def Second_def node2_def node1_def status_names has_capacity0_def reqs_of_def
      debit_def debit1_def TraceSnapshot_WLocked reassign_def map_simps matchesAffinity_def label_match_def)

section \<open>Rebalancing\<close>

text \<open>What a rebalancing step may move: a soft, low-priority reservation to a matching node.\<close>

definition rebalance_move :: "ResourcePool \<Rightarrow> string list \<Rightarrow> string \<Rightarrow> Reservation \<Rightarrow> string \<Rightarrow> bool" where
  "rebalance_move rp srcs resID r tid \<longleftrightarrow>
     (resID, r) \<in> set (Reserves rp) \<and> r_NodeID r \<in> set srcs \<and> r_Soft r \<and> r_Priority r \<le> 5 \<and>
     (\<exists>t. get (Nodes rp) tid = Some t \<and> matchesAffinity t r)"

lemma rebalance_targets_WLocked:
  assumes "Mu rp = WLocked" and "ForecastHook rp = None" and "r_NodeID r = src"
  shows "idle_or_moved (\<lambda>i r' t. i = resID \<and> r' = r \<and>
           (\<exists>n. get (Nodes rp) t = Some n \<and> matchesAffinity n r)) rp
         (rebalance_targets src resID r now tids rp)"
  using assms
proof (induction tids)
  case (Cons tid tids)
  show ?case
  proof (cases "get (Nodes rp) tid")
    case (Some t)
    show ?thesis
    proof (cases "tid = src \<or> n_Status t \<noteq> NODE_ONLINE \<or> \<not> matchesAffinity t r \<or> \<not> has_capacity0 (reqs_of r) t")
      case True
      then show ?thesis using Cons Some by auto
    next
      case False
      then show ?thesis
        using Cons.prems Some by (auto intro!: idle_or_moved_relocate[where t = t])
    qed
  qed (use Cons in simp)
qed simp

lemma rebalance_reserves_WLocked:
  assumes "Mu rp = WLocked" and "ForecastHook rp = None" and "src \<in> set srcs"
    and "set rs \<subseteq> set (Reserves rp)"
  shows "idle_or_moved (rebalance_move rp srcs) rp (rebalance_reserves src now rs rp)"
  using assms(4)
proof (induction rs)
  case Nil
  then show ?case by simp
next
  case (Cons p rs)
  obtain i r where p: "p = (i, r)" by (cases p)
  have rest: "idle_or_moved (rebalance_move rp srcs) rp (rebalance_reserves src now rs rp)"
    using Cons by simp
  have "idle_or_moved (rebalance_move rp srcs) rp (rebalance_targets src i r now tids rp)"
    if "r_NodeID r = src" "r_Soft r" "\<not> 5 < r_Priority r" for tids
    by (rule idle_or_moved_mono[OF rebalance_targets_WLocked[OF assms(1,2) that(1)]])
       (use that assms(3) Cons.prems p in \<open>auto simp: rebalance_move_def\<close>)
  then show ?case using rest by (auto simp: p intro!: idle_or_moved_andThen)
qed

lemma rebalance_sources_WLocked:
  assumes "Mu rp = WLocked" and "ForecastHook rp = None" and "set ss \<subseteq> set srcs"
  shows "idle_or_moved (rebalance_move rp srcs) rp (rebalance_sources now ss rp)"
  using assms(3)
  by (induction ss)
     (auto intro!: idle_or_moved_andThen rebalance_reserves_WLocked[OF assms(1,2)])

lemma overloaded_nodes_iff:
  "i \<in> set (overloaded_nodes rp) \<longleftrightarrow>
     (\<exists>n. (i, n) \<in> set (Nodes rp) \<and> rebalThreshold \<le> node_util n)"
  by (force simp: overloaded_nodes_def)

lemma Rebalance_cases:
  assumes "Mu rp = Unlocked" and "ForecastHook rp = None"
  shows "(\<exists>rp'. Rebalance now rp = Returned () rp' \<and> Mu rp' = Unlocked \<and> Nodes rp' = Nodes rp \<and>
            Reserves rp' = Reserves rp) \<or>
    (\<exists>resID r tid rp'. Rebalance now rp = Blocked rp' \<and> moved resID r tid rp rp' \<and>
       rebalance_move rp (overloaded_nodes rp) resID r tid)"
proof -
  let ?w = "TraceAppend TraceInfo ''Rebalance'' ''start'' now (rp\<lparr>Mu := WLocked\<rparr>)"
  have o: "overloaded_nodes ?w = overloaded_nodes rp" by (simp add: overloaded_nodes_def)
  have w: "Mu ?w = WLocked" "ForecastHook ?w = None" using assms by simp_all
  have kpi: "Mu (updateKPIsLocked rp) = Mu rp" "Nodes (updateKPIsLocked rp) = Nodes rp"
    "Reserves (updateKPIsLocked rp) = Reserves rp" for rp
    by (simp_all add: updateKPIsLocked_def Let_def)
  show ?thesis
  proof (cases "overloaded_nodes rp = []")
    case True
    then show ?thesis using assms(1) o by (auto simp: Rebalance_def pool_locks Let_def)
  next
    case False
    from rebalance_sources_WLocked[OF w, of "overloaded_nodes rp" "overloaded_nodes rp" now]
    have "idle_or_moved (rebalance_move ?w (overloaded_nodes rp)) ?w
        (rebalance_sources now (overloaded_nodes rp) ?w)" by simp
    then show ?thesis
      unfolding idle_or_moved_def
    proof (elim disjE exE conjE)
      assume "rebalance_sources now (overloaded_nodes rp) ?w = Returned () ?w"
      then show ?thesis using assms(1) o False kpi by (auto simp: Rebalance_def pool_locks Let_def)
    next
      fix resID r tid rp'
      assume a: "rebalance_sources now (overloaded_nodes rp) ?w = Blocked rp'"
        "rebalance_move ?w (overloaded_nodes rp) resID r tid" "moved resID r tid ?w rp'"
      then have "moved resID r tid rp rp'" using moved_frame by fastforce
      then show ?thesis
        using a assms(1) o False by (auto simp: Rebalance_def pool_locks Let_def rebalance_move_def)
    qed
  qed
qed

text \<open>
  rebalancing without a forecast hook returns with nodes and reservations unchanged, or moves
  one reservation and then waits for its own lock. What it moves is a stored, soft reservation of
  priority at most 5 away from a node whose utilisation reached the threshold, to another online
  node that matches its affinities and can hold it; every node keeps its total capacity.
\<close>

theorem Rebalance_moves_at_most_one:
  assumes "Mu rp = Unlocked" and "ForecastHook rp = None"
  shows "(\<exists>rp'. Rebalance now rp = Returned () rp' \<and> Nodes rp' = Nodes rp \<and> Reserves rp' = Reserves rp) \<or>
    (\<exists>resID r tid t rp'. Rebalance now rp = Blocked rp' \<and> (resID, r) \<in> set (Reserves rp) \<and>
       r_Soft r \<and> r_Priority r \<le> 5 \<and>
       (\<exists>s. (r_NodeID r, s) \<in> set (Nodes rp) \<and> rebalThreshold \<le> node_util s) \<and>
       get (Nodes rp) tid = Some t \<and> matchesAffinity t r \<and>
       moved resID r tid rp rp' \<and> conserving r rp rp')"
  using Rebalance_cases[OF assms, of now]
  unfolding rebalance_move_def overloaded_nodes_iff using moved_conserving by blast

definition pool3 :: ResourcePool where
  "pool3 = pool2\<lparr>Nodes := [(''n1'', debit [(''cpu'', 4)] node1), (''n2'', node2)],
     Reserves := [(''r'', picky\<lparr>r_Affinity := [''zone=a''], r_AntiAffinity := []\<rparr>)]\<rparr>"

lemma pool3_run: "Mu pool3 = Unlocked" "ForecastHook pool3 = None" "is_blocked (Rebalance 7 pool3)"
  by (simp_all add: pool3_def pool2_def NewResourcePool_def Rebalance_def pool_locks picky_def req3_def
      TraceAppend_def Let_def overloaded_nodes_def node_util_def rebalThreshold_def debit_def debit1_def
      node1_def node2_def status_names has_capacity0_def reqs_of_def matchesAffinity_def label_match_def
      sort_slice_def reassign_def)

theorem Rebalance_moves_at_most_one_witness:
  "\<exists>rp' resID r tid. Rebalance 7 pool3 = Blocked rp' \<and> moved resID r tid pool3 rp'"
  using Rebalance_moves_at_most_one[OF pool3_run(1,2), of 7] pool3_run(3) by fastforce

end
