(* ===== verification/PoolQueue.thy ===== *)
theory PoolQueue
  imports PoolProps
begin

text \<open>
  Properties of the pool's pending queue, health checks, placement policies, reservation IDs,
  guard on binary policies and KPIs.
\<close>

section \<open>The pending queue\<close>

lemma pending_book_Unlocked:
  assumes "Mu rp = Unlocked"
  shows "pending_book req nid now rp =
    (case get (Nodes rp) nid of
       None \<Rightarrow> Returned False rp
     | Some n \<Rightarrow>
         if has_capacity0 (reqs_of req) n
         then Blocked (book (req\<lparr>r_NodeID := nid\<rparr>) nid (rp\<lparr>Mu := WLocked\<rparr>) n)
         else Returned False rp)"
proof -
  have "rp\<lparr>Mu := Unlocked\<rparr> = rp" using assms by simp
  then show ?thesis
    using assms by (auto simp: pending_book_def pool_locks book_def split: option.split)
qed

text \<open>What the pass books: one request of the queue, under the node that was debited.\<close>

definition booked_from_queue :: "Reservation list \<Rightarrow> ResourcePool \<Rightarrow> ResourcePool \<Rightarrow> bool" where
  "booked_from_queue queue rp rp' \<longleftrightarrow>
     (\<exists>req nid n. req \<in> set queue \<and> get (Nodes rp) nid = Some n \<and> has_capacity0 (reqs_of req) n \<and>
        rp' = book (req\<lparr>r_NodeID := nid\<rparr>) nid (rp\<lparr>Mu := WLocked\<rparr>) n)"

lemma booked_from_queue_mono: "booked_from_queue q rp rp' \<Longrightarrow> set q \<subseteq> set q' \<Longrightarrow> booked_from_queue q' rp rp'"
  unfolding booked_from_queue_def by blast

lemma read_lock_round:
  assumes "Mu rp = Unlocked"
  shows "Mu_RLock rp = Returned () (rp\<lparr>Mu := RLocked 1\<rparr>)"
    and "Mu_RUnlock (rp\<lparr>Mu := RLocked 1\<rparr>) = Returned () rp"
proof -
  have "rp\<lparr>Mu := Unlocked\<rparr> = rp" using assms by simp
  then show "Mu_RLock rp = Returned () (rp\<lparr>Mu := RLocked 1\<rparr>)"
    and "Mu_RUnlock (rp\<lparr>Mu := RLocked 1\<rparr>) = Returned () rp"
    using assms by (simp_all add: Mu_RLock_def Mu_RUnlock_def)
qed

text \<open>One request of the pass: it is placed, or it is kept for the next pass.\<close>

definition placed :: "Reservation \<Rightarrow> ResourcePool \<Rightarrow> string \<Rightarrow> ResourceNode \<Rightarrow> bool" where
  "placed req rp nid n \<longleftrightarrow>
     (\<exists>p v. get (Policies rp) (policy_name req) = Some p \<and> p_Allocate p (Nodes rp) req = Inr (nid, v)) \<and>
     get (Nodes rp) nid = Some n \<and> has_capacity0 (reqs_of req) n"

lemma pending_loop_base:
  assumes "Mu rp = Unlocked"
  shows "pending_loop (req # queue) now rp =
    (case get (Policies rp) (policy_name req) of
       None \<Rightarrow> andThen (pending_loop queue now rp) (\<lambda>rest rp. Returned (req # rest) rp)
     | Some p \<Rightarrow>
         (case p_Allocate p (Nodes rp) req of
            Inl e \<Rightarrow> andThen (pending_loop queue now rp) (\<lambda>rest rp. Returned (req # rest) rp)
          | Inr (nid, v) \<Rightarrow>
              andThen (pending_book req nid now rp) (\<lambda>booked rp.
              andThen (pending_loop queue now rp) (\<lambda>rest rp.
                Returned (if booked then rest else req # rest) rp))))"
proof -
  have pol: "Policies (rp\<lparr>Mu := RLocked 1\<rparr>) = Policies rp" by simp
  show ?thesis
    by (simp only: pending_loop.simps read_lock_round[OF assms] andThen.simps Let_def pol
        call_policy_Unlocked[OF assms])
qed

lemma pending_loop_placed:
  assumes "Mu rp = Unlocked" and "placed req rp nid n"
  shows "pending_loop (req # queue) now rp =
    Blocked (book (req\<lparr>r_NodeID := nid\<rparr>) nid (rp\<lparr>Mu := WLocked\<rparr>) n)"
proof -
  obtain p v where "get (Policies rp) (policy_name req) = Some p"
      "p_Allocate p (Nodes rp) req = Inr (nid, v)" "get (Nodes rp) nid = Some n"
      "has_capacity0 (reqs_of req) n"
    using assms(2) by (auto simp: placed_def)
  then show ?thesis
    by (simp only: pending_loop_base[OF assms(1)] pending_book_Unlocked[OF assms(1)] option.case
        sum.case prod.case andThen.simps if_True)
qed

lemma pending_loop_kept:
  assumes "Mu rp = Unlocked" and "\<And>nid n. \<not> placed req rp nid n"
  shows "pending_loop (req # queue) now rp =
    andThen (pending_loop queue now rp) (\<lambda>rest rp. Returned (req # rest) rp)"
proof (cases "get (Policies rp) (policy_name req)")
  case None
  then show ?thesis by (simp only: pending_loop_base[OF assms(1)] option.case)
next
  case (Some p)
  show ?thesis
  proof (cases "p_Allocate p (Nodes rp) req")
    case (Inl e)
    then show ?thesis using Some by (simp only: pending_loop_base[OF assms(1)] option.case sum.case)
  next
    case (Inr c)
    obtain nid v where c: "c = (nid, v)" by (cases c)
    have "pending_book req nid now rp = Returned False rp"
      using assms(2) Some Inr c
      by (auto simp: pending_book_Unlocked[OF assms(1)] placed_def split: option.split)
    then show ?thesis
      using Some Inr c
      by (simp only: pending_loop_base[OF assms(1)] option.case sum.case prod.case andThen.simps if_False)
  qed
qed

lemma pending_loop_Unlocked:
  assumes "Mu rp = Unlocked"
  shows "pending_loop queue now rp = Returned queue rp \<or>
    (\<exists>rp'. pending_loop queue now rp = Blocked rp' \<and> booked_from_queue queue rp rp')"
proof (induction queue)
  case Nil
  then show ?case by simp
next
  case (Cons req queue)
  show ?case
  proof (cases "\<exists>nid n. placed req rp nid n")
    case True
    then obtain nid n where pl: "placed req rp nid n" by blast
    then have "booked_from_queue (req # queue) rp (book (req\<lparr>r_NodeID := nid\<rparr>) nid (rp\<lparr>Mu := WLocked\<rparr>) n)"
      unfolding booked_from_queue_def placed_def
      by (intro exI[of _ req] exI[of _ nid] exI[of _ n]) simp
    then show ?thesis using pending_loop_placed[OF assms pl] by blast
  next
    case False
    then have run: "pending_loop (req # queue) now rp =
        andThen (pending_loop queue now rp) (\<lambda>rest rp. Returned (req # rest) rp)"
      using pending_loop_kept[OF assms] by blast
    show ?thesis
      unfolding run using Cons
      by (elim disjE exE conjE) (simp_all add: booked_from_queue_mono[OF _ set_subset_Cons])
  qed
qed

lemma processPendingOnce_cases:
  assumes "Mu rp = Unlocked"
  shows "(\<exists>rp'. processPendingOnce now rp = Returned () rp' \<and> Mu rp' = Unlocked \<and> Nodes rp' = Nodes rp \<and>
            Reserves rp' = Reserves rp \<and> pendingQueue rp' = pendingQueue rp) \<or>
    (\<exists>rp'. processPendingOnce now rp = Blocked rp' \<and> pendingQueue rp' = [] \<and>
        booked_from_queue (pendingQueue rp) (rp\<lparr>pendingQueue := []\<rparr>) rp')"
proof -
  let ?q = "rp\<lparr>pendingQueue := []\<rparr>"
  have drain: "locked (\<lambda>rp. Returned (pendingQueue rp) (rp\<lparr>pendingQueue := []\<rparr>)) rp =
      Returned (pendingQueue rp) ?q"
    using assms by (simp add: pool_locks)
  have book: "pendingQueue rp' = []" if "booked_from_queue (pendingQueue rp) ?q rp'" for rp'
    using that by (auto simp: booked_from_queue_def book_def)
  show ?thesis
  proof (cases "pendingQueue rp = []")
    case True
    then show ?thesis using drain assms by (simp add: processPendingOnce_def)
  next
    case False
    let ?rest = "\<lambda>remaining rp. andThen
        (locked (\<lambda>rp. Returned () (rp\<lparr>pendingQueue := pendingQueue rp @ remaining\<rparr>)) rp) (\<lambda>_ rp.
        Returned () (if remaining \<noteq> [] then TraceAppend TraceInfo ''Allocator'' ''queue-left'' now rp else rp))"
    have run: "processPendingOnce now rp = andThen (pending_loop (pendingQueue rp) now ?q) ?rest"
      by (simp only: processPendingOnce_def drain andThen.simps False if_False)
    have q: "Mu ?q = Unlocked" using assms by simp
    from pending_loop_Unlocked[OF q, of "pendingQueue rp" now] show ?thesis
    proof (elim disjE exE conjE)
      assume "pending_loop (pendingQueue rp) now ?q = Returned (pendingQueue rp) ?q"
      then have "processPendingOnce now rp = ?rest (pendingQueue rp) ?q"
        unfolding run by (simp only: andThen.simps)
      then show ?thesis using q by (simp add: locked_Unlocked Mu_Unlock_WLocked)
    next
      fix rp' assume b: "pending_loop (pendingQueue rp) now ?q = Blocked rp'"
        "booked_from_queue (pendingQueue rp) ?q rp'"
      then have "processPendingOnce now rp = Blocked rp'" unfolding run by (simp only: andThen.simps)
      then show ?thesis using b(2) book by blast
    qed
  qed
qed

text \<open>Releasing what was booked from the queue restores the node's numbers.\<close>

lemma release_book:
  assumes "get (Nodes rp) nid = Some n" and "0 \<le> get0 (n_Allocated n) rt"
  shows "\<exists>n'. get (Nodes (release resID (req\<lparr>r_NodeID := nid\<rparr>) (book (req\<lparr>r_NodeID := nid\<rparr>) nid rp n))) nid = Some n' \<and>
     get0 (n_Resources n') rt = get0 (n_Resources n) rt \<and>
     get0 (n_Allocated n') rt = get0 (n_Allocated n) rt"
  using assms by (simp add: release_def book_def map_simps credit_debit)

text \<open>
  C18: one pass over the pending queue, from a free mutex. Either no request can be placed, and
  queue, nodes and reservations are as before; or the pass books one request on a node that can
  hold it, recording that node in the reservation (so that releasing it restores the node's free
  and allocated amounts), and then waits for its own lock with the queue emptied: every other
  pending request is lost.
\<close>

theorem processPendingOnce_books_one_or_keeps:
  assumes "Mu rp = Unlocked"
  shows "(\<exists>rp'. processPendingOnce now rp = Returned () rp' \<and> Mu rp' = Unlocked \<and> Nodes rp' = Nodes rp \<and>
            Reserves rp' = Reserves rp \<and> pendingQueue rp' = pendingQueue rp) \<or>
    (\<exists>rp' req nid n. processPendingOnce now rp = Blocked rp' \<and> pendingQueue rp' = [] \<and>
        req \<in> set (pendingQueue rp) \<and> get (Nodes rp) nid = Some n \<and> has_capacity0 (reqs_of req) n \<and>
        Nodes rp' = put nid (debit (reqs_of req) n) (Nodes rp) \<and>
        Reserves rp' = put (r_ID req) (req\<lparr>r_NodeID := nid\<rparr>) (Reserves rp) \<and>
        (\<forall>rt. 0 \<le> get0 (n_Allocated n) rt \<longrightarrow>
           (\<exists>n'. get (Nodes (release (r_ID req) (req\<lparr>r_NodeID := nid\<rparr>) rp')) nid = Some n' \<and>
              get0 (n_Resources n') rt = get0 (n_Resources n) rt \<and>
              get0 (n_Allocated n') rt = get0 (n_Allocated n) rt)))"
  using processPendingOnce_cases[OF assms, of now]
proof (elim disjE exE conjE)
  fix rp' assume b: "processPendingOnce now rp = Blocked rp'" "pendingQueue rp' = []"
    "booked_from_queue (pendingQueue rp) (rp\<lparr>pendingQueue := []\<rparr>) rp'"
  then obtain req nid n where
    "req \<in> set (pendingQueue rp)" "get (Nodes rp) nid = Some n" "has_capacity0 (reqs_of req) n"
    "rp' = book (req\<lparr>r_NodeID := nid\<rparr>) nid (rp\<lparr>pendingQueue := [], Mu := WLocked\<rparr>) n"
    by (auto simp: booked_from_queue_def)
  note this(1-3) and rp' = this(4)
  moreover have "get (Nodes (rp\<lparr>pendingQueue := [], Mu := WLocked\<rparr>)) nid = Some n"
    using \<open>get (Nodes rp) nid = Some n\<close> by simp
  note release_book[OF this]
  moreover have "Nodes rp' = put nid (debit (reqs_of req) n) (Nodes rp)"
    "Reserves rp' = put (r_ID req) (req\<lparr>r_NodeID := nid\<rparr>) (Reserves rp)"
    using rp' by (simp_all add: book_def)
  ultimately show ?thesis using b(1,2) rp' by blast
qed blast

theorem processPendingOnce_books_one_or_keeps_witness:
  "\<exists>rp'. processPendingOnce 9 (pool1\<lparr>pendingQueue := [req3, req3]\<rparr>) = Blocked rp' \<and> pendingQueue rp' = []"
proof -
  let ?rp = "pool1\<lparr>pendingQueue := [req3, req3]\<rparr>"
  have "is_blocked (processPendingOnce 9 ?rp)"
    by (simp add: processPendingOnce_def pool_locks pool1_def NewResourcePool_def Mu_RLock_def
        Mu_RUnlock_def policy_name_def req3_def DefaultFairSharePolicy_def DefaultFairShare_Allocate_def
        eligible_def matchesAffinity_def label_match_def node1_def status_names has_capacity_def
        reqs_of_def pending_book_Unlocked has_capacity0_def call_policy_Unlocked)
  moreover have "Mu ?rp = Unlocked" using pool1_ok(1) by simp
  ultimately show ?thesis using processPendingOnce_books_one_or_keeps[of ?rp 9] by auto
qed

section \<open>Health checks\<close>

definition stale :: "gotime \<Rightarrow> ResourcePool \<Rightarrow> ResourceNode \<Rightarrow> bool" where
  "stale now rp n \<longleftrightarrow> now - n_LastSeen n > healthTimeout rp \<and> n_Status n = NODE_ONLINE"

lemma health_mark_WLocked:
  assumes "Mu rp = WLocked"
  shows "(health_mark now is rp = Returned [] rp \<and>
            (\<forall>i \<in> set is. \<forall>n. get (Nodes rp) i = Some n \<longrightarrow> \<not> stale now rp n)) \<or>
    (\<exists>i n. i \<in> set is \<and> get (Nodes rp) i = Some n \<and> stale now rp n \<and>
       health_mark now is rp = Blocked (rp\<lparr>Nodes := put i (n\<lparr>n_Status := NODE_OFFLINE\<rparr>) (Nodes rp)\<rparr>))"
proof (induction "is")
  case Nil
  then show ?case by simp
next
  case (Cons i "is")
  show ?case
  proof (cases "get (Nodes rp) i")
    case None
    then show ?thesis using Cons by auto
  next
    case (Some n)
    show ?thesis
    proof (cases "stale now rp n")
      case True
      then show ?thesis
        using Some assms by (auto simp: stale_def TraceSnapshot_WLocked intro!: exI[of _ i])
    next
      case False
      then have "health_mark now (i # is) rp = health_mark now is rp"
        using Some by (auto simp: stale_def)
      then show ?thesis using Cons False Some by auto
    qed
  qed
qed

text \<open>
  a health check returns exactly when no online node has been silent for longer than the
  timeout, and then it changes nothing. Otherwise it marks one such node offline and waits for its
  own lock before it gets to the repair step.
\<close>

theorem performHealthCheck_marks_one:
  assumes "Mu rp = Unlocked"
  shows "(performHealthCheck now rp = Returned () rp \<and>
            (\<forall>i n. get (Nodes rp) i = Some n \<longrightarrow> \<not> stale now rp n)) \<or>
    (\<exists>i n. get (Nodes rp) i = Some n \<and> stale now rp n \<and>
       performHealthCheck now rp =
         Blocked (rp\<lparr>Mu := WLocked, Nodes := put i (n\<lparr>n_Status := NODE_OFFLINE\<rparr>) (Nodes rp)\<rparr>))"
proof -
  let ?w = "rp\<lparr>Mu := WLocked\<rparr>"
  have st: "stale now ?w = stale now rp" by (auto simp: stale_def fun_eq_iff)
  have id: "rp\<lparr>Mu := Unlocked\<rparr> = rp" using assms by simp
  have key: "i \<in> set (map fst (Nodes rp))" if "get (Nodes rp) i = Some n" for i n
    using get_in_set[OF that] by force
  from health_mark_WLocked[of ?w now "map fst (Nodes rp)"] st
  consider "health_mark now (map fst (Nodes rp)) ?w = Returned [] ?w"
      "\<forall>i n. get (Nodes rp) i = Some n \<longrightarrow> \<not> stale now rp n"
    | i n where "get (Nodes rp) i = Some n" "stale now rp n"
      "health_mark now (map fst (Nodes rp)) ?w =
         Blocked (?w\<lparr>Nodes := put i (n\<lparr>n_Status := NODE_OFFLINE\<rparr>) (Nodes rp)\<rparr>)"
    using key by fastforce
  then show ?thesis
  proof cases
    case 1
    then show ?thesis using assms id by (simp add: performHealthCheck_def pool_locks)
  next
    case 2
    then show ?thesis using assms by (auto simp: performHealthCheck_def pool_locks)
  qed
qed

theorem performHealthCheck_marks_one_witness:
  "\<exists>i n. performHealthCheck (100 * Second) pool1 =
     Blocked (pool1\<lparr>Mu := WLocked, Nodes := put i (n\<lparr>n_Status := NODE_OFFLINE\<rparr>) (Nodes pool1)\<rparr>)"
proof -
  have "get (Nodes pool1) ''n1'' = Some node1" by (simp add: pool1_def)
  moreover have "stale (100 * Second) pool1 node1"
    by (simp add: stale_def pool1_def NewResourcePool_def node1_def Second_def status_names)
  ultimately show ?thesis
    using performHealthCheck_marks_one[OF pool1_ok(1), of "100 * Second"] by blast
qed

section \<open>Placement\<close>

text \<open>
  the fair-share policy. It fails exactly when no online node satisfies affinity and
  requirements. A node that it returns is one of these, its vector is that node's free capacity and
  negated TDP, and no other eligible node has at least as much free capacity and at most the TDP
  with one of the two strictly better.
\<close>

theorem fair_share_is_Pareto_optimal:
  assumes "DefaultFairShare_Allocate nodes req = Inr (nid, v)"
  shows "\<exists>n \<in> set (eligible nodes req). n_ID n = nid \<and> suitable req n \<and> v = fair_vec n \<and>
    \<not> (\<exists>m \<in> set (eligible nodes req). free_capacity n \<le> free_capacity m \<and> n_TDP m \<le> n_TDP n \<and>
         (free_capacity n < free_capacity m \<or> n_TDP m < n_TDP n))"
  using DefaultFairShare_choice[OF assms] eligible_suitable by (auto simp: fair_vec_dominates)

lemma pool1_fair: "DefaultFairShare_Allocate (Nodes pool1) req3 = Inr (''n1'', fair_vec node1)"
  by (simp add: DefaultFairShare_Allocate_def eligible_def pool1_def node1_def req3_def status_names
      matchesAffinity_def label_match_def has_capacity_def reqs_of_def)

theorem fair_share_is_Pareto_optimal_witness:
  "\<exists>n \<in> set (eligible (Nodes pool1) req3). n_ID n = ''n1'' \<and> suitable req3 n"
  using fair_share_is_Pareto_optimal[OF pool1_fair] by auto

text \<open>
  the cost-aware policy, when every candidate has a positive cost, returns a node that is
  suitable for the request and has the greatest ratio of free capacity to cost among them.
\<close>

theorem cost_aware_maximises_capacity_per_cost:
  assumes "CostAware_Allocate nodes req = Inr (nid, v)"
    and "\<forall>m \<in> cost_eligible nodes req. 0 < cost_of m"
  shows "\<exists>n \<in> cost_eligible nodes req. nid = n_ID n \<and> suitable req n \<and>
    (\<forall>m \<in> cost_eligible nodes req. free_capacity m / cost_of m \<le> free_capacity n / cost_of n)"
proof -
  have "suitable req n" if "n \<in> cost_eligible nodes req" for n
    using that by (simp add: cost_eligible_def suitable_def)
  then show ?thesis using CostAware_choice(2)[OF assms(1)] assms(2) by blast
qed

lemma node1_cost: "cost_of node1 = 1"
  by (simp add: cost_of_def node1_def)

theorem cost_aware_maximises_capacity_per_cost_witness:
  "\<exists>v. CostAware_Allocate (Nodes pool1) req3 = Inr (''n1'', v) \<and>
     (\<exists>n \<in> cost_eligible (Nodes pool1) req3. ''n1'' = n_ID n \<and> suitable req3 n)"
proof -
  have run: "CostAware_Allocate (Nodes pool1) req3 = Inr (''n1'', cc_Vec (cost_cand node1))"
    by (simp add: CostAware_Allocate_def cost_candidates_def sort_slice_def pool1_def node1_def req3_def
        status_names matchesAffinity_def label_match_def has_capacity0_def reqs_of_def cost_cand_def)
  have "\<forall>m \<in> cost_eligible (Nodes pool1) req3. 0 < cost_of m"
    using node1_cost by (simp add: cost_eligible_def pool1_def)
  then show ?thesis using cost_aware_maximises_capacity_per_cost[OF run] run by auto
qed

text \<open>
  an expression policy. The node it returns is suitable, its vector is what the expressions
  give for it, no other evaluated candidate's vector dominates that vector, and among the
  candidates that no other dominates it has the greatest weighted sum.
\<close>

theorem ExprPolicy_best_on_the_front:
  assumes "ExprPolicy_Allocate p nodes req = Inr (nid, v)"
  shows "\<exists>i < length (expr_scores p req (eligible nodes req) 0).
    let S = expr_scores p req (eligible nodes req) 0; n = cs_Node (S ! i) in
      n_ID n = nid \<and> n \<in> snd ` set nodes \<and> suitable req n \<and>
      eval_dims (ep_exprs p) (expr_params req n) (ep_Dims p) [] = Some v \<and> \<not> IsDominated S i \<and>
      (\<forall>j < length S. \<not> IsDominated S j \<longrightarrow>
         weighted_sum (expr_weights p req) (cs_Vec (S ! j)) \<le> weighted_sum (expr_weights p req) v)"
proof -
  let ?S = "expr_scores p req (eligible nodes req) 0"
  obtain i where i: "i \<in> set (paretoFrontIndices ?S)" "nid = n_ID (cs_Node (?S ! i))" "v = cs_Vec (?S ! i)"
    "\<forall>j \<in> set (paretoFrontIndices ?S). weighted_sum (expr_weights p req) (cs_Vec (?S ! j)) \<le>
       weighted_sum (expr_weights p req) (cs_Vec (?S ! i))"
    using ExprPolicy_choice[OF assms] by blast
  then have "i < length ?S" "\<not> IsDominated ?S i" by (auto simp: paretoFrontIndices_def)
  moreover from this(1) have m: "?S ! i \<in> set ?S" by simp
  ultimately show ?thesis
    using i expr_scores_member[OF m] eligible_suitable
    by (intro exI[of _ i]) (auto simp: Let_def paretoFrontIndices_def)
qed

text \<open>A policy that scores a node by its free CPUs.\<close>

definition cpu_policy :: ExprPolicy where
  "cpu_policy = \<lparr>ep_name = ''cpu'',
     ep_exprs = [(''score'', \<lambda>ps. case get ps ''Node_cpu'' of Some x \<Rightarrow> Inr x | None \<Rightarrow> Inl ''absent'')],
     ep_Dims = [''score''], ep_rawDSL = ''Node_cpu''\<rparr>"

theorem ExprPolicy_best_on_the_front_witness:
  "\<exists>v. ExprPolicy_Allocate cpu_policy (Nodes pool1) req3 = Inr (''n1'', v) \<and>
     (\<exists>n \<in> snd ` set (Nodes pool1). n_ID n = ''n1'' \<and> suitable req3 n)"
proof -
  have run: "ExprPolicy_Allocate cpu_policy (Nodes pool1) req3 = Inr (''n1'', [(''score'', 4)])"
    by (simp add: ExprPolicy_Allocate_def eligible_def pool1_def node1_def req3_def status_names
        matchesAffinity_def label_match_def has_capacity_def reqs_of_def cpu_policy_def expr_params_def
        paretoFrontIndices_def IsDominated_def resource_names Let_def)
  obtain n where "n \<in> snd ` set (Nodes pool1)" "n_ID n = ''n1''" "suitable req3 n"
    using ExprPolicy_best_on_the_front[OF run] unfolding Let_def by blast
  then show ?thesis using run by blast
qed

section \<open>Reservation IDs\<close>

text \<open>
  the search for an unused reservation ID always ends. The reservation is unchanged but for
  its ID, which is not in use: the requested (or generated) one when that is free, and otherwise
  that ID with the smallest positive suffix that is free.
\<close>

theorem reservation_ids_are_fresh:
  assumes "base = (if r_ID r = '''' then gen else r_ID r)"
  shows "\<exists>r'. ensureUniqueReservationIDUnlocked gen rp r = Some r' \<and> r' = r\<lparr>r_ID := r_ID r'\<rparr> \<and>
    \<not> has_key (Reserves rp) (r_ID r') \<and>
    (if has_key (Reserves rp) base
     then \<exists>j \<ge> 1. r_ID r' = suffixed base j \<and> (\<forall>k. 1 \<le> k \<and> k < j \<longrightarrow> has_key (Reserves rp) (suffixed base k))
     else r_ID r' = base)"
proof -
  obtain r' where r': "ensureUniqueReservationIDUnlocked gen rp r = Some r'"
    using ensureUnique_total by blast
  have "if has_key (Reserves rp) base
     then \<exists>j \<ge> 1. r_ID r' = suffixed base j \<and> (\<forall>k. 1 \<le> k \<and> k < j \<longrightarrow> has_key (Reserves rp) (suffixed base k))
     else r_ID r' = base"
  proof (cases "has_key (Reserves rp) base")
    case True
    then obtain i where i: "fresh_suffix (Suc (length (Reserves rp))) base (Reserves rp) 1 = Some i"
        "r_ID r' = i"
      using r' assms
      by (auto simp: ensureUniqueReservationIDUnlocked_def Let_def simp del: fresh_suffix.simps
          split: if_splits)
    show ?thesis using True fresh_suffix_least[OF i(1)] i(2) by simp
  next
    case False
    then show ?thesis
      using r' assms by (auto simp: ensureUniqueReservationIDUnlocked_def Let_def split: if_splits)
  qed
  then show ?thesis using r' ensureUnique_Some(1,2)[OF r'] by blast
qed

theorem reservation_ids_are_fresh_witness:
  "\<exists>r'. ensureUniqueReservationIDUnlocked ''g'' pool2 (req3\<lparr>r_ID := ''r''\<rparr>) = Some r' \<and> r_ID r' \<noteq> ''r''"
proof -
  have "has_key (Reserves pool2) ''r''" by (simp add: has_key_def pool2_def)
  moreover have "''r'' = (if r_ID (req3\<lparr>r_ID := ''r''\<rparr>) = '''' then ''g'' else r_ID (req3\<lparr>r_ID := ''r''\<rparr>))"
    by simp
  from reservation_ids_are_fresh[OF this, of pool2] show ?thesis using calculation by auto
qed

section \<open>Binary policies\<close>

text \<open>
  a policy from a loader enters the registry exactly when a loader and a verifier are
  configured, the verifier accepts the bytes and the loader produces the policy from these bytes;
  in every other case the call returns an error and the memory is unchanged.
\<close>

theorem loader_policies_are_verified:
  assumes "Mu rp = Unlocked"
  shows "(\<exists>load verify p rp'. loader = Some load \<and> policyVerifier rp = Some verify \<and>
            verify bytes = None \<and> load bytes = Inr p \<and>
            RegisterPolicyFromLoader name bytes loader now rp = Returned None rp' \<and>
            get (Policies rp') name = Some p \<and> Mu rp' = Unlocked) \<or>
         (\<exists>e. RegisterPolicyFromLoader name bytes loader now rp = Returned (Some e) rp)"
proof (cases loader)
  case None
  then show ?thesis by (simp add: RegisterPolicyFromLoader_def)
next
  case (Some load)
  have pv: "policyVerifier (rp\<lparr>Mu := RLocked 1\<rparr>) = policyVerifier rp" by simp
  have run: "RegisterPolicyFromLoader name bytes loader now rp =
      (case policyVerifier rp of
         None \<Rightarrow> Returned (Some VerifierMissing) rp
       | Some verify \<Rightarrow>
           (case verify bytes of
              Some e \<Rightarrow> Returned (Some (VerificationFailed e)) rp
            | None \<Rightarrow>
                (case load bytes of
                   Inl e \<Rightarrow> Returned (Some (LoaderError e)) rp
                 | Inr p \<Rightarrow> andThen (InjectPolicy name p now rp) (\<lambda>_ rp. Returned None rp))))"
    by (simp only: RegisterPolicyFromLoader_def Some option.case read_lock_round[OF assms] andThen.simps
        Let_def pv)
  have inj: "\<exists>rp'. InjectPolicy name p now rp = Returned () rp' \<and> get (Policies rp') name = Some p \<and>
      Mu rp' = Unlocked" for p
    using assms by (simp add: InjectPolicy_def pool_locks map_simps)
  show ?thesis
  proof (cases "policyVerifier rp")
    case None
    then show ?thesis using run by simp
  next
    case (Some verify)
    then show ?thesis
      using run inj \<open>loader = Some load\<close> by (cases "verify bytes"; cases "load bytes") fastforce+
  qed
qed

theorem loader_policies_are_verified_witness:
  "\<exists>e. RegisterPolicyFromLoader ''p'' ''code'' (Some (\<lambda>b. Inr CostAwarePolicy)) 7 pool1 = Returned (Some e) pool1"
proof -
  have "policyVerifier pool1 = None" by (simp add: pool1_def NewResourcePool_def)
  then show ?thesis
    using loader_policies_are_verified[OF pool1_ok(1), of "Some (\<lambda>b. Inr CostAwarePolicy)" "''code''" "''p''" 7]
    by auto
qed

section \<open>KPIs\<close>

definition books_ok :: "ResourcePool \<Rightarrow> bool" where
  "books_ok rp \<longleftrightarrow>
     (\<forall>(k, n) \<in> set (Nodes rp). \<forall>rt. 0 \<le> get0 (n_Resources n) rt \<and> 0 \<le> get0 (n_Allocated n) rt)"

lemma utilization_bounds: "books_ok rp \<Longrightarrow> 0 \<le> utilization rt rp \<and> utilization rt rp \<le> 1"
proof -
  assume ok: "books_ok rp"
  have used: "0 \<le> sum_nodes (node_used rt) rp"
    using ok unfolding sum_nodes_def books_ok_def
    by (intro sum_list_nonneg) (auto simp: node_used_def)
  have le: "sum_nodes (node_used rt) rp \<le> sum_nodes (node_total rt) rp"
    using ok unfolding sum_nodes_def books_ok_def
    by (intro sum_list_mono) (auto simp: node_used_def node_total_def)
  show ?thesis using used le by (auto simp: utilization_def Let_def divide_le_eq)
qed

text \<open>
  when no node has a negative free or allocated amount, the KPI refresh stores utilisations
  between 0 and 1, the number of reservations, and touches nothing else.
\<close>

theorem KPI_refresh_bounds:
  assumes "books_ok rp"
  shows "0 \<le> get0 (KPIs (updateKPIsLocked rp)) ''utilization_cpu'' \<and>
    get0 (KPIs (updateKPIsLocked rp)) ''utilization_cpu'' \<le> 1 \<and>
    0 \<le> get0 (KPIs (updateKPIsLocked rp)) ''utilization_gpu'' \<and>
    get0 (KPIs (updateKPIsLocked rp)) ''utilization_gpu'' \<le> 1 \<and>
    get0 (KPIs (updateKPIsLocked rp)) ''reservations_count'' = of_nat (length (Reserves rp)) \<and>
    (updateKPIsLocked rp)\<lparr>KPIs := KPIs rp\<rparr> = rp"
  using utilization_bounds[OF assms] by (simp add: updateKPIsLocked_def Let_def map_simps)

theorem KPI_refresh_bounds_witness:
  "get0 (KPIs (updateKPIsLocked pool2)) ''utilization_cpu'' \<le> 1"
proof -
  have "books_ok pool2"
    by (simp add: books_ok_def pool2_def NewResourcePool_def node1_def node2_def debit_def debit1_def)
  then show ?thesis using KPI_refresh_bounds by blast
qed

end
