(* ===== verification/Scheduler.thy ===== *)
theory Scheduler
  imports SchedCorrect PoolQueue "HOL-Library.Word"
begin

text \<open>
  The scheduler, \<^verbatim>\<open>src/internal/scheduler/advanced.go\<close>: tasks, the decision journal, algorithm
  registry, \<open>Schedule\<close> with its call into the resource pool, the fallback sequence, simulation,
  loop switches and KPIs. One goroutine runs an operation; its mutex \<open>s.mu\<close> is explicit, so a
  second Lock by the holder blocks. \<open>s.rp.Allocate\<close> runs in a goroutine of its own with a
  deadline of five seconds: a call that returns is taken to return in time, one that waits for its
  own lock for ever is the timeout, and the pool stays locked.

  The clock, the generated reservation ID and the measured durations of one call are in a record of
  readings. Trace messages keep their text up to the formatted values. The journal's file and its
  rotation are left out; its channel is not.
\<close>

section \<open>Types\<close>

datatype alloc_failure = PoolError pool_error | AllocationTimeout
datatype reason = NoReason | PolicyReason string | AllocReason alloc_failure

record DecisionEntry =
  de_Time :: gotime
  de_TaskID :: string
  de_Algo :: string
  de_Requested :: vec
  de_AssignedTo :: string
  de_Result :: string
  de_Reason :: reason
  de_ScoreVec :: vec
  de_Explain :: "explanation option"
  de_Meta :: meta
  de_TimeMs :: int

datatype SchedTrace = Msg string string | JournalEntry DecisionEntry

record journalWriter =
  j_filePath :: string
  j_ch :: "DecisionEntry chan"
  j_closed :: bool
  j_emitted :: "DecisionEntry list"

type_synonym uint64 = "64 word"

record SchedulerKPIs =
  SuccessCount :: uint64
  FailureCount :: uint64
  RequeueCount :: uint64
  AvgWaitMs :: float64
  TotalScheduled :: uint64
  AvgAllocationTime :: float64

record AdvancedScheduler =
  s_rp :: "ResourcePool option"
  s_mu :: rwmutex
  s_tasks :: "(string, Task) gomap"
  s_algos :: "(string, SchedulerAlgorithm) gomap"
  s_activeAlgo :: string
  s_sandbox :: "(string, (string, any) gomap) gomap"
  s_traces :: "SchedTrace list"
  s_decisions :: decisions
  s_loopInterval :: duration
  s_loopStop :: bool
  s_onSchedule :: nat
  s_notified :: nat
  s_journal :: "journalWriter option"
  s_journalPath :: string
  s_kpis :: SchedulerKPIs
  s_policyChecker :: "(Task \<Rightarrow> string option) option"
  s_selector :: "(telemetry \<Rightarrow> string) option"
  s_fallbackOrder :: "string list"
  s_explainMap :: "(string, explanation) gomap"

record Readings =
  rd_now :: gotime
  rd_gen :: string
  rd_lat :: float64
  rd_algoMs :: int
  rd_allocMs :: int

type_synonym 'r sched = "AdvancedScheduler \<Rightarrow> ('r, AdvancedScheduler) outcome"

definition NewAdvancedScheduler :: "ResourcePool option \<Rightarrow> AdvancedScheduler" where
  "NewAdvancedScheduler rp =
     \<lparr>s_rp = rp, s_mu = Unlocked, s_tasks = [], s_algos = [], s_activeAlgo = '''', s_sandbox = [],
      s_traces = [], s_decisions = [], s_loopInterval = 2 * Second, s_loopStop = False,
      s_onSchedule = 0, s_notified = 0, s_journal = None, s_journalPath = '''',
      s_kpis = \<lparr>SuccessCount = 0, FailureCount = 0, RequeueCount = 0, AvgWaitMs = 0,
                TotalScheduled = 0, AvgAllocationTime = 0\<rparr>,
      s_policyChecker = None, s_selector = None, s_fallbackOrder = [], s_explainMap = []\<rparr>"

section \<open>The mutex\<close>

definition s_Lock :: "unit sched" where
  "s_Lock s = (if can_lock (s_mu s) then Returned () (s\<lparr>s_mu := WLocked\<rparr>) else Blocked s)"

definition s_Unlock :: "unit sched" where
  "s_Unlock s = (if s_mu s = WLocked then Returned () (s\<lparr>s_mu := Unlocked\<rparr>) else Panicked s)"

definition s_locked :: "'r sched \<Rightarrow> 'r sched" where
  "s_locked body s =
     andThen (s_Lock s) (\<lambda>_ s. andThen (body s) (\<lambda>r s. andThen (s_Unlock s) (\<lambda>_ s. Returned r s)))"

definition trace :: "SchedTrace \<Rightarrow> AdvancedScheduler \<Rightarrow> AdvancedScheduler" where
  "trace m s = s\<lparr>s_traces := s_traces s @ [m]\<rparr>"

definition with_task :: "string \<Rightarrow> (Task \<Rightarrow> Task) \<Rightarrow> AdvancedScheduler \<Rightarrow> AdvancedScheduler" where
  "with_task tid f s =
     (case get (s_tasks s) tid of
        None \<Rightarrow> s
      | Some t \<Rightarrow> s\<lparr>s_tasks := put tid (f t) (s_tasks s)\<rparr>)"

section \<open>The journal\<close>

definition newJournalWriter :: "string \<Rightarrow> journalWriter" where
  "newJournalWriter path = \<lparr>j_filePath = path, j_ch = make_chan 4096, j_closed = False, j_emitted = []\<rparr>"

text \<open>A full channel drops the entry once the 50 ms are over.\<close>

definition jw_Write :: "DecisionEntry \<Rightarrow> journalWriter \<Rightarrow> journalWriter" where
  "jw_Write e j =
     (if j_closed j then j
      else case try_send e (j_ch j) of Some c \<Rightarrow> j\<lparr>j_ch := c\<rparr> | None \<Rightarrow> j)"

text \<open>One round of the writer's loop.\<close>

definition jw_loop_step :: "journalWriter \<Rightarrow> journalWriter" where
  "jw_loop_step j =
     (case try_recv (j_ch j) of
        Some (e, c) \<Rightarrow> j\<lparr>j_ch := c, j_emitted := j_emitted j @ [e]\<rparr>
      | None \<Rightarrow> j)"

definition jw_Close :: "journalWriter \<Rightarrow> journalWriter" where
  "jw_Close j = j\<lparr>j_closed := True\<rparr>"

definition recordJournal :: "DecisionEntry \<Rightarrow> unit sched" where
  "recordJournal e s =
     (case s_journal s of
        Some j \<Rightarrow> Returned () (s\<lparr>s_journal := Some (jw_Write e j)\<rparr>)
      | None \<Rightarrow> s_locked (\<lambda>s. Returned () (trace (JournalEntry e) s)) s)"

text \<open>\<open>can_open\<close> tells whether the file can be opened; an existing journal is closed in any case.\<close>

definition SetJournalPath :: "(string \<Rightarrow> bool) \<Rightarrow> string \<Rightarrow> bool sched" where
  "SetJournalPath can_open path =
     s_locked (\<lambda>s.
       let s = s\<lparr>s_journal := None\<rparr>
       in if path = '''' then Returned True (s\<lparr>s_journalPath := ''''\<rparr>)
          else if path \<noteq> ''-'' \<and> \<not> can_open path then Returned False s
          else Returned True (s\<lparr>s_journal := Some (newJournalWriter path), s_journalPath := path\<rparr>))"

section \<open>Tasks and registry\<close>

definition AddTask :: "gotime \<Rightarrow> Task \<Rightarrow> unit sched" where
  "AddTask now t =
     s_locked (\<lambda>s.
       let t = (if IsZero (t_CreatedAt t) then t\<lparr>t_CreatedAt := now\<rparr> else t);
           t = t\<lparr>t_UpdatedAt := now\<rparr>;
           t = (if t_Status t = '''' then t\<lparr>t_Status := ''pending''\<rparr> else t)
       in Returned () (trace (Msg ''Added task '' (t_ID t)) (s\<lparr>s_tasks := put (t_ID t) t (s_tasks s)\<rparr>)))"

definition RemoveTask :: "string \<Rightarrow> unit sched" where
  "RemoveTask i =
     s_locked (\<lambda>s. Returned () (trace (Msg ''Removed task '' i) (s\<lparr>s_tasks := del i (s_tasks s)\<rparr>)))"

definition GetTask :: "string \<Rightarrow> Task option sched" where
  "GetTask i = s_locked (\<lambda>s. Returned (get (s_tasks s) i) s)"

definition listTasks :: "Task list sched" where
  "listTasks = s_locked (\<lambda>s. Returned (map snd (s_tasks s)) s)"

definition SetPolicyChecker :: "(Task \<Rightarrow> string option) option \<Rightarrow> unit sched" where
  "SetPolicyChecker pc = s_locked (\<lambda>s. Returned () (s\<lparr>s_policyChecker := pc\<rparr>))"

definition SetAlgoSelector :: "(telemetry \<Rightarrow> string) option \<Rightarrow> unit sched" where
  "SetAlgoSelector sel = s_locked (\<lambda>s. Returned () (s\<lparr>s_selector := sel\<rparr>))"

definition RegisterAlgorithm :: "SchedulerAlgorithm \<Rightarrow> unit sched" where
  "RegisterAlgorithm a =
     s_locked (\<lambda>s.
       let s = s\<lparr>s_algos := put (Algo_Name a) a (s_algos s)\<rparr>;
           s = (if s_activeAlgo s = '''' then s\<lparr>s_activeAlgo := Algo_Name a\<rparr> else s)
       in Returned () (trace (Msg ''Registered algorithm '' (Algo_Name a)) s))"

datatype registry_error = LoaderIsNil | LoadFailed string | Unnamed | NotRegistered string

definition RegisterAlgorithmFromLoader ::
    "char list \<Rightarrow> (char list \<Rightarrow> string + LoadedAlgo) option \<Rightarrow> registry_error option sched" where
  "RegisterAlgorithmFromLoader bytes loader s =
     (case loader of
        None \<Rightarrow> Returned (Some LoaderIsNil) s
      | Some load \<Rightarrow>
          (case load bytes of
             Inl e \<Rightarrow> Returned (Some (LoadFailed e)) s
           | Inr a \<Rightarrow>
               if ld_name a = '''' then Returned (Some Unnamed) s
               else andThen (RegisterAlgorithm (Loaded a) s) (\<lambda>_ s. Returned None s)))"

definition SetActiveAlgorithm :: "string \<Rightarrow> registry_error option sched" where
  "SetActiveAlgorithm name =
     s_locked (\<lambda>s.
       if \<not> has_key (s_algos s) name then Returned (Some (NotRegistered name)) s
       else Returned None (trace (Msg ''Active algorithm set to '' name) (s\<lparr>s_activeAlgo := name\<rparr>)))"

definition SetFallbackOrder :: "string list \<Rightarrow> unit sched" where
  "SetFallbackOrder order = s_locked (\<lambda>s. Returned () (s\<lparr>s_fallbackOrder := order\<rparr>))"

definition RegisterOnSchedule :: "unit sched" where
  "RegisterOnSchedule = s_locked (\<lambda>s. Returned () (s\<lparr>s_onSchedule := Suc (s_onSchedule s)\<rparr>))"

definition callOnScheduleListeners :: "unit sched" where
  "callOnScheduleListeners s =
     andThen (s_locked (\<lambda>s. Returned (s_onSchedule s) s) s)
       (\<lambda>n s. Returned () (s\<lparr>s_notified := s_notified s + n\<rparr>))"

definition listAlgorithms :: "string list sched" where
  "listAlgorithms = s_locked (\<lambda>s. Returned (map fst (s_algos s)) s)"

definition explainDecision :: "string \<Rightarrow> explanation sched" where
  "explainDecision tid =
     s_locked (\<lambda>s.
       Returned (case get (s_explainMap s) tid of
                   Some v \<Rightarrow> v
                 | None \<Rightarrow>
                     (case get (s_algos s) (s_activeAlgo s) of
                        Some a \<Rightarrow> Algo_ExplainDecision a tid
                      | None \<Rightarrow> Text ''no explanation available'')) s)"

definition SchedGetKPIs :: "AdvancedScheduler \<Rightarrow> SchedulerKPIs" where
  "SchedGetKPIs s = s_kpis s"

section \<open>Counters\<close>

definition AddSuccess :: "AdvancedScheduler \<Rightarrow> AdvancedScheduler" where
  "AddSuccess s = s\<lparr>s_kpis := (s_kpis s)\<lparr>SuccessCount := SuccessCount (s_kpis s) + 1,
                                         TotalScheduled := TotalScheduled (s_kpis s) + 1\<rparr>\<rparr>"

definition AddFailure :: "AdvancedScheduler \<Rightarrow> AdvancedScheduler" where
  "AddFailure s = s\<lparr>s_kpis := (s_kpis s)\<lparr>FailureCount := FailureCount (s_kpis s) + 1\<rparr>\<rparr>"

definition AddRequeue :: "AdvancedScheduler \<Rightarrow> AdvancedScheduler" where
  "AddRequeue s = s\<lparr>s_kpis := (s_kpis s)\<lparr>RequeueCount := RequeueCount (s_kpis s) + 1\<rparr>\<rparr>"

text \<open>Duration.Milliseconds truncates towards zero.\<close>

definition Milliseconds :: "duration \<Rightarrow> int" where
  "Milliseconds d = (if d \<ge> 0 then d div Millisecond else - (- d div Millisecond))"

definition updateWaitMetric :: "gotime \<Rightarrow> Task \<Rightarrow> AdvancedScheduler \<Rightarrow> AdvancedScheduler" where
  "updateWaitMetric now t s =
     (let waitMs = of_int (Milliseconds (now - t_CreatedAt t));
          prevAvg = AvgWaitMs (s_kpis s);
          total = of_nat (unat (TotalScheduled (s_kpis s)));
          alpha = 1 / (total + 1);
          w = (if total \<le> 1 then waitMs else alpha * waitMs + (1 - alpha) * prevAvg)
      in s\<lparr>s_kpis := (s_kpis s)\<lparr>AvgWaitMs := w\<rparr>\<rparr>)"

definition updateAllocationTime :: "int \<Rightarrow> AdvancedScheduler \<Rightarrow> AdvancedScheduler" where
  "updateAllocationTime ms s =
     (let prev = AvgAllocationTime (s_kpis s)
      in s\<lparr>s_kpis := (s_kpis s)\<lparr>AvgAllocationTime :=
             if prev = 0 then of_int ms else 0.2 * of_int ms + 0.8 * prev\<rparr>\<rparr>)"

section \<open>The pool\<close>

definition on_pool :: "ResourcePool \<Rightarrow> (ResourcePool \<Rightarrow> ('r, ResourcePool) outcome) \<Rightarrow> 'r sched" where
  "on_pool rp f s =
     (case f rp of
        Returned r rp \<Rightarrow> Returned r (s\<lparr>s_rp := Some rp\<rparr>)
      | Blocked rp \<Rightarrow> Blocked (s\<lparr>s_rp := Some rp\<rparr>)
      | Panicked rp \<Rightarrow> Panicked (s\<lparr>s_rp := Some rp\<rparr>))"

text \<open>The copies of the pool's nodes, none without a pool.\<close>

definition node_snapshot :: "ResourceNode list sched" where
  "node_snapshot s =
     (case s_rp s of
        None \<Rightarrow> Returned [] s
      | Some rp \<Rightarrow>
          on_pool rp (read_locked (\<lambda>rp. map snd (Nodes rp))) s)"

definition task_reservation :: "gotime \<Rightarrow> vec \<Rightarrow> Task \<Rightarrow> Reservation" where
  "task_reservation now req t =
     \<lparr>r_ID = '''', r_NodeID = '''', r_RType = '''', r_Requirements = req, r_Amount = 0,
      r_Priority = t_Priority t, r_Soft = False, r_Affinity = t_Affinity t, r_AntiAffinity = [],
      r_SLO = [], r_Start = 0, r_Deadline = 0, r_Policy = '''', r_CreatedAt = now,
      r_Owner = t_Owner t, r_Weights = [], r_enqueuedAt = 0\<rparr>"

text \<open>The allocation with its five-second deadline; without a pool the decision stands.\<close>

definition allocate_or_timeout ::
    "Readings \<Rightarrow> Reservation \<Rightarrow> string \<Rightarrow> (alloc_failure + string \<times> vec) sched" where
  "allocate_or_timeout rd resv nid s =
     (case s_rp s of
        None \<Rightarrow> Returned (Inr (nid, [])) s
      | Some rp \<Rightarrow>
          (case Allocate (rd_gen rd) resv (rd_now rd) (rd_lat rd) rp of
             Returned (Inl e) rp \<Rightarrow> Returned (Inl (PoolError e)) (s\<lparr>s_rp := Some rp\<rparr>)
           | Returned (Inr r) rp \<Rightarrow> Returned (Inr r) (s\<lparr>s_rp := Some rp\<rparr>)
           | Blocked rp \<Rightarrow> Returned (Inl AllocationTimeout) (s\<lparr>s_rp := Some rp\<rparr>)
           | Panicked rp \<Rightarrow> Panicked (s\<lparr>s_rp := Some rp\<rparr>)))"

section \<open>Fallbacks\<close>

text \<open>
  One fallback algorithm: \<open>Some node\<close> when it led to an allocation. The pool is called directly
  here, without a deadline.
\<close>

definition fallback_allocate :: "Readings \<Rightarrow> Reservation \<Rightarrow> string \<Rightarrow> (pool_error + string) sched" where
  "fallback_allocate rd resv nid s =
     (case s_rp s of
        None \<Rightarrow> Returned (Inr nid) s
      | Some rp \<Rightarrow>
          andThen (on_pool rp (Allocate (rd_gen rd) resv (rd_now rd) (rd_lat rd)) s)
            (\<lambda>r s. Returned (case r of Inl e \<Rightarrow> Inl e | Inr (n, v) \<Rightarrow> Inr n) s))"

definition try_fallback ::
    "Readings \<Rightarrow> string \<Rightarrow> vec \<Rightarrow> alloc_failure \<Rightarrow> string \<Rightarrow> bool sched" where
  "try_fallback rd tid req allocErr algoName s =
     andThen (s_locked (\<lambda>s. Returned (get (s_algos s) algoName) s) s) (\<lambda>algo s.
     case algo of
       None \<Rightarrow> Returned False s
     | Some a \<Rightarrow>
         andThen (node_snapshot s) (\<lambda>nodes s.
         andThen (s_locked (\<lambda>s. Returned (get (s_tasks s) tid) s) s) (\<lambda>task s.
         case task of
           None \<Rightarrow> Returned False s
         | Some t \<Rightarrow>
             let (res, a) = Algo_Schedule (rd_now rd) a [t] nodes [];
                 s = s\<lparr>s_algos := put algoName a (s_algos s)\<rparr>
             in case res of
                  Inl e \<Rightarrow> Returned False s
                | Inr (decisions, meta) \<Rightarrow>
                    (case get decisions tid of
                       None \<Rightarrow> Returned False s
                     | Some nid \<Rightarrow>
                         andThen (fallback_allocate rd (task_reservation (rd_now rd) req t) nid s) (\<lambda>r s.
                         case r of
                           Inl e \<Rightarrow> Returned False s
                         | Inr nodeAlloc \<Rightarrow>
                             andThen (s_locked (\<lambda>s. Returned ()
                               (trace (Msg ''Fallback allocated '' tid)
                                 ((with_task tid (\<lambda>t. t\<lparr>t_Status := ''running'', t_AssignedTo := nodeAlloc,
                                                       t_UpdatedAt := rd_now rd\<rparr>) s)
                                   \<lparr>s_decisions := put tid nodeAlloc (s_decisions s)\<rparr>))) s) (\<lambda>_ s.
                             andThen (recordJournal
                               \<lparr>de_Time = rd_now rd, de_TaskID = tid, de_Algo = algoName, de_Requested = req,
                                de_AssignedTo = nodeAlloc, de_Result = ''allocated_fallback'',
                                de_Reason = AllocReason allocErr, de_ScoreVec = [],
                                de_Explain = Some (Algo_ExplainDecision a tid), de_Meta = meta,
                                de_TimeMs = 0\<rparr> s) (\<lambda>_ s.
                             Returned True (AddSuccess s))))))))"

fun try_order ::
    "Readings \<Rightarrow> string \<Rightarrow> string \<Rightarrow> vec \<Rightarrow> alloc_failure \<Rightarrow> string list \<Rightarrow> bool sched" where
  "try_order rd tid origAlgo req allocErr [] s = Returned False s"
| "try_order rd tid origAlgo req allocErr (k # ks) s =
     (if k = origAlgo then try_order rd tid origAlgo req allocErr ks s
      else
        andThen (try_fallback rd tid req allocErr k s) (\<lambda>ok s.
          if ok then Returned True s else try_order rd tid origAlgo req allocErr ks s))"

definition tryFallbacks :: "Readings \<Rightarrow> string \<Rightarrow> string \<Rightarrow> vec \<Rightarrow> alloc_failure \<Rightarrow> bool sched" where
  "tryFallbacks rd tid origAlgo req allocErr s =
     andThen (s_locked (\<lambda>s. Returned
        (if s_fallbackOrder s = [] then filter (\<lambda>k. k \<noteq> origAlgo) (map fst (s_algos s))
         else s_fallbackOrder s) s) s)
     (try_order rd tid origAlgo req allocErr)"

section \<open>Schedule\<close>

text \<open>A task that the policy checker refuses.\<close>

definition reject_task ::
    "Readings \<Rightarrow> string \<Rightarrow> meta \<Rightarrow> string \<Rightarrow> string \<Rightarrow> Task \<Rightarrow> string \<Rightarrow> unit sched" where
  "reject_task rd algoName meta tid nid t err s =
     andThen (recordJournal
       \<lparr>de_Time = rd_now rd, de_TaskID = tid, de_Algo = algoName,
        de_Requested = parseRequirementsFromPayload (t_Payload t), de_AssignedTo = nid,
        de_Result = ''rejected_by_policy'', de_Reason = PolicyReason err, de_ScoreVec = [],
        de_Explain = None, de_Meta = meta, de_TimeMs = rd_algoMs rd\<rparr> s) (\<lambda>_ s.
     s_locked (\<lambda>s. Returned ()
       (with_task tid (\<lambda>t. t\<lparr>t_Status := ''failed'', t_UpdatedAt := rd_now rd\<rparr>)
         (trace (Msg ''Task rejected by policy: '' tid) s))) (AddFailure s))"

definition accept_allocation ::
    "Readings \<Rightarrow> string \<Rightarrow> SchedulerAlgorithm \<Rightarrow> meta \<Rightarrow> string \<Rightarrow> Task \<Rightarrow> vec \<Rightarrow> string \<Rightarrow> vec
      \<Rightarrow> unit sched" where
  "accept_allocation rd algoName a meta tid t req nodeID scoreVec s =
     (let ex = Algo_ExplainDecision a tid;
          ex = (if ex = Text '''' then Text (''Scheduled by '' @ algoName) else ex)
      in andThen (s_locked (\<lambda>s. Returned ()
           (trace (Msg ''Allocated '' tid)
             ((with_task tid (\<lambda>t. t\<lparr>t_Status := ''running'', t_AssignedTo := nodeID,
                                   t_UpdatedAt := rd_now rd\<rparr>) s)
               \<lparr>s_decisions := put tid nodeID (s_decisions s),
                s_explainMap := put tid ex (s_explainMap s)\<rparr>))) s) (\<lambda>_ s.
         andThen (recordJournal
           \<lparr>de_Time = rd_now rd, de_TaskID = tid, de_Algo = algoName, de_Requested = req,
            de_AssignedTo = nodeID, de_Result = ''allocated'', de_Reason = NoReason,
            de_ScoreVec = scoreVec, de_Explain = Some ex, de_Meta = meta,
            de_TimeMs = rd_allocMs rd\<rparr> s) (\<lambda>_ s.
         callOnScheduleListeners (updateWaitMetric (rd_now rd) t (AddSuccess s)))))"

text \<open>
  A failed allocation: journal, counter, then, between Lock and Unlock, the fallbacks and the
  requeueing. The node is empty in the entry, since the pool returned none.
\<close>

definition fail_allocation ::
    "Readings \<Rightarrow> string \<Rightarrow> SchedulerAlgorithm \<Rightarrow> meta \<Rightarrow> string \<Rightarrow> vec \<Rightarrow> alloc_failure \<Rightarrow> unit sched" where
  "fail_allocation rd algoName a meta tid req err s =
     andThen (recordJournal
       \<lparr>de_Time = rd_now rd, de_TaskID = tid, de_Algo = algoName, de_Requested = req,
        de_AssignedTo = '''', de_Result = ''failed'', de_Reason = AllocReason err, de_ScoreVec = [],
        de_Explain = Some (Algo_ExplainDecision a tid), de_Meta = meta, de_TimeMs = rd_allocMs rd\<rparr> s) (\<lambda>_ s.
     s_locked (\<lambda>s.
       andThen (tryFallbacks rd tid algoName req err (trace (Msg ''Allocation failed for '' tid) s)) (\<lambda>tried s.
       Returned ()
         (if tried then s
          else trace (Msg ''Task requeued after fail: '' tid)
            (AddRequeue
              (with_task tid (\<lambda>t. t\<lparr>t_Status := ''pending'', t_AssignedTo := '''',
                                    t_UpdatedAt := rd_now rd\<rparr>) s))))) (AddFailure s))"

text \<open>One decision of the algorithm: the node that was applied, if any.\<close>

definition apply_decision ::
    "Readings \<Rightarrow> string \<Rightarrow> SchedulerAlgorithm \<Rightarrow> meta \<Rightarrow> string \<Rightarrow> string \<Rightarrow> string option sched" where
  "apply_decision rd algoName a meta tid nid s =
     andThen (GetTask tid s) (\<lambda>task s.
     case task of
       None \<Rightarrow> Returned None s
     | Some t \<Rightarrow>
         (case (case s_policyChecker s of None \<Rightarrow> None | Some check \<Rightarrow> check t) of
            Some err \<Rightarrow> andThen (reject_task rd algoName meta tid nid t err s) (\<lambda>_ s. Returned None s)
          | None \<Rightarrow>
              let req = parseRequirementsFromPayload (t_Payload t)
              in andThen (allocate_or_timeout rd (task_reservation (rd_now rd) req t) nid s) (\<lambda>r s.
                 case r of
                   Inr (nodeID, scoreVec) \<Rightarrow>
                     andThen (accept_allocation rd algoName a meta tid t req nodeID scoreVec s)
                       (\<lambda>_ s. Returned (Some nodeID) s)
                 | Inl err \<Rightarrow>
                     andThen (fail_allocation rd algoName a meta tid req err s) (\<lambda>_ s. Returned None s))))"

fun apply_decisions ::
    "Readings \<Rightarrow> string \<Rightarrow> SchedulerAlgorithm \<Rightarrow> meta \<Rightarrow> (string \<times> string) list \<Rightarrow> decisions
      \<Rightarrow> decisions sched" where
  "apply_decisions rd algoName a meta [] applied s = Returned applied s"
| "apply_decisions rd algoName a meta ((tid, nid) # ds) applied s =
     andThen (apply_decision rd algoName a meta tid nid s) (\<lambda>r s.
       apply_decisions rd algoName a meta ds
         (case r of None \<Rightarrow> applied | Some node \<Rightarrow> put tid node applied) s)"

definition chosen_name :: "telemetry \<Rightarrow> AdvancedScheduler \<Rightarrow> string" where
  "chosen_name tel s =
     (case s_selector s of
        None \<Rightarrow> s_activeAlgo s
      | Some sel \<Rightarrow>
          if sel tel \<noteq> '''' \<and> has_key (s_algos s) (sel tel) then sel tel else s_activeAlgo s)"

definition pending_tasks :: "AdvancedScheduler \<Rightarrow> Task list" where
  "pending_tasks s = filter (\<lambda>t. t_Status t = ''pending'') (map snd (s_tasks s))"

definition store_meta :: "string \<Rightarrow> meta \<Rightarrow> AdvancedScheduler \<Rightarrow> AdvancedScheduler" where
  "store_meta algoName meta s =
     (case meta of None \<Rightarrow> s | Some m \<Rightarrow> s\<lparr>s_sandbox := put algoName m (s_sandbox s)\<rparr>)"

text \<open>\<open>None\<close> is the nil map of the early returns.\<close>

definition Schedule :: "Readings \<Rightarrow> telemetry \<Rightarrow> decisions option sched" where
  "Schedule rd tel s =
     andThen (s_locked (\<lambda>s.
       let name = chosen_name tel s
       in case get (s_algos s) name of
            None \<Rightarrow> Returned None (trace (Msg ''no active algorithm'' '''') s)
          | Some a \<Rightarrow> Returned (Some (name, a, pending_tasks s)) s) s) (\<lambda>chosen s.
     case chosen of
       None \<Rightarrow> Returned None s
     | Some (name, a, pending) \<Rightarrow>
         andThen (node_snapshot s) (\<lambda>nodes s.
         let (res, a) = Algo_Schedule (rd_now rd) a pending nodes tel;
             s = s\<lparr>s_algos := put name a (s_algos s)\<rparr>
         in case res of
              Inl e \<Rightarrow>
                andThen (s_locked (\<lambda>s. Returned () (trace (Msg ''algo error '' name) s)) s)
                  (\<lambda>_ s. Returned None s)
            | Inr (decisions, meta) \<Rightarrow>
                andThen (apply_decisions rd name a meta decisions [] s) (\<lambda>applied s.
                andThen (s_locked (\<lambda>s. Returned ()
                  (updateAllocationTime (rd_algoMs rd) (store_meta name meta s))) s) (\<lambda>_ s.
                Returned (Some applied) s))))"

section \<open>Simulation and loop\<close>

definition SimulateAlgorithm ::
    "gotime \<Rightarrow> SchedulerAlgorithm \<Rightarrow> telemetry
      \<Rightarrow> ((sched_error + decisions \<times> meta) \<times> (string \<times> explanation) list) sched" where
  "SimulateAlgorithm now a tel s =
     andThen (s_locked (\<lambda>s. Returned (pending_tasks s) s) s) (\<lambda>pending s.
     andThen (node_snapshot s) (\<lambda>nodes s.
     let (res, a) = Algo_Schedule now a pending nodes tel
     in Returned (res, map (\<lambda>t. (t_ID t, Algo_ExplainDecision a (t_ID t))) pending) s))"

definition StartLoop :: "duration \<Rightarrow> unit sched" where
  "StartLoop interval s =
     andThen (s_locked (\<lambda>s.
        if s_loopStop s then Returned False s
        else Returned True (s\<lparr>s_loopInterval := if interval \<le> 0 then s_loopInterval s else interval,
                              s_loopStop := True\<rparr>)) s) (\<lambda>started s.
     if started then s_locked (\<lambda>s. Returned () (trace (Msg ''Scheduler loop started'' '''') s)) s
     else Returned () s)"

text \<open>One tick: telemetry from the pool's KPIs, the selector, then \<open>Schedule\<close>.\<close>

definition loop_tick :: "Readings \<Rightarrow> decisions option sched" where
  "loop_tick rd s =
     andThen (case s_rp s of
                None \<Rightarrow> Returned [] s
              | Some rp \<Rightarrow> andThen (on_pool rp GetKPIs s) (\<lambda>k s. Returned [(''kpis'', AFloats k)] s)) (\<lambda>tel s.
     andThen
       (case s_selector s of
          None \<Rightarrow> Returned () s
        | Some sel \<Rightarrow>
            if sel tel \<noteq> '''' then andThen (SetActiveAlgorithm (sel tel) s) (\<lambda>_ s. Returned () s)
            else Returned () s)
       (\<lambda>_ s. Schedule rd tel s))"

definition StopLoop :: "unit sched" where
  "StopLoop =
     s_locked (\<lambda>s. Returned ()
       (if s_loopStop s then trace (Msg ''Scheduler loop stopped'' '''') (s\<lparr>s_loopStop := False\<rparr>) else s))"

end
