(* ===== verification/SchedProps.thy ===== *)
theory SchedProps
  imports Scheduler
begin

text \<open>
  Properties of the scheduler: what one run of \<open>Schedule\<close> applies with and without a resource pool,
  where it waits for its own mutex, and the journal.
\<close>

section \<open>Steps under the mutex\<close>

named_theorems sched_locks \<open>how a step behaves under the scheduler's mutex\<close>

lemma s_locked_Unlocked [sched_locks]:
  "s_mu s = Unlocked \<Longrightarrow>
   s_locked body s = andThen (body (s\<lparr>s_mu := WLocked\<rparr>)) (\<lambda>r s. andThen (s_Unlock s) (\<lambda>_ s. Returned r s))"
  by (simp add: s_locked_def s_Lock_def)

lemma s_locked_busy [sched_locks]: "s_mu s \<noteq> Unlocked \<Longrightarrow> s_locked body s = Blocked s"
  by (simp add: s_locked_def s_Lock_def)

lemma s_Unlock_WLocked [sched_locks]: "s_mu s = WLocked \<Longrightarrow> s_Unlock s = Returned () (s\<lparr>s_mu := Unlocked\<rparr>)"
  by (simp add: s_Unlock_def)

text \<open>A body that only computes a new state, leaving the mutex alone.\<close>

lemma s_locked_pure:
  assumes "s_mu s = Unlocked" and "\<And>s. s_mu (f s) = s_mu s"
  shows "s_locked (\<lambda>s. Returned (g s) (f s)) s =
    Returned (g (s\<lparr>s_mu := WLocked\<rparr>)) ((f (s\<lparr>s_mu := WLocked\<rparr>))\<lparr>s_mu := Unlocked\<rparr>)"
  using assms by (simp add: sched_locks)

lemma tryFallbacks_WLocked [sched_locks]:
  "s_mu s = WLocked \<Longrightarrow> tryFallbacks rd tid alg req err s = Blocked s"
  by (simp add: tryFallbacks_def sched_locks)

lemma trace_frame [simp]:
  "s_mu (trace m s) = s_mu s" "s_rp (trace m s) = s_rp s" "s_tasks (trace m s) = s_tasks s"
  "s_policyChecker (trace m s) = s_policyChecker s" "s_journal (trace m s) = s_journal s"
  by (simp_all add: trace_def)

lemma with_task_frame [simp]:
  "s_mu (with_task i f s) = s_mu s" "s_rp (with_task i f s) = s_rp s"
  "s_policyChecker (with_task i f s) = s_policyChecker s"
  "get (s_tasks (with_task i f s)) k = (if k = i then map_option f (get (s_tasks s) i) else get (s_tasks s) k)"
  by (auto simp: with_task_def map_simps split: option.split)

lemma counter_frame [simp]:
  "s_mu (AddFailure s) = s_mu s" "s_rp (AddFailure s) = s_rp s" "s_tasks (AddFailure s) = s_tasks s"
  "s_policyChecker (AddFailure s) = s_policyChecker s"
  "s_mu (AddSuccess s) = s_mu s" "s_rp (AddSuccess s) = s_rp s" "s_tasks (AddSuccess s) = s_tasks s"
  "s_policyChecker (AddSuccess s) = s_policyChecker s"
  "s_mu (updateWaitMetric now t s) = s_mu s" "s_rp (updateWaitMetric now t s) = s_rp s"
  "s_tasks (updateWaitMetric now t s) = s_tasks s"
  "s_policyChecker (updateWaitMetric now t s) = s_policyChecker s"
  "s_mu (updateAllocationTime ms s) = s_mu s" "s_tasks (updateAllocationTime ms s) = s_tasks s"
  "s_mu (store_meta n m s) = s_mu s" "s_tasks (store_meta n m s) = s_tasks s"
  by (simp_all add: AddFailure_def AddSuccess_def updateWaitMetric_def updateAllocationTime_def
      store_meta_def Let_def split: option.split)

text \<open>The part of the state that journal and counters leave alone.\<close>

definition same_core :: "AdvancedScheduler \<Rightarrow> AdvancedScheduler \<Rightarrow> bool" where
  "same_core s s' \<longleftrightarrow>
     s_mu s' = s_mu s \<and> s_rp s' = s_rp s \<and> s_tasks s' = s_tasks s \<and> s_policyChecker s' = s_policyChecker s"

lemma same_core_refl [simp]: "same_core s s"
  by (simp add: same_core_def)

lemma recordJournal_cases:
  "(\<exists>s'. recordJournal e s = Returned () s' \<and> same_core s s') \<or> recordJournal e s = Blocked s"
proof (cases "s_journal s")
  case None
  then show ?thesis by (cases "s_mu s = Unlocked") (auto simp: recordJournal_def sched_locks same_core_def)
qed (simp add: recordJournal_def same_core_def)

lemma recordJournal_Unlocked:
  "s_mu s = Unlocked \<Longrightarrow> \<exists>s'. recordJournal e s = Returned () s' \<and> same_core s s'"
  by (cases "s_journal s") (auto simp: recordJournal_def sched_locks same_core_def)

lemma GetTask_run: "GetTask i s = (if s_mu s = Unlocked then Returned (get (s_tasks s) i) s else Blocked s)"
proof (cases "s_mu s = Unlocked")
  case True
  then have "s\<lparr>s_mu := Unlocked\<rparr> = s" by simp
  then show ?thesis using True by (simp add: GetTask_def sched_locks)
qed (simp add: GetTask_def sched_locks)

section \<open>A failed allocation never comes back\<close>

lemma fail_allocation_no_return: "fail_allocation rd alg a m tid req err s \<noteq> Returned r s'"
proof -
  have stuck: "s_locked (\<lambda>s. andThen (tryFallbacks rd tid alg req err (trace x s)) (f s)) s \<noteq> Returned r s'"
    for f s x r s'
    by (cases "s_mu s = Unlocked") (simp_all add: sched_locks)
  show ?thesis
    using recordJournal_cases[of _ s] stuck
    by (fastforce simp: fail_allocation_def andThen_Returned_iff)
qed

lemma fail_allocation_blocks:
  assumes "s_mu s = Unlocked"
  shows "is_blocked (fail_allocation rd alg a m tid req err s)"
proof -
  let ?e = "\<lparr>de_Time = rd_now rd, de_TaskID = tid, de_Algo = alg, de_Requested = req,
        de_AssignedTo = '''', de_Result = ''failed'', de_Reason = AllocReason err, de_ScoreVec = [],
        de_Explain = Some (Algo_ExplainDecision a tid), de_Meta = m, de_TimeMs = rd_allocMs rd\<rparr>"
  obtain s1 where j: "recordJournal ?e s = Returned () s1" and "same_core s s1"
    using recordJournal_Unlocked[OF assms] by blast
  then have "s_mu (AddFailure s1) = Unlocked" using assms by (simp add: same_core_def)
  then show ?thesis unfolding fail_allocation_def j by (simp add: sched_locks)
qed

section \<open>With a pool\<close>

text \<open>The pool stays attached and no task has become running.\<close>

definition starts_none :: "AdvancedScheduler \<Rightarrow> AdvancedScheduler \<Rightarrow> bool" where
  "starts_none s s' \<longleftrightarrow>
     (s_rp s \<noteq> None \<longrightarrow> s_rp s' \<noteq> None) \<and>
     (\<forall>i t'. get (s_tasks s') i = Some t' \<and> t_Status t' = ''running'' \<longrightarrow> get (s_tasks s) i = Some t')"

lemma starts_none_trans: "starts_none s s1 \<Longrightarrow> starts_none s1 s2 \<Longrightarrow> starts_none s s2"
  unfolding starts_none_def by blast

lemma same_core_starts_none: "same_core s s' \<Longrightarrow> starts_none s s'"
  by (simp add: same_core_def starts_none_def)

lemma reject_task_starts_none:
  assumes "reject_task rd alg m tid nid t err s = Returned r s'"
  shows "starts_none s s'"
proof -
  let ?e = "\<lparr>de_Time = rd_now rd, de_TaskID = tid, de_Algo = alg,
        de_Requested = parseRequirementsFromPayload (t_Payload t), de_AssignedTo = nid,
        de_Result = ''rejected_by_policy'', de_Reason = PolicyReason err, de_ScoreVec = [],
        de_Explain = None, de_Meta = m, de_TimeMs = rd_algoMs rd\<rparr>"
  obtain s1 where j: "recordJournal ?e s = Returned () s1" "same_core s s1"
    using recordJournal_cases[of ?e s] assms by (auto simp: reject_task_def)
  have "s_mu s1 = Unlocked"
    using assms j(1) by (cases "s_mu s1 = Unlocked") (simp_all add: reject_task_def sched_locks)
  then have s': "s' = (with_task tid (\<lambda>t. t\<lparr>t_Status := ''failed'', t_UpdatedAt := rd_now rd\<rparr>)
      (trace (Msg ''Task rejected by policy: '' tid) ((AddFailure s1)\<lparr>s_mu := WLocked\<rparr>)))\<lparr>s_mu := Unlocked\<rparr>"
    using assms j(1) by (simp add: reject_task_def sched_locks)
  have "starts_none s1 s'" unfolding s' starts_none_def by (auto split: if_splits)
  then show ?thesis using same_core_starts_none[OF j(2)] starts_none_trans by blast
qed

lemma allocate_with_pool:
  assumes "s_rp s \<noteq> None" and "allocate_or_timeout rd resv nid s = Returned r s'"
  shows "\<exists>e. r = Inl e"
proof -
  obtain rp where rp: "s_rp s = Some rp" using assms(1) by auto
  have "Allocate (rd_gen rd) resv (rd_now rd) (rd_lat rd) rp \<noteq> Returned (Inr x) rp'" for x rp'
    by (rule Allocate_no_node)
  then show ?thesis
    using assms(2) rp by (auto simp: allocate_or_timeout_def split: outcome.splits sum.splits)
qed

lemma apply_decision_with_pool:
  assumes "s_rp s \<noteq> None" and "apply_decision rd alg a m tid nid s = Returned r s'"
  shows "r = None \<and> starts_none s s'"
proof -
  have mu: "s_mu s = Unlocked"
    using assms(2) by (cases "s_mu s = Unlocked") (simp_all add: apply_decision_def GetTask_run)
  show ?thesis
  proof (cases "get (s_tasks s) tid")
    case None
    then show ?thesis using assms(2) mu by (simp add: apply_decision_def GetTask_run starts_none_def)
  next
    case (Some t)
    let ?verdict = "case s_policyChecker s of None \<Rightarrow> None | Some check \<Rightarrow> check t"
    show ?thesis
    proof (cases ?verdict)
      case verdict: (Some err)
      have run: "apply_decision rd alg a m tid nid s =
          andThen (reject_task rd alg m tid nid t err s) (\<lambda>_ s. Returned None s)"
        using mu Some verdict by (simp add: apply_decision_def GetTask_run)
      show ?thesis
        using assms(2)[unfolded run andThen_Returned_iff] reject_task_starts_none by auto
    next
      case verdict: None
      let ?req = "parseRequirementsFromPayload (t_Payload t)"
      obtain r1 s1 where al: "allocate_or_timeout rd (task_reservation (rd_now rd) ?req t) nid s = Returned r1 s1"
        using assms(2) mu Some verdict
        by (auto simp: apply_decision_def GetTask_run Let_def andThen_Returned_iff)
      obtain e where "r1 = Inl e" using allocate_with_pool[OF assms(1) al] by blast
      then have run: "apply_decision rd alg a m tid nid s =
          andThen (fail_allocation rd alg a m tid ?req e s1) (\<lambda>_ s. Returned None s)"
        using mu Some verdict al by (simp add: apply_decision_def GetTask_run Let_def)
      show ?thesis
        using assms(2)[unfolded run andThen_Returned_iff] fail_allocation_no_return by auto
    qed
  qed
qed

lemma apply_decisions_with_pool:
  assumes "s_rp s \<noteq> None" and "apply_decisions rd alg a m ds app s = Returned app' s'"
  shows "app' = app \<and> starts_none s s'"
  using assms
proof (induction ds arbitrary: app s)
  case Nil
  then show ?case by (simp add: starts_none_def)
next
  case (Cons d ds)
  obtain tid nid where d: "d = (tid, nid)" by (cases d)
  obtain r s1 where ap: "apply_decision rd alg a m tid nid s = Returned r s1"
    and rest: "apply_decisions rd alg a m ds (case r of None \<Rightarrow> app | Some n \<Rightarrow> put tid n app) s1 = Returned app' s'"
    using Cons.prems(2) by (auto simp: d andThen_Returned_iff)
  have r: "r = None" "starts_none s s1" using apply_decision_with_pool[OF Cons.prems(1) ap] by auto
  then have "s_rp s1 \<noteq> None" using Cons.prems(1) by (simp add: starts_none_def)
  then show ?case using Cons.IH[of s1 app] rest r starts_none_trans by auto
qed

text \<open>Any decision for a known task that no policy checker refuses stops the scheduler.\<close>

lemma apply_decision_known_blocks:
  assumes "s_mu s = Unlocked" and "s_rp s = Some rp" and "Mu rp = Unlocked" and "s_policyChecker s = None"
    and "get (s_tasks s) tid = Some t"
  shows "is_blocked (apply_decision rd alg a m tid nid s)"
proof -
  let ?req = "parseRequirementsFromPayload (t_Payload t)"
  let ?resv = "task_reservation (rd_now rd) ?req t"
  have "\<exists>e s1. allocate_or_timeout rd ?resv nid s = Returned (Inl e) s1 \<and> s_mu s1 = Unlocked"
    using assms(3)
    by (cases rule: Allocate_outcome[of rp "rd_gen rd" ?resv "rd_now rd" "rd_lat rd"])
       (use assms(1,2) in \<open>auto simp: allocate_or_timeout_def\<close>)
  then show ?thesis
    using assms fail_allocation_blocks by (auto simp: apply_decision_def GetTask_run Let_def)
qed

lemma apply_decisions_known_blocks:
  assumes "s_mu s = Unlocked" and "s_rp s = Some rp" and "Mu rp = Unlocked" and "s_policyChecker s = None"
    and "(tid, nid) \<in> set ds" and "has_key (s_tasks s) tid"
  shows "is_blocked (apply_decisions rd alg a m ds app s)"
  using assms(5)
proof (induction ds arbitrary: app)
  case Nil
  then show ?case by simp
next
  case (Cons d ds)
  obtain i n where d: "d = (i, n)" by (cases d)
  show ?case
  proof (cases "get (s_tasks s) i")
    case None
    then have "(tid, nid) \<in> set ds" using Cons.prems assms(6) d by (auto simp: has_key_def)
    moreover have "apply_decision rd alg a m i n s = Returned None s"
      using None assms(1) by (simp add: apply_decision_def GetTask_run)
    ultimately show ?thesis using Cons.IH by (simp add: d)
  next
    case (Some t)
    then show ?thesis using apply_decision_known_blocks[OF assms(1-4) Some] by (simp add: d)
  qed
qed

section \<open>Without a pool\<close>

definition accepted :: "AdvancedScheduler \<Rightarrow> Task \<Rightarrow> bool" where
  "accepted s t \<longleftrightarrow> (case s_policyChecker s of None \<Rightarrow> True | Some check \<Rightarrow> check t = None)"

text \<open>What one decision does to a task.\<close>

definition decided :: "gotime \<Rightarrow> AdvancedScheduler \<Rightarrow> string \<Rightarrow> Task \<Rightarrow> Task" where
  "decided now s nid t =
     (if accepted s t then t\<lparr>t_Status := ''running'', t_AssignedTo := nid, t_UpdatedAt := now\<rparr>
      else t\<lparr>t_Status := ''failed'', t_UpdatedAt := now\<rparr>)"

definition free_core :: "AdvancedScheduler \<Rightarrow> AdvancedScheduler \<Rightarrow> bool" where
  "free_core s s' \<longleftrightarrow> s_mu s' = Unlocked \<and> s_rp s' = s_rp s \<and> s_policyChecker s' = s_policyChecker s"

lemma reject_task_run:
  assumes "s_mu s = Unlocked"
  shows "\<exists>s'. reject_task rd alg m tid nid t err s = Returned () s' \<and> free_core s s' \<and>
    (\<forall>k. get (s_tasks s') k = (if k = tid then map_option
        (\<lambda>t. t\<lparr>t_Status := ''failed'', t_UpdatedAt := rd_now rd\<rparr>) (get (s_tasks s) tid)
      else get (s_tasks s) k))"
proof -
  let ?e = "\<lparr>de_Time = rd_now rd, de_TaskID = tid, de_Algo = alg,
        de_Requested = parseRequirementsFromPayload (t_Payload t), de_AssignedTo = nid,
        de_Result = ''rejected_by_policy'', de_Reason = PolicyReason err, de_ScoreVec = [],
        de_Explain = None, de_Meta = m, de_TimeMs = rd_algoMs rd\<rparr>"
  obtain s1 where "recordJournal ?e s = Returned () s1" "same_core s s1"
    using recordJournal_Unlocked[OF assms] by blast
  then show ?thesis using assms by (simp add: reject_task_def sched_locks same_core_def free_core_def)
qed

lemma callOnScheduleListeners_run:
  "s_mu s = Unlocked \<Longrightarrow>
   \<exists>s'. callOnScheduleListeners s = Returned () s' \<and> same_core s s'"
  by (simp add: callOnScheduleListeners_def sched_locks same_core_def)

lemma accept_allocation_run:
  assumes "s_mu s = Unlocked"
  shows "\<exists>s'. accept_allocation rd alg a m tid t req nid v s = Returned () s' \<and> free_core s s' \<and>
    (\<forall>k. get (s_tasks s') k = (if k = tid then map_option
        (\<lambda>t. t\<lparr>t_Status := ''running'', t_AssignedTo := nid, t_UpdatedAt := rd_now rd\<rparr>)
        (get (s_tasks s) tid) else get (s_tasks s) k))"
proof -
  define ex where "ex = (let ex = Algo_ExplainDecision a tid in
      if ex = Text '''' then Text (''Scheduled by '' @ alg) else ex)"
  define s1 where "s1 = (trace (Msg ''Allocated '' tid)
        ((with_task tid (\<lambda>t. t\<lparr>t_Status := ''running'', t_AssignedTo := nid, t_UpdatedAt := rd_now rd\<rparr>)
           (s\<lparr>s_mu := WLocked\<rparr>))
          \<lparr>s_decisions := put tid nid (s_decisions s), s_explainMap := put tid ex (s_explainMap s)\<rparr>))
        \<lparr>s_mu := Unlocked\<rparr>"
  let ?e = "\<lparr>de_Time = rd_now rd, de_TaskID = tid, de_Algo = alg, de_Requested = req,
            de_AssignedTo = nid, de_Result = ''allocated'', de_Reason = NoReason,
            de_ScoreVec = v, de_Explain = Some ex, de_Meta = m, de_TimeMs = rd_allocMs rd\<rparr>"
  have wt: "s_decisions (with_task tid f x) = s_decisions x" "s_explainMap (with_task tid f x) = s_explainMap x"
    for f x by (simp_all add: with_task_def split: option.split)
  have s1: "s_mu s1 = Unlocked" by (simp add: s1_def)
  obtain s2 where s2: "recordJournal ?e s1 = Returned () s2" "same_core s1 s2"
    using recordJournal_Unlocked[OF s1] by blast
  let ?s3 = "updateWaitMetric (rd_now rd) t (AddSuccess s2)"
  have "s_mu ?s3 = Unlocked" using s1 s2(2) by (simp add: same_core_def)
  then obtain s4 where s4: "callOnScheduleListeners ?s3 = Returned () s4" "same_core ?s3 s4"
    using callOnScheduleListeners_run by blast
  have "accept_allocation rd alg a m tid t req nid v s = Returned () s4"
    using assms s2(1) s4(1)
    by (simp add: accept_allocation_def sched_locks s1_def ex_def Let_def wt)
  moreover have "free_core s s4" using s2(2) s4(2) s1 by (simp add: same_core_def free_core_def s1_def)
  ultimately show ?thesis using s2(2) s4(2) by (simp add: same_core_def s1_def)
qed

lemma apply_decision_no_pool:
  assumes "s_mu s = Unlocked" and "s_rp s = None"
  shows "\<exists>s'. apply_decision rd alg a m tid nid s =
      Returned (case get (s_tasks s) tid of
                  None \<Rightarrow> None | Some t \<Rightarrow> if accepted s t then Some nid else None) s' \<and>
    free_core s s' \<and>
    (\<forall>k. get (s_tasks s') k =
       (if k = tid then map_option (decided (rd_now rd) s nid) (get (s_tasks s) tid) else get (s_tasks s) k))"
proof (cases "get (s_tasks s) tid")
  case None
  then show ?thesis using assms by (simp add: apply_decision_def GetTask_run free_core_def)
next
  case (Some t)
  let ?verdict = "case s_policyChecker s of None \<Rightarrow> None | Some check \<Rightarrow> check t"
  have acc: "accepted s t \<longleftrightarrow> ?verdict = None" by (simp add: accepted_def split: option.split)
  show ?thesis
  proof (cases ?verdict)
    case verdict: (Some err)
    then show ?thesis
      using reject_task_run[OF assms(1), of rd alg m tid nid t err] Some assms(1) acc
      by (auto simp: apply_decision_def GetTask_run decided_def)
  next
    case verdict: None
    then show ?thesis
      using accept_allocation_run[OF assms(1), of rd alg a m tid t
          "parseRequirementsFromPayload (t_Payload t)" nid "[]"] Some assms acc
      by (auto simp: apply_decision_def GetTask_run decided_def Let_def allocate_or_timeout_def)
  qed
qed

lemma apply_decisions_no_pool:
  assumes "s_mu s = Unlocked" and "s_rp s = None" and "wf_map ds"
  shows "\<exists>app' s'. apply_decisions rd alg a m ds app s = Returned app' s' \<and> s_mu s' = Unlocked \<and>
    (\<forall>k. get app' k = (case (get ds k, get (s_tasks s) k) of
        (Some nid, Some t) \<Rightarrow> if accepted s t then Some nid else get app k
      | _ \<Rightarrow> get app k)) \<and>
    (\<forall>k. get (s_tasks s') k = (case get ds k of
        Some nid \<Rightarrow> map_option (decided (rd_now rd) s nid) (get (s_tasks s) k)
      | None \<Rightarrow> get (s_tasks s) k))"
  using assms
proof (induction ds arbitrary: app s)
  case Nil
  then show ?case by simp
next
  case (Cons d ds)
  obtain tid nid where d: "d = (tid, nid)" by (cases d)
  have fresh: "get ds tid = None" and wf: "wf_map ds"
    using Cons.prems(3) by (simp_all add: d wf_map_Cons has_key_def)
  let ?r = "case get (s_tasks s) tid of None \<Rightarrow> None | Some t \<Rightarrow> if accepted s t then Some nid else None"
  obtain s1 where s1: "apply_decision rd alg a m tid nid s = Returned ?r s1" "free_core s s1"
    "\<forall>k. get (s_tasks s1) k =
       (if k = tid then map_option (decided (rd_now rd) s nid) (get (s_tasks s) tid) else get (s_tasks s) k)"
    using apply_decision_no_pool[OF Cons.prems(1,2)] by blast
  let ?app = "case ?r of None \<Rightarrow> app | Some n \<Rightarrow> put tid n app"
  have core: "s_mu s1 = Unlocked" "s_rp s1 = None" "s_policyChecker s1 = s_policyChecker s"
    using s1(2) Cons.prems by (simp_all add: free_core_def)
  then have acc: "accepted s1 = accepted s" "decided now s1 = decided now s" for now
    by (simp_all add: accepted_def decided_def fun_eq_iff)
  obtain app' s' where r: "apply_decisions rd alg a m ds ?app s1 = Returned app' s'" "s_mu s' = Unlocked"
    and app': "\<forall>k. get app' k = (case (get ds k, get (s_tasks s1) k) of
        (Some nid, Some t) \<Rightarrow> if accepted s1 t then Some nid else get ?app k | _ \<Rightarrow> get ?app k)"
    and tasks: "\<forall>k. get (s_tasks s') k = (case get ds k of
        Some nid \<Rightarrow> map_option (decided (rd_now rd) s1 nid) (get (s_tasks s1) k)
      | None \<Rightarrow> get (s_tasks s1) k)"
    using Cons.IH[OF core(1,2) wf, of ?app] by blast
  have run: "apply_decisions rd alg a m (d # ds) app s = Returned app' s'"
    using s1(1) r(1) by (simp add: d)
  have 1: "get app' k = (case (get (d # ds) k, get (s_tasks s) k) of
        (Some nid, Some t) \<Rightarrow> if accepted s t then Some nid else get app k | _ \<Rightarrow> get app k)" for k
    using app' fresh s1(3) acc
    by (cases "k = tid"; cases "get (s_tasks s) tid"; cases "get ds k")
       (simp_all add: d map_simps split: option.split)
  have 2: "get (s_tasks s') k = (case get (d # ds) k of
        Some nid \<Rightarrow> map_option (decided (rd_now rd) s nid) (get (s_tasks s) k)
      | None \<Rightarrow> get (s_tasks s) k)" for k
    using tasks fresh s1(3) acc by (cases "k = tid"; cases "get ds k") (simp_all add: d)
  show ?case using run r(2) 1 2 by blast
qed

section \<open>One run\<close>

text \<open>The steps before the decisions are applied.\<close>

lemma Schedule_start:
  assumes "s_mu s = Unlocked" and "chosen_name tel s = name"
  shows "Schedule rd tel s =
    (case get (s_algos s) name of
       None \<Rightarrow> Returned None (trace (Msg ''no active algorithm'' '''') s)
     | Some a \<Rightarrow>
         andThen (node_snapshot s) (\<lambda>nodes s'.
         let (res, a) = Algo_Schedule (rd_now rd) a (pending_tasks s) nodes tel;
             s' = s'\<lparr>s_algos := put name a (s_algos s')\<rparr>
         in case res of
              Inl e \<Rightarrow>
                andThen (s_locked (\<lambda>s. Returned () (trace (Msg ''algo error '' name) s)) s')
                  (\<lambda>_ s. Returned None s)
            | Inr (decisions, meta) \<Rightarrow>
                andThen (apply_decisions rd name a meta decisions [] s') (\<lambda>applied s.
                andThen (s_locked (\<lambda>s. Returned ()
                  (updateAllocationTime (rd_algoMs rd) (store_meta name meta s))) s) (\<lambda>_ s.
                Returned (Some applied) s))))"
proof -
  have "chosen_name tel (s\<lparr>s_mu := WLocked\<rparr>) = chosen_name tel s"
    by (cases "s_selector s") (simp_all add: chosen_name_def)
  then have same: "chosen_name tel (s\<lparr>s_mu := WLocked\<rparr>) = name"
      "pending_tasks (s\<lparr>s_mu := WLocked\<rparr>) = pending_tasks s"
    using assms(2) by (simp_all add: pending_tasks_def)
  have id: "s\<lparr>s_mu := Unlocked\<rparr> = s" using assms(1) by simp
  have tr: "(trace m (s\<lparr>s_mu := WLocked\<rparr>))\<lparr>s_mu := Unlocked\<rparr> = trace m s" for m
    using assms(1) by (simp add: trace_def)
  show ?thesis
    by (cases "get (s_algos s) name")
       (simp_all add: Schedule_def s_locked_Unlocked[OF assms(1)] same Let_def s_Unlock_WLocked id tr)
qed

lemma node_snapshot_frame:
  assumes "node_snapshot s = Returned ns s'"
  shows "s_mu s' = s_mu s \<and> s_tasks s' = s_tasks s \<and> s_algos s' = s_algos s \<and>
    s_policyChecker s' = s_policyChecker s \<and> (s_rp s = None \<longrightarrow> ns = [] \<and> s' = s) \<and>
    (s_rp s \<noteq> None \<longrightarrow> s_rp s' \<noteq> None)"
  using assms by (auto simp: node_snapshot_def on_pool_def split: option.splits outcome.splits)

lemma node_snapshot_Unlocked:
  assumes "s_rp s = Some rp" and "Mu rp = Unlocked"
  shows "node_snapshot s = Returned (map snd (Nodes rp)) s"
proof -
  have "s\<lparr>s_rp := Some rp\<rparr> = s" using assms(1) by simp
  then show ?thesis
    using assms(1)
    by (simp add: node_snapshot_def on_pool_def read_locked_def read_lock_round[OF assms(2)] del: One_nat_def)
qed

lemma no_nodes_error:
  assumes "\<forall>l. a \<noteq> Loaded l"
  shows "\<exists>e a'. Algo_Schedule now a ts [] tel = (Inl e, a')"
  using assms
  by (cases a)
     (simp_all add: RoundRobin_Schedule_def CostAware_Schedule_def EnergyAware_Schedule_def
       FairShare_Schedule_def Throughput_Schedule_def DeadlineFirst_Schedule_def Learning_Schedule_def
       run_assign_no_nodes)

definition all_builtin :: "AdvancedScheduler \<Rightarrow> bool" where
  "all_builtin s \<longleftrightarrow> (\<forall>name a l. get (s_algos s) name = Some a \<longrightarrow> a \<noteq> Loaded l)"

lemma Schedule_assigns_nothing:
  assumes "s_rp s \<noteq> None \<or> all_builtin s" and "Schedule rd tel s = Returned r s'"
  shows "(r = None \<or> r = Some []) \<and> starts_none s s'"
proof -
  let ?name = "chosen_name tel s"
  have mu: "s_mu s = Unlocked"
    using assms(2) by (cases "s_mu s = Unlocked") (simp_all add: Schedule_def sched_locks)
  note start = Schedule_start[OF mu refl, of rd tel]
  show ?thesis
  proof (cases "get (s_algos s) ?name")
    case None
    then show ?thesis using assms(2) start by (auto simp: starts_none_def)
  next
    case (Some a)
    obtain ns s1 where n: "node_snapshot s = Returned ns s1"
      using assms(2) start Some by (auto simp: andThen_Returned_iff)
    note frame = node_snapshot_frame[OF n]
    obtain res a1 where al: "Algo_Schedule (rd_now rd) a (pending_tasks s) ns tel = (res, a1)"
      by (cases "Algo_Schedule (rd_now rd) a (pending_tasks s) ns tel")
    let ?s2 = "s1\<lparr>s_algos := put ?name a1 (s_algos s1)\<rparr>"
    have st: "starts_none s ?s2" using frame by (auto simp: starts_none_def)
    show ?thesis
    proof (cases res)
      case (Inl e)
      then have run: "Schedule rd tel s = andThen
          (s_locked (\<lambda>s. Returned () (trace (Msg ''algo error '' ?name) s)) ?s2) (\<lambda>_ s. Returned None s)"
        using start Some n al by simp
      then show ?thesis
        using assms(2) mu frame st by (auto simp: s_locked_pure starts_none_def)
    next
      case (Inr c)
      obtain out m where c: "c = (out, m)" by (cases c)
      have pool: "s_rp s \<noteq> None"
      proof
        assume none: "s_rp s = None"
        then have "ns = []" using frame by simp
        moreover have "\<forall>l. a \<noteq> Loaded l" using assms(1) none Some by (auto simp: all_builtin_def)
        ultimately show False using no_nodes_error[of a "rd_now rd" "pending_tasks s" tel] al Inr by auto
      qed
      let ?fin = "\<lambda>applied s. andThen (s_locked (\<lambda>s. Returned ()
          (updateAllocationTime (rd_algoMs rd) (store_meta ?name m s))) s) (\<lambda>_ s. Returned (Some applied) s)"
      have run: "Schedule rd tel s = andThen (apply_decisions rd ?name a1 m out [] ?s2) ?fin"
        using start Some n al Inr c by simp
      obtain app s3 where ap: "apply_decisions rd ?name a1 m out [] ?s2 = Returned app s3"
        and fin: "?fin app s3 = Returned r s'"
        using iffD1[OF andThen_Returned_iff assms(2)[unfolded run]] by blast
      have "app = []" "starts_none ?s2 s3"
        using apply_decisions_with_pool[OF _ ap] frame pool by auto
      moreover have "r = Some app" "starts_none s3 s'"
        using fin by (cases "s_mu s3 = Unlocked";
            auto simp: sched_locks starts_none_def updateAllocationTime_def store_meta_def Let_def
              split: option.splits)+
      ultimately show ?thesis using st starts_none_trans by blast
    qed
  qed
qed

section \<open>Properties\<close>

text \<open>
  with a resource pool attached, or with built-in algorithms only, no call of \<open>Schedule\<close> that
  returns has applied an assignment or set a task running. Without a pool there are no nodes, on
  which every built-in algorithm fails; with a pool a decision is only applied after
  \<open>Allocate\<close> returned a node, which it never does.
\<close>

theorem Schedule_never_assigns:
  assumes "s_rp s \<noteq> None \<or> all_builtin s" and "Schedule rd tel s = Returned r s'"
  shows "(r = None \<or> r = Some []) \<and>
    (\<forall>i t. get (s_tasks s') i = Some t \<and> t_Status t = ''running'' \<longrightarrow> get (s_tasks s) i = Some t)"
  using Schedule_assigns_nothing[OF assms] by (simp add: starts_none_def)

definition rd1 :: Readings where
  "rd1 = \<lparr>rd_now = 100, rd_gen = ''res-1'', rd_lat = 0, rd_algoMs = 1, rd_allocMs = 1\<rparr>"

definition sched0 :: AdvancedScheduler where
  "sched0 = (NewAdvancedScheduler None)\<lparr>s_tasks := [(''t1'', task1)], s_activeAlgo := ''rr'',
     s_algos := [(''rr'', RoundRobin (NewRoundRobinAlgo ''rr''))]\<rparr>"

lemma sched0_returns: "\<exists>r s'. Schedule rd1 [] sched0 = Returned r s'"
  by (simp add: Schedule_def sched0_def NewAdvancedScheduler_def sched_locks chosen_name_def
      node_snapshot_def RoundRobin_Schedule_def trace_def Let_def pending_tasks_def)

theorem Schedule_never_assigns_witness:
  "\<exists>r s'. Schedule rd1 [] sched0 = Returned r s' \<and> (r = None \<or> r = Some [])"
proof -
  obtain r s' where run: "Schedule rd1 [] sched0 = Returned r s'" using sched0_returns by blast
  have "s_rp sched0 \<noteq> None \<or> all_builtin sched0" by (simp add: all_builtin_def sched0_def)
  from Schedule_never_assigns[OF this run] show ?thesis using run by blast
qed

text \<open>
  the scheduler stops itself. With a pool attached and no policy checker, from free mutexes, as
  soon as the algorithm decides for one task that exists, \<open>Schedule\<close> never returns: the allocation
  fails, and the fallback sequence locks the scheduler's mutex, which the caller holds.
\<close>

theorem Schedule_stops_itself:
  assumes "s_mu s = Unlocked" and "s_rp s = Some rp" and "Mu rp = Unlocked" and "s_policyChecker s = None"
    and "get (s_algos s) (chosen_name tel s) = Some a"
    and "fst (Algo_Schedule (rd_now rd) a (pending_tasks s) (map snd (Nodes rp)) tel) = Inr (out, m)"
    and "get out tid = Some nid" and "has_key (s_tasks s) tid"
  shows "is_blocked (Schedule rd tel s)"
proof -
  let ?name = "chosen_name tel s"
  obtain a1 where al: "Algo_Schedule (rd_now rd) a (pending_tasks s) (map snd (Nodes rp)) tel = (Inr (out, m), a1)"
    using assms(6) by (metis prod.collapse)
  let ?s2 = "s\<lparr>s_algos := put ?name a1 (s_algos s)\<rparr>"
  have "is_blocked (apply_decisions rd ?name a1 m out [] ?s2)"
    by (rule apply_decisions_known_blocks[OF _ _ assms(3) _ get_in_set[OF assms(7)]])
       (use assms in simp_all)
  then show ?thesis
    using Schedule_start[OF assms(1) refl, of rd tel] assms(5) node_snapshot_Unlocked[OF assms(2,3)] al
    by simp
qed

definition sched1 :: AdvancedScheduler where
  "sched1 = sched0\<lparr>s_rp := Some pool1\<rparr>"

theorem Schedule_stops_itself_witness: "is_blocked (Schedule rd1 [] sched1)"
proof -
  let ?a = "RoundRobin (NewRoundRobinAlgo ''rr'')"
  have pend: "pending_tasks sched1 = [task1]"
    by (simp add: pending_tasks_def sched1_def sched0_def NewAdvancedScheduler_def task1_def)
  have nodes: "map snd (Nodes pool1) = [node1]" by (simp add: pool1_def)
  have run: "fst (Algo_Schedule (rd_now rd1) ?a [task1] [node1] []) = Inr ([(''t1'', ''n1'')], None)"
    by (simp add: RoundRobin_Schedule_def RoundRobin_step_def NewRoundRobinAlgo_def rr_find_def
        task_matches_def shim_iff task1_def node1_def Let_def)
  show ?thesis
    by (rule Schedule_stops_itself[of sched1 pool1 "[]" ?a rd1 "[(''t1'', ''n1'')]" None "''t1''" "''n1''"])
       (use pend nodes run pool1_ok(1) in
         \<open>simp_all add: sched1_def sched0_def NewAdvancedScheduler_def chosen_name_def has_key_def\<close>)
qed

text \<open>
  C17: without a pool there are no nodes; when the chosen algorithm decides all the same, which the built-in ones
  refuse, so that it comes from a loader, its decisions are applied as they are. From a free mutex
  \<open>Schedule\<close> returns with the mutex free; what it reports as applied are the decisions for tasks
  that exist and that the policy checker accepts; these tasks are running on the decided node, the tasks whose
  decision the policy checker refuses have failed, and every task without a decision is unchanged.
\<close>

theorem Schedule_applies_decisions:
  assumes "s_mu s = Unlocked" and "s_rp s = None" and "get (s_algos s) (chosen_name tel s) = Some a"
    and "fst (Algo_Schedule (rd_now rd) a (pending_tasks s) [] tel) = Inr (out, m)" and "wf_map out"
  shows "\<exists>app s'. Schedule rd tel s = Returned (Some app) s' \<and> s_mu s' = Unlocked \<and>
    (\<forall>k. get app k = (case (get out k, get (s_tasks s) k) of
        (Some nid, Some t) \<Rightarrow> if accepted s t then Some nid else None
      | _ \<Rightarrow> None)) \<and>
    (\<forall>k. get (s_tasks s') k = (case get out k of
        Some nid \<Rightarrow> map_option (decided (rd_now rd) s nid) (get (s_tasks s) k)
      | None \<Rightarrow> get (s_tasks s) k))"
proof -
  let ?name = "chosen_name tel s"
  obtain a1 where al: "Algo_Schedule (rd_now rd) a (pending_tasks s) [] tel = (Inr (out, m), a1)"
    using assms(4) by (metis prod.collapse)
  let ?s2 = "s\<lparr>s_algos := put ?name a1 (s_algos s)\<rparr>"
  have acc: "accepted ?s2 = accepted s" "decided now ?s2 = decided now s" for now
    by (simp_all add: accepted_def decided_def fun_eq_iff)
  have ts: "s_tasks ?s2 = s_tasks s" by simp
  have "s_mu ?s2 = Unlocked" "s_rp ?s2 = None" using assms(1,2) by simp_all
  from apply_decisions_no_pool[OF this assms(5), of rd ?name a1 m "[]"]
  obtain app s3 where ap: "apply_decisions rd ?name a1 m out [] ?s2 = Returned app s3" "s_mu s3 = Unlocked"
    and app: "\<forall>k. get app k = (case (get out k, get (s_tasks s) k) of
        (Some nid, Some t) \<Rightarrow> if accepted s t then Some nid else None | _ \<Rightarrow> None)"
    and tasks: "\<forall>k. get (s_tasks s3) k = (case get out k of
        Some nid \<Rightarrow> map_option (decided (rd_now rd) s nid) (get (s_tasks s) k)
      | None \<Rightarrow> get (s_tasks s) k)"
    unfolding acc map_of.simps ts by blast
  have "node_snapshot s = Returned [] s" using assms(2) by (simp add: node_snapshot_def)
  then have "Schedule rd tel s = Returned (Some app)
      ((updateAllocationTime (rd_algoMs rd) (store_meta ?name m (s3\<lparr>s_mu := WLocked\<rparr>)))\<lparr>s_mu := Unlocked\<rparr>)"
    using Schedule_start[OF assms(1) refl, of rd tel] assms(3) al ap by (simp add: sched_locks)
  then show ?thesis using app tasks by auto
qed

definition fixed_algo :: SchedulerAlgorithm where
  "fixed_algo = Loaded \<lparr>ld_name = ''fixed'',
     ld_Schedule = (\<lambda>ts ns tel. Inr (map (\<lambda>t. (t_ID t, ''n9'')) ts, None)), ld_Explain = (\<lambda>_. '''')\<rparr>"

theorem Schedule_applies_decisions_witness:
  "\<exists>app s'. Schedule rd1 [] (sched0\<lparr>s_algos := [(''rr'', fixed_algo)]\<rparr>) = Returned (Some app) s' \<and>
     get app ''t1'' = Some ''n9''"
proof -
  let ?s = "sched0\<lparr>s_algos := [(''rr'', fixed_algo)]\<rparr>"
  have s: "s_mu ?s = Unlocked" "s_rp ?s = None" "get (s_algos ?s) (chosen_name [] ?s) = Some fixed_algo"
      "pending_tasks ?s = [task1]" "get (s_tasks ?s) ''t1'' = Some task1" "accepted ?s task1"
    by (simp_all add: sched0_def NewAdvancedScheduler_def chosen_name_def pending_tasks_def task1_def
        accepted_def)
  have "fst (Algo_Schedule (rd_now rd1) fixed_algo (pending_tasks ?s) [] []) = Inr ([(''t1'', ''n9'')], None)"
    unfolding s(4) by (simp add: fixed_algo_def task1_def)
  from Schedule_applies_decisions[OF s(1-3) this] s(5,6) show ?thesis by fastforce
qed

end
