(* ===== verification/Billing.thy ===== *)
theory Billing
  imports GoPrelude
begin

text \<open>
  The billing engine, \<^verbatim>\<open>src/internal/billing/billing.go\<close>: usage records, running aggregates per
  project, invoices, summaries over a time range, exports and the merge of a saved state. Its
  critical sections never nest, so a method is one transition of the engine. Times are in UTC; the
  file contents are given as the values that are encoded or decoded, and \<open>io\<close> is the error of the
  first file-system step that fails.
\<close>

section \<open>Dates\<close>

text \<open>The civil date of a time: year, month and day in the proleptic Gregorian calendar.\<close>

definition civil :: "gotime \<Rightarrow> int \<times> int \<times> int" where
  "civil t =
     (let z = t div (86400 * Second) + 306;
          era = z div 146097; doe = z mod 146097;
          yoe = (doe - doe div 1460 + doe div 36524 - doe div 146096) div 365;
          doy = doe - (365 * yoe + yoe div 4 - yoe div 100);
          mp = (5 * doy + 2) div 153;
          d = doy - (153 * mp + 2) div 5 + 1;
          m = (if mp < 10 then mp + 3 else mp - 9);
          y = yoe + era * 400
      in (if m \<le> 2 then y + 1 else y, m, d))"

definition pad :: "nat \<Rightarrow> int \<Rightarrow> string" where
  "pad w n = (let s = dec (nat n) in replicate (w - length s) CHR ''0'' @ s)"

text \<open>The layouts ``2006-01'' and ``2006-01-02''.\<close>

definition format_month :: "gotime \<Rightarrow> string" where
  "format_month t = (case civil t of (y, m, d) \<Rightarrow> pad 4 y @ ''-'' @ pad 2 m)"

definition format_day :: "gotime \<Rightarrow> string" where
  "format_day t = (case civil t of (y, m, d) \<Rightarrow> pad 4 y @ ''-'' @ pad 2 m @ ''-'' @ pad 2 d)"

section \<open>Types\<close>

record UsageRecord =
  u_ProjectID :: string
  u_UserID :: string
  u_Resource :: string
  u_Amount :: float64
  u_Unit :: string
  u_Timestamp :: gotime
  u_Meta :: "(string, any) gomap"
  u_CostPerUnit :: float64

record Invoice =
  i_ID :: string
  i_UserID :: string
  i_Period :: string
  i_Total :: float64
  i_Status :: string
  i_Records :: "UsageRecord list"
  i_CreatedAt :: gotime

record ProjectAggregate =
  pa_ProjectID :: string
  pa_ByResource :: "(string, float64) gomap"
  pa_EstimatedKWh :: float64
  pa_EstimatedCost :: float64
  pa_RecordsCount :: int
  pa_LastUpdated :: gotime

type_synonym profile = "(string, float64) gomap"

record BillingEngine =
  b_records :: "UsageRecord list"
  b_invoices :: "(string, Invoice) gomap"
  b_byProject :: "(string, ProjectAggregate) gomap"
  b_persistPath :: string
  b_energyProfile :: profile
  b_costProfile :: profile

definition NewBillingEngine :: BillingEngine where
  "NewBillingEngine =
     \<lparr>b_records = [], b_invoices = [], b_byProject = [], b_persistPath = '''',
      b_energyProfile = [(''cpu_seconds'', 0.00005), (''gpu_seconds'', 0.00025),
        (''storage_byte_s'', 0.0000000002778), (''net_bytes'', 0.0000000000833)],
      b_costProfile = [(''cpu_seconds'', 0.000002), (''gpu_seconds'', 0.00002),
        (''storage_byte_s'', 0.00000000001), (''net_bytes'', 0.000000000005)]\<rparr>"

section \<open>Estimates\<close>

definition profile_key :: "string \<Rightarrow> string option" where
  "profile_key resource =
     (if resource = ''cpu'' then Some ''cpu_seconds''
      else if resource = ''gpu'' then Some ''gpu_seconds''
      else if resource = ''storage'' then Some ''storage_byte_s''
      else if resource = ''net'' then Some ''net_bytes''
      else None)"

definition estimateEnergyForRecordUnlocked :: "UsageRecord \<Rightarrow> BillingEngine \<Rightarrow> float64" where
  "estimateEnergyForRecordUnlocked r b =
     (case profile_key (u_Resource r) of
        None \<Rightarrow> 0 | Some k \<Rightarrow> u_Amount r * get0 (b_energyProfile b) k)"

definition estimateCostForRecordUnlocked :: "UsageRecord \<Rightarrow> BillingEngine \<Rightarrow> float64" where
  "estimateCostForRecordUnlocked r b =
     (if u_CostPerUnit r > 0 then u_Amount r * u_CostPerUnit r
      else case profile_key (u_Resource r) of
             None \<Rightarrow> 0 | Some k \<Rightarrow> u_Amount r * get0 (b_costProfile b) k)"

definition EstimateEnergyForRecord :: "UsageRecord \<Rightarrow> BillingEngine \<Rightarrow> float64" where
  "EstimateEnergyForRecord r b = estimateEnergyForRecordUnlocked r b"

definition EstimateCostForRecord :: "UsageRecord \<Rightarrow> BillingEngine \<Rightarrow> float64" where
  "EstimateCostForRecord r b = estimateCostForRecordUnlocked r b"

section \<open>Usage\<close>

definition SetPersistFile :: "string \<Rightarrow> BillingEngine \<Rightarrow> BillingEngine" where
  "SetPersistFile path b = b\<lparr>b_persistPath := path\<rparr>"

definition SetEnergyProfile :: "profile \<Rightarrow> BillingEngine \<Rightarrow> BillingEngine" where
  "SetEnergyProfile p b = b\<lparr>b_energyProfile := put_all p (b_energyProfile b)\<rparr>"

definition SetCostProfile :: "profile \<Rightarrow> BillingEngine \<Rightarrow> BillingEngine" where
  "SetCostProfile p b = b\<lparr>b_costProfile := put_all p (b_costProfile b)\<rparr>"

text \<open>Adding one record to the aggregate of its project, which is created when it is new.\<close>

definition add_to_project ::
    "gotime \<Rightarrow> BillingEngine \<Rightarrow> UsageRecord \<Rightarrow> (string, ProjectAggregate) gomap
      \<Rightarrow> (string, ProjectAggregate) gomap" where
  "add_to_project now b r m =
     (let pa = (case get m (u_ProjectID r) of
                  Some pa \<Rightarrow> pa
                | None \<Rightarrow> \<lparr>pa_ProjectID = u_ProjectID r, pa_ByResource = [], pa_EstimatedKWh = 0,
                           pa_EstimatedCost = 0, pa_RecordsCount = 0, pa_LastUpdated = 0\<rparr>)
      in put (u_ProjectID r)
           (pa\<lparr>pa_ByResource := put (u_Resource r) (get0 (pa_ByResource pa) (u_Resource r) + u_Amount r)
                                 (pa_ByResource pa),
               pa_RecordsCount := pa_RecordsCount pa + 1,
               pa_LastUpdated := now,
               pa_EstimatedKWh := pa_EstimatedKWh pa + estimateEnergyForRecordUnlocked r b,
               pa_EstimatedCost := pa_EstimatedCost pa + estimateCostForRecordUnlocked r b\<rparr>) m)"

definition default_unit :: "string \<Rightarrow> string" where
  "default_unit resource =
     (if resource = ''cpu'' \<or> resource = ''gpu'' then ''seconds''
      else if resource = ''storage'' \<or> resource = ''net'' then ''bytes''
      else ''units'')"

definition normalise :: "gotime \<Rightarrow> UsageRecord \<Rightarrow> UsageRecord" where
  "normalise now r =
     (let r = (if IsZero (u_Timestamp r) then r\<lparr>u_Timestamp := now\<rparr> else r)
      in if u_Unit r = '''' then r\<lparr>u_Unit := default_unit (u_Resource r)\<rparr> else r)"

definition AddUsage :: "gotime \<Rightarrow> UsageRecord \<Rightarrow> BillingEngine \<Rightarrow> BillingEngine" where
  "AddUsage now r b =
     (let r = normalise now r; b = b\<lparr>b_records := b_records b @ [r]\<rparr>
      in if u_ProjectID r \<noteq> '''' then b\<lparr>b_byProject := add_to_project now b r (b_byProject b)\<rparr> else b)"

definition AddUsageForProject ::
    "gotime \<Rightarrow> string \<Rightarrow> string \<Rightarrow> string \<Rightarrow> float64 \<Rightarrow> string \<Rightarrow> (string, any) gomap \<Rightarrow> float64
      \<Rightarrow> BillingEngine \<Rightarrow> BillingEngine" where
  "AddUsageForProject now projectID userID resource amount unit meta costPerUnit =
     AddUsage now \<lparr>u_ProjectID = projectID, u_UserID = userID, u_Resource = resource,
       u_Amount = amount, u_Unit = unit, u_Timestamp = now, u_Meta = meta, u_CostPerUnit = costPerUnit\<rparr>"

definition runAggregationOnce :: "gotime \<Rightarrow> BillingEngine \<Rightarrow> BillingEngine" where
  "runAggregationOnce now b =
     b\<lparr>b_byProject := foldl (\<lambda>m r. add_to_project now b r m) [] (b_records b)\<rparr>"

definition GetProjectAggregate :: "string \<Rightarrow> BillingEngine \<Rightarrow> ProjectAggregate option" where
  "GetProjectAggregate p b = get (b_byProject b) p"

section \<open>Invoices and summaries\<close>

definition billed :: "UsageRecord \<Rightarrow> float64" where
  "billed r = (if u_CostPerUnit r > 0 then u_Amount r * u_CostPerUnit r else u_Amount r)"

definition GenerateInvoice :: "gotime \<Rightarrow> string \<Rightarrow> string \<Rightarrow> BillingEngine \<Rightarrow> Invoice \<times> BillingEngine" where
  "GenerateInvoice now userID period b =
     (let step = (\<lambda>(total, recs) r.
            if u_UserID r = userID \<and> format_month (u_Timestamp r) = period
            then (total + billed r, recs @ [r]) else (total, recs));
          (total, recs) = foldl step (0, []) (b_records b);
          invoice = \<lparr>i_ID = userID @ ''-'' @ period, i_UserID = userID, i_Period = period,
                     i_Total = total, i_Status = ''pending'', i_Records = recs, i_CreatedAt = now\<rparr>
      in (invoice, b\<lparr>b_invoices := put (i_ID invoice) invoice (b_invoices b)\<rparr>))"

definition GetInvoice :: "string \<Rightarrow> BillingEngine \<Rightarrow> Invoice option" where
  "GetInvoice i b = get (b_invoices b) i"

text \<open>A zero bound of the range is open.\<close>

definition in_range :: "string \<Rightarrow> gotime \<Rightarrow> gotime \<Rightarrow> UsageRecord \<Rightarrow> bool" where
  "in_range projectID from_t to_t r \<longleftrightarrow>
     \<not> u_ProjectID r \<noteq> projectID \<and>
     \<not> (\<not> IsZero from_t \<and> u_Timestamp r < from_t) \<and>
     \<not> (\<not> IsZero to_t \<and> u_Timestamp r > to_t)"

definition summary_step :: "BillingEngine \<Rightarrow> ProjectAggregate \<Rightarrow> UsageRecord \<Rightarrow> ProjectAggregate" where
  "summary_step b agg r =
     agg\<lparr>pa_ByResource := put (u_Resource r) (get0 (pa_ByResource agg) (u_Resource r) + u_Amount r)
                            (pa_ByResource agg),
         pa_EstimatedKWh := pa_EstimatedKWh agg + estimateEnergyForRecordUnlocked r b,
         pa_EstimatedCost := pa_EstimatedCost agg + estimateCostForRecordUnlocked r b,
         pa_RecordsCount := pa_RecordsCount agg + 1\<rparr>"

definition GetProjectUsageSummary ::
    "gotime \<Rightarrow> string \<Rightarrow> gotime \<Rightarrow> gotime \<Rightarrow> BillingEngine \<Rightarrow> ProjectAggregate" where
  "GetProjectUsageSummary now projectID from_t to_t b =
     (foldl (\<lambda>agg r. if in_range projectID from_t to_t r then summary_step b agg r else agg)
        \<lparr>pa_ProjectID = projectID, pa_ByResource = [], pa_EstimatedKWh = 0, pa_EstimatedCost = 0,
         pa_RecordsCount = 0, pa_LastUpdated = 0\<rparr> (b_records b))\<lparr>pa_LastUpdated := now\<rparr>"

definition generateInvoiceLikeUnlocked ::
    "gotime \<Rightarrow> string \<Rightarrow> gotime \<Rightarrow> gotime \<Rightarrow> BillingEngine \<Rightarrow> Invoice option" where
  "generateInvoiceLikeUnlocked now projectID from_t to_t b =
     (let recs = filter (in_range projectID from_t to_t) (b_records b);
          total = foldl (\<lambda>t r. t + billed r) 0 recs;
          label = format_day from_t @ ''_'' @ format_day to_t
      in if recs = [] then None
         else Some \<lparr>i_ID = projectID @ ''-'' @ label, i_UserID = '''', i_Period = label, i_Total = total,
                    i_Status = ''pending'', i_Records = recs, i_CreatedAt = now\<rparr>)"

datatype billing_error = NoRecords | IOFailed string | DecodeFailed string

text \<open>The exports: what the file holds.\<close>

definition ExportProjectJSON ::
    "gotime \<Rightarrow> string option \<Rightarrow> string \<Rightarrow> gotime \<Rightarrow> gotime \<Rightarrow> BillingEngine \<Rightarrow> billing_error + Invoice" where
  "ExportProjectJSON now io projectID from_t to_t b =
     (case generateInvoiceLikeUnlocked now projectID from_t to_t b of
        None \<Rightarrow> Inl NoRecords
      | Some i \<Rightarrow> (case io of Some e \<Rightarrow> Inl (IOFailed e) | None \<Rightarrow> Inr i))"

definition ExportProjectCSV ::
    "string option \<Rightarrow> string \<Rightarrow> gotime \<Rightarrow> gotime \<Rightarrow> BillingEngine
      \<Rightarrow> billing_error + (UsageRecord \<times> float64 \<times> float64) list" where
  "ExportProjectCSV io projectID from_t to_t b =
     (case io of
        Some e \<Rightarrow> Inl (IOFailed e)
      | None \<Rightarrow> Inr (map (\<lambda>r. (r, estimateEnergyForRecordUnlocked r b, estimateCostForRecordUnlocked r b))
                     (filter (in_range projectID from_t to_t) (b_records b))))"

record saved_state =
  sv_Records :: "UsageRecord list"
  sv_Invoices :: "(string, Invoice) gomap"
  sv_EnergyProfile :: profile
  sv_CostProfile :: profile

definition SaveToFile :: "string option \<Rightarrow> BillingEngine \<Rightarrow> billing_error + saved_state" where
  "SaveToFile io b =
     (case io of
        Some e \<Rightarrow> Inl (IOFailed e)
      | None \<Rightarrow> Inr \<lparr>sv_Records = b_records b, sv_Invoices = b_invoices b,
                      sv_EnergyProfile = b_energyProfile b, sv_CostProfile = b_costProfile b\<rparr>)"

definition LoadFromFile :: "billing_error + saved_state \<Rightarrow> BillingEngine \<Rightarrow> billing_error option \<times> BillingEngine" where
  "LoadFromFile file b =
     (case file of
        Inl e \<Rightarrow> (Some e, b)
      | Inr sv \<Rightarrow>
          (None, b\<lparr>b_records := b_records b @ sv_Records sv,
                    b_invoices := put_all (sv_Invoices sv) (b_invoices b),
                    b_energyProfile := put_all (sv_EnergyProfile sv) (b_energyProfile b),
                    b_costProfile := put_all (sv_CostProfile sv) (b_costProfile b)\<rparr>))"

section \<open>What an aggregate stands for\<close>

text \<open>The specification: sums over the records of a project.\<close>

definition sums_to :: "BillingEngine \<Rightarrow> UsageRecord list \<Rightarrow> ProjectAggregate \<Rightarrow> bool" where
  "sums_to b rs pa \<longleftrightarrow>
     (\<forall>k. get0 (pa_ByResource pa) k = sum_list (map u_Amount (filter (\<lambda>r. u_Resource r = k) rs))) \<and>
     pa_EstimatedKWh pa = sum_list (map (\<lambda>r. estimateEnergyForRecordUnlocked r b) rs) \<and>
     pa_EstimatedCost pa = sum_list (map (\<lambda>r. estimateCostForRecordUnlocked r b) rs) \<and>
     pa_RecordsCount pa = int (length rs)"

definition aggregate_ok :: "BillingEngine \<Rightarrow> UsageRecord list \<Rightarrow> (string, ProjectAggregate) gomap \<Rightarrow> string \<Rightarrow> bool" where
  "aggregate_ok b rs m p \<longleftrightarrow>
     (case get m p of
        None \<Rightarrow> filter (\<lambda>r. u_ProjectID r = p) rs = []
      | Some pa \<Rightarrow> filter (\<lambda>r. u_ProjectID r = p) rs \<noteq> [] \<and>
          sums_to b (filter (\<lambda>r. u_ProjectID r = p) rs) pa)"

lemma sums_to_snoc:
  assumes "sums_to b rs pa"
  shows "sums_to b (rs @ [r]) (summary_step b pa r)"
  using assms by (auto simp: sums_to_def summary_step_def map_simps)

lemma sums_to_empty [simp]:
  "sums_to b [] \<lparr>pa_ProjectID = p, pa_ByResource = [], pa_EstimatedKWh = 0, pa_EstimatedCost = 0,
     pa_RecordsCount = 0, pa_LastUpdated = t\<rparr>"
  by (simp add: sums_to_def)

lemma sums_to_LastUpdated [simp]: "sums_to b rs (pa\<lparr>pa_LastUpdated := t\<rparr>) = sums_to b rs pa"
  by (simp add: sums_to_def)

lemma add_to_project_get:
  "get (add_to_project now b r m) p =
     (if p = u_ProjectID r then
        Some ((summary_step b (case get m p of
                 Some pa \<Rightarrow> pa
               | None \<Rightarrow> \<lparr>pa_ProjectID = p, pa_ByResource = [], pa_EstimatedKWh = 0,
                          pa_EstimatedCost = 0, pa_RecordsCount = 0, pa_LastUpdated = 0\<rparr>) r)
               \<lparr>pa_LastUpdated := now\<rparr>)
      else get m p)"
  by (auto simp: add_to_project_def summary_step_def map_simps Let_def split: option.split)

lemma aggregate_ok_add:
  assumes "aggregate_ok b rs m p"
  shows "aggregate_ok b (rs @ [r]) (add_to_project now b r m) p"
proof (cases "p = u_ProjectID r")
  case True
  then show ?thesis
    using assms sums_to_snoc[of b "filter (\<lambda>r. u_ProjectID r = p) rs" _ r] sums_to_snoc[OF sums_to_empty]
    by (cases "get m p") (auto simp: aggregate_ok_def add_to_project_get)
next
  case False
  then show ?thesis using assms by (cases "get m p") (simp_all add: aggregate_ok_def add_to_project_get)
qed

lemma aggregate_ok_skip:
  "aggregate_ok b rs m p \<Longrightarrow> u_ProjectID r \<noteq> p \<Longrightarrow> aggregate_ok b (rs @ [r]) m p"
  by (simp add: aggregate_ok_def split: option.splits)

lemma aggregate_fold:
  "aggregate_ok b rs m p \<Longrightarrow> aggregate_ok b (rs @ qs) (foldl (\<lambda>m r. add_to_project now b r m) m qs) p"
proof (induction qs arbitrary: rs m)
  case Nil
  then show ?case by simp
next
  case (Cons q qs)
  then show ?case using Cons.IH[of "rs @ [q]" "add_to_project now b q m"] aggregate_ok_add by simp
qed

lemma summary_fold:
  "sums_to b rs agg \<Longrightarrow>
   sums_to b (rs @ filter P qs) (foldl (\<lambda>agg r. if P r then summary_step b agg r else agg) agg qs)"
proof (induction qs arbitrary: rs agg)
  case Nil
  then show ?case by simp
next
  case (Cons q qs)
  then show ?case using Cons.IH[of "rs @ [q]" "summary_step b agg q"] Cons.IH[of rs agg] sums_to_snoc by simp
qed

lemma GetProjectUsageSummary_sums:
  "sums_to b (filter (in_range p from_t to_t) (b_records b)) (GetProjectUsageSummary now p from_t to_t b)"
  using summary_fold[of b "[]" _ "in_range p from_t to_t" "b_records b"]
  by (simp add: GetProjectUsageSummary_def)

text \<open>The engine's aggregates are up to date for every named project.\<close>

definition aggregates_ok :: "BillingEngine \<Rightarrow> bool" where
  "aggregates_ok b \<longleftrightarrow> (\<forall>p. p \<noteq> '''' \<longrightarrow> aggregate_ok b (b_records b) (b_byProject b) p)"

lemma profiles_only:
  assumes "b_energyProfile b' = b_energyProfile b" and "b_costProfile b' = b_costProfile b"
  shows "aggregate_ok b' = aggregate_ok b" and "add_to_project now b' = add_to_project now b"
proof -
  have e: "estimateEnergyForRecordUnlocked r b' = estimateEnergyForRecordUnlocked r b"
    and c: "estimateCostForRecordUnlocked r b' = estimateCostForRecordUnlocked r b" for r
    unfolding estimateEnergyForRecordUnlocked_def estimateCostForRecordUnlocked_def assms by (rule refl)+
  have "sums_to b' = sums_to b" by (intro ext) (simp add: sums_to_def e c)
  then show "aggregate_ok b' = aggregate_ok b" by (intro ext) (simp only: aggregate_ok_def)
  show "add_to_project now b' = add_to_project now b"
    by (intro ext) (simp add: add_to_project_def e c)
qed

section \<open>Properties\<close>

lemma AddUsage_aggregates:
  assumes "aggregates_ok b"
  shows "aggregates_ok (AddUsage now r b)"
proof -
  let ?r = "normalise now r" and ?b = "b\<lparr>b_records := b_records b @ [normalise now r]\<rparr>"
  have same: "aggregate_ok (AddUsage now r b) = aggregate_ok b" "add_to_project now ?b = add_to_project now b"
    by (rule profiles_only; simp add: AddUsage_def Let_def)+
  have recs: "b_records (AddUsage now r b) = b_records b @ [?r]" by (simp add: AddUsage_def Let_def)
  show ?thesis
    unfolding aggregates_ok_def same recs
  proof (intro allI impI)
    fix p :: string assume p: "p \<noteq> ''''"
    then have ok: "aggregate_ok b (b_records b) (b_byProject b) p" using assms by (simp add: aggregates_ok_def)
    show "aggregate_ok b (b_records b @ [?r]) (b_byProject (AddUsage now r b)) p"
    proof (cases "u_ProjectID ?r = ''''")
      case True
      then show ?thesis using ok p aggregate_ok_skip by (simp add: AddUsage_def Let_def)
    next
      case False
      then have "b_byProject (AddUsage now r b) = add_to_project now b ?r (b_byProject b)"
        using same(2) by (simp add: AddUsage_def Let_def)
      then show ?thesis using aggregate_ok_add[OF ok] by simp
    qed
  qed
qed

lemma runAggregationOnce_aggregates:
  "aggregates_ok (runAggregationOnce now b)"
proof -
  have same: "aggregate_ok (runAggregationOnce now b) = aggregate_ok b"
    by (rule profiles_only) (simp_all add: runAggregationOnce_def)
  have "aggregate_ok b ([] @ b_records b) (foldl (\<lambda>m r. add_to_project now b r m) [] (b_records b)) p" for p
    by (rule aggregate_fold) (simp add: aggregate_ok_def)
  then show ?thesis
    unfolding aggregates_ok_def same by (simp add: runAggregationOnce_def)
qed

lemma sums_to_unique:
  "sums_to b rs pa \<Longrightarrow> sums_to b rs pa' \<Longrightarrow>
   get0 (pa_ByResource pa) k = get0 (pa_ByResource pa') k \<and> pa_EstimatedKWh pa = pa_EstimatedKWh pa' \<and>
   pa_EstimatedCost pa = pa_EstimatedCost pa' \<and> pa_RecordsCount pa = pa_RecordsCount pa'"
  by (simp add: sums_to_def)

lemma aggregates_ok_none:
  assumes "aggregates_ok b" and "p \<noteq> ''''" and "GetProjectAggregate p b = None"
  shows "filter (\<lambda>r. u_ProjectID r = p) (b_records b) = []"
proof -
  have "aggregate_ok b (b_records b) (b_byProject b) p" using assms(1,2) by (simp add: aggregates_ok_def)
  then show ?thesis using assms(3) by (simp add: aggregate_ok_def GetProjectAggregate_def)
qed

lemma aggregates_ok_summary:
  assumes "aggregates_ok b" and "p \<noteq> ''''" and "GetProjectAggregate p b = Some pa"
  shows "filter (\<lambda>r. u_ProjectID r = p) (b_records b) \<noteq> []"
    and "sums_to b (filter (\<lambda>r. u_ProjectID r = p) (b_records b)) pa"
  using assms by (auto simp: aggregates_ok_def aggregate_ok_def GetProjectAggregate_def split: option.splits)

text \<open>
  The engines whose aggregates have had no reason to become stale: from a new engine or from one
  aggregation run over any engine, by recording usage and generating invoices.  Loading a file and
  changing a profile are not steps: they leave the aggregates behind until the next run.
\<close>

inductive up_to_date :: "BillingEngine \<Rightarrow> bool" where
  up_new: "up_to_date NewBillingEngine"
| up_run: "up_to_date (runAggregationOnce now b)"
| up_add: "up_to_date b \<Longrightarrow> up_to_date (AddUsage now r b)"
| up_invoice: "up_to_date b \<Longrightarrow> up_to_date (snd (GenerateInvoice now user period b))"

lemma GenerateInvoice_aggregates:
  assumes "aggregates_ok b"
  shows "aggregates_ok (snd (GenerateInvoice now user period b))"
proof -
  let ?b = "snd (GenerateInvoice now user period b)"
  have same: "aggregate_ok ?b = aggregate_ok b"
    by (rule profiles_only) (simp_all add: GenerateInvoice_def Let_def split: prod.split)
  have "b_records ?b = b_records b" "b_byProject ?b = b_byProject b"
    by (simp_all add: GenerateInvoice_def Let_def split: prod.split)
  then show ?thesis using assms unfolding aggregates_ok_def same by simp
qed

lemma up_to_date_ok: "up_to_date b \<Longrightarrow> aggregates_ok b"
proof (induction rule: up_to_date.induct)
  case up_new
  show ?case by (simp add: aggregates_ok_def aggregate_ok_def NewBillingEngine_def)
qed (rule runAggregationOnce_aggregates AddUsage_aggregates GenerateInvoice_aggregates; assumption?)+

text \<open>
  C13: the running aggregates. After any sequence of recorded usage and invoices from a new engine,
  or from an aggregation run over any engine, each named project's stored aggregate has the same
  amounts per resource, energy, cost and record count as the summary computed from all its records,
  and there is an aggregate exactly when the project has a record.
\<close>

theorem aggregates_agree_with_summaries:
  assumes "up_to_date b" and "p \<noteq> ''''"
  shows "case GetProjectAggregate p b of
       None \<Rightarrow> \<forall>r \<in> set (b_records b). u_ProjectID r \<noteq> p
     | Some pa \<Rightarrow>
         let s = GetProjectUsageSummary now p 0 0 b
         in (\<forall>k. get0 (pa_ByResource pa) k = get0 (pa_ByResource s) k) \<and>
            pa_EstimatedKWh pa = pa_EstimatedKWh s \<and> pa_EstimatedCost pa = pa_EstimatedCost s \<and>
            pa_RecordsCount pa = pa_RecordsCount s \<and> 0 < pa_RecordsCount s"
proof -
  have ok: "aggregates_ok b" using assms(1) by (rule up_to_date_ok)
  have range: "in_range p 0 0 = (\<lambda>r. u_ProjectID r = p)" by (auto simp: in_range_def fun_eq_iff)
  show ?thesis
  proof (cases "GetProjectAggregate p b")
    case None
    then have "filter (\<lambda>r. u_ProjectID r = p) (b_records b) = []"
      by (rule aggregates_ok_none[OF ok assms(2)])
    then show ?thesis using None by (simp add: filter_empty_conv)
  next
    case (Some pa)
    note stored = aggregates_ok_summary[OF ok assms(2) Some]
      and computed = GetProjectUsageSummary_sums[of b p 0 0 now, unfolded range]
    have "0 < pa_RecordsCount (GetProjectUsageSummary now p 0 0 b)"
      using stored(1) computed by (simp add: sums_to_def)
    then show ?thesis
      using Some sums_to_unique[OF stored(2) computed] by (simp add: Let_def)
  qed
qed

definition usage1 :: UsageRecord where
  "usage1 = \<lparr>u_ProjectID = ''p'', u_UserID = ''bob'', u_Resource = ''cpu'', u_Amount = 10, u_Unit = '''',
     u_Timestamp = 63892368000000000000, u_Meta = [], u_CostPerUnit = 0\<rparr>"

theorem aggregates_agree_with_summaries_witness:
  "\<exists>pa. GetProjectAggregate ''p'' (AddUsage 5 usage1 NewBillingEngine) = Some pa \<and>
     pa_RecordsCount pa = pa_RecordsCount (GetProjectUsageSummary 5 ''p'' 0 0 (AddUsage 5 usage1 NewBillingEngine))"
proof -
  let ?b = "AddUsage 5 usage1 NewBillingEngine"
  have fact: "case GetProjectAggregate ''p'' ?b of None \<Rightarrow> \<forall>r \<in> set (b_records ?b). u_ProjectID r \<noteq> ''p''
     | Some pa \<Rightarrow> pa_RecordsCount pa = pa_RecordsCount (GetProjectUsageSummary 5 ''p'' 0 0 ?b)"
    using aggregates_agree_with_summaries[OF up_add[OF up_new], of "''p''" 5 usage1 5]
    by (simp add: Let_def split: option.splits)
  have "normalise 5 usage1 \<in> set (b_records ?b)" by (simp add: AddUsage_def Let_def)
  moreover have "u_ProjectID (normalise 5 usage1) = ''p''" by (simp add: normalise_def usage1_def)
  ultimately show ?thesis using fact by (cases "GetProjectAggregate ''p'' ?b") auto
qed

lemma invoice_fold:
  "foldl (\<lambda>(total, recs) r. if P r then (total + billed r, recs @ [r]) else (total, recs)) (t, qs) rs =
     (t + sum_list (map billed (filter P rs)), qs @ filter P rs)"
  by (induction rs arbitrary: t qs) (auto simp: add.assoc)

text \<open>
  an invoice. It lists exactly the user's records of the period, in their order; its total is
  the sum of their amounts, each times its unit price when it has one; it is stored under
  user and period, replacing an earlier one, and other invoices and the records are untouched.
\<close>

theorem GenerateInvoice_bills_the_period:
  assumes "GenerateInvoice now userID period b = (iv, b')"
  shows "i_Records iv = filter (\<lambda>r. u_UserID r = userID \<and> format_month (u_Timestamp r) = period) (b_records b) \<and>
    i_Total iv = sum_list (map (\<lambda>r. if u_CostPerUnit r > 0 then u_Amount r * u_CostPerUnit r else u_Amount r)
                   (i_Records iv)) \<and>
    GetInvoice (userID @ ''-'' @ period) b' = Some iv \<and>
    (\<forall>i. i \<noteq> userID @ ''-'' @ period \<longrightarrow> GetInvoice i b' = GetInvoice i b) \<and>
    b_records b' = b_records b \<and> b_byProject b' = b_byProject b"
  using assms
  by (auto simp: GenerateInvoice_def invoice_fold GetInvoice_def map_simps billed_def[abs_def] Let_def)

theorem GenerateInvoice_bills_the_period_witness:
  "\<exists>iv b'. GenerateInvoice 5 ''bob'' ''2025-09'' (AddUsage 5 usage1 NewBillingEngine) = (iv, b') \<and>
     i_Total iv = sum_list (map (\<lambda>r. if u_CostPerUnit r > 0 then u_Amount r * u_CostPerUnit r else u_Amount r)
                   (i_Records iv))"
proof -
  obtain iv b' where "GenerateInvoice 5 ''bob'' ''2025-09'' (AddUsage 5 usage1 NewBillingEngine) = (iv, b')"
    by (cases "GenerateInvoice 5 ''bob'' ''2025-09'' (AddUsage 5 usage1 NewBillingEngine)")
  then show ?thesis using GenerateInvoice_bills_the_period by blast
qed

text \<open>
  Invoice IDs. Two invoices for periods of the same length (such as two months) have the same
  ID only when user and period agree, so no invoice of one user overwrites another user's.
\<close>

theorem invoice_ids_unique:
  assumes "length period = length period'"
    and "i_ID (fst (GenerateInvoice now user period b)) = i_ID (fst (GenerateInvoice now' user' period' b'))"
  shows "user = user' \<and> period = period'"
  using assms by (simp add: GenerateInvoice_def invoice_fold Let_def)

theorem invoice_ids_unique_witness:
  "i_ID (fst (GenerateInvoice 1 ''bob'' ''2025-09'' NewBillingEngine)) \<noteq>
   i_ID (fst (GenerateInvoice 2 ''eve'' ''2025-09'' NewBillingEngine))"
  using invoice_ids_unique[of "''2025-09''" "''2025-09''" 1 "''bob''" NewBillingEngine 2 "''eve''" NewBillingEngine]
  by auto

text \<open>
  what loading a state does to the aggregates. The records are appended but the aggregates are
  not touched, so a project that appears only in the file has a summary and no aggregate until the
  next aggregation run.
\<close>

theorem LoadFromFile_leaves_aggregates_stale:
  assumes "LoadFromFile (Inr sv) b = (e, b')" and "r \<in> set (sv_Records sv)"
    and "GetProjectAggregate (u_ProjectID r) b = None"
  shows "GetProjectAggregate (u_ProjectID r) b' = None \<and>
    pa_RecordsCount (GetProjectUsageSummary now (u_ProjectID r) 0 0 b') > 0 \<and>
    (u_ProjectID r \<noteq> '''' \<longrightarrow> GetProjectAggregate (u_ProjectID r) (runAggregationOnce now b') \<noteq> None)"
proof -
  let ?p = "u_ProjectID r"
  have b': "b_records b' = b_records b @ sv_Records sv" "b_byProject b' = b_byProject b"
    using assms(1) by (auto simp: LoadFromFile_def)
  then have r: "r \<in> set (b_records b')" using assms(2) by simp
  then have "filter (in_range ?p 0 0) (b_records b') \<noteq> []"
    by (auto simp: in_range_def filter_empty_conv)
  then have "pa_RecordsCount (GetProjectUsageSummary now ?p 0 0 b') > 0"
    using GetProjectUsageSummary_sums[of b' ?p 0 0 now] by (simp add: sums_to_def)
  moreover have "GetProjectAggregate ?p (runAggregationOnce now b') \<noteq> None" if "?p \<noteq> ''''"
  proof
    assume none: "GetProjectAggregate ?p (runAggregationOnce now b') = None"
    have "filter (\<lambda>q. u_ProjectID q = ?p) (b_records b') = []"
      using aggregates_ok_none[OF runAggregationOnce_aggregates that none] by (simp add: runAggregationOnce_def)
    then show False using r by (auto simp: filter_empty_conv)
  qed
  ultimately show ?thesis using assms(3) b'(2) by (simp add: GetProjectAggregate_def)
qed

theorem LoadFromFile_leaves_aggregates_stale_witness:
  "\<exists>b'. snd (LoadFromFile (Inr \<lparr>sv_Records = [usage1], sv_Invoices = [], sv_EnergyProfile = [],
      sv_CostProfile = []\<rparr>) NewBillingEngine) = b' \<and> GetProjectAggregate ''p'' b' = None \<and>
     pa_RecordsCount (GetProjectUsageSummary 5 ''p'' 0 0 b') > 0"
proof -
  let ?sv = "\<lparr>sv_Records = [usage1], sv_Invoices = [], sv_EnergyProfile = [], sv_CostProfile = []\<rparr>"
  have "u_ProjectID usage1 = ''p''" "GetProjectAggregate ''p'' NewBillingEngine = None"
    by (simp_all add: usage1_def GetProjectAggregate_def NewBillingEngine_def)
  then show ?thesis
    using LoadFromFile_leaves_aggregates_stale[of ?sv NewBillingEngine "fst (LoadFromFile (Inr ?sv) NewBillingEngine)"
        "snd (LoadFromFile (Inr ?sv) NewBillingEngine)" usage1 5] by simp
qed

end
