(* ===== verification/GoJSON.thy ===== *)
theory GoJSON
  imports GoPrelude
begin

text \<open>
  encoding/json on values of type any: what a value is after it has been encoded and decoded again. The type of
  a value is not part of its text: a number comes back as a float64, so that an integer is rounded to 53 bits,
  and maps and slices come back with elements of type any. A value of a type that the code does not inspect
  (\<open>AOther\<close>), such as a struct, comes back as one that it does not inspect either. Strings are UTF-8, and an
  encoding that fails is an error argument of the operation that encodes.
\<close>

section \<open>Integers as float64\<close>

text \<open>The bits of a number beyond the 53 of a float64.\<close>

fun excess :: "nat \<Rightarrow> nat" where
  "excess a = (if a < 2 ^ 53 then 0 else Suc (excess (a div 2)))"

declare excess.simps [simp del]

text \<open>Rounding to the nearest float64, and to the even one of two.\<close>

definition f64_of_nat :: "nat \<Rightarrow> nat" where
  "f64_of_nat a =
     (let e = excess a; q = a div 2 ^ e; r = a mod 2 ^ e
      in (if 2 * r > 2 ^ e \<or> 2 * r = 2 ^ e \<and> odd q then q + 1 else q) * 2 ^ e)"

definition f64_of_int :: "int \<Rightarrow> float64" where
  "f64_of_int i = of_int (sgn i * int (f64_of_nat (nat \<bar>i\<bar>)))"

lemma excess_small [simp]: "a < 2 ^ 53 \<Longrightarrow> excess a = 0"
  by (simp add: excess.simps)

lemma f64_small: "\<bar>i\<bar> < 2 ^ 53 \<Longrightarrow> f64_of_int i = of_int i"
  by (simp add: f64_of_int_def f64_of_nat_def Let_def nat_less_iff sgn_mult_abs)

section \<open>Values\<close>

fun json_any :: "any \<Rightarrow> any" where
  "json_any (AInt i) = AFloat (f64_of_int i)"
| "json_any (AFloats m) = AMap (map (\<lambda>(k, f). (k, AFloat f)) m)"
| "json_any (AMap m) = AMap (map (\<lambda>(k, v). (k, json_any v)) m)"
| "json_any (ASlice vs) = ASlice (map (map_option json_any) vs)"
| "json_any (AStrs ss) = ASlice (map (\<lambda>s. Some (AStr s)) ss)"
| "json_any v = v"

definition json_map :: "(string, any) gomap \<Rightarrow> (string, any) gomap" where
  "json_map m = map (\<lambda>(k, v). (k, json_any v)) m"

text \<open>A value that has been decoded once comes back as it is.\<close>

lemma json_any_idem [simp]: "json_any (json_any v) = json_any v"
proof (induction v rule: json_any.induct)
  case (4 vs)
  then show ?case by (auto simp: option.map_comp comp_def intro!: option.map_cong)
qed (auto simp: comp_def)

lemma json_map_idem [simp]: "json_map (json_map m) = json_map m"
  by (simp add: json_map_def comp_def case_prod_unfold)

text \<open>The values that come back as they were.\<close>

fun json_plain :: "any \<Rightarrow> bool" where
  "json_plain (AInt i) \<longleftrightarrow> False"
| "json_plain (AFloats m) \<longleftrightarrow> False"
| "json_plain (AStrs ss) \<longleftrightarrow> False"
| "json_plain (AMap m) \<longleftrightarrow> (\<forall>(k, v) \<in> set m. json_plain v)"
| "json_plain (ASlice vs) \<longleftrightarrow> (\<forall>v \<in> set vs. case v of None \<Rightarrow> True | Some v \<Rightarrow> json_plain v)"
| "json_plain v \<longleftrightarrow> True"

lemma map_fixes: "map f xs = xs \<longleftrightarrow> (\<forall>x \<in> set xs. f x = x)"
  by (induction xs) auto

lemma json_any_plain: "json_any v = v \<longleftrightarrow> json_plain v"
proof (induction v rule: json_any.induct)
  case (3 m)
  have "json_any (AMap m) = AMap m \<longleftrightarrow> (\<forall>p \<in> set m. json_any (snd p) = snd p)"
    by (simp add: map_fixes case_prod_unfold prod_eq_iff)
  also have "\<dots> \<longleftrightarrow> (\<forall>p \<in> set m. json_plain (snd p))" using 3[OF _ prod.collapse] by blast
  finally show ?case by (simp add: case_prod_unfold)
next
  case (4 vs)
  have "json_any (ASlice vs) = ASlice vs \<longleftrightarrow> (\<forall>v \<in> set vs. map_option json_any v = v)"
    by (simp add: map_fixes)
  moreover have "map_option json_any v = v \<longleftrightarrow> (case v of None \<Rightarrow> True | Some v \<Rightarrow> json_plain v)" if "v \<in> set vs" for v
    using 4[OF that] by (cases v) auto
  ultimately show ?case by simp
qed simp_all

lemma json_map_plain: "json_map m = m \<longleftrightarrow> (\<forall>(k, v) \<in> set m. json_plain v)"
  by (simp add: json_map_def map_fixes case_prod_unfold prod_eq_iff json_any_plain)

end
