(* ===== verification/Microtask.thy ===== *)
theory Microtask
  imports GoJSON "HOL-Library.Word"
begin

text \<open>
  The microtask manager, \<^verbatim>\<open>src/internal/microtasking/microtask.go\<close>: DAGs of slices of a job,
  workers with a channel each, the internal queue, the dispatcher, retries, aggregation, the event
  log and the persisted snapshot.

  A \<open>MicroTask\<close> is shared by pointer between its DAG, the queues and the worker that runs it, and
  so are DAGs and channels: the state keeps a heap of each, and a pointer is an index into it. A
  \<open>go\<close> statement adds a goroutine to the state, which runs later, as a step of its own; the
  dispatcher and the goroutine of each worker handler are small state machines. A method runs to its
  end without interruption. Metrics, which are only written, are left out; a method reads the clock
  and draws a trace ID (\<open>uuid.New\<close>) once.
\<close>

section \<open>Models\<close>

record MicroTask =
  mt_ID :: string
  mt_ParentID :: string
  mt_Payload :: "(string, any) gomap"
  mt_Status :: string
  mt_AssignedTo :: string
  mt_Result :: "any option"
  mt_CreatedAt :: gotime
  mt_UpdatedAt :: gotime
  mt_Attempts :: int
  mt_MaxRetries :: int
  mt_Meta :: "(string, any) gomap"
  mt_Progress :: int
  mt_TraceID :: string
  mt_TTL :: "gotime option"

text \<open>The nodes of a DAG are pointers to tasks.\<close>

record TaskDAG =
  d_RootID :: string
  d_Nodes :: "(string, nat) gomap"
  d_Edges :: "(string, string list) gomap"

datatype EventType =
    EventTaskCreated | EventTaskDispatched | EventTaskStarted | EventTaskProgress | EventTaskDone
  | EventTaskFailed | EventWorkerReg | EventWorkerDereg | EventInfo | EventPersisted

record Event =
  e_Time :: gotime
  e_Type :: EventType
  e_TaskID :: string
  e_ParentID :: string
  e_WorkerID :: string
  e_Msg :: string
  e_TraceID :: string

definition event :: "gotime \<Rightarrow> EventType \<Rightarrow> Event" where
  "event now ty = \<lparr>e_Time = now, e_Type = ty, e_TaskID = '''', e_ParentID = '''', e_WorkerID = '''',
     e_Msg = '''', e_TraceID = ''''\<rparr>"

type_synonym Aggregator = "any option list \<Rightarrow> any option"

definition ConcatAggregator :: Aggregator where
  "ConcatAggregator results = Some (ASlice results)"

record PersistConfig =
  pc_Dir :: string
  pc_Interval :: duration

text \<open>A worker's channel holds pointers to tasks; a closed one can still be drained.\<close>

record worker_chan =
  wc_chan :: "nat chan"
  wc_closed :: bool

text \<open>The goroutines that the manager starts, besides the dispatcher and the worker handlers.\<close>

datatype goroutine =
    GoSubmit string nat   \<comment> \<open>submit a task of a job\<close>
  | GoRequeue nat         \<comment> \<open>submit a task again after a delay\<close>
  | GoAggregate nat       \<comment> \<open>aggregate the results of a DAG\<close>
  | GoPersist             \<comment> \<open>the loop that saves the state\<close>

text \<open>A worker handler's goroutine: waiting, holding a received task, running it, or gone.\<close>

datatype hstate = HWait | HGot nat | HRun nat | HExit

record handler =
  h_worker :: string
  h_chan :: nat
  h_state :: hstate

text \<open>
  The dispatcher: waiting for a task, about to choose a worker after some failed tries, waiting to
  send to a chosen worker, gone, or panicked with a task in its hands.
\<close>

datatype dispatcher = DIdle | DTry nat nat | DSend nat nat string nat | DExit | DPanic nat

record Manager =
  m_tasks :: "MicroTask list"
  m_dagHeap :: "TaskDAG list"
  m_chans :: "worker_chan list"
  m_dags :: "(string, nat) gomap"
  m_workers :: "(string, nat) gomap"
  m_bufs :: "(string, int) gomap"
  m_events :: "nat chan"
  m_elog :: "Event list"
  m_agg :: Aggregator
  m_steal :: bool
  m_stopped :: bool
  m_rr :: "64 word"
  m_persistCfg :: "PersistConfig option"
  m_persistCh :: "unit chan"
  m_auth :: "(string \<Rightarrow> string \<Rightarrow> bool) option"
  m_created :: int
  m_dispatched :: int
  m_completed :: int
  m_failed :: int
  m_workersCount :: int
  m_gos :: "goroutine list"
  m_handlers :: "handler list"
  m_disp :: dispatcher

definition NewMicroTaskManager :: "nat \<Rightarrow> Manager" where
  "NewMicroTaskManager queueSize =
     \<lparr>m_tasks = [], m_dagHeap = [], m_chans = [], m_dags = [], m_workers = [], m_bufs = [],
      m_events = make_chan queueSize, m_elog = [], m_agg = ConcatAggregator, m_steal = True,
      m_stopped = False, m_rr = 0, m_persistCfg = None, m_persistCh = make_chan 1, m_auth = None,
      m_created = 0, m_dispatched = 0, m_completed = 0, m_failed = 0, m_workersCount = 0,
      m_gos = [], m_handlers = [], m_disp = DIdle\<rparr>"

definition NewDefaultMicroTaskManager :: Manager where
  "NewDefaultMicroTaskManager = NewMicroTaskManager 1000"

text \<open>Writing through a pointer.\<close>

definition upd_task :: "nat \<Rightarrow> (MicroTask \<Rightarrow> MicroTask) \<Rightarrow> Manager \<Rightarrow> Manager" where
  "upd_task r f m = m\<lparr>m_tasks := (m_tasks m)[r := f (m_tasks m ! r)]\<rparr>"

definition upd_dag :: "nat \<Rightarrow> (TaskDAG \<Rightarrow> TaskDAG) \<Rightarrow> Manager \<Rightarrow> Manager" where
  "upd_dag d f m = m\<lparr>m_dagHeap := (m_dagHeap m)[d := f (m_dagHeap m ! d)]\<rparr>"

definition upd_chan :: "nat \<Rightarrow> (worker_chan \<Rightarrow> worker_chan) \<Rightarrow> Manager \<Rightarrow> Manager" where
  "upd_chan c f m = m\<lparr>m_chans := (m_chans m)[c := f (m_chans m ! c)]\<rparr>"

definition upd_handler :: "nat \<Rightarrow> hstate \<Rightarrow> Manager \<Rightarrow> Manager" where
  "upd_handler i h m = m\<lparr>m_handlers := (m_handlers m)[i := (m_handlers m ! i)\<lparr>h_state := h\<rparr>]\<rparr>"

section \<open>Event log\<close>

text \<open>The log keeps its most recent 100000 entries once it grows past 250000.\<close>

definition addEvent :: "string \<Rightarrow> Event \<Rightarrow> Manager \<Rightarrow> Manager" where
  "addEvent uuid e m =
     (let e = (if e_TraceID e = '''' then e\<lparr>e_TraceID := uuid\<rparr> else e);
          l = m_elog m @ [e]
      in m\<lparr>m_elog := if length l > 250000 then drop (length l - 100000) l else l\<rparr>)"

definition ListEvents :: "Manager \<Rightarrow> Event list" where
  "ListEvents m = m_elog m"

section \<open>Workers\<close>

text \<open>\<open>make\<close> with a negative size panics.\<close>

definition RegisterWorker :: "gotime \<Rightarrow> string \<Rightarrow> string \<Rightarrow> int \<Rightarrow> Manager \<Rightarrow> (nat, Manager) outcome" where
  "RegisterWorker now uuid workerID buf m =
     (if buf < 0 then Panicked m
      else
        let ch = length (m_chans m);
            m = m\<lparr>m_chans := m_chans m @ [\<lparr>wc_chan = make_chan (nat buf), wc_closed = False\<rparr>],
                  m_workers := put workerID ch (m_workers m), m_bufs := put workerID buf (m_bufs m),
                  m_workersCount := m_workersCount m + 1\<rparr>
        in Returned ch (addEvent uuid
             ((event now EventWorkerReg)\<lparr>e_WorkerID := workerID,
                e_Msg := ''registered (buf='' @ dec (nat buf) @ '')''\<rparr>) m))"

definition RegisterWorkerHandler ::
    "gotime \<Rightarrow> string \<Rightarrow> string \<Rightarrow> int \<Rightarrow> Manager \<Rightarrow> (unit, Manager) outcome" where
  "RegisterWorkerHandler now uuid workerID buf m =
     andThen (RegisterWorker now uuid workerID buf m) (\<lambda>ch m.
     Returned () (m\<lparr>m_handlers := m_handlers m @ [\<lparr>h_worker = workerID, h_chan = ch, h_state = HWait\<rparr>]\<rparr>))"

definition close_worker :: "string \<Rightarrow> nat \<Rightarrow> Manager \<Rightarrow> Manager" where
  "close_worker workerID ch m =
     (upd_chan ch (\<lambda>c. c\<lparr>wc_closed := True\<rparr>) m)
       \<lparr>m_workers := del workerID (m_workers m), m_bufs := del workerID (m_bufs m)\<rparr>"

definition DeregisterWorker :: "gotime \<Rightarrow> string \<Rightarrow> string \<Rightarrow> Manager \<Rightarrow> Manager" where
  "DeregisterWorker now uuid workerID m =
     (case get (m_workers m) workerID of
        None \<Rightarrow> m
      | Some ch \<Rightarrow>
          addEvent uuid ((event now EventWorkerDereg)\<lparr>e_WorkerID := workerID\<rparr>)
            (close_worker workerID ch m))"

section \<open>Persistence\<close>

definition forcePersist :: "Manager \<Rightarrow> Manager" where
  "forcePersist m =
     (case try_send () (m_persistCh m) of None \<Rightarrow> m | Some c \<Rightarrow> m\<lparr>m_persistCh := c\<rparr>)"

definition Stop :: "gotime \<Rightarrow> string \<Rightarrow> Manager \<Rightarrow> Manager" where
  "Stop now uuid m =
     (let m = forcePersist (m\<lparr>m_stopped := True\<rparr>)
      in foldl (\<lambda>m (i, ch).
           addEvent uuid ((event now EventWorkerDereg)\<lparr>e_WorkerID := i,
                e_Msg := ''manager stop closed worker''\<rparr>)
             (close_worker i ch m)) m (m_workers m))"

text \<open>A snapshot holds copies of the tasks, not pointers.\<close>

record dag_snapshot =
  ds_RootID :: string
  ds_Nodes :: "(string, MicroTask) gomap"
  ds_Edges :: "(string, string list) gomap"

record persistPayload =
  pp_DAGs :: "(string, dag_snapshot) gomap"
  pp_Events :: "Event list"

datatype mt_error =
    DirEmpty | IOError string | PersistenceNotEnabled | DagNotFound | TaskNotFound | ManagerStopped
  | ContextDone string

definition snapshot_dag :: "Manager \<Rightarrow> TaskDAG \<Rightarrow> dag_snapshot" where
  "snapshot_dag m d =
     \<lparr>ds_RootID = d_RootID d, ds_Nodes = map (\<lambda>(k, r). (k, m_tasks m ! r)) (d_Nodes d),
      ds_Edges = d_Edges d\<rparr>"

text \<open>
  A file holds what its JSON text decodes to: the values of type any in a task come back as their images under
  JSON. \<open>io\<close> is the error of the first encoding or file-system step that fails.
\<close>

definition json_task :: "MicroTask \<Rightarrow> MicroTask" where
  "json_task t =
     t\<lparr>mt_Payload := json_map (mt_Payload t), mt_Result := map_option json_any (mt_Result t),
       mt_Meta := json_map (mt_Meta t)\<rparr>"

definition json_snapshot :: "dag_snapshot \<Rightarrow> dag_snapshot" where
  "json_snapshot sn = sn\<lparr>ds_Nodes := map (\<lambda>(k, t). (k, json_task t)) (ds_Nodes sn)\<rparr>"

definition SaveState ::
    "gotime \<Rightarrow> string \<Rightarrow> string option \<Rightarrow> Manager \<Rightarrow> (mt_error + persistPayload) \<times> Manager" where
  "SaveState now uuid io m =
     (case m_persistCfg m of
        None \<Rightarrow> (Inl PersistenceNotEnabled, m)
      | Some cfg \<Rightarrow>
          if pc_Dir cfg = '''' then (Inl PersistenceNotEnabled, m)
          else
            let payload = \<lparr>pp_DAGs = map (\<lambda>(k, d). (k, json_snapshot (snapshot_dag m (m_dagHeap m ! d)))) (m_dags m),
                           pp_Events = m_elog m\<rparr>
            in case io of
                 Some e \<Rightarrow> (Inl (IOError e), m)
               | None \<Rightarrow> (Inr payload,
                    addEvent uuid ((event now EventPersisted)\<lparr>e_Msg := ''state persisted''\<rparr>) m))"

definition EnablePersistence ::
    "gotime \<Rightarrow> string \<Rightarrow> string option \<Rightarrow> string option \<Rightarrow> string \<Rightarrow> duration \<Rightarrow> Manager
      \<Rightarrow> (mt_error + persistPayload) \<times> Manager" where
  "EnablePersistence now uuid mkdir io dir interval m =
     (if dir = '''' then (Inl DirEmpty, m)
      else case mkdir of
        Some e \<Rightarrow> (Inl (IOError e), m)
      | None \<Rightarrow>
          let m = m\<lparr>m_persistCfg := Some \<lparr>pc_Dir = dir, pc_Interval = interval\<rparr>\<rparr>;
              m = (if interval > 0 then m\<lparr>m_gos := m_gos m @ [GoPersist]\<rparr> else m)
          in SaveState now uuid io m)"

text \<open>Every task and every DAG of the file becomes a new object.\<close>

fun load_dags ::
    "(string \<times> dag_snapshot) list \<Rightarrow> MicroTask list \<Rightarrow> TaskDAG list
      \<Rightarrow> (string \<times> nat) list \<times> MicroTask list \<times> TaskDAG list" where
  "load_dags [] ts ds = ([], ts, ds)"
| "load_dags ((k, sn) # rest) ts ds =
     (let d = \<lparr>d_RootID = ds_RootID sn,
               d_Nodes = zip (map fst (ds_Nodes sn)) [length ts ..< length ts + length (ds_Nodes sn)],
               d_Edges = ds_Edges sn\<rparr>;
          (dags, ts', ds') = load_dags rest (ts @ map snd (ds_Nodes sn)) (ds @ [d])
      in ((k, length ds) # dags, ts', ds'))"

definition LoadState ::
    "gotime \<Rightarrow> string \<Rightarrow> string \<Rightarrow> string + persistPayload \<Rightarrow> Manager \<Rightarrow> mt_error option \<times> Manager" where
  "LoadState now uuid dir file m =
     (if dir = '''' then (Some DirEmpty, m)
      else case file of
        Inl e \<Rightarrow> (Some (IOError e), m)
      | Inr payload \<Rightarrow>
          let (dags, ts, ds) = load_dags (pp_DAGs payload) (m_tasks m) (m_dagHeap m)
          in (None, addEvent uuid ((event now EventInfo)\<lparr>e_Msg := ''state loaded''\<rparr>)
                (m\<lparr>m_dags := dags, m_tasks := ts, m_dagHeap := ds, m_elog := pp_Events payload\<rparr>)))"

section \<open>DAGs\<close>

definition CreateDAG :: "string \<Rightarrow> Manager \<Rightarrow> nat \<times> Manager" where
  "CreateDAG rootID m =
     (let d = length (m_dagHeap m)
      in (d, m\<lparr>m_dagHeap := m_dagHeap m @ [\<lparr>d_RootID = rootID, d_Nodes = [], d_Edges = []\<rparr>],
               m_dags := put rootID d (m_dags m)\<rparr>))"

definition GetDAG :: "string \<Rightarrow> Manager \<Rightarrow> nat option" where
  "GetDAG rootID m = get (m_dags m) rootID"

definition DumpDAG :: "string \<Rightarrow> Manager \<Rightarrow> mt_error + dag_snapshot" where
  "DumpDAG rootID m =
     (case get (m_dags m) rootID of
        None \<Rightarrow> Inl DagNotFound
      | Some d \<Rightarrow> Inr (snapshot_dag m (m_dagHeap m ! d)))"

definition Snapshot :: "Manager \<Rightarrow> (string \<times> (mt_error + dag_snapshot)) list \<times> Event list" where
  "Snapshot m = (map (\<lambda>(k, d). (k, DumpDAG k m)) (m_dags m), ListEvents m)"

definition edges_of :: "TaskDAG \<Rightarrow> string \<Rightarrow> string list" where
  "edges_of d k = (case get (d_Edges d) k of None \<Rightarrow> [] | Some l \<Rightarrow> l)"

section \<open>Slicing, submission and progress\<close>

definition copyMap :: "('k, 'v) gomap \<Rightarrow> ('k, 'v) gomap" where
  "copyMap src = src"

text \<open>What the i-th round of the slicing loop reads: the clock, also in nanoseconds, and a UUID.\<close>

record slice_reading =
  sr_now :: gotime
  sr_nano :: nat
  sr_uuid :: string

definition slice_id :: "string \<Rightarrow> nat \<Rightarrow> nat \<Rightarrow> string" where
  "slice_id rootID nano i = rootID @ ''-mt-'' @ dec nano @ ''-'' @ dec i"

definition new_slice :: "string \<Rightarrow> (string, any) gomap \<Rightarrow> slice_reading \<Rightarrow> nat \<Rightarrow> MicroTask" where
  "new_slice rootID payload rd i =
     \<lparr>mt_ID = slice_id rootID (sr_nano rd) i, mt_ParentID = rootID, mt_Payload = copyMap payload,
      mt_Status = ''pending'', mt_AssignedTo = '''', mt_Result = None, mt_CreatedAt = sr_now rd,
      mt_UpdatedAt = sr_now rd, mt_Attempts = 0, mt_MaxRetries = 3, mt_Meta = [], mt_Progress = 0,
      mt_TraceID = sr_uuid rd, mt_TTL = None\<rparr>"

definition slice_one ::
    "string \<Rightarrow> (string, any) gomap \<Rightarrow> nat \<Rightarrow> (nat \<Rightarrow> slice_reading) \<Rightarrow> Manager \<Rightarrow> nat \<Rightarrow> Manager" where
  "slice_one rootID payload d rd m i =
     (let mt = new_slice rootID payload (rd i) i; r = length (m_tasks m);
          m = (upd_dag d (\<lambda>g. g\<lparr>d_Nodes := put (mt_ID mt) r (d_Nodes g),
                                d_Edges := put rootID (edges_of g rootID @ [mt_ID mt]) (d_Edges g)\<rparr>) m)
                \<lparr>m_tasks := m_tasks m @ [mt], m_created := m_created m + 1\<rparr>;
          m = addEvent (sr_uuid (rd i))
                ((event (sr_now (rd i)) EventTaskCreated)\<lparr>e_TaskID := mt_ID mt, e_ParentID := rootID,
                   e_TraceID := mt_TraceID mt, e_Msg := ''task created and queued''\<rparr>) m
      in m\<lparr>m_gos := m_gos m @ [GoSubmit rootID r]\<rparr>)"

definition num_slices :: "int \<Rightarrow> nat" where
  "num_slices numSlices = (if numSlices \<le> 0 then 1 else nat numSlices)"

text \<open>The slices of a call have consecutive addresses.\<close>

definition SliceTask ::
    "string \<Rightarrow> (string, any) gomap \<Rightarrow> int \<Rightarrow> (nat \<Rightarrow> slice_reading) \<Rightarrow> Manager \<Rightarrow> nat list \<times> Manager" where
  "SliceTask rootID payload numSlices rd m =
     (let n = num_slices numSlices;
          (d, m) = (case get (m_dags m) rootID of Some d \<Rightarrow> (d, m) | None \<Rightarrow> CreateDAG rootID m);
          m' = foldl (slice_one rootID payload d rd) m [0..<n]
      in ([length (m_tasks m) ..< length (m_tasks m) + n], forcePersist m'))"

text \<open>
  The arms of the select in \<open>SubmitTaskCtx\<close>; several may be ready. A result of \<open>None\<close> means that the
  arm is not ready, so the call waits on it. Without a buffer the task is handed to the waiting
  dispatcher.
\<close>

datatype arm = ArmStopped | ArmCtx | ArmSend

definition send_events :: "nat \<Rightarrow> Manager \<Rightarrow> Manager option" where
  "send_events r m =
     (case try_send r (m_events m) of
        Some c \<Rightarrow> Some (m\<lparr>m_events := c\<rparr>)
      | None \<Rightarrow> if ch_cap (m_events m) = 0 \<and> m_disp m = DIdle then Some (m\<lparr>m_disp := DTry r 0\<rparr>) else None)"

definition SubmitTaskCtx ::
    "gotime \<Rightarrow> string \<Rightarrow> arm \<Rightarrow> string option \<Rightarrow> string \<Rightarrow> nat \<Rightarrow> Manager \<Rightarrow> (mt_error option \<times> Manager) option" where
  "SubmitTaskCtx now uuid arm ctx rootID r m =
     (case arm of
        ArmStopped \<Rightarrow> if m_stopped m then Some (Some ManagerStopped, m) else None
      | ArmCtx \<Rightarrow> (case ctx of None \<Rightarrow> None | Some e \<Rightarrow> Some (Some (ContextDone e), m))
      | ArmSend \<Rightarrow>
          (case send_events r m of
             None \<Rightarrow> None
           | Some m \<Rightarrow>
               let t = m_tasks m ! r
               in Some (None, addEvent uuid
                    ((event now EventTaskDispatched)\<lparr>e_TaskID := mt_ID t, e_ParentID := rootID,
                       e_TraceID := mt_TraceID t\<rparr>)
                    (m\<lparr>m_dispatched := m_dispatched m + 1\<rparr>))))"

definition SubmitTask :: "gotime \<Rightarrow> string \<Rightarrow> arm \<Rightarrow> string \<Rightarrow> nat \<Rightarrow> Manager \<Rightarrow> Manager option" where
  "SubmitTask now uuid arm rootID r m =
     map_option snd
       (SubmitTaskCtx now uuid arm (if m_stopped m then Some ''context canceled'' else None) rootID r m)"

definition clamp_progress :: "int \<Rightarrow> int" where
  "clamp_progress p =
     (let p = (if p < 0 then 0 else p) in if p > 100 then 100 else p)"

definition UpdateProgress ::
    "gotime \<Rightarrow> string \<Rightarrow> string \<Rightarrow> string \<Rightarrow> int \<Rightarrow> Manager \<Rightarrow> mt_error option \<times> Manager" where
  "UpdateProgress now uuid rootID taskID progress m =
     (let progress = clamp_progress progress
      in case get (m_dags m) rootID of
           None \<Rightarrow> (Some DagNotFound, m)
         | Some d \<Rightarrow>
             (case get (d_Nodes (m_dagHeap m ! d)) taskID of
                None \<Rightarrow> (Some TaskNotFound, m)
              | Some r \<Rightarrow>
                  (None, addEvent uuid
                     ((event now EventTaskProgress)\<lparr>e_TaskID := taskID, e_ParentID := rootID,
                        e_TraceID := mt_TraceID (m_tasks m ! r),
                        e_Msg := ''progress='' @ dec_int progress\<rparr>)
                     (upd_task r (\<lambda>t. t\<lparr>mt_Progress := progress, mt_UpdatedAt := now\<rparr>) m))))"

section \<open>Reports and aggregation\<close>

text \<open>An edge to a task that the DAG does not hold counts as done.\<close>

definition all_done :: "Manager \<Rightarrow> TaskDAG \<Rightarrow> string list \<Rightarrow> bool" where
  "all_done m g children =
     list_all (\<lambda>c. case get (d_Nodes g) c of
                     None \<Rightarrow> True | Some r \<Rightarrow> mt_Status (m_tasks m ! r) = ''done'') children"

text \<open>The part of \<open>ReportResult\<close> that settles the task; the flag says that it will be retried.\<close>

definition settle_task ::
    "gotime \<Rightarrow> string \<Rightarrow> string \<Rightarrow> string \<Rightarrow> nat \<Rightarrow> any option \<Rightarrow> bool \<Rightarrow> Manager \<Rightarrow> bool \<times> Manager" where
  "settle_task now uuid rootID taskID r result success m =
     (let ev = (event now EventTaskFailed)\<lparr>e_TaskID := taskID, e_ParentID := rootID,
                 e_TraceID := mt_TraceID (m_tasks m ! r)\<rparr>
      in if success then
           (False, addEvent uuid (ev\<lparr>e_Type := EventTaskDone\<rparr>)
              ((upd_task r (\<lambda>t. t\<lparr>mt_Result := result, mt_Status := ''done'', mt_UpdatedAt := now\<rparr>) m)
                 \<lparr>m_completed := m_completed m + 1\<rparr>))
         else
           let m = upd_task r (\<lambda>t. t\<lparr>mt_Attempts := mt_Attempts t + 1\<rparr>) m; t = m_tasks m ! r
           in if mt_Attempts t \<le> mt_MaxRetries t then
                (True, addEvent uuid (ev\<lparr>e_Msg := ''will retry''\<rparr>)
                   ((upd_task r (\<lambda>t. t\<lparr>mt_Status := ''pending'', mt_UpdatedAt := now\<rparr>) m)
                      \<lparr>m_gos := m_gos m @ [GoSubmit rootID r]\<rparr>))
              else
                (False, addEvent uuid (ev\<lparr>e_Msg := ''permanently failed''\<rparr>)
                   ((upd_task r (\<lambda>t. t\<lparr>mt_Status := ''failed'', mt_UpdatedAt := now\<rparr>) m)
                      \<lparr>m_failed := m_failed m + 1\<rparr>)))"

definition ReportResult ::
    "gotime \<Rightarrow> string \<Rightarrow> string \<Rightarrow> string \<Rightarrow> any option \<Rightarrow> bool \<Rightarrow> Manager \<Rightarrow> mt_error option \<times> Manager" where
  "ReportResult now uuid rootID taskID result success m =
     (case get (m_dags m) rootID of
        None \<Rightarrow> (Some DagNotFound, m)
      | Some d \<Rightarrow>
          (case get (d_Nodes (m_dagHeap m ! d)) taskID of
             None \<Rightarrow> (Some TaskNotFound, m)
           | Some r \<Rightarrow>
               let (retry, m) = settle_task now uuid rootID taskID r result success m
               in if retry then (None, m)
                  else let g = m_dagHeap m ! d
                  in if all_done m g (edges_of g rootID)
                     then (None, forcePersist (m\<lparr>m_gos := m_gos m @ [GoAggregate d]\<rparr>))
                     else (None, m)))"

definition done_results :: "Manager \<Rightarrow> TaskDAG \<Rightarrow> string list \<Rightarrow> any option list" where
  "done_results m g children =
     concat (map (\<lambda>c. case get (d_Nodes g) c of
        None \<Rightarrow> []
      | Some r \<Rightarrow> if mt_Status (m_tasks m ! r) = ''done'' then [mt_Result (m_tasks m ! r)] else []) children)"

definition aggregateResults :: "gotime \<Rightarrow> string \<Rightarrow> nat \<Rightarrow> Manager \<Rightarrow> Manager" where
  "aggregateResults now uuid d m =
     (let g = m_dagHeap m ! d; root = d_RootID g;
          out = m_agg m (done_results m g (edges_of g root));
          m = (case get (d_Nodes g) root of
                 Some r \<Rightarrow> upd_task r (\<lambda>t. t\<lparr>mt_Result := out, mt_Status := ''done'', mt_UpdatedAt := now\<rparr>) m
               | None \<Rightarrow>
                   (upd_dag d (\<lambda>g. g\<lparr>d_Nodes := put root (length (m_tasks m)) (d_Nodes g)\<rparr>) m)
                     \<lparr>m_tasks := m_tasks m @
                        [\<lparr>mt_ID = root, mt_ParentID = '''', mt_Payload = [], mt_Status = ''done'',
                          mt_AssignedTo = '''', mt_Result = out, mt_CreatedAt = 0, mt_UpdatedAt = now,
                          mt_Attempts = 0, mt_MaxRetries = 0, mt_Meta = [], mt_Progress = 0,
                          mt_TraceID = '''', mt_TTL = None\<rparr>]\<rparr>)
      in addEvent uuid ((event now EventInfo)\<lparr>e_ParentID := root, e_Msg := ''aggregation completed''\<rparr>) m)"

definition SetAggregator :: "Aggregator option \<Rightarrow> Manager \<Rightarrow> Manager" where
  "SetAggregator a m = m\<lparr>m_agg := (case a of None \<Rightarrow> ConcatAggregator | Some a \<Rightarrow> a)\<rparr>"

definition RegisterAuthChecker :: "(string \<Rightarrow> string \<Rightarrow> bool) option \<Rightarrow> Manager \<Rightarrow> Manager" where
  "RegisterAuthChecker a m = m\<lparr>m_auth := a\<rparr>"

section \<open>Dispatcher\<close>

definition worker_score :: "Manager \<Rightarrow> string \<Rightarrow> nat \<Rightarrow> float64" where
  "worker_score m i ch =
     (let capacity = get0 (m_bufs m) i; capacity = (if capacity \<le> 0 then 1 else capacity)
      in of_nat (length (ch_buf (wc_chan (m_chans m ! ch)))) / of_int capacity)"

definition least_loaded :: "Manager \<Rightarrow> (string \<times> nat) option \<times> float64" where
  "least_loaded m =
     foldl (\<lambda>(best, bestScore) (i, ch).
         let score = worker_score m i ch
         in if score < bestScore then (Some (i, ch), score) else (best, bestScore))
       (None, 2) (m_workers m)"

definition chooseWorker :: "Manager \<Rightarrow> (string \<times> nat) option \<times> Manager" where
  "chooseWorker m =
     (if m_workers m = [] then (None, m)
      else
        let (best, bestScore) = least_loaded m
        in if best \<noteq> None \<and> bestScore < 0.95 then (best, m)
           else
             let rr = m_rr m + 1; idx = unat (rr mod of_nat (length (m_workers m)))
             in (Some (m_workers m ! idx), m\<lparr>m_rr := rr\<rparr>))"

text \<open>
  A send to a worker's channel. Sending on a closed channel panics; without a buffer the task is
  handed to a handler that waits on the channel.
\<close>

datatype delivery = Sent Manager | NotReady | SendPanics

definition deliver :: "nat \<Rightarrow> nat \<Rightarrow> Manager \<Rightarrow> delivery" where
  "deliver r ch m =
     (let c = m_chans m ! ch
      in if wc_closed c then SendPanics
         else case try_send r (wc_chan c) of
           Some q \<Rightarrow> Sent (upd_chan ch (\<lambda>c. c\<lparr>wc_chan := q\<rparr>) m)
         | None \<Rightarrow>
             if ch_cap (wc_chan c) \<noteq> 0 then NotReady
             else case filter (\<lambda>i. h_chan (m_handlers m ! i) = ch \<and> h_state (m_handlers m ! i) = HWait)
                         [0..<length (m_handlers m)] of
                    [] \<Rightarrow> NotReady
                  | i # _ \<Rightarrow> Sent (upd_handler i (HGot r) m))"

definition dispatched_event :: "gotime \<Rightarrow> MicroTask \<Rightarrow> string \<Rightarrow> string \<Rightarrow> Event" where
  "dispatched_event now t workerID msg =
     (event now EventTaskDispatched)\<lparr>e_TaskID := mt_ID t, e_WorkerID := workerID,
        e_TraceID := mt_TraceID t, e_Msg := msg\<rparr>"

fun steal_loop :: "gotime \<Rightarrow> string \<Rightarrow> nat \<Rightarrow> (string \<times> nat) list \<Rightarrow> Manager \<Rightarrow> delivery" where
  "steal_loop now uuid r [] m = NotReady"
| "steal_loop now uuid r ((i, ch) # ws) m =
     (case deliver r ch m of
        SendPanics \<Rightarrow> SendPanics
      | Sent m' \<Rightarrow> Sent (addEvent uuid (dispatched_event now (m_tasks m ! r) i ''stolen/forced dispatch'') m')
      | NotReady \<Rightarrow> steal_loop now uuid r ws m)"

definition give_up :: "gotime \<Rightarrow> string \<Rightarrow> nat \<Rightarrow> Manager \<Rightarrow> Manager" where
  "give_up now uuid r m =
     (case (if m_steal m then steal_loop now uuid r (m_workers m) m else NotReady) of
        Sent m \<Rightarrow> m\<lparr>m_disp := DIdle\<rparr>
      | SendPanics \<Rightarrow> m\<lparr>m_disp := DPanic r\<rparr>
      | NotReady \<Rightarrow>
          addEvent uuid ((event now EventInfo)\<lparr>e_TaskID := mt_ID (m_tasks m ! r),
              e_Msg := ''requeued after dispatch attempts'', e_TraceID := mt_TraceID (m_tasks m ! r)\<rparr>)
            (m\<lparr>m_gos := m_gos m @ [GoRequeue r], m_disp := DIdle\<rparr>))"

text \<open>The moves of the dispatcher; \<open>None\<close> means that the move is not possible in the state.\<close>

definition disp_receive :: "Manager \<Rightarrow> Manager option" where
  "disp_receive m =
     (if m_disp m = DIdle then
        (case try_recv (m_events m) of
           None \<Rightarrow> None | Some (r, c) \<Rightarrow> Some (m\<lparr>m_events := c, m_disp := DTry r 0\<rparr>))
      else None)"

definition disp_try :: "gotime \<Rightarrow> string \<Rightarrow> Manager \<Rightarrow> Manager option" where
  "disp_try now uuid m =
     (case m_disp m of
        DTry r n \<Rightarrow>
          Some (if n < 3 then
                  (case chooseWorker m of
                     (None, m) \<Rightarrow> m\<lparr>m_disp := DTry r (n + 1)\<rparr>
                   | (Some (i, ch), m) \<Rightarrow> m\<lparr>m_disp := DSend r n i ch\<rparr>)
                else give_up now uuid r m)
      | _ \<Rightarrow> None)"

definition disp_send :: "gotime \<Rightarrow> string \<Rightarrow> Manager \<Rightarrow> Manager option" where
  "disp_send now uuid m =
     (case m_disp m of
        DSend r n i ch \<Rightarrow>
          (case deliver r ch m of
             Sent m' \<Rightarrow> Some (addEvent uuid (dispatched_event now (m_tasks m ! r) i '''') (m'\<lparr>m_disp := DIdle\<rparr>))
           | SendPanics \<Rightarrow> Some (m\<lparr>m_disp := DPanic r\<rparr>)
           | NotReady \<Rightarrow> None)
      | _ \<Rightarrow> None)"

definition disp_timeout :: "Manager \<Rightarrow> Manager option" where
  "disp_timeout m =
     (case m_disp m of DSend r n i ch \<Rightarrow> Some (m\<lparr>m_disp := DTry r (n + 1)\<rparr>) | _ \<Rightarrow> None)"

text \<open>A cancelled context is noticed while idle, while waiting for a worker and while sending.\<close>

definition disp_stop :: "Manager \<Rightarrow> Manager option" where
  "disp_stop m =
     (if m_stopped m \<and>
         (case m_disp m of DIdle \<Rightarrow> True | DSend r n i ch \<Rightarrow> True
          | DTry r n \<Rightarrow> n < 3 \<and> m_workers m = [] | _ \<Rightarrow> False)
      then Some (m\<lparr>m_disp := DExit\<rparr>) else None)"

section \<open>Worker handlers\<close>

definition handler_receive :: "nat \<Rightarrow> Manager \<Rightarrow> Manager option" where
  "handler_receive i m =
     (let h = m_handlers m ! i; c = m_chans m ! h_chan h
      in if h_state h \<noteq> HWait then None
         else case try_recv (wc_chan c) of
           Some (r, q) \<Rightarrow> Some (upd_handler i (HGot r) (upd_chan (h_chan h) (\<lambda>c. c\<lparr>wc_chan := q\<rparr>) m))
         | None \<Rightarrow> if wc_closed c then Some (upd_handler i HExit m) else None)"

definition handler_stop :: "nat \<Rightarrow> Manager \<Rightarrow> Manager option" where
  "handler_stop i m =
     (if m_stopped m \<and> h_state (m_handlers m ! i) = HWait then Some (upd_handler i HExit m) else None)"

definition handler_start :: "gotime \<Rightarrow> string \<Rightarrow> nat \<Rightarrow> Manager \<Rightarrow> Manager option" where
  "handler_start now uuid i m =
     (case h_state (m_handlers m ! i) of
        HGot r \<Rightarrow>
          let wid = h_worker (m_handlers m ! i);
              m = upd_task r (\<lambda>t. t\<lparr>mt_AssignedTo := wid, mt_Status := ''running'', mt_UpdatedAt := now,
                    mt_TraceID := if mt_TraceID t = '''' then uuid else mt_TraceID t\<rparr>) m;
              t = m_tasks m ! r
          in Some (addEvent uuid ((event now EventTaskStarted)\<lparr>e_TaskID := mt_ID t, e_WorkerID := wid,
                     e_TraceID := mt_TraceID t\<rparr>) (upd_handler i (HRun r) m))
      | _ \<Rightarrow> None)"

text \<open>
  The end of a run: the handler function has made \<open>t'\<close> of the task and returned the error, if any.
  The counters are bumped here and, for the same task, in \<open>ReportResult\<close>.
\<close>

definition handler_finish ::
    "gotime \<Rightarrow> string \<Rightarrow> nat \<Rightarrow> MicroTask \<Rightarrow> string option \<Rightarrow> Manager \<Rightarrow> Manager option" where
  "handler_finish now uuid i t' err m =
     (case h_state (m_handlers m ! i) of
        HRun r \<Rightarrow>
          let wid = h_worker (m_handlers m ! i);
              m = upd_handler i HWait (upd_task r (\<lambda>_. t') m);
              ev = (event now EventTaskDone)\<lparr>e_TaskID := mt_ID t', e_WorkerID := wid, e_TraceID := mt_TraceID t'\<rparr>
          in Some (case err of
               Some e \<Rightarrow>
                 snd (ReportResult now uuid (mt_ParentID t') (mt_ID t') None False
                   ((addEvent uuid (ev\<lparr>e_Type := EventTaskFailed, e_Msg := e\<rparr>) m)\<lparr>m_failed := m_failed m + 1\<rparr>))
             | None \<Rightarrow>
                 snd (ReportResult now uuid (mt_ParentID t') (mt_ID t') (mt_Result t') True
                   ((addEvent uuid ev m)\<lparr>m_completed := m_completed m + 1\<rparr>)))
      | _ \<Rightarrow> None)"

section \<open>The other goroutines\<close>

text \<open>
  One move of a goroutine by an arm of its select: \<open>ArmSend\<close> also stands for the timer and
  \<open>ArmCtx\<close> for the request to persist. A goroutine that has run leaves the list.
\<close>

definition go_step ::
    "gotime \<Rightarrow> string \<Rightarrow> arm \<Rightarrow> string option \<Rightarrow> goroutine \<Rightarrow> Manager \<Rightarrow> Manager option" where
  "go_step now uuid arm io g m =
     (if g \<notin> set (m_gos m) then None
      else
        let rest = m\<lparr>m_gos := remove1 g (m_gos m)\<rparr>
        in case g of
             GoSubmit rootID r \<Rightarrow> SubmitTask now uuid arm rootID r rest
           | GoRequeue r \<Rightarrow>
               (if arm = ArmSend
                then Some (rest\<lparr>m_gos := m_gos rest @ [GoSubmit (mt_ParentID (m_tasks m ! r)) r]\<rparr>)
                else if m_stopped m then Some rest else None)
           | GoAggregate d \<Rightarrow> Some (aggregateResults now uuid d rest)
           | GoPersist \<Rightarrow>
               (case arm of
                  ArmSend \<Rightarrow> Some (snd (SaveState now uuid io m))
                | ArmCtx \<Rightarrow>
                    (case try_recv (m_persistCh m) of
                       None \<Rightarrow> None
                     | Some (_, c) \<Rightarrow> Some (snd (SaveState now uuid io (m\<lparr>m_persistCh := c\<rparr>))))
                | ArmStopped \<Rightarrow> if m_stopped m then Some rest else None))"

end
