(* ===== verification/MicrotaskProps.thy ===== *)
theory MicrotaskProps
  imports Microtask
begin

text \<open>
  Correctness of the microtask manager: where a task is at every moment, retries, aggregation, the
  choice of a worker and the event log.
\<close>

section \<open>Bags of pointers\<close>

text \<open>All pointers that the elements of a list hold.\<close>

definition held :: "('a \<Rightarrow> nat list) \<Rightarrow> 'a list \<Rightarrow> nat multiset" where
  "held f xs = mset (concat (map f xs))"

lemma held_Nil [simp]: "held f [] = {#}"
  by (simp add: held_def)

lemma held_snoc [simp]: "held f (xs @ [x]) = held f xs + mset (f x)"
  by (simp add: held_def)

lemma held_Cons: "held f (x # xs) = mset (f x) + held f xs"
  by (simp add: held_def)

lemma held_remove1: "x \<in> set xs \<Longrightarrow> held f xs = mset (f x) + held f (remove1 x xs)"
  by (induction xs) (auto simp: held_Cons add.left_commute)

lemma held_update:
  "i < length xs \<Longrightarrow> held f (xs[i := y]) + mset (f (xs ! i)) = held f xs + mset (f y)"
  by (induction xs arbitrary: i) (auto simp: held_Cons nth_Cons' split: nat.split)

text \<open>Replacing an element by one that holds \<open>r\<close> in addition, or no more, or the same.\<close>

lemma held_gain:
  "i < length xs \<Longrightarrow> mset (f y) = mset (f (xs ! i)) + add_mset r {#} \<Longrightarrow>
   held f (xs[i := y]) = add_mset r (held f xs)"
  using held_update[of i xs f y] by simp

lemma held_loss:
  "i < length xs \<Longrightarrow> mset (f (xs ! i)) = mset (f y) + add_mset r {#} \<Longrightarrow>
   held f xs = add_mset r (held f (xs[i := y]))"
  using held_update[of i xs f y] by simp

lemma held_same:
  "mset (f y) = mset (f (xs ! i)) \<Longrightarrow> held f (xs[i := y]) = held f xs"
  using held_update[of i xs f y] by (cases "i < length xs") (auto simp: list_update_beyond)

section \<open>Where a task is\<close>

fun go_holds :: "goroutine \<Rightarrow> nat list" where
  "go_holds (GoSubmit rootID r) = [r]"
| "go_holds (GoRequeue r) = [r]"
| "go_holds _ = []"

fun disp_holds :: "dispatcher \<Rightarrow> nat list" where
  "disp_holds (DTry r n) = [r]"
| "disp_holds (DSend r n i ch) = [r]"
| "disp_holds (DPanic r) = [r]"
| "disp_holds _ = []"

definition got :: "handler \<Rightarrow> nat list" where
  "got h = (case h_state h of HGot r \<Rightarrow> [r] | _ \<Rightarrow> [])"

definition runs :: "handler \<Rightarrow> nat list" where
  "runs h = (case h_state h of HRun r \<Rightarrow> [r] | _ \<Rightarrow> [])"

definition chan_holds :: "worker_chan \<Rightarrow> nat list" where
  "chan_holds c = ch_buf (wc_chan c)"

text \<open>The tasks on their way to a worker, and those that a worker runs.\<close>

definition waiting :: "Manager \<Rightarrow> nat multiset" where
  "waiting m =
     mset (ch_buf (m_events m)) + held chan_holds (m_chans m) + held got (m_handlers m) +
     held go_holds (m_gos m) + mset (disp_holds (m_disp m))"

definition executing :: "Manager \<Rightarrow> nat multiset" where
  "executing m = held runs (m_handlers m)"

section \<open>The managed system\<close>

text \<open>
  The steps of a manager whose tasks come from \<open>SliceTask\<close> and are run by registered handlers; it may be
  stopped at any time, and goes on with what a stopped manager still does. A handler function may
  change the task, but not its identity, its status or its retry counters. The slice IDs are new in the
  job's DAG, as they are when the clock moves between two calls. A manager into which a state is loaded, a DAG
  replaced by a new one, and clients that report results or submit tasks themselves, past the handlers, are not in
  the relation: each of them breaks the bookkeeping of tasks, as the findings say.
\<close>

definition fresh_slices :: "string \<Rightarrow> int \<Rightarrow> (nat \<Rightarrow> slice_reading) \<Rightarrow> Manager \<Rightarrow> bool" where
  "fresh_slices rootID numSlices rd m \<longleftrightarrow>
     (\<forall>d. get (m_dags m) rootID = Some d \<longrightarrow>
       (\<forall>i < num_slices numSlices. get (d_Nodes (m_dagHeap m ! d)) (slice_id rootID (sr_nano (rd i)) i) = None))"

definition handler_effect :: "MicroTask \<Rightarrow> MicroTask \<Rightarrow> bool" where
  "handler_effect t t' \<longleftrightarrow>
     mt_ID t' = mt_ID t \<and> mt_ParentID t' = mt_ParentID t \<and> mt_Status t' = mt_Status t \<and>
     mt_Attempts t' = mt_Attempts t \<and> mt_MaxRetries t' = mt_MaxRetries t"

inductive mt_step :: "Manager \<Rightarrow> Manager \<Rightarrow> bool" where
  st_slice: "fresh_slices rootID n rd m \<Longrightarrow> mt_step m (snd (SliceTask rootID payload n rd m))"
| st_create: "get (m_dags m) rootID = None \<Longrightarrow> mt_step m (snd (CreateDAG rootID m))"
| st_progress: "mt_step m (snd (UpdateProgress now uuid rootID taskID p m))"
| st_register: "RegisterWorkerHandler now uuid wid buf m = Returned () m' \<Longrightarrow> mt_step m m'"
| st_deregister: "mt_step m (DeregisterWorker now uuid wid m)"
| st_aggregator: "mt_step m (SetAggregator a m)"
| st_persist: "mt_step m (snd (EnablePersistence now uuid mkdir io dir interval m))"
| st_save: "mt_step m (snd (SaveState now uuid io m))"
| st_go: "go_step now uuid arm io g m = Some m' \<Longrightarrow> mt_step m m'"
| st_receive: "disp_receive m = Some m' \<Longrightarrow> mt_step m m'"
| st_try: "disp_try now uuid m = Some m' \<Longrightarrow> mt_step m m'"
| st_send: "disp_send now uuid m = Some m' \<Longrightarrow> mt_step m m'"
| st_timeout: "disp_timeout m = Some m' \<Longrightarrow> mt_step m m'"
| st_take: "i < length (m_handlers m) \<Longrightarrow> handler_receive i m = Some m' \<Longrightarrow> mt_step m m'"
| st_start: "i < length (m_handlers m) \<Longrightarrow> handler_start now uuid i m = Some m' \<Longrightarrow> mt_step m m'"
| st_finish: "i < length (m_handlers m) \<Longrightarrow> h_state (m_handlers m ! i) = HRun r \<Longrightarrow>
    handler_effect (m_tasks m ! r) t' \<Longrightarrow> handler_finish now uuid i t' err m = Some m' \<Longrightarrow> mt_step m m'"
| st_stop: "mt_step m (Stop now uuid m)"
| st_disp_stop: "disp_stop m = Some m' \<Longrightarrow> mt_step m m'"
| st_handler_stop: "i < length (m_handlers m) \<Longrightarrow> handler_stop i m = Some m' \<Longrightarrow> mt_step m m'"

inductive mt_reach :: "nat \<Rightarrow> Manager \<Rightarrow> bool" for q where
  reach_new: "mt_reach q (NewMicroTaskManager q)"
| reach_step: "mt_reach q m \<Longrightarrow> mt_step m m' \<Longrightarrow> mt_reach q m'"

section \<open>The invariant\<close>

definition live :: "MicroTask \<Rightarrow> bool" where
  "live t \<longleftrightarrow> mt_Status t = ''pending'' \<or> mt_Status t = ''running''"

text \<open>
  A pending task is on its way in exactly one place, or in at most one once the manager has been stopped; a
  running one is run by exactly one handler, and no place holds any other task.
\<close>

definition located :: "bool \<Rightarrow> MicroTask list \<Rightarrow> nat multiset \<Rightarrow> nat multiset \<Rightarrow> bool" where
  "located st ts w e \<longleftrightarrow>
     (\<forall>r. count w r \<le> (if r < length ts \<and> mt_Status (ts ! r) = ''pending'' then 1 else 0) \<and>
          (\<not> st \<longrightarrow> count w r = (if r < length ts \<and> mt_Status (ts ! r) = ''pending'' then 1 else 0)) \<and>
          count e r = (if r < length ts \<and> mt_Status (ts ! r) = ''running'' then 1 else 0))"

definition task_ok :: "MicroTask \<Rightarrow> bool" where
  "task_ok t \<longleftrightarrow>
     (live t \<or> mt_Status t = ''done'' \<or> mt_Status t = ''failed'') \<and> 0 \<le> mt_Attempts t \<and>
     0 \<le> mt_MaxRetries t \<and> mt_Attempts t \<le> mt_MaxRetries t + 1 \<and>
     (live t \<longrightarrow> mt_Attempts t \<le> mt_MaxRetries t) \<and>
     (mt_ID t \<noteq> mt_ParentID t \<or> mt_Status t = ''done'')"

definition store_ok :: "MicroTask list \<Rightarrow> TaskDAG list \<Rightarrow> (string, nat) gomap \<Rightarrow> bool" where
  "store_ok ts ds dags \<longleftrightarrow>
     (\<forall>k d. get dags k = Some d \<longrightarrow> d < length ds \<and> d_RootID (ds ! d) = k) \<and>
     (\<forall>d < length ds. \<forall>i r. get (d_Nodes (ds ! d)) i = Some r \<longrightarrow>
        r < length ts \<and> mt_ID (ts ! r) = i \<and>
        (mt_ParentID (ts ! r) = d_RootID (ds ! d) \<or> mt_Status (ts ! r) = ''done'')) \<and>
     (\<forall>r < length ts. task_ok (ts ! r)) \<and>
     (\<forall>r < length ts. live (ts ! r) \<longrightarrow>
        (\<exists>d. get dags (mt_ParentID (ts ! r)) = Some d \<and> get (d_Nodes (ds ! d)) (mt_ID (ts ! r)) = Some r))"

definition mt_ok :: "Manager \<Rightarrow> bool" where
  "mt_ok m \<longleftrightarrow>
     located (m_stopped m) (m_tasks m) (waiting m) (executing m) \<and>
     store_ok (m_tasks m) (m_dagHeap m) (m_dags m) \<and>
     (\<forall>d. GoAggregate d \<in> set (m_gos m) \<longrightarrow> d < length (m_dagHeap m))"

lemma store_dag:
  assumes "store_ok ts ds dags" and "get dags k = Some d"
  shows "d < length ds" and "d_RootID (ds ! d) = k"
  using assms unfolding store_ok_def by blast+

lemma store_node:
  assumes "store_ok ts ds dags" and "d < length ds" and "get (d_Nodes (ds ! d)) i = Some r"
  shows "r < length ts" and "mt_ID (ts ! r) = i"
    and "mt_ParentID (ts ! r) = d_RootID (ds ! d) \<or> mt_Status (ts ! r) = ''done''"
  using assms unfolding store_ok_def by blast+

lemma store_task: "store_ok ts ds dags \<Longrightarrow> r < length ts \<Longrightarrow> task_ok (ts ! r)"
  unfolding store_ok_def by blast

lemma store_live:
  assumes "store_ok ts ds dags" and "r < length ts" and "live (ts ! r)"
  shows "mt_ID (ts ! r) \<noteq> mt_ParentID (ts ! r)"
    and "\<exists>d. get dags (mt_ParentID (ts ! r)) = Some d \<and> get (d_Nodes (ds ! d)) (mt_ID (ts ! r)) = Some r"
proof -
  show "mt_ID (ts ! r) \<noteq> mt_ParentID (ts ! r)"
    using store_task[OF assms(1,2)] assms(3) by (auto simp: task_ok_def live_def)
  show "\<exists>d. get dags (mt_ParentID (ts ! r)) = Some d \<and> get (d_Nodes (ds ! d)) (mt_ID (ts ! r)) = Some r"
    using assms unfolding store_ok_def by blast
qed

lemma store_update:
  assumes ok: "store_ok ts ds dags" and r: "r < length ts"
    and t': "task_ok t'" "mt_ID t' = mt_ID (ts ! r)" "mt_ParentID t' = mt_ParentID (ts ! r)"
    and "live t' \<longrightarrow> live (ts ! r)" and "mt_Status (ts ! r) = ''done'' \<longrightarrow> mt_Status t' = ''done''"
  shows "store_ok (ts[r := t']) ds dags"
proof -
  have nth: "ts[r := t'] ! q = (if q = r then t' else ts ! q)" if "q < length ts" for q
    using that by (simp add: nth_list_update)
  have "\<forall>q < length ts. task_ok (ts[r := t'] ! q)" using store_task[OF ok] t' by (simp add: nth)
  moreover have "\<forall>q < length ts. live (ts[r := t'] ! q) \<longrightarrow>
      mt_ID (ts[r := t'] ! q) \<noteq> mt_ParentID (ts[r := t'] ! q) \<and>
      (\<exists>d. get dags (mt_ParentID (ts[r := t'] ! q)) = Some d \<and>
           get (d_Nodes (ds ! d)) (mt_ID (ts[r := t'] ! q)) = Some q)"
    using store_live[OF ok] assms by (simp add: nth)
  moreover have "\<forall>d < length ds. \<forall>i q. get (d_Nodes (ds ! d)) i = Some q \<longrightarrow>
      q < length ts \<and> mt_ID (ts[r := t'] ! q) = i \<and>
      (mt_ParentID (ts[r := t'] ! q) = d_RootID (ds ! d) \<or> mt_Status (ts[r := t'] ! q) = ''done'')"
    using store_node[OF ok] assms by (simp add: nth) blast
  ultimately show ?thesis using store_dag[OF ok] unfolding store_ok_def length_list_update by blast
qed

lemma store_new_dag:
  assumes ok: "store_ok ts ds dags" and new: "get dags k = None"
  shows "store_ok ts (ds @ [\<lparr>d_RootID = k, d_Nodes = [], d_Edges = []\<rparr>]) (put k (length ds) dags)"
    (is "store_ok ts ?ds ?dags")
proof -
  have nth: "?ds ! d = (if d < length ds then ds ! d else \<lparr>d_RootID = k, d_Nodes = [], d_Edges = []\<rparr>)"
    if "d < length ?ds" for d
    using that by (auto simp: nth_append)
  have "\<forall>j d. get ?dags j = Some d \<longrightarrow> d < length ?ds \<and> d_RootID (?ds ! d) = j"
    using store_dag[OF ok] by (auto simp: get_put nth_append less_Suc_eq)
  moreover have "\<forall>d < length ?ds. \<forall>i r. get (d_Nodes (?ds ! d)) i = Some r \<longrightarrow>
      r < length ts \<and> mt_ID (ts ! r) = i \<and>
      (mt_ParentID (ts ! r) = d_RootID (?ds ! d) \<or> mt_Status (ts ! r) = ''done'')"
    using store_node[OF ok] by (auto simp: nth)
  moreover have "\<forall>r < length ts. live (ts ! r) \<longrightarrow> mt_ID (ts ! r) \<noteq> mt_ParentID (ts ! r) \<and>
      (\<exists>d. get ?dags (mt_ParentID (ts ! r)) = Some d \<and> get (d_Nodes (?ds ! d)) (mt_ID (ts ! r)) = Some r)"
  proof (intro allI impI)
    fix r assume r: "r < length ts" "live (ts ! r)"
    then obtain d where d: "get dags (mt_ParentID (ts ! r)) = Some d"
      and n: "get (d_Nodes (ds ! d)) (mt_ID (ts ! r)) = Some r"
      using store_live[OF ok] by blast
    then have "mt_ParentID (ts ! r) \<noteq> k" and "d < length ds" using new store_dag[OF ok] by auto
    then show "mt_ID (ts ! r) \<noteq> mt_ParentID (ts ! r) \<and>
      (\<exists>d. get ?dags (mt_ParentID (ts ! r)) = Some d \<and> get (d_Nodes (?ds ! d)) (mt_ID (ts ! r)) = Some r)"
      using d n store_live(1)[OF ok r] by (intro conjI exI[of _ d]) (simp_all add: get_put nth_append)
  qed
  ultimately show ?thesis using store_task[OF ok] unfolding store_ok_def by blast
qed

text \<open>A DAG gets a new node, which is a slice of it or its aggregated root.\<close>

lemma store_new_node:
  assumes ok: "store_ok ts ds dags" and d: "d < length ds"
    and new: "get (d_Nodes (ds ! d)) (mt_ID t) = None"
    and g: "d_RootID g = d_RootID (ds ! d)" "d_Nodes g = put (mt_ID t) (length ts) (d_Nodes (ds ! d))"
    and t: "task_ok t" "mt_ParentID t = d_RootID (ds ! d) \<or> mt_Status t = ''done''"
    and live: "live t \<longrightarrow> mt_ID t \<noteq> mt_ParentID t \<and> get dags (mt_ParentID t) = Some d"
  shows "store_ok (ts @ [t]) (ds[d := g]) dags" (is "store_ok ?ts ?ds dags")
proof -
  have tnth: "?ts ! r = (if r < length ts then ts ! r else t)" if "r < length ?ts" for r
    using that by (auto simp: nth_append)
  have dnth: "?ds ! e = (if e = d then g else ds ! e)" if "e < length ds" for e
    using that by (simp add: nth_list_update)
  have nodes: "get (d_Nodes (?ds ! e)) i =
      (if e = d \<and> i = mt_ID t then Some (length ts) else get (d_Nodes (ds ! e)) i)" if "e < length ds" for e i
    using that g by (simp add: dnth get_put)
  have root: "d_RootID (?ds ! e) = d_RootID (ds ! e)" if "e < length ds" for e
    using that g by (simp add: dnth)
  have "\<forall>k e. get dags k = Some e \<longrightarrow> e < length ?ds \<and> d_RootID (?ds ! e) = k"
    using store_dag[OF ok] root by simp
  moreover have "\<forall>e < length ?ds. \<forall>i r. get (d_Nodes (?ds ! e)) i = Some r \<longrightarrow>
      r < length ?ts \<and> mt_ID (?ts ! r) = i \<and>
      (mt_ParentID (?ts ! r) = d_RootID (?ds ! e) \<or> mt_Status (?ts ! r) = ''done'')"
  proof (intro allI impI)
    fix e i r assume e: "e < length ?ds" and n: "get (d_Nodes (?ds ! e)) i = Some r"
    show "r < length ?ts \<and> mt_ID (?ts ! r) = i \<and>
      (mt_ParentID (?ts ! r) = d_RootID (?ds ! e) \<or> mt_Status (?ts ! r) = ''done'')"
    proof (cases "e = d \<and> i = mt_ID t")
      case True
      then have "r = length ts" using e n nodes[of e i] by simp
      moreover have "d_RootID (?ds ! e) = d_RootID (ds ! d)" using True root[of e] d by simp
      ultimately show ?thesis using True t(2) by (simp add: tnth)
    next
      case False
      then have "get (d_Nodes (ds ! e)) i = Some r" using e n nodes[of e i] by (simp only: length_list_update if_False)
      then show ?thesis using e store_node[OF ok, of e i r] root by (simp add: tnth)
    qed
  qed
  moreover have "\<forall>r < length ?ts. task_ok (?ts ! r)" using store_task[OF ok] t by (simp add: tnth)
  moreover have "\<forall>r < length ?ts. live (?ts ! r) \<longrightarrow> mt_ID (?ts ! r) \<noteq> mt_ParentID (?ts ! r) \<and>
      (\<exists>e. get dags (mt_ParentID (?ts ! r)) = Some e \<and> get (d_Nodes (?ds ! e)) (mt_ID (?ts ! r)) = Some r)"
  proof (intro allI impI)
    fix r assume r: "r < length ?ts" "live (?ts ! r)"
    show "mt_ID (?ts ! r) \<noteq> mt_ParentID (?ts ! r) \<and>
      (\<exists>e. get dags (mt_ParentID (?ts ! r)) = Some e \<and> get (d_Nodes (?ds ! e)) (mt_ID (?ts ! r)) = Some r)"
    proof (cases "r < length ts")
      case True
      then have l: "live (ts ! r)" using r by (simp add: tnth)
      then obtain e where e: "get dags (mt_ParentID (ts ! r)) = Some e"
        and n: "get (d_Nodes (ds ! e)) (mt_ID (ts ! r)) = Some r"
        using store_live[OF ok True] by blast
      have "e < length ds" using store_dag[OF ok e] by simp
      moreover have "\<not> (e = d \<and> mt_ID (ts ! r) = mt_ID t)" using n new by auto
      ultimately have "get (d_Nodes (?ds ! e)) (mt_ID (ts ! r)) = Some r" using n by (auto simp: nodes)
      then show ?thesis using e True store_live(1)[OF ok True l] by (auto simp: tnth)
    next
      case False
      then have "r = length ts" using r by simp
      moreover have "get (d_Nodes g) (mt_ID t) = Some (length ts)" by (simp add: g get_put)
      ultimately show ?thesis using r live d by (auto simp: tnth)
    qed
  qed
  ultimately show ?thesis unfolding store_ok_def by blast
qed

section \<open>Jobs, the abstract machine\<close>

text \<open>
  What a client of the manager thinks of: each task is in a phase and has made some of the attempts
  that it may make. Tasks are never removed.
\<close>

datatype phase = Waiting | Running | Done | Failed

type_synonym job = "phase \<times> int \<times> int"

inductive job_step :: "job list \<Rightarrow> job list \<Rightarrow> bool" where
  job_new: "job_step js (js @ [(Waiting, 0, 3)])"
| job_root: "job_step js (js @ [(Done, 0, 0)])"
| job_start: "r < length js \<Longrightarrow> js ! r = (Waiting, a, n) \<Longrightarrow> job_step js (js[r := (Running, a, n)])"
| job_succeed: "r < length js \<Longrightarrow> js ! r = (Running, a, n) \<Longrightarrow> job_step js (js[r := (Done, a, n)])"
| job_retry: "r < length js \<Longrightarrow> js ! r = (Running, a, n) \<Longrightarrow> a < n \<Longrightarrow> job_step js (js[r := (Waiting, a + 1, n)])"
| job_fail: "r < length js \<Longrightarrow> js ! r = (Running, n, n) \<Longrightarrow> job_step js (js[r := (Failed, n + 1, n)])"

abbreviation job_steps :: "job list \<Rightarrow> job list \<Rightarrow> bool" where
  "job_steps \<equiv> job_step\<^sup>*\<^sup>*"

definition phase_of :: "string \<Rightarrow> phase" where
  "phase_of status =
     (if status = ''pending'' then Waiting else if status = ''running'' then Running
      else if status = ''done'' then Done else Failed)"

definition job_of :: "MicroTask \<Rightarrow> job" where
  "job_of t = (phase_of (mt_Status t), mt_Attempts t, mt_MaxRetries t)"

definition jobs :: "Manager \<Rightarrow> job list" where
  "jobs m = map job_of (m_tasks m)"

lemma jobs_same: "m_tasks m' = m_tasks m \<Longrightarrow> jobs m' = jobs m"
  by (simp add: jobs_def)

lemma jobs_update:
  "m_tasks m' = (m_tasks m)[r := t'] \<Longrightarrow> jobs m' = (jobs m)[r := job_of t']"
  by (simp add: jobs_def map_update)

lemma jobs_nth: "r < length (m_tasks m) \<Longrightarrow> jobs m ! r = job_of (m_tasks m ! r)" "length (jobs m) = length (m_tasks m)"
  by (simp_all add: jobs_def)

section \<open>Moving a task\<close>

lemma located_at:
  assumes "located st ts w e"
  shows "count w q \<le> (if q < length ts \<and> mt_Status (ts ! q) = ''pending'' then 1 else 0)"
    and "\<not> st \<Longrightarrow> count w q = (if q < length ts \<and> mt_Status (ts ! q) = ''pending'' then 1 else 0)"
    and "count e q = (if q < length ts \<and> mt_Status (ts ! q) = ''running'' then 1 else 0)"
  using assms unfolding located_def by blast+

lemma located_held:
  assumes "located st ts w e"
  shows "r \<in># w \<Longrightarrow> r < length ts \<and> mt_Status (ts ! r) = ''pending''"
    and "r \<in># e \<Longrightarrow> r < length ts \<and> mt_Status (ts ! r) = ''running''"
proof -
  assume "r \<in># w"
  then have "count w r \<noteq> 0" by (simp add: count_eq_zero_iff)
  with located_at(1)[OF assms, of r] show "r < length ts \<and> mt_Status (ts ! r) = ''pending''" by presburger
next
  assume "r \<in># e"
  then have "count e r \<noteq> 0" by (simp add: count_eq_zero_iff)
  with located_at(3)[OF assms, of r] show "r < length ts \<and> mt_Status (ts ! r) = ''running''" by presburger
qed

lemma located_same:
  "located st ts w e \<Longrightarrow> mt_Status t' = mt_Status (ts ! r) \<Longrightarrow> located st (ts[r := t']) w e"
proof -
  assume "mt_Status t' = mt_Status (ts ! r)"
  then have same: "mt_Status (ts[r := t'] ! q) = mt_Status (ts ! q)" for q
    by (cases "q = r"; cases "r < length ts") (simp_all add: list_update_beyond)
  show "located st ts w e \<Longrightarrow> located st (ts[r := t']) w e" unfolding located_def length_list_update same .
qed

lemma located_new:
  "located st ts w e \<Longrightarrow> mt_Status t = ''done'' \<Longrightarrow> located st (ts @ [t]) w e"
  "located st ts w e \<Longrightarrow> mt_Status t = ''pending'' \<Longrightarrow> located st (ts @ [t]) (add_mset (length ts) w) e"
proof -
  assume l: "located st ts w e"
  show "mt_Status t = ''done'' \<Longrightarrow> located st (ts @ [t]) w e"
    unfolding located_def
  proof (intro allI)
    fix q assume "mt_Status t = ''done''"
    then show "count w q \<le> (if q < length (ts @ [t]) \<and> mt_Status ((ts @ [t]) ! q) = ''pending'' then 1 else 0) \<and>
      (\<not> st \<longrightarrow> count w q = (if q < length (ts @ [t]) \<and> mt_Status ((ts @ [t]) ! q) = ''pending'' then 1 else 0)) \<and>
      count e q = (if q < length (ts @ [t]) \<and> mt_Status ((ts @ [t]) ! q) = ''running'' then 1 else 0)"
      using located_at[OF l, of q] by (cases "q = length ts") (auto simp: nth_append)
  qed
  show "mt_Status t = ''pending'' \<Longrightarrow> located st (ts @ [t]) (add_mset (length ts) w) e"
    unfolding located_def
  proof (intro allI)
    fix q assume "mt_Status t = ''pending''"
    then show "count (add_mset (length ts) w) q \<le>
        (if q < length (ts @ [t]) \<and> mt_Status ((ts @ [t]) ! q) = ''pending'' then 1 else 0) \<and>
      (\<not> st \<longrightarrow> count (add_mset (length ts) w) q =
        (if q < length (ts @ [t]) \<and> mt_Status ((ts @ [t]) ! q) = ''pending'' then 1 else 0)) \<and>
      count e q = (if q < length (ts @ [t]) \<and> mt_Status ((ts @ [t]) ! q) = ''running'' then 1 else 0)"
      using located_at[OF l, of q] by (cases "q = length ts") (auto simp: nth_append)
  qed
qed

lemma located_start:
  assumes "located st ts (add_mset r w) e" and "mt_Status t' = ''running''"
  shows "located st (ts[r := t']) w (add_mset r e)"
  unfolding located_def
proof (intro allI)
  fix q
  have r: "r < length ts" "mt_Status (ts ! r) = ''pending''"
    using located_held(1)[OF assms(1), of r] by auto
  show "count w q \<le> (if q < length (ts[r := t']) \<and> mt_Status (ts[r := t'] ! q) = ''pending'' then 1 else 0) \<and>
      (\<not> st \<longrightarrow> count w q = (if q < length (ts[r := t']) \<and> mt_Status (ts[r := t'] ! q) = ''pending'' then 1 else 0)) \<and>
      count (add_mset r e) q = (if q < length (ts[r := t']) \<and> mt_Status (ts[r := t'] ! q) = ''running'' then 1 else 0)"
    using located_at[OF assms(1), of q] assms(2) r by (cases "q = r") auto
qed

lemma located_finish:
  assumes "located st ts w (add_mset r e)" and "mt_Status t' \<noteq> ''running''"
  shows "located st (ts[r := t']) (if mt_Status t' = ''pending'' then add_mset r w else w) e"
  unfolding located_def
proof (intro allI)
  fix q
  let ?w = "if mt_Status t' = ''pending'' then add_mset r w else w"
  have r: "r < length ts" "mt_Status (ts ! r) = ''running''"
    using located_held(2)[OF assms(1), of r] by auto
  show "count ?w q \<le> (if q < length (ts[r := t']) \<and> mt_Status (ts[r := t'] ! q) = ''pending'' then 1 else 0) \<and>
      (\<not> st \<longrightarrow> count ?w q = (if q < length (ts[r := t']) \<and> mt_Status (ts[r := t'] ! q) = ''pending'' then 1 else 0)) \<and>
      count e q = (if q < length (ts[r := t']) \<and> mt_Status (ts[r := t'] ! q) = ''running'' then 1 else 0)"
    using located_at[OF assms(1), of q] assms(2) r by (cases "q = r") auto
qed

text \<open>A stopped manager may let go of waiting tasks.\<close>

lemma located_dropped:
  assumes "located st ts (w + lost) e" and "st \<or> lost = {#}"
  shows "located st ts w e"
  unfolding located_def
proof (intro allI)
  fix q
  show "count w q \<le> (if q < length ts \<and> mt_Status (ts ! q) = ''pending'' then 1 else 0) \<and>
      (\<not> st \<longrightarrow> count w q = (if q < length ts \<and> mt_Status (ts ! q) = ''pending'' then 1 else 0)) \<and>
      count e q = (if q < length ts \<and> mt_Status (ts ! q) = ''running'' then 1 else 0)"
    using located_at[OF assms(1), of q] assms(2) by auto
qed

section \<open>What the steps keep\<close>

text \<open>The parts of the state that the invariant looks at.\<close>

definition core :: "Manager \<Rightarrow> (MicroTask list \<times> TaskDAG list \<times> (string, nat) gomap \<times> bool) \<times>
    (nat multiset \<times> nat multiset) \<times> nat set" where
  "core m = ((m_tasks m, m_dagHeap m, m_dags m, m_stopped m), (waiting m, executing m),
             {d. GoAggregate d \<in> set (m_gos m)})"

lemma core_ok: "core m' = core m \<Longrightarrow> mt_ok m' = mt_ok m"
  by (auto simp: core_def mt_ok_def)

named_theorems mt_frame \<open>what a step leaves as it was\<close>

lemma addEvent_frame [mt_frame]:
  "m_tasks (addEvent uuid e m) = m_tasks m" "m_dagHeap (addEvent uuid e m) = m_dagHeap m"
  "m_dags (addEvent uuid e m) = m_dags m" "m_stopped (addEvent uuid e m) = m_stopped m"
  "m_gos (addEvent uuid e m) = m_gos m" "m_handlers (addEvent uuid e m) = m_handlers m"
  "m_chans (addEvent uuid e m) = m_chans m" "m_events (addEvent uuid e m) = m_events m"
  "m_disp (addEvent uuid e m) = m_disp m" "m_agg (addEvent uuid e m) = m_agg m"
  "waiting (addEvent uuid e m) = waiting m" "executing (addEvent uuid e m) = executing m"
  "core (addEvent uuid e m) = core m"
  by (simp_all add: addEvent_def Let_def waiting_def executing_def core_def)

lemma forcePersist_frame [mt_frame]:
  "m_tasks (forcePersist m) = m_tasks m" "m_dagHeap (forcePersist m) = m_dagHeap m"
  "m_dags (forcePersist m) = m_dags m" "m_stopped (forcePersist m) = m_stopped m"
  "m_gos (forcePersist m) = m_gos m" "core (forcePersist m) = core m"
  by (simp_all add: forcePersist_def waiting_def executing_def core_def split: option.split)

lemma upd_task_frame [mt_frame]:
  "m_dagHeap (upd_task r f m) = m_dagHeap m" "m_dags (upd_task r f m) = m_dags m"
  "m_stopped (upd_task r f m) = m_stopped m" "m_gos (upd_task r f m) = m_gos m"
  "m_handlers (upd_task r f m) = m_handlers m"
  "m_tasks (upd_task r f m) = (m_tasks m)[r := f (m_tasks m ! r)]"
  "waiting (upd_task r f m) = waiting m" "executing (upd_task r f m) = executing m"
  by (simp_all add: upd_task_def waiting_def executing_def)

lemma upd_dag_frame [mt_frame]:
  "m_dagHeap (upd_dag d f m) = (m_dagHeap m)[d := f (m_dagHeap m ! d)]"
  "m_tasks (upd_dag d f m) = m_tasks m" "m_dags (upd_dag d f m) = m_dags m"
  "m_stopped (upd_dag d f m) = m_stopped m" "m_gos (upd_dag d f m) = m_gos m"
  "waiting (upd_dag d f m) = waiting m" "executing (upd_dag d f m) = executing m"
  by (simp_all add: upd_dag_def waiting_def executing_def)

lemma holds_make_chan [simp]: "chan_holds \<lparr>wc_chan = make_chan n, wc_closed = b\<rparr> = []"
  by (simp add: chan_holds_def make_chan_def)

text \<open>The channels in use exist.\<close>

fun disp_chans :: "dispatcher \<Rightarrow> nat list" where
  "disp_chans (DSend r n i ch) = [ch]"
| "disp_chans _ = []"

definition chans_used :: "Manager \<Rightarrow> nat set" where
  "chans_used m = snd ` set (m_workers m) \<union> h_chan ` set (m_handlers m) \<union> set (disp_chans (m_disp m))"

definition chans_ok :: "Manager \<Rightarrow> bool" where
  "chans_ok m \<longleftrightarrow> (\<forall>ch \<in> chans_used m. ch < length (m_chans m))"

lemma chans_ok_mono:
  "chans_ok m \<Longrightarrow> length (m_chans m) \<le> length (m_chans m') \<Longrightarrow> chans_used m' \<subseteq> chans_used m \<Longrightarrow> chans_ok m'"
  unfolding chans_ok_def by fastforce

lemma h_chan_update:
  "h_chan ` set ((m_handlers m)[i := (m_handlers m ! i)\<lparr>h_state := h\<rparr>]) \<subseteq> h_chan ` set (m_handlers m)"
proof (cases "i < length (m_handlers m)")
  case True
  then have "h_chan ((m_handlers m ! i)\<lparr>h_state := h\<rparr>) \<in> h_chan ` set (m_handlers m)" by simp
  then show ?thesis using set_update_subset_insert by fastforce
qed (simp add: list_update_beyond)

lemma net_frame [mt_frame]:
  "chans_used (addEvent uuid e m) = chans_used m" "m_workers (addEvent uuid e m) = m_workers m"
  "chans_used (forcePersist m) = chans_used m" "m_chans (forcePersist m) = m_chans m"
  "chans_used (upd_task r f m) = chans_used m" "m_chans (upd_task r f m) = m_chans m"
  "chans_used (upd_dag d g m) = chans_used m" "m_chans (upd_dag d g m) = m_chans m"
  by (simp_all add: addEvent_def Let_def forcePersist_def upd_task_def upd_dag_def chans_used_def
      split: option.split)

lemma chans_ok_frame [mt_frame]:
  "chans_ok (addEvent uuid e m) = chans_ok m" "chans_ok (forcePersist m) = chans_ok m"
  "chans_ok (upd_task r f m) = chans_ok m" "chans_ok (upd_dag d g m) = chans_ok m"
  by (simp_all add: chans_ok_def mt_frame)

lemma step_register:
  assumes "RegisterWorkerHandler now uuid wid buf m = Returned () m'"
  shows "core m' = core m" and "chans_ok m \<Longrightarrow> chans_ok m'"
proof -
  define ch where "ch = length (m_chans m)"
  have m': "m_chans m' = m_chans m @ [\<lparr>wc_chan = make_chan (nat buf), wc_closed = False\<rparr>]"
      "m_workers m' = put wid ch (m_workers m)" "m_disp m' = m_disp m"
      "m_handlers m' = m_handlers m @ [\<lparr>h_worker = wid, h_chan = ch, h_state = HWait\<rparr>]"
      "m_tasks m' = m_tasks m" "m_dagHeap m' = m_dagHeap m" "m_dags m' = m_dags m"
      "m_stopped m' = m_stopped m" "m_gos m' = m_gos m" "m_events m' = m_events m"
    using assms unfolding ch_def
    by (auto simp: RegisterWorkerHandler_def RegisterWorker_def Let_def mt_frame split: if_splits)
  show "core m' = core m"
    by (simp add: core_def waiting_def executing_def got_def runs_def m')
  show "chans_ok m \<Longrightarrow> chans_ok m'"
  proof -
    have "snd ` set (put wid ch (m_workers m)) \<subseteq> insert ch (snd ` set (m_workers m))"
      using image_mono[OF set_put_subset[of wid ch "m_workers m"], of snd] by simp
    then have "chans_used m' \<subseteq> insert ch (chans_used m)" unfolding chans_used_def m' by auto
    then show "chans_ok m \<Longrightarrow> chans_ok m'" unfolding chans_ok_def m' ch_def by force
  qed
qed

lemma step_close: "core (close_worker wid ch m) = core m" "chans_ok m \<Longrightarrow> chans_ok (close_worker wid ch m)"
proof -
  show "core (close_worker wid ch m) = core m"
    by (auto simp: close_worker_def upd_chan_def core_def waiting_def executing_def chan_holds_def intro!: held_same)
  show "chans_ok m \<Longrightarrow> chans_ok (close_worker wid ch m)"
  proof (elim chans_ok_mono)
    show "chans_used (close_worker wid ch m) \<subseteq> chans_used m"
      using image_mono[OF set_del_subset[of wid "m_workers m"], of snd]
      unfolding chans_used_def close_worker_def upd_chan_def by auto
  qed (simp add: close_worker_def upd_chan_def)
qed

lemma step_deregister:
  "core (DeregisterWorker now uuid wid m) = core m" "chans_ok m \<Longrightarrow> chans_ok (DeregisterWorker now uuid wid m)"
  using step_close by (auto simp: DeregisterWorker_def mt_frame chans_ok_def split: option.split)

lemma step_aggregator:
  "core (SetAggregator a m) = core m" "chans_ok m \<Longrightarrow> chans_ok (SetAggregator a m)"
  by (simp_all add: SetAggregator_def core_def waiting_def executing_def chans_ok_def chans_used_def)

lemma step_save:
  "core (snd (SaveState now uuid io m)) = core m" "chans_ok m \<Longrightarrow> chans_ok (snd (SaveState now uuid io m))"
  by (simp_all add: SaveState_def mt_frame chans_ok_def Let_def split: option.split)

lemma step_persist:
  "core (snd (EnablePersistence now uuid mkdir io dir interval m)) = core m"
  "chans_ok m \<Longrightarrow> chans_ok (snd (EnablePersistence now uuid mkdir io dir interval m))"
proof -
  have "core (m\<lparr>m_persistCfg := c\<rparr>) = core m"
    and "core (m\<lparr>m_persistCfg := c, m_gos := m_gos m @ [GoPersist]\<rparr>) = core m" for c
    by (simp_all add: core_def waiting_def executing_def)
  then show "core (snd (EnablePersistence now uuid mkdir io dir interval m)) = core m"
    by (simp add: EnablePersistence_def step_save Let_def split: option.split)
  have "chans_ok m \<Longrightarrow> chans_ok (m\<lparr>m_persistCfg := c\<rparr>)"
    and "chans_ok m \<Longrightarrow> chans_ok (m\<lparr>m_persistCfg := c, m_gos := m_gos m @ [GoPersist]\<rparr>)" for c
    by (simp_all add: chans_ok_def chans_used_def)
  then show "chans_ok m \<Longrightarrow> chans_ok (snd (EnablePersistence now uuid mkdir io dir interval m))"
    by (simp add: EnablePersistence_def step_save Let_def split: option.split)
qed

lemma chooseWorker_frame: "chooseWorker m = (c, m') \<Longrightarrow> \<exists>rr. m' = m\<lparr>m_rr := rr\<rparr>"
proof -
  have "\<exists>rr. m = m\<lparr>m_rr := rr\<rparr>" by (rule exI[of _ "m_rr m"]) simp
  then show "chooseWorker m = (c, m') \<Longrightarrow> \<exists>rr. m' = m\<lparr>m_rr := rr\<rparr>"
    by (auto simp: chooseWorker_def Let_def split: if_splits prod.splits)
qed

section \<open>The dispatcher keeps every task\<close>

definition delivered :: "nat \<Rightarrow> Manager \<Rightarrow> Manager \<Rightarrow> bool" where
  "delivered r m m' \<longleftrightarrow>
     m_tasks m' = m_tasks m \<and> m_dagHeap m' = m_dagHeap m \<and> m_dags m' = m_dags m \<and>
     m_stopped m' = m_stopped m \<and> m_gos m' = m_gos m \<and> m_disp m' = m_disp m \<and>
     waiting m' = add_mset r (waiting m) \<and> executing m' = executing m \<and>
     length (m_chans m') = length (m_chans m) \<and> chans_used m' \<subseteq> chans_used m"

lemma delivered_event: "delivered r m m' \<Longrightarrow> delivered r m (addEvent uuid e m')"
  by (simp add: delivered_def mt_frame)

lemma deliver_Sent:
  assumes "deliver r ch m = Sent m'" and "ch < length (m_chans m)"
  shows "delivered r m m'"
proof (cases "try_send r (wc_chan (m_chans m ! ch))")
  case (Some q)
  then have m': "m' = upd_chan ch (\<lambda>c. c\<lparr>wc_chan := q\<rparr>) m"
    using assms(1) by (simp add: deliver_def Let_def split: if_splits)
  have "held chan_holds ((m_chans m)[ch := (m_chans m ! ch)\<lparr>wc_chan := q\<rparr>]) =
      add_mset r (held chan_holds (m_chans m))"
    using assms(2) Some by (intro held_gain) (auto simp: chan_holds_def try_send_def split: if_splits)
  then show ?thesis
    by (simp add: delivered_def m' upd_chan_def waiting_def executing_def chans_used_def)
next
  case None
  then obtain i is' where i: "filter (\<lambda>i. h_chan (m_handlers m ! i) = ch \<and> h_state (m_handlers m ! i) = HWait)
        [0..<length (m_handlers m)] = i # is'" and m': "m' = upd_handler i (HGot r) m"
    using assms(1) by (auto simp: deliver_def Let_def split: if_splits list.splits)
  have "i \<in> set (i # is')" by simp
  then have ilen: "i < length (m_handlers m)" and wait: "h_state (m_handlers m ! i) = HWait"
    unfolding i[symmetric] by auto
  let ?h = "(m_handlers m ! i)\<lparr>h_state := HGot r\<rparr>"
  have "held got ((m_handlers m)[i := ?h]) = add_mset r (held got (m_handlers m))"
    using ilen wait by (intro held_gain) (simp_all add: got_def)
  moreover have "held runs ((m_handlers m)[i := ?h]) = held runs (m_handlers m)"
    using wait by (intro held_same) (simp add: runs_def)
  ultimately show ?thesis
    using h_chan_update[of m i "HGot r"]
    by (auto simp: delivered_def m' upd_handler_def waiting_def executing_def chans_used_def)
qed

lemma steal_loop_Sent:
  assumes "steal_loop now uuid r ws m = Sent m'" and "\<forall>ch \<in> snd ` set ws. ch < length (m_chans m)"
  shows "delivered r m m'"
  using assms
proof (induction ws)
  case Nil
  then show ?case by simp
next
  case (Cons w ws)
  obtain i ch where w: "w = (i, ch)" by (cases w)
  show ?case
  proof (cases "deliver r ch m")
    case (Sent m1)
    then show ?thesis using Cons.prems w deliver_Sent[OF Sent] delivered_event by auto
  qed (use Cons w in auto)
qed

lemma waiting_disp:
  "waiting (m\<lparr>m_disp := d\<rparr>) + mset (disp_holds (m_disp m)) = waiting m + mset (disp_holds d)"
  by (simp add: waiting_def)

lemma core_disp:
  assumes "disp_holds d = disp_holds (m_disp m)"
  shows "core (m\<lparr>m_disp := d\<rparr>) = core m"
  using waiting_disp[of d m] assms by (simp add: core_def executing_def)

lemma core_delivered:
  assumes "delivered r m m'" and "disp_holds (m_disp m) = [r]"
  shows "core (m'\<lparr>m_disp := DIdle\<rparr>) = core m"
    and "chans_ok m \<Longrightarrow> chans_ok (m'\<lparr>m_disp := DIdle\<rparr>)"
proof -
  show "core (m'\<lparr>m_disp := DIdle\<rparr>) = core m"
    using waiting_disp[of DIdle m'] assms by (simp add: core_def executing_def delivered_def)
  show "chans_ok m \<Longrightarrow> chans_ok (m'\<lparr>m_disp := DIdle\<rparr>)"
    using assms unfolding delivered_def by (elim chans_ok_mono) (auto simp: chans_used_def)
qed

lemma chans_ok_disp:
  "chans_ok m \<Longrightarrow> disp_chans d = [] \<Longrightarrow> chans_ok (m\<lparr>m_disp := d\<rparr>)"
  by (simp add: chans_ok_def chans_used_def)

lemma give_up_keeps:
  assumes "m_disp m = DTry r n" and "chans_ok m"
  shows "core (give_up now uuid r m) = core m" and "chans_ok (give_up now uuid r m)"
proof -
  have ws: "\<forall>ch \<in> snd ` set (m_workers m). ch < length (m_chans m)"
    using assms(2) by (simp add: chans_ok_def chans_used_def)
  have hold: "disp_holds (m_disp m) = [r]" using assms(1) by simp
  define res where "res = (if m_steal m then steal_loop now uuid r (m_workers m) m else NotReady)"
  have "core (give_up now uuid r m) = core m \<and> chans_ok (give_up now uuid r m)"
  proof (cases res)
    case (Sent m')
    then have "delivered r m m'" using steal_loop_Sent[OF _ ws] by (simp add: res_def split: if_splits)
    then show ?thesis
      using core_delivered[OF _ hold] assms(2) Sent by (simp add: give_up_def res_def[symmetric])
  next
    case NotReady
    have "core (m\<lparr>m_gos := m_gos m @ [GoRequeue r], m_disp := DIdle\<rparr>) = core m"
      using assms(1) by (simp add: core_def waiting_def executing_def)
    moreover have "chans_ok (m\<lparr>m_gos := m_gos m @ [GoRequeue r], m_disp := DIdle\<rparr>)"
      using assms(2) by (simp add: chans_ok_def chans_used_def)
    ultimately show ?thesis
      using NotReady by (simp add: give_up_def res_def[symmetric] mt_frame chans_ok_def)
  next
    case SendPanics
    then show ?thesis
      using core_disp[of "DPanic r" m] chans_ok_disp[of m "DPanic r"] assms hold
      by (simp add: give_up_def res_def[symmetric])
  qed
  then show "core (give_up now uuid r m) = core m" "chans_ok (give_up now uuid r m)" by blast+
qed

lemma step_receive:
  assumes "disp_receive m = Some m'"
  shows "core m' = core m" and "chans_ok m \<Longrightarrow> chans_ok m'"
proof -
  obtain r q where idle: "m_disp m = DIdle" and buf: "ch_buf (m_events m) = r # q"
    and m': "m' = m\<lparr>m_events := (m_events m)\<lparr>ch_buf := q\<rparr>, m_disp := DTry r 0\<rparr>"
    using assms by (auto simp: disp_receive_def try_recv_def split: if_splits list.splits)
  show "core m' = core m" by (simp add: m' core_def waiting_def executing_def buf idle)
  show "chans_ok m \<Longrightarrow> chans_ok m'" by (simp add: m' chans_ok_def chans_used_def idle)
qed

text \<open>The choice of the worker: a least loaded one, or one by turn.\<close>

abbreviation load :: "Manager \<Rightarrow> string \<times> nat \<Rightarrow> float64" where
  "load m w \<equiv> worker_score m (fst w) (snd w)"

definition lighter :: "Manager \<Rightarrow> (string \<times> nat) option \<times> float64 \<Rightarrow> string \<times> nat \<Rightarrow> (string \<times> nat) option \<times> float64" where
  "lighter m st w = (if load m w < snd st then (Some w, load m w) else st)"

lemma least_loaded_lighter: "least_loaded m = foldl (lighter m) (None, 2) (m_workers m)"
proof -
  have "(\<lambda>(best, bestScore) (i, ch). let score = worker_score m i ch
      in if score < bestScore then (Some (i, ch), score) else (best, bestScore)) = lighter m"
    by (auto simp: lighter_def Let_def fun_eq_iff)
  then show ?thesis by (simp add: least_loaded_def)
qed

lemma lighter_fold:
  "snd (foldl (lighter m) st ws) \<le> snd st \<and> (\<forall>w \<in> set ws. snd (foldl (lighter m) st ws) \<le> load m w) \<and>
   (foldl (lighter m) st ws = st \<or>
    (\<exists>w \<in> set ws. foldl (lighter m) st ws = (Some w, load m w)))"
proof (induction ws arbitrary: st)
  case Nil
  then show ?case by simp
next
  case (Cons w ws)
  have step: "lighter m st w = (Some w, load m w) \<and> load m w < snd st \<or> lighter m st w = st \<and> snd st \<le> load m w"
    by (simp add: lighter_def)
  show ?case using Cons.IH[of "lighter m st w"] step by auto
qed

lemma least_loaded_cases:
  obtains "least_loaded m = (None, 2)" "\<forall>w \<in> set (m_workers m). 2 \<le> load m w"
  | w where "least_loaded m = (Some w, load m w)" "w \<in> set (m_workers m)"
      "\<forall>v \<in> set (m_workers m). load m w \<le> load m v"
  using lighter_fold[where m = m and st = "(None, 2)" and ws = "m_workers m"]
  unfolding least_loaded_lighter[symmetric] by force

lemma turn_in_range:
  fixes x :: "64 word"
  assumes "0 < n"
  shows "unat (x mod of_nat n) < n"
proof -
  have x: "unat x < 2 ^ 64" using unsigned_less[of x] by simp
  have "unat (x mod of_nat n) = unat x mod (n mod 2 ^ 64)" by (simp add: unat_mod_distrib unat_of_nat take_bit_eq_mod)
  also have "\<dots> < n"
  proof (cases "n < 2 ^ 64")
    case True
    then show ?thesis using assms by simp
  next
    case False
    then show ?thesis using x by (meson le_less_trans less_le_trans mod_less_eq_dividend not_less)
  qed
  finally show ?thesis .
qed

lemma chooseWorker_registered:
  assumes "chooseWorker m = (Some c, m')"
  shows "c \<in> set (m_workers m)"
proof (rule least_loaded_cases[of m])
  assume "least_loaded m = (None, 2)"
  then show ?thesis
    using assms turn_in_range[of "length (m_workers m)" "m_rr m + 1"]
    by (auto simp: chooseWorker_def Let_def split: if_splits)
next
  fix w assume "least_loaded m = (Some w, load m w)" and "w \<in> set (m_workers m)"
  then show ?thesis
    using assms turn_in_range[of "length (m_workers m)" "m_rr m + 1"]
    by (auto simp: chooseWorker_def Let_def split: if_splits)
qed

lemma step_try:
  assumes "disp_try now uuid m = Some m'" and "chans_ok m"
  shows "core m' = core m" and "chans_ok m'"
proof -
  obtain r n where d: "m_disp m = DTry r n" using assms(1) by (auto simp: disp_try_def split: dispatcher.splits)
  have "core m' = core m \<and> chans_ok m'"
  proof (cases "n < 3")
    case True
    obtain c m1 where ch: "chooseWorker m = (c, m1)" by (cases "chooseWorker m")
    then obtain rr where m1: "m1 = m\<lparr>m_rr := rr\<rparr>" using chooseWorker_frame by blast
    have base: "core (m1\<lparr>m_disp := x\<rparr>) = core (m\<lparr>m_disp := x\<rparr>)"
      "chans_ok (m1\<lparr>m_disp := x\<rparr>) = chans_ok (m\<lparr>m_disp := x\<rparr>)" for x
      by (simp_all add: m1 core_def waiting_def executing_def chans_used_def chans_ok_def)
    show ?thesis
    proof (cases c)
      case None
      then have "m' = m1\<lparr>m_disp := DTry r (n + 1)\<rparr>" using assms(1) d True ch by (simp add: disp_try_def)
      then show ?thesis using assms(2) d base core_disp chans_ok_disp by simp
    next
      case (Some w)
      obtain i k where w: "w = (i, k)" by (cases w)
      have "(i, k) \<in> set (m_workers m)" using chooseWorker_registered ch Some w by blast
      then have "k \<in> chans_used m" by (force simp: chans_used_def)
      moreover have "m' = m1\<lparr>m_disp := DSend r n i k\<rparr>" using assms(1) d True ch Some w by (simp add: disp_try_def)
      ultimately show ?thesis using assms(2) d
        by (simp only: base) (auto simp: core_disp chans_ok_def chans_used_def)
    qed
  next
    case False
    then have "m' = give_up now uuid r m" using assms(1) d by (simp add: disp_try_def)
    then show ?thesis using give_up_keeps[OF d assms(2)] by simp
  qed
  then show "core m' = core m" "chans_ok m'" by blast+
qed

lemma step_send:
  assumes "disp_send now uuid m = Some m'" and "chans_ok m"
  shows "core m' = core m" and "chans_ok m'"
proof -
  obtain r n i ch where d: "m_disp m = DSend r n i ch" using assms(1) by (auto simp: disp_send_def split: dispatcher.splits)
  have ch: "ch < length (m_chans m)" using assms(2) d by (simp add: chans_ok_def chans_used_def)
  have hold: "disp_holds (m_disp m) = [r]" using d by simp
  have "core m' = core m \<and> chans_ok m'"
  proof (cases "deliver r ch m")
    case (Sent m1)
    then have "m' = addEvent uuid (dispatched_event now (m_tasks m ! r) i '''') (m1\<lparr>m_disp := DIdle\<rparr>)"
      using assms(1) d by (simp add: disp_send_def)
    then show ?thesis
      using core_delivered[OF deliver_Sent[OF Sent ch] hold] assms(2) by (simp add: mt_frame chans_ok_def)
  next
    case NotReady
    then show ?thesis using assms(1) d by (simp add: disp_send_def)
  next
    case SendPanics
    then show ?thesis
      using assms d core_disp[of "DPanic r" m] chans_ok_disp[of m "DPanic r"] by (simp add: disp_send_def)
  qed
  then show "core m' = core m" "chans_ok m'" by blast+
qed

lemma step_timeout:
  assumes "disp_timeout m = Some m'"
  shows "core m' = core m" and "chans_ok m \<Longrightarrow> chans_ok m'"
  using assms core_disp chans_ok_disp by (auto simp: disp_timeout_def split: dispatcher.splits)

section \<open>The handlers and the other goroutines\<close>

lemma upd_handler_frame [mt_frame]:
  "m_tasks (upd_handler i h m) = m_tasks m" "m_dagHeap (upd_handler i h m) = m_dagHeap m"
  "m_dags (upd_handler i h m) = m_dags m" "m_stopped (upd_handler i h m) = m_stopped m"
  "m_gos (upd_handler i h m) = m_gos m" "m_chans (upd_handler i h m) = m_chans m"
  by (simp_all add: upd_handler_def)

lemma chans_ok_handler: "chans_ok m \<Longrightarrow> chans_ok (upd_handler i h m)"
  using h_chan_update[of m i h]
  by (elim chans_ok_mono) (auto simp: upd_handler_def chans_used_def)

lemma chans_ok_chan: "chans_ok m \<Longrightarrow> chans_ok (upd_chan c f m)"
  by (elim chans_ok_mono) (auto simp: upd_chan_def chans_used_def)

lemma step_take:
  assumes "handler_receive i m = Some m'" and "i < length (m_handlers m)" and "chans_ok m"
  shows "core m' = core m" and "chans_ok m'"
proof -
  define h where "h = m_handlers m ! i"
  have ch: "h_chan h < length (m_chans m)" using assms(2,3) by (simp add: chans_ok_def chans_used_def h_def)
  have wait: "h_state h = HWait" using assms(1) by (simp add: handler_receive_def Let_def h_def split: if_splits)
  have runs: "held runs ((m_handlers m)[i := h\<lparr>h_state := s\<rparr>]) = held runs (m_handlers m)" if "\<forall>r. s \<noteq> HRun r" for s
    using wait that by (intro held_same) (auto simp: runs_def h_def split: hstate.split)
  have "core m' = core m \<and> chans_ok m'"
  proof (cases "ch_buf (wc_chan (m_chans m ! h_chan h))")
    case Nil
    then have m': "m' = upd_handler i HExit m"
      using assms(1) wait by (simp add: handler_receive_def Let_def h_def try_recv_def split: if_splits)
    have "held got ((m_handlers m)[i := h\<lparr>h_state := HExit\<rparr>]) = held got (m_handlers m)"
      using wait by (intro held_same) (simp add: got_def h_def)
    then show ?thesis
      using runs[of HExit] assms(3) chans_ok_handler
      by (simp add: m' core_def waiting_def executing_def upd_handler_def h_def)
  next
    case (Cons r q)
    let ?c = "(m_chans m ! h_chan h)\<lparr>wc_chan := (wc_chan (m_chans m ! h_chan h))\<lparr>ch_buf := q\<rparr>\<rparr>"
    have m': "m' = upd_handler i (HGot r) (upd_chan (h_chan h) (\<lambda>c. c\<lparr>wc_chan := (wc_chan (m_chans m ! h_chan h))\<lparr>ch_buf := q\<rparr>\<rparr>) m)"
      using assms(1) wait Cons by (simp add: handler_receive_def Let_def h_def try_recv_def)
    have "held chan_holds (m_chans m) = add_mset r (held chan_holds ((m_chans m)[h_chan h := ?c]))"
      using ch Cons by (intro held_loss) (simp_all add: chan_holds_def)
    moreover have "held got ((m_handlers m)[i := h\<lparr>h_state := HGot r\<rparr>]) = add_mset r (held got (m_handlers m))"
      using wait assms(2) by (intro held_gain) (simp_all add: got_def h_def)
    moreover have "chans_ok m'" unfolding m' by (intro chans_ok_handler chans_ok_chan assms(3))
    ultimately show ?thesis
      using runs[of "HGot r"] by (simp add: m' core_def waiting_def executing_def upd_handler_def upd_chan_def h_def)
  qed
  then show "core m' = core m" "chans_ok m'" by blast+
qed

text \<open>The task of a handler, when it starts and when it stops running it.\<close>

lemma handler_starts:
  assumes "i < length (m_handlers m)" and "h_state (m_handlers m ! i) = HGot r"
  shows "waiting m = add_mset r (waiting (upd_handler i (HRun r) m))"
    and "executing (upd_handler i (HRun r) m) = add_mset r (executing m)"
proof -
  let ?h = "(m_handlers m ! i)\<lparr>h_state := HRun r\<rparr>"
  have "held got (m_handlers m) = add_mset r (held got ((m_handlers m)[i := ?h]))"
    using assms by (intro held_loss) (simp_all add: got_def)
  then show "waiting m = add_mset r (waiting (upd_handler i (HRun r) m))"
    by (simp add: waiting_def upd_handler_def)
  have "held runs ((m_handlers m)[i := ?h]) = add_mset r (held runs (m_handlers m))"
    using assms by (intro held_gain) (simp_all add: runs_def)
  then show "executing (upd_handler i (HRun r) m) = add_mset r (executing m)"
    by (simp add: executing_def upd_handler_def)
qed

lemma handler_ends:
  assumes "i < length (m_handlers m)" and "h_state (m_handlers m ! i) = HRun r"
  shows "waiting (upd_handler i HWait m) = waiting m"
    and "executing m = add_mset r (executing (upd_handler i HWait m))"
proof -
  let ?h = "(m_handlers m ! i)\<lparr>h_state := HWait\<rparr>"
  have "held got ((m_handlers m)[i := ?h]) = held got (m_handlers m)"
    using assms by (intro held_same) (simp add: got_def)
  then show "waiting (upd_handler i HWait m) = waiting m"
    by (simp add: waiting_def upd_handler_def)
  have "held runs (m_handlers m) = add_mset r (held runs ((m_handlers m)[i := ?h]))"
    using assms by (intro held_loss) (simp_all add: runs_def)
  then show "executing m = add_mset r (executing (upd_handler i HWait m))"
    by (simp add: executing_def upd_handler_def)
qed

lemma mt_ok_parts:
  assumes "mt_ok m"
  shows "located (m_stopped m) (m_tasks m) (waiting m) (executing m)"
    and "store_ok (m_tasks m) (m_dagHeap m) (m_dags m)"
    and "GoAggregate d \<in> set (m_gos m) \<Longrightarrow> d < length (m_dagHeap m)"
  using assms by (auto simp: mt_ok_def)

lemma step_start:
  assumes "handler_start now uuid i m = Some m'" and i: "i < length (m_handlers m)" and ok: "mt_ok m"
  shows "mt_ok m'" and "chans_ok m \<Longrightarrow> chans_ok m'" and "job_step (jobs m) (jobs m')"
proof -
  obtain r where h: "h_state (m_handlers m ! i) = HGot r"
    using assms(1) by (auto simp: handler_start_def split: hstate.splits)
  define t' where "t' = (m_tasks m ! r)\<lparr>mt_AssignedTo := h_worker (m_handlers m ! i), mt_Status := ''running'',
      mt_UpdatedAt := now, mt_TraceID := if mt_TraceID (m_tasks m ! r) = '''' then uuid else mt_TraceID (m_tasks m ! r)\<rparr>"
  obtain e where m': "m' = addEvent uuid e (upd_handler i (HRun r) (upd_task r (\<lambda>_. t') m))"
    using assms(1) h by (auto simp: handler_start_def Let_def upd_task_def t'_def)
  note moved = handler_starts[of i "upd_task r (\<lambda>_. t') m" r, unfolded upd_task_frame, OF i h]
  have loc: "located (m_stopped m) (m_tasks m) (add_mset r (waiting m')) (executing m)"
    using mt_ok_parts(1)[OF ok] moved by (simp add: m' mt_frame)
  have r: "r < length (m_tasks m)" "mt_Status (m_tasks m ! r) = ''pending''"
    using located_held(1)[OF loc, of r] by auto
  have tasks: "m_tasks m' = (m_tasks m)[r := t']" by (simp add: m' mt_frame)
  have "executing m' = add_mset r (executing m)" using moved by (simp add: m' mt_frame)
  moreover have "m_stopped m' = m_stopped m" "mt_Status t' = ''running''" by (simp_all add: m' mt_frame t'_def)
  ultimately have "located (m_stopped m') (m_tasks m') (waiting m') (executing m')"
    using located_start[OF loc, of t'] by (simp only: tasks)
  moreover have "task_ok t'" using store_task[OF mt_ok_parts(2)[OF ok] r(1)] r(2)
    by (auto simp: task_ok_def live_def t'_def)
  then have "store_ok (m_tasks m') (m_dagHeap m') (m_dags m')"
    using store_update[OF mt_ok_parts(2)[OF ok] r(1), of t'] r(2)
    by (simp add: tasks m' mt_frame) (simp add: t'_def live_def)
  ultimately show "mt_ok m'" using ok by (simp add: mt_ok_def m' mt_frame)
  show "chans_ok m \<Longrightarrow> chans_ok m'"
    by (simp add: m' mt_frame chans_ok_handler)
  show "job_step (jobs m) (jobs m')"
    unfolding jobs_update[OF tasks] using r job_start[of r "jobs m"]
    by (simp add: jobs_nth) (simp add: job_of_def phase_of_def t'_def)
qed

section \<open>Reports\<close>

text \<open>What \<open>settle_task\<close> makes of the task, in one write.\<close>

definition settled :: "gotime \<Rightarrow> any option \<Rightarrow> bool \<Rightarrow> MicroTask \<Rightarrow> MicroTask" where
  "settled now result success t =
     (if success then t\<lparr>mt_Result := result, mt_Status := ''done'', mt_UpdatedAt := now\<rparr>
      else t\<lparr>mt_Attempts := mt_Attempts t + 1,
             mt_Status := if mt_Attempts t + 1 \<le> mt_MaxRetries t then ''pending'' else ''failed'',
             mt_UpdatedAt := now\<rparr>)"

definition retried :: "bool \<Rightarrow> MicroTask \<Rightarrow> bool" where
  "retried success t \<longleftrightarrow> \<not> success \<and> mt_Attempts t + 1 \<le> mt_MaxRetries t"

lemma settle_task_run:
  assumes "r < length (m_tasks m)"
  defines "t \<equiv> m_tasks m ! r"
  shows "\<exists>m'. settle_task now uuid rootID taskID r result success m = (retried success t, m') \<and>
    m_tasks m' = (m_tasks m)[r := settled now result success t] \<and>
    m_gos m' = m_gos m @ (if retried success t then [GoSubmit rootID r] else []) \<and>
    m_dagHeap m' = m_dagHeap m \<and> m_dags m' = m_dags m \<and> m_stopped m' = m_stopped m \<and>
    waiting m' = waiting m + (if retried success t then {#r#} else {#}) \<and> executing m' = executing m \<and>
    chans_ok m' = chans_ok m"
proof -
  have w: "waiting (m\<lparr>m_gos := gs @ [GoSubmit rootID r]\<rparr>) = waiting (m\<lparr>m_gos := gs\<rparr>) + {#r#}" for m gs
    by (simp add: waiting_def)
  show ?thesis
    using assms(1) unfolding t_def
    by (cases success; cases "mt_Attempts (m_tasks m ! r) + 1 \<le> mt_MaxRetries (m_tasks m ! r)")
      (auto simp: settle_task_def settled_def retried_def Let_def addEvent_frame net_frame chans_ok_frame upd_task_def
        waiting_def executing_def chans_ok_def chans_used_def)
qed

lemma settled_status:
  "mt_Status (settled now result success t) =
     (if success then ''done'' else if mt_Attempts t + 1 \<le> mt_MaxRetries t then ''pending'' else ''failed'')"
  by (simp add: settled_def)

text \<open>A report for a task that has just left its worker.\<close>

lemma ReportResult_ok:
  assumes loc: "located (m_stopped m) (m_tasks m) (waiting m) (add_mset r (executing m))"
    and store: "store_ok (m_tasks m) (m_dagHeap m) (m_dags m)"
    and aggs: "\<forall>d. GoAggregate d \<in> set (m_gos m) \<longrightarrow> d < length (m_dagHeap m)"
    and d: "get (m_dags m) rootID = Some d" and n: "get (d_Nodes (m_dagHeap m ! d)) taskID = Some r"
  shows "mt_ok (snd (ReportResult now uuid rootID taskID result success m))"
    and "chans_ok m \<Longrightarrow> chans_ok (snd (ReportResult now uuid rootID taskID result success m))"
    and "m_tasks (snd (ReportResult now uuid rootID taskID result success m)) =
      (m_tasks m)[r := settled now result success (m_tasks m ! r)]"
proof -
  have r: "r < length (m_tasks m)" "mt_Status (m_tasks m ! r) = ''running''"
    using located_held(2)[OF loc, of r] by auto
  define t where "t = m_tasks m ! r"
  define t' where "t' = settled now result success t"
  obtain m1 where run: "settle_task now uuid rootID taskID r result success m = (retried success t, m1)"
    and tasks: "m_tasks m1 = (m_tasks m)[r := t']"
    and gos: "m_gos m1 = m_gos m @ (if retried success t then [GoSubmit rootID r] else [])"
    and frame: "m_dagHeap m1 = m_dagHeap m" "m_dags m1 = m_dags m" "m_stopped m1 = m_stopped m"
    and wait: "waiting m1 = waiting m + (if retried success t then {#r#} else {#})"
    and exec: "executing m1 = executing m" and chans: "chans_ok m1 = chans_ok m"
    using settle_task_run[OF r(1)] unfolding t_def t'_def by blast
  have tok: "task_ok t" using store_task[OF store r(1)] by (simp add: t_def)
  have t': "task_ok t'" "mt_ID t' = mt_ID t" "mt_ParentID t' = mt_ParentID t"
    using tok r(2) by (auto simp: t'_def settled_def task_ok_def live_def t_def)
  have "mt_Status t' = ''pending'' \<longleftrightarrow> retried success t" "mt_Status t' \<noteq> ''running''"
    by (auto simp: t'_def settled_status retried_def)
  then have "located (m_stopped m1) (m_tasks m1) (waiting m1) (executing m1)"
    using located_finish[OF loc, of t'] by (simp add: tasks wait exec frame split: if_splits)
  moreover have "store_ok (m_tasks m1) (m_dagHeap m1) (m_dags m1)"
    unfolding tasks frame using t' r(2)
    by (intro store_update[OF store r(1)]) (simp_all add: t_def live_def)
  ultimately have ok1: "mt_ok m1"
    using aggs by (simp add: mt_ok_def frame gos)
  have dlen: "d < length (m_dagHeap m1)" using store_dag(1)[OF store d] by (simp add: frame)
  let ?m2 = "m1\<lparr>m_gos := m_gos m1 @ [GoAggregate d]\<rparr>"
  have w2: "waiting ?m2 = waiting m1" "executing ?m2 = executing m1" by (simp_all add: waiting_def executing_def)
  have "mt_ok ?m2" using ok1 dlen unfolding mt_ok_def w2 by auto
  then have ok2: "mt_ok (forcePersist ?m2)" using core_ok forcePersist_frame(6) by blast
  have res: "snd (ReportResult now uuid rootID taskID result success m) \<in> {m1, forcePersist ?m2}"
    using d n run by (simp add: ReportResult_def Let_def)
  then show "mt_ok (snd (ReportResult now uuid rootID taskID result success m))" using ok1 ok2 by auto
  have "chans_ok ?m2 = chans_ok m1" by (simp add: chans_ok_def chans_used_def)
  then show "chans_ok m \<Longrightarrow> chans_ok (snd (ReportResult now uuid rootID taskID result success m))"
    using res chans by (auto simp: chans_ok_frame)
  show "m_tasks (snd (ReportResult now uuid rootID taskID result success m)) =
      (m_tasks m)[r := settled now result success (m_tasks m ! r)]"
    using res tasks by (auto simp: forcePersist_frame t'_def t_def)
qed

lemma job_of_settled:
  "job_of (settled now result success t) =
     (if success then (Done, mt_Attempts t, mt_MaxRetries t)
      else if mt_Attempts t + 1 \<le> mt_MaxRetries t then (Waiting, mt_Attempts t + 1, mt_MaxRetries t)
      else (Failed, mt_Attempts t + 1, mt_MaxRetries t))"
  by (simp add: job_of_def settled_def phase_of_def)

lemma job_step_settled:
  assumes "r < length (m_tasks m)" and "mt_Status (m_tasks m ! r) = ''running''"
    and "mt_Attempts (m_tasks m ! r) \<le> mt_MaxRetries (m_tasks m ! r)"
    and "job_of t = job_of (m_tasks m ! r)"
  shows "job_step (jobs m) ((jobs m)[r := job_of (settled now result success t)])"
proof -
  have js: "r < length (jobs m)" "jobs m ! r = (Running, mt_Attempts t, mt_MaxRetries t)"
    using assms by (simp_all add: jobs_nth) (simp add: job_of_def phase_of_def)
  have "mt_Attempts t \<le> mt_MaxRetries t" using assms by (simp add: job_of_def)
  then consider "success" | "\<not> success" "mt_Attempts t < mt_MaxRetries t" | "\<not> success" "mt_Attempts t = mt_MaxRetries t"
    by linarith
  then show ?thesis
    using job_succeed[OF js] job_retry[OF js] job_fail[OF js(1)] js(2)
    by cases (simp_all add: job_of_settled)
qed

lemma step_finish:
  assumes fin: "handler_finish now uuid i t' err m = Some m'" and i: "i < length (m_handlers m)"
    and run: "h_state (m_handlers m ! i) = HRun r" and eff: "handler_effect (m_tasks m ! r) t'" and ok: "mt_ok m"
  shows "mt_ok m'" and "chans_ok m \<Longrightarrow> chans_ok m'" and "job_step (jobs m) (jobs m')"
proof -
  define m0 where "m0 = upd_handler i HWait (upd_task r (\<lambda>_. t') m)"
  note ends = handler_ends[of i "upd_task r (\<lambda>_. t') m" r, unfolded upd_task_frame, OF i run]
  have e: "executing m = add_mset r (executing m0)" and w: "waiting m0 = waiting m"
    using ends by (simp_all add: m0_def)
  have loc: "located (m_stopped m) (m_tasks m) (waiting m0) (add_mset r (executing m0))"
    using mt_ok_parts(1)[OF ok] by (simp add: e w)
  have r: "r < length (m_tasks m)" "mt_Status (m_tasks m ! r) = ''running''"
    using located_held(2)[OF loc, of r] by auto
  have tasks: "m_tasks m0 = (m_tasks m)[r := t']" and frame: "m_dagHeap m0 = m_dagHeap m" "m_dags m0 = m_dags m"
      "m_stopped m0 = m_stopped m" "m_gos m0 = m_gos m"
    by (simp_all add: m0_def mt_frame)
  have same: "mt_Status t' = mt_Status (m_tasks m ! r)" "mt_ID t' = mt_ID (m_tasks m ! r)"
      "mt_ParentID t' = mt_ParentID (m_tasks m ! r)"
    using eff by (auto simp: handler_effect_def)
  have tok: "task_ok t'" using store_task[OF mt_ok_parts(2)[OF ok] r(1)] eff
    by (auto simp: handler_effect_def task_ok_def live_def)
  have loc0: "located (m_stopped m0) (m_tasks m0) (waiting m0) (add_mset r (executing m0))"
    unfolding tasks frame by (rule located_same[OF loc same(1)])
  have store0: "store_ok (m_tasks m0) (m_dagHeap m0) (m_dags m0)"
    unfolding tasks frame using same
    by (intro store_update[OF mt_ok_parts(2)[OF ok] r(1) tok]) (simp_all add: live_def)
  have "live (m_tasks m ! r)" using r(2) by (simp add: live_def)
  then obtain d where d: "get (m_dags m0) (mt_ParentID t') = Some d"
    and n: "get (d_Nodes (m_dagHeap m0 ! d)) (mt_ID t') = Some r"
    using store_live(2)[OF mt_ok_parts(2)[OF ok] r(1)] by (auto simp: frame same)
  have report: "mt_ok (snd (ReportResult now uuid (mt_ParentID t') (mt_ID t') res s m1))"
      "chans_ok m \<Longrightarrow> chans_ok (snd (ReportResult now uuid (mt_ParentID t') (mt_ID t') res s m1))"
      "m_tasks (snd (ReportResult now uuid (mt_ParentID t') (mt_ID t') res s m1)) =
        (m_tasks m0)[r := settled now res s (m_tasks m0 ! r)]"
    if m1: "m_tasks m1 = m_tasks m0" "m_dagHeap m1 = m_dagHeap m0" "m_dags m1 = m_dags m0" "m_gos m1 = m_gos m0"
      "m_stopped m1 = m_stopped m0" "waiting m1 = waiting m0" "executing m1 = executing m0" "chans_ok m1 = chans_ok m0"
    for m1 res s
    using ReportResult_ok[where m = m1 and r = r and d = d and rootID = "mt_ParentID t'" and taskID = "mt_ID t'"]
      loc0 store0 d n mt_ok_parts(3)[OF ok] chans_ok_handler[of "upd_task r (\<lambda>_. t') m" i HWait]
    unfolding m1 frame m0_def[symmetric] chans_ok_frame by blast+
  have cnt: "waiting (m\<lparr>m_failed := k\<rparr>) = waiting m" "executing (m\<lparr>m_failed := k\<rparr>) = executing m"
      "waiting (m\<lparr>m_completed := k\<rparr>) = waiting m" "executing (m\<lparr>m_completed := k\<rparr>) = executing m"
      "chans_ok (m\<lparr>m_failed := k\<rparr>) = chans_ok m" "chans_ok (m\<lparr>m_completed := k\<rparr>) = chans_ok m" for m k
    by (simp_all add: waiting_def executing_def chans_ok_def chans_used_def)
  obtain m1 res s where m': "m' = snd (ReportResult now uuid (mt_ParentID t') (mt_ID t') res s m1)"
    and "m_tasks m1 = m_tasks m0" "m_dagHeap m1 = m_dagHeap m0" "m_dags m1 = m_dags m0" "m_gos m1 = m_gos m0"
      "m_stopped m1 = m_stopped m0" "waiting m1 = waiting m0" "executing m1 = executing m0" "chans_ok m1 = chans_ok m0"
  proof (cases err)
    case None
    obtain e where "m' = snd (ReportResult now uuid (mt_ParentID t') (mt_ID t') (mt_Result t') True
        ((addEvent uuid e m0)\<lparr>m_completed := m_completed m0 + 1\<rparr>))"
      using fin run None by (auto simp: handler_finish_def Let_def m0_def)
    then show thesis by (rule that) (simp_all add: cnt addEvent_frame chans_ok_frame)
  next
    case (Some msg)
    obtain e where "m' = snd (ReportResult now uuid (mt_ParentID t') (mt_ID t') None False
        ((addEvent uuid e m0)\<lparr>m_failed := m_failed m0 + 1\<rparr>))"
      using fin run Some by (auto simp: handler_finish_def Let_def m0_def)
    then show thesis by (rule that) (simp_all add: cnt addEvent_frame chans_ok_frame)
  qed
  then have "m_tasks m' = (m_tasks m)[r := settled now res s t']" and "mt_ok m'" and "chans_ok m \<longrightarrow> chans_ok m'"
    using report r(1) by (simp_all add: tasks)
  moreover have "job_of t' = job_of (m_tasks m ! r)" using eff by (simp add: job_of_def handler_effect_def)
  moreover have "mt_Attempts (m_tasks m ! r) \<le> mt_MaxRetries (m_tasks m ! r)"
    using store_task[OF mt_ok_parts(2)[OF ok] r(1)] r(2) by (simp add: task_ok_def live_def)
  ultimately show "mt_ok m'" and "chans_ok m \<Longrightarrow> chans_ok m'" and "job_step (jobs m) (jobs m')"
    using job_step_settled[OF r] by (simp_all add: jobs_update)
qed

section \<open>Slices, aggregation and the remaining goroutines\<close>

lemma dec_no_dash: "CHR ''-'' \<notin> set (dec n)"
proof (induction n rule: dec.induct)
  case (1 n)
  have digit: "digit d \<noteq> CHR ''-''" if "d < 10" for d
  proof
    assume "digit d = CHR ''-''"
    then have "of_char (digit d) = (of_char CHR ''-'' :: nat)" by simp
    then show False using that by (simp add: digit_def)
  qed
  show ?case using 1 digit[of n] digit[of "n mod 10"] by (subst dec.simps) auto
qed

lemma slice_id_inj: "slice_id rootID n i = slice_id rootID n' i' \<longleftrightarrow> n = n' \<and> i = i'"
proof
  assume "slice_id rootID n i = slice_id rootID n' i'"
  then have "dec n @ CHR ''-'' # dec i = dec n' @ CHR ''-'' # dec i'" by (simp add: slice_id_def)
  then have "split_first CHR ''-'' (dec n @ CHR ''-'' # dec i) = split_first CHR ''-'' (dec n' @ CHR ''-'' # dec i')" by simp
  then show "n = n' \<and> i = i'" using split_first_append[OF dec_no_dash] by (simp add: dec_inj)
qed simp

lemma slice_id_root: "slice_id rootID n i \<noteq> rootID"
  by (simp add: slice_id_def)

lemma mt_ok_node:
  "mt_ok m \<Longrightarrow> get (m_dags m) k = Some d \<Longrightarrow> get (d_Nodes (m_dagHeap m ! d)) i = Some r \<Longrightarrow> r < length (m_tasks m)"
  using store_node(1) store_dag(1) mt_ok_parts(2) by blast

lemma mt_ok_upd_task:
  assumes ok: "mt_ok m" and r: "r < length (m_tasks m)" and f: "handler_effect (m_tasks m ! r) (f (m_tasks m ! r))"
  shows "mt_ok (upd_task r f m)"
proof -
  let ?t = "m_tasks m ! r" and ?t' = "f (m_tasks m ! r)"
  have same: "mt_Status ?t' = mt_Status ?t" "mt_ID ?t' = mt_ID ?t" "mt_ParentID ?t' = mt_ParentID ?t"
    using f by (auto simp: handler_effect_def)
  have "task_ok ?t'" using store_task[OF mt_ok_parts(2)[OF ok] r] f
    by (auto simp: handler_effect_def task_ok_def live_def)
  then have "store_ok ((m_tasks m)[r := ?t']) (m_dagHeap m) (m_dags m)"
    using same by (intro store_update[OF mt_ok_parts(2)[OF ok] r]) (simp_all add: live_def)
  then show ?thesis
    using located_same[OF mt_ok_parts(1)[OF ok] same(1)] ok by (simp add: mt_ok_def upd_task_frame)
qed

lemma mt_ok_addEvent [simp]: "mt_ok (addEvent uuid e m) = mt_ok m"
  by (rule core_ok) (simp add: addEvent_frame)

lemma mt_ok_forcePersist [simp]: "mt_ok (forcePersist m) = mt_ok m"
  by (rule core_ok) (simp add: forcePersist_frame)

lemma step_progress:
  "mt_ok m \<Longrightarrow> mt_ok (snd (UpdateProgress now uuid rootID taskID p m))"
  "chans_ok m \<Longrightarrow> chans_ok (snd (UpdateProgress now uuid rootID taskID p m))"
  "jobs (snd (UpdateProgress now uuid rootID taskID p m)) = jobs m"
proof -
  show "mt_ok m \<Longrightarrow> mt_ok (snd (UpdateProgress now uuid rootID taskID p m))"
    using mt_ok_node
    by (auto simp: UpdateProgress_def Let_def handler_effect_def intro!: mt_ok_upd_task split: option.split)
  show "chans_ok m \<Longrightarrow> chans_ok (snd (UpdateProgress now uuid rootID taskID p m))"
    by (auto simp: UpdateProgress_def Let_def mt_frame split: option.split)
  have "job_of (t\<lparr>mt_Progress := q, mt_UpdatedAt := now\<rparr>) = job_of t" for t q by (simp add: job_of_def)
  then show "jobs (snd (UpdateProgress now uuid rootID taskID p m)) = jobs m"
    by (auto simp: UpdateProgress_def Let_def mt_frame jobs_def map_update list_update_same_conv split: option.split)
      (metis length_map list_update_beyond list_update_id not_less nth_map)
qed

lemma step_create:
  assumes "get (m_dags m) rootID = None"
  shows "mt_ok m \<Longrightarrow> mt_ok (snd (CreateDAG rootID m))" and "chans_ok m \<Longrightarrow> chans_ok (snd (CreateDAG rootID m))"
proof -
  let ?m = "snd (CreateDAG rootID m)"
  have frame: "m_tasks ?m = m_tasks m" "waiting ?m = waiting m" "executing ?m = executing m" "m_gos ?m = m_gos m"
    "m_stopped ?m = m_stopped m" "chans_used ?m = chans_used m" "m_chans ?m = m_chans m"
    by (simp_all add: CreateDAG_def Let_def waiting_def executing_def chans_used_def)
  have heap: "m_dagHeap ?m = m_dagHeap m @ [\<lparr>d_RootID = rootID, d_Nodes = [], d_Edges = []\<rparr>]"
    "m_dags ?m = put rootID (length (m_dagHeap m)) (m_dags m)"
    by (simp_all add: CreateDAG_def Let_def)
  show "mt_ok m \<Longrightarrow> mt_ok ?m"
    using store_new_dag[of "m_tasks m" "m_dagHeap m" "m_dags m", OF _ assms]
    unfolding mt_ok_def frame heap by auto
  show "chans_ok m \<Longrightarrow> chans_ok ?m" by (simp add: chans_ok_def frame)
qed

lemma slice_one_ok:
  assumes ok: "mt_ok m" and d: "get (m_dags m) rootID = Some d"
    and new: "get (d_Nodes (m_dagHeap m ! d)) (slice_id rootID (sr_nano (rd i)) i) = None"
    and m'_def: "m' = slice_one rootID payload d rd m i"
  shows "mt_ok m'" and "m_dags m' = m_dags m" and "chans_ok m \<Longrightarrow> chans_ok m'" and "job_step (jobs m) (jobs m')"
    and "get (d_Nodes (m_dagHeap m' ! d)) k =
      (if k = slice_id rootID (sr_nano (rd i)) i then Some (length (m_tasks m)) else get (d_Nodes (m_dagHeap m ! d)) k)"
proof -
  define mt where "mt = new_slice rootID payload (rd i) i"
  define g where "g = (m_dagHeap m ! d)\<lparr>d_Nodes := put (mt_ID mt) (length (m_tasks m)) (d_Nodes (m_dagHeap m ! d)),
      d_Edges := put rootID (edges_of (m_dagHeap m ! d) rootID @ [mt_ID mt]) (d_Edges (m_dagHeap m ! d))\<rparr>"
  have frame: "m_tasks m' = m_tasks m @ [mt]" "m_dagHeap m' = (m_dagHeap m)[d := g]" "m_dags m' = m_dags m"
      "m_gos m' = m_gos m @ [GoSubmit rootID (length (m_tasks m))]" "m_stopped m' = m_stopped m"
      "waiting m' = add_mset (length (m_tasks m)) (waiting m)" "executing m' = executing m"
      "chans_used m' = chans_used m" "m_chans m' = m_chans m"
    by (simp_all add: m'_def slice_one_def Let_def addEvent_def upd_dag_def mt_def g_def waiting_def executing_def
        chans_used_def)
  have mt: "mt_ID mt = slice_id rootID (sr_nano (rd i)) i" "mt_ParentID mt = rootID" "mt_Status mt = ''pending''"
      "task_ok mt"
    by (simp_all add: mt_def new_slice_def task_ok_def live_def slice_id_root)
  note store = mt_ok_parts(2)[OF ok]
  have dlen: "d < length (m_dagHeap m)" and root: "d_RootID (m_dagHeap m ! d) = rootID"
    using store_dag[OF store d] by auto
  have "store_ok (m_tasks m') (m_dagHeap m') (m_dags m')"
    unfolding frame
    by (rule store_new_node[OF store dlen]) (use new mt root d slice_id_root in \<open>simp_all add: g_def\<close>)
  moreover have "located (m_stopped m') (m_tasks m') (waiting m') (executing m')"
    unfolding frame by (rule located_new(2)[OF mt_ok_parts(1)[OF ok] mt(3)])
  ultimately show "mt_ok m'" using ok by (auto simp: mt_ok_def frame)
  show "m_dags m' = m_dags m" by (rule frame)
  have "job_of mt = (Waiting, 0, 3)" by (simp add: job_of_def phase_of_def mt_def new_slice_def)
  then show "job_step (jobs m) (jobs m')" using job_new[of "jobs m"] by (simp add: jobs_def frame)
  show "chans_ok m \<Longrightarrow> chans_ok m'" by (simp add: chans_ok_def frame)
  show "get (d_Nodes (m_dagHeap m' ! d)) k =
      (if k = slice_id rootID (sr_nano (rd i)) i then Some (length (m_tasks m)) else get (d_Nodes (m_dagHeap m ! d)) k)"
    using dlen by (simp add: frame g_def get_put mt)
qed

lemma slices_ok:
  assumes "mt_ok m" and "get (m_dags m) rootID = Some d"
    and "\<forall>i < n. get (d_Nodes (m_dagHeap m ! d)) (slice_id rootID (sr_nano (rd i)) i) = None"
  shows "mt_ok (foldl (slice_one rootID payload d rd) m [0..<n]) \<and>
    m_dags (foldl (slice_one rootID payload d rd) m [0..<n]) = m_dags m \<and>
    job_steps (jobs m) (jobs (foldl (slice_one rootID payload d rd) m [0..<n])) \<and>
    (chans_ok m \<longrightarrow> chans_ok (foldl (slice_one rootID payload d rd) m [0..<n])) \<and>
    (\<forall>k. (\<forall>i < n. k \<noteq> slice_id rootID (sr_nano (rd i)) i) \<longrightarrow>
      get (d_Nodes (m_dagHeap (foldl (slice_one rootID payload d rd) m [0..<n]) ! d)) k = get (d_Nodes (m_dagHeap m ! d)) k)"
  using assms(3)
proof (induction n)
  case 0
  then show ?case using assms(1) by simp
next
  case (Suc n)
  define m1 where "m1 = foldl (slice_one rootID payload d rd) m [0..<n]"
  have ih: "mt_ok m1" "m_dags m1 = m_dags m" "job_steps (jobs m) (jobs m1)" "chans_ok m \<longrightarrow> chans_ok m1"
      "\<forall>k. (\<forall>i < n. k \<noteq> slice_id rootID (sr_nano (rd i)) i) \<longrightarrow>
        get (d_Nodes (m_dagHeap m1 ! d)) k = get (d_Nodes (m_dagHeap m ! d)) k"
    using Suc unfolding m1_def by auto
  have step: "foldl (slice_one rootID payload d rd) m [0..<Suc n] = slice_one rootID payload d rd m1 n"
    by (simp add: m1_def)
  have new: "get (d_Nodes (m_dagHeap m1 ! d)) (slice_id rootID (sr_nano (rd n)) n) = None"
    using ih(5) Suc.prems by (simp add: slice_id_inj)
  have dag: "get (m_dags m1) rootID = Some d" using ih(2) assms(2) by simp
  note one = slice_one_ok[where m = m1 and i = n and rd = rd and rootID = rootID and d = d and payload = payload,
      OF ih(1) dag new refl]
  show ?case
    unfolding step
  proof (intro conjI)
    show "job_steps (jobs m) (jobs (slice_one rootID payload d rd m1 n))"
      by (rule rtranclp.rtrancl_into_rtrancl[OF ih(3) one(4)])
  qed (use one(1-3,5) ih(2,4,5) in \<open>simp_all add: less_Suc_eq\<close>)
qed

lemma step_slice:
  assumes "fresh_slices rootID n rd m" and "mt_ok m"
  shows "mt_ok (snd (SliceTask rootID payload n rd m))" and "chans_ok m \<Longrightarrow> chans_ok (snd (SliceTask rootID payload n rd m))"
    and "job_steps (jobs m) (jobs (snd (SliceTask rootID payload n rd m)))"
proof -
  have "\<exists>d m0. (case get (m_dags m) rootID of Some d \<Rightarrow> (d, m) | None \<Rightarrow> CreateDAG rootID m) = (d, m0) \<and>
      mt_ok m0 \<and> (chans_ok m \<longrightarrow> chans_ok m0) \<and> jobs m0 = jobs m \<and> get (m_dags m0) rootID = Some d \<and>
      (\<forall>i < num_slices n. get (d_Nodes (m_dagHeap m0 ! d)) (slice_id rootID (sr_nano (rd i)) i) = None)"
  proof (cases "get (m_dags m) rootID")
    case None
    then show ?thesis using step_create[OF None] assms(2) by (simp add: CreateDAG_def Let_def get_put jobs_def)
  next
    case (Some d)
    then show ?thesis using assms by (simp add: fresh_slices_def)
  qed
  then obtain d m0 where start: "(case get (m_dags m) rootID of Some d \<Rightarrow> (d, m) | None \<Rightarrow> CreateDAG rootID m) = (d, m0)"
    and m0: "mt_ok m0" "chans_ok m \<longrightarrow> chans_ok m0" "jobs m0 = jobs m" "get (m_dags m0) rootID = Some d"
      "\<forall>i < num_slices n. get (d_Nodes (m_dagHeap m0 ! d)) (slice_id rootID (sr_nano (rd i)) i) = None"
    by blast
  have "snd (SliceTask rootID payload n rd m) = forcePersist (foldl (slice_one rootID payload d rd) m0 [0..<num_slices n])"
    using start by (simp add: SliceTask_def Let_def)
  then show "mt_ok (snd (SliceTask rootID payload n rd m))"
    and "chans_ok m \<Longrightarrow> chans_ok (snd (SliceTask rootID payload n rd m))"
    and "job_steps (jobs m) (jobs (snd (SliceTask rootID payload n rd m)))"
    using slices_ok[where payload = payload, OF m0(1,4,5)] m0(2) unfolding m0(3)
    by (simp_all only: mt_ok_forcePersist chans_ok_frame jobs_same[OF forcePersist_frame(1)] simp_thms)
qed

lemma located_quiet:
  "located st ts w e \<Longrightarrow> \<not> live (ts ! r) \<Longrightarrow> \<not> live t' \<Longrightarrow> located st (ts[r := t']) w e"
proof -
  assume "\<not> live (ts ! r)" "\<not> live t'"
  then have same: "mt_Status (ts[r := t'] ! q) = ''pending'' \<longleftrightarrow> mt_Status (ts ! q) = ''pending''"
    "mt_Status (ts[r := t'] ! q) = ''running'' \<longleftrightarrow> mt_Status (ts ! q) = ''running''" for q
    by (cases "q = r"; cases "r < length ts"; auto simp: live_def list_update_beyond)+
  show "located st ts w e \<Longrightarrow> located st (ts[r := t']) w e" unfolding located_def length_list_update same .
qed

lemma mt_ok_dropped:
  assumes "mt_ok m" and "m_stopped m" and "waiting m = waiting m' + lost" and "executing m' = executing m"
    and "m_tasks m' = m_tasks m" and "m_dagHeap m' = m_dagHeap m" and "m_dags m' = m_dags m"
    and "set (m_gos m') \<subseteq> set (m_gos m)" and "m_stopped m' = m_stopped m"
  shows "mt_ok m'"
proof -
  have "located True (m_tasks m) (waiting m' + lost) (executing m)"
    using mt_ok_parts(1)[OF assms(1)] assms(2,3) by simp
  then have "located True (m_tasks m') (waiting m') (executing m')"
    using located_dropped[of True "m_tasks m" "waiting m'" lost "executing m"] assms(4,5) by simp
  then show ?thesis using assms unfolding mt_ok_def by auto
qed

lemma aggregate_ok:
  assumes ok: "mt_ok m" and d: "d < length (m_dagHeap m)"
  shows "mt_ok (aggregateResults now uuid d m)" and "chans_ok m \<Longrightarrow> chans_ok (aggregateResults now uuid d m)"
proof -
  define g where "g = m_dagHeap m ! d"
  define out where "out = m_agg m (done_results m g (edges_of g (d_RootID g)))"
  note store = mt_ok_parts(2)[OF ok]
  have "mt_ok (aggregateResults now uuid d m) \<and> (chans_ok m \<longrightarrow> chans_ok (aggregateResults now uuid d m))"
  proof (cases "get (d_Nodes g) (d_RootID g)")
    case (Some r)
    define t' where "t' = (m_tasks m ! r)\<lparr>mt_Result := out, mt_Status := ''done'', mt_UpdatedAt := now\<rparr>"
    define m1 where "m1 = upd_task r (\<lambda>t. t\<lparr>mt_Result := out, mt_Status := ''done'', mt_UpdatedAt := now\<rparr>) m"
    have r: "r < length (m_tasks m)" and "mt_ID (m_tasks m ! r) = d_RootID g"
      and "mt_ParentID (m_tasks m ! r) = d_RootID g \<or> mt_Status (m_tasks m ! r) = ''done''"
      using store_node[OF store d, of "d_RootID g" r] Some by (auto simp: g_def)
    then have "mt_Status (m_tasks m ! r) = ''done''" using store_task[OF store r] by (auto simp: task_ok_def)
    then have quiet: "\<not> live (m_tasks m ! r)" by (simp add: live_def)
    have "task_ok t'" using store_task[OF store r] by (auto simp: t'_def task_ok_def live_def)
    then have "store_ok ((m_tasks m)[r := t']) (m_dagHeap m) (m_dags m)"
      by (intro store_update[OF store r]) (simp_all add: t'_def live_def)
    moreover have "located (m_stopped m) ((m_tasks m)[r := t']) (waiting m) (executing m)"
      using quiet by (intro located_quiet[OF mt_ok_parts(1)[OF ok]]) (simp_all add: t'_def live_def)
    ultimately have "mt_ok m1" using ok by (simp add: mt_ok_def m1_def upd_task_frame t'_def)
    moreover obtain e where "aggregateResults now uuid d m = addEvent uuid e m1"
      using Some by (simp add: aggregateResults_def Let_def g_def out_def m1_def)
    ultimately show ?thesis by (simp add: chans_ok_frame m1_def)
  next
    case None
    define t where "t = \<lparr>mt_ID = d_RootID g, mt_ParentID = '''', mt_Payload = [], mt_Status = ''done'',
        mt_AssignedTo = '''', mt_Result = out, mt_CreatedAt = 0, mt_UpdatedAt = now, mt_Attempts = 0,
        mt_MaxRetries = 0, mt_Meta = [], mt_Progress = 0, mt_TraceID = '''', mt_TTL = None\<rparr>"
    define g' where "g' = g\<lparr>d_Nodes := put (d_RootID g) (length (m_tasks m)) (d_Nodes g)\<rparr>"
    define m1 where "m1 = (upd_dag d (\<lambda>_. g') m)\<lparr>m_tasks := m_tasks m @ [t]\<rparr>"
    have frame: "m_tasks m1 = m_tasks m @ [t]" "m_dagHeap m1 = (m_dagHeap m)[d := g']" "m_dags m1 = m_dags m"
        "m_gos m1 = m_gos m" "m_stopped m1 = m_stopped m" "waiting m1 = waiting m" "executing m1 = executing m"
        "chans_used m1 = chans_used m" "m_chans m1 = m_chans m"
      by (simp_all add: m1_def upd_dag_def waiting_def executing_def chans_used_def)
    have "store_ok (m_tasks m @ [t]) ((m_dagHeap m)[d := g']) (m_dags m)"
      by (rule store_new_node[OF store d])
        (use None in \<open>simp_all add: g'_def t_def g_def task_ok_def live_def\<close>)
    moreover have "located (m_stopped m) (m_tasks m @ [t]) (waiting m) (executing m)"
      by (rule located_new(1)[OF mt_ok_parts(1)[OF ok]]) (simp add: t_def)
    ultimately have "mt_ok m1" using ok by (simp add: mt_ok_def frame)
    moreover obtain e where "aggregateResults now uuid d m = addEvent uuid e m1"
      using None by (simp add: aggregateResults_def Let_def g_def out_def m1_def t_def g'_def upd_dag_def)
    ultimately show ?thesis by (simp add: chans_ok_frame) (simp add: chans_ok_def frame)
  qed
  then show "mt_ok (aggregateResults now uuid d m)" and "chans_ok m \<Longrightarrow> chans_ok (aggregateResults now uuid d m)"
    by blast+
qed

lemma mt_ok_remaining:
  assumes "mt_ok m" and "g \<in> set (m_gos m)" and "go_holds g = []"
  shows "mt_ok (m\<lparr>m_gos := remove1 g (m_gos m)\<rparr>)"
proof -
  have "held go_holds (remove1 g (m_gos m)) = held go_holds (m_gos m)"
    using held_remove1[OF assms(2), of go_holds] assms(3) by simp
  then have "waiting (m\<lparr>m_gos := remove1 g (m_gos m)\<rparr>) = waiting m" by (simp add: waiting_def)
  moreover have "executing (m\<lparr>m_gos := remove1 g (m_gos m)\<rparr>) = executing m" by (simp add: executing_def)
  moreover have "set (remove1 g (m_gos m)) \<subseteq> set (m_gos m)" by (rule set_remove1_subset)
  ultimately show ?thesis using assms(1) unfolding mt_ok_def by auto
qed

text \<open>A submission moves the task from its goroutine to the queue, or to the dispatcher.\<close>

lemma send_events_moves:
  assumes "send_events r m = Some m'"
  shows "waiting m' = add_mset r (waiting m)" and "executing m' = executing m"
    and "m_tasks m' = m_tasks m" and "m_dagHeap m' = m_dagHeap m" and "m_dags m' = m_dags m"
    and "m_gos m' = m_gos m" and "m_stopped m' = m_stopped m" and "chans_ok m \<Longrightarrow> chans_ok m'"
proof -
  show "waiting m' = add_mset r (waiting m)" "executing m' = executing m" "m_tasks m' = m_tasks m"
    "m_dagHeap m' = m_dagHeap m" "m_dags m' = m_dags m" "m_gos m' = m_gos m" "m_stopped m' = m_stopped m"
    using assms
    by (auto simp: send_events_def try_send_def waiting_def executing_def split: option.splits if_splits)
  have "chans_used m' \<subseteq> chans_used m" "m_chans m' = m_chans m"
    using assms by (auto simp: send_events_def chans_used_def split: option.splits if_splits)
  then show "chans_ok m \<Longrightarrow> chans_ok m'" by (elim chans_ok_mono) simp_all
qed

text \<open>The submission of a stopped manager may also give up.\<close>

lemma SubmitTask_sends:
  assumes "SubmitTask now uuid arm rootID r m = Some m'"
  obtains (sent) m1 e k where "send_events r m = Some m1" and "m' = addEvent uuid e (m1\<lparr>m_dispatched := k\<rparr>)"
    | (gone) "m_stopped m" and "m' = m"
proof (cases "arm = ArmSend")
  case True
  then obtain m1 where m1: "send_events r m = Some m1"
    using assms by (simp add: SubmitTask_def SubmitTaskCtx_def split: option.splits)
  have "m' = addEvent uuid
      ((event now EventTaskDispatched)\<lparr>e_TaskID := mt_ID (m_tasks m1 ! r), e_ParentID := rootID,
         e_TraceID := mt_TraceID (m_tasks m1 ! r)\<rparr>) (m1\<lparr>m_dispatched := m_dispatched m1 + 1\<rparr>)"
    using True assms m1 by (simp add: SubmitTask_def SubmitTaskCtx_def Let_def)
  then show ?thesis by (rule sent[OF m1])
next
  case False
  then have "m_stopped m \<and> m' = m"
    using assms by (cases arm) (simp_all add: SubmitTask_def SubmitTaskCtx_def split: if_splits)
  then show ?thesis using gone by blast
qed

lemma step_submit:
  assumes run: "SubmitTask now uuid arm rootID r (m\<lparr>m_gos := remove1 (GoSubmit rootID r) (m_gos m)\<rparr>) = Some m'"
    and g: "GoSubmit rootID r \<in> set (m_gos m)" and ok: "mt_ok m"
  shows "mt_ok m'" and "chans_ok m \<Longrightarrow> chans_ok m'"
proof -
  define m0 where "m0 = m\<lparr>m_gos := remove1 (GoSubmit rootID r) (m_gos m)\<rparr>"
  have "held go_holds (m_gos m) = add_mset r (held go_holds (m_gos m0))"
    using held_remove1[OF g, of go_holds] by (simp add: m0_def)
  then have w0: "waiting m = add_mset r (waiting m0)" by (simp add: waiting_def m0_def)
  have e0: "executing m0 = executing m" by (simp add: executing_def m0_def)
  have c0: "chans_ok m \<Longrightarrow> chans_ok m0" by (simp add: chans_ok_def chans_used_def m0_def)
  have fewer: "set (m_gos m0) \<subseteq> set (m_gos m)"
    using set_remove1_subset[of "GoSubmit rootID r" "m_gos m"] by (simp add: m0_def)
  have "mt_ok m' \<and> (chans_ok m \<longrightarrow> chans_ok m')"
    using run[folded m0_def]
  proof (cases rule: SubmitTask_sends)
    case (sent m1 e k)
    have "waiting m' = waiting m" "executing m' = executing m"
      using send_events_moves(1,2)[OF sent(1)] w0 e0 by (simp_all add: sent(2) addEvent_frame waiting_def executing_def)
    moreover have "m_tasks m' = m_tasks m" "m_dagHeap m' = m_dagHeap m" "m_dags m' = m_dags m" "m_stopped m' = m_stopped m"
        "set (m_gos m') \<subseteq> set (m_gos m)"
      using send_events_moves[OF sent(1)] fewer by (simp_all add: sent(2) addEvent_frame) (simp_all add: m0_def)
    ultimately have "mt_ok m'" using ok unfolding mt_ok_def by auto
    then show ?thesis
      using send_events_moves(8)[OF sent(1)] c0 by (simp add: sent(2) chans_ok_frame) (simp add: chans_ok_def chans_used_def)
  next
    case gone
    have "mt_ok m0"
      by (rule mt_ok_dropped[OF ok _ _ e0, of "{#r#}"]) (use gone(1) w0 fewer in \<open>simp_all add: m0_def\<close>)
    then show ?thesis using gone(2) c0 by simp
  qed
  then show "mt_ok m'" "chans_ok m \<Longrightarrow> chans_ok m'" by blast+
qed

lemma step_go:
  assumes run: "go_step now uuid arm io g m = Some m'" and ok: "mt_ok m" and chans: "chans_ok m"
  shows "mt_ok m'" and "chans_ok m'"
proof -
  have g: "g \<in> set (m_gos m)" using run by (auto simp: go_step_def split: if_splits)
  have "mt_ok m' \<and> chans_ok m'"
  proof (cases g)
    case (GoSubmit rootID r)
    then show ?thesis using step_submit[of now uuid arm rootID r m m'] run g ok chans
      by (simp add: go_step_def)
  next
    case (GoRequeue r)
    let ?gos = "remove1 g (m_gos m) @ [GoSubmit (mt_ParentID (m_tasks m ! r)) r]"
    let ?rest = "m\<lparr>m_gos := remove1 g (m_gos m)\<rparr>"
    have "m' = m\<lparr>m_gos := ?gos\<rparr> \<or> m_stopped m \<and> m' = ?rest"
      using run g GoRequeue by (simp add: go_step_def Let_def split: if_splits)
    then consider "m' = m\<lparr>m_gos := ?gos\<rparr>" | "m_stopped m" "m' = ?rest" by blast
    then show ?thesis
    proof cases
    case 2
    have "waiting m = waiting ?rest + {#r#}"
      using held_remove1[OF g, of go_holds] GoRequeue by (simp add: waiting_def)
    then have "mt_ok ?rest"
      by (rule mt_ok_dropped[OF ok 2(1)]) (simp_all add: executing_def set_remove1_subset)
    then show ?thesis using 2(2) chans by (simp add: chans_ok_def chans_used_def)
    next
    case 1
    note m' = 1
    have "held go_holds ?gos = held go_holds (m_gos m)"
      using held_remove1[OF g, of go_holds] GoRequeue by simp
    then have "waiting m' = waiting m" "executing m' = executing m"
      by (simp_all add: m' waiting_def executing_def)
    moreover have "set ?gos \<subseteq> insert (GoSubmit (mt_ParentID (m_tasks m ! r)) r) (set (m_gos m))"
      using set_remove1_subset[of g "m_gos m"] by auto
    ultimately show ?thesis using ok chans by (auto simp: mt_ok_def m' chans_ok_def chans_used_def)
    qed
  next
    case (GoAggregate d)
    have "d < length (m_dagHeap m)" using mt_ok_parts(3)[OF ok] g GoAggregate by simp
    moreover have "mt_ok (m\<lparr>m_gos := remove1 g (m_gos m)\<rparr>)" using mt_ok_remaining[OF ok g] GoAggregate by simp
    moreover have "chans_ok (m\<lparr>m_gos := remove1 g (m_gos m)\<rparr>)" using chans by (simp add: chans_ok_def chans_used_def)
    ultimately show ?thesis
      using aggregate_ok[of "m\<lparr>m_gos := remove1 g (m_gos m)\<rparr>" d now uuid] run g GoAggregate
      by (auto simp: go_step_def Let_def)
  next
    case GoPersist
    have drain: "core (m\<lparr>m_persistCh := c\<rparr>) = core m" "chans_ok (m\<lparr>m_persistCh := c\<rparr>) = chans_ok m" for c
      by (simp_all add: core_def waiting_def executing_def chans_ok_def chans_used_def)
    have rest: "mt_ok (m\<lparr>m_gos := remove1 g (m_gos m)\<rparr>)" using mt_ok_remaining[OF ok g] GoPersist by simp
    have chans': "chans_ok (m\<lparr>m_gos := remove1 g (m_gos m)\<rparr>)" using chans by (simp add: chans_ok_def chans_used_def)
    have "core m' = core m \<and> chans_ok m' \<or> m' = m\<lparr>m_gos := remove1 g (m_gos m)\<rparr>"
      using run g GoPersist step_save chans drain
      by (auto simp: go_step_def Let_def split: arm.splits option.splits if_splits)
    then show ?thesis using core_ok ok rest chans' by blast
  qed
  then show "mt_ok m'" "chans_ok m'" by blast+
qed

text \<open>Stopping closes the workers' channels, and the dispatcher and the handlers leave.\<close>

lemma stop_workers_frame:
  fixes uuid :: string and now :: gotime
  defines "close \<equiv> \<lambda>m (i, ch). addEvent uuid ((event now EventWorkerDereg)\<lparr>e_WorkerID := i,
      e_Msg := ''manager stop closed worker''\<rparr>) (close_worker i ch m)"
  shows "core (foldl close m ws) = core m \<and> (chans_ok m \<longrightarrow> chans_ok (foldl close m ws))"
proof (induction ws arbitrary: m)
  case (Cons w ws)
  have "core (close m w) = core m \<and> (chans_ok m \<longrightarrow> chans_ok (close m w))"
    using step_close by (cases w) (auto simp: close_def mt_frame)
  then show ?case using Cons[of "close m w"] by simp
qed simp

lemma step_stop:
  assumes ok: "mt_ok m"
  shows "mt_ok (Stop now uuid m)" and "chans_ok m \<Longrightarrow> chans_ok (Stop now uuid m)"
    and "m_tasks (Stop now uuid m) = m_tasks m"
proof -
  let ?m = "forcePersist (m\<lparr>m_stopped := True\<rparr>)"
  have w: "waiting (m\<lparr>m_stopped := True\<rparr>) = waiting m" "executing (m\<lparr>m_stopped := True\<rparr>) = executing m"
    by (simp_all add: waiting_def executing_def)
  have "located True (m_tasks m) (waiting m) (executing m)"
    using mt_ok_parts(1)[OF ok] unfolding located_def by blast
  then have "mt_ok (m\<lparr>m_stopped := True\<rparr>)" using ok by (simp add: mt_ok_def w)
  then have m: "mt_ok ?m" by simp
  have c: "chans_ok ?m = chans_ok m" by (simp add: chans_ok_frame) (simp add: chans_ok_def chans_used_def)
  have f: "core (Stop now uuid m) = core ?m" "chans_ok ?m \<longrightarrow> chans_ok (Stop now uuid m)"
    using stop_workers_frame[where m = ?m and ws = "m_workers ?m" and uuid = uuid and now = now]
    by (simp_all add: Stop_def Let_def)
  show "mt_ok (Stop now uuid m)" using core_ok[OF f(1)] m by simp
  show "chans_ok m \<Longrightarrow> chans_ok (Stop now uuid m)" using f(2) c by simp
  show "m_tasks (Stop now uuid m) = m_tasks m" using f(1) by (simp add: core_def forcePersist_frame)
qed

lemma step_disp_stop:
  assumes "disp_stop m = Some m'" and ok: "mt_ok m"
  shows "mt_ok m'" and "chans_ok m \<Longrightarrow> chans_ok m'" and "m_tasks m' = m_tasks m"
proof -
  have m': "m' = m\<lparr>m_disp := DExit\<rparr>" and st: "m_stopped m" using assms(1) by (auto simp: disp_stop_def split: if_splits)
  show "mt_ok m'"
    by (rule mt_ok_dropped[OF ok st, of _ "mset (disp_holds (m_disp m))"]) (simp_all add: m' waiting_def executing_def)
  show "chans_ok m \<Longrightarrow> chans_ok m'" unfolding m' by (rule chans_ok_disp) simp_all
  show "m_tasks m' = m_tasks m" by (simp add: m')
qed

lemma step_handler_stop:
  assumes "handler_stop i m = Some m'"
  shows "core m' = core m" and "chans_ok m \<Longrightarrow> chans_ok m'"
proof -
  let ?h = "(m_handlers m ! i)\<lparr>h_state := HExit\<rparr>"
  have m': "m' = upd_handler i HExit m" and wait: "h_state (m_handlers m ! i) = HWait"
    using assms by (auto simp: handler_stop_def split: if_splits)
  have "held got ((m_handlers m)[i := ?h]) = held got (m_handlers m)"
    "held runs ((m_handlers m)[i := ?h]) = held runs (m_handlers m)"
    using wait by (auto simp: got_def runs_def intro!: held_same)
  then show "core m' = core m" by (simp add: m' core_def waiting_def executing_def upd_handler_def)
  show "chans_ok m \<Longrightarrow> chans_ok m'" unfolding m' by (rule chans_ok_handler)
qed

lemma mt_step_ok:
  assumes "mt_step m m'" and ok: "mt_ok m" and chans: "chans_ok m"
  shows "mt_ok m' \<and> chans_ok m'"
  using assms(1)
proof (cases rule: mt_step.cases)
  case (st_slice rootID n rd payload)
  then show ?thesis using step_slice[OF st_slice(2) ok] chans by simp
next
  case (st_create rootID)
  then show ?thesis using step_create[OF st_create(2)] ok chans by simp
next
  case (st_progress now uuid rootID taskID p)
  then show ?thesis using step_progress ok chans by simp
next
  case (st_register now uuid wid buf)
  then show ?thesis using step_register[OF st_register] core_ok ok chans by blast
next
  case (st_deregister now uuid wid)
  then show ?thesis using step_deregister core_ok ok chans by blast
next
  case (st_aggregator a)
  then show ?thesis using step_aggregator core_ok ok chans by blast
next
  case (st_persist now uuid mkdir io dir interval)
  then show ?thesis using step_persist core_ok ok chans by blast
next
  case (st_save now uuid io)
  then show ?thesis using step_save core_ok ok chans by blast
next
  case (st_go now uuid arm io g)
  then show ?thesis using step_go[OF st_go ok chans] by simp
next
  case st_receive
  then show ?thesis using step_receive[OF st_receive] core_ok ok chans by blast
next
  case (st_try now uuid)
  then show ?thesis using step_try[OF st_try chans] core_ok ok by blast
next
  case (st_send now uuid)
  then show ?thesis using step_send[OF st_send chans] core_ok ok by blast
next
  case st_timeout
  then show ?thesis using step_timeout[OF st_timeout] core_ok ok chans by blast
next
  case (st_take i)
  then show ?thesis using step_take[OF st_take(2,1) chans] core_ok ok by blast
next
  case (st_start i now uuid)
  then show ?thesis using step_start[OF st_start(2,1) ok] chans by simp
next
  case (st_finish i r t' now uuid err)
  then show ?thesis using step_finish[OF st_finish(4,1,2,3) ok] chans by simp
next
  case (st_stop now uuid)
  then show ?thesis using step_stop[OF ok] chans by simp
next
  case st_disp_stop
  then show ?thesis using step_disp_stop[OF st_disp_stop ok] chans by simp
next
  case (st_handler_stop i)
  then show ?thesis using step_handler_stop[OF st_handler_stop(2)] core_ok ok chans by blast
qed

lemma mt_reach_ok: "mt_reach q m \<Longrightarrow> mt_ok m \<and> chans_ok m"
proof (induction rule: mt_reach.induct)
  case reach_new
  show ?case
    by (simp add: mt_ok_def located_def store_ok_def waiting_def executing_def chans_ok_def chans_used_def
        NewMicroTaskManager_def make_chan_def)
next
  case (reach_step m m')
  then show ?case using mt_step_ok by blast
qed

end
