(* ===== verification/MicrotaskJobs.thy ===== *)
theory MicrotaskJobs
  imports MicrotaskProps
begin

text \<open>
  The properties of the microtask manager: its refinement of the abstract machine of jobs, the
  conservation of tasks, the dispatcher, aggregation, the event log and the saved state.
\<close>

section \<open>Refinement\<close>

lemma core_jobs: "core m' = core m \<Longrightarrow> jobs m' = jobs m"
  by (simp add: core_def jobs_def)

lemma aggregate_jobs:
  assumes ok: "mt_ok m" and d: "d < length (m_dagHeap m)"
  shows "job_steps (jobs m) (jobs (aggregateResults now uuid d m))"
proof (cases "get (d_Nodes (m_dagHeap m ! d)) (d_RootID (m_dagHeap m ! d))")
  case (Some r)
  note store = mt_ok_parts(2)[OF ok]
  have r: "r < length (m_tasks m)" using store_node(1)[OF store d] Some by simp
  have "mt_Status (m_tasks m ! r) = ''done''"
    using store_node(2,3)[OF store d Some] store_task[OF store r] by (auto simp: task_ok_def)
  then have "job_of ((m_tasks m ! r)\<lparr>mt_Result := out, mt_Status := ''done'', mt_UpdatedAt := now\<rparr>) = job_of (m_tasks m ! r)" for out
    by (simp add: job_of_def)
  then have "jobs (aggregateResults now uuid d m) = jobs m"
    using Some r by (simp add: aggregateResults_def Let_def jobs_def addEvent_frame upd_task_frame map_update)
      (metis length_map list_update_id nth_map)
  then show ?thesis by simp
next
  case None
  then have "jobs (aggregateResults now uuid d m) = jobs m @ [(Done, 0, 0)]"
    by (simp add: aggregateResults_def Let_def jobs_def addEvent_frame job_of_def phase_of_def)
  then show ?thesis using job_root by (simp add: r_into_rtranclp)
qed

lemma go_jobs:
  assumes run: "go_step now uuid arm io g m = Some m'" and ok: "mt_ok m"
  shows "job_steps (jobs m) (jobs m')"
proof -
  have g: "g \<in> set (m_gos m)" using run by (auto simp: go_step_def split: if_splits)
  show ?thesis
  proof (cases g)
    case (GoSubmit rootID r)
    define m0 where "m0 = m\<lparr>m_gos := remove1 g (m_gos m)\<rparr>"
    have m0: "m_tasks m0 = m_tasks m" by (simp add: m0_def)
    have "SubmitTask now uuid arm rootID r m0 = Some m'"
      using run g GoSubmit by (simp add: go_step_def m0_def)
    then have same: "m_tasks m' = m_tasks m"
    proof (cases rule: SubmitTask_sends)
      case (sent m1 e k)
      then show ?thesis using send_events_moves(3)[OF sent(1)] m0 by (simp add: addEvent_frame)
    qed (simp add: m0)
    show ?thesis unfolding jobs_same[OF same] by simp
  next
    case (GoRequeue r)
    then have same: "m_tasks m' = m_tasks m" using run g by (auto simp: go_step_def Let_def split: if_splits)
    show ?thesis unfolding jobs_same[OF same] by simp
  next
    case (GoAggregate d)
    let ?m = "m\<lparr>m_gos := remove1 g (m_gos m)\<rparr>"
    have "mt_ok ?m" "d < length (m_dagHeap ?m)"
      using mt_ok_remaining[OF ok g] mt_ok_parts(3)[OF ok] g GoAggregate by auto
    then have "job_steps (jobs ?m) (jobs (aggregateResults now uuid d ?m))" by (rule aggregate_jobs)
    moreover have "m' = aggregateResults now uuid d ?m" using run g GoAggregate by (simp add: go_step_def Let_def)
    ultimately show ?thesis by (simp add: jobs_def)
  next
    case GoPersist
    have "jobs (snd (SaveState now uuid io m)) = jobs m" "jobs (m\<lparr>m_persistCh := c\<rparr>) = jobs m"
      "jobs (m\<lparr>m_gos := gs\<rparr>) = jobs m" for m c gs
      using core_jobs[OF step_save(1)] by (simp_all add: jobs_def)
    then show ?thesis
      using run g GoPersist by (auto simp: go_step_def Let_def split: arm.splits option.splits if_splits)
  qed
qed

lemma step_jobs:
  assumes "mt_step m m'" and ok: "mt_ok m" and chans: "chans_ok m"
  shows "job_steps (jobs m) (jobs m')"
proof -
  have quiet: "job_steps (jobs m) (jobs m')" if "core m' = core m" using core_jobs[OF that] by simp
  show ?thesis
    using assms(1)
  proof (cases rule: mt_step.cases)
    case (st_slice rootID n rd payload)
    then show ?thesis using step_slice[OF st_slice(2) ok] by simp
  next
    case (st_create rootID)
    then show ?thesis by (simp add: CreateDAG_def Let_def jobs_def)
  next
    case (st_progress now uuid rootID taskID p)
    then show ?thesis using step_progress by simp
  next
    case (st_register now uuid wid buf)
    then show ?thesis using step_register[OF st_register] quiet by blast
  next
    case (st_deregister now uuid wid)
    then show ?thesis using step_deregister quiet by blast
  next
    case (st_aggregator a)
    then show ?thesis using step_aggregator quiet by blast
  next
    case (st_persist now uuid mkdir io dir interval)
    then show ?thesis using step_persist quiet by blast
  next
    case (st_save now uuid io)
    then show ?thesis using step_save quiet by blast
  next
    case (st_go now uuid arm io g)
    then show ?thesis using go_jobs[OF st_go ok] by simp
  next
    case st_receive
    then show ?thesis using step_receive[OF st_receive] quiet by blast
  next
    case (st_try now uuid)
    then show ?thesis using step_try[OF st_try chans] quiet by blast
  next
    case (st_send now uuid)
    then show ?thesis using step_send[OF st_send chans] quiet by blast
  next
    case st_timeout
    then show ?thesis using step_timeout[OF st_timeout] quiet by blast
  next
    case (st_take i)
    then show ?thesis using step_take[OF st_take(2,1) chans] quiet by blast
  next
    case (st_start i now uuid)
    then show ?thesis using step_start[OF st_start(2,1) ok] by (simp add: r_into_rtranclp)
  next
    case (st_finish i r t' now uuid err)
    then show ?thesis using step_finish[OF st_finish(4,1,2,3) ok] by (simp add: r_into_rtranclp)
  next
    case (st_stop now uuid)
    then show ?thesis using jobs_same[OF step_stop(3)[OF ok]] by simp
  next
    case st_disp_stop
    then show ?thesis using jobs_same[OF step_disp_stop(3)[OF st_disp_stop ok]] by simp
  next
    case (st_handler_stop i)
    then show ?thesis using step_handler_stop[OF st_handler_stop(2)] quiet by blast
  qed
qed

lemma mt_steps_reach: "mt_step\<^sup>*\<^sup>* m m' \<Longrightarrow> mt_reach q m \<Longrightarrow> mt_reach q m'"
  by (induction rule: rtranclp_induct) (auto intro: reach_step)

lemma mt_steps_jobs:
  assumes "mt_step\<^sup>*\<^sup>* m m'" and "mt_reach q m"
  shows "job_steps (jobs m) (jobs m')"
  using assms
proof (induction rule: rtranclp_induct)
  case base
  then show ?case by simp
next
  case (step m1 m2)
  have "mt_reach q m1" using mt_steps_reach step by blast
  then have "job_steps (jobs m1) (jobs m2)" using step_jobs[OF step(2)] mt_reach_ok by blast
  then show ?case using step by simp
qed

text \<open>In the abstract machine a settled job stays as it is.\<close>

lemma job_step_settled_stays:
  assumes "job_step js js'" and "r < length js" and "fst (js ! r) = Done \<or> fst (js ! r) = Failed"
  shows "r < length js' \<and> js' ! r = js ! r"
  using assms by cases (auto simp: nth_append nth_list_update)

lemma job_steps_settled_stays:
  assumes "job_steps js js'" and "r < length js" and "fst (js ! r) = Done \<or> fst (js ! r) = Failed"
  shows "r < length js' \<and> js' ! r = js ! r"
  using assms by (induction rule: rtranclp_induct) (auto dest: job_step_settled_stays)

section \<open>A run\<close>

text \<open>
  A manager with one worker and one slice, and a run of it: the slice is submitted, taken by the
  dispatcher, for which the worker is chosen; the worker is deregistered before the task is sent.
\<close>

definition reading1 :: "nat \<Rightarrow> slice_reading" where
  "reading1 i = \<lparr>sr_now = 1, sr_nano = 1, sr_uuid = ''t''\<rparr>"

definition mgr0 :: Manager where
  "mgr0 = memory (RegisterWorkerHandler 1 ''t'' ''w'' 1 (NewMicroTaskManager 2))"

definition mgr1 :: Manager where
  "mgr1 = snd (SliceTask ''j'' [] 1 reading1 mgr0)"

definition chosen1 :: "Manager option" where
  "chosen1 = Option.bind (go_step 1 ''t'' ArmSend None (GoSubmit ''j'' 0) mgr1)
     (\<lambda>m. Option.bind (disp_receive m) (disp_try 1 ''t''))"

lemma mgr0_reach: "mt_reach 2 mgr0"
proof -
  have "RegisterWorkerHandler 1 ''t'' ''w'' 1 (NewMicroTaskManager 2) = Returned () mgr0"
    by (simp add: mgr0_def RegisterWorkerHandler_def RegisterWorker_def Let_def)
  then show ?thesis by (rule reach_step[OF reach_new st_register])
qed

lemma mgr1_reach: "mt_reach 2 mgr1"
proof -
  have "m_dags mgr0 = []"
    by (simp add: mgr0_def RegisterWorkerHandler_def RegisterWorker_def Let_def addEvent_frame NewMicroTaskManager_def)
  then have "fresh_slices ''j'' 1 reading1 mgr0" by (simp add: fresh_slices_def)
  then show ?thesis unfolding mgr1_def by (rule reach_step[OF mgr0_reach st_slice])
qed

lemma chosen1_reach: "chosen1 = Some m \<Longrightarrow> mt_reach 2 m"
  unfolding chosen1_def Option.bind_eq_Some_conv
  using reach_step[OF mgr1_reach st_go] reach_step[OF _ st_receive] reach_step[OF _ st_try] by blast

lemmas run_defs = SliceTask_def num_slices_def CreateDAG_def slice_one_def new_slice_def addEvent_def upd_dag_def
  forcePersist_def try_send_def try_recv_def make_chan_def RegisterWorkerHandler_def RegisterWorker_def
  NewMicroTaskManager_def go_step_def SubmitTask_def SubmitTaskCtx_def send_events_def disp_receive_def disp_try_def
  chooseWorker_def least_loaded_def worker_score_def Let_def event_def


lemma chosen1_runs: "\<exists>m. chosen1 = Some m \<and> m_disp m = DSend 0 0 ''w'' 0 \<and> m_workers m = [(''w'', 0)] \<and>
   map wc_closed (m_chans m) = [False]"
  by (simp add: chosen1_def mgr1_def mgr0_def run_defs)

text \<open>One failing attempt: from the submission of the slice to the report of its worker.\<close>

definition fail_round :: "Manager \<Rightarrow> Manager option" where
  "fail_round m =
     Option.bind (go_step 1 ''t'' ArmSend None (GoSubmit ''j'' 0) m) (\<lambda>m.
     Option.bind (disp_receive m) (\<lambda>m.
     Option.bind (disp_try 1 ''t'' m) (\<lambda>m.
     Option.bind (disp_send 1 ''t'' m) (\<lambda>m.
     Option.bind (handler_receive 0 m) (\<lambda>m.
     Option.bind (handler_start 1 ''t'' 0 m) (\<lambda>m.
     if length (m_handlers m) = 1 \<and> h_state (m_handlers m ! 0) = HRun 0
     then handler_finish 1 ''t'' 0 (m_tasks m ! 0) (Some ''e'') m else None))))))"

lemma fail_round_reach:
  assumes "fail_round m = Some m'" and "mt_reach q m"
  shows "mt_reach q m'"
proof -
  obtain m1 m2 m3 m4 m5 m6 where
    "go_step 1 ''t'' ArmSend None (GoSubmit ''j'' 0) m = Some m1" "disp_receive m1 = Some m2"
    "disp_try 1 ''t'' m2 = Some m3" "disp_send 1 ''t'' m3 = Some m4" "handler_receive 0 m4 = Some m5"
    "handler_start 1 ''t'' 0 m5 = Some m6"
    and last: "length (m_handlers m6) = 1" "h_state (m_handlers m6 ! 0) = HRun 0"
      "handler_finish 1 ''t'' 0 (m_tasks m6 ! 0) (Some ''e'') m6 = Some m'"
    using assms(1) by (auto simp: fail_round_def bind_eq_Some_conv split: if_splits)
  then have m4: "mt_reach q m4"
    using assms(2) reach_step st_go st_receive st_try st_send by metis
  have len: "length (m_handlers m5) = length (m_handlers m4)" "length (m_handlers m6) = length (m_handlers m5)"
    using \<open>handler_receive 0 m4 = Some m5\<close> \<open>handler_start 1 ''t'' 0 m5 = Some m6\<close>
    by (auto simp: handler_receive_def handler_start_def upd_handler_def upd_chan_def upd_task_frame Let_def addEvent_frame
        split: if_splits option.splits hstate.splits)
  then have "mt_reach q m6"
    using m4 last(1) reach_step st_take[of 0] st_start[of 0] \<open>handler_receive 0 m4 = Some m5\<close>
      \<open>handler_start 1 ''t'' 0 m5 = Some m6\<close> by (metis zero_less_one)
  then show ?thesis
    using last reach_step st_finish[of 0 m6 0 "m_tasks m6 ! 0"] by (auto simp: handler_effect_def)
qed

definition failed1 :: "Manager option" where
  "failed1 = Option.bind (fail_round mgr1) (\<lambda>m. Option.bind (fail_round m) (\<lambda>m. Option.bind (fail_round m) fail_round))"

lemma failed1_reach: "failed1 = Some m \<Longrightarrow> mt_reach 2 m"
  unfolding failed1_def bind_eq_Some_conv using fail_round_reach mgr1_reach by blast

lemma failed1_runs: "\<exists>m. failed1 = Some m \<and> map mt_Status (m_tasks m) = [''failed''] \<and> get (m_dags m) ''j'' = Some 0 \<and>
    d_Nodes (m_dagHeap m ! 0) = [(slice_id ''j'' 1 0, 0)] \<and> edges_of (m_dagHeap m ! 0) ''j'' = [slice_id ''j'' 1 0]"
  by (simp add: failed1_def fail_round_def mgr1_def mgr0_def run_defs disp_send_def deliver_def upd_chan_def handler_receive_def
    upd_handler_def handler_start_def upd_task_def handler_finish_def ReportResult_def settle_task_def dispatched_event_def
    edges_of_def reading1_def)

section \<open>Properties\<close>





text \<open>
  one slice that has failed for good keeps its job from ever being aggregated. In every later
  state the slice is still failed, and no report for another slice of the job schedules an
  aggregation.
\<close>

theorem failed_slice_blocks_job:
  assumes "mt_reach q m" and "r < length (m_tasks m)" and "mt_Status (m_tasks m ! r) = ''failed''"
    and "mt_step\<^sup>*\<^sup>* m m'" and "get (m_dags m') rootID = Some d"
    and "c \<in> set (edges_of (m_dagHeap m' ! d) rootID)" and "get (d_Nodes (m_dagHeap m' ! d)) c = Some r"
    and "taskID \<noteq> c"
  shows "mt_Status (m_tasks m' ! r) = ''failed'' \<and>
    (GoAggregate e \<in> set (m_gos (snd (ReportResult now uuid rootID taskID result success m'))) \<longleftrightarrow>
     GoAggregate e \<in> set (m_gos m'))"
proof -
  have ok: "mt_ok m'" using mt_reach_ok[OF mt_steps_reach[OF assms(4,1)]] by simp
  have "fst (jobs m ! r) = Failed" using assms(2,3) by (simp add: jobs_nth) (simp add: job_of_def phase_of_def)
  then have "r < length (jobs m') \<and> jobs m' ! r = jobs m ! r"
    using job_steps_settled_stays[OF mt_steps_jobs[OF assms(4,1)]] assms(2) by (simp add: jobs_nth(2))
  then have r: "r < length (m_tasks m')" and "fst (jobs m' ! r) = Failed"
    using \<open>fst (jobs m ! r) = Failed\<close> by (simp_all add: jobs_nth(2))
  then have ph: "phase_of (mt_Status (m_tasks m' ! r)) = Failed" by (simp add: jobs_nth) (simp add: job_of_def)
  have "task_ok (m_tasks m' ! r)" using store_task[OF mt_ok_parts(2)[OF ok] r] .
  then have failed: "mt_Status (m_tasks m' ! r) = ''failed''"
    using ph by (auto simp: task_ok_def live_def phase_of_def split: if_splits)
  show ?thesis
  proof (cases "get (d_Nodes (m_dagHeap m' ! d)) taskID")
    case None
    then show ?thesis using failed assms(5) by (simp add: ReportResult_def)
  next
    case (Some p)
    note store = mt_ok_parts(2)[OF ok]
    have d: "d < length (m_dagHeap m')" using store_dag(1)[OF store assms(5)] .
    have "mt_ID (m_tasks m' ! p) = taskID" "mt_ID (m_tasks m' ! r) = c" and p: "p < length (m_tasks m')"
      using store_node[OF store d Some] store_node[OF store d assms(7)] by auto
    then have "p \<noteq> r" using assms(8) by auto
    obtain m1 where run: "settle_task now uuid rootID taskID p result success m' = (retried success (m_tasks m' ! p), m1)"
      and m1: "m_tasks m1 = (m_tasks m')[p := settled now result success (m_tasks m' ! p)]"
        "m_gos m1 = m_gos m' @ (if retried success (m_tasks m' ! p) then [GoSubmit rootID p] else [])"
        "m_dagHeap m1 = m_dagHeap m'"
      using settle_task_run[OF p, of now uuid rootID taskID result success] by blast
    have "\<not> all_done m1 (m_dagHeap m1 ! d) (edges_of (m_dagHeap m1 ! d) rootID)"
      using assms(6,7) failed \<open>p \<noteq> r\<close> by (auto simp: all_done_def list_all_iff m1 intro!: bexI[of _ c])
    then have "snd (ReportResult now uuid rootID taskID result success m') = m1"
      using assms(5) Some run by (simp add: ReportResult_def Let_def)
    then show ?thesis using failed by (simp add: m1)
  qed
qed

theorem failed_slice_blocks_job_witness:
  "\<exists>m. failed1 = Some m \<and> mt_Status (m_tasks m ! 0) = ''failed'' \<and>
     (GoAggregate 0 \<in> set (m_gos (snd (ReportResult 1 ''t'' ''j'' ''x'' None True m))) \<longleftrightarrow>
      GoAggregate 0 \<in> set (m_gos m))"
proof -
  obtain m where m: "failed1 = Some m" and st: "map mt_Status (m_tasks m) = [''failed'']"
    and d: "get (m_dags m) ''j'' = Some 0" "d_Nodes (m_dagHeap m ! 0) = [(slice_id ''j'' 1 0, 0)]"
      "edges_of (m_dagHeap m ! 0) ''j'' = [slice_id ''j'' 1 0]"
    using failed1_runs by (elim exE conjE) (rule that)
  obtain t where "m_tasks m = [t]" "mt_Status t = ''failed''" using st by auto
  then have hyps: "0 < length (m_tasks m)" "mt_Status (m_tasks m ! 0) = ''failed''" by simp_all
  have dag: "slice_id ''j'' 1 0 \<in> set (edges_of (m_dagHeap m ! 0) ''j'')"
      "get (d_Nodes (m_dagHeap m ! 0)) (slice_id ''j'' 1 0) = Some 0"
    by (simp_all add: d(2,3))
  have "''x'' \<noteq> slice_id ''j'' 1 0" by (simp add: slice_id_def)
  note fact = failed_slice_blocks_job[OF failed1_reach[OF m] hyps rtranclp.rtrancl_refl d(1) dag this, of 0 1 "''t''" None True]
  show ?thesis by (rule exI[of _ m], rule conjI[OF m fact])
qed

text \<open>
  the choice of a worker. There is a choice exactly when a worker is registered. When some
  worker's channel is less than 95 percent full, the chosen one is a least loaded worker; otherwise
  it is the next one by turn, and only then does the turn move on.
\<close>

theorem chooseWorker_prefers_the_lightest:
  "case chooseWorker m of (c, m') \<Rightarrow>
     (c = None) = (m_workers m = []) \<and>
     (if m_workers m = [] then m' = m
      else if (\<exists>v \<in> set (m_workers m). load m v < 0.95)
      then m' = m \<and> (\<exists>w \<in> set (m_workers m). c = Some w \<and> load m w = Min (load m ` set (m_workers m)))
      else c = Some (m_workers m ! unat ((m_rr m + 1) mod of_nat (length (m_workers m)))) \<and>
           m' = m\<lparr>m_rr := m_rr m + 1\<rparr>)"
proof (cases "m_workers m = []")
  case True
  then show ?thesis by (simp add: chooseWorker_def)
next
  case False
  show ?thesis
  proof (rule least_loaded_cases[of m])
    assume none: "least_loaded m = (None, 2)" and all: "\<forall>w \<in> set (m_workers m). 2 \<le> load m w"
    have "\<not> (\<exists>v \<in> set (m_workers m). load m v < 0.95)"
    proof
      assume "\<exists>v \<in> set (m_workers m). load m v < 0.95"
      then obtain v where "v \<in> set (m_workers m)" "load m v < 0.95" by blast
      moreover have "(0.95::float64) < 2" by simp
      ultimately show False using all by fastforce
    qed
    then show ?thesis using none False by (simp add: chooseWorker_def Let_def)
  next
    fix w assume w: "least_loaded m = (Some w, load m w)" "w \<in> set (m_workers m)"
      and least: "\<forall>v \<in> set (m_workers m). load m w \<le> load m v"
    have "load m w = Min (load m ` set (m_workers m))"
      by (rule Min_eqI[symmetric]) (use w(2) least in auto)
    moreover have "(\<exists>v \<in> set (m_workers m). load m v < 0.95) \<longleftrightarrow> load m w < 0.95"
      using w(2) least by (meson le_less_trans)
    ultimately show ?thesis using w False by (auto simp: chooseWorker_def Let_def)
  qed
qed

text \<open>
  the event log. Adding an event appends it, with a trace ID, and never leaves more than 250000
  entries; entries are only dropped from the old end, all but the 100000 newest at once.
\<close>

theorem event_log_bounded:
  "\<exists>k e'. m_elog (addEvent uuid e m) = drop k (m_elog m @ [e']) \<and>
     e' = (if e_TraceID e = '''' then e\<lparr>e_TraceID := uuid\<rparr> else e) \<and>
     length (m_elog (addEvent uuid e m)) \<le> 250000 \<and>
     (k = 0 \<or> length (m_elog (addEvent uuid e m)) = 100000) \<and>
     last (m_elog (addEvent uuid e m)) = e'"
proof -
  let ?e = "if e_TraceID e = '''' then e\<lparr>e_TraceID := uuid\<rparr> else e"
  let ?l = "m_elog m @ [?e]"
  define k where "k = (if length ?l > 250000 then length ?l - 100000 else 0)"
  have eq: "m_elog (addEvent uuid e m) = drop k ?l" by (simp add: addEvent_def Let_def k_def)
  moreover have "length (drop k ?l) \<le> 250000" "k = 0 \<or> length (drop k ?l) = 100000" "last (drop k ?l) = ?e"
    by (simp_all add: k_def last_drop del: length_append append_eq_append_conv) auto
  ultimately show ?thesis by (intro exI[of _ k] exI[of _ ?e]) (simp only: simp_thms)
qed

text \<open>
  aggregation. A successful report schedules the aggregation of the job exactly when every
  slice that the job's DAG holds is then done; when it runs, the job's root node is done and its
  result is the aggregator's value of the slices' results in the order of the slices.
\<close>

theorem aggregation_collects_all_results:
  assumes "mt_reach q m" and "get (m_dags m) rootID = Some d" and "get (d_Nodes (m_dagHeap m ! d)) taskID = Some r"
    and "GoAggregate d \<notin> set (m_gos m)" and m'_def: "m' = snd (ReportResult now uuid rootID taskID result True m)"
    and slices_def: "slices = edges_of (m_dagHeap m ! d) rootID"
  shows "(GoAggregate d \<in> set (m_gos m') \<longleftrightarrow> all_done m' (m_dagHeap m ! d) slices) \<and>
    mt_Result (m_tasks m' ! r) = result \<and> mt_Status (m_tasks m' ! r) = ''done'' \<and>
    (\<exists>root. get (d_Nodes (m_dagHeap (aggregateResults now' uuid' d m') ! d)) rootID = Some root \<and>
       mt_Status (m_tasks (aggregateResults now' uuid' d m') ! root) = ''done'' \<and>
       mt_Result (m_tasks (aggregateResults now' uuid' d m') ! root) =
         m_agg m (done_results m' (m_dagHeap m ! d) slices))"
proof -
  have ok: "mt_ok m" using mt_reach_ok[OF assms(1)] by simp
  note store = mt_ok_parts(2)[OF ok]
  have d: "d < length (m_dagHeap m)" and root: "d_RootID (m_dagHeap m ! d) = rootID"
    using store_dag[OF store assms(2)] by auto
  have r: "r < length (m_tasks m)" using store_node(1)[OF store d assms(3)] .
  obtain m1 where run: "settle_task now uuid rootID taskID r result True m = (False, m1)"
    and m1: "m_tasks m1 = (m_tasks m)[r := settled now result True (m_tasks m ! r)]" "m_gos m1 = m_gos m"
      "m_dagHeap m1 = m_dagHeap m"
    using settle_task_run[OF r, of now uuid rootID taskID result True] by (auto simp: retried_def)
  have "m_agg m1 = m_agg m"
    using run by (auto simp: settle_task_def Let_def addEvent_frame upd_task_def)
  then have m': "m_tasks m' = m_tasks m1" "m_dagHeap m' = m_dagHeap m" "m_agg m' = m_agg m"
      "GoAggregate d \<in> set (m_gos m') \<longleftrightarrow> all_done m1 (m_dagHeap m ! d) slices"
    using assms(2,3,4) run m1
    by (auto simp: m'_def slices_def ReportResult_def Let_def forcePersist_def split: option.splits)
  have same: "all_done m' = all_done m1" by (auto simp: all_done_def fun_eq_iff m'(1) list_all_iff split: option.split)
  have rr: "m_tasks m' ! r = settled now result True (m_tasks m ! r)" using r by (simp add: m' m1)
  have agg: "\<exists>p. get (d_Nodes (m_dagHeap (aggregateResults now' uuid' d m') ! d)) rootID = Some p \<and>
       mt_Status (m_tasks (aggregateResults now' uuid' d m') ! p) = ''done'' \<and>
       mt_Result (m_tasks (aggregateResults now' uuid' d m') ! p) = m_agg m (done_results m' (m_dagHeap m ! d) slices)"
  proof (cases "get (d_Nodes (m_dagHeap m ! d)) rootID")
    case None
    then show ?thesis
      using d by (simp add: aggregateResults_def Let_def m' root addEvent_frame upd_dag_frame get_put slices_def)
  next
    case (Some p)
    have "p < length (m_tasks m')" using store_node(1)[OF store d Some] by (simp add: m' m1)
    then show ?thesis
      using Some by (simp add: aggregateResults_def Let_def m' root addEvent_frame upd_task_frame slices_def)
  qed
  show ?thesis using m'(4) same agg by (simp add: rr settled_def)
qed

theorem aggregation_collects_all_results_witness:
  "\<exists>r. get (d_Nodes (m_dagHeap mgr1 ! 0)) (slice_id ''j'' 1 0) = Some r \<and>
     mt_Status (m_tasks (snd (ReportResult 1 ''t'' ''j'' (slice_id ''j'' 1 0) None True mgr1)) ! r) = ''done''"
proof -
  have "get (m_dags mgr1) ''j'' = Some 0" "get (d_Nodes (m_dagHeap mgr1 ! 0)) (slice_id ''j'' 1 0) = Some 0"
      "GoAggregate 0 \<notin> set (m_gos mgr1)"
    by (simp_all add: mgr1_def mgr0_def run_defs reading1_def)
  from aggregation_collects_all_results[OF mgr1_reach this refl refl, of 1 "''t''" None 1 "''t''"] this(2)
  show ?thesis by blast
qed

section \<open>Saving and loading\<close>













section \<open>The dispatcher and a deregistered worker\<close>

lemma disp_send_closed:
  assumes "m_disp m = DSend r n i ch" and "wc_closed (m_chans m ! ch)"
  shows "disp_send now uuid m = Some (m\<lparr>m_disp := DPanic r\<rparr>)"
  using assms by (simp add: disp_send_def deliver_def)

text \<open>
  the dispatcher can panic. There is a run of a manager with one worker and one slice in which
  the worker is deregistered while the dispatcher waits to send to it; the send on the closed
  channel panics with the task in the dispatcher's hands.
\<close>

theorem dispatcher_can_panic: "\<exists>m. mt_reach 2 m \<and> m_disp m = DPanic 0"
proof -
  obtain m where m: "chosen1 = Some m" and d: "m_disp m = DSend 0 0 ''w'' 0"
    and w: "m_workers m = [(''w'', 0)]" and c: "map wc_closed (m_chans m) = [False]"
    using chosen1_runs by (elim exE conjE) (rule that)
  let ?m = "DeregisterWorker 1 ''t'' ''w'' m"
  have r: "mt_reach 2 ?m" by (rule reach_step[OF chosen1_reach[OF m] st_deregister])
  obtain ch where "m_chans m = [ch]" using c by auto
  then have "m_disp ?m = DSend 0 0 ''w'' 0" "wc_closed (m_chans ?m ! 0)"
    using w d by (simp_all add: DeregisterWorker_def addEvent_frame close_worker_def upd_chan_def)
  then have "disp_send 1 ''t'' ?m = Some (?m\<lparr>m_disp := DPanic 0\<rparr>)" by (rule disp_send_closed)
  then have "mt_reach 2 (?m\<lparr>m_disp := DPanic 0\<rparr>)" by (rule reach_step[OF r st_send])
  moreover have "m_disp (?m\<lparr>m_disp := DPanic 0\<rparr>) = DPanic 0" by simp
  ultimately show ?thesis by blast
qed

end
