(* ===== verification/GoBytes.thy ===== *)
theory GoBytes
  imports GoPrelude "HOL-Library.Word"
begin

text \<open>Byte slices and their hexadecimal text, as encoding/hex writes it; AES-GCM, whose sealing and opening
  (of a key, a nonce and a text) are parameters.\<close>

type_synonym byte = "8 word"
type_synonym bytes = "byte list"

definition hex_digit :: "nat \<Rightarrow> char" where
  "hex_digit d = (if d < 10 then char_of (48 + d) else char_of (87 + d))"

definition hex_EncodeToString :: "bytes \<Rightarrow> string" where
  "hex_EncodeToString bs =
     concat (map (\<lambda>b. [hex_digit (unat b div 16), hex_digit (unat b mod 16)]) bs)"

lemma hex_digit_inj: "a < 16 \<Longrightarrow> b < 16 \<Longrightarrow> hex_digit a = hex_digit b \<Longrightarrow> a = b"
proof -
  assume ab: "a < 16" "b < 16" and eq: "hex_digit a = hex_digit b"
  define code where "code d = (if d < 10 then 48 + d else 87 + d :: nat)" for d
  have "hex_digit d = char_of (code d)" for d by (simp add: hex_digit_def code_def)
  moreover have "code a < 256" "code b < 256" using ab by (auto simp: code_def)
  moreover have "(of_char (char_of (code a)) :: nat) = of_char (char_of (code b))"
    using calculation(1) eq by simp
  ultimately have "code a = code b" by simp
  then show "a = b" using ab by (auto simp: code_def split: if_splits)
qed

lemma hex_inj: "hex_EncodeToString a = hex_EncodeToString b \<longleftrightarrow> a = b"
proof
  assume "hex_EncodeToString a = hex_EncodeToString b"
  then show "a = b"
  proof (induction a arbitrary: b)
    case Nil
    then show ?case by (cases b) (simp_all add: hex_EncodeToString_def)
  next
    case (Cons x a)
    then obtain y b' where b: "b = y # b'" by (cases b) (simp_all add: hex_EncodeToString_def)
    have lt: "unat z div 16 < 16" "unat z mod 16 < 16" for z :: byte
    proof -
      have "unat z < 2 ^ LENGTH(8)" by (rule unsigned_less)
      then show "unat z div 16 < 16" "unat z mod 16 < 16" by auto
    qed
    have "hex_digit (unat x div 16) = hex_digit (unat y div 16)"
      "hex_digit (unat x mod 16) = hex_digit (unat y mod 16)"
      and rest: "hex_EncodeToString a = hex_EncodeToString b'"
      using Cons.prems b by (simp_all add: hex_EncodeToString_def)
    then have "unat x div 16 = unat y div 16" "unat x mod 16 = unat y mod 16"
      using hex_digit_inj lt by blast+
    then have "unat x = unat y" by (metis mult_div_mod_eq)
    then have "x = y" by (simp add: word_unat_eq_iff)
    then show ?case using Cons.IH[OF rest] b by simp
  qed
qed simp

record aead =
  gcm_Seal :: "bytes \<Rightarrow> bytes \<Rightarrow> bytes \<Rightarrow> bytes"
  gcm_Open :: "bytes \<Rightarrow> bytes \<Rightarrow> bytes \<Rightarrow> bytes option"

text \<open>aes.NewCipher takes keys of 16, 24 and 32 bytes.\<close>

definition aes_key_ok :: "bytes \<Rightarrow> bool" where
  "aes_key_ok key \<longleftrightarrow> length key \<in> {16, 24, 32}"

text \<open>
  What the code relies on: opening gives back what was sealed; and, of an authenticated encryption, that
  nothing else opens to a text than what sealing it gives.
\<close>

definition aead_laws :: "'a aead_scheme \<Rightarrow> bool" where
  "aead_laws lib \<longleftrightarrow>
     (\<forall>k n t. gcm_Open lib k n (gcm_Seal lib k n t) = Some t) \<and>
     (\<forall>k n c t. gcm_Open lib k n c = Some t \<longrightarrow> c = gcm_Seal lib k n t)"

lemma aead_open: "aead_laws lib \<Longrightarrow> gcm_Open lib k n c = Some t \<longleftrightarrow> c = gcm_Seal lib k n t"
  by (auto simp: aead_laws_def)

end
