(* ===== verification/Storage.thy ===== *)
theory Storage
  imports GoBytes "HOL-Library.List_Lexorder" "HOL-Library.Char_ord"
begin

text \<open>
  Distributed storage, \<^verbatim>\<open>src/internal/storage/distributed.go\<close>: the data model, the interfaces that
  backends and plugins implement, the manifest store, the manifest signer, the orphan registries
  and the built-in placements.

  Everything outside the \<open>DistributedStorage\<close> struct (backends, files, registries) is one world of
  an arbitrary type, which the calls thread: an interface value is a record of functions on it, and
  a type assertion to an optional interface is an \<open>option\<close> field. What a call reads from outside is
  the record \<open>env\<close>: SHA-256, the clock and the random numbers of shard IDs, and whether the context
  was done at each of its polls. The clock is read once per call. Traces and metrics are
  only written and are left out.
\<close>

unbundle bit_operations_syntax

section \<open>Models\<close>

record Shard =
  sh_ID :: string
  sh_Backend :: string
  sh_Region :: string
  sh_Data :: bytes
  sh_Checksum :: string
  sh_CipherHash :: string
  sh_Parity :: bool
  sh_Index :: int
  sh_CreatedAt :: gotime

record ShardInfo =
  si_ID :: string
  si_Backend :: string
  si_Region :: string
  si_Index :: int
  si_Checksum :: string
  si_CipherChecksum :: string

record FileManifest =
  fm_FileName :: string
  fm_Shards :: "ShardInfo list"
  fm_Regions :: "string list"
  fm_Version :: int
  fm_MerkleRoot :: string
  fm_Signature :: bytes
  fm_History :: "string list"
  fm_Meta :: "(string, any) gomap"
  fm_CreatedAt :: gotime
  fm_UpdatedAt :: gotime

text \<open>The errors that the code makes or passes on; a wrapped error keeps its cause.\<close>

datatype serror =
    ECtx                      \<comment> \<open>the error of the context\<close>
  | EExternal string          \<comment> \<open>from a backend, a hook or the file system\<close>
  | EPutTimeout | EGetTimeout
  | ENoBackends
  | ENotRegistered string
  | EEncrypt serror | EDecrypt serror
  | EWrite string serror
  | ESign serror | ESave serror
  | EManifestNotFound
  | EMerkle string string
  | EInvalidManifest
  | ESignature serror
  | ENoSignature | ESignatureMismatch
  | ENoRepairPlugin
  | ENotWhitelisted string
  | EEmptyDir

section \<open>Interfaces\<close>

text \<open>
  \<open>PutShard\<close> and \<open>GetShard\<close> of a backend without context support run in a goroutine that may miss
  the timeout: the result is then \<open>None\<close>.
\<close>

record 'w StorageBackend =
  PutShard :: "Shard \<Rightarrow> 'w \<Rightarrow> serror option option \<times> 'w"
  GetShard :: "string \<Rightarrow> 'w \<Rightarrow> (serror + Shard) option \<times> 'w"
  DeleteShard :: "string \<Rightarrow> 'w \<Rightarrow> serror option \<times> 'w"
  PutShardCtx :: "(Shard \<Rightarrow> 'w \<Rightarrow> serror option \<times> 'w) option"
  GetShardCtx :: "(string \<Rightarrow> 'w \<Rightarrow> (serror + Shard) \<times> 'w) option"

type_synonym 'w Backends = "(string, 'w StorageBackend) gomap"
type_synonym opts = "(string, any) gomap"

text \<open>A reader: its bytes, and the error it ends with instead of EOF.\<close>

record reader =
  rd_bytes :: bytes
  rd_err :: "serror option"

record 'w PlacementPlugin =
  PlaceShards :: "bytes \<Rightarrow> 'w Backends \<Rightarrow> opts \<Rightarrow> 'w \<Rightarrow> (serror + Shard list, 'w) outcome"
  PlaceShardsStream ::
    "(reader \<Rightarrow> int \<Rightarrow> 'w Backends \<Rightarrow> opts \<Rightarrow> 'w \<Rightarrow> (serror + Shard list, 'w) outcome) option"

text \<open>Repair gets a pointer to a copy of the manifest and may change it.\<close>

type_synonym 'w RepairPlugin =
  "FileManifest \<Rightarrow> 'w Backends \<Rightarrow> 'w \<Rightarrow> serror option \<times> FileManifest \<times> 'w"

record ErasureCoder =
  Encode :: "bytes \<Rightarrow> int \<Rightarrow> int \<Rightarrow> serror + Shard list"
  Reconstruct :: "Shard list \<Rightarrow> int \<Rightarrow> int \<Rightarrow> serror + bytes"

type_synonym PolicyChecker = "string \<Rightarrow> FileManifest option \<Rightarrow> opts \<Rightarrow> serror option"

record 'w Encryptor =
  Encrypt :: "bytes \<Rightarrow> opts \<Rightarrow> 'w \<Rightarrow> (serror + bytes) \<times> 'w"
  Decrypt :: "bytes \<Rightarrow> opts \<Rightarrow> serror + bytes"

record 'w ManifestStore =
  Save :: "FileManifest \<Rightarrow> 'w \<Rightarrow> serror option \<times> 'w"
  Load :: "string \<Rightarrow> 'w \<Rightarrow> serror + FileManifest option"
  LoadAll :: "'w \<Rightarrow> serror + FileManifest list"
  Delete :: "string \<Rightarrow> 'w \<Rightarrow> serror option \<times> 'w"

record ManifestSigner =
  Sign :: "FileManifest \<Rightarrow> serror + FileManifest"
  Verify :: "FileManifest \<Rightarrow> serror option"

record 'w OrphanRegistry =
  RegisterOrphan :: "Shard \<Rightarrow> 'w \<Rightarrow> 'w"
  ListOrphans :: "'w \<Rightarrow> Shard list"
  CleanupOlderThan :: "duration \<Rightarrow> 'w \<Rightarrow> Shard list \<times> 'w"

section \<open>The storage and one call's surroundings\<close>

record 'w DistributedStorage =
  backends :: "'w Backends"
  manifests :: "(string, FileManifest) gomap"
  manifestStore :: "'w ManifestStore option"
  repairPlugin :: "'w RepairPlugin option"
  placementPlugin :: "'w PlacementPlugin option"
  erasureCoder :: "ErasureCoder option"
  plugins :: "(string, string) gomap"       \<comment> \<open>the path each plugin was opened from\<close>
  policyChecker :: "PolicyChecker option"
  encryptor :: "'w Encryptor option"
  repairInterval :: duration
  repairCtx :: "nat option"                 \<comment> \<open>the context of the last repair loop, by number\<close>
  repairLoops :: "nat list"                 \<comment> \<open>repair loops whose context is not cancelled\<close>
  repairRunning :: bool
  manifestSigner :: "ManifestSigner option"
  orphanRegistry :: "'w OrphanRegistry option"
  pluginWhitelist :: "(string, bool) gomap option"

definition NewDistributedStorage :: "'w DistributedStorage" where
  "NewDistributedStorage =
     \<lparr>backends = [], manifests = [], manifestStore = None, repairPlugin = None,
      placementPlugin = None, erasureCoder = None, plugins = [], policyChecker = None,
      encryptor = None, repairInterval = 60 * Second, repairCtx = None, repairLoops = [],
      repairRunning = False, manifestSigner = None, orphanRegistry = None,
      pluginWhitelist = None\<rparr>"

record env =
  sha256 :: "bytes \<Rightarrow> bytes"               \<comment> \<open>sha256.Sum256\<close>
  draws :: "nat \<Rightarrow> nat \<times> nat"             \<comment> \<open>clock and random number of the n-th shard ID\<close>
  cancelled :: "nat \<Rightarrow> bool"               \<comment> \<open>whether the n-th poll finds the context done\<close>
  clock :: gotime
  time_String :: "gotime \<Rightarrow> string"
  tmp_error :: "serror option"             \<comment> \<open>an error of the temporary file\<close>

text \<open>The storage, the world outside it, and how many draws and polls the call has made.\<close>

record 'w sys =
  st :: "'w DistributedStorage"
  world :: 'w
  drawn :: nat
  polls :: nat

definition start :: "'w DistributedStorage \<Rightarrow> 'w \<Rightarrow> 'w sys" where
  "start d w = \<lparr>st = d, world = w, drawn = 0, polls = 0\<rparr>"

definition poll :: "env \<Rightarrow> 'w sys \<Rightarrow> bool \<times> 'w sys" where
  "poll e s = (cancelled e (polls s), s\<lparr>polls := polls s + 1\<rparr>)"

definition on_world :: "('w \<Rightarrow> 'a \<times> 'w) \<Rightarrow> 'w sys \<Rightarrow> 'a \<times> 'w sys" where
  "on_world f s = (let (r, w) = f (world s) in (r, s\<lparr>world := w\<rparr>))"

fun ifOk :: "(serror + 'a, 's) outcome \<Rightarrow> ('a \<Rightarrow> 's \<Rightarrow> (serror + 'b, 's) outcome) \<Rightarrow>
    (serror + 'b, 's) outcome" where
  "ifOk (Returned (Inr x) s) f = f x s"
| "ifOk (Returned (Inl er) s) f = Returned (Inl er) s"
| "ifOk (Blocked s) f = Blocked s"
| "ifOk (Panicked s) f = Panicked s"

lemma poll_simps [simp]:
  "fst (poll e s) = cancelled e (polls s)" "snd (poll e s) = s\<lparr>polls := polls s + 1\<rparr>"
  by (simp_all add: poll_def)

section \<open>Options\<close>

definition opt_int :: "opts \<Rightarrow> string \<Rightarrow> int option" where
  "opt_int m k = (case get m k of Some (AInt i) \<Rightarrow> Some i | _ \<Rightarrow> None)"

definition opt_str :: "opts \<Rightarrow> string \<Rightarrow> string option" where
  "opt_str m k = (case get m k of Some (AStr i) \<Rightarrow> Some i | _ \<Rightarrow> None)"

definition opt_strs :: "opts \<Rightarrow> string \<Rightarrow> string list option" where
  "opt_strs m k = (case get m k of Some (AStrs i) \<Rightarrow> Some i | _ \<Rightarrow> None)"

text \<open>An option that is used when it is an int above a bound.\<close>

definition opt_above :: "int \<Rightarrow> int \<Rightarrow> opts \<Rightarrow> string \<Rightarrow> int" where
  "opt_above lo dflt m k =
     (case opt_int m k of Some v \<Rightarrow> if v > lo then v else dflt | None \<Rightarrow> dflt)"

lemma opt_above_gt: "lo < dflt \<Longrightarrow> lo < opt_above lo dflt m k"
  by (auto simp: opt_above_def split: option.split)

text \<open>A number in the metadata of a manifest: an int, or a float64 once it has been JSON.\<close>

definition meta_int :: "(string, any) gomap \<Rightarrow> string \<Rightarrow> int" where
  "meta_int m k = (case get m k of
     Some (AInt i) \<Rightarrow> i
   | Some (AFloat f) \<Rightarrow> (if f \<ge> 0 then \<lfloor>f\<rfloor> else \<lceil>f\<rceil>)
   | _ \<Rightarrow> 0)"

section \<open>Hashes\<close>

definition sha256Hex :: "env \<Rightarrow> bytes \<Rightarrow> string" where
  "sha256Hex e b = hex_EncodeToString (sha256 e b)"

fun merkle_next :: "env \<Rightarrow> bytes list \<Rightarrow> bytes list" where
  "merkle_next e (a # b # ls) = sha256 e (a @ b) # merkle_next e ls"
| "merkle_next e ls = []"

definition merkle_even :: "bytes list \<Rightarrow> bytes list" where
  "merkle_even ls = (if odd (length ls) then ls @ [last ls] else ls)"

lemma length_merkle_next [simp]: "length (merkle_next e ls) = length ls div 2"
  by (induction e ls rule: merkle_next.induct) auto

lemma length_merkle_even: "length (merkle_even ls) = 2 * ((length ls + 1) div 2)"
  by (auto simp: merkle_even_def elim!: oddE evenE)

function merkle_up :: "env \<Rightarrow> bytes list \<Rightarrow> bytes list" where
  "merkle_up e ls =
     (if length ls > 1 then merkle_up e (merkle_next e (merkle_even ls)) else ls)"
  by pat_completeness auto
termination
  by (relation "measure (\<lambda>(e, ls). length ls)") (auto simp: length_merkle_even)

declare merkle_up.simps [simp del]

definition computeMerkleRoot :: "env \<Rightarrow> Shard list \<Rightarrow> string" where
  "computeMerkleRoot e shards =
     (if shards = [] then sha256Hex e []
      else hex_EncodeToString (hd (merkle_up e (map (\<lambda>sh. sha256 e (sh_Data sh)) shards))))"

definition makeShardID :: "env \<Rightarrow> string \<Rightarrow> 'w sys \<Rightarrow> string \<times> 'w sys" where
  "makeShardID e prefix s =
     (let (t, r) = draws e (drawn s)
      in (prefix @ ''-'' @ dec t @ ''-'' @ dec r, s\<lparr>drawn := drawn s + 1\<rparr>))"

end
