(* ===== verification/StorageBuiltins.thy ===== *)
theory StorageBuiltins
  imports Storage GoJSON
begin

text \<open>
  What \<^verbatim>\<open>src/internal/storage/distributed.go\<close> itself provides for its interfaces: the file-backed
  manifest store, the HMAC signer, the two orphan registries and the two placements. Each interface
  that the storage relies on is a locale, interpreted here on these.

  A manifest store works in one directory, whose entries are the world of the store. A file holds
  what its JSON text decodes to, if anything: writing a manifest stores its image under JSON, in
  which an int of the metadata has become a float64.
\<close>

section \<open>The file-backed manifest store\<close>

definition json_manifest :: "FileManifest \<Rightarrow> FileManifest" where
  "json_manifest m = m\<lparr>fm_Meta := json_map (fm_Meta m)\<rparr>"

datatype dentry = Dir | Unreadable | File "FileManifest option"

type_synonym dir = "(string, dentry) gomap"

text \<open>The errors that one call meets: encoding, writing the temporary file, renaming it.\<close>

record io =
  io_marshal :: "serror option"
  io_write :: "serror option"
  io_rename :: "serror option"

definition io_ok :: io where
  "io_ok = \<lparr>io_marshal = None, io_write = None, io_rename = None\<rparr>"

definition NewFileManifestStore :: "string \<Rightarrow> serror option \<Rightarrow> serror + string" where
  "NewFileManifestStore d mkdir_err =
     (if d = '''' then Inl EEmptyDir
      else case mkdir_err of Some er \<Rightarrow> Inl er | None \<Rightarrow> Inr d)"

text \<open>The name, within the directory of the store, of the file of a manifest.\<close>

definition pathFor :: "string \<Rightarrow> string" where
  "pathFor name = map (\<lambda>c. if c = CHR ''/'' then CHR ''_'' else c) name @ ''.json''"

definition FileStore_Save :: "io \<Rightarrow> FileManifest \<Rightarrow> dir \<Rightarrow> serror option \<times> dir" where
  "FileStore_Save i m d =
     (case io_marshal i of
        Some er \<Rightarrow> (Some er, d)
      | None \<Rightarrow>
          let tmp = pathFor (fm_FileName m) @ ''.tmp'' in
          case io_write i of
            Some er \<Rightarrow> (Some er, put tmp (File None) d)
          | None \<Rightarrow>
              case io_rename i of
                Some er \<Rightarrow> (Some er, put tmp (File (Some (json_manifest m))) d)
              | None \<Rightarrow> (None, put (pathFor (fm_FileName m)) (File (Some (json_manifest m))) (del tmp d)))"

definition FileStore_Load :: "string \<Rightarrow> dir \<Rightarrow> serror + FileManifest option" where
  "FileStore_Load name d =
     (case get d (pathFor name) of
        None \<Rightarrow> Inr None
      | Some (File (Some m)) \<Rightarrow> Inr (Some m)
      | Some (File None) \<Rightarrow> Inl (EExternal ''unmarshal'')
      | Some _ \<Rightarrow> Inl (EExternal ''read''))"

definition has_suffix :: "string \<Rightarrow> string \<Rightarrow> bool" where
  "has_suffix s suf \<longleftrightarrow> length suf \<le> length s \<and> drop (length s - length suf) s = suf"

definition entry_manifest :: "dir \<Rightarrow> string \<Rightarrow> FileManifest option" where
  "entry_manifest d f =
     (case get d f of
        Some (File (Some m)) \<Rightarrow> if has_suffix f ''.json'' then Some m else None
      | _ \<Rightarrow> None)"

definition FileStore_LoadAll :: "serror option \<Rightarrow> dir \<Rightarrow> serror + FileManifest list" where
  "FileStore_LoadAll readdir_err d =
     (case readdir_err of
        Some er \<Rightarrow> Inl er
      | None \<Rightarrow> Inr (List.map_filter (entry_manifest d) (sort (map fst d))))"

definition FileStore_Delete :: "string \<Rightarrow> dir \<Rightarrow> serror option \<times> dir" where
  "FileStore_Delete name d =
     (if has_key d (pathFor name) then (None, del (pathFor name) d)
      else (Some (EExternal ''not exist''), d))"

definition FileManifestStore :: "io \<Rightarrow> serror option \<Rightarrow> dir ManifestStore" where
  "FileManifestStore i readdir_err =
     \<lparr>Save = FileStore_Save i, Load = FileStore_Load, LoadAll = FileStore_LoadAll readdir_err,
      Delete = FileStore_Delete\<rparr>"

section \<open>The HMAC signer\<close>

text \<open>\<open>marshal\<close> is json.Marshal on manifests, \<open>hmac\<close> is HMAC-SHA256.\<close>

definition HMAC_Sign ::
    "(FileManifest \<Rightarrow> serror + bytes) \<Rightarrow> (bytes \<Rightarrow> bytes \<Rightarrow> bytes) \<Rightarrow> bytes \<Rightarrow> FileManifest \<Rightarrow>
     serror + FileManifest" where
  "HMAC_Sign marshal hmac key m =
     (case marshal (m\<lparr>fm_Signature := []\<rparr>) of
        Inl er \<Rightarrow> Inl er
      | Inr b \<Rightarrow> Inr (m\<lparr>fm_Signature := hmac key b\<rparr>))"

definition HMAC_Verify ::
    "(FileManifest \<Rightarrow> serror + bytes) \<Rightarrow> (bytes \<Rightarrow> bytes \<Rightarrow> bytes) \<Rightarrow> bytes \<Rightarrow> FileManifest \<Rightarrow>
     serror option" where
  "HMAC_Verify marshal hmac key m =
     (if fm_Signature m = [] then Some ENoSignature
      else case marshal (m\<lparr>fm_Signature := []\<rparr>) of
        Inl er \<Rightarrow> Some er
      | Inr b \<Rightarrow> if fm_Signature m = hmac key b then None else Some ESignatureMismatch)"

definition HMACManifestSigner ::
    "(FileManifest \<Rightarrow> serror + bytes) \<Rightarrow> (bytes \<Rightarrow> bytes \<Rightarrow> bytes) \<Rightarrow> bytes \<Rightarrow> ManifestSigner" where
  "HMACManifestSigner marshal hmac key =
     \<lparr>Sign = HMAC_Sign marshal hmac key, Verify = HMAC_Verify marshal hmac key\<rparr>"

section \<open>Orphan registries\<close>

record InMemoryOrphanRegistry =
  or_entries :: "(string, Shard) gomap"
  or_timeMap :: "(string, gotime) gomap"

definition NewInMemoryOrphanRegistry :: InMemoryOrphanRegistry where
  "NewInMemoryOrphanRegistry = \<lparr>or_entries = [], or_timeMap = []\<rparr>"

definition InMem_RegisterOrphan ::
    "gotime \<Rightarrow> Shard \<Rightarrow> InMemoryOrphanRegistry \<Rightarrow> InMemoryOrphanRegistry" where
  "InMem_RegisterOrphan now sh r =
     r\<lparr>or_entries := put (sh_ID sh) sh (or_entries r), or_timeMap := put (sh_ID sh) now (or_timeMap r)\<rparr>"

definition InMem_ListOrphans :: "InMemoryOrphanRegistry \<Rightarrow> Shard list" where
  "InMem_ListOrphans r = map snd (or_entries r)"

text \<open>The shard that a missing key reads as.\<close>

definition zero_shard :: Shard where
  "zero_shard = \<lparr>sh_ID = '''', sh_Backend = '''', sh_Region = '''', sh_Data = [], sh_Checksum = '''',
     sh_CipherHash = '''', sh_Parity = False, sh_Index = 0, sh_CreatedAt = 0\<rparr>"

fun cleanup_loop :: "gotime \<Rightarrow> (string \<times> gotime) list \<Rightarrow> InMemoryOrphanRegistry \<Rightarrow>
    Shard list \<times> InMemoryOrphanRegistry" where
  "cleanup_loop before [] r = ([], r)"
| "cleanup_loop before ((i, t) # ts) r =
     (if t < before
      then let sh = (case get (or_entries r) i of Some sh \<Rightarrow> sh | None \<Rightarrow> zero_shard);
               (rem, r) = cleanup_loop before ts
                 (r\<lparr>or_entries := del i (or_entries r), or_timeMap := del i (or_timeMap r)\<rparr>)
           in (sh # rem, r)
      else cleanup_loop before ts r)"

definition InMem_CleanupOlderThan ::
    "gotime \<Rightarrow> duration \<Rightarrow> InMemoryOrphanRegistry \<Rightarrow> Shard list \<times> InMemoryOrphanRegistry" where
  "InMem_CleanupOlderThan now d r = cleanup_loop (now - d) (or_timeMap r) r"

text \<open>
  The persistent registry and the file that its last successful flush wrote, \<open>None\<close> when there is
  no file or it does not decode. Errors of a flush are only logged.
\<close>

record PersistentOrphanRegistry =
  po_mem :: InMemoryOrphanRegistry
  po_disk :: "InMemoryOrphanRegistry option"

definition po_flush :: "serror option \<Rightarrow> PersistentOrphanRegistry \<Rightarrow> PersistentOrphanRegistry" where
  "po_flush io_err r = (case io_err of Some _ \<Rightarrow> r | None \<Rightarrow> r\<lparr>po_disk := Some (po_mem r)\<rparr>)"

definition po_load :: "PersistentOrphanRegistry \<Rightarrow> PersistentOrphanRegistry" where
  "po_load r = (case po_disk r of None \<Rightarrow> r | Some m \<Rightarrow> r\<lparr>po_mem := m\<rparr>)"

definition NewPersistentOrphanRegistry ::
    "serror option \<Rightarrow> InMemoryOrphanRegistry option \<Rightarrow> serror + PersistentOrphanRegistry" where
  "NewPersistentOrphanRegistry mkdir_err disk =
     (case mkdir_err of
        Some er \<Rightarrow> Inl er
      | None \<Rightarrow> Inr (po_load \<lparr>po_mem = NewInMemoryOrphanRegistry, po_disk = disk\<rparr>))"

definition Persist_RegisterOrphan ::
    "gotime \<Rightarrow> serror option \<Rightarrow> Shard \<Rightarrow> PersistentOrphanRegistry \<Rightarrow> PersistentOrphanRegistry" where
  "Persist_RegisterOrphan now io_err sh r =
     po_flush io_err (r\<lparr>po_mem := InMem_RegisterOrphan now sh (po_mem r)\<rparr>)"

definition Persist_ListOrphans :: "PersistentOrphanRegistry \<Rightarrow> Shard list" where
  "Persist_ListOrphans r = InMem_ListOrphans (po_mem r)"

definition Persist_CleanupOlderThan ::
    "gotime \<Rightarrow> serror option \<Rightarrow> duration \<Rightarrow> PersistentOrphanRegistry \<Rightarrow>
     Shard list \<times> PersistentOrphanRegistry" where
  "Persist_CleanupOlderThan now io_err d r =
     (let (rem, m) = InMem_CleanupOlderThan now d (po_mem r)
      in (rem, po_flush io_err (r\<lparr>po_mem := m\<rparr>)))"

definition InMemRegistry :: "gotime \<Rightarrow> InMemoryOrphanRegistry OrphanRegistry" where
  "InMemRegistry now = \<lparr>RegisterOrphan = InMem_RegisterOrphan now, ListOrphans = InMem_ListOrphans,
     CleanupOlderThan = InMem_CleanupOlderThan now\<rparr>"

definition PersistRegistry ::
    "gotime \<Rightarrow> serror option \<Rightarrow> PersistentOrphanRegistry OrphanRegistry" where
  "PersistRegistry now io_err = \<lparr>RegisterOrphan = Persist_RegisterOrphan now io_err,
     ListOrphans = Persist_ListOrphans, CleanupOlderThan = Persist_CleanupOlderThan now io_err\<rparr>"

section \<open>Placements\<close>

text \<open>The nanoseconds of shard IDs are those of the first draw.\<close>

definition rep_shard :: "env \<Rightarrow> bytes \<Rightarrow> string list \<Rightarrow> nat \<Rightarrow> Shard" where
  "rep_shard e file names i =
     \<lparr>sh_ID = ''rep-'' @ dec (fst (draws e 0)) @ ''-'' @ dec i,
      sh_Backend = names ! (i mod length names), sh_Region = '''', sh_Data = file,
      sh_Checksum = sha256Hex e file, sh_CipherHash = '''', sh_Parity = False,
      sh_Index = int i, sh_CreatedAt = clock e\<rparr>"

definition Replication_PlaceShards ::
    "env \<Rightarrow> bytes \<Rightarrow> 'w Backends \<Rightarrow> opts \<Rightarrow> 'w \<Rightarrow> (serror + Shard list, 'w) outcome" where
  "Replication_PlaceShards e file bes opts w =
     (if bes = [] then Returned (Inl ENoBackends) w
      else let replicas = nat (opt_above 0 1 opts ''replicas''); names = sort (map fst bes)
           in Returned (Inr (map (rep_shard e file names) [0..<replicas])) w)"

text \<open>parity[j] ^= part[j], after parity has been extended to the length of part.\<close>

definition xor_into :: "bytes \<Rightarrow> bytes \<Rightarrow> bytes" where
  "xor_into p q =
     (let p = p @ replicate (length q - length p) 0
      in map2 (XOR) (take (length q) p) q @ drop (length q) p)"

definition xor_shard :: "env \<Rightarrow> bytes \<Rightarrow> string list \<Rightarrow> nat \<Rightarrow> Shard" where
  "xor_shard e part names i =
     \<lparr>sh_ID = ''xor-'' @ dec (fst (draws e 0)) @ ''-'' @ dec i,
      sh_Backend = names ! (i mod length names), sh_Region = '''', sh_Data = part,
      sh_Checksum = sha256Hex e part, sh_CipherHash = '''', sh_Parity = False,
      sh_Index = int i, sh_CreatedAt = clock e\<rparr>"

definition parity_shard :: "env \<Rightarrow> bytes \<Rightarrow> string list \<Rightarrow> nat \<Rightarrow> Shard" where
  "parity_shard e parity names n =
     \<lparr>sh_ID = ''xor-parity-'' @ dec (fst (draws e 0)),
      sh_Backend = names ! (n mod length names), sh_Region = '''', sh_Data = parity,
      sh_Checksum = sha256Hex e parity, sh_CipherHash = '''', sh_Parity = True,
      sh_Index = int n, sh_CreatedAt = clock e\<rparr>"

text \<open>The part of chunk i; \<open>make([]byte, end-start)\<close> panics when the length is negative.\<close>

definition xor_part :: "bytes \<Rightarrow> nat \<Rightarrow> nat \<Rightarrow> bytes option" where
  "xor_part file chunkSize i =
     (let lo = i * chunkSize; hi = min (lo + chunkSize) (length file)
      in if hi < lo then None else Some (take (hi - lo) (drop lo file)))"

fun xor_loop :: "bytes \<Rightarrow> nat \<Rightarrow> nat list \<Rightarrow> bytes option \<Rightarrow> bytes list \<Rightarrow>
    (bytes option \<times> bytes list) option" where
  "xor_loop file chunkSize [] parity parts = Some (parity, parts)"
| "xor_loop file chunkSize (i # is') parity parts =
     (case xor_part file chunkSize i of
        None \<Rightarrow> None
      | Some part \<Rightarrow>
          xor_loop file chunkSize is'
            (Some (case parity of None \<Rightarrow> part | Some p \<Rightarrow> xor_into p part)) (parts @ [part]))"

definition XOR_PlaceShards ::
    "env \<Rightarrow> bytes \<Rightarrow> 'w Backends \<Rightarrow> opts \<Rightarrow> 'w \<Rightarrow> (serror + Shard list, 'w) outcome" where
  "XOR_PlaceShards e file bes opts w =
     (if bes = [] then Returned (Inl ENoBackends) w
      else let dataShards = nat (opt_above 1 2 opts ''data_shards''); names = sort (map fst bes);
               chunkSize = (length file + dataShards - 1) div dataShards
           in case xor_loop file chunkSize [0..<dataShards] None [] of
                None \<Rightarrow> Panicked w
              | Some (parity, parts) \<Rightarrow>
                  let ds = map (\<lambda>i. xor_shard e (parts ! i) names i) [0..<dataShards]
                  in Returned (Inr (ds @
                       [parity_shard e (case parity of None \<Rightarrow> [] | Some p \<Rightarrow> p) names dataShards])) w)"

text \<open>Both streaming variants copy the reader to a temporary file first.\<close>

definition spool :: "env \<Rightarrow> reader \<Rightarrow> serror + bytes" where
  "spool e r = (case tmp_error e of
     Some er \<Rightarrow> Inl er
   | None \<Rightarrow> case rd_err r of Some er \<Rightarrow> Inl er | None \<Rightarrow> Inr (rd_bytes r))"

definition Replication_PlaceShardsStream ::
    "env \<Rightarrow> reader \<Rightarrow> int \<Rightarrow> 'w Backends \<Rightarrow> opts \<Rightarrow> 'w \<Rightarrow> (serror + Shard list, 'w) outcome" where
  "Replication_PlaceShardsStream e r len bes opts w =
     (case spool e r of
        Inl er \<Rightarrow> Returned (Inl er) w
      | Inr file \<Rightarrow> Replication_PlaceShards e file bes opts w)"

definition XOR_PlaceShardsStream ::
    "env \<Rightarrow> reader \<Rightarrow> int \<Rightarrow> 'w Backends \<Rightarrow> opts \<Rightarrow> 'w \<Rightarrow> (serror + Shard list, 'w) outcome" where
  "XOR_PlaceShardsStream e r len bes opts w =
     (case spool e r of
        Inl er \<Rightarrow> Returned (Inl er) w
      | Inr file \<Rightarrow> XOR_PlaceShards e file bes opts w)"

definition SimpleReplicationPlacement :: "env \<Rightarrow> 'w PlacementPlugin" where
  "SimpleReplicationPlacement e = \<lparr>PlaceShards = Replication_PlaceShards e,
     PlaceShardsStream = Some (Replication_PlaceShardsStream e)\<rparr>"

definition SimpleXORParityPlacement :: "env \<Rightarrow> 'w PlacementPlugin" where
  "SimpleXORParityPlacement e = \<lparr>PlaceShards = XOR_PlaceShards e,
     PlaceShardsStream = Some (XOR_PlaceShardsStream e)\<rparr>"

section \<open>The contract of a manifest store\<close>

text \<open>
  \<open>key\<close> is what the store files a manifest under, \<open>img\<close> what becomes of a manifest that is written
  and read back. Two names with one key share a manifest.
\<close>

locale manifest_store =
  fixes save :: "FileManifest \<Rightarrow> 'd \<Rightarrow> serror option \<times> 'd"
    and load :: "string \<Rightarrow> 'd \<Rightarrow> serror + FileManifest option"
    and key :: "string \<Rightarrow> string"
    and img :: "FileManifest \<Rightarrow> FileManifest"
    and ok :: "'d \<Rightarrow> bool"
  assumes load_save: "save m d = (None, d') \<Longrightarrow>
      load n d' = (if key n = key (fm_FileName m) then Inr (Some (img m)) else load n d)"
    and load_failed_save: "save m d = (Some er, d') \<Longrightarrow> load n d' = load n d"
    and ok_save: "ok d \<Longrightarrow> ok (snd (save m d))"
    and load_key: "ok d \<Longrightarrow> load n d = Inr (Some m) \<Longrightarrow> key (fm_FileName m) = key n"
    and img_fields: "fm_FileName (img m) = fm_FileName m" "fm_Version (img m) = fm_Version m"
      "fm_Shards (img m) = fm_Shards m"
begin

lemma load_own_save: "save m d = (None, d') \<Longrightarrow> load (fm_FileName m) d' = Inr (Some (img m))"
  by (simp add: load_save)

lemma load_other_save:
  "save m d = r \<Longrightarrow> key n \<noteq> key (fm_FileName m) \<Longrightarrow> load n (snd r) = load n d"
  by (cases r; cases "fst r") (simp_all add: load_save load_failed_save)

end

lemma tmp_not_json: "pathFor n \<noteq> pathFor m @ ''.tmp''"
proof
  assume "pathFor n = pathFor m @ ''.tmp''"
  then have "last (pathFor n) = last (pathFor m @ ''.tmp'')" by simp
  then show False by (simp add: pathFor_def)
qed

lemma has_suffix_append [simp]: "has_suffix (xs @ suf) suf"
  by (simp add: has_suffix_def)

lemma has_suffix_append_same_length:
  "length a = length b \<Longrightarrow> has_suffix (xs @ a) b \<longleftrightarrow> a = b"
  by (auto simp: has_suffix_def)

lemma has_suffix_longer:
  "length suf \<le> length b \<Longrightarrow> has_suffix (xs @ b) suf \<longleftrightarrow> has_suffix b suf"
  by (auto simp: has_suffix_def)

lemma has_suffix_pathFor [simp]: "has_suffix (pathFor n) ''.json''"
  by (simp add: pathFor_def)

lemma has_suffix_tmp [simp]: "\<not> has_suffix (pathFor n @ ''.tmp'') ''.json''"
proof -
  have "pathFor n @ ''.tmp'' = (map (\<lambda>c. if c = CHR ''/'' then CHR ''_'' else c) n) @ ''.json.tmp''"
    by (simp add: pathFor_def)
  moreover have "\<not> has_suffix ''.json.tmp'' ''.json''" by (simp add: has_suffix_def)
  ultimately show ?thesis using has_suffix_longer[of "''.json''" "''.json.tmp''"]
    by (metis (no_types, lifting) has_suffix_longer length_Cons list.size(3) Suc_le_mono zero_le)
qed

text \<open>Every manifest of the directory lies in the file of its own name.\<close>

definition dir_ok :: "dir \<Rightarrow> bool" where
  "dir_ok d \<longleftrightarrow> (\<forall>f m. get d f = Some (File (Some m)) \<and> has_suffix f ''.json'' \<longrightarrow>
     f = pathFor (fm_FileName m))"

lemma json_manifest_fields [simp]:
  "fm_FileName (json_manifest m) = fm_FileName m" "fm_Version (json_manifest m) = fm_Version m"
  "fm_Shards (json_manifest m) = fm_Shards m" "fm_History (json_manifest m) = fm_History m"
  "fm_CreatedAt (json_manifest m) = fm_CreatedAt m" "fm_MerkleRoot (json_manifest m) = fm_MerkleRoot m"
  "fm_Signature (json_manifest m) = fm_Signature m"
  by (simp_all add: json_manifest_def)

interpretation files: manifest_store "FileStore_Save i" FileStore_Load pathFor json_manifest dir_ok
proof unfold_locales
  fix m n :: "FileManifest" and d d' :: dir and er
  show "FileStore_Save i m d = (None, d') \<Longrightarrow>
      FileStore_Load k d' = (if pathFor k = pathFor (fm_FileName m) then Inr (Some (json_manifest m))
        else FileStore_Load k d)" for k
    using tmp_not_json[of k "fm_FileName m"]
    by (auto simp: FileStore_Save_def FileStore_Load_def get_put get_del Let_def split: option.splits)
  show "FileStore_Save i m d = (Some er, d') \<Longrightarrow> FileStore_Load k d' = FileStore_Load k d" for k
    using tmp_not_json[of k "fm_FileName m"]
    by (auto simp: FileStore_Save_def FileStore_Load_def get_put get_del Let_def split: option.splits)
  show "dir_ok d \<Longrightarrow> dir_ok (snd (FileStore_Save i m d))"
    by (auto simp: dir_ok_def FileStore_Save_def get_put get_del Let_def
        split: option.splits if_splits)
  show "dir_ok d \<Longrightarrow> FileStore_Load k d = Inr (Some m) \<Longrightarrow> pathFor (fm_FileName m) = pathFor k" for k
    unfolding dir_ok_def FileStore_Load_def
    by (auto split: option.splits dentry.splits) (metis has_suffix_pathFor)
qed simp_all

section \<open>The contract of an orphan registry\<close>

locale orphan_registry =
  fixes register :: "Shard \<Rightarrow> 'r \<Rightarrow> 'r"
    and orphans :: "'r \<Rightarrow> Shard list"
    and cleanup :: "duration \<Rightarrow> 'r \<Rightarrow> Shard list \<times> 'r"
    and ok :: "'r \<Rightarrow> bool"
  assumes ok_register: "ok r \<Longrightarrow> ok (register sh r)"
    and ok_cleanup: "ok r \<Longrightarrow> ok (snd (cleanup d r))"
    and orphans_register: "ok r \<Longrightarrow>
      set (orphans (register sh r)) = insert sh {x \<in> set (orphans r). sh_ID x \<noteq> sh_ID sh}"
    and orphans_cleanup: "ok r \<Longrightarrow> cleanup d r = (rem, r') \<Longrightarrow>
      mset (orphans r) = mset rem + mset (orphans r')"
begin

lemma registered: "ok r \<Longrightarrow> sh \<in> set (orphans (register sh r))"
  by (simp add: orphans_register)

lemma register_keeps:
  "ok r \<Longrightarrow> x \<in> set (orphans r) \<Longrightarrow> sh_ID x \<noteq> sh_ID sh \<Longrightarrow> x \<in> set (orphans (register sh r))"
  by (simp add: orphans_register)

lemma cleanup_drops_only_what_it_returns:
  "ok r \<Longrightarrow> cleanup d r = (rem, r') \<Longrightarrow> set (orphans r) = set rem \<union> set (orphans r')"
  using orphans_cleanup by (metis set_mset_mset set_mset_union)

end

text \<open>The two maps of the in-memory registry have the same keys, and shards lie under their IDs.\<close>

definition registry_ok :: "InMemoryOrphanRegistry \<Rightarrow> bool" where
  "registry_ok r \<longleftrightarrow> wf_map (or_entries r) \<and> wf_map (or_timeMap r) \<and>
     fst ` set (or_entries r) = fst ` set (or_timeMap r) \<and>
     (\<forall>(k, sh) \<in> set (or_entries r). sh_ID sh = k)"

lemma put_keys: "fst ` set (put k v m) = insert k (fst ` set m)"
  using has_key_put[of k v m] by (auto simp: has_key_iff)

lemma del_keys: "fst ` set (del k m) = fst ` set m - {k}"
  using has_key_del[of k m] by (auto simp: has_key_iff)

lemma get_eq_in_set: "wf_map m \<Longrightarrow> (k, v) \<in> set m \<longleftrightarrow> get m k = Some v"
  by (simp add: get_iff_in_set)

lemma registry_ok_register: "registry_ok r \<Longrightarrow> registry_ok (InMem_RegisterOrphan now sh r)"
proof -
  assume ok: "registry_ok r"
  have "\<forall>(k, x) \<in> set (put (sh_ID sh) sh (or_entries r)). sh_ID x = k"
    using ok set_put_subset[of "sh_ID sh" sh "or_entries r"] by (fastforce simp: registry_ok_def)
  then show ?thesis using ok
    by (simp add: registry_ok_def InMem_RegisterOrphan_def put_keys)
qed

lemma orphans_after_register:
  assumes ok: "registry_ok r"
  shows "set (InMem_ListOrphans (InMem_RegisterOrphan now sh r)) =
    insert sh {x \<in> set (InMem_ListOrphans r). sh_ID x \<noteq> sh_ID sh}"
proof -
  let ?m = "or_entries r" and ?m' = "put (sh_ID sh) sh (or_entries r)"
  have wf: "wf_map ?m" "wf_map ?m'" and id: "\<And>k x. (k, x) \<in> set ?m \<Longrightarrow> sh_ID x = k"
    using ok by (auto simp: registry_ok_def)
  have "x \<in> snd ` set ?m' \<longleftrightarrow> x = sh \<or> (x \<in> snd ` set ?m \<and> sh_ID x \<noteq> sh_ID sh)" for x
  proof -
    have "x \<in> snd ` set ?m' \<longleftrightarrow> (\<exists>k. get ?m' k = Some x)"
      using wf(2) by (force simp: get_eq_in_set[symmetric])
    also have "\<dots> \<longleftrightarrow> x = sh \<or> (\<exists>k. k \<noteq> sh_ID sh \<and> get ?m k = Some x)"
      by (auto simp: get_put)
    also have "\<dots> \<longleftrightarrow> x = sh \<or> (x \<in> snd ` set ?m \<and> sh_ID x \<noteq> sh_ID sh)"
      using wf(1) id by (force simp: get_eq_in_set[symmetric])
    finally show ?thesis .
  qed
  then show ?thesis by (auto simp: InMem_ListOrphans_def InMem_RegisterOrphan_def)
qed

lemma mset_remove_key:
  "wf_map m \<Longrightarrow> get m k = Some v \<Longrightarrow>
   mset (map snd m) = add_mset v (mset (map snd (del k m)))"
proof (induction m)
  case Nil
  then show ?case by simp
next
  case (Cons p m)
  obtain a b where p: "p = (a, b)" by (cases p)
  show ?case
  proof (cases "a = k")
    case True
    then have "k \<notin> fst ` set m" using Cons.prems p by (simp add: wf_map_Cons has_key_iff)
    then have "del k m = m" by (rule delete_id)
    then show ?thesis using True p Cons.prems by simp
  next
    case False
    then show ?thesis using Cons p by (simp add: wf_map_Cons)
  qed
qed

lemma cleanup_loop_spec:
  "registry_ok r \<Longrightarrow> distinct (map fst ts) \<Longrightarrow> set ts \<subseteq> set (or_timeMap r) \<Longrightarrow>
   cleanup_loop before ts r = (rem, r') \<Longrightarrow>
   registry_ok r' \<and> mset (InMem_ListOrphans r) = mset rem + mset (InMem_ListOrphans r')"
proof (induction before ts r arbitrary: rem r' rule: cleanup_loop.induct)
  case (1 before r)
  then show ?case by simp
next
  case (2 before i t ts r)
  show ?case
  proof (cases "t < before")
    case False
    then show ?thesis using 2 by auto
  next
    case True
    let ?r = "r\<lparr>or_entries := del i (or_entries r), or_timeMap := del i (or_timeMap r)\<rparr>"
    have "i \<in> fst ` set (or_timeMap r)" using "2.prems"(3) by (metis image_eqI list.set_intros(1) fst_conv subsetD)
    then have "i \<in> fst ` set (or_entries r)" using "2.prems"(1) by (simp add: registry_ok_def)
    then obtain sh where sh: "get (or_entries r) i = Some sh"
      by (metis has_key_iff has_key_def option.exhaust)
    have ok: "registry_ok ?r" using "2.prems"(1) set_del_subset[of i "or_entries r"]
      by (auto simp: registry_ok_def del_keys)
    have sub: "set ts \<subseteq> set (or_timeMap ?r)" using "2.prems"(2,3)
      by (force simp: AList.delete_eq)
    obtain rem' where rem: "rem = sh # rem'" and loop: "cleanup_loop before ts ?r = (rem', r')"
      using "2.prems"(4) True sh by (auto simp: Let_def split: prod.splits)
    have "registry_ok r' \<and> mset (InMem_ListOrphans ?r) = mset rem' + mset (InMem_ListOrphans r')"
      using "2.IH"(1)[OF True] ok sub loop "2.prems"(2) sh by simp
    moreover have "mset (InMem_ListOrphans r) = add_mset sh (mset (InMem_ListOrphans ?r))"
      using mset_remove_key[of "or_entries r" i sh] sh "2.prems"(1)
      by (simp add: InMem_ListOrphans_def registry_ok_def)
    ultimately show ?thesis using rem by simp
  qed
qed

lemma cleanup_spec:
  "registry_ok r \<Longrightarrow> InMem_CleanupOlderThan now d r = (rem, r') \<Longrightarrow>
   registry_ok r' \<and> mset (InMem_ListOrphans r) = mset rem + mset (InMem_ListOrphans r')"
  unfolding InMem_CleanupOlderThan_def
  by (rule cleanup_loop_spec) (auto simp: registry_ok_def wf_map_def)

interpretation in_mem: orphan_registry "InMem_RegisterOrphan now" InMem_ListOrphans
    "InMem_CleanupOlderThan now" registry_ok
proof unfold_locales
  fix r r' :: InMemoryOrphanRegistry and sh d rem
  assume ok: "registry_ok r"
  show "registry_ok (InMem_RegisterOrphan now sh r)" using ok by (rule registry_ok_register)
  show "registry_ok (snd (InMem_CleanupOlderThan now d r))"
    using cleanup_spec[OF ok surjective_pairing] by blast
  show "set (InMem_ListOrphans (InMem_RegisterOrphan now sh r)) =
      insert sh {x \<in> set (InMem_ListOrphans r). sh_ID x \<noteq> sh_ID sh}"
    using ok by (rule orphans_after_register)
  show "InMem_CleanupOlderThan now d r = (rem, r') \<Longrightarrow>
      mset (InMem_ListOrphans r) = mset rem + mset (InMem_ListOrphans r')"
    using cleanup_spec[OF ok] by blast
qed

lemma po_flush_mem [simp]: "po_mem (po_flush i r) = po_mem r"
  by (simp add: po_flush_def split: option.split)

interpretation persistent: orphan_registry "Persist_RegisterOrphan now i" Persist_ListOrphans
    "Persist_CleanupOlderThan now i" "\<lambda>r. registry_ok (po_mem r)"
proof unfold_locales
  fix r r' :: PersistentOrphanRegistry and sh d rem
  assume ok: "registry_ok (po_mem r)"
  show "registry_ok (po_mem (Persist_RegisterOrphan now i sh r))"
    using in_mem.ok_register[OF ok] by (simp add: Persist_RegisterOrphan_def)
  show "registry_ok (po_mem (snd (Persist_CleanupOlderThan now i d r)))"
    using in_mem.ok_cleanup[OF ok, of now d] by (auto simp: Persist_CleanupOlderThan_def split: prod.split)
  show "set (Persist_ListOrphans (Persist_RegisterOrphan now i sh r)) =
      insert sh {x \<in> set (Persist_ListOrphans r). sh_ID x \<noteq> sh_ID sh}"
    using in_mem.orphans_register[OF ok]
    by (simp add: Persist_RegisterOrphan_def Persist_ListOrphans_def)
  show "mset (Persist_ListOrphans r) = mset rem + mset (Persist_ListOrphans r')"
    if "Persist_CleanupOlderThan now i d r = (rem, r')"
    using that in_mem.orphans_cleanup[OF ok]
    by (auto simp: Persist_CleanupOlderThan_def Persist_ListOrphans_def split: prod.splits)
qed

section \<open>The contract of a placement\<close>

lemma set_dec: "set (dec n) \<subseteq> digit ` {..<10}"
proof (induction n rule: dec.induct)
  case (1 n)
  then show ?case by (subst dec.simps) auto
qed

lemma dec_not_Nil [simp]: "dec n \<noteq> []"
  by (subst dec.simps) simp

lemma digit_neq: "c \<notin> digit ` {..<10} \<Longrightarrow> c \<notin> set (dec n)"
  using set_dec by blast

lemma letter_not_digit [simp]: "CHR ''p'' \<notin> digit ` {..<10}" "CHR ''-'' \<notin> digit ` {..<10}"
proof -
  have "of_char (digit d) < (58::nat)" "47 < (of_char (digit d) :: nat)" if "d < 10" for d
    using that by (simp_all add: digit_def)
  moreover have "of_char (CHR ''p'') = (112::nat)" "of_char (CHR ''-'') = (45::nat)" by simp_all
  ultimately have "CHR ''p'' \<noteq> digit d" "CHR ''-'' \<noteq> digit d" if "d < 10" for d
    using that by fastforce+
  then show "CHR ''p'' \<notin> digit ` {..<10}" "CHR ''-'' \<notin> digit ` {..<10}" by auto
qed

lemma hd_dec: "hd (dec n) \<in> digit ` {..<10}"
  using set_dec[of n] hd_in_set[OF dec_not_Nil[of n]] by blast

text \<open>
  A placement gives shards with the indices 0, 1, 2 and so on, pairwise distinct IDs, registered
  backends and the checksum of their own data.
\<close>

definition placed_ok :: "env \<Rightarrow> 'w Backends \<Rightarrow> Shard list \<Rightarrow> bool" where
  "placed_ok e bes shards \<longleftrightarrow>
     shards \<noteq> [] \<and> map sh_Index shards = map int [0..<length shards] \<and>
     distinct (map sh_ID shards) \<and>
     (\<forall>sh \<in> set shards. has_key bes (sh_Backend sh) \<and> sh_ID sh \<noteq> '''' \<and>
        sh_Checksum sh = sha256Hex e (sh_Data sh))"

locale placement =
  fixes place :: "env \<Rightarrow> bytes \<Rightarrow> 'w Backends \<Rightarrow> opts \<Rightarrow> 'w \<Rightarrow> (serror + Shard list, 'w) outcome"
  assumes place_none: "place e file [] opts w = Returned (Inl ENoBackends) w"
    and place_some: "place e file bes opts w = Returned (Inr shards) w' \<Longrightarrow>
      w' = w \<and> placed_ok e bes shards"
begin

lemma placed_index:
  assumes "place e file bes opts w = Returned (Inr shards) w'" and "i < length shards"
  shows "sh_Index (shards ! i) = int i"
proof -
  have "map sh_Index shards = map int [0..<length shards]"
    using place_some[OF assms(1)] by (simp add: placed_ok_def)
  then show ?thesis using assms(2) by (metis add_0 nth_map nth_upt length_map length_upt minus_nat.diff_0)
qed

lemma placed_backend:
  "place e file bes opts w = Returned (Inr shards) w' \<Longrightarrow> sh \<in> set shards \<Longrightarrow>
   has_key bes (sh_Backend sh) \<and> sh_ID sh \<noteq> ''''"
  using place_some by (fastforce simp: placed_ok_def)

end

lemma sorted_names_in:
  "bes \<noteq> [] \<Longrightarrow> has_key bes (sort (map fst bes) ! (i mod length (sort (map fst bes))))"
  using nth_mem[of "i mod length (sort (map fst bes))" "sort (map fst bes)"]
  by (auto simp: has_key_iff)

lemma Replication_placed:
  assumes "Replication_PlaceShards e file bes opts w = Returned (Inr shards) w'"
  shows "w' = w \<and> placed_ok e bes shards \<and>
    length shards = nat (opt_above 0 1 opts ''replicas'') \<and> (\<forall>sh \<in> set shards. sh_Data sh = file)"
proof -
  let ?n = "nat (opt_above 0 1 opts ''replicas'')" and ?names = "sort (map fst bes)"
  have ne: "bes \<noteq> []" and w: "w' = w" and sh: "shards = map (rep_shard e file ?names) [0..<?n]"
    using assms by (auto simp: Replication_PlaceShards_def Let_def split: if_splits)
  have pos: "0 < ?n" using opt_above_gt[of 0 1 opts "''replicas''"] by simp
  have "distinct (map sh_ID shards)"
    by (simp add: sh o_def rep_shard_def distinct_map inj_on_def dec_inj)
  moreover have "has_key bes (sh_Backend (rep_shard e file ?names i))" for i
    using sorted_names_in[OF ne] by (simp add: rep_shard_def)
  ultimately have "placed_ok e bes shards" using pos
    by (auto simp: placed_ok_def sh rep_shard_def o_def)
  then show ?thesis using w pos by (auto simp: sh rep_shard_def)
qed

lemma xor_loop_Some:
  "xor_loop file c is' parity parts = Some (p, ps) \<Longrightarrow>
   ps = parts @ map (\<lambda>i. the (xor_part file c i)) is' \<and> (\<forall>i \<in> set is'. xor_part file c i \<noteq> None) \<and>
   p = (case (parity, is') of
         (None, []) \<Rightarrow> None
       | (None, i # js) \<Rightarrow> Some (foldl xor_into (the (xor_part file c i)) (map (\<lambda>i. the (xor_part file c i)) js))
       | (Some q, js) \<Rightarrow> Some (foldl xor_into q (map (\<lambda>i. the (xor_part file c i)) js)))"
proof (induction "file" c is' parity parts rule: xor_loop.induct)
  case (1 f c parity parts)
  then show ?case by (auto split: option.split)
next
  case (2 f c i js parity parts)
  then obtain part where part: "xor_part f c i = Some part"
    by (auto split: option.splits)
  show ?case using "2.IH"[OF part] "2.prems" part by (cases parity) (simp_all split: list.split)
qed

lemma xor_loop_None_iff:
  "xor_loop file c is' parity parts = None \<longleftrightarrow> (\<exists>i \<in> set is'. xor_part file c i = None)"
  by (induction "file" c is' parity parts rule: xor_loop.induct) (auto split: option.splits)

lemma xor_part_None_iff: "xor_part file c i = None \<longleftrightarrow> length file < i * c"
  by (auto simp: xor_part_def Let_def min_def)

definition data_shards :: "opts \<Rightarrow> nat" where
  "data_shards opts = nat (opt_above 1 2 opts ''data_shards'')"

definition chunk_size :: "bytes \<Rightarrow> opts \<Rightarrow> nat" where
  "chunk_size file opts = (length file + data_shards opts - 1) div data_shards opts"

lemma data_shards_ge: "2 \<le> data_shards opts"
  using opt_above_gt[of 1 2 opts "''data_shards''"] by (simp add: data_shards_def)

lemma XOR_panics_iff:
  "bes \<noteq> [] \<Longrightarrow>
   XOR_PlaceShards e file bes opts w = Panicked w \<longleftrightarrow>
     length file < (data_shards opts - 1) * chunk_size file opts"
proof -
  assume ne: "bes \<noteq> []"
  have "XOR_PlaceShards e file bes opts w = Panicked w \<longleftrightarrow>
      xor_loop file (chunk_size file opts) [0..<data_shards opts] None [] = None"
    using ne by (auto simp: XOR_PlaceShards_def Let_def data_shards_def chunk_size_def
        split: option.splits)
  also have "\<dots> \<longleftrightarrow> (\<exists>i < data_shards opts. length file < i * chunk_size file opts)"
    by (auto simp: xor_loop_None_iff xor_part_None_iff)
  also have "\<dots> \<longleftrightarrow> length file < (data_shards opts - 1) * chunk_size file opts"
  proof
    assume "\<exists>i < data_shards opts. length file < i * chunk_size file opts"
    then obtain i where "i < data_shards opts" "length file < i * chunk_size file opts" by blast
    moreover have "i * chunk_size file opts \<le> (data_shards opts - 1) * chunk_size file opts"
      using calculation(1) by (intro mult_right_mono) auto
    ultimately show "length file < (data_shards opts - 1) * chunk_size file opts" by linarith
  next
    assume "length file < (data_shards opts - 1) * chunk_size file opts"
    then show "\<exists>i < data_shards opts. length file < i * chunk_size file opts"
      using data_shards_ge[of opts] by (intro exI[of _ "data_shards opts - 1"]) auto
  qed
  finally show ?thesis .
qed

definition xor_parts :: "bytes \<Rightarrow> opts \<Rightarrow> bytes list" where
  "xor_parts file opts =
     map (\<lambda>i. the (xor_part file (chunk_size file opts) i)) [0..<data_shards opts]"

definition xor_parity :: "bytes \<Rightarrow> opts \<Rightarrow> bytes" where
  "xor_parity file opts = foldl xor_into (hd (xor_parts file opts)) (tl (xor_parts file opts))"

lemma length_xor_parts [simp]: "length (xor_parts file opts) = data_shards opts"
  by (simp add: xor_parts_def)

lemma XOR_returns:
  assumes "XOR_PlaceShards e file bes opts w = Returned (Inr shards) w'"
  shows "w' = w \<and> bes \<noteq> [] \<and>
    shards = map (\<lambda>i. xor_shard e (xor_parts file opts ! i) (sort (map fst bes)) i) [0..<data_shards opts] @
      [parity_shard e (xor_parity file opts) (sort (map fst bes)) (data_shards opts)]"
proof -
  let ?l = "xor_loop file (chunk_size file opts) [0..<data_shards opts] None []"
  have ne: "bes \<noteq> []" using assms by (auto simp: XOR_PlaceShards_def split: if_splits)
  then obtain p ps where l: "?l = Some (p, ps)" and w: "w' = w" and
    sh: "shards = map (\<lambda>i. xor_shard e (ps ! i) (sort (map fst bes)) i) [0..<data_shards opts] @
      [parity_shard e (case p of None \<Rightarrow> [] | Some p \<Rightarrow> p) (sort (map fst bes)) (data_shards opts)]"
    using assms by (auto simp: XOR_PlaceShards_def Let_def data_shards_def chunk_size_def
        split: option.splits)
  have upt: "[0..<data_shards opts] = 0 # [1..<data_shards opts]"
    using data_shards_ge[of opts] by (simp add: upt_conv_Cons)
  have "ps = xor_parts file opts" "p = Some (xor_parity file opts)"
    using xor_loop_Some[OF l] by (simp_all add: xor_parts_def xor_parity_def upt)
  then show ?thesis using ne w sh by simp
qed

lemma XOR_placed:
  assumes "XOR_PlaceShards e file bes opts w = Returned (Inr shards) w'"
  shows "w' = w \<and> placed_ok e bes shards"
proof -
  let ?names = "sort (map fst bes)" and ?n = "data_shards opts"
  have ne: "bes \<noteq> []" and w: "w' = w" and
    sh: "shards = map (\<lambda>i. xor_shard e (xor_parts file opts ! i) ?names i) [0..<?n] @
      [parity_shard e (xor_parity file opts) ?names ?n]"
    using XOR_returns[OF assms] by auto
  have "''parity-'' @ dec t \<noteq> dec u @ ''-'' @ dec i" for t u i
  proof
    assume "''parity-'' @ dec t = dec u @ ''-'' @ dec i"
    then have "hd (''parity-'' @ dec t) = hd (dec u @ ''-'' @ dec i)" by simp
    then have "CHR ''p'' = hd (dec u)" by simp
    then show False using hd_dec[of u] letter_not_digit(1) by metis
  qed
  then have new: "sh_ID (parity_shard e p ?names ?n) \<noteq> sh_ID (xor_shard e q ?names i)" for p q i
    by (simp add: parity_shard_def xor_shard_def)
  have "distinct (map sh_ID shards)" unfolding sh
    using new by (auto simp: distinct_map inj_on_def xor_shard_def dec_inj)
  moreover have "has_key bes (sh_Backend (xor_shard e p ?names i))"
    "has_key bes (sh_Backend (parity_shard e p ?names i))" for i p
    using sorted_names_in[OF ne] by (simp_all add: xor_shard_def parity_shard_def)
  ultimately have "placed_ok e bes shards"
    by (auto simp: placed_ok_def sh xor_shard_def parity_shard_def o_def)
  then show ?thesis using w by simp
qed

interpretation replication: placement Replication_PlaceShards
  by unfold_locales (simp_all add: Replication_PlaceShards_def[of _ _ "[]"] Replication_placed)

interpretation xor: placement XOR_PlaceShards
  by unfold_locales (simp_all add: XOR_PlaceShards_def[of _ _ "[]"] XOR_placed)

section \<open>What the parity is good for\<close>

definition byte_at :: "bytes \<Rightarrow> nat \<Rightarrow> byte" where
  "byte_at p j = (if j < length p then p ! j else 0)"

lemma length_xor_into [simp]: "length (xor_into p q) = max (length p) (length q)"
  by (simp add: xor_into_def Let_def)

lemma byte_at_xor_into [simp]: "byte_at (xor_into p q) j = byte_at p j XOR byte_at q j"
  by (auto simp: byte_at_def xor_into_def Let_def nth_append min_def)

lemma byte_at_foldl:
  "byte_at (foldl xor_into p qs) j = byte_at p j XOR byte_at (foldl xor_into [] qs) j"
proof (induction qs arbitrary: p)
  case Nil
  then show ?case by (simp add: byte_at_def)
next
  case (Cons q qs)
  show ?case
    using Cons[of "xor_into p q"] Cons[of "xor_into [] q"]
    by (simp add: byte_at_def[of "[]"] xor.assoc)
qed

lemma length_foldl_xor: "length p \<le> length (foldl xor_into p qs)"
proof (induction qs arbitrary: p)
  case Nil
  then show ?case by simp
next
  case (Cons q qs)
  show ?case using Cons[of "xor_into p q"] by simp
qed

lemma length_foldl_xor_mem: "q \<in> set qs \<Longrightarrow> length q \<le> length (foldl xor_into p qs)"
proof (induction qs arbitrary: p)
  case Nil
  then show ?case by simp
next
  case (Cons a qs)
  show ?case
  proof (cases "q = a")
    case True
    then show ?thesis using length_foldl_xor[of "xor_into p a" qs] by simp
  next
    case False
    then show ?thesis using Cons by simp
  qed
qed

lemma byte_at_foldl_append:
  "byte_at (foldl xor_into [] (xs @ ys)) j =
     byte_at (foldl xor_into [] xs) j XOR byte_at (foldl xor_into [] ys) j"
  using byte_at_foldl[of "foldl xor_into [] xs" ys j] by simp

lemma xor_cancel: "(a XOR (x XOR b)) XOR (a XOR b) = (x :: byte)"
  by (rule bit_eqI) (auto simp: bit_xor_iff)

text \<open>The xor of the parity with all parts but one starts with that part.\<close>

lemma parity_recovers:
  assumes i: "i < length parts" and parity: "parity = foldl xor_into (hd parts) (tl parts)"
  shows "take (length (parts ! i)) (foldl xor_into parity (take i parts @ drop (Suc i) parts)) =
    parts ! i"
proof (rule nth_equalityI)
  let ?r = "foldl xor_into parity (take i parts @ drop (Suc i) parts)"
  have split: "parts = take i parts @ parts ! i # drop (Suc i) parts"
    using i by (rule id_take_nth_drop)
  have "parts \<noteq> []" using i by auto
  then have len: "length (parts ! i) \<le> length parity"
  proof (cases i)
    case 0
    then show ?thesis using parity length_foldl_xor[of "hd parts" "tl parts"] \<open>parts \<noteq> []\<close>
      by (simp add: hd_conv_nth)
  next
    case (Suc k)
    then have "parts ! i = tl parts ! k" and "k < length (tl parts)" using i by (simp_all add: nth_tl)
    then show ?thesis using parity length_foldl_xor_mem[of "parts ! i" "tl parts" "hd parts"] by simp
  qed
  then have len': "length (parts ! i) \<le> length ?r" using length_foldl_xor le_trans by blast
  then show "length (take (length (parts ! i)) ?r) = length (parts ! i)" by simp
  fix j assume j: "j < length (take (length (parts ! i)) ?r)"
  have "foldl xor_into [] parts = foldl xor_into (xor_into [] (hd parts)) (tl parts)"
    using \<open>parts \<noteq> []\<close> by (cases parts) simp_all
  then have all: "byte_at parity j = byte_at (foldl xor_into [] parts) j"
    using byte_at_foldl[of "hd parts" "tl parts" j]
      byte_at_foldl[of "xor_into [] (hd parts)" "tl parts" j]
    by (simp add: parity byte_at_def[of "[]"])
  let ?a = "byte_at (foldl xor_into [] (take i parts)) j"
  let ?b = "byte_at (foldl xor_into [] (drop (Suc i) parts)) j"
  have "byte_at (foldl xor_into [] parts) j = ?a XOR (byte_at (parts ! i) j XOR ?b)"
    using byte_at_foldl_append[of "take i parts" "parts ! i # drop (Suc i) parts" j]
      byte_at_foldl_append[of "[parts ! i]" "drop (Suc i) parts" j] split
    by (simp add: byte_at_def[of "[]"])
  moreover have "byte_at ?r j = byte_at parity j XOR (?a XOR ?b)"
    using byte_at_foldl[of parity "take i parts @ drop (Suc i) parts" j]
      byte_at_foldl_append[of "take i parts" "drop (Suc i) parts" j] by simp
  ultimately have "byte_at ?r j = byte_at (parts ! i) j"
    using all xor_cancel by simp
  then show "take (length (parts ! i)) ?r ! j = parts ! i ! j"
    using j len' by (simp add: byte_at_def)
qed

lemma concat_xor_parts:
  assumes "(data_shards opts - 1) * chunk_size file opts \<le> length file"
  shows "concat (xor_parts file opts) = file"
proof -
  let ?c = "chunk_size file opts" and ?n = "data_shards opts"
  have n: "2 \<le> ?n" by (rule data_shards_ge)
  have upto: "k < ?n \<Longrightarrow> concat (map (\<lambda>i. the (xor_part file ?c i)) [0..<k]) = take (k * ?c) file" for k
  proof (induction k)
    case 0
    then show ?case by simp
  next
    case (Suc k)
    have "Suc k * ?c \<le> (?n - 1) * ?c" using Suc.prems by (intro mult_right_mono) auto
    then have le: "k * ?c + ?c \<le> length file" using assms by simp
    then have "the (xor_part file ?c k) = take ?c (drop (k * ?c) file)"
      by (simp add: xor_part_def Let_def)
    then have "concat (map (\<lambda>i. the (xor_part file ?c i)) [0..<Suc k]) = take (k * ?c + ?c) file"
      using Suc by (simp add: take_add)
    then show ?case by (simp add: add.commute)
  qed
  have "length file \<le> ?n * ?c"
  proof -
    have "length file + ?n - 1 < ?n * ?c + ?n"
      using n dividend_less_times_div[of ?n "length file + ?n - 1"]
      by (simp add: chunk_size_def add.commute)
    then show ?thesis using n by simp
  qed
  moreover have "?n * ?c = (?n - 1) * ?c + ?c"
    using n by (cases ?n) auto
  ultimately have "the (xor_part file ?c (?n - 1)) = drop ((?n - 1) * ?c) file"
    using assms by (simp add: xor_part_def Let_def min_def)
  moreover have "[0..<?n] = [0..<?n - 1] @ [?n - 1]"
    using n by (cases ?n) auto
  ultimately show ?thesis using upto[of "?n - 1"] n by (simp add: xor_parts_def)
qed

end
