(* ===== verification/StorageOps.thy ===== *)
theory StorageOps
  imports StorageBuiltins
begin

text \<open>
  The operations of the distributed storage, \<^verbatim>\<open>src/internal/storage/distributed.go\<close>: registration,
  shards put and fetched with retries, the two ways to upload, download, self-healing, plugins and
  the import of manifests.

  An operation runs to its end without interruption, except that the goroutines of a download run
  in an order that is an argument. A timeout of a backend that goes on writing has its effect when
  the call is made. A policy checker does not change the manifest it is shown.
\<close>

section \<open>Registration\<close>

definition SetManifestStore ::
    "'w ManifestStore option \<Rightarrow> 'w \<Rightarrow> 'w DistributedStorage \<Rightarrow> 'w DistributedStorage" where
  "SetManifestStore ms w d =
     (let d = d\<lparr>manifestStore := ms\<rparr> in
      case ms of
        None \<Rightarrow> d
      | Some store \<Rightarrow>
          (case LoadAll store w of
             Inl er \<Rightarrow> d
           | Inr all \<Rightarrow> d\<lparr>manifests := foldl (\<lambda>mm m. put (fm_FileName m) m mm) (manifests d) all\<rparr>))"

definition RegisterBackend ::
    "string \<Rightarrow> 'w StorageBackend \<Rightarrow> 'w DistributedStorage \<Rightarrow> 'w DistributedStorage" where
  "RegisterBackend name be d = d\<lparr>backends := put name be (backends d)\<rparr>"

definition SetPlacementPlugin ::
    "'w PlacementPlugin option \<Rightarrow> 'w DistributedStorage \<Rightarrow> 'w DistributedStorage" where
  "SetPlacementPlugin pp d = d\<lparr>placementPlugin := pp\<rparr>"

definition SetRepairPlugin ::
    "'w RepairPlugin option \<Rightarrow> 'w DistributedStorage \<Rightarrow> 'w DistributedStorage" where
  "SetRepairPlugin rp d = d\<lparr>repairPlugin := rp\<rparr>"

definition SetErasureCoder ::
    "ErasureCoder option \<Rightarrow> 'w DistributedStorage \<Rightarrow> 'w DistributedStorage" where
  "SetErasureCoder ec d = d\<lparr>erasureCoder := ec\<rparr>"

definition SetPolicyChecker ::
    "PolicyChecker option \<Rightarrow> 'w DistributedStorage \<Rightarrow> 'w DistributedStorage" where
  "SetPolicyChecker pc d = d\<lparr>policyChecker := pc\<rparr>"

definition SetEncryptor ::
    "'w Encryptor option \<Rightarrow> 'w DistributedStorage \<Rightarrow> 'w DistributedStorage" where
  "SetEncryptor enc d = d\<lparr>encryptor := enc\<rparr>"

definition SetManifestSigner ::
    "ManifestSigner option \<Rightarrow> 'w DistributedStorage \<Rightarrow> 'w DistributedStorage" where
  "SetManifestSigner ms d = d\<lparr>manifestSigner := ms\<rparr>"

definition SetOrphanRegistry ::
    "'w OrphanRegistry option \<Rightarrow> 'w DistributedStorage \<Rightarrow> 'w DistributedStorage" where
  "SetOrphanRegistry r d = d\<lparr>orphanRegistry := r\<rparr>"

definition SetPluginWhitelist :: "string list \<Rightarrow> 'w DistributedStorage \<Rightarrow> 'w DistributedStorage" where
  "SetPluginWhitelist names d =
     d\<lparr>pluginWhitelist := Some (foldl (\<lambda>m p. put p True m) [] names)\<rparr>"

section \<open>Putting and getting shards\<close>

definition ensureSignManifest ::
    "'w DistributedStorage \<Rightarrow> FileManifest \<Rightarrow> serror + FileManifest" where
  "ensureSignManifest d m = (case manifestSigner d of None \<Rightarrow> Inr m | Some sg \<Rightarrow> Sign sg m)"

definition put_once :: "'w StorageBackend \<Rightarrow> Shard \<Rightarrow> 'w \<Rightarrow> serror option \<times> 'w" where
  "put_once be sh w =
     (case PutShardCtx be of
        Some f \<Rightarrow> f sh w
      | None \<Rightarrow>
          (case PutShard be sh w of
             (Some r, w) \<Rightarrow> (r, w)
           | (None, w) \<Rightarrow> (Some EPutTimeout, w)))"

text \<open>One attempt after the other, with a poll of the context before each and during each backoff.\<close>

fun put_attempts :: "env \<Rightarrow> 'w StorageBackend \<Rightarrow> Shard \<Rightarrow> nat \<Rightarrow> serror option \<Rightarrow> 'w sys \<Rightarrow>
    serror option \<times> 'w sys" where
  "put_attempts e be sh 0 lastErr s = (lastErr, s)"
| "put_attempts e be sh (Suc n) lastErr s =
     (let (fin, s) = poll e s in
      if fin then (Some ECtx, s)
      else let (r, s) = on_world (put_once be sh) s in
        case r of
          None \<Rightarrow> (None, s)
        | Some er \<Rightarrow>
            let (fin, s) = poll e s in
            if fin then (Some ECtx, s) else put_attempts e be sh n (Some er) s)"

text \<open>A backend that is not registered is a nil interface: the call on it panics.\<close>

definition putShardWithRetry :: "env \<Rightarrow> 'w StorageBackend option \<Rightarrow> Shard \<Rightarrow> nat \<Rightarrow> 'w sys \<Rightarrow>
    (serror option, 'w sys) outcome" where
  "putShardWithRetry e be sh attempts s =
     (case be of
        Some b \<Rightarrow> (case put_attempts e b sh attempts None s of (r, s) \<Rightarrow> Returned r s)
      | None \<Rightarrow>
          if attempts = 0 then Returned None s
          else let (fin, s) = poll e s in if fin then Returned (Some ECtx) s else Panicked s)"

definition get_once :: "'w StorageBackend \<Rightarrow> string \<Rightarrow> 'w \<Rightarrow> (serror + Shard) option \<times> 'w" where
  "get_once be i w =
     (case GetShardCtx be of
        Some f \<Rightarrow> (case f i w of (r, w) \<Rightarrow> (Some r, w))
      | None \<Rightarrow> GetShard be i w)"

definition decrypted :: "'w DistributedStorage \<Rightarrow> Shard \<Rightarrow> serror + Shard" where
  "decrypted d sh =
     (case encryptor d of
        None \<Rightarrow> Inr sh
      | Some enc \<Rightarrow>
          (case Decrypt enc (sh_Data sh) [(''shard_id'', AStr (sh_ID sh))] of
             Inl er \<Rightarrow> Inl (EDecrypt er)
           | Inr plain \<Rightarrow> Inr (sh\<lparr>sh_Data := plain\<rparr>)))"

definition getShardBackendDirect ::
    "env \<Rightarrow> string \<Rightarrow> string \<Rightarrow> 'w sys \<Rightarrow> (serror + Shard) \<times> 'w sys" where
  "getShardBackendDirect e backendName shardID s =
     (case get (backends (st s)) backendName of
        None \<Rightarrow> (Inl (ENotRegistered backendName), s)
      | Some be \<Rightarrow>
          let (fin, s) = poll e s in
          if fin then (Inl ECtx, s)
          else let (r, s) = on_world (get_once be shardID) s in
            case r of
              None \<Rightarrow> let (fin, s) = poll e s in (Inl (if fin then ECtx else EGetTimeout), s)
            | Some (Inl er) \<Rightarrow> (Inl er, s)
            | Some (Inr sh) \<Rightarrow> (decrypted (st s) sh, s))"

section \<open>Uploading placed shards\<close>

definition encrypt_meta :: "string \<Rightarrow> Shard \<Rightarrow> opts" where
  "encrypt_meta name sh =
     [(''file'', AStr name), (''shard_id'', AStr (sh_ID sh)), (''index'', AInt (sh_Index sh))]"

definition encrypt_shard ::
    "env \<Rightarrow> 'w Encryptor \<Rightarrow> string \<Rightarrow> Shard \<Rightarrow> 'w sys \<Rightarrow> (serror + Shard) \<times> 'w sys" where
  "encrypt_shard e enc name sh s =
     (let (r, s) = on_world (Encrypt enc (sh_Data sh) (encrypt_meta name sh)) s in
      case r of
        Inl er \<Rightarrow> (Inl (EEncrypt er), s)
      | Inr cipher \<Rightarrow> (Inr (sh\<lparr>sh_CipherHash := sha256Hex e cipher, sh_Data := cipher\<rparr>), s))"

definition register_orphan :: "'w OrphanRegistry option \<Rightarrow> Shard \<Rightarrow> 'w sys \<Rightarrow> 'w sys" where
  "register_orphan reg sh s =
     (case reg of None \<Rightarrow> s | Some r \<Rightarrow> s\<lparr>world := RegisterOrphan r sh (world s)\<rparr>)"

text \<open>Deleting the shards written so far; a shard that cannot be deleted becomes an orphan.\<close>

fun cleanup :: "'w OrphanRegistry option \<Rightarrow> Shard list \<Rightarrow> 'w sys \<Rightarrow> 'w sys" where
  "cleanup reg [] s = s"
| "cleanup reg (sh # shs) s =
     (case get (backends (st s)) (sh_Backend sh) of
        None \<Rightarrow> cleanup reg shs s
      | Some be \<Rightarrow>
          let (r, s) = on_world (DeleteShard be (sh_ID sh)) s
          in cleanup reg shs (if r = None then s else register_orphan reg sh s))"

fun stamp_shards :: "env \<Rightarrow> string \<Rightarrow> Shard list \<Rightarrow> 'w sys \<Rightarrow> Shard list \<times> 'w sys" where
  "stamp_shards e name [] s = ([], s)"
| "stamp_shards e name (sh # shs) s =
     (let (i, s) = (if sh_ID sh = '''' then makeShardID e name s else (sh_ID sh, s));
          (rest, s) = stamp_shards e name shs s
      in (sh\<lparr>sh_ID := i, sh_CreatedAt := clock e, sh_Checksum := sha256Hex e (sh_Data sh)\<rparr> # rest, s))"

fun encrypt_shards ::
    "env \<Rightarrow> string \<Rightarrow> Shard list \<Rightarrow> 'w sys \<Rightarrow> (serror + Shard list) \<times> 'w sys" where
  "encrypt_shards e name [] s = (Inr [], s)"
| "encrypt_shards e name (sh # shs) s =
     (case (case encryptor (st s) of
              None \<Rightarrow> (Inr (sh\<lparr>sh_CipherHash := ''''\<rparr>), s)
            | Some enc \<Rightarrow> encrypt_shard e enc name sh s) of
        (Inl er, s) \<Rightarrow> (Inl er, s)
      | (Inr sh, s) \<Rightarrow>
          (case encrypt_shards e name shs s of
             (Inl er, s) \<Rightarrow> (Inl er, s)
           | (Inr shs, s) \<Rightarrow> (Inr (sh # shs), s)))"

text \<open>The remainder of Go has the sign of the dividend.\<close>

definition go_rem :: "int \<Rightarrow> int \<Rightarrow> int" where
  "go_rem a b = (if a \<ge> 0 then a mod b else - ((- a) mod b))"

text \<open>The backend of a shard: \<open>None\<close> when the index of a name is negative, a panic.\<close>

definition choose_backend :: "'w DistributedStorage \<Rightarrow> Shard \<Rightarrow> (serror + string) option" where
  "choose_backend d sh =
     (if sh_Backend sh \<noteq> '''' then Some (Inr (sh_Backend sh))
      else let names = sort (map fst (backends d)) in
        if names = [] then Some (Inl ENoBackends)
        else let r = go_rem (sh_Index sh) (int (length names)) in
          if r < 0 then None else Some (Inr (names ! nat r)))"

text \<open>
  Without any backend the cleanup calls a method of a nil interface as soon as there is a written
  shard.
\<close>

fun write_shards :: "env \<Rightarrow> Shard list \<Rightarrow> Shard list \<Rightarrow> 'w sys \<Rightarrow>
    (serror + Shard list, 'w sys) outcome" where
  "write_shards e [] written s = Returned (Inr written) s"
| "write_shards e (sh # shs) written s =
     (case choose_backend (st s) sh of
        None \<Rightarrow> Panicked s
      | Some (Inl er) \<Rightarrow> if written = [] then Returned (Inl er) s else Panicked s
      | Some (Inr name) \<Rightarrow>
          let sh = sh\<lparr>sh_Backend := name\<rparr>; (fin, s) = poll e s in
          if fin then Returned (Inl ECtx) s
          else andThen (putShardWithRetry e (get (backends (st s)) name) sh 3 s) (\<lambda>r s.
            case r of
              Some er \<Rightarrow>
                Returned (Inl (EWrite (sh_ID sh) er))
                  (register_orphan (orphanRegistry (st s)) sh (cleanup (orphanRegistry (st s)) written s))
            | None \<Rightarrow> write_shards e shs (written @ [sh]) s))"

definition shard_info :: "Shard \<Rightarrow> ShardInfo" where
  "shard_info sh = \<lparr>si_ID = sh_ID sh, si_Backend = sh_Backend sh, si_Region = sh_Region sh,
     si_Index = sh_Index sh, si_Checksum = sh_Checksum sh, si_CipherChecksum = sh_CipherHash sh\<rparr>"

definition put_opt :: "string \<Rightarrow> any option \<Rightarrow> (string, any) gomap \<Rightarrow> (string, any) gomap" where
  "put_opt k v m = (case v of None \<Rightarrow> m | Some x \<Rightarrow> put k x m)"

definition upload_manifest ::
    "env \<Rightarrow> string \<Rightarrow> Shard list \<Rightarrow> Shard list \<Rightarrow> opts \<Rightarrow> FileManifest" where
  "upload_manifest e name shards plain opts =
     \<lparr>fm_FileName = name, fm_Shards = map shard_info shards,
      fm_Regions = (case opt_strs opts ''regions'' of Some v \<Rightarrow> v | None \<Rightarrow> []), fm_Version = 1,
      fm_MerkleRoot = computeMerkleRoot e plain, fm_Signature = [],
      fm_History = [''uploaded at '' @ time_String e (clock e)],
      fm_Meta = put_opt ''parity_shards'' (map_option AInt (opt_int opts ''parity_shards''))
        (put_opt ''data_shards'' (map_option AInt (opt_int opts ''data_shards''))
        (put_opt ''owner'' (map_option AStr (opt_str opts ''owner'')) [])),
      fm_CreatedAt = clock e, fm_UpdatedAt = clock e\<rparr>"

definition next_version :: "FileManifest \<Rightarrow> FileManifest \<Rightarrow> FileManifest" where
  "next_version prev m = m\<lparr>fm_Version := fm_Version prev + 1,
     fm_History := fm_History prev @ fm_History m, fm_CreatedAt := fm_CreatedAt prev\<rparr>"

text \<open>Signing and saving a manifest, or deleting the shards it would have named.\<close>

definition sign_and_save :: "'w ManifestStore \<Rightarrow> Shard list \<Rightarrow> FileManifest \<Rightarrow> 'w sys \<Rightarrow>
    (serror + FileManifest, 'w sys) outcome" where
  "sign_and_save ms written m s =
     (case ensureSignManifest (st s) m of
        Inl er \<Rightarrow> Returned (Inl (ESign er)) (cleanup None written s)
      | Inr m \<Rightarrow>
          let (r, s) = on_world (Save ms m) s in
          case r of
            Some er \<Rightarrow> Returned (Inl (ESave er)) (cleanup (orphanRegistry (st s)) written s)
          | None \<Rightarrow> Returned (Inr m) s)"

definition set_manifest :: "string \<Rightarrow> FileManifest \<Rightarrow> 'w sys \<Rightarrow> 'w sys" where
  "set_manifest name m s = s\<lparr>st := (st s)\<lparr>manifests := put name m (manifests (st s))\<rparr>\<rparr>"

definition persist_manifest :: "string \<Rightarrow> Shard list \<Rightarrow> FileManifest \<Rightarrow> 'w sys \<Rightarrow>
    (serror + unit, 'w sys) outcome" where
  "persist_manifest name written m s =
     ifOk (case manifestStore (st s) of
             None \<Rightarrow> Returned (Inr m) s
           | Some ms \<Rightarrow>
               sign_and_save ms written
                 (case Load ms name (world s) of
                    Inr (Some prev) \<Rightarrow> next_version prev m
                  | _ \<Rightarrow> m) s)
       (\<lambda>m s. Returned (Inr ()) (set_manifest name m s))"

definition persistShardsWithCtx :: "env \<Rightarrow> string \<Rightarrow> Shard list \<Rightarrow> opts \<Rightarrow> 'w sys \<Rightarrow>
    (serror + unit, 'w sys) outcome" where
  "persistShardsWithCtx e name shards opts s =
     (let (plain, s) = stamp_shards e name shards s in
      case encrypt_shards e name plain s of
        (Inl er, s) \<Rightarrow> Returned (Inl er) s
      | (Inr shards, s) \<Rightarrow>
          ifOk (write_shards e shards [] s) (\<lambda>written s.
            persist_manifest name written (upload_manifest e name written plain opts) s))"

section \<open>Uploading a stream in chunks\<close>

lemma ifOk_cong [fundef_cong]:
  "m = m' \<Longrightarrow> (\<And>x s. m' = Returned (Inr x) s \<Longrightarrow> f x s = g x s) \<Longrightarrow> ifOk m f = ifOk m' g"
  by (cases "(m', f)" rule: ifOk.cases) auto

text \<open>
  io.ReadFull into a buffer: what was read, and whether the reader ended before the buffer was full.
\<close>

definition ReadFull :: "nat \<Rightarrow> reader \<Rightarrow> serror + bytes \<times> bool \<times> reader" where
  "ReadFull k r =
     (if k \<le> length (rd_bytes r)
      then Inr (take k (rd_bytes r), False, r\<lparr>rd_bytes := drop k (rd_bytes r)\<rparr>)
      else case rd_err r of
             Some er \<Rightarrow> Inl er
           | None \<Rightarrow> Inr (rd_bytes r, True, r\<lparr>rd_bytes := []\<rparr>))"

lemma ReadFull_less:
  "ReadFull k r = Inr (chunk, eof, r') \<Longrightarrow> chunk \<noteq> [] \<Longrightarrow> length (rd_bytes r') < length (rd_bytes r)"
  by (auto simp: ReadFull_def split: if_splits option.splits)

text \<open>The replicas of a chunk, on consecutive backends from that of the chunk's number.\<close>

fun chunk_shards :: "env \<Rightarrow> string \<Rightarrow> string list \<Rightarrow> bytes \<Rightarrow> nat \<Rightarrow> nat list \<Rightarrow> 'w sys \<Rightarrow>
    Shard list \<times> 'w sys" where
  "chunk_shards e name names chunk idx [] s = ([], s)"
| "chunk_shards e name names chunk idx (i # is') s =
     (let (sid, s) = makeShardID e name s;
          sh = \<lparr>sh_ID = sid, sh_Backend = names ! ((idx + i) mod length names), sh_Region = '''',
                sh_Data = chunk, sh_Checksum = sha256Hex e chunk, sh_CipherHash = '''',
                sh_Parity = False, sh_Index = int idx, sh_CreatedAt = clock e\<rparr>;
          (rest, s) = chunk_shards e name names chunk idx is' s
      in (sh # rest, s))"

text \<open>Encrypting and writing the replicas of a chunk; \<open>shardsAll\<close> are all shards written so far.\<close>

fun write_chunk :: "env \<Rightarrow> string \<Rightarrow> Shard list \<Rightarrow> Shard list \<Rightarrow> 'w sys \<Rightarrow>
    (serror + Shard list, 'w sys) outcome" where
  "write_chunk e name [] shardsAll s = Returned (Inr shardsAll) s"
| "write_chunk e name (sh # shs) shardsAll s =
     (let (fin, s) = poll e s in
      if fin then Returned (Inl ECtx) s
      else case (case encryptor (st s) of
                   None \<Rightarrow> (Inr sh, s)
                 | Some enc \<Rightarrow> encrypt_shard e enc name sh s) of
          (Inl er, s) \<Rightarrow> Returned (Inl er) (cleanup None shardsAll s)
        | (Inr sh, s) \<Rightarrow>
            andThen (putShardWithRetry e (get (backends (st s)) (sh_Backend sh)) sh 3 s) (\<lambda>r s.
              case r of
                Some er \<Rightarrow>
                  Returned (Inl (EWrite (sh_ID sh) er))
                    (register_orphan (orphanRegistry (st s)) sh
                      (cleanup (orphanRegistry (st s)) shardsAll s))
              | None \<Rightarrow> write_chunk e name shs (shardsAll @ [sh]) s))"

function chunk_loop :: "env \<Rightarrow> string \<Rightarrow> opts \<Rightarrow> nat \<Rightarrow> reader \<Rightarrow> Shard list \<Rightarrow> nat \<Rightarrow> 'w sys \<Rightarrow>
    (serror + Shard list \<times> nat, 'w sys) outcome" where
  "chunk_loop e name opts chunkSize r shardsAll chunkIndex s =
     (let (fin, s) = poll e s in
      if fin then Returned (Inl ECtx) s
      else case ReadFull chunkSize r of
          Inl er \<Rightarrow> Returned (Inl er) s
        | Inr (chunk, eof, r') \<Rightarrow>
            if chunk = [] then Returned (Inr (shardsAll, chunkIndex)) s
            else let names = sort (map fst (backends (st s))) in
              if names = [] then Returned (Inl ENoBackends) s
              else let replicas = nat (opt_above 0 (int (length names)) opts ''replicas'');
                       (new, s) = chunk_shards e name names chunk chunkIndex [0..<replicas] s in
                ifOk (write_chunk e name new shardsAll s) (\<lambda>shardsAll s.
                  if eof then Returned (Inr (shardsAll, chunkIndex + 1)) s
                  else chunk_loop e name opts chunkSize r' shardsAll (chunkIndex + 1) s))"
  by pat_completeness auto
termination
  by (relation "measure (\<lambda>(e, name, opts, k, r, all, idx, s). length (rd_bytes r))")
    (auto dest: ReadFull_less)

declare chunk_loop.simps [simp del]

text \<open>The first shard of each chunk goes into the manifest.\<close>

fun first_per_index :: "int list \<Rightarrow> Shard list \<Rightarrow> Shard list" where
  "first_per_index seen [] = []"
| "first_per_index seen (sh # shs) =
     (if sh_Index sh \<in> set seen then first_per_index seen shs
      else sh # first_per_index (sh_Index sh # seen) shs)"

definition stream_manifest :: "env \<Rightarrow> string \<Rightarrow> Shard list \<Rightarrow> nat \<Rightarrow> opts \<Rightarrow> FileManifest" where
  "stream_manifest e name shardsAll chunks opts =
     \<lparr>fm_FileName = name, fm_Shards = map shard_info (first_per_index [] shardsAll),
      fm_Regions = [], fm_Version = 1, fm_MerkleRoot = computeMerkleRoot e shardsAll,
      fm_Signature = [], fm_History = [''stream-uploaded at '' @ time_String e (clock e)],
      fm_Meta = put_opt ''owner'' (map_option AStr (opt_str opts ''owner''))
        [(''chunked'', ABool True), (''chunks'', AInt (int chunks))],
      fm_CreatedAt = clock e, fm_UpdatedAt = clock e\<rparr>"

definition stream_chunks :: "env \<Rightarrow> string \<Rightarrow> reader \<Rightarrow> opts \<Rightarrow> 'w sys \<Rightarrow>
    (serror + unit, 'w sys) outcome" where
  "stream_chunks e name r opts s =
     ifOk (chunk_loop e name opts (nat (opt_above 0 67108864 opts ''chunk_size'')) r [] 0 s)
       (\<lambda>(shardsAll, chunks) s.
         let m = stream_manifest e name shardsAll chunks opts in
         ifOk (case manifestStore (st s) of
                 None \<Rightarrow> Returned (Inr m) s
               | Some ms \<Rightarrow> sign_and_save ms shardsAll m s)
           (\<lambda>m s. Returned (Inr ()) (set_manifest name m s)))"

section \<open>Uploading\<close>

text \<open>Small streams of known size are read at once, others through a temporary file.\<close>

definition read_all :: "env \<Rightarrow> reader \<Rightarrow> int \<Rightarrow> serror + bytes" where
  "read_all e r len =
     (if len > 0 \<and> len \<le> 256 * 1024 * 1024
      then (case rd_err r of Some er \<Rightarrow> Inl er | None \<Rightarrow> Inr (rd_bytes r))
      else spool e r)"

fun fill_ids :: "env \<Rightarrow> string \<Rightarrow> Shard list \<Rightarrow> 'w sys \<Rightarrow> Shard list \<times> 'w sys" where
  "fill_ids e name [] s = ([], s)"
| "fill_ids e name (sh # shs) s =
     (let (i, s) = (if sh_ID sh = '''' then makeShardID e name s else (sh_ID sh, s));
          (rest, s) = fill_ids e name shs s
      in (sh\<lparr>sh_ID := i\<rparr> # rest, s))"

definition upload_encoded :: "env \<Rightarrow> ErasureCoder \<Rightarrow> string \<Rightarrow> reader \<Rightarrow> int \<Rightarrow> opts \<Rightarrow> 'w sys \<Rightarrow>
    (serror + unit, 'w sys) outcome" where
  "upload_encoded e ec name r len opts s =
     (case read_all e r len of
        Inl er \<Rightarrow> Returned (Inl er) s
      | Inr data \<Rightarrow>
          (case Encode ec data 4 2 of
             Inl er \<Rightarrow> Returned (Inl er) s
           | Inr shards \<Rightarrow>
               let (shards, s) = fill_ids e name shards s
               in persistShardsWithCtx e name shards opts s))"

text \<open>A call that works on the world, as a call of the storage.\<close>

fun in_world :: "'w sys \<Rightarrow> ('a, 'w) outcome \<Rightarrow> ('a, 'w sys) outcome" where
  "in_world s (Returned x w) = Returned x (s\<lparr>world := w\<rparr>)"
| "in_world s (Blocked w) = Blocked (s\<lparr>world := w\<rparr>)"
| "in_world s (Panicked w) = Panicked (s\<lparr>world := w\<rparr>)"

definition policy_error :: "'w DistributedStorage \<Rightarrow> string \<Rightarrow> FileManifest option \<Rightarrow> opts \<Rightarrow>
    serror option" where
  "policy_error d action m args =
     (case policyChecker d of None \<Rightarrow> None | Some pc \<Rightarrow> pc action m args)"

definition UploadStream :: "env \<Rightarrow> string \<Rightarrow> reader \<Rightarrow> int \<Rightarrow> opts \<Rightarrow> 'w sys \<Rightarrow>
    (serror + unit, 'w sys) outcome" where
  "UploadStream e name r len opts s =
     (case policy_error (st s) ''upload'' None [(''filename'', AStr name), (''opts'', AMap opts)] of
        Some er \<Rightarrow> Returned (Inl er) s
      | None \<Rightarrow>
          (case (placementPlugin (st s), erasureCoder (st s)) of
             (Some pp, ec) \<Rightarrow>
               (case PlaceShardsStream pp of
                  Some place \<Rightarrow>
                    ifOk (in_world s (place r len (backends (st s)) opts (world s)))
                      (\<lambda>shards s. persistShardsWithCtx e name shards opts s)
                | None \<Rightarrow> stream_chunks e name r opts s)
           | (None, Some ec) \<Rightarrow> upload_encoded e ec name r len opts s
           | (None, None) \<Rightarrow> stream_chunks e name r opts s))"

definition Upload :: "env \<Rightarrow> string \<Rightarrow> bytes \<Rightarrow> opts \<Rightarrow> 'w sys \<Rightarrow> (serror + unit, 'w sys) outcome" where
  "Upload e name data opts s =
     UploadStream e name \<lparr>rd_bytes = data, rd_err = None\<rparr> (int (length data)) opts s"

section \<open>Downloading\<close>

datatype fetched = Found Shard | Missing string | Skipped

definition checked :: "env \<Rightarrow> ShardInfo \<Rightarrow> serror + Shard \<Rightarrow> fetched" where
  "checked e si r =
     (case r of
        Inl er \<Rightarrow> Missing (si_ID si)
      | Inr sh \<Rightarrow>
          if sha256Hex e (sh_Data sh) \<noteq> si_Checksum si then Missing (si_ID si)
          else Found (sh\<lparr>sh_Index := si_Index si\<rparr>))"

definition fetch_shard :: "env \<Rightarrow> ShardInfo \<Rightarrow> 'w sys \<Rightarrow> fetched \<times> 'w sys" where
  "fetch_shard e si s =
     (let (r, s) = getShardBackendDirect e (si_Backend si) (si_ID si) s in (checked e si r, s))"

text \<open>A goroutine of the download gives up without a word when it finds the context done.\<close>

definition fetch_goroutine :: "env \<Rightarrow> ShardInfo \<Rightarrow> 'w sys \<Rightarrow> fetched \<times> 'w sys" where
  "fetch_goroutine e si s =
     (let (fin, s) = poll e s in if fin then (Skipped, s) else fetch_shard e si s)"

fun fetch_all :: "(ShardInfo \<Rightarrow> 'w sys \<Rightarrow> fetched \<times> 'w sys) \<Rightarrow> ShardInfo list \<Rightarrow> 'w sys \<Rightarrow>
    fetched list \<times> 'w sys" where
  "fetch_all f [] s = ([], s)"
| "fetch_all f (si # sis) s =
     (let (x, s) = f si s; (xs, s) = fetch_all f sis s in (x # xs, s))"

definition found_of :: "fetched list \<Rightarrow> Shard list" where
  "found_of xs = List.map_filter (\<lambda>x. case x of Found sh \<Rightarrow> Some sh | _ \<Rightarrow> None) xs"

definition missing_of :: "fetched list \<Rightarrow> string list" where
  "missing_of xs = List.map_filter (\<lambda>x. case x of Missing i \<Rightarrow> Some i | _ \<Rightarrow> None) xs"

text \<open>Reading a manifest again after a repair.\<close>

definition reload :: "string \<Rightarrow> FileManifest \<Rightarrow> 'w sys \<Rightarrow> FileManifest \<times> 'w sys" where
  "reload name m s =
     (case manifestStore (st s) of
        None \<Rightarrow> (m, s)
      | Some ms \<Rightarrow>
          (case Load ms name (world s) of
             Inr (Some mm) \<Rightarrow> (mm, set_manifest name mm s)
           | _ \<Rightarrow> (m, s)))"

definition repair_and_retry :: "env \<Rightarrow> string \<Rightarrow> FileManifest \<Rightarrow> Shard list \<Rightarrow> 'w sys \<Rightarrow>
    FileManifest \<times> Shard list \<times> 'w sys" where
  "repair_and_retry e name m found s =
     (case repairPlugin (st s) of
        None \<Rightarrow> (m, found, s)
      | Some rp \<Rightarrow>
          let (r, m, w) = rp m (backends (st s)) (world s); s = s\<lparr>world := w\<rparr> in
          case r of
            Some er \<Rightarrow> (m, found, s)
          | None \<Rightarrow>
              let (m, s) = reload name m s;
                  (xs, s) = fetch_all (fetch_shard e) (fm_Shards m) s
              in (m, if missing_of xs = [] then found_of xs else found, s))"

definition reconstruct :: "'w DistributedStorage \<Rightarrow> FileManifest \<Rightarrow> Shard list \<Rightarrow> bytes option" where
  "reconstruct d m found =
     (case erasureCoder d of
        None \<Rightarrow> None
      | Some ec \<Rightarrow>
          let ds = meta_int (fm_Meta m) ''data_shards''; ps = meta_int (fm_Meta m) ''parity_shards'' in
          if ds > 0 then (case Reconstruct ec found ds ps of Inl er \<Rightarrow> None | Inr data \<Rightarrow> Some data)
          else None)"

definition concat_shards :: "env \<Rightarrow> FileManifest \<Rightarrow> Shard list \<Rightarrow> serror + bytes" where
  "concat_shards e m found =
     (let found = sort_slice (\<lambda>a b. sh_Index a < sh_Index b) found;
          root = computeMerkleRoot e found in
      if fm_MerkleRoot m \<noteq> '''' \<and> root \<noteq> fm_MerkleRoot m then Inl (EMerkle root (fm_MerkleRoot m))
      else Inr (concat (map sh_Data found)))"

text \<open>\<open>order\<close> lists the positions of the manifest's shards as their goroutines come to run.\<close>

definition Download :: "env \<Rightarrow> nat list \<Rightarrow> string \<Rightarrow> 'w sys \<Rightarrow> (serror + bytes) \<times> 'w sys" where
  "Download e order name s =
     (let (fin, s) = poll e s in
      if fin then (Inl ECtx, s)
      else case get (manifests (st s)) name of
          None \<Rightarrow> (Inl EManifestNotFound, s)
        | Some m \<Rightarrow>
            (case policy_error (st s) ''download'' (Some m) [(''filename'', AStr name)] of
               Some er \<Rightarrow> (Inl er, s)
             | None \<Rightarrow>
                 let ec = st s;
                     (xs, s) = fetch_all (fetch_goroutine e) (map ((!) (fm_Shards m)) order) s;
                     (m, found, s) = (if missing_of xs = [] then (m, found_of xs, s)
                                      else repair_and_retry e name m (found_of xs) s)
                 in case reconstruct ec m found of
                      Some data \<Rightarrow> (Inr data, s)
                    | None \<Rightarrow> (concat_shards e m found, s)))"

section \<open>Self-healing\<close>

text \<open>Each start makes a new context and a loop on it; stopping cancels the last context.\<close>

definition StartSelfHealing :: "duration \<Rightarrow> 'w DistributedStorage \<Rightarrow> 'w DistributedStorage" where
  "StartSelfHealing interval d =
     (if repairRunning d then d
      else let c = (case repairCtx d of None \<Rightarrow> 0 | Some c \<Rightarrow> Suc c) in
        d\<lparr>repairInterval := (if interval > 0 then interval else repairInterval d),
          repairCtx := Some c, repairRunning := True, repairLoops := repairLoops d @ [c]\<rparr>)"

definition StopSelfHealing :: "'w DistributedStorage \<Rightarrow> 'w DistributedStorage" where
  "StopSelfHealing d =
     (let d = (case repairCtx d of
                 Some c \<Rightarrow> if repairRunning d then d\<lparr>repairLoops := remove1 c (repairLoops d)\<rparr> else d
               | None \<Rightarrow> d)
      in d\<lparr>repairRunning := False\<rparr>)"

fun any_unreadable :: "env \<Rightarrow> ShardInfo list \<Rightarrow> 'w sys \<Rightarrow> bool \<times> 'w sys" where
  "any_unreadable e [] s = (False, s)"
| "any_unreadable e (si # sis) s =
     (let (r, s) = getShardBackendDirect e (si_Backend si) (si_ID si) s in
      case r of Inl er \<Rightarrow> (True, s) | Inr sh \<Rightarrow> any_unreadable e sis s)"

definition scan_one :: "env \<Rightarrow> string \<Rightarrow> 'w sys \<Rightarrow> 'w sys" where
  "scan_one e name s =
     (case get (manifests (st s)) name of
        None \<Rightarrow> s
      | Some m \<Rightarrow>
          (case policy_error (st s) ''repair_check'' (Some m) [(''filename'', AStr name)] of
             Some er \<Rightarrow> s
           | None \<Rightarrow>
               let (needsRepair, s) = any_unreadable e (fm_Shards m) s in
               case repairPlugin (st s) of
                 None \<Rightarrow> s
               | Some rp \<Rightarrow>
                   if \<not> needsRepair then s
                   else let (r, m', w) = rp m (backends (st s)) (world s); s = s\<lparr>world := w\<rparr> in
                     if r = None then snd (reload name m s) else s))"

definition scanAndRepair :: "env \<Rightarrow> 'w sys \<Rightarrow> 'w sys" where
  "scanAndRepair e s = foldl (\<lambda>s name. scan_one e name s) s (map fst (manifests (st s)))"

text \<open>A loop makes its ticker, which panics for an interval that is not positive, and then scans.\<close>

definition repair_tick :: "env \<Rightarrow> nat \<Rightarrow> 'w sys \<Rightarrow> (unit, 'w sys) outcome" where
  "repair_tick e c s =
     (if c \<notin> set (repairLoops (st s)) then Returned () s
      else if repairInterval (st s) \<le> 0 then Panicked s
      else Returned () (scanAndRepair e s))"

text \<open>
  TriggerRepair calls itself on every name when it is given the empty one: the first argument
  bounds the depth of these calls, and \<open>None\<close> is a call that needs more.
\<close>

fun each :: "('a \<Rightarrow> 's \<Rightarrow> (serror option \<times> 's) option) \<Rightarrow> 'a list \<Rightarrow> 's \<Rightarrow> (serror option \<times> 's) option" where
  "each f [] s = Some (None, s)"
| "each f (x # xs) s =
     (case f x s of
        None \<Rightarrow> None
      | Some (Some er, s) \<Rightarrow> Some (Some er, s)
      | Some (None, s) \<Rightarrow> each f xs s)"

definition repair_named :: "string \<Rightarrow> 'w sys \<Rightarrow> serror option \<times> 'w sys" where
  "repair_named name s =
     (case get (manifests (st s)) name of
        None \<Rightarrow> (Some EManifestNotFound, s)
      | Some m \<Rightarrow>
          (case policy_error (st s) ''repair'' (Some m) [(''filename'', AStr name)] of
             Some er \<Rightarrow> (Some er, s)
           | None \<Rightarrow>
               (case repairPlugin (st s) of
                  None \<Rightarrow> (Some ENoRepairPlugin, s)
                | Some rp \<Rightarrow>
                    let (r, m', w) = rp m (backends (st s)) (world s) in (r, s\<lparr>world := w\<rparr>))))"

primrec TriggerRepair :: "nat \<Rightarrow> string \<Rightarrow> 'w sys \<Rightarrow> (serror option \<times> 'w sys) option" where
  "TriggerRepair 0 name s = None"
| "TriggerRepair (Suc n) name s =
     (if name = '''' then each (TriggerRepair n) (map fst (manifests (st s))) s
      else Some (repair_named name s))"

section \<open>Plugins\<close>

definition Base :: "string \<Rightarrow> string" where
  "Base path =
     (if path = '''' then ''.''
      else let p = dropWhile (\<lambda>c. c = CHR ''/'') (rev path) in
        if p = [] then ''/'' else rev (takeWhile (\<lambda>c. c \<noteq> CHR ''/'') p))"

text \<open>\<open>open_err\<close> is the error of plugin.Open.\<close>

definition LoadPlugin :: "serror option \<Rightarrow> string \<Rightarrow> string \<Rightarrow> 'w DistributedStorage \<Rightarrow>
    serror option \<times> 'w DistributedStorage" where
  "LoadPlugin open_err name path d =
     (if (case pluginWhitelist d of None \<Rightarrow> False | Some wl \<Rightarrow> get wl (Base path) \<noteq> Some True)
      then (Some (ENotWhitelisted (Base path)), d)
      else case open_err of
        Some er \<Rightarrow> (Some er, d)
      | None \<Rightarrow> (None, d\<lparr>plugins := put name path (plugins d)\<rparr>))"

section \<open>Manifests\<close>

definition GetManifest :: "string \<Rightarrow> 'w DistributedStorage \<Rightarrow> FileManifest option" where
  "GetManifest name d = get (manifests d) name"

definition ListManifests :: "'w DistributedStorage \<Rightarrow> FileManifest list" where
  "ListManifests d = sort_slice (\<lambda>a b. fm_FileName a < fm_FileName b) (map snd (manifests d))"

text \<open>The export is what its JSON text decodes to.\<close>

definition ExportManifestJSON :: "string \<Rightarrow> 'w DistributedStorage \<Rightarrow> serror + FileManifest" where
  "ExportManifestJSON name d =
     (case get (manifests d) name of
        None \<Rightarrow> Inl EManifestNotFound
      | Some m \<Rightarrow> Inr (json_manifest m))"

definition import_fields :: "env \<Rightarrow> 'w DistributedStorage \<Rightarrow> FileManifest \<Rightarrow> FileManifest" where
  "import_fields e d m =
     (let m = m\<lparr>fm_UpdatedAt := clock e\<rparr> in
      case get (manifests d) (fm_FileName m) of
        None \<Rightarrow> m
      | Some prev \<Rightarrow> m\<lparr>fm_Version := fm_Version prev + 1, fm_CreatedAt := fm_CreatedAt prev\<rparr>)"

definition ImportManifestJSON :: "env \<Rightarrow> serror + FileManifest \<Rightarrow> 'w sys \<Rightarrow> serror option \<times> 'w sys" where
  "ImportManifestJSON e decoded s =
     (case decoded of
        Inl er \<Rightarrow> (Some er, s)
      | Inr m \<Rightarrow>
          if fm_FileName m = '''' \<or> fm_Shards m = [] then (Some EInvalidManifest, s)
          else case (case manifestSigner (st s) of None \<Rightarrow> None | Some sg \<Rightarrow> Verify sg m) of
            Some er \<Rightarrow> (Some (ESignature er), s)
          | None \<Rightarrow>
              let m = import_fields e (st s) m; s = set_manifest (fm_FileName m) m s in
              case manifestStore (st s) of
                None \<Rightarrow> (None, s)
              | Some ms \<Rightarrow> on_world (Save ms m) s)"

end
