(* ===== verification/StorageMerkle.thy ===== *)
theory StorageMerkle
  imports StorageOps
begin

text \<open>
  The storage between backends that behave: what uploads leave on them, what downloads find there,
  and the Merkle roots that connect the two.
\<close>

section \<open>Merkle roots\<close>

lemma computeMerkleRoot_data:
  "map sh_Data a = map sh_Data b \<Longrightarrow> computeMerkleRoot e a = computeMerkleRoot e b"
proof -
  assume "map sh_Data a = map sh_Data b"
  then have "map (\<lambda>sh. sha256 e (sh_Data sh)) a = map (\<lambda>sh. sha256 e (sh_Data sh)) b"
    and "a = [] \<longleftrightarrow> b = []"
    by (metis (mono_tags, lifting) map_map comp_apply map_eq_conv) (metis \<open>map sh_Data a = map sh_Data b\<close> map_is_Nil_conv)
  then show ?thesis by (simp add: computeMerkleRoot_def)
qed

text \<open>An odd level is completed with its last hash: a list and the one with its last leaf twice agree.\<close>

lemma merkle_up_dup_last:
  assumes "even (length xs)" and "xs \<noteq> []"
  shows "merkle_up e (xs @ [x]) = merkle_up e (xs @ [x, x])"
proof -
  have "merkle_even (xs @ [x]) = xs @ [x, x]" "merkle_even (xs @ [x, x]) = xs @ [x, x]"
    using assms by (simp_all add: merkle_even_def)
  then show ?thesis using assms
    by (subst (1 2) merkle_up.simps) (auto simp: neq_Nil_conv)
qed

lemma computeMerkleRoot_dup_last:
  assumes "even (length xs)" and "xs \<noteq> []" and "sh_Data x = sh_Data y"
  shows "computeMerkleRoot e (xs @ [x]) = computeMerkleRoot e (xs @ [x, y])"
  using merkle_up_dup_last[of "map (\<lambda>sh. sha256 e (sh_Data sh)) xs" e "sha256 e (sh_Data x)"] assms
  by (simp add: computeMerkleRoot_def)

text \<open>The root over copies of one leaf is the leaf, hashed with itself again and again.\<close>

definition twice :: "env \<Rightarrow> bytes \<Rightarrow> bytes" where
  "twice e h = sha256 e (h @ h)"

lemma merkle_next_replicate:
  "merkle_next e (replicate (2 * n) h) = replicate n (twice e h)"
  by (induction n) (simp_all add: twice_def)

lemma merkle_even_replicate: "merkle_even (replicate n h) = replicate (2 * ((n + 1) div 2)) h"
proof (cases "odd n")
  case True
  then have "2 * ((n + 1) div 2) = Suc n" by (auto elim!: oddE)
  then show ?thesis using True
    by (simp add: merkle_even_def last_replicate replicate_append_same odd_pos)
next
  case False
  then have "2 * ((n + 1) div 2) = n" by (auto elim!: evenE)
  then show ?thesis using False by (simp add: merkle_even_def)
qed

lemma merkle_up_replicate:
  "n > 0 \<Longrightarrow> \<exists>d. merkle_up e (replicate n h) = [(twice e ^^ d) h] \<and> (n > 1 \<longrightarrow> d > 0)"
proof (induction n arbitrary: h rule: less_induct)
  case (less n)
  show ?case
  proof (cases "n = 1")
    case True
    then show ?thesis by (intro exI[of _ 0]) (simp add: merkle_up.simps)
  next
    case False
    then have n: "n > 1" using less.prems by simp
    let ?k = "(n + 1) div 2"
    have "?k < n" "?k > 0" using n by auto
    then obtain d where "merkle_up e (replicate ?k (twice e h)) = [(twice e ^^ d) (twice e h)]"
      using less.IH by blast
    moreover have "merkle_up e (replicate n h) = merkle_up e (replicate ?k (twice e h))"
      using n by (subst merkle_up.simps) (simp add: merkle_even_replicate merkle_next_replicate)
    ultimately have "merkle_up e (replicate n h) = [(twice e ^^ Suc d) h]"
      by (simp only: funpow_Suc_right comp_apply)
    then show ?thesis by blast
  qed
qed

lemma root_of_copies:
  assumes "n > 1" and "\<And>sh. sh \<in> set shs \<Longrightarrow> sh_Data sh = c" and "length shs = n"
  shows "\<exists>d>0. computeMerkleRoot e shs = hex_EncodeToString ((twice e ^^ d) (sha256 e c))"
proof -
  have "map (\<lambda>sh. sha256 e (sh_Data sh)) shs = replicate n (sha256 e c)"
    using assms by (intro replicate_eqI) auto
  moreover obtain d where "merkle_up e (replicate n (sha256 e c)) = [(twice e ^^ d) (sha256 e c)]" "d > 0"
    using merkle_up_replicate[of n e "sha256 e c"] assms(1) by auto
  ultimately show ?thesis using assms by (auto simp: computeMerkleRoot_def intro!: exI[of _ d])
qed

section \<open>Backends that behave\<close>

text \<open>
  \<open>view w n i\<close> is the shard that backend n keeps under ID i in the world w. A reliable backend
  stores what it is given, returns what it keeps and reports what it does not keep.
\<close>

type_synonym 'w view = "'w \<Rightarrow> string \<Rightarrow> string \<Rightarrow> Shard option"

definition store :: "(string \<Rightarrow> string \<Rightarrow> Shard option) \<Rightarrow> Shard \<Rightarrow> string \<Rightarrow> string \<Rightarrow> Shard option" where
  "store v sh = v(sh_Backend sh := (v (sh_Backend sh))(sh_ID sh \<mapsto> sh))"

definition reliable :: "'w view \<Rightarrow> 'w Backends \<Rightarrow> bool" where
  "reliable view bes \<longleftrightarrow>
     (\<forall>n be. get bes n = Some be \<longrightarrow>
       (\<forall>w sh. sh_Backend sh = n \<longrightarrow>
          fst (put_once be sh w) = None \<and> view (snd (put_once be sh w)) = store (view w) sh) \<and>
       (\<forall>w i. view (snd (get_once be i w)) = view w \<and>
          (case view w n i of
             Some sh \<Rightarrow> fst (get_once be i w) = Some (Inr sh)
           | None \<Rightarrow> (\<exists>er. fst (get_once be i w) = Some (Inl er)))))"

lemma reliable_put:
  "reliable view bes \<Longrightarrow> get bes (sh_Backend sh) = Some be \<Longrightarrow>
   \<exists>w'. put_once be sh w = (None, w') \<and> view w' = store (view w) sh"
  unfolding reliable_def by (metis prod.collapse)

lemma reliable_get:
  assumes "reliable view bes" and "get bes n = Some be"
  shows "\<exists>r w'. get_once be i w = (Some r, w') \<and> view w' = view w \<and>
    (case view w n i of Some sh \<Rightarrow> r = Inr sh | None \<Rightarrow> (\<exists>er. r = Inl er))"
proof -
  have "view (snd (get_once be i w)) = view w \<and>
      (case view w n i of
         Some sh \<Rightarrow> fst (get_once be i w) = Some (Inr sh)
       | None \<Rightarrow> (\<exists>er. fst (get_once be i w) = Some (Inl er)))"
    using assms unfolding reliable_def by blast
  then show ?thesis by (cases "get_once be i w"; cases "view w n i") auto
qed

definition never_cancelled :: "env \<Rightarrow> bool" where
  "never_cancelled e \<longleftrightarrow> (\<forall>n. \<not> cancelled e n)"

lemma not_cancelled [simp]: "never_cancelled e \<Longrightarrow> \<not> cancelled e n"
  by (simp add: never_cancelled_def)

lemma put_attempts_reliable:
  assumes "reliable view (backends (st s))" and "get (backends (st s)) (sh_Backend sh) = Some be"
    and "never_cancelled e"
  shows "\<exists>s'. put_attempts e be sh (Suc n) le s = (None, s') \<and> st s' = st s \<and>
    drawn s' = drawn s \<and> view (world s') = store (view (world s)) sh"
proof -
  obtain w' where "put_once be sh (world s) = (None, w')" "view w' = store (view (world s)) sh"
    using reliable_put[OF assms(1,2)] by blast
  then show ?thesis using assms(3) by (simp add: poll_def on_world_def)
qed

lemma putShardWithRetry_reliable:
  assumes "reliable view (backends (st s))" and "has_key (backends (st s)) (sh_Backend sh)"
    and "never_cancelled e"
  shows "\<exists>s'. putShardWithRetry e (get (backends (st s)) (sh_Backend sh)) sh 3 s = Returned None s' \<and>
    st s' = st s \<and> drawn s' = drawn s \<and> view (world s') = store (view (world s)) sh"
proof -
  obtain be where be: "get (backends (st s)) (sh_Backend sh) = Some be"
    using assms(2) by (auto simp: has_key_def)
  show ?thesis
    using put_attempts_reliable[OF assms(1) be assms(3), where n = 2 and le = None]
    by (auto simp: putShardWithRetry_def be numeral_3_eq_3 numeral_2_eq_2)
qed

lemma store_other [simp]:
  "(sh_Backend x, sh_ID x) \<noteq> (n, i) \<Longrightarrow> store v x n i = v n i"
  by (auto simp: store_def)

lemma store_same [simp]: "store v sh (sh_Backend sh) (sh_ID sh) = Some sh"
  by (simp add: store_def)

lemma foldl_store_other:
  "i \<notin> sh_ID ` set shs \<Longrightarrow> foldl store v shs n i = v n i"
  by (induction shs arbitrary: v) auto

lemma foldl_store_mem:
  "distinct (map sh_ID shs) \<Longrightarrow> sh \<in> set shs \<Longrightarrow>
   foldl store v shs (sh_Backend sh) (sh_ID sh) = Some sh"
  by (induction shs arbitrary: v) (auto simp: foldl_store_other)

section \<open>Downloads\<close>

text \<open>What a download finds for an entry of a manifest.\<close>

definition avail :: "env \<Rightarrow> 'w DistributedStorage \<Rightarrow> (string \<Rightarrow> string \<Rightarrow> Shard option) \<Rightarrow> ShardInfo \<Rightarrow>
    Shard option" where
  "avail e d v si =
     (if \<not> has_key (backends d) (si_Backend si) then None
      else case v (si_Backend si) (si_ID si) of
        None \<Rightarrow> None
      | Some sh \<Rightarrow>
          if sha256Hex e (sh_Data sh) = si_Checksum si then Some (sh\<lparr>sh_Index := si_Index si\<rparr>)
          else None)"

lemma fetch_shard_reliable:
  assumes "reliable view (backends (st s))" and "never_cancelled e" and "encryptor (st s) = None"
  shows "\<exists>s'. fetch_shard e si s =
      (case avail e (st s) (view (world s)) si of Some sh \<Rightarrow> Found sh | None \<Rightarrow> Missing (si_ID si), s') \<and>
    st s' = st s \<and> view (world s') = view (world s)"
proof (cases "get (backends (st s)) (si_Backend si)")
  case None
  then show ?thesis
    by (simp add: fetch_shard_def getShardBackendDirect_def avail_def has_key_def checked_def)
next
  case (Some be)
  obtain r w' where g: "get_once be (si_ID si) (world s) = (Some r, w')" "view w' = view (world s)"
    "case view (world s) (si_Backend si) (si_ID si) of Some sh \<Rightarrow> r = Inr sh | None \<Rightarrow> (\<exists>er. r = Inl er)"
    using reliable_get[OF assms(1) Some] by blast
  show ?thesis
    using g assms(2,3) Some
    by (cases "view (world s) (si_Backend si) (si_ID si)")
      (auto simp: fetch_shard_def getShardBackendDirect_def avail_def has_key_def checked_def
        decrypted_def poll_def on_world_def)
qed

lemma fetch_goroutine_reliable:
  assumes "reliable view (backends (st s))" and "never_cancelled e" and "encryptor (st s) = None"
  shows "\<exists>s'. fetch_goroutine e si s =
      (case avail e (st s) (view (world s)) si of Some sh \<Rightarrow> Found sh | None \<Rightarrow> Missing (si_ID si), s') \<and>
    st s' = st s \<and> view (world s') = view (world s)"
  using fetch_shard_reliable[of view "s\<lparr>polls := polls s + 1\<rparr>" e si] assms
  by (simp add: fetch_goroutine_def poll_def)

lemma fetch_all_reliable:
  "reliable view (backends (st s)) \<Longrightarrow> never_cancelled e \<Longrightarrow> encryptor (st s) = None \<Longrightarrow>
   \<exists>s'. fetch_all (fetch_goroutine e) sis s =
      (map (\<lambda>si. case avail e (st s) (view (world s)) si of
         Some sh \<Rightarrow> Found sh | None \<Rightarrow> Missing (si_ID si)) sis, s') \<and>
    st s' = st s \<and> view (world s') = view (world s)"
proof (induction sis arbitrary: s)
  case Nil
  then show ?case by simp
next
  case (Cons si sis)
  obtain s1 where s1: "fetch_goroutine e si s =
      (case avail e (st s) (view (world s)) si of Some sh \<Rightarrow> Found sh | None \<Rightarrow> Missing (si_ID si), s1)"
    "st s1 = st s" "view (world s1) = view (world s)"
    using fetch_goroutine_reliable[OF Cons.prems] by blast
  obtain s2 where "fetch_all (fetch_goroutine e) sis s1 =
      (map (\<lambda>si. case avail e (st s1) (view (world s1)) si of
         Some sh \<Rightarrow> Found sh | None \<Rightarrow> Missing (si_ID si)) sis, s2)"
    "st s2 = st s1" "view (world s2) = view (world s1)"
    using Cons.IH[of s1] Cons.prems s1 by auto
  then show ?case using s1 by simp
qed

lemma found_of_avail:
  "found_of (map (\<lambda>si. case f si of Some sh \<Rightarrow> Found sh | None \<Rightarrow> Missing (g si)) sis) =
   List.map_filter f sis"
  by (induction sis) (auto simp: found_of_def List.map_filter_simps split: option.splits)

definition plain_download :: "'w DistributedStorage \<Rightarrow> bool" where
  "plain_download d \<longleftrightarrow> encryptor d = None \<and> repairPlugin d = None \<and> erasureCoder d = None \<and>
     policyChecker d = None"

lemma Download_reliable:
  assumes "reliable view (backends (st s))" and "never_cancelled e" and "plain_download (st s)"
    and "get (manifests (st s)) name = Some m"
  shows "fst (Download e order name s) = concat_shards e m
    (List.map_filter (avail e (st s) (view (world s))) (map ((!) (fm_Shards m)) order))"
proof -
  let ?s = "s\<lparr>polls := polls s + 1\<rparr>" and ?sis = "map ((!) (fm_Shards m)) order"
  have plain: "encryptor (st s) = None" "repairPlugin (st s) = None" "erasureCoder (st s) = None"
    "policyChecker (st s) = None"
    using assms(3) by (simp_all add: plain_download_def)
  obtain s' where s': "fetch_all (fetch_goroutine e) ?sis ?s =
      (map (\<lambda>si. case avail e (st s) (view (world s)) si of
         Some sh \<Rightarrow> Found sh | None \<Rightarrow> Missing (si_ID si)) ?sis, s')" "st s' = st s"
    using fetch_all_reliable[of view ?s e ?sis] assms(1,2) plain by auto
  show ?thesis
    using s' assms(2,4) plain
    by (simp add: Download_def poll_def policy_error_def found_of_avail repair_and_retry_def
        reconstruct_def del: map_map)
qed

text \<open>sort.Slice by index undoes any order in which the goroutines ran.\<close>

interpretation by_index: key_order "\<lambda>a b. sh_Index a < sh_Index b" sh_Index
  by unfold_locales simp

lemma sorted_distinct_mset_eq:
  "sorted (map f xs) \<Longrightarrow> sorted (map f ys) \<Longrightarrow> distinct (map f ys) \<Longrightarrow> mset xs = mset ys \<Longrightarrow> xs = ys"
proof -
  assume s: "sorted (map f xs)" "sorted (map f ys)" and d: "distinct (map f ys)"
    and m: "mset xs = mset ys"
  have "mset (map f xs) = mset (map f ys)" using m by simp
  then have "map f xs = map f ys" using s by (metis properties_for_sort)
  moreover have "inj_on f (set xs \<union> set ys)"
    using d m by (metis distinct_map mset_eq_setD sup_idem)
  ultimately show "xs = ys" by (rule map_inj_on)
qed

lemma sort_by_index:
  assumes "mset found = mset shs" and "sorted_wrt (<) (map sh_Index shs)"
  shows "sort_slice (\<lambda>a b. sh_Index a < sh_Index b) found = shs"
proof (rule sorted_distinct_mset_eq[of sh_Index])
  show "sorted (map sh_Index (sort_slice (\<lambda>a b. sh_Index a < sh_Index b) found))"
    by (rule by_index.sorted_sort_slice)
  show "sorted (map sh_Index shs)" "distinct (map sh_Index shs)"
    using assms(2) by (simp_all add: strict_sorted_iff)
  show "mset (sort_slice (\<lambda>a b. sh_Index a < sh_Index b) found) = mset shs"
    using assms(1) by simp
qed

lemma mset_map_filter_perm:
  assumes "mset order = mset [0..<length xs]"
  shows "mset (List.map_filter f (map ((!) xs) order)) = mset (List.map_filter f xs)"
proof -
  have "mset (map ((!) xs) order) = mset (map ((!) xs) [0..<length xs])"
    using assms by simp
  then have "mset (map ((!) xs) order) = mset xs" by (simp add: map_nth)
  then show ?thesis by (metis List.map_filter_def mset_filter mset_map)
qed

text \<open>
  The result of a download, whatever the order of its goroutines: the found shards joined in the
  order of the manifest, when the root over them is the root of the manifest.
\<close>

lemma Download_ordered:
  assumes "reliable view (backends (st s))" and "never_cancelled e" and "plain_download (st s)"
    and "get (manifests (st s)) name = Some m" and "mset order = mset [0..<length (fm_Shards m)]"
    and "List.map_filter (avail e (st s) (view (world s))) (fm_Shards m) = shs"
    and "sorted_wrt (<) (map sh_Index shs)"
  shows "fst (Download e order name s) =
    (if fm_MerkleRoot m \<noteq> '''' \<and> computeMerkleRoot e shs \<noteq> fm_MerkleRoot m
     then Inl (EMerkle (computeMerkleRoot e shs) (fm_MerkleRoot m))
     else Inr (concat (map sh_Data shs)))"
proof -
  let ?f = "List.map_filter (avail e (st s) (view (world s))) (map ((!) (fm_Shards m)) order)"
  have "sort_slice (\<lambda>a b. sh_Index a < sh_Index b) ?f = shs"
    using mset_map_filter_perm[OF assms(5), of "avail e (st s) (view (world s))"] assms(6,7)
    by (intro sort_by_index) simp_all
  then show ?thesis
    using Download_reliable[OF assms(1-4), of order] by (simp add: concat_shards_def Let_def)
qed

end
