(* ===== verification/StorageUploads.thy ===== *)
theory StorageUploads
  imports StorageMerkle
begin

text \<open>
  What the two ways of uploading leave behind on reliable backends: the chunked stream, and shards
  that a placement has made.
\<close>

section \<open>Entries of a manifest\<close>

lemma avail_info:
  "has_key (backends d) (sh_Backend sh) \<Longrightarrow> v (sh_Backend sh) (sh_ID sh) = Some sh \<Longrightarrow>
   sh_Checksum sh = sha256Hex e (sh_Data sh) \<Longrightarrow> avail e d v (shard_info sh) = Some sh"
  by (simp add: avail_def shard_info_def)

lemma map_filter_Some: "(\<And>x. x \<in> set xs \<Longrightarrow> f (g x) = Some x) \<Longrightarrow> List.map_filter f (map g xs) = xs"
  by (induction xs) (simp_all add: List.map_filter_simps)

lemma all_available:
  assumes "distinct (map sh_ID all)" and "set shs \<subseteq> set all"
    and "\<And>sh. sh \<in> set shs \<Longrightarrow> has_key (backends d) (sh_Backend sh) \<and>
      sh_Checksum sh = sha256Hex e (sh_Data sh)"
  shows "List.map_filter (avail e d (foldl store v all)) (map shard_info shs) = shs"
proof (rule map_filter_Some)
  fix sh assume sh: "sh \<in> set shs"
  then have "foldl store v all (sh_Backend sh) (sh_ID sh) = Some sh"
    using assms(1,2) by (intro foldl_store_mem) auto
  then show "avail e d (foldl store v all) (shard_info sh) = Some sh"
    using assms(3)[OF sh] by (intro avail_info) simp_all
qed

lemma sort_eq_Nil [simp]: "sort xs = [] \<longleftrightarrow> xs = []"
  by (metis length_0_conv length_sort)

lemma start_simps [simp]:
  "st (start d w) = d" "world (start d w) = w" "drawn (start d w) = 0" "polls (start d w) = 0"
  "(start d w)\<lparr>world := w'\<rparr> = start d w'"
  by (simp_all add: start_def)

definition bare :: "'w DistributedStorage \<Rightarrow> bool" where
  "bare d \<longleftrightarrow> plain_download d \<and> manifestStore d = None"

lemma plain_set_manifest [simp]:
  "plain_download (st (set_manifest name m s)) = plain_download (st s)"
  "backends (st (set_manifest name m s)) = backends (st s)"
  "get (manifests (st (set_manifest name m s))) name = Some m"
  "world (set_manifest name m s) = world s"
  by (simp_all add: set_manifest_def plain_download_def get_put)

section \<open>The chunked stream\<close>

function chunks :: "nat \<Rightarrow> bytes \<Rightarrow> bytes list" where
  "chunks k data = (if k = 0 \<or> data = [] then [] else take k data # chunks k (drop k data))"
  by pat_completeness auto
termination by (relation "measure (\<lambda>(k, data). length data)") auto

declare chunks.simps [simp del]

lemma concat_chunks: "0 < k \<Longrightarrow> concat (chunks k data) = data"
  by (induction k data rule: chunks.induct) (subst chunks.simps, auto)

lemma chunks_single: "data \<noteq> [] \<Longrightarrow> length data \<le> k \<Longrightarrow> chunks k data = [data]"
  by (cases data) (simp_all add: chunks.simps)

definition shard_id :: "env \<Rightarrow> string \<Rightarrow> nat \<Rightarrow> string" where
  "shard_id e name n = name @ ''-'' @ dec (fst (draws e n)) @ ''-'' @ dec (snd (draws e n))"

lemma makeShardID_eq: "makeShardID e name s = (shard_id e name (drawn s), s\<lparr>drawn := drawn s + 1\<rparr>)"
  by (simp add: makeShardID_def shard_id_def split: prod.split)

lemma dec_dash_inj: "dec a @ ''-'' @ x = dec b @ ''-'' @ y \<longleftrightarrow> a = b \<and> x = y"
proof
  assume "dec a @ ''-'' @ x = dec b @ ''-'' @ y"
  moreover have "CHR ''-'' \<notin> set (dec a)" "CHR ''-'' \<notin> set (dec b)"
    using digit_neq letter_not_digit(2) by blast+
  ultimately have "Some (dec a, x) = Some (dec b, y)"
    by (metis append_Cons append_Nil split_first_append)
  then show "a = b \<and> x = y" by (simp add: dec_inj)
qed simp

lemma shard_id_inj: "inj (draws e) \<Longrightarrow> shard_id e name m = shard_id e name n \<longleftrightarrow> m = n"
  unfolding shard_id_def by (metis dec_dash_inj dec_inj injD prod.collapse same_append_eq)

definition replica :: "env \<Rightarrow> string \<Rightarrow> string list \<Rightarrow> bytes \<Rightarrow> nat \<Rightarrow> nat \<Rightarrow> nat \<Rightarrow> Shard" where
  "replica e name names chunk idx i n =
     \<lparr>sh_ID = shard_id e name n, sh_Backend = names ! ((idx + i) mod length names),
      sh_Region = '''', sh_Data = chunk, sh_Checksum = sha256Hex e chunk, sh_CipherHash = '''',
      sh_Parity = False, sh_Index = int idx, sh_CreatedAt = clock e\<rparr>"

lemma replica_simps [simp]:
  "sh_ID (replica e name names c idx i n) = shard_id e name n"
  "sh_Data (replica e name names c idx i n) = c"
  "sh_Index (replica e name names c idx i n) = int idx"
  "sh_Checksum (replica e name names c idx i n) = sha256Hex e c"
  by (simp_all add: replica_def)

lemma replica_backend:
  "names \<noteq> [] \<Longrightarrow> sh_Backend (replica e name names c idx i n) \<in> set names"
  by (simp add: replica_def)

lemma chunk_shards_eq:
  "chunk_shards e name names chunk idx [a..<a + n] s =
     (map (\<lambda>i. replica e name names chunk idx (a + i) (drawn s + i)) [0..<n], s\<lparr>drawn := drawn s + n\<rparr>)"
proof (induction n arbitrary: a s)
  case 0
  then show ?case by simp
next
  case (Suc n)
  have "[a..<a + Suc n] = a # [Suc a..<Suc a + n]" by (simp add: upt_conv_Cons)
  moreover have "[0..<Suc n] = 0 # map Suc [0..<n]" by (simp add: map_Suc_upt upt_conv_Cons)
  ultimately show ?case
    using Suc.IH[of "Suc a" "s\<lparr>drawn := drawn s + 1\<rparr>"]
    by (simp add: makeShardID_eq replica_def o_def del: upt_Suc)
qed

lemma write_chunk_reliable:
  "reliable view (backends (st s)) \<Longrightarrow> never_cancelled e \<Longrightarrow> encryptor (st s) = None \<Longrightarrow>
   (\<And>sh. sh \<in> set shs \<Longrightarrow> has_key (backends (st s)) (sh_Backend sh)) \<Longrightarrow>
   \<exists>s'. write_chunk e name shs all s = Returned (Inr (all @ shs)) s' \<and> st s' = st s \<and>
     drawn s' = drawn s \<and> view (world s') = foldl store (view (world s)) shs"
proof (induction shs arbitrary: all s)
  case Nil
  then show ?case by simp
next
  case (Cons sh shs)
  let ?s = "s\<lparr>polls := polls s + 1\<rparr>"
  obtain s1 where s1: "putShardWithRetry e (get (backends (st ?s)) (sh_Backend sh)) sh 3 ?s = Returned None s1"
    "st s1 = st s" "drawn s1 = drawn s" "view (world s1) = store (view (world s)) sh"
    using putShardWithRetry_reliable[of view ?s sh e] Cons.prems by auto
  obtain s2 where "write_chunk e name shs (all @ [sh]) s1 = Returned (Inr ((all @ [sh]) @ shs)) s2"
    "st s2 = st s1" "drawn s2 = drawn s1" "view (world s2) = foldl store (view (world s1)) shs"
    using Cons.IH[of s1 "all @ [sh]"] Cons.prems s1 by auto
  then show ?case using s1 Cons.prems(2,3) by (simp add: poll_def)
qed

fun stream_shards :: "env \<Rightarrow> string \<Rightarrow> string list \<Rightarrow> nat \<Rightarrow> bytes list \<Rightarrow> nat \<Rightarrow> nat \<Rightarrow> Shard list" where
  "stream_shards e name names r [] idx n = []"
| "stream_shards e name names r (c # cs) idx n =
     map (\<lambda>i. replica e name names c idx i (n + i)) [0..<r] @
     stream_shards e name names r cs (idx + 1) (n + r)"

fun first_shards :: "env \<Rightarrow> string \<Rightarrow> string list \<Rightarrow> nat \<Rightarrow> bytes list \<Rightarrow> nat \<Rightarrow> nat \<Rightarrow> Shard list" where
  "first_shards e name names r [] idx n = []"
| "first_shards e name names r (c # cs) idx n =
     replica e name names c idx 0 n # first_shards e name names r cs (idx + 1) (n + r)"

lemma stream_shards_mem:
  "sh \<in> set (stream_shards e name names r cs idx n) \<Longrightarrow>
   \<exists>c j i m. sh = replica e name names c j i m \<and> idx \<le> j \<and> n \<le> m"
proof (induction cs arbitrary: idx n)
  case Nil
  then show ?case by simp
next
  case (Cons c cs)
  then consider i where "sh = replica e name names c idx i (n + i)"
    | "sh \<in> set (stream_shards e name names r cs (idx + 1) (n + r))" by auto
  then show ?case
  proof cases
    case 1
    then show ?thesis by (metis le_add1 le_refl)
  next
    case 2
    then show ?thesis using Cons.IH by (meson add_leD1)
  qed
qed

lemma stream_shards_registered:
  "names \<noteq> [] \<Longrightarrow> sh \<in> set (stream_shards e name names r cs idx n) \<Longrightarrow>
   sh_Backend sh \<in> set names \<and> sh_Checksum sh = sha256Hex e (sh_Data sh)"
  using stream_shards_mem replica_backend by fastforce

lemma stream_shards_distinct:
  "inj (draws e) \<Longrightarrow> distinct (map sh_ID (stream_shards e name names r cs idx n))"
proof (induction cs arbitrary: idx n)
  case Nil
  then show ?case by simp
next
  case (Cons c cs)
  have "shard_id e name (n + i) \<noteq> sh_ID sh"
    if "i < r" "sh \<in> set (stream_shards e name names r cs (idx + 1) (n + r))" for i sh
    using that stream_shards_mem[OF that(2)] shard_id_inj[OF Cons.prems] by fastforce
  then show ?case using Cons
    by (auto simp: distinct_map inj_on_def shard_id_inj o_def)
qed

lemma first_shards_subset:
  "0 < r \<Longrightarrow> set (first_shards e name names r cs idx n) \<subseteq> set (stream_shards e name names r cs idx n)"
proof (induction cs arbitrary: idx n)
  case Nil
  then show ?case by simp
next
  case (Cons c cs)
  have "replica e name names c idx 0 n \<in> (\<lambda>i. replica e name names c idx i (n + i)) ` {0..<r}"
    using Cons.prems by (intro image_eqI[of _ _ 0]) auto
  then show ?case using Cons by auto
qed

lemma first_shards_1: "first_shards e name names 1 cs idx n = stream_shards e name names 1 cs idx n"
  by (induction cs arbitrary: idx n) simp_all

lemma first_shards_data: "map sh_Data (first_shards e name names r cs idx n) = cs"
  by (induction cs arbitrary: idx n) simp_all

lemma first_shards_index:
  "map sh_Index (first_shards e name names r cs idx n) = map int [idx..<idx + length cs]"
proof (induction cs arbitrary: idx n)
  case Nil
  then show ?case by simp
next
  case (Cons c cs)
  have "[idx..<idx + length (c # cs)] = idx # [idx + 1..<idx + 1 + length cs]"
    by (simp add: upt_conv_Cons del: upt_Suc)
  then show ?case using Cons[of "idx + 1" "n + r"] by simp
qed

lemma first_per_index_skip:
  "(\<And>sh. sh \<in> set shs \<Longrightarrow> sh_Index sh \<in> set seen) \<Longrightarrow>
   first_per_index seen (shs @ xs) = first_per_index seen xs"
  by (induction shs) auto

lemma first_per_index_stream:
  "0 < r \<Longrightarrow> \<forall>x \<in> set seen. x < int idx \<Longrightarrow>
   first_per_index seen (stream_shards e name names r cs idx n) = first_shards e name names r cs idx n"
proof (induction cs arbitrary: seen idx n)
  case Nil
  then show ?case by simp
next
  case (Cons c cs)
  have skip: "first_per_index (int idx # seen)
      (map (\<lambda>i. replica e name names c idx i (n + i)) [Suc 0..<r] @ xs) =
      first_per_index (int idx # seen) xs" for xs
    by (rule first_per_index_skip) auto
  have "[0..<r] = 0 # [Suc 0..<r]" using Cons.prems(1) by (simp add: upt_conv_Cons)
  moreover have "int idx \<notin> set seen" using Cons.prems(2) by auto
  ultimately have "first_per_index seen (stream_shards e name names r (c # cs) idx n) =
      replica e name names c idx 0 n #
      first_per_index (int idx # seen) (stream_shards e name names r cs (idx + 1) (n + r))"
    using skip by simp
  then show ?case using Cons.IH[of "int idx # seen" "idx + 1"] Cons.prems by fastforce
qed

lemma chunk_loop_reliable:
  assumes "0 < k" and "sort (map fst (backends (st s))) = names" and "names \<noteq> []"
    and "reliable view (backends (st s))" and "never_cancelled e" and "encryptor (st s) = None"
    and "rd_err r = None" and "nat (opt_above 0 (int (length names)) opts ''replicas'') = reps"
  shows "\<exists>s'. chunk_loop e name opts k r all idx s =
      Returned (Inr (all @ stream_shards e name names reps (chunks k (rd_bytes r)) idx (drawn s),
        idx + length (chunks k (rd_bytes r)))) s' \<and> st s' = st s \<and>
    view (world s') = foldl store (view (world s))
      (stream_shards e name names reps (chunks k (rd_bytes r)) idx (drawn s))"
  using assms
proof (induction "length (rd_bytes r)" arbitrary: r all idx s rule: less_induct)
  case less
  let ?s = "s\<lparr>polls := polls s + 1\<rparr>"
  show ?case
  proof (cases "rd_bytes r = []")
    case True
    then show ?thesis using less.prems
      by (subst chunk_loop.simps) (simp add: ReadFull_def poll_def chunks.simps)
  next
    case False
    define c where "c = take k (rd_bytes r)"
    define eof where "eof \<longleftrightarrow> \<not> k \<le> length (rd_bytes r)"
    define r' where "r' = r\<lparr>rd_bytes := drop k (rd_bytes r)\<rparr>"
    have rf: "ReadFull k r = Inr (c, eof, r')"
      using less.prems by (auto simp: ReadFull_def c_def eof_def r'_def)
    have ne: "backends (st s) \<noteq> []" using less.prems(2,3) by auto
    have c: "c \<noteq> []" using False less.prems by (simp add: c_def)
    have cs: "chunks k (rd_bytes r) = c # chunks k (rd_bytes r')"
      using False less.prems by (subst chunks.simps) (simp add: c_def r'_def)
    let ?new = "map (\<lambda>i. replica e name names c idx i (drawn s + i)) [0..<reps]"
    have new: "chunk_shards e name names c idx [0..<reps] ?s = (?new, ?s\<lparr>drawn := drawn s + reps\<rparr>)"
      using chunk_shards_eq[of e name names c idx 0 reps ?s] by simp
    have reg: "has_key (backends (st s)) (sh_Backend sh)" if "sh \<in> set ?new" for sh
      using that less.prems(2,3) replica_backend[of names e name c idx]
      by (auto simp: has_key_iff)
    then obtain s1 where s1: "write_chunk e name ?new all (?s\<lparr>drawn := drawn s + reps\<rparr>) =
        Returned (Inr (all @ ?new)) s1" "st s1 = st s" "drawn s1 = drawn s + reps"
      "view (world s1) = foldl store (view (world s)) ?new"
      using write_chunk_reliable[of view "?s\<lparr>drawn := drawn s + reps\<rparr>" e ?new name all] less.prems
      by auto
    have loop: "chunk_loop e name opts k r all idx s =
        (if eof then Returned (Inr (all @ ?new, idx + 1)) s1
         else chunk_loop e name opts k r' (all @ ?new) (idx + 1) s1)"
      using less.prems rf c new s1(1) ne
      by (subst chunk_loop.simps) (simp add: poll_def Let_def)
    show ?thesis
    proof (cases eof)
      case True
      then have "chunks k (rd_bytes r') = []" by (subst chunks.simps) (auto simp: eof_def r'_def)
      then show ?thesis using True loop s1 cs by simp
    next
      case eof: False
      have "length (rd_bytes r') < length (rd_bytes r)"
        using False less.prems by (simp add: r'_def)
      then obtain s2 where "chunk_loop e name opts k r' (all @ ?new) (idx + 1) s1 =
          Returned (Inr ((all @ ?new) @ stream_shards e name names reps (chunks k (rd_bytes r')) (idx + 1) (drawn s1),
            (idx + 1) + length (chunks k (rd_bytes r')))) s2" "st s2 = st s1"
        "view (world s2) = foldl store (view (world s1))
          (stream_shards e name names reps (chunks k (rd_bytes r')) (idx + 1) (drawn s1))"
        using less.hyps[of r' s1 "all @ ?new" "idx + 1"] less.prems s1 by (auto simp: r'_def)
      then show ?thesis using eof loop s1 cs by simp
    qed
  qed
qed

definition chunk_bytes :: "opts \<Rightarrow> nat" where
  "chunk_bytes opts = nat (opt_above 0 67108864 opts ''chunk_size'')"

definition replicas :: "'w DistributedStorage \<Rightarrow> opts \<Rightarrow> nat" where
  "replicas d opts = nat (opt_above 0 (int (length (backends d))) opts ''replicas'')"

lemma chunk_bytes_pos [simp]: "0 < chunk_bytes opts"
  using opt_above_gt[of 0 67108864 opts "''chunk_size''"] by (simp add: chunk_bytes_def)

lemma replicas_pos: "backends d \<noteq> [] \<Longrightarrow> 0 < replicas d opts"
  using opt_above_gt[of 0 "int (length (backends d))" opts "''replicas''"] by (simp add: replicas_def)

definition stream_of :: "env \<Rightarrow> string \<Rightarrow> bytes \<Rightarrow> opts \<Rightarrow> 'w DistributedStorage \<Rightarrow> Shard list" where
  "stream_of e name data opts d = stream_shards e name (sort (map fst (backends d))) (replicas d opts)
     (chunks (chunk_bytes opts) data) 0 0"

lemma Upload_stream:
  assumes "reliable view (backends d)" and "never_cancelled e" and "bare d"
    and "placementPlugin d = None" and "backends d \<noteq> []"
  shows "\<exists>s'. Upload e name data opts (start d w) = Returned (Inr ()) s' \<and>
    plain_download (st s') \<and> backends (st s') = backends d \<and>
    get (manifests (st s')) name = Some (stream_manifest e name (stream_of e name data opts d)
      (length (chunks (chunk_bytes opts) data)) opts) \<and>
    view (world s') = foldl store (view w) (stream_of e name data opts d)"
proof -
  let ?r = "\<lparr>rd_bytes = data, rd_err = None\<rparr> :: reader" and ?cs = "chunks (chunk_bytes opts) data"
  have plain: "plain_download d" "manifestStore d = None" "encryptor d = None"
    "erasureCoder d = None" "policyChecker d = None"
    using assms(3) by (simp_all add: bare_def plain_download_def)
  obtain s1 where s1: "chunk_loop e name opts (chunk_bytes opts) ?r [] 0 (start d w) =
      Returned (Inr (stream_of e name data opts d, length ?cs)) s1" "st s1 = d"
    "view (world s1) = foldl store (view w) (stream_of e name data opts d)"
    using chunk_loop_reliable[of "chunk_bytes opts" "start d w" _ view e ?r opts "replicas d opts" name "[]" 0]
      assms plain by (auto simp: stream_of_def replicas_def)
  let ?m = "stream_manifest e name (stream_of e name data opts d) (length ?cs) opts"
  have "Upload e name data opts (start d w) = Returned (Inr ()) (set_manifest name ?m s1)"
    using s1 plain assms(4)
    by (simp add: Upload_def UploadStream_def policy_error_def stream_chunks_def
        chunk_bytes_def[symmetric])
  then show ?thesis using s1 plain(1) by (intro exI[of _ "set_manifest name ?m s1"]) simp
qed

lemma stream_download:
  assumes "reliable view (backends d)" and "never_cancelled e" and "inj (draws e)" and "bare d"
    and "placementPlugin d = None" and "backends d \<noteq> []"
    and "mset order = mset [0..<length (chunks (chunk_bytes opts) data)]"
  shows "\<exists>s'. Upload e name data opts (start d w) = Returned (Inr ()) s' \<and>
    fst (Download e order name (start (st s') (world s'))) =
     (let root = computeMerkleRoot e (stream_of e name data opts d);
          root' = computeMerkleRoot e (first_shards e name (sort (map fst (backends d)))
            (replicas d opts) (chunks (chunk_bytes opts) data) 0 0)
      in if root \<noteq> '''' \<and> root' \<noteq> root then Inl (EMerkle root' root) else Inr data)"
proof -
  let ?cs = "chunks (chunk_bytes opts) data" and ?names = "sort (map fst (backends d))"
  let ?all = "stream_of e name data opts d"
  let ?fst = "first_shards e name ?names (replicas d opts) ?cs 0 0"
  let ?m = "stream_manifest e name ?all (length ?cs) opts"
  have reps: "0 < replicas d opts" using replicas_pos assms(6) by blast
  obtain s' where up: "Upload e name data opts (start d w) = Returned (Inr ()) s'"
    and s': "plain_download (st s')" "backends (st s') = backends d"
      "get (manifests (st s')) name = Some ?m" "view (world s') = foldl store (view w) ?all"
    using Upload_stream[OF assms(1,2,4,5,6)] by blast
  have infos: "fm_Shards ?m = map shard_info ?fst"
    using first_per_index_stream[OF reps, of "[]"] by (simp add: stream_manifest_def stream_of_def)
  have sub: "set ?fst \<subseteq> set ?all"
    unfolding stream_of_def by (rule first_shards_subset[OF reps])
  have found: "List.map_filter (avail e (st s') (foldl store (view w) ?all)) (map shard_info ?fst) = ?fst"
  proof (rule all_available)
    show "distinct (map sh_ID ?all)"
      unfolding stream_of_def by (rule stream_shards_distinct[OF assms(3)])
    show "set ?fst \<subseteq> set ?all" by (rule sub)
    fix sh assume "sh \<in> set ?fst"
    then have "sh \<in> set ?all" using sub by blast
    then have "sh_Backend sh \<in> set ?names \<and> sh_Checksum sh = sha256Hex e (sh_Data sh)"
      unfolding stream_of_def using assms(6) by (intro stream_shards_registered) simp_all
    then show "has_key (backends (st s')) (sh_Backend sh) \<and> sh_Checksum sh = sha256Hex e (sh_Data sh)"
      using s'(2) by (simp add: has_key_iff)
  qed
  have "length ?fst = length ?cs" by (metis first_shards_data length_map)
  then have "fst (Download e order name (start (st s') (world s'))) =
      (if fm_MerkleRoot ?m \<noteq> '''' \<and> computeMerkleRoot e ?fst \<noteq> fm_MerkleRoot ?m
       then Inl (EMerkle (computeMerkleRoot e ?fst) (fm_MerkleRoot ?m))
       else Inr (concat (map sh_Data ?fst)))"
    using assms(1,2,7) s' infos found
    by (intro Download_ordered[of view])
      (simp_all add: first_shards_index sorted_wrt_map sorted_wrt_upt)
  then show ?thesis
    using up by (simp add: stream_manifest_def Let_def first_shards_data concat_chunks)
qed

section \<open>Shards from a placement\<close>

lemma write_shards_reliable:
  "reliable view (backends (st s)) \<Longrightarrow> never_cancelled e \<Longrightarrow>
   (\<And>sh. sh \<in> set shs \<Longrightarrow> has_key (backends (st s)) (sh_Backend sh) \<and> sh_Backend sh \<noteq> '''') \<Longrightarrow>
   \<exists>s'. write_shards e shs written s = Returned (Inr (written @ shs)) s' \<and> st s' = st s \<and>
     view (world s') = foldl store (view (world s)) shs"
proof (induction shs arbitrary: written s)
  case Nil
  then show ?case by simp
next
  case (Cons sh shs)
  let ?s = "s\<lparr>polls := polls s + 1\<rparr>"
  have sh: "choose_backend (st s) sh = Some (Inr (sh_Backend sh))" "sh\<lparr>sh_Backend := sh_Backend sh\<rparr> = sh"
    using Cons.prems(3)[of sh] by (simp_all add: choose_backend_def)
  obtain s1 where s1: "putShardWithRetry e (get (backends (st ?s)) (sh_Backend sh)) sh 3 ?s = Returned None s1"
    "st s1 = st s" "view (world s1) = store (view (world s)) sh"
    using putShardWithRetry_reliable[of view ?s sh e] Cons.prems by auto
  obtain s2 where "write_shards e shs (written @ [sh]) s1 = Returned (Inr ((written @ [sh]) @ shs)) s2"
    "st s2 = st s1" "view (world s2) = foldl store (view (world s1)) shs"
    using Cons.IH[of s1 "written @ [sh]"] Cons.prems s1 by auto
  then show ?case using s1 sh Cons.prems(2) by (simp add: poll_def)
qed

definition stamp :: "env \<Rightarrow> Shard \<Rightarrow> Shard" where
  "stamp e sh = sh\<lparr>sh_CreatedAt := clock e, sh_Checksum := sha256Hex e (sh_Data sh)\<rparr>"

lemma stamp_shards_named:
  "(\<And>sh. sh \<in> set shs \<Longrightarrow> sh_ID sh \<noteq> '''') \<Longrightarrow> stamp_shards e name shs s = (map (stamp e) shs, s)"
  by (induction shs) (simp_all add: stamp_def)

lemma encrypt_shards_off:
  "encryptor (st s) = None \<Longrightarrow>
   encrypt_shards e name shs s = (Inr (map (\<lambda>sh. sh\<lparr>sh_CipherHash := ''''\<rparr>) shs), s)"
  by (induction shs) simp_all

text \<open>The streaming form of a placement reads everything and places it.\<close>

definition spooled :: "(env \<Rightarrow> bytes \<Rightarrow> 'w Backends \<Rightarrow> opts \<Rightarrow> 'w \<Rightarrow> (serror + Shard list, 'w) outcome) \<Rightarrow>
    env \<Rightarrow> reader \<Rightarrow> int \<Rightarrow> 'w Backends \<Rightarrow> opts \<Rightarrow> 'w \<Rightarrow> (serror + Shard list, 'w) outcome" where
  "spooled place e r len bes opts w =
     (case spool e r of Inl er \<Rightarrow> Returned (Inl er) w | Inr file \<Rightarrow> place e file bes opts w)"

context placement begin

lemma upload_download:
  assumes pp: "placementPlugin d = Some pp" "PlaceShardsStream pp = Some (spooled place e)"
    and placed: "place e data (backends d) opts w = Returned (Inr shards) w"
    and env: "reliable view (backends d)" "never_cancelled e" "tmp_error e = None"
    and d: "bare d" "\<not> has_key (backends d) ''''"
    and order: "mset order = mset [0..<length shards]"
  shows "\<exists>s'. Upload e name data opts (start d w) = Returned (Inr ()) s' \<and>
    fst (Download e order name (start (st s') (world s'))) = Inr (concat (map sh_Data shards))"
proof -
  define final where "final = map (\<lambda>sh. (stamp e sh)\<lparr>sh_CipherHash := ''''\<rparr>) shards"
  have ok: "placed_ok e (backends d) shards" using place_some[OF placed] by simp
  have plain: "plain_download d" "manifestStore d = None" "encryptor d = None"
    "erasureCoder d = None" "policyChecker d = None"
    using d(1) by (simp_all add: bare_def plain_download_def)
  have stamp: "stamp_shards e name shards (start d w) = (map (stamp e) shards, start d w)"
    using ok by (intro stamp_shards_named) (auto simp: placed_ok_def)
  have mem: "has_key (backends d) (sh_Backend sh) \<and> sh_Backend sh \<noteq> '''' \<and>
      sh_Checksum sh = sha256Hex e (sh_Data sh)" if "sh \<in> set final" for sh
    using that ok d(2) by (auto simp: final_def stamp_def placed_ok_def)
  have same: "map sh_Data final = map sh_Data shards" "map sh_Data (map (stamp e) shards) = map sh_Data shards"
    "map sh_ID final = map sh_ID shards" "map sh_Index final = map sh_Index shards"
    by (simp_all add: final_def stamp_def o_def)
  obtain s1 where s1: "write_shards e final [] (start d w) = Returned (Inr final) s1" "st s1 = d"
    "view (world s1) = foldl store (view w) final"
    using write_shards_reliable[of view "start d w" e final "[]"] mem env by auto
  let ?m = "upload_manifest e name final (map (stamp e) shards) opts"
  let ?s = "set_manifest name ?m s1"
  have up: "Upload e name data opts (start d w) = Returned (Inr ()) ?s"
  proof -
    have "persistShardsWithCtx e name shards opts (start d w) = Returned (Inr ()) ?s"
      using stamp encrypt_shards_off[of "start d w" e name "map (stamp e) shards"] s1 plain
      by (simp add: persistShardsWithCtx_def persist_manifest_def final_def o_def)
    then show ?thesis using pp placed env(3) plain
      by (simp add: Upload_def UploadStream_def policy_error_def spooled_def spool_def)
  qed
  have found: "List.map_filter (avail e (st ?s) (foldl store (view w) final)) (map shard_info final) = final"
    using mem ok s1(2) same by (intro all_available) (simp_all add: placed_ok_def)
  have index: "sorted_wrt (<) (map sh_Index final)"
    using ok same(4) by (simp add: placed_ok_def sorted_wrt_map sorted_wrt_upt)
  have "fst (Download e order name (start (st ?s) (world ?s))) =
      (if fm_MerkleRoot ?m \<noteq> '''' \<and> computeMerkleRoot e final \<noteq> fm_MerkleRoot ?m
       then Inl (EMerkle (computeMerkleRoot e final) (fm_MerkleRoot ?m))
       else Inr (concat (map sh_Data final)))"
    using env s1 plain found order index
    by (intro Download_ordered[of view])
      (simp_all add: upload_manifest_def final_def)
  moreover have "computeMerkleRoot e final = fm_MerkleRoot ?m"
    using computeMerkleRoot_data[of final "map (stamp e) shards" e] same
    by (simp add: upload_manifest_def)
  ultimately show ?thesis using up same(1) by simp
qed

end

end
