(* ===== verification/StorageProps.thy ===== *)
theory StorageProps
  imports StorageUploads
begin

text \<open>
  The properties of the distributed storage, and small backends on which they are applied.
\<close>

section \<open>Backends for the witnesses\<close>

text \<open>A world that is what the backends keep; a backend of a given name on it.\<close>

type_synonym shelf = "string \<Rightarrow> string \<Rightarrow> Shard option"

definition mem_backend :: "string \<Rightarrow> shelf StorageBackend" where
  "mem_backend n =
     \<lparr>PutShard = (\<lambda>sh v. (Some None, store v sh)),
      GetShard = (\<lambda>i v. (Some (case v n i of Some sh \<Rightarrow> Inr sh | None \<Rightarrow> Inl (EExternal ''absent'')), v)),
      DeleteShard = (\<lambda>i v. (None, v(n := (v n)(i := None)))),
      PutShardCtx = None, GetShardCtx = None\<rparr>"

lemma mem_put [simp]: "put_once (mem_backend n) sh v = (None, store v sh)"
  by (simp add: put_once_def mem_backend_def)

lemma mem_get [simp]:
  "get_once (mem_backend n) i v =
     (Some (case v n i of Some sh \<Rightarrow> Inr sh | None \<Rightarrow> Inl (EExternal ''absent'')), v)"
  by (simp add: get_once_def mem_backend_def)

lemma mem_reliable: "reliable (\<lambda>v. v) (map (\<lambda>n. (n, mem_backend n)) ns)"
proof -
  have "get (map (\<lambda>n. (n, mem_backend n)) ns) n = Some be \<Longrightarrow> be = mem_backend n" for n be ns
    by (induction ns) (simp_all split: if_splits)
  then have only: "get (map (\<lambda>n. (n, mem_backend n)) ns) n = Some be \<Longrightarrow> be = mem_backend n" for n be .
  show ?thesis unfolding reliable_def
  proof (intro allI impI)
    fix n be assume "get (map (\<lambda>n. (n, mem_backend n)) ns) n = Some be"
    then have "be = mem_backend n" by (rule only)
    then show "(\<forall>w sh. sh_Backend sh = n \<longrightarrow>
          fst (put_once be sh w) = None \<and> snd (put_once be sh w) = store w sh) \<and>
       (\<forall>w i. snd (get_once be i w) = w \<and>
          (case w n i of
             Some sh \<Rightarrow> fst (get_once be i w) = Some (Inr sh)
           | None \<Rightarrow> (\<exists>er. fst (get_once be i w) = Some (Inl er))))"
      by (simp split: option.split)
  qed
qed

definition shelf_env :: env where
  "shelf_env = \<lparr>sha256 = (\<lambda>b. 1 # b), draws = (\<lambda>n. (n, n)), cancelled = (\<lambda>n. False), clock = 5,
     time_String = (\<lambda>t. ''now''), tmp_error = None\<rparr>"

definition shelf_storage :: "string list \<Rightarrow> shelf DistributedStorage" where
  "shelf_storage ns =
     foldl (\<lambda>d n. RegisterBackend n (mem_backend n) d) NewDistributedStorage ns"

lemma shelf_env_simps [simp]:
  "never_cancelled shelf_env" "inj (draws shelf_env)" "sha256 shelf_env b = 1 # b"
  "tmp_error shelf_env = None" "\<not> cancelled shelf_env n"
  by (simp_all add: shelf_env_def never_cancelled_def inj_def)

lemma shelf_storage_one [simp]:
  "backends (shelf_storage [a]) = [(a, mem_backend a)]" "bare (shelf_storage [a])"
  "placementPlugin (shelf_storage [a]) = None"
  by (simp_all add: shelf_storage_def RegisterBackend_def NewDistributedStorage_def bare_def
      plain_download_def)

lemma shelf_storage_two [simp]:
  "a \<noteq> b \<Longrightarrow> backends (shelf_storage [a, b]) = [(a, mem_backend a), (b, mem_backend b)]"
  "bare (shelf_storage [a, b])" "placementPlugin (shelf_storage [a, b]) = None"
  by (simp_all add: shelf_storage_def RegisterBackend_def NewDistributedStorage_def bare_def
      plain_download_def)

lemma bare_placement [simp]:
  "bare (SetPlacementPlugin pp d) = bare d" "backends (SetPlacementPlugin pp d) = backends d"
  "placementPlugin (SetPlacementPlugin pp d) = pp"
  by (simp_all add: SetPlacementPlugin_def bare_def plain_download_def)

section \<open>Round trips, and the copies that break them\<close>

text \<open>
  C9: On reliable backends and without hooks (no encryptor, erasure coder, placement or repair plugin, policy
  checker or manifest store) and with one replica per chunk, an uploaded file reads back byte for byte, whatever the
  chunk size and whatever order the goroutines of the download run in. The context must not be done and the
  IDs that makeShardID draws must differ.
\<close>

theorem chunked_upload_reads_back:
  assumes "reliable view (backends d)" and "never_cancelled e" and "inj (draws e)"
    and "bare d" and "placementPlugin d = None" and "backends d \<noteq> []" and "replicas d opts = 1"
    and "mset order = mset [0..<length (chunks (chunk_bytes opts) data)]"
  shows "\<exists>s'. Upload e name data opts (start d w) = Returned (Inr ()) s' \<and>
    fst (Download e order name (start (st s') (world s'))) = Inr data"
  using stream_download[OF assms(1-6,8), of name w] assms(7)
  by (auto simp: stream_of_def Let_def first_shards_1[simplified])

theorem chunked_upload_reads_back_witness:
  "\<exists>s'. Upload shelf_env ''f'' [1, 2, 3, 4, 5] [(''chunk_size'', AInt 2)]
      (start (shelf_storage [''a'']) (\<lambda>n i. None)) = Returned (Inr ()) s' \<and>
    fst (Download shelf_env [2, 0, 1] ''f'' (start (st s') (world s'))) = Inr [1, 2, 3, 4, 5]"
proof (rule chunked_upload_reads_back[of "\<lambda>v. v"])
  show "reliable (\<lambda>v. v) (backends (shelf_storage [''a'']))"
    using mem_reliable[of "[''a'']"] by simp
  show "replicas (shelf_storage [''a'']) [(''chunk_size'', AInt 2)] = 1"
    by (simp add: replicas_def opt_above_def opt_int_def)
  have "chunk_bytes [(''chunk_size'', AInt 2)] = 2"
    by (simp add: chunk_bytes_def opt_above_def opt_int_def)
  then show "mset [2, 0, 1] = mset [0..<length (chunks (chunk_bytes [(''chunk_size'', AInt 2)]) [1, 2, 3, 4, 5])]"
    by (simp add: chunks.simps upt_conv_Cons)
qed simp_all

text \<open>
  C22: By default a chunk goes to every backend and the Merkle root is taken over all replicas,
  while a download reads one replica of each chunk. So, without hooks, a file of one chunk (64 MB by default)
  that was uploaded to two or more reliable backends is refused by every download, with a Merkle mismatch, unless
  its hash lies on a cycle of hashing with itself.
\<close>

theorem replicated_upload_is_unreadable:
  assumes "reliable view (backends d)" and "never_cancelled e" and "inj (draws e)"
    and "bare d" and "placementPlugin d = None" and "replicas d opts > 1" and "backends d \<noteq> []"
    and "data \<noteq> []" and "length data \<le> chunk_bytes opts"
    and "\<And>b. sha256 e b \<noteq> []" and "\<And>k. 0 < k \<Longrightarrow> (twice e ^^ k) (sha256 e data) \<noteq> sha256 e data"
  shows "\<exists>s' r r'. Upload e name data opts (start d w) = Returned (Inr ()) s' \<and>
    fst (Download e [0] name (start (st s') (world s'))) = Inl (EMerkle r r')"
proof -
  have cs: "chunks (chunk_bytes opts) data = [data]" using assms(8,9) by (rule chunks_single)
  let ?fst = "first_shards e name (sort (map fst (backends d))) (replicas d opts) [data] 0 0"
  have "length (stream_of e name data opts d) = replicas d opts"
    "\<And>sh. sh \<in> set (stream_of e name data opts d) \<Longrightarrow> sh_Data sh = data"
    by (auto simp: stream_of_def cs)
  then obtain k where k: "0 < k" "computeMerkleRoot e (stream_of e name data opts d) =
      hex_EncodeToString ((twice e ^^ k) (sha256 e data))"
    using root_of_copies[OF assms(6)] by blast
  then obtain j where "k = Suc j" by (cases k) auto
  then have "(twice e ^^ k) (sha256 e data) \<noteq> []" using assms(10) by (simp add: twice_def)
  moreover have "hex_EncodeToString b \<noteq> ''''" if "b \<noteq> []" for b
    using that hex_inj[of b "[]"] by (simp add: hex_EncodeToString_def[of "[]"])
  moreover have "computeMerkleRoot e ?fst = hex_EncodeToString (sha256 e data)"
    by (simp add: computeMerkleRoot_def merkle_up.simps)
  ultimately show ?thesis
    using stream_download[OF assms(1-5,7), of "[0]" opts data name w] k assms(11)[of k]
    by (auto simp: Let_def cs hex_inj)
qed

lemma length_twice: "length ((twice shelf_env ^^ k) h) \<ge> length h + k"
  by (induction k) (simp_all add: twice_def)

theorem replicated_upload_is_unreadable_witness:
  "\<exists>s' r r'. Upload shelf_env ''f'' [7] [] (start (shelf_storage [''a'', ''b'']) (\<lambda>n i. None)) =
      Returned (Inr ()) s' \<and>
    fst (Download shelf_env [0] ''f'' (start (st s') (world s'))) = Inl (EMerkle r r')"
proof (rule replicated_upload_is_unreadable[of "\<lambda>v. v"])
  show "reliable (\<lambda>v. v) (backends (shelf_storage [''a'', ''b'']))"
    using mem_reliable[of "[''a'', ''b'']"] by simp
  show "1 < replicas (shelf_storage [''a'', ''b'']) []"
    by (simp add: replicas_def opt_above_def opt_int_def)
  show "length [7] \<le> chunk_bytes []" by (simp add: Suc_le_eq)
  show "(twice shelf_env ^^ k) (sha256 shelf_env [7]) \<noteq> sha256 shelf_env [7]" if "0 < k" for k
  proof
    assume "(twice shelf_env ^^ k) (sha256 shelf_env [7]) = sha256 shelf_env [7]"
    then show False using length_twice[of "sha256 shelf_env [7]" k] that by simp
  qed
qed simp_all

lemma Replication_spooled: "Replication_PlaceShardsStream = spooled Replication_PlaceShards"
  by (intro ext) (simp add: Replication_PlaceShardsStream_def spooled_def)

lemma XOR_spooled: "XOR_PlaceShardsStream = spooled XOR_PlaceShards"
  by (intro ext) (simp add: XOR_PlaceShardsStream_def spooled_def)

text \<open>
  With the built-in replication placement a download returns the file once for each replica:
  every replica has an index of its own, and the shards of all indices are joined.
\<close>

theorem replication_returns_every_copy:
  assumes "placementPlugin d = Some (SimpleReplicationPlacement e)" and "backends d \<noteq> []"
    and "reliable view (backends d)" and "never_cancelled e" and "tmp_error e = None"
    and "bare d" and "\<not> has_key (backends d) ''''"
    and "mset order = mset [0..<nat (opt_above 0 1 opts ''replicas'')]"
  shows "\<exists>s'. Upload e name data opts (start d w) = Returned (Inr ()) s' \<and>
    fst (Download e order name (start (st s') (world s'))) =
      Inr (concat (replicate (nat (opt_above 0 1 opts ''replicas'')) data))"
proof -
  let ?shards = "map (rep_shard e data (sort (map fst (backends d)))) [0..<nat (opt_above 0 1 opts ''replicas'')]"
  have "Replication_PlaceShards e data (backends d) opts w = Returned (Inr ?shards) w"
    using assms(2) by (simp add: Replication_PlaceShards_def Let_def)
  moreover have "map sh_Data ?shards = replicate (nat (opt_above 0 1 opts ''replicas'')) data"
    by (simp add: rep_shard_def o_def map_replicate_const)
  ultimately show ?thesis
    using replication.upload_download[of d "SimpleReplicationPlacement e" e data opts w ?shards view order name]
      assms by (simp add: SimpleReplicationPlacement_def Replication_spooled)
qed

theorem replication_returns_every_copy_witness:
  "\<exists>s'. Upload shelf_env ''f'' [7, 8] [(''replicas'', AInt 2)]
      (start (SetPlacementPlugin (Some (SimpleReplicationPlacement shelf_env)) (shelf_storage [''a'']))
        (\<lambda>n i. None)) = Returned (Inr ()) s' \<and>
    fst (Download shelf_env [1, 0] ''f'' (start (st s') (world s'))) = Inr [7, 8, 7, 8]"
  using replication_returns_every_copy[of
      "SetPlacementPlugin (Some (SimpleReplicationPlacement shelf_env)) (shelf_storage [''a''])"
      shelf_env "\<lambda>v. v" "[1, 0]" "[(''replicas'', AInt 2)]" "''f''" "[7, 8]" "\<lambda>n i. None"]
    mem_reliable[of "[''a'']"]
  by (simp add: has_key_def opt_above_def opt_int_def numeral_2_eq_2)

text \<open>
  With the built-in parity placement a download returns the file followed by its parity: the
  parity shard has the highest index and is joined like the others.
\<close>

theorem parity_is_returned_with_the_file:
  assumes "placementPlugin d = Some (SimpleXORParityPlacement e)" and "backends d \<noteq> []"
    and "(data_shards opts - 1) * chunk_size data opts \<le> length data"
    and "reliable view (backends d)" and "never_cancelled e" and "tmp_error e = None"
    and "bare d" and "\<not> has_key (backends d) ''''"
    and "mset order = mset [0..<Suc (data_shards opts)]"
  shows "\<exists>s'. Upload e name data opts (start d w) = Returned (Inr ()) s' \<and>
    fst (Download e order name (start (st s') (world s'))) = Inr (data @ xor_parity data opts)"
proof -
  have "XOR_PlaceShards e data (backends d) opts w \<noteq> Panicked w"
    using XOR_panics_iff[OF assms(2), of e data opts w] assms(3) by simp
  then obtain shards where placed: "XOR_PlaceShards e data (backends d) opts w = Returned (Inr shards) w"
    using assms(2) by (auto simp: XOR_PlaceShards_def Let_def split: option.splits prod.splits)
  have sh: "shards = map (\<lambda>i. xor_shard e (xor_parts data opts ! i) (sort (map fst (backends d))) i)
      [0..<data_shards opts] @
      [parity_shard e (xor_parity data opts) (sort (map fst (backends d))) (data_shards opts)]"
    using XOR_returns[OF placed] by blast
  have "map sh_Data shards = map ((!) (xor_parts data opts)) [0..<length (xor_parts data opts)] @
      [xor_parity data opts]"
    by (simp add: sh xor_shard_def parity_shard_def o_def)
  then have "map sh_Data shards = xor_parts data opts @ [xor_parity data opts]"
    by (simp only: map_nth)
  then have "concat (map sh_Data shards) = data @ xor_parity data opts"
    using concat_xor_parts[OF assms(3)] by simp
  moreover have "length shards = Suc (data_shards opts)" by (simp add: sh)
  ultimately show ?thesis
    using xor.upload_download[OF _ _ placed, of "SimpleXORParityPlacement e" view order name] assms
    by (simp add: SimpleXORParityPlacement_def XOR_spooled)
qed

theorem parity_is_returned_with_the_file_witness:
  "\<exists>s'. Upload shelf_env ''f'' [1, 2, 3] []
      (start (SetPlacementPlugin (Some (SimpleXORParityPlacement shelf_env)) (shelf_storage [''a'']))
        (\<lambda>n i. None)) = Returned (Inr ()) s' \<and>
    fst (Download shelf_env [0, 1, 2] ''f'' (start (st s') (world s'))) = Inr [1, 2, 3, 2, 2]"
proof -
  have opts: "data_shards [] = 2" "chunk_size [1, 2, 3] [] = 2"
    by (simp_all add: data_shards_def chunk_size_def opt_above_def opt_int_def)
  have parts: "xor_parts [1, 2, 3] [] = [[1, 2], [3]]"
    by (simp add: xor_parts_def opts xor_part_def upt_conv_Cons)
  have "xor_parity [1, 2, 3] [] = [2, 2]"
    by (simp add: xor_parity_def parts xor_into_def)
  then show ?thesis
    using parity_is_returned_with_the_file[of
        "SetPlacementPlugin (Some (SimpleXORParityPlacement shelf_env)) (shelf_storage [''a''])"
        shelf_env "[]" "[1, 2, 3]" "\<lambda>v. v" "[0, 1, 2]" "''f''" "\<lambda>n i. None"]
      mem_reliable[of "[''a'']"] opts
    by (simp add: has_key_def upt_conv_Cons)
qed

section \<open>Placements\<close>

text \<open>
  C24: Whatever a built-in placement returns is well formed: at least one shard, the indices 0, 1, 2
  and so on, pairwise distinct non-empty IDs, registered backends, and checksums of the data; it
  leaves everything else alone.
\<close>

theorem placements_are_well_formed:
  assumes "place \<in> {Replication_PlaceShards, XOR_PlaceShards}"
    and "place e data bes opts w = Returned (Inr shards) w'"
  shows "w' = w \<and> placed_ok e bes shards"
  using assms replication.place_some[of e data bes opts w shards w']
    xor.place_some[of e data bes opts w shards w'] by auto

theorem placements_are_well_formed_witness:
  "placed_ok shelf_env [(''a'', mem_backend ''a'')]
     [rep_shard shelf_env [7] [''a''] 0, rep_shard shelf_env [7] [''a''] 1]"
proof -
  let ?shards = "[rep_shard shelf_env [7] [''a''] 0, rep_shard shelf_env [7] [''a''] 1]"
  have two: "nat (opt_above 0 1 [(''replicas'', AInt 2)] ''replicas'') = Suc (Suc 0)"
    by (simp add: opt_above_def opt_int_def)
  have "Replication_PlaceShards shelf_env [7] [(''a'', mem_backend ''a'')] [(''replicas'', AInt 2)]
      (\<lambda>n i. None) = Returned (Inr ?shards) (\<lambda>n i. None)"
    unfolding Replication_PlaceShards_def two by (simp add: Let_def)
  then show ?thesis
    by (rule placements_are_well_formed[of Replication_PlaceShards, THEN conjunct2, rotated]) simp
qed

text \<open>
  C23: The parity placement cuts the file into data shards that join to it, and any one of them is
  the beginning of the xor of the parity with all others.
\<close>

theorem parity_recovers_any_data_shard:
  assumes "XOR_PlaceShards e data bes opts w = Returned (Inr shards) w'"
    and "i < data_shards opts"
  shows "let parts = map sh_Data (butlast shards); parity = sh_Data (last shards) in
    concat parts = data \<and> length parts = data_shards opts \<and>
    take (length (parts ! i)) (foldl xor_into parity (take i parts @ drop (Suc i) parts)) = parts ! i"
proof -
  have ret: "bes \<noteq> []" "shards =
      map (\<lambda>i. xor_shard e (xor_parts data opts ! i) (sort (map fst bes)) i) [0..<data_shards opts] @
      [parity_shard e (xor_parity data opts) (sort (map fst bes)) (data_shards opts)]" "w' = w"
    using XOR_returns[OF assms(1)] by auto
  have "map sh_Data (butlast shards) = map ((!) (xor_parts data opts)) [0..<length (xor_parts data opts)]"
    by (simp add: ret(2) xor_shard_def o_def)
  then have parts: "map sh_Data (butlast shards) = xor_parts data opts" by (simp only: map_nth)
  have parity: "sh_Data (last shards) = xor_parity data opts"
    by (simp add: ret(2) parity_shard_def)
  have "XOR_PlaceShards e data bes opts w \<noteq> Panicked w" using assms(1) by simp
  then have "concat (xor_parts data opts) = data"
    using XOR_panics_iff[OF ret(1)] by (intro concat_xor_parts) (meson not_less)
  then show ?thesis
    using parity_recovers[of i "xor_parts data opts" "xor_parity data opts"] assms(2)
    by (simp add: parts parity xor_parity_def)
qed

theorem parity_recovers_any_data_shard_witness:
  "let parts = [[1, 2], [3 :: byte]]; parity = [2, 2] in
    concat parts = [1, 2, 3] \<and> length parts = data_shards [] \<and>
    take (length (parts ! 1)) (foldl xor_into parity (take 1 parts @ drop (Suc 1) parts)) = parts ! 1"
proof -
  let ?bes = "[(''a'', mem_backend ''a'')]"
  have "XOR_PlaceShards shelf_env [1, 2, 3] ?bes [] (\<lambda>n i. None) =
      Returned (Inr [xor_shard shelf_env [1, 2] [''a''] 0, xor_shard shelf_env [3] [''a''] 1,
        parity_shard shelf_env [2, 2] [''a''] 2]) (\<lambda>n i. None)"
    by (simp add: XOR_PlaceShards_def opt_above_def opt_int_def xor_part_def xor_into_def
        upt_conv_Cons Let_def)
  from parity_recovers_any_data_shard[OF this, of 1] show ?thesis
    by (simp add: Let_def xor_shard_def parity_shard_def data_shards_def opt_above_def opt_int_def)
qed

text \<open>
  The parity placement panics exactly when the last chunk would start past the end of the file,
  as for 5 bytes in 4 chunks of 2; with the default of two data shards it never does.
\<close>

theorem parity_placement_panics_iff:
  assumes "bes \<noteq> []"
  shows "(XOR_PlaceShards e data bes opts w = Panicked w \<longleftrightarrow>
      length data < (data_shards opts - 1) * chunk_size data opts) \<and>
    (data_shards opts = 2 \<longrightarrow> XOR_PlaceShards e data bes opts w \<noteq> Panicked w)"
  using XOR_panics_iff[OF assms, of e data opts w] by (auto simp: chunk_size_def)

theorem parity_placement_panics_iff_witness:
  "XOR_PlaceShards shelf_env [1, 2, 3, 4, 5] [(''a'', mem_backend ''a'')]
     [(''data_shards'', AInt 4)] (\<lambda>n i. None) = Panicked (\<lambda>n i. None)"
  by (subst parity_placement_panics_iff[THEN conjunct1])
    (simp_all add: data_shards_def chunk_size_def opt_above_def opt_int_def)

section \<open>What a download accepts\<close>

definition matches :: "env \<Rightarrow> ShardInfo list \<Rightarrow> Shard list \<Rightarrow> bool" where
  "matches e sis shs \<longleftrightarrow> (\<forall>sh \<in> set shs. \<exists>si \<in> set sis.
     sha256Hex e (sh_Data sh) = si_Checksum si \<and> sh_Index sh = si_Index si)"

lemma fetch_all_matches:
  assumes "\<And>si s sh s1. f si s = (Found sh, s1) \<Longrightarrow>
    sha256Hex e (sh_Data sh) = si_Checksum si \<and> sh_Index sh = si_Index si"
  shows "matches e sis (found_of (fst (fetch_all f sis s)))"
proof (induction sis arbitrary: s)
  case Nil
  then show ?case by (simp add: matches_def found_of_def List.map_filter_simps)
next
  case (Cons si sis)
  obtain x s1 where x: "f si s = (x, s1)" by fastforce
  obtain xs s2 where xs: "fetch_all f sis s1 = (xs, s2)" by fastforce
  have "matches e sis (found_of xs)" using Cons[of s1] xs by simp
  moreover have "x = Found sh \<Longrightarrow>
      sha256Hex e (sh_Data sh) = si_Checksum si \<and> sh_Index sh = si_Index si" for sh
    using assms[of si s sh s1] x by simp
  ultimately show ?case using x xs
    by (cases x) (auto simp: matches_def found_of_def List.map_filter_simps)
qed

lemma fetch_shard_Found:
  "fetch_shard e si s = (Found sh, s1) \<Longrightarrow> sha256Hex e (sh_Data sh) = si_Checksum si \<and> sh_Index sh = si_Index si"
  by (auto simp: fetch_shard_def checked_def split: prod.splits sum.splits if_splits)

lemma fetch_goroutine_Found:
  "fetch_goroutine e si s = (Found sh, s1) \<Longrightarrow>
    sha256Hex e (sh_Data sh) = si_Checksum si \<and> sh_Index sh = si_Index si"
  using fetch_shard_Found[of e si _ sh s1] by (auto simp: fetch_goroutine_def split: prod.splits if_splits)

lemma matches_append: "matches e as shs \<or> matches e bs shs \<Longrightarrow> matches e (as @ bs) shs"
  by (auto simp: matches_def)

lemma fetch_all_st: "st (snd (fetch_all (fetch_goroutine e) sis s)) = st s"
proof (induction sis arbitrary: s)
  case (Cons si sis)
  have "st (snd (fetch_goroutine e si s)) = st s"
    by (auto simp: fetch_goroutine_def fetch_shard_def getShardBackendDirect_def poll_def on_world_def
        Let_def split: option.splits sum.splits prod.splits)
  then show ?case using Cons by (simp split: prod.split) (metis snd_conv)
qed simp

text \<open>After a repair the shards match the old manifest, or the new one when all of it could be read.\<close>

lemma repair_matches:
  assumes "repair_and_retry e name m found s = (m', found', s')" and "matches e (fm_Shards m) found"
  shows "matches e (fm_Shards m @ fm_Shards m') found' \<and> (repairPlugin (st s) = None \<longrightarrow> m' = m)"
proof (cases "repairPlugin (st s)")
  case None
  then show ?thesis using assms by (auto simp: repair_and_retry_def intro: matches_append)
next
  case (Some rp)
  obtain r m1 w where rp: "rp m (backends (st s)) (world s) = (r, m1, w)" by (metis prod_cases3)
  show ?thesis
  proof (cases r)
    case (Some er)
    then show ?thesis using assms rp \<open>repairPlugin (st s) = Some rp\<close>
      by (auto simp: repair_and_retry_def Let_def intro: matches_append)
  next
    case None
    obtain m2 s2 where m2: "reload name m1 (s\<lparr>world := w\<rparr>) = (m2, s2)" by fastforce
    obtain xs s3 where xs: "fetch_all (fetch_shard e) (fm_Shards m2) s2 = (xs, s3)" by fastforce
    have "matches e (fm_Shards m2) (found_of (fst (fetch_all (fetch_shard e) (fm_Shards m2) s2)))"
      by (rule fetch_all_matches) (rule fetch_shard_Found)
    then have "matches e (fm_Shards m2) (found_of xs)" using xs by simp
    then show ?thesis using assms rp m2 xs None \<open>repairPlugin (st s) = Some rp\<close>
      by (auto simp: repair_and_retry_def Let_def intro: matches_append)
  qed
qed

text \<open>
  C21: Bytes that a download returns come from checked shards, however the backends, the hooks and the context
  behave: from shards each of which has the checksum and the index of an entry of the manifest, or of the
  manifest that a repair plugin has left. Either they are the contents of these shards in the order of their
  indices, and the Merkle root over them is the manifest's, if it has one; or they are what the erasure coder, if
  there is one, reconstructs from these shards, which is not checked again.
\<close>

theorem download_returns_verified_shards:
  assumes "fst (Download e order name s) = Inr data"
    and "get (manifests (st s)) name = Some m" and "set order \<subseteq> {..<length (fm_Shards m)}"
  shows "\<exists>m' shs. (repairPlugin (st s) = None \<longrightarrow> m' = m) \<and> matches e (fm_Shards m @ fm_Shards m') shs \<and>
    (data = concat (map sh_Data shs) \<and> sorted (map sh_Index shs) \<and>
       (fm_MerkleRoot m' = '''' \<or> computeMerkleRoot e shs = fm_MerkleRoot m')
     \<or> reconstruct (st s) m' shs = Some data)"
proof -
  let ?sis = "map ((!) (fm_Shards m)) order"
  let ?s = "s\<lparr>polls := polls s + 1\<rparr>"
  let ?sort = "sort_slice (\<lambda>a b. sh_Index a < sh_Index b)"
  obtain xs s1 where xs: "fetch_all (fetch_goroutine e) ?sis ?s = (xs, s1)" by fastforce
  have st1: "st s1 = st s" using fetch_all_st[of e ?sis ?s] xs by simp
  obtain m' shs s2 where m': "(if missing_of xs = [] then (m, found_of xs, s1)
      else repair_and_retry e name m (found_of xs) s1) = (m', shs, s2)" by (metis prod_cases3)
  have "matches e ?sis (found_of (fst (fetch_all (fetch_goroutine e) ?sis ?s)))"
    by (rule fetch_all_matches) (rule fetch_goroutine_Found)
  then have "matches e ?sis (found_of xs)" using xs by simp
  then have "matches e (fm_Shards m) (found_of xs)"
    using assms(3) unfolding matches_def by (fastforce simp: subset_iff)
  then have ok: "matches e (fm_Shards m @ fm_Shards m') shs" "repairPlugin (st s) = None \<longrightarrow> m' = m"
    using m' repair_matches[of e name m "found_of xs" s1 m' shs s2] st1
    by (auto split: if_splits intro: matches_append)
  have go: "\<not> cancelled e (polls s)"
    using assms(1) by (cases "cancelled e (polls s)") (simp_all add: Download_def poll_def)
  have allowed: "policy_error (st s) ''download'' (Some m) [(''filename'', AStr name)] = None"
    using assms(1,2) go
    by (cases "policy_error (st s) ''download'' (Some m) [(''filename'', AStr name)]")
      (simp_all add: Download_def poll_def)
  have "fst (Download e order name s) =
      (case reconstruct (st s) m' shs of Some data \<Rightarrow> Inr data | None \<Rightarrow> concat_shards e m' shs)"
    using go allowed assms(2) xs by (simp add: Download_def poll_def m' split: option.split)
  then have "reconstruct (st s) m' shs = Some data \<or> concat_shards e m' shs = Inr data"
    using assms(1) by (cases "reconstruct (st s) m' shs") simp_all
  note answer = this
  have joined: "data = concat (map sh_Data (?sort shs)) \<and>
      (fm_MerkleRoot m' = '''' \<or> computeMerkleRoot e (?sort shs) = fm_MerkleRoot m')"
    if "concat_shards e m' shs = Inr data"
    using that unfolding concat_shards_def Let_def by (simp split: if_splits)
  show ?thesis
  proof (cases "reconstruct (st s) m' shs = Some data")
    case True
    show ?thesis by (rule exI[of _ m'], rule exI[of _ shs]) (use ok True in simp)
  next
    case False
    then have "matches e (fm_Shards m @ fm_Shards m') (?sort shs)" "sorted (map sh_Index (?sort shs))"
      using ok(1) by_index.sorted_sort_slice by (simp_all add: matches_def)
    then show ?thesis using ok(2) joined answer False
      by (intro exI[of _ m'] exI[of _ "?sort shs"]) simp
  qed
qed

theorem download_returns_verified_shards_witness:
  "\<exists>shs. [7, 8] = concat (map sh_Data shs) \<and> sorted (map sh_Index shs) \<and>
    matches shelf_env [shard_info (replica shelf_env ''f'' [''a''] [7, 8] 0 0 0)] shs \<and>
    computeMerkleRoot shelf_env shs = computeMerkleRoot shelf_env [replica shelf_env ''f'' [''a''] [7, 8] 0 0 0]"
proof -
  let ?r = "replica shelf_env ''f'' [''a''] [7, 8] 0 0 0"
  let ?m = "stream_manifest shelf_env ''f'' [?r] 1 []"
  let ?d = "(shelf_storage [''a''])\<lparr>manifests := [(''f'', ?m)]\<rparr>"
  let ?s = "start ?d (store (\<lambda>n i. None) ?r)"
  have plain: "plain_download ?d" "backends ?d = [(''a'', mem_backend ''a'')]"
    by (simp_all add: shelf_storage_def RegisterBackend_def NewDistributedStorage_def plain_download_def)
  have m: "fm_Shards ?m = [shard_info ?r]" "fm_MerkleRoot ?m = computeMerkleRoot shelf_env [?r]"
    by (simp_all add: stream_manifest_def)
  have reg: "reliable (\<lambda>v. v) (backends (st ?s))"
    using mem_reliable[of "[''a'']"] plain by simp
  have "avail shelf_env ?d (store (\<lambda>n i. None) ?r) (shard_info ?r) = Some ?r"
  proof (rule avail_info)
    show "has_key (backends ?d) (sh_Backend ?r)"
      unfolding plain(2) by (simp add: has_key_def replica_def)
  qed (rule store_same, simp)
  then have "fst (Download shelf_env [0] ''f'' ?s) = Inr [7, 8]"
    using Download_reliable[OF reg, of shelf_env "''f''" ?m "[0]"] plain(1) m
    by (simp add: List.map_filter_simps concat_shards_def sort_slice_def)
  moreover have "repairPlugin (st ?s) = None" "reconstruct (st ?s) m' shs = None" for m' shs
    using plain(1) by (simp_all add: plain_download_def reconstruct_def)
  ultimately
  have "\<exists>shs. [7, 8] = concat (map sh_Data shs) \<and> sorted (map sh_Index shs) \<and>
      matches shelf_env [shard_info ?r] shs \<and>
      (fm_MerkleRoot ?m = '''' \<or> computeMerkleRoot shelf_env shs = computeMerkleRoot shelf_env [?r])"
    using download_returns_verified_shards[of shelf_env "[0]" "''f''" ?s "[7, 8]" ?m] m by (auto simp: matches_def)
  moreover have "fm_MerkleRoot ?m \<noteq> ''''"
    unfolding m(2) by (simp add: computeMerkleRoot_def merkle_up.simps hex_EncodeToString_def)
  ultimately show ?thesis by blast
qed

lemma sorted_int_upt: "sorted_wrt (<) (map int [a..<b])"
  by (simp add: sorted_wrt_map sorted_wrt_upt)

lemma list_end_two:
  assumes "length xs = n + 2"
  obtains ys x y where "xs = ys @ [x, y]" and "length ys = n"
proof -
  have "xs = take n xs @ [xs ! n, xs ! Suc n]"
    using assms by (intro nth_equalityI) (auto simp: nth_append nth_Cons' less_Suc_eq)
  then show thesis using assms by (intro that[of "take n xs" "xs ! n" "xs ! Suc n"]) auto
qed

definition lost :: "(string \<Rightarrow> string \<Rightarrow> Shard option) \<Rightarrow> ShardInfo \<Rightarrow> string \<Rightarrow> string \<Rightarrow> Shard option" where
  "lost v si = v(si_Backend si := (v (si_Backend si))(si_ID si := None))"

lemma map_filter_append: "List.map_filter f (xs @ ys) = List.map_filter f xs @ List.map_filter f ys"
  by (simp add: List.map_filter_def)

lemma available_but_last:
  assumes "distinct (map sh_ID (shs @ [x]))"
    and "\<And>sh. sh \<in> set shs \<Longrightarrow> has_key (backends d) (sh_Backend sh) \<and>
      sh_Checksum sh = sha256Hex e (sh_Data sh)"
  shows "List.map_filter (avail e d (lost (foldl store v (shs @ [x])) (shard_info x)))
    (map shard_info (shs @ [x])) = shs"
proof -
  let ?v = "lost (foldl store v (shs @ [x])) (shard_info x)"
  have "avail e d ?v (shard_info sh) = Some sh" if sh: "sh \<in> set shs" for sh
  proof (rule avail_info)
    have "sh_ID x \<notin> sh_ID ` set shs" using assms(1) by simp
    then have "sh_ID sh \<noteq> sh_ID x" using sh by (metis imageI)
    then show "?v (sh_Backend sh) (sh_ID sh) = Some sh"
      using foldl_store_mem[of "shs @ [x]" sh v] assms(1) sh
      by (cases "sh_Backend sh = sh_Backend x") (simp_all add: lost_def shard_info_def)
  qed (use assms(2)[OF sh] in simp_all)
  then have "List.map_filter (avail e d ?v) (map shard_info shs) = shs"
    by (rule map_filter_Some)
  moreover have "avail e d ?v (shard_info x) = None"
    by (simp add: avail_def lost_def shard_info_def)
  ultimately show ?thesis by (simp add: map_filter_append List.map_filter_simps)
qed

text \<open>
  The Merkle tree completes an odd level with its last hash, so a file whose last two of an even
  number of chunks are equal has the same root as the file without its last chunk: when the last
  shard is lost, the download returns the shorter file without an error, although a shard of the
  manifest is missing.
\<close>

theorem lost_duplicate_tail_goes_unnoticed:
  assumes "reliable view (backends d)" and "never_cancelled e" and "inj (draws e)"
    and "bare d" and "placementPlugin d = None" and "backends d \<noteq> []" and "replicas d opts = 1"
    and "chunks (chunk_bytes opts) data = cs @ [c, c]" and "cs \<noteq> []" and "even (length cs)"
    and "mset order = mset [0..<length cs + 2]"
  shows "\<exists>s' m. Upload e name data opts (start d w) = Returned (Inr ()) s' \<and>
    get (manifests (st s')) name = Some m \<and> length (fm_Shards m) = length cs + 2 \<and>
    (\<forall>w'. view w' = lost (view (world s')) (last (fm_Shards m)) \<longrightarrow>
      fst (Download e order name (start (st s') w')) = Inr (concat (cs @ [c])))"
proof -
  let ?names = "sort (map fst (backends d))"
  define all where "all = stream_shards e name ?names 1 (cs @ [c, c]) 0 0"
  let ?m = "stream_manifest e name all (length (cs @ [c, c])) opts"
  have all: "stream_of e name data opts d = all"
    using assms(7,8) by (simp add: stream_of_def all_def)
  obtain s' where up: "Upload e name data opts (start d w) = Returned (Inr ()) s'"
    and s': "plain_download (st s')" "backends (st s') = backends d"
      "get (manifests (st s')) name = Some ?m" "view (world s') = foldl store (view w) all"
    using Upload_stream[OF assms(1,2,4,5,6), of name data opts w] assms(8) all by auto
  have data: "map sh_Data all = cs @ [c, c]" and index: "map sh_Index all = map int [0..<length cs + 2]"
    using first_shards_data[of e name ?names 1 "cs @ [c, c]" 0 0]
      first_shards_index[of e name ?names 1 "cs @ [c, c]" 0 0] first_shards_1[of e name ?names]
    by (simp_all add: all_def)
  have infos: "fm_Shards ?m = map shard_info all"
    using first_per_index_stream[of 1 "[]" 0 e name ?names "cs @ [c, c]" 0] first_shards_1[of e name ?names]
    by (simp add: stream_manifest_def all_def)
  have "length all = length cs + 2" using arg_cong[OF data, of length] by simp
  then obtain ys x y where xy: "all = ys @ [x, y]" and ys: "length ys = length cs"
    by (rule list_end_two)
  have dxy: "map sh_Data ys = cs" "sh_Data x = c" "sh_Data y = c"
    using data xy ys by auto
  have reg: "has_key (backends (st s')) (sh_Backend sh) \<and> sh_Checksum sh = sha256Hex e (sh_Data sh)"
    if "sh \<in> set all" for sh
    using stream_shards_registered[of ?names sh e name 1 "cs @ [c, c]" 0 0] that assms(6) s'(2)
    by (simp add: all_def has_key_iff)
  have distinct: "distinct (map sh_ID all)"
    unfolding all_def by (rule stream_shards_distinct[OF assms(3)])
  have download: "fst (Download e order name (start (st s') w')) = Inr (concat (cs @ [c]))"
    if w': "view w' = lost (view (world s')) (last (fm_Shards ?m))" for w'
  proof -
    have "ys \<noteq> []" using assms(9) ys by auto
    have split: "all = (ys @ [x]) @ [y]" by (simp add: xy)
    have "last (fm_Shards ?m) = last (map shard_info all)" by (simp only: infos)
    then have last: "last (fm_Shards ?m) = shard_info y" by (simp add: xy)
    have found: "List.map_filter (avail e (st s') (view w')) (fm_Shards ?m) = ys @ [x]"
    proof -
      have inf: "fm_Shards ?m = map shard_info ((ys @ [x]) @ [y])"
        using infos arg_cong[OF split, of "map shard_info"] by (rule trans)
      have view: "view w' = lost (foldl store (view w) ((ys @ [x]) @ [y])) (shard_info y)"
        using w' last s'(4) arg_cong[OF split, of "foldl store (view w)"] by (metis (no_types))
      show ?thesis unfolding inf view
        by (rule available_but_last) (use distinct reg split in auto)
    qed
    have "sorted_wrt (<) (map sh_Index all)" by (simp only: index sorted_int_upt)
    then have "sorted_wrt (<) (map sh_Index (ys @ [x]))" by (simp add: split sorted_wrt_append)
    then have "fst (Download e order name (start (st s') w')) =
      (if fm_MerkleRoot ?m \<noteq> '''' \<and> computeMerkleRoot e (ys @ [x]) \<noteq> fm_MerkleRoot ?m
       then Inl (EMerkle (computeMerkleRoot e (ys @ [x])) (fm_MerkleRoot ?m))
       else Inr (concat (map sh_Data (ys @ [x]))))"
      using assms(1,2,11) s' found infos \<open>length all = length cs + 2\<close>
      by (intro Download_ordered[of view]) simp_all
    moreover have "computeMerkleRoot e (ys @ [x]) = fm_MerkleRoot ?m"
      using computeMerkleRoot_dup_last[of ys x y e] assms(10) ys \<open>ys \<noteq> []\<close> dxy
      by (simp add: stream_manifest_def xy)
    ultimately show ?thesis using dxy by simp
  qed
  show ?thesis
    using up s'(3) download infos \<open>length all = length cs + 2\<close>
    by (intro exI[of _ s'] exI[of _ ?m]) simp
qed

theorem lost_duplicate_tail_goes_unnoticed_witness:
  "\<exists>s' m. Upload shelf_env ''f'' [1, 2, 3, 3] [(''chunk_size'', AInt 1)]
      (start (shelf_storage [''a'']) (\<lambda>n i. None)) = Returned (Inr ()) s' \<and>
    get (manifests (st s')) ''f'' = Some m \<and> length (fm_Shards m) = 4 \<and>
    fst (Download shelf_env [0, 1, 2, 3] ''f''
      (start (st s') (lost (world s') (last (fm_Shards m))))) = Inr [1, 2, 3]"
proof -
  have opts: "chunk_bytes [(''chunk_size'', AInt 1)] = 1"
    "replicas (shelf_storage [''a'']) [(''chunk_size'', AInt 1)] = 1"
    by (simp_all add: chunk_bytes_def replicas_def opt_above_def opt_int_def)
  have "\<exists>s' m. Upload shelf_env ''f'' [1, 2, 3, 3] [(''chunk_size'', AInt 1)]
      (start (shelf_storage [''a'']) (\<lambda>n i. None)) = Returned (Inr ()) s' \<and>
    get (manifests (st s')) ''f'' = Some m \<and> length (fm_Shards m) = length [[1], [2 :: byte]] + 2 \<and>
    (\<forall>w'. w' = lost (world s') (last (fm_Shards m)) \<longrightarrow>
      fst (Download shelf_env [0, 1, 2, 3] ''f'' (start (st s') w')) = Inr (concat ([[1], [2]] @ [[3]])))"
  proof (rule lost_duplicate_tail_goes_unnoticed[of "\<lambda>v. v"])
    show "reliable (\<lambda>v. v) (backends (shelf_storage [''a'']))"
      using mem_reliable[of "[''a'']"] by simp
    show "chunks (chunk_bytes [(''chunk_size'', AInt 1)]) [1, 2, 3, 3] = [[1], [2]] @ [[3], [3]]"
      by (simp add: opts chunks.simps)
    show "mset [0, 1, 2, 3] = mset [0..<length [[1], [2 :: byte]] + 2]"
      by (simp add: upt_conv_Cons numeral_2_eq_2 numeral_3_eq_3)
  qed (simp_all add: opts)
  then show ?thesis by (auto simp: eval_nat_numeral)
qed

end
