(* ===== verification/StorageFailure.thy ===== *)
theory StorageFailure
  imports StorageProps
begin

text \<open>
  Uploads that fail: which shards they leave on the backends, and whether anything still knows of
  them.
\<close>

section \<open>Backends that may fail\<close>

text \<open>
  \<open>tracked w\<close> are the IDs that the orphan registry lists. A put stores its shard or not, whatever it
  reports; a delete that reports success has removed the shard and one that reports an error has
  not; the registry lists what it is given.
\<close>

definition backend_accountable ::
    "'w view \<Rightarrow> ('w \<Rightarrow> string set) \<Rightarrow> string \<Rightarrow> 'w StorageBackend \<Rightarrow> bool" where
  "backend_accountable view tracked n be \<longleftrightarrow>
     (\<forall>sh w. sh_Backend sh = n \<longrightarrow>
        (view (snd (put_once be sh w)) = view w \<or> view (snd (put_once be sh w)) = store (view w) sh) \<and>
        tracked (snd (put_once be sh w)) = tracked w) \<and>
     (\<forall>i w. tracked (snd (DeleteShard be i w)) = tracked w \<and>
        view (snd (DeleteShard be i w)) =
          (if fst (DeleteShard be i w) = None then (view w)(n := (view w n)(i := None)) else view w))"

definition accountable :: "'w view \<Rightarrow> ('w \<Rightarrow> string set) \<Rightarrow> 'w DistributedStorage \<Rightarrow> bool" where
  "accountable view tracked d \<longleftrightarrow>
     (\<forall>n be. get (backends d) n = Some be \<longrightarrow> backend_accountable view tracked n be) \<and>
     (\<forall>reg. orphanRegistry d = Some reg \<longrightarrow> (\<forall>sh w. view (RegisterOrphan reg sh w) = view w \<and>
        tracked (RegisterOrphan reg sh w) = insert (sh_ID sh) (tracked w))) \<and>
     (\<forall>enc. encryptor d = Some enc \<longrightarrow> (\<forall>b m w. view (snd (Encrypt enc b m w)) = view w \<and>
        tracked (snd (Encrypt enc b m w)) = tracked w)) \<and>
     (\<forall>ms. manifestStore d = Some ms \<longrightarrow> (\<forall>m w. view (snd (Save ms m w)) = view w \<and>
        tracked (snd (Save ms m w)) = tracked w))"

lemma accountable_backend:
  "accountable view tracked d \<Longrightarrow> get (backends d) n = Some be \<Longrightarrow> backend_accountable view tracked n be"
  by (simp add: accountable_def)

lemma accountable_put:
  "backend_accountable view tracked (sh_Backend sh) be \<Longrightarrow>
   (view (snd (put_once be sh w)) = view w \<or> view (snd (put_once be sh w)) = store (view w) sh) \<and>
   tracked (snd (put_once be sh w)) = tracked w"
  by (simp add: backend_accountable_def)

lemma accountable_delete:
  "backend_accountable view tracked n be \<Longrightarrow>
   tracked (snd (DeleteShard be i w)) = tracked w \<and>
   view (snd (DeleteShard be i w)) =
     (if fst (DeleteShard be i w) = None then (view w)(n := (view w n)(i := None)) else view w)"
  by (simp add: backend_accountable_def)

lemma accountable_orphan:
  "accountable view tracked d \<Longrightarrow> orphanRegistry d = Some reg \<Longrightarrow>
   view (RegisterOrphan reg sh w) = view w \<and>
   tracked (RegisterOrphan reg sh w) = insert (sh_ID sh) (tracked w)"
  by (simp add: accountable_def)

lemma accountable_encrypt:
  "accountable view tracked d \<Longrightarrow> encryptor d = Some enc \<Longrightarrow>
   view (snd (Encrypt enc b m w)) = view w \<and> tracked (snd (Encrypt enc b m w)) = tracked w"
  by (simp add: accountable_def)

lemma accountable_save:
  "accountable view tracked d \<Longrightarrow> manifestStore d = Some ms \<Longrightarrow>
   view (snd (Save ms m w)) = view w \<and> tracked (snd (Save ms m w)) = tracked w"
  by (simp add: accountable_def)

text \<open>The places whose content is not what it was at first and that no registry lists.\<close>

definition unaccounted ::
    "(string \<Rightarrow> string \<Rightarrow> Shard option) \<Rightarrow> 'w view \<Rightarrow> ('w \<Rightarrow> string set) \<Rightarrow> 'w \<Rightarrow> (string \<times> string) set" where
  "unaccounted v0 view tracked w =
     {(n, i). view w n i \<noteq> None \<and> view w n i \<noteq> v0 n i \<and> i \<notin> tracked w}"

definition places :: "Shard list \<Rightarrow> (string \<times> string) set" where
  "places shs = (\<lambda>sh. (sh_Backend sh, sh_ID sh)) ` set shs"

lemma places_simps [simp]:
  "places [] = {}" "places (sh # shs) = insert (sh_Backend sh, sh_ID sh) (places shs)"
  "places (xs @ ys) = places xs \<union> places ys"
  by (auto simp: places_def)

lemma unaccounted_same:
  "view w' = view w \<Longrightarrow> tracked w' = tracked w \<Longrightarrow> unaccounted v0 view tracked w' = unaccounted v0 view tracked w"
  by (simp add: unaccounted_def)

lemma unaccounted_elsewhere:
  assumes "\<And>m j. (n, i) \<noteq> (m, j) \<Longrightarrow> view w' m j = view w m j" and "tracked w' = tracked w"
  shows "unaccounted v0 view tracked w' \<subseteq> insert (n, i) (unaccounted v0 view tracked w)"
proof
  fix p assume p: "p \<in> unaccounted v0 view tracked w'"
  obtain m j where mj: "p = (m, j)" by (cases p)
  show "p \<in> insert (n, i) (unaccounted v0 view tracked w)"
  proof (cases "(n, i) = (m, j)")
    case False
    then show ?thesis using p mj assms(1)[OF False] assms(2) by (simp add: unaccounted_def)
  qed (simp add: mj)
qed

lemma put_once_unaccounted:
  assumes "accountable view tracked d" and "get (backends d) (sh_Backend sh) = Some be"
  shows "unaccounted v0 view tracked (snd (put_once be sh w)) \<subseteq>
    insert (sh_Backend sh, sh_ID sh) (unaccounted v0 view tracked w)"
proof -
  have "view (snd (put_once be sh w)) = view w \<or> view (snd (put_once be sh w)) = store (view w) sh"
    and "tracked (snd (put_once be sh w)) = tracked w"
    using accountable_put[OF accountable_backend[OF assms], of w] by simp_all
  then show ?thesis using unaccounted_elsewhere[of "sh_Backend sh" "sh_ID sh" view _ w]
    by (metis store_other subset_insertI unaccounted_same)
qed

lemma put_attempts_unaccounted:
  assumes "accountable view tracked d" and "get (backends d) (sh_Backend sh) = Some be"
    and "put_attempts e be sh n le s = (r, s')"
  shows "st s' = st s \<and> unaccounted v0 view tracked (world s') \<subseteq>
    insert (sh_Backend sh, sh_ID sh) (unaccounted v0 view tracked (world s))"
  using assms(3)
proof (induction n arbitrary: le s)
  case 0
  then show ?case by auto
next
  case (Suc n)
  obtain r1 w1 where p: "put_once be sh (world s) = (r1, w1)" by fastforce
  have step: "unaccounted v0 view tracked w1 \<subseteq>
      insert (sh_Backend sh, sh_ID sh) (unaccounted v0 view tracked (world s))"
    using put_once_unaccounted[OF assms(1,2), of v0 "world s"] p by simp
  let ?s = "s\<lparr>polls := polls s + 1, world := w1\<rparr>"
  consider "cancelled e (polls s)" "s' = s\<lparr>polls := polls s + 1\<rparr>"
    | "s' = ?s" | "s' = ?s\<lparr>polls := polls s + 2\<rparr>"
    | er where "put_attempts e be sh n (Some er) (?s\<lparr>polls := polls s + 2\<rparr>) = (r, s')"
    using Suc.prems p
    by (auto simp: poll_def on_world_def split: if_splits option.splits)
  then show ?case
  proof cases
    case 4
    then show ?thesis using Suc.IH[OF 4] step by auto
  qed (use step in auto)
qed

lemma putShardWithRetry_unaccounted:
  assumes "accountable view tracked (st s)"
    and "putShardWithRetry e (get (backends (st s)) (sh_Backend sh)) sh (Suc n) s = Returned r s'"
  shows "st s' = st s \<and> unaccounted v0 view tracked (world s') \<subseteq>
      insert (sh_Backend sh, sh_ID sh) (unaccounted v0 view tracked (world s)) \<and>
    (r = None \<longrightarrow> has_key (backends (st s)) (sh_Backend sh))"
proof (cases "get (backends (st s)) (sh_Backend sh)")
  case None
  then show ?thesis using assms(2)
    by (auto simp: putShardWithRetry_def poll_def split: if_splits)
next
  case (Some be)
  then have "put_attempts e be sh (Suc n) None s = (r, s')"
    using assms(2) by (auto simp: putShardWithRetry_def simp del: put_attempts.simps split: prod.splits)
  then show ?thesis
    using put_attempts_unaccounted[OF assms(1) Some] Some
    by (simp add: has_key_def del: put_attempts.simps)
qed

lemma cleanup_st [simp]: "st (cleanup reg shs s) = st s"
proof (induction shs arbitrary: s)
  case Nil
  then show ?case by simp
next
  case (Cons sh shs)
  show ?case
  proof (cases "get (backends (st s)) (sh_Backend sh)")
    case (Some be)
    obtain r w where "DeleteShard be (sh_ID sh) (world s) = (r, w)" by fastforce
    then show ?thesis using Some Cons
      by (simp add: on_world_def register_orphan_def split: option.split)
  qed (simp add: Cons)
qed

lemma register_orphan_unaccounted:
  assumes "accountable view tracked (st s)" and "orphanRegistry (st s) = Some reg"
  shows "unaccounted v0 view tracked (world (register_orphan (Some reg) sh s)) \<subseteq>
    unaccounted v0 view tracked (world s) - {(n, i). i = sh_ID sh}"
proof -
  have "view (RegisterOrphan reg sh (world s)) = view (world s)"
    "tracked (RegisterOrphan reg sh (world s)) = insert (sh_ID sh) (tracked (world s))"
    using accountable_orphan[OF assms, of sh "world s"] by simp_all
  then show ?thesis by (auto simp: unaccounted_def register_orphan_def)
qed

lemma cleanup_unaccounted:
  "accountable view tracked (st s) \<Longrightarrow> orphanRegistry (st s) = Some reg \<Longrightarrow>
   (\<forall>sh \<in> set shs. has_key (backends (st s)) (sh_Backend sh)) \<Longrightarrow>
   unaccounted v0 view tracked (world (cleanup (Some reg) shs s)) \<subseteq>
     unaccounted v0 view tracked (world s) - places shs"
proof (induction shs arbitrary: s)
  case Nil
  then show ?case by simp
next
  case (Cons sh shs)
  obtain be where be: "get (backends (st s)) (sh_Backend sh) = Some be"
    using Cons.prems(3) by (auto simp: has_key_def)
  obtain r w where r: "DeleteShard be (sh_ID sh) (world s) = (r, w)" by fastforce
  let ?s = "s\<lparr>world := w\<rparr>"
  define s1 where "s1 = (if r = None then ?s else register_orphan (Some reg) sh ?s)"
  have del: "tracked w = tracked (world s)" "view w = (if r = None
      then (view (world s))(sh_Backend sh := (view (world s) (sh_Backend sh))(sh_ID sh := None))
      else view (world s))"
    using accountable_delete[OF accountable_backend[OF Cons.prems(1) be], of "sh_ID sh" "world s"] r
    by simp_all
  have "unaccounted v0 view tracked (world s1) \<subseteq>
      unaccounted v0 view tracked (world s) - {(sh_Backend sh, sh_ID sh)}"
  proof (cases "r = None")
    case True
    then have "(sh_Backend sh, sh_ID sh) \<notin> unaccounted v0 view tracked w"
      using del by (simp add: unaccounted_def)
    moreover have "unaccounted v0 view tracked w \<subseteq>
        insert (sh_Backend sh, sh_ID sh) (unaccounted v0 view tracked (world s))"
      using del True by (intro unaccounted_elsewhere) auto
    ultimately show ?thesis using True by (auto simp: s1_def)
  next
    case False
    then have "unaccounted v0 view tracked w = unaccounted v0 view tracked (world s)"
      using del False by (intro unaccounted_same) simp_all
    then show ?thesis
      using False register_orphan_unaccounted[of view tracked ?s reg v0 sh] Cons.prems(1,2)
      by (auto simp: s1_def)
  qed
  moreover have s1: "st s1 = st s" by (simp add: s1_def register_orphan_def)
  then have "unaccounted v0 view tracked (world (cleanup (Some reg) shs s1)) \<subseteq>
      unaccounted v0 view tracked (world s1) - places shs"
    using Cons.prems by (intro Cons.IH) auto
  moreover have "cleanup (Some reg) (sh # shs) s = cleanup (Some reg) shs s1"
    using be r by (simp add: on_world_def s1_def)
  ultimately show ?case by auto
qed

lemma write_shards_unaccounted:
  "accountable view tracked (st s) \<Longrightarrow> orphanRegistry (st s) = Some reg \<Longrightarrow>
   (\<forall>sh \<in> set written. has_key (backends (st s)) (sh_Backend sh)) \<Longrightarrow>
   unaccounted v0 view tracked (world s) \<subseteq> places written \<Longrightarrow>
   write_shards e shs written s = Returned r s' \<Longrightarrow>
   st s' = st s \<and>
   (case r of
      Inl er \<Rightarrow> er = ECtx \<or> unaccounted v0 view tracked (world s') = {}
    | Inr all \<Rightarrow> unaccounted v0 view tracked (world s') \<subseteq> places all \<and>
        (\<forall>sh \<in> set all. has_key (backends (st s)) (sh_Backend sh)))"
proof (induction shs arbitrary: written s)
  case Nil
  then show ?case by auto
next
  case (Cons sh0 shs)
  show ?case
  proof (cases "choose_backend (st s) sh0")
    case None
    then show ?thesis using Cons.prems(5) by simp
  next
    case (Some c)
    show ?thesis
    proof (cases c)
      case (Inl er)
      then show ?thesis using Some Cons.prems(4,5) by (cases "written = []") auto
    next
      case (Inr bname)
      define sh where "sh = sh0\<lparr>sh_Backend := bname\<rparr>"
      let ?s = "s\<lparr>polls := polls s + 1\<rparr>"
      show ?thesis
      proof (cases "cancelled e (polls s)")
        case True
        then show ?thesis using Cons.prems(5) Some Inr by (auto simp: poll_def)
      next
        case False
        have bname: "sh_Backend sh = bname" by (simp add: sh_def)
        have run: "andThen (putShardWithRetry e (get (backends (st s)) bname) sh 3 ?s) (\<lambda>r s.
            case r of
              Some er \<Rightarrow> Returned (Inl (EWrite (sh_ID sh) er)) (register_orphan (orphanRegistry (st s)) sh
                (cleanup (orphanRegistry (st s)) written s))
            | None \<Rightarrow> write_shards e shs (written @ [sh]) s) = Returned r s'"
          using Cons.prems(5) Some Inr False unfolding sh_def by (simp add: poll_def Let_def)
        then obtain q s1 where put: "putShardWithRetry e (get (backends (st ?s)) (sh_Backend sh)) sh (Suc 2) ?s = Returned q s1"
          and rest: "(case q of
              Some er \<Rightarrow> Returned (Inl (EWrite (sh_ID sh) er)) (register_orphan (orphanRegistry (st s1)) sh
                (cleanup (orphanRegistry (st s1)) written s1))
            | None \<Rightarrow> write_shards e shs (written @ [sh]) s1) = Returned r s'"
          by (auto simp: andThen_Returned_iff bname)
        have s1: "st s1 = st s"
          "unaccounted v0 view tracked (world s1) \<subseteq> insert (sh_Backend sh, sh_ID sh) (places written)"
          "q = None \<longrightarrow> has_key (backends (st s)) (sh_Backend sh)"
          using putShardWithRetry_unaccounted[OF _ put, of view tracked v0] Cons.prems(1,4) by auto
        show ?thesis
        proof (cases q)
          case None
          then show ?thesis using rest s1 Cons.prems by (intro Cons.IH[of s1 "written @ [sh]", simplified s1]) auto
        next
          case (Some er)
          let ?c = "cleanup (Some reg) written s1"
          have "unaccounted v0 view tracked (world ?c) \<subseteq> unaccounted v0 view tracked (world s1) - places written"
            using Cons.prems s1 by (intro cleanup_unaccounted) auto
          moreover have "unaccounted v0 view tracked (world (register_orphan (Some reg) sh ?c)) \<subseteq>
              unaccounted v0 view tracked (world ?c) - {(n, i). i = sh_ID sh}"
            using Cons.prems s1 by (intro register_orphan_unaccounted) simp_all
          ultimately have "unaccounted v0 view tracked (world (register_orphan (Some reg) sh ?c)) = {}"
            using s1(2) by auto
          then show ?thesis using rest Some s1(1) Cons.prems(2)
            by (auto simp: register_orphan_def)
        qed
      qed
    qed
  qed
qed

lemma stamp_shards_world:
  "stamp_shards e name shs s = (shs', s') \<Longrightarrow> st s' = st s \<and> world s' = world s"
proof (induction shs arbitrary: s shs' s')
  case Nil
  then show ?case by simp
next
  case (Cons sh shs)
  define s1 where "s1 = (if sh_ID sh = '''' then s\<lparr>drawn := drawn s + 1\<rparr> else s)"
  obtain rest s2 where "stamp_shards e name shs s1 = (rest, s2)" by fastforce
  moreover from this have "s' = s2" using Cons.prems
    by (cases "sh_ID sh = ''''") (auto simp: makeShardID_eq s1_def)
  moreover have "st s1 = st s" "world s1 = world s" by (simp_all add: s1_def)
  ultimately show ?case using Cons.IH by metis
qed

lemma encrypt_shards_unaccounted:
  "accountable view tracked (st s) \<Longrightarrow> encrypt_shards e name shs s = (r, s') \<Longrightarrow>
   st s' = st s \<and> unaccounted v0 view tracked (world s') = unaccounted v0 view tracked (world s)"
proof (induction shs arbitrary: s r s')
  case Nil
  then show ?case by simp
next
  case (Cons sh shs)
  define first where "first = (case encryptor (st s) of
      None \<Rightarrow> (Inr (sh\<lparr>sh_CipherHash := ''''\<rparr>), s) | Some enc \<Rightarrow> encrypt_shard e enc name sh s)"
  obtain q s1 where q: "first = (q, s1)" by (cases first)
  have s1: "st s1 = st s \<and> unaccounted v0 view tracked (world s1) = unaccounted v0 view tracked (world s)"
  proof (cases "encryptor (st s)")
    case None
    then show ?thesis using q by (simp add: first_def)
  next
    case (Some enc)
    obtain p w where "Encrypt enc (sh_Data sh) (encrypt_meta name sh) (world s) = (p, w)" by fastforce
    then have "s1 = s\<lparr>world := w\<rparr>" and "view w = view (world s)" "tracked w = tracked (world s)"
      using q Some accountable_encrypt[OF Cons.prems(1) Some, of "sh_Data sh" "encrypt_meta name sh" "world s"]
      by (simp_all add: first_def encrypt_shard_def on_world_def split: sum.splits)
    then show ?thesis using unaccounted_same[of view w "world s" tracked] by simp
  qed
  obtain p s2 where p: "encrypt_shards e name shs s1 = (p, s2)" by fastforce
  have "s' = s1 \<or> s' = s2"
    using Cons.prems(2) q p by (auto simp: first_def[symmetric] split: sum.splits)
  then show ?case using s1 Cons.IH[OF _ p] Cons.prems(1) by auto
qed

lemma ifOk_error:
  "ifOk m (\<lambda>x s. Returned (Inr ()) (g x s)) = Returned (Inl er) s' \<Longrightarrow> m = Returned (Inl er) s'"
proof (cases m)
  case (Returned r s)
  then show "ifOk m (\<lambda>x s. Returned (Inr ()) (g x s)) = Returned (Inl er) s' \<Longrightarrow> m = Returned (Inl er) s'"
    by (cases r) simp_all
qed simp_all

text \<open>
  C8: When the upload of placed shards fails in writing a shard or in saving the manifest, every
  shard that it has put on a backend has been deleted again or is listed by the orphan registry,
  also when puts that reported an error have stored their shard and when deletes fail. The two
  exceptions are a context that is done between two shards and a manifest that cannot be signed.
\<close>

theorem failed_upload_is_accounted_for:
  assumes "persistShardsWithCtx e name shards opts s = Returned (Inl er) s'"
    and "er \<noteq> ECtx" and "\<And>x. er \<noteq> ESign x"
    and "accountable view tracked (st s)" and "orphanRegistry (st s) = Some reg"
    and "view (world s') n i = Some sh"
  shows "view (world s) n i = Some sh \<or> i \<in> tracked (world s')"
proof -
  let ?u = "\<lambda>s. unaccounted (view (world s)) view tracked"
  obtain plain s1 where s1: "stamp_shards e name shards s = (plain, s1)" by fastforce
  obtain q s2 where s2: "encrypt_shards e name plain s1 = (q, s2)" by fastforce
  have st1: "st s1 = st s" "world s1 = world s" using stamp_shards_world[OF s1] by simp_all
  have st2: "st s2 = st s" "?u s (world s2) = {}"
    using encrypt_shards_unaccounted[OF _ s2, of view tracked "view (world s)"] assms(4) st1
    by (simp_all add: unaccounted_def)
  have "?u s (world s') = {}"
  proof (cases q)
    case (Inl x)
    then show ?thesis using assms(1) s1 s2 st2 by (simp add: persistShardsWithCtx_def)
  next
    case (Inr shs)
    obtain r s3 where w: "write_shards e shs [] s2 = Returned r s3"
      using assms(1) s1 s2 Inr
      by (cases "write_shards e shs [] s2") (simp_all add: persistShardsWithCtx_def)
    have s3: "st s3 = st s \<and> (case r of
        Inl er \<Rightarrow> er = ECtx \<or> ?u s (world s3) = {}
      | Inr all \<Rightarrow> ?u s (world s3) \<subseteq> places all \<and>
          (\<forall>sh \<in> set all. has_key (backends (st s)) (sh_Backend sh)))"
      using write_shards_unaccounted[OF _ _ _ _ w, of view tracked reg "view (world s)"] assms(4,5)
      unfolding st2 by simp
    show ?thesis
    proof (cases r)
      case (Inl x)
      then show ?thesis using assms(1,2) s1 s2 Inr w s3 by (simp add: persistShardsWithCtx_def)
    next
      case r: (Inr all)
      let ?m = "upload_manifest e name all plain opts"
      have run: "persist_manifest name all ?m s3 = Returned (Inl er) s'"
        using assms(1) s1 s2 Inr w r by (simp add: persistShardsWithCtx_def)
      then obtain ms where ms: "manifestStore (st s3) = Some ms"
        by (cases "manifestStore (st s3)") (simp_all add: persist_manifest_def)
      obtain m' where "sign_and_save ms all m' s3 = Returned (Inl er) s'"
        using run ms unfolding persist_manifest_def by (auto dest!: ifOk_error)
      then obtain m2 x w where save: "Save ms m2 (world s3) = (x, w)"
        and s': "s' = cleanup (Some reg) all (s3\<lparr>world := w\<rparr>)"
        using assms(3,5) s3
        by (auto simp: sign_and_save_def on_world_def split: sum.splits prod.splits option.splits)
      have "view w = view (world s3)" "tracked w = tracked (world s3)"
        using accountable_save[of view tracked "st s3" ms m2 "world s3"] assms(4) ms s3 save by simp_all
      then have "?u s w = ?u s (world s3)" by (rule unaccounted_same)
      moreover have "?u s (world s') \<subseteq> ?u s w - places all"
        unfolding s' using s3 r assms(4,5)
        by (intro order_trans[OF cleanup_unaccounted]) simp_all
      ultimately show ?thesis using s3 r by auto
    qed
  qed
  then have "(n, i) \<notin> ?u s (world s')" by simp
  then show ?thesis using assms(6) by (auto simp: unaccounted_def)
qed

text \<open>A good backend and one whose puts store their shard and report an error, with a registry.\<close>

definition flaky_backend :: "bool \<Rightarrow> string \<Rightarrow> (shelf \<times> string set) StorageBackend" where
  "flaky_backend bad n =
     \<lparr>PutShard = (\<lambda>sh (v, t). (Some (if bad then Some (EExternal ''full'') else None), (store v sh, t))),
      GetShard = (\<lambda>i (v, t). (Some (case v n i of Some sh \<Rightarrow> Inr sh | None \<Rightarrow> Inl (EExternal ''absent'')), (v, t))),
      DeleteShard = (\<lambda>i (v, t). (None, (v(n := (v n)(i := None)), t))),
      PutShardCtx = None, GetShardCtx = None\<rparr>"

definition list_registry :: "(shelf \<times> string set) OrphanRegistry" where
  "list_registry = \<lparr>RegisterOrphan = (\<lambda>sh (v, t). (v, insert (sh_ID sh) t)), ListOrphans = (\<lambda>w. []),
     CleanupOlderThan = (\<lambda>d w. ([], w))\<rparr>"

definition flaky_storage :: "(shelf \<times> string set) DistributedStorage" where
  "flaky_storage = SetOrphanRegistry (Some list_registry)
     (RegisterBackend ''b'' (flaky_backend True ''b'')
       (RegisterBackend ''a'' (flaky_backend False ''a'') NewDistributedStorage))"

lemma flaky_backends [simp]:
  "backends flaky_storage = [(''a'', flaky_backend False ''a''), (''b'', flaky_backend True ''b'')]"
  "orphanRegistry flaky_storage = Some list_registry" "encryptor flaky_storage = None"
  "manifestStore flaky_storage = None"
  by (simp_all add: flaky_storage_def SetOrphanRegistry_def RegisterBackend_def NewDistributedStorage_def)

lemma flaky_put [simp]:
  "put_once (flaky_backend bad n) sh (v, t) =
     (if bad then Some (EExternal ''full'') else None, (store v sh, t))"
  by (simp add: put_once_def flaky_backend_def)

lemma flaky_delete [simp]:
  "DeleteShard (flaky_backend bad n) i (v, t) = (None, (v(n := (v n)(i := None)), t))"
  by (simp add: flaky_backend_def)

lemma flaky_accountable: "accountable fst snd flaky_storage"
  by (auto simp: accountable_def backend_accountable_def list_registry_def split: if_splits)

definition two_shards :: "Shard list" where
  "two_shards = [zero_shard\<lparr>sh_ID := ''x'', sh_Backend := ''a''\<rparr>,
     zero_shard\<lparr>sh_ID := ''y'', sh_Backend := ''b'', sh_Index := 1\<rparr>]"

theorem failed_upload_is_accounted_for_witness:
  "\<exists>s'. persistShardsWithCtx shelf_env ''f'' two_shards [] (start flaky_storage (\<lambda>n i. None, {})) =
      Returned (Inl (EWrite ''y'' (EExternal ''full''))) s' \<and>
    fst (world s') ''b'' ''y'' \<noteq> None \<and> ''y'' \<in> snd (world s')"
proof -
  let ?s = "start flaky_storage (\<lambda>n i. None, {})"
  obtain s' where s': "persistShardsWithCtx shelf_env ''f'' two_shards [] ?s =
      Returned (Inl (EWrite ''y'' (EExternal ''full''))) s'" "fst (world s') ''b'' ''y'' \<noteq> None"
    by (simp add: persistShardsWithCtx_def two_shards_def choose_backend_def putShardWithRetry_def
        poll_def on_world_def numeral_3_eq_3 register_orphan_def list_registry_def zero_shard_def
        store_def Let_def)
  then obtain sh where "fst (world s') ''b'' ''y'' = Some sh" by blast
  then have "fst (world ?s) ''b'' ''y'' = Some sh \<or> ''y'' \<in> snd (world s')"
    using failed_upload_is_accounted_for[OF s'(1), of fst snd list_registry "''b''" "''y''" sh]
      flaky_accountable by simp
  then show ?thesis using s' by (intro exI[of _ s']) simp
qed

text \<open>
  A context that is done between two shards ends the upload at once: the shards written so far
  stay on their backends, no manifest names them, and the orphan registry is not told.
\<close>

theorem cancelled_upload_leaks_shards:
  assumes "reliable view (backends (st s))" and "accountable view tracked (st s)"
    and "encryptor (st s) = None" and "k < length shards"
    and "\<And>n. cancelled e n \<longleftrightarrow> polls s + 2 * k \<le> n"
    and "\<And>sh. sh \<in> set shards \<Longrightarrow> has_key (backends (st s)) (sh_Backend sh) \<and>
      sh_Backend sh \<noteq> '''' \<and> sh_ID sh \<noteq> ''''"
  shows "\<exists>s'. persistShardsWithCtx e name shards opts s = Returned (Inl ECtx) s' \<and> st s' = st s \<and>
    view (world s') = foldl store (view (world s))
      (map (\<lambda>sh. (stamp e sh)\<lparr>sh_CipherHash := ''''\<rparr>) (take k shards)) \<and>
    tracked (world s') = tracked (world s)"
proof -
  have loop: "\<exists>s'. write_shards e shs written s = Returned (Inl ECtx) s' \<and> st s' = st s \<and>
      view (world s') = foldl store (view (world s)) (take j shs) \<and> tracked (world s') = tracked (world s)"
    if "reliable view (backends (st s))" "accountable view tracked (st s)" "j < length shs"
      "\<And>n. cancelled e n \<longleftrightarrow> polls s + 2 * j \<le> n"
      "\<And>sh. sh \<in> set shs \<Longrightarrow> has_key (backends (st s)) (sh_Backend sh) \<and> sh_Backend sh \<noteq> ''''"
    for shs written s j
    using that
  proof (induction j arbitrary: shs written s)
    case 0
    then obtain sh rest where shs: "shs = sh # rest" by (cases shs) auto
    have "choose_backend (st s) sh = Some (Inr (sh_Backend sh))"
      using "0.prems"(5)[of sh] shs by (simp add: choose_backend_def)
    then show ?case using "0.prems"(4) shs by (simp add: poll_def)
  next
    case (Suc j)
    then obtain sh rest where shs: "shs = sh # rest" by (cases shs) auto
    have sh: "choose_backend (st s) sh = Some (Inr (sh_Backend sh))" "sh\<lparr>sh_Backend := sh_Backend sh\<rparr> = sh"
      using Suc.prems(5)[of sh] shs by (simp_all add: choose_backend_def)
    obtain be where be: "get (backends (st s)) (sh_Backend sh) = Some be"
      using Suc.prems(5)[of sh] shs by (auto simp: has_key_def)
    obtain w where w: "put_once be sh (world s) = (None, w)" "view w = store (view (world s)) sh"
      using reliable_put[OF Suc.prems(1) be] by blast
    have t: "tracked w = tracked (world s)"
      using accountable_put[OF accountable_backend[OF Suc.prems(2) be], of "world s"] w by simp
    let ?s = "s\<lparr>polls := polls s + 2, world := w\<rparr>"
    have "write_shards e shs written s = write_shards e rest (written @ [sh]) ?s"
      using sh be w Suc.prems(4)[of "polls s"] Suc.prems(4)[of "polls s + 1"]
      by (simp add: shs poll_def on_world_def putShardWithRetry_def numeral_3_eq_3)
    moreover have "\<exists>s'. write_shards e rest (written @ [sh]) ?s = Returned (Inl ECtx) s' \<and> st s' = st ?s \<and>
        view (world s') = foldl store (view (world ?s)) (take j rest) \<and> tracked (world s') = tracked (world ?s)"
      using Suc.prems shs by (intro Suc.IH) auto
    ultimately show ?case using w t shs by simp
  qed
  define final where "final = map (\<lambda>sh. (stamp e sh)\<lparr>sh_CipherHash := ''''\<rparr>) shards"
  have "stamp_shards e name shards s = (map (stamp e) shards, s)"
    using assms(6) by (intro stamp_shards_named) simp
  moreover have "encrypt_shards e name (map (stamp e) shards) s = (Inr final, s)"
    using encrypt_shards_off[OF assms(3), of e name "map (stamp e) shards"] by (simp add: final_def o_def)
  moreover obtain s' where "write_shards e final [] s = Returned (Inl ECtx) s'" "st s' = st s"
    "view (world s') = foldl store (view (world s)) (take k final)" "tracked (world s') = tracked (world s)"
    using loop[of s k final "[]"] assms by (fastforce simp: final_def stamp_def)
  ultimately show ?thesis
    by (intro exI[of _ s']) (simp add: persistShardsWithCtx_def final_def take_map)
qed

definition stopping_env :: env where
  "stopping_env = shelf_env\<lparr>cancelled := (\<lambda>n. 2 \<le> n)\<rparr>"

definition shelf_registry_storage :: "(shelf \<times> string set) DistributedStorage" where
  "shelf_registry_storage = SetOrphanRegistry (Some list_registry)
     (RegisterBackend ''a'' (flaky_backend False ''a'') NewDistributedStorage)"

theorem cancelled_upload_leaks_shards_witness:
  "\<exists>s'. persistShardsWithCtx stopping_env ''f''
      [zero_shard\<lparr>sh_ID := ''x'', sh_Backend := ''a''\<rparr>, zero_shard\<lparr>sh_ID := ''y'', sh_Backend := ''a''\<rparr>] []
      (start shelf_registry_storage (\<lambda>n i. None, {})) = Returned (Inl ECtx) s' \<and>
    fst (world s') ''a'' ''x'' \<noteq> None \<and> snd (world s') = {}"
proof -
  have d: "backends shelf_registry_storage = [(''a'', flaky_backend False ''a'')]"
    "encryptor shelf_registry_storage = None" "manifestStore shelf_registry_storage = None"
    "orphanRegistry shelf_registry_storage = Some list_registry"
    by (simp_all add: shelf_registry_storage_def SetOrphanRegistry_def RegisterBackend_def
        NewDistributedStorage_def)
  have rel: "reliable fst (backends shelf_registry_storage)"
    by (auto simp: reliable_def d get_once_def flaky_backend_def put_once_def split: option.split)
  have acc: "accountable fst snd shelf_registry_storage"
    by (auto simp: accountable_def backend_accountable_def d list_registry_def split: if_splits)
  let ?shards = "[zero_shard\<lparr>sh_ID := ''x'', sh_Backend := ''a''\<rparr>,
    zero_shard\<lparr>sh_ID := ''y'', sh_Backend := ''a''\<rparr>]"
  let ?s = "start shelf_registry_storage (\<lambda>n i. None, {})"
  have "\<exists>s'. persistShardsWithCtx stopping_env ''f'' ?shards [] ?s = Returned (Inl ECtx) s' \<and> st s' = st ?s \<and>
      fst (world s') = foldl store (fst (world ?s))
        (map (\<lambda>sh. (stamp stopping_env sh)\<lparr>sh_CipherHash := ''''\<rparr>) (take 1 ?shards)) \<and>
      snd (world s') = snd (world ?s)"
    by (rule cancelled_upload_leaks_shards)
      (use rel acc in \<open>auto simp: d stopping_env_def has_key_def zero_shard_def\<close>)
  then show ?thesis by (auto simp: stamp_def store_def zero_shard_def)
qed

end
