(* ===== verification/StorageHeal.thy ===== *)
theory StorageHeal
  imports StorageFailure
begin

text \<open>
  Self-healing and manifests: manual repair, the repair loop over every history of operations,
  signatures, and the files that manifests live in.
\<close>

section \<open>Manual repair\<close>

lemma each_Some:
  "(\<And>x s. x \<in> set xs \<Longrightarrow> f x s \<noteq> None) \<Longrightarrow> each f xs s \<noteq> None"
proof (induction xs arbitrary: s)
  case Nil
  then show ?case by simp
next
  case (Cons x xs)
  then obtain r s' where "f x s = Some (r, s')" by fastforce
  then show ?case using Cons by (cases r) simp_all
qed

lemma each_None:
  assumes "\<And>x s. x \<in> set xs \<Longrightarrow> st s = d \<Longrightarrow> f x s = None \<or> (\<exists>s'. f x s = Some (None, s') \<and> st s' = d)"
    and "y \<in> set xs" and "\<And>s. st s = d \<Longrightarrow> f y s = None" and "st s = d"
  shows "each f xs s = None"
  using assms
proof (induction xs arbitrary: s)
  case Nil
  then show ?case by simp
next
  case (Cons x xs)
  show ?case
  proof (cases "f x s")
    case (Some p)
    then obtain s' where s': "f x s = Some (None, s')" "st s' = d"
      using Cons.prems(1)[of x s] Cons.prems(4) by auto
    then have "y \<in> set xs" using Cons.prems(2) Cons.prems(3)[of s] Cons.prems(4) by auto
    then show ?thesis using s' Cons by simp
  qed simp
qed

lemma TriggerRepair_named: "name \<noteq> '''' \<Longrightarrow> TriggerRepair (Suc n) name s = Some (repair_named name s)"
  by simp

lemma TriggerRepair_never:
  assumes "repairPlugin d = Some rp" and "\<And>m bes w. fst (rp m bes w) = None"
    and "\<And>m name. policy_error d ''repair'' (Some m) [(''filename'', AStr name)] = None"
    and "has_key (manifests d) ''''"
  shows "st s = d \<Longrightarrow> TriggerRepair n '''' s = None"
proof (induction n arbitrary: s)
  case 0
  then show ?case by simp
next
  case (Suc n)
  have named: "\<exists>s'. repair_named x s = (None, s') \<and> st s' = d"
    if x: "x \<in> set (map fst (manifests d))" and s: "st s = d" for x and s :: "'a sys"
  proof -
    obtain m where m: "get (manifests d) x = Some m"
      using x has_key_iff[of "manifests d" x] by (auto simp: has_key_def)
    obtain r m' w where r: "rp m (backends d) (world s) = (r, m', w)" by (metis prod_cases3)
    then have "r = None" using assms(2)[of m "backends d" "world s"] by simp
    then show ?thesis using m r s assms(1,3) by (simp add: repair_named_def)
  qed
  have "each (TriggerRepair n) (map fst (manifests d)) s = None"
  proof (rule each_None[where d = d and y = "''''"])
    show "'''' \<in> set (map fst (manifests d))" using assms(4) by (simp add: has_key_iff)
    show "TriggerRepair n x s = None \<or> (\<exists>s'. TriggerRepair n x s = Some (None, s') \<and> st s' = d)"
      if "x \<in> set (map fst (manifests d))" "st s = d" for x and s :: "'a sys"
    proof (cases "x = ''''")
      case True
      then show ?thesis using Suc.IH[OF that(2)] by simp
    next
      case False
      then show ?thesis using named[OF that] by (cases n) auto
    qed
  qed (use Suc in simp_all)
  then show ?case using Suc.prems by simp
qed

text \<open>
  When repairs succeed, a manual repair of everything ends if and only if no manifest has the
  empty name: TriggerRepair("") calls itself on every name, and on the empty one it starts over, in
  an endless recursion. Nothing keeps an upload from using the empty name.
\<close>

theorem TriggerRepair_ends_iff_no_empty_name:
  assumes "repairPlugin (st s) = Some rp" and "\<And>m bes w. fst (rp m bes w) = None"
    and "policyChecker (st s) = None"
  shows "(\<exists>n r. TriggerRepair n '''' s = Some r) \<longleftrightarrow> \<not> has_key (manifests (st s)) ''''"
proof
  assume "\<exists>n r. TriggerRepair n '''' s = Some r"
  then obtain n r where "TriggerRepair n '''' s = Some r" by blast
  moreover have "TriggerRepair n '''' s = None" if "has_key (manifests (st s)) ''''"
    using that assms by (intro TriggerRepair_never[of "st s" rp]) (simp_all add: policy_error_def)
  ultimately show "\<not> has_key (manifests (st s)) ''''" by auto
next
  assume "\<not> has_key (manifests (st s)) ''''"
  then have "'''' \<notin> set (map fst (manifests (st s)))" by (simp add: has_key_iff)
  then have "TriggerRepair (Suc 0) x s' \<noteq> None" if "x \<in> set (map fst (manifests (st s)))" for x s'
    using that TriggerRepair_named[of x 0] by (cases "x = ''''") auto
  then have "each (TriggerRepair (Suc 0)) (map fst (manifests (st s))) s \<noteq> None"
    by (rule each_Some)
  moreover have "TriggerRepair (Suc (Suc 0)) '''' s =
      each (TriggerRepair (Suc 0)) (map fst (manifests (st s))) s"
    by (simp only: TriggerRepair.simps simp_thms if_True)
  ultimately have "TriggerRepair (Suc (Suc 0)) '''' s \<noteq> None" by metis
  then show "\<exists>n r. TriggerRepair n '''' s = Some r" by (metis not_None_eq)
qed

definition unnamed_storage :: "shelf DistributedStorage" where
  "unnamed_storage = SetRepairPlugin (Some (\<lambda>m bes w. (None, m, w)))
     ((shelf_storage [''a''])\<lparr>manifests := [('''', stream_manifest shelf_env '''' [] 0 [])]\<rparr>)"

theorem TriggerRepair_ends_iff_no_empty_name_witness:
  "\<not> (\<exists>n r. TriggerRepair n '''' (start unnamed_storage (\<lambda>n i. None)) = Some r)"
  using TriggerRepair_ends_iff_no_empty_name[of "start unnamed_storage (\<lambda>n i. None)" "\<lambda>m bes w. (None, m, w)"]
  by (simp add: unnamed_storage_def SetRepairPlugin_def shelf_storage_def RegisterBackend_def
      NewDistributedStorage_def has_key_def)

section \<open>Signatures\<close>

lemma set_manifest_store [simp]: "manifestStore (st (set_manifest name m s)) = manifestStore (st s)"
  by (simp add: set_manifest_def)

text \<open>
  With the HMAC signer, an upload leaves a manifest that verifies. An import checks the
  signature and then changes the update time (and the version and creation time, when there is a
  manifest of that name already) but keeps the old signature: the manifest it stores verifies only
  if the two texts have the same MAC.
\<close>

theorem signatures_after_upload_and_import:
  assumes "manifestSigner (st s) = Some (HMACManifestSigner marshal hmac key)"
    and "\<And>b. hmac key b \<noteq> []" and "\<And>m. marshal m = Inr (text m)"
  shows "(manifestStore (st s) \<noteq> None \<and> persist_manifest name written m s = Returned (Inr ()) s' \<longrightarrow>
      (\<exists>m'. get (manifests (st s')) name = Some m' \<and> HMAC_Verify marshal hmac key m' = None)) \<and>
    (manifestStore (st s) = None \<and> ImportManifestJSON e (Inr m) s = (None, s') \<longrightarrow>
      HMAC_Verify marshal hmac key m = None \<and>
      (\<exists>m'. get (manifests (st s')) (fm_FileName m) = Some m' \<and> fm_Signature m' = fm_Signature m \<and>
        fm_UpdatedAt m' = clock e \<and>
        (HMAC_Verify marshal hmac key m' = None \<longleftrightarrow>
          hmac key (text (m'\<lparr>fm_Signature := []\<rparr>)) = hmac key (text (m\<lparr>fm_Signature := []\<rparr>)))))"
proof (rule conjI; rule impI; elim conjE)
  assume store: "manifestStore (st s) \<noteq> None" and ok: "persist_manifest name written m s = Returned (Inr ()) s'"
  obtain ms where ms: "manifestStore (st s) = Some ms" using store by blast
  define m0 where "m0 = (case Load ms name (world s) of Inr (Some prev) \<Rightarrow> next_version prev m | _ \<Rightarrow> m)"
  define m1 where "m1 = m0\<lparr>fm_Signature := hmac key (text (m0\<lparr>fm_Signature := []\<rparr>))\<rparr>"
  have "ensureSignManifest (st s) m0 = Inr m1"
    using assms(1,3) by (simp add: ensureSignManifest_def HMACManifestSigner_def HMAC_Sign_def m1_def)
  then have "get (manifests (st s')) name = Some m1"
    using ok ms by (auto simp: persist_manifest_def m0_def[symmetric] sign_and_save_def
        set_manifest_def get_put split: prod.splits option.splits)
  moreover have "HMAC_Verify marshal hmac key m1 = None"
    using assms(2,3) by (simp add: HMAC_Verify_def m1_def)
  ultimately show "\<exists>m'. get (manifests (st s')) name = Some m' \<and> HMAC_Verify marshal hmac key m' = None"
    by blast
next
  assume store: "manifestStore (st s) = None" and ok: "ImportManifestJSON e (Inr m) s = (None, s')"
  let ?m = "import_fields e (st s) m"
  have valid: "\<not> (fm_FileName m = '''' \<or> fm_Shards m = [])"
    using ok by (cases "fm_FileName m = '''' \<or> fm_Shards m = []") (simp_all add: ImportManifestJSON_def)
  have v: "HMAC_Verify marshal hmac key m = None"
    using ok assms(1) valid
    by (cases "HMAC_Verify marshal hmac key m") (simp_all add: ImportManifestJSON_def HMACManifestSigner_def)
  then have sig: "fm_Signature m \<noteq> []" "fm_Signature m = hmac key (text (m\<lparr>fm_Signature := []\<rparr>))"
    using assms(3) by (auto simp: HMAC_Verify_def split: if_splits)
  have fields: "fm_FileName ?m = fm_FileName m" "fm_Signature ?m = fm_Signature m" "fm_UpdatedAt ?m = clock e"
    by (simp_all add: import_fields_def Let_def split: option.split)
  have "s' = set_manifest (fm_FileName m) ?m s"
    using ok store v assms(1) fields(1) valid
    by (simp add: ImportManifestJSON_def HMACManifestSigner_def Let_def)
  then have got: "get (manifests (st s')) (fm_FileName m) = Some ?m" by simp
  have iff: "HMAC_Verify marshal hmac key ?m = None \<longleftrightarrow>
      hmac key (text (?m\<lparr>fm_Signature := []\<rparr>)) = hmac key (text (m\<lparr>fm_Signature := []\<rparr>))"
    using sig assms(3) fields by (auto simp: HMAC_Verify_def)
  show "HMAC_Verify marshal hmac key m = None \<and>
      (\<exists>m'. get (manifests (st s')) (fm_FileName m) = Some m' \<and> fm_Signature m' = fm_Signature m \<and>
        fm_UpdatedAt m' = clock e \<and>
        (HMAC_Verify marshal hmac key m' = None \<longleftrightarrow>
          hmac key (text (m'\<lparr>fm_Signature := []\<rparr>)) = hmac key (text (m\<lparr>fm_Signature := []\<rparr>))))"
    using v got fields iff by (intro conjI exI[of _ ?m])
qed

text \<open>A signer over a text that shows the update time, on a storage with a file store.\<close>

definition toy_text :: "FileManifest \<Rightarrow> bytes" where
  "toy_text m = [word_of_int (fm_UpdatedAt m)]"

definition toy_hmac :: "bytes \<Rightarrow> bytes \<Rightarrow> bytes" where
  "toy_hmac key b = 1 # key @ b"

definition signed_storage :: "dir ManifestStore option \<Rightarrow> dir DistributedStorage" where
  "signed_storage ms = SetManifestSigner (Some (HMACManifestSigner (\<lambda>m. Inr (toy_text m)) toy_hmac [9]))
     (NewDistributedStorage\<lparr>manifestStore := ms\<rparr>)"

definition signed_manifest :: FileManifest where
  "signed_manifest = (stream_manifest shelf_env ''f'' [zero_shard] 1 [])
     \<lparr>fm_UpdatedAt := 3, fm_Signature := toy_hmac [9] [3]\<rparr>"

lemma signed_storage_simps [simp]:
  "manifestSigner (signed_storage ms) = Some (HMACManifestSigner (\<lambda>m. Inr (toy_text m)) toy_hmac [9])"
  "manifestStore (signed_storage ms) = ms" "manifests (signed_storage ms) = []"
  by (simp_all add: signed_storage_def SetManifestSigner_def NewDistributedStorage_def)

lemma signed_manifest_simps [simp]:
  "fm_FileName signed_manifest = ''f''" "fm_Shards signed_manifest = [shard_info zero_shard]"
  "fm_UpdatedAt signed_manifest = 3" "fm_Signature signed_manifest = [1, 9, 3]"
  by (simp_all add: signed_manifest_def stream_manifest_def toy_hmac_def)

theorem signatures_after_upload_and_import_witness:
  "(\<exists>s' m'. persist_manifest ''f'' [] signed_manifest
      (start (signed_storage (Some (FileManifestStore io_ok None))) []) = Returned (Inr ()) s' \<and>
     get (manifests (st s')) ''f'' = Some m' \<and>
     HMAC_Verify (\<lambda>m. Inr (toy_text m)) toy_hmac [9] m' = None) \<and>
   (\<exists>s' m'. ImportManifestJSON shelf_env (Inr signed_manifest) (start (signed_storage None) []) =
      (None, s') \<and> get (manifests (st s')) ''f'' = Some m' \<and>
     HMAC_Verify (\<lambda>m. Inr (toy_text m)) toy_hmac [9] m' \<noteq> None)"
proof
  let ?s = "start (signed_storage (Some (FileManifestStore io_ok None))) []"
  obtain s' where s': "persist_manifest ''f'' [] signed_manifest ?s = Returned (Inr ()) s'"
    by (simp add: persist_manifest_def FileManifestStore_def FileStore_Load_def sign_and_save_def
        ensureSignManifest_def HMACManifestSigner_def HMAC_Sign_def on_world_def FileStore_Save_def
        io_ok_def Let_def)
  then show "\<exists>s' m'. persist_manifest ''f'' [] signed_manifest ?s = Returned (Inr ()) s' \<and>
     get (manifests (st s')) ''f'' = Some m' \<and>
     HMAC_Verify (\<lambda>m. Inr (toy_text m)) toy_hmac [9] m' = None"
    using signatures_after_upload_and_import[of ?s "\<lambda>m. Inr (toy_text m)" toy_hmac "[9]" toy_text "''f''" "[]" signed_manifest s']
    by (auto simp: toy_hmac_def)
next
  let ?s = "start (signed_storage None) []"
  have "HMAC_Verify (\<lambda>m. Inr (toy_text m)) toy_hmac [9] signed_manifest = None"
    by (simp add: HMAC_Verify_def toy_text_def toy_hmac_def)
  then obtain s' where s': "ImportManifestJSON shelf_env (Inr signed_manifest) ?s = (None, s')"
    by (simp add: ImportManifestJSON_def HMACManifestSigner_def Let_def)
  obtain m' where m': "get (manifests (st s')) ''f'' = Some m'" "fm_UpdatedAt m' = clock shelf_env"
    "HMAC_Verify (\<lambda>m. Inr (toy_text m)) toy_hmac [9] m' = None \<longleftrightarrow>
       toy_hmac [9] (toy_text (m'\<lparr>fm_Signature := []\<rparr>)) =
       toy_hmac [9] (toy_text (signed_manifest\<lparr>fm_Signature := []\<rparr>))"
    using signatures_after_upload_and_import[of ?s "\<lambda>m. Inr (toy_text m)" toy_hmac "[9]" toy_text "''f''" "[]" signed_manifest s' shelf_env] s'
    by (auto simp: toy_hmac_def)
  have "HMAC_Verify (\<lambda>m. Inr (toy_text m)) toy_hmac [9] m' \<noteq> None"
    using m'(2,3) by (simp add: toy_hmac_def toy_text_def shelf_env_def)
  then show "\<exists>s' m'. ImportManifestJSON shelf_env (Inr signed_manifest) ?s = (None, s') \<and>
     get (manifests (st s')) ''f'' = Some m' \<and>
     HMAC_Verify (\<lambda>m. Inr (toy_text m)) toy_hmac [9] m' \<noteq> None"
    using s' m'(1) by blast
qed

section \<open>Files of manifests\<close>

text \<open>
  The file store maps the slash of a name to an underscore. So the manifest that an upload saves
  is what the store returns for every name with the same file, and its version and history go on
  from the manifest of any such name: uploading ''a\_b'' overwrites the manifest of ''a/b'', whose
  shards nobody knows any more after a restart.
\<close>

theorem names_with_one_file_share_a_manifest:
  assumes "manifestStore (st s) = Some (FileManifestStore io_ok None)" and "manifestSigner (st s) = None"
    and "FileStore_Load other (world s) = Inr prev" and "pathFor name = pathFor other"
    and "fm_FileName m = name"
  shows "\<exists>s' m'. persist_manifest name written m s = Returned (Inr ()) s' \<and>
    FileStore_Load other (world s') = Inr (Some m') \<and> fm_FileName m' = name \<and>
    fm_Version m' = (case prev of None \<Rightarrow> fm_Version m | Some p \<Rightarrow> fm_Version p + 1) \<and>
    (\<forall>n. pathFor n \<noteq> pathFor name \<longrightarrow> FileStore_Load n (world s') = FileStore_Load n (world s))"
proof -
  define m0 where "m0 = (case prev of None \<Rightarrow> m | Some p \<Rightarrow> next_version p m)"
  have "FileStore_Load name (world s) = FileStore_Load other (world s)"
    using assms(4) by (simp add: FileStore_Load_def)
  then have m0: "(case Load (FileManifestStore io_ok None) name (world s) of
      Inr (Some p) \<Rightarrow> next_version p m | _ \<Rightarrow> m) = m0"
    using assms(3) by (cases prev) (simp_all add: FileManifestStore_def m0_def)
  have fields: "fm_FileName m0 = name"
    "fm_Version m0 = (case prev of None \<Rightarrow> fm_Version m | Some p \<Rightarrow> fm_Version p + 1)"
    using assms(5) by (simp_all add: m0_def next_version_def split: option.split)
  obtain w where save: "FileStore_Save io_ok m0 (world s) = (None, w)"
    by (simp add: FileStore_Save_def io_ok_def Let_def)
  let ?s = "set_manifest name m0 (s\<lparr>world := w\<rparr>)"
  have "persist_manifest name written m s = Returned (Inr ()) ?s"
    using assms(1,2) m0 save
    by (simp add: persist_manifest_def sign_and_save_def ensureSignManifest_def on_world_def)
      (simp add: FileManifestStore_def)
  moreover have "FileStore_Load n (world ?s) =
      (if pathFor n = pathFor name then Inr (Some (json_manifest m0)) else FileStore_Load n (world s))" for n
    using files.load_save[OF save] fields(1) by (simp add: set_manifest_def)
  ultimately show ?thesis using fields assms(4)
    by (intro exI[of _ ?s] exI[of _ "json_manifest m0"]) simp
qed

theorem names_with_one_file_share_a_manifest_witness:
  "\<exists>s' m'. persist_manifest ''a_b'' [] (stream_manifest shelf_env ''a_b'' [] 0 [])
      (start (NewDistributedStorage\<lparr>manifestStore := Some (FileManifestStore io_ok None)\<rparr>)
        [(pathFor ''a/b'', File (Some (stream_manifest shelf_env ''a/b'' [] 0 [])))]) = Returned (Inr ()) s' \<and>
    FileStore_Load ''a/b'' (world s') = Inr (Some m') \<and> fm_FileName m' = ''a_b'' \<and> fm_Version m' = 2"
proof -
  let ?d = "[(pathFor ''a/b'', File (Some (stream_manifest shelf_env ''a/b'' [] 0 [])))]"
  let ?s = "start (NewDistributedStorage\<lparr>manifestStore := Some (FileManifestStore io_ok None)\<rparr>) ?d"
  have "FileStore_Load ''a/b'' ?d = Inr (Some (stream_manifest shelf_env ''a/b'' [] 0 []))"
    by (simp add: FileStore_Load_def)
  then show ?thesis
    using names_with_one_file_share_a_manifest[of ?s "''a/b''"
        "Some (stream_manifest shelf_env ''a/b'' [] 0 [])" "''a_b''" "stream_manifest shelf_env ''a_b'' [] 0 []" "[]"]
    by (auto simp: NewDistributedStorage_def pathFor_def stream_manifest_def)
qed

section \<open>Operations change nothing but the manifests\<close>

definition only_manifests :: "'w sys \<Rightarrow> 'w sys \<Rightarrow> bool" where
  "only_manifests s s' \<longleftrightarrow> (\<exists>mm. st s' = (st s)\<lparr>manifests := mm\<rparr>)"

lemma only_manifests_same: "st s' = st s \<Longrightarrow> only_manifests s s'"
  unfolding only_manifests_def by (rule exI[of _ "manifests (st s)"]) simp

lemma only_manifests_trans: "only_manifests s t \<Longrightarrow> only_manifests t u \<Longrightarrow> only_manifests s u"
  by (auto simp: only_manifests_def)

lemma only_manifests_set [simp]: "only_manifests s (set_manifest name m s)"
  by (auto simp: only_manifests_def set_manifest_def)

lemma st_put_attempts: "st (snd (put_attempts e be sh n le s)) = st s"
  by (induction n arbitrary: le s)
    (auto simp: poll_def on_world_def Let_def split: prod.split option.split)

lemma st_putShardWithRetry: "putShardWithRetry e be sh n s = Returned r s' \<Longrightarrow> st s' = st s"
proof (cases be)
  case None
  then show "putShardWithRetry e be sh n s = Returned r s' \<Longrightarrow> st s' = st s"
    by (auto simp: putShardWithRetry_def poll_def split: if_splits)
next
  case (Some b)
  then show "putShardWithRetry e be sh n s = Returned r s' \<Longrightarrow> st s' = st s"
    using st_put_attempts[of e b sh n None s] by (auto simp: putShardWithRetry_def split: prod.splits)
qed

lemma st_register_orphan [simp]: "st (register_orphan reg sh s) = st s"
  by (simp add: register_orphan_def split: option.split)

lemma st_encrypt_shard: "st (snd (encrypt_shard e enc name sh s)) = st s"
  by (simp add: encrypt_shard_def on_world_def split: prod.split sum.split)

lemma st_encrypt_shards: "st (snd (encrypt_shards e name shs s)) = st s"
proof (induction shs arbitrary: s)
  case Nil
  then show ?case by simp
next
  case (Cons sh shs)
  define first where "first = (case encryptor (st s) of
      None \<Rightarrow> (Inr (sh\<lparr>sh_CipherHash := ''''\<rparr>), s) | Some enc \<Rightarrow> encrypt_shard e enc name sh s)"
  obtain q s1 where q: "first = (q, s1)" by (cases first)
  have "st s1 = st s"
  proof (cases "encryptor (st s)")
    case (Some enc)
    then show ?thesis using q st_encrypt_shard[of e enc name sh s] by (simp add: first_def)
  qed (use q in \<open>simp add: first_def\<close>)
  moreover obtain p s2 where "encrypt_shards e name shs s1 = (p, s2)" by fastforce
  ultimately show ?case using q Cons[of s1] first_def
    by (auto split: sum.split)
qed

lemma st_write_shards: "write_shards e shs written s = Returned r s' \<Longrightarrow> st s' = st s"
proof (induction shs arbitrary: written s)
  case Nil
  then show ?case by simp
next
  case (Cons sh shs)
  show ?case
  proof (cases "choose_backend (st s) sh")
    case None
    then show ?thesis using Cons.prems by simp
  next
    case (Some c)
    show ?thesis
    proof (cases c)
      case (Inl er)
      then show ?thesis using Some Cons.prems by (simp split: if_splits)
    next
      case (Inr b)
      then show ?thesis
        using Some Cons.prems
        by (auto simp: poll_def Let_def andThen_Returned_iff split: if_splits option.splits
            dest!: st_putShardWithRetry Cons.IH)
    qed
  qed
qed

lemma st_sign_and_save: "sign_and_save ms written m s = Returned r s' \<Longrightarrow> st s' = st s"
  by (auto simp: sign_and_save_def on_world_def Let_def split: sum.splits prod.splits option.splits)

lemma only_persist_manifest: "persist_manifest name written m s = Returned r s' \<Longrightarrow> only_manifests s s'"
proof -
  assume run: "persist_manifest name written m s = Returned r s'"
  define o1 where "o1 = (case manifestStore (st s) of None \<Rightarrow> Returned (Inr m) s
    | Some ms \<Rightarrow> sign_and_save ms written
        (case Load ms name (world s) of Inr (Some prev) \<Rightarrow> next_version prev m | _ \<Rightarrow> m) s)"
  have run': "ifOk o1 (\<lambda>m s. Returned (Inr ()) (set_manifest name m s)) = Returned r s'"
    using run by (simp add: persist_manifest_def o1_def)
  then obtain q t where o1: "o1 = Returned q t" by (cases o1) simp_all
  then have "st t = st s" unfolding o1_def by (auto split: option.splits dest: st_sign_and_save)
  then have "only_manifests s t" by (rule only_manifests_same)
  moreover have "only_manifests t s'"
    using run' o1 by (cases q) (auto intro: only_manifests_same)
  ultimately show ?thesis by (rule only_manifests_trans)
qed

lemma only_persist: "persistShardsWithCtx e name shards opts s = Returned r s' \<Longrightarrow> only_manifests s s'"
proof -
  assume run: "persistShardsWithCtx e name shards opts s = Returned r s'"
  obtain plain s1 where s1: "stamp_shards e name shards s = (plain, s1)" by fastforce
  obtain q s2 where s2: "encrypt_shards e name plain s1 = (q, s2)" by fastforce
  have st: "st s2 = st s"
    using stamp_shards_world[OF s1] st_encrypt_shards[of e name plain s1] s2 by simp
  show ?thesis
  proof (cases q)
    case (Inl x)
    then show ?thesis using run s1 s2 st
      by (simp add: persistShardsWithCtx_def only_manifests_same)
  next
    case (Inr shs)
    then obtain p s3 where w: "write_shards e shs [] s2 = Returned p s3"
      using run s1 s2 by (cases "write_shards e shs [] s2") (simp_all add: persistShardsWithCtx_def)
    have "only_manifests s s3" using st_write_shards[OF w] st by (simp add: only_manifests_same)
    moreover have "only_manifests s3 s'"
      using run s1 s2 Inr w
      by (cases p) (auto simp: persistShardsWithCtx_def only_manifests_same dest: only_persist_manifest)
    ultimately show ?thesis by (rule only_manifests_trans)
  qed
qed

end
