(* ===== verification/StorageRuns.thy ===== *)
theory StorageRuns
  imports StorageHeal
begin

text \<open>
  Histories of a storage: every operation as a step, and what holds after any sequence of them.
\<close>

section \<open>The remaining operations change nothing but the manifests\<close>

lemma st_chunk_shards: "st (snd (chunk_shards e name names c idx is' s)) = st s"
proof (induction is' arbitrary: s)
  case Nil
  then show ?case by simp
next
  case (Cons i js)
  obtain rest s2 where "chunk_shards e name names c idx js (s\<lparr>drawn := Suc (drawn s)\<rparr>) = (rest, s2)"
    by fastforce
  then show ?case using Cons[of "s\<lparr>drawn := Suc (drawn s)\<rparr>"] by (simp add: makeShardID_eq)
qed

lemma st_write_chunk: "write_chunk e name shs all s = Returned r s' \<Longrightarrow> st s' = st s"
proof (induction shs arbitrary: all s)
  case Nil
  then show ?case by simp
next
  case (Cons sh shs)
  let ?s = "s\<lparr>polls := Suc (polls s)\<rparr>"
  define first where "first = (case encryptor (st s) of
      None \<Rightarrow> (Inr sh, ?s) | Some enc \<Rightarrow> encrypt_shard e enc name sh ?s)"
  obtain q s1 where q: "first = (q, s1)" by (cases first)
  have s1: "st s1 = st s"
  proof (cases "encryptor (st s)")
    case (Some enc)
    then show ?thesis using q st_encrypt_shard[of e enc name sh ?s] by (simp add: first_def)
  qed (use q in \<open>auto simp: first_def\<close>)
  show ?case
  proof (cases "cancelled e (polls s)")
    case True
    then show ?thesis using Cons.prems by (auto simp: poll_def)
  next
    case False
    show ?thesis
    proof (cases q)
      case (Inl x)
      then show ?thesis using Cons.prems False q s1 by (auto simp: poll_def first_def[symmetric])
    next
      case (Inr sh')
      then show ?thesis
        using Cons.prems False q s1
        by (auto simp: poll_def first_def[symmetric] andThen_Returned_iff split: option.splits
            dest!: st_putShardWithRetry Cons.IH)
    qed
  qed
qed

lemma st_chunk_loop: "chunk_loop e name opts k r all idx s = Returned q s' \<Longrightarrow> st s' = st s"
proof (induction "length (rd_bytes r)" arbitrary: r all idx s rule: less_induct)
  case less
  let ?s = "s\<lparr>polls := polls s + 1\<rparr>"
  show ?case
  proof (cases "cancelled e (polls s)")
    case True
    then show ?thesis using less.prems by (subst (asm) chunk_loop.simps) (auto simp: poll_def)
  next
    case False
    show ?thesis
    proof (cases "ReadFull k r")
      case (Inl x)
      then show ?thesis using less.prems False by (subst (asm) chunk_loop.simps) (auto simp: poll_def)
    next
      case (Inr p)
      obtain c eof r' where p: "p = (c, eof, r')" by (metis prod_cases3)
      let ?names = "sort (map fst (backends (st s)))"
      show ?thesis
      proof (cases "c = [] \<or> ?names = []")
        case True
        then show ?thesis using less.prems False Inr p
          by (subst (asm) chunk_loop.simps) (auto simp: poll_def split: if_splits)
      next
        case ne: False
        let ?is = "[0..<nat (opt_above 0 (int (length ?names)) opts ''replicas'')]"
        obtain new s1 where new: "chunk_shards e name ?names c idx ?is ?s = (new, s1)" by fastforce
        have s1: "st s1 = st s" using st_chunk_shards[of e name ?names c idx ?is ?s] new by simp
        define f where "f = (\<lambda>shardsAll (s :: 'a sys). if eof then Returned (Inr (shardsAll, idx + 1)) s
          else chunk_loop e name opts k r' shardsAll (idx + 1) s)"
        have run: "ifOk (write_chunk e name new all s1) f = Returned q s'"
          using less.prems False Inr p ne new unfolding f_def
          by (subst (asm) chunk_loop.simps) (simp add: poll_def Let_def)
        obtain w s2 where w: "write_chunk e name new all s1 = Returned w s2"
          using run by (cases "write_chunk e name new all s1") simp_all
        have s2: "st s2 = st s" using st_write_chunk[OF w] s1 by simp
        show ?thesis
        proof (cases w)
          case (Inl x)
          then show ?thesis using run w s2 by simp
        next
          case ok: (Inr all')
          then have "f all' s2 = Returned q s'" using run w by simp
          then show ?thesis
            using less.hyps[of r' all' "idx + 1" s2] ReadFull_less[of k r c eof r'] Inr p ne s2
            by (auto simp: f_def split: if_splits)
        qed
      qed
    qed
  qed
qed

lemma only_stream: "stream_chunks e name r opts s = Returned q s' \<Longrightarrow> only_manifests s s'"
proof -
  assume run: "stream_chunks e name r opts s = Returned q s'"
  let ?loop = "chunk_loop e name opts (nat (opt_above 0 67108864 opts ''chunk_size'')) r [] 0 s"
  obtain w s1 where w: "?loop = Returned w s1"
    using run unfolding stream_chunks_def by (cases ?loop) simp_all
  have s1: "st s1 = st s" using st_chunk_loop[OF w] .
  show ?thesis
  proof (cases w)
    case (Inl x)
    then show ?thesis using run w s1 by (simp add: stream_chunks_def only_manifests_same)
  next
    case (Inr p)
    obtain all n where p: "p = (all, n)" by (cases p)
    define m where "m = stream_manifest e name all n opts"
    define o1 where "o1 = (case manifestStore (st s1) of
        None \<Rightarrow> Returned (Inr m) s1 | Some ms \<Rightarrow> sign_and_save ms all m s1)"
    have fin: "ifOk o1 (\<lambda>m s. Returned (Inr ()) (set_manifest name m s)) = Returned q s'"
      using run w Inr p unfolding o1_def m_def by (simp add: stream_chunks_def Let_def)
    then obtain v s2 where v: "o1 = Returned v s2" by (cases o1) simp_all
    have "st s2 = st s1" using v by (auto simp: o1_def split: option.splits dest: st_sign_and_save)
    then have "only_manifests s s2" using s1 by (simp add: only_manifests_same)
    moreover have "only_manifests s2 s'"
      using fin v by (cases v) (auto intro: only_manifests_same)
    ultimately show ?thesis by (rule only_manifests_trans)
  qed
qed

lemma st_fill_ids: "st (snd (fill_ids e name shs s)) = st s"
proof (induction shs arbitrary: s)
  case Nil
  then show ?case by simp
next
  case (Cons sh shs)
  obtain r1 s1 where "fill_ids e name shs s = (r1, s1)" by fastforce
  moreover obtain r2 s2 where "fill_ids e name shs (s\<lparr>drawn := Suc (drawn s)\<rparr>) = (r2, s2)" by fastforce
  ultimately show ?case
    using Cons[of s] Cons[of "s\<lparr>drawn := Suc (drawn s)\<rparr>"] by (simp add: makeShardID_eq)
qed

lemma only_encoded: "upload_encoded e ec name r len opts s = Returned q s' \<Longrightarrow> only_manifests s s'"
proof -
  assume run: "upload_encoded e ec name r len opts s = Returned q s'"
  show ?thesis
  proof (cases "read_all e r len")
    case (Inl x)
    then show ?thesis using run by (auto simp: upload_encoded_def intro: only_manifests_same)
  next
    case (Inr data)
    show ?thesis
    proof (cases "Encode ec data 4 2")
      case (Inl x)
      then show ?thesis using run Inr by (auto simp: upload_encoded_def intro: only_manifests_same)
    next
      case enc: (Inr shards)
      obtain shs s1 where s1: "fill_ids e name shards s = (shs, s1)" by fastforce
      then have "st s1 = st s" using st_fill_ids[of e name shards s] by simp
      moreover have "only_manifests s1 s'"
        using run Inr enc s1 by (auto simp: upload_encoded_def dest: only_persist)
      ultimately show ?thesis using only_manifests_same only_manifests_trans by blast
    qed
  qed
qed

lemma only_Upload: "UploadStream e name r len opts s = Returned q s' \<Longrightarrow> only_manifests s s'"
proof -
  assume run: "UploadStream e name r len opts s = Returned q s'"
  show ?thesis
  proof (cases "policy_error (st s) ''upload'' None [(''filename'', AStr name), (''opts'', AMap opts)]")
    case (Some er)
    then show ?thesis using run by (auto simp: UploadStream_def intro: only_manifests_same)
  next
    case None
    show ?thesis
    proof (cases "placementPlugin (st s)")
      case pp: None
      show ?thesis
        using run None pp by (cases "erasureCoder (st s)")
          (auto simp: UploadStream_def dest: only_stream only_encoded)
    next
      case pp: (Some pp)
      show ?thesis
      proof (cases "PlaceShardsStream pp")
        case place: None
        then show ?thesis using run None pp by (auto simp: UploadStream_def dest: only_stream)
      next
        case place: (Some place)
        define o1 where "o1 = in_world s (place r len (backends (st s)) opts (world s))"
        have fin: "ifOk o1 (\<lambda>shards s. persistShardsWithCtx e name shards opts s) = Returned q s'"
          using run None pp place by (simp add: UploadStream_def o1_def)
        then obtain v s1 where v: "o1 = Returned v s1" by (cases o1) simp_all
        have "st s1 = st s" using v unfolding o1_def
          by (cases "place r len (backends (st s)) opts (world s)") auto
        then have "only_manifests s s1" by (rule only_manifests_same)
        moreover have "only_manifests s1 s'"
          using fin v by (cases v) (auto intro: only_manifests_same dest: only_persist)
        ultimately show ?thesis by (rule only_manifests_trans)
      qed
    qed
  qed
qed

lemma st_getShard: "st (snd (getShardBackendDirect e b i s)) = st s"
  by (auto simp: getShardBackendDirect_def poll_def on_world_def Let_def
      split: option.split sum.split prod.split)

lemma st_fetch_shard: "st (snd (fetch_shard e si s)) = st s"
proof -
  obtain r s1 where "getShardBackendDirect e (si_Backend si) (si_ID si) s = (r, s1)" by fastforce
  then show ?thesis using st_getShard[of e "si_Backend si" "si_ID si" s] by (simp add: fetch_shard_def)
qed

lemma st_fetch_goroutine: "st (snd (fetch_goroutine e si s)) = st s"
  using st_fetch_shard[of e si "s\<lparr>polls := polls s + 1\<rparr>"] by (simp add: fetch_goroutine_def poll_def)

lemma st_fetch_all: "(\<And>si s. st (snd (f si s)) = st s) \<Longrightarrow> st (snd (fetch_all f sis s)) = st s"
proof (induction sis arbitrary: s)
  case Nil
  then show ?case by simp
next
  case (Cons si sis)
  obtain x s1 where x: "f si s = (x, s1)" by fastforce
  moreover obtain xs s2 where "fetch_all f sis s1 = (xs, s2)" by fastforce
  ultimately show ?case using Cons.IH[of s1] Cons.prems by (simp add: Cons.prems[of si s, symmetric])
qed

lemma only_reload: "only_manifests s (snd (reload name m s))"
  by (simp add: reload_def only_manifests_same split: option.split sum.split)

lemma only_repair_and_retry: "only_manifests s (snd (snd (repair_and_retry e name m found s)))"
proof (cases "repairPlugin (st s)")
  case None
  then show ?thesis by (simp add: repair_and_retry_def only_manifests_same)
next
  case (Some rp)
  obtain r m1 w where rp: "rp m (backends (st s)) (world s) = (r, m1, w)" by (metis prod_cases3)
  let ?s = "s\<lparr>world := w\<rparr>"
  obtain m2 s2 where m2: "reload name m1 ?s = (m2, s2)" by fastforce
  obtain xs s3 where xs: "fetch_all (fetch_shard e) (fm_Shards m2) s2 = (xs, s3)" by fastforce
  have "only_manifests s ?s" by (simp add: only_manifests_same)
  moreover have "only_manifests ?s s2" using only_reload[of ?s name m1] m2 by simp
  moreover have "only_manifests s2 s3"
    using st_fetch_all[of "fetch_shard e", OF st_fetch_shard, of "fm_Shards m2" s2] xs
    by (simp add: only_manifests_same)
  ultimately have "only_manifests s ?s" "only_manifests s s3"
    using only_manifests_trans by blast+
  then show ?thesis using Some rp m2 xs by (cases r) (simp_all add: repair_and_retry_def)
qed

lemma only_Download: "only_manifests s (snd (Download e order name s))"
proof -
  let ?s = "s\<lparr>polls := Suc (polls s)\<rparr>"
  have same: "only_manifests s ?s" by (simp add: only_manifests_same)
  show ?thesis
  proof (cases "cancelled e (polls s) \<or> get (manifests (st s)) name = None")
    case True
    then show ?thesis using same by (auto simp: Download_def poll_def)
  next
    case False
    then obtain m where m: "get (manifests (st s)) name = Some m" by auto
    show ?thesis
    proof (cases "policy_error (st s) ''download'' (Some m) [(''filename'', AStr name)]")
      case (Some er)
      then show ?thesis using same False m by (simp add: Download_def poll_def)
    next
      case None
      let ?sis = "map ((!) (fm_Shards m)) order"
      obtain xs s1 where xs: "fetch_all (fetch_goroutine e) ?sis ?s = (xs, s1)" by fastforce
      have s1: "only_manifests s s1"
        using st_fetch_all[of "fetch_goroutine e", OF st_fetch_goroutine, of ?sis ?s] xs
        by (simp add: only_manifests_same)
      obtain m2 f2 s2 where r: "repair_and_retry e name m (found_of xs) s1 = (m2, f2, s2)"
        by (metis prod_cases3)
      have "only_manifests s s2"
        using only_manifests_trans[OF s1] only_repair_and_retry[of s1 e name m "found_of xs"] r by simp
      then show ?thesis using False m None xs r s1
        by (simp add: Download_def poll_def Let_def split: option.split)
    qed
  qed
qed

lemma st_any_unreadable: "st (snd (any_unreadable e sis s)) = st s"
proof (induction sis arbitrary: s)
  case Nil
  then show ?case by simp
next
  case (Cons si sis)
  obtain r s1 where r: "getShardBackendDirect e (si_Backend si) (si_ID si) s = (r, s1)" by fastforce
  then have "st s1 = st s" using st_getShard[of e "si_Backend si" "si_ID si" s] by simp
  then show ?case using r Cons[of s1] by (cases r) simp_all
qed

lemma only_scan_one: "only_manifests s (scan_one e name s)"
proof (cases "get (manifests (st s)) name")
  case None
  then show ?thesis by (simp add: scan_one_def only_manifests_same)
next
  case m: (Some m)
  show ?thesis
  proof (cases "policy_error (st s) ''repair_check'' (Some m) [(''filename'', AStr name)]")
    case (Some er)
    then show ?thesis using m by (simp add: scan_one_def only_manifests_same)
  next
    case None
    obtain b s1 where b: "any_unreadable e (fm_Shards m) s = (b, s1)" by fastforce
    have s1: "st s1 = st s" using st_any_unreadable[of e "fm_Shards m" s] b by simp
    show ?thesis
    proof (cases "repairPlugin (st s1)")
      case rp: None
      then show ?thesis using m None b s1 by (simp add: scan_one_def only_manifests_same)
    next
      case rp: (Some rp)
      obtain r m' w where r: "rp m (backends (st s1)) (world s1) = (r, m', w)" by (metis prod_cases3)
      have "only_manifests s (s1\<lparr>world := w\<rparr>)" "only_manifests s s1"
        using s1 by (simp_all add: only_manifests_same)
      moreover from this(1) have "only_manifests s (snd (reload name m (s1\<lparr>world := w\<rparr>)))"
        using only_reload only_manifests_trans by blast
      ultimately show ?thesis using m None b rp r by (simp add: scan_one_def Let_def)
    qed
  qed
qed

lemma only_scan: "only_manifests s (scanAndRepair e s)"
proof -
  have "only_manifests s (foldl (\<lambda>s name. scan_one e name s) s names)" for names
  proof (induction names arbitrary: s)
    case Nil
    then show ?case by (simp add: only_manifests_same)
  next
    case (Cons n names)
    then show ?case using only_scan_one only_manifests_trans by (metis foldl_Cons)
  qed
  then show ?thesis by (simp add: scanAndRepair_def)
qed

lemma st_repair_named: "st (snd (repair_named name s)) = st s"
  by (simp add: repair_named_def split: option.split prod.split)

lemma st_each: "(\<And>x s r. f x s = Some r \<Longrightarrow> st (snd r) = st s) \<Longrightarrow> each f xs s = Some r \<Longrightarrow> st (snd r) = st s"
proof (induction xs arbitrary: s)
  case Nil
  then show ?case by auto
next
  case (Cons x xs)
  then obtain q s1 where q: "f x s = Some (q, s1)" by (auto split: option.splits prod.splits)
  then have "st s1 = st s" using Cons.prems(1) by fastforce
  then show ?case using Cons q by (cases q) auto
qed

lemma st_TriggerRepair: "TriggerRepair n name s = Some r \<Longrightarrow> st (snd r) = st s"
proof (induction n arbitrary: name s r)
  case 0
  then show ?case by simp
next
  case (Suc n)
  show ?case
  proof (cases "name = ''''")
    case True
    then have "each (TriggerRepair n) (map fst (manifests (st s))) s = Some r" using Suc.prems by simp
    then show ?thesis by (rule st_each[rotated]) (rule Suc.IH)
  next
    case False
    then show ?thesis using Suc.prems st_repair_named[of name s] by auto
  qed
qed

lemma only_Import: "only_manifests s (snd (ImportManifestJSON e decoded s))"
proof (cases decoded)
  case (Inl x)
  then show ?thesis by (simp add: ImportManifestJSON_def only_manifests_same)
next
  case (Inr m)
  let ?m = "import_fields e (st s) m"
  let ?s = "set_manifest (fm_FileName ?m) ?m s"
  have "only_manifests s (snd (on_world g ?s))" for g :: "_ \<Rightarrow> serror option \<times> _"
  proof (rule only_manifests_trans)
    show "only_manifests s ?s" by simp
    show "only_manifests ?s (snd (on_world g ?s))"
      by (rule only_manifests_same) (simp add: on_world_def split: prod.split)
  qed
  then have save: "only_manifests s (snd (case manifestStore (st ?s) of
      None \<Rightarrow> (None, ?s) | Some ms \<Rightarrow> on_world (Save ms (import_fields e (st s) m)) ?s))"
    by (cases "manifestStore (st ?s)") simp_all
  show ?thesis
  proof (cases "fm_FileName m = '''' \<or> fm_Shards m = []")
    case True
    then show ?thesis using Inr by (simp add: ImportManifestJSON_def only_manifests_same)
  next
    case False
    then show ?thesis using Inr save
      by (cases "case manifestSigner (st s) of None \<Rightarrow> None | Some sg \<Rightarrow> Verify sg m")
        (simp_all add: ImportManifestJSON_def Let_def only_manifests_same)
  qed
qed

section \<open>Histories\<close>

text \<open>
  One operation of the storage. What it meets outside (the world, the reader, the order of the
  goroutines, errors) is arbitrary. A panic takes the process down and is not a step.
\<close>

inductive storage_step :: "'w DistributedStorage \<Rightarrow> 'w DistributedStorage \<Rightarrow> bool" where
  "storage_step d (SetManifestStore ms w d)"
| "storage_step d (RegisterBackend name be d)"
| "storage_step d (SetPlacementPlugin pp d)"
| "storage_step d (SetRepairPlugin rp d)"
| "storage_step d (SetErasureCoder ec d)"
| "storage_step d (SetPolicyChecker pc d)"
| "storage_step d (SetEncryptor enc d)"
| "storage_step d (SetManifestSigner sg d)"
| "storage_step d (SetOrphanRegistry reg d)"
| "storage_step d (SetPluginWhitelist wl d)"
| "storage_step d (snd (LoadPlugin er name path d))"
| "storage_step d (StartSelfHealing interval d)"
| "storage_step d (StopSelfHealing d)"
| "UploadStream e name r len opts (start d w) = Returned q s \<Longrightarrow> storage_step d (st s)"
| "storage_step d (st (snd (Download e order name (start d w))))"
| "repair_tick e c (start d w) = Returned () s \<Longrightarrow> storage_step d (st s)"
| "TriggerRepair n name (start d w) = Some (q, s) \<Longrightarrow> storage_step d (st s)"
| "storage_step d (st (snd (ImportManifestJSON e decoded (start d w))))"

inductive storage_reach :: "'w DistributedStorage \<Rightarrow> bool" where
  new: "storage_reach NewDistributedStorage"
| step: "storage_reach d \<Longrightarrow> storage_step d d' \<Longrightarrow> storage_reach d'"

inductive_simps storage_step_iff: "storage_step d d'"

definition heal_ok :: "'w DistributedStorage \<Rightarrow> bool" where
  "heal_ok d \<longleftrightarrow> 0 < repairInterval d \<and>
     repairLoops d = (if repairRunning d then [the (repairCtx d)] else []) \<and>
     (repairRunning d \<longrightarrow> repairCtx d \<noteq> None)"

lemma heal_ok_only: "only_manifests (start d w) s \<Longrightarrow> heal_ok d \<Longrightarrow> heal_ok (st s)"
  by (auto simp: only_manifests_def heal_ok_def)

lemma heal_ok_tick:
  "repair_tick e c s = Returned () s' \<Longrightarrow> only_manifests s s'"
  using only_scan[of s e] by (auto simp: repair_tick_def only_manifests_same split: if_splits)

lemma heal_ok_step:
  assumes "storage_step d d'" and "heal_ok d"
  shows "heal_ok d'"
  using assms
proof (induction rule: storage_step.induct)
  case (1 d ms w)
  then show ?case by (simp add: SetManifestStore_def heal_ok_def Let_def split: option.split sum.split)
next
  case (11 d er name path)
  then show ?case by (simp add: LoadPlugin_def heal_ok_def split: option.split)
next
  case (12 d interval)
  then show ?case by (auto simp: StartSelfHealing_def heal_ok_def Let_def split: option.split)
next
  case (13 d)
  then show ?case by (auto simp: StopSelfHealing_def heal_ok_def Let_def split: option.split)
next
  case (14 e name r len opts d w q s)
  then show ?case by (blast intro: heal_ok_only only_Upload)
next
  case (15 d e order name w)
  then show ?case by (blast intro: heal_ok_only only_Download)
next
  case (16 e c d w s)
  then show ?case by (blast intro: heal_ok_only heal_ok_tick)
next
  case (17 n name d w q s)
  then show ?case using st_TriggerRepair[of n name "start d w" "(q, s)"] by simp
next
  case (18 d e decoded w)
  then show ?case by (blast intro: heal_ok_only only_Import)
qed (simp_all add: heal_ok_def RegisterBackend_def SetPlacementPlugin_def SetRepairPlugin_def
    SetErasureCoder_def SetPolicyChecker_def SetEncryptor_def SetManifestSigner_def
    SetOrphanRegistry_def SetPluginWhitelist_def)

lemma heal_ok_reach: "storage_reach d \<Longrightarrow> heal_ok d"
proof (induction rule: storage_reach.induct)
  case new
  then show ?case by (simp add: heal_ok_def NewDistributedStorage_def Second_def)
next
  case (step d d')
  then show ?case using heal_ok_step by blast
qed

text \<open>
  Over every history of operations, starts and stops of the self-healing, at most one repair
  loop is alive, namely the one of the last start when it is running; none outlives a stop. The
  interval stays positive, so making the ticker never panics.
\<close>

theorem at_most_one_repair_loop:
  assumes "storage_reach d"
  shows "length (repairLoops d) \<le> 1 \<and> (repairRunning d \<longleftrightarrow> repairLoops d \<noteq> []) \<and>
    repairLoops (StopSelfHealing d) = [] \<and> (\<exists>s'. repair_tick e c (start d w) = Returned () s')"
proof (intro conjI)
  have ok: "heal_ok d" using assms by (rule heal_ok_reach)
  then show "length (repairLoops d) \<le> 1" and "repairRunning d \<longleftrightarrow> repairLoops d \<noteq> []"
    by (simp_all add: heal_ok_def)
  show "repairLoops (StopSelfHealing d) = []"
    using ok by (auto simp: heal_ok_def StopSelfHealing_def Let_def split: option.split)
  show "\<exists>s'. repair_tick e c (start d w) = Returned () s'"
    using ok by (auto simp: heal_ok_def repair_tick_def)
qed

theorem at_most_one_repair_loop_witness:
  "length (repairLoops (StartSelfHealing 5 (StopSelfHealing (StartSelfHealing 3 NewDistributedStorage)))) \<le> 1"
proof (rule at_most_one_repair_loop[THEN conjunct1])
  have "storage_reach (StopSelfHealing (StartSelfHealing 3 NewDistributedStorage))"
    by (rule storage_reach.step[OF storage_reach.step[OF storage_reach.new]]) (rule storage_step.intros)+
  then show "storage_reach (StartSelfHealing 5 (StopSelfHealing (StartSelfHealing 3 NewDistributedStorage)))"
    by (rule storage_reach.step) (rule storage_step.intros)
qed

end
