(* ===== verification/Geo.thy ===== *)
theory Geo
  imports GoStrings
begin

text \<open>
  The location manager of \<^verbatim>\<open>src/internal/geo/service_location.go\<close>: the registered services and
  nodes with their coordinates, subscribers, queries by region, distance and latency. The mutex is
  part of the state: a method that needs it twice ends in \<open>Blocked\<close>. A subscriber is known by a
  number; \<open>delivered\<close> records the callbacks started, oldest first. The elevation and latency services
  are parameters, \<open>None\<close> standing for their errors. Distances are exact reals.
\<close>

section \<open>State\<close>

record ServiceLocation =
  sl_ID :: string
  sl_Service :: string
  sl_Region :: string
  sl_Country :: string
  sl_Latitude :: float64
  sl_Longitude :: float64
  sl_Altitude :: float64
  sl_Accuracy :: float64
  sl_LastSeen :: gotime
  sl_LatencyMs :: float64
  sl_Capacity :: "(string, any) gomap"
  sl_Meta :: "(string, any) gomap"

type_synonym GeoIPResolver = "string \<Rightarrow> (string \<times> float64 \<times> float64) option"
type_synonym ElevationProvider = "float64 \<Rightarrow> float64 \<Rightarrow> float64 option"
type_synonym LatencyEstimator = "float64 \<Rightarrow> float64 \<Rightarrow> ServiceLocation \<Rightarrow> float64 option"
type_synonym Subscriber = nat

record LocationManager =
  lm_mu :: rwmutex
  locations :: "(string, ServiceLocation) gomap"
  subscribers :: "Subscriber option list"
  geoIP :: "GeoIPResolver option"
  elevation :: "ElevationProvider option"
  latencyEstimator :: "LatencyEstimator option"
  staleThreshold :: duration
  delivered :: "(Subscriber \<times> string \<times> ServiceLocation) list"

definition NewLocationManager :: LocationManager where
  "NewLocationManager =
     \<lparr>lm_mu = Unlocked, locations = [], subscribers = [], geoIP = None, elevation = None,
      latencyEstimator = None, staleThreshold = 24 * Hour, delivered = []\<rparr>"

definition lm_locked ::
    "(LocationManager \<Rightarrow> ('r, LocationManager) outcome) \<Rightarrow> LocationManager
      \<Rightarrow> ('r, LocationManager) outcome" where
  "lm_locked f lm =
     (if can_lock (lm_mu lm)
      then andThen (f (lm\<lparr>lm_mu := WLocked\<rparr>)) (\<lambda>r lm. Returned r (lm\<lparr>lm_mu := Unlocked\<rparr>))
      else Blocked lm)"

definition lm_read :: "(LocationManager \<Rightarrow> 'r) \<Rightarrow> LocationManager \<Rightarrow> ('r, LocationManager) outcome" where
  "lm_read f lm = (if can_rlock (lm_mu lm) then Returned (f lm) lm else Blocked lm)"

section \<open>Registration\<close>

definition SetProviders ::
    "GeoIPResolver option \<Rightarrow> ElevationProvider option \<Rightarrow> LatencyEstimator option \<Rightarrow> LocationManager
      \<Rightarrow> (unit, LocationManager) outcome" where
  "SetProviders geo elev lat =
     lm_locked (\<lambda>lm. Returned () (lm\<lparr>geoIP := geo, elevation := elev, latencyEstimator := lat\<rparr>))"

text \<open>The result is the index that the returned unsubscribe function clears.\<close>

definition Subscribe :: "Subscriber \<Rightarrow> LocationManager \<Rightarrow> (nat, LocationManager) outcome" where
  "Subscribe s =
     lm_locked (\<lambda>lm. Returned (length (subscribers lm)) (lm\<lparr>subscribers := subscribers lm @ [Some s]\<rparr>))"

definition unsubscribe :: "nat \<Rightarrow> LocationManager \<Rightarrow> (unit, LocationManager) outcome" where
  "unsubscribe idx =
     lm_locked (\<lambda>lm. Returned ()
       (if idx < length (subscribers lm) then lm\<lparr>subscribers := (subscribers lm)[idx := None]\<rparr> else lm))"

definition notify :: "string \<Rightarrow> ServiceLocation \<Rightarrow> LocationManager \<Rightarrow> (unit, LocationManager) outcome" where
  "notify event loc lm =
     (if can_rlock (lm_mu lm)
      then Returned () (lm\<lparr>delivered := delivered lm @ [(s, event, loc). Some s \<leftarrow> subscribers lm]\<rparr>)
      else Blocked lm)"

text \<open>\<open>go lm.notify(event, loc)\<close> for several locations, run once the lock is free.\<close>

fun notify_all :: "string \<Rightarrow> ServiceLocation list \<Rightarrow> LocationManager \<Rightarrow> (unit, LocationManager) outcome" where
  "notify_all event [] lm = Returned () lm"
| "notify_all event (loc # locs) lm =
     andThen (notify event loc lm) (\<lambda>_ lm. notify_all event locs lm)"

definition stamped :: "gotime \<Rightarrow> ServiceLocation \<Rightarrow> ServiceLocation" where
  "stamped now loc = (if IsZero (sl_LastSeen loc) then loc\<lparr>sl_LastSeen := now\<rparr> else loc)"

text \<open>
  The result is the argument of the goroutine that fills in the elevation, when one is started;
  that goroutine is \<open>fill_elevation\<close>, which reads the provider again.
\<close>

definition Register ::
    "ServiceLocation \<Rightarrow> gotime \<Rightarrow> LocationManager
      \<Rightarrow> ((string \<times> float64 \<times> float64) option, LocationManager) outcome" where
  "Register loc now lm =
     (let loc = stamped now loc
      in andThen (lm_locked (\<lambda>lm. Returned () (lm\<lparr>locations := put (sl_ID loc) loc (locations lm)\<rparr>)) lm)
         (\<lambda>_ lm. andThen (notify ''register'' loc lm)
         (\<lambda>_ lm. Returned
           (if sl_Altitude loc = 0 \<and> elevation lm \<noteq> None
            then Some (sl_ID loc, sl_Latitude loc, sl_Longitude loc) else None) lm)))"

definition fill_elevation ::
    "string \<times> float64 \<times> float64 \<Rightarrow> LocationManager \<Rightarrow> (unit, LocationManager) outcome" where
  "fill_elevation go lm =
     (case go of (sid, lat, lon) \<Rightarrow>
        case elevation lm of
          None \<Rightarrow> Panicked lm
        | Some el \<Rightarrow>
            (case el lat lon of
               None \<Rightarrow> Returned () lm
             | Some alt \<Rightarrow>
                 andThen (lm_locked (\<lambda>lm. case get (locations lm) sid of
                     None \<Rightarrow> Returned None lm
                   | Some cur \<Rightarrow>
                       (let cur = cur\<lparr>sl_Altitude := alt\<rparr>
                        in Returned (Some cur) (lm\<lparr>locations := put sid cur (locations lm)\<rparr>))) lm)
                 (\<lambda>filled lm. case filled of
                     None \<Rightarrow> Returned () lm
                   | Some cur \<Rightarrow> notify ''elevation_filled'' cur lm)))"

definition Deregister :: "string \<Rightarrow> LocationManager \<Rightarrow> (unit, LocationManager) outcome" where
  "Deregister sid lm =
     andThen (lm_locked (\<lambda>lm. case get (locations lm) sid of
         None \<Rightarrow> Returned None lm
       | Some loc \<Rightarrow> Returned (Some loc) (lm\<lparr>locations := del sid (locations lm)\<rparr>)) lm)
     (\<lambda>gone lm. case gone of None \<Rightarrow> Returned () lm | Some loc \<Rightarrow> notify ''deregister'' loc lm)"

definition Get :: "string \<Rightarrow> LocationManager \<Rightarrow> (ServiceLocation option, LocationManager) outcome" where
  "Get sid = lm_read (\<lambda>lm. get (locations lm) sid)"

datatype location_error = LocationNotFound | ServicesNotFound | BadJSON

text \<open>The notification of a heartbeat takes the read lock while the write lock is held.\<close>

definition UpdateHeartbeat ::
    "string \<Rightarrow> float64 \<Rightarrow> (string, any) gomap \<Rightarrow> gotime \<Rightarrow> LocationManager
      \<Rightarrow> (location_error option, LocationManager) outcome" where
  "UpdateHeartbeat sid latencyMs meta now =
     lm_locked (\<lambda>lm. case get (locations lm) sid of
         None \<Rightarrow> Returned (Some LocationNotFound) lm
       | Some loc \<Rightarrow>
           (let loc = loc\<lparr>sl_LastSeen := now\<rparr>;
                loc = (if latencyMs \<ge> 0 then loc\<lparr>sl_LatencyMs := latencyMs\<rparr> else loc);
                loc = loc\<lparr>sl_Meta := put_all meta (sl_Meta loc)\<rparr>;
                lm = lm\<lparr>locations := put sid loc (locations lm)\<rparr>
            in andThen (notify ''heartbeat'' loc lm) (\<lambda>_ lm. Returned None lm)))"

definition PruneStale :: "duration \<Rightarrow> gotime \<Rightarrow> LocationManager \<Rightarrow> (nat, LocationManager) outcome" where
  "PruneStale threshold now lm =
     (let threshold = (if threshold \<le> 0 then staleThreshold lm else threshold);
          stale = (\<lambda>(_, loc). sl_LastSeen loc < now - threshold)
      in andThen (lm_locked (\<lambda>lm. Returned (map snd (filter stale (locations lm)))
             (lm\<lparr>locations := filter (\<lambda>e. \<not> stale e) (locations lm)\<rparr>)) lm)
         (\<lambda>removed lm. andThen (notify_all ''pruned'' removed lm)
         (\<lambda>_ lm. Returned (length removed) lm)))"

section \<open>Queries\<close>

definition ListAll :: "LocationManager \<Rightarrow> (ServiceLocation list, LocationManager) outcome" where
  "ListAll = lm_read (\<lambda>lm. map snd (locations lm))"

definition GetByRegion :: "string \<Rightarrow> LocationManager \<Rightarrow> (ServiceLocation list, LocationManager) outcome" where
  "GetByRegion region =
     lm_read (\<lambda>lm. filter (\<lambda>loc. EqualFold (sl_Region loc) region) (map snd (locations lm)))"

definition minInt :: "int \<Rightarrow> int \<Rightarrow> int" where
  "minInt a b = (if a < b then a else b)"

definition toRad :: "real \<Rightarrow> real" where
  "toRad deg = deg * pi / 180"

text \<open>math.Atan2 for a second argument that is not negative, the only case that arises.\<close>

definition Atan2 :: "real \<Rightarrow> real \<Rightarrow> real" where
  "Atan2 y x = (if x = 0 then (if y = 0 then 0 else if y > 0 then pi / 2 else - pi / 2) else arctan (y / x))"

definition haversine :: "real \<Rightarrow> real \<Rightarrow> real \<Rightarrow> real \<Rightarrow> real" where
  "haversine lat1 lon1 lat2 lon2 =
     (let p1 = toRad lat1; p2 = toRad lat2; dp = toRad (lat2 - lat1); dl = toRad (lon2 - lon1)
      in sin (dp / 2) * sin (dp / 2) + cos p1 * cos p2 * sin (dl / 2) * sin (dl / 2))"

definition HaversineMeters :: "float64 \<Rightarrow> float64 \<Rightarrow> float64 \<Rightarrow> float64 \<Rightarrow> real" where
  "HaversineMeters lat1 lon1 lat2 lon2 =
     (let a = haversine (of_rat lat1) (of_rat lon1) (of_rat lat2) (of_rat lon2);
          c = 2 * Atan2 (sqrt a) (sqrt (1 - a))
      in 6371000 * c)"

definition distance_to :: "float64 \<Rightarrow> float64 \<Rightarrow> ServiceLocation \<Rightarrow> real" where
  "distance_to lat lon loc = HaversineMeters lat lon (sl_Latitude loc) (sl_Longitude loc)"

text \<open>A negative count panics: it is the capacity of a slice.\<close>

definition FindNearest ::
    "float64 \<Rightarrow> float64 \<Rightarrow> int \<Rightarrow> LocationManager \<Rightarrow> (ServiceLocation list, LocationManager) outcome" where
  "FindNearest lat lon n lm =
     andThen (ListAll lm) (\<lambda>everything lm.
       (let arr = map (\<lambda>loc. (loc, distance_to lat lon loc)) everything;
            arr = sort_slice (\<lambda>a b. snd a < snd b) arr;
            k = minInt n (int (length arr))
        in if k < 0 then Panicked lm else Returned (map fst (take (nat k) arr)) lm))"

definition FindWithinRadius ::
    "float64 \<Rightarrow> float64 \<Rightarrow> float64 \<Rightarrow> LocationManager \<Rightarrow> (ServiceLocation list, LocationManager) outcome" where
  "FindWithinRadius lat lon radiusMeters lm =
     andThen (ListAll lm) (\<lambda>everything lm.
       Returned (filter (\<lambda>loc. distance_to lat lon loc \<le> of_rat radiusMeters) everything) lm)"

definition MaxFloat64 :: real where
  "MaxFloat64 = (2 ^ 53 - 1) * 2 ^ 971"

fun closest_loop ::
    "string \<Rightarrow> (ServiceLocation \<Rightarrow> real) \<Rightarrow> ServiceLocation list \<Rightarrow> real \<Rightarrow> ServiceLocation option
      \<Rightarrow> ServiceLocation option" where
  "closest_loop serviceName d [] bestD best = best"
| "closest_loop serviceName d (loc # locs) bestD best =
     (if \<not> EqualFold (sl_Service loc) serviceName then closest_loop serviceName d locs bestD best
      else if d loc < bestD then closest_loop serviceName d locs (d loc) (Some loc)
      else closest_loop serviceName d locs bestD best)"

definition GetClosestService ::
    "string \<Rightarrow> float64 \<Rightarrow> float64 \<Rightarrow> LocationManager \<Rightarrow> (ServiceLocation option, LocationManager) outcome" where
  "GetClosestService serviceName lat lon =
     lm_read (\<lambda>lm. closest_loop serviceName (distance_to lat lon) (map snd (locations lm)) MaxFloat64 None)"

definition ResolveServiceRegion ::
    "string \<Rightarrow> LocationManager
      \<Rightarrow> ((string \<times> string \<times> float64 \<times> float64) option, LocationManager) outcome" where
  "ResolveServiceRegion serviceID =
     lm_read (\<lambda>lm. map_option (\<lambda>loc. (sl_Region loc, sl_Country loc, sl_Latitude loc, sl_Longitude loc))
       (get (locations lm) serviceID))"

text \<open>The estimate between two known services: the estimator, the stored latency, the distance.\<close>

definition latency_between :: "LatencyEstimator option \<Rightarrow> ServiceLocation \<Rightarrow> ServiceLocation \<Rightarrow> real" where
  "latency_between est src dst =
     (case (case est of None \<Rightarrow> None | Some f \<Rightarrow> f (sl_Latitude src) (sl_Longitude src) dst) of
        Some v \<Rightarrow> of_rat v
      | None \<Rightarrow>
          if sl_LatencyMs dst > 0 then of_rat (sl_LatencyMs dst)
          else (let approx = distance_to (sl_Latitude src) (sl_Longitude src) dst / 100000
                in if approx < 0 then 0 else approx))"

definition EstimateLatencyBetweenServices ::
    "string \<Rightarrow> string \<Rightarrow> LocationManager \<Rightarrow> (location_error + real, LocationManager) outcome" where
  "EstimateLatencyBetweenServices fromID toID =
     lm_read (\<lambda>lm. case (get (locations lm) fromID, get (locations lm) toID) of
         (Some src, Some dst) \<Rightarrow> Inr (latency_between (latencyEstimator lm) src dst)
       | _ \<Rightarrow> Inl ServicesNotFound)"

section \<open>Export and import\<close>

text \<open>A JSON text is what it decodes to, \<open>None\<close> for a text that is not a list of locations.\<close>

definition ExportJSON :: "LocationManager \<Rightarrow> (ServiceLocation list, LocationManager) outcome" where
  "ExportJSON = lm_read (\<lambda>lm. map snd (locations lm))"

definition import_all ::
    "gotime \<Rightarrow> ServiceLocation list \<Rightarrow> (string, ServiceLocation) gomap \<Rightarrow> (string, ServiceLocation) gomap" where
  "import_all now locs m = foldl (\<lambda>m loc. put (sl_ID loc) (stamped now loc) m) m locs"

definition LoadJSON ::
    "ServiceLocation list option \<Rightarrow> gotime \<Rightarrow> LocationManager
      \<Rightarrow> (location_error option, LocationManager) outcome" where
  "LoadJSON raw now lm =
     (case raw of
        None \<Rightarrow> Returned (Some BadJSON) lm
      | Some arr \<Rightarrow>
          andThen (lm_locked (\<lambda>lm. Returned () (lm\<lparr>locations := import_all now arr (locations lm)\<rparr>)) lm)
          (\<lambda>_ lm. andThen (notify_all ''imported'' (map (stamped now) arr) lm)
          (\<lambda>_ lm. Returned None lm)))"

end
