(* ===== verification/GeoProps.thy ===== *)
theory GeoProps
  imports Geo
begin

text \<open>
  Properties of the location manager: the distance is a bounded symmetric function, the queries by
  distance return what is nearest, the locations stay keyed by their IDs over every history, an
  export loads back, and a heartbeat for a known location holds the lock for good. The interface
  that other components rely on is the locale \<open>location_source\<close>.
\<close>

section \<open>The lock\<close>

named_theorems lm_free \<open>operations of an unlocked manager\<close>

lemma lm_locked_free [lm_free]:
  "lm_mu lm = Unlocked \<Longrightarrow>
   lm_locked f lm = andThen (f (lm\<lparr>lm_mu := WLocked\<rparr>)) (\<lambda>r lm. Returned r (lm\<lparr>lm_mu := Unlocked\<rparr>))"
  by (simp add: lm_locked_def)

lemma lm_read_free [lm_free]: "lm_mu lm = Unlocked \<Longrightarrow> lm_read f lm = Returned (f lm) lm"
  by (simp add: lm_read_def)

lemma notify_free [lm_free]:
  "lm_mu lm = Unlocked \<Longrightarrow>
   notify ev loc lm = Returned () (lm\<lparr>delivered := delivered lm @ [(s, ev, loc). Some s \<leftarrow> subscribers lm]\<rparr>)"
  by (simp add: notify_def)

lemma lm_locked_held: "lm_mu lm = WLocked \<Longrightarrow> lm_locked f lm = Blocked lm"
  by (simp add: lm_locked_def)

lemma lm_read_held: "lm_mu lm = WLocked \<Longrightarrow> lm_read f lm = Blocked lm"
  by (simp add: lm_read_def)

lemma notify_held: "lm_mu lm = WLocked \<Longrightarrow> notify ev loc lm = Blocked lm"
  by (simp add: notify_def)

lemmas lm_held = lm_locked_held lm_read_held notify_held

lemma notify_all_free:
  "lm_mu lm = Unlocked \<Longrightarrow> \<exists>d. notify_all ev locs lm = Returned () (lm\<lparr>delivered := d\<rparr>)"
proof (induction locs arbitrary: lm)
  case Nil
  have "lm = lm\<lparr>delivered := delivered lm\<rparr>" by simp
  then show ?case by (metis notify_all.simps(1))
next
  case (Cons l ls)
  let ?lm = "lm\<lparr>delivered := delivered lm @ [(s, ev, l). Some s \<leftarrow> subscribers lm]\<rparr>"
  obtain d where "notify_all ev ls ?lm = Returned () (?lm\<lparr>delivered := d\<rparr>)"
    using Cons.IH[of ?lm] Cons.prems by auto
  then have "notify_all ev (l # ls) lm = Returned () (lm\<lparr>delivered := d\<rparr>)"
    using Cons.prems by (simp add: lm_free)
  then show ?case by blast
qed

section \<open>Distance\<close>

lemma cos_times_cos:
  "cos p * cos q = (cos ((p + q) / 2))\<^sup>2 - (sin ((p - q) / 2))\<^sup>2" for p q :: real
proof -
  have p: "p = (p + q) / 2 + (p - q) / 2" and q: "q = (p + q) / 2 - (p - q) / 2"
    by (simp_all add: field_simps)
  define x y where "x = (p + q) / 2" and "y = (p - q) / 2"
  have "cos p * cos q = cos (x + y) * cos (x - y)" using p q by (simp add: x_def y_def)
  also have "\<dots> = (cos x)\<^sup>2 * (cos y)\<^sup>2 - (sin x)\<^sup>2 * (sin y)\<^sup>2"
    by (simp add: cos_add cos_diff algebra_simps power2_eq_square)
  also have "\<dots> = (cos x)\<^sup>2 * (1 - (sin y)\<^sup>2) - (1 - (cos x)\<^sup>2) * (sin y)\<^sup>2"
    by (simp only: cos_squared_eq[of y] sin_squared_eq[of x])
  also have "\<dots> = (cos x)\<^sup>2 - (sin y)\<^sup>2" by (simp add: algebra_simps)
  finally show ?thesis by (simp add: x_def y_def)
qed

text \<open>The haversine lies between a squared sine and a squared cosine.\<close>

lemma haversine_mixture:
  fixes lat1 lat2 lon1 lon2 :: real
  defines "t \<equiv> (sin (toRad (lon2 - lon1) / 2))\<^sup>2"
  shows "haversine lat1 lon1 lat2 lon2 =
    (1 - t) * (sin (toRad (lat2 - lat1) / 2))\<^sup>2 + t * (cos ((toRad lat1 + toRad lat2) / 2))\<^sup>2"
proof -
  have "toRad (lat2 - lat1) = toRad lat2 - toRad lat1"
    by (simp add: toRad_def algebra_simps diff_divide_distrib)
  then have "cos (toRad lat1) * cos (toRad lat2) =
      (cos ((toRad lat1 + toRad lat2) / 2))\<^sup>2 - (sin (toRad (lat2 - lat1) / 2))\<^sup>2"
    using cos_times_cos[of "toRad lat2" "toRad lat1"]
    by (simp only: mult.commute[of "cos (toRad lat1)"] add.commute[of "toRad lat1"])
  moreover have "haversine lat1 lon1 lat2 lon2 =
      (sin (toRad (lat2 - lat1) / 2))\<^sup>2 + (cos (toRad lat1) * cos (toRad lat2)) * t"
    by (simp add: haversine_def t_def Let_def power2_eq_square)
  ultimately show ?thesis by (simp only: left_diff_distrib) (simp add: algebra_simps)
qed

lemma squared_sine_bounds: "0 \<le> (sin x)\<^sup>2 \<and> (sin x)\<^sup>2 \<le> 1" "0 \<le> (cos x)\<^sup>2 \<and> (cos x)\<^sup>2 \<le> 1"
  for x :: real
  by (simp_all add: abs_square_le_1)

lemma haversine_bounds: "0 \<le> haversine a b c d \<and> haversine a b c d \<le> 1"
proof -
  define t u v where "t = (sin (toRad (d - b) / 2))\<^sup>2" and "u = (sin (toRad (c - a) / 2))\<^sup>2"
    and "v = (cos ((toRad a + toRad c) / 2))\<^sup>2"
  have t: "0 \<le> t" "t \<le> 1" and u: "0 \<le> u" "u \<le> 1" and v: "0 \<le> v" "v \<le> 1"
    using squared_sine_bounds by (simp_all add: t_def u_def v_def)
  have "haversine a b c d = (1 - t) * u + t * v"
    by (simp add: haversine_mixture t_def u_def v_def)
  moreover have "0 \<le> (1 - t) * u + t * v" using t u v by simp
  moreover have "(1 - t) * u + t * v \<le> (1 - t) * 1 + t * 1"
    using t u v by (intro add_mono mult_left_mono) simp_all
  ultimately show ?thesis by simp
qed

lemma haversine_sym: "haversine a b c d = haversine c d a b"
proof -
  have "toRad (a - c) = - toRad (c - a)" "toRad (b - d) = - toRad (d - b)"
    by (simp_all add: toRad_def field_simps)
  then show ?thesis by (simp add: haversine_def Let_def)
qed

lemma Atan2_bounds: "0 \<le> y \<Longrightarrow> 0 \<le> x \<Longrightarrow> 0 \<le> Atan2 y x \<and> Atan2 y x \<le> pi / 2"
  using arctan_ubound[of "y / x"] by (auto simp: Atan2_def zero_le_arctan_iff)

lemma HaversineMeters_bounds:
  "0 \<le> HaversineMeters a b c d \<and> HaversineMeters a b c d \<le> 6371000 * pi"
proof -
  let ?h = "haversine (of_rat a) (of_rat b) (of_rat c) (of_rat d)"
  have "0 \<le> sqrt ?h" "0 \<le> sqrt (1 - ?h)" using haversine_bounds by simp_all
  then show ?thesis using Atan2_bounds by (fastforce simp: HaversineMeters_def Let_def)
qed

lemma HaversineMeters_self: "HaversineMeters a b a b = 0"
  by (simp add: HaversineMeters_def haversine_def toRad_def Atan2_def)

lemma HaversineMeters_sym: "HaversineMeters a b c d = HaversineMeters c d a b"
  by (simp add: HaversineMeters_def haversine_sym[of "of_rat a"])

text \<open>
  The great-circle distance of two points is at most half the circumference of the earth, does
  not depend on their order, and vanishes from a point to itself. In particular the square roots of
  the formula are never taken of negative numbers, whatever the coordinates.
\<close>

theorem distances_are_bounded_and_symmetric:
  "0 \<le> HaversineMeters lat1 lon1 lat2 lon2 \<and>
   HaversineMeters lat1 lon1 lat2 lon2 \<le> 6371000 * pi \<and>
   HaversineMeters lat1 lon1 lat2 lon2 = HaversineMeters lat2 lon2 lat1 lon1 \<and>
   HaversineMeters lat1 lon1 lat1 lon1 = 0 \<and>
   0 \<le> haversine a b c d \<and> haversine a b c d \<le> 1"
  using HaversineMeters_bounds HaversineMeters_self HaversineMeters_sym haversine_bounds by simp

lemma distance_below_MaxFloat64: "distance_to lat lon loc < MaxFloat64"
proof -
  have "distance_to lat lon loc \<le> 6371000 * pi"
    by (simp add: distance_to_def HaversineMeters_bounds)
  also have "\<dots> \<le> 6371000 * 4" using pi_less_4 by simp
  also have "\<dots> < (2 ^ 53 - 1) * (1::real)" by simp
  also have "\<dots> \<le> (2 ^ 53 - 1) * 2 ^ 971"
  proof (rule mult_left_mono)
    show "(1::real) \<le> 2 ^ 971" by (rule one_le_power) simp
  qed simp
  finally show ?thesis by (simp only: MaxFloat64_def)
qed

section \<open>Queries by distance\<close>

interpretation by_distance: key_order "\<lambda>a b. snd a < snd b" "snd :: ServiceLocation \<times> real \<Rightarrow> real"
  by unfold_locales simp

lemma sorted_take_drop:
  assumes "sorted (map f xs)" and "x \<in> set (take k xs)" and "y \<in> set (drop k xs)"
  shows "f x \<le> f y"
proof -
  have "sorted (map f (take k xs) @ map f (drop k xs))"
    using assms(1) by (metis append_take_drop_id map_append)
  then show ?thesis using assms(2,3) by (auto simp: sorted_append)
qed

lemma mset_take_drop: "mset xs = mset (take k xs) + mset (drop k xs)"
  by (metis append_take_drop_id mset_append)

lemma mset_minus_take: "mset xs - mset (take k xs) = mset (drop k xs)"
  by (subst mset_take_drop[of xs k]) (rule add_diff_cancel_left')

definition by_nearest :: "float64 \<Rightarrow> float64 \<Rightarrow> ServiceLocation list \<Rightarrow> ServiceLocation list" where
  "by_nearest lat lon ls =
     map fst (sort_slice (\<lambda>a b. snd a < snd b) (map (\<lambda>loc. (loc, distance_to lat lon loc)) ls))"

lemma mset_by_nearest [simp]: "mset (by_nearest lat lon ls) = mset ls"
  by (simp add: by_nearest_def image_mset.compositionality o_def)

lemma sorted_by_nearest: "sorted (map (distance_to lat lon) (by_nearest lat lon ls))"
proof -
  let ?arr = "sort_slice (\<lambda>a b. snd a < snd b) (map (\<lambda>loc. (loc, distance_to lat lon loc)) ls)"
  have "map (distance_to lat lon) (map fst ?arr) = map snd ?arr" by auto
  then show ?thesis using by_distance.sorted_sort_slice by (simp only: by_nearest_def)
qed

lemma FindNearest_free:
  assumes "lm_mu lm = Unlocked"
  shows "FindNearest lat lon n lm =
    (if n < 0 then Panicked lm
     else Returned (take (nat n) (by_nearest lat lon (map snd (locations lm)))) lm)"
  using assms
  by (simp add: FindNearest_def ListAll_def lm_free by_nearest_def minInt_def take_map Let_def)

text \<open>
  A free manager answers FindNearest with the n nearest locations, nearest first: as many as there
  are when there are fewer, none that is farther than one left out. A negative n panics.
\<close>

theorem FindNearest_returns_the_nearest:
  assumes "lm_mu lm = Unlocked"
  shows "if n < 0 then FindNearest lat lon n lm = Panicked lm
    else \<exists>out. FindNearest lat lon n lm = Returned out lm \<and>
      length out = min (nat n) (length (locations lm)) \<and>
      sorted (map (distance_to lat lon) out) \<and>
      mset out \<subseteq># mset (map snd (locations lm)) \<and>
      (\<forall>x\<in>set out. \<forall>y \<in># mset (map snd (locations lm)) - mset out.
         distance_to lat lon x \<le> distance_to lat lon y)"
proof (cases "n < 0")
  case True
  then show ?thesis using assms by (simp add: FindNearest_free)
next
  case False
  define L where "L = by_nearest lat lon (map snd (locations lm))"
  define out where "out = take (nat n) L"
  have m: "mset (map snd (locations lm)) = mset L" by (simp add: L_def)
  then have len: "length L = length (locations lm)" by (metis length_map mset_eq_length)
  have s: "sorted (map (distance_to lat lon) L)" by (simp add: L_def sorted_by_nearest)
  have "FindNearest lat lon n lm = Returned out lm"
    using False assms by (simp add: FindNearest_free out_def L_def)
  moreover have "length out = min (nat n) (length (locations lm))"
    using len by (simp add: out_def)
  moreover have "sorted (map (distance_to lat lon) out)"
    using s by (simp add: out_def take_map[symmetric] sorted_wrt_take)
  moreover have "mset out \<subseteq># mset L"
    using mset_take_drop[of L "nat n"] by (metis mset_subset_eq_add_left out_def)
  moreover have "\<forall>x\<in>set out. \<forall>y \<in># mset L - mset out. distance_to lat lon x \<le> distance_to lat lon y"
    using sorted_take_drop[OF s] by (auto simp: out_def mset_minus_take)
  ultimately show ?thesis using False m by auto
qed

lemma closest_loop_spec:
  "(if \<exists>l\<in>set ls. EqualFold (sl_Service l) svc \<and> d l < bd
    then \<exists>b\<in>set ls. closest_loop svc d ls bd best = Some b \<and> EqualFold (sl_Service b) svc \<and> d b < bd \<and>
      (\<forall>l\<in>set ls. EqualFold (sl_Service l) svc \<longrightarrow> d b \<le> d l)
    else closest_loop svc d ls bd best = best)"
proof (induction ls arbitrary: bd best)
  case Nil
  then show ?case by simp
next
  case (Cons a ls)
  show ?case
  proof (cases "EqualFold (sl_Service a) svc \<and> d a < bd")
    case False
    then show ?thesis using Cons.IH[of bd best] by (auto split: if_splits intro: order.strict_implies_order)
  next
    case True
    show ?thesis
    proof (cases "\<exists>l\<in>set ls. EqualFold (sl_Service l) svc \<and> d l < d a")
      case True': True
      then obtain b where "b \<in> set ls" "closest_loop svc d ls (d a) (Some a) = Some b"
        "EqualFold (sl_Service b) svc" "d b < d a"
        "\<forall>l\<in>set ls. EqualFold (sl_Service l) svc \<longrightarrow> d b \<le> d l"
        using Cons.IH[of "d a" "Some a"] by auto
      then show ?thesis using True by auto
    next
      case False
      then have "closest_loop svc d ls (d a) (Some a) = Some a"
        using Cons.IH[of "d a" "Some a"] by simp
      then show ?thesis using True False by force
    qed
  qed
qed

text \<open>
  The closest service is a registered one of that name (up to case) to which no other of that name
  is closer; there is none only when no service of that name is registered.
\<close>

theorem GetClosestService_is_closest:
  assumes "lm_mu lm = Unlocked"
  shows "\<exists>r. GetClosestService svc lat lon lm = Returned r lm \<and>
    (case r of
       None \<Rightarrow> \<not> (\<exists>l\<in>snd ` set (locations lm). EqualFold (sl_Service l) svc)
     | Some b \<Rightarrow> b \<in> snd ` set (locations lm) \<and> EqualFold (sl_Service b) svc \<and>
         \<not> (\<exists>l\<in>snd ` set (locations lm). EqualFold (sl_Service l) svc \<and>
              distance_to lat lon l < distance_to lat lon b))"
  using assms distance_below_MaxFloat64
    closest_loop_spec[of "map snd (locations lm)" svc "distance_to lat lon" MaxFloat64 None]
  by (auto simp: GetClosestService_def lm_free not_less split: if_splits) force+

section \<open>Histories\<close>

inductive lm_step :: "LocationManager \<Rightarrow> LocationManager \<Rightarrow> bool" where
  SetProviders: "lm_step lm (memory (SetProviders geo el lat lm))"
| Subscribe: "lm_step lm (memory (Subscribe s lm))"
| unsubscribe: "lm_step lm (memory (unsubscribe i lm))"
| Register: "lm_step lm (memory (Register loc now lm))"
| fill_elevation: "lm_step lm (memory (fill_elevation g lm))"
| Deregister: "lm_step lm (memory (Deregister sid lm))"
| UpdateHeartbeat: "lm_step lm (memory (UpdateHeartbeat sid ms meta now lm))"
| PruneStale: "lm_step lm (memory (PruneStale threshold now lm))"
| LoadJSON: "lm_step lm (memory (LoadJSON raw now lm))"

inductive lm_run :: "LocationManager \<Rightarrow> LocationManager \<Rightarrow> bool" where
  run_start: "lm_run lm lm"
| run_step: "lm_run lm lm1 \<Longrightarrow> lm_step lm1 lm2 \<Longrightarrow> lm_run lm lm2"

definition keyed :: "(string, ServiceLocation) gomap \<Rightarrow> bool" where
  "keyed m \<longleftrightarrow> wf_map m \<and> (\<forall>(k, l)\<in>set m. sl_ID l = k)"

lemma keyed_Nil [simp]: "keyed []"
  by (simp add: keyed_def)

lemma keyed_put [simp]: "keyed m \<Longrightarrow> sl_ID l = k \<Longrightarrow> keyed (put k l m)"
  using set_put_subset[of k l m] by (fastforce simp: keyed_def)

lemma keyed_del [simp]: "keyed m \<Longrightarrow> keyed (del k m)"
  using set_del_subset[of k m] by (fastforce simp: keyed_def)

lemma keyed_filter [simp]: "keyed m \<Longrightarrow> keyed (filter p m)"
  by (auto simp: keyed_def wf_map_def distinct_map_filter)

lemma keyed_get: "keyed m \<Longrightarrow> get m k = Some l \<Longrightarrow> sl_ID l = k"
  using get_in_set by (fastforce simp: keyed_def)

lemma keyed_ids: "keyed m \<Longrightarrow> map sl_ID (map snd m) = map fst m"
  by (auto simp: keyed_def)

lemma sl_ID_stamped [simp]: "sl_ID (stamped now loc) = sl_ID loc"
  by (simp add: stamped_def)

lemma import_all_Nil [simp]: "import_all now [] m = m"
  by (simp add: import_all_def)

lemma import_all_Cons [simp]:
  "import_all now (l # ls) m = import_all now ls (put (sl_ID l) (stamped now l) m)"
  by (simp add: import_all_def)

lemma keyed_import [simp]: "keyed m \<Longrightarrow> keyed (import_all now ls m)"
  by (induction ls arbitrary: m) simp_all

definition lm_ok :: "LocationManager \<Rightarrow> bool" where
  "lm_ok lm \<longleftrightarrow> keyed (locations lm) \<and> (lm_mu lm = Unlocked \<or> lm_mu lm = WLocked)"

lemma lm_ok_New: "lm_ok NewLocationManager"
  by (simp add: lm_ok_def NewLocationManager_def)

lemma lm_ok_cases:
  assumes "lm_ok lm"
  obtains (free) "lm_mu lm = Unlocked" "keyed (locations lm)"
    | (held) "lm_mu lm = WLocked" "keyed (locations lm)"
  using assms by (auto simp: lm_ok_def)

lemma lm_ok_notify: "lm_ok lm \<Longrightarrow> lm_ok (memory (notify ev loc lm))"
  by (auto simp: notify_def lm_ok_def)

lemma lm_ok_andThen:
  assumes "lm_ok (memory m)" and "\<And>r lm. m = Returned r lm \<Longrightarrow> lm_ok lm \<Longrightarrow> lm_ok (memory (f r lm))"
  shows "lm_ok (memory (andThen m f))"
  using assms by (cases m) simp_all

lemma lm_ok_notify_all: "lm_ok lm \<Longrightarrow> lm_ok (memory (notify_all ev locs lm))"
  by (induction locs arbitrary: lm) (auto intro!: lm_ok_andThen lm_ok_notify)

lemma lm_ok_locked:
  assumes "lm_ok lm"
    and "lm_mu lm = Unlocked \<Longrightarrow> keyed (locations lm) \<Longrightarrow>
      keyed (locations (memory (f (lm\<lparr>lm_mu := WLocked\<rparr>)))) \<and>
      (is_returned (f (lm\<lparr>lm_mu := WLocked\<rparr>)) \<or> lm_mu (memory (f (lm\<lparr>lm_mu := WLocked\<rparr>))) = WLocked)"
  shows "lm_ok (memory (lm_locked f lm))"
  using assms(1)
proof (cases rule: lm_ok_cases)
  case free
  then show ?thesis using assms(2)
    by (cases "f (lm\<lparr>lm_mu := WLocked\<rparr>)") (simp_all add: lm_free lm_ok_def)
next
  case held
  then show ?thesis using assms(1) by (simp add: lm_held)
qed

lemma lm_step_ok: "lm_step lm lm' \<Longrightarrow> lm_ok lm \<Longrightarrow> lm_ok lm'"
proof (induction rule: lm_step.induct)
  case (SetProviders lm geo el lat)
  then show ?case by (auto simp: SetProviders_def intro!: lm_ok_locked)
next
  case (Subscribe lm s)
  then show ?case by (auto simp: Subscribe_def intro!: lm_ok_locked)
next
  case (unsubscribe lm i)
  then show ?case by (auto simp: unsubscribe_def intro!: lm_ok_locked)
next
  case (Register lm loc now)
  then show ?case
    by (auto simp: Register_def Let_def intro!: lm_ok_andThen lm_ok_locked lm_ok_notify)
next
  case (fill_elevation lm g)
  have "lm_ok (memory (lm_locked (\<lambda>lm. case get (locations lm) sid of
        None \<Rightarrow> Returned None lm
      | Some cur \<Rightarrow> (let cur = cur\<lparr>sl_Altitude := alt\<rparr>
                     in Returned (Some cur) (lm\<lparr>locations := put sid cur (locations lm)\<rparr>))) lm))" for sid alt
    using fill_elevation.prems by (auto simp: Let_def keyed_get intro!: lm_ok_locked split: option.split)
  then show ?case
    using fill_elevation.prems unfolding fill_elevation_def
    by (auto intro!: lm_ok_andThen lm_ok_notify split: prod.split option.split)
next
  case (Deregister lm sid)
  then show ?case
    by (auto simp: Deregister_def intro!: lm_ok_andThen lm_ok_locked lm_ok_notify split: option.split)
next
  case (UpdateHeartbeat lm sid ms meta now)
  show ?case
  proof (cases "get (locations lm) sid")
    case None
    with UpdateHeartbeat show ?thesis by (auto simp: UpdateHeartbeat_def intro!: lm_ok_locked)
  next
    case (Some loc)
    with UpdateHeartbeat show ?thesis
      by (auto simp: UpdateHeartbeat_def Let_def notify_def keyed_get intro!: lm_ok_locked)
  qed
next
  case (PruneStale lm threshold now)
  then show ?case
    by (auto simp: PruneStale_def Let_def intro!: lm_ok_andThen lm_ok_locked lm_ok_notify_all)
next
  case (LoadJSON lm raw now)
  then show ?case
    by (auto simp: LoadJSON_def intro!: lm_ok_andThen lm_ok_locked lm_ok_notify_all split: option.split)
qed

lemma lm_run_ok: "lm_run lm lm' \<Longrightarrow> lm_ok lm \<Longrightarrow> lm_ok lm'"
  by (induction rule: lm_run.induct) (auto intro: lm_step_ok)

lemma lm_step_held: "lm_step lm lm' \<Longrightarrow> lm_mu lm = WLocked \<Longrightarrow> lm' = lm"
  by (induction rule: lm_step.induct)
    (auto simp: SetProviders_def Subscribe_def unsubscribe_def Register_def fill_elevation_def
      Deregister_def UpdateHeartbeat_def PruneStale_def LoadJSON_def Let_def lm_held
      split: prod.split option.split)

lemma lm_run_held: "lm_run lm lm' \<Longrightarrow> lm_mu lm = WLocked \<Longrightarrow> lm' = lm"
  by (induction rule: lm_run.induct) (auto dest: lm_step_held)

lemma heartbeat_blocks:
  assumes "lm_mu lm = Unlocked" and "get (locations lm) sid = Some loc"
  shows "is_blocked (UpdateHeartbeat sid ms meta now lm) \<and>
    lm_mu (memory (UpdateHeartbeat sid ms meta now lm)) = WLocked"
  using assms by (simp add: UpdateHeartbeat_def lm_free lm_held Let_def)

lemma heartbeat_unknown:
  assumes "lm_mu lm = Unlocked" and "get (locations lm) sid = None"
  shows "UpdateHeartbeat sid ms meta now lm = Returned (Some LocationNotFound) lm"
  using assms by (simp add: UpdateHeartbeat_def lm_free)

text \<open>
  C27: The heartbeat of a registered service waits for the lock that it holds itself. From then on the
  manager is dead: whatever happens next, no location changes and every call of an exported method waits too,
  but for \<open>LoadJSON\<close> of a text that is not JSON, which returns its error before it takes the lock.
\<close>

theorem one_heartbeat_stops_the_manager:
  assumes "lm_mu lm = Unlocked" and "has_key (locations lm) sid"
    and "lm_run (memory (UpdateHeartbeat sid ms meta now lm)) lm'"
  shows "is_blocked (UpdateHeartbeat sid ms meta now lm) \<and>
    lm' = memory (UpdateHeartbeat sid ms meta now lm) \<and>
    is_blocked (SetProviders geo elev est lm') \<and> is_blocked (Subscribe sub lm') \<and> is_blocked (unsubscribe i lm') \<and>
    is_blocked (Register loc t lm') \<and> is_blocked (Deregister sid' lm') \<and>
    is_blocked (UpdateHeartbeat sid' ms' meta' t lm') \<and> is_blocked (PruneStale d t lm') \<and>
    is_blocked (Get sid' lm') \<and> is_blocked (ListAll lm') \<and> is_blocked (GetByRegion region lm') \<and>
    is_blocked (FindNearest lat lon n lm') \<and> is_blocked (FindWithinRadius lat lon radius lm') \<and>
    is_blocked (GetClosestService name lat lon lm') \<and> is_blocked (ResolveServiceRegion sid' lm') \<and>
    is_blocked (EstimateLatencyBetweenServices sid' sid'' lm') \<and> is_blocked (ExportJSON lm') \<and>
    is_blocked (LoadJSON (Some arr) t lm') \<and> LoadJSON None t lm' = Returned (Some BadJSON) lm'"
proof -
  obtain l where l: "get (locations lm) sid = Some l" using assms(2) by (auto simp: has_key_def)
  have b: "is_blocked (UpdateHeartbeat sid ms meta now lm)"
    "lm_mu (memory (UpdateHeartbeat sid ms meta now lm)) = WLocked"
    using heartbeat_blocks[OF assms(1) l] by simp_all
  have e: "lm' = memory (UpdateHeartbeat sid ms meta now lm)"
    using lm_run_held[OF assms(3) b(2)] .
  then have held: "lm_mu lm' = WLocked" using b(2) by simp
  have beat: "is_blocked (UpdateHeartbeat sid' ms' meta' t lm')"
    using held by (simp add: UpdateHeartbeat_def lm_held)
  show ?thesis
    unfolding e[symmetric] using b(1) beat held
    by (simp add: SetProviders_def Subscribe_def unsubscribe_def Register_def Deregister_def
        PruneStale_def Get_def ListAll_def GetByRegion_def FindNearest_def FindWithinRadius_def
        GetClosestService_def ResolveServiceRegion_def EstimateLatencyBetweenServices_def ExportJSON_def
        LoadJSON_def Let_def lm_held)
qed

definition loc0 :: ServiceLocation where
  "loc0 = \<lparr>sl_ID = ''n1'', sl_Service = ''compute'', sl_Region = ''EU'', sl_Country = ''DE'',
     sl_Latitude = 50, sl_Longitude = 8, sl_Altitude = 100, sl_Accuracy = 1, sl_LastSeen = 5,
     sl_LatencyMs = 0, sl_Capacity = [], sl_Meta = [(''country'', AStr ''DE'')]\<rparr>"

definition lm0 :: LocationManager where
  "lm0 = memory (Register loc0 10 NewLocationManager)"

lemma lm0: "lm_mu lm0 = Unlocked" "locations lm0 = [(''n1'', loc0)]" "subscribers lm0 = []"
  by (simp_all add: lm0_def Register_def NewLocationManager_def lm_free stamped_def IsZero_def loc0_def)

theorem one_heartbeat_stops_the_manager_witness:
  "is_blocked (UpdateHeartbeat ''n1'' 3 [] 20 lm0) \<and>
   is_blocked (ListAll (memory (UpdateHeartbeat ''n1'' 3 [] 20 lm0)))"
proof -
  have "has_key (locations lm0) ''n1''" by (simp add: lm0 has_key_def)
  note stopped = one_heartbeat_stops_the_manager[OF lm0(1) this lm_run.run_start]
  have "is_blocked (ListAll (memory (UpdateHeartbeat ''n1'' 3 [] 20 lm0)))"
    by (rule stopped[THEN conjunct2, THEN conjunct2, THEN conjunct2, THEN conjunct2, THEN conjunct2, THEN conjunct2, THEN conjunct2, THEN conjunct2, THEN conjunct2, THEN conjunct2, THEN conjunct1])
  with stopped[THEN conjunct1] show ?thesis by (rule conjI)
qed

theorem FindNearest_returns_the_nearest_witness:
  "FindNearest 10 10 3 lm0 = Returned [loc0] lm0 \<and> FindNearest 10 10 (- 1) lm0 = Panicked lm0"
proof -
  from FindNearest_returns_the_nearest[OF lm0(1), of 3 10 10] obtain out where
    out: "FindNearest 10 10 3 lm0 = Returned out lm0" "length out = 1" "mset out \<subseteq># {#loc0#}"
    by (auto simp: lm0)
  then have "out = [loc0]" by (cases out) auto
  moreover have "FindNearest 10 10 (- 1) lm0 = Panicked lm0"
    using FindNearest_returns_the_nearest[OF lm0(1), of "- 1" 10 10] by simp
  ultimately show ?thesis using out(1) by simp
qed

section \<open>Export and import\<close>

lemma get_import_absent: "sid \<notin> sl_ID ` set ls \<Longrightarrow> get (import_all now ls m) sid = get m sid"
  by (induction ls arbitrary: m) (auto simp: map_simps)

lemma get_import:
  "keyed src \<Longrightarrow>
   get (import_all now (map snd src) dst) sid =
     (case get src sid of None \<Rightarrow> get dst sid | Some l \<Rightarrow> Some (stamped now l))"
proof (induction src arbitrary: dst)
  case Nil
  then show ?case by simp
next
  case (Cons p src)
  obtain k l where p: "p = (k, l)" by (cases p)
  have k: "keyed src" "sl_ID l = k" "\<not> has_key src k"
    using Cons.prems p by (auto simp: keyed_def wf_map_Cons)
  show ?case
  proof (cases "sid = k")
    case True
    have "k \<notin> sl_ID ` set (map snd src)"
      using k(3) keyed_ids[OF k(1)] by (metis has_key_iff set_map)
    then show ?thesis using True p k by (simp add: get_import_absent map_simps)
  next
    case False
    then show ?thesis using Cons.IH[OF k(1)] p k by (simp add: map_simps split: option.split)
  qed
qed

text \<open>
  What a reachable manager exports, a free manager imports: afterwards it knows every exported
  location under its ID, unchanged but for a time stamp where there was none, and its other
  locations are as before.
\<close>

theorem exported_locations_load_back:
  assumes "lm_run NewLocationManager src" and "lm_mu src = Unlocked" and "lm_mu lm = Unlocked"
  shows "\<exists>arr lm'. ExportJSON src = Returned arr src \<and>
    LoadJSON (Some arr) now lm = Returned None lm' \<and> lm_mu lm' = Unlocked \<and>
    (\<forall>sid. get (locations lm') sid =
      (case get (locations src) sid of
         None \<Rightarrow> get (locations lm) sid
       | Some l \<Rightarrow> Some (stamped now l)))"
proof -
  have k: "keyed (locations src)" using lm_run_ok[OF assms(1) lm_ok_New] by (simp add: lm_ok_def)
  let ?lm = "lm\<lparr>locations := import_all now (map snd (locations src)) (locations lm)\<rparr>"
  have f: "?lm\<lparr>lm_mu := Unlocked\<rparr> = ?lm" using assms(3) by (cases lm) simp
  obtain d where "notify_all ''imported'' (map (stamped now) (map snd (locations src))) ?lm =
      Returned () (?lm\<lparr>delivered := d\<rparr>)"
    using notify_all_free[of ?lm] assms(3) by auto
  then have "LoadJSON (Some (map snd (locations src))) now lm = Returned None (?lm\<lparr>delivered := d\<rparr>)"
    using assms(3) by (simp add: LoadJSON_def lm_free f del: map_map)
  moreover have "ExportJSON src = Returned (map snd (locations src)) src"
    using assms(2) by (simp add: ExportJSON_def lm_free)
  ultimately show ?thesis using assms(3) get_import[OF k] by auto
qed

section \<open>The interface to other components\<close>

text \<open>
  What the policy engine needs of a source of locations: it lists every known location once, and
  searching the list by ID is looking the ID up.
\<close>

locale location_source =
  fixes listing :: "'m \<Rightarrow> ServiceLocation list"
    and lookup :: "string \<Rightarrow> 'm \<Rightarrow> ServiceLocation option"
    and ok :: "'m \<Rightarrow> bool"
  assumes listed_once: "ok m \<Longrightarrow> distinct (map sl_ID (listing m))"
    and lookup_ID: "ok m \<Longrightarrow> lookup sid m = Some l \<Longrightarrow> sl_ID l = sid"
    and listed_iff: "ok m \<Longrightarrow> l \<in> set (listing m) \<longleftrightarrow> lookup (sl_ID l) m = Some l"
begin

lemma find_is_lookup:
  assumes "ok m"
  shows "find (\<lambda>l. sl_ID l = sid) (listing m) = lookup sid m"
proof (cases "lookup sid m")
  case None
  then show ?thesis using listed_iff[OF assms] by (auto simp: find_None_iff)
next
  case (Some l)
  then have l: "sl_ID l = sid" "l \<in> set (listing m)"
    using lookup_ID[OF assms] listed_iff[OF assms] by auto
  then have "find (\<lambda>l. sl_ID l = sid) (listing m) \<noteq> None" by (auto simp: find_None_iff)
  then obtain l' where f: "find (\<lambda>l. sl_ID l = sid) (listing m) = Some l'" by auto
  then have "l' \<in> set (listing m)" "sl_ID l' = sid" by (auto simp: find_Some_iff)
  then have "lookup sid m = Some l'" using listed_iff[OF assms, of l'] by simp
  then show ?thesis using f by simp
qed

lemma order_is_irrelevant:
  assumes "ok m" and "ok m'" and "\<And>sid. lookup sid m = lookup sid m'"
  shows "find (\<lambda>l. sl_ID l = sid) (listing m) = find (\<lambda>l. sl_ID l = sid) (listing m')"
  using assms by (simp add: find_is_lookup)

end

lemma keyed_listed:
  assumes "keyed m"
  shows "l \<in> set (map snd m) \<longleftrightarrow> get m (sl_ID l) = Some l"
proof -
  have "get m (sl_ID l) = Some l \<longleftrightarrow> (sl_ID l, l) \<in> set m"
    using assms by (simp add: keyed_def get_iff_in_set)
  moreover have "l \<in> snd ` set m \<longleftrightarrow> (sl_ID l, l) \<in> set m"
  proof
    assume "l \<in> snd ` set m"
    then obtain k where "(k, l) \<in> set m" by auto
    moreover from this have "sl_ID l = k" using assms unfolding keyed_def by blast
    ultimately show "(sl_ID l, l) \<in> set m" by simp
  qed (rule image_eqI[of _ _ "(sl_ID l, l)"], simp_all)
  ultimately show ?thesis by simp
qed

interpretation manager: location_source
  "\<lambda>lm. map snd (locations lm)" "\<lambda>sid lm. get (locations lm) sid" lm_ok
proof
  fix lm sid l
  assume ok: "lm_ok lm"
  then have k: "keyed (locations lm)" by (simp add: lm_ok_def)
  show "distinct (map sl_ID (map snd (locations lm)))"
    unfolding keyed_ids[OF k] using k by (simp add: keyed_def wf_map_def)
  show "get (locations lm) sid = Some l \<Longrightarrow> sl_ID l = sid" using keyed_get[OF k] by blast
  show "l \<in> set (map snd (locations lm)) \<longleftrightarrow> get (locations lm) (sl_ID l) = Some l"
    by (rule keyed_listed[OF k])
qed

end
