(* ===== verification/Residency.thy ===== *)
theory Residency
  imports GeoProps
begin

text \<open>
  The data residency enforcer of \<^verbatim>\<open>src/internal/policy/data_residency.go\<close>: rules, risk evaluation,
  decisions, the bounded history of decisions, and the recommendation of a region. A range over the
  rules may visit them in another order each time, and one decision ranges over them three times:
  the orders of the three searches are arguments (\<open>rule_orders\<close>). A method takes one reading of the
  clock. \<open>notified\<close> records the notifier callbacks started. The explanations are the numbers that the
  texts show. The locks of the enforcer are never held across a wait for another one, except for
  the read lock that EvaluateRisk takes again in recentEventsCount; the model is one goroutine's view,
  in which that returns.
\<close>

section \<open>State\<close>

record ResidencyRule =
  ru_ID :: string
  ru_Region :: string
  ru_Countries :: "string list"
  ru_DataTypes :: "string list"
  ru_Strict :: bool
  ru_Notes :: string
  ru_CreatedAt :: gotime
  ru_UpdatedAt :: gotime
  ru_LegalRefs :: "(string, string) gomap"
  ru_Sensitivity :: float64

record explanation =
  ex_sensitivity :: float64
  ex_countryRisk :: float64
  ex_history :: float64
  ex_cross :: float64
  ex_strict :: float64
  ex_score :: float64

datatype reason =
    StrictRule string string string  \<comment> \<open>rule, data type, region\<close>
  | CountryNotListed string string   \<comment> \<open>country, rule\<close>
  | RiskEval explanation
  | NoLocationManager
  | LocationUnknown

record EnforcementLog =
  el_ID :: string
  el_SourceID :: string
  el_TargetID :: string
  el_RegionFrom :: string
  el_RegionTo :: string
  el_CountryFrom :: string
  el_CountryTo :: string
  el_DataType :: string
  el_Action :: string
  el_Reason :: reason
  el_RiskScore :: float64
  el_Timestamp :: gotime
  el_Explanation :: "explanation option"  \<comment> \<open>the entry of the Meta map\<close>

type_synonym Notifier = nat

record DataResidencyEnforcer =
  rules :: "(string, ResidencyRule) gomap"
  history :: "EnforcementLog list"
  notifiers :: "Notifier list"
  countryRisk :: "(string, float64) gomap"
  defaultSensitivity :: "(string, float64) gomap"
  maxHistorySize :: int
  locationManager :: "LocationManager option"
  notified :: "(Notifier \<times> EnforcementLog) list"

definition NewDataResidencyEnforcer :: "LocationManager option \<Rightarrow> DataResidencyEnforcer" where
  "NewDataResidencyEnforcer locMgr =
     \<lparr>rules = [], history = [], notifiers = [],
      countryRisk =
        [(''US'', 20/100), (''GB'', 25/100), (''DE'', 20/100), (''FR'', 25/100), (''CN'', 80/100),
         (''RU'', 80/100), (''IR'', 90/100), (''BR'', 40/100), (''IN'', 50/100), (''AE'', 35/100)],
      defaultSensitivity =
        [(''biometrics'', 95/100), (''user_data'', 60/100), (''payments'', 90/100),
         (''logs'', 20/100), (''health'', 95/100)],
      maxHistorySize = 10000, locationManager = locMgr, notified = []\<rparr>"

section \<open>Helpers\<close>

definition pushLog :: "EnforcementLog \<Rightarrow> DataResidencyEnforcer \<Rightarrow> DataResidencyEnforcer" where
  "pushLog l d =
     (let d = (if maxHistorySize d \<le> 0 then d\<lparr>maxHistorySize := 10000\<rparr> else d);
          h = (if int (length (history d)) \<ge> maxHistorySize d then drop 1 (history d) else history d)
      in d\<lparr>history := h @ [l], notified := notified d @ map (\<lambda>n. (n, l)) (notifiers d)\<rparr>)"

definition containsIgnoreCase :: "string list \<Rightarrow> string \<Rightarrow> bool" where
  "containsIgnoreCase arr v \<longleftrightarrow> list_ex (\<lambda>x. EqualFold (TrimSpace x) (TrimSpace v)) arr"

definition mathMin :: "float64 \<Rightarrow> float64 \<Rightarrow> float64" where
  "mathMin a b = (if a < b then a else b)"

text \<open>The memory of the call is the location manager's, whose read lock the listing takes.\<close>

definition resolveLocationByID ::
    "string \<Rightarrow> LocationManager option \<Rightarrow> (ServiceLocation option, LocationManager option) outcome" where
  "resolveLocationByID sid lm =
     (case lm of
        None \<Rightarrow> Returned None None
      | Some m \<Rightarrow>
          (case ListAll m of
             Returned locs m \<Rightarrow> Returned (find (\<lambda>l. sl_ID l = sid) locs) (Some m)
           | Blocked m \<Rightarrow> Blocked (Some m)
           | Panicked m \<Rightarrow> Panicked (Some m)))"

section \<open>Rules and configuration\<close>

definition AddOrUpdateRule :: "ResidencyRule \<Rightarrow> gotime \<Rightarrow> DataResidencyEnforcer \<Rightarrow> DataResidencyEnforcer" where
  "AddOrUpdateRule rule now d =
     (let rule = (if IsZero (ru_CreatedAt rule) then rule\<lparr>ru_CreatedAt := now\<rparr> else rule);
          rule = rule\<lparr>ru_UpdatedAt := now\<rparr>;
          rule = (if ru_Sensitivity rule < 0 \<or> ru_Sensitivity rule > 1
                  then rule\<lparr>ru_Sensitivity := 0\<rparr> else rule)
      in d\<lparr>rules := put (ru_ID rule) rule (rules d)\<rparr>)"

definition RemoveRule :: "string \<Rightarrow> DataResidencyEnforcer \<Rightarrow> DataResidencyEnforcer" where
  "RemoveRule rid d = d\<lparr>rules := del rid (rules d)\<rparr>"

definition GetRule :: "string \<Rightarrow> DataResidencyEnforcer \<Rightarrow> ResidencyRule option" where
  "GetRule rid d = get (rules d) rid"

definition ListRules :: "DataResidencyEnforcer \<Rightarrow> ResidencyRule list" where
  "ListRules d = map snd (rules d)"

definition RegisterNotifier :: "Notifier \<Rightarrow> DataResidencyEnforcer \<Rightarrow> DataResidencyEnforcer" where
  "RegisterNotifier n d = d\<lparr>notifiers := notifiers d @ [n]\<rparr>"

definition UpdateCountryRisk :: "string \<Rightarrow> float64 \<Rightarrow> DataResidencyEnforcer \<Rightarrow> DataResidencyEnforcer" where
  "UpdateCountryRisk countryCode risk d =
     (let risk = (if risk < 0 then 0 else risk);
          risk = (if risk > 1 then 1 else risk)
      in d\<lparr>countryRisk := put (ToUpper countryCode) risk (countryRisk d)\<rparr>)"

section \<open>Risk\<close>

text \<open>The argument is the rules in the order in which the range visits them.\<close>

definition findRuleForDataInRegion ::
    "ResidencyRule list \<Rightarrow> string \<Rightarrow> string \<Rightarrow> ResidencyRule option" where
  "findRuleForDataInRegion order region dataType =
     find (\<lambda>r. EqualFold (ru_Region r) region \<and> containsIgnoreCase (ru_DataTypes r) dataType) order"

definition denial_of :: "string \<Rightarrow> EnforcementLog \<Rightarrow> bool" where
  "denial_of region l \<longleftrightarrow>
     EqualFold (el_RegionFrom l) region \<and> (el_Action l = ''blocked'' \<or> el_Action l = ''warn'')"

text \<open>Backwards through the history, up to the first entry that is too old.\<close>

definition recentEventsCount :: "string \<Rightarrow> duration \<Rightarrow> gotime \<Rightarrow> DataResidencyEnforcer \<Rightarrow> nat" where
  "recentEventsCount region window now d =
     length (filter (denial_of region)
       (takeWhile (\<lambda>l. \<not> el_Timestamp l < now - window) (rev (history d))))"

definition sensitivity_of ::
    "ResidencyRule option \<Rightarrow> string \<Rightarrow> DataResidencyEnforcer \<Rightarrow> float64" where
  "sensitivity_of rule dataType d =
     (let default = (case get (defaultSensitivity d) dataType of Some v \<Rightarrow> v | None \<Rightarrow> 1/2)
      in case rule of
           Some r \<Rightarrow> if ru_Sensitivity r > 0 then ru_Sensitivity r else default
         | None \<Rightarrow> default)"

definition country_risk :: "string \<Rightarrow> DataResidencyEnforcer \<Rightarrow> float64" where
  "country_risk countryTo d =
     (case get (countryRisk d) (ToUpper countryTo) of Some v \<Rightarrow> v | None \<Rightarrow> 1/2)"

definition history_factor :: "nat \<Rightarrow> float64" where
  "history_factor events =
     (let hfactor = of_nat events in (if hfactor > 10 then 10 else hfactor) / 10)"

definition strict_penalty :: "ResidencyRule option \<Rightarrow> string \<Rightarrow> string \<Rightarrow> string \<Rightarrow> float64" where
  "strict_penalty rule regionFrom regionTo countryTo =
     (case rule of
        None \<Rightarrow> 0
      | Some r \<Rightarrow>
          if \<not> ru_Strict r then 0
          else
            let p = (if \<not> EqualFold regionFrom regionTo then 6/10 else 0)
            in if ru_Countries r \<noteq> [] \<and> \<not> containsIgnoreCase (ru_Countries r) countryTo
               then mathMin 1 (p + 25/100) else p)"

definition Day :: duration where
  "Day = 24 * Hour"

definition EvaluateRisk ::
    "ResidencyRule list \<times> ResidencyRule list \<Rightarrow> string \<Rightarrow> string \<Rightarrow> string \<Rightarrow> string \<Rightarrow> string \<Rightarrow> gotime
      \<Rightarrow> DataResidencyEnforcer \<Rightarrow> float64 \<times> explanation" where
  "EvaluateRisk orders regionFrom regionTo countryFrom countryTo dataType now d =
     (let sensitivity = sensitivity_of (findRuleForDataInRegion (fst orders) regionFrom dataType) dataType d;
          crisk = country_risk countryTo d;
          hfactor = history_factor (recentEventsCount regionFrom (30 * Day) now d);
          cross = (if \<not> EqualFold regionFrom regionTo then 25/100 else 0);
          strictPenalty = strict_penalty (findRuleForDataInRegion (snd orders) regionFrom dataType)
            regionFrom regionTo countryTo;
          base = sensitivity * (6/10) + crisk * (3/10) + hfactor * (1/10);
          score = base + cross + strictPenalty;
          score = (if score > 1 then 1 else score)
      in (score, \<lparr>ex_sensitivity = sensitivity, ex_countryRisk = crisk, ex_history = hfactor,
                  ex_cross = cross, ex_strict = strictPenalty, ex_score = score\<rparr>))"

section \<open>Decisions\<close>

record rule_orders =
  ord_sensitivity :: "ResidencyRule list"
  ord_penalty :: "ResidencyRule list"
  ord_decision :: "ResidencyRule list"

definition action_of :: "float64 \<Rightarrow> string" where
  "action_of score =
     (if score \<ge> 75/100 then ''blocked'' else if score \<ge> 1/2 then ''warn'' else ''allowed'')"

definition log_entry ::
    "string \<Rightarrow> string \<Rightarrow> string \<Rightarrow> string \<Rightarrow> string \<Rightarrow> string \<Rightarrow> reason \<Rightarrow> float64 \<Rightarrow> gotime \<Rightarrow> EnforcementLog" where
  "log_entry regionFrom regionTo countryFrom countryTo dataType action reason score now =
     \<lparr>el_ID = ''log-'' @ dec (UnixNano now), el_SourceID = '''', el_TargetID = '''',
      el_RegionFrom = regionFrom, el_RegionTo = regionTo, el_CountryFrom = countryFrom,
      el_CountryTo = countryTo, el_DataType = dataType, el_Action = action, el_Reason = reason,
      el_RiskScore = score, el_Timestamp = now, el_Explanation = None\<rparr>"

definition EnforceTransfer ::
    "rule_orders \<Rightarrow> string \<Rightarrow> string \<Rightarrow> string \<Rightarrow> string \<Rightarrow> string \<Rightarrow> gotime \<Rightarrow> DataResidencyEnforcer
      \<Rightarrow> (bool \<times> reason \<times> float64) \<times> DataResidencyEnforcer" where
  "EnforceTransfer orders regionFrom regionTo countryFrom countryTo dataType now d =
     (let (score, expl) = EvaluateRisk (ord_sensitivity orders, ord_penalty orders)
            regionFrom regionTo countryFrom countryTo dataType now d;
          action = action_of score;
          entry = log_entry regionFrom regionTo countryFrom countryTo dataType;
          default = (let reason = RiskEval expl
                     in ((action = ''allowed'', reason, score),
                         pushLog ((entry action reason score now)\<lparr>el_Explanation := Some expl\<rparr>) d))
      in case findRuleForDataInRegion (ord_decision orders) regionFrom dataType of
           None \<Rightarrow> default
         | Some r \<Rightarrow>
             if ru_Strict r \<and> \<not> EqualFold regionFrom regionTo then
               let reason = StrictRule (ru_ID r) dataType regionFrom
               in ((False, reason, score), pushLog (entry ''blocked'' reason score now) d)
             else if ru_Countries r \<noteq> [] \<and> \<not> containsIgnoreCase (ru_Countries r) countryTo then
               let reason = CountryNotListed countryTo (ru_ID r)
               in ((action = ''allowed'', reason, score), pushLog (entry action reason score now) d)
             else default)"

definition country_meta :: "ServiceLocation \<Rightarrow> string" where
  "country_meta loc = (case get (sl_Meta loc) ''country'' of Some (AStr v) \<Rightarrow> v | _ \<Rightarrow> '''')"

text \<open>Blocked when the location manager's lock is never released.\<close>

definition EnforceBetweenServices ::
    "rule_orders \<Rightarrow> string \<Rightarrow> string \<Rightarrow> string \<Rightarrow> gotime \<Rightarrow> DataResidencyEnforcer
      \<Rightarrow> (bool \<times> reason \<times> float64, DataResidencyEnforcer) outcome" where
  "EnforceBetweenServices orders sourceID targetID dataType now d =
     (if locationManager d = None then Returned (False, NoLocationManager, 1) d
      else case resolveLocationByID sourceID (locationManager d) of
        Blocked m \<Rightarrow> Blocked (d\<lparr>locationManager := m\<rparr>)
      | Panicked m \<Rightarrow> Panicked (d\<lparr>locationManager := m\<rparr>)
      | Returned src m \<Rightarrow>
          (case resolveLocationByID targetID m of
             Blocked m \<Rightarrow> Blocked (d\<lparr>locationManager := m\<rparr>)
           | Panicked m \<Rightarrow> Panicked (d\<lparr>locationManager := m\<rparr>)
           | Returned dst m \<Rightarrow>
               (case (src, dst) of
                  (Some src, Some dst) \<Rightarrow>
                    (let countryFrom = country_meta src; countryTo = country_meta dst;
                         ((allowed, reason, score), d) =
                           EnforceTransfer orders (sl_Region src) (sl_Region dst) countryFrom countryTo
                             dataType now (d\<lparr>locationManager := m\<rparr>);
                         entry = log_entry (sl_Region src) (sl_Region dst) countryFrom countryTo dataType
                           (if allowed then ''allowed'' else ''blocked'') reason score now
                     in Returned (allowed, reason, score)
                          (pushLog (entry\<lparr>el_SourceID := sourceID, el_TargetID := targetID\<rparr>) d))
                | _ \<Rightarrow> Returned (False, LocationUnknown, 1) (d\<lparr>locationManager := m\<rparr>))))"

definition Enforce ::
    "rule_orders \<Rightarrow> string \<Rightarrow> string \<Rightarrow> gotime \<Rightarrow> DataResidencyEnforcer \<Rightarrow> bool \<times> DataResidencyEnforcer" where
  "Enforce orders region dataType now d =
     (let ((allowed, _, _), d) = EnforceTransfer orders region region '''' '''' dataType now d in (allowed, d))"

section \<open>History, export and recommendation\<close>

definition History :: "DataResidencyEnforcer \<Rightarrow> EnforcementLog list" where
  "History d = history d"

definition ClearHistory :: "DataResidencyEnforcer \<Rightarrow> DataResidencyEnforcer" where
  "ClearHistory d = d\<lparr>history := []\<rparr>"

definition ExportRulesJSON :: "DataResidencyEnforcer \<Rightarrow> ResidencyRule list" where
  "ExportRulesJSON d = map snd (rules d)"

text \<open>The argument is what the JSON text decodes to; the result says whether it was accepted.\<close>

definition LoadRulesJSON ::
    "ResidencyRule list option \<Rightarrow> gotime \<Rightarrow> DataResidencyEnforcer \<Rightarrow> bool \<times> DataResidencyEnforcer" where
  "LoadRulesJSON raw now d =
     (case raw of
        None \<Rightarrow> (False, d)
      | Some rs \<Rightarrow>
          (True, d\<lparr>rules := foldl (\<lambda>m r.
             put (ru_ID r)
               ((if IsZero (ru_CreatedAt r) then r\<lparr>ru_CreatedAt := now\<rparr> else r)\<lparr>ru_UpdatedAt := now\<rparr>) m)
             (rules d) rs\<rparr>))"

fun least_risk :: "(string, float64) gomap \<Rightarrow> string \<Rightarrow> float64 \<Rightarrow> string" where
  "least_risk [] best bestRisk = best"
| "least_risk ((c, r) # cs) best bestRisk =
     (if r < bestRisk then least_risk cs c r else least_risk cs best bestRisk)"

definition RecommendSafeRegion :: "string \<Rightarrow> DataResidencyEnforcer \<Rightarrow> string" where
  "RecommendSafeRegion dataType d =
     (case find (\<lambda>r. containsIgnoreCase (ru_DataTypes r) dataType \<and> \<not> ru_Strict r) (map snd (rules d)) of
        Some r \<Rightarrow> ru_Region r
      | None \<Rightarrow> least_risk (countryRisk d) ''GLOBAL'' 2)"

end
