(* ===== verification/ResidencyProps.thy ===== *)
theory ResidencyProps
  imports Residency
begin

text \<open>
  Properties of the data residency enforcer: scores and the history stay in bounds over every
  history of operations, strict rules are enforced, every decision is logged, country lists do not
  decide, what is decided where no rule applies, and how the enforcer depends on the location manager.
\<close>

section \<open>Scores\<close>

definition tables_ok :: "DataResidencyEnforcer \<Rightarrow> bool" where
  "tables_ok d \<longleftrightarrow> (\<forall>v\<in>snd ` set (countryRisk d). 0 \<le> v \<and> v \<le> 1) \<and>
     (\<forall>v\<in>snd ` set (defaultSensitivity d). 0 < v \<and> v \<le> 1)"

lemma sensitivity_pos: "tables_ok d \<Longrightarrow> 0 < sensitivity_of r dataType d"
  by (auto simp: sensitivity_of_def tables_ok_def Let_def dest!: get_in_set split: option.split)

lemma country_risk_bounds: "tables_ok d \<Longrightarrow> 0 \<le> country_risk c d \<and> country_risk c d \<le> 1"
  by (auto simp: country_risk_def tables_ok_def dest!: get_in_set split: option.split)

lemma history_factor_bounds: "0 \<le> history_factor n \<and> history_factor n \<le> 1"
  by (simp add: history_factor_def Let_def)

lemma strict_penalty_nonneg: "0 \<le> strict_penalty r f t c"
  by (simp add: strict_penalty_def mathMin_def Let_def split: option.split)

lemma strict_penalty_cross:
  "ru_Strict r \<Longrightarrow> \<not> EqualFold f t \<Longrightarrow> 6/10 \<le> strict_penalty (Some r) f t c"
  by (simp add: strict_penalty_def mathMin_def Let_def)

text \<open>The score as a formula.\<close>

definition raw_score ::
    "float64 \<Rightarrow> float64 \<Rightarrow> nat \<Rightarrow> bool \<Rightarrow> float64 \<Rightarrow> float64" where
  "raw_score sens crisk events crossing penalty =
     sens * (6/10) + crisk * (3/10) + history_factor events * (1/10) +
     (if crossing then 25/100 else 0) + penalty"

definition score_of ::
    "rule_orders \<Rightarrow> string \<Rightarrow> string \<Rightarrow> string \<Rightarrow> string \<Rightarrow> gotime \<Rightarrow> DataResidencyEnforcer \<Rightarrow> float64" where
  "score_of orders f t c dt now d =
     min 1 (raw_score (sensitivity_of (findRuleForDataInRegion (ord_sensitivity orders) f dt) dt d)
       (country_risk c d) (recentEventsCount f (30 * Day) now d) (\<not> EqualFold f t)
       (strict_penalty (findRuleForDataInRegion (ord_penalty orders) f dt) f t c))"

lemma EvaluateRisk_score:
  "fst (EvaluateRisk (ord_sensitivity orders, ord_penalty orders) f t cf c dt now d) =
     score_of orders f t c dt now d"
  by (simp add: EvaluateRisk_def score_of_def raw_score_def Let_def min_def)

lemma score_bounds:
  assumes "tables_ok d"
  shows "0 \<le> score_of orders f t c dt now d \<and> score_of orders f t c dt now d \<le> 1"
proof -
  have "0 \<le> raw_score (sensitivity_of r dt d) (country_risk c d) n b (strict_penalty r' f t c)" for r r' n b
    using sensitivity_pos[OF assms, of r dt] country_risk_bounds[OF assms, of c]
      history_factor_bounds[of n] strict_penalty_nonneg[of r' f t c]
    by (simp add: raw_score_def)
  then show ?thesis by (simp add: score_of_def)
qed

lemma strict_score:
  assumes "tables_ok d" and "findRuleForDataInRegion (ord_penalty orders) f dt = Some r"
    and "ru_Strict r" and "\<not> EqualFold f t"
  shows "75/100 \<le> score_of orders f t c dt now d"
proof -
  have "75/100 \<le> raw_score s k n True (strict_penalty (Some r) f t c)"
    if "0 < s" "0 \<le> k" for s k n
    using that history_factor_bounds[of n] strict_penalty_cross[OF assms(3,4), of c]
    by (simp add: raw_score_def)
  then show ?thesis
    using assms sensitivity_pos country_risk_bounds by (simp add: score_of_def)
qed

section \<open>One decision\<close>

definition deciding :: "rule_orders \<Rightarrow> string \<Rightarrow> string \<Rightarrow> ResidencyRule option" where
  "deciding orders f dt = findRuleForDataInRegion (ord_decision orders) f dt"

definition forbidden :: "rule_orders \<Rightarrow> string \<Rightarrow> string \<Rightarrow> string \<Rightarrow> bool" where
  "forbidden orders f t dt \<longleftrightarrow> \<not> EqualFold f t \<and>
     (case deciding orders f dt of None \<Rightarrow> False | Some r \<Rightarrow> ru_Strict r)"

lemma action_of_values: "action_of s \<in> {''allowed'', ''warn'', ''blocked''}"
  by (simp add: action_of_def)

lemma action_of_allowed: "action_of s = ''allowed'' \<longleftrightarrow> s < 1/2"
  by (auto simp: action_of_def)

text \<open>Every decision pushes one entry, which repeats the score and whose action is the decision.\<close>

lemma EnforceTransfer_shape:
  "\<exists>reason e. EnforceTransfer orders f t cf c dt now d =
     ((\<not> forbidden orders f t dt \<and> score_of orders f t c dt now d < 1/2, reason,
       score_of orders f t c dt now d), pushLog e d) \<and>
     el_Action e \<in> {''allowed'', ''warn'', ''blocked''} \<and>
     (el_Action e = ''allowed'' \<longleftrightarrow> \<not> forbidden orders f t dt \<and> score_of orders f t c dt now d < 1/2) \<and>
     el_RiskScore e = score_of orders f t c dt now d \<and> el_RegionFrom e = f \<and> el_RegionTo e = t \<and>
     el_CountryTo e = c \<and> el_DataType e = dt \<and> el_Timestamp e = now \<and> el_Reason e = reason \<and>
     el_SourceID e = ''''"
proof -
  obtain s ex where r: "EvaluateRisk (ord_sensitivity orders, ord_penalty orders) f t cf c dt now d = (s, ex)"
    by fastforce
  then have s: "score_of orders f t c dt now d = s" using EvaluateRisk_score[of orders f t cf c dt now d] by simp
  let ?entry = "log_entry f t cf c dt"
  let ?ok = "\<not> forbidden orders f t dt \<and> s < 1/2"
  have shape: ?thesis
    if "EnforceTransfer orders f t cf c dt now d = ((?ok, reason, s), pushLog e d)"
      and "e = ?entry a reason s now \<or> e = (?entry a reason s now)\<lparr>el_Explanation := Some ex\<rparr>"
      and "a \<in> {''allowed'', ''warn'', ''blocked''}" and "a = ''allowed'' \<longleftrightarrow> ?ok" for reason e a
  proof -
    have "el_Action e = a" "el_RiskScore e = s" "el_RegionFrom e = f" "el_RegionTo e = t"
      "el_CountryTo e = c" "el_DataType e = dt" "el_Timestamp e = now" "el_Reason e = reason"
      "el_SourceID e = ''''"
      using that(2) by (auto simp: log_entry_def)
    then show ?thesis using that(1,3,4) s
      by (intro exI[of _ reason] exI[of _ e]) (simp only: simp_thms)
  qed
  note unfolded = EnforceTransfer_def r forbidden_def deciding_def Let_def action_of_allowed
  show ?thesis
  proof (cases "deciding orders f dt")
    case None
    then have "EnforceTransfer orders f t cf c dt now d =
        ((?ok, RiskEval ex, s), pushLog ((?entry (action_of s) (RiskEval ex) s now)\<lparr>el_Explanation := Some ex\<rparr>) d)"
      by (simp add: unfolded)
    from shape[OF this, of "action_of s"] show ?thesis
      using None action_of_values[of s] by (auto simp: forbidden_def action_of_allowed)
  next
    case (Some ru)
    consider (strict) "ru_Strict ru \<and> \<not> EqualFold f t"
      | (unlisted) "\<not> (ru_Strict ru \<and> \<not> EqualFold f t)"
        "ru_Countries ru \<noteq> [] \<and> \<not> containsIgnoreCase (ru_Countries ru) c"
      | (default) "\<not> (ru_Strict ru \<and> \<not> EqualFold f t)"
        "\<not> (ru_Countries ru \<noteq> [] \<and> \<not> containsIgnoreCase (ru_Countries ru) c)"
      by blast
    then show ?thesis
    proof cases
      case strict
      then have "EnforceTransfer orders f t cf c dt now d =
          ((?ok, StrictRule (ru_ID ru) dt f, s), pushLog (?entry ''blocked'' (StrictRule (ru_ID ru) dt f) s now) d)"
        using Some by (simp add: unfolded)
      from shape[OF this, of "''blocked''"] show ?thesis
        using Some strict by (simp add: forbidden_def)
    next
      case unlisted
      then have "EnforceTransfer orders f t cf c dt now d =
          ((?ok, CountryNotListed c (ru_ID ru), s),
           pushLog (?entry (action_of s) (CountryNotListed c (ru_ID ru)) s now) d)"
        using Some by (auto simp: unfolded)
      from shape[OF this, of "action_of s"] show ?thesis
      using Some unlisted action_of_values[of s] by (auto simp: forbidden_def action_of_allowed)
    next
      case default
      then have "EnforceTransfer orders f t cf c dt now d =
          ((?ok, RiskEval ex, s), pushLog ((?entry (action_of s) (RiskEval ex) s now)\<lparr>el_Explanation := Some ex\<rparr>) d)"
        using Some by (auto simp: unfolded)
      from shape[OF this, of "action_of s"] show ?thesis
      using Some default action_of_values[of s] by (auto simp: forbidden_def action_of_allowed)
    qed
  qed
qed

lemma EnforceTransfer_decision:
  "fst (fst (EnforceTransfer orders f t cf c dt now d)) \<longleftrightarrow>
     \<not> forbidden orders f t dt \<and> score_of orders f t c dt now d < 1/2"
  using EnforceTransfer_shape[of orders f t cf c dt now d] by auto

section \<open>Histories\<close>

definition entry_ok :: "EnforcementLog \<Rightarrow> bool" where
  "entry_ok l \<longleftrightarrow> el_Action l \<in> {''allowed'', ''warn'', ''blocked''} \<and>
     0 \<le> el_RiskScore l \<and> el_RiskScore l \<le> 1"

definition keyed_rules :: "(string, ResidencyRule) gomap \<Rightarrow> bool" where
  "keyed_rules m \<longleftrightarrow> wf_map m \<and> (\<forall>(k, r)\<in>set m. ru_ID r = k)"

definition enforcer_ok :: "DataResidencyEnforcer \<Rightarrow> bool" where
  "enforcer_ok d \<longleftrightarrow> tables_ok d \<and> keyed_rules (rules d) \<and> maxHistorySize d = 10000 \<and>
     length (history d) \<le> 10000 \<and> (\<forall>l\<in>set (history d). entry_ok l)"

lemma pushLog_frame [simp]:
  "rules (pushLog l d) = rules d" "countryRisk (pushLog l d) = countryRisk d"
  "defaultSensitivity (pushLog l d) = defaultSensitivity d"
  "locationManager (pushLog l d) = locationManager d" "notifiers (pushLog l d) = notifiers d"
  by (simp_all add: pushLog_def Let_def)

lemma pushLog_history:
  "0 < maxHistorySize d \<Longrightarrow>
   history (pushLog l d) =
     drop (if int (length (history d)) \<ge> maxHistorySize d then 1 else 0) (history d) @ [l] \<and>
   maxHistorySize (pushLog l d) = maxHistorySize d"
  by (simp add: pushLog_def Let_def)

lemma pushLog_ok:
  assumes "enforcer_ok d" and "entry_ok l"
  shows "enforcer_ok (pushLog l d)"
proof -
  have m: "maxHistorySize d = 10000" "length (history d) \<le> 10000" using assms(1) by (simp_all add: enforcer_ok_def)
  have h: "history (pushLog l d) = drop (if length (history d) \<ge> 10000 then 1 else 0) (history d) @ [l]"
    "maxHistorySize (pushLog l d) = 10000"
    using pushLog_history[of d l] m by simp_all
  have "length (history (pushLog l d)) \<le> 10000" using m(2) unfolding h by (cases "length (history d) \<ge> 10000") simp_all
  moreover have "\<forall>x\<in>set (history (pushLog l d)). entry_ok x"
    using assms by (auto simp: h enforcer_ok_def dest: in_set_dropD)
  ultimately show ?thesis using assms(1) h by (simp add: enforcer_ok_def tables_ok_def)
qed

lemma EnforceTransfer_ok:
  assumes "enforcer_ok d"
  shows "enforcer_ok (snd (EnforceTransfer orders f t cf c dt now d))"
proof -
  have "tables_ok d" using assms by (simp add: enforcer_ok_def)
  from score_bounds[OF this] EnforceTransfer_shape[of orders f t cf c dt now d]
  show ?thesis using assms pushLog_ok by (fastforce simp: entry_ok_def)
qed

lemma EnforceTransfer_frame:
  "rules (snd (EnforceTransfer orders f t cf c dt now d)) = rules d \<and>
   countryRisk (snd (EnforceTransfer orders f t cf c dt now d)) = countryRisk d \<and>
   locationManager (snd (EnforceTransfer orders f t cf c dt now d)) = locationManager d"
  using EnforceTransfer_shape[of orders f t cf c dt now d] by auto

lemma enforcer_ok_manager [simp]: "enforcer_ok (d\<lparr>locationManager := m\<rparr>) = enforcer_ok d"
  by (simp add: enforcer_ok_def tables_ok_def)

text \<open>The outcomes of a transfer between services, one by one.\<close>

lemma between_cases:
  obtains (unknown) r m where "r = (False, NoLocationManager, 1) \<or> r = (False, LocationUnknown, 1)"
      "EnforceBetweenServices orders sid tid dt now d = Returned r (d\<lparr>locationManager := m\<rparr>)"
  | (stuck) m where "EnforceBetweenServices orders sid tid dt now d = Blocked (d\<lparr>locationManager := m\<rparr>)"
  | (crashed) m where "EnforceBetweenServices orders sid tid dt now d = Panicked (d\<lparr>locationManager := m\<rparr>)"
  | (decided) m f t cf ct allowed reason score d' e where
      "EnforceTransfer orders f t cf ct dt now (d\<lparr>locationManager := m\<rparr>) = ((allowed, reason, score), d')"
      "EnforceBetweenServices orders sid tid dt now d = Returned (allowed, reason, score) (pushLog e d')"
      "el_Action e = (if allowed then ''allowed'' else ''blocked'')" "el_RiskScore e = score"
      "el_RegionFrom e = f" "el_Timestamp e = now"
proof (cases "locationManager d")
  case None
  then have "EnforceBetweenServices orders sid tid dt now d =
      Returned (False, NoLocationManager, 1) (d\<lparr>locationManager := None\<rparr>)"
    by (cases d) (simp add: EnforceBetweenServices_def)
  then show ?thesis by (intro unknown[of "(False, NoLocationManager, 1)" None]) simp_all
next
  case (Some lm)
  note B = EnforceBetweenServices_def
  show ?thesis
  proof (cases "resolveLocationByID sid (Some lm)")
    case (Returned src m)
    show ?thesis
    proof (cases "resolveLocationByID tid m")
      case R2: (Returned dst m')
      show ?thesis
      proof (cases "src = None \<or> dst = None")
        case True
        then have "EnforceBetweenServices orders sid tid dt now d =
            Returned (False, LocationUnknown, 1) (d\<lparr>locationManager := m'\<rparr>)"
          using Some Returned R2 by (cases src; cases dst) (simp_all add: B)
        then show ?thesis by (intro unknown[of "(False, LocationUnknown, 1)" m']) simp_all
      next
        case False
        then obtain s u where su: "src = Some s" "dst = Some u" by auto
        obtain allowed reason score d' where e: "EnforceTransfer orders (sl_Region s) (sl_Region u)
            (country_meta s) (country_meta u) dt now (d\<lparr>locationManager := m'\<rparr>) =
            ((allowed, reason, score), d')"
          by (metis prod_cases3 surj_pair)
        let ?e = "(log_entry (sl_Region s) (sl_Region u) (country_meta s) (country_meta u) dt
            (if allowed then ''allowed'' else ''blocked'') reason score now)
            \<lparr>el_SourceID := sid, el_TargetID := tid\<rparr>"
        have "EnforceBetweenServices orders sid tid dt now d =
            Returned (allowed, reason, score) (pushLog ?e d')"
          using Some Returned R2 su e by (simp add: B Let_def)
        then show ?thesis using decided[OF e] by (simp add: log_entry_def)
      qed
    qed (use Some Returned stuck crashed in \<open>simp_all add: B\<close>)
  qed (use Some stuck crashed in \<open>simp_all add: B\<close>)
qed

inductive enforcer_reach :: "DataResidencyEnforcer \<Rightarrow> bool" where
  New: "enforcer_reach (NewDataResidencyEnforcer lm)"
| AddOrUpdateRule: "enforcer_reach d \<Longrightarrow> enforcer_reach (AddOrUpdateRule r now d)"
| RemoveRule: "enforcer_reach d \<Longrightarrow> enforcer_reach (RemoveRule rid d)"
| LoadRulesJSON: "enforcer_reach d \<Longrightarrow> enforcer_reach (snd (LoadRulesJSON raw now d))"
| RegisterNotifier: "enforcer_reach d \<Longrightarrow> enforcer_reach (RegisterNotifier n d)"
| UpdateCountryRisk: "enforcer_reach d \<Longrightarrow> enforcer_reach (UpdateCountryRisk c v d)"
| ClearHistory: "enforcer_reach d \<Longrightarrow> enforcer_reach (ClearHistory d)"
| EnforceTransfer:
    "enforcer_reach d \<Longrightarrow> enforcer_reach (snd (EnforceTransfer orders f t cf c dt now d))"
| EnforceBetweenServices:
    "enforcer_reach d \<Longrightarrow> enforcer_reach (memory (EnforceBetweenServices orders sid tid dt now d))"
| Enforce: "enforcer_reach d \<Longrightarrow> enforcer_reach (snd (Enforce orders region dt now d))"
| LocationManager: "enforcer_reach d \<Longrightarrow> enforcer_reach (d\<lparr>locationManager := m\<rparr>)"

lemma keyed_rules_put: "keyed_rules m \<Longrightarrow> ru_ID r = k \<Longrightarrow> keyed_rules (put k r m)"
  using set_put_subset[of k r m] by (fastforce simp: keyed_rules_def)

lemma keyed_rules_del: "keyed_rules m \<Longrightarrow> keyed_rules (del k m)"
  using set_del_subset[of k m] by (fastforce simp: keyed_rules_def)

lemma keyed_rules_load:
  "keyed_rules m \<Longrightarrow> (\<And>r. ru_ID (g r) = ru_ID r) \<Longrightarrow>
   keyed_rules (foldl (\<lambda>m r. put (ru_ID r) (g r) m) m rs)"
  by (induction rs arbitrary: m) (simp_all add: keyed_rules_put)

lemma enforcer_ok_rules:
  "enforcer_ok d \<Longrightarrow> keyed_rules m \<Longrightarrow> enforcer_ok (d\<lparr>rules := m\<rparr>)"
  by (simp add: enforcer_ok_def tables_ok_def)

lemma EnforceBetweenServices_ok:
  assumes "enforcer_ok d"
  shows "enforcer_ok (memory (EnforceBetweenServices orders sid tid dt now d))"
proof (cases rule: between_cases[of orders sid tid dt now d])
  case (decided m f t cf ct allowed reason score d' e)
  have ok: "enforcer_ok (d\<lparr>locationManager := m\<rparr>)" using assms by simp
  then have d': "enforcer_ok d'" using EnforceTransfer_ok[OF ok, of orders f t cf ct dt now] decided(1) by simp
  have "score = score_of orders f t ct dt now (d\<lparr>locationManager := m\<rparr>)"
    using EnforceTransfer_shape[of orders f t cf ct dt now "d\<lparr>locationManager := m\<rparr>"] decided(1) by auto
  then have "entry_ok e" using decided(3,4) score_bounds ok by (simp add: entry_ok_def enforcer_ok_def)
  then show ?thesis using d' decided(2) pushLog_ok by simp
qed (use assms in simp_all)

lemma enforcer_reach_ok: "enforcer_reach d \<Longrightarrow> enforcer_ok d"
proof (induction rule: enforcer_reach.induct)
  case (New lm)
  then show ?case
    by (simp add: NewDataResidencyEnforcer_def enforcer_ok_def tables_ok_def keyed_rules_def)
next
  case (AddOrUpdateRule d r now)
  then show ?case unfolding AddOrUpdateRule_def Let_def
    by (intro enforcer_ok_rules keyed_rules_put) (simp_all add: enforcer_ok_def)
next
  case (RemoveRule d rid)
  then show ?case unfolding RemoveRule_def
    by (intro enforcer_ok_rules keyed_rules_del) (simp_all add: enforcer_ok_def)
next
  case (LoadRulesJSON d raw now)
  then have "keyed_rules (rules d)" by (simp add: enforcer_ok_def)
  with LoadRulesJSON show ?case
    by (cases raw) (simp_all add: LoadRulesJSON_def enforcer_ok_rules keyed_rules_load)
next
  case (RegisterNotifier d n)
  then show ?case by (simp add: RegisterNotifier_def enforcer_ok_def tables_ok_def)
next
  case (UpdateCountryRisk d c v)
  then have "\<forall>x\<in>snd ` set (countryRisk (UpdateCountryRisk c v d)). 0 \<le> x \<and> x \<le> 1"
    using set_put_subset[of "ToUpper c" _ "countryRisk d"]
    by (fastforce simp: UpdateCountryRisk_def Let_def enforcer_ok_def tables_ok_def)
  then show ?case using UpdateCountryRisk.IH
    by (simp add: UpdateCountryRisk_def Let_def enforcer_ok_def tables_ok_def)
next
  case (ClearHistory d)
  then show ?case by (simp add: ClearHistory_def enforcer_ok_def tables_ok_def)
next
  case (EnforceTransfer d orders f t cf c dt now)
  then show ?case by (simp add: EnforceTransfer_ok)
next
  case (EnforceBetweenServices d orders sid tid dt now)
  then show ?case by (simp add: EnforceBetweenServices_ok)
next
  case (Enforce d orders region dt now)
  then show ?case using EnforceTransfer_ok by (simp add: Enforce_def Let_def case_prod_beta)
next
  case (LocationManager d m)
  then show ?case by simp
qed


section \<open>Properties\<close>

text \<open>
  Over every history of operations the history of decisions holds at most 10000 entries, each with
  a score between 0 and 1; rules stay under their IDs; and the score of any further transfer lies
  between 0 and 1, although loaded rules may carry any sensitivity.
\<close>

theorem enforcer_reachable_ok:
  fixes orders :: rule_orders
  assumes "enforcer_reach d"
  shows "length (history d) \<le> 10000 \<and> (\<forall>l\<in>set (history d). entry_ok l) \<and> keyed_rules (rules d) \<and>
    0 \<le> fst (EvaluateRisk (ord_sensitivity orders, ord_penalty orders) f t cf c dt now d) \<and>
    fst (EvaluateRisk (ord_sensitivity orders, ord_penalty orders) f t cf c dt now d) \<le> 1"
  using enforcer_reach_ok[OF assms] score_bounds[of d]
  by (simp add: enforcer_ok_def EvaluateRisk_score)

definition no_orders :: rule_orders where
  "no_orders = \<lparr>ord_sensitivity = [], ord_penalty = [], ord_decision = []\<rparr>"

theorem enforcer_reachable_ok_witness:
  "length (history (NewDataResidencyEnforcer None)) \<le> 10000 \<and>
   fst (EvaluateRisk ([], []) ''EU'' ''US'' '''' ''US'' ''logs'' 5 (NewDataResidencyEnforcer None)) \<le> 1"
  using enforcer_reachable_ok[OF enforcer_reach.New[of None], of no_orders "''EU''" "''US''" "''''" "''US''" "''logs''" 5]
  by (simp add: no_orders_def)

text \<open>The rules that apply to data of a type that leaves a region.\<close>

definition applies :: "string \<Rightarrow> string \<Rightarrow> ResidencyRule \<Rightarrow> bool" where
  "applies f dt r \<longleftrightarrow> EqualFold (ru_Region r) f \<and> containsIgnoreCase (ru_DataTypes r) dt"

definition orders_of :: "DataResidencyEnforcer \<Rightarrow> rule_orders \<Rightarrow> bool" where
  "orders_of d orders \<longleftrightarrow>
     mset (ord_sensitivity orders) = mset (map snd (rules d)) \<and>
     mset (ord_penalty orders) = mset (map snd (rules d)) \<and>
     mset (ord_decision orders) = mset (map snd (rules d))"

lemma find_applies:
  "findRuleForDataInRegion order f dt = find (applies f dt) order"
  by (simp add: findRuleForDataInRegion_def applies_def[abs_def])

lemma find_None_applies: "findRuleForDataInRegion order f dt = None \<longleftrightarrow> \<not> (\<exists>r\<in>set order. applies f dt r)"
  by (auto simp: find_applies find_None_iff)

lemma find_Some_applies:
  "findRuleForDataInRegion order f dt = Some r \<Longrightarrow> r \<in> set order \<and> applies f dt r"
  by (auto simp: find_applies find_Some_iff)

lemma orders_of_sets:
  assumes "orders_of d orders"
  shows "set (ord_sensitivity orders) = snd ` set (rules d)"
    "set (ord_penalty orders) = snd ` set (rules d)"
    "set (ord_decision orders) = snd ` set (rules d)"
  using assms unfolding orders_of_def by (metis set_map set_mset_mset)+

lemma rule_has_key:
  assumes "keyed_rules m" and "r \<in> snd ` set m"
  shows "has_key m (ru_ID r)"
proof -
  obtain k where k: "(k, r) \<in> set m" using assms(2) by auto
  then have "ru_ID r = k" using assms(1) unfolding keyed_rules_def by blast
  then show ?thesis using k unfolding has_key_iff by (metis fst_conv image_eqI)
qed

text \<open>
  C7: When only strict rules apply to the data of a region, and at least one does, no transfer to
  another region is allowed, whichever orders the rules are searched in; the refusal is logged.
\<close>

theorem strict_rules_hold:
  assumes "enforcer_reach d" and "orders_of d orders"
    and "\<exists>r\<in>snd ` set (rules d). applies f dt r"
    and "\<forall>r\<in>snd ` set (rules d). applies f dt r \<longrightarrow> ru_Strict r"
    and "\<not> EqualFold f t"
  shows "\<exists>rid score e. EnforceTransfer orders f t cf c dt now d =
      ((False, StrictRule rid dt f, score), pushLog e d) \<and> has_key (rules d) rid \<and>
      75/100 \<le> score \<and> el_Action e = ''blocked'' \<and> el_RegionTo e = t"
proof -
  note sets = orders_of_sets[OF assms(2)]
  obtain r where r: "deciding orders f dt = Some r" "r \<in> snd ` set (rules d)" "applies f dt r"
    using assms(3) find_None_applies[of "ord_decision orders" f dt] find_Some_applies[of "ord_decision orders" f dt]
    unfolding deciding_def sets by (cases "findRuleForDataInRegion (ord_decision orders) f dt") blast+
  obtain r' where r': "findRuleForDataInRegion (ord_penalty orders) f dt = Some r'"
    "r' \<in> snd ` set (rules d)" "applies f dt r'"
    using assms(3) find_None_applies[of "ord_penalty orders" f dt] find_Some_applies[of "ord_penalty orders" f dt]
    unfolding sets by (cases "findRuleForDataInRegion (ord_penalty orders) f dt") blast+
  have strict: "ru_Strict r" "ru_Strict r'" using assms(4) r r' by auto
  have ok: "enforcer_ok d" using enforcer_reach_ok[OF assms(1)] .
  then have score: "75/100 \<le> score_of orders f t c dt now d"
    using strict_score[OF _ r'(1) strict(2) assms(5)] by (simp add: enforcer_ok_def)
  have key: "has_key (rules d) (ru_ID r)"
    using ok r(2) rule_has_key by (simp add: enforcer_ok_def)
  let ?e = "log_entry f t cf c dt ''blocked'' (StrictRule (ru_ID r) dt f) (score_of orders f t c dt now d) now"
  have "EnforceTransfer orders f t cf c dt now d =
      ((False, StrictRule (ru_ID r) dt f, score_of orders f t c dt now d), pushLog ?e d)"
    using r(1) strict(1) assms(5) EvaluateRisk_score[of orders f t cf c dt now d]
    by (simp add: EnforceTransfer_def deciding_def Let_def case_prod_beta)
  then show ?thesis using score key
    by (intro exI[of _ "ru_ID r"] exI[of _ "score_of orders f t c dt now d"] exI[of _ ?e])
      (simp add: log_entry_def)
qed

definition eu_strict :: ResidencyRule where
  "eu_strict = \<lparr>ru_ID = ''gdpr'', ru_Region = ''EU'', ru_Countries = [], ru_DataTypes = [''logs''],
     ru_Strict = True, ru_Notes = '''', ru_CreatedAt = 1, ru_UpdatedAt = 1, ru_LegalRefs = [],
     ru_Sensitivity = 0\<rparr>"

definition eu_enforcer :: DataResidencyEnforcer where
  "eu_enforcer = AddOrUpdateRule eu_strict 1 (NewDataResidencyEnforcer None)"

lemma eu_enforcer: "enforcer_reach eu_enforcer" "rules eu_enforcer = [(''gdpr'', eu_strict)]"
  unfolding eu_enforcer_def
  by (auto intro!: enforcer_reach.intros)
    (simp add: AddOrUpdateRule_def NewDataResidencyEnforcer_def eu_strict_def IsZero_def)

theorem strict_rules_hold_witness:
  "\<not> fst (fst (EnforceTransfer \<lparr>ord_sensitivity = [eu_strict], ord_penalty = [eu_strict],
      ord_decision = [eu_strict]\<rparr> ''EU'' ''US'' '''' ''US'' ''logs'' 5 eu_enforcer))"
proof -
  let ?o = "\<lparr>ord_sensitivity = [eu_strict], ord_penalty = [eu_strict], ord_decision = [eu_strict]\<rparr>"
  have "orders_of eu_enforcer ?o" by (simp add: orders_of_def eu_enforcer)
  moreover have "applies ''EU'' ''logs'' eu_strict"
    by (simp add: applies_def eu_strict_def containsIgnoreCase_def)
  moreover have "ru_Strict eu_strict" by (simp add: eu_strict_def)
  moreover have "\<not> EqualFold ''EU'' ''US''" by code_simp
  ultimately show ?thesis
    using strict_rules_hold[OF eu_enforcer(1), of ?o "''EU''" "''logs''" "''US''" "''''" "''US''" 5]
    by (auto simp: eu_enforcer)
qed

section \<open>What rules cannot do\<close>

definition eu_lenient :: ResidencyRule where
  "eu_lenient = eu_strict\<lparr>ru_ID := ''partner'', ru_Strict := False\<rparr>"

definition eu_overlap :: DataResidencyEnforcer where
  "eu_overlap = AddOrUpdateRule eu_lenient 1 eu_enforcer"

lemma eu_overlap:
  "enforcer_reach eu_overlap" "rules eu_overlap = [(''gdpr'', eu_strict), (''partner'', eu_lenient)]"
  unfolding eu_overlap_def
  by (auto intro!: enforcer_reach.intros eu_enforcer(1))
    (simp add: AddOrUpdateRule_def eu_enforcer eu_lenient_def eu_strict_def IsZero_def)

definition same_order :: "ResidencyRule list \<Rightarrow> rule_orders" where
  "same_order rs = \<lparr>ord_sensitivity = rs, ord_penalty = rs, ord_decision = rs\<rparr>"

text \<open>
  When a strict and a lenient rule apply to the same data, the order in which Go happens to visit
  the map of rules decides: the same transfer is allowed in one order and refused in another.
\<close>

theorem overlapping_rules_depend_on_the_order:
  "\<exists>d o1 o2. enforcer_reach d \<and> orders_of d o1 \<and> orders_of d o2 \<and>
     (\<exists>r\<in>snd ` set (rules d). applies ''EU'' ''logs'' r \<and> ru_Strict r) \<and>
     \<not> fst (fst (EnforceTransfer o1 ''EU'' ''US'' '''' ''US'' ''logs'' 5 d)) \<and>
     fst (fst (EnforceTransfer o2 ''EU'' ''US'' '''' ''US'' ''logs'' 5 d))"
proof (intro exI conjI)
  let ?o1 = "same_order [eu_strict, eu_lenient]"
  let ?o2 = "same_order [eu_lenient, eu_strict]"
  have a: "applies ''EU'' ''logs'' eu_strict" "applies ''EU'' ''logs'' eu_lenient"
    by (simp_all add: applies_def eu_strict_def eu_lenient_def containsIgnoreCase_def)
  have s: "ru_Strict eu_strict" "\<not> ru_Strict eu_lenient" by (simp_all add: eu_strict_def eu_lenient_def)
  have f: "\<not> EqualFold ''EU'' ''US''" by code_simp
  have c: "country_risk ''US'' eu_overlap = 20/100" and ds: "get (defaultSensitivity eu_overlap) ''logs'' = Some (20/100)"
    and h: "history eu_overlap = []"
    by (simp_all add: country_risk_def eu_overlap_def eu_enforcer_def AddOrUpdateRule_def Let_def
        NewDataResidencyEnforcer_def ToUpper_def upper_char_def)
  show "enforcer_reach eu_overlap" by (rule eu_overlap)
  show "orders_of eu_overlap ?o1" "orders_of eu_overlap ?o2"
    by (simp_all add: orders_of_def eu_overlap same_order_def add_mset_commute)
  show "\<exists>r\<in>snd ` set (rules eu_overlap). applies ''EU'' ''logs'' r \<and> ru_Strict r"
    using a s by (simp add: eu_overlap)
  show "\<not> fst (fst (EnforceTransfer ?o1 ''EU'' ''US'' '''' ''US'' ''logs'' 5 eu_overlap))"
    using a s f by (simp add: EnforceTransfer_decision forbidden_def deciding_def find_applies same_order_def)
  have "ru_Sensitivity eu_lenient = 0" by (simp add: eu_lenient_def eu_strict_def)
  then have "score_of ?o2 ''EU'' ''US'' ''US'' ''logs'' 5 eu_overlap = 43/100"
    using a s f c ds h
    by (simp add: score_of_def find_applies same_order_def sensitivity_of_def raw_score_def
        strict_penalty_def recentEventsCount_def history_factor_def)
  then show "fst (fst (EnforceTransfer ?o2 ''EU'' ''US'' '''' ''US'' ''logs'' 5 eu_overlap))"
    using a s f by (simp add: EnforceTransfer_decision forbidden_def deciding_def find_applies same_order_def)
qed

text \<open>Replacing the country lists of rules.\<close>

definition relist :: "string list \<Rightarrow> rule_orders \<Rightarrow> rule_orders" where
  "relist cs orders =
     \<lparr>ord_sensitivity = map (\<lambda>r. r\<lparr>ru_Countries := cs\<rparr>) (ord_sensitivity orders),
      ord_penalty = map (\<lambda>r. r\<lparr>ru_Countries := cs\<rparr>) (ord_penalty orders),
      ord_decision = map (\<lambda>r. r\<lparr>ru_Countries := cs\<rparr>) (ord_decision orders)\<rparr>"

lemma find_relist:
  "findRuleForDataInRegion (map (\<lambda>r. r\<lparr>ru_Countries := cs\<rparr>) order) f dt =
     map_option (\<lambda>r. r\<lparr>ru_Countries := cs\<rparr>) (findRuleForDataInRegion order f dt)"
  by (induction order) (simp_all add: findRuleForDataInRegion_def)

lemma sensitivity_relist:
  "sensitivity_of (map_option (\<lambda>r. r\<lparr>ru_Countries := cs\<rparr>) r) dt d = sensitivity_of r dt d"
  by (cases r) (simp_all add: sensitivity_of_def)

lemma find_lenient:
  assumes "\<forall>r\<in>set order. \<not> ru_Strict r"
  shows "strict_penalty (findRuleForDataInRegion order f dt) f t c = 0"
  using assms find_Some_applies[of order f dt]
  by (cases "findRuleForDataInRegion order f dt") (simp_all add: strict_penalty_def)

text \<open>
  The country list of a rule that is not strict has no effect on the decision or the score: a
  transfer to a country that no rule lists is judged by its risk alone, as if the lists were other ones.
\<close>

theorem country_lists_do_not_decide:
  assumes "\<forall>r\<in>set (ord_penalty orders) \<union> set (ord_decision orders). \<not> ru_Strict r"
  shows "fst (fst (EnforceTransfer (relist cs orders) f t cf c dt now d)) =
      fst (fst (EnforceTransfer orders f t cf c dt now d)) \<and>
    snd (snd (fst (EnforceTransfer (relist cs orders) f t cf c dt now d))) =
      snd (snd (fst (EnforceTransfer orders f t cf c dt now d)))"
proof -
  have p: "strict_penalty (findRuleForDataInRegion (ord_penalty orders) f dt) f t c = 0"
    "strict_penalty (findRuleForDataInRegion (ord_penalty (relist cs orders)) f dt) f t c = 0"
    using assms by (intro find_lenient; auto simp: relist_def)+
  have "score_of (relist cs orders) f t c dt now d = score_of orders f t c dt now d"
    unfolding score_of_def p by (simp add: relist_def find_relist sensitivity_relist)
  moreover have "\<not> forbidden orders f t dt" "\<not> forbidden (relist cs orders) f t dt"
    using assms find_Some_applies[of "ord_decision orders" f dt]
    by (auto simp: forbidden_def deciding_def relist_def find_relist split: option.splits)
  ultimately show ?thesis
    using EnforceTransfer_shape[of orders f t cf c dt now d]
      EnforceTransfer_shape[of "relist cs orders" f t cf c dt now d] by auto
qed

theorem country_lists_do_not_decide_witness:
  "fst (fst (EnforceTransfer (relist [''DE''] (same_order [eu_lenient])) ''EU'' ''US'' '''' ''US'' ''logs'' 5 eu_overlap)) =
   fst (fst (EnforceTransfer (same_order [eu_lenient]) ''EU'' ''US'' '''' ''US'' ''logs'' 5 eu_overlap))"
  using country_lists_do_not_decide[of "same_order [eu_lenient]" "[''DE'']"]
  by (simp add: same_order_def eu_lenient_def)

section \<open>Where no rule applies\<close>

lemma history_factor_value: "history_factor n = of_nat (min n 10) / 10"
  by (simp add: history_factor_def Let_def min_def)

text \<open>
  Where no rule applies, the old interface Enforce decides by the type of the data and the recent
  refusals alone, as long as nobody rates the empty country: health data, biometrics, payments and
  user data are never allowed, logs always, and any other type exactly until five transfers
  from the region were refused or warned about within thirty days.
\<close>

theorem Enforce_without_rules:
  assumes "orders_of d orders" and "\<forall>r\<in>snd ` set (rules d). \<not> applies region dt r"
    and "get (countryRisk d) '''' = None"
    and "defaultSensitivity d = defaultSensitivity (NewDataResidencyEnforcer None)"
  shows "fst (Enforce orders region dt now d) \<longleftrightarrow>
    dt \<notin> {''biometrics'', ''user_data'', ''payments'', ''health''} \<and>
    (dt = ''logs'' \<or> recentEventsCount region (30 * Day) now d < 5)"
proof -
  let ?n = "recentEventsCount region (30 * Day) now d"
  have none: "findRuleForDataInRegion (ord_sensitivity orders) region dt = None"
    "findRuleForDataInRegion (ord_penalty orders) region dt = None"
    using assms(2) orders_of_sets[OF assms(1)] by (auto simp: find_None_applies)
  have risk: "country_risk '''' d = 1/2" using assms(3) by (simp add: country_risk_def ToUpper_def)
  have "score_of orders region region '''' dt now d =
      min 1 (sensitivity_of None dt d * (6/10) + 15/100 + of_nat (min ?n 10) / 100)"
    by (simp add: score_of_def none risk raw_score_def history_factor_value strict_penalty_def)
  moreover have "fst (Enforce orders region dt now d) \<longleftrightarrow> score_of orders region region '''' dt now d < 1/2"
    by (simp add: Enforce_def Let_def case_prod_beta EnforceTransfer_decision forbidden_def)
  moreover have "sensitivity_of None dt d =
     (if dt = ''biometrics'' \<or> dt = ''health'' then 95/100 else if dt = ''user_data'' then 60/100
      else if dt = ''payments'' then 90/100 else if dt = ''logs'' then 20/100 else 1/2)"
    using assms(4) by (simp add: sensitivity_of_def NewDataResidencyEnforcer_def)
  moreover have "(of_nat (min ?n 10) :: rat) < 5 \<longleftrightarrow> ?n < 5"
    by (simp add: min_def)
  moreover have "(of_nat (min ?n 10) :: rat) \<le> 10" by (simp add: min_def)
  ultimately show ?thesis by (auto simp: min_def)
qed

theorem Enforce_without_rules_witness:
  "\<not> fst (Enforce no_orders ''EU'' ''user_data'' 5 (NewDataResidencyEnforcer None)) \<and>
   fst (Enforce no_orders ''EU'' ''logs'' 5 (NewDataResidencyEnforcer None))"
proof -
  let ?d = "NewDataResidencyEnforcer None"
  have "orders_of ?d no_orders" "\<forall>r\<in>snd ` set (rules ?d). \<not> applies ''EU'' dt r"
    "get (countryRisk ?d) '''' = None" for dt
    by (simp_all add: orders_of_def no_orders_def NewDataResidencyEnforcer_def)
  note E = Enforce_without_rules[OF this refl]
  show ?thesis by (simp add: E)
qed

section \<open>Transfers between services\<close>

lemma resolve_free:
  assumes "lm_ok lm" and "lm_mu lm = Unlocked"
  shows "resolveLocationByID sid (Some lm) = Returned (get (locations lm) sid) (Some lm)"
  using assms manager.find_is_lookup[OF assms(1)]
  by (simp add: resolveLocationByID_def ListAll_def lm_free)

lemma resolve_held:
  "lm_mu lm = WLocked \<Longrightarrow> resolveLocationByID sid (Some lm) = Blocked (Some lm)"
  by (simp add: resolveLocationByID_def ListAll_def lm_held)

text \<open>
  A transfer between two services is judged like a transfer between the regions under which the
  location manager knows them and the countries of their metadata (their country field plays no
  part): it is refused when a service is unknown, and it never returns once a heartbeat has stopped
  the manager. A judged transfer is logged twice, the second time as blocked unless allowed.
\<close>

theorem between_services_follows_the_manager:
  assumes "lm_run NewLocationManager lm" and "locationManager d = Some lm"
  shows "if lm_mu lm \<noteq> Unlocked
    then is_blocked (EnforceBetweenServices orders sid tid dt now d)
    else case (get (locations lm) sid, get (locations lm) tid) of
      (Some s, Some u) \<Rightarrow>
        (let t = EnforceTransfer orders (sl_Region s) (sl_Region u) (country_meta s) (country_meta u) dt now d
         in \<exists>e. EnforceBetweenServices orders sid tid dt now d = Returned (fst t) (pushLog e (snd t)) \<and>
              el_SourceID e = sid \<and> el_TargetID e = tid \<and>
              el_Action e = (if fst (fst t) then ''allowed'' else ''blocked''))
    | _ \<Rightarrow> EnforceBetweenServices orders sid tid dt now d = Returned (False, LocationUnknown, 1) d"
proof (cases "lm_mu lm = Unlocked")
  case False
  then have "lm_mu lm = WLocked" using lm_run_ok[OF assms(1) lm_ok_New] by (auto simp: lm_ok_def)
  then show ?thesis using False assms(2) by (simp add: EnforceBetweenServices_def resolve_held)
next
  case True
  have ok: "lm_ok lm" using lm_run_ok[OF assms(1) lm_ok_New] .
  have same: "d\<lparr>locationManager := Some lm\<rparr> = d" using assms(2) by (cases d) simp
  note res = resolve_free[OF ok True]
  show ?thesis
  proof (cases "get (locations lm) sid = None \<or> get (locations lm) tid = None")
    case unknown: True
    then have "EnforceBetweenServices orders sid tid dt now d = Returned (False, LocationUnknown, 1) d"
      by (cases "get (locations lm) sid"; cases "get (locations lm) tid")
        (simp_all add: EnforceBetweenServices_def assms(2) res same)
    then show ?thesis using True unknown by (auto split: option.split)
  next
    case False
    then obtain s u where su: "get (locations lm) sid = Some s" "get (locations lm) tid = Some u" by auto
    let ?t = "EnforceTransfer orders (sl_Region s) (sl_Region u) (country_meta s) (country_meta u) dt now d"
    let ?e = "(log_entry (sl_Region s) (sl_Region u) (country_meta s) (country_meta u) dt
        (if fst (fst ?t) then ''allowed'' else ''blocked'') (fst (snd (fst ?t))) (snd (snd (fst ?t))) now)
        \<lparr>el_SourceID := sid, el_TargetID := tid\<rparr>"
    have "EnforceBetweenServices orders sid tid dt now d = Returned (fst ?t) (pushLog ?e (snd ?t))"
      by (simp add: EnforceBetweenServices_def assms(2) res su same Let_def case_prod_beta)
    then have "\<exists>e. EnforceBetweenServices orders sid tid dt now d = Returned (fst ?t) (pushLog e (snd ?t)) \<and>
        el_SourceID e = sid \<and> el_TargetID e = tid \<and>
        el_Action e = (if fst (fst ?t) then ''allowed'' else ''blocked'')"
      by (intro exI[of _ ?e] conjI) (assumption, simp_all add: log_entry_def)
    then show ?thesis unfolding su option.case prod.case Let_def using True by simp
  qed
qed

theorem between_services_follows_the_manager_witness:
  "fst (fst (EnforceTransfer no_orders ''EU'' ''EU'' ''DE'' ''DE'' ''logs'' 5
     (NewDataResidencyEnforcer (Some lm0)))) =
   (case EnforceBetweenServices no_orders ''n1'' ''n1'' ''logs'' 5 (NewDataResidencyEnforcer (Some lm0)) of
      Returned r _ \<Rightarrow> fst r | _ \<Rightarrow> False)"
proof -
  let ?d = "NewDataResidencyEnforcer (Some lm0)"
  have r: "lm_run NewLocationManager lm0"
    unfolding lm0_def by (intro lm_run.run_step[OF lm_run.run_start] lm_step.Register)
  have "get (locations lm0) ''n1'' = Some loc0" by (simp add: lm0)
  moreover have "locationManager ?d = Some lm0" by (simp add: NewDataResidencyEnforcer_def)
  ultimately show ?thesis
    using between_services_follows_the_manager[OF r, of ?d no_orders "''n1''" "''n1''" "''logs''" 5]
    by (auto simp: lm0 Let_def country_meta_def loc0_def)
qed

end
