(* ===== verification/SRM.thy ===== *)
theory SRM
  imports GoPrelude
begin

text \<open>
  The smart resource manager of \<^verbatim>\<open>src/internal/services/srm.go\<close>: provider accounts with quotas read
  from the database, a cache of them with a time to live, reservations per account, and the matching
  of requirements. The package-level variables are one record. The database is a parameter with its
  two queries, the second by primary key (GORM's Find and First). A quota text is what its JSON decodes to. The text of a value that is
  not a string is a parameter (json.Marshal), applied where the code applies it. Scores are exact
  reals, since they contain a logarithm; ints wrap at 64 bits where the code adds to a reservation.
\<close>

section \<open>Integers and dynamic values\<close>

text \<open>
  strconv.Atoi of a decimal text with an optional sign: the number, and whether there was no error.
  The number of an error is 0 for a bad text and a limit for one out of range.
\<close>

definition is_digit :: "char \<Rightarrow> bool" where
  "is_digit c \<longleftrightarrow> (let n = of_char c :: nat in 48 \<le> n \<and> n \<le> 57)"

definition Atoi :: "string \<Rightarrow> int \<times> bool" where
  "Atoi s =
     (let (neg, ds) = (case s of [] \<Rightarrow> (False, []) | c # cs \<Rightarrow>
            if c = CHR ''-'' then (True, cs) else if c = CHR ''+'' then (False, cs) else (False, s))
      in if ds = [] \<or> \<not> list_all is_digit ds then (0, False)
         else let n = (if neg then - int (dec_value ds) else int (dec_value ds))
              in if n > 2 ^ 63 - 1 then (2 ^ 63 - 1, False)
                 else if n < - (2 ^ 63) then (- (2 ^ 63), False) else (n, True))"

definition toInt :: "any option \<Rightarrow> int" where
  "toInt v =
     (case v of
        Some (AFloat f) \<Rightarrow> trunc_int f
      | Some (AInt i) \<Rightarrow> i
      | Some (AStr s) \<Rightarrow> fst (Atoi s)
      | _ \<Rightarrow> 0)"

text \<open>strconv.ParseFloat is a parameter; its error leaves a value that the code uses all the same.\<close>

definition toFloat :: "(string \<Rightarrow> float64) \<Rightarrow> any option \<Rightarrow> float64" where
  "toFloat ParseFloat v =
     (case v of
        Some (AFloat f) \<Rightarrow> f
      | Some (AInt i) \<Rightarrow> of_int i
      | Some (AStr s) \<Rightarrow> ParseFloat s
      | _ \<Rightarrow> 0)"

text \<open>An absent entry is a nil interface, whose JSON text is null.\<close>

definition toString :: "(any \<Rightarrow> string) \<Rightarrow> any option \<Rightarrow> string" where
  "toString Marshal v =
     (case v of None \<Rightarrow> ''null'' | Some (AStr s) \<Rightarrow> s | Some a \<Rightarrow> Marshal a)"

record stdlib =
  ParseFloat :: "string \<Rightarrow> float64"
  Marshal :: "any \<Rightarrow> string"

section \<open>State\<close>

record ProviderAccount =
  pa_ID :: nat
  pa_Provider :: string
  pa_QuotaJSON :: "(string, any) gomap"

record DB =
  db_Find :: "ProviderAccount list option"          \<comment> \<open>\<open>None\<close>: the query failed\<close>
  db_First :: "nat \<Rightarrow> ProviderAccount option"         \<comment> \<open>\<open>None\<close>: failed or not found\<close>

record ResourceMetadata =
  rm_Provider :: string
  rm_AccountID :: nat
  rm_CPU :: int
  rm_RAM :: int
  rm_GPU :: int
  rm_Region :: string
  rm_Latency :: int
  rm_Type :: string
  rm_CostPerHour :: float64
  rm_UptimePercent :: float64
  rm_PowerEfficiency :: float64
  rm_AvailableCPU :: int
  rm_AvailableRAM :: int
  rm_AvailableGPU :: int
  rm_LastUpdated :: gotime

record ResourceMatch =
  ma_Meta :: ResourceMetadata
  ma_Score :: real

record Requirements =
  rq_CPU :: int
  rq_GPU :: int
  rq_RAM :: int
  rq_Region :: string
  rq_Type :: string
  rq_MaxCost :: float64
  rq_MinUptime :: float64

record reservation =
  rv_CPU :: int
  rv_GPU :: int
  rv_RAM :: int
  rv_At :: gotime

record cacheEntry =
  ce_metas :: "ResourceMetadata list option"   \<comment> \<open>\<open>None\<close>: the nil slice\<close>
  ce_expire :: gotime

record SRM =
  resourceCache :: cacheEntry
  reservations :: "(nat, reservation) gomap"

definition initial_SRM :: SRM where
  "initial_SRM = \<lparr>resourceCache = \<lparr>ce_metas = None, ce_expire = 0\<rparr>, reservations = []\<rparr>"

text \<open>The value of SRM_CACHE_TTL, empty when unset.\<close>

definition cacheTTLSeconds :: "string \<Rightarrow> int" where
  "cacheTTLSeconds v =
     (let (t, ok) = Atoi v in if v \<noteq> '''' \<and> ok \<and> t > 0 then t else 10)"

section \<open>Reading resources\<close>

definition no_reservation :: reservation where
  "no_reservation = \<lparr>rv_CPU = 0, rv_GPU = 0, rv_RAM = 0, rv_At = 0\<rparr>"

definition currentReservation :: "nat \<Rightarrow> SRM \<Rightarrow> reservation" where
  "currentReservation accountID s =
     (case get (reservations s) accountID of Some r \<Rightarrow> r | None \<Rightarrow> no_reservation)"

definition meta_of :: "stdlib \<Rightarrow> gotime \<Rightarrow> SRM \<Rightarrow> ProviderAccount \<Rightarrow> ResourceMetadata" where
  "meta_of lib now s p =
     (let raw = get (pa_QuotaJSON p); res = currentReservation (pa_ID p) s;
          cpu = toInt (raw ''cpu''); ram = toInt (raw ''ram''); gpu = toInt (raw ''gpu'')
      in \<lparr>rm_Provider = pa_Provider p, rm_AccountID = pa_ID p, rm_CPU = cpu, rm_RAM = ram, rm_GPU = gpu,
          rm_Region = toString (Marshal lib) (raw ''region''), rm_Latency = toInt (raw ''latency''),
          rm_Type = toString (Marshal lib) (raw ''type''),
          rm_CostPerHour = toFloat (ParseFloat lib) (raw ''cost_per_hour''),
          rm_UptimePercent = toFloat (ParseFloat lib) (raw ''uptime_percent''),
          rm_PowerEfficiency = toFloat (ParseFloat lib) (raw ''power_efficiency''),
          rm_AvailableCPU = max 0 (wrap64 (cpu - rv_CPU res)),
          rm_AvailableRAM = max 0 (wrap64 (ram - rv_RAM res)),
          rm_AvailableGPU = max 0 (wrap64 (gpu - rv_GPU res)), rm_LastUpdated = now\<rparr>)"

definition fetchResourcesFromDB ::
    "stdlib \<Rightarrow> DB \<Rightarrow> gotime \<Rightarrow> SRM \<Rightarrow> ResourceMetadata list option" where
  "fetchResourcesFromDB lib db now s = map_option (map (meta_of lib now s)) (db_Find db)"

definition GetResources ::
    "stdlib \<Rightarrow> int \<Rightarrow> DB \<Rightarrow> gotime \<Rightarrow> SRM \<Rightarrow> ResourceMetadata list option \<times> SRM" where
  "GetResources lib ttl db now s =
     (if now < ce_expire (resourceCache s) \<and> ce_metas (resourceCache s) \<noteq> None
      then (ce_metas (resourceCache s), s)
      else case fetchResourcesFromDB lib db now s of
             None \<Rightarrow> (None, s)
           | Some metas \<Rightarrow>
               (Some metas, s\<lparr>resourceCache := \<lparr>ce_metas = Some metas, ce_expire = now + wrap64 (ttl * Second)\<rparr>\<rparr>))"

section \<open>Matching\<close>

definition candidate :: "Requirements \<Rightarrow> ResourceMetadata \<Rightarrow> bool" where
  "candidate req m \<longleftrightarrow>
     \<not> (rq_CPU req > 0 \<and> rm_AvailableCPU m < rq_CPU req) \<and>
     \<not> (rq_GPU req > 0 \<and> rm_AvailableGPU m < rq_GPU req) \<and>
     \<not> (rq_RAM req > 0 \<and> rm_AvailableRAM m < rq_RAM req) \<and>
     \<not> (rq_Region req \<noteq> '''' \<and> rm_Region m \<noteq> rq_Region req) \<and>
     \<not> (rq_Type req \<noteq> '''' \<and> rm_Type m \<noteq> rq_Type req) \<and>
     \<not> (rq_MaxCost req > 0 \<and> rm_CostPerHour m > 0 \<and> rm_CostPerHour m > rq_MaxCost req) \<and>
     \<not> (rq_MinUptime req > 0 \<and> rm_UptimePercent m < rq_MinUptime req)"

definition Log1p :: "real \<Rightarrow> real" where
  "Log1p x = ln (1 + x)"

definition computeScore :: "ResourceMetadata \<Rightarrow> Requirements \<Rightarrow> real" where
  "computeScore m req =
     (let score = 0 :: real;
          score = score + (if rq_CPU req > 0 then of_int (min (rm_AvailableCPU m) (rq_CPU req)) * 2
                           else of_int (rm_AvailableCPU m) * (1/2));
          score = score + (if rq_GPU req > 0 then of_int (min (rm_AvailableGPU m) (rq_GPU req)) * 4
                           else of_int (rm_AvailableGPU m));
          score = score + (if rq_RAM req > 0 then of_int (min (rm_AvailableRAM m) (rq_RAM req)) * (1/2)
                           else of_int (rm_AvailableRAM m) * (2/10));
          latencyScore = 100 - of_int (rm_Latency m);
          latencyScore = (if latencyScore < 0 then 0 else latencyScore);
          score = score + latencyScore * (3/10);
          score = (if rm_CostPerHour m > 0
                   then score + 1 / (1 + of_rat (rm_CostPerHour m)) * 50 else score);
          score = score + of_rat (rm_UptimePercent m) * (2/10);
          score = score + of_rat (rm_PowerEfficiency m) * (1/10);
          score = (if rq_Region req \<noteq> '''' \<and> rq_Region req = rm_Region m then score + 20 else score);
          score = (if rq_Type req \<noteq> '''' \<and> rq_Type req = rm_Type m then score + 10 else score)
      in score - Log1p (max 0 (of_int (max 0 (rq_CPU req - rm_AvailableCPU m)))) * 5)"

text \<open>sort.SliceStable with the greater score first; sort_key is stable.\<close>

definition MatchResourcesAdvanced ::
    "stdlib \<Rightarrow> int \<Rightarrow> DB \<Rightarrow> gotime \<Rightarrow> Requirements \<Rightarrow> SRM \<Rightarrow> ResourceMatch list option \<times> SRM" where
  "MatchResourcesAdvanced lib ttl db now req s =
     (case GetResources lib ttl db now s of
        (None, s) \<Rightarrow> (None, s)
      | (Some metas, s) \<Rightarrow>
          (Some (sort_key (\<lambda>m. - ma_Score m)
             (map (\<lambda>m. \<lparr>ma_Meta = m, ma_Score = computeScore m req\<rparr>) (filter (candidate req) metas))), s))"

text \<open>An absent key leaves the zero value; a present one is converted.\<close>

definition parseReq :: "stdlib \<Rightarrow> (string, any) gomap \<Rightarrow> Requirements" where
  "parseReq lib req =
     (let num = (\<lambda>k. toInt (get req k));
          txt = (\<lambda>k. case get req k of None \<Rightarrow> '''' | v \<Rightarrow> toString (Marshal lib) v);
          flt = (\<lambda>k. toFloat (ParseFloat lib) (get req k))
      in \<lparr>rq_CPU = num ''cpu'', rq_GPU = num ''gpu'', rq_RAM = num ''ram'', rq_Region = txt ''region'',
          rq_Type = txt ''type'', rq_MaxCost = flt ''max_cost'', rq_MinUptime = flt ''min_uptime''\<rparr>)"

definition MatchResources ::
    "stdlib \<Rightarrow> int \<Rightarrow> DB \<Rightarrow> gotime \<Rightarrow> (string, any) gomap \<Rightarrow> SRM \<Rightarrow> ResourceMetadata list option \<times> SRM" where
  "MatchResources lib ttl db now req s =
     (let (matches, s) = MatchResourcesAdvanced lib ttl db now (parseReq lib req) s
      in (map_option (map ma_Meta) matches, s))"

section \<open>Reservations\<close>

definition getTotal :: "string \<Rightarrow> DB \<Rightarrow> nat \<Rightarrow> int" where
  "getTotal key db accountID =
     (case db_First db accountID of None \<Rightarrow> 0 | Some p \<Rightarrow> toInt (get (pa_QuotaJSON p) key))"

definition getTotalCPU :: "DB \<Rightarrow> nat \<Rightarrow> int" where
  "getTotalCPU = getTotal ''cpu''"

definition getTotalGPU :: "DB \<Rightarrow> nat \<Rightarrow> int" where
  "getTotalGPU = getTotal ''gpu''"

definition getTotalRAM :: "DB \<Rightarrow> nat \<Rightarrow> int" where
  "getTotalRAM = getTotal ''ram''"

definition invalidateCache :: "SRM \<Rightarrow> SRM" where
  "invalidateCache s = s\<lparr>resourceCache := \<lparr>ce_metas = None, ce_expire = 0\<rparr>\<rparr>"

datatype srm_error = InsufficientCPU | InsufficientGPU | InsufficientRAM

definition ReserveResource ::
    "DB \<Rightarrow> nat \<Rightarrow> int \<Rightarrow> int \<Rightarrow> int \<Rightarrow> gotime \<Rightarrow> SRM \<Rightarrow> srm_error option \<times> SRM" where
  "ReserveResource db accountID cpu gpu ram now s =
     (let res = currentReservation accountID s
      in if wrap64 (rv_CPU res + cpu) > getTotalCPU db accountID then (Some InsufficientCPU, s)
         else if wrap64 (rv_GPU res + gpu) > getTotalGPU db accountID then (Some InsufficientGPU, s)
         else if wrap64 (rv_RAM res + ram) > getTotalRAM db accountID then (Some InsufficientRAM, s)
         else
           let res = \<lparr>rv_CPU = wrap64 (rv_CPU res + cpu), rv_GPU = wrap64 (rv_GPU res + gpu),
                     rv_RAM = wrap64 (rv_RAM res + ram), rv_At = now\<rparr>
           in (None, invalidateCache (s\<lparr>reservations := put accountID res (reservations s)\<rparr>)))"

definition ReleaseResource :: "nat \<Rightarrow> int \<Rightarrow> int \<Rightarrow> int \<Rightarrow> gotime \<Rightarrow> SRM \<Rightarrow> SRM" where
  "ReleaseResource accountID cpu gpu ram now s =
     (let res = currentReservation accountID s;
          res = \<lparr>rv_CPU = max 0 (wrap64 (rv_CPU res - cpu)), rv_GPU = max 0 (wrap64 (rv_GPU res - gpu)),
                 rv_RAM = max 0 (wrap64 (rv_RAM res - ram)), rv_At = now\<rparr>
      in invalidateCache
           (if rv_CPU res = 0 \<and> rv_GPU res = 0 \<and> rv_RAM res = 0
            then s\<lparr>reservations := del accountID (reservations s)\<rparr>
            else s\<lparr>reservations := put accountID res (reservations s)\<rparr>))"

end
