(* ===== verification/SRMProps.thy ===== *)
theory SRMProps
  imports SRM
begin

text \<open>
  Properties of the resource manager: reservations stay within the quotas, what a match offers can
  be reserved, the ranking of matches, negative amounts, and the deadlock of a cache refill with a
  reservation, which take the two locks in opposite orders.
\<close>

section \<open>A consistent database\<close>

text \<open>The two queries agree, and the quotas are numbers that leave room for one more request.\<close>

definition db_ok :: "DB \<Rightarrow> bool" where
  "db_ok db \<longleftrightarrow> (\<exists>ps. db_Find db = Some ps \<and> distinct (map pa_ID ps) \<and>
     (\<forall>i p. db_First db i = Some p \<longleftrightarrow> p \<in> set ps \<and> pa_ID p = i) \<and>
     (\<forall>p\<in>set ps. \<forall>k\<in>{''cpu'', ''gpu'', ''ram''}.
        0 \<le> toInt (get (pa_QuotaJSON p) k) \<and> toInt (get (pa_QuotaJSON p) k) < 2 ^ 62))"

definition amount :: "int \<Rightarrow> bool" where
  "amount x \<longleftrightarrow> 0 \<le> x \<and> x < 2 ^ 62"

lemma getTotal_amount:
  assumes "db_ok db" and "k \<in> {''cpu'', ''gpu'', ''ram''}"
  shows "amount (getTotal k db a)"
  using assms unfolding db_ok_def getTotal_def amount_def by (auto split: option.split)

lemma totals_amount:
  assumes "db_ok db"
  shows "amount (getTotalCPU db a)" "amount (getTotalGPU db a)" "amount (getTotalRAM db a)"
  using getTotal_amount[OF assms] by (simp_all add: getTotalCPU_def getTotalGPU_def getTotalRAM_def)

lemma wrap_sum: "amount x \<Longrightarrow> amount y \<Longrightarrow> wrap64 (x + y) = x + y"
  by (intro wrap64_id) (simp_all add: amount_def)

lemma wrap_diff: "amount x \<Longrightarrow> amount y \<Longrightarrow> wrap64 (x - y) = x - y"
  by (intro wrap64_id) (simp_all add: amount_def)

definition within_quota :: "DB \<Rightarrow> nat \<Rightarrow> reservation \<Rightarrow> bool" where
  "within_quota db a r \<longleftrightarrow>
     0 \<le> rv_CPU r \<and> rv_CPU r \<le> getTotalCPU db a \<and> 0 \<le> rv_GPU r \<and> rv_GPU r \<le> getTotalGPU db a \<and>
     0 \<le> rv_RAM r \<and> rv_RAM r \<le> getTotalRAM db a"

lemma within_amount:
  assumes "db_ok db" and "within_quota db a r"
  shows "amount (rv_CPU r)" "amount (rv_GPU r)" "amount (rv_RAM r)"
  using assms(2) totals_amount[OF assms(1), of a] by (auto simp: within_quota_def amount_def)

lemma within_none: "db_ok db \<Longrightarrow> within_quota db a no_reservation"
  using totals_amount[of db a] by (auto simp: within_quota_def no_reservation_def amount_def)

definition srm_ok :: "stdlib \<Rightarrow> DB \<Rightarrow> SRM \<Rightarrow> bool" where
  "srm_ok lib db s \<longleftrightarrow> (\<forall>a. within_quota db a (currentReservation a s)) \<and>
     (case ce_metas (resourceCache s) of
        None \<Rightarrow> True
      | Some ms \<Rightarrow> \<exists>now ps. db_Find db = Some ps \<and> ms = map (meta_of lib now s) ps)"

text \<open>Every history of calls with amounts that are not negative, on an unchanging database.\<close>

inductive srm_reach :: "stdlib \<Rightarrow> DB \<Rightarrow> SRM \<Rightarrow> bool" for lib db where
  initial: "srm_reach lib db initial_SRM"
| Reserve: "srm_reach lib db s \<Longrightarrow> amount cpu \<Longrightarrow> amount gpu \<Longrightarrow> amount ram \<Longrightarrow>
    srm_reach lib db (snd (ReserveResource db a cpu gpu ram now s))"
| Release: "srm_reach lib db s \<Longrightarrow> amount cpu \<Longrightarrow> amount gpu \<Longrightarrow> amount ram \<Longrightarrow>
    srm_reach lib db (ReleaseResource a cpu gpu ram now s)"
| GetResources: "srm_reach lib db s \<Longrightarrow> srm_reach lib db (snd (GetResources lib ttl db now s))"
| MatchAdvanced:
    "srm_reach lib db s \<Longrightarrow> srm_reach lib db (snd (MatchResourcesAdvanced lib ttl db now req s))"
| Match: "srm_reach lib db s \<Longrightarrow> srm_reach lib db (snd (MatchResources lib ttl db now rq s))"

lemma currentReservation_put:
  "currentReservation b (s\<lparr>reservations := put a r (reservations s)\<rparr>) =
     (if b = a then r else currentReservation b s)"
  by (simp add: currentReservation_def map_simps)

lemma currentReservation_del:
  "currentReservation b (s\<lparr>reservations := del a (reservations s)\<rparr>) =
     (if b = a then no_reservation else currentReservation b s)"
  by (simp add: currentReservation_def map_simps)

lemma currentReservation_cache [simp]:
  "currentReservation b (invalidateCache s) = currentReservation b s"
  "currentReservation b (s\<lparr>resourceCache := c\<rparr>) = currentReservation b s"
  by (simp_all add: currentReservation_def invalidateCache_def)

lemma no_cache [simp]: "ce_metas (resourceCache (invalidateCache s)) = None"
  by (simp add: invalidateCache_def)

lemma meta_of_cache: "meta_of lib now (s\<lparr>resourceCache := c\<rparr>) = meta_of lib now s"
  by (rule ext) (simp add: meta_of_def)

section \<open>Reserving and releasing\<close>

text \<open>Within the bounds nothing wraps, and a reservation succeeds exactly when it fits.\<close>

lemma Reserve_iff:
  assumes "db_ok db" and "srm_ok lib db s" and "amount cpu" "amount gpu" "amount ram"
  shows "fst (ReserveResource db a cpu gpu ram now s) = None \<longleftrightarrow>
    rv_CPU (currentReservation a s) + cpu \<le> getTotalCPU db a \<and>
    rv_GPU (currentReservation a s) + gpu \<le> getTotalGPU db a \<and>
    rv_RAM (currentReservation a s) + ram \<le> getTotalRAM db a"
proof -
  have "within_quota db a (currentReservation a s)" using assms(2) by (simp add: srm_ok_def)
  note am = within_amount[OF assms(1) this]
  show ?thesis using wrap_sum[OF am(1) assms(3)] wrap_sum[OF am(2) assms(4)] wrap_sum[OF am(3) assms(5)]
    by (simp add: ReserveResource_def Let_def not_le)
qed

lemma Reserve_ok:
  assumes "db_ok db" and "srm_ok lib db s" and "amount cpu" "amount gpu" "amount ram"
  shows "srm_ok lib db (snd (ReserveResource db a cpu gpu ram now s))"
proof (cases "fst (ReserveResource db a cpu gpu ram now s)")
  case (Some e)
  then have "snd (ReserveResource db a cpu gpu ram now s) = s"
    by (auto simp: ReserveResource_def Let_def split: if_splits)
  then show ?thesis using assms(2) by simp
next
  case None
  let ?r = "currentReservation a s"
  have w: "within_quota db b (currentReservation b s)" for b using assms(2) by (simp add: srm_ok_def)
  note am = within_amount[OF assms(1) w[of a]]
  note sums = wrap_sum[OF am(1) assms(3)] wrap_sum[OF am(2) assms(4)] wrap_sum[OF am(3) assms(5)]
  have fits: "rv_CPU ?r + cpu \<le> getTotalCPU db a" "rv_GPU ?r + gpu \<le> getTotalGPU db a"
    "rv_RAM ?r + ram \<le> getTotalRAM db a"
    using Reserve_iff[OF assms, of a now] None by auto
  let ?n = "\<lparr>rv_CPU = rv_CPU ?r + cpu, rv_GPU = rv_GPU ?r + gpu, rv_RAM = rv_RAM ?r + ram, rv_At = now\<rparr>"
  have "snd (ReserveResource db a cpu gpu ram now s) =
      invalidateCache (s\<lparr>reservations := put a ?n (reservations s)\<rparr>)"
    using fits by (simp add: ReserveResource_def sums not_less Let_def)
  moreover have "within_quota db a ?n" using fits w[of a] assms(3-5) by (simp add: within_quota_def amount_def)
  ultimately show ?thesis using w by (simp add: srm_ok_def currentReservation_put)
qed

lemma Release_ok:
  assumes "db_ok db" and "srm_ok lib db s" and "amount cpu" "amount gpu" "amount ram"
  shows "srm_ok lib db (ReleaseResource a cpu gpu ram now s)"
proof -
  let ?r = "currentReservation a s"
  have w: "within_quota db b (currentReservation b s)" for b using assms(2) by (simp add: srm_ok_def)
  note am = within_amount[OF assms(1) w[of a]]
  note diffs = wrap_diff[OF am(1) assms(3)] wrap_diff[OF am(2) assms(4)] wrap_diff[OF am(3) assms(5)]
  let ?n = "\<lparr>rv_CPU = max 0 (rv_CPU ?r - cpu), rv_GPU = max 0 (rv_GPU ?r - gpu),
    rv_RAM = max 0 (rv_RAM ?r - ram), rv_At = now\<rparr>"
  have "within_quota db a ?n" using w[of a] assms(3-5) by (simp add: within_quota_def amount_def)
  moreover have "ReleaseResource a cpu gpu ram now s = invalidateCache
      (if rv_CPU ?n = 0 \<and> rv_GPU ?n = 0 \<and> rv_RAM ?n = 0
       then s\<lparr>reservations := del a (reservations s)\<rparr> else s\<lparr>reservations := put a ?n (reservations s)\<rparr>)"
    unfolding ReleaseResource_def Let_def diffs by simp
  ultimately show ?thesis using w within_none[OF assms(1)]
    by (simp add: srm_ok_def currentReservation_put currentReservation_del)
qed

lemma GetResources_ok:
  assumes "srm_ok lib db s"
  shows "srm_ok lib db (snd (GetResources lib ttl db now s))"
  using assms
  by (auto simp: GetResources_def srm_ok_def fetchResourcesFromDB_def meta_of_cache split: option.splits)

lemma MatchAdvanced_state:
  "snd (MatchResourcesAdvanced lib ttl db now req s) = snd (GetResources lib ttl db now s)"
  by (cases "GetResources lib ttl db now s")
    (auto simp: MatchResourcesAdvanced_def split: option.split)

lemma Match_state:
  "snd (MatchResources lib ttl db now rq s) = snd (GetResources lib ttl db now s)"
  using MatchAdvanced_state[of lib ttl db now "parseReq lib rq" s]
  by (simp add: MatchResources_def case_prod_beta Let_def)

lemma srm_reach_ok: "srm_reach lib db s \<Longrightarrow> db_ok db \<Longrightarrow> srm_ok lib db s"
proof (induction rule: srm_reach.induct)
  case initial
  then show ?case
    using within_none by (simp add: srm_ok_def initial_SRM_def currentReservation_def)
qed (simp_all add: Reserve_ok Release_ok GetResources_ok MatchAdvanced_state Match_state)


lemma meta_available:
  assumes "db_ok db" and "srm_ok lib db s" and "db_Find db = Some ps" and "p \<in> set ps"
  shows "rm_AvailableCPU (meta_of lib now s p) = getTotalCPU db (pa_ID p) - rv_CPU (currentReservation (pa_ID p) s)"
    "rm_AvailableGPU (meta_of lib now s p) = getTotalGPU db (pa_ID p) - rv_GPU (currentReservation (pa_ID p) s)"
    "rm_AvailableRAM (meta_of lib now s p) = getTotalRAM db (pa_ID p) - rv_RAM (currentReservation (pa_ID p) s)"
    "rm_AccountID (meta_of lib now s p) = pa_ID p"
proof -
  have "db_First db (pa_ID p) = Some p" using assms(1,3,4) by (auto simp: db_ok_def)
  then have t: "toInt (get (pa_QuotaJSON p) ''cpu'') = getTotalCPU db (pa_ID p)"
    "toInt (get (pa_QuotaJSON p) ''gpu'') = getTotalGPU db (pa_ID p)"
    "toInt (get (pa_QuotaJSON p) ''ram'') = getTotalRAM db (pa_ID p)"
    by (simp_all add: getTotalCPU_def getTotalGPU_def getTotalRAM_def getTotal_def)
  have w: "within_quota db (pa_ID p) (currentReservation (pa_ID p) s)" using assms(2) by (simp add: srm_ok_def)
  note am = within_amount[OF assms(1) w] and tot = totals_amount[OF assms(1), of "pa_ID p"]
  show "rm_AvailableCPU (meta_of lib now s p) = getTotalCPU db (pa_ID p) - rv_CPU (currentReservation (pa_ID p) s)"
    "rm_AvailableGPU (meta_of lib now s p) = getTotalGPU db (pa_ID p) - rv_GPU (currentReservation (pa_ID p) s)"
    "rm_AvailableRAM (meta_of lib now s p) = getTotalRAM db (pa_ID p) - rv_RAM (currentReservation (pa_ID p) s)"
    "rm_AccountID (meta_of lib now s p) = pa_ID p"
    using w wrap_diff[OF tot(1) am(1)] wrap_diff[OF tot(2) am(2)] wrap_diff[OF tot(3) am(3)]
    by (simp_all add: meta_of_def Let_def t within_quota_def)
qed

text \<open>
  C25: Over every history of reservations, releases and queries, one after another, on an unchanging database,
  with amounts and quotas from 0 to below \<open>2 ^ 62\<close>, the reservations of each account are never negative and
  never exceed its quotas, and a valid cache shows for every account exactly what is left: quota minus
  reservation. The code does not check the sign of an amount: releasing a negative one reserves past the quota.
\<close>

theorem reservations_within_quotas:
  assumes "db_ok db" and "srm_reach lib db s"
  shows "within_quota db a (currentReservation a s) \<and>
    (case ce_metas (resourceCache s) of
       None \<Rightarrow> True
     | Some ms \<Rightarrow> \<forall>m\<in>set ms.
         rm_AvailableCPU m = getTotalCPU db (rm_AccountID m) - rv_CPU (currentReservation (rm_AccountID m) s) \<and>
         rm_AvailableGPU m = getTotalGPU db (rm_AccountID m) - rv_GPU (currentReservation (rm_AccountID m) s) \<and>
         rm_AvailableRAM m = getTotalRAM db (rm_AccountID m) - rv_RAM (currentReservation (rm_AccountID m) s))"
proof -
  have ok: "srm_ok lib db s" using srm_reach_ok[OF assms(2,1)] .
  then show ?thesis
    using meta_available[OF assms(1) ok]
    by (fastforce simp: srm_ok_def split: option.splits)
qed

definition acct0 :: ProviderAccount where
  "acct0 = \<lparr>pa_ID = 7, pa_Provider = ''aws'',
     pa_QuotaJSON = [(''cpu'', AInt 8), (''gpu'', AInt 2), (''ram'', AInt 32), (''region'', AStr ''eu'')]\<rparr>"

definition db0 :: DB where
  "db0 = \<lparr>db_Find = Some [acct0], db_First = (\<lambda>i. if i = 7 then Some acct0 else None)\<rparr>"

definition lib0 :: stdlib where
  "lib0 = \<lparr>ParseFloat = (\<lambda>_. 0), Marshal = (\<lambda>_. ''{}'')\<rparr>"

lemma db0_ok: "db_ok db0"
  by (auto simp: db_ok_def db0_def acct0_def toInt_def)

theorem reservations_within_quotas_witness:
  "rv_CPU (currentReservation 7 (snd (ReserveResource db0 7 3 1 4 5 initial_SRM))) \<le> 8"
proof -
  have "srm_reach lib0 db0 (snd (ReserveResource db0 7 3 1 4 5 initial_SRM))"
    by (intro srm_reach.intros) (simp_all add: amount_def)
  from reservations_within_quotas[OF db0_ok this, of 7] show ?thesis
    by (simp add: within_quota_def getTotalCPU_def getTotal_def db0_def acct0_def toInt_def)
qed

section \<open>Matching\<close>




definition req0 :: Requirements where
  "req0 = \<lparr>rq_CPU = 2, rq_GPU = 1, rq_RAM = 4, rq_Region = ''eu'', rq_Type = '''', rq_MaxCost = 0, rq_MinUptime = 0\<rparr>"

lemma match0:
  "\<exists>m s. MatchResourcesAdvanced lib0 10 db0 5 req0 initial_SRM = (Some [m], s) \<and> rm_AccountID (ma_Meta m) = 7"
  by (simp add: MatchResourcesAdvanced_def GetResources_def initial_SRM_def fetchResourcesFromDB_def
      db0_def meta_of_def acct0_def toInt_def candidate_def req0_def toString_def lib0_def
      currentReservation_def no_reservation_def wrap64_def toFloat_def)


lemma no_shortage_penalty:
  assumes "candidate req m" and "0 \<le> rm_AvailableCPU m"
  shows "Log1p (max 0 (of_int (max 0 (rq_CPU req - rm_AvailableCPU m)))) = 0"
proof -
  have "rq_CPU req - rm_AvailableCPU m \<le> 0" using assms by (auto simp: candidate_def)
  then show ?thesis by (simp add: Log1p_def max_def)
qed

text \<open>
  The matches are exactly the resources that meet the requirement, best score first; resources of
  the same score keep the order in which they were read.
\<close>

theorem matches_are_ranked:
  assumes "MatchResourcesAdvanced lib ttl db now req s = (Some ms, s')"
  shows "\<exists>metas. GetResources lib ttl db now s = (Some metas, s') \<and>
    mset (map ma_Meta ms) = mset (filter (candidate req) metas) \<and>
    sorted_wrt (\<lambda>a b. ma_Score b \<le> ma_Score a) ms \<and>
    (\<forall>m\<in>set ms. ma_Score m = computeScore (ma_Meta m) req) \<and>
    (\<forall>c. map ma_Meta (filter (\<lambda>m. ma_Score m = c) ms) =
         filter (\<lambda>m. candidate req m \<and> computeScore m req = c) metas)"
proof -
  obtain metas where g: "GetResources lib ttl db now s = (Some metas, s')"
    using assms by (cases "GetResources lib ttl db now s")
      (auto simp: MatchResourcesAdvanced_def split: option.splits)
  let ?c = "map (\<lambda>m. \<lparr>ma_Meta = m, ma_Score = computeScore m req\<rparr>) (filter (candidate req) metas)"
  have ms: "ms = sort_key (\<lambda>m. - ma_Score m) ?c" using assms g by (simp add: MatchResourcesAdvanced_def)
  have "mset (map ma_Meta ms) = mset (filter (candidate req) metas)"
    by (simp add: ms image_mset.compositionality o_def)
  moreover have "sorted (map (\<lambda>m. - ma_Score m) ms)" unfolding ms by (rule sorted_sort_key)
  then have "sorted_wrt (\<lambda>a b. ma_Score b \<le> ma_Score a) ms" by (simp add: sorted_map)
  moreover have "\<forall>m\<in>set ms. ma_Score m = computeScore (ma_Meta m) req" by (auto simp: ms)
  moreover have "map ma_Meta (filter (\<lambda>m. ma_Score m = c) ms) =
      filter (\<lambda>m. candidate req m \<and> computeScore m req = c) metas" for c
  proof -
    have "filter (\<lambda>m. ma_Score m = c) ms = filter (\<lambda>m. - ma_Score m = - c) ms" by simp
    also have "\<dots> = filter (\<lambda>m. - ma_Score m = - c) ?c" unfolding ms by (rule sort_key_stable)
    finally show ?thesis by (simp add: filter_map o_def conj_commute)
  qed
  ultimately show ?thesis using g by blast
qed


theorem matches_are_ranked_witness:
  "\<exists>m s metas. MatchResourcesAdvanced lib0 10 db0 5 req0 initial_SRM = (Some [m], s) \<and>
     GetResources lib0 10 db0 5 initial_SRM = (Some metas, s) \<and>
     mset [ma_Meta m] = mset (filter (candidate req0) metas)"
proof -
  obtain m s where m: "MatchResourcesAdvanced lib0 10 db0 5 req0 initial_SRM = (Some [m], s)"
    using match0 by blast
  from matches_are_ranked[OF m] show ?thesis using m by auto
qed

section \<open>Negative amounts\<close>

text \<open>
  Amounts are not checked for their sign: reserving less than nothing succeeds, and from then
  on the account offers more than its quota.
\<close>

theorem negative_amounts_create_capacity:
  assumes "db_ok db" and "currentReservation (pa_ID p) s = no_reservation" and "0 < k" and "k < 2 ^ 62"
    and "db_First db (pa_ID p) = Some p"
  shows "fst (ReserveResource db (pa_ID p) (- k) 0 0 now s) = None \<and>
    rm_AvailableCPU (meta_of lib t (snd (ReserveResource db (pa_ID p) (- k) 0 0 now s)) p) =
      getTotalCPU db (pa_ID p) + k"
proof -
  note tot = totals_amount[OF assms(1), of "pa_ID p"]
  let ?n = "\<lparr>rv_CPU = - k, rv_GPU = 0, rv_RAM = 0, rv_At = now\<rparr>"
  have z: "wrap64 (- k) = - k" "wrap64 0 = 0" using assms(3,4) by (intro wrap64_id; simp)+
  have r: "ReserveResource db (pa_ID p) (- k) 0 0 now s =
      (None, invalidateCache (s\<lparr>reservations := put (pa_ID p) ?n (reservations s)\<rparr>))"
    using tot assms(3) by (simp add: ReserveResource_def assms(2) no_reservation_def z Let_def amount_def)
  have c: "currentReservation (pa_ID p) (snd (ReserveResource db (pa_ID p) (- k) 0 0 now s)) = ?n"
    by (simp add: r currentReservation_put)
  have "wrap64 (getTotalCPU db (pa_ID p) + k) = getTotalCPU db (pa_ID p) + k"
    using tot(1) assms(3,4) by (intro wrap_sum) (simp_all add: amount_def)
  moreover have "toInt (get (pa_QuotaJSON p) ''cpu'') = getTotalCPU db (pa_ID p)"
    using assms(5) by (simp add: getTotalCPU_def getTotal_def)
  ultimately show ?thesis using c tot(1) assms(3) r
    by (simp add: meta_of_def Let_def amount_def)
qed

theorem negative_amounts_create_capacity_witness:
  "rm_AvailableCPU (meta_of lib0 9 (snd (ReserveResource db0 7 (- 5) 0 0 3 initial_SRM)) acct0) = 13"
proof -
  have "currentReservation (pa_ID acct0) initial_SRM = no_reservation" "db_First db0 (pa_ID acct0) = Some acct0"
    by (simp_all add: currentReservation_def initial_SRM_def db0_def acct0_def)
  from negative_amounts_create_capacity[OF db0_ok this(1) _ _ this(2), of 5] show ?thesis
    by (simp add: acct0_def getTotalCPU_def getTotal_def db0_def toInt_def)
qed

section \<open>Two locks in opposite orders\<close>

text \<open>
  The operations as the locks see them. A refill reads the cache under the read lock, then holds
  the write lock of the cache while it takes the reservation lock once per provider; reserving and
  releasing hold the reservation lock while they take the cache lock.
\<close>

datatype lock_name = CacheLock | ReservationLock

datatype lock_action = RLockOf lock_name | RUnlockOf lock_name | LockOf lock_name | UnlockOf lock_name

definition refill_actions :: "nat \<Rightarrow> lock_action list" where
  "refill_actions providers =
     [RLockOf CacheLock, RUnlockOf CacheLock, LockOf CacheLock] @
     concat (replicate providers [LockOf ReservationLock, UnlockOf ReservationLock]) @ [UnlockOf CacheLock]"

definition reserve_actions :: "lock_action list" where
  "reserve_actions =
     [LockOf ReservationLock, LockOf CacheLock, UnlockOf CacheLock, UnlockOf ReservationLock]"

type_synonym lock_state = "lock_name \<Rightarrow> rwmutex"

fun try_action :: "lock_action \<Rightarrow> lock_state \<Rightarrow> lock_state option" where
  "try_action (RLockOf l) s = (if can_rlock (s l) then Some (s(l := rlock (s l))) else None)"
| "try_action (RUnlockOf l) s = Some (s(l := runlock (s l)))"
| "try_action (LockOf l) s = (if can_lock (s l) then Some (s(l := WLocked)) else None)"
| "try_action (UnlockOf l) s = Some (s(l := Unlocked))"

inductive lock_steps :: "lock_action list list \<times> lock_state \<Rightarrow> lock_action list list \<times> lock_state \<Rightarrow> bool" where
  stay: "lock_steps c c"
| go: "lock_steps c (ts, s) \<Longrightarrow> i < length ts \<Longrightarrow> ts ! i = a # as \<Longrightarrow> try_action a s = Some s' \<Longrightarrow>
    lock_steps c (ts[i := as], s')"

definition stuck :: "lock_action list list \<times> lock_state \<Rightarrow> bool" where
  "stuck c \<longleftrightarrow> (\<exists>as\<in>set (fst c). as \<noteq> []) \<and>
     (\<forall>as\<in>set (fst c). case as of [] \<Rightarrow> True | a # _ \<Rightarrow> try_action a (snd c) = None)"

abbreviation free_locks :: lock_state where
  "free_locks \<equiv> (\<lambda>_. Unlocked)"

lemma go_first:
  "lock_steps c ([a # as, bs], s) \<Longrightarrow> try_action a s = Some s' \<Longrightarrow> lock_steps c ([as, bs], s')"
  using lock_steps.go[of c "[a # as, bs]" s 0 a as s'] by simp

lemma go_second:
  "lock_steps c ([as, b # bs], s) \<Longrightarrow> try_action b s = Some s' \<Longrightarrow> lock_steps c ([as, bs], s')"
  using lock_steps.go[of c "[as, b # bs]" s 1 b bs s'] by simp

lemma refill_Suc:
  "refill_actions (Suc n) =
     RLockOf CacheLock # RUnlockOf CacheLock # LockOf CacheLock # LockOf ReservationLock #
     UnlockOf ReservationLock # concat (replicate n [LockOf ReservationLock, UnlockOf ReservationLock]) @
     [UnlockOf CacheLock]"
  by (simp add: refill_actions_def)

text \<open>
  C26: With at least one provider account, a query that finds the cache expired and a reservation can
  stop each other for ever: the query holds the cache and waits for the reservations, the
  reservation holds the reservations and waits for the cache.
\<close>

theorem refill_and_reservation_deadlock:
  "\<exists>c. lock_steps ([refill_actions (Suc n), reserve_actions], free_locks) c \<and> stuck c"
proof -
  let ?rest = "UnlockOf ReservationLock # concat (replicate n [LockOf ReservationLock, UnlockOf ReservationLock]) @
     [UnlockOf CacheLock]"
  let ?s0 = "free_locks(CacheLock := RLocked 1)"
  let ?s1 = "free_locks(CacheLock := WLocked)"
  let ?s2 = "?s1(ReservationLock := WLocked)"
  let ?c0 = "([refill_actions (Suc n), reserve_actions], free_locks)"
  have start: "lock_steps ?c0 ([RLockOf CacheLock # RUnlockOf CacheLock # LockOf CacheLock #
      LockOf ReservationLock # ?rest, reserve_actions], free_locks)"
    by (simp add: refill_Suc lock_steps.stay)
  have "lock_steps ?c0 ([RUnlockOf CacheLock # LockOf CacheLock # LockOf ReservationLock # ?rest, reserve_actions], ?s0)"
    by (rule go_first[OF start]) simp
  then have "lock_steps ?c0 ([LockOf CacheLock # LockOf ReservationLock # ?rest, reserve_actions], free_locks)"
    by (rule go_first) (simp add: fun_eq_iff)
  then have "lock_steps ?c0 ([LockOf ReservationLock # ?rest, reserve_actions], ?s1)"
    by (rule go_first) simp
  then have "lock_steps ?c0 ([LockOf ReservationLock # ?rest, [LockOf CacheLock, UnlockOf CacheLock, UnlockOf ReservationLock]], ?s2)"
    unfolding reserve_actions_def by (rule go_second) simp
  moreover have "stuck ([LockOf ReservationLock # ?rest, [LockOf CacheLock, UnlockOf CacheLock, UnlockOf ReservationLock]], ?s2)"
    by (simp add: stuck_def)
  ultimately show ?thesis by blast
qed

end
