(* ===== verification/PolicyEngine.thy ===== *)
theory PolicyEngine
  imports GoPrelude
begin

text \<open>
  The policy engine of \<^verbatim>\<open>src/internal/services/policy.go\<close>: quotas, terms-of-service rules and
  sensitive actions cached from the database, a token bucket per account, and the audit trail. What a
  database statement answers is an argument of the operation that issues it; \<open>audits\<close> holds the rows
  that the engine tried to store, oldest first. The goroutine that puts a quota into the cache after a
  miss is a step of its own (\<open>cache_fill\<close>). The code passes an account ID where the audit takes a
  pointer to one (line 295), which does not compile; the model reads it as the other calls have it.
  Prometheus counters are left out.
\<close>

section \<open>Tables and state\<close>

record AccountQuota =
  aq_AccountID :: nat
  aq_CPU :: int
  aq_RAM :: int
  aq_GPU :: int
  aq_StorageMB :: int
  aq_UpdatedAt :: gotime

record TOSRule =
  tr_Provider :: string
  tr_Action :: string
  tr_Allowed :: bool
  tr_MetaJSON :: string
  tr_UpdatedAt :: gotime

record SensitiveAction =
  sa_Action :: string
  sa_RequireBy :: string
  sa_Notes :: string
  sa_UpdatedAt :: gotime

record PolicyAudit =
  au_AccountID :: "nat option"
  au_Action :: string
  au_Allowed :: bool
  au_Reason :: string
  au_Actor :: string
  au_CreatedAt :: gotime

record tokenBucket =
  pt_tokens :: int
  pt_capacity :: int
  pt_ratePerSec :: int
  pt_lastRefill :: gotime
  pt_lastAccess :: gotime

record PolicyEngine =
  quotasCache :: "(nat, AccountQuota) gomap"
  tosCache :: "(string, (string, bool) gomap) gomap"
  sensitiveCache :: "(string, SensitiveAction) gomap"
  lastReload :: gotime
  reloadInterval :: duration
  stopClosed :: bool
  limiters :: "(nat, tokenBucket) gomap"
  limiterTTL :: duration
  limiterCap :: int
  limiterRate :: int
  audits :: "PolicyAudit list"

section \<open>Token buckets\<close>

definition newTokenBucket :: "int \<Rightarrow> int \<Rightarrow> gotime \<Rightarrow> tokenBucket" where
  "newTokenBucket capacity rate now =
     \<lparr>pt_tokens = capacity, pt_capacity = capacity, pt_ratePerSec = rate,
      pt_lastRefill = now, pt_lastAccess = now\<rparr>"

definition refilled :: "gotime \<Rightarrow> tokenBucket \<Rightarrow> tokenBucket" where
  "refilled now tb =
     (let elapsed = Seconds (now - pt_lastRefill tb);
          inc = trunc_int (elapsed * of_int (pt_ratePerSec tb))
      in if elapsed > 0 \<and> inc > 0 then
           tb\<lparr>pt_tokens :=
                (if pt_tokens tb + inc > pt_capacity tb then pt_capacity tb else pt_tokens tb + inc),
              pt_lastRefill := now\<rparr>
         else tb)"

definition Allow :: "int \<Rightarrow> gotime \<Rightarrow> tokenBucket \<Rightarrow> bool \<times> tokenBucket" where
  "Allow n now tb =
     (let tb = (refilled now tb)\<lparr>pt_lastAccess := now\<rparr>
      in if pt_tokens tb \<ge> n then (True, tb\<lparr>pt_tokens := pt_tokens tb - n\<rparr>) else (False, tb))"

definition allowTokens :: "nat \<Rightarrow> int \<Rightarrow> gotime \<Rightarrow> PolicyEngine \<Rightarrow> bool \<times> PolicyEngine" where
  "allowTokens accountID tokens now p =
     (let tb = (case get (limiters p) accountID of
                  Some tb \<Rightarrow> tb
                | None \<Rightarrow> newTokenBucket (limiterCap p) (limiterRate p) now);
          (allowed, tb) = Allow tokens now tb
      in (allowed, p\<lparr>limiters := put accountID tb (limiters p)\<rparr>))"

section \<open>Audit\<close>

definition audit ::
    "nat option \<Rightarrow> string \<Rightarrow> bool \<Rightarrow> string \<Rightarrow> string \<Rightarrow> gotime \<Rightarrow> PolicyEngine \<Rightarrow> PolicyEngine" where
  "audit accountID action allowed reason actor now p =
     p\<lparr>audits := audits p @
        [\<lparr>au_AccountID = accountID, au_Action = action, au_Allowed = allowed, au_Reason = reason,
          au_Actor = actor, au_CreatedAt = now\<rparr>]\<rparr>"

section \<open>Loading\<close>

record PolicyEngineOptions =
  op_ReloadInterval :: duration
  op_LimiterTTL :: duration
  op_LimiterCapacity :: int
  op_LimiterRate :: int

definition default_options :: PolicyEngineOptions where
  "default_options =
     \<lparr>op_ReloadInterval = 30 * Second, op_LimiterTTL = 600 * Second,
      op_LimiterCapacity = 100, op_LimiterRate = 10\<rparr>"

text \<open>The three tables, \<open>None\<close> for one that cannot be read.\<close>

record tables =
  tab_quotas :: "AccountQuota list option"
  tab_tos :: "TOSRule list option"
  tab_sensitive :: "SensitiveAction list option"

definition put_tos :: "TOSRule \<Rightarrow> (string, (string, bool) gomap) gomap \<Rightarrow> (string, (string, bool) gomap) gomap" where
  "put_tos t tc =
     (let m = (case get tc (tr_Provider t) of None \<Rightarrow> [] | Some m \<Rightarrow> m)
      in put (tr_Provider t) (put (tr_Action t) (tr_Allowed t) m) tc)"

definition reloadFromDB :: "tables \<Rightarrow> gotime \<Rightarrow> PolicyEngine \<Rightarrow> PolicyEngine" where
  "reloadFromDB tab now p =
     (case (tab_quotas tab, tab_tos tab, tab_sensitive tab) of
        (Some quotas, Some tos, Some sens) \<Rightarrow>
          p\<lparr>quotasCache := foldl (\<lambda>qc q. put (aq_AccountID q) q qc) [] quotas,
            tosCache := foldl (\<lambda>tc t. put_tos t tc) [] tos,
            sensitiveCache := foldl (\<lambda>sc s. put (sa_Action s) s sc) [] sens,
            lastReload := now\<rparr>
      | _ \<Rightarrow> p)"

definition NewPolicyEngine :: "PolicyEngineOptions option \<Rightarrow> tables \<Rightarrow> gotime \<Rightarrow> PolicyEngine" where
  "NewPolicyEngine opts tab now =
     (let opts = (case opts of None \<Rightarrow> default_options | Some o' \<Rightarrow> o')
      in reloadFromDB tab now
           \<lparr>quotasCache = [], tosCache = [], sensitiveCache = [], lastReload = 0,
            reloadInterval = op_ReloadInterval opts, stopClosed = False, limiters = [],
            limiterTTL = op_LimiterTTL opts, limiterCap = op_LimiterCapacity opts,
            limiterRate = op_LimiterRate opts, audits = []\<rparr>)"

text \<open>
  The goroutine of the reload loop: its ticker panics at once when the interval is not positive;
  otherwise each tick reloads until the stop channel is closed. Closing it twice panics.
\<close>

definition reloadLoop_start :: "PolicyEngine \<Rightarrow> (unit, PolicyEngine) outcome" where
  "reloadLoop_start p = (if reloadInterval p \<le> 0 then Panicked p else Returned () p)"

definition reload_tick :: "tables \<Rightarrow> gotime \<Rightarrow> PolicyEngine \<Rightarrow> PolicyEngine" where
  "reload_tick tab now p = (if stopClosed p then p else reloadFromDB tab now p)"

definition Stop :: "PolicyEngine \<Rightarrow> (unit, PolicyEngine) outcome" where
  "Stop p = (if stopClosed p then Panicked p else Returned () (p\<lparr>stopClosed := True\<rparr>))"

section \<open>Checks\<close>

datatype quota_row = QuotaFound AccountQuota | QuotaNotFound | QuotaDBError string

definition exceeded :: "string \<Rightarrow> int \<Rightarrow> int \<Rightarrow> string" where
  "exceeded what requested limit =
     what @ ''_quota_exceeded: requested='' @ dec_int requested @ '',limit='' @ dec_int limit"

definition check_limits ::
    "nat \<Rightarrow> int \<Rightarrow> int \<Rightarrow> int \<Rightarrow> AccountQuota \<Rightarrow> gotime \<Rightarrow> PolicyEngine \<Rightarrow> (bool \<times> string) \<times> PolicyEngine" where
  "check_limits accountID cpu ram gpu q now p =
     (let deny = (\<lambda>reason. ((False, reason), audit (Some accountID) ''quota_check'' False reason ''policy'' now p))
      in if cpu > aq_CPU q then deny (exceeded ''cpu'' cpu (aq_CPU q))
         else if ram > aq_RAM q then deny (exceeded ''ram'' ram (aq_RAM q))
         else if gpu > aq_GPU q then deny (exceeded ''gpu'' gpu (aq_GPU q))
         else ((True, ''ok''), audit (Some accountID) ''quota_check'' True ''ok'' ''policy'' now p))"

text \<open>
  The result of a check: the answer or a database error, and the quota that a goroutine will put
  into the cache, when one is started. \<open>row\<close> is what the database answers if it is asked.
\<close>

definition CheckQuota ::
    "nat \<Rightarrow> int \<Rightarrow> int \<Rightarrow> int \<Rightarrow> quota_row \<Rightarrow> gotime \<Rightarrow> PolicyEngine
      \<Rightarrow> ((string + bool \<times> string) \<times> AccountQuota option) \<times> PolicyEngine" where
  "CheckQuota accountID cpu ram gpu row now p =
     (let (allowed, p) = allowTokens accountID 1 now p
      in if \<not> allowed then
           ((Inr (False, ''rate_limit_exceeded''), None),
            audit (Some accountID) ''quota_check'' False ''rate_limit_exceeded'' ''policy.rate_limiter'' now p)
         else case get (quotasCache p) accountID of
           Some q \<Rightarrow>
             (let (r, p) = check_limits accountID cpu ram gpu q now p in ((Inr r, None), p))
         | None \<Rightarrow>
             (case row of
                QuotaDBError e \<Rightarrow> ((Inl e, None), p)
              | QuotaNotFound \<Rightarrow>
                  ((Inr (False, ''quota_not_found''), None),
                   audit (Some accountID) ''quota_check'' False ''quota_not_found'' ''policy'' now p)
              | QuotaFound q \<Rightarrow>
                  (let (r, p) = check_limits accountID cpu ram gpu q now p in ((Inr r, Some q), p))))"

definition cache_fill :: "nat \<Rightarrow> AccountQuota \<Rightarrow> PolicyEngine \<Rightarrow> PolicyEngine" where
  "cache_fill accountID q p = p\<lparr>quotasCache := put accountID q (quotasCache p)\<rparr>"

definition CheckTOS :: "string \<Rightarrow> string \<Rightarrow> PolicyEngine \<Rightarrow> bool \<times> string" where
  "CheckTOS provider action p =
     (case get (tosCache p) provider of
        None \<Rightarrow> (False, ''provider_unknown'')
      | Some m \<Rightarrow>
          (case get m action of
             None \<Rightarrow> (True, ''tos_not_specified'')
           | Some allowed \<Rightarrow> if allowed then (True, ''allowed_by_tos'') else (False, ''disallowed_by_tos'')))"

definition RequireApproval ::
    "string \<Rightarrow> string list \<Rightarrow> gotime \<Rightarrow> PolicyEngine \<Rightarrow> (bool \<times> string) \<times> PolicyEngine" where
  "RequireApproval action roles now p =
     (case get (sensitiveCache p) action of
        None \<Rightarrow> ((False, ''not_sensitive''), p)
      | Some sa \<Rightarrow>
          if sa_RequireBy sa \<noteq> '''' \<and> list_ex (\<lambda>r. r = sa_RequireBy sa) roles
          then ((False, ''role_authorized''), p)
          else ((True, ''requires_approval''), audit None action False ''requires_approval'' ''policy'' now p))"

section \<open>Administration\<close>

datatype policy_error = AccountIDRequired | PolicyDBError string

definition UpdateQuota ::
    "AccountQuota \<Rightarrow> string option \<Rightarrow> gotime \<Rightarrow> PolicyEngine \<Rightarrow> policy_error option \<times> PolicyEngine" where
  "UpdateQuota q err now p =
     (if aq_AccountID q = 0 then (Some AccountIDRequired, p)
      else
        let q = q\<lparr>aq_UpdatedAt := now\<rparr>
        in case err of
             Some e \<Rightarrow> (Some (PolicyDBError e), p)
           | None \<Rightarrow>
               (None, audit (Some (aq_AccountID q)) ''update_quota'' True ''ok'' ''admin'' now
                  (p\<lparr>quotasCache := put (aq_AccountID q) q (quotasCache p)\<rparr>)))"

text \<open>
  GORM's FirstOrCreate with Assign reads the stored row back into the rule: \<open>firstOrCreate\<close>
  gives that row, or the error.
\<close>

definition AddOrUpdateTOS ::
    "(TOSRule \<Rightarrow> string + TOSRule) \<Rightarrow> TOSRule \<Rightarrow> gotime \<Rightarrow> PolicyEngine \<Rightarrow> policy_error option \<times> PolicyEngine" where
  "AddOrUpdateTOS firstOrCreate rule now p =
     (case firstOrCreate (rule\<lparr>tr_UpdatedAt := now\<rparr>) of
        Inl e \<Rightarrow> (Some (PolicyDBError e), p)
      | Inr rule \<Rightarrow>
          (None, audit None (''tos:'' @ tr_Provider rule @ ''/'' @ tr_Action rule) True ''ok'' ''admin'' now
             (p\<lparr>tosCache := put_tos rule (tosCache p)\<rparr>)))"

definition AddSensitiveAction ::
    "SensitiveAction \<Rightarrow> string option \<Rightarrow> gotime \<Rightarrow> PolicyEngine \<Rightarrow> policy_error option \<times> PolicyEngine" where
  "AddSensitiveAction s err now p =
     (case err of
        Some e \<Rightarrow> (Some (PolicyDBError e), p)
      | None \<Rightarrow>
          (None, audit None (sa_Action s) True ''ok'' ''admin'' now
             (p\<lparr>sensitiveCache := put (sa_Action s) (s\<lparr>sa_UpdatedAt := now\<rparr>) (sensitiveCache p)\<rparr>)))"

definition RemoveSensitiveAction ::
    "string \<Rightarrow> string option \<Rightarrow> gotime \<Rightarrow> PolicyEngine \<Rightarrow> policy_error option \<times> PolicyEngine" where
  "RemoveSensitiveAction action err now p =
     (case err of
        Some e \<Rightarrow> (Some (PolicyDBError e), p)
      | None \<Rightarrow>
          (None, audit None action True ''removed'' ''admin'' now
             (p\<lparr>sensitiveCache := del action (sensitiveCache p)\<rparr>)))"

section \<open>Snapshots\<close>

definition SnapshotQuotas :: "PolicyEngine \<Rightarrow> (nat, AccountQuota) gomap" where
  "SnapshotQuotas p = quotasCache p"

definition SnapshotTOS :: "PolicyEngine \<Rightarrow> (string, (string, bool) gomap) gomap" where
  "SnapshotTOS p = tosCache p"

definition SnapshotSensitive :: "PolicyEngine \<Rightarrow> (string, SensitiveAction) gomap" where
  "SnapshotSensitive p = sensitiveCache p"

end
