(* ===== verification/PolicyEngineProps.thy ===== *)
theory PolicyEngineProps
  imports PolicyEngine RateLimit
begin

text \<open>
  Properties of the policy engine: the int buckets satisfy the contract of a rate limiter, so quota
  checks are rate limited; what each check decides and audits; a reload shows the last row of the
  tables; what one rule does to a provider's other actions; and the order in which a late cache fill
  undoes an update.
\<close>

section \<open>Rate limiting\<close>

definition bucket_ok :: "tokenBucket \<Rightarrow> bool" where
  "bucket_ok b \<longleftrightarrow> 0 \<le> pt_tokens b \<and> pt_tokens b \<le> pt_capacity b \<and> 0 \<le> pt_ratePerSec b"

lemma new_policy_bucket_ok: "0 \<le> c \<Longrightarrow> 0 \<le> r \<Longrightarrow> bucket_ok (newTokenBucket c r now)"
  by (simp add: bucket_ok_def newTokenBucket_def)

lemma refilled_frame [simp]:
  "pt_capacity (refilled now b) = pt_capacity b" "pt_ratePerSec (refilled now b) = pt_ratePerSec b"
  by (simp_all add: refilled_def Let_def)

lemma refilled_ok: "bucket_ok b \<Longrightarrow> bucket_ok (refilled now b)"
  by (auto simp: bucket_ok_def refilled_def Let_def)

lemma refilled_balance:
  assumes "bucket_ok b" and "pt_lastRefill b \<le> now"
  shows "of_int (pt_tokens (refilled now b)) \<le>
      of_int (pt_tokens b) + Seconds (pt_lastRefill (refilled now b) - pt_lastRefill b) * of_int (pt_ratePerSec b)"
    and "pt_lastRefill b \<le> pt_lastRefill (refilled now b) \<and> pt_lastRefill (refilled now b) \<le> now"
proof -
  let ?inc = "trunc_int (Seconds (now - pt_lastRefill b) * of_int (pt_ratePerSec b))"
  have "0 \<le> Seconds (now - pt_lastRefill b) * of_int (pt_ratePerSec b)"
    using assms by (simp add: Seconds_nonneg bucket_ok_def)
  then have inc: "of_int ?inc \<le> Seconds (now - pt_lastRefill b) * of_int (pt_ratePerSec b)"
    by (simp add: trunc_int_def)
  have z: "Seconds 0 = 0" by (simp add: Seconds_def)
  show "of_int (pt_tokens (refilled now b)) \<le>
      of_int (pt_tokens b) + Seconds (pt_lastRefill (refilled now b) - pt_lastRefill b) * of_int (pt_ratePerSec b)"
  proof (cases "0 < Seconds (now - pt_lastRefill b) \<and> 0 < ?inc")
    case True
    then have "pt_tokens (refilled now b) \<le> pt_tokens b + ?inc" "pt_lastRefill (refilled now b) = now"
      by (simp_all add: refilled_def Let_def)
    moreover from this have "(of_int (pt_tokens (refilled now b)) :: rat) \<le> of_int (pt_tokens b) + of_int ?inc"
      by (metis of_int_add of_int_le_iff)
    ultimately show ?thesis using inc by simp
  next
    case False
    then have "refilled now b = b" by (auto simp: refilled_def Let_def)
    then show ?thesis by (simp add: z)
  qed
  show "pt_lastRefill b \<le> pt_lastRefill (refilled now b) \<and> pt_lastRefill (refilled now b) \<le> now"
    using assms(2) by (simp add: refilled_def Let_def)
qed

lemma Allow_simps:
  "fst (Allow n now b) \<longleftrightarrow> n \<le> pt_tokens (refilled now b)"
  "pt_tokens (snd (Allow n now b)) = pt_tokens (refilled now b) - (if fst (Allow n now b) then n else 0)"
  "pt_capacity (snd (Allow n now b)) = pt_capacity b"
  "pt_ratePerSec (snd (Allow n now b)) = pt_ratePerSec b"
  "pt_lastRefill (snd (Allow n now b)) = pt_lastRefill (refilled now b)"
  by (simp_all add: Allow_def Let_def)

lemma Allow_ok: "bucket_ok b \<Longrightarrow> 0 \<le> n \<Longrightarrow> bucket_ok (snd (Allow n now b))"
  using refilled_ok[of b now] by (auto simp: bucket_ok_def Allow_simps)

interpretation policy_bucket: rate_limiter
  "\<lambda>a. Allow \<lceil>a\<rceil>" "\<lambda>b. of_int (pt_tokens b)" "\<lambda>b. of_int (pt_ratePerSec b)" pt_lastRefill bucket_ok
proof
  fix b :: tokenBucket and now :: gotime and a :: float64
  assume h: "bucket_ok b" "pt_lastRefill b \<le> now" "0 \<le> a"
  have n: "0 \<le> \<lceil>a\<rceil>" using h(3) by (metis ceiling_zero ceiling_mono)
  show "bucket_ok (snd (Allow \<lceil>a\<rceil> now b))" using Allow_ok h(1) n by blast
  show "of_int (pt_ratePerSec (snd (Allow \<lceil>a\<rceil> now b))) = (of_int (pt_ratePerSec b) :: rat)"
    by (simp add: Allow_simps)
  show "pt_lastRefill b \<le> pt_lastRefill (snd (Allow \<lceil>a\<rceil> now b)) \<and>
      pt_lastRefill (snd (Allow \<lceil>a\<rceil> now b)) \<le> now"
    using refilled_balance(2)[OF h(1,2)] by (simp add: Allow_simps)
  show "(if fst (Allow \<lceil>a\<rceil> now b) then a else 0) + of_int (pt_tokens (snd (Allow \<lceil>a\<rceil> now b))) \<le>
      of_int (pt_tokens b) + Seconds (pt_lastRefill (snd (Allow \<lceil>a\<rceil> now b)) - pt_lastRefill b) * of_int (pt_ratePerSec b)"
    using refilled_balance(1)[OF h(1,2)] le_of_int_ceiling[of a]
    unfolding Allow_simps of_int_diff by (cases "\<lceil>a\<rceil> \<le> pt_tokens (refilled now b)") (simp_all, linarith)
qed (simp add: bucket_ok_def)

text \<open>
  A run of quota checks of any accounts, and how many of them for account \<open>a\<close> were let through
  by its bucket.
\<close>

type_synonym quota_check = "nat \<times> int \<times> int \<times> int \<times> quota_row \<times> gotime"

fun quota_run :: "nat \<Rightarrow> quota_check list \<Rightarrow> PolicyEngine \<Rightarrow> nat \<times> PolicyEngine" where
  "quota_run a [] p = (0, p)"
| "quota_run a ((acc, cpu, ram, gpu, row, now) # cs) p =
     (let (r, p) = CheckQuota acc cpu ram gpu row now p; (n, p) = quota_run a cs p
      in ((if acc = a \<and> fst r \<noteq> Inr (False, ''rate_limit_exceeded'') then 1 else 0) + n, p))"

definition requests_of :: "nat \<Rightarrow> quota_check list \<Rightarrow> (float64 \<times> gotime) list" where
  "requests_of a cs = [(1, now). (acc, cpu, ram, gpu, row, now) \<leftarrow> cs, acc = a]"

fun times_ok :: "gotime \<Rightarrow> gotime \<Rightarrow> quota_check list \<Rightarrow> bool" where
  "times_ok t0 t1 [] \<longleftrightarrow> t0 \<le> t1"
| "times_ok t0 t1 ((acc, cpu, ram, gpu, row, now) # cs) \<longleftrightarrow> t0 \<le> now \<and> now \<le> t1 \<and> times_ok now t1 cs"

lemma clock_requests: "times_ok t0 t1 cs \<Longrightarrow> clock_ok t0 (requests_of a cs)"
proof (induction cs arbitrary: t0)
  case Nil
  then show ?case by (simp add: requests_of_def)
next
  case (Cons c cs)
  then show ?case using clock_ok_earlier[of _ "requests_of a cs" t0]
    by (cases c) (auto simp: requests_of_def)
qed

lemma audit_frame [simp]:
  "limiters (audit acc act ok r actor now p) = limiters p"
  "quotasCache (audit acc act ok r actor now p) = quotasCache p"
  "tosCache (audit acc act ok r actor now p) = tosCache p"
  "sensitiveCache (audit acc act ok r actor now p) = sensitiveCache p"
  by (simp_all add: audit_def)

lemma check_limits_limiters [simp]:
  "limiters (snd (check_limits acc cpu ram gpu q now p)) = limiters p"
  by (simp add: check_limits_def Let_def)

lemma reason_not_limited:
  "snd (fst (check_limits acc cpu ram gpu q now p)) \<noteq> ''rate_limit_exceeded''"
  by (simp add: check_limits_def exceeded_def Let_def)

definition limiter_of :: "nat \<Rightarrow> gotime \<Rightarrow> PolicyEngine \<Rightarrow> tokenBucket" where
  "limiter_of acc now p =
     (case get (limiters p) acc of
        Some tb \<Rightarrow> tb | None \<Rightarrow> newTokenBucket (limiterCap p) (limiterRate p) now)"

lemma CheckQuota_limiter:
  fixes p :: PolicyEngine and acc :: nat and now :: gotime
  defines "b \<equiv> limiter_of acc now p"
  shows "limiters (snd (CheckQuota acc cpu ram gpu row now p)) = put acc (snd (Allow 1 now b)) (limiters p)"
    and "fst (fst (CheckQuota acc cpu ram gpu row now p)) = Inr (False, ''rate_limit_exceeded'') \<longleftrightarrow>
      \<not> fst (Allow 1 now b)"
proof -
  obtain ok b' where a: "Allow 1 now b = (ok, b')" by (cases "Allow 1 now b")
  let ?p = "p\<lparr>limiters := put acc b' (limiters p)\<rparr>"
  have t: "allowTokens acc 1 now p = (ok, ?p)"
    using a by (simp add: allowTokens_def b_def limiter_of_def)
  define r p2 where "r q = fst (check_limits acc cpu ram gpu q now ?p)"
    and "p2 q = snd (check_limits acc cpu ram gpu q now ?p)" for q
  then have c: "check_limits acc cpu ram gpu q now ?p = (r q, p2 q)" for q by simp
  have cl: "limiters (p2 q) = put acc b' (limiters p)" "snd (r q) \<noteq> ''rate_limit_exceeded''" for q
    using check_limits_limiters[of acc cpu ram gpu q now ?p] reason_not_limited[of acc cpu ram gpu q now ?p] c[of q]
    by simp_all
  show "limiters (snd (CheckQuota acc cpu ram gpu row now p)) = put acc (snd (Allow 1 now b)) (limiters p)"
    using cl(1) by (cases ok) (simp_all add: CheckQuota_def t a c split: option.split quota_row.split)
  have "r q \<noteq> (False, ''rate_limit_exceeded'')" for q using cl(2)[of q] by (cases "r q") simp
  then show "fst (fst (CheckQuota acc cpu ram gpu row now p)) = Inr (False, ''rate_limit_exceeded'') \<longleftrightarrow>
      \<not> fst (Allow 1 now b)"
    by (cases ok) (simp_all add: CheckQuota_def t a c split: option.split quota_row.split)
qed

lemma quota_run_serve:
  assumes "get (limiters p) a = Some b"
  shows "get (limiters (snd (quota_run a cs p))) a = Some (snd (serve (\<lambda>a. Allow \<lceil>a\<rceil>) (requests_of a cs) b)) \<and>
    of_nat (fst (quota_run a cs p)) = fst (serve (\<lambda>a. Allow \<lceil>a\<rceil>) (requests_of a cs) b)"
  using assms
proof (induction cs arbitrary: p b)
  case Nil
  then show ?case by (simp add: requests_of_def)
next
  case (Cons c cs)
  obtain acc cpu ram gpu row now where c: "c = (acc, cpu, ram, gpu, row, now)" by (metis prod_cases6)
  obtain r p' where q: "CheckQuota acc cpu ram gpu row now p = (r, p')" by fastforce
  have l: "limiters p' = put acc (snd (Allow 1 now (limiter_of acc now p))) (limiters p)"
    and g: "fst r = Inr (False, ''rate_limit_exceeded'') \<longleftrightarrow> \<not> fst (Allow 1 now (limiter_of acc now p))"
    using CheckQuota_limiter[of acc cpu ram gpu row now p] q by simp_all
  have step: "quota_run a (c # cs) p =
     ((if acc = a \<and> fst r \<noteq> Inr (False, ''rate_limit_exceeded'') then 1 else 0) + fst (quota_run a cs p'),
      snd (quota_run a cs p'))"
    by (simp add: c q case_prod_beta Let_def)
  show ?case
  proof (cases "acc = a")
    case True
    then have b: "limiter_of acc now p = b" "get (limiters p') a = Some (snd (Allow 1 now b))"
      using Cons.prems l by (simp_all add: map_simps limiter_of_def)
    have req: "requests_of a (c # cs) = (1, now) # requests_of a cs" using True c by (simp add: requests_of_def)
    show ?thesis using Cons.IH[OF b(2)] True g b(1)
      unfolding step req serve_Cons by simp
  next
    case False
    then have "get (limiters p') a = Some b" using Cons.prems l by (simp add: map_simps)
    moreover have "requests_of a (c # cs) = requests_of a cs" using False c by (simp add: requests_of_def)
    ultimately show ?thesis using Cons.IH False unfolding step by simp
  qed
qed


lemma times_requests: "times_ok t0 t1 cs \<Longrightarrow> \<forall>r\<in>set (requests_of a cs). snd r \<le> t1"
proof (induction cs arbitrary: t0)
  case (Cons c cs)
  then show ?case by (cases c) (auto simp: requests_of_def)
qed (simp add: requests_of_def)

lemma times_ok_bound: "times_ok t0 t1 cs \<Longrightarrow> t0 \<le> t1"
  by (induction cs arbitrary: t0) auto

text \<open>
  C28: Over any run of quota checks, of any accounts, the checks of one account that its bucket lets
  through number at most the tokens it held at the start plus the rate times the time that
  passed since its last refill; all others are refused.
\<close>

theorem quota_checks_are_rate_limited:
  assumes "get (limiters p) a = Some b" and "bucket_ok b" and "times_ok (pt_lastRefill b) t1 cs"
  shows "of_nat (fst (quota_run a cs p)) \<le>
    of_int (pt_tokens b) + Seconds (t1 - pt_lastRefill b) * of_int (pt_ratePerSec b)"
proof -
  let ?e = "snd (serve (\<lambda>a. Allow \<lceil>a\<rceil>) (requests_of a cs) b)"
  note clock = clock_requests[OF assms(3), of a]
  have "of_nat (fst (quota_run a cs p)) \<le>
      of_int (pt_tokens b) + Seconds (pt_lastRefill ?e - pt_lastRefill b) * of_int (pt_ratePerSec b)"
    using policy_bucket.serve_bounded[OF assms(2) clock] quota_run_serve[OF assms(1), of cs] by simp
  moreover have "pt_lastRefill ?e \<le> t1"
    using policy_bucket.serve_last[OF assms(2) clock times_ok_bound[OF assms(3)] times_requests[OF assms(3)]] .
  then have "Seconds (pt_lastRefill ?e - pt_lastRefill b) \<le> Seconds (t1 - pt_lastRefill b)"
    by (simp add: Seconds_def divide_right_mono)
  then have "Seconds (pt_lastRefill ?e - pt_lastRefill b) * of_int (pt_ratePerSec b) \<le>
      Seconds (t1 - pt_lastRefill b) * of_int (pt_ratePerSec b)"
    using assms(2) by (intro mult_right_mono) (simp_all add: bucket_ok_def)
  ultimately show ?thesis by linarith
qed

definition no_tables :: tables where
  "no_tables = \<lparr>tab_quotas = Some [], tab_tos = Some [], tab_sensitive = Some []\<rparr>"

definition engine1 :: PolicyEngine where
  "engine1 = (NewPolicyEngine None no_tables 5)\<lparr>limiters := [(3, newTokenBucket 1 1 5)]\<rparr>"

theorem quota_checks_are_rate_limited_witness:
  "fst (quota_run 3 [(3, 1, 1, 1, QuotaNotFound, 6), (3, 1, 1, 1, QuotaNotFound, 7)] engine1) \<le> 1"
proof -
  have "get (limiters engine1) 3 = Some (newTokenBucket 1 1 5)" by (simp add: engine1_def)
  from quota_checks_are_rate_limited[OF this, of 7 "[(3, 1, 1, 1, QuotaNotFound, 6), (3, 1, 1, 1, QuotaNotFound, 7)]"]
  have "(of_nat (fst (quota_run 3 [(3, 1, 1, 1, QuotaNotFound, 6), (3, 1, 1, 1, QuotaNotFound, 7)] engine1)) :: rat) < 2"
    by (simp add: new_policy_bucket_ok, simp add: newTokenBucket_def Seconds_def)
  then show ?thesis by simp
qed

section \<open>Decisions\<close>

definition covers :: "AccountQuota \<Rightarrow> int \<Rightarrow> int \<Rightarrow> int \<Rightarrow> bool" where
  "covers q cpu ram gpu \<longleftrightarrow> cpu \<le> aq_CPU q \<and> ram \<le> aq_RAM q \<and> gpu \<le> aq_GPU q"

definition quota_for :: "nat \<Rightarrow> quota_row \<Rightarrow> PolicyEngine \<Rightarrow> AccountQuota option" where
  "quota_for acc row p =
     (case get (quotasCache p) acc of
        Some q \<Rightarrow> Some q
      | None \<Rightarrow> (case row of QuotaFound q \<Rightarrow> Some q | _ \<Rightarrow> None))"

lemma check_limits_decision:
  "fst (fst (check_limits acc cpu ram gpu q now p)) \<longleftrightarrow> covers q cpu ram gpu"
  "\<exists>e. snd (check_limits acc cpu ram gpu q now p) = p\<lparr>audits := audits p @ [e]\<rparr> \<and>
     au_AccountID e = Some acc \<and> (au_Allowed e \<longleftrightarrow> covers q cpu ram gpu)"
  by (auto simp: check_limits_def covers_def audit_def Let_def)

text \<open>
  A quota check is allowed exactly when the account's bucket holds a token and the account's
  quota, cached or read from the database, covers the request in all three dimensions. Each answer is
  recorded in one audit row that says the same; a database error gives no answer and no row.
\<close>

theorem CheckQuota_decides_and_audits:
  "case CheckQuota acc cpu ram gpu row now p of ((answer, fill), p') \<Rightarrow>
     ((\<exists>r. answer = Inr (True, r)) \<longleftrightarrow>
        fst (Allow 1 now (limiter_of acc now p)) \<and>
        (case quota_for acc row p of None \<Rightarrow> False | Some q \<Rightarrow> covers q cpu ram gpu)) \<and>
     (case answer of
        Inl e \<Rightarrow> audits p' = audits p
      | Inr (ok, r) \<Rightarrow> \<exists>e. audits p' = audits p @ [e] \<and> au_AccountID e = Some acc \<and> au_Allowed e = ok)"
proof -
  obtain ok b' where a: "Allow 1 now (limiter_of acc now p) = (ok, b')" by fastforce
  let ?p = "p\<lparr>limiters := put acc b' (limiters p)\<rparr>"
  have t: "allowTokens acc 1 now p = (ok, ?p)" using a by (simp add: allowTokens_def limiter_of_def)
  have limits: "\<exists>ok' r e. check_limits acc cpu ram gpu q now ?p = ((ok', r), ?p\<lparr>audits := audits p @ [e]\<rparr>) \<and>
      (ok' \<longleftrightarrow> covers q cpu ram gpu) \<and> au_AccountID e = Some acc \<and> au_Allowed e = ok'" for q
  proof -
    obtain ok' r p2 where c: "check_limits acc cpu ram gpu q now ?p = ((ok', r), p2)"
      by (metis surj_pair)
    obtain e where e: "p2 = ?p\<lparr>audits := audits p @ [e]\<rparr>" "au_AccountID e = Some acc"
      "au_Allowed e \<longleftrightarrow> covers q cpu ram gpu"
      using check_limits_decision(2)[of acc cpu ram gpu q now ?p] c by auto
    have "ok' \<longleftrightarrow> covers q cpu ram gpu"
      using check_limits_decision(1)[of acc cpu ram gpu q now ?p] c by simp
    then show ?thesis using c e by blast
  qed
  show ?thesis
  proof (cases ok)
    case False
    then show ?thesis by (simp add: CheckQuota_def t a audit_def)
  next
    case True
    show ?thesis
    proof (cases "get (quotasCache p) acc")
      case (Some q)
      then show ?thesis using True limits[of q] by (auto simp: CheckQuota_def t a quota_for_def)
    next
      case None
      show ?thesis
      proof (cases row)
        case (QuotaFound q)
        then show ?thesis using None True limits[of q] by (auto simp: CheckQuota_def t a quota_for_def)
      qed (use None True in \<open>simp_all add: CheckQuota_def t a quota_for_def audit_def\<close>)
    qed
  qed
qed

definition quota3 :: AccountQuota where
  "quota3 = \<lparr>aq_AccountID = 3, aq_CPU = 4, aq_RAM = 8, aq_GPU = 1, aq_StorageMB = 0, aq_UpdatedAt = 1\<rparr>"

section \<open>Terms of service\<close>

definition rule_for :: "TOSRule list \<Rightarrow> string \<Rightarrow> string \<Rightarrow> TOSRule option" where
  "rule_for rows provider action =
     find (\<lambda>t. tr_Provider t = provider \<and> tr_Action t = action) (rev rows)"

lemma get_put_tos:
  "get (put_tos t tc) p =
     (if p = tr_Provider t
      then Some (put (tr_Action t) (tr_Allowed t) (case get tc p of None \<Rightarrow> [] | Some m \<Rightarrow> m))
      else get tc p)"
  by (simp add: put_tos_def Let_def map_simps)

lemma get_tos_rows:
  "(get (foldl (\<lambda>tc t. put_tos t tc) [] rows) p \<noteq> None \<longleftrightarrow> p \<in> tr_Provider ` set rows) \<and>
   (\<forall>a. (case get (foldl (\<lambda>tc t. put_tos t tc) [] rows) p of None \<Rightarrow> None | Some m \<Rightarrow> get m a) =
      map_option tr_Allowed (rule_for rows p a))"
proof (induction rows rule: rev_induct)
  case Nil
  then show ?case by (simp add: rule_for_def)
next
  case (snoc t rows)
  let ?tc = "foldl (\<lambda>tc t. put_tos t tc) [] rows"
  show ?case
  proof (cases "p = tr_Provider t")
    case False
    then show ?thesis using snoc.IH by (simp add: get_put_tos rule_for_def)
  next
    case True
    have "get (put (tr_Action t) (tr_Allowed t) (case get ?tc p of None \<Rightarrow> [] | Some m \<Rightarrow> m)) a =
        map_option tr_Allowed (rule_for (rows @ [t]) p a)" for a
      using snoc.IH True by (cases "get ?tc p") (auto simp: map_simps rule_for_def)
    then show ?thesis using True by (simp add: get_put_tos)
  qed
qed

text \<open>
  After a reload a provider without rows is refused; a known one is judged by the last row for
  the action, and allowed everything that no row mentions. When a table cannot be read nothing changes.
\<close>

theorem reload_shows_the_last_rows:
  "CheckTOS provider action (reloadFromDB \<lparr>tab_quotas = Some qs, tab_tos = Some rows, tab_sensitive = Some ss\<rparr> now p) =
    (if provider \<notin> tr_Provider ` set rows then (False, ''provider_unknown'')
     else case rule_for rows provider action of
       None \<Rightarrow> (True, ''tos_not_specified'')
     | Some t \<Rightarrow> if tr_Allowed t then (True, ''allowed_by_tos'') else (False, ''disallowed_by_tos'')) \<and>
   reloadFromDB \<lparr>tab_quotas = None, tab_tos = t1, tab_sensitive = t2\<rparr> now p = p \<and>
   reloadFromDB \<lparr>tab_quotas = t0, tab_tos = None, tab_sensitive = t2\<rparr> now p = p \<and>
   reloadFromDB \<lparr>tab_quotas = t0, tab_tos = t1, tab_sensitive = None\<rparr> now p = p"
proof -
  let ?tc = "foldl (\<lambda>tc t. put_tos t tc) [] rows"
  have "CheckTOS provider action (reloadFromDB \<lparr>tab_quotas = Some qs, tab_tos = Some rows, tab_sensitive = Some ss\<rparr> now p) =
      (case get ?tc provider of
         None \<Rightarrow> (False, ''provider_unknown'')
       | Some m \<Rightarrow> (case get m action of
           None \<Rightarrow> (True, ''tos_not_specified'')
         | Some allowed \<Rightarrow> if allowed then (True, ''allowed_by_tos'') else (False, ''disallowed_by_tos'')))"
    by (simp add: CheckTOS_def reloadFromDB_def)
  moreover have "\<dots> = (if provider \<notin> tr_Provider ` set rows then (False, ''provider_unknown'')
     else case rule_for rows provider action of
       None \<Rightarrow> (True, ''tos_not_specified'')
     | Some t \<Rightarrow> if tr_Allowed t then (True, ''allowed_by_tos'') else (False, ''disallowed_by_tos''))"
    using get_tos_rows[of rows provider]
    by (cases "get ?tc provider"; cases "rule_for rows provider action") (auto split: option.splits)
  ultimately show ?thesis by (auto simp: reloadFromDB_def split: option.split)
qed

text \<open>
  A provider without rules is refused everything. The first rule stored for it, even one that
  forbids an action, opens all its other actions.
\<close>

theorem forbidding_one_action_opens_the_others:
  assumes "get (tosCache p) (tr_Provider row) = None" and "\<not> tr_Allowed row"
    and "firstOrCreate (rule\<lparr>tr_UpdatedAt := now\<rparr>) = Inr row"
  shows "\<not> fst (CheckTOS (tr_Provider row) action p) \<and>
    fst (AddOrUpdateTOS firstOrCreate rule now p) = None \<and>
    (fst (CheckTOS (tr_Provider row) action (snd (AddOrUpdateTOS firstOrCreate rule now p))) \<longleftrightarrow>
      action \<noteq> tr_Action row)"
  using assms by (simp add: CheckTOS_def AddOrUpdateTOS_def get_put_tos map_simps)

definition forbid0 :: TOSRule where
  "forbid0 = \<lparr>tr_Provider = ''aws'', tr_Action = ''mine'', tr_Allowed = False, tr_MetaJSON = '''', tr_UpdatedAt = 9\<rparr>"

theorem forbidding_one_action_opens_the_others_witness:
  "\<not> fst (CheckTOS ''aws'' ''scan'' engine1) \<and>
   fst (CheckTOS ''aws'' ''scan'' (snd (AddOrUpdateTOS Inr forbid0 9 engine1)))"
proof -
  have "get (tosCache engine1) (tr_Provider forbid0) = None"
    by (simp add: engine1_def NewPolicyEngine_def reloadFromDB_def no_tables_def)
  from forbidding_one_action_opens_the_others[OF this, where firstOrCreate = Inr and rule = forbid0 and now = 9 and action = "''scan''"] show ?thesis
    by (simp add: forbid0_def)
qed

section \<open>A late cache fill\<close>

text \<open>
  A check that misses the cache starts a goroutine that stores the row it read. When an
  administrator updates the quota before that goroutine runs, the old row replaces the new
  one: the update returned without error, yet later checks go by the old quota.
\<close>

theorem a_late_fill_undoes_an_update:
  assumes "CheckQuota acc cpu ram gpu (QuotaFound old) t p = ((answer, Some fill), p1)"
    and "aq_AccountID new = acc" and "acc \<noteq> 0"
  shows "fill = old \<and> (\<exists>p2. UpdateQuota new None t' p1 = (None, p2) \<and>
    get (quotasCache p2) acc = Some (new\<lparr>aq_UpdatedAt := t'\<rparr>) \<and>
    quota_for acc row (cache_fill acc fill p2) = Some old)"
proof -
  have "fill = old"
    using assms(1) by (auto simp: CheckQuota_def Let_def case_prod_beta split: if_splits option.splits)
  then show ?thesis using assms(2,3)
    by (simp add: UpdateQuota_def Let_def map_simps quota_for_def cache_fill_def)
qed

lemma engine1_check:
  "\<exists>p. CheckQuota 3 1 1 1 (QuotaFound quota3) 5 engine1 = ((Inr (True, ''ok''), Some quota3), p)"
  by (simp add: CheckQuota_def allowTokens_def engine1_def NewPolicyEngine_def reloadFromDB_def no_tables_def
      Allow_def refilled_def newTokenBucket_def Seconds_def check_limits_def quota3_def audit_def)

theorem a_late_fill_undoes_an_update_witness:
  "\<exists>p1 p2. UpdateQuota (quota3\<lparr>aq_CPU := 0\<rparr>) None 6 p1 = (None, p2) \<and>
     quota_for 3 QuotaNotFound (cache_fill 3 quota3 p2) = Some quota3"
proof -
  obtain p1 where "CheckQuota 3 1 1 1 (QuotaFound quota3) 5 engine1 = ((Inr (True, ''ok''), Some quota3), p1)"
    using engine1_check by blast
  from a_late_fill_undoes_an_update[OF this, of "quota3\<lparr>aq_CPU := 0\<rparr>" 6 QuotaNotFound] show ?thesis
    by (auto simp: quota3_def)
qed

end
