(* ===== verification/GoPath.thy ===== *)
theory GoPath
  imports GoStrings
begin

text \<open>
  The lexical part of package path/filepath on Unix: \<open>Clean\<close> and \<open>Join\<close> as far as the code uses
  them, strings.HasPrefix and strings.Contains, and the check by which the code keeps paths inside a
  directory. Symbolic links are outside the model.
\<close>

section \<open>Splitting and joining\<close>

fun split_on :: "char \<Rightarrow> string \<Rightarrow> string list" where
  "split_on c [] = [[]]"
| "split_on c (x # xs) =
     (if x = c then [] # split_on c xs
      else case split_on c xs of [] \<Rightarrow> [[x]] | p # ps \<Rightarrow> (x # p) # ps)"

fun join_with :: "char \<Rightarrow> string list \<Rightarrow> string" where
  "join_with c [] = []"
| "join_with c [p] = p"
| "join_with c (p # ps) = p @ c # join_with c ps"

lemma split_on_not_Nil [simp]: "split_on c s \<noteq> []"
  by (induction s) (auto split: list.split)

lemma split_on_append: "split_on c (a @ c # b) = split_on c a @ split_on c b"
  by (induction a) (auto split: list.split)

lemma split_on_no_sep: "c \<notin> set s \<Longrightarrow> split_on c s = [s]"
  by (induction s) auto

lemma split_on_join:
  assumes "ps \<noteq> []" and "\<And>p. p \<in> set ps \<Longrightarrow> c \<notin> set p"
  shows "split_on c (join_with c ps) = ps"
  using assms by (induction c ps rule: join_with.induct) (simp_all add: split_on_append split_on_no_sep)

lemma join_with_split [simp]: "join_with c (split_on c s) = s"
proof (induction s)
  case (Cons x xs)
  obtain p ps where "split_on c xs = p # ps" by (meson neq_Nil_conv split_on_not_Nil)
  then show ?case using Cons by (cases ps) auto
qed simp

lemma no_sep_in_parts: "p \<in> set (split_on c s) \<Longrightarrow> c \<notin> set p"
proof (induction s arbitrary: p)
  case (Cons x xs)
  obtain q qs where "split_on c xs = q # qs" by (meson neq_Nil_conv split_on_not_Nil)
  then show ?case using Cons by (auto split: if_splits)
qed simp

section \<open>Clean and Join\<close>

abbreviation slash :: char where
  "slash \<equiv> CHR ''/''"

fun clean_parts :: "bool \<Rightarrow> string list \<Rightarrow> string list \<Rightarrow> string list" where
  "clean_parts rooted [] out = rev out"
| "clean_parts rooted (p # ps) out =
     (if p = '''' \<or> p = ''.'' then clean_parts rooted ps out
      else if p = ''..'' then
        (case out of
           [] \<Rightarrow> clean_parts rooted ps (if rooted then [] else [''..''])
         | q # qs \<Rightarrow> if q = ''..'' then clean_parts rooted ps (''..'' # out) else clean_parts rooted ps qs)
      else clean_parts rooted ps (p # out))"

definition IsAbs :: "string \<Rightarrow> bool" where
  "IsAbs path \<longleftrightarrow> path \<noteq> [] \<and> hd path = slash"

definition Clean :: "string \<Rightarrow> string" where
  "Clean path =
     (let ps = clean_parts (IsAbs path) (split_on slash path) []
      in if IsAbs path then slash # join_with slash ps
         else if ps = [] then ''.'' else join_with slash ps)"

definition Join2 :: "string \<Rightarrow> string \<Rightarrow> string" where
  "Join2 a b =
     (if a \<noteq> '''' then Clean (a @ slash # b) else if b \<noteq> '''' then Clean b else '''')"

definition HasPrefix :: "string \<Rightarrow> string \<Rightarrow> bool" where
  "HasPrefix s p \<longleftrightarrow> take (length p) s = p"

lemma HasPrefix_iff: "HasPrefix s p \<longleftrightarrow> (\<exists>r. s = p @ r)"
  unfolding HasPrefix_def by (metis append_eq_conv_conj append_take_drop_id)

fun contains :: "string \<Rightarrow> string \<Rightarrow> bool" where
  "contains [] p \<longleftrightarrow> p = []"
| "contains (c # s) p \<longleftrightarrow> HasPrefix (c # s) p \<or> contains s p"

definition ToLower :: "string \<Rightarrow> string" where
  "ToLower s = map lower_char s"

text \<open>A part that names an entry of a directory.\<close>

definition plain :: "string \<Rightarrow> bool" where
  "plain p \<longleftrightarrow> p \<noteq> '''' \<and> p \<noteq> ''.'' \<and> p \<noteq> ''..'' \<and> slash \<notin> set p"

lemma clean_parts_plain:
  assumes "\<And>p. p \<in> set ps \<Longrightarrow> slash \<notin> set p" and "\<And>p. p \<in> set out \<Longrightarrow> plain p"
    and "q \<in> set (clean_parts True ps out)"
  shows "plain q"
  using assms
proof (induction ps arbitrary: out)
  case Nil
  then show ?case by simp
next
  case (Cons p ps)
  consider "p = '''' \<or> p = ''.''" | "p = ''..''" "out = []"
    | x xs where "p = ''..''" "out = x # xs" | "plain p"
    using Cons.prems(1)[of p] unfolding plain_def by (cases out) auto
  then show ?case
  proof cases
    case 1
    then show ?thesis using Cons.IH[of out] Cons.prems by auto
  next
    case 2
    then show ?thesis using Cons.IH[of "[]"] Cons.prems by simp
  next
    case 3
    then have "x \<noteq> ''..''" using Cons.prems(2)[of x] by (simp add: plain_def)
    then show ?thesis using 3 Cons.IH[of xs] Cons.prems by simp
  next
    case 4
    then have "clean_parts True (p # ps) out = clean_parts True ps (p # out)" by (simp add: plain_def)
    then show ?thesis using Cons.IH[of "p # out"] Cons.prems 4 by auto
  qed
qed

text \<open>An absolute path, once cleaned, is a slash and plain parts.\<close>

lemma Clean_abs:
  assumes "IsAbs path"
  shows "\<exists>ps. Clean path = slash # join_with slash ps \<and> (\<forall>p\<in>set ps. plain p)"
  using assms clean_parts_plain[of "split_on slash path" "[]"] no_sep_in_parts[of _ slash path]
  by (auto simp: Clean_def Let_def)

lemma clean_parts_id:
  "\<forall>p\<in>set ps. plain p \<Longrightarrow> clean_parts r ps out = rev out @ ps"
  by (induction ps arbitrary: out) (auto simp: plain_def)

lemma split_on_plain: "\<forall>p\<in>set ps. plain p \<Longrightarrow> ps \<noteq> [] \<Longrightarrow> split_on slash (join_with slash ps) = ps"
  by (rule split_on_join) (auto simp: plain_def)

lemma Clean_plain:
  assumes "\<forall>p\<in>set ps. plain p"
  shows "Clean (slash # join_with slash ps) = slash # join_with slash ps"
proof (cases "ps = []")
  case True
  then show ?thesis by (simp add: Clean_def IsAbs_def)
next
  case False
  then show ?thesis using assms
    by (simp add: Clean_def IsAbs_def split_on_plain clean_parts_id)
qed

text \<open>Cleaning an absolute path twice is cleaning it once.\<close>

lemma Clean_idem: "IsAbs path \<Longrightarrow> Clean (Clean path) = Clean path"
  using Clean_abs Clean_plain by metis

section \<open>Staying inside a directory\<close>

definition inside :: "string \<Rightarrow> string \<Rightarrow> bool" where
  "inside base path \<longleftrightarrow> path = base \<or> HasPrefix path (base @ [slash])"

text \<open>The entries of a directory and of the directories below it.\<close>

definition below :: "string \<Rightarrow> string \<Rightarrow> bool" where
  "below base path \<longleftrightarrow>
     (\<exists>ps. ps \<noteq> [] \<and> (\<forall>p\<in>set ps. plain p) \<and> path = base @ slash # join_with slash ps)"

lemma inside_below:
  assumes "IsAbs path" and "inside base (Clean path)" and "base \<noteq> ''''"
  shows "Clean path = base \<or> below base (Clean path)"
proof (cases "Clean path = base")
  case False
  then obtain r where r: "Clean path = base @ slash # r"
    using assms(2) by (auto simp: inside_def HasPrefix_iff)
  obtain ps where ps: "Clean path = slash # join_with slash ps" "\<forall>p\<in>set ps. plain p"
    using Clean_abs[OF assms(1)] by blast
  show ?thesis
  proof (cases "ps = []")
    case True
    then have "[slash] = base @ slash # r" using r ps by simp
    then show ?thesis using assms(3) by (cases base) auto
  next
    case False
    have "split_on slash (slash # join_with slash ps) = [] # ps"
      using split_on_plain[OF ps(2) False] by simp
    moreover have "slash # join_with slash ps = base @ slash # r" using r ps(1) by simp
    ultimately have "[] # ps = split_on slash base @ split_on slash r"
      by (metis split_on_append)
    then have "set (split_on slash r) \<subseteq> set ps"
      by (cases "split_on slash base") (auto)
    then have "below base (Clean path)"
      unfolding below_def using r ps(2) by (intro exI[of _ "split_on slash r"]) auto
    then show ?thesis by simp
  qed
qed simp


lemma IsAbs_Join2 [simp]: "IsAbs a \<Longrightarrow> Join2 a b = Clean (a @ slash # b)"
  by (auto simp: Join2_def IsAbs_def)

text \<open>
  The check of the code is sound: below an absolute directory, a joined path that passes it names
  the directory itself or something below it, whatever dots the joined part contains.
\<close>

lemma sandbox_sound:
  assumes "IsAbs dir" and "inside (Clean dir) (Join2 dir x)"
  shows "Join2 dir x = Clean dir \<or> below (Clean dir) (Join2 dir x)"
proof -
  have "Clean dir \<noteq> ''''" using Clean_abs[OF assms(1)] by auto
  moreover have "IsAbs (dir @ slash # x)" using assms(1) by (auto simp: IsAbs_def)
  ultimately show ?thesis using inside_below[of "dir @ slash # x" "Clean dir"] assms by simp
qed

text \<open>And it is complete: a plain relative path is let through, unless the directory is the root.\<close>

lemma join_with_append:
  "ps \<noteq> [] \<Longrightarrow> qs \<noteq> [] \<Longrightarrow> join_with c (ps @ qs) = join_with c ps @ c # join_with c qs"
proof (induction c ps rule: join_with.induct)
  case (2 c p)
  then show ?case by (cases qs) simp_all
qed simp_all

lemma clean_dir_then_plain:
  assumes "IsAbs dir" and "\<forall>p\<in>set qs. plain p" and "qs \<noteq> []" and "Clean dir \<noteq> ''/''"
  shows "Join2 dir (join_with slash qs) = Clean dir @ slash # join_with slash qs"
proof -
  define ps where "ps = clean_parts True (split_on slash dir) []"
  have c: "clean_parts True (xs @ qs) out = clean_parts True xs out @ qs" for xs out
    by (induction xs arbitrary: out) (auto simp: clean_parts_id[OF assms(2)] split: list.split)
  have abs: "IsAbs (dir @ slash # join_with slash qs)" using assms(1) by (auto simp: IsAbs_def)
  have "Join2 dir (join_with slash qs) = slash # join_with slash (ps @ qs)"
    using assms(1,2,3) abs
    by (simp add: Clean_def split_on_append split_on_plain c ps_def)
  moreover have "Clean dir = slash # join_with slash ps" using assms(1) by (simp add: Clean_def ps_def)
  moreover from this have "ps \<noteq> []" using assms(4) by auto
  ultimately show ?thesis using assms(3) by (simp add: join_with_append)
qed

lemma sandbox_complete:
  assumes "IsAbs dir" and "\<forall>p\<in>set qs. plain p" and "qs \<noteq> []" and "Clean dir \<noteq> ''/''"
  shows "inside (Clean dir) (Join2 dir (join_with slash qs))"
  using clean_dir_then_plain[OF assms] by (auto simp: inside_def HasPrefix_iff simp del: IsAbs_Join2)

end
