(* ===== verification/SelfHealing.thy ===== *)
theory SelfHealing
  imports GoPath
begin

text \<open>
  The self-healing manager of \<^verbatim>\<open>src/internal/selfhealing/self_healing.go\<close>: failures and incidents,
  repairs, playbooks, tools that are built, deployed and run, patches, approvals. Files are a map from
  paths to contents (\<open>files\<close>), an error of the file system is an argument of the operation. What a
  build, a scan or a run of a tool does is not under src/: the \<open>build_world\<close> of a build says what the
  command printed, whether it failed, and which executables are found afterwards. Telemetry, which is
  only called, is left out; an hour is the number of its hours since the zero time, where the code
  uses the formatted hour.
\<close>

section \<open>Data\<close>

record FailureEvent =
  fe_Timestamp :: gotime
  fe_NodeID :: string
  fe_Type :: string
  fe_Severity :: int
  fe_Details :: string
  fe_Meta :: "(string, any) gomap"

record RepairAction =
  ra_ID :: string
  ra_CreatedAt :: gotime
  ra_Actor :: string
  ra_Command :: string
  ra_Success :: bool
  ra_Log :: string
  ra_AppliedAt :: "gotime option"

record Incident =
  in_ID :: string
  in_Events :: "FailureEvent list"
  in_State :: string
  in_SuggestedAction :: "string list"
  in_CreatedAt :: gotime
  in_UpdatedAt :: gotime

record RepairPlan =
  rp_Command :: string
  rp_DryRunSteps :: "string list"
  rp_ApplySteps :: "string list"
  rp_Confidence :: float64
  rp_GeneratedAt :: gotime

record Playbook =
  pb_ID :: string
  pb_IncidentID :: string
  pb_Steps :: "string list"
  pb_ApprovalsNeeded :: int
  pb_AutoApply :: bool
  pb_CreatedAt :: gotime
  pb_Status :: string

type_synonym RCAHook = "FailureEvent \<Rightarrow> RepairPlan option"

record ToolMeta =
  tm_ID :: string
  tm_Source :: string
  tm_Metadata :: "(string, any) gomap"
  tm_CreatedAt :: gotime
  tm_Built :: bool
  tm_Binary :: string

record BuildResult =
  br_ToolID :: string
  br_OK :: bool
  br_Log :: string

record DeployResult =
  dr_ToolID :: string
  dr_Target :: string
  dr_DryRun :: bool
  dr_Success :: bool
  dr_Log :: string

record RunResult =
  rr_ToolID :: string
  rr_Stdout :: string
  rr_Stderr :: string
  rr_OK :: bool

record PatchProposal =
  pp_ID :: string
  pp_Path :: string
  pp_Patch :: string
  pp_Author :: string
  pp_CreatedAt :: gotime
  pp_Applied :: bool

record SelfHealSafetyPolicy =
  sp_MaxAutoRepairsPerWindow :: int
  sp_MaxToolDeployPerHour :: int
  sp_RequireApprovalForProd :: bool

record SelfHealingManager =
  events :: "FailureEvent list"
  actions :: "RepairAction list"
  incidents :: "(string, Incident) gomap"
  patches :: "(string, PatchProposal) gomap"
  tools :: "(string, ToolMeta) gomap"
  rcaHook :: "RCAHook option"
  repairPlugins :: "(string, nat) gomap"
  storeDir :: string
  approvals :: "(string, gotime) gomap"
  safety :: SelfHealSafetyPolicy
  toolDeployCounts :: "(int, int) gomap"
  stopBg :: bool
  files :: "(string, string) gomap"

definition NewSelfHealingManager :: "string \<Rightarrow> (string, string) gomap \<Rightarrow> SelfHealingManager" where
  "NewSelfHealingManager dir fs =
     \<lparr>events = [], actions = [], incidents = [], patches = [], tools = [], rcaHook = None,
      repairPlugins = [], storeDir = dir, approvals = [],
      safety = \<lparr>sp_MaxAutoRepairsPerWindow = 5, sp_MaxToolDeployPerHour = 5, sp_RequireApprovalForProd = True\<rparr>,
      toolDeployCounts = [], stopBg = False, files = fs\<rparr>"

datatype heal_error =
    IncidentNotFound | ApprovalRequired | ToolNotFound | ToolNotBuilt | NoBinary
  | DeployApprovalRequired | DeployQuotaExceeded | TargetOutsideSandbox
  | PatchNotFound | PatchOutsideSandbox | ContextDone | ScannerFailed string
  | BuildFailed string | FileError string | RunFailed string

section \<open>Background\<close>

definition hour_of :: "gotime \<Rightarrow> int" where
  "hour_of t = t div Hour"

definition deployCounts_tick :: "gotime \<Rightarrow> SelfHealingManager \<Rightarrow> SelfHealingManager" where
  "deployCounts_tick now s =
     (if stopBg s then s
      else s\<lparr>toolDeployCounts := filter (\<lambda>(k, _). k = hour_of now) (toolDeployCounts s)\<rparr>)"

definition approval_tick :: "gotime \<Rightarrow> SelfHealingManager \<Rightarrow> SelfHealingManager" where
  "approval_tick now s =
     (if stopBg s then s else s\<lparr>approvals := filter (\<lambda>(_, t). \<not> now > t) (approvals s)\<rparr>)"

definition Shutdown :: "SelfHealingManager \<Rightarrow> SelfHealingManager" where
  "Shutdown s = s\<lparr>stopBg := True\<rparr>"

section \<open>Failures, repairs and playbooks\<close>

definition ReportFailure :: "FailureEvent \<Rightarrow> gotime \<Rightarrow> SelfHealingManager \<Rightarrow> SelfHealingManager" where
  "ReportFailure ev now s =
     (let ev = ev\<lparr>fe_Timestamp := now\<rparr>;
          incID = ''inc-'' @ fe_NodeID ev @ ''-'' @ dec (Unix now);
          inc = \<lparr>in_ID = incID, in_Events = [ev], in_State = ''open'', in_SuggestedAction = [],
                 in_CreatedAt = now, in_UpdatedAt = now\<rparr>
      in s\<lparr>events := events s @ [ev], incidents := put incID inc (incidents s)\<rparr>)"

definition RegisterRCAHook :: "RCAHook \<Rightarrow> SelfHealingManager \<Rightarrow> SelfHealingManager" where
  "RegisterRCAHook fn s = s\<lparr>rcaHook := Some fn\<rparr>"

definition plan_of :: "string \<Rightarrow> string list \<Rightarrow> string list \<Rightarrow> float64 \<Rightarrow> gotime \<Rightarrow> RepairPlan" where
  "plan_of c dry apply conf now =
     \<lparr>rp_Command = c, rp_DryRunSteps = dry, rp_ApplySteps = apply, rp_Confidence = conf, rp_GeneratedAt = now\<rparr>"

definition SuggestRepair :: "FailureEvent \<Rightarrow> gotime \<Rightarrow> SelfHealingManager \<Rightarrow> RepairPlan" where
  "SuggestRepair ev now s =
     (case (case rcaHook s of None \<Rightarrow> None | Some hook \<Rightarrow> hook ev) of
        Some plan \<Rightarrow> plan
      | None \<Rightarrow>
          if fe_Type ev = ''node_down'' then
            plan_of (''reboot-node --node='' @ fe_NodeID ev) [''notify'', ''simulate_reboot'']
              [''drain'', ''reboot'', ''verify''] (6/10) now
          else if fe_Type ev = ''job_failed'' then
            plan_of ''reschedule-job'' [''gather_logs'', ''simulate_reschedule''] [''reschedule'', ''verify''] (5/10) now
          else plan_of ''noop'' [''noop''] [''noop''] (1/10) now)"

fun replace_action :: "RepairAction \<Rightarrow> RepairAction list \<Rightarrow> RepairAction list" where
  "replace_action a [] = []"
| "replace_action a (b # bs) = (if ra_ID b = ra_ID a then a # bs else b # replace_action a bs)"

text \<open>\<open>ctx_done\<close> says whether the context ends before the simulated execution does.\<close>

definition ApplyRepair ::
    "RepairPlan \<Rightarrow> string \<Rightarrow> bool \<Rightarrow> bool \<Rightarrow> gotime \<Rightarrow> SelfHealingManager
      \<Rightarrow> (RepairAction \<times> heal_error option) \<times> SelfHealingManager" where
  "ApplyRepair plan actor dryRun ctx_done now s =
     (let action = \<lparr>ra_ID = ''act-'' @ dec (UnixNano now), ra_CreatedAt = now, ra_Actor = actor,
                    ra_Command = rp_Command plan, ra_Success = False, ra_Log = '''', ra_AppliedAt = None\<rparr>;
          s = s\<lparr>actions := actions s @ [action]\<rparr>;
          finish = (\<lambda>msg. let a = action\<lparr>ra_Log := msg, ra_Success := True, ra_AppliedAt := Some now\<rparr>
                          in ((a, None), s\<lparr>actions := replace_action a (actions s)\<rparr>))
      in if dryRun then finish ''dry-run simulated''
         else if ctx_done then ((action, Some ContextDone), s)
         else finish ''executed simulated'')"

definition GeneratePlaybook :: "string \<Rightarrow> gotime \<Rightarrow> SelfHealingManager \<Rightarrow> heal_error + Playbook" where
  "GeneratePlaybook incidentID now s =
     (if \<not> has_key (incidents s) incidentID then Inl IncidentNotFound
      else Inr \<lparr>pb_ID = ''pb-'' @ dec (UnixNano now), pb_IncidentID = incidentID,
                pb_Steps = [''notify_oncall'', ''dry_run_repair'', ''apply_repair'', ''verify_health''],
                pb_ApprovalsNeeded = 1, pb_AutoApply = False, pb_CreatedAt = now, pb_Status = ''pending''\<rparr>)"

definition step_action :: "Playbook \<Rightarrow> bool \<Rightarrow> string \<Rightarrow> gotime \<Rightarrow> nat \<times> string \<Rightarrow> RepairAction" where
  "step_action pb dryRun actor now p =
     (let (i, step) = p
      in \<lparr>ra_ID = pb_ID pb @ ''-step-'' @ dec i, ra_CreatedAt = now, ra_Actor = actor, ra_Command = step,
          ra_Success = True, ra_Log = (if dryRun then ''dry-run '' else ''executed '') @ step,
          ra_AppliedAt = (if dryRun then None else Some now)\<rparr>)"

definition ApplyPlaybook ::
    "Playbook \<Rightarrow> bool \<Rightarrow> bool \<Rightarrow> string \<Rightarrow> gotime \<Rightarrow> SelfHealingManager
      \<Rightarrow> (heal_error + RepairAction list) \<times> SelfHealingManager" where
  "ApplyPlaybook pb autoApprove dryRun actor now s =
     (if sp_RequireApprovalForProd (safety s) \<and> \<not> autoApprove \<and> \<not> dryRun then (Inl ApprovalRequired, s)
      else
        let acts = map (step_action pb dryRun actor now) (zip [0..<length (pb_Steps pb)] (pb_Steps pb))
        in (Inr acts, s\<lparr>actions := actions s @ acts\<rparr>))"

section \<open>Tools\<close>

definition toolsDir :: "SelfHealingManager \<Rightarrow> string" where
  "toolsDir s = Join2 (storeDir s) ''tools''"

text \<open>
  Writing a file through a temporary one: \<open>io\<close> is the error of writing, with what is left of the
  temporary file, or of renaming.
\<close>

datatype io_error = WriteError string "string option" | RenameError string

definition write_atomic ::
    "string \<Rightarrow> string \<Rightarrow> io_error option \<Rightarrow> (string, string) gomap \<Rightarrow> string option \<times> (string, string) gomap" where
  "write_atomic path content io fs =
     (case io of
        Some (WriteError e left) \<Rightarrow>
          (Some e, case left of None \<Rightarrow> fs | Some c \<Rightarrow> put (path @ ''.tmp'') c fs)
      | Some (RenameError e) \<Rightarrow> (Some e, put (path @ ''.tmp'') content fs)
      | None \<Rightarrow> (None, put path content (del (path @ ''.tmp'') fs)))"

definition CreateTool ::
    "string \<Rightarrow> string \<Rightarrow> (string, any) gomap \<Rightarrow> io_error option \<Rightarrow> gotime \<Rightarrow> SelfHealingManager
      \<Rightarrow> heal_error option \<times> SelfHealingManager" where
  "CreateTool toolID source metadata io now s =
     (let dir = Join2 (toolsDir s) toolID; srcPath = Join2 dir ''src.txt'';
          (err, fs) = write_atomic srcPath source io (files s);
          s = s\<lparr>files := fs\<rparr>
      in case err of
           Some e \<Rightarrow> (Some (FileError e), s)
         | None \<Rightarrow>
             (None, s\<lparr>tools := put toolID
                \<lparr>tm_ID = toolID, tm_Source = source, tm_Metadata = metadata, tm_CreatedAt = now,
                 tm_Built = False, tm_Binary = ''''\<rparr> (tools s)\<rparr>))"

definition dangerous :: "string list" where
  "dangerous = [''rm -rf'', '':(){:|:&};:'', ''dd if='', ''mkfs.'', ''forkbomb'', ''wget '', ''curl '']"

datatype validation = Valid | TooLarge | Dangerous

definition validate_source :: "string \<Rightarrow> validation" where
  "validate_source src =
     (if length src > 1024 * 200 then TooLarge
      else if list_ex (contains src) dangerous then Dangerous else Valid)"

definition ValidateTool :: "string \<Rightarrow> SelfHealingManager \<Rightarrow> heal_error + validation" where
  "ValidateTool toolID s =
     (case get (tools s) toolID of
        None \<Rightarrow> Inl ToolNotFound
      | Some meta \<Rightarrow> Inr (validate_source (tm_Source meta)))"

definition approval_key :: "string \<Rightarrow> string \<Rightarrow> string" where
  "approval_key toolID target = toolID @ '':'' @ target"

definition ApproveDeploy ::
    "string \<Rightarrow> string \<Rightarrow> duration \<Rightarrow> gotime \<Rightarrow> SelfHealingManager \<Rightarrow> SelfHealingManager" where
  "ApproveDeploy toolID target expiry now s =
     (let expiry = (if expiry \<le> 0 then 24 * Hour else expiry)
      in s\<lparr>approvals := put (approval_key toolID target) (now + expiry) (approvals s)\<rparr>)"

definition isApproved :: "string \<Rightarrow> string \<Rightarrow> gotime \<Rightarrow> SelfHealingManager \<Rightarrow> bool" where
  "isApproved toolID target now s =
     (case get (approvals s) (approval_key toolID target) of None \<Rightarrow> False | Some expiry \<Rightarrow> now < expiry)"

definition copyFileAtomic ::
    "string \<Rightarrow> string \<Rightarrow> io_error option \<Rightarrow> (string, string) gomap \<Rightarrow> string option \<times> (string, string) gomap" where
  "copyFileAtomic src dst io fs =
     (case get fs src of
        None \<Rightarrow> (Some ''open'', fs)
      | Some content \<Rightarrow>
          (case io of
             None \<Rightarrow> (None, put dst content (del (dst @ ''.tmp'') fs))
           | Some (WriteError e _) \<Rightarrow> (Some e, del (dst @ ''.tmp'') fs)
           | Some (RenameError e) \<Rightarrow> (Some e, del (dst @ ''.tmp'') fs)))"

section \<open>Building\<close>

text \<open>Only commands that mention a known scanner are run: \<open>run\<close> is the outcome of the shell.\<close>

definition runExternalScanner ::
    "(string \<Rightarrow> string \<times> string option) \<Rightarrow> string \<Rightarrow> string \<times> string option" where
  "runExternalScanner run scannerCmd =
     (if scannerCmd = '''' then ('''', None)
      else if \<not> (contains (ToLower scannerCmd) ''trivy'' \<or> contains (ToLower scannerCmd) ''syft'')
      then ('''', Some (''scanner not allowed: '' @ scannerCmd))
      else run scannerCmd)"

datatype build_command =
    InContainer string "string list" string   \<comment> \<open>image, resource arguments, inner command\<close>
  | ShellCommand string
  | GoBuild
  | RunScript

definition meta_string :: "ToolMeta \<Rightarrow> string \<Rightarrow> string" where
  "meta_string m k = (case get (tm_Metadata m) k of Some (AStr v) \<Rightarrow> v | _ \<Rightarrow> '''')"

definition containerArgs :: "ToolMeta \<Rightarrow> string list" where
  "containerArgs m =
     (if meta_string m ''container_memory'' \<noteq> '''' then [''--memory'', meta_string m ''container_memory''] else []) @
     (if meta_string m ''container_cpus'' \<noteq> '''' then [''--cpus'', meta_string m ''container_cpus''] else [])"

definition build_command_of :: "ToolMeta \<Rightarrow> string \<Rightarrow> build_command" where
  "build_command_of m binName =
     (let buildCmd = meta_string m ''build_cmd''; isGo = contains (tm_Source m) ''package main''
      in if get (tm_Metadata m) ''use_container'' = Some (ABool True) then
           InContainer
             (if meta_string m ''build_image'' \<noteq> '''' then meta_string m ''build_image'' else ''golang:1.21'')
             (containerArgs m)
             (if buildCmd \<noteq> '''' then buildCmd
              else if isGo then ''mkdir -p /work/bin && cd /work && go build -o /work/bin/'' @ binName @ '' .''
              else ''sh /work/script.sh || true'')
         else if buildCmd \<noteq> '''' then ShellCommand buildCmd
         else if isGo then GoBuild
         else RunScript)"

text \<open>
  The world of one build: an error of the temporary directory, what a command prints and its
  error, the shell of the scanner, the files it leaves, the executable at the expected
  place if there is one, and the first executable in the directory of binaries. The text of a
  failed validation, the printed map, is cut short.
\<close>

record build_world =
  bw_tmpdir :: "string option"
  bw_run :: "build_command \<Rightarrow> string \<times> string option"
  bw_shell :: "string \<Rightarrow> string \<times> string option"
  bw_files :: "(string, string) gomap"
  bw_expected :: "string option"
  bw_executable :: "string option"

definition BuildTool ::
    "build_world \<Rightarrow> string \<Rightarrow> gotime \<Rightarrow> SelfHealingManager
      \<Rightarrow> (BuildResult option \<times> heal_error option) \<times> SelfHealingManager" where
  "BuildTool w toolID now s =
     (case get (tools s) toolID of
        None \<Rightarrow> ((None, Some ToolNotFound), s)
      | Some meta \<Rightarrow>
          let result = (\<lambda>ok msg. Some \<lparr>br_ToolID = toolID, br_OK = ok, br_Log = msg\<rparr>)
          in if ValidateTool toolID s \<noteq> Inr Valid then ((result False ''validation failed'', None), s)
             else case bw_tmpdir w of
               Some e \<Rightarrow> ((result False e, Some (FileError e)), s)
             | None \<Rightarrow>
                 let (out, cmdErr) = bw_run w (build_command_of meta (toolID @ ''-'' @ dec (Unix now)));
                     s = s\<lparr>files := put_all (bw_files w) (files s)\<rparr>;
                     scannerCmd = meta_string meta ''scanner_cmd'';
                     scan = (if cmdErr = None \<and> scannerCmd \<noteq> ''''
                             then runExternalScanner (bw_shell w) scannerCmd else ('''', None))
                 in case snd scan of
                      Some e \<Rightarrow> ((result False (out @ [CHR 0x0A, CHR 0x0A] @ ''scanner:'' @ [CHR 0x0A] @ fst scan),
                                Some (ScannerFailed e)), s)
                    | None \<Rightarrow>
                        let found = (case bw_expected w of Some b \<Rightarrow> Some b | None \<Rightarrow> bw_executable w);
                            built = (case found of
                              Some b \<Rightarrow> s\<lparr>tools := put toolID (meta\<lparr>tm_Built := True, tm_Binary := b\<rparr>) (tools s)\<rparr>
                            | None \<Rightarrow> s)
                        in case (cmdErr, found) of
                             (Some e, None) \<Rightarrow> ((result False (''build error: '' @ e @ [CHR 0x0A] @ out), Some (BuildFailed e)), built)
                           | (_, Some b) \<Rightarrow> ((result True out, None), built)
                           | (None, None) \<Rightarrow>
                               ((result False out, None),
                                s\<lparr>tools := put toolID (meta\<lparr>tm_Built := False, tm_Binary := ''''\<rparr>) (tools s)\<rparr>))"

section \<open>Deploying and running\<close>

definition is_prod :: "string \<Rightarrow> bool" where
  "is_prod target \<longleftrightarrow> contains (ToLower target) ''prod'' \<or> contains (ToLower target) ''/prod/''"

definition deploy_path :: "string \<Rightarrow> SelfHealingManager \<Rightarrow> string" where
  "deploy_path target s = Join2 (storeDir s) (Clean target)"

definition take_quota :: "gotime \<Rightarrow> SelfHealingManager \<Rightarrow> SelfHealingManager option" where
  "take_quota now s =
     (let count = get0 (toolDeployCounts s) (hour_of now)
      in if count \<ge> sp_MaxToolDeployPerHour (safety s) then None
         else Some (s\<lparr>toolDeployCounts := put (hour_of now) (count + 1) (toolDeployCounts s)\<rparr>))"

text \<open>
  \<open>io\<close> is an error of the copy, \<open>rename\<close> one of the last renaming. The third component of an error is
  the result that the code returns beside it, when it returns one.
\<close>

definition DeployTool ::
    "string \<Rightarrow> string \<Rightarrow> bool \<Rightarrow> io_error option \<Rightarrow> string option \<Rightarrow> gotime \<Rightarrow> SelfHealingManager
      \<Rightarrow> (heal_error + DeployResult) \<times> SelfHealingManager" where
  "DeployTool toolID target dryRun io rename now s =
     (case get (tools s) toolID of
        None \<Rightarrow> (Inl ToolNotFound, s)
      | Some meta \<Rightarrow>
          if tm_Binary meta = '''' then (Inl ToolNotBuilt, s)
          else if sp_RequireApprovalForProd (safety s) \<and> is_prod target \<and> \<not> isApproved toolID target now s
          then (Inl DeployApprovalRequired, s)
          else case take_quota now s of
            None \<Rightarrow> (Inl DeployQuotaExceeded, s)
          | Some s \<Rightarrow>
              let targetPath = deploy_path target s;
                  result = (\<lambda>msg. \<lparr>dr_ToolID = toolID, dr_Target = targetPath, dr_DryRun = dryRun,
                                  dr_Success = True, dr_Log = msg\<rparr>)
              in if \<not> inside (Clean (storeDir s)) targetPath then (Inl TargetOutsideSandbox, s)
                 else if dryRun then (Inr (result ''dry-run ok''), s)
                 else case copyFileAtomic (tm_Binary meta) (targetPath @ ''.tmp'') io (files s) of
                   (Some e, fs) \<Rightarrow> (Inl (FileError e), s\<lparr>files := fs\<rparr>)
                 | (None, fs) \<Rightarrow>
                     (case rename of
                        Some e \<Rightarrow> (Inl (FileError e), s\<lparr>files := fs\<rparr>)
                      | None \<Rightarrow>
                          (Inr (result ''deployed''),
                           s\<lparr>files := (case get fs (targetPath @ ''.tmp'') of
                              None \<Rightarrow> fs
                            | Some content \<Rightarrow> put targetPath content (del (targetPath @ ''.tmp'') fs))\<rparr>)))"

text \<open>\<open>run\<close> is what the process prints and its error.\<close>

definition RunTool ::
    "(string \<Rightarrow> string list \<Rightarrow> string \<times> string \<times> string option) \<Rightarrow> string \<Rightarrow> string list \<Rightarrow> bool
      \<Rightarrow> SelfHealingManager \<Rightarrow> RunResult option \<times> heal_error option" where
  "RunTool run toolID args dryRun s =
     (case get (tools s) toolID of
        None \<Rightarrow> (None, Some ToolNotFound)
      | Some meta \<Rightarrow>
          if dryRun then
            (Some \<lparr>rr_ToolID = toolID, rr_Stdout = ''dry-run stdout'', rr_Stderr = '''', rr_OK = True\<rparr>, None)
          else if tm_Binary meta = '''' then (None, Some NoBinary)
          else case run (tm_Binary meta) args of
            (out, err, e) \<Rightarrow>
              (Some \<lparr>rr_ToolID = toolID, rr_Stdout = out, rr_Stderr = err, rr_OK = (e = None)\<rparr>,
               map_option RunFailed e))"

section \<open>Patches\<close>

text \<open>\<open>json\<close> is json.MarshalIndent.\<close>

definition ProposePatch ::
    "(PatchProposal \<Rightarrow> string) \<Rightarrow> string \<Rightarrow> string \<Rightarrow> string \<Rightarrow> io_error option \<Rightarrow> gotime \<Rightarrow> SelfHealingManager
      \<Rightarrow> (heal_error + string) \<times> SelfHealingManager" where
  "ProposePatch json path patch author io now s =
     (let pid = ''patch-'' @ dec (UnixNano now);
          pp = \<lparr>pp_ID = pid, pp_Path = path, pp_Patch = patch, pp_Author = author,
                pp_CreatedAt = now, pp_Applied = False\<rparr>;
          dir = Join2 (storeDir s) ''patches'';
          (err, fs) = write_atomic (Join2 dir (pid @ ''.json'')) (json pp) io (files s);
          s = s\<lparr>patches := put pid pp (patches s), files := fs\<rparr>
      in case err of Some e \<Rightarrow> (Inl (FileError e), s) | None \<Rightarrow> (Inr pid, s))"

datatype patch_verdict = PatchOk | PatchTooLarge | InvalidPath

definition ValidatePatch :: "string \<Rightarrow> SelfHealingManager \<Rightarrow> heal_error + patch_verdict" where
  "ValidatePatch patchID s =
     (case get (patches s) patchID of
        None \<Rightarrow> Inl PatchNotFound
      | Some pp \<Rightarrow>
          if length (pp_Patch pp) > 1024 * 500 then Inr PatchTooLarge
          else if contains (pp_Path pp) ''..'' \<or> IsAbs (pp_Path pp) then Inr InvalidPath
          else Inr PatchOk)"

definition patch_path :: "PatchProposal \<Rightarrow> SelfHealingManager \<Rightarrow> string" where
  "patch_path pp s = Clean (Join2 (Clean (storeDir s)) (pp_Path pp))"

definition ApplyPatch ::
    "string \<Rightarrow> bool \<Rightarrow> io_error option \<Rightarrow> SelfHealingManager \<Rightarrow> (heal_error + string) \<times> SelfHealingManager" where
  "ApplyPatch patchID dryRun io s =
     (case get (patches s) patchID of
        None \<Rightarrow> (Inl PatchNotFound, s)
      | Some pp \<Rightarrow>
          if dryRun then (Inr ''dry-run applied (simulated)'', s)
          else if \<not> inside (Clean (storeDir s)) (patch_path pp s) then (Inl PatchOutsideSandbox, s)
          else
            let (err, fs) = write_atomic (patch_path pp s) (pp_Patch pp) io (files s);
                s = s\<lparr>files := fs\<rparr>
            in case err of
                 Some e \<Rightarrow> (Inl (FileError e), s)
               | None \<Rightarrow> (Inr ''applied'', s\<lparr>patches := put patchID (pp\<lparr>pp_Applied := True\<rparr>) (patches s)\<rparr>))"

section \<open>Configuration and queries\<close>

definition RegisterRepairPlugin :: "string \<Rightarrow> nat \<Rightarrow> SelfHealingManager \<Rightarrow> SelfHealingManager" where
  "RegisterRepairPlugin pid impl s = s\<lparr>repairPlugins := put pid impl (repairPlugins s)\<rparr>"

definition SetSafetyPolicy :: "SelfHealSafetyPolicy \<Rightarrow> SelfHealingManager \<Rightarrow> SelfHealingManager" where
  "SetSafetyPolicy p s = s\<lparr>safety := p\<rparr>"

definition ListActions :: "SelfHealingManager \<Rightarrow> RepairAction list" where
  "ListActions s = actions s"

definition GetActionLog :: "string \<Rightarrow> SelfHealingManager \<Rightarrow> RepairAction option" where
  "GetActionLog actionID s = find (\<lambda>a. ra_ID a = actionID) (actions s)"

definition ExportReport :: "string \<Rightarrow> SelfHealingManager \<Rightarrow> heal_error + Incident" where
  "ExportReport incidentID s =
     (case get (incidents s) incidentID of None \<Rightarrow> Inl IncidentNotFound | Some inc \<Rightarrow> Inr inc)"

definition ListEvents :: "SelfHealingManager \<Rightarrow> FailureEvent list" where
  "ListEvents s = events s"

end
