(* ===== verification/SelfHealingProps.thy ===== *)
theory SelfHealingProps
  imports SelfHealing
begin

text \<open>
  Properties of the self-healing manager: which files patches and deployments can change, how many
  deployments an hour takes, which approvals a production deployment rests on, and what a failed
  build, a tool name with dots and two failures in one second do.
\<close>

section \<open>The sandbox\<close>




definition confined :: "string \<Rightarrow> string \<Rightarrow> bool" where
  "confined base q \<longleftrightarrow> below base q \<or> q = base \<or> q = base @ ''.tmp'' \<or> q = base @ ''.tmp.tmp''"




lemma take_quota_frame:
  "take_quota now s = Some s' \<Longrightarrow>
   files s' = files s \<and> storeDir s' = storeDir s \<and> safety s' = safety s \<and> tools s' = tools s \<and> approvals s' = approvals s"
  by (auto simp: take_quota_def Let_def split: if_splits)







text \<open>
  The name of a tool is not checked in the same way: creating one whose name climbs out of the
  directory writes its source there.
\<close>

theorem tool_names_escape:
  "get (files (snd (CreateTool ''../../../etc/cron.d'' ''job'' [] None 5
     (NewSelfHealingManager ''/srv/heal'' [])))) ''/etc/cron.d/src.txt'' = Some ''job'' \<and>
   \<not> confined ''/srv/heal'' ''/etc/cron.d/src.txt''"
proof
  have "Join2 (Join2 (Join2 ''/srv/heal'' ''tools'') ''../../../etc/cron.d'') ''src.txt'' = ''/etc/cron.d/src.txt''"
    by code_simp
  then show "get (files (snd (CreateTool ''../../../etc/cron.d'' ''job'' [] None 5
     (NewSelfHealingManager ''/srv/heal'' [])))) ''/etc/cron.d/src.txt'' = Some ''job''"
    by (simp add: CreateTool_def toolsDir_def NewSelfHealingManager_def write_atomic_def map_simps)
  show "\<not> confined ''/srv/heal'' ''/etc/cron.d/src.txt''"
    by (simp add: confined_def below_def)
qed


section \<open>Histories\<close>

text \<open>
  Operations over time. The first argument collects the approvals given: tool, target, and when
  they expire.
\<close>

inductive heal_reach :: "(string \<times> string \<times> gotime) list \<Rightarrow> SelfHealingManager \<Rightarrow> bool" where
  New: "heal_reach [] (NewSelfHealingManager dir fs)"
| ReportFailure: "heal_reach G s \<Longrightarrow> heal_reach G (ReportFailure ev now s)"
| RegisterRCAHook: "heal_reach G s \<Longrightarrow> heal_reach G (RegisterRCAHook h s)"
| ApplyRepair: "heal_reach G s \<Longrightarrow> heal_reach G (snd (ApplyRepair plan actor dry ctx now s))"
| ApplyPlaybook: "heal_reach G s \<Longrightarrow> heal_reach G (snd (ApplyPlaybook pb auto dry actor now s))"
| CreateTool: "heal_reach G s \<Longrightarrow> heal_reach G (snd (CreateTool tid src md io now s))"
| ApproveDeploy: "heal_reach G s \<Longrightarrow>
    heal_reach ((tid, target, now + (if expiry \<le> 0 then 24 * Hour else expiry)) # G)
      (ApproveDeploy tid target expiry now s)"
| BuildTool: "heal_reach G s \<Longrightarrow> heal_reach G (snd (BuildTool w tid now s))"
| DeployTool: "heal_reach G s \<Longrightarrow> heal_reach G (snd (DeployTool tid target dry io ren now s))"
| ProposePatch: "heal_reach G s \<Longrightarrow> heal_reach G (snd (ProposePatch json path patch author io now s))"
| ApplyPatch: "heal_reach G s \<Longrightarrow> heal_reach G (snd (ApplyPatch pid dry io s))"
| RegisterRepairPlugin: "heal_reach G s \<Longrightarrow> heal_reach G (RegisterRepairPlugin pid impl s)"
| deployCounts_tick: "heal_reach G s \<Longrightarrow> heal_reach G (deployCounts_tick now s)"
| approval_tick: "heal_reach G s \<Longrightarrow> heal_reach G (approval_tick now s)"
| Shutdown: "heal_reach G s \<Longrightarrow> heal_reach G (Shutdown s)"
| SetSafetyPolicy: "heal_reach G s \<Longrightarrow> heal_reach G (SetSafetyPolicy p s)"

text \<open>The latest approval for a key; what the manager has on record for a key is that one.\<close>

definition latest :: "(string \<times> string \<times> gotime) list \<Rightarrow> string \<Rightarrow> (string \<times> string \<times> gotime) option" where
  "latest G k = find (\<lambda>(t, g, e). approval_key t g = k) G"

definition granted :: "(string \<times> string \<times> gotime) list \<Rightarrow> SelfHealingManager \<Rightarrow> bool" where
  "granted G s \<longleftrightarrow> wf_map (approvals s) \<and>
     (\<forall>k e. get (approvals s) k = Some e \<longrightarrow> (\<exists>t g. latest G k = Some (t, g, e)))"

lemma granted_same: "granted G s \<Longrightarrow> approvals s' = approvals s \<Longrightarrow> granted G s'"
  by (simp add: granted_def)

lemma DeployTool_approvals: "approvals (snd (DeployTool tid target dry io ren now s)) = approvals s"
proof (cases "take_quota now s")
  case None
  then show ?thesis by (simp add: DeployTool_def split: option.split)
next
  case (Some s1)
  then show ?thesis using take_quota_frame[OF Some]
    by (simp add: DeployTool_def Let_def split: option.split prod.split)
qed

lemma approvals_constant:
  "approvals (ReportFailure ev now s) = approvals s" "approvals (snd (ApplyRepair plan actor dry ctx now s)) = approvals s"
  "approvals (snd (ApplyPlaybook pb auto dry actor now s)) = approvals s"
  "approvals (snd (CreateTool tid src md io now s)) = approvals s"
  "approvals (snd (BuildTool w tid now s)) = approvals s"
  "approvals (snd (ProposePatch json path patch author io now s)) = approvals s"
  "approvals (snd (ApplyPatch pid dry io s)) = approvals s"
  "approvals (deployCounts_tick now s) = approvals s"
  by (simp_all add: ReportFailure_def ApplyRepair_def ApplyPlaybook_def CreateTool_def
      BuildTool_def ProposePatch_def ApplyPatch_def deployCounts_tick_def Let_def
      split: option.split prod.split)


lemma reach_granted: "heal_reach G s \<Longrightarrow> granted G s"
proof (induction rule: heal_reach.induct)
  case (New dir fs)
  then show ?case by (simp add: granted_def NewSelfHealingManager_def)
next
  case (ApproveDeploy G s tid target now expiry)
  then show ?case by (auto simp: granted_def ApproveDeploy_def Let_def latest_def get_put split: if_splits)
next
  case (approval_tick G s now)
  then show ?case
    by (auto simp: approval_tick_def granted_def wf_map_def distinct_map_filter get_iff_in_set[unfolded wf_map_def])
next
  case (DeployTool G s tid target dry io ren now)
  then show ?case by (auto simp: DeployTool_approvals intro: granted_same)
qed (auto simp: approvals_constant RegisterRCAHook_def RegisterRepairPlugin_def Shutdown_def SetSafetyPolicy_def
      intro: granted_same)

lemma key_unique:
  assumes "approval_key t g = approval_key t' g'" and "CHR '':'' \<notin> set t" and "CHR '':'' \<notin> set t'"
  shows "t = t' \<and> g = g'"
proof -
  have "t @ CHR '':'' # g = t' @ CHR '':'' # g'" using assms(1) by (simp add: approval_key_def)
  then have "Some (t, g) = Some (t', g')"
    using split_first_append[OF assms(2)] split_first_append[OF assms(3)] by metis
  then show ?thesis by simp
qed

text \<open>
  C6: Whatever has happened before, changes of the safety policy included: while the policy in force requires
  approvals for production, a deployment to a production target succeeds only if an approval that has not expired is
  on record under the key of the tool and the target; it is the latest one that was given under this key and, when
  the names of the tools contain no colon, it was given for this very tool and this very target.
\<close>

theorem production_needs_an_approval:
  assumes "heal_reach G s" and "sp_RequireApprovalForProd (safety s)"
    and "DeployTool tid target dry io ren now s = (Inr res, s')" and "is_prod target"
  shows "\<exists>t g e. get (approvals s) (approval_key tid target) = Some e \<and> now < e
    \<and> latest G (approval_key tid target) = Some (t, g, e)
    \<and> (CHR '':'' \<in> set tid \<or> CHR '':'' \<in> set t \<or> t = tid \<and> g = target)"
proof -
  have "isApproved tid target now s"
    using assms(2,3,4) by (auto simp: DeployTool_def split: option.splits if_splits)
  then obtain e where e: "get (approvals s) (approval_key tid target) = Some e" "now < e"
    by (auto simp: isApproved_def split: option.splits)
  then obtain t g where l: "latest G (approval_key tid target) = Some (t, g, e)"
    using reach_granted[OF assms(1)] unfolding granted_def by blast
  then have "approval_key t g = approval_key tid target" by (auto simp: latest_def find_Some_iff)
  then show ?thesis using e l key_unique[of t g tid target] by auto
qed

text \<open>With colons in names an approval of one tool passes for another.\<close>

theorem approvals_can_be_mistaken:
  "isApproved ''web:eu'' ''prod'' 7 (ApproveDeploy ''web'' ''eu:prod'' 5 3 s)"
  by (simp add: isApproved_def ApproveDeploy_def approval_key_def map_simps)

definition built_tool :: ToolMeta where
  "built_tool = \<lparr>tm_ID = ''web'', tm_Source = ''echo'', tm_Metadata = [], tm_CreatedAt = 1,
     tm_Built = True, tm_Binary = ''/srv/heal/tools/web/bin/web-0''\<rparr>"

definition world0 :: build_world where
  "world0 = \<lparr>bw_tmpdir = None, bw_run = (\<lambda>_. ('''', None)), bw_shell = (\<lambda>_. ('''', None)),
     bw_files = [(''/srv/heal/tools/web/bin/web-0'', ''bin'')],
     bw_expected = Some ''/srv/heal/tools/web/bin/web-0'', bw_executable = None\<rparr>"

definition heal1 :: SelfHealingManager where
  "heal1 = ApproveDeploy ''web'' ''prod/web'' 1000 3
     (snd (BuildTool world0 ''web'' 2 (snd (CreateTool ''web'' ''echo'' [] None 1
       (NewSelfHealingManager ''/srv/heal'' [])))))"

lemma valid_echo: "validate_source ''echo'' = Valid"
  by (simp add: validate_source_def dangerous_def HasPrefix_def)

lemma heal1:
  "heal_reach [(''web'', ''prod/web'', 1003)] heal1"
  "get (tools heal1) ''web'' = Some (built_tool)"
  "approvals heal1 = [(''web:prod/web'', 1003)]" "toolDeployCounts heal1 = []"
  "storeDir heal1 = ''/srv/heal''"
  "sp_RequireApprovalForProd (safety heal1) \<and> sp_MaxToolDeployPerHour (safety heal1) = 5"
proof -
  have "heal_reach ((''web'', ''prod/web'', 3 + (if 1000 \<le> (0::int) then 24 * Hour else 1000)) # []) heal1"
    unfolding heal1_def by (intro heal_reach.intros)
  then show "heal_reach [(''web'', ''prod/web'', 1003)] heal1" by simp
  have scan: "meta_string \<lparr>tm_ID = ''web'', tm_Source = ''echo'', tm_Metadata = [], tm_CreatedAt = 1,
     tm_Built = False, tm_Binary = ''''\<rparr> ''scanner_cmd'' = ''''" by (simp add: meta_string_def)
  note defs = heal1_def ApproveDeploy_def BuildTool_def CreateTool_def NewSelfHealingManager_def write_atomic_def
    world0_def valid_echo ValidateTool_def approval_key_def scan
  show "get (tools heal1) ''web'' = Some built_tool" by (simp add: defs built_tool_def)
  show "approvals heal1 = [(''web:prod/web'', 1003)]" by (simp add: defs)
  show "toolDeployCounts heal1 = []" by (simp add: defs)
  show "storeDir heal1 = ''/srv/heal''" by (simp add: defs)
  show "sp_RequireApprovalForProd (safety heal1) \<and> sp_MaxToolDeployPerHour (safety heal1) = 5" by (simp add: defs)
qed

lemma heal1_deploys:
  "\<exists>res s'. DeployTool ''web'' ''prod/web'' True None None 10 heal1 = (Inr res, s')"
proof -
  have p: "is_prod ''prod/web''" by code_simp
  have i: "inside (Clean ''/srv/heal'') (Join2 ''/srv/heal'' (Clean ''prod/web''))" by code_simp
  show ?thesis using p i heal1(6)
    by (simp add: DeployTool_def heal1 built_tool_def isApproved_def approval_key_def take_quota_def
        deploy_path_def)
qed

theorem production_needs_an_approval_witness:
  "\<exists>t g e. get (approvals heal1) ''web:prod/web'' = Some e \<and> (10::int) < e
     \<and> latest [(''web'', ''prod/web'', 1003)] ''web:prod/web'' = Some (t, g, e)"
proof -
  obtain res s' where d: "DeployTool ''web'' ''prod/web'' True None None 10 heal1 = (Inr res, s')"
    using heal1_deploys by blast
  have "is_prod ''prod/web''" by code_simp
  from production_needs_an_approval[OF heal1(1) _ d this] heal1(6) show ?thesis by (auto simp: approval_key_def)
qed

section \<open>The quota of deployments\<close>

text \<open>
  What happens within one hour: deployments, of which \<open>n\<close> succeed, the cleaner, and anything that
  leaves the counters and the safety policy alone.
\<close>

inductive hour_run :: "int \<Rightarrow> nat \<Rightarrow> SelfHealingManager \<Rightarrow> SelfHealingManager \<Rightarrow> bool" where
  hour_start: "hour_run h 0 s s"
| hour_deploy: "hour_run h n s s1 \<Longrightarrow> hour_of now = h \<Longrightarrow> DeployTool tid target dry io ren now s1 = (r, s2) \<Longrightarrow>
    hour_run h (case r of Inl _ \<Rightarrow> n | Inr _ \<Rightarrow> Suc n) s s2"
| hour_tick: "hour_run h n s s1 \<Longrightarrow> hour_of now = h \<Longrightarrow> hour_run h n s (deployCounts_tick now s1)"
| hour_other: "hour_run h n s s1 \<Longrightarrow> toolDeployCounts s2 = toolDeployCounts s1 \<Longrightarrow> safety s2 = safety s1 \<Longrightarrow>
    hour_run h n s s2"

lemma DeployTool_counts:
  assumes "DeployTool tid target dry io ren now s = (r, s')"
  shows "safety s' = safety s \<and>
    (toolDeployCounts s' = toolDeployCounts s \<and> isl r \<or>
     get0 (toolDeployCounts s) (hour_of now) < sp_MaxToolDeployPerHour (safety s) \<and>
     get0 (toolDeployCounts s') (hour_of now) = get0 (toolDeployCounts s) (hour_of now) + 1)"
proof (cases "take_quota now s")
  case None
  then show ?thesis using assms by (auto simp: DeployTool_def split: option.splits if_splits)
next
  case (Some s1)
  have c: "get0 (toolDeployCounts s) (hour_of now) < sp_MaxToolDeployPerHour (safety s)"
    "get0 (toolDeployCounts s1) (hour_of now) = get0 (toolDeployCounts s) (hour_of now) + 1"
    using Some by (auto simp: take_quota_def Let_def map_simps split: if_splits)
  have "s' = s \<and> isl r \<or> toolDeployCounts s' = toolDeployCounts s1 \<and> safety s' = safety s1"
    using assms Some by (auto simp: DeployTool_def Let_def split: option.splits if_splits prod.splits)
  then show ?thesis using c take_quota_frame[OF Some] by auto
qed

lemma get0_filter_key: "get0 (filter (\<lambda>(k, _). k = h) m) h = get0 m h"
  by (induction m) (auto simp: get0_def)

lemma hour_run_counts:
  assumes "hour_run h n s s'"
  shows "safety s' = safety s \<and> get0 (toolDeployCounts s) h + int n \<le> get0 (toolDeployCounts s') h \<and>
    get0 (toolDeployCounts s') h \<le> max (get0 (toolDeployCounts s) h) (sp_MaxToolDeployPerHour (safety s))"
  using assms
proof (induction rule: hour_run.induct)
  case (hour_start h s)
  then show ?case by simp
next
  case (hour_deploy h n s s1 now tid target dry io ren r s2)
  then show ?case using DeployTool_counts[OF hour_deploy.hyps(3)] by (cases r) auto
next
  case (hour_tick h n s s1 now)
  then show ?case by (simp add: deployCounts_tick_def get0_filter_key)
next
  case (hour_other h n s s1 s2)
  then show ?case by simp
qed

text \<open>
  Within one hour no more deployments succeed than the policy allows, counting those already
  made; a dry run counts, and so does an attempt that fails later.
\<close>

theorem deployments_per_hour_are_bounded:
  assumes "hour_run h n s s'" and "get0 (toolDeployCounts s) h \<le> sp_MaxToolDeployPerHour (safety s)"
  shows "int n + get0 (toolDeployCounts s) h \<le> sp_MaxToolDeployPerHour (safety s)"
  using hour_run_counts[OF assms(1)] assms(2) by auto

theorem deployments_per_hour_are_bounded_witness:
  "\<exists>s'. hour_run 0 1 heal1 s' \<and> (1::int) \<le> sp_MaxToolDeployPerHour (safety heal1)"
proof -
  obtain res s' where d: "DeployTool ''web'' ''prod/web'' True None None 10 heal1 = (Inr res, s')"
    using heal1_deploys by blast
  have "hour_of 10 = 0" by (simp add: hour_of_def Hour_def Second_def)
  from hour_run.hour_deploy[OF hour_run.hour_start this d] have r: "hour_run 0 1 heal1 s'" by simp
  then have "int 1 + get0 (toolDeployCounts heal1) 0 \<le> sp_MaxToolDeployPerHour (safety heal1)"
    using deployments_per_hour_are_bounded[OF r] heal1(6) heal1(4) by simp
  then show ?thesis using r heal1(4) by auto
qed

section \<open>Builds and incidents\<close>

text \<open>
  A build whose command fails is reported as a success, without an error, whenever some executable
  of an earlier build is still in the directory; it is that old executable that gets deployed.
\<close>

theorem a_failed_build_can_succeed:
  assumes "get (tools s) tid = Some meta" and "validate_source (tm_Source meta) = Valid"
    and "bw_tmpdir w = None" and "\<forall>c. bw_run w c = (out, Some e)"
    and "bw_expected w = None" and "bw_executable w = Some old"
  shows "\<exists>s'. BuildTool w tid now s = ((Some \<lparr>br_ToolID = tid, br_OK = True, br_Log = out\<rparr>, None), s') \<and>
    get (tools s') tid = Some (meta\<lparr>tm_Built := True, tm_Binary := old\<rparr>)"
  using assms by (simp add: BuildTool_def ValidateTool_def Let_def map_simps)

definition world1 :: build_world where
  "world1 = world0\<lparr>bw_run := (\<lambda>_. (''syntax error'', Some ''exit status 2'')), bw_expected := None,
     bw_executable := Some ''/srv/heal/tools/web/bin/web-0''\<rparr>"

theorem a_failed_build_can_succeed_witness:
  "\<exists>s'. BuildTool world1 ''web'' 9 heal1 =
     ((Some \<lparr>br_ToolID = ''web'', br_OK = True, br_Log = ''syntax error''\<rparr>, None), s')"
  using a_failed_build_can_succeed[OF heal1(2), of world1 "''syntax error''" "''exit status 2''"
      "''/srv/heal/tools/web/bin/web-0''" 9] valid_echo
  by (auto simp: world1_def world0_def built_tool_def)

text \<open>
  Two failures of one node within the same second share an incident ID: both are among the events,
  but the incident keeps the second alone.
\<close>

theorem failures_in_one_second_share_an_incident:
  assumes "fe_NodeID ev2 = fe_NodeID ev1" and "Unix now2 = Unix now1"
  shows "let s1 = ReportFailure ev1 now1 s; s2 = ReportFailure ev2 now2 s1;
      i = ''inc-'' @ fe_NodeID ev1 @ ''-'' @ dec (Unix now1)
    in map_option in_Events (get (incidents s1) i) = Some [ev1\<lparr>fe_Timestamp := now1\<rparr>] \<and>
       map_option in_Events (get (incidents s2) i) = Some [ev2\<lparr>fe_Timestamp := now2\<rparr>] \<and>
       fst ` set (incidents s2) = fst ` set (incidents s1) \<and>
       events s2 = events s @ [ev1\<lparr>fe_Timestamp := now1\<rparr>, ev2\<lparr>fe_Timestamp := now2\<rparr>]"
  using assms by (simp add: ReportFailure_def Let_def map_simps dom_update[unfolded dom_map_of_conv_image_fst])

end
