(* ===== verification/Forecast.thy ===== *)
theory Forecast
  imports GoPrelude
begin

text \<open>
  The numeric part of \<^verbatim>\<open>src/internal/scaling/predictive_scaling.go\<close>: the z-score detector, the
  fallback predictors with their moving average and linear trend, clipping by quartiles, medians
  and median smoothing. Values of float64 are exact reals here, since the detector takes a square
  root; they are numbers, never NaN, as the recorded signals are.
\<close>

section \<open>Signals\<close>

record ScalingSignal =
  sg_Service :: string
  sg_CPU :: real
  sg_RAM :: real
  sg_Timestamp :: gotime

section \<open>Detection of anomalies\<close>

record ZScoreDetector =
  zd_window :: int
  zd_threshold :: real

definition NewZScoreDetector :: "int \<Rightarrow> real \<Rightarrow> ZScoreDetector" where
  "NewZScoreDetector window threshold =
     \<lparr>zd_window = (if window \<le> 0 then 50 else window),
      zd_threshold = (if threshold \<le> 0 then 3 else threshold)\<rparr>"

definition ZScore_Detect :: "ZScoreDetector \<Rightarrow> ScalingSignal list \<Rightarrow> bool \<times> real" where
  "ZScore_Detect z history =
     (if length history < 5 then (False, 0)
      else
        let cpus = map sg_CPU history;
            mean = sum_list cpus / real (length cpus);
            sd = sqrt ((\<Sum>v\<leftarrow>cpus. (v - mean) * (v - mean)) / real (length cpus));
            latest = last cpus;
            zscore = (if sd = 0 then 0 else \<bar>(latest - mean) / sd\<bar>)
        in (zscore > zd_threshold z, zscore))"

section \<open>Fallback predictors\<close>

definition clamp :: "real \<Rightarrow> real \<Rightarrow> real \<Rightarrow> real" where
  "clamp v lo hi = (if v < lo then lo else if v > hi then hi else v)"

text \<open>The loop runs from the last but one value down to the first.\<close>

definition moving_average :: "real \<Rightarrow> real list \<Rightarrow> real" where
  "moving_average alpha vs =
     foldl (\<lambda>ema v. alpha * v + (1 - alpha) * ema) (last vs) (rev (butlast vs))"

definition simpleLinearSlope :: "ScalingSignal list \<Rightarrow> (ScalingSignal \<Rightarrow> real) \<Rightarrow> real" where
  "simpleLinearSlope history val =
     (let n = length history
      in if n < 2 then 0
         else
           let sumX = (\<Sum>i<n. real i);
               sumY = (\<Sum>i<n. val (history ! i));
               sumXY = (\<Sum>i<n. real i * val (history ! i));
               sumXX = (\<Sum>i<n. real i * real i);
               den = real n * sumXX - sumX * sumX
           in if den = 0 then 0 else (real n * sumXY - sumX * sumY) / den)"

definition fallbackPredictCPU :: "ScalingSignal list \<Rightarrow> real \<Rightarrow> real" where
  "fallbackPredictCPU history alpha =
     (if history = [] then 1 / 10
      else
        let alpha = (if alpha \<le> 0 \<or> alpha > 1 then 1 / 4 else alpha);
            ema = moving_average alpha (map sg_CPU history);
            trend = simpleLinearSlope history sg_CPU;
            forecast = ema + trend * 1;
            forecast = (if forecast < 0 then 0 else forecast)
        in if forecast > 4 then 4 else forecast)"

definition fallbackPredictRAM :: "ScalingSignal list \<Rightarrow> real \<Rightarrow> real" where
  "fallbackPredictRAM history alpha =
     (if history = [] then 128
      else
        let alpha = (if alpha \<le> 0 \<or> alpha > 1 then 1 / 4 else alpha);
            ema = moving_average alpha (map sg_RAM history);
            trend = simpleLinearSlope history sg_RAM;
            forecast = ema + trend * 1;
            forecast = (if forecast < 0 then 0 else forecast)
        in if forecast > 10 ^ 7 then 10 ^ 7 else forecast)"

section \<open>Order statistics\<close>

definition percentile :: "real list \<Rightarrow> real \<Rightarrow> real" where
  "percentile s p =
     (if s = [] then 0
      else if p \<le> 0 then s ! 0
      else if p \<ge> 100 then s ! (length s - 1)
      else
        let pos = (p / 100) * real (length s - 1);
            lower = nat (floor pos); upper = nat (ceiling pos)
        in if lower = upper then s ! lower
           else let frac = pos - real lower in s ! lower * (1 - frac) + s ! upper * frac)"

definition iqrBounds :: "real list \<Rightarrow> real \<Rightarrow> real \<times> real" where
  "iqrBounds vals factor =
     (if vals = [] then (0, 0)
      else
        let s = sort vals; q1 = percentile s 25; q3 = percentile s 75; iqr = q3 - q1
        in (q1 - factor * iqr, q3 + factor * iqr))"

definition clip :: "real \<times> real \<Rightarrow> real \<Rightarrow> real" where
  "clip b c = (if c < fst b then fst b else if c > snd b then snd b else c)"

definition clipOutliers :: "ScalingSignal list \<Rightarrow> real \<Rightarrow> ScalingSignal list" where
  "clipOutliers history factor =
     (if length history < 4 then history
      else
        let cpu = iqrBounds (map sg_CPU history) factor;
            ram = iqrBounds (map sg_RAM history) factor
        in map (\<lambda>s. s\<lparr>sg_CPU := clip cpu (sg_CPU s), sg_RAM := clip ram (sg_RAM s)\<rparr>) history)"

definition median :: "real list \<Rightarrow> real" where
  "median vals =
     (if vals = [] then 0
      else
        let s = sort vals; n = length s
        in if n mod 2 = 1 then s ! (n div 2) else (s ! (n div 2 - 1) + s ! (n div 2)) / 2)"

definition medianSmooth :: "ScalingSignal list \<Rightarrow> int \<Rightarrow> ScalingSignal list" where
  "medianSmooth history window =
     (if window \<le> 1 \<or> int (length history) \<le> window then history
      else
        map (\<lambda>i.
          let win = drop (Suc i - nat window) (take (Suc i) history);
              s = history ! i
          in s\<lparr>sg_CPU := median (map sg_CPU win), sg_RAM := median (map sg_RAM win)\<rparr>)
        [0..<length history])"

end
