(* ===== verification/ScalerParts.thy ===== *)
theory ScalerParts
  imports Forecast GoPath "HOL-Library.Word"
begin

text \<open>
  The parts that \<^verbatim>\<open>src/internal/scaling/predictive_scaling.go\<close> plugs into its scaler: placements and their
  latencies, the adjustment of thresholds to the hour, the verifiers of attestation tokens, the
  learner, the stores and leader electors, the node registry and the client of a remote predictor.
  HMAC-SHA256 in hex and the parser of RFC 3339 times are parameters (standard library); answers of
  the operating system, of Redis and of HTTP are arguments.
\<close>

section \<open>Topology\<close>

record Topology =
  serviceToNodes :: "(string, (string, int) gomap) gomap"
  nodeLatencyHist :: "(string, real list) gomap"

definition NewTopology :: Topology where
  "NewTopology = \<lparr>serviceToNodes = [], nodeLatencyHist = []\<rparr>"

definition RecordPlacement :: "string \<Rightarrow> string \<Rightarrow> real \<Rightarrow> Topology \<Rightarrow> Topology" where
  "RecordPlacement service nodeID latencyMs t =
     (let nodes = (case get (serviceToNodes t) service of None \<Rightarrow> [] | Some m \<Rightarrow> m);
          t = t\<lparr>serviceToNodes := put service (put nodeID (get0 nodes nodeID + 1) nodes) (serviceToNodes t)\<rparr>
      in if latencyMs \<ge> 0 then
           let hist = (case get (nodeLatencyHist t) nodeID of None \<Rightarrow> [] | Some h \<Rightarrow> h) @ [latencyMs];
               hist = (if length hist > 500 then drop (length hist - 500) hist else hist)
           in t\<lparr>nodeLatencyHist := put nodeID hist (nodeLatencyHist t)\<rparr>
         else t)"

definition ScoreNodeForService :: "string \<Rightarrow> string \<Rightarrow> Topology \<Rightarrow> real" where
  "ScoreNodeForService service nodeID t =
     (let count = (case get (serviceToNodes t) service of None \<Rightarrow> 0 | Some m \<Rightarrow> get0 m nodeID);
          lat = (case get (nodeLatencyHist t) nodeID of
                   None \<Rightarrow> 1000
                 | Some h \<Rightarrow> if h = [] then 1000 else sum_list h / real (length h))
      in of_int count / ln (lat + 2))"

section \<open>Configuration\<close>

record Config =
  cf_WindowSize :: int
  cf_EMAAlpha :: real
  cf_Horizon :: duration
  cf_CPUCritical :: real
  cf_RAMCritical :: real
  cf_MinCPU :: real
  cf_MinRAM :: real
  cf_PersistenceFile :: string
  cf_PersistInterval :: duration
  cf_DryRun :: bool
  cf_EnableAutoBootstrap :: bool
  cf_MaxBackoff :: duration
  cf_BaseBackoff :: duration
  cf_OutlierIQRFactor :: real
  cf_MedianWindow :: int
  cf_CostThreshold :: real
  cf_MaxAttempts :: int
  cf_BootstrapsPerHour :: int
  cf_LeaderLockFile :: string
  cf_InfraControllerURL :: string
  cf_InfraControllerAPIKey :: string
  cf_RedisAddr :: string
  cf_RedisLeaderKey :: string

text \<open>The zero time is a Monday; Sunday is day 0.\<close>

definition hour_of_day :: "gotime \<Rightarrow> int" where
  "hour_of_day now = (now div Hour) mod 24"

definition weekday :: "gotime \<Rightarrow> int" where
  "weekday now = (now div (24 * Hour) + 1) mod 7"

definition DefaultPolicyAdjuster_AdjustFor ::
    "string \<Rightarrow> (string, any) gomap \<Rightarrow> gotime \<Rightarrow> Config \<Rightarrow> Config" where
  "DefaultPolicyAdjuster_AdjustFor service meta now base =
     (let h = hour_of_day now; wd = weekday now;
          out = (if h \<ge> 8 \<and> h \<le> 18 \<and> wd \<ge> 1 \<and> wd \<le> 5 then
                   base\<lparr>cf_CPUCritical := max (6/10) (cf_CPUCritical base - 1/10),
                        cf_RAMCritical := max 1024 (cf_RAMCritical base * (9/10))\<rparr>
                 else
                   base\<lparr>cf_CPUCritical := min (95/100) (cf_CPUCritical base + 5/100),
                        cf_RAMCritical := cf_RAMCritical base * (11/10)\<rparr>)
      in if get meta ''user_type'' = Some (AStr ''premium'')
         then out\<lparr>cf_CPUCritical := max (1/2) (cf_CPUCritical out - 15/100)\<rparr>
         else out)"

section \<open>Verification of nodes\<close>

record scaling_lib =
  hmac_hex :: "string \<Rightarrow> string \<Rightarrow> string"     \<comment> \<open>secret and message to hexadecimal digits\<close>
  ParseRFC3339 :: "string \<Rightarrow> gotime option"

type_synonym evidence = "(string, any) gomap"

definition NoopVerifier_Verify :: "string \<Rightarrow> evidence \<Rightarrow> bool \<times> string" where
  "NoopVerifier_Verify targetNode evidence = (False, ''noop-verifier-not-allowed'')"

definition AttestationVerifier_Verify ::
    "(string, bool) gomap option \<Rightarrow> string \<Rightarrow> evidence \<Rightarrow> bool \<times> string" where
  "AttestationVerifier_Verify acceptList targetNode evidence =
     (case get evidence ''attestation_token'' of
        Some (AStr token) \<Rightarrow>
          if token = '''' then (False, ''no-token'')
          else (case acceptList of
                  None \<Rightarrow> (True, ''token-ok'')
                | Some l \<Rightarrow> if has_key l targetNode then (True, ''token-ok'')
                           else (False, ''node not in accept list''))
      | _ \<Rightarrow> (False, ''no-token''))"

text \<open>The position of the first occurrence, or \<open>- 1\<close>.\<close>

fun stringsIndex :: "string \<Rightarrow> string \<Rightarrow> int" where
  "stringsIndex [] sep = (if sep = [] then 0 else - 1)"
| "stringsIndex (c # cs) sep =
     (if HasPrefix (c # cs) sep then 0
      else let i = stringsIndex cs sep in if i = - 1 then - 1 else i + 1)"

definition indexOf :: "string \<Rightarrow> string \<Rightarrow> int \<Rightarrow> int" where
  "indexOf s sep start =
     (if start \<ge> int (length s) then - 1
      else let idx = start + stringsIndex (drop (nat start) s) sep
           in if idx < start then - 1 else idx)"

fun splitN_loop :: "nat \<Rightarrow> string \<Rightarrow> string \<Rightarrow> int \<Rightarrow> string list" where
  "splitN_loop 0 s sep start = [drop (nat start) s]"
| "splitN_loop (Suc k) s sep start =
     (let idx = indexOf s sep start
      in if idx = - 1 then [drop (nat start) s]
         else drop (nat start) (take (nat idx) s) # splitN_loop k s sep (idx + int (length sep)))"

definition splitN :: "string \<Rightarrow> string \<Rightarrow> int \<Rightarrow> string list" where
  "splitN s sep n = splitN_loop (nat (n - 1)) s sep 0"

record HMACVerifier =
  hv_Secret :: string
  hv_MaxTokenAge :: duration
  hv_AllowSkew :: duration

definition NewHMACVerifier :: "string \<Rightarrow> HMACVerifier" where
  "NewHMACVerifier secret =
     \<lparr>hv_Secret = secret, hv_MaxTokenAge = 300 * Second, hv_AllowSkew = 60 * Second\<rparr>"

definition check_mac ::
    "scaling_lib \<Rightarrow> HMACVerifier \<Rightarrow> string \<Rightarrow> string \<Rightarrow> string \<Rightarrow> gotime \<Rightarrow> bool \<times> string" where
  "check_mac lib h targetNode hexmac tsStr now =
     (case ParseRFC3339 lib tsStr of
        None \<Rightarrow> (False, ''invalid timestamp'')
      | Some ts \<Rightarrow>
          if now - ts > hv_MaxTokenAge h + hv_AllowSkew h then (False, ''token expired'')
          else if hmac_hex lib (hv_Secret h) (targetNode @ '':'' @ tsStr) \<noteq> hexmac
          then (False, ''hmac mismatch'')
          else (True, ''hmac-ok''))"

definition HMACVerifier_Verify ::
    "scaling_lib \<Rightarrow> HMACVerifier \<Rightarrow> string \<Rightarrow> evidence \<Rightarrow> gotime \<Rightarrow> bool \<times> string" where
  "HMACVerifier_Verify lib h targetNode evidence now =
     (case get evidence ''attestation_token'' of
        Some (AStr raw) \<Rightarrow>
          if raw = '''' then (False, ''missing token'')
          else (case splitN raw '':'' 3 of
                  [hexmac, tsStr] \<Rightarrow> check_mac lib h targetNode hexmac tsStr now
                | [hexmac, node, tsStr] \<Rightarrow>
                    if node \<noteq> '''' \<and> targetNode \<noteq> '''' \<and> node \<noteq> targetNode then (False, ''node mismatch'')
                    else check_mac lib h targetNode hexmac tsStr now
                | _ \<Rightarrow> (False, ''token malformed''))
      | _ \<Rightarrow> (False, ''missing token''))"

text \<open>The implementations of the interface, and one from outside.\<close>

datatype ZeroTrustVerifier =
    NoopVerifier
  | AttestationVerifier "(string, bool) gomap option"
  | HMAC HMACVerifier
  | OtherVerifier "string \<Rightarrow> evidence \<Rightarrow> gotime \<Rightarrow> bool \<times> string"

fun Verify :: "scaling_lib \<Rightarrow> ZeroTrustVerifier \<Rightarrow> string \<Rightarrow> evidence \<Rightarrow> gotime \<Rightarrow> bool \<times> string" where
  "Verify lib NoopVerifier target ev now = NoopVerifier_Verify target ev"
| "Verify lib (AttestationVerifier l) target ev now = AttestationVerifier_Verify l target ev"
| "Verify lib (HMAC h) target ev now = HMACVerifier_Verify lib h target ev now"
| "Verify lib (OtherVerifier f) target ev now = f target ev now"

section \<open>The learner\<close>

record ReinforcementLearner =
  rl_alpha :: real
  rl_horizonSeconds :: real
  rl_learningRate :: real
  rl_bestReward :: real
  rl_epsilon :: real
  rl_updates :: "(gotime \<times> string \<times> real \<times> real \<times> real) list"

definition NewReinforcementLearner :: "real \<Rightarrow> duration \<Rightarrow> ReinforcementLearner" where
  "NewReinforcementLearner alpha horizon =
     \<lparr>rl_alpha = (if alpha \<le> 0 \<or> alpha > 1 then 1/4 else alpha),
      rl_horizonSeconds = of_int horizon / 1000000000,
      rl_learningRate = 5/100, rl_bestReward = - (10 ^ 9), rl_epsilon = 1/10, rl_updates = []\<rparr>"

definition Suggest :: "ReinforcementLearner \<Rightarrow> real \<times> duration" where
  "Suggest r = (rl_alpha r,
     (if rl_horizonSeconds r \<ge> 0 then \<lfloor>rl_horizonSeconds r\<rfloor> else \<lceil>rl_horizonSeconds r\<rceil>) * Second)"

text \<open>A clock reading, a uniform random number and two normal ones.\<close>

record readings =
  rd_now :: gotime
  rd_uniform :: real
  rd_normal1 :: real
  rd_normal2 :: real

definition RL_Update :: "string \<Rightarrow> real \<Rightarrow> readings \<Rightarrow> ReinforcementLearner \<Rightarrow> ReinforcementLearner" where
  "RL_Update service reward rd r =
     (let r = (if reward > rl_bestReward r then
                 r\<lparr>rl_bestReward := reward,
                   rl_alpha := rl_alpha r * (1 - rl_learningRate r) +
                     rl_learningRate r * (rl_alpha r * (1 + 2/100)),
                   rl_horizonSeconds := rl_horizonSeconds r * (1 - rl_learningRate r * (1/10))\<rparr>
               else if rd_uniform rd < rl_epsilon r then
                 r\<lparr>rl_alpha := clamp (rl_alpha r * (1 + rd_normal1 rd * (2/100))) (5/100) (95/100),
                   rl_horizonSeconds :=
                     clamp (rl_horizonSeconds r * (1 + rd_normal2 rd * (5/100))) 1 3600\<rparr>
               else r)
      in r\<lparr>rl_updates := rl_updates r @ [(rd_now rd, service, rl_alpha r, rl_horizonSeconds r, reward)]\<rparr>)"

section \<open>The file store\<close>

text \<open>Each system call may fail; a failed write can leave any content in the temporary file.\<close>

datatype store_error = WriteFailed | RenameFailed | ReadFailed | NoStore

definition FileStore_Save ::
    "string \<Rightarrow> 'd \<Rightarrow> 'd option option \<Rightarrow> bool \<Rightarrow> (string, 'd) gomap
      \<Rightarrow> store_error option \<times> (string, 'd) gomap" where
  "FileStore_Save path data write_failure rename_failure fs =
     (let tmp = path @ ''.tmp''
      in case write_failure of
           Some left_over \<Rightarrow>
             (Some WriteFailed, case left_over of None \<Rightarrow> fs | Some d \<Rightarrow> put tmp d fs)
         | None \<Rightarrow>
             if rename_failure then (Some RenameFailed, put tmp data fs)
             else (None, put path data (del tmp fs)))"

definition FileStore_Load :: "string \<Rightarrow> (string, 'd) gomap \<Rightarrow> store_error + 'd" where
  "FileStore_Load path fs = (case get fs path of None \<Rightarrow> Inl ReadFailed | Some d \<Rightarrow> Inr d)"

section \<open>Leader electors\<close>

text \<open>
  Locks of the operating system, by path, with the open file that holds them; opening may fail.
  Each acquisition opens a file of its own, named here by a fresh number.
\<close>

record FileLeaderElector =
  fe_path :: string
  fe_f :: "nat option"
  fe_isLead :: bool

definition NewFileLeaderElector :: "string \<Rightarrow> FileLeaderElector" where
  "NewFileLeaderElector path = \<lparr>fe_path = path, fe_f = None, fe_isLead = False\<rparr>"

type_synonym flocks = "(string, nat) gomap"

definition FileLE_Acquire ::
    "bool \<Rightarrow> nat \<Rightarrow> FileLeaderElector \<Rightarrow> flocks \<Rightarrow> (bool \<times> bool) \<times> FileLeaderElector \<times> flocks" where
  "FileLE_Acquire open_fails f fe locks =
     (if open_fails then ((False, True), fe, locks)
      else if has_key locks (fe_path fe) then ((False, False), fe, locks)
      else ((True, False), fe\<lparr>fe_f := Some f, fe_isLead := True\<rparr>, put (fe_path fe) f locks))"

definition FileLE_Release :: "FileLeaderElector \<Rightarrow> flocks \<Rightarrow> FileLeaderElector \<times> flocks" where
  "FileLE_Release fe locks =
     (case fe_f fe of
        None \<Rightarrow> (fe, locks)
      | Some f \<Rightarrow>
          (fe\<lparr>fe_f := None, fe_isLead := False\<rparr>,
           if get locks (fe_path fe) = Some f then del (fe_path fe) locks else locks))"

text \<open>
  The elector over Redis, with the answers of the server as arguments. A renewer is known by the
  number of its context; \<open>re_cancel\<close> is the context that the last successful acquisition stored.
\<close>

record RedisLeaderElector =
  re_ownerID :: string
  re_isLeader :: bool
  re_renewers :: "nat list"
  re_cancel :: "nat option"

definition NewRedisLeaderElector :: "string \<Rightarrow> RedisLeaderElector" where
  "NewRedisLeaderElector owner =
     \<lparr>re_ownerID = owner, re_isLeader = False, re_renewers = [], re_cancel = None\<rparr>"

datatype setnx_answer = SetNXError | KeyHeld | KeySet

definition RedisLE_Acquire ::
    "setnx_answer \<Rightarrow> nat \<Rightarrow> RedisLeaderElector \<Rightarrow> (bool \<times> bool) \<times> RedisLeaderElector" where
  "RedisLE_Acquire answer ctx r =
     (case answer of
        SetNXError \<Rightarrow> ((False, True), r)
      | KeyHeld \<Rightarrow> ((False, False), r)
      | KeySet \<Rightarrow>
          ((True, False),
           r\<lparr>re_isLeader := True, re_renewers := re_renewers r @ [ctx], re_cancel := Some ctx\<rparr>))"

text \<open>One tick of a renewer: \<open>None\<close> is an error or an absent key. The flag is whether the key is refreshed.\<close>

definition renewer_tick ::
    "nat \<Rightarrow> string option \<Rightarrow> RedisLeaderElector \<Rightarrow> bool \<times> RedisLeaderElector" where
  "renewer_tick ctx answer r =
     (if ctx \<notin> set (re_renewers r) then (False, r)
      else if answer = Some (re_ownerID r) then (True, r)
      else (False, r\<lparr>re_isLeader := False, re_renewers := remove1 ctx (re_renewers r)\<rparr>))"

definition RedisLE_Release :: "RedisLeaderElector \<Rightarrow> RedisLeaderElector" where
  "RedisLE_Release r =
     (let r = (case re_cancel r of
                 None \<Rightarrow> r
               | Some ctx \<Rightarrow> r\<lparr>re_renewers := removeAll ctx (re_renewers r)\<rparr>)
      in r\<lparr>re_isLeader := False\<rparr>)"

section \<open>Nodes\<close>

record Node =
  nd_ID :: string
  nd_CPUAvailable :: real
  nd_RAMAvailable :: real
  nd_Region :: string
  nd_Labels :: "(string, string) gomap"

text \<open>Requirements are numbers here; an absent one counts as 0.\<close>

definition RegisterNode :: "Node \<Rightarrow> Node list \<Rightarrow> Node list" where
  "RegisterNode n nodes = nodes @ [n]"

definition ListNodes :: "Node list \<Rightarrow> Node list" where
  "ListNodes nodes = nodes"

definition SelectNode :: "Node list \<Rightarrow> (string, real) gomap \<Rightarrow> string option" where
  "SelectNode nodes requirements =
     (let reqCPU = get0 requirements ''cpu''; reqRAM = get0 requirements ''ram''
      in map_option nd_ID
           (find (\<lambda>n. nd_CPUAvailable n \<ge> reqCPU \<and> nd_RAMAvailable n \<ge> reqRAM) nodes))"

section \<open>HTTP clients\<close>

datatype http_answer =
    HTTPError string
  | HTTPStatus int "(real \<times> real) option"   \<comment> \<open>status and decoded body\<close>

definition AutoBootstrapHTTP :: "string \<Rightarrow> http_answer \<Rightarrow> string option" where
  "AutoBootstrapHTTP controllerURL answer =
     (if controllerURL = '''' then Some ''no infra controller configured''
      else case answer of
        HTTPError e \<Rightarrow> Some e
      | HTTPStatus code b \<Rightarrow> if code \<noteq> 200 then Some ''controller status'' else None)"

record RemotePredictor =
  rp_MaxRetries :: int
  rp_BaseDelay :: duration
  rp_MaxDelay :: duration

text \<open>The conversion of a float64 to an int64 saturates on out-of-range values as amd64 does.\<close>

definition to_int64 :: "real \<Rightarrow> int" where
  "to_int64 x =
     (let n = (if x \<ge> 0 then \<lfloor>x\<rfloor> else \<lceil>x\<rceil>)
      in if - (2 ^ 63) \<le> n \<and> n < 2 ^ 63 then n else - (2 ^ 63))"

definition retry_delay :: "duration \<Rightarrow> duration \<Rightarrow> nat \<Rightarrow> duration" where
  "retry_delay base maxd attempt =
     (let sleep = to_int64 (of_int base * 2 ^ attempt) in if sleep > maxd then maxd else sleep)"

text \<open>Go's integer division truncates; rand.Int63n panics for an argument that is not positive.\<close>

definition jitter_panics :: "duration \<Rightarrow> bool" where
  "jitter_panics sleep \<longleftrightarrow> sleep < 4"

definition answer_of :: "http_answer \<Rightarrow> string + real \<times> real" where
  "answer_of a =
     (case a of
        HTTPError e \<Rightarrow> Inl e
      | HTTPStatus code b \<Rightarrow>
          if code \<noteq> 200 then Inl ''remote predictor status''
          else case b of None \<Rightarrow> Inl ''decode'' | Some r \<Rightarrow> Inr r)"

text \<open>The state of the loop is the list of delays slept; \<open>k\<close> attempts are left after this one.\<close>

fun predict_loop ::
    "duration \<Rightarrow> duration \<Rightarrow> (nat \<Rightarrow> http_answer) \<Rightarrow> nat \<Rightarrow> nat \<Rightarrow> duration list
      \<Rightarrow> (string + real \<times> real, duration list) outcome" where
  "predict_loop base maxd answer attempt k slept =
     (case answer_of (answer attempt) of
        Inr r \<Rightarrow> Returned (Inr r) slept
      | Inl e \<Rightarrow>
          let sleep = retry_delay base maxd attempt
          in if jitter_panics sleep then Panicked slept
             else (case k of
                     0 \<Rightarrow> Returned (Inl e) (slept @ [sleep])
                   | Suc k' \<Rightarrow> predict_loop base maxd answer (Suc attempt) k' (slept @ [sleep])))"

definition RemotePredictor_Predict ::
    "RemotePredictor \<Rightarrow> (nat \<Rightarrow> http_answer) \<Rightarrow> (string + real \<times> real, duration list) outcome" where
  "RemotePredictor_Predict r answer =
     (let tries = (if rp_MaxRetries r \<le> 0 then 3 else rp_MaxRetries r);
          base = (if rp_BaseDelay r = 0 then 500 * Millisecond else rp_BaseDelay r);
          maxd = (if rp_MaxDelay r = 0 then 5 * Second else rp_MaxDelay r)
      in predict_loop base maxd answer 0 (nat tries) [])"

end
