(* ===== verification/Scaler.thy ===== *)
theory Scaler
  imports ScalerParts
begin

text \<open>
  The predictive scaler of \<^verbatim>\<open>src/internal/scaling/predictive_scaling.go\<close>. A prediction runs in the
  caller and may launch a goroutine, the bootstrap: its first part picks and verifies a node and,
  unless it is a dry run, calls the controller; its second part runs when that call has returned.
  PredictAndScale is composed of the critical sections that the code has, so that they can be
  interleaved. The predictor, the node selector, the cost estimator and an anomaly detector from
  outside are parameters; a nil policy adjuster or a nil learner panics where the code uses it.
\<close>

section \<open>State\<close>

type_synonym Predictor = "ScalingSignal list \<Rightarrow> duration \<Rightarrow> real \<times> real \<times> string option"

record CostEstimator =
  EstimateCost :: "(string, real) gomap \<Rightarrow> real"
  EstimatePenalty :: "string \<Rightarrow> real \<Rightarrow> real \<Rightarrow> real"

datatype LeaderElector =
    FileElector FileLeaderElector
  | RedisElector RedisLeaderElector
  | OtherElector bool

fun IsLeader :: "LeaderElector \<Rightarrow> bool" where
  "IsLeader (FileElector fe) \<longleftrightarrow> fe_isLead fe"
| "IsLeader (RedisElector re) \<longleftrightarrow> re_isLeader re"
| "IsLeader (OtherElector b) \<longleftrightarrow> b"

datatype Store = RedisStore | FileStore string | OtherStore

record PredictiveScaler =
  history :: "(string, ScalingSignal list) gomap"
  inFlight :: "(string, bool) gomap"
  lastTriggered :: "(string, gotime) gomap"
  attempts :: "(string, int) gomap"
  rateWindowStart :: "(string, gotime) gomap"
  rateCount :: "(string, int) gomap"
  autoBootstrap :: bool                         \<comment> \<open>a bootstrap function is set\<close>
  predictor :: "Predictor option"
  cfg :: Config
  nodeSelector :: "((string, real) gomap \<Rightarrow> string option) option"
  costEstimator :: "CostEstimator option"
  persistStopped :: bool
  leaderElector :: "LeaderElector option"
  store :: "Store option"
  anomalyDetector :: "(ScalingSignal list \<Rightarrow> bool \<times> real) option"
  topology :: Topology
  policyAdjuster :: "(string \<Rightarrow> (string, any) gomap \<Rightarrow> gotime \<Rightarrow> Config \<Rightarrow> Config) option"
  zeroTrust :: "ZeroTrustVerifier option"
  rlLearner :: "ReinforcementLearner option"
  ops :: "64 word"

section \<open>Persistence\<close>

text \<open>A map is \<open>None\<close> when the decoded file has none.\<close>

record persistedState =
  st_History :: "(string, ScalingSignal list) gomap option"
  st_Attempts :: "(string, int) gomap option"
  st_RateWindowStart :: "(string, gotime) gomap option"
  st_RateCount :: "(string, int) gomap option"
  st_RLAlpha :: real
  st_RLHorizon :: real
  st_TopologySvcToNodes :: "(string, (string, int) gomap) gomap"
  st_NodeLatencyHist :: "(string, real list) gomap"

definition state_of :: "PredictiveScaler \<Rightarrow> ReinforcementLearner \<Rightarrow> persistedState" where
  "state_of ps r =
     \<lparr>st_History = Some (history ps), st_Attempts = Some (attempts ps),
      st_RateWindowStart = Some (rateWindowStart ps), st_RateCount = Some (rateCount ps),
      st_RLAlpha = rl_alpha r, st_RLHorizon = rl_horizonSeconds r,
      st_TopologySvcToNodes = serviceToNodes (topology ps), st_NodeLatencyHist = nodeLatencyHist (topology ps)\<rparr>"

text \<open>What is handed to Save of the store; a nil learner panics.\<close>

definition saveStateToStore ::
    "PredictiveScaler \<Rightarrow> (store_error + persistedState, PredictiveScaler) outcome" where
  "saveStateToStore ps =
     (if store ps = None then Returned (Inl NoStore) ps
      else case rlLearner ps of
        None \<Rightarrow> Panicked ps
      | Some r \<Rightarrow> Returned (Inr (state_of ps r)) ps)"

definition kept :: "'a option \<Rightarrow> 'a \<Rightarrow> 'a" where
  "kept new old = (case new of None \<Rightarrow> old | Some m \<Rightarrow> m)"

definition loadStateFromStore ::
    "store_error + persistedState \<Rightarrow> PredictiveScaler \<Rightarrow> store_error option \<times> PredictiveScaler" where
  "loadStateFromStore loaded ps =
     (if store ps = None then (Some NoStore, ps)
      else case loaded of
        Inl e \<Rightarrow> (Some e, ps)
      | Inr state \<Rightarrow>
          (let learn = (\<lambda>r. r\<lparr>rl_alpha := (if st_RLAlpha state > 0 then st_RLAlpha state else rl_alpha r),
                 rl_horizonSeconds :=
                   (if st_RLHorizon state > 0 then st_RLHorizon state else rl_horizonSeconds r)\<rparr>)
           in (None, ps\<lparr>history := kept (st_History state) (history ps),
                attempts := kept (st_Attempts state) (attempts ps),
                rateWindowStart := kept (st_RateWindowStart state) (rateWindowStart ps),
                rateCount := kept (st_RateCount state) (rateCount ps),
                rlLearner := map_option learn (rlLearner ps),
                topology := \<lparr>serviceToNodes = st_TopologySvcToNodes state,
                             nodeLatencyHist = st_NodeLatencyHist state\<rparr>\<rparr>)))"

section \<open>Construction\<close>

definition with_defaults :: "Config \<Rightarrow> Config" where
  "with_defaults c =
     (let c = (if cf_WindowSize c \<le> 0 then c\<lparr>cf_WindowSize := 200\<rparr> else c);
          c = (if cf_EMAAlpha c \<le> 0 \<or> cf_EMAAlpha c > 1 then c\<lparr>cf_EMAAlpha := 1/4\<rparr> else c);
          c = (if cf_Horizon c = 0 then c\<lparr>cf_Horizon := 60 * Second\<rparr> else c);
          c = (if cf_BaseBackoff c = 0 then c\<lparr>cf_BaseBackoff := 10 * Second\<rparr> else c);
          c = (if cf_MaxBackoff c = 0 then c\<lparr>cf_MaxBackoff := 1800 * Second\<rparr> else c);
          c = (if cf_OutlierIQRFactor c = 0 then c\<lparr>cf_OutlierIQRFactor := 3/2\<rparr> else c);
          c = (if cf_PersistInterval c = 0 then c\<lparr>cf_PersistInterval := 30 * Second\<rparr> else c);
          c = (if cf_MaxAttempts c = 0 then c\<lparr>cf_MaxAttempts := 5\<rparr> else c);
          c = (if cf_BootstrapsPerHour c = 0 then c\<lparr>cf_BootstrapsPerHour := 6\<rparr> else c)
      in if \<not> cf_EnableAutoBootstrap c then c\<lparr>cf_DryRun := True\<rparr> else c)"

text \<open>
  \<open>loaded\<close> is what the store answers, \<open>granted\<close> whether the lock file was locked, \<open>owner\<close> the ID of
  a new Redis elector. Its acquisition and the loop of saves start in goroutines of their own.
\<close>

definition NewPredictiveScaler ::
    "Config \<Rightarrow> Predictor option \<Rightarrow> bool \<Rightarrow> ((string, real) gomap \<Rightarrow> string option) option
      \<Rightarrow> CostEstimator option \<Rightarrow> store_error + persistedState \<Rightarrow> bool \<Rightarrow> string \<Rightarrow> PredictiveScaler" where
  "NewPredictiveScaler c pred bf selector cost loaded granted owner =
     (let c = with_defaults c;
          ps = \<lparr>history = [], inFlight = [], lastTriggered = [], attempts = [], rateWindowStart = [],
                rateCount = [], autoBootstrap = bf, predictor = pred, cfg = c,
                nodeSelector = selector, costEstimator = cost, persistStopped = False,
                leaderElector = None, store = None,
                anomalyDetector = Some (ZScore_Detect (NewZScoreDetector 50 3)),
                topology = NewTopology, policyAdjuster = Some DefaultPolicyAdjuster_AdjustFor,
                zeroTrust = Some NoopVerifier,
                rlLearner = Some (NewReinforcementLearner (cf_EMAAlpha c) (cf_Horizon c)), ops = 0\<rparr>
      in if cf_RedisAddr c \<noteq> '''' then
           ps\<lparr>store := Some RedisStore,
              leaderElector := (if cf_RedisLeaderKey c \<noteq> ''''
                then Some (RedisElector (NewRedisLeaderElector owner)) else None)\<rparr>
         else
           let ps = (if cf_PersistenceFile c \<noteq> ''''
                     then snd (loadStateFromStore loaded (ps\<lparr>store := Some (FileStore (cf_PersistenceFile c))\<rparr>))
                     else ps)
           in if cf_LeaderLockFile c \<noteq> ''''
              then ps\<lparr>leaderElector := Some (FileElector (if granted
                     then (NewFileLeaderElector (cf_LeaderLockFile c))\<lparr>fe_f := Some 0, fe_isLead := True\<rparr>
                     else NewFileLeaderElector (cf_LeaderLockFile c)))\<rparr>
              else ps)"

section \<open>Setters\<close>

definition SetAnomalyDetector :: "(ScalingSignal list \<Rightarrow> bool \<times> real) option \<Rightarrow> PredictiveScaler \<Rightarrow> PredictiveScaler" where
  "SetAnomalyDetector a ps = ps\<lparr>anomalyDetector := a\<rparr>"

definition SetPolicyAdjuster ::
    "(string \<Rightarrow> (string, any) gomap \<Rightarrow> gotime \<Rightarrow> Config \<Rightarrow> Config) option \<Rightarrow> PredictiveScaler \<Rightarrow> PredictiveScaler" where
  "SetPolicyAdjuster p ps = ps\<lparr>policyAdjuster := p\<rparr>"

definition SetZeroTrustVerifier :: "ZeroTrustVerifier option \<Rightarrow> PredictiveScaler \<Rightarrow> PredictiveScaler" where
  "SetZeroTrustVerifier z ps = ps\<lparr>zeroTrust := z\<rparr>"

definition SetReinforcementLearner :: "ReinforcementLearner option \<Rightarrow> PredictiveScaler \<Rightarrow> PredictiveScaler" where
  "SetReinforcementLearner r ps = ps\<lparr>rlLearner := r\<rparr>"

definition SetLeaderElector :: "LeaderElector option \<Rightarrow> PredictiveScaler \<Rightarrow> PredictiveScaler" where
  "SetLeaderElector e ps = ps\<lparr>leaderElector := e\<rparr>"

definition SetStore :: "Store option \<Rightarrow> PredictiveScaler \<Rightarrow> PredictiveScaler" where
  "SetStore s ps = ps\<lparr>store := s\<rparr>"

definition SetInfraController :: "string \<Rightarrow> string \<Rightarrow> PredictiveScaler \<Rightarrow> PredictiveScaler" where
  "SetInfraController url apiKey ps =
     ps\<lparr>cfg := (cfg ps)\<lparr>cf_InfraControllerURL := url, cf_InfraControllerAPIKey := apiKey\<rparr>\<rparr>"

definition SetPredictor :: "Predictor option \<Rightarrow> PredictiveScaler \<Rightarrow> PredictiveScaler" where
  "SetPredictor p ps = ps\<lparr>predictor := p\<rparr>"

definition SetAutoBootstrapFunc :: "bool \<Rightarrow> PredictiveScaler \<Rightarrow> PredictiveScaler" where
  "SetAutoBootstrapFunc b ps = ps\<lparr>autoBootstrap := b\<rparr>"

text \<open>The answer is the one of the operating system or of Redis, \<open>n\<close> a fresh file or context.\<close>

definition PromoteToLeaderIfNeeded :: "setnx_answer \<Rightarrow> nat \<Rightarrow> PredictiveScaler \<Rightarrow> bool \<times> PredictiveScaler" where
  "PromoteToLeaderIfNeeded answer n ps =
     (case leaderElector ps of
        None \<Rightarrow> (True, ps)
      | Some (FileElector fe) \<Rightarrow>
          (answer = KeySet,
           if answer = KeySet then ps\<lparr>leaderElector := Some (FileElector (fe\<lparr>fe_f := Some n, fe_isLead := True\<rparr>))\<rparr>
           else ps)
      | Some (RedisElector re) \<Rightarrow>
          (let ((ok, _), re) = RedisLE_Acquire answer n re in (ok, ps\<lparr>leaderElector := Some (RedisElector re)\<rparr>))
      | Some (OtherElector b) \<Rightarrow> (answer = KeySet, ps))"

section \<open>Recording\<close>

text \<open>The history of a service keeps the newest signals of the window.\<close>

definition add_sample :: "int \<Rightarrow> ScalingSignal \<Rightarrow> ScalingSignal list \<Rightarrow> ScalingSignal list" where
  "add_sample w sig old =
     (let arr = old @ [sig]
      in if w > 0 \<and> int (length arr) > w then drop (nat (int (length arr) - w)) arr else arr)"

definition Record :: "ScalingSignal \<Rightarrow> PredictiveScaler \<Rightarrow> PredictiveScaler" where
  "Record sig ps =
     (let sig = (if sg_CPU sig < 0 then sig\<lparr>sg_CPU := 0\<rparr> else sig);
          sig = (if sg_RAM sig < 0 then sig\<lparr>sg_RAM := 0\<rparr> else sig);
          arr = add_sample (cf_WindowSize (cfg ps)) sig
            (case get (history ps) (sg_Service sig) of None \<Rightarrow> [] | Some a \<Rightarrow> a)
      in ps\<lparr>history := put (sg_Service sig) arr (history ps), ops := ops ps + 1\<rparr>)"

section \<open>Prediction\<close>

datatype scale_error =
    AnomalyDetected real | InvalidCPU real | InvalidRAM real | RateLimited | InBackoff duration
  | MaxAttemptsReached | NotLeader | AlreadyInFlight

definition learn :: "string \<Rightarrow> real \<Rightarrow> readings \<Rightarrow> PredictiveScaler \<Rightarrow> PredictiveScaler" where
  "learn service reward rd ps =
     ps\<lparr>rlLearner := map_option (RL_Update service reward rd) (rlLearner ps)\<rparr>"

text \<open>The score of an anomaly on which the prediction is given up.\<close>

definition anomaly :: "ScalingSignal list \<Rightarrow> PredictiveScaler \<Rightarrow> real option" where
  "anomaly hist ps =
     (case anomalyDetector ps of
        None \<Rightarrow> None
      | Some detect \<Rightarrow> (case detect hist of (found, score) \<Rightarrow> if found \<and> score > 6 then Some score else None))"

definition with_learned :: "PredictiveScaler \<Rightarrow> Config \<Rightarrow> Config" where
  "with_learned ps c =
     (case rlLearner ps of
        None \<Rightarrow> c
      | Some r \<Rightarrow> (case Suggest r of (a, h) \<Rightarrow> if a > 0 then c\<lparr>cf_EMAAlpha := a, cf_Horizon := h\<rparr> else c))"

definition raw_prediction :: "ScalingSignal list \<Rightarrow> Config \<Rightarrow> PredictiveScaler \<Rightarrow> real \<times> real" where
  "raw_prediction cleaned c ps =
     (let (cpu, ram) = (case predictor ps of
            None \<Rightarrow> (0, 0)
          | Some predict \<Rightarrow> (case predict cleaned (cf_Horizon c) of (cpu, ram, err) \<Rightarrow> (cpu, ram)))
      in if cpu = 0 \<and> ram = 0 then
           (let cpu = fallbackPredictCPU cleaned (cf_EMAAlpha c); ram = fallbackPredictRAM cleaned (cf_EMAAlpha c)
            in (if cpu < cf_MinCPU c then cf_MinCPU c else cpu, if ram < cf_MinRAM c then cf_MinRAM c else ram))
         else (cpu, ram))"

definition predict_demand ::
    "string \<Rightarrow> readings \<Rightarrow> ScalingSignal list \<Rightarrow> Config \<Rightarrow> PredictiveScaler
      \<Rightarrow> (scale_error + real \<times> real \<times> Config, PredictiveScaler) outcome" where
  "predict_demand service rd hist base ps =
     (case policyAdjuster ps of
        None \<Rightarrow> Panicked ps
      | Some adjust \<Rightarrow>
          let c = adjust service [] (rd_now rd) base
          in case anomaly hist ps of
               Some score \<Rightarrow> Returned (Inl (AnomalyDetected score)) (learn service (- 1 * score) rd ps)
             | None \<Rightarrow>
                 let cleaned = clipOutliers hist (cf_OutlierIQRFactor c);
                     cleaned = (if cf_MedianWindow c > 1 then medianSmooth cleaned (cf_MedianWindow c) else cleaned);
                     c = with_learned ps c;
                     (cpu, ram) = raw_prediction cleaned c ps
                 in if cpu < 0 \<or> cpu > 10000 then Returned (Inl (InvalidCPU cpu)) ps
                    else if ram < 0 \<or> ram > 10 ^ 9 then Returned (Inl (InvalidRAM ram)) ps
                    else Returned (Inr (cpu, ram, c)) ps)"

definition wants_scaling :: "string \<Rightarrow> real \<Rightarrow> real \<Rightarrow> Config \<Rightarrow> PredictiveScaler \<Rightarrow> bool" where
  "wants_scaling service cpu ram c ps \<longleftrightarrow>
     (cpu > cf_CPUCritical c \<or> ram > cf_RAMCritical c) \<and>
     (case costEstimator ps of
        None \<Rightarrow> True
      | Some e \<Rightarrow>
          let cost = EstimateCost e [(''cpu'', cpu), (''ram'', ram)]; penalty = EstimatePenalty e service cpu ram
          in \<not> (cost > penalty \<and> cost > cf_CostThreshold c))"

section \<open>Limits\<close>

definition allowBootstrap :: "string \<Rightarrow> gotime \<Rightarrow> PredictiveScaler \<Rightarrow> bool \<times> PredictiveScaler" where
  "allowBootstrap service now ps =
     (let start = get0 (rateWindowStart ps) service;
          ps = (if IsZero start \<or> now - start \<ge> Hour
                then ps\<lparr>rateWindowStart := put service now (rateWindowStart ps),
                        rateCount := put service 0 (rateCount ps)\<rparr>
                else ps)
      in if get0 (rateCount ps) service \<ge> cf_BootstrapsPerHour (cfg ps) then (False, ps)
         else (True, ps\<lparr>rateCount := put service (get0 (rateCount ps) service + 1) (rateCount ps)\<rparr>))"

text \<open>The product of two durations wraps at 64 bits.\<close>

definition backoff_of :: "Config \<Rightarrow> int \<Rightarrow> duration" where
  "backoff_of c tried =
     (let backoff = wrap64 (cf_BaseBackoff c * to_int64 (2 ^ nat (tried - 1)))
      in if backoff > cf_MaxBackoff c then cf_MaxBackoff c else backoff)"

definition backoff_left :: "Config \<Rightarrow> int \<Rightarrow> gotime \<Rightarrow> gotime \<Rightarrow> duration option" where
  "backoff_left c tried last_time now =
     (if tried > 0 \<and> now - last_time < backoff_of c tried
      then Some (backoff_of c tried - (now - last_time)) else None)"

record bootstrap =
  bo_service :: string
  bo_cpu :: real
  bo_ram :: real

definition try_launch ::
    "string \<Rightarrow> gotime \<Rightarrow> real \<Rightarrow> real \<Rightarrow> Config \<Rightarrow> PredictiveScaler \<Rightarrow> (scale_error + bootstrap) \<times> PredictiveScaler" where
  "try_launch service now cpu ram c ps =
     (if get0 (attempts ps) service \<ge> cf_MaxAttempts c then (Inl MaxAttemptsReached, ps)
      else if (case leaderElector ps of None \<Rightarrow> False | Some e \<Rightarrow> \<not> IsLeader e) then (Inl NotLeader, ps)
      else if get (inFlight ps) service = Some True then (Inl AlreadyInFlight, ps)
      else (Inr \<lparr>bo_service = service, bo_cpu = cpu, bo_ram = ram\<rparr>,
            ps\<lparr>inFlight := put service True (inFlight ps),
               lastTriggered := put service now (lastTriggered ps)\<rparr>))"

section \<open>PredictAndScale\<close>

text \<open>What is returned: CPU, RAM, whether a bootstrap was launched, the error; and the bootstrap.\<close>

type_synonym scale_result = "(real \<times> real \<times> bool \<times> scale_error option) \<times> bootstrap option"

definition decide ::
    "string \<Rightarrow> gotime \<Rightarrow> gotime \<Rightarrow> int \<Rightarrow> real \<Rightarrow> real \<Rightarrow> Config \<Rightarrow> PredictiveScaler \<Rightarrow> scale_result \<times> PredictiveScaler" where
  "decide service now last_time tried cpu ram c ps =
     (let refuse = (\<lambda>e. ((cpu, ram, False, Some e), None));
          (allowed, ps) = allowBootstrap service now ps
      in if \<not> allowed then (refuse RateLimited, ps)
         else case backoff_left c tried last_time now of
           Some remaining \<Rightarrow> (refuse (InBackoff remaining), ps)
         | None \<Rightarrow>
             (case try_launch service now cpu ram c ps of
                (Inl e, ps) \<Rightarrow> (refuse e, ps)
              | (Inr b, ps) \<Rightarrow> (((cpu, ram, True, None), Some b), ps)))"

definition PredictAndScale ::
    "string \<Rightarrow> readings \<Rightarrow> PredictiveScaler \<Rightarrow> (scale_result, PredictiveScaler) outcome" where
  "PredictAndScale service rd ps =
     (let hist = (case get (history ps) service of None \<Rightarrow> [] | Some h \<Rightarrow> h);
          last_time = get0 (lastTriggered ps) service; tried = get0 (attempts ps) service
      in if hist = [] then Returned ((cf_MinCPU (cfg ps), cf_MinRAM (cfg ps), False, None), None) ps
         else andThen (predict_demand service rd hist (cfg ps) ps) (\<lambda>r ps.
           case r of
             Inl e \<Rightarrow> Returned ((0, 0, False, Some e), None) ps
           | Inr (cpu, ram, c) \<Rightarrow>
               if \<not> wants_scaling service cpu ram c ps then Returned ((cpu, ram, False, None), None) ps
               else case decide service (rd_now rd) last_time tried cpu ram c ps of (res, ps) \<Rightarrow> Returned res ps))"

section \<open>The bootstrap\<close>

datatype route = NoRoute | ViaController | ViaFunction

record controller_call =
  ca_service :: string
  ca_target :: string
  ca_route :: route

definition landed :: "string \<Rightarrow> PredictiveScaler \<Rightarrow> PredictiveScaler" where
  "landed service ps = ps\<lparr>inFlight := put service False (inFlight ps)\<rparr>"

definition place :: "string \<Rightarrow> string \<Rightarrow> real \<Rightarrow> PredictiveScaler \<Rightarrow> PredictiveScaler" where
  "place service target latency ps = ps\<lparr>topology := RecordPlacement service target latency (topology ps)\<rparr>"

definition choose_target :: "bootstrap \<Rightarrow> string \<Rightarrow> PredictiveScaler \<Rightarrow> string" where
  "choose_target b stamp ps =
     (let target = (case nodeSelector ps of
            None \<Rightarrow> ''''
          | Some select \<Rightarrow>
              (case select [(''cpu'', bo_cpu b), (''ram'', bo_ram b)] of None \<Rightarrow> '''' | Some n \<Rightarrow> n))
      in if target = '''' then bo_service b @ ''-scale-'' @ stamp else target)"

definition boot_begin ::
    "scaling_lib \<Rightarrow> readings \<Rightarrow> string \<Rightarrow> bootstrap \<Rightarrow> PredictiveScaler \<Rightarrow> controller_call option \<times> PredictiveScaler" where
  "boot_begin lib rd stamp b ps =
     (let service = bo_service b; target = choose_target b stamp ps
      in if (case zeroTrust ps of
               None \<Rightarrow> False
             | Some z \<Rightarrow> \<not> fst (Verify lib z target [(''reason'', AStr ''predictive-scaling'')] (rd_now rd)))
         then (None, landed service (learn service (- 1/2) rd ps))
         else if cf_DryRun (cfg ps) \<or> \<not> cf_EnableAutoBootstrap (cfg ps) then
           (let ps = learn service (1/10) rd ps
            in (None, landed service (place service target 1 (ps\<lparr>attempts := put service 0 (attempts ps)\<rparr>))))
         else
           (Some \<lparr>ca_service = service, ca_target = target,
                  ca_route = (if cf_InfraControllerURL (cfg ps) \<noteq> '''' \<and> cf_InfraControllerAPIKey (cfg ps) \<noteq> ''''
                              then ViaController
                              else if autoBootstrap ps then ViaFunction else NoRoute)\<rparr>, ps))"

text \<open>\<open>answer\<close> is the error of the call, \<open>seconds\<close> its duration.\<close>

definition boot_end ::
    "controller_call \<Rightarrow> string option \<Rightarrow> real \<Rightarrow> readings \<Rightarrow> PredictiveScaler \<Rightarrow> PredictiveScaler" where
  "boot_end ca answer seconds rd ps =
     (let service = ca_service ca;
          errb = (if ca_route ca = NoRoute then Some ''no infra controller or bootstrap function configured'' else answer)
      in if errb \<noteq> None then
           landed service (learn service (- 1 - seconds * (1/10)) rd
             (ps\<lparr>attempts := put service (get0 (attempts ps) service + 1) (attempts ps),
                 lastTriggered := put service (rd_now rd) (lastTriggered ps)\<rparr>))
         else
           landed service (place service (ca_target ca) (seconds * 1000)
             (learn service (max (1/10) (10 - seconds * (1/10))) rd
               (ps\<lparr>attempts := put service 0 (attempts ps),
                   lastTriggered := put service (rd_now rd) (lastTriggered ps)\<rparr>))))"

section \<open>Persistence loop, stop and backtests\<close>

definition persist_tick ::
    "PredictiveScaler \<Rightarrow> ((store_error + persistedState) option, PredictiveScaler) outcome" where
  "persist_tick ps =
     (if persistStopped ps then Returned None ps
      else andThen (saveStateToStore ps) (\<lambda>r ps. Returned (Some r) ps))"

definition release_elector :: "LeaderElector \<Rightarrow> LeaderElector" where
  "release_elector e =
     (case e of
        FileElector fe \<Rightarrow> FileElector (fst (FileLE_Release fe []))
      | RedisElector re \<Rightarrow> RedisElector (RedisLE_Release re)
      | OtherElector b \<Rightarrow> OtherElector b)"

definition Stop :: "PredictiveScaler \<Rightarrow> PredictiveScaler" where
  "Stop ps = ps\<lparr>persistStopped := True, leaderElector := map_option release_elector (leaderElector ps)\<rparr>"

text \<open>A backtest returns its counts and the bootstraps that it has launched.\<close>

fun backtest_loop ::
    "string \<Rightarrow> (ScalingSignal \<times> readings) list \<Rightarrow> int \<times> real \<times> real \<Rightarrow> bootstrap list \<Rightarrow> PredictiveScaler
      \<Rightarrow> ((int \<times> real \<times> real) \<times> bootstrap list, PredictiveScaler) outcome" where
  "backtest_loop service [] acc bs ps = Returned (acc, bs) ps"
| "backtest_loop service ((sig, rd) # rest) (triggers, lastCPU, lastRAM) bs ps =
     andThen (PredictAndScale service rd (Record sig ps)) (\<lambda>((cpu, ram, triggered, e), b) ps.
       backtest_loop service rest (if triggered then triggers + 1 else triggers, cpu, ram)
         (bs @ (case b of None \<Rightarrow> [] | Some b \<Rightarrow> [b])) ps)"

fun deferred :: "('s \<Rightarrow> 's) \<Rightarrow> ('r, 's) outcome \<Rightarrow> ('r, 's) outcome" where
  "deferred f (Returned r s) = Returned r (f s)"
| "deferred f (Panicked s) = Panicked (f s)"
| "deferred f (Blocked s) = Blocked s"

definition RunBacktest ::
    "string \<Rightarrow> (ScalingSignal \<times> readings) list \<Rightarrow> PredictiveScaler
      \<Rightarrow> ((int \<times> real \<times> real) \<times> bootstrap list, PredictiveScaler) outcome" where
  "RunBacktest service signals ps =
     (let orig = (case get (history ps) service of None \<Rightarrow> [] | Some h \<Rightarrow> h)
      in deferred (\<lambda>ps. ps\<lparr>history := put service orig (history ps)\<rparr>)
           (backtest_loop service signals (0, 0, 0) [] (ps\<lparr>history := put service [] (history ps)\<rparr>)))"

end
