(* ===== verification/ForecastProps.thy ===== *)
theory ForecastProps
  imports Forecast
begin

text \<open>
  Properties of the forecasting routines: the trend is the least-squares line, the moving average in
  closed form, quartile bounds and medians as order statistics, and the limit that the length of a
  history puts on a z-score.
\<close>

section \<open>The trend\<close>

lemma sum_indices: "(\<Sum>i<n. real i) = real n * (real n - 1) / 2"
  by (induction n) (auto simp: field_simps)

lemma sum_squares: "(\<Sum>i<n. real i * real i) = real n * (real n - 1) * (2 * real n - 1) / 6"
  by (induction n) (auto simp: field_simps)

lemma slope_denominator:
  "real n * (\<Sum>i<n. real i * real i) - (\<Sum>i<n. real i) * (\<Sum>i<n. real i) =
     (real n)\<^sup>2 * ((real n)\<^sup>2 - 1) / 12"
  unfolding sum_indices sum_squares by (simp add: field_simps power2_eq_square)

lemma slope_denominator_pos:
  assumes "2 \<le> n"
  shows "real n * (\<Sum>i<n. real i * real i) - (\<Sum>i<n. real i) * (\<Sum>i<n. real i) > 0"
proof -
  have "1 < (real n)\<^sup>2" using assms by (simp add: one_less_power)
  then show ?thesis unfolding slope_denominator using assms by simp
qed

text \<open>The sum of the squared vertical distances of the values from a line.\<close>

definition residual :: "real list \<Rightarrow> real \<Rightarrow> real \<Rightarrow> real" where
  "residual ys m b = (\<Sum>i<length ys. (ys ! i - (m * real i + b))\<^sup>2)"

text \<open>The intercept that belongs to a slope: the line passes through the means.\<close>

definition intercept :: "real list \<Rightarrow> real \<Rightarrow> real" where
  "intercept ys m = (sum_list ys - m * (\<Sum>i<length ys. real i)) / real (length ys)"

lemma sum_list_nth: "sum_list ys = (\<Sum>i<length ys. ys ! i)"
  by (simp add: sum_list_sum_nth atLeast0LessThan)

lemma normal_equations:
  assumes n: "n = length ys" "2 \<le> n"
    and m: "m * (real n * (\<Sum>i<n. real i * real i) - (\<Sum>i<n. real i) * (\<Sum>i<n. real i)) =
      real n * (\<Sum>i<n. real i * ys ! i) - (\<Sum>i<n. real i) * (\<Sum>i<n. ys ! i)"
    and b: "b = intercept ys m"
  shows "(\<Sum>i<n. ys ! i - (m * real i + b)) = 0"
    and "(\<Sum>i<n. real i * (ys ! i - (m * real i + b))) = 0"
proof -
  have nb: "real n * b = (\<Sum>i<n. ys ! i) - m * (\<Sum>i<n. real i)"
    using n by (simp add: b intercept_def sum_list_nth)
  have "(\<Sum>i<n. ys ! i - (m * real i + b)) = (\<Sum>i<n. ys ! i) - (m * (\<Sum>i<n. real i) + real n * b)"
    by (simp add: sum_subtractf sum.distrib sum_distrib_left)
  then show "(\<Sum>i<n. ys ! i - (m * real i + b)) = 0" using nb by simp
  have e: "(\<Sum>i<n. real i * (ys ! i - (m * real i + b))) =
      (\<Sum>i<n. real i * ys ! i) - (m * (\<Sum>i<n. real i * real i) + b * (\<Sum>i<n. real i))"
    by (simp add: right_diff_distrib distrib_left sum_subtractf sum.distrib sum_distrib_left ac_simps)
  have "real n * (\<Sum>i<n. real i * (ys ! i - (m * real i + b))) =
      real n * (\<Sum>i<n. real i * ys ! i) - (m * (real n * (\<Sum>i<n. real i * real i)) +
        (real n * b) * (\<Sum>i<n. real i))"
    unfolding e by (simp add: algebra_simps)
  also have "\<dots> = 0" unfolding nb using m by (simp add: algebra_simps)
  finally show "(\<Sum>i<n. real i * (ys ! i - (m * real i + b))) = 0" using n by auto
qed

lemma residual_least:
  assumes zero: "(\<Sum>i<length ys. ys ! i - (m * real i + b)) = 0"
      "(\<Sum>i<length ys. real i * (ys ! i - (m * real i + b))) = 0"
  shows "residual ys m b \<le> residual ys m' b'"
proof -
  let ?r = "\<lambda>i. ys ! i - (m * real i + b)"
  let ?d = "\<lambda>i. (m - m') * real i + (b - b')"
  have "residual ys m' b' = (\<Sum>i<length ys. (?r i + ?d i)\<^sup>2)"
    by (simp add: residual_def algebra_simps)
  also have "\<dots> = (\<Sum>i<length ys. (?r i)\<^sup>2 + (?d i)\<^sup>2 + 2 * (m - m') * (real i * ?r i) + 2 * (b - b') * ?r i)"
    by (intro sum.cong refl) (simp add: power2_eq_square algebra_simps)
  also have "\<dots> = residual ys m b + (\<Sum>i<length ys. (?d i)\<^sup>2) +
      2 * (m - m') * (\<Sum>i<length ys. real i * ?r i) + 2 * (b - b') * (\<Sum>i<length ys. ?r i)"
    by (simp only: sum.distrib sum_distrib_left residual_def)
  finally have "residual ys m' b' = residual ys m b + (\<Sum>i<length ys. (?d i)\<^sup>2)"
    using zero by simp
  moreover have "0 \<le> (\<Sum>i<length ys. (?d i)\<^sup>2)" by (intro sum_nonneg) simp
  ultimately show ?thesis by linarith
qed

lemma slope_equation:
  assumes "2 \<le> length history"
  shows "let n = length history; ys = map val history; m = simpleLinearSlope history val in
    m * (real n * (\<Sum>i<n. real i * real i) - (\<Sum>i<n. real i) * (\<Sum>i<n. real i)) =
      real n * (\<Sum>i<n. real i * ys ! i) - (\<Sum>i<n. real i) * (\<Sum>i<n. ys ! i)"
  using assms slope_denominator_pos[OF assms] by (simp add: simpleLinearSlope_def Let_def)

text \<open>
  The trend of two or more samples is the slope of their least-squares line: no other line has a
  smaller sum of squared distances from them.
\<close>

theorem slope_is_least_squares:
  assumes "2 \<le> length history"
  shows "let ys = map val history; m = simpleLinearSlope history val in
    residual ys m (intercept ys m) \<le> residual ys m' b'"
proof -
  let ?ys = "map val history" and ?m = "simpleLinearSlope history val"
  have n: "length history = length ?ys" by simp
  note eq = normal_equations[OF n assms slope_equation[OF assms, unfolded Let_def] refl]
  show ?thesis using residual_least[of ?ys ?m "intercept ?ys ?m" m' b'] eq by (simp add: Let_def)
qed

lemma moving_average_Cons:
  "vs \<noteq> [] \<Longrightarrow> moving_average a (v # vs) = a * v + (1 - a) * moving_average a vs"
  by (simp add: moving_average_def)

lemma moving_average_sum:
  "moving_average a (vs @ [z]) = (\<Sum>i<length vs. a * (1 - a) ^ i * vs ! i) + (1 - a) ^ length vs * z"
proof (induction vs)
  case Nil
  then show ?case by (simp add: moving_average_def)
next
  case (Cons v vs)
  have "(\<Sum>i<length (v # vs). a * (1 - a) ^ i * (v # vs) ! i) =
      a * v + (1 - a) * (\<Sum>i<length vs. a * (1 - a) ^ i * vs ! i)"
    by (simp add: sum.lessThan_Suc_shift sum_distrib_left algebra_simps del: sum.lessThan_Suc)
  then show ?case using Cons.IH by (simp add: moving_average_Cons algebra_simps)
qed

text \<open>
  The moving average runs from the newest value to the oldest, so that the oldest one has the
  greatest weight: with samples \<open>vs\<close> and the newest \<open>z\<close>, the weights fall by the factor \<open>1 - a\<close>
  from each sample to the next newer one, and the newest has \<open>(1 - a) ^ n\<close>. A value within bounds of
  all samples stays within them.
\<close>

theorem moving_average_favours_the_oldest:
  assumes "0 < a" and "a \<le> 1"
  shows "moving_average a (vs @ [z]) = (\<Sum>i<length vs. a * (1 - a) ^ i * vs ! i) + (1 - a) ^ length vs * z \<and>
    (\<forall>i<length vs. a * (1 - a) ^ Suc i \<le> a * (1 - a) ^ i) \<and>
    ((\<forall>v\<in>set (vs @ [z]). lo \<le> v \<and> v \<le> hi) \<longrightarrow>
       lo \<le> moving_average a (vs @ [z]) \<and> moving_average a (vs @ [z]) \<le> hi)"
proof -
  have "lo \<le> moving_average a (vs @ [z]) \<and> moving_average a (vs @ [z]) \<le> hi"
    if "\<forall>v\<in>set (vs @ [z]). lo \<le> v \<and> v \<le> hi"
    using that
  proof (induction vs)
    case Nil
    then show ?case by (simp add: moving_average_def)
  next
    case (Cons v vs)
    then show ?case using assms convex_bound_le[of v hi "moving_average a (vs @ [z])" a "1 - a"]
        convex_bound_le[of "- v" "- lo" "- moving_average a (vs @ [z])" a "1 - a"]
      by (simp add: moving_average_Cons)
  qed
  moreover have "a * (1 - a) ^ Suc i \<le> a * (1 - a) ^ i" for i
    using assms by (simp add: mult_left_le_one_le)
  ultimately show ?thesis using moving_average_sum by blast
qed

section \<open>Order statistics\<close>

lemma sorted_count_le:
  assumes "sorted s" and "k < length s"
  shows "Suc k \<le> length (filter (\<lambda>x. x \<le> s ! k) s)"
proof -
  have "filter (\<lambda>x. x \<le> s ! k) (take (Suc k) s) = take (Suc k) s"
    using assms by (auto simp: in_set_conv_nth intro!: sorted_nth_mono filter_True)
  then have "Suc k = length (filter (\<lambda>x. x \<le> s ! k) (take (Suc k) s))" using assms(2) by simp
  also have "\<dots> \<le> length (filter (\<lambda>x. x \<le> s ! k) s)"
    by (metis append_take_drop_id filter_append le_add1 length_append)
  finally show ?thesis .
qed

lemma sorted_count_ge:
  assumes "sorted s" and "k < length s"
  shows "length s - k \<le> length (filter (\<lambda>x. s ! k \<le> x) s)"
proof -
  have "filter (\<lambda>x. s ! k \<le> x) (drop k s) = drop k s"
    using assms by (auto simp: in_set_conv_nth intro!: sorted_nth_mono filter_True)
  then have "length s - k = length (filter (\<lambda>x. s ! k \<le> x) (drop k s))" by simp
  also have "\<dots> \<le> length (filter (\<lambda>x. s ! k \<le> x) s)"
    by (metis append_take_drop_id filter_append le_add2 length_append)
  finally show ?thesis .
qed

lemma filter_length_sort: "length (filter P (sort vs)) = length (filter P (vs :: 'a::linorder list))"
  by (metis filter_sort length_sort)

lemma filter_length_mono: "(\<And>x. P x \<Longrightarrow> Q x) \<Longrightarrow> length (filter P xs) \<le> length (filter Q xs)"
  by (induction xs) auto

text \<open>
  At least half of the values are at most the median, and at least half are at least the median;
  it does not depend on the order of the values.
\<close>

theorem median_splits_in_half:
  assumes "vs \<noteq> []"
  shows "length vs \<le> 2 * length (filter (\<lambda>x. x \<le> median vs) vs) \<and>
    length vs \<le> 2 * length (filter (\<lambda>x. median vs \<le> x) vs) \<and>
    (mset ws = mset vs \<longrightarrow> median ws = median vs)"
proof -
  let ?s = "sort vs" and ?n = "length vs"
  let ?lo = "?s ! ((?n - 1) div 2)" and ?hi = "?s ! (?n div 2)"
  have pos: "0 < ?n" using assms by simp
  then have k: "(?n - 1) div 2 < ?n" "?n div 2 < ?n" by presburger+
  have between: "?lo \<le> median vs \<and> median vs \<le> ?hi"
  proof (cases "?n mod 2 = 1")
    case True
    then have "(?n - 1) div 2 = ?n div 2" by presburger
    then show ?thesis using True assms by (simp add: median_def Let_def)
  next
    case False
    then have "(?n - 1) div 2 = ?n div 2 - 1" "?n div 2 - 1 \<le> ?n div 2" "?n div 2 < ?n"
      using pos by presburger+
    moreover have "?s ! (?n div 2 - 1) \<le> ?s ! (?n div 2)"
      using calculation by (intro sorted_nth_mono) auto
    ultimately show ?thesis using False assms by (simp add: median_def Let_def)
  qed
  have "?n \<le> 2 * Suc ((?n - 1) div 2)" by presburger
  also have "\<dots> \<le> 2 * length (filter (\<lambda>x. x \<le> ?lo) ?s)"
    using sorted_count_le[of ?s "(?n - 1) div 2"] k by (intro mult_le_mono2) simp
  also have "\<dots> \<le> 2 * length (filter (\<lambda>x. x \<le> median vs) ?s)"
    using between by (intro mult_left_mono filter_length_mono) auto
  finally have below: "?n \<le> 2 * length (filter (\<lambda>x. x \<le> median vs) vs)"
    by (simp only: filter_length_sort)
  have "?n \<le> 2 * (length ?s - ?n div 2)" unfolding length_sort by presburger
  also have "\<dots> \<le> 2 * length (filter (\<lambda>x. ?hi \<le> x) ?s)"
    using sorted_count_ge[of ?s "?n div 2"] k by (intro mult_le_mono2) simp
  also have "\<dots> \<le> 2 * length (filter (\<lambda>x. median vs \<le> x) ?s)"
    using between by (intro mult_left_mono filter_length_mono) auto
  finally have above: "?n \<le> 2 * length (filter (\<lambda>x. median vs \<le> x) vs)"
    by (simp only: filter_length_sort)
  have "median ws = median vs" if "mset ws = mset vs"
  proof -
    have "sort ws = sort vs" using that by (metis properties_for_sort mset_sort sorted_sort)
    then show ?thesis using that by (auto simp: median_def Let_def)
  qed
  then show ?thesis using below above by blast
qed

text \<open>Linear interpolation between the values of a list, which is what a percentile is.\<close>

definition interpolate :: "real list \<Rightarrow> real \<Rightarrow> real" where
  "interpolate s x = s ! nat \<lfloor>x\<rfloor> + frac x * (s ! nat \<lceil>x\<rceil> - s ! nat \<lfloor>x\<rfloor>)"

lemma percentile_interpolate:
  assumes "0 < p" and "p < 100" and "s \<noteq> []"
  shows "percentile s p = interpolate s (p / 100 * real (length s - 1))"
proof -
  let ?x = "p / 100 * real (length s - 1)"
  have x: "0 \<le> ?x" using assms by simp
  then have "real (nat \<lfloor>?x\<rfloor>) = of_int \<lfloor>?x\<rfloor>" by simp
  then show ?thesis using assms
    by (auto simp: percentile_def interpolate_def Let_def frac_def algebra_simps)
qed

lemma ceiling_index: "0 \<le> x \<Longrightarrow> x \<le> real m \<Longrightarrow> nat \<lceil>x\<rceil> \<le> m"
  by (simp add: ceiling_le_iff nat_le_iff)

lemma floor_index: "0 \<le> x \<Longrightarrow> x \<le> real m \<Longrightarrow> nat \<lfloor>x\<rfloor> \<le> m"
  by (simp add: nat_le_iff floor_le_iff)

lemma index_below: "i \<le> length s - 1 \<Longrightarrow> s \<noteq> [] \<Longrightarrow> i < length s"
  by (cases s) auto

lemma interpolate_between:
  assumes s: "sorted s" and x: "0 \<le> x" "x \<le> real (length s - 1)" and ne: "s \<noteq> []"
  shows "s ! nat \<lfloor>x\<rfloor> \<le> interpolate s x \<and> interpolate s x \<le> s ! nat \<lceil>x\<rceil>"
proof -
  have "nat \<lceil>x\<rceil> < length s" using index_below[OF ceiling_index[OF x] ne] .
  then have "s ! nat \<lfloor>x\<rfloor> \<le> s ! nat \<lceil>x\<rceil>"
    using s by (intro sorted_nth_mono nat_mono) (auto simp: floor_le_ceiling)
  moreover have "0 \<le> frac x" "frac x \<le> 1" using frac_lt_1[of x] by (simp_all add: less_imp_le)
  ultimately show ?thesis
    using mult_left_le_one_le[of "s ! nat \<lceil>x\<rceil> - s ! nat \<lfloor>x\<rfloor>" "frac x"] by (simp add: interpolate_def)
qed

lemma interpolate_mono:
  assumes s: "sorted s" "s \<noteq> []" and x: "0 \<le> x" "x \<le> y" "y \<le> real (length s - 1)"
  shows "interpolate s x \<le> interpolate s y"
proof (cases "\<lfloor>x\<rfloor> = \<lfloor>y\<rfloor>")
  case True
  show ?thesis
  proof (cases "x = of_int \<lfloor>x\<rfloor>")
    case whole: True
    then have "interpolate s x = s ! nat \<lfloor>y\<rfloor>" using True by (simp add: interpolate_def frac_def)
    then show ?thesis using interpolate_between[OF s(1), of y] x s by simp
  next
    case False
    then have "of_int \<lfloor>x\<rfloor> < x" using of_int_floor_le[of x] by linarith
    then have c: "\<lceil>x\<rceil> = \<lfloor>x\<rfloor> + 1" "\<lceil>y\<rceil> = \<lfloor>x\<rfloor> + 1"
      using x(2) True by (linarith, linarith)
    have "\<lfloor>x\<rfloor> + 1 \<le> int (length s - 1)" using x(3) c(2) by (metis ceiling_le_iff of_int_of_nat_eq)
    then have "s ! nat \<lfloor>x\<rfloor> \<le> s ! nat (\<lfloor>x\<rfloor> + 1)"
      using s x(1) by (intro sorted_nth_mono) (auto simp: nat_less_iff, linarith)
    moreover have "frac x \<le> frac y" using True x(2) by (simp add: frac_def)
    ultimately show ?thesis unfolding interpolate_def using c True
      by (simp add: mult_right_mono)
  qed
next
  case False
  have "\<lceil>x\<rceil> \<le> \<lfloor>y\<rfloor>" using False floor_mono[OF x(2)] by linarith
  moreover have "nat \<lfloor>y\<rfloor> < length s" using index_below[OF floor_index[OF _ x(3)] s(2)] x by simp
  ultimately have "s ! nat \<lceil>x\<rceil> \<le> s ! nat \<lfloor>y\<rfloor>" using s by (intro sorted_nth_mono nat_mono)
  then show ?thesis using interpolate_between[OF s(1), of x] interpolate_between[OF s(1), of y] x s(2) by linarith
qed

lemma percentile_in_range:
  assumes s: "sorted s" "s \<noteq> []" and p: "0 < p" "p < 100" and b: "\<forall>v\<in>set s. lo \<le> v \<and> v \<le> hi"
  shows "lo \<le> percentile s p \<and> percentile s p \<le> hi"
proof -
  let ?x = "p / 100 * real (length s - 1)"
  have x: "0 \<le> ?x" "?x \<le> real (length s - 1)"
    using p mult_right_mono[of "p / 100" 1 "real (length s - 1)"] by simp_all
  have "s ! nat \<lfloor>?x\<rfloor> \<in> set s" "s ! nat \<lceil>?x\<rceil> \<in> set s"
    using index_below[OF floor_index[OF x] s(2)] index_below[OF ceiling_index[OF x] s(2)] by simp_all
  then have "lo \<le> s ! nat \<lfloor>?x\<rfloor>" "s ! nat \<lceil>?x\<rceil> \<le> hi" using b by blast+
  then show ?thesis
    using interpolate_between[OF s(1) x s(2)] unfolding percentile_interpolate[OF p s(2)] by linarith
qed

lemma iqrBounds_quartiles:
  assumes "vs \<noteq> []" and "0 \<le> factor" and "\<forall>v\<in>set vs. lo \<le> v \<and> v \<le> hi"
  shows "fst (iqrBounds vs factor) \<le> snd (iqrBounds vs factor) \<and>
    fst (iqrBounds vs factor) \<le> hi \<and> lo \<le> snd (iqrBounds vs factor)"
proof -
  let ?s = "sort vs"
  have s: "sorted ?s" "?s \<noteq> []" using assms(1) by (simp, metis set_empty set_sort)
  have q: "percentile ?s 25 \<le> percentile ?s 75"
    using interpolate_mono[OF s, of "25 / 100 * real (length ?s - 1)" "75 / 100 * real (length ?s - 1)"]
    by (simp add: percentile_interpolate s(2) field_simps)
  then have i: "0 \<le> factor * (percentile ?s 75 - percentile ?s 25)" using assms(2) by simp
  have "lo \<le> percentile ?s 75" "percentile ?s 25 \<le> hi"
    using percentile_in_range[OF s, of 75 lo hi] percentile_in_range[OF s, of 25 lo hi] assms(3) by simp_all
  then show ?thesis using q i assms(1) by (simp add: iqrBounds_def Let_def)
qed

text \<open>
  Clipping keeps every sample in its place, with its service and time. A value within the bounds
  of the quartiles is kept, any other one moves to the nearer bound, and no value leaves the range
  of the recorded values.
\<close>

theorem clipping_stays_in_range:
  assumes "4 \<le> length history" and "0 \<le> factor" and "i < length history"
    and "\<forall>s\<in>set history. lo \<le> sg_CPU s \<and> sg_CPU s \<le> hi"
  shows "let b = iqrBounds (map sg_CPU history) factor; s = history ! i; s' = clipOutliers history factor ! i
    in length (clipOutliers history factor) = length history \<and>
      sg_Service s' = sg_Service s \<and> sg_Timestamp s' = sg_Timestamp s \<and>
      fst b \<le> sg_CPU s' \<and> sg_CPU s' \<le> snd b \<and> lo \<le> sg_CPU s' \<and> sg_CPU s' \<le> hi \<and>
      (sg_CPU s' = sg_CPU s \<longleftrightarrow> fst b \<le> sg_CPU s \<and> sg_CPU s \<le> snd b)"
proof -
  let ?vs = "map sg_CPU history"
  have "?vs \<noteq> []" "\<forall>v\<in>set ?vs. lo \<le> v \<and> v \<le> hi" using assms by auto
  note q = iqrBounds_quartiles[OF this(1) assms(2) this(2)]
  have "lo \<le> sg_CPU (history ! i)" "sg_CPU (history ! i) \<le> hi" using assms by auto
  then show ?thesis using assms(1,3) q by (auto simp: clipOutliers_def clip_def Let_def)
qed

section \<open>Anomalies\<close>

lemma sum_squared_le: "(sum_list vs)\<^sup>2 \<le> real (length vs) * (\<Sum>v\<leftarrow>vs. v\<^sup>2)"
proof (induction vs)
  case Nil
  then show ?case by simp
next
  case (Cons v vs)
  let ?S = "sum_list vs" and ?Q = "\<Sum>v\<leftarrow>vs. v\<^sup>2" and ?n = "real (length vs)"
  have "2 * v * ?S \<le> ?n * v\<^sup>2 + ?Q"
  proof (cases "vs = []")
    case False
    then have n: "0 < ?n" by simp
    have "0 \<le> (?n * v - ?S)\<^sup>2" by simp
    also have "\<dots> \<le> ?n * (?n * v\<^sup>2 + ?Q - 2 * v * ?S)"
      using Cons.IH by (simp add: power2_eq_square algebra_simps)
    finally show ?thesis using n by (simp add: zero_le_mult_iff)
  qed simp
  then show ?case using Cons.IH by (simp add: power2_eq_square algebra_simps)
qed

lemma zscore_limit:
  fixes ys :: "real list" and z :: real
  defines "xs \<equiv> ys @ [z]"
  defines "mean \<equiv> sum_list xs / real (length xs)"
  defines "sd \<equiv> sqrt ((\<Sum>v\<leftarrow>xs. (v - mean) * (v - mean)) / real (length xs))"
  shows "sd = 0 \<or> \<bar>(z - mean) / sd\<bar> \<le> sqrt (real (length ys))"
proof (cases "sd = 0")
  case False
  let ?d = "map (\<lambda>v. v - mean) ys" and ?e = "z - mean" and ?n = "real (length xs)"
  let ?Q = "\<Sum>v\<leftarrow>xs. (v - mean) * (v - mean)"
  have n: "0 < ?n" by (simp add: xs_def)
  have "sum_list (map (\<lambda>v. v - mean) xs) = 0"
    using n by (simp add: sum_list_subtractf sum_list_triv mean_def)
  then have d: "sum_list ?d = - ?e" by (simp add: xs_def)
  have Q: "?Q = (\<Sum>v\<leftarrow>?d. v\<^sup>2) + ?e\<^sup>2" by (simp add: xs_def power2_eq_square o_def)
  have "?e\<^sup>2 \<le> real (length ?d) * (\<Sum>v\<leftarrow>?d. v\<^sup>2)"
    using sum_squared_le[of ?d] unfolding d power2_minus .
  also have "(\<Sum>v\<leftarrow>?d. v\<^sup>2) = ?Q - ?e\<^sup>2" using Q by simp
  finally have e: "?n * ?e\<^sup>2 \<le> real (length ys) * ?Q" by (simp add: xs_def algebra_simps)
  have "0 \<le> ?Q" by (intro sum_list_nonneg) auto
  then have sd2: "sd\<^sup>2 = ?Q / ?n" unfolding sd_def using n by simp
  have "0 < sd\<^sup>2" using False by simp
  then have Q0: "0 < ?Q" unfolding sd2 using n by (simp add: zero_less_divide_iff)
  have "(?e / sd)\<^sup>2 = ?n * ?e\<^sup>2 / ?Q" unfolding power_divide sd2 by simp
  also have "\<dots> \<le> real (length ys)" using e Q0 by (simp add: divide_le_eq)
  finally have "sqrt ((?e / sd)\<^sup>2) \<le> sqrt (real (length ys))" by (rule real_sqrt_le_mono)
  then have "\<bar>?e / sd\<bar> \<le> sqrt (real (length ys))" unfolding real_sqrt_abs .
  then show ?thesis ..
qed simp

lemma ZScore_fst: "fst (ZScore_Detect z h) \<longleftrightarrow> 5 \<le> length h \<and> zd_threshold z < snd (ZScore_Detect z h)"
  by (simp add: ZScore_Detect_def Let_def)

lemma ZScore_limit:
  assumes "history \<noteq> []"
  shows "snd (ZScore_Detect z history) \<le> sqrt (real (length history - 1)) \<and> 0 \<le> snd (ZScore_Detect z history)"
proof -
  obtain ys x where "map sg_CPU history = ys @ [x]" using assms by (metis Nil_is_map_conv rev_exhaust)
  moreover from this have "length history - 1 = length ys" by (metis butlast_snoc length_butlast length_map)
  ultimately show ?thesis using zscore_limit[of ys x] by (auto simp: ZScore_Detect_def Let_def)
qed

text \<open>
  The newest sample counts in the mean and the deviation that it is measured by, so a score is at
  most the square root of the number of the other samples. The detector with its default threshold
  reports nothing in the first ten samples, and a score above 6, on which the scaler gives up,
  takes at least 38 samples.
\<close>

theorem scores_are_limited_by_the_history:
  assumes "history \<noteq> []"
  shows "snd (ZScore_Detect z history) \<le> sqrt (real (length history - 1)) \<and>
    \<not> (fst (ZScore_Detect (NewZScoreDetector 50 3) history) \<and> length history \<le> 10) \<and>
    \<not> (snd (ZScore_Detect z history) > 6 \<and> length history \<le> 37)"
proof -
  have "\<not> fst (ZScore_Detect (NewZScoreDetector 50 3) history)" if "length history \<le> 10"
  proof -
    have "snd (ZScore_Detect (NewZScoreDetector 50 3) history) \<le> sqrt 9"
      using ZScore_limit[OF assms, of "NewZScoreDetector 50 3"] that
        real_sqrt_le_mono[of "real (length history - 1)" 9] by linarith
    then show ?thesis by (simp add: ZScore_fst NewZScoreDetector_def)
  qed
  moreover have "snd (ZScore_Detect z history) \<le> 6" if "length history \<le> 37"
  proof -
    have "sqrt (real (length history - 1)) \<le> sqrt 36" using that by (intro real_sqrt_le_mono) linarith
    then show ?thesis using ZScore_limit[OF assms, of z] by simp
  qed
  ultimately show ?thesis using ZScore_limit[OF assms] by fastforce
qed

section \<open>Examples\<close>

definition rising :: "nat \<Rightarrow> ScalingSignal" where
  "rising i = \<lparr>sg_Service = ''web'', sg_CPU = real i, sg_RAM = 64, sg_Timestamp = int i\<rparr>"

theorem slope_is_least_squares_witness:
  "let ys = map sg_CPU (map rising [0, 1, 2]); m = simpleLinearSlope (map rising [0, 1, 2]) sg_CPU
   in residual ys m (intercept ys m) \<le> residual ys 1 0"
  by (rule slope_is_least_squares) simp

theorem scores_are_limited_by_the_history_witness:
  "\<not> fst (ZScore_Detect (NewZScoreDetector 50 3) (map rising [0, 0, 0, 0, 0, 1000]))"
  using scores_are_limited_by_the_history[of "map rising [0, 0, 0, 0, 0, 1000]"] by simp

theorem median_splits_in_half_witness:
  "length [3, 1, 2 :: real] \<le> 2 * length (filter (\<lambda>x. x \<le> median [3, 1, 2]) [3, 1, 2 :: real])"
proof -
  have "[3, 1, 2 :: real] \<noteq> []" by simp
  from conjunct1[OF median_splits_in_half[OF this]] show ?thesis .
qed

theorem moving_average_favours_the_oldest_witness:
  "moving_average (1/4) ([8, 0] @ [0]) = (\<Sum>i<2. 1/4 * (1 - 1/4) ^ i * [8, 0] ! i) + (1 - 1/4) ^ 2 * 0"
  using moving_average_favours_the_oldest[of "1/4" "[8, 0]" 0] by (simp add: numeral_2_eq_2)

theorem clipping_stays_in_range_witness:
  "sg_CPU (clipOutliers (map rising [1, 1, 1, 9]) 1 ! 3) \<le> 9"
  using clipping_stays_in_range[of "map rising [1, 1, 1, 9]" 1 3 1 9] by (simp add: rising_def Let_def)

end
