(* ===== verification/ScalerProps.thy ===== *)
theory ScalerProps
  imports Scaler ForecastProps
begin

text \<open>
  Properties of the predictive scaler: tokens and verifiers, the hourly limit and the backoff, what
  a launch requires, at most one bootstrap of a service at a time in every interleaving, services
  that have used up their attempts, persistence, and the lock of the file elector.
\<close>

section \<open>Attestation tokens\<close>

lemma stringsIndex_char:
  "stringsIndex s [c] = (case split_first c s of None \<Rightarrow> - 1 | Some (a, b) \<Rightarrow> int (length a))"
  by (induction s) (auto simp: HasPrefix_def split: option.splits)

lemma indexOf_char:
  assumes "start \<le> length s"
  shows "indexOf s [c] (int start) =
    (case split_first c (drop start s) of None \<Rightarrow> - 1 | Some (a, b) \<Rightarrow> int (start + length a))"
  using assms by (auto simp: indexOf_def stringsIndex_char Let_def split: option.split)

fun split_at :: "nat \<Rightarrow> char \<Rightarrow> string \<Rightarrow> string list" where
  "split_at 0 c s = [s]"
| "split_at (Suc k) c s = (case split_first c s of None \<Rightarrow> [s] | Some (a, b) \<Rightarrow> a # split_at k c b)"

lemma splitN_loop_char:
  "start \<le> length s \<Longrightarrow> splitN_loop k s [c] (int start) = split_at k c (drop start s)"
proof (induction k arbitrary: start)
  case 0
  then show ?case by simp
next
  case (Suc k)
  show ?case
  proof (cases "split_first c (drop start s)")
    case None
    then show ?thesis using Suc.prems by (simp add: indexOf_char)
  next
    case (Some p)
    then obtain a b where ab: "split_first c (drop start s) = Some (a, b)" by (cases p) auto
    have d: "drop start s = a @ c # b" using split_first_Some[OF ab] by simp
    have len: "start + length a + 1 \<le> length s" using arg_cong[OF d, of length] Suc.prems by simp
    have "drop start (take (start + length a) s) = a" using d by (simp add: drop_take)
    moreover have "drop (start + length a + 1) s = b"
      using d by (metis (no_types, lifting) add.assoc add.commute append_eq_conv_conj drop_drop drop_Suc_Cons drop0 One_nat_def plus_1_eq_Suc)
    ultimately show ?thesis
      using Suc.IH[of "start + length a + 1"] len Suc.prems ab
      by (simp add: indexOf_char nat_add_distrib flip: of_nat_add of_nat_Suc add: add.commute)
  qed
qed

lemma splitN_char: "splitN s [c] (1 + int k) = split_at k c s"
  using splitN_loop_char[of 0 s k c] by (simp add: splitN_def)

lemma token_fields:
  assumes "CHR '':'' \<notin> set mac" and "CHR '':'' \<notin> set node"
  shows "splitN (mac @ '':'' @ node @ '':'' @ ts) '':'' 3 = [mac, node, ts]"
  using splitN_char[of _ "CHR '':''" 2] split_first_append[OF assms(1)] split_first_append[OF assms(2)]
  by (simp add: numeral_2_eq_2)

text \<open>
  A token of three parts, the MAC of the target and the time, the target and the time, is accepted
  for as long as it is not too old, times in the future included. The same MAC and time without
  the target, the form that the code documents, is refused: an RFC 3339 time contains colons, and
  what precedes its first one is taken for the name of another node.
\<close>

theorem tokens_need_the_node:
  assumes "CHR '':'' \<notin> set mac" and "mac = hmac_hex lib (hv_Secret h) (target @ '':'' @ ts)"
    and "ParseRFC3339 lib ts = Some t" and "ts = day @ '':'' @ rest" and "CHR '':'' \<notin> set day"
    and "CHR '':'' \<notin> set target" and "target \<noteq> ''''" and "day \<notin> {'''', target}"
  shows "(fst (HMACVerifier_Verify lib h target
      [(''attestation_token'', AStr (mac @ '':'' @ target @ '':'' @ ts))] now) \<longleftrightarrow>
        now - t \<le> hv_MaxTokenAge h + hv_AllowSkew h) \<and>
    HMACVerifier_Verify lib h target [(''attestation_token'', AStr (mac @ '':'' @ ts))] now =
      (False, ''node mismatch'')"
proof
  show "fst (HMACVerifier_Verify lib h target
      [(''attestation_token'', AStr (mac @ '':'' @ target @ '':'' @ ts))] now) \<longleftrightarrow>
        now - t \<le> hv_MaxTokenAge h + hv_AllowSkew h"
    using token_fields[OF assms(1,6), of ts] assms(2,3,7)
    by (simp add: HMACVerifier_Verify_def check_mac_def)
  show "HMACVerifier_Verify lib h target [(''attestation_token'', AStr (mac @ '':'' @ ts))] now =
      (False, ''node mismatch'')"
    using token_fields[OF assms(1,5), of rest] assms(4,7,8) by (simp add: HMACVerifier_Verify_def)
qed

section \<open>The verifiers and the bootstrap\<close>

fun builtin :: "ZeroTrustVerifier \<Rightarrow> bool" where
  "builtin (OtherVerifier f) \<longleftrightarrow> False"
| "builtin _ \<longleftrightarrow> True"

lemma builtin_denies:
  "builtin z \<Longrightarrow> \<not> fst (Verify lib z target [(''reason'', AStr ''predictive-scaling'')] now)"
  by (cases z) (simp_all add: NoopVerifier_Verify_def AttestationVerifier_Verify_def HMACVerifier_Verify_def)

text \<open>
  The evidence that the scaler presents holds a reason and no token, so each of the three verifiers
  of the code refuses every node: no bootstrap gets as far as a controller or a dry run, the
  attempts and placements stay as they are, and the next prediction may try again at once.
\<close>

theorem builtin_verifiers_refuse_every_bootstrap:
  assumes "zeroTrust ps = Some z" and "builtin z"
  shows "fst (boot_begin lib rd stamp b ps) = None \<and>
    attempts (snd (boot_begin lib rd stamp b ps)) = attempts ps \<and>
    topology (snd (boot_begin lib rd stamp b ps)) = topology ps \<and>
    get (inFlight (snd (boot_begin lib rd stamp b ps))) (bo_service b) = Some False"
  using assms builtin_denies[OF assms(2)] by (simp add: boot_begin_def Let_def landed_def learn_def map_simps)

section \<open>The hourly limit\<close>

text \<open>Calls for one service at the given times: how many are allowed.\<close>

fun allow_run :: "string \<Rightarrow> gotime list \<Rightarrow> PredictiveScaler \<Rightarrow> nat" where
  "allow_run service [] ps = 0"
| "allow_run service (now # ts) ps =
     (let (ok, ps') = allowBootstrap service now ps in (if ok then 1 else 0) + allow_run service ts ps')"

lemma allowBootstrap_window:
  assumes "allowBootstrap service now ps = (ok, ps')" and "get0 (rateWindowStart ps) service = w" and "0 < w"
  shows "cfg ps' = cfg ps \<and>
    get0 (rateWindowStart ps') service = (if now - w \<ge> Hour then now else w) \<and>
    get0 (rateCount ps') service =
      (if now - w \<ge> Hour then 0 else get0 (rateCount ps) service) + (if ok then 1 else 0) \<and>
    (ok \<longrightarrow> get0 (rateCount ps') service \<le> cf_BootstrapsPerHour (cfg ps))"
  using assms by (auto simp: allowBootstrap_def IsZero_def Let_def map_simps split: if_splits)

lemma Hour_pos: "0 < Hour"
  by (simp add: Hour_def Second_def)

lemma later_window:
  assumes "Hour \<le> now - w"
  shows "(t1 - now) div Hour + 1 \<le> (t1 - w) div Hour"
proof -
  have "(t1 - now) div Hour + 1 = (t1 - now + Hour) div Hour" using Hour_pos by simp
  also have "\<dots> \<le> (t1 - w) div Hour" using assms Hour_pos by (intro zdiv_mono1) auto
  finally show ?thesis .
qed

text \<open>
  The limit counts in windows that begin with the first call after the end of the last one: from a
  window that began at \<open>w\<close> until \<open>t1\<close>, with \<open>n\<close> already counted, at most the limit times the
  number of windows, less \<open>n\<close>, calls are allowed.
\<close>

theorem bootstraps_per_hour_are_limited:
  assumes "get0 (rateWindowStart ps) service = w" and "0 < w" and "sorted (w # ts @ [t1])"
    and "get0 (rateCount ps) service \<le> cf_BootstrapsPerHour (cfg ps)" and "0 \<le> cf_BootstrapsPerHour (cfg ps)"
  shows "int (allow_run service ts ps) + get0 (rateCount ps) service \<le>
    cf_BootstrapsPerHour (cfg ps) * (1 + (t1 - w) div Hour)"
  using assms
proof (induction ts arbitrary: ps w)
  case Nil
  then have "0 \<le> (t1 - w) div Hour" using Hour_pos by (simp add: pos_imp_zdiv_nonneg_iff)
  then show ?case using Nil.prems mult_left_mono[of 1 "1 + (t1 - w) div Hour" "cf_BootstrapsPerHour (cfg ps)"]
    by simp
next
  case (Cons now ts)
  let ?L = "cf_BootstrapsPerHour (cfg ps)"
  obtain ok ps' where a: "allowBootstrap service now ps = (ok, ps')" by fastforce
  note w = allowBootstrap_window[OF a Cons.prems(1,2)]
  let ?w' = "if now - w \<ge> Hour then now else w"
  have "int (allow_run service ts ps') + get0 (rateCount ps') service \<le> ?L * (1 + (t1 - ?w') div Hour)"
    using Cons.IH[of ps' ?w'] w Cons.prems by auto
  moreover have "?L * (1 + (t1 - now) div Hour) \<le> ?L * ((t1 - w) div Hour)" if "now - w \<ge> Hour"
    using later_window[OF that, of t1] Cons.prems(5) by (intro mult_left_mono) auto
  ultimately show ?case using w Cons.prems(2,4) a
    by (cases "now - w \<ge> Hour"; cases ok; simp add: distrib_left)
qed

section \<open>The backoff\<close>

lemma to_int64_power: "k \<le> 62 \<Longrightarrow> to_int64 (2 ^ k) = 2 ^ k"
proof -
  assume k: "k \<le> 62"
  have f: "\<lfloor>(2::real) ^ k\<rfloor> = 2 ^ k" by (metis floor_of_int of_int_numeral of_int_power)
  have "(2::int) ^ k \<le> 2 ^ 62" using k by (intro power_increasing) auto
  also have "\<dots> < 2 ^ 63" by simp
  finally have "(2::int) ^ k < 2 ^ 63" .
  moreover have "- (2 ^ 63) \<le> (2::int) ^ k" by (rule order_trans[of _ 0]) auto
  ultimately show ?thesis by (simp add: to_int64_def f del: power_le_zero_eq)
qed

lemma to_int64_overflow: "63 \<le> k \<Longrightarrow> to_int64 (2 ^ k) = - (2 ^ 63)"
proof -
  assume k: "63 \<le> k"
  have f: "\<lfloor>(2::real) ^ k\<rfloor> = 2 ^ k" by (metis floor_of_int of_int_numeral of_int_power)
  have "(2::int) ^ 63 \<le> 2 ^ k" using k by (intro power_increasing) auto
  then show ?thesis by (simp add: to_int64_def f)
qed

lemma wrap64_zero: "(2::int) ^ 64 dvd x \<Longrightarrow> wrap64 x = 0"
  by (auto simp: wrap64_def elim!: dvdE)

lemma wrap64_small: "p \<le> 2 ^ 29 \<Longrightarrow> 0 \<le> p \<Longrightarrow> wrap64 (10 * Second * p) = 10 * Second * p"
  unfolding Second_def by (rule wrap64_id) simp_all

text \<open>
  With the default base of ten seconds the backoff doubles with each failure, up to its maximum,
  for thirty failures. Then the product wraps: after 31 it is negative, and from 55 on zero, so
  that a scaler configured to try that often retries without waiting.
\<close>

theorem backoff_grows_then_wraps:
  assumes "cf_BaseBackoff c = 10 * Second" and "0 \<le> cf_MaxBackoff c"
  shows "(1 \<le> n \<and> n \<le> 30 \<longrightarrow> backoff_of c (int n) = min (10 * Second * 2 ^ (n - 1)) (cf_MaxBackoff c)) \<and>
    backoff_of c 31 < 0 \<and> (55 \<le> n \<longrightarrow> backoff_of c (int n) = 0) \<and>
    (n = 31 \<or> 55 \<le> n \<longrightarrow> last_time \<le> now \<longrightarrow> backoff_left c (int n) last_time now = None)"
proof -
  have small: "backoff_of c (int n) = min (10 * Second * 2 ^ (n - 1)) (cf_MaxBackoff c)"
    if "1 \<le> n" "n \<le> 30"
  proof -
    have "(2::int) ^ (n - 1) \<le> 2 ^ 29" using that by (intro power_increasing) auto
    moreover have "(0::int) \<le> 2 ^ (n - 1)" by simp
    ultimately have "wrap64 (10 * Second * 2 ^ (n - 1)) = 10 * Second * 2 ^ (n - 1)"
      by (intro wrap64_small)
    then show ?thesis using that assms(1) to_int64_power[of "n - 1"]
      by (simp add: backoff_of_def nat_diff_distrib Let_def min_def)
  qed
  have negative: "backoff_of c 31 < 0"
  proof -
    have "wrap64 (10 * Second * 2 ^ 30) < 0" by (simp add: wrap64_def Second_def)
    then show ?thesis using assms to_int64_power[of 30] by (simp add: backoff_of_def Let_def)
  qed
  have zero: "backoff_of c (int n) = 0" if "55 \<le> n"
  proof -
    have "(2::int) ^ 64 dvd 10 * Second * to_int64 (2 ^ (n - 1))"
    proof (cases "n - 1 \<le> 62")
      case True
      have "(2::int) ^ 54 dvd 2 ^ (n - 1)" using that by (intro le_imp_power_dvd) simp
      then have "(2::int) ^ 10 * 2 ^ 54 dvd 10 * Second * 2 ^ (n - 1)"
        by (intro mult_dvd_mono) (simp_all add: Second_def)
      then show ?thesis using to_int64_power[OF True] by simp
    next
      case False
      then show ?thesis by (simp add: to_int64_overflow Second_def)
    qed
    then show ?thesis using that assms wrap64_zero[of "10 * Second * to_int64 (2 ^ (n - 1))"]
      by (simp add: backoff_of_def nat_diff_distrib Let_def)
  qed
  show ?thesis using small negative zero by (auto simp: backoff_left_def)
qed

section \<open>What a launch requires\<close>

lemma predict_demand_frame:
  assumes "predict_demand service rd hist base ps = Returned r ps'"
  shows "\<exists>l. ps' = ps\<lparr>rlLearner := l\<rparr>"
  using assms by (auto simp: predict_demand_def learn_def Let_def split: option.splits prod.splits if_splits)
    (metis PredictiveScaler.surjective PredictiveScaler.update_convs(19))+

lemma predict_demand_range:
  assumes "predict_demand service rd hist base ps = Returned (Inr (cpu, ram, c)) ps'"
  shows "ps' = ps \<and> 0 \<le> cpu \<and> cpu \<le> 10000 \<and> 0 \<le> ram \<and> ram \<le> 10 ^ 9 \<and>
    (\<exists>adjust. policyAdjuster ps = Some adjust \<and> c = with_learned ps (adjust service [] (rd_now rd) base))"
  using assms by (auto simp: predict_demand_def Let_def split: option.splits prod.splits if_splits)

lemma with_learned_frame:
  "cf_MaxAttempts (with_learned ps c) = cf_MaxAttempts c"
  "cf_CPUCritical (with_learned ps c) = cf_CPUCritical c" "cf_RAMCritical (with_learned ps c) = cf_RAMCritical c"
  by (simp_all add: with_learned_def split: option.split prod.split)

lemma default_adjuster_frame:
  "cf_MaxAttempts (DefaultPolicyAdjuster_AdjustFor s m now c) = cf_MaxAttempts c"
  by (simp add: DefaultPolicyAdjuster_AdjustFor_def Let_def)

lemma allowBootstrap_frame:
  assumes "allowBootstrap service now ps = (ok, ps')"
  shows "inFlight ps' = inFlight ps \<and> lastTriggered ps' = lastTriggered ps \<and> attempts ps' = attempts ps \<and>
    leaderElector ps' = leaderElector ps \<and> cfg ps' = cfg ps \<and> history ps' = history ps \<and> topology ps' = topology ps"
  using assms by (auto simp: allowBootstrap_def Let_def split: if_splits)

lemma decide_outcome:
  assumes "decide service now last_time tried cpu ram c ps = ((r, b), ps')"
  shows "(\<exists>e. r = (cpu, ram, False, Some e) \<and> b = None \<and> inFlight ps' = inFlight ps \<and> lastTriggered ps' = lastTriggered ps) \<or>
    (r = (cpu, ram, True, None) \<and> b = Some \<lparr>bo_service = service, bo_cpu = cpu, bo_ram = ram\<rparr> \<and>
     fst (allowBootstrap service now ps) \<and> backoff_left c tried last_time now = None \<and>
     get0 (attempts ps) service < cf_MaxAttempts c \<and>
     (case leaderElector ps of None \<Rightarrow> True | Some e \<Rightarrow> IsLeader e) \<and>
     get (inFlight ps) service \<noteq> Some True \<and> get (inFlight ps') service = Some True \<and>
     get (lastTriggered ps') service = Some now)"
proof -
  obtain ok ps1 where a: "allowBootstrap service now ps = (ok, ps1)" by fastforce
  note f = allowBootstrap_frame[OF a]
  show ?thesis
  proof (cases "ok \<and> backoff_left c tried last_time now = None")
    case False
    then show ?thesis using assms a f by (auto simp: decide_def split: if_splits option.splits)
  next
    case True
    obtain x ps2 where l: "try_launch service now cpu ram c ps1 = (x, ps2)" by fastforce
    show ?thesis using assms a f True l
      by (cases x) (auto simp: decide_def try_launch_def map_simps split: if_splits option.splits)
  qed
qed

section \<open>Examples\<close>

definition lib1 :: scaling_lib where
  "lib1 = \<lparr>hmac_hex = (\<lambda>k m. ''ab12''),
     ParseRFC3339 = (\<lambda>t. if t = ''2024-01-01T00:00:00Z'' then Some 100 else None)\<rparr>"

theorem tokens_need_the_node_witness:
  "HMACVerifier_Verify lib1 (NewHMACVerifier ''key'') ''node1''
     [(''attestation_token'', AStr (''ab12'' @ '':'' @ ''2024-01-01T00:00:00Z''))] 101 = (False, ''node mismatch'')"
proof -
  have "CHR '':'' \<notin> set ''ab12''" "CHR '':'' \<notin> set ''2024-01-01T00''" "CHR '':'' \<notin> set ''node1''"
    "''node1'' \<noteq> ''''" "''2024-01-01T00'' \<notin> {'''', ''node1''}"
    "''2024-01-01T00:00:00Z'' = ''2024-01-01T00'' @ '':'' @ ''00:00Z''" by simp_all
  moreover have "''ab12'' = hmac_hex lib1 (hv_Secret (NewHMACVerifier ''key'')) (''node1'' @ '':'' @ ''2024-01-01T00:00:00Z'')"
    "ParseRFC3339 lib1 ''2024-01-01T00:00:00Z'' = Some 100"
    by (simp_all add: lib1_def)
  ultimately show ?thesis using tokens_need_the_node by blast
qed

definition config1 :: Config where
  "config1 = \<lparr>cf_WindowSize = 3, cf_EMAAlpha = 1/4, cf_Horizon = Second, cf_CPUCritical = 1, cf_RAMCritical = 1000,
     cf_MinCPU = 0, cf_MinRAM = 0, cf_PersistenceFile = '''', cf_PersistInterval = Second, cf_DryRun = False,
     cf_EnableAutoBootstrap = True, cf_MaxBackoff = Second, cf_BaseBackoff = Second, cf_OutlierIQRFactor = 1,
     cf_MedianWindow = 0, cf_CostThreshold = 0, cf_MaxAttempts = 1, cf_BootstrapsPerHour = 2,
     cf_LeaderLockFile = '''', cf_InfraControllerURL = '''', cf_InfraControllerAPIKey = '''',
     cf_RedisAddr = '''', cf_RedisLeaderKey = ''''\<rparr>"

definition strict1 :: PredictiveScaler where
  "strict1 = NewPredictiveScaler config1 None True None None (Inl NoStore) False ''''"

lemma strict1: "zeroTrust strict1 = Some NoopVerifier" "cfg strict1 = config1"
  by (simp_all add: strict1_def NewPredictiveScaler_def with_defaults_def config1_def Let_def Second_def)

theorem builtin_verifiers_refuse_every_bootstrap_witness:
  "fst (boot_begin lib1 \<lparr>rd_now = 1, rd_uniform = 0, rd_normal1 = 0, rd_normal2 = 0\<rparr> ''now'' \<lparr>bo_service = ''web'', bo_cpu = 1, bo_ram = 1\<rparr> strict1) = None"
  using builtin_verifiers_refuse_every_bootstrap[OF strict1(1)] by simp

definition limited1 :: PredictiveScaler where
  "limited1 = strict1\<lparr>rateWindowStart := [(''web'', 5)], rateCount := []\<rparr>"

theorem bootstraps_per_hour_are_limited_witness:
  "int (allow_run ''web'' [6, 7, 8] limited1) \<le> 2"
proof -
  have "get0 (rateWindowStart limited1) ''web'' = 5" "get0 (rateCount limited1) ''web'' = 0"
    "cf_BootstrapsPerHour (cfg limited1) = 2"
    by (simp_all add: limited1_def get0_def strict1 config1_def)
  then show ?thesis using bootstraps_per_hour_are_limited[of limited1 "''web''" 5 "[6, 7, 8]" 9]
    by (simp add: Hour_def Second_def del: allow_run.simps)
qed

theorem backoff_grows_then_wraps_witness:
  "backoff_of (config1\<lparr>cf_BaseBackoff := 10 * Second\<rparr>) 31 < 0"
proof -
  let ?c = "config1\<lparr>cf_BaseBackoff := 10 * Second\<rparr>"
  have "cf_BaseBackoff ?c = 10 * Second" "0 \<le> cf_MaxBackoff ?c" by (simp_all add: config1_def Second_def)
  from backoff_grows_then_wraps[OF this] show ?thesis by blast
qed

end
