(* ===== verification/Window.thy ===== *)
theory Window
  imports Main
begin

text \<open>
  Two parts of the code keep the newest samples only, one in a ring and one by cutting a slice: the service
  monitor and the predictive scaler. The contract that they share is the locale \<open>bounded_window\<close>.
\<close>

definition newest :: "nat \<Rightarrow> 'a list \<Rightarrow> 'a list" where
  "newest n xs = drop (length xs - n) xs"

lemma newest_short: "length xs \<le> n \<Longrightarrow> newest n xs = xs"
  by (simp add: newest_def)

lemma newest_newest: "newest n (newest n xs @ ys) = newest n (xs @ ys)"
proof (cases "length xs \<le> n")
  case False
  then have "newest n (newest n xs @ ys) = drop (length ys) (drop (length xs - n) (xs @ ys))"
    by (simp add: newest_def)
  also have "\<dots> = newest n (xs @ ys)" using False by (simp add: newest_def add.commute del: drop_append)
  finally show ?thesis .
qed (simp add: newest_short)

lemma length_newest: "length (newest n xs) \<le> n"
  by (simp add: newest_def)

locale bounded_window =
  fixes push :: "'a \<Rightarrow> 'w \<Rightarrow> 'w"
    and contents :: "'w \<Rightarrow> 'a list"
    and cap :: "'w \<Rightarrow> nat"
    and ok :: "'w \<Rightarrow> bool"
  assumes push_ok: "ok w \<Longrightarrow> ok (push x w)"
    and push_cap: "ok w \<Longrightarrow> cap (push x w) = cap w"
    and push_contents: "ok w \<Longrightarrow> contents (push x w) = newest (cap w) (contents w @ [x])"
begin

lemma pushes:
  assumes "ok w" and "length (contents w) \<le> cap w"
  shows "ok (fold push xs w) \<and> cap (fold push xs w) = cap w
    \<and> contents (fold push xs w) = newest (cap w) (contents w @ xs)"
  using assms
proof (induction xs arbitrary: w)
  case Nil
  then show ?case by (simp add: newest_short)
next
  case (Cons x xs)
  have "length (contents (push x w)) \<le> cap (push x w)"
    using Cons.prems by (simp add: push_contents push_cap length_newest)
  from Cons.IH[OF push_ok[OF Cons.prems(1)] this]
  show ?case using Cons.prems by (simp add: push_cap push_contents newest_newest)
qed

lemma never_longer: "ok w \<Longrightarrow> length (contents (push x w)) \<le> cap w"
  by (simp add: push_contents length_newest)

end

end
