(* ===== verification/ScalerRuns.thy ===== *)
theory ScalerRuns
  imports ScalerProps Window
begin

text \<open>
  Runs of the predictive scaler: the critical sections of predictions, the two parts of bootstraps
  and the other operations, interleaved in any order. At most one bootstrap of a service is in
  flight; a service that has used up its attempts stays down; histories stay bounded. A completed
  PredictAndScale is a run of its critical sections.
\<close>

section \<open>What a launch requires\<close>

text \<open>
  C30: A bootstrap is launched only for a valid prediction above one of the adjusted thresholds, when
  the hourly limit and the backoff admit it, attempts are left, this process is the leader or
  there is no election, and no bootstrap of the service is in flight; the service is marked then.
  Otherwise nothing is marked, and no error means that no scaling was wanted.
\<close>

theorem launches_meet_every_condition:
  assumes "PredictAndScale service rd ps = Returned ((cpu, ram, triggered, e), b) ps'"
  shows "if triggered
    then b = Some \<lparr>bo_service = service, bo_cpu = cpu, bo_ram = ram\<rparr> \<and> e = None \<and>
      0 \<le> cpu \<and> cpu \<le> 10000 \<and> 0 \<le> ram \<and> ram \<le> 10 ^ 9 \<and>
      (\<exists>adjust. policyAdjuster ps = Some adjust \<and>
        (let c = with_learned ps (adjust service [] (rd_now rd) (cfg ps))
         in wants_scaling service cpu ram c ps \<and>
            backoff_left c (get0 (attempts ps) service) (get0 (lastTriggered ps) service) (rd_now rd) = None \<and>
            get0 (attempts ps) service < cf_MaxAttempts c)) \<and>
      fst (allowBootstrap service (rd_now rd) ps) \<and>
      (case leaderElector ps of None \<Rightarrow> True | Some e \<Rightarrow> IsLeader e) \<and>
      get (inFlight ps) service \<noteq> Some True \<and> get (inFlight ps') service = Some True \<and>
      get (lastTriggered ps') service = Some (rd_now rd)
    else b = None \<and> inFlight ps' = inFlight ps \<and> lastTriggered ps' = lastTriggered ps"
proof -
  obtain hist where h: "hist = (case get (history ps) service of None \<Rightarrow> [] | Some h \<Rightarrow> h)" by simp
  show ?thesis
  proof (cases "hist = []")
    case True
    then show ?thesis using assms h by (simp add: PredictAndScale_def)
  next
    case False
    obtain r ps1 where d: "predict_demand service rd hist (cfg ps) ps = Returned r ps1"
      using assms h False by (cases "predict_demand service rd hist (cfg ps) ps") (auto simp: PredictAndScale_def)
    note frame = predict_demand_frame[OF d]
    show ?thesis
    proof (cases r)
      case (Inl err)
      then show ?thesis using assms h False d frame by (auto simp: PredictAndScale_def)
    next
      case (Inr v)
      obtain cpu' ram' c where r: "r = Inr (cpu', ram', c)" using Inr by (cases v) simp
      note range = predict_demand_range[OF d[unfolded r]]
      show ?thesis
      proof (cases "wants_scaling service cpu' ram' c ps")
        case no: False
        then show ?thesis using assms h False d r range by (auto simp: PredictAndScale_def)
      next
        case True
        then have "decide service (rd_now rd) (get0 (lastTriggered ps) service) (get0 (attempts ps) service) cpu' ram' c ps
            = (((cpu, ram, triggered, e), b), ps')"
          using assms h False d r range by (auto simp: PredictAndScale_def split: prod.splits)
        from decide_outcome[OF this] show ?thesis using range True by (auto simp: Let_def)
      qed
    qed
  qed
qed

section \<open>Steps\<close>

text \<open>
  What is under way: a prediction before its rate check, with what it read at its start; one before
  its last critical section; a bootstrap before its verification; and one that waits for its call.
\<close>

datatype pending =
    Deciding string gotime int real real Config
  | Launching string gotime real real Config
  | Starting bootstrap
  | Calling controller_call

definition keeps_attempts :: "(string \<Rightarrow> (string, any) gomap \<Rightarrow> gotime \<Rightarrow> Config \<Rightarrow> Config) \<Rightarrow> bool" where
  "keeps_attempts adjust \<longleftrightarrow> (\<forall>s m now c. cf_MaxAttempts (adjust s m now c) = cf_MaxAttempts c)"

definition history_ok :: "Config \<Rightarrow> ScalingSignal list \<Rightarrow> bool" where
  "history_ok c h \<longleftrightarrow> int (length h) \<le> cf_WindowSize c \<and> (\<forall>s\<in>set h. 0 \<le> sg_CPU s \<and> 0 \<le> sg_RAM s)"

definition after_demand ::
    "string \<Rightarrow> gotime \<Rightarrow> int \<Rightarrow> scale_error + real \<times> real \<times> Config \<Rightarrow> PredictiveScaler \<Rightarrow> pending list" where
  "after_demand service last_time tried r ps =
     (case r of
        Inl e \<Rightarrow> []
      | Inr (cpu, ram, c) \<Rightarrow>
          if wants_scaling service cpu ram c ps then [Deciding service last_time tried cpu ram c] else [])"

definition after_launch :: "scale_error + bootstrap \<Rightarrow> pending list" where
  "after_launch r = (case r of Inl e \<Rightarrow> [] | Inr b \<Rightarrow> [Starting b])"

definition after_begin :: "controller_call option \<Rightarrow> pending list" where
  "after_begin r = (case r of None \<Rightarrow> [] | Some ca \<Rightarrow> [Calling ca])"

text \<open>
  \<open>loads\<close> says whether saved states are loaded; without them a new policy adjuster must leave MaxAttempts alone.
  The step \<open>do_swap\<close> is what a backtest does to the history before and after it.
\<close>

inductive sc_step ::
    "bool \<Rightarrow> PredictiveScaler \<times> pending list \<Rightarrow> PredictiveScaler \<times> pending list \<Rightarrow> bool" for loads where
  do_record: "sc_step loads (ps, gs) (Record sig ps, gs)"
| do_predict: "get (history ps) service = Some hist \<Longrightarrow>
    predict_demand service rd hist (cfg ps) ps = Returned r ps' \<Longrightarrow>
    sc_step loads (ps, gs)
      (ps', after_demand service (get0 (lastTriggered ps) service) (get0 (attempts ps) service) r ps' @ gs)"
| do_admit: "allowBootstrap service now ps = (ok, ps') \<Longrightarrow>
    sc_step loads (ps, xs @ Deciding service last_time tried cpu ram c # ys)
      (ps', xs @ (if ok \<and> backoff_left c tried last_time now = None
                  then [Launching service now cpu ram c] else []) @ ys)"
| do_launch: "try_launch service now cpu ram c ps = (r, ps') \<Longrightarrow>
    sc_step loads (ps, xs @ Launching service now cpu ram c # ys) (ps', xs @ after_launch r @ ys)"
| do_start: "boot_begin lib rd stamp b ps = (r, ps') \<Longrightarrow>
    sc_step loads (ps, xs @ Starting b # ys) (ps', xs @ after_begin r @ ys)"
| do_finish: "sc_step loads (ps, xs @ Calling ca # ys) (boot_end ca answer seconds rd ps, xs @ ys)"
| do_load: "loads \<Longrightarrow> \<forall>h. st_History st = Some h \<longrightarrow> (\<forall>a\<in>snd ` set h. history_ok (cfg ps) a) \<Longrightarrow>
    sc_step loads (ps, gs) (snd (loadStateFromStore (Inr st) ps), gs)"
| do_swap: "history_ok (cfg ps) h \<Longrightarrow> sc_step loads (ps, gs) (ps\<lparr>history := put s h (history ps)\<rparr>, gs)"
| do_detector: "sc_step loads (ps, gs) (SetAnomalyDetector a ps, gs)"
| do_adjuster: "loads \<or> keeps_attempts f \<Longrightarrow> sc_step loads (ps, gs) (SetPolicyAdjuster (Some f) ps, gs)"
| do_verifier: "sc_step loads (ps, gs) (SetZeroTrustVerifier z ps, gs)"
| do_learner: "sc_step loads (ps, gs) (SetReinforcementLearner l ps, gs)"
| do_elector: "sc_step loads (ps, gs) (SetLeaderElector e ps, gs)"
| do_promote: "sc_step loads (ps, gs) (snd (PromoteToLeaderIfNeeded answer n ps), gs)"
| do_set_store: "sc_step loads (ps, gs) (SetStore s ps, gs)"
| do_infra: "sc_step loads (ps, gs) (SetInfraController url key ps, gs)"
| do_set_predictor: "sc_step loads (ps, gs) (SetPredictor p ps, gs)"
| do_set_function: "sc_step loads (ps, gs) (SetAutoBootstrapFunc f ps, gs)"
| do_stop: "sc_step loads (ps, gs) (Stop ps, gs)"

inductive sc_run ::
    "bool \<Rightarrow> PredictiveScaler \<times> pending list \<Rightarrow> PredictiveScaler \<times> pending list \<Rightarrow> bool" for loads where
  run_start: "sc_run loads s s"
| run_step: "sc_run loads s t \<Longrightarrow> sc_step loads t u \<Longrightarrow> sc_run loads s u"

lemma sc_run_trans: "sc_run loads t u \<Longrightarrow> sc_run loads s t \<Longrightarrow> sc_run loads s u"
  by (induction rule: sc_run.induct) (auto intro: sc_run.intros)

section \<open>Flights\<close>

fun flying :: "string \<Rightarrow> pending \<Rightarrow> bool" where
  "flying s (Starting b) \<longleftrightarrow> bo_service b = s"
| "flying s (Calling ca) \<longleftrightarrow> ca_service ca = s"
| "flying s _ \<longleftrightarrow> False"

definition in_air :: "string \<Rightarrow> pending list \<Rightarrow> nat" where
  "in_air s gs = length (filter (flying s) gs)"

lemma in_air_simps [simp]:
  "in_air s [] = 0" "in_air s (g # gs) = (if flying s g then 1 else 0) + in_air s gs"
  "in_air s (xs @ ys) = in_air s xs + in_air s ys"
  by (simp_all add: in_air_def)

definition flag :: "string \<Rightarrow> PredictiveScaler \<Rightarrow> nat" where
  "flag s ps = (if get (inFlight ps) s = Some True then 1 else 0)"

definition flights_ok :: "PredictiveScaler \<times> pending list \<Rightarrow> bool" where
  "flights_ok s \<longleftrightarrow> (\<forall>svc. in_air svc (snd s) = flag svc (fst s))"

named_theorems flight_simps \<open>the flags of services after an operation\<close>

lemma flag_landed [flight_simps]: "flag s (landed svc ps) = (if s = svc then 0 else flag s ps)"
  by (simp add: flag_def landed_def map_simps)

lemma flag_learn [flight_simps]: "flag s (learn svc r rd ps) = flag s ps"
  by (simp add: flag_def learn_def)

lemma flag_place [flight_simps]: "flag s (place svc t l ps) = flag s ps"
  by (simp add: flag_def place_def)

lemma flag_tried [flight_simps]:
  "flag s (ps\<lparr>attempts := a\<rparr>) = flag s ps" "flag s (ps\<lparr>lastTriggered := l\<rparr>) = flag s ps"
  by (simp_all add: flag_def)

lemma flag_demand: "predict_demand service rd hist base ps = Returned r ps' \<Longrightarrow> flag s ps' = flag s ps"
  using predict_demand_frame[of service rd hist base ps r ps'] by (auto simp: flag_def)

lemma flag_allow: "allowBootstrap service now ps = (ok, ps') \<Longrightarrow> flag s ps' = flag s ps"
  by (auto simp: allowBootstrap_def Let_def flag_def split: if_splits)

lemma flag_launch:
  "try_launch service now cpu ram c ps = (r, ps') \<Longrightarrow>
   flag s ps' = flag s ps + in_air s (after_launch r)"
  by (auto simp: try_launch_def flag_def after_launch_def map_simps split: if_splits)

lemma flag_fields: "inFlight ps' = inFlight ps \<Longrightarrow> flag s ps' = flag s ps"
  by (simp add: flag_def)

lemma boot_begin_flight:
  "boot_begin lib rd stamp b ps = (r, ps') \<Longrightarrow>
   (r = None \<and> (\<forall>s. flag s ps' = (if s = bo_service b then 0 else flag s ps))) \<or>
   (\<exists>ca. r = Some ca \<and> ca_service ca = bo_service b \<and> ps' = ps)"
  by (auto simp: boot_begin_def Let_def flight_simps split: if_splits)

lemma boot_end_flight: "flag s (boot_end ca answer seconds rd ps) = (if s = ca_service ca then 0 else flag s ps)"
  by (simp add: boot_end_def Let_def flight_simps)

lemma flights_keep: "flights_ok (ps, gs) \<Longrightarrow> inFlight ps' = inFlight ps \<Longrightarrow> flights_ok (ps', gs)"
  by (simp add: flights_ok_def flag_def)

lemma flights_here:
  assumes "flights_ok (ps, xs @ g # ys)" and "flying s g"
  shows "in_air s xs = 0" "in_air s ys = 0" "flag s ps = 1"
  using assms by (auto simp: flights_ok_def flag_def dest!: spec[of _ s] split: if_splits)

lemma inFlight_frames [simp]:
  "inFlight (Record sig ps) = inFlight ps"
  "inFlight (snd (loadStateFromStore l ps)) = inFlight ps"
  "inFlight (SetAnomalyDetector a ps) = inFlight ps" "inFlight (SetPolicyAdjuster p ps) = inFlight ps"
  "inFlight (SetZeroTrustVerifier z ps) = inFlight ps" "inFlight (SetReinforcementLearner r ps) = inFlight ps"
  "inFlight (SetLeaderElector e ps) = inFlight ps" "inFlight (SetStore st ps) = inFlight ps"
  "inFlight (SetInfraController u k ps) = inFlight ps" "inFlight (SetPredictor q ps) = inFlight ps"
  "inFlight (SetAutoBootstrapFunc f ps) = inFlight ps" "inFlight (Stop ps) = inFlight ps"
  "inFlight (snd (PromoteToLeaderIfNeeded ans n ps)) = inFlight ps"
  by (simp_all add: Record_def loadStateFromStore_def SetAnomalyDetector_def SetPolicyAdjuster_def
      SetZeroTrustVerifier_def SetReinforcementLearner_def SetLeaderElector_def SetStore_def
      SetInfraController_def SetPredictor_def SetAutoBootstrapFunc_def Stop_def PromoteToLeaderIfNeeded_def
      Let_def case_prod_beta split: sum.split option.split LeaderElector.split)

lemma grounded_pending [simp]:
  "in_air s (after_demand service l t r ps) = 0"
  by (simp add: after_demand_def split: sum.split)

lemma flights_step:
  assumes "sc_step loads s t" and "flights_ok s"
  shows "flights_ok t"
  using assms
proof (induction rule: sc_step.induct)
  case (do_predict ps service hist rd r ps' gs)
  then show ?case by (simp add: flights_ok_def flag_demand)
next
  case (do_admit service now ps ok ps' xs last_time tried cpu ram c ys)
  then show ?case by (simp add: flights_ok_def flag_allow)
next
  case (do_launch service now cpu ram c ps r ps' xs ys)
  then show ?case by (simp add: flights_ok_def flag_launch)
next
  case (do_start lib rd stamp b ps r ps' xs ys)
  note here = flights_here[OF do_start.prems, of "bo_service b"]
  from boot_begin_flight[OF do_start.hyps] show ?case
    using do_start.prems here by (auto simp: flights_ok_def after_begin_def split: if_splits) (metis add_0)
next
  case (do_finish ps xs ca ys answer seconds rd)
  note here = flights_here[OF do_finish.prems, of "ca_service ca"]
  show ?case using do_finish.prems here by (auto simp: flights_ok_def boot_end_flight split: if_splits)
qed (erule flights_keep, simp)+

lemma flights_run: "sc_run loads s t \<Longrightarrow> flights_ok s \<Longrightarrow> flights_ok t"
  by (induction rule: sc_run.induct) (auto intro: flights_step)

lemma New_fields:
  "inFlight (NewPredictiveScaler c pr bf sel cost loaded granted owner) = []"
  "policyAdjuster (NewPredictiveScaler c pr bf sel cost loaded granted owner) = Some DefaultPolicyAdjuster_AdjustFor"
  "cfg (NewPredictiveScaler c pr bf sel cost loaded granted owner) = with_defaults c"
  by (simp_all add: NewPredictiveScaler_def loadStateFromStore_def Let_def split: sum.split)

text \<open>
  C4: However predictions, bootstraps and the other operations interleave, at most one bootstrap of a
  service is under way, and one is under way exactly when the service is marked as in flight.
\<close>

theorem at_most_one_bootstrap_in_flight:
  assumes "sc_run True (NewPredictiveScaler c pr bf sel cost loaded granted owner, []) (ps, gs)"
  shows "in_air s gs \<le> 1 \<and> (in_air s gs = 1 \<longleftrightarrow> get (inFlight ps) s = Some True)"
  using flights_run[OF assms] by (simp add: flights_ok_def New_fields flag_def)

section \<open>PredictAndScale as a run\<close>

definition launched :: "bootstrap option \<Rightarrow> pending list" where
  "launched b = (case b of None \<Rightarrow> [] | Some b \<Rightarrow> [Starting b])"

lemma decide_run:
  assumes "decide service now last_time tried cpu ram c ps = ((res, b), ps')"
  shows "sc_run loads (ps, Deciding service last_time tried cpu ram c # gs) (ps', launched b @ gs)"
proof -
  obtain ok ps1 where a: "allowBootstrap service now ps = (ok, ps1)" by fastforce
  let ?go = "ok \<and> backoff_left c tried last_time now = None"
  have one: "sc_step loads (ps, Deciding service last_time tried cpu ram c # gs)
      (ps1, (if ?go then [Launching service now cpu ram c] else []) @ gs)"
    using sc_step.do_admit[OF a, where xs = "[]" and ys = gs] by simp
  show ?thesis
  proof (cases ?go)
    case False
    then have "ps' = ps1 \<and> b = None"
      using assms a by (auto simp: decide_def split: if_splits option.splits)
    then show ?thesis using sc_run.run_step[OF sc_run.run_start one] False by (simp add: launched_def)
  next
    case True
    obtain r ps2 where l: "try_launch service now cpu ram c ps1 = (r, ps2)" by fastforce
    have two: "sc_step loads (ps1, Launching service now cpu ram c # gs) (ps2, after_launch r @ gs)"
      using sc_step.do_launch[OF l, where xs = "[]" and ys = gs] by simp
    have "ps' = ps2 \<and> launched b = after_launch r"
      using assms a l True by (auto simp: decide_def launched_def after_launch_def split: sum.splits)
    moreover have "sc_step loads (ps, Deciding service last_time tried cpu ram c # gs)
        (ps1, Launching service now cpu ram c # gs)"
      using one True by simp
    ultimately show ?thesis using sc_run.run_step[OF sc_run.run_step[OF sc_run.run_start] two] by simp
  qed
qed

lemma PredictAndScale_run:
  assumes "PredictAndScale service rd ps = Returned (res, b) ps'"
  shows "sc_run loads (ps, gs) (ps', launched b @ gs)"
proof -
  obtain hist where h: "hist = (case get (history ps) service of None \<Rightarrow> [] | Some h \<Rightarrow> h)" by simp
  show ?thesis
  proof (cases "hist = []")
    case True
    then have "ps' = ps \<and> b = None" using assms h by (simp add: PredictAndScale_def)
    then show ?thesis by (simp add: launched_def sc_run.run_start)
  next
    case False
    then have g: "get (history ps) service = Some hist" using h by (cases "get (history ps) service") auto
    obtain r ps1 where d: "predict_demand service rd hist (cfg ps) ps = Returned r ps1"
      using assms g False by (cases "predict_demand service rd hist (cfg ps) ps") (auto simp: PredictAndScale_def)
    note one = sc_run.run_step[OF sc_run.run_start sc_step.do_predict[OF g d]]
    show ?thesis
    proof (cases "\<exists>cpu ram c. r = Inr (cpu, ram, c) \<and> wants_scaling service cpu ram c ps1")
      case False
      then have "after_demand service l t r ps1 = [] \<and> ps' = ps1 \<and> b = None" for l t
        using assms g d \<open>hist \<noteq> []\<close>
        by (auto simp: PredictAndScale_def after_demand_def split: sum.splits prod.splits)
      then show ?thesis using one by (simp add: launched_def)
    next
      case True
      then obtain cpu ram c where r: "r = Inr (cpu, ram, c)" "wants_scaling service cpu ram c ps1" by blast
      then have "decide service (rd_now rd) (get0 (lastTriggered ps) service) (get0 (attempts ps) service) cpu ram c ps1 =
          ((res, b), ps')"
        using assms g d False by (simp add: PredictAndScale_def split: prod.splits)
      from decide_run[OF this, where gs = gs] one r show ?thesis
        by (auto simp: after_demand_def intro: sc_run_trans)
    qed
  qed
qed

text \<open>
  A PredictAndScale that runs by itself is a run of its critical sections, so what holds of all
  interleavings holds of it: it adds the bootstrap that it launches, if it launches one.
\<close>

theorem PredictAndScale_refines_its_sections:
  assumes "PredictAndScale service rd ps = Returned (res, b) ps'"
  shows "sc_run loads (ps, gs) (ps', launched b @ gs)"
  by (rule PredictAndScale_run[OF assms])

section \<open>Services without attempts left\<close>

fun tuned :: "int \<Rightarrow> pending \<Rightarrow> bool" where
  "tuned m (Deciding s l t cpu ram c) \<longleftrightarrow> cf_MaxAttempts c = m"
| "tuned m (Launching s now cpu ram c) \<longleftrightarrow> cf_MaxAttempts c = m"
| "tuned m _ \<longleftrightarrow> True"

definition limits_ok :: "int \<Rightarrow> PredictiveScaler \<times> pending list \<Rightarrow> bool" where
  "limits_ok m st \<longleftrightarrow> cf_MaxAttempts (cfg (fst st)) = m \<and>
     (\<forall>f. policyAdjuster (fst st) = Some f \<longrightarrow> keeps_attempts f) \<and> (\<forall>g\<in>set (snd st). tuned m g)"

named_theorems quiet \<open>operations that leave the configuration, the adjuster and the attempts\<close>

lemma quiet_basic [quiet]:
  "cfg (Record sig ps) = cfg ps" "policyAdjuster (Record sig ps) = policyAdjuster ps" "attempts (Record sig ps) = attempts ps"
  "cfg (learn s r rd ps) = cfg ps" "policyAdjuster (learn s r rd ps) = policyAdjuster ps" "attempts (learn s r rd ps) = attempts ps"
  "cfg (landed s ps) = cfg ps" "policyAdjuster (landed s ps) = policyAdjuster ps" "attempts (landed s ps) = attempts ps"
  "cfg (place s t l ps) = cfg ps" "policyAdjuster (place s t l ps) = policyAdjuster ps" "attempts (place s t l ps) = attempts ps"
  "cfg (Stop ps) = cfg ps" "policyAdjuster (Stop ps) = policyAdjuster ps" "attempts (Stop ps) = attempts ps"
  by (simp_all add: Record_def learn_def landed_def place_def Stop_def Let_def)

lemma quiet_setters [quiet]:
  "cfg (SetAnomalyDetector a ps) = cfg ps" "policyAdjuster (SetAnomalyDetector a ps) = policyAdjuster ps" "attempts (SetAnomalyDetector a ps) = attempts ps"
  "cfg (SetPolicyAdjuster p ps) = cfg ps" "policyAdjuster (SetPolicyAdjuster p ps) = p" "attempts (SetPolicyAdjuster p ps) = attempts ps"
  "cfg (SetZeroTrustVerifier z ps) = cfg ps" "policyAdjuster (SetZeroTrustVerifier z ps) = policyAdjuster ps" "attempts (SetZeroTrustVerifier z ps) = attempts ps"
  "cfg (SetReinforcementLearner r ps) = cfg ps" "policyAdjuster (SetReinforcementLearner r ps) = policyAdjuster ps" "attempts (SetReinforcementLearner r ps) = attempts ps"
  "cfg (SetLeaderElector e ps) = cfg ps" "policyAdjuster (SetLeaderElector e ps) = policyAdjuster ps" "attempts (SetLeaderElector e ps) = attempts ps"
  "cfg (SetStore st ps) = cfg ps" "policyAdjuster (SetStore st ps) = policyAdjuster ps" "attempts (SetStore st ps) = attempts ps"
  "cfg (SetPredictor q ps) = cfg ps" "policyAdjuster (SetPredictor q ps) = policyAdjuster ps" "attempts (SetPredictor q ps) = attempts ps"
  "cfg (SetAutoBootstrapFunc f ps) = cfg ps" "policyAdjuster (SetAutoBootstrapFunc f ps) = policyAdjuster ps" "attempts (SetAutoBootstrapFunc f ps) = attempts ps"
  "cf_MaxAttempts (cfg (SetInfraController u k ps)) = cf_MaxAttempts (cfg ps)"
  "cf_WindowSize (cfg (SetInfraController u k ps)) = cf_WindowSize (cfg ps)"
  "policyAdjuster (SetInfraController u k ps) = policyAdjuster ps" "attempts (SetInfraController u k ps) = attempts ps"
  by (simp_all add: SetAnomalyDetector_def SetPolicyAdjuster_def SetZeroTrustVerifier_def
      SetReinforcementLearner_def SetLeaderElector_def SetStore_def SetInfraController_def SetPredictor_def
      SetAutoBootstrapFunc_def)

lemma quiet_promote [quiet]:
  "cfg (snd (PromoteToLeaderIfNeeded ans n ps)) = cfg ps"
  "policyAdjuster (snd (PromoteToLeaderIfNeeded ans n ps)) = policyAdjuster ps"
  "attempts (snd (PromoteToLeaderIfNeeded ans n ps)) = attempts ps"
  by (simp_all add: PromoteToLeaderIfNeeded_def case_prod_beta split: option.split LeaderElector.split)

lemma quiet_load [quiet]:
  "cfg (snd (loadStateFromStore l ps)) = cfg ps"
  "policyAdjuster (snd (loadStateFromStore l ps)) = policyAdjuster ps"
  by (simp_all add: loadStateFromStore_def Let_def split: sum.split)

lemma quiet_demand:
  assumes "predict_demand service rd hist base ps = Returned r ps'"
  shows "cfg ps' = cfg ps \<and> policyAdjuster ps' = policyAdjuster ps \<and> attempts ps' = attempts ps \<and> history ps' = history ps"
  using predict_demand_frame[OF assms] by auto

lemma quiet_allow:
  assumes "allowBootstrap service now ps = (ok, ps')"
  shows "cfg ps' = cfg ps \<and> policyAdjuster ps' = policyAdjuster ps \<and> attempts ps' = attempts ps \<and> history ps' = history ps"
  using assms by (auto simp: allowBootstrap_def Let_def split: if_splits)

lemma quiet_launch:
  assumes "try_launch service now cpu ram c ps = (r, ps')"
  shows "cfg ps' = cfg ps \<and> policyAdjuster ps' = policyAdjuster ps \<and> attempts ps' = attempts ps \<and> history ps' = history ps"
  using assms by (auto simp: try_launch_def split: if_splits)

lemma quiet_begin:
  assumes "boot_begin lib rd stamp b ps = (r, ps')"
  shows "cfg ps' = cfg ps \<and> policyAdjuster ps' = policyAdjuster ps \<and>
    (s \<noteq> bo_service b \<longrightarrow> get0 (attempts ps') s = get0 (attempts ps) s) \<and> history ps' = history ps"
  using assms by (auto simp: boot_begin_def Let_def quiet map_simps split: if_splits)
    (simp_all add: landed_def learn_def place_def)

lemma quiet_end:
  "cfg (boot_end ca answer sec rd ps) = cfg ps" "policyAdjuster (boot_end ca answer sec rd ps) = policyAdjuster ps"
  "s \<noteq> ca_service ca \<Longrightarrow> get0 (attempts (boot_end ca answer sec rd ps)) s = get0 (attempts ps) s"
  "history (boot_end ca answer sec rd ps) = history ps"
  by (simp_all add: boot_end_def Let_def quiet map_simps) (simp_all add: landed_def learn_def place_def)

lemma limits_keep:
  "limits_ok m (ps, gs) \<Longrightarrow> cf_MaxAttempts (cfg ps') = cf_MaxAttempts (cfg ps) \<Longrightarrow>
   (\<forall>f. policyAdjuster ps' = Some f \<longrightarrow> policyAdjuster ps = Some f \<or> keeps_attempts f) \<Longrightarrow> limits_ok m (ps', gs)"
  unfolding limits_ok_def by auto

lemma limits_step:
  assumes "sc_step False s t" and "limits_ok m s"
  shows "limits_ok m t"
  using assms
proof (induction rule: sc_step.induct)
  case (do_predict ps service hist rd r ps' gs)
  have "tuned m g" if g: "g \<in> set (after_demand service l t r ps')" for g l t
  proof -
    obtain cpu ram c where r: "r = Inr (cpu, ram, c)" "g = Deciding service l t cpu ram c"
      using g by (cases r) (auto simp: after_demand_def split: prod.splits if_splits)
    show ?thesis using predict_demand_range[of service rd hist "cfg ps" ps cpu ram c ps'] do_predict r
      by (auto simp: with_learned_frame limits_ok_def keeps_attempts_def)
  qed
  then show ?case using do_predict.prems quiet_demand[OF do_predict.hyps(2)] by (auto simp: limits_ok_def)
next
  case (do_admit service now ps ok ps' xs last_time tried cpu ram c ys)
  then show ?case using quiet_allow[OF do_admit.hyps] by (auto simp: limits_ok_def)
next
  case (do_launch service now cpu ram c ps r ps' xs ys)
  then show ?case using quiet_launch[OF do_launch.hyps]
    by (auto simp: limits_ok_def after_launch_def split: sum.splits)
next
  case (do_start lib rd stamp b ps r ps' xs ys)
  then show ?case using quiet_begin[OF do_start.hyps]
    by (auto simp: limits_ok_def after_begin_def split: option.splits)
next
  case (do_finish ps xs ca ys answer seconds rd)
  then show ?case by (auto simp: limits_ok_def quiet_end)
qed (erule limits_keep; simp add: quiet)+

lemma limits_run: "sc_run False s t \<Longrightarrow> limits_ok m s \<Longrightarrow> limits_ok m t"
  by (induction rule: sc_run.induct) (auto intro: limits_step)

definition spent :: "string \<Rightarrow> int \<Rightarrow> PredictiveScaler \<times> pending list \<Rightarrow> bool" where
  "spent s n st \<longleftrightarrow> get0 (attempts (fst st)) s = n \<and> in_air s (snd st) = 0"

lemma spent_keep: "spent s n (ps, gs) \<Longrightarrow> attempts ps' = attempts ps \<Longrightarrow> spent s n (ps', gs)"
  by (simp add: spent_def)

lemma spent_step:
  assumes "sc_step False st t" and "limits_ok m st" and "m \<le> n" and "spent s n st"
  shows "spent s n t"
  using assms
proof (induction rule: sc_step.induct)
  case (do_predict ps service hist rd r ps' gs)
  then show ?case using quiet_demand[OF do_predict.hyps(2)] by (simp add: spent_def)
next
  case (do_admit service now ps ok ps' xs last_time tried cpu ram c ys)
  then show ?case using quiet_allow[OF do_admit.hyps] by (simp add: spent_def)
next
  case (do_launch service now cpu ram c ps r ps' xs ys)
  have "in_air s (after_launch r) = 0"
  proof (cases "s = service")
    case True
    then have "r = Inl MaxAttemptsReached" using do_launch by (simp add: spent_def limits_ok_def try_launch_def)
    then show ?thesis by (simp add: after_launch_def)
  next
    case False
    then show ?thesis using do_launch.hyps by (auto simp: after_launch_def try_launch_def split: if_splits)
  qed
  then show ?case using do_launch quiet_launch[OF do_launch.hyps] by (simp add: spent_def)
next
  case (do_start lib rd stamp b ps r ps' xs ys)
  then have "s \<noteq> bo_service b" by (auto simp: spent_def)
  then show ?case using do_start quiet_begin[OF do_start.hyps, of s] boot_begin_flight[OF do_start.hyps]
    by (auto simp: spent_def after_begin_def)
next
  case (do_finish ps xs ca ys answer seconds rd)
  then have "s \<noteq> ca_service ca" by (auto simp: spent_def)
  then show ?case using do_finish by (simp add: spent_def quiet_end)
qed (erule spent_keep[rotated -1], simp add: quiet | simp add: spent_def quiet)+

lemma spent_run:
  "sc_run False st t \<Longrightarrow> limits_ok m st \<Longrightarrow> m \<le> n \<Longrightarrow> spent s n st \<Longrightarrow> spent s n t"
  by (induction rule: sc_run.induct) (auto intro: spent_step limits_run)

lemma limits_New:
  "limits_ok (cf_MaxAttempts (with_defaults c)) (NewPredictiveScaler c pr bf sel cost loaded granted owner, [])"
  by (simp add: limits_ok_def New_fields keeps_attempts_def default_adjuster_frame)

text \<open>
  C31: A service that has failed as often as the configuration allows, and has no bootstrap under way, is never
  bootstrapped again, as long as no state is loaded and every policy adjuster that is set leaves MaxAttempts
  alone: no operation resets its attempts, and every further prediction that asks for a bootstrap is refused.
\<close>

theorem exhausted_services_stay_down:
  assumes "sc_run False (NewPredictiveScaler c pr bf sel cost loaded granted owner, []) (ps, gs)"
    and "cf_MaxAttempts (cfg ps) \<le> get0 (attempts ps) s" and "in_air s gs = 0"
    and "sc_run False (ps, gs) (ps', gs')"
  shows "in_air s gs' = 0 \<and> get0 (attempts ps') s = get0 (attempts ps) s"
proof -
  have "limits_ok (cf_MaxAttempts (with_defaults c)) (ps, gs)" by (rule limits_run[OF assms(1) limits_New])
  then have l: "limits_ok (cf_MaxAttempts (cfg ps)) (ps, gs)" by (simp add: limits_ok_def)
  show ?thesis using spent_run[OF assms(4) l assms(2), of s] assms(3) by (simp add: spent_def)
qed

section \<open>Histories\<close>

definition histories_ok :: "PredictiveScaler \<Rightarrow> bool" where
  "histories_ok ps \<longleftrightarrow> 0 < cf_WindowSize (cfg ps) \<and> (\<forall>h\<in>snd ` set (history ps). history_ok (cfg ps) h)"

lemma histories_keep:
  "histories_ok ps \<Longrightarrow> cf_WindowSize (cfg ps') = cf_WindowSize (cfg ps) \<Longrightarrow> history ps' = history ps \<Longrightarrow> histories_ok ps'"
  by (simp add: histories_ok_def history_ok_def)

lemma histories_put:
  assumes "histories_ok ps" and "history_ok (cfg ps) h" and "history ps' = put s h (history ps)" and "cfg ps' = cfg ps"
  shows "histories_ok ps'"
  using assms set_put_subset[of s h "history ps"] by (auto simp: histories_ok_def)

lemma all_appended:
  "\<forall>x\<in>set xs. P x \<Longrightarrow> P y \<Longrightarrow> \<forall>x\<in>set (if b then drop n (xs @ [y]) else xs @ [y]). P x"
proof -
  assume "\<forall>x\<in>set xs. P x" "P y"
  then have "\<forall>x\<in>set (xs @ [y]). P x" by simp
  then show ?thesis using in_set_dropD[of _ n "xs @ [y]"] by (cases b) (auto simp del: drop_append set_append)
qed

text \<open>A history, with the size of its window, satisfies the contract of a window of the newest samples.\<close>

interpretation scaler_window: bounded_window
  "\<lambda>sig w. (fst w, add_sample (fst w) sig (snd w))" snd "\<lambda>w. nat (fst w)" "\<lambda>w. 0 < fst w"
proof
  fix w :: "int \<times> ScalingSignal list" and sig :: ScalingSignal
  assume "0 < fst w"
  then show "snd (fst w, add_sample (fst w) sig (snd w)) = newest (nat (fst w)) (snd w @ [sig])"
    by (auto simp: add_sample_def newest_def Let_def nat_diff_distrib nat_add_distrib)
qed simp_all

lemma histories_Record: "histories_ok ps \<Longrightarrow> histories_ok (Record sig ps)"
proof -
  assume ok: "histories_ok ps"
  let ?sig = "let sig = (if sg_CPU sig < 0 then sig\<lparr>sg_CPU := 0\<rparr> else sig) in
    if sg_RAM sig < 0 then sig\<lparr>sg_RAM := 0\<rparr> else sig"
  let ?old = "case get (history ps) (sg_Service ?sig) of None \<Rightarrow> [] | Some a \<Rightarrow> a"
  let ?w = "cf_WindowSize (cfg ps)"
  let ?new = "add_sample ?w ?sig ?old"
  have w: "0 < ?w" using ok by (simp add: histories_ok_def)
  have sig: "0 \<le> sg_CPU ?sig" "0 \<le> sg_RAM ?sig" by (simp_all add: Let_def)
  have old: "\<forall>x\<in>set ?old. 0 \<le> sg_CPU x \<and> 0 \<le> sg_RAM x"
    using ok get_in_set[of "history ps" "sg_Service ?sig"]
    by (force simp: histories_ok_def history_ok_def split: option.splits)
  have "int (length ?new) \<le> ?w" using scaler_window.never_longer[of "(?w, ?old)" ?sig] w by simp
  moreover have "\<forall>x\<in>set ?new. 0 \<le> sg_CPU x \<and> 0 \<le> sg_RAM x"
    using all_appended[OF old] sig unfolding add_sample_def Let_def by blast
  ultimately have "history_ok (cfg ps) ?new" unfolding history_ok_def by blast
  moreover have "history (Record sig ps) = put (sg_Service ?sig) ?new (history ps)"
    by (simp add: Record_def Let_def)
  ultimately show ?thesis by (intro histories_put[OF ok]) (simp_all add: quiet)
qed

lemma histories_load:
  assumes "histories_ok ps" and "\<forall>h. st_History st = Some h \<longrightarrow> (\<forall>a\<in>snd ` set h. history_ok (cfg ps) a)"
  shows "histories_ok (snd (loadStateFromStore (Inr st) ps))"
  using assms by (auto simp: loadStateFromStore_def histories_ok_def Let_def kept_def split: option.splits)

lemma history_frames [simp]:
  "history (SetAnomalyDetector a ps) = history ps" "history (SetPolicyAdjuster p ps) = history ps"
  "history (SetZeroTrustVerifier z ps) = history ps" "history (SetReinforcementLearner r ps) = history ps"
  "history (SetLeaderElector e ps) = history ps" "history (SetStore st ps) = history ps"
  "history (SetInfraController u k ps) = history ps" "history (SetPredictor q ps) = history ps"
  "history (SetAutoBootstrapFunc f ps) = history ps" "history (Stop ps) = history ps"
  "history (snd (PromoteToLeaderIfNeeded ans n ps)) = history ps"
  by (simp_all add: SetAnomalyDetector_def SetPolicyAdjuster_def SetZeroTrustVerifier_def
      SetReinforcementLearner_def SetLeaderElector_def SetStore_def SetInfraController_def SetPredictor_def
      SetAutoBootstrapFunc_def Stop_def PromoteToLeaderIfNeeded_def case_prod_beta
      split: option.split LeaderElector.split)

lemma histories_step:
  assumes "sc_step loads s t" and "histories_ok (fst s)"
  shows "histories_ok (fst t)"
  using assms
proof (induction rule: sc_step.induct)
  case (do_record ps gs sig)
  then show ?case by (simp add: histories_Record)
next
  case (do_predict ps service hist rd r ps' gs)
  then show ?case using quiet_demand[OF do_predict.hyps(2)] histories_keep by fastforce
next
  case (do_admit service now ps ok ps' xs last_time tried cpu ram c ys)
  then show ?case using quiet_allow[OF do_admit.hyps] histories_keep by fastforce
next
  case (do_launch service now cpu ram c ps r ps' xs ys)
  then show ?case using quiet_launch[OF do_launch.hyps] histories_keep by fastforce
next
  case (do_start lib rd stamp b ps r ps' xs ys)
  then show ?case using quiet_begin[OF do_start.hyps] histories_keep by fastforce
next
  case (do_finish ps xs ca ys answer seconds rd)
  then show ?case using histories_keep by (simp add: quiet_end)
next
  case (do_load st ps gs)
  then show ?case by (simp add: histories_load)
next
  case (do_swap ps h gs s)
  then show ?case using histories_put[of ps h "ps\<lparr>history := put s h (history ps)\<rparr>" s] by simp
qed (simp_all add: histories_ok_def history_ok_def quiet)

lemma histories_run: "sc_run loads s t \<Longrightarrow> histories_ok (fst s) \<Longrightarrow> histories_ok (fst t)"
  by (induction rule: sc_run.induct) (auto intro: histories_step)

lemma window_positive: "0 < cf_WindowSize (with_defaults c)"
  by (simp add: with_defaults_def Let_def)

text \<open>
  Unless the first loaded state has longer ones, every history has at most WindowSize samples, none
  of them negative, whatever is recorded and however the operations interleave.
\<close>

theorem histories_stay_bounded:
  assumes "sc_run True (NewPredictiveScaler c pr bf sel cost (Inl e) granted owner, []) (ps, gs)"
    and "get (history ps) s = Some h"
  shows "int (length h) \<le> cf_WindowSize (cfg ps) \<and> (\<forall>x\<in>set h. 0 \<le> sg_CPU x \<and> 0 \<le> sg_RAM x)"
proof -
  have "histories_ok (NewPredictiveScaler c pr bf sel cost (Inl e) granted owner)"
    using window_positive[of c]
    by (simp add: histories_ok_def NewPredictiveScaler_def loadStateFromStore_def Let_def)
  then have "histories_ok ps" using histories_run[OF assms(1)] by simp
  then show ?thesis using get_in_set[OF assms(2)] by (force simp: histories_ok_def history_ok_def)
qed

section \<open>Persistence\<close>

text \<open>
  What a scaler saves, another one loads: histories, attempts, the counts of the hourly limit,
  placements and the learned parameters. The times of the last triggers are not saved, so
  after a restart no service waits for its backoff, whatever its attempts.
\<close>

theorem a_scaler_loads_what_it_saved:
  assumes "saveStateToStore ps = Returned (Inr st) ps'" and "rlLearner ps = Some r"
    and "0 < rl_alpha r" and "0 < rl_horizonSeconds r"
    and "store qs \<noteq> None" and "rlLearner qs = Some q" and "lastTriggered qs = []"
    and "0 < now" and "0 \<le> cf_MaxBackoff c" and "cf_MaxBackoff c \<le> now"
  shows "\<exists>qs'. loadStateFromStore (Inr st) qs = (None, qs') \<and>
    history qs' = history ps \<and> attempts qs' = attempts ps \<and>
    rateWindowStart qs' = rateWindowStart ps \<and> rateCount qs' = rateCount ps \<and> topology qs' = topology ps \<and>
    map_option Suggest (rlLearner qs') = Some (Suggest r) \<and>
    backoff_left c (get0 (attempts qs') s) (get0 (lastTriggered qs') s) now = None"
proof -
  have st: "st = state_of ps r" using assms(1,2) by (auto simp: saveStateToStore_def split: if_splits)
  have "backoff_of c n \<le> now" for n using assms(10) by (simp add: backoff_of_def Let_def)
  then have "backoff_left c n 0 now = None" for n by (simp add: backoff_left_def not_less)
  then show ?thesis using assms(3-7)
    by (simp add: loadStateFromStore_def st state_of_def kept_def Let_def Suggest_def)
qed

section \<open>The lock file\<close>

text \<open>Electors, known by a number, for one lock file, and the locks of the operating system.\<close>

inductive lock_step ::
    "string \<Rightarrow> (nat \<Rightarrow> FileLeaderElector) \<times> flocks \<Rightarrow> (nat \<Rightarrow> FileLeaderElector) \<times> flocks \<Rightarrow> bool" for path where
  acquire: "fe_path (es i) = path \<Longrightarrow> \<forall>j. fe_f (es j) \<noteq> Some f \<Longrightarrow> FileLE_Acquire failed f (es i) locks = (answer, e, locks') \<Longrightarrow>
    lock_step path (es, locks) (es(i := e), locks')"
| release: "fe_path (es i) = path \<Longrightarrow> FileLE_Release (es i) locks = (e, locks') \<Longrightarrow>
    lock_step path (es, locks) (es(i := e), locks')"

inductive lock_run ::
    "string \<Rightarrow> (nat \<Rightarrow> FileLeaderElector) \<times> flocks \<Rightarrow> (nat \<Rightarrow> FileLeaderElector) \<times> flocks \<Rightarrow> bool" for path where
  no_step: "lock_run path s s"
| one_more: "lock_run path s t \<Longrightarrow> lock_step path t u \<Longrightarrow> lock_run path s u"

definition locks_ok :: "string \<Rightarrow> (nat \<Rightarrow> FileLeaderElector) \<times> flocks \<Rightarrow> bool" where
  "locks_ok path s \<longleftrightarrow>
     (\<forall>i. fe_path (fst s i) = path \<longrightarrow>
        (case fe_f (fst s i) of
           None \<Rightarrow> \<not> fe_isLead (fst s i)
         | Some f \<Rightarrow> fe_isLead (fst s i) \<and> get (snd s) path = Some f \<and>
             (\<forall>j. j \<noteq> i \<longrightarrow> fe_path (fst s j) = path \<longrightarrow> fe_f (fst s j) \<noteq> Some f)))"

lemma locks_ok_holder:
  assumes "locks_ok path (es, locks)" and "fe_path (es i) = path" and "fe_f (es i) = Some f"
  shows "get locks path = Some f" and "fe_path (es j) = path \<Longrightarrow> fe_f (es j) = Some g \<Longrightarrow> j = i"
proof -
  have held: "get locks path = Some g \<and> (\<forall>j. j \<noteq> i \<longrightarrow> fe_path (es j) = path \<longrightarrow> fe_f (es j) \<noteq> Some g)"
    if "fe_path (es i) = path" "fe_f (es i) = Some g" for i g
    using assms(1) that by (fastforce simp: locks_ok_def)
  show "get locks path = Some f" using held[OF assms(2,3)] by simp
  show "j = i" if "fe_path (es j) = path" "fe_f (es j) = Some g" using held[OF assms(2,3)] held[OF that] that by auto
qed

lemma locks_step: "lock_step path s t \<Longrightarrow> locks_ok path s \<Longrightarrow> locks_ok path t"
proof (induction rule: lock_step.induct)
  case (acquire es i f failed locks answer e locks')
  show ?case
  proof (cases "failed \<or> has_key locks path")
    case True
    then show ?thesis using acquire by (auto simp: FileLE_Acquire_def split: if_splits)
  next
    case False
    then have e: "e = (es i)\<lparr>fe_f := Some f, fe_isLead := True\<rparr>" "locks' = put path f locks"
      using acquire.hyps by (simp_all add: FileLE_Acquire_def)
    have "fe_f (es j) = None \<and> \<not> fe_isLead (es j)" if "fe_path (es j) = path" for j
      using locks_ok_holder(1)[OF acquire.prems that] False acquire.prems that
      by (cases "fe_f (es j)") (auto simp: has_key_def locks_ok_def dest!: spec[of _ j])
    then show ?thesis using e acquire.hyps(1) by (auto simp: locks_ok_def map_simps)
  qed
next
  case (release es i locks e locks')
  show ?case
  proof (cases "fe_f (es i)")
    case None
    then show ?thesis using release by (auto simp: FileLE_Release_def fun_upd_idem)
  next
    case (Some f)
    then have e: "e = (es i)\<lparr>fe_f := None, fe_isLead := False\<rparr>" using release.hyps
      by (auto simp: FileLE_Release_def split: if_splits)
    have "fe_f (es j) = None \<and> \<not> fe_isLead (es j)" if "fe_path (es j) = path" "j \<noteq> i" for j
      using locks_ok_holder(2)[OF release.prems release.hyps(1) Some that(1)] release.prems that
      by (cases "fe_f (es j)") (auto simp: locks_ok_def dest!: spec[of _ j])
    then show ?thesis using e release.hyps(1) by (auto simp: locks_ok_def)
  qed
qed

lemma locks_run: "lock_run path s t \<Longrightarrow> locks_ok path s \<Longrightarrow> locks_ok path t"
  by (induction rule: lock_run.induct) (auto intro: locks_step)

text \<open>
  Of the electors for one lock file at most one is the leader at any time, and it holds the lock. Its own
  next acquisition is denied, though it stays the leader.
\<close>

theorem file_electors_exclude_each_other:
  assumes "lock_run path (\<lambda>i. NewFileLeaderElector path, []) (es, locks)"
    and "fe_isLead (es i)" and "fe_path (es i) = path"
  shows "has_key locks path \<and> (fe_isLead (es j) \<and> fe_path (es j) = path \<longrightarrow> j = i) \<and>
    FileLE_Acquire False f (es i) locks = ((False, False), es i, locks)"
proof -
  have ok: "locks_ok path (es, locks)"
    by (rule locks_run[OF assms(1)]) (simp add: locks_ok_def NewFileLeaderElector_def)
  have lead: "\<exists>g. fe_f (es k) = Some g" if "fe_isLead (es k)" "fe_path (es k) = path" for k
    using ok that by (cases "fe_f (es k)") (auto simp: locks_ok_def dest!: spec[of _ k])
  obtain g where g: "fe_f (es i) = Some g" using lead[OF assms(2,3)] by blast
  have k: "has_key locks path" using locks_ok_holder(1)[OF ok assms(3) g] by (simp add: has_key_def)
  have "j = i" if "fe_isLead (es j)" "fe_path (es j) = path"
    using lead[OF that] locks_ok_holder(2)[OF ok assms(3) g that(2)] by blast
  then show ?thesis using k assms(3) by (auto simp: FileLE_Acquire_def)
qed

section \<open>A run\<close>

definition new1 :: PredictiveScaler where
  "new1 = NewPredictiveScaler config1 (Some (\<lambda>h d. (5, 100, None))) False None None (Inl ReadFailed) False ''''"

definition sig1 :: ScalingSignal where
  "sig1 = \<lparr>sg_Service = ''web'', sg_CPU = 2, sg_RAM = 90, sg_Timestamp = 4\<rparr>"

definition rd1 :: readings where
  "rd1 = \<lparr>rd_now = 7, rd_uniform = 0, rd_normal1 = 0, rd_normal2 = 0\<rparr>"

definition ready1 :: PredictiveScaler where
  "ready1 = SetZeroTrustVerifier None (SetPolicyAdjuster (Some (\<lambda>s m t c. c)) (SetAnomalyDetector None
     (SetReinforcementLearner None (Record sig1 new1))))"

definition b1 :: bootstrap where
  "b1 = \<lparr>bo_service = ''web'', bo_cpu = 5, bo_ram = 100\<rparr>"

definition flying1 :: PredictiveScaler where
  "flying1 = ready1\<lparr>rateWindowStart := [(''web'', 7)], rateCount := [(''web'', 1)],
     inFlight := [(''web'', True)], lastTriggered := [(''web'', 7)]\<rparr>"

definition call1 :: controller_call where
  "call1 = \<lparr>ca_service = ''web'', ca_target = ''web-scale-now'', ca_route = NoRoute\<rparr>"

definition failed1 :: PredictiveScaler where
  "failed1 = boot_end call1 None 1 rd1 flying1"

lemma config1_paths: "cf_RedisAddr config1 = ''''" "cf_PersistenceFile config1 = ''''" "cf_LeaderLockFile config1 = ''''"
  by (simp_all add: config1_def)

lemma config1_defaults: "with_defaults config1 = config1"
  by (simp add: with_defaults_def config1_def Let_def Second_def)

lemmas sample_defs = new1_def NewPredictiveScaler_def config1_defaults config1_paths Let_def

lemma new1:
  "cfg new1 = config1" "history new1 = []" "inFlight new1 = []" "attempts new1 = []" "lastTriggered new1 = []"
  "rateWindowStart new1 = []" "rateCount new1 = []" "predictor new1 = Some (\<lambda>h d. (5, 100, None))"
  "nodeSelector new1 = None" "costEstimator new1 = None" "leaderElector new1 = None" "autoBootstrap new1 = False"
  by (simp_all add: sample_defs)

lemmas setter_defs = SetZeroTrustVerifier_def SetPolicyAdjuster_def SetAnomalyDetector_def SetReinforcementLearner_def

lemma ready1:
  "cfg ready1 = config1" "history ready1 = [(''web'', [sig1])]" "inFlight ready1 = []" "attempts ready1 = []"
  "lastTriggered ready1 = []" "rateWindowStart ready1 = []" "rateCount ready1 = []"
  "predictor ready1 = Some (\<lambda>h d. (5, 100, None))" "nodeSelector ready1 = None" "costEstimator ready1 = None"
  "leaderElector ready1 = None" "autoBootstrap ready1 = False" "zeroTrust ready1 = None" "anomalyDetector ready1 = None"
  "rlLearner ready1 = None" "policyAdjuster ready1 = Some (\<lambda>s m t c. c)"
  by (simp_all add: ready1_def setter_defs Record_def add_sample_def new1 sig1_def config1_def Let_def)

lemma predict1:
  "PredictAndScale ''web'' rd1 ready1 = Returned ((5, 100, True, None), Some b1) flying1"
proof -
  have d: "predict_demand ''web'' rd1 [sig1] config1 ready1 = Returned (Inr (5, 100, config1)) ready1"
    by (simp add: predict_demand_def ready1 anomaly_def with_learned_def raw_prediction_def Let_def)
  have w: "wants_scaling ''web'' 5 100 config1 ready1"
    by (simp add: wants_scaling_def ready1) (simp add: config1_def)
  have "decide ''web'' 7 0 0 5 100 config1 ready1 = (((5, 100, True, None), Some b1), flying1)"
    by (simp add: decide_def allowBootstrap_def ready1 IsZero_def get0_def backoff_left_def try_launch_def Let_def
        flying1_def b1_def) (simp add: config1_def)
  then show ?thesis using d w by (simp add: PredictAndScale_def ready1 rd1_def get0_def)
qed

lemma begin1: "boot_begin lib rd1 ''now'' b1 flying1 = (Some call1, flying1)"
  by (simp add: boot_begin_def choose_target_def flying1_def ready1 b1_def call1_def Let_def)
    (simp add: config1_def)

lemma run1: "sc_run loads (new1, []) (flying1, [Starting b1])"
proof -
  have "sc_run loads (new1, []) (ready1, [])"
    unfolding ready1_def
    by (intro sc_run.run_step[OF _ sc_step.do_verifier] sc_run.run_step[OF _ sc_step.do_adjuster]
        sc_run.run_step[OF _ sc_step.do_detector] sc_run.run_step[OF _ sc_step.do_learner]
        sc_run.run_step[OF _ sc_step.do_record] sc_run.run_start) (simp add: keeps_attempts_def)
  moreover have "sc_run loads (ready1, []) (flying1, [Starting b1])"
    using PredictAndScale_run[OF predict1, of loads "[]"] by (simp add: launched_def)
  ultimately show ?thesis by (rule sc_run_trans[rotated])
qed

lemma run2: "sc_run loads (new1, []) (failed1, [])"
proof -
  have "sc_step loads (flying1, [Starting b1]) (flying1, [Calling call1])"
    using sc_step.do_start[OF begin1, where xs = "[]" and ys = "[]"] by (simp add: after_begin_def)
  moreover have "sc_step loads (flying1, [Calling call1]) (failed1, [])"
    using sc_step.do_finish[where xs = "[]" and ys = "[]"] unfolding failed1_def by simp
  ultimately show ?thesis by (blast intro: run1 sc_run.run_step)
qed

lemma failed1: "cfg failed1 = config1" "attempts failed1 = [(''web'', 1)]" "history failed1 = [(''web'', [sig1])]"
  by (simp_all add: failed1_def boot_end_def call1_def Let_def landed_def learn_def flying1_def ready1 get0_def)

theorem PredictAndScale_refines_its_sections_witness:
  "sc_run True (ready1, []) (flying1, [Starting b1])"
  using PredictAndScale_refines_its_sections[OF predict1, of True "[]"] by (simp add: launched_def)

theorem at_most_one_bootstrap_in_flight_witness:
  "in_air ''web'' [Starting b1] = 1 \<and> get (inFlight flying1) ''web'' = Some True"
  using at_most_one_bootstrap_in_flight[OF run1[unfolded new1_def], of "''web''"] by (simp add: b1_def)

theorem exhausted_services_stay_down_witness:
  "get0 (attempts failed1) ''web'' = 1 \<and> in_air ''web'' [] = 0"
  using exhausted_services_stay_down[OF run2[unfolded new1_def], of "''web''", OF _ _ sc_run.run_start]
  by (simp add: failed1 get0_def config1_def)

theorem histories_stay_bounded_witness:
  "int (length [sig1]) \<le> cf_WindowSize (cfg failed1)"
  using histories_stay_bounded[OF run2[unfolded new1_def], of "''web''" "[sig1]"] by (simp add: failed1)

definition saver1 :: PredictiveScaler where
  "saver1 = SetStore (Some OtherStore) (SetReinforcementLearner (Some (NewReinforcementLearner (1/4) Second)) failed1)"

theorem a_scaler_loads_what_it_saved_witness:
  "\<exists>qs'. loadStateFromStore (Inr (state_of saver1 (NewReinforcementLearner (1/4) Second)))
      (SetStore (Some OtherStore) new1) = (None, qs') \<and> attempts qs' = [(''web'', 1)]"
proof -
  let ?r = "NewReinforcementLearner (1/4) Second" and ?qs = "SetStore (Some OtherStore) new1"
  have s: "saveStateToStore saver1 = Returned (Inr (state_of saver1 ?r)) saver1" "rlLearner saver1 = Some ?r"
    "attempts saver1 = [(''web'', 1)]"
    by (simp_all add: saveStateToStore_def saver1_def SetStore_def SetReinforcementLearner_def failed1)
  have r: "0 < rl_alpha ?r" "0 < rl_horizonSeconds ?r" by (simp_all add: NewReinforcementLearner_def Second_def)
  obtain q where "store ?qs \<noteq> None" "rlLearner ?qs = Some q" "lastTriggered ?qs = []"
    by (simp add: SetStore_def new1) (simp add: sample_defs)
  from a_scaler_loads_what_it_saved[OF s(1,2) r this, of "2 * Second" config1 "''web''"] show ?thesis
    by (auto simp: config1_def Second_def s(3))
qed

theorem file_electors_exclude_each_other_witness:
  "FileLE_Acquire False 9 (\<lparr>fe_path = ''lock'', fe_f = Some 4, fe_isLead = True\<rparr>) [(''lock'', 4)] =
     ((False, False), \<lparr>fe_path = ''lock'', fe_f = Some 4, fe_isLead = True\<rparr>, [(''lock'', 4)])"
proof -
  let ?es = "\<lambda>i::nat. NewFileLeaderElector ''lock''"
  let ?e = "\<lparr>fe_path = ''lock'', fe_f = Some 4, fe_isLead = True\<rparr>"
  have "lock_step ''lock'' (?es, []) (?es(1 := ?e), [(''lock'', 4)])"
    by (rule lock_step.acquire[where failed = False and answer = "(True, False)" and f = 4])
      (simp_all add: NewFileLeaderElector_def FileLE_Acquire_def has_key_def)
  then have run: "lock_run ''lock'' (?es, []) (?es(1 := ?e), [(''lock'', 4)])"
    by (blast intro: lock_run.intros)
  show ?thesis using file_electors_exclude_each_other[OF run, of 1] by simp
qed

theorem launches_meet_every_condition_witness:
  "fst (allowBootstrap ''web'' 7 ready1) \<and> get (inFlight flying1) ''web'' = Some True"
  using launches_meet_every_condition[OF predict1] by (simp add: rd1_def)

end
