(* ===== verification/Gateway.thy ===== *)
theory Gateway
  imports GoBytes GoPath
begin

text \<open>
  The parts of the connector core, \<^verbatim>\<open>src/connectors/connector.go\<close>: requests and responses, hooks,
  the store of asynchronous jobs with its optional files, the rate and geography policy, the record
  of failures, and the file-backed vault with its lock. Random IDs are arguments, given by their
  bytes; JSON, base64, AES-GCM and HMAC-SHA256 are parameters (standard library). A file of a job is
  what its JSON decodes to, under its path.
\<close>

section \<open>Requests and responses\<close>

abbreviation OpDiscover :: string where "OpDiscover \<equiv> ''discover''"
abbreviation OpList :: string where "OpList \<equiv> ''list''"
abbreviation OpManage :: string where "OpManage \<equiv> ''manage''"
abbreviation OpCustom :: string where "OpCustom \<equiv> ''custom''"

record GatewayRequest =
  gr_RequestID :: string
  gr_TraceID :: string
  gr_CreatedAt :: gotime
  gr_ServiceName :: string
  gr_Credentials :: "(string, any) gomap"
  gr_Operation :: string
  gr_ResourceType :: string
  gr_ResourceSpec :: "(string, any) gomap"
  gr_Extra :: "(string, any) gomap"
  gr_Policy :: "(string, any) gomap"
  gr_Budget :: float64
  gr_Deadline :: gotime
  gr_Async :: bool
  gr_CallbackURL :: string
  gr_Metadata :: "(string, any) gomap"

record ResourceMetadata =
  rm_ID :: string
  rm_Name :: string
  rm_Type :: string
  rm_Region :: string
  rm_Status :: string
  rm_Tags :: "(string, string) gomap"
  rm_CreatedAt :: gotime
  rm_UpdatedAt :: gotime
  rm_Meta :: "(string, any) gomap"

record GatewayResponse =
  gs_Success :: bool
  gs_StatusCode :: int
  gs_ErrorCode :: int
  gs_Error :: string
  gs_Message :: string
  gs_Data :: "(string, any) gomap"
  gs_Resources :: "ResourceMetadata list"
  gs_AsyncID :: string
  gs_TraceID :: string
  gs_Metrics :: "(string, any) gomap"
  gs_Timestamp :: gotime

definition no_response :: GatewayResponse where
  "no_response = \<lparr>gs_Success = False, gs_StatusCode = 0, gs_ErrorCode = 0, gs_Error = '''', gs_Message = '''',
     gs_Data = [], gs_Resources = [], gs_AsyncID = '''', gs_TraceID = '''', gs_Metrics = [], gs_Timestamp = 0\<rparr>"

datatype conn_error =
    ErrNotFound | ErrInvalidRequest | ErrAuthFailed | MissingServiceName | MissingSecret | OtherError string

definition StandardizeResponse :: "gotime \<Rightarrow> GatewayResponse \<Rightarrow> GatewayResponse" where
  "StandardizeResponse now res = (if IsZero (gs_Timestamp res) then res\<lparr>gs_Timestamp := now\<rparr> else res)"

definition GenerateSecureID :: "string \<Rightarrow> bytes \<Rightarrow> string" where
  "GenerateSecureID prefix b = prefix @ ''-'' @ hex_EncodeToString b"

definition GenerateRequestID :: "bytes \<Rightarrow> string" where
  "GenerateRequestID b = GenerateSecureID ''req'' b"

definition ValidateBasicRequest :: "bytes \<Rightarrow> GatewayRequest \<Rightarrow> conn_error option \<times> GatewayRequest" where
  "ValidateBasicRequest rnd req =
     (let req = (if gr_RequestID req = '''' then req\<lparr>gr_RequestID := GenerateRequestID rnd\<rparr> else req)
      in (if gr_ServiceName req = '''' then Some MissingServiceName else None, req))"

text \<open>ErrorResourceMissing and ErrorInternal.\<close>

definition ErrorResourceMissing :: int where "ErrorResourceMissing = 2001"
definition ErrorInternal :: int where "ErrorInternal = 9001"

definition MaskCredentials :: "(string, any) gomap \<Rightarrow> (string, any) gomap" where
  "MaskCredentials creds =
     map (\<lambda>(k, v). (k, case v of
        AStr x \<Rightarrow>
          if length x > 8 then AStr (take 4 x @ ''...'' @ drop (length x - 4) x) else AStr ''****''
      | _ \<Rightarrow> AStr ''REDACTED'')) creds"

text \<open>\<open>Marshal\<close> may fail; \<open>hmac_hex\<close> takes the secret and the bytes.\<close>

definition SignRequestHMAC ::
    "(GatewayRequest \<Rightarrow> bytes option) \<Rightarrow> (string \<Rightarrow> bytes \<Rightarrow> string) \<Rightarrow> string \<Rightarrow> GatewayRequest option
      \<Rightarrow> conn_error + string" where
  "SignRequestHMAC Marshal hmac_hex secret req =
     (case req of
        None \<Rightarrow> Inl MissingSecret
      | Some r \<Rightarrow>
          if secret = '''' then Inl MissingSecret
          else case Marshal r of None \<Rightarrow> Inl (OtherError ''json'') | Some b \<Rightarrow> Inr (hmac_hex secret b))"

section \<open>Jobs\<close>

record inMemoryJob =
  ij_Result :: GatewayResponse
  ij_Done :: bool
  ij_At :: gotime
  ij_TTL :: gotime

type_synonym job_files = "(string, inMemoryJob) gomap"

record InMemoryAsyncStore =
  as_store :: "(string, inMemoryJob) gomap"
  as_dir :: string
  as_ttl :: duration
  as_stopped :: bool

definition NewInMemoryAsyncStore :: "string \<Rightarrow> InMemoryAsyncStore" where
  "NewInMemoryAsyncStore dir =
     \<lparr>as_store = [], as_dir = dir, as_ttl = 24 * Hour, as_stopped = False\<rparr>"

definition job_path :: "string \<Rightarrow> string \<Rightarrow> string" where
  "job_path dir jid = Join2 dir (jid @ ''.json'')"

text \<open>The errors of the file system are ignored: \<open>disk_ok\<close> is whether the file was written.\<close>

definition persist_job :: "bool \<Rightarrow> string \<Rightarrow> inMemoryJob \<Rightarrow> InMemoryAsyncStore \<Rightarrow> job_files \<Rightarrow> job_files" where
  "persist_job disk_ok jid job a fs =
     (if as_dir a = '''' \<or> \<not> disk_ok then fs else put (job_path (as_dir a) jid) job fs)"

definition load_job :: "string \<Rightarrow> InMemoryAsyncStore \<Rightarrow> job_files \<Rightarrow> inMemoryJob option" where
  "load_job jid a fs = (if as_dir a = '''' then None else get fs (job_path (as_dir a) jid))"

definition StartJob ::
    "bool \<Rightarrow> bytes \<Rightarrow> gotime \<Rightarrow> InMemoryAsyncStore \<Rightarrow> job_files \<Rightarrow> string \<times> InMemoryAsyncStore \<times> job_files" where
  "StartJob disk_ok rnd now a fs =
     (let jid = GenerateSecureID ''async'' rnd;
          job = \<lparr>ij_Result = no_response, ij_Done = False, ij_At = now, ij_TTL = now + as_ttl a\<rparr>
      in (jid, a\<lparr>as_store := put jid job (as_store a)\<rparr>, persist_job disk_ok jid job a fs))"

text \<open>The end of the job's goroutine; a job that was cleaned up meanwhile is entered again.\<close>

definition finish_job ::
    "bool \<Rightarrow> string \<Rightarrow> GatewayResponse \<Rightarrow> gotime \<Rightarrow> InMemoryAsyncStore \<Rightarrow> job_files \<Rightarrow> InMemoryAsyncStore \<times> job_files" where
  "finish_job disk_ok jid res now a fs =
     (let job = \<lparr>ij_Result = res, ij_Done = True, ij_At = now, ij_TTL = now + as_ttl a\<rparr>
      in (a\<lparr>as_store := put jid job (as_store a)\<rparr>, persist_job disk_ok jid job a fs))"

definition PollJob :: "string \<Rightarrow> InMemoryAsyncStore \<Rightarrow> job_files \<Rightarrow> GatewayResponse \<times> bool" where
  "PollJob jid a fs =
     (case get (as_store a) jid of
        Some j \<Rightarrow> (ij_Result j, ij_Done j)
      | None \<Rightarrow>
          (case load_job jid a fs of
             Some j \<Rightarrow> (ij_Result j, ij_Done j)
           | None \<Rightarrow> (no_response, False)))"

definition expired :: "gotime \<Rightarrow> InMemoryAsyncStore \<Rightarrow> inMemoryJob \<Rightarrow> bool" where
  "expired now a j \<longleftrightarrow> ij_At j < now - as_ttl a \<or> now > ij_TTL j"

definition Cleanup :: "gotime \<Rightarrow> InMemoryAsyncStore \<Rightarrow> job_files \<Rightarrow> InMemoryAsyncStore \<times> job_files" where
  "Cleanup now a fs =
     (let old = map fst (filter (\<lambda>(k, j). expired now a j) (as_store a))
      in (a\<lparr>as_store := filter (\<lambda>(k, j). \<not> expired now a j) (as_store a)\<rparr>,
          if as_dir a = '''' then fs else foldl (\<lambda>fs k. del (job_path (as_dir a) k) fs) fs old))"

definition cleanup_tick :: "gotime \<Rightarrow> InMemoryAsyncStore \<Rightarrow> job_files \<Rightarrow> InMemoryAsyncStore \<times> job_files" where
  "cleanup_tick now a fs = (if as_stopped a then (a, fs) else Cleanup now a fs)"

definition ShutdownStore :: "InMemoryAsyncStore \<Rightarrow> (unit, InMemoryAsyncStore) outcome" where
  "ShutdownStore a = (if as_stopped a then Panicked a else Returned () (a\<lparr>as_stopped := True\<rparr>))"

section \<open>Hooks\<close>

type_synonym BeforeRequestHook = "GatewayRequest \<Rightarrow> conn_error option \<times> GatewayRequest"
type_synonym AfterResponseHook =
  "GatewayRequest \<Rightarrow> GatewayResponse \<Rightarrow> conn_error option \<times> GatewayRequest \<times> GatewayResponse"

record BaseConnector =
  beforeHooks :: "BeforeRequestHook list"
  afterHooks :: "AfterResponseHook list"
  b_Async :: "InMemoryAsyncStore option"

definition NewBaseConnector :: "string \<Rightarrow> BaseConnector" where
  "NewBaseConnector dir =
     \<lparr>beforeHooks = [], afterHooks = [], b_Async = Some (NewInMemoryAsyncStore dir)\<rparr>"

definition RegisterBeforeHook :: "BeforeRequestHook \<Rightarrow> BaseConnector \<Rightarrow> BaseConnector" where
  "RegisterBeforeHook h b = b\<lparr>beforeHooks := beforeHooks b @ [h]\<rparr>"

definition RegisterAfterHook :: "AfterResponseHook \<Rightarrow> BaseConnector \<Rightarrow> BaseConnector" where
  "RegisterAfterHook h b = b\<lparr>afterHooks := afterHooks b @ [h]\<rparr>"

fun run_before :: "BeforeRequestHook list \<Rightarrow> GatewayRequest \<Rightarrow> conn_error option \<times> GatewayRequest" where
  "run_before [] req = (None, req)"
| "run_before (h # hs) req =
     (case h req of (Some e, req) \<Rightarrow> (Some e, req) | (None, req) \<Rightarrow> run_before hs req)"

definition runBefore :: "BaseConnector \<Rightarrow> GatewayRequest \<Rightarrow> conn_error option \<times> GatewayRequest" where
  "runBefore b req = run_before (beforeHooks b) req"

fun run_after ::
    "AfterResponseHook list \<Rightarrow> GatewayRequest \<Rightarrow> GatewayResponse
      \<Rightarrow> conn_error option \<times> GatewayRequest \<times> GatewayResponse" where
  "run_after [] req res = (None, req, res)"
| "run_after (h # hs) req res =
     (case h req res of
        (Some e, req, res) \<Rightarrow> (Some e, req, res)
      | (None, req, res) \<Rightarrow> run_after hs req res)"

definition runAfter ::
    "BaseConnector \<Rightarrow> GatewayRequest \<Rightarrow> GatewayResponse \<Rightarrow> conn_error option \<times> GatewayRequest \<times> GatewayResponse" where
  "runAfter b req res = run_after (afterHooks b) req res"

section \<open>Policy\<close>

record InMemoryPolicyEngine =
  ratePerMin :: "(string, int) gomap"
  ge_tokens :: "(string, float64) gomap"
  ge_lastRefill :: "(string, gotime) gomap"
  geoBlacklist :: "(string, unit) gomap"

definition NewInMemoryPolicyEngine :: InMemoryPolicyEngine where
  "NewInMemoryPolicyEngine = \<lparr>ratePerMin = [], ge_tokens = [], ge_lastRefill = [], geoBlacklist = []\<rparr>"

definition SetRate :: "string \<Rightarrow> int \<Rightarrow> gotime \<Rightarrow> InMemoryPolicyEngine \<Rightarrow> InMemoryPolicyEngine" where
  "SetRate service perMinute now p =
     p\<lparr>ratePerMin := put service perMinute (ratePerMin p),
       ge_tokens := put service (of_int perMinute) (ge_tokens p),
       ge_lastRefill := put service now (ge_lastRefill p)\<rparr>"

definition BlacklistGeo :: "string \<Rightarrow> InMemoryPolicyEngine \<Rightarrow> InMemoryPolicyEngine" where
  "BlacklistGeo code p = p\<lparr>geoBlacklist := put code () (geoBlacklist p)\<rparr>"

definition geo_blocked :: "GatewayRequest \<Rightarrow> InMemoryPolicyEngine \<Rightarrow> bool" where
  "geo_blocked req p \<longleftrightarrow>
     (case get (gr_Metadata req) ''geo'' of
        Some (AStr g) \<Rightarrow> g \<noteq> '''' \<and> has_key (geoBlacklist p) g
      | _ \<Rightarrow> False)"

text \<open>One request against the bucket of a service: its limit per minute, its tokens, its last refill.\<close>

definition take_token :: "int \<Rightarrow> gotime \<Rightarrow> float64 \<times> gotime \<Rightarrow> bool \<times> float64 \<times> gotime" where
  "take_token limit now bucket =
     (let (tokens, last_time) = bucket;
          last_time = (if IsZero last_time then now else last_time);
          refill = Seconds (now - last_time) * (of_int limit / 60);
          tokens = (if tokens + refill > of_int limit then of_int limit else tokens + refill)
      in if tokens \<ge> 1 then (True, tokens - 1, now) else (False, tokens, now))"

definition Allow :: "GatewayRequest \<Rightarrow> gotime \<Rightarrow> InMemoryPolicyEngine \<Rightarrow> (bool \<times> string) \<times> InMemoryPolicyEngine" where
  "Allow req now p =
     (if geo_blocked req p then ((False, ''geo-blocked''), p)
      else let service = gr_ServiceName req; limit = get0 (ratePerMin p) service
        in if limit \<le> 0 then ((True, ''''), p)
           else let (ok, tokens, last_time) =
                  take_token limit now (get0 (ge_tokens p) service, get0 (ge_lastRefill p) service)
             in ((ok, if ok then '''' else ''rate-limited''),
                 p\<lparr>ge_tokens := put service tokens (ge_tokens p),
                   ge_lastRefill := put service last_time (ge_lastRefill p)\<rparr>))"

section \<open>Failures of connectors\<close>

record ConnHealing =
  failures :: "(string, int) gomap"
  lastFail :: "(string, gotime) gomap"
  recoverCh :: "string chan"
  Failovers :: "(string, string list) gomap"

definition NewSelfHealing :: ConnHealing where
  "NewSelfHealing = \<lparr>failures = [], lastFail = [], recoverCh = make_chan 100, Failovers = []\<rparr>"

definition RegisterFailure :: "string \<Rightarrow> gotime \<Rightarrow> ConnHealing \<Rightarrow> ConnHealing" where
  "RegisterFailure name now s =
     (let n = get0 (failures s) name + 1;
          s = s\<lparr>failures := put name n (failures s), lastFail := put name now (lastFail s)\<rparr>
      in if n \<ge> 3 then
           (case try_send name (recoverCh s) of None \<Rightarrow> s | Some c \<Rightarrow> s\<lparr>recoverCh := c\<rparr>)
         else s)"

definition Reset :: "string \<Rightarrow> ConnHealing \<Rightarrow> ConnHealing" where
  "Reset name s = s\<lparr>failures := del name (failures s), lastFail := del name (lastFail s)\<rparr>"

text \<open>
  The recovery of a name, in two parts: what it reads at its start, \<open>None\<close> when there is nothing to do
  and otherwise the time that it sleeps, and the reset when it wakes up.
\<close>

definition recovery_delay :: "string \<Rightarrow> gotime \<Rightarrow> ConnHealing \<Rightarrow> duration option" where
  "recovery_delay name now s =
     (let cnt = get0 (failures s) name; since = now - get0 (lastFail s) name; delay = cnt * Second
      in if cnt = 0 then None else Some (if since < delay then delay - since else 0))"

definition attemptRecovery :: "string \<Rightarrow> gotime \<Rightarrow> ConnHealing \<Rightarrow> ConnHealing" where
  "attemptRecovery name now s = (case recovery_delay name now s of None \<Rightarrow> s | Some d \<Rightarrow> Reset name s)"

definition recovery_tick :: "gotime \<Rightarrow> ConnHealing \<Rightarrow> ConnHealing" where
  "recovery_tick now s =
     (case try_recv (recoverCh s) of
        None \<Rightarrow> s
      | Some (name, c) \<Rightarrow> attemptRecovery name now (s\<lparr>recoverCh := c\<rparr>))"

section \<open>The vault\<close>

record vault_lib = aead +
  base64_Encode :: "bytes \<Rightarrow> string"
  base64_Decode :: "string \<Rightarrow> bytes option"
  json_Marshal :: "(string, any) gomap \<Rightarrow> bytes option"
  json_Unmarshal :: "bytes \<Rightarrow> (string, any) gomap option"

datatype vault_error = VaultNotFound | BadKey | NoNonce | BadPayload | BadBase64 | OpenFailed | BadJSON | VaultIO

record FileVault =
  fv_key :: bytes
  fv_path :: string
  fv_mu :: rwmutex
  fv_mem :: "(string, string) gomap"

type_synonym vault_files = "(string, (string, string) gomap) gomap"

text \<open>\<open>read_fails\<close>: the file exists and cannot be read or decoded; its error is ignored.\<close>

definition NewFileVault :: "string \<Rightarrow> bytes \<Rightarrow> bool \<Rightarrow> vault_files \<Rightarrow> FileVault" where
  "NewFileVault path key read_fails fs =
     \<lparr>fv_key = key, fv_path = path, fv_mu = Unlocked,
      fv_mem = (if read_fails then [] else case get fs path of None \<Rightarrow> [] | Some m \<Rightarrow> m)\<rparr>"

definition vault_key :: "vault_lib \<Rightarrow> string \<Rightarrow> bytes \<Rightarrow> bytes" where
  "vault_key lib env_key fresh =
     (if env_key = '''' then fresh
      else case base64_Decode lib env_key of
        None \<Rightarrow> fresh
      | Some b \<Rightarrow> if length b \<ge> 16 then b else fresh)"

text \<open>The nonce is what the generator of random bytes gives, unless it fails. Neither method takes the lock.\<close>

definition Encrypt :: "vault_lib \<Rightarrow> bytes option \<Rightarrow> bytes \<Rightarrow> FileVault \<Rightarrow> vault_error + string" where
  "Encrypt lib nonce text v =
     (if \<not> aes_key_ok (fv_key v) then Inl BadKey
      else case nonce of
        None \<Rightarrow> Inl NoNonce
      | Some nonce \<Rightarrow> Inr (base64_Encode lib (nonce @ gcm_Seal lib (fv_key v) nonce text)))"

definition Decrypt :: "vault_lib \<Rightarrow> string \<Rightarrow> FileVault \<Rightarrow> vault_error + bytes" where
  "Decrypt lib enc v =
     (case base64_Decode lib enc of
        None \<Rightarrow> Inl BadBase64
      | Some b \<Rightarrow>
          if length b < 12 then Inl BadPayload
          else if \<not> aes_key_ok (fv_key v) then Inl BadKey
          else case gcm_Open lib (fv_key v) (take 12 b) (drop 12 b) of
            None \<Rightarrow> Inl OpenFailed
          | Some text \<Rightarrow> Inr text)"

text \<open>The files are written under the read lock; a failed write may leave a temporary file.\<close>

definition persist_vault ::
    "bool \<Rightarrow> FileVault \<times> vault_files \<Rightarrow> (vault_error option, FileVault \<times> vault_files) outcome" where
  "persist_vault disk_ok s =
     (case s of (v, fs) \<Rightarrow>
        if \<not> can_rlock (fv_mu v) then Blocked (v, fs)
        else if \<not> disk_ok then Returned (Some VaultIO) (v, fs)
        else Returned None (v, put (fv_path v) (fv_mem v) fs))"

definition Vault_Store ::
    "vault_lib \<Rightarrow> bytes option \<Rightarrow> bool \<Rightarrow> string \<Rightarrow> (string, any) gomap \<Rightarrow> FileVault \<times> vault_files
      \<Rightarrow> (vault_error option, FileVault \<times> vault_files) outcome" where
  "Vault_Store lib nonce disk_ok key creds s =
     (case s of (v, fs) \<Rightarrow>
        if \<not> can_lock (fv_mu v) then Blocked (v, fs)
        else
          let v = v\<lparr>fv_mu := WLocked\<rparr>;
              unlock = (\<lambda>r s. case s of (v, fs) \<Rightarrow> Returned r (v\<lparr>fv_mu := Unlocked\<rparr>, fs))
          in case json_Marshal lib creds of
               None \<Rightarrow> unlock (Some BadJSON) (v, fs)
             | Some text \<Rightarrow>
                 (case Encrypt lib nonce text v of
                    Inl e \<Rightarrow> unlock (Some e) (v, fs)
                  | Inr enc \<Rightarrow>
                      andThen (persist_vault disk_ok (v\<lparr>fv_mem := put key enc (fv_mem v)\<rparr>, fs)) unlock))"

definition Vault_Retrieve ::
    "vault_lib \<Rightarrow> string \<Rightarrow> FileVault \<times> vault_files
      \<Rightarrow> (vault_error + (string, any) gomap, FileVault \<times> vault_files) outcome" where
  "Vault_Retrieve lib key s =
     (case s of (v, fs) \<Rightarrow>
        if \<not> can_rlock (fv_mu v) then Blocked (v, fs)
        else Returned
          (case get (fv_mem v) key of
             None \<Rightarrow> Inl VaultNotFound
           | Some enc \<Rightarrow>
               (case Decrypt lib enc v of
                  Inl e \<Rightarrow> Inl e
                | Inr text \<Rightarrow>
                    (case json_Unmarshal lib text of None \<Rightarrow> Inl BadJSON | Some m \<Rightarrow> Inr m))) (v, fs))"

end
