(* ===== verification/Connectors.thy ===== *)
theory Connectors
  imports Gateway
begin

text \<open>
  The connectors of \<^verbatim>\<open>src/connectors\<close> and their manager. The six provider helpers answer from fixed
  data and random numbers, which are arguments; a connector from outside answers as the record of
  readings says. Connectors are shared by pointer, so they live in a heap, and the registry maps names
  to places in it. An asynchronous request leaves a job, whose goroutine is a later step.
\<close>

section \<open>Connectors\<close>

record AWSScalingHelper =
  aws_lastRateCheck :: gotime
  aws_rateWindow :: int
  aws_regions :: "string list"

record GenericConnector =
  gc_base :: BaseConnector
  gc_name :: string

datatype ConnectorGateway =
    Generic GenericConnector
  | AWS AWSScalingHelper
  | Cloudflare | DigitalOcean | GCP | Hetzner | Linode
  | OtherConnector string "string list"

text \<open>
  What one call reads: the clock, random numbers from 0 to 1, whole ones, the bytes of an ID, and the answer
  of a connector from outside.
\<close>

record call_readings =
  cr_now :: gotime
  cr_floats :: "float64 \<times> float64 \<times> float64"
  cr_int :: int
  cr_id :: bytes
  cr_answer :: "conn_error + GatewayResponse"

definition NewAWSScalingHelper :: "gotime \<Rightarrow> AWSScalingHelper" where
  "NewAWSScalingHelper now =
     \<lparr>aws_lastRateCheck = now, aws_rateWindow = 100, aws_regions = [''us-east-1'', ''eu-west-1'', ''ap-southeast-1'']\<rparr>"

definition NewGenericConnector :: "string \<Rightarrow> string \<Rightarrow> GenericConnector" where
  "NewGenericConnector dir name = \<lparr>gc_base = NewBaseConnector dir, gc_name = name\<rparr>"

fun Name :: "ConnectorGateway \<Rightarrow> string" where
  "Name (Generic g) = gc_name g"
| "Name (AWS a) = ''AWSScalingHelper''"
| "Name Cloudflare = ''CloudflareNetworkOptimizer''"
| "Name DigitalOcean = ''DOHumanHelper''"
| "Name GCP = ''GCPDataIntelligence''"
| "Name Hetzner = ''HetznerResilienceEnhancer''"
| "Name Linode = ''LinodeSecurityEnhancer''"
| "Name (OtherConnector n supported) = n"

fun SupportedOperations :: "ConnectorGateway \<Rightarrow> string list" where
  "SupportedOperations (OtherConnector n supported) = supported"
| "SupportedOperations c = [OpDiscover, OpList, OpManage, OpCustom]"

definition data_of :: "(string, any) gomap \<Rightarrow> GatewayResponse" where
  "data_of m = no_response\<lparr>gs_Success := True, gs_Data := m\<rparr>"

definition message_of :: "string \<Rightarrow> GatewayResponse" where
  "message_of msg = no_response\<lparr>gs_Success := True, gs_Message := msg\<rparr>"

definition failure_of :: "string \<Rightarrow> GatewayResponse" where
  "failure_of err = no_response\<lparr>gs_Error := err\<rparr>"

definition resource :: "string \<Rightarrow> string \<Rightarrow> string \<Rightarrow> string \<Rightarrow> (string, any) gomap \<Rightarrow> ResourceMetadata" where
  "resource rid name kind region meta =
     \<lparr>rm_ID = rid, rm_Name = name, rm_Type = kind, rm_Region = region, rm_Status = '''', rm_Tags = [],
      rm_CreatedAt = 0, rm_UpdatedAt = 0, rm_Meta = meta\<rparr>"

definition resources_of :: "ResourceMetadata list \<Rightarrow> GatewayResponse" where
  "resources_of rs = no_response\<lparr>gs_Success := True, gs_Resources := rs\<rparr>"

abbreviation maps_of :: "(string, any) gomap list \<Rightarrow> any" where
  "maps_of ms \<equiv> ASlice (map (\<lambda>m. Some (AMap m)) ms)"

definition AWS_DiscoverServices :: "call_readings \<Rightarrow> AWSScalingHelper \<Rightarrow> GatewayResponse \<times> AWSScalingHelper" where
  "AWS_DiscoverServices rd a =
     (if cr_now rd - aws_lastRateCheck a < Second then (failure_of ''rate limited (helper)'', a)
      else
        (data_of
           [(''services'', maps_of
               [[(''name'', AStr ''EC2''), (''region'', AStr ''us-east-1''), (''cost_tier'', AStr ''standard'')],
                [(''name'', AStr ''S3''), (''region'', AStr ''eu-west-1''), (''cost_tier'', AStr ''low'')],
                [(''name'', AStr ''ECS''), (''region'', AStr ''ap-southeast-1''), (''cost_tier'', AStr ''high'')]]),
            (''predictive_scaling'', AMap
               [(''scale_forecast'', AInt (cr_int rd + 3)), (''multi_region'', AStrs (aws_regions a))])],
         a\<lparr>aws_lastRateCheck := cr_now rd\<rparr>))"

definition AWS_ListResources :: GatewayResponse where
  "AWS_ListResources = resources_of
     [resource ''aws-vm-1'' ''VM1'' ''EC2'' ''us-east-1'' [(''orchestrator'', AStr ''ECS''), (''cost_tier'', AStr ''standard'')],
      resource ''aws-vm-2'' ''VM2'' ''EC2'' ''eu-west-1'' [(''orchestrator'', AStr ''K8s''), (''cost_tier'', AStr ''high'')]]"

definition AWS_CustomOperation :: GatewayResponse where
  "AWS_CustomOperation = (message_of ''Custom scaling operation executed'')
     \<lparr>gs_Data := [(''future_resource_types'', AStrs [''Fargate'', ''Aurora''])]\<rparr>"

definition Cloudflare_DiscoverServices :: "call_readings \<Rightarrow> GatewayResponse" where
  "Cloudflare_DiscoverServices rd =
     (case cr_floats rd of (x, y, z) \<Rightarrow> data_of
        [(''services'', AStrs [''DNS'', ''CDN'', ''WAF'']),
         (''metrics'', AMap [(''latency_ms'', AFloat (x * 100 + 20)), (''jitter_ms'', AFloat (y * 8 + 2)),
                           (''ddos'', ABool (z < 4/100))])])"

definition Cloudflare_ListResources :: GatewayResponse where
  "Cloudflare_ListResources = resources_of
     [resource ''cf-cdn-1'' ''CDN1'' ''CDN'' '''' [(''dynamic_shaping'', ABool True), (''privacy_shield'', ABool True)]]"

definition DO_DiscoverServices :: "call_readings \<Rightarrow> GatewayResponse" where
  "DO_DiscoverServices rd = data_of
     [(''services'', AStrs [''Droplets'', ''Spaces'', ''DBs'']),
      (''telemetry'', AMap [(''attempt_time'', AInt (int (Unix (cr_now rd)))), (''fingerprint'', AInt (cr_int rd))])]"

definition DO_ListResources :: "call_readings \<Rightarrow> GatewayResponse" where
  "DO_ListResources rd =
     (case cr_floats rd of (x, y, z) \<Rightarrow> resources_of
        [resource ''do-droplet-1'' ''Droplet1'' ''VM'' ''''
           [(''captcha'', AStr ''solved''), (''mfa'', AStr ''ok''), (''error_injected'', ABool (x < 12/100))]])"

definition DO_ManageResource :: "call_readings \<Rightarrow> GatewayResponse" where
  "DO_ManageResource rd =
     (case cr_floats rd of (x, y, z) \<Rightarrow>
        (message_of ''Resource managed with human-like automation'')
          \<lparr>gs_Data := [(''mfa_failure'', ABool (x < 8/100)), (''error_retry'', ABool (\<not> x < 8/100))]\<rparr>)"

definition DO_CustomOperation :: "call_readings \<Rightarrow> GatewayResponse" where
  "DO_CustomOperation rd = (message_of ''Custom human simulation executed'')
     \<lparr>gs_Data := [(''fingerprint'', AInt (cr_int rd))]\<rparr>"

definition GCP_DiscoverServices :: GatewayResponse where
  "GCP_DiscoverServices = data_of
     [(''services'', maps_of
        [[(''name'', AStr ''BigQuery''), (''schema'', AStr ''auto-discovered'')],
         [(''name'', AStr ''Dataflow''), (''streaming'', ABool True)],
         [(''name'', AStr ''PubSub''), (''metadata_enriched'', ABool True)]])]"

definition GCP_ListResources :: "call_readings \<Rightarrow> GatewayResponse" where
  "GCP_ListResources rd =
     (case cr_floats rd of (x, y, z) \<Rightarrow> resources_of
        [resource ''gcp-data-1'' ''Dataset1'' ''BigQuery'' ''''
           [(''summary'', AStr ''John bought 2 apples. | Sarah spent $500 on shoes. | Mike went to Paris.''),
            (''anomaly_confidence'', AFloat (x * (1/2) + 1/2)), (''enriched'', ABool True)]])"

definition Hetzner_DiscoverServices :: "call_readings \<Rightarrow> GatewayResponse" where
  "Hetzner_DiscoverServices rd =
     (case cr_floats rd of (x, y, z) \<Rightarrow> data_of
        [(''services'', AStrs [''Servers'', ''Storage'']),
         (''health_signals'', maps_of
            [[(''server'', AStr ''Server1''), (''health'', AStr ''OK''), (''signal'', AFloat (x * (1/2) + 1/2))],
             [(''server'', AStr ''Server2''), (''health'', AStr ''WARN''), (''signal'', AFloat (y * (4/10) + 6/10))]]),
         (''chaos_injection'', ABool (z < 5/100))])"

definition Hetzner_ListResources :: "call_readings \<Rightarrow> GatewayResponse" where
  "Hetzner_ListResources rd = resources_of
     [resource ''hetzner-server-1'' ''Server1'' ''Server'' ''''
        [(''watchdog'', ABool True), (''circuit_breaker_triggers'', AInt (cr_int rd)), (''hot_standby'', ABool True)]]"

definition Linode_DiscoverServices :: GatewayResponse where
  "Linode_DiscoverServices = data_of
     [(''services'', AStrs [''Instances'', ''Buckets'']),
      (''policies'', maps_of
         [[(''resource'', AStr ''Instance''), (''encryption_level'', AStr ''AES256''), (''masking'', ABool True)],
          [(''resource'', AStr ''Bucket''), (''encryption_level'', AStr ''AES128''), (''masking'', ABool False)]])]"

definition Linode_ListResources :: "call_readings \<Rightarrow> GatewayResponse" where
  "Linode_ListResources rd = resources_of
     [resource ''linode-vm-1'' ''VM1'' ''Instance'' ''''
        [(''masked'', ABool True), (''mask_level'', AInt (cr_int rd + 1)), (''encryption_at_rest'', AStr ''true''),
         (''encryption_in_transit'', AStr ''true''), (''zkp_event'', AStr ''checked'')]]"

definition AWS_ManageResource :: "GatewayResponse" where
  "AWS_ManageResource = message_of ''Managed with scaling helper''"

definition Cloudflare_ManageResource :: "GatewayResponse" where
  "Cloudflare_ManageResource = message_of ''Managed with network optimizer and privacy shield''"

definition Cloudflare_CustomOperation :: "GatewayResponse" where
  "Cloudflare_CustomOperation = message_of ''DDoS-aware adjustment and traffic shaping applied''"

definition GCP_ManageResource :: "GatewayResponse" where
  "GCP_ManageResource = message_of ''Managed with data intelligence and streaming''"

definition GCP_CustomOperation :: "GatewayResponse" where
  "GCP_CustomOperation = message_of ''Semantic summarization and schema builder executed''"

definition Hetzner_ManageResource :: "GatewayResponse" where
  "Hetzner_ManageResource = message_of ''Managed with resilience enhancer and hot standby''"

definition Hetzner_CustomOperation :: "GatewayResponse" where
  "Hetzner_CustomOperation = message_of ''Self-healing signals sent''"

definition Linode_ManageResource :: "GatewayResponse" where
  "Linode_ManageResource = message_of ''Managed with security enhancer''"

definition Linode_CustomOperation :: "GatewayResponse" where
  "Linode_CustomOperation = message_of ''Zero-knowledge proof applied, event logged''"

text \<open>The generic connector.\<close>

definition Generic_DiscoverServices :: "call_readings \<Rightarrow> GatewayResponse" where
  "Generic_DiscoverServices rd =
     StandardizeResponse (cr_now rd) (data_of [(''services'', AStrs [''generic-resource''])])"

definition Generic_ListResources :: "call_readings \<Rightarrow> GenericConnector \<Rightarrow> GatewayRequest \<Rightarrow> GatewayResponse" where
  "Generic_ListResources rd g req =
     StandardizeResponse (cr_now rd) (resources_of
       [resource (GenerateSecureID (gc_name g) (cr_id rd)) ''generic'' (gr_ResourceType req) '''' []])"

definition Generic_ManageResource :: "call_readings \<Rightarrow> GatewayRequest \<Rightarrow> GatewayResponse" where
  "Generic_ManageResource rd req =
     StandardizeResponse (cr_now rd)
       ((message_of ''managed'')\<lparr>gs_Data := [(''spec'', AMap (gr_ResourceSpec req))]\<rparr>)"

definition Generic_CustomOperation :: "call_readings \<Rightarrow> GatewayRequest \<Rightarrow> GatewayResponse" where
  "Generic_CustomOperation rd req =
     StandardizeResponse (cr_now rd) ((message_of ''custom executed'')\<lparr>gs_Data := gr_Extra req\<rparr>)"

section \<open>Calls\<close>

fun DiscoverServices ::
    "call_readings \<Rightarrow> ConnectorGateway \<Rightarrow> GatewayRequest \<Rightarrow> (conn_error + GatewayResponse) \<times> ConnectorGateway" where
  "DiscoverServices rd (Generic g) req =
     (Inr (Generic_DiscoverServices rd), Generic g)"
| "DiscoverServices rd (AWS a) req = (case AWS_DiscoverServices rd a of (r, a) \<Rightarrow> (Inr r, AWS a))"
| "DiscoverServices rd Cloudflare req = (Inr (Cloudflare_DiscoverServices rd), Cloudflare)"
| "DiscoverServices rd DigitalOcean req = (Inr (DO_DiscoverServices rd), DigitalOcean)"
| "DiscoverServices rd GCP req = (Inr GCP_DiscoverServices, GCP)"
| "DiscoverServices rd Hetzner req = (Inr (Hetzner_DiscoverServices rd), Hetzner)"
| "DiscoverServices rd Linode req = (Inr Linode_DiscoverServices, Linode)"
| "DiscoverServices rd (OtherConnector n s) req = (cr_answer rd, OtherConnector n s)"

fun ListResources :: "call_readings \<Rightarrow> ConnectorGateway \<Rightarrow> GatewayRequest \<Rightarrow> conn_error + GatewayResponse" where
  "ListResources rd (Generic g) req = Inr (Generic_ListResources rd g req)"
| "ListResources rd (AWS a) req = Inr AWS_ListResources"
| "ListResources rd Cloudflare req = Inr Cloudflare_ListResources"
| "ListResources rd DigitalOcean req = Inr (DO_ListResources rd)"
| "ListResources rd GCP req = Inr (GCP_ListResources rd)"
| "ListResources rd Hetzner req = Inr (Hetzner_ListResources rd)"
| "ListResources rd Linode req = Inr (Linode_ListResources rd)"
| "ListResources rd (OtherConnector n s) req = cr_answer rd"

fun ManageResource :: "call_readings \<Rightarrow> ConnectorGateway \<Rightarrow> GatewayRequest \<Rightarrow> conn_error + GatewayResponse" where
  "ManageResource rd (Generic g) req = Inr (Generic_ManageResource rd req)"
| "ManageResource rd (AWS a) req = Inr AWS_ManageResource"
| "ManageResource rd Cloudflare req = Inr Cloudflare_ManageResource"
| "ManageResource rd DigitalOcean req = Inr (DO_ManageResource rd)"
| "ManageResource rd GCP req = Inr GCP_ManageResource"
| "ManageResource rd Hetzner req = Inr Hetzner_ManageResource"
| "ManageResource rd Linode req = Inr Linode_ManageResource"
| "ManageResource rd (OtherConnector n s) req = cr_answer rd"

fun CustomOperation :: "call_readings \<Rightarrow> ConnectorGateway \<Rightarrow> GatewayRequest \<Rightarrow> conn_error + GatewayResponse" where
  "CustomOperation rd (Generic g) req = Inr (Generic_CustomOperation rd req)"
| "CustomOperation rd (AWS a) req = Inr AWS_CustomOperation"
| "CustomOperation rd Cloudflare req = Inr Cloudflare_CustomOperation"
| "CustomOperation rd DigitalOcean req = Inr (DO_CustomOperation rd)"
| "CustomOperation rd GCP req = Inr GCP_CustomOperation"
| "CustomOperation rd Hetzner req = Inr Hetzner_CustomOperation"
| "CustomOperation rd Linode req = Inr Linode_CustomOperation"
| "CustomOperation rd (OtherConnector n s) req = cr_answer rd"

text \<open>A generic connector without a store makes one; the other helpers do not poll.\<close>

fun PollAsync ::
    "call_readings \<Rightarrow> string \<Rightarrow> ConnectorGateway \<Rightarrow> string \<Rightarrow> job_files
      \<Rightarrow> (conn_error + GatewayResponse) \<times> GatewayResponse \<times> ConnectorGateway" where
  "PollAsync rd dir (Generic g) jid fs =
     (let a = (case b_Async (gc_base g) of None \<Rightarrow> NewInMemoryAsyncStore dir | Some a \<Rightarrow> a);
          g = g\<lparr>gc_base := (gc_base g)\<lparr>b_Async := Some a\<rparr>\<rparr>
      in case PollJob jid a fs of (res, done) \<Rightarrow>
           if done then (Inr res, res, Generic g)
           else (Inl ErrNotFound,
                 StandardizeResponse (cr_now rd) ((failure_of ''not found'')\<lparr>gs_ErrorCode := ErrorResourceMissing\<rparr>),
                 Generic g))"
| "PollAsync rd dir (OtherConnector n s) jid fs =
     (cr_answer rd, case cr_answer rd of Inl e \<Rightarrow> no_response | Inr r \<Rightarrow> r, OtherConnector n s)"
| "PollAsync rd dir c jid fs =
     (Inr (failure_of ''async polling not implemented''), failure_of ''async polling not implemented'', c)"

section \<open>The manager\<close>

datatype AdapterGenerator = AIAdapterGenerator | OtherGenerator

datatype AutomationService = DummyAutomation | OtherAutomation

text \<open>
  What a request reads: the clock, the bytes of its IDs, whether files are written, the directory of new
  stores, the answers of a generator and an automation from outside, and the readings of its calls of
  connectors, by their number.
\<close>

record exec_readings =
  ex_now :: gotime
  ex_request_id :: bytes
  ex_async_id :: bytes
  ex_disk_ok :: bool
  ex_dir :: string
  ex_generated :: "ConnectorGateway option"
  ex_automated :: GatewayResponse
  ex_call :: "nat \<Rightarrow> call_readings"

text \<open>\<open>cm_running\<close>: the goroutines of asynchronous jobs that have not ended.\<close>

record ConnectorManager =
  conns :: "ConnectorGateway list"
  connectors :: "(string, nat) gomap"
  vault :: FileVault
  adapterGen :: AdapterGenerator
  automation :: AutomationService
  asyncStore :: InMemoryAsyncStore
  policy :: InMemoryPolicyEngine
  selfHeal :: ConnHealing
  cm_files :: job_files
  cm_running :: "(string \<times> nat \<times> GatewayRequest) list"

definition NewConnectorManager ::
    "vault_lib \<Rightarrow> string \<Rightarrow> string \<Rightarrow> string \<Rightarrow> bytes \<Rightarrow> bool \<Rightarrow> vault_files \<Rightarrow> job_files
      \<Rightarrow> FileVault option \<Rightarrow> AdapterGenerator option \<Rightarrow> AutomationService option
      \<Rightarrow> InMemoryAsyncStore option \<Rightarrow> InMemoryPolicyEngine option \<Rightarrow> ConnectorManager" where
  "NewConnectorManager lib env_key env_path env_dir fresh read_fails vfs fs v ag auto async p =
     \<lparr>conns = [], connectors = [],
      vault = (case v of
         None \<Rightarrow> NewFileVault (if env_path = '''' then ''./.connector_vault.json'' else env_path)
                   (vault_key lib env_key fresh) read_fails vfs
       | Some v \<Rightarrow> v),
      adapterGen = (case ag of None \<Rightarrow> AIAdapterGenerator | Some g \<Rightarrow> g),
      automation = (case auto of None \<Rightarrow> DummyAutomation | Some a \<Rightarrow> a),
      asyncStore = (case async of None \<Rightarrow> NewInMemoryAsyncStore env_dir | Some a \<Rightarrow> a),
      policy = (case p of None \<Rightarrow> NewInMemoryPolicyEngine | Some p \<Rightarrow> p),
      selfHeal = NewSelfHealing, cm_files = fs, cm_running = []\<rparr>"

definition RegisterConnector :: "ConnectorGateway option \<Rightarrow> ConnectorManager \<Rightarrow> ConnectorManager" where
  "RegisterConnector c m =
     (case c of
        None \<Rightarrow> m
      | Some c \<Rightarrow> m\<lparr>conns := conns m @ [c], connectors := put (Name c) (length (conns m)) (connectors m)\<rparr>)"

text \<open>A connector is a pointer: registering one again that the manager holds already shares it.\<close>

definition RegisterAgain :: "nat \<Rightarrow> ConnectorManager \<Rightarrow> ConnectorManager" where
  "RegisterAgain i m =
     (if i < length (conns m) then m\<lparr>connectors := put (Name (conns m ! i)) i (connectors m)\<rparr> else m)"

definition GetConnector :: "string \<Rightarrow> ConnectorManager \<Rightarrow> nat option" where
  "GetConnector name m = get (connectors m) name"

definition GenerateAdapter :: "exec_readings \<Rightarrow> string \<Rightarrow> ConnectorManager \<Rightarrow> ConnectorGateway option" where
  "GenerateAdapter rd service m =
     (case adapterGen m of
        AIAdapterGenerator \<Rightarrow> Some (Generic (NewGenericConnector (ex_dir rd) service))
      | OtherGenerator \<Rightarrow> ex_generated rd)"

definition ExecuteUIFlow :: "exec_readings \<Rightarrow> (string, any) gomap list \<Rightarrow> ConnectorManager \<Rightarrow> GatewayResponse" where
  "ExecuteUIFlow rd steps m =
     (case automation m of
        DummyAutomation \<Rightarrow>
          StandardizeResponse (ex_now rd) ((message_of ''automation executed (dummy)'')
            \<lparr>gs_Data := [(''steps_executed'', AInt (int (length steps)))]\<rparr>)
      | OtherAutomation \<Rightarrow> ex_automated rd)"

fun error_text :: "conn_error \<Rightarrow> string" where
  "error_text ErrNotFound = ''not found''"
| "error_text ErrInvalidRequest = ''invalid request''"
| "error_text ErrAuthFailed = ''authentication failed''"
| "error_text MissingServiceName = ''missing service name''"
| "error_text MissingSecret = ''missing secret or request''"
| "error_text (OtherError e) = e"

definition internal_failure :: "gotime \<Rightarrow> string \<Rightarrow> GatewayResponse" where
  "internal_failure now err = StandardizeResponse now ((failure_of err)\<lparr>gs_ErrorCode := ErrorInternal\<rparr>)"

fun answer_of :: "gotime \<Rightarrow> conn_error + GatewayResponse \<Rightarrow> GatewayResponse" where
  "answer_of now (Inr r) = r"
| "answer_of now (Inl e) = internal_failure now (error_text e)"

definition dispatch_on :: "call_readings \<Rightarrow> ConnectorGateway \<Rightarrow> GatewayRequest \<Rightarrow> GatewayResponse \<times> ConnectorGateway" where
  "dispatch_on rd c req =
     (if gr_Operation req = OpDiscover then
        (case DiscoverServices rd c req of (r, c) \<Rightarrow> (answer_of (cr_now rd) r, c))
      else if gr_Operation req = OpList then (answer_of (cr_now rd) (ListResources rd c req), c)
      else if gr_Operation req = OpManage then (answer_of (cr_now rd) (ManageResource rd c req), c)
      else if gr_Operation req = OpCustom then (answer_of (cr_now rd) (CustomOperation rd c req), c)
      else (internal_failure (cr_now rd) ''unsupported operation'', c))"

definition dispatchToConnector ::
    "call_readings \<Rightarrow> nat \<Rightarrow> GatewayRequest \<Rightarrow> ConnectorManager \<Rightarrow> GatewayResponse \<times> ConnectorManager" where
  "dispatchToConnector rd i req m =
     (case dispatch_on rd (conns m ! i) req of (r, c) \<Rightarrow> (r, m\<lparr>conns := (conns m)[i := c]\<rparr>))"

text \<open>The failovers in their order, with the number of the next call.\<close>

fun try_failovers ::
    "(nat \<Rightarrow> call_readings) \<Rightarrow> nat \<Rightarrow> GatewayRequest \<Rightarrow> string list \<Rightarrow> ConnectorManager
      \<Rightarrow> GatewayResponse option \<times> ConnectorManager" where
  "try_failovers rd k req [] m = (None, m)"
| "try_failovers rd k req (alt # alts) m =
     (case GetConnector alt m of
        None \<Rightarrow> try_failovers rd k req alts m
      | Some i \<Rightarrow>
          (case dispatchToConnector (rd k) i (req\<lparr>gr_ServiceName := alt\<rparr>) m of (r, m) \<Rightarrow>
             if gs_Success r then (Some r, m) else try_failovers rd (k + 1) req alts m))"

definition find_connector :: "exec_readings \<Rightarrow> string \<Rightarrow> ConnectorManager \<Rightarrow> nat option \<times> ConnectorManager" where
  "find_connector rd service m =
     (case GetConnector service m of
        Some i \<Rightarrow> (Some i, m)
      | None \<Rightarrow>
          (case GenerateAdapter rd service m of
             None \<Rightarrow> (None, m)
           | Some a \<Rightarrow> (Some (length (conns m)), RegisterConnector (Some a) m)))"

definition execute_sync ::
    "exec_readings \<Rightarrow> nat \<Rightarrow> GatewayRequest \<Rightarrow> ConnectorManager \<Rightarrow> GatewayResponse \<times> ConnectorManager" where
  "execute_sync rd i req m =
     (case dispatchToConnector (ex_call rd 0) i req m of (res, m) \<Rightarrow>
        if gs_Success res then
          (StandardizeResponse (ex_now rd) res, m\<lparr>selfHeal := Reset (gr_ServiceName req) (selfHeal m)\<rparr>)
        else
          let m = m\<lparr>selfHeal := RegisterFailure (gr_ServiceName req) (ex_now rd) (selfHeal m)\<rparr>;
              alts = (case get (Failovers (selfHeal m)) (gr_ServiceName req) of None \<Rightarrow> [] | Some a \<Rightarrow> a)
          in case try_failovers (ex_call rd) 1 req alts m of
               (Some alt_res, m) \<Rightarrow> (StandardizeResponse (ex_now rd) alt_res, m)
             | (None, m) \<Rightarrow> (StandardizeResponse (ex_now rd) res, m))"

definition execute_async ::
    "exec_readings \<Rightarrow> nat \<Rightarrow> GatewayRequest \<Rightarrow> ConnectorManager \<Rightarrow> GatewayResponse \<times> ConnectorManager" where
  "execute_async rd i req m =
     (case StartJob (ex_disk_ok rd) (ex_async_id rd) (ex_now rd) (asyncStore m) (cm_files m) of
        (jid, a, fs) \<Rightarrow>
          (StandardizeResponse (ex_now rd) ((message_of ''operation started async'')\<lparr>gs_AsyncID := jid\<rparr>),
           m\<lparr>asyncStore := a, cm_files := fs, cm_running := cm_running m @ [(jid, i, req)]\<rparr>))"

definition execute_missing ::
    "exec_readings \<Rightarrow> GatewayRequest \<Rightarrow> ConnectorManager
      \<Rightarrow> (GatewayResponse \<times> conn_error option) \<times> ConnectorManager" where
  "execute_missing rd req m =
     (if gr_Operation req = OpManage \<or> gr_Operation req = OpCustom then
        ((StandardizeResponse (ex_now rd)
            (ExecuteUIFlow rd [[(''action'', AStr ''open_ui''), (''service'', AStr (gr_ServiceName req))]] m), None), m)
      else
        ((StandardizeResponse (ex_now rd) ((failure_of ''connector not found'')\<lparr>gs_ErrorCode := ErrorResourceMissing\<rparr>),
          Some ErrNotFound),
         m\<lparr>selfHeal := RegisterFailure (gr_ServiceName req) (ex_now rd) (selfHeal m)\<rparr>))"

definition stamp_request :: "exec_readings \<Rightarrow> GatewayRequest \<Rightarrow> GatewayRequest" where
  "stamp_request rd req =
     (if gr_RequestID req = '''' then req\<lparr>gr_RequestID := GenerateRequestID (ex_request_id rd)\<rparr> else req)
       \<lparr>gr_CreatedAt := ex_now rd\<rparr>"

definition Execute ::
    "exec_readings \<Rightarrow> GatewayRequest \<Rightarrow> ConnectorManager
      \<Rightarrow> (GatewayResponse \<times> conn_error option) \<times> ConnectorManager" where
  "Execute rd req m =
     (let req = stamp_request rd req;
          ((allowed, reason), p) = Allow req (ex_now rd) (policy m);
          m = m\<lparr>policy := p\<rparr>
      in if \<not> allowed then
           ((internal_failure (ex_now rd) (''policy blocked: '' @ reason), Some ErrInvalidRequest), m)
         else
           case ValidateBasicRequest (ex_request_id rd) req of
             (Some e, req) \<Rightarrow> ((internal_failure (ex_now rd) (error_text e), Some e), m)
           | (None, req) \<Rightarrow>
               (case find_connector rd (gr_ServiceName req) m of
                  (None, m) \<Rightarrow> execute_missing rd req m
                | (Some i, m) \<Rightarrow>
                    (case (if gr_Async req then execute_async rd i req m else execute_sync rd i req m) of
                       (res, m) \<Rightarrow> ((res, None), m))))"

text \<open>The goroutine of the job with number k, as one step: its call, and the end of the job.\<close>

definition run_job :: "call_readings \<Rightarrow> gotime \<Rightarrow> bool \<Rightarrow> nat \<Rightarrow> ConnectorManager \<Rightarrow> ConnectorManager" where
  "run_job rd now disk_ok k m =
     (if k < length (cm_running m) then
        (case cm_running m ! k of (jid, i, req) \<Rightarrow>
           case dispatchToConnector rd i req m of (res, m) \<Rightarrow>
           case finish_job disk_ok jid res now (asyncStore m) (cm_files m) of (a, fs) \<Rightarrow>
             m\<lparr>asyncStore := a, cm_files := fs,
               cm_running := take k (cm_running m) @ drop (Suc k) (cm_running m)\<rparr>)
      else m)"

definition PollAsync_manager :: "string \<Rightarrow> ConnectorManager \<Rightarrow> GatewayResponse \<times> bool" where
  "PollAsync_manager jid m = PollJob jid (asyncStore m) (cm_files m)"

definition cleanup_jobs :: "gotime \<Rightarrow> ConnectorManager \<Rightarrow> ConnectorManager" where
  "cleanup_jobs now m =
     (case cleanup_tick now (asyncStore m) (cm_files m) of (a, fs) \<Rightarrow> m\<lparr>asyncStore := a, cm_files := fs\<rparr>)"

end
