(* ===== verification/ConnectorsProps.thy ===== *)
theory ConnectorsProps
  imports Connectors RateLimit
begin

text \<open>
  Properties of the connectors' manager: its rate limits are those of the contract \<open>rate_limiter\<close>, whatever
  the connectors answer; the registry keeps names and places apart, so that failovers answer in their
  order; a service that nobody registered; results of asynchronous jobs; and the vault.
\<close>

section \<open>Rates\<close>

text \<open>The bucket of a service: its limit per minute, its tokens, its last refill.\<close>

type_synonym rate_bucket = "int \<times> float64 \<times> gotime"

definition rate_bucket_of :: "string \<Rightarrow> InMemoryPolicyEngine \<Rightarrow> rate_bucket" where
  "rate_bucket_of s p = (get0 (ratePerMin p) s, get0 (ge_tokens p) s, get0 (ge_lastRefill p) s)"

definition rate_bucket_ok :: "rate_bucket \<Rightarrow> bool" where
  "rate_bucket_ok b \<longleftrightarrow> 0 \<le> fst b \<and> 0 \<le> fst (snd b) \<and> fst (snd b) \<le> of_int (fst b) \<and> 0 \<le> snd (snd b)"

text \<open>A request of at most one token; the code only has requests of one.\<close>

definition take_one :: "float64 \<Rightarrow> gotime \<Rightarrow> rate_bucket \<Rightarrow> bool \<times> rate_bucket" where
  "take_one a now b =
     (if a \<le> 1 then (case take_token (fst b) now (snd b) of (ok, rest) \<Rightarrow> (ok, fst b, rest)) else (False, b))"

lemma take_token_ok:
  assumes "0 \<le> limit" and "0 \<le> tokens" and "tokens \<le> of_int limit" and "last_time \<le> now"
    and r: "take_token limit now (tokens, last_time) = (ok, tokens', last')"
  shows "0 \<le> tokens'" and "tokens' \<le> of_int limit" and "last' = now"
    and "(if ok then 1 else 0) + tokens' \<le> tokens + Seconds (now - last_time) * (of_int limit / 60)"
proof -
  define l0 where "l0 = (if IsZero last_time then now else last_time)"
  define g where "g = Seconds (now - l0) * (of_int limit / 60)"
  have l0: "last_time \<le> l0" "l0 \<le> now" using assms(4) by (auto simp: l0_def)
  have g: "0 \<le> g" using l0 assms(1) by (simp add: g_def Seconds_nonneg)
  have "Seconds (now - last_time) = Seconds (now - l0) + Seconds (l0 - last_time)"
    by (simp flip: Seconds_add)
  then have "Seconds (now - l0) \<le> Seconds (now - last_time)" using Seconds_nonneg[of "l0 - last_time"] l0 by simp
  then have le: "g \<le> Seconds (now - last_time) * (of_int limit / 60)"
    unfolding g_def using assms(1) by (intro mult_right_mono) simp_all
  define t where "t = (if tokens + g > of_int limit then of_int limit else tokens + g)"
  have t: "0 \<le> t" "t \<le> of_int limit" "t \<le> tokens + g" using assms(1,2,3) g by (auto simp: t_def)
  have r': "(ok, tokens', last') = (if t \<ge> 1 then (True, t - 1, now) else (False, t, now))"
    unfolding r[symmetric] take_token_def t_def g_def l0_def Let_def prod.case ..
  show "0 \<le> tokens'" "tokens' \<le> of_int limit" "last' = now"
    "(if ok then 1 else 0) + tokens' \<le> tokens + Seconds (now - last_time) * (of_int limit / 60)"
    using r' t le by (auto split: if_splits)
qed

interpretation gateway_bucket: rate_limiter
  take_one "\<lambda>b. fst (snd b)" "\<lambda>b. of_int (fst b) / 60" "\<lambda>b. snd (snd b)" rate_bucket_ok
proof
  fix b :: rate_bucket and now :: gotime and a :: float64
  assume h: "rate_bucket_ok b" "snd (snd b) \<le> now" "0 \<le> a"
  obtain limit tokens last_time where b: "b = (limit, tokens, last_time)" by (cases b)
  obtain ok tokens' last' where t: "take_token limit now (tokens, last_time) = (ok, tokens', last')"
    by (metis prod_cases3)
  note T = take_token_ok[OF _ _ _ _ t]
  have k: "0 \<le> limit" "0 \<le> tokens" "tokens \<le> of_int limit" "0 \<le> last_time" "last_time \<le> now"
    using h b by (simp_all add: rate_bucket_ok_def)
  show "rate_bucket_ok (snd (take_one a now b))"
    using T k h(1) by (simp add: take_one_def b t rate_bucket_ok_def)
  show "of_int (fst (snd (take_one a now b))) / 60 = (of_int (fst b) / 60 :: rat)"
    by (simp add: take_one_def b t)
  show "snd (snd b) \<le> snd (snd (snd (take_one a now b))) \<and> snd (snd (snd (take_one a now b))) \<le> now"
    using T k by (simp add: take_one_def b t)
  show "(if fst (take_one a now b) then a else 0) + fst (snd (snd (take_one a now b))) \<le>
      fst (snd b) + Seconds (snd (snd (snd (take_one a now b))) - snd (snd b)) * (of_int (fst b) / 60)"
    using T k by (auto simp: take_one_def b t Seconds_def split: if_splits)
qed (simp add: rate_bucket_ok_def)

named_theorems manager_frame

lemma conns_frame [manager_frame]:
  "policy (snd (dispatchToConnector rd i req m)) = policy m"
  "policy (RegisterConnector c m) = policy m"
  "policy (snd (find_connector erd s m)) = policy m"
  "policy (snd (execute_async erd i req m)) = policy m"
  "policy (snd (execute_missing erd req m)) = policy m"
  by (simp_all add: dispatchToConnector_def RegisterConnector_def find_connector_def execute_async_def
      execute_missing_def case_prod_beta split: option.split)

lemma failovers_policy [manager_frame]: "policy (snd (try_failovers rd k req alts m)) = policy m"
  by (induction alts arbitrary: k m) (simp_all add: case_prod_beta manager_frame split: option.split)

lemma sync_policy [manager_frame]: "policy (snd (execute_sync rd i req m)) = policy m"
  by (simp add: execute_sync_def case_prod_beta Let_def manager_frame split: option.split)

lemma missing_error: "snd (fst (execute_missing rd req m)) \<noteq> Some ErrInvalidRequest"
  by (simp add: execute_missing_def)

lemma Execute_simps:
  defines "q rd req \<equiv> stamp_request rd req"
  shows "Execute rd req m =
    (case Gateway.Allow (q rd req) (ex_now rd) (policy m) of ((allowed, reason), p) \<Rightarrow>
       if \<not> allowed then
         ((internal_failure (ex_now rd) (''policy blocked: '' @ reason), Some ErrInvalidRequest), m\<lparr>policy := p\<rparr>)
       else if gr_ServiceName req = '''' then
         ((internal_failure (ex_now rd) (error_text MissingServiceName), Some MissingServiceName), m\<lparr>policy := p\<rparr>)
       else
         (case find_connector rd (gr_ServiceName req) (m\<lparr>policy := p\<rparr>) of
            (None, m) \<Rightarrow> execute_missing rd (q rd req) m
          | (Some i, m) \<Rightarrow>
              (case (if gr_Async req then execute_async rd i (q rd req) m else execute_sync rd i (q rd req) m) of
                 (res, m) \<Rightarrow> ((res, None), m))))"
  by (auto simp: Execute_def q_def ValidateBasicRequest_def stamp_request_def GenerateRequestID_def
      GenerateSecureID_def Let_def split: prod.splits option.splits)

lemma Execute_policy: "policy (snd (Execute rd req m)) = snd (Gateway.Allow (stamp_request rd req) (ex_now rd) (policy m))"
  using conns_frame(3)[of rd "gr_ServiceName req"]
  by (auto simp: Execute_simps manager_frame case_prod_beta split: option.split)

lemma Execute_refused:
  "snd (fst (Execute rd req m)) = Some ErrInvalidRequest \<longleftrightarrow>
     \<not> fst (fst (Gateway.Allow (stamp_request rd req) (ex_now rd) (policy m)))"
  by (auto simp: Execute_simps case_prod_beta missing_error split: option.split)

lemma geo_stamp [simp]: "geo_blocked (stamp_request rd req) p = geo_blocked req p"
  by (simp add: geo_blocked_def stamp_request_def)

lemma service_stamp [simp]: "gr_ServiceName (stamp_request rd req) = gr_ServiceName req"
  by (simp add: stamp_request_def)

lemma Allow_geo: "geoBlacklist (snd (Gateway.Allow req now p)) = geoBlacklist p"
  by (simp add: Gateway.Allow_def Let_def case_prod_beta)

lemma Allow_bucket:
  "rate_bucket_of s (snd (Gateway.Allow req now p)) =
     (if gr_ServiceName req = s \<and> \<not> geo_blocked req p \<and> 0 < get0 (ratePerMin p) s
      then snd (take_one 1 now (rate_bucket_of s p)) else rate_bucket_of s p)"
  by (auto simp: Gateway.Allow_def Let_def case_prod_beta rate_bucket_of_def take_one_def map_simps)

lemma Allow_allows:
  assumes "0 < get0 (ratePerMin p) (gr_ServiceName req)"
  shows "fst (fst (Gateway.Allow req now p)) \<longleftrightarrow>
    \<not> geo_blocked req p \<and> fst (take_one 1 now (rate_bucket_of (gr_ServiceName req) p))"
  using assms by (auto simp: Gateway.Allow_def Let_def case_prod_beta rate_bucket_of_def take_one_def)

text \<open>
  A run of requests to any services, and how many of service \<open>s\<close> got past the policy: those that Execute
  does not answer with ErrInvalidRequest.
\<close>

fun exec_run :: "string \<Rightarrow> (exec_readings \<times> GatewayRequest) list \<Rightarrow> ConnectorManager \<Rightarrow> nat \<times> ConnectorManager" where
  "exec_run s [] m = (0, m)"
| "exec_run s ((rd, req) # cs) m =
     (let (out, m) = Execute rd req m; (n, m) = exec_run s cs m
      in ((if gr_ServiceName req = s \<and> snd out \<noteq> Some ErrInvalidRequest then 1 else 0) + n, m))"

fun exec_clock :: "gotime \<Rightarrow> gotime \<Rightarrow> (exec_readings \<times> GatewayRequest) list \<Rightarrow> bool" where
  "exec_clock t0 t1 [] \<longleftrightarrow> t0 \<le> t1"
| "exec_clock t0 t1 ((rd, req) # cs) \<longleftrightarrow> t0 \<le> ex_now rd \<and> ex_now rd \<le> t1 \<and> exec_clock (ex_now rd) t1 cs"

text \<open>The requests that reach the bucket of \<open>s\<close>.\<close>

definition bucket_requests ::
    "string \<Rightarrow> InMemoryPolicyEngine \<Rightarrow> (exec_readings \<times> GatewayRequest) list \<Rightarrow> (float64 \<times> gotime) list" where
  "bucket_requests s p cs = [(1, ex_now rd). (rd, req) \<leftarrow> cs, gr_ServiceName req = s \<and> \<not> geo_blocked req p]"

lemma bucket_requests_geo:
  assumes "geoBlacklist p = geoBlacklist p'"
  shows "bucket_requests s p cs = bucket_requests s p' cs"
proof -
  have "geo_blocked req p = geo_blocked req p'" for req by (simp only: geo_blocked_def assms)
  then show ?thesis by (simp add: bucket_requests_def)
qed

lemma bucket_requests_clock: "exec_clock t0 t1 cs \<Longrightarrow> clock_ok t0 (bucket_requests s p cs)"
proof (induction cs arbitrary: t0)
  case Nil
  then show ?case by (simp add: bucket_requests_def)
next
  case (Cons c cs)
  then show ?case using clock_ok_earlier[of _ "bucket_requests s p cs" t0]
    by (cases c) (auto simp: bucket_requests_def)
qed

lemma bucket_requests_until: "exec_clock t0 t1 cs \<Longrightarrow> \<forall>r\<in>set (bucket_requests s p cs). snd r \<le> t1"
proof (induction cs arbitrary: t0)
  case (Cons c cs)
  then show ?case by (cases c) (auto simp: bucket_requests_def)
qed (simp add: bucket_requests_def)

lemma take_one_limit: "fst (snd (take_one a now b)) = fst b"
  by (simp add: take_one_def case_prod_beta)

lemma exec_run_serve:
  assumes "0 < get0 (ratePerMin (policy m)) s"
  shows "rate_bucket_of s (policy (snd (exec_run s cs m))) =
      snd (serve take_one (bucket_requests s (policy m) cs) (rate_bucket_of s (policy m)))
    \<and> of_nat (fst (exec_run s cs m)) =
      fst (serve take_one (bucket_requests s (policy m) cs) (rate_bucket_of s (policy m)))"
  using assms
proof (induction cs arbitrary: m)
  case Nil
  then show ?case by (simp add: bucket_requests_def)
next
  case (Cons c cs)
  obtain rd req where c: "c = (rd, req)" by (cases c)
  obtain out m' where e: "Execute rd req m = (out, m')" by (cases "Execute rd req m")
  have p': "policy m' = snd (Gateway.Allow (stamp_request rd req) (ex_now rd) (policy m))"
    using Execute_policy[of rd req m] e by simp
  have refused: "snd out = Some ErrInvalidRequest \<longleftrightarrow>
      \<not> fst (fst (Gateway.Allow (stamp_request rd req) (ex_now rd) (policy m)))"
    using Execute_refused[of rd req m] e by simp
  have b': "rate_bucket_of s (policy m') =
      (if gr_ServiceName req = s \<and> \<not> geo_blocked req (policy m)
       then snd (take_one 1 (ex_now rd) (rate_bucket_of s (policy m))) else rate_bucket_of s (policy m))"
    using Cons.prems by (simp add: p' Allow_bucket)
  have "0 < fst (rate_bucket_of s (policy m'))"
    using Cons.prems unfolding b' by (simp add: take_one_limit) (simp add: rate_bucket_of_def)
  then have "0 < get0 (ratePerMin (policy m')) s" by (simp add: rate_bucket_of_def)
  note IH = Cons.IH[OF this]
  have reqs: "bucket_requests s (policy m') cs = bucket_requests s (policy m) cs"
    by (rule bucket_requests_geo) (simp add: p' Allow_geo)
  have step: "exec_run s (c # cs) m =
     ((if gr_ServiceName req = s \<and> snd out \<noteq> Some ErrInvalidRequest then 1 else 0) + fst (exec_run s cs m'),
      snd (exec_run s cs m'))"
    by (simp add: c e case_prod_beta Let_def)
  have reqs_c: "bucket_requests s (policy m) (c # cs) =
      (if gr_ServiceName req = s \<and> \<not> geo_blocked req (policy m) then [(1, ex_now rd)] else [])
        @ bucket_requests s (policy m) cs"
    by (simp add: bucket_requests_def c)
  have let_in: "gr_ServiceName req = s \<Longrightarrow> (snd out \<noteq> Some ErrInvalidRequest) =
      (\<not> geo_blocked req (policy m) \<and> fst (take_one 1 (ex_now rd) (rate_bucket_of s (policy m))))"
    using refused Allow_allows[of "policy m" "stamp_request rd req"] Cons.prems by auto
  show ?case
  proof (cases "gr_ServiceName req = s \<and> \<not> geo_blocked req (policy m)")
    case True
    then show ?thesis using IH let_in b' unfolding step reqs_c reqs by (simp add: serve_Cons del: serve.simps(2))
  next
    case False
    then have "\<not> (gr_ServiceName req = s \<and> snd out \<noteq> Some ErrInvalidRequest)" using let_in by blast
    moreover have "bucket_requests s (policy m) (c # cs) = bucket_requests s (policy m) cs"
      unfolding reqs_c using False by simp
    moreover have "rate_bucket_of s (policy m') = rate_bucket_of s (policy m)"
      using b' unfolding if_not_P[OF False] .
    ultimately show ?thesis using IH unfolding step reqs by simp
  qed
qed

text \<open>
  C33: After a limit of n requests per minute is set for a service, the manager lets through at most n requests
  and what n per minute bring in the time that has passed, whatever the connectors answer and
  whichever other services are called; the rest is answered with ErrInvalidRequest.
\<close>

theorem requests_per_minute_are_limited:
  assumes "0 < n" and "0 < t0" and "policy m = SetRate s n t0 p" and "exec_clock t0 t1 cs"
  shows "of_nat (fst (exec_run s cs m)) \<le> of_int n + Seconds (t1 - t0) * (of_int n / 60)"
proof -
  let ?b = "rate_bucket_of s (policy m)" and ?rs = "bucket_requests s (policy m) cs"
  have b: "?b = (n, of_int n, t0)" using assms(3) by (simp add: rate_bucket_of_def SetRate_def map_simps)
  have ok: "rate_bucket_ok ?b" using assms(1,2) by (simp add: b rate_bucket_ok_def)
  have clock: "clock_ok (snd (snd ?b)) ?rs" using bucket_requests_clock[OF assms(4)] by (simp add: b)
  have "t0 \<le> t1" using assms(4) by (induction t0 t1 cs rule: exec_clock.induct) auto
  then have "snd (snd (snd (serve take_one ?rs ?b))) \<le> t1"
    using gateway_bucket.serve_last[OF ok clock] bucket_requests_until[OF assms(4)] by (simp add: b)
  then have "Seconds (snd (snd (snd (serve take_one ?rs ?b))) - t0) \<le> Seconds (t1 - t0)"
    by (simp add: Seconds_def divide_right_mono)
  then have "Seconds (snd (snd (snd (serve take_one ?rs ?b))) - t0) * (of_int n / 60) \<le> Seconds (t1 - t0) * (of_int n / 60)"
    using assms(1) by (intro mult_right_mono) simp_all
  moreover have "fst (serve take_one ?rs ?b) \<le>
      of_int n + Seconds (snd (snd (snd (serve take_one ?rs ?b))) - t0) * (of_int n / 60)"
    using gateway_bucket.serve_bounded[OF ok clock] by (simp add: b)
  moreover have "0 < get0 (ratePerMin (policy m)) s" using b assms(1) by (simp add: rate_bucket_of_def)
  ultimately show ?thesis using exec_run_serve[of m s cs] by simp
qed

definition example_request :: "string \<Rightarrow> string \<Rightarrow> bool \<Rightarrow> GatewayRequest" where
  "example_request service operation async =
     \<lparr>gr_RequestID = ''r'', gr_TraceID = '''', gr_CreatedAt = 0, gr_ServiceName = service, gr_Credentials = [],
      gr_Operation = operation, gr_ResourceType = '''', gr_ResourceSpec = [], gr_Extra = [], gr_Policy = [],
      gr_Budget = 0, gr_Deadline = 0, gr_Async = async, gr_CallbackURL = '''', gr_Metadata = []\<rparr>"

definition example_call :: "conn_error + GatewayResponse \<Rightarrow> call_readings" where
  "example_call a = \<lparr>cr_now = 1, cr_floats = (0, 0, 0), cr_int = 0, cr_id = [], cr_answer = a\<rparr>"

definition example_readings :: "gotime \<Rightarrow> (nat \<Rightarrow> call_readings) \<Rightarrow> exec_readings" where
  "example_readings now calls =
     \<lparr>ex_now = now, ex_request_id = [], ex_async_id = [], ex_disk_ok = True, ex_dir = '''', ex_generated = None,
      ex_automated = no_response, ex_call = calls\<rparr>"

definition example_manager :: "InMemoryPolicyEngine \<Rightarrow> ConnectorManager" where
  "example_manager p =
     \<lparr>conns = [], connectors = [], vault = NewFileVault ''v'' [] False [], adapterGen = AIAdapterGenerator,
      automation = DummyAutomation, asyncStore = NewInMemoryAsyncStore '''', policy = p,
      selfHeal = NewSelfHealing, cm_files = [], cm_running = []\<rparr>"

lemmas example_defs = example_request_def example_call_def example_readings_def example_manager_def

lemma example_run:
  "fst (exec_run ''gcp'' (replicate 2 (example_readings 5 (\<lambda>_. example_call (Inl ErrNotFound)), example_request ''gcp'' ''list'' True))
     (example_manager (SetRate ''gcp'' 1 5 NewInMemoryPolicyEngine))) = 1"
  by code_simp

lemma requests_per_minute_are_limited_witness:
  "of_nat (fst (exec_run ''gcp''
     (replicate 2 (example_readings 5 (\<lambda>_. example_call (Inl ErrNotFound)), example_request ''gcp'' ''list'' True))
     (example_manager (SetRate ''gcp'' 1 5 NewInMemoryPolicyEngine)))) \<le> (1 :: rat)
   \<and> fst (exec_run ''gcp''
     (replicate 2 (example_readings 5 (\<lambda>_. example_call (Inl ErrNotFound)), example_request ''gcp'' ''list'' True))
     (example_manager (SetRate ''gcp'' 1 5 NewInMemoryPolicyEngine))) = 1"
  using requests_per_minute_are_limited[of 1 5 "example_manager (SetRate ''gcp'' 1 5 NewInMemoryPolicyEngine)" "''gcp''"
      NewInMemoryPolicyEngine 5
      "replicate 2 (example_readings 5 (\<lambda>_. example_call (Inl ErrNotFound)), example_request ''gcp'' ''list'' True)"]
    example_run
  by (simp add: example_manager_def example_readings_def numeral_2_eq_2 Seconds_def)

section \<open>The registry\<close>

text \<open>Every name in the registry has a place of its own, and the connector there has that name.\<close>

definition registry_ok :: "ConnectorManager \<Rightarrow> bool" where
  "registry_ok m \<longleftrightarrow>
     (\<forall>s i. get (connectors m) s = Some i \<longrightarrow> i < length (conns m) \<and> Name (conns m ! i) = s)"

lemma registry_places:
  assumes "registry_ok m" and "get (connectors m) s = Some i" and "get (connectors m) s' = Some i"
  shows "s = s'"
  using assms unfolding registry_ok_def by metis

lemma DiscoverServices_Name: "Name (snd (DiscoverServices rd c req)) = Name c"
  by (cases c) (simp_all add: case_prod_beta)

lemma dispatch_on_Name: "Name (snd (dispatch_on rd c req)) = Name c"
  by (simp add: dispatch_on_def case_prod_beta DiscoverServices_Name)

lemma dispatch_frame:
  "connectors (snd (dispatchToConnector rd i req m)) = connectors m"
  "length (conns (snd (dispatchToConnector rd i req m))) = length (conns m)"
  "Failovers (selfHeal (snd (dispatchToConnector rd i req m))) = Failovers (selfHeal m)"
  by (simp_all add: dispatchToConnector_def case_prod_beta)

lemma dispatch_place:
  "conns (snd (dispatchToConnector rd i req m)) = (conns m)[i := snd (dispatch_on rd (conns m ! i) req)]"
  by (simp add: dispatchToConnector_def case_prod_beta)

lemma dispatch_answer: "fst (dispatchToConnector rd i req m) = fst (dispatch_on rd (conns m ! i) req)"
  by (simp add: dispatchToConnector_def case_prod_beta)

lemma registry_frame:
  assumes "registry_ok m" and "connectors m' = connectors m" and "conns m' = conns m"
  shows "registry_ok m'"
  using assms by (simp add: registry_ok_def)

lemma Name_after_dispatch:
  "j < length cs \<Longrightarrow> Name (cs[i := snd (dispatch_on rd (cs ! i) req)] ! j) = Name (cs ! j)"
  by (cases "j = i") (simp_all add: dispatch_on_Name)

lemma registry_dispatch: "registry_ok m \<Longrightarrow> registry_ok (snd (dispatchToConnector rd i req m))"
  unfolding registry_ok_def dispatch_frame dispatch_place by (simp add: Name_after_dispatch)

lemma registry_register: "registry_ok m \<Longrightarrow> registry_ok (RegisterConnector c m)"
  unfolding registry_ok_def
  by (cases c) (auto simp: RegisterConnector_def get_put nth_append less_SucI split: if_splits)

lemma registry_again: "registry_ok m \<Longrightarrow> registry_ok (RegisterAgain p m)"
  by (auto simp: registry_ok_def RegisterAgain_def get_put)

lemma registry_failovers: "registry_ok m \<Longrightarrow> registry_ok (snd (try_failovers rd k req alts m))"
proof (induction alts arbitrary: k m)
  case (Cons alt alts)
  then show ?case
    using registry_dispatch[OF Cons.prems] by (simp add: case_prod_beta split: option.split)
qed simp

lemma registry_find: "registry_ok m \<Longrightarrow> registry_ok (snd (find_connector rd s m))"
  by (simp add: find_connector_def registry_register split: option.split)

lemma registry_sync:
  assumes "registry_ok m"
  shows "registry_ok (snd (execute_sync rd i req m))"
proof -
  have "registry_ok (m'\<lparr>selfHeal := h\<rparr>)" if "registry_ok m'" for m' h
    by (rule registry_frame[OF that]) simp_all
  then show ?thesis using registry_dispatch[OF assms] registry_failovers
    by (simp add: execute_sync_def case_prod_beta Let_def split: option.split)
qed

lemma registry_Execute:
  assumes "registry_ok m"
  shows "registry_ok (snd (Execute rd req m))"
proof -
  have p: "registry_ok (m\<lparr>policy := p\<rparr>)" for p by (rule registry_frame[OF assms]) simp_all
  have f: "registry_ok (snd (find_connector rd s (m\<lparr>policy := p\<rparr>)))" for s p by (rule registry_find[OF p])
  have a: "registry_ok (snd (execute_async rd i r m'))" if "registry_ok m'" for i r m'
    by (rule registry_frame[OF that]) (simp_all add: execute_async_def case_prod_beta)
  have x: "registry_ok (snd (execute_missing rd r m'))" if "registry_ok m'" for r m'
    by (rule registry_frame[OF that]) (simp_all add: execute_missing_def)
  have "registry_ok (snd (case find_connector rd s (m\<lparr>policy := p\<rparr>) of
            (None, m) \<Rightarrow> execute_missing rd r m
          | (Some i, m) \<Rightarrow>
              (case (if b then execute_async rd i r m else execute_sync rd i r m) of
                 (res, m) \<Rightarrow> ((res, None), m))))" for s p r b
    using f[of s p] a x registry_sync
    by (cases "find_connector rd s (m\<lparr>policy := p\<rparr>)") (auto simp: case_prod_beta split: option.split)
  then show ?thesis using p unfolding Execute_simps by (auto simp: case_prod_beta)
qed

section \<open>Failovers\<close>

text \<open>The registered ones among some names, with their places.\<close>

fun reached :: "string list \<Rightarrow> ConnectorManager \<Rightarrow> (string \<times> nat) list" where
  "reached [] m = []"
| "reached (n # ns) m = (case get (connectors m) n of None \<Rightarrow> [] | Some i \<Rightarrow> [(n, i)]) @ reached ns m"

text \<open>What each of them answers, call by call, if all are called as they are now.\<close>

fun replies ::
    "(nat \<Rightarrow> call_readings) \<Rightarrow> nat \<Rightarrow> GatewayRequest \<Rightarrow> (string \<times> nat) list \<Rightarrow> ConnectorManager \<Rightarrow> GatewayResponse list" where
  "replies rd k req [] m = []"
| "replies rd k req ((n, i) # ns) m =
     fst (dispatch_on (rd k) (conns m ! i) (req\<lparr>gr_ServiceName := n\<rparr>)) # replies rd (k + 1) req ns m"

definition first_success :: "GatewayResponse list \<Rightarrow> GatewayResponse" where
  "first_success rs = (case find gs_Success rs of Some r \<Rightarrow> r | None \<Rightarrow> hd rs)"

lemma replies_frame:
  assumes "\<And>n i. (n, i) \<in> set ns \<Longrightarrow> conns m' ! i = conns m ! i"
  shows "replies rd k req ns m' = replies rd k req ns m"
  using assms
proof (induction ns arbitrary: k)
  case (Cons p ns)
  obtain n i where "p = (n, i)" by (cases p)
  moreover from this have "conns m' ! i = conns m ! i" using Cons.prems by auto
  moreover have "replies rd (k + 1) req ns m' = replies rd (k + 1) req ns m"
    using Cons.prems by (intro Cons.IH) auto
  ultimately show ?case by simp
qed simp

lemma reached_frame: "connectors m' = connectors m \<Longrightarrow> reached ns m' = reached ns m"
  by (induction ns) simp_all

lemma reached_get: "(n, i) \<in> set (reached ns m) \<Longrightarrow> n \<in> set ns \<and> get (connectors m) n = Some i"
  by (induction ns) (auto split: option.splits)

lemma replies_after_dispatch:
  assumes "registry_ok m" and "get (connectors m) n = Some i" and "n \<notin> set ns"
  shows "replies rd k req (reached ns m) (snd (dispatchToConnector rd' i req' m)) = replies rd k req (reached ns m) m"
proof (rule replies_frame)
  fix n' j assume "(n', j) \<in> set (reached ns m)"
  then have "n' \<in> set ns" "get (connectors m) n' = Some j" using reached_get by blast+
  then have "j \<noteq> i" using registry_places[OF assms(1)] assms(2,3) by blast
  then show "conns (snd (dispatchToConnector rd' i req' m)) ! j = conns m ! j" by (simp add: dispatch_place)
qed

lemma failovers_find:
  assumes "registry_ok m" and "distinct alts"
  shows "fst (try_failovers rd k req alts m) = find gs_Success (replies rd k req (reached alts m) m)"
  using assms
proof (induction alts arbitrary: k m)
  case (Cons alt alts)
  show ?case
  proof (cases "get (connectors m) alt")
    case None
    then show ?thesis using Cons by (simp add: GetConnector_def)
  next
    case (Some i)
    let ?req = "req\<lparr>gr_ServiceName := alt\<rparr>"
    let ?m = "snd (dispatchToConnector (rd k) i ?req m)"
    have "fst (try_failovers rd (k + 1) req alts ?m) = find gs_Success (replies rd (k + 1) req (reached alts ?m) ?m)"
      using Cons registry_dispatch by simp
    also have "reached alts ?m = reached alts m" by (rule reached_frame) (rule dispatch_frame)
    also have "replies rd (k + 1) req (reached alts m) ?m = replies rd (k + 1) req (reached alts m) m"
      using replies_after_dispatch[OF Cons.prems(1) Some] Cons.prems(2) by simp
    finally have rest: "fst (try_failovers rd (k + 1) req alts ?m) =
      find gs_Success (replies rd (k + 1) req (reached alts m) m)" .
    have "fst (try_failovers rd k req (alt # alts) m) =
      (if gs_Success (fst (dispatchToConnector (rd k) i ?req m)) then Some (fst (dispatchToConnector (rd k) i ?req m))
       else fst (try_failovers rd (k + 1) req alts ?m))"
      by (simp only: try_failovers.simps(2) GetConnector_def Some option.case case_prod_beta split: if_split) simp
    then show ?thesis unfolding rest by (simp only: reached.simps Some option.case append.simps replies.simps
        find.simps dispatch_answer)
  qed
qed simp

definition failovers_of :: "ConnectorManager \<Rightarrow> string \<Rightarrow> string list" where
  "failovers_of m s = (case get (Failovers (selfHeal m)) s of None \<Rightarrow> [] | Some alts \<Rightarrow> alts)"

lemma RegisterFailure_Failovers [simp]: "Failovers (RegisterFailure n now h) = Failovers h"
  by (simp add: RegisterFailure_def Let_def split: option.split)

lemma sync_answers:
  assumes "registry_ok m" and "get (connectors m) (gr_ServiceName req) = Some i"
    and "distinct (gr_ServiceName req # failovers_of m (gr_ServiceName req))"
  shows "fst (execute_sync rd i req m) = StandardizeResponse (ex_now rd)
    (first_success (replies (ex_call rd) 0 req
      (reached (gr_ServiceName req # failovers_of m (gr_ServiceName req)) m) m))"
proof -
  let ?s = "gr_ServiceName req" and ?alts = "failovers_of m (gr_ServiceName req)"
  let ?r = "fst (dispatch_on (ex_call rd 0) (conns m ! i) req)"
  let ?m = "snd (dispatchToConnector (ex_call rd 0) i req m)"
  let ?m1 = "?m\<lparr>selfHeal := RegisterFailure ?s (ex_now rd) (selfHeal ?m)\<rparr>"
  have req: "req\<lparr>gr_ServiceName := ?s\<rparr> = req" by simp
  have "registry_ok ?m1" by (rule registry_frame[OF registry_dispatch[OF assms(1)]]) simp_all
  then have "fst (try_failovers (ex_call rd) 1 req ?alts ?m1) =
      find gs_Success (replies (ex_call rd) 1 req (reached ?alts ?m1) ?m1)"
    using assms(3) by (intro failovers_find) simp_all
  also have "reached ?alts ?m1 = reached ?alts m" by (rule reached_frame) (simp add: dispatch_frame)
  also have "replies (ex_call rd) 1 req (reached ?alts m) ?m1 = replies (ex_call rd) 1 req (reached ?alts m) ?m"
    by (rule replies_frame) simp
  also have "\<dots> = replies (ex_call rd) 1 req (reached ?alts m) m"
    using replies_after_dispatch[OF assms(1,2)] assms(3) by simp
  finally have alt: "fst (try_failovers (ex_call rd) 1 req ?alts ?m1) =
      find gs_Success (replies (ex_call rd) 1 req (reached ?alts m) m)" .
  have alts: "(case get (Failovers (selfHeal ?m1)) ?s of None \<Rightarrow> [] | Some a \<Rightarrow> a) = ?alts"
    by (simp add: failovers_of_def dispatch_frame)
  have sync: "fst (execute_sync rd i req m) = StandardizeResponse (ex_now rd)
      (if gs_Success ?r then ?r
       else (case fst (try_failovers (ex_call rd) 1 req ?alts ?m1) of Some a \<Rightarrow> a | None \<Rightarrow> ?r))"
    using alts by (auto simp: execute_sync_def case_prod_beta Let_def dispatch_answer split: option.split)
  have replies: "replies (ex_call rd) 0 req (reached (?s # ?alts) m) m =
      ?r # replies (ex_call rd) 1 req (reached ?alts m) m"
    using assms(2) req by simp
  show ?thesis unfolding sync alt replies first_success_def by (simp split: option.split)
qed

text \<open>
  C2: A request that the policy lets through, for a registered service. A synchronous one, where the failovers are
  other services, each named once: the answer is the first success among the service's connector and its registered
  failovers, in their order, each called once under its own name; when nobody succeeds, it is the service's own
  failure. An asynchronous one: the answer is that the operation has started, with the ID of its job. Either way
  there is no error.
\<close>

theorem failovers_answer_in_order:
  assumes "registry_ok m" and "has_key (connectors m) (gr_ServiceName req)" and "gr_ServiceName req \<noteq> ''''"
    and "fst (fst (Gateway.Allow (stamp_request rd req) (ex_now rd) (policy m)))"
    and "\<not> gr_Async req \<Longrightarrow> distinct (gr_ServiceName req # failovers_of m (gr_ServiceName req))"
  shows "fst (Execute rd req m) =
    (StandardizeResponse (ex_now rd)
      (if gr_Async req then
         (message_of ''operation started async'')\<lparr>gs_AsyncID := GenerateSecureID ''async'' (ex_async_id rd)\<rparr>
       else
         first_success (replies (ex_call rd) 0 (stamp_request rd req)
           (reached (gr_ServiceName req # failovers_of m (gr_ServiceName req)) m) m)), None)"
proof -
  obtain i where i: "get (connectors m) (gr_ServiceName req) = Some i" using assms(2) by (auto simp: has_key_def)
  let ?m = "m\<lparr>policy := snd (Gateway.Allow (stamp_request rd req) (ex_now rd) (policy m))\<rparr>"
  show ?thesis
  proof (cases "gr_Async req")
    case True
    then show ?thesis using assms(3,4) i
      by (simp add: Execute_simps find_connector_def GetConnector_def case_prod_beta execute_async_def StartJob_def
          Let_def)
  next
    case False
    then have "fst (Execute rd req m) = (fst (execute_sync rd i (stamp_request rd req) ?m), None)"
      using assms(3,4) i by (simp add: Execute_simps find_connector_def GetConnector_def case_prod_beta)
    moreover have "registry_ok ?m" by (rule registry_frame[OF assms(1)]) simp_all
    moreover have "failovers_of ?m s = failovers_of m s" for s by (simp add: failovers_of_def)
    moreover have "reached ns ?m = reached ns m" for ns by (rule reached_frame) simp
    moreover have "replies c k r ns ?m = replies c k r ns m" for c k r ns by (rule replies_frame) simp
    ultimately show ?thesis using sync_answers[of ?m "stamp_request rd req" i rd] i assms(5) False by simp
  qed
qed

definition example_registry :: ConnectorManager where
  "example_registry =
     (let m = RegisterConnector (Some GCP) (RegisterConnector (Some (OtherConnector ''x'' [])) (example_manager NewInMemoryPolicyEngine))
      in m\<lparr>selfHeal := (selfHeal m)\<lparr>Failovers := [(''x'', [''y'', ''GCPDataIntelligence''])]\<rparr>\<rparr>)"

lemma example_registry_ok: "registry_ok example_registry"
proof -
  have "registry_ok (example_manager NewInMemoryPolicyEngine)" by (simp add: registry_ok_def example_manager_def)
  note registry_register[OF registry_register[OF this]]
  then show ?thesis unfolding example_registry_def Let_def by (rule registry_frame) simp_all
qed

lemma example_failover:
  "has_key (connectors example_registry) ''x'' \<and>
   fst (fst (Gateway.Allow (stamp_request (example_readings 5 (\<lambda>_. example_call (Inl ErrAuthFailed))) (example_request ''x'' ''manage'' False)) 5 (policy example_registry))) \<and>
   failovers_of example_registry ''x'' = [''y'', ''GCPDataIntelligence''] \<and>
   gs_Message (first_success (replies (\<lambda>_. example_call (Inl ErrAuthFailed)) 0
     (stamp_request (example_readings 5 (\<lambda>_. example_call (Inl ErrAuthFailed))) (example_request ''x'' ''manage'' False))
     (reached [''x'', ''y'', ''GCPDataIntelligence''] example_registry) example_registry)) =
   ''Managed with data intelligence and streaming''"
  by code_simp

lemma failovers_answer_in_order_witness:
  "gs_Message (fst (fst (Execute (example_readings 5 (\<lambda>_. example_call (Inl ErrAuthFailed)))
     (example_request ''x'' ''manage'' False) example_registry))) = ''Managed with data intelligence and streaming''"
  using failovers_answer_in_order[of example_registry "example_request ''x'' ''manage'' False"
      "example_readings 5 (\<lambda>_. example_call (Inl ErrAuthFailed))"] example_registry_ok example_failover
  by (simp add: example_readings_def example_request_def StandardizeResponse_def)

section \<open>Unknown services\<close>

lemma generic_answers:
  "gs_Success (fst (dispatch_on rd (Generic g) req)) \<longleftrightarrow>
     gr_Operation req \<in> {OpDiscover, OpList, OpManage, OpCustom}"
  by (auto simp: dispatch_on_def internal_failure_def StandardizeResponse_def failure_of_def no_response_def
      data_of_def resources_of_def message_of_def Generic_DiscoverServices_def Generic_ListResources_def
      Generic_ManageResource_def Generic_CustomOperation_def)

lemma StandardizeResponse_Success [simp]: "gs_Success (StandardizeResponse now r) = gs_Success r"
  by (simp add: StandardizeResponse_def)

text \<open>
  With the default generator nobody hears that a service is unknown: a request for a service that
  is not registered and has no failovers, when the policy lets it through, registers a generic
  connector under its name and never returns an error; a synchronous one then succeeds exactly
  when it asks for one of the four operations.
\<close>

theorem unknown_services_are_made_up:
  assumes "adapterGen m = AIAdapterGenerator" and "\<not> has_key (connectors m) (gr_ServiceName req)"
    and "gr_ServiceName req \<noteq> ''''" and "failovers_of m (gr_ServiceName req) = []"
    and "fst (fst (Gateway.Allow (stamp_request rd req) (ex_now rd) (policy m)))"
  shows "snd (fst (Execute rd req m)) = None
    \<and> gs_Success (fst (fst (Execute rd req m))) =
        (gr_Async req \<or> gr_Operation req \<in> {OpDiscover, OpList, OpManage, OpCustom})
    \<and> connectors (snd (Execute rd req m)) = put (gr_ServiceName req) (length (conns m)) (connectors m)"
proof -
  let ?s = "gr_ServiceName req" and ?q = "stamp_request rd req"
  let ?m = "m\<lparr>policy := snd (Gateway.Allow ?q (ex_now rd) (policy m))\<rparr>"
  let ?m' = "RegisterConnector (Some (Generic (NewGenericConnector (ex_dir rd) ?s))) ?m"
  let ?i = "length (conns m)"
  have none: "get (connectors m) ?s = None" using assms(2) by (simp add: has_key_def)
  have find: "find_connector rd ?s ?m = (Some ?i, ?m')"
    using none assms(1) by (simp add: find_connector_def GetConnector_def GenerateAdapter_def)
  have ex: "Execute rd req m =
      (case (if gr_Async req then execute_async rd ?i ?q ?m' else execute_sync rd ?i ?q ?m') of
         (res, m) \<Rightarrow> ((res, None), m))"
    using assms(3,5) find by (simp add: Execute_simps case_prod_beta)
  have reg: "connectors ?m' = put ?s ?i (connectors m)" "conns ?m' ! ?i = Generic (NewGenericConnector (ex_dir rd) ?s)"
    by (simp_all add: RegisterConnector_def NewGenericConnector_def)
  have op: "gr_Operation ?q = gr_Operation req" by (simp add: stamp_request_def)
  have fo: "Failovers (selfHeal ?m') = Failovers (selfHeal m)" by (simp add: RegisterConnector_def)
  let ?d = "dispatchToConnector (ex_call rd 0) ?i ?q ?m'"
  have ok: "gs_Success (fst ?d) \<longleftrightarrow> gr_Operation req \<in> {OpDiscover, OpList, OpManage, OpCustom}"
    unfolding dispatch_answer reg(2) generic_answers op ..
  have no_alts: "(case get (Failovers (selfHeal m)) ?s of None \<Rightarrow> [] | Some a \<Rightarrow> a) = []"
    using assms(4) by (simp add: failovers_of_def)
  have sync: "gs_Success (fst (execute_sync rd ?i ?q ?m')) = gs_Success (fst ?d) \<and>
      connectors (snd (execute_sync rd ?i ?q ?m')) = connectors ?m'"
    using no_alts dispatch_frame[of "ex_call rd 0" ?i ?q ?m'] fo
    by (simp add: execute_sync_def case_prod_beta Let_def)
  have async: "gs_Success (fst (execute_async rd ?i ?q ?m')) \<and> connectors (snd (execute_async rd ?i ?q ?m')) = connectors ?m'"
    by (simp add: execute_async_def case_prod_beta message_of_def)
  show ?thesis
  proof (cases "gr_Async req")
    case True
    then show ?thesis using async reg(1) by (simp add: ex case_prod_beta)
  next
    case False
    then show ?thesis using sync ok reg(1) by (simp add: ex case_prod_beta)
  qed
qed

lemma unknown_services_are_made_up_witness:
  "gs_Success (fst (fst (Execute (example_readings 5 (\<lambda>_. example_call (Inl ErrNotFound)))
     (example_request ''no-such-cloud'' ''manage'' False) (example_manager NewInMemoryPolicyEngine))))"
  using unknown_services_are_made_up[of "example_manager NewInMemoryPolicyEngine"
      "example_request ''no-such-cloud'' ''manage'' False" "example_readings 5 (\<lambda>_. example_call (Inl ErrNotFound))"]
  by (simp add: example_defs failovers_of_def NewSelfHealing_def Gateway.Allow_def NewInMemoryPolicyEngine_def
      stamp_request_def geo_blocked_def has_key_def)

section \<open>The vault\<close>

text \<open>
  C34: Credentials cannot be stored in a vault whose lock is free. A call of Store returns only with an error, of
  the marshaller, about the key or of the generator of random bytes, and then it changes nothing; otherwise it takes
  the lock, waits for itself when it persists, and never returns. From then on no call of Store or Retrieve
  returns, and the file has none of it. (Encrypt and Decrypt take no lock and go on to return.)
\<close>

theorem stores_never_succeed:
  assumes "fv_mu v = Unlocked"
  shows "case Vault_Store lib nonce disk_ok key creds (v, fs) of
      Returned r s \<Rightarrow> (r = Some BadJSON \<or> r = Some BadKey \<or> r = Some NoNonce) \<and> s = (v, fs)
    | Blocked s \<Rightarrow> snd s = fs
        \<and> json_Marshal lib creds \<noteq> None \<and> aes_key_ok (fv_key v) \<and> nonce \<noteq> None
        \<and> (\<forall>nonce' disk_ok' key' creds'. Vault_Store lib nonce' disk_ok' key' creds' s = Blocked s)
        \<and> (\<forall>key'. Vault_Retrieve lib key' s = Blocked s)
    | Panicked s \<Rightarrow> False"
proof (cases "json_Marshal lib creds")
  case None
  then show ?thesis using assms by (cases v) (simp add: Vault_Store_def Let_def)
next
  case (Some plain)
  then show ?thesis using assms
    by (cases v; cases nonce)
      (auto simp: Vault_Store_def Vault_Retrieve_def persist_vault_def Encrypt_def aes_key_ok_def Let_def)
qed

definition example_lib :: vault_lib where
  "example_lib =
     \<lparr>gcm_Seal = (\<lambda>k n t. t), gcm_Open = (\<lambda>k n c. Some c), base64_Encode = (\<lambda>b. ''x''), base64_Decode = (\<lambda>s. None),
      json_Marshal = (\<lambda>m. Some []), json_Unmarshal = (\<lambda>b. Some [])\<rparr>"

lemma stores_never_succeed_witness:
  "is_blocked (Vault_Store example_lib (Some []) True ''aws'' [] (NewFileVault ''v'' (replicate 32 0) False [], []))"
proof -
  let ?v = "NewFileVault ''v'' (replicate 32 0) False []"
  have "fv_mu ?v = Unlocked" and key: "aes_key_ok (fv_key ?v)" by (simp_all add: NewFileVault_def aes_key_ok_def)
  from stores_never_succeed[OF this(1), where lib = example_lib and nonce = "Some []" and disk_ok = True and key = "''aws''"
      and creds = "[]" and fs = "[]"]
  show ?thesis using key
    by (simp add: Vault_Store_def example_lib_def NewFileVault_def Encrypt_def persist_vault_def split: outcome.splits)
qed

section \<open>Results of asynchronous jobs\<close>

datatype cm_event =
    DoExecute exec_readings GatewayRequest
  | DoRun call_readings gotime bool nat
  | DoCleanup gotime
  | DoRegister ConnectorGateway
  | DoRegisterAgain nat

fun cm_apply :: "ConnectorManager \<Rightarrow> cm_event \<Rightarrow> ConnectorManager" where
  "cm_apply m (DoExecute rd req) = snd (Execute rd req m)"
| "cm_apply m (DoRun rd now disk_ok k) = run_job rd now disk_ok k m"
| "cm_apply m (DoCleanup now) = cleanup_jobs now m"
| "cm_apply m (DoRegister c) = RegisterConnector (Some c) m"
| "cm_apply m (DoRegisterAgain p) = RegisterAgain p m"

text \<open>An event that neither draws the ID again nor cleans up later than t.\<close>

fun keeps_job :: "string \<Rightarrow> gotime \<Rightarrow> cm_event \<Rightarrow> bool" where
  "keeps_job jid t (DoExecute rd req) \<longleftrightarrow> GenerateSecureID ''async'' (ex_async_id rd) \<noteq> jid"
| "keeps_job jid t (DoCleanup now) \<longleftrightarrow> now \<le> t"
| "keeps_job jid t e \<longleftrightarrow> True"

text \<open>The job has ended at \<open>t\<close> with the result \<open>res\<close>, and no goroutine has its ID.\<close>

definition job_done :: "string \<Rightarrow> gotime \<Rightarrow> GatewayResponse \<Rightarrow> duration \<Rightarrow> ConnectorManager \<Rightarrow> bool" where
  "job_done jid t res ttl m \<longleftrightarrow>
     get (as_store (asyncStore m)) jid = Some \<lparr>ij_Result = res, ij_Done = True, ij_At = t, ij_TTL = t + ttl\<rparr>
     \<and> as_ttl (asyncStore m) = ttl \<and> jid \<notin> fst ` set (cm_running m)"

named_theorems job_frame

lemma job_done_frame:
  assumes "job_done jid t res ttl m" and "asyncStore m' = asyncStore m" and "cm_running m' = cm_running m"
  shows "job_done jid t res ttl m'"
  using assms by (simp add: job_done_def)

lemma manager_jobs [job_frame]:
  "asyncStore (snd (dispatchToConnector rd i req m)) = asyncStore m"
  "cm_running (snd (dispatchToConnector rd i req m)) = cm_running m"
  "asyncStore (RegisterConnector c m) = asyncStore m" "cm_running (RegisterConnector c m) = cm_running m"
  "asyncStore (RegisterAgain p m) = asyncStore m" "cm_running (RegisterAgain p m) = cm_running m"
  "asyncStore (snd (find_connector erd s m)) = asyncStore m" "cm_running (snd (find_connector erd s m)) = cm_running m"
  "asyncStore (snd (execute_missing erd req m)) = asyncStore m"
  "cm_running (snd (execute_missing erd req m)) = cm_running m"
  by (simp_all add: dispatchToConnector_def RegisterConnector_def RegisterAgain_def find_connector_def
      execute_missing_def case_prod_beta split: option.split)

lemma failovers_jobs [job_frame]:
  "asyncStore (snd (try_failovers rd k req alts m)) = asyncStore m \<and>
   cm_running (snd (try_failovers rd k req alts m)) = cm_running m"
  by (induction alts arbitrary: k m) (simp_all add: case_prod_beta job_frame split: option.split)

lemma sync_jobs [job_frame]:
  "asyncStore (snd (execute_sync rd i req m)) = asyncStore m"
  "cm_running (snd (execute_sync rd i req m)) = cm_running m"
  by (simp_all add: execute_sync_def case_prod_beta Let_def job_frame split: option.split)

lemma job_done_async:
  assumes "job_done jid t res ttl m" and "GenerateSecureID ''async'' (ex_async_id rd) \<noteq> jid"
  shows "job_done jid t res ttl (snd (execute_async rd i req m))"
  using assms by (auto simp: job_done_def execute_async_def StartJob_def Let_def get_put)

lemma job_done_Execute:
  assumes "job_done jid t res ttl m" and "GenerateSecureID ''async'' (ex_async_id rd) \<noteq> jid"
  shows "job_done jid t res ttl (snd (Execute rd req m))"
proof -
  let ?p = "snd (Gateway.Allow (stamp_request rd req) (ex_now rd) (policy m))"
  let ?m = "m\<lparr>policy := ?p\<rparr>" and ?q = "stamp_request rd req"
  let ?f = "find_connector rd (gr_ServiceName req) ?m"
  have m: "job_done jid t res ttl ?m" by (rule job_done_frame[OF assms(1)]) simp_all
  then have f: "job_done jid t res ttl (snd ?f)" by (rule job_done_frame) (simp_all add: job_frame)
  have x: "job_done jid t res ttl (snd (execute_missing rd ?q (snd ?f)))"
    by (rule job_done_frame[OF f]) (simp_all add: job_frame)
  have s: "job_done jid t res ttl (snd (execute_sync rd i ?q (snd ?f)))" for i
    by (rule job_done_frame[OF f]) (simp_all add: job_frame)
  have a: "job_done jid t res ttl (snd (execute_async rd i ?q (snd ?f)))" for i
    by (rule job_done_async[OF f assms(2)])
  show ?thesis using m f x s a unfolding Execute_simps by (auto simp: case_prod_beta split: option.split)
qed

lemma get_filter: "get m k = Some v \<Longrightarrow> P (k, v) \<Longrightarrow> get (filter P m) k = Some v"
  by (induction m) auto

lemma job_done_cleanup:
  assumes "job_done jid t res ttl m" and "now \<le> t + ttl"
  shows "job_done jid t res ttl (cleanup_jobs now m)"
proof -
  let ?j = "\<lparr>ij_Result = res, ij_Done = True, ij_At = t, ij_TTL = t + ttl\<rparr>"
  have "\<not> expired now (asyncStore m) ?j" using assms by (simp add: expired_def job_done_def)
  moreover have "get (as_store (asyncStore m)) jid = Some ?j" using assms(1) by (simp add: job_done_def)
  ultimately have "get (filter (\<lambda>(k, j). \<not> expired now (asyncStore m) j) (as_store (asyncStore m))) jid = Some ?j"
    by (intro get_filter) simp_all
  then show ?thesis using assms(1)
    by (simp add: job_done_def cleanup_jobs_def cleanup_tick_def Cleanup_def Let_def)
qed

lemma run_job_simps:
  assumes "k < length (cm_running m)" and "cm_running m ! k = (jid, i, req)"
  shows "asyncStore (run_job rd now disk_ok k m) =
      fst (finish_job disk_ok jid (fst (dispatchToConnector rd i req m)) now (asyncStore m) (cm_files m))"
    and "cm_running (run_job rd now disk_ok k m) = take k (cm_running m) @ drop (Suc k) (cm_running m)"
  using assms by (simp_all add: run_job_def case_prod_beta job_frame finish_job_def dispatchToConnector_def)

lemma in_take_drop:
  assumes "x \<in> set (take k xs @ drop (Suc k) xs)"
  shows "\<exists>j<length xs. j \<noteq> k \<and> x = xs ! j"
proof -
  consider "x \<in> set (take k xs)" | "x \<in> set (drop (Suc k) xs)" using assms by auto
  then show ?thesis
  proof cases
    case 1
    then obtain j where "j < length (take k xs)" "x = take k xs ! j" by (auto simp: in_set_conv_nth)
    then show ?thesis by (intro exI[of _ j]) auto
  next
    case 2
    then obtain j where "j < length xs - Suc k" "x = drop (Suc k) xs ! j" by (auto simp: in_set_conv_nth)
    then show ?thesis by (intro exI[of _ "Suc k + j"]) auto
  qed
qed

lemma job_done_run:
  assumes "job_done jid t res ttl m"
  shows "job_done jid t res ttl (run_job rd now disk_ok k m)"
proof (cases "k < length (cm_running m)")
  case True
  obtain jid' i req where j: "cm_running m ! k = (jid', i, req)" by (metis prod_cases3)
  have "cm_running m ! k \<in> set (cm_running m)" using True by simp
  then have "jid' \<in> fst ` set (cm_running m)" unfolding j by force
  then have "jid' \<noteq> jid" using assms by (auto simp: job_done_def)
  moreover have "set (cm_running (run_job rd now disk_ok k m)) \<subseteq> set (cm_running m)"
    using set_take_subset[of k "cm_running m"] set_drop_subset[of "Suc k" "cm_running m"]
    by (simp add: run_job_simps(2)[OF True j])
  then have "jid \<notin> fst ` set (cm_running (run_job rd now disk_ok k m))"
    using assms unfolding job_done_def by blast
  ultimately show ?thesis using assms
    by (simp add: job_done_def run_job_simps(1)[OF True j] finish_job_def Let_def get_put)
qed (simp add: run_job_def assms)

lemma job_done_apply:
  assumes "job_done jid t res ttl m" and "keeps_job jid (t + ttl) e"
  shows "job_done jid t res ttl (cm_apply m e)"
proof (cases e)
  case (DoRegister c)
  then show ?thesis using job_done_frame[OF assms(1), of "cm_apply m e"] by (simp add: job_frame)
next
  case (DoRegisterAgain p)
  then show ?thesis using job_done_frame[OF assms(1), of "cm_apply m e"] by (simp add: job_frame)
qed (use assms in \<open>auto intro: job_done_Execute job_done_run job_done_cleanup\<close>)

lemma job_done_events:
  "job_done jid t res ttl m \<Longrightarrow> \<forall>e\<in>set es. keeps_job jid (t + ttl) e \<Longrightarrow> job_done jid t res ttl (foldl cm_apply m es)"
  by (induction es arbitrary: m) (simp_all add: job_done_apply)

lemma job_done_poll: "job_done jid t res ttl m \<Longrightarrow> PollAsync_manager jid m = (res, True)"
  by (simp add: job_done_def PollAsync_manager_def PollJob_def)

text \<open>
  C32: When the goroutine of an asynchronous request ends at t, polling its ID gives what the connector answered,
  and goes on to give exactly that until t plus the store's lifetime, whatever requests, other jobs,
  cleanups and registrations come in between, as long as no new job draws the same ID.
\<close>

theorem results_are_kept_for_their_lifetime:
  assumes "k < length (cm_running m)" and "cm_running m ! k = (jid, i, req)"
    and "\<And>j. j < length (cm_running m) \<Longrightarrow> j \<noteq> k \<Longrightarrow> fst (cm_running m ! j) \<noteq> jid"
    and "\<forall>e\<in>set es. keeps_job jid (t + as_ttl (asyncStore m)) e"
  shows "PollAsync_manager jid (foldl cm_apply (run_job rd t disk_ok k m) es) =
    (fst (dispatchToConnector rd i req m), True)"
proof -
  have "jid \<notin> fst ` set (cm_running (run_job rd t disk_ok k m))"
  proof
    assume "jid \<in> fst ` set (cm_running (run_job rd t disk_ok k m))"
    then obtain x where x: "x \<in> set (cm_running (run_job rd t disk_ok k m))" "fst x = jid" by blast
    from in_take_drop[OF x(1)[unfolded run_job_simps(2)[OF assms(1,2)]]]
    show False using assms(3) x(2) by blast
  qed
  then have "job_done jid t (fst (dispatchToConnector rd i req m)) (as_ttl (asyncStore m)) (run_job rd t disk_ok k m)"
    by (simp add: job_done_def run_job_simps(1)[OF assms(1,2)] finish_job_def Let_def get_put)
  then show ?thesis using assms(4) by (blast intro: job_done_poll job_done_events)
qed

lemma results_are_kept_for_their_lifetime_witness:
  "snd (PollAsync_manager ''async-'' (foldl cm_apply
     (run_job (example_call (Inl ErrNotFound)) 7 True 0
       (snd (Execute (example_readings 5 (\<lambda>_. example_call (Inl ErrNotFound))) (example_request ''gcp'' ''list'' True)
         (example_manager NewInMemoryPolicyEngine)))) [DoCleanup 9]))"
proof -
  let ?m = "snd (Execute (example_readings 5 (\<lambda>_. example_call (Inl ErrNotFound))) (example_request ''gcp'' ''list'' True)
     (example_manager NewInMemoryPolicyEngine))"
  have m: "map (\<lambda>(jid, i, req). (jid, i)) (cm_running ?m) = [(''async-'', 0)] \<and> as_ttl (asyncStore ?m) = 24 * Hour"
    by code_simp
  then obtain req where req: "cm_running ?m = [(''async-'', 0, req)]" by (auto simp: map_eq_Cons_conv)
  show ?thesis
    using results_are_kept_for_their_lifetime[of 0 ?m "''async-''" 0 req "[DoCleanup 9]" 7 "example_call (Inl ErrNotFound)" True]
      req m by (simp add: Hour_def Second_def)
qed

end
