(* ===== verification/SecStore.thy ===== *)
theory SecStore
  imports GoBytes GoPath
begin

text \<open>
  The encrypted store, \<^verbatim>\<open>src/internal/secstore/store.go\<close> and \<^verbatim>\<open>rotation.go\<close>. AES-GCM and JSON are parameters
  (standard library); a key service is a pair of functions, so that a run may use any. Random keys and nonces
  are arguments, and so is how the disk answers each write. The mutex is taken at the start of each method and
  released by defer on every way out.
\<close>

section \<open>Files\<close>

record fileHeader =
  fh_Version :: int
  fh_Alg :: string
  fh_NonceSize :: int
  fh_WrappedDEKMeta :: string
  fh_KEKID :: string

record fileParts =
  fp_header :: bytes
  fp_wrapped :: bytes
  fp_ct :: bytes

record sec_lib = aead +
  header_Marshal :: "fileHeader \<Rightarrow> bytes"
  header_Unmarshal :: "bytes \<Rightarrow> fileHeader option"

record KMSWrapper =
  kms_Wrap :: "bytes \<Rightarrow> (bytes \<times> string) option"
  kms_Unwrap :: "bytes \<Rightarrow> bytes option"

datatype sec_error =
    NoSuchFile | SecIO | NoRandom | NoKey | InvalidFormat | BadHeader | WrapFailed | UnwrapFailed | WrappedTooShort
  | BadMasterKey | Unauthentic

record SimpleEncryptedStore =
  ss_dir :: string
  ss_masterKey :: "bytes option"
  ss_kms :: "KMSWrapper option"

type_synonym sec_files = "(string, bytes) gomap"

definition NewSimpleEncryptedStore :: "bool \<Rightarrow> string \<Rightarrow> bytes option \<Rightarrow> sec_error + SimpleEncryptedStore" where
  "NewSimpleEncryptedStore mkdir_ok dir key =
     (if mkdir_ok then Inr \<lparr>ss_dir = dir, ss_masterKey = key, ss_kms = None\<rparr> else Inl SecIO)"

definition SetKMS :: "KMSWrapper option \<Rightarrow> SimpleEncryptedStore \<Rightarrow> SimpleEncryptedStore" where
  "SetKMS kms s = s\<lparr>ss_kms := kms\<rparr>"

text \<open>The separator is two vertical bars; bytes.Split.\<close>

definition bar :: byte where "bar = 124"

definition bars :: bytes where "bars = [bar, bar]"

fun split_bars :: "bytes \<Rightarrow> bytes list" where
  "split_bars [] = [[]]"
| "split_bars [b] = [[b]]"
| "split_bars (b # c # bs) =
     (if b = bar \<and> c = bar then [] # split_bars bs
      else (case split_bars (c # bs) of [] \<Rightarrow> [[b]] | x # xs \<Rightarrow> (b # x) # xs))"

definition splitHeaderAndRest :: "bytes \<Rightarrow> fileParts option" where
  "splitHeaderAndRest b =
     (let chunks = split_bars b
      in if length chunks < 3 then None
         else Some \<lparr>fp_header = chunks ! 0, fp_wrapped = chunks ! 1, fp_ct = chunks ! 2\<rparr>)"

definition join_parts :: "bytes \<Rightarrow> bytes \<Rightarrow> bytes \<Rightarrow> bytes" where
  "join_parts hb wrapped ct = hb @ bars @ wrapped @ bars @ ct"

definition enc_path :: "SimpleEncryptedStore \<Rightarrow> string \<Rightarrow> string" where
  "enc_path s key = Join2 (ss_dir s) (key @ ''.enc'')"

text \<open>
  How the disk answers a write: the temporary file cannot be written, and holds what got through, if it was
  opened at all; it is written and cannot be renamed, and stays; or it takes the place of the file.
\<close>

datatype disk = Written | WriteFails "bytes option" | RenameFails

definition tmp_path :: "string \<Rightarrow> string" where
  "tmp_path path = path @ ''.tmp''"

definition atomicWriteFile :: "disk \<Rightarrow> string \<Rightarrow> bytes \<Rightarrow> sec_files \<Rightarrow> sec_error option \<times> sec_files" where
  "atomicWriteFile disk path b fs =
     (case disk of
        WriteFails None \<Rightarrow> (Some SecIO, fs)
      | WriteFails (Some part) \<Rightarrow> (Some SecIO, put (tmp_path path) part fs)
      | RenameFails \<Rightarrow> (Some SecIO, put (tmp_path path) b fs)
      | Written \<Rightarrow> (None, put path b (del (tmp_path path) fs)))"

text \<open>
  Sealing and opening with a nonce in front. The errors of aes.NewCipher are ignored, so that a key of a wrong
  length makes cipher.NewGCM panic (\<open>None\<close>), and so does a box that is shorter than a nonce.
\<close>

definition seal_box :: "'a aead_scheme \<Rightarrow> bytes \<Rightarrow> bytes \<Rightarrow> bytes \<Rightarrow> bytes option" where
  "seal_box lib key nonce text = (if aes_key_ok key then Some (nonce @ gcm_Seal lib key nonce text) else None)"

definition open_box :: "'a aead_scheme \<Rightarrow> bytes \<Rightarrow> bytes \<Rightarrow> bytes option option" where
  "open_box lib key box =
     (if \<not> aes_key_ok key \<or> length box < 12 then None
      else Some (gcm_Open lib key (take 12 box) (drop 12 box)))"

section \<open>Put and Get\<close>

text \<open>The readings of Put: the fresh key, unless the generator fails, the two nonces, and how the disk takes the file.\<close>

record put_readings =
  pr_dek :: "bytes option"
  pr_wrap_nonce :: bytes
  pr_nonce :: bytes
  pr_disk :: disk

datatype 'a attempt = Value 'a | Failed sec_error | Crash

definition wrap_dek :: "sec_lib \<Rightarrow> bytes \<Rightarrow> bytes \<Rightarrow> SimpleEncryptedStore \<Rightarrow> (bytes \<times> string \<times> string) attempt" where
  "wrap_dek lib nonce dek s =
     (case ss_kms s of
        Some kms \<Rightarrow>
          (case kms_Wrap kms dek of
             None \<Rightarrow> Failed WrapFailed
           | Some (wrapped, meta) \<Rightarrow> Value (wrapped, meta, ''kms:default''))
      | None \<Rightarrow>
          (case ss_masterKey s of
             None \<Rightarrow> Failed NoKey
           | Some key \<Rightarrow>
               (case seal_box lib key nonce dek of
                  None \<Rightarrow> Crash | Some wrapped \<Rightarrow> Value (wrapped, '''', ''local''))))"

definition file_header :: "string \<Rightarrow> string \<Rightarrow> fileHeader" where
  "file_header meta kekID =
     \<lparr>fh_Version = 1, fh_Alg = ''AES-GCM'', fh_NonceSize = 12, fh_WrappedDEKMeta = meta, fh_KEKID = kekID\<rparr>"

definition Put ::
    "sec_lib \<Rightarrow> put_readings \<Rightarrow> string \<Rightarrow> bytes \<Rightarrow> SimpleEncryptedStore \<Rightarrow> sec_files
      \<Rightarrow> (sec_error option, sec_files) outcome" where
  "Put lib rd key text s fs =
     (case pr_dek rd of
        None \<Rightarrow> Returned (Some NoRandom) fs
      | Some dek \<Rightarrow>
          (case wrap_dek lib (pr_wrap_nonce rd) dek s of
             Crash \<Rightarrow> Panicked fs
           | Failed e \<Rightarrow> Returned (Some e) fs
           | Value (wrapped, meta, kekID) \<Rightarrow>
               (case seal_box lib dek (pr_nonce rd) text of
                  None \<Rightarrow> Panicked fs
                | Some ct \<Rightarrow>
                    let (err, fs) = atomicWriteFile (pr_disk rd) (enc_path s key)
                          (join_parts (header_Marshal lib (file_header meta kekID)) wrapped ct) fs
                    in Returned err fs)))"

abbreviation HasPrefix :: "string \<Rightarrow> string \<Rightarrow> bool" where
  "HasPrefix s p \<equiv> take (length p) s = p"

definition unwrap_dek :: "sec_lib \<Rightarrow> fileHeader \<Rightarrow> bytes \<Rightarrow> SimpleEncryptedStore \<Rightarrow> bytes attempt" where
  "unwrap_dek lib hdr wrapped s =
     (let local_unwrap =
        (case ss_masterKey s of
           None \<Rightarrow> Failed NoKey
         | Some key \<Rightarrow>
             (case open_box lib key wrapped of
                None \<Rightarrow> Crash | Some None \<Rightarrow> Failed Unauthentic | Some (Some dek) \<Rightarrow> Value dek))
      in case ss_kms s of
           Some kms \<Rightarrow>
             if HasPrefix (fh_KEKID hdr) ''kms:'' then
               (case kms_Unwrap kms wrapped of None \<Rightarrow> Failed UnwrapFailed | Some dek \<Rightarrow> Value dek)
             else local_unwrap
         | None \<Rightarrow> local_unwrap)"

definition open_file :: "sec_lib \<Rightarrow> bytes \<Rightarrow> SimpleEncryptedStore \<Rightarrow> bytes attempt" where
  "open_file lib b s =
     (case splitHeaderAndRest b of
        None \<Rightarrow> Failed InvalidFormat
      | Some parts \<Rightarrow>
          (case header_Unmarshal lib (fp_header parts) of
             None \<Rightarrow> Failed BadHeader
           | Some hdr \<Rightarrow>
               (case unwrap_dek lib hdr (fp_wrapped parts) s of
                  Crash \<Rightarrow> Crash
                | Failed e \<Rightarrow> Failed e
                | Value dek \<Rightarrow>
                    (case open_box lib dek (fp_ct parts) of
                       None \<Rightarrow> Crash | Some None \<Rightarrow> Failed Unauthentic | Some (Some text) \<Rightarrow> Value text))))"

definition Get :: "sec_lib \<Rightarrow> bool \<Rightarrow> string \<Rightarrow> SimpleEncryptedStore \<Rightarrow> sec_files \<Rightarrow> bytes attempt" where
  "Get lib disk_ok key s fs =
     (case get fs (enc_path s key) of
        None \<Rightarrow> Failed NoSuchFile
      | Some b \<Rightarrow> if \<not> disk_ok then Failed SecIO else open_file lib b s)"

section \<open>Rotation\<close>

definition unwrapForRotation :: "sec_lib \<Rightarrow> fileHeader \<Rightarrow> bytes \<Rightarrow> SimpleEncryptedStore \<Rightarrow> sec_error + bytes" where
  "unwrapForRotation lib hdr wrapped s =
     (let local_unwrap =
        (case ss_masterKey s of
           None \<Rightarrow> Inl NoKey
         | Some key \<Rightarrow>
             if \<not> aes_key_ok key then Inl BadMasterKey
             else if length wrapped < 12 then Inl WrappedTooShort
             else (case gcm_Open lib key (take 12 wrapped) (drop 12 wrapped) of
                     None \<Rightarrow> Inl Unauthentic | Some dek \<Rightarrow> Inr dek))
      in case ss_kms s of
           Some kms \<Rightarrow>
             if HasPrefix (fh_KEKID hdr) ''kms:'' then
               (case kms_Unwrap kms wrapped of Some dek \<Rightarrow> Inr dek | None \<Rightarrow> local_unwrap)
             else local_unwrap
         | None \<Rightarrow> local_unwrap)"

definition rewrap_file ::
    "sec_lib \<Rightarrow> KMSWrapper \<Rightarrow> disk \<Rightarrow> string \<Rightarrow> SimpleEncryptedStore \<Rightarrow> sec_files \<Rightarrow> sec_error option \<times> sec_files" where
  "rewrap_file lib kms disk path s fs =
     (case get fs path of
        None \<Rightarrow> (Some NoSuchFile, fs)
      | Some b \<Rightarrow>
          (case splitHeaderAndRest b of
             None \<Rightarrow> (Some InvalidFormat, fs)
           | Some parts \<Rightarrow>
               (case header_Unmarshal lib (fp_header parts) of
                  None \<Rightarrow> (Some BadHeader, fs)
                | Some hdr \<Rightarrow>
                    (case unwrapForRotation lib hdr (fp_wrapped parts) s of
                       Inl e \<Rightarrow> (Some e, fs)
                     | Inr dek \<Rightarrow>
                         (case kms_Wrap kms dek of
                            None \<Rightarrow> (Some WrapFailed, fs)
                          | Some (wrapped, meta) \<Rightarrow>
                              let hdr = hdr\<lparr>fh_WrappedDEKMeta := meta, fh_KEKID := ''kms:default''\<rparr>
                              in atomicWriteFile disk path
                                   (join_parts (header_Marshal lib hdr) wrapped (fp_ct parts)) fs)))))"

definition is_enc :: "string \<Rightarrow> bool" where
  "is_enc path \<longleftrightarrow> drop (length path - 4) path = ''.enc''"

text \<open>The walk visits the files below the directory in lexical order (an argument) and stops at the first error.\<close>

fun rewrap_walk ::
    "sec_lib \<Rightarrow> KMSWrapper \<Rightarrow> (string \<Rightarrow> disk) \<Rightarrow> string list \<Rightarrow> SimpleEncryptedStore \<Rightarrow> sec_files
      \<Rightarrow> sec_error option \<times> sec_files" where
  "rewrap_walk lib kms disk [] s fs = (None, fs)"
| "rewrap_walk lib kms disk (path # paths) s fs =
     (if \<not> is_enc path then rewrap_walk lib kms disk paths s fs
      else case rewrap_file lib kms (disk path) path s fs of
        (Some e, fs) \<Rightarrow> (Some e, fs)
      | (None, fs) \<Rightarrow> rewrap_walk lib kms disk paths s fs)"

definition RewrapAllFiles ::
    "sec_lib \<Rightarrow> (string \<Rightarrow> disk) \<Rightarrow> string list \<Rightarrow> SimpleEncryptedStore \<Rightarrow> sec_files \<Rightarrow> sec_error option \<times> sec_files" where
  "RewrapAllFiles lib disk paths s fs =
     (case ss_kms s of None \<Rightarrow> (Some NoKey, fs) | Some kms \<Rightarrow> rewrap_walk lib kms disk paths s fs)"

end
