(* ===== verification/SecStoreProps.thy ===== *)
theory SecStoreProps
  imports SecStore
begin

text \<open>
  Properties of the encrypted store: what Put writes can be read exactly when none of the three parts of the
  file happens to hold the separator, and a completed rotation with a key service whose answers do not hold it
  keeps every stored file readable, also without the old key.
\<close>

section \<open>The separator\<close>

fun has_bars :: "bytes \<Rightarrow> bool" where
  "has_bars [] \<longleftrightarrow> False"
| "has_bars [b] \<longleftrightarrow> False"
| "has_bars (b # c # bs) \<longleftrightarrow> b = bar \<and> c = bar \<or> has_bars (c # bs)"

text \<open>Bytes that a separator may follow.\<close>

definition clean :: "bytes \<Rightarrow> bool" where
  "clean b \<longleftrightarrow> \<not> has_bars b \<and> (b = [] \<or> last b \<noteq> bar)"

lemma split_bars_clean: "clean b \<Longrightarrow> split_bars (b @ bars @ rest) = b # split_bars rest"
proof (induction b rule: split_bars.induct)
  case 1
  then show ?case by (simp add: bars_def)
next
  case (2 b)
  then show ?case by (simp add: bars_def clean_def)
next
  case (3 b c bs)
  then have "\<not> (b = bar \<and> c = bar)" "clean (c # bs)" by (simp_all add: clean_def)
  then show ?case using "3.IH"(2) by auto
qed

lemma split_bars_none: "\<not> has_bars b \<Longrightarrow> split_bars b = [b]"
  by (induction b rule: split_bars.induct) auto

lemma split_bars_nonempty: "split_bars b \<noteq> []"
  by (induction b rule: split_bars.induct) (auto split: list.splits)

lemma split_bars_hd: "\<exists>v. b = hd (split_bars b) @ v \<and> (has_bars b \<longrightarrow> v \<noteq> [])"
proof (induction b rule: split_bars.induct)
  case (3 b c bs)
  show ?case
  proof (cases "b = bar \<and> c = bar")
    case False
    then obtain v where v: "c # bs = hd (split_bars (c # bs)) @ v" "has_bars (c # bs) \<longrightarrow> v \<noteq> []"
      using "3.IH"(2) by blast
    obtain x xs where x: "split_bars (c # bs) = x # xs" using split_bars_nonempty by (meson neq_Nil_conv)
    have "split_bars (b # c # bs) = (b # x) # xs" using False x by auto
    moreover have "has_bars (b # c # bs) \<longleftrightarrow> has_bars (c # bs)" using False by auto
    ultimately show ?thesis using v x by (metis append_Cons list.sel(1))
  qed auto
qed auto

lemma split_bars_chunks: "x \<in> set (split_bars b) \<Longrightarrow> \<not> has_bars x"
proof (induction b arbitrary: x rule: split_bars.induct)
  case (3 b c bs)
  show ?case
  proof (cases "b = bar \<and> c = bar")
    case True
    then show ?thesis using 3 by auto
  next
    case False
    obtain y ys where y: "split_bars (c # bs) = y # ys" using split_bars_nonempty by (meson neq_Nil_conv)
    have "y = [] \<or> hd y = c" using split_bars_hd[of "c # bs"] y by (cases y) auto
    moreover have "\<not> has_bars y" using "3.IH"(2)[OF False] y by simp
    ultimately have "\<not> has_bars (b # y)" using False by (cases y) auto
    then show ?thesis using "3.prems" "3.IH"(2)[OF False] False y by auto
  qed
qed auto

text \<open>Of bytes that are not clean only a proper part comes back, whatever follows.\<close>

lemma split_bars_unclean: "\<not> clean b \<Longrightarrow> \<exists>v. v \<noteq> [] \<and> b = hd (split_bars (b @ bars @ rest)) @ v"
proof (induction b rule: split_bars.induct)
  case (2 b)
  then show ?case by (simp add: bars_def clean_def split: if_splits)
next
  case (3 b c bs)
  show ?case
  proof (cases "b = bar \<and> c = bar")
    case False
    then have "\<not> clean (c # bs)" using "3.prems" by (auto simp: clean_def)
    then obtain v where v: "v \<noteq> []" "c # bs = hd (split_bars ((c # bs) @ bars @ rest)) @ v"
      using "3.IH"(2)[OF False] by blast
    obtain x xs where x: "split_bars ((c # bs) @ bars @ rest) = x # xs"
      using split_bars_nonempty by (meson neq_Nil_conv)
    then have "split_bars ((b # c # bs) @ bars @ rest) = (b # x) # xs" using False by auto
    then show ?thesis using v x by (metis append_Cons list.sel(1))
  qed simp
qed (simp add: clean_def)

lemma split_parts_iff:
  assumes "splitHeaderAndRest (join_parts hb wrapped ct) = Some parts"
  shows "clean hb \<Longrightarrow> fp_header parts = hb"
    and "\<not> clean hb \<Longrightarrow> \<exists>v. v \<noteq> [] \<and> hb = fp_header parts @ v"
    and "clean hb \<Longrightarrow> \<not> clean wrapped \<Longrightarrow> \<exists>v. v \<noteq> [] \<and> wrapped = fp_wrapped parts @ v"
proof -
  let ?b = "join_parts hb wrapped ct"
  have p: "fp_header parts = hd (split_bars ?b)" "fp_wrapped parts = split_bars ?b ! 1"
    using assms split_bars_nonempty[of ?b] by (auto simp: splitHeaderAndRest_def Let_def hd_conv_nth split: if_splits)
  show "\<not> clean hb \<Longrightarrow> \<exists>v. v \<noteq> [] \<and> hb = fp_header parts @ v"
    using split_bars_unclean[of hb "wrapped @ bars @ ct"] by (simp add: p(1) join_parts_def)
  assume hb: "clean hb"
  then have sp: "split_bars ?b = hb # split_bars (wrapped @ bars @ ct)"
    by (simp add: join_parts_def split_bars_clean)
  then show "fp_header parts = hb" by (simp add: p(1))
  assume "\<not> clean wrapped"
  then show "\<exists>v. v \<noteq> [] \<and> wrapped = fp_wrapped parts @ v"
    using split_bars_unclean[of wrapped ct] split_bars_nonempty[of "wrapped @ bars @ ct"]
    by (simp add: p(2) sp hd_conv_nth)
qed

lemma split_parts:
  assumes "clean hb" and "clean wrapped"
  shows "splitHeaderAndRest (join_parts hb wrapped ct) =
    Some \<lparr>fp_header = hb, fp_wrapped = wrapped, fp_ct = hd (split_bars ct)\<rparr>"
proof -
  have "split_bars (join_parts hb wrapped ct) = hb # wrapped # split_bars ct"
    by (simp add: join_parts_def split_bars_clean assms)
  moreover have "split_bars ct ! 0 = hd (split_bars ct)" "0 < length (split_bars ct)"
    using split_bars_nonempty[of ct] by (simp_all add: hd_conv_nth)
  ultimately show ?thesis by (auto simp: splitHeaderAndRest_def Let_def)
qed

lemma split_parts_ct: "splitHeaderAndRest b = Some parts \<Longrightarrow> \<not> has_bars (fp_ct parts)"
  using split_bars_chunks[of "split_bars b ! 2" b]
  by (auto simp: splitHeaderAndRest_def Let_def not_less Suc_le_eq eval_nat_numeral split: if_splits)

section \<open>Put and Get\<close>

text \<open>
  Of the JSON of a header, what reading a file relies on: the name of the key comes back, for the two names that
  the code gives; and a proper part of an object, which lacks its closing brace, is refused.
\<close>

definition header_law :: "sec_lib \<Rightarrow> bool" where
  "header_law lib \<longleftrightarrow>
     (\<forall>h. fh_KEKID h \<in> {''local'', ''kms:default''} \<longrightarrow>
        map_option fh_KEKID (header_Unmarshal lib (header_Marshal lib h)) = Some (fh_KEKID h))"

definition header_whole :: "sec_lib \<Rightarrow> bool" where
  "header_whole lib \<longleftrightarrow> (\<forall>h p v. header_Marshal lib h = p @ v \<and> v \<noteq> [] \<longrightarrow> header_Unmarshal lib p = None)"

text \<open>An authenticated encryption and a key service refuse a proper part of what they have made.\<close>

definition sealed_whole :: "sec_lib \<Rightarrow> bool" where
  "sealed_whole lib \<longleftrightarrow> (\<forall>k n t p v. gcm_Seal lib k n t = p @ v \<and> v \<noteq> [] \<longrightarrow> gcm_Open lib k n p = None)"

definition kms_whole :: "KMSWrapper \<Rightarrow> bool" where
  "kms_whole kms \<longleftrightarrow>
     (\<forall>dek w meta p v. kms_Wrap kms dek = Some (w, meta) \<and> w = p @ v \<and> v \<noteq> [] \<longrightarrow> kms_Unwrap kms p = None)"

definition kms_law :: "KMSWrapper \<Rightarrow> bool" where
  "kms_law kms \<longleftrightarrow> (\<forall>dek wrapped meta. kms_Wrap kms dek = Some (wrapped, meta) \<longrightarrow> kms_Unwrap kms wrapped = Some dek)"

lemma header_reads_back:
  assumes "header_law lib" and "fh_KEKID hdr \<in> {''local'', ''kms:default''}"
  obtains h where "header_Unmarshal lib (header_Marshal lib hdr) = Some h" and "fh_KEKID h = fh_KEKID hdr"
proof -
  have "map_option fh_KEKID (header_Unmarshal lib (header_Marshal lib hdr)) = Some (fh_KEKID hdr)"
    using assms unfolding header_law_def by blast
  then show ?thesis using that by (cases "header_Unmarshal lib (header_Marshal lib hdr)") auto
qed

lemma unwrap_wrapped:
  assumes "aead_laws lib" and "\<forall>kms. ss_kms s = Some kms \<longrightarrow> kms_law kms" and "length nonce = 12"
    and "wrap_dek lib nonce dek s = Value (wrapped, meta, kekID)" and "fh_KEKID hdr = kekID"
  shows "unwrap_dek lib hdr wrapped s = Value dek"
proof (cases "ss_kms s")
  case None
  then show ?thesis using assms
    by (auto simp: wrap_dek_def unwrap_dek_def Let_def seal_box_def open_box_def aead_laws_def
        split: option.splits if_splits)
next
  case (Some kms)
  then have "kms_Wrap kms dek = Some (wrapped, meta)" "kekID = ''kms:default''"
    using assms(4) by (auto simp: wrap_dek_def split: option.splits)
  moreover from this have "kms_Unwrap kms wrapped = Some dek" using assms(2) Some by (auto simp: kms_law_def)
  ultimately show ?thesis using Some assms(5) by (simp add: unwrap_dek_def)
qed

text \<open>A sealed box opens to its text as long as the whole of it is there.\<close>

lemma open_prefix:
  assumes "aead_laws lib" and "length nonce = 12" and "nonce @ gcm_Seal lib key nonce ptext = c @ v"
  shows "open_box lib key c = Some (Some ptext) \<longleftrightarrow> aes_key_ok key \<and> v = []"
proof (cases "length c < 12")
  case True
  then have "v \<noteq> []" using assms(2) arg_cong[OF assms(3), of length] by auto
  then show ?thesis using True by (simp add: open_box_def)
next
  case False
  have n: "take 12 c = nonce"
    using False assms(2) arg_cong[OF assms(3), of "take 12"] by simp
  have d: "gcm_Seal lib key nonce ptext = drop 12 c @ v"
    using False assms(2) arg_cong[OF assms(3), of "drop 12"] by simp
  show ?thesis using False by (simp add: open_box_def n aead_open[OF assms(1)] d)
qed

lemma open_box_part:
  assumes "sealed_whole lib" and "length nonce = 12" and "nonce @ gcm_Seal lib key nonce ptext = c @ v" and "v \<noteq> []"
  shows "open_box lib key c \<in> {None, Some None}"
proof (cases "length c < 12")
  case False
  then have "take 12 c = nonce" "gcm_Seal lib key nonce ptext = drop 12 c @ v"
    using assms(2) arg_cong[OF assms(3), of "take 12"] arg_cong[OF assms(3), of "drop 12"] by simp_all
  then have "gcm_Open lib key (take 12 c) (drop 12 c) = None"
    using assms(1,4) unfolding sealed_whole_def by blast
  then show ?thesis by (simp add: open_box_def)
qed (simp add: open_box_def)

lemma unwrap_part:
  assumes "sealed_whole lib" and "\<forall>kms. ss_kms s = Some kms \<longrightarrow> kms_whole kms" and "length nonce = 12"
    and "wrap_dek lib nonce dek s = Value (p @ v, meta, kekID)" and "fh_KEKID hdr = kekID" and "v \<noteq> []"
  shows "unwrap_dek lib hdr p s \<noteq> Value d"
proof (cases "ss_kms s")
  case None
  then obtain key where "ss_masterKey s = Some key" "nonce @ gcm_Seal lib key nonce dek = p @ v"
    using assms(4) by (auto simp: wrap_dek_def seal_box_def split: option.splits if_splits)
  moreover from this have "open_box lib key p \<in> {None, Some None}" by (intro open_box_part[OF assms(1,3) _ assms(6)])
  ultimately show ?thesis using None
    by (auto simp: unwrap_dek_def Let_def split: option.splits)
next
  case (Some kms)
  then have "kms_Wrap kms dek = Some (p @ v, meta)" "kekID = ''kms:default''"
    using assms(4) by (auto simp: wrap_dek_def split: option.splits)
  moreover from this have "kms_Unwrap kms p = None" using assms(2,6) Some unfolding kms_whole_def by blast
  ultimately show ?thesis using Some assms(5) by (simp add: unwrap_dek_def)
qed

lemma wrap_names_key: "wrap_dek lib nonce dek s = Value (wrapped, meta, kekID) \<Longrightarrow> kekID \<in> {''local'', ''kms:default''}"
  by (auto simp: wrap_dek_def split: option.splits)

text \<open>A header or a wrapped key that holds the separator makes its file unreadable.\<close>

lemma unclean_file_is_lost:
  assumes "sealed_whole lib" and "header_law lib" and "header_whole lib"
    and "\<forall>kms. ss_kms s = Some kms \<longrightarrow> kms_whole kms" and "length nonce = 12"
    and "wrap_dek lib nonce dek s = Value (wrapped, meta, kekID)" and "fh_KEKID hdr = kekID"
    and "\<not> (clean (header_Marshal lib hdr) \<and> clean wrapped)"
  shows "open_file lib (join_parts (header_Marshal lib hdr) wrapped ct) s \<noteq> Value t"
proof (cases "splitHeaderAndRest (join_parts (header_Marshal lib hdr) wrapped ct)")
  case (Some parts)
  show ?thesis
  proof (cases "clean (header_Marshal lib hdr)")
    case False
    then have "header_Unmarshal lib (fp_header parts) = None"
      using split_parts_iff(2)[OF Some] assms(3) unfolding header_whole_def by blast
    then show ?thesis using Some by (simp add: open_file_def)
  next
    case True
    then obtain v where v: "v \<noteq> []" "wrapped = fp_wrapped parts @ v" using split_parts_iff(3)[OF Some] assms(8) by blast
    obtain h where h: "header_Unmarshal lib (header_Marshal lib hdr) = Some h" "fh_KEKID h = fh_KEKID hdr"
      using header_reads_back[OF assms(2)] wrap_names_key[OF assms(6)] assms(7) by metis
    have "unwrap_dek lib h (fp_wrapped parts) s \<noteq> Value d" for d
      using unwrap_part[OF assms(1,4,5)] assms(6,7) h(2) v by metis
    then show ?thesis using Some split_parts_iff(1)[OF Some True] h(1)
      by (auto simp: open_file_def split: attempt.splits)
  qed
qed (simp add: open_file_def)

text \<open>
  C1: A text that Put has stored is read back by Get exactly when the separator occurs in none of the three parts
  of the file: neither in the ciphertext, nor in the wrapped key or the header, and neither of these ends with half
  of a separator that the next one would complete early. The conditions are those of the library: the
  header's name of the key survives JSON, and authenticated encryption, JSON and the key service refuse a proper
  part of what they have made.
\<close>

theorem put_reads_back_without_bars:
  assumes "aead_laws lib" and "sealed_whole lib" and "header_law lib" and "header_whole lib"
    and "\<forall>kms. ss_kms s = Some kms \<longrightarrow> kms_law kms \<and> kms_whole kms"
    and "pr_dek rd = Some dek" and "length dek = 32" and "length (pr_wrap_nonce rd) = 12"
    and "length (pr_nonce rd) = 12" and "pr_disk rd = Written"
    and "wrap_dek lib (pr_wrap_nonce rd) dek s = Value (wrapped, meta, kekID)"
  shows "\<exists>fs'. Put lib rd key ptext s fs = Returned None fs'
    \<and> (Get lib True key s fs' = Value ptext
         \<longleftrightarrow> clean (header_Marshal lib (file_header meta kekID)) \<and> clean wrapped
            \<and> \<not> has_bars (pr_nonce rd @ gcm_Seal lib dek (pr_nonce rd) ptext))"
proof -
  let ?hb = "header_Marshal lib (file_header meta kekID)"
  let ?ct = "pr_nonce rd @ gcm_Seal lib dek (pr_nonce rd) ptext"
  let ?fs = "put (enc_path s key) (join_parts ?hb wrapped ?ct) (del (tmp_path (enc_path s key)) fs)"
  have key: "aes_key_ok dek" using assms(7) by (simp add: aes_key_ok_def)
  have p: "Put lib rd key ptext s fs = Returned None ?fs"
    using assms(6,10,11) key by (simp add: Put_def seal_box_def atomicWriteFile_def)
  have g: "Get lib True key s ?fs = open_file lib (join_parts ?hb wrapped ?ct) s" by (simp add: Get_def get_put)
  have id: "fh_KEKID (file_header meta kekID) = kekID" by (simp add: file_header_def)
  have "Get lib True key s ?fs = Value ptext \<longleftrightarrow> \<not> has_bars ?ct" if c: "clean ?hb" "clean wrapped"
  proof -
    obtain h where h: "header_Unmarshal lib ?hb = Some h" "fh_KEKID h = kekID"
      using header_reads_back[OF assms(3)] wrap_names_key[OF assms(11)] id by metis
    have dek: "unwrap_dek lib h wrapped s = Value dek" using unwrap_wrapped[OF assms(1) _ assms(8,11) h(2)] assms(5) by blast
    obtain v where v: "?ct = hd (split_bars ?ct) @ v" "has_bars ?ct \<longrightarrow> v \<noteq> []" using split_bars_hd by blast
    have "v = [] \<longleftrightarrow> \<not> has_bars ?ct"
      using v split_bars_none[of ?ct] by (metis append_self_conv list.sel(1))
    then have o: "open_box lib dek (hd (split_bars ?ct)) = Some (Some ptext) \<longleftrightarrow> \<not> has_bars ?ct"
      using open_prefix[OF assms(1,9) v(1)] key by simp
    have "Get lib True key s ?fs = Value ptext \<longleftrightarrow> open_box lib dek (hd (split_bars ?ct)) = Some (Some ptext)"
      unfolding g by (auto simp: open_file_def split_parts c h(1) dek split: option.splits)
    then show ?thesis using o by blast
  qed
  moreover have "Get lib True key s ?fs \<noteq> Value ptext" if "\<not> (clean ?hb \<and> clean wrapped)"
    unfolding g using unclean_file_is_lost[OF assms(2-4) _ assms(8,11) id that] assms(5) by blast
  ultimately show ?thesis using p by blast
qed

text \<open>
  A library for examples: every byte is marked and the text is closed by a zero, which makes a code no
  proper part of which is one. A header is the text of its name of the key.
\<close>

fun frame :: "bytes \<Rightarrow> bytes" where
  "frame [] = [0]"
| "frame (b # bs) = bar # b # frame bs"

fun unframe :: "bytes \<Rightarrow> bytes option" where
  "unframe [m] = (if m = 0 then Some [] else None)"
| "unframe (m # b # bs) = (if m = bar then map_option ((#) b) (unframe bs) else None)"
| "unframe [] = None"

lemma unframe_frame: "unframe (frame t) = Some t"
  by (induction t) simp_all

lemma unframe_Some: "unframe c = Some t \<Longrightarrow> c = frame t"
  by (induction c arbitrary: t rule: unframe.induct) (auto split: if_splits)

lemma frame_whole: "frame t = p @ v \<Longrightarrow> v \<noteq> [] \<Longrightarrow> unframe p = None"
proof (induction t arbitrary: p)
  case Nil
  then show ?case by (cases p) (simp_all add: Cons_eq_append_conv)
next
  case (Cons b t)
  then show ?case by (cases p rule: unframe.cases) (auto simp: bar_def)
qed

definition example_sec_lib :: sec_lib where
  "example_sec_lib =
     \<lparr>gcm_Seal = (\<lambda>k n t. frame t), gcm_Open = (\<lambda>k n c. unframe c),
      header_Marshal = (\<lambda>h. frame (map (\<lambda>c. word_of_nat (of_char c)) (fh_KEKID h))),
      header_Unmarshal = (\<lambda>b. map_option (\<lambda>t. file_header '''' (map (\<lambda>w. char_of (unat w)) t)) (unframe b))\<rparr>"

lemma example_sec_laws:
  "aead_laws example_sec_lib" "sealed_whole example_sec_lib" "header_law example_sec_lib" "header_whole example_sec_lib"
proof -
  have "unat (word_of_nat (of_char c) :: byte) = of_char c" for c
    by (simp add: unat_of_nat take_bit_nat_eq_self_iff)
  then show "header_law example_sec_lib"
    by (simp add: header_law_def example_sec_lib_def file_header_def comp_def unframe_frame)
  show "aead_laws example_sec_lib" using unframe_Some by (auto simp: aead_laws_def example_sec_lib_def unframe_frame)
  show "sealed_whole example_sec_lib" using frame_whole by (auto simp: sealed_whole_def example_sec_lib_def)
  show "header_whole example_sec_lib" using frame_whole by (auto simp: header_whole_def example_sec_lib_def)
qed

definition example_store :: SimpleEncryptedStore where
  "example_store = \<lparr>ss_dir = ''keys'', ss_masterKey = Some (replicate 32 7), ss_kms = None\<rparr>"

definition example_put :: put_readings where
  "example_put =
     \<lparr>pr_dek = Some (replicate 32 1), pr_wrap_nonce = replicate 12 2, pr_nonce = replicate 12 3, pr_disk = Written\<rparr>"

lemma example_wrap:
  "wrap_dek example_sec_lib (pr_wrap_nonce example_put) (replicate 32 1) example_store =
     Value (replicate 12 2 @ frame (replicate 32 1), '''', ''local'')"
  by code_simp

lemma example_clean:
  "clean (replicate 12 2 @ frame (replicate 32 1))" "clean (header_Marshal example_sec_lib (file_header '''' ''local''))"
  by code_simp+

text \<open>The text 65, 124, 66 is lost, the text 65, 66 is kept.\<close>

lemma put_reads_back_without_bars_witness:
  "(\<exists>fs. Put example_sec_lib example_put ''k'' [65, 124, 66] example_store [] = Returned None fs
     \<and> Get example_sec_lib True ''k'' example_store fs \<noteq> Value [65, 124, 66])
   \<and> (\<exists>fs. Put example_sec_lib example_put ''k'' [65, 66] example_store [] = Returned None fs
     \<and> Get example_sec_lib True ''k'' example_store fs = Value [65, 66])"
proof -
  note at = put_reads_back_without_bars[OF example_sec_laws, of example_store example_put "replicate 32 1"
      "replicate 12 2 @ frame (replicate 32 1)" "''''" "''local''" "''k''" _ "[]"]
  have "has_bars (replicate 12 3 @ frame [65, 124, 66])" "\<not> has_bars (replicate 12 3 @ frame [65, 66])" by code_simp+
  then show ?thesis using at[of "[65, 124, 66]"] at[of "[65, 66]"] example_wrap example_clean
    by (auto simp: example_store_def example_put_def example_sec_lib_def)
qed

section \<open>Rotation\<close>

lemma rotation_agrees:
  assumes "unwrap_dek lib hdr wrapped s = Value dek"
  shows "unwrapForRotation lib hdr wrapped s = Inr dek"
  using assms by (auto simp: unwrap_dek_def unwrapForRotation_def open_box_def Let_def split: option.splits if_splits)

text \<open>A file that reads as \<open>t\<close>, and one that does so without the local key.\<close>

definition reads :: "sec_lib \<Rightarrow> SimpleEncryptedStore \<Rightarrow> string \<Rightarrow> bytes \<Rightarrow> sec_files \<Rightarrow> bool" where
  "reads lib s path t fs \<longleftrightarrow> (\<exists>b. get fs path = Some b \<and> open_file lib b s = Value t)"

definition without_key :: "SimpleEncryptedStore \<Rightarrow> SimpleEncryptedStore" where
  "without_key s = s\<lparr>ss_masterKey := None\<rparr>"

text \<open>What a key service and its meta data must keep to, for the files to be split again.\<close>

definition kms_clean :: "sec_lib \<Rightarrow> KMSWrapper \<Rightarrow> bool" where
  "kms_clean lib kms \<longleftrightarrow> (\<forall>dek wrapped meta hdr. kms_Wrap kms dek = Some (wrapped, meta) \<longrightarrow>
     clean wrapped \<and> clean (header_Marshal lib (hdr\<lparr>fh_WrappedDEKMeta := meta, fh_KEKID := ''kms:default''\<rparr>)))"

lemma open_rewrapped:
  assumes "header_law lib" and "kms_law kms" and "kms_clean lib kms" and "ss_kms s = Some kms"
    and "kms_Wrap kms dek = Some (wrapped, meta)" and "\<not> has_bars ct"
  shows "open_file lib (join_parts (header_Marshal lib (hdr\<lparr>fh_WrappedDEKMeta := meta, fh_KEKID := ''kms:default''\<rparr>))
      wrapped ct) s =
    (case open_box lib dek ct of None \<Rightarrow> Crash | Some None \<Rightarrow> Failed Unauthentic | Some (Some t) \<Rightarrow> Value t)"
proof -
  let ?hdr = "hdr\<lparr>fh_WrappedDEKMeta := meta, fh_KEKID := ''kms:default''\<rparr>"
  have c: "clean wrapped" "clean (header_Marshal lib ?hdr)" using assms(3,5) unfolding kms_clean_def by blast+
  obtain h where h: "header_Unmarshal lib (header_Marshal lib ?hdr) = Some h" "fh_KEKID h = fh_KEKID ?hdr"
    using header_reads_back[OF assms(1), of ?hdr] by auto
  have "kms_Unwrap kms wrapped = Some dek" using assms(2,5) unfolding kms_law_def by blast
  then have "unwrap_dek lib h wrapped s = Value dek" using h(2) assms(4) by (simp add: unwrap_dek_def)
  then show ?thesis using h(1) split_parts[OF c(2,1)] split_bars_none[OF assms(6)] by (simp add: open_file_def)
qed

lemma tmp_not_enc: "is_enc p \<Longrightarrow> p \<noteq> tmp_path path"
  by (auto simp: is_enc_def tmp_path_def)

lemma rewrap_file_reads:
  assumes "header_law lib" and "kms_law kms" and "kms_clean lib kms" and "ss_kms s = Some kms"
    and "rewrap_file lib kms disk path s fs = (None, fs')" and "reads lib s p t fs" and "is_enc p"
  shows "reads lib s p t fs' \<and> (p = path \<or> reads lib (without_key s) p t fs \<longrightarrow> reads lib (without_key s) p t fs')"
proof (cases "p = path")
  case True
  obtain b where b: "get fs path = Some b" "open_file lib b s = Value t"
    using assms(6) True by (auto simp: reads_def)
  obtain parts hdr dek where o: "splitHeaderAndRest b = Some parts" "header_Unmarshal lib (fp_header parts) = Some hdr"
      "unwrap_dek lib hdr (fp_wrapped parts) s = Value dek" "open_box lib dek (fp_ct parts) = Some (Some t)"
    using b(2) by (auto simp: open_file_def split: option.splits attempt.splits)
  obtain wrapped meta where w: "kms_Wrap kms dek = Some (wrapped, meta)"
    and fs': "fs' = put path (join_parts (header_Marshal lib (hdr\<lparr>fh_WrappedDEKMeta := meta, fh_KEKID := ''kms:default''\<rparr>))
      wrapped (fp_ct parts)) (del (tmp_path path) fs)"
    using assms(5) b(1) o(1,2) rotation_agrees[OF o(3)]
    by (auto simp: rewrap_file_def atomicWriteFile_def Let_def split: option.splits disk.splits)
  have "reads lib s' path t fs'" if "ss_kms s' = Some kms" for s'
    using open_rewrapped[OF assms(1,2,3) that w split_parts_ct[OF o(1)]] o(4) by (simp add: reads_def fs' get_put)
  then show ?thesis using True assms(4) by (simp add: without_key_def)
next
  case False
  have "get fs' p = get fs p" using assms(5) False tmp_not_enc[OF assms(7), of path]
    by (auto simp: rewrap_file_def atomicWriteFile_def Let_def map_simps split: option.splits sum.splits disk.splits)
  then show ?thesis using assms(6) False by (simp add: reads_def)
qed

lemma rewrap_walk_reads:
  assumes "header_law lib" and "kms_law kms" and "kms_clean lib kms" and "ss_kms s = Some kms"
    and "rewrap_walk lib kms disk paths s fs = (None, fs')" and "reads lib s p t fs" and "is_enc p"
  shows "reads lib s p t fs' \<and>
    (p \<in> set paths \<or> reads lib (without_key s) p t fs \<longrightarrow> reads lib (without_key s) p t fs')"
  using assms(5,6)
proof (induction paths arbitrary: fs)
  case Nil
  then show ?case by simp
next
  case (Cons path paths)
  show ?case
  proof (cases "is_enc path")
    case False
    then show ?thesis using Cons assms(7) by auto
  next
    case True
    then obtain fs1 where f: "rewrap_file lib kms (disk path) path s fs = (None, fs1)"
      and w: "rewrap_walk lib kms disk paths s fs1 = (None, fs')"
      using Cons.prems(1) by (auto split: prod.splits option.splits)
    note step = rewrap_file_reads[OF assms(1-4) f Cons.prems(2) assms(7)]
    show ?thesis using Cons.IH[OF w] step by auto
  qed
qed

text \<open>
  C40: With a key service that unwraps what it wraps and puts no separator into its answers (the wrapped key, and the
  header with the meta data), a rotation that reports no error loses no stored file: every file of the store, with
  the ending enc, that could be read still reads the same, whatever it was wrapped with, and those that the walk has
  visited read the same with the local key gone.
\<close>

theorem rotation_keeps_every_text:
  assumes "header_law lib" and "kms_law kms" and "kms_clean lib kms" and "ss_kms s = Some kms"
    and "RewrapAllFiles lib disk paths s fs = (None, fs')" and "is_enc path"
    and "get fs path = Some b" and "open_file lib b s = Value t"
  shows "\<exists>b'. get fs' path = Some b' \<and> open_file lib b' s = Value t
    \<and> (path \<in> set paths \<longrightarrow> open_file lib b' (s\<lparr>ss_masterKey := None\<rparr>) = Value t)"
proof -
  have "rewrap_walk lib kms disk paths s fs = (None, fs')" using assms(4,5) by (simp add: RewrapAllFiles_def)
  moreover have "reads lib s path t fs" using assms(7,8) by (simp add: reads_def)
  ultimately show ?thesis using rewrap_walk_reads[OF assms(1-4) _ _ assms(6)] unfolding reads_def without_key_def
    by fastforce
qed

definition example_kms :: KMSWrapper where
  "example_kms =
     \<lparr>kms_Wrap = (\<lambda>dek. if dek = replicate 32 1 then Some ([9], '''') else None),
      kms_Unwrap = (\<lambda>w. if w = [9] then Some (replicate 32 1) else None)\<rparr>"

definition example_file :: bytes where
  "example_file = join_parts (header_Marshal example_sec_lib (file_header '''' ''local''))
     (replicate 12 2 @ frame (replicate 32 1)) (replicate 12 3 @ frame [65])"

lemma example_kms_ok: "kms_law example_kms" "kms_clean example_sec_lib example_kms"
proof -
  show "kms_law example_kms" by (simp add: kms_law_def example_kms_def)
  have "clean (header_Marshal example_sec_lib (file_header '''' ''kms:default''))" by code_simp
  then show "kms_clean example_sec_lib example_kms"
    by (simp add: kms_clean_def example_kms_def example_sec_lib_def file_header_def) (simp add: clean_def bar_def)
qed

lemma example_rotation:
  "fst (RewrapAllFiles example_sec_lib (\<lambda>_. Written) [''k.enc''] (SetKMS (Some example_kms) example_store)
      [(''k.enc'', example_file)]) = None
   \<and> open_file example_sec_lib example_file (SetKMS (Some example_kms) example_store) = Value [65]
   \<and> is_enc ''k.enc''"
  by code_simp

lemma rotation_keeps_every_text_witness:
  "\<exists>fs b. RewrapAllFiles example_sec_lib (\<lambda>_. Written) [''k.enc''] (SetKMS (Some example_kms) example_store)
      [(''k.enc'', example_file)] = (None, fs)
   \<and> get fs ''k.enc'' = Some b
   \<and> open_file example_sec_lib b (SetKMS (Some example_kms) (example_store\<lparr>ss_masterKey := None\<rparr>)) = Value [65]"
proof -
  let ?s = "SetKMS (Some example_kms) example_store"
  obtain fs where fs: "RewrapAllFiles example_sec_lib (\<lambda>_. Written) [''k.enc''] ?s [(''k.enc'', example_file)] = (None, fs)"
    using example_rotation by (metis prod.collapse)
  have kms: "ss_kms ?s = Some example_kms" by (simp add: SetKMS_def)
  have entry: "get [(''k.enc'', example_file)] ''k.enc'' = Some example_file" by simp
  have "?s\<lparr>ss_masterKey := None\<rparr> = SetKMS (Some example_kms) (example_store\<lparr>ss_masterKey := None\<rparr>)"
    by (simp add: SetKMS_def)
  then show ?thesis
    using rotation_keeps_every_text[OF example_sec_laws(3) example_kms_ok kms fs _ entry] example_rotation fs by auto
qed

end
