(* ===== verification/AuditLog.thy ===== *)
theory AuditLog
  imports SecStore
begin

text \<open>
  The audit log, \<^verbatim>\<open>src/internal/logging/audit.go\<close>: events chained by hashes, signed by a key service or an HMAC, and
  checkpoints in the encrypted store. SHA-256, HMAC, JSON and the format of times are parameters; the
  log file is the list of events that were written to it; what was sent to the forwarders is a list.
\<close>

record AuditEvent =
  ae_Timestamp :: gotime
  ae_Source :: string
  ae_Actor :: string
  ae_Action :: string
  ae_Details :: "(string, any) gomap"
  ae_PrevHash :: string
  ae_ChainHash :: string
  ae_Signature :: string
  ae_SignerKeyID :: string

record audit_lib = sec_lib +
  sha256 :: "bytes \<Rightarrow> bytes"
  hmac_sha256 :: "bytes \<Rightarrow> bytes \<Rightarrow> bytes"
  event_Marshal :: "AuditEvent \<Rightarrow> bytes"
  checkpoint_Marshal :: "string \<Rightarrow> gotime \<Rightarrow> bytes"
  checkpoint_time :: "gotime \<Rightarrow> string"
  string_bytes :: "string \<Rightarrow> bytes"

datatype audit_error = KMSFailed | NoSigner | CloseFailed | CheckpointFailed sec_error

text \<open>
  \<open>au_kms\<close>: there is a signing function; what it answers is a reading. \<open>au_open\<close>: the file could be opened
  and is not closed. The environment variable AUDIT_HMAC_KEY is a reading too.
\<close>

record Auditor =
  au_ks :: "SimpleEncryptedStore option"
  au_signKeyID :: string
  au_kms :: bool
  au_enforceSigned :: bool
  au_open :: bool
  au_log :: "AuditEvent list"
  au_lastChain :: bytes
  au_forwarders :: "string list"
  au_sent :: "(string \<times> AuditEvent) list"
  au_checkpointN :: int
  au_eventsSince :: int
  au_closed :: bool

record audit_readings =
  ar_now :: gotime
  ar_signature :: "bytes option"
  ar_hmac_key :: string
  ar_write_ok :: bool
  ar_put :: put_readings

definition NewAuditor ::
    "SimpleEncryptedStore option \<Rightarrow> string \<Rightarrow> bool \<Rightarrow> bool \<Rightarrow> bool \<Rightarrow> AuditEvent list \<Rightarrow> Auditor" where
  "NewAuditor ks signKeyID kms enforceSigned open_ok written =
     \<lparr>au_ks = ks, au_signKeyID = signKeyID, au_kms = kms, au_enforceSigned = enforceSigned, au_open = open_ok,
      au_log = written, au_lastChain = [], au_forwarders = [], au_sent = [], au_checkpointN = 100,
      au_eventsSince = 0, au_closed = False\<rparr>"

definition RegisterForwarder :: "string \<Rightarrow> Auditor \<Rightarrow> Auditor" where
  "RegisterForwarder f a = a\<lparr>au_forwarders := au_forwarders a @ [f]\<rparr>"

section \<open>The chain\<close>

definition prev_text :: "bytes \<Rightarrow> string" where
  "prev_text prev = (if prev = [] then '''' else hex_EncodeToString prev)"

text \<open>The three ways to extend the chain: the event with its hashes, and the new end of the chain.\<close>

definition hash_only :: "audit_lib \<Rightarrow> bytes \<Rightarrow> bytes \<Rightarrow> AuditEvent \<Rightarrow> AuditEvent \<times> bytes" where
  "hash_only lib prev payload ev =
     (let h = sha256 lib (prev @ payload)
      in (ev\<lparr>ae_PrevHash := prev_text prev, ae_ChainHash := hex_EncodeToString h\<rparr>, h))"

definition hmac_signed :: "audit_lib \<Rightarrow> string \<Rightarrow> bytes \<Rightarrow> bytes \<Rightarrow> AuditEvent \<Rightarrow> AuditEvent \<times> bytes" where
  "hmac_signed lib key prev payload ev =
     (let chain = hmac_sha256 lib (string_bytes lib key) (prev @ payload)
      in (ev\<lparr>ae_PrevHash := prev_text prev, ae_ChainHash := hex_EncodeToString chain,
             ae_Signature := hex_EncodeToString chain\<rparr>, chain))"

definition kms_signed :: "audit_lib \<Rightarrow> string \<Rightarrow> bytes \<Rightarrow> bytes \<Rightarrow> bytes \<Rightarrow> AuditEvent \<Rightarrow> AuditEvent \<times> bytes" where
  "kms_signed lib keyID sig prev payload ev =
     (ev\<lparr>ae_PrevHash := prev_text prev, ae_ChainHash := hex_EncodeToString (sha256 lib (prev @ payload)),
         ae_Signature := hex_EncodeToString sig, ae_SignerKeyID := keyID\<rparr>, sig)"

definition local_chain :: "audit_lib \<Rightarrow> string \<Rightarrow> bytes \<Rightarrow> bytes \<Rightarrow> AuditEvent \<Rightarrow> AuditEvent \<times> bytes" where
  "local_chain lib key prev payload ev =
     (if key = '''' then hash_only lib prev payload ev else hmac_signed lib key prev payload ev)"

text \<open>The error, if there is one; the event; and the end of the chain, which may have moved all the same.\<close>

definition chain_event ::
    "audit_lib \<Rightarrow> audit_readings \<Rightarrow> AuditEvent \<Rightarrow> Auditor \<Rightarrow> audit_error option \<times> AuditEvent \<times> bytes" where
  "chain_event lib rd ev a =
     (let prev = au_lastChain a; payload = event_Marshal lib ev
      in if au_kms a then
           (case ar_signature rd of
              Some sig \<Rightarrow> (None, kms_signed lib (au_signKeyID a) sig prev payload ev)
            | None \<Rightarrow>
                if au_enforceSigned a then (Some KMSFailed, ev, prev)
                else (None, local_chain lib (ar_hmac_key rd) prev payload ev))
         else
           (if ar_hmac_key rd = '''' \<and> au_enforceSigned a then Some NoSigner else None,
            local_chain lib (ar_hmac_key rd) prev payload ev))"

section \<open>The log\<close>

definition checkpoint ::
    "audit_lib \<Rightarrow> audit_readings \<Rightarrow> Auditor \<Rightarrow> sec_files \<Rightarrow> (audit_error option, sec_files) outcome" where
  "checkpoint lib rd a fs =
     (case au_ks a of
        None \<Rightarrow> Returned None fs
      | Some ks \<Rightarrow>
          (case Put (sec_lib.truncate lib) (ar_put rd) (''audit_checkpoint_'' @ checkpoint_time lib (ar_now rd))
                  (checkpoint_Marshal lib (hex_EncodeToString (au_lastChain a)) (ar_now rd)) ks fs of
             Returned None fs \<Rightarrow> Returned None fs
           | Returned (Some e) fs \<Rightarrow> Returned (Some (CheckpointFailed e)) fs
           | Blocked fs \<Rightarrow> Blocked fs
           | Panicked fs \<Rightarrow> Panicked fs))"

definition write_event :: "audit_readings \<Rightarrow> AuditEvent \<Rightarrow> Auditor \<Rightarrow> Auditor" where
  "write_event rd ev a =
     a\<lparr>au_log := (if au_open a \<and> ar_write_ok rd then au_log a @ [ev] else au_log a),
       au_eventsSince := au_eventsSince a + 1,
       au_sent := au_sent a @ map (\<lambda>f. (f, ev)) (au_forwarders a)\<rparr>"

definition AppendEvent ::
    "audit_lib \<Rightarrow> audit_readings \<Rightarrow> AuditEvent \<Rightarrow> Auditor \<times> sec_files
      \<Rightarrow> (audit_error option \<times> AuditEvent, Auditor \<times> sec_files) outcome" where
  "AppendEvent lib rd ev s =
     (case s of (a, fs) \<Rightarrow>
        if au_closed a then Returned (None, ev) (a, fs)
        else
          (case chain_event lib rd (ev\<lparr>ae_Timestamp := ar_now rd\<rparr>) a of
             (Some e, ev, chain) \<Rightarrow> Returned (Some e, ev) (a\<lparr>au_lastChain := chain\<rparr>, fs)
           | (None, ev, chain) \<Rightarrow>
               let a = write_event rd ev (a\<lparr>au_lastChain := chain\<rparr>)
               in if au_eventsSince a \<ge> au_checkpointN a then
                    (case checkpoint lib rd a fs of
                       Returned err fs \<Rightarrow> Returned (None, ev) (a\<lparr>au_eventsSince := 0\<rparr>, fs)
                     | Blocked fs \<Rightarrow> Blocked (a, fs)
                     | Panicked fs \<Rightarrow> Panicked (a, fs))
                  else Returned (None, ev) (a, fs)))"

definition Close :: "bool \<Rightarrow> Auditor \<Rightarrow> audit_error option \<times> Auditor" where
  "Close close_ok a =
     (let a = a\<lparr>au_closed := True\<rparr>
      in if \<not> au_open a then (None, a)
         else if \<not> close_ok then (Some CloseFailed, a)
         else (None, a\<lparr>au_open := False\<rparr>))"

end
