(* ===== verification/AuditLogProps.thy ===== *)
theory AuditLogProps
  imports AuditLog
begin

text \<open>
  Properties of the audit log: its links are unbroken, the end of the chain binds every event of the log, and a
  refusal for want of a signer breaks the chain that it is meant to protect.
\<close>

type_synonym audit_call = "audit_readings \<times> AuditEvent"

fun audit_run ::
    "audit_lib \<Rightarrow> audit_call list \<Rightarrow> Auditor \<times> sec_files \<Rightarrow> (unit, Auditor \<times> sec_files) outcome" where
  "audit_run lib [] s = Returned () s"
| "audit_run lib ((rd, ev) # cs) s = andThen (AppendEvent lib rd ev s) (\<lambda>_ s. audit_run lib cs s)"

text \<open>The memory after a run, whether it returned or panicked in a checkpoint.\<close>

abbreviation auditor_after :: "audit_lib \<Rightarrow> audit_call list \<Rightarrow> Auditor \<times> sec_files \<Rightarrow> Auditor" where
  "auditor_after lib cs s \<equiv> fst (memory (audit_run lib cs s))"

lemma prev_text_hex: "prev_text prev = hex_EncodeToString prev"
  by (simp add: prev_text_def hex_EncodeToString_def)

lemma hex_empty [simp]: "hex_EncodeToString b = [] \<longleftrightarrow> b = []"
  by (cases b) (simp_all add: hex_EncodeToString_def)

text \<open>What a call leaves: nothing, when the auditor is closed; the end of the chain; or an event more.\<close>

lemma AppendEvent_auditor:
  fixes rd :: audit_readings and ev :: AuditEvent
  defines "stamped \<equiv> ev\<lparr>ae_Timestamp := ar_now rd\<rparr>"
  shows "\<exists>a'. fst (memory (AppendEvent lib rd ev (a, fs))) = a' \<and>
    (if au_closed a then a' = a
     else case chain_event lib rd stamped a of
       (Some e, ev', chain) \<Rightarrow> a' = a\<lparr>au_lastChain := chain\<rparr>
     | (None, ev', chain) \<Rightarrow>
         \<exists>n. a' = (write_event rd ev' (a\<lparr>au_lastChain := chain\<rparr>))\<lparr>au_eventsSince := n\<rparr>)"
proof -
  obtain err ev' chain where c: "chain_event lib rd stamped a = (err, ev', chain)" by (metis prod_cases3)
  have same: "\<exists>n. r = r\<lparr>au_eventsSince := n\<rparr>" for r :: Auditor
    by (rule exI[of _ "au_eventsSince r"]) simp
  show ?thesis
  proof (cases "au_closed a \<or> err \<noteq> None")
    case True
    then show ?thesis using c by (auto simp: AppendEvent_def stamped_def)
  next
    case False
    then show ?thesis using c
      by (auto simp: AppendEvent_def stamped_def Let_def intro: same split: outcome.split)
  qed
qed

lemma run_invariant:
  assumes "I a" and "\<And>a fs rd ev. I a \<Longrightarrow> (rd, ev) \<in> set cs \<Longrightarrow> I (fst (memory (AppendEvent lib rd ev (a, fs))))"
  shows "I (auditor_after lib cs (a, fs))"
  using assms
proof (induction cs arbitrary: a fs)
  case Nil
  then show ?case by simp
next
  case (Cons c cs)
  obtain rd ev where c: "c = (rd, ev)" by (cases c)
  have one: "I (fst (memory (AppendEvent lib rd ev (a, fs))))" using Cons.prems c by auto
  show ?case
  proof (cases "AppendEvent lib rd ev (a, fs)")
    case (Returned r s)
    then have "I (fst s)" using one by simp
    then have "I (auditor_after lib cs (fst s, snd s))" using Cons by (intro Cons.IH) auto
    then show ?thesis using Returned c by simp
  qed (use one c in simp_all)
qed

section \<open>Links\<close>

text \<open>What the next event names as its predecessor.\<close>

definition link :: "AuditEvent \<Rightarrow> string" where
  "link ev = (if ae_Signature ev = '''' then ae_ChainHash ev else ae_Signature ev)"

fun linked :: "string \<Rightarrow> AuditEvent list \<Rightarrow> bool" where
  "linked p [] \<longleftrightarrow> True"
| "linked p (ev # evs) \<longleftrightarrow> ae_PrevHash ev = p \<and> linked (link ev) evs"

lemma linked_snoc: "linked p (evs @ [ev]) \<longleftrightarrow>
    linked p evs \<and> ae_PrevHash ev = (if evs = [] then p else link (last evs))"
  by (induction evs arbitrary: p) auto

definition links_ok :: "Auditor \<Rightarrow> bool" where
  "links_ok a \<longleftrightarrow> linked '''' (au_log a) \<and>
     hex_EncodeToString (au_lastChain a) = (if au_log a = [] then '''' else link (last (au_log a)))"

text \<open>A call that is not refused for want of a signer, with an unsigned event, that can be written.\<close>

definition good_call :: "bool \<Rightarrow> bool \<Rightarrow> audit_call \<Rightarrow> bool" where
  "good_call kms enforce c \<longleftrightarrow>
     ar_write_ok (fst c) \<and> ae_Signature (snd c) = '''' \<and> ar_signature (fst c) \<noteq> Some []
     \<and> (kms \<or> \<not> enforce \<or> ar_hmac_key (fst c) \<noteq> '''')"

lemma chain_event_link:
  assumes "good_call (au_kms a) (au_enforceSigned a) (rd, ev)" and "ae_Signature ev' = ''''"
    and "chain_event lib rd ev' a = (err, ev'', chain)"
  shows "case err of Some e \<Rightarrow> chain = au_lastChain a
    | None \<Rightarrow> ae_PrevHash ev'' = hex_EncodeToString (au_lastChain a) \<and> link ev'' = hex_EncodeToString chain"
  using assms
  by (auto simp: chain_event_def Let_def kms_signed_def local_chain_def hash_only_def hmac_signed_def prev_text_hex
      link_def good_call_def split: option.splits if_splits)

lemma AppendEvent_links:
  fixes lib :: audit_lib and fs :: sec_files and rd :: audit_readings and ev :: AuditEvent
  assumes "links_ok a \<and> au_open a \<and> au_kms a = kms \<and> au_enforceSigned a = enforce"
    and "good_call kms enforce (rd, ev)"
  defines "a' \<equiv> fst (memory (AppendEvent lib rd ev (a, fs)))"
  shows "links_ok a' \<and> au_open a' \<and> au_kms a' = kms \<and> au_enforceSigned a' = enforce"
proof (cases "au_closed a")
  case True
  then show ?thesis using AppendEvent_auditor[of lib rd ev a fs] assms(1) by (simp add: a'_def)
next
  case False
  let ?ev = "ev\<lparr>ae_Timestamp := ar_now rd\<rparr>"
  obtain err ev' chain where c: "chain_event lib rd ?ev a = (err, ev', chain)" by (metis prod_cases3)
  have s: "ae_Signature ?ev = ''''" and w: "ar_write_ok rd" using assms(2) by (simp_all add: good_call_def)
  note l = chain_event_link[OF _ s c, of ev]
  show ?thesis
  proof (cases err)
    case (Some e)
    then have "a' = a\<lparr>au_lastChain := chain\<rparr>"
      using AppendEvent_auditor[of lib rd ev a fs] False c by (simp add: a'_def)
    then show ?thesis using l Some assms(1,2) by (simp add: links_ok_def)
  next
    case None
    then obtain n where "a' = (write_event rd ev' (a\<lparr>au_lastChain := chain\<rparr>))\<lparr>au_eventsSince := n\<rparr>"
      using AppendEvent_auditor[of lib rd ev a fs] False c by (auto simp: a'_def)
    then show ?thesis using l None assms(1,2) w by (simp add: links_ok_def write_event_def linked_snoc)
  qed
qed

text \<open>
  In every run of a new auditor on an empty file, each event of the log names its predecessor: the
  signature of the one before, or its chain hash where it has none. This needs a log that can be
  written, events that come without a signature, signatures that are not empty, and no refusal for want of a
  signer; refusals by the key service, closings of the auditor and changes between HMAC and no HMAC do no harm.
\<close>

theorem audit_links_are_unbroken:
  assumes "\<forall>c\<in>set cs. good_call kms enforce c"
  shows "linked '''' (au_log (auditor_after lib cs (NewAuditor ks keyID kms enforce True [], fs)))"
proof -
  let ?I = "\<lambda>a. links_ok a \<and> au_open a \<and> au_kms a = kms \<and> au_enforceSigned a = enforce"
  have "?I (auditor_after lib cs (NewAuditor ks keyID kms enforce True [], fs))"
  proof (rule run_invariant[where I = ?I])
    show "?I (NewAuditor ks keyID kms enforce True [])" by (simp add: NewAuditor_def links_ok_def)
    show "?I (fst (memory (AppendEvent lib rd ev (a, fs))))" if "?I a" "(rd, ev) \<in> set cs" for a fs rd ev
      using AppendEvent_links[OF that(1)] assms that(2) by blast
  qed
  then show ?thesis by (simp add: links_ok_def)
qed

definition example_audit_lib :: audit_lib where
  "example_audit_lib =
     \<lparr>gcm_Seal = (\<lambda>k n t. t), gcm_Open = (\<lambda>k n c. Some c), header_Marshal = (\<lambda>h. []), header_Unmarshal = (\<lambda>b. None),
      sha256 = (\<lambda>b. take 32 (b @ replicate 32 0)), hmac_sha256 = (\<lambda>k b. take 32 (b @ replicate 32 1)),
      event_Marshal = (\<lambda>ev. map (\<lambda>c. word_of_nat (of_char c)) (ae_Action ev)), checkpoint_Marshal = (\<lambda>c t. []),
      checkpoint_time = (\<lambda>t. ''''), string_bytes = (\<lambda>s. [])\<rparr>"

definition example_event :: "string \<Rightarrow> AuditEvent" where
  "example_event action =
     \<lparr>ae_Timestamp = 0, ae_Source = '''', ae_Actor = '''', ae_Action = action, ae_Details = [], ae_PrevHash = '''',
      ae_ChainHash = '''', ae_Signature = '''', ae_SignerKeyID = ''''\<rparr>"

definition example_audit :: "bytes option \<Rightarrow> string \<Rightarrow> audit_readings" where
  "example_audit sig key =
     \<lparr>ar_now = 5, ar_signature = sig, ar_hmac_key = key, ar_write_ok = True,
      ar_put = \<lparr>pr_dek = None, pr_wrap_nonce = [], pr_nonce = [], pr_disk = Written\<rparr>\<rparr>"

lemma audit_links_are_unbroken_witness:
  "linked '''' (au_log (auditor_after example_audit_lib
     [(example_audit (Some [1]) '''', example_event ''a''), (example_audit None '''', example_event ''b'')]
     (NewAuditor None ''k'' True False True [], [])))"
  by (rule audit_links_are_unbroken) (simp add: good_call_def example_audit_def example_event_def)

section \<open>Binding\<close>

text \<open>The event as it was marshalled, before the hashes were entered.\<close>

definition cleared :: "AuditEvent \<Rightarrow> AuditEvent" where
  "cleared ev = ev\<lparr>ae_PrevHash := '''', ae_ChainHash := '''', ae_Signature := '''', ae_SignerKeyID := ''''\<rparr>"

lemma cleared_fields:
  assumes "cleared ev = ev"
  shows "ae_PrevHash ev = ''''" "ae_ChainHash ev = ''''" "ae_Signature ev = ''''" "ae_SignerKeyID ev = ''''"
  using assms by (cases ev; simp add: cleared_def)+

lemma cleared_eqI:
  assumes "cleared e1 = cleared e2" and "ae_PrevHash e1 = ae_PrevHash e2" and "ae_ChainHash e1 = ae_ChainHash e2"
    and "ae_Signature e1 = ae_Signature e2" and "ae_SignerKeyID e1 = ae_SignerKeyID e2"
  shows "e1 = e2"
  using assms by (cases e1; cases e2) (simp add: cleared_def)

lemma cleared_update [simp]:
  "cleared (ev\<lparr>ae_PrevHash := p\<rparr>) = cleared ev" "cleared (ev\<lparr>ae_ChainHash := h\<rparr>) = cleared ev"
  "cleared (ev\<lparr>ae_Signature := s\<rparr>) = cleared ev" "cleared (ev\<lparr>ae_SignerKeyID := k\<rparr>) = cleared ev"
  "cleared (ev\<lparr>ae_Timestamp := t\<rparr>) = (cleared ev)\<lparr>ae_Timestamp := t\<rparr>"
  by (simp_all add: cleared_def)

text \<open>The hash of a log without a key service: by HMAC where there is a key.\<close>

definition chain_hash :: "audit_lib \<Rightarrow> string \<Rightarrow> bytes \<Rightarrow> bytes" where
  "chain_hash lib key = (if key = '''' then sha256 lib else hmac_sha256 lib (string_bytes lib key))"

text \<open>What a verifier of such a log checks, what it hashes, and the end that it comes to.\<close>

fun verifies :: "audit_lib \<Rightarrow> string \<Rightarrow> bytes \<Rightarrow> AuditEvent list \<Rightarrow> bool" where
  "verifies lib key prev [] \<longleftrightarrow> True"
| "verifies lib key prev (ev # evs) \<longleftrightarrow>
     (let h = chain_hash lib key (prev @ event_Marshal lib (cleared ev))
      in ae_PrevHash ev = hex_EncodeToString prev \<and> ae_ChainHash ev = hex_EncodeToString h
         \<and> ae_Signature ev = (if key = '''' then '''' else ae_ChainHash ev) \<and> ae_SignerKeyID ev = ''''
         \<and> verifies lib key h evs)"

fun hashed :: "audit_lib \<Rightarrow> string \<Rightarrow> bytes \<Rightarrow> AuditEvent list \<Rightarrow> bytes list" where
  "hashed lib key prev [] = []"
| "hashed lib key prev (ev # evs) =
     (let x = prev @ event_Marshal lib (cleared ev) in x # hashed lib key (chain_hash lib key x) evs)"

fun chain_end :: "audit_lib \<Rightarrow> string \<Rightarrow> bytes \<Rightarrow> AuditEvent list \<Rightarrow> bytes" where
  "chain_end lib key prev [] = prev"
| "chain_end lib key prev (ev # evs) =
     chain_end lib key (chain_hash lib key (prev @ event_Marshal lib (cleared ev))) evs"

lemma verifies_head:
  assumes "verifies lib key prev (ev # evs)"
  shows "ae_PrevHash ev = hex_EncodeToString prev"
    "ae_ChainHash ev = hex_EncodeToString (chain_hash lib key (prev @ event_Marshal lib (cleared ev)))"
    "ae_Signature ev = (if key = '''' then '''' else ae_ChainHash ev)" "ae_SignerKeyID ev = ''''"
  using assms by (simp_all add: Let_def)

lemma verifies_snoc: "verifies lib key prev (evs @ [ev]) \<longleftrightarrow>
    verifies lib key prev evs \<and> verifies lib key (chain_end lib key prev evs) [ev]"
  by (induction evs arbitrary: prev) (auto simp: Let_def)

lemma chain_end_snoc: "chain_end lib key prev (evs @ [ev]) =
    chain_hash lib key (chain_end lib key prev evs @ event_Marshal lib (cleared ev))"
  by (induction evs arbitrary: prev) auto

definition plain_call :: "string \<Rightarrow> bool \<Rightarrow> audit_call \<Rightarrow> bool" where
  "plain_call key enforce c \<longleftrightarrow>
     ar_write_ok (fst c) \<and> ar_hmac_key (fst c) = key \<and> cleared (snd c) = snd c \<and> (\<not> enforce \<or> key \<noteq> '''')"

definition binds_ok :: "audit_lib \<Rightarrow> string \<Rightarrow> Auditor \<Rightarrow> bool" where
  "binds_ok lib key a \<longleftrightarrow>
     verifies lib key [] (au_log a) \<and> au_lastChain a = chain_end lib key [] (au_log a) \<and> \<not> au_closed a"

lemma AppendEvent_binds:
  fixes lib :: audit_lib and fs :: sec_files and rd :: audit_readings and ev :: AuditEvent
  assumes "binds_ok lib key a \<and> au_open a \<and> \<not> au_kms a \<and> au_enforceSigned a = enforce"
    and "plain_call key enforce (rd, ev)"
  defines "a' \<equiv> fst (memory (AppendEvent lib rd ev (a, fs)))"
  shows "binds_ok lib key a' \<and> au_open a' \<and> \<not> au_kms a' \<and> au_enforceSigned a' = enforce"
proof -
  let ?ev = "ev\<lparr>ae_Timestamp := ar_now rd\<rparr>"
  have open_: "\<not> au_closed a" and w: "ar_write_ok rd" and key: "ar_hmac_key rd = key" "\<not> enforce \<or> key \<noteq> ''''"
    using assms(1,2) by (simp_all add: binds_ok_def plain_call_def)
  have fresh: "ae_PrevHash ev = ''''" "ae_ChainHash ev = ''''" "ae_Signature ev = ''''" "ae_SignerKeyID ev = ''''"
    using cleared_fields assms(2) by (simp_all add: plain_call_def)
  obtain err ev' chain where c: "chain_event lib rd ?ev a = (err, ev', chain)" by (metis prod_cases3)
  have e: "err = None" and lc: "local_chain lib key (au_lastChain a) (event_Marshal lib ?ev) ?ev = (ev', chain)"
    using c assms(1) key by (auto simp: chain_event_def Let_def)
  have cl: "cleared ev' = ?ev"
    using lc assms(2)
    by (auto simp: local_chain_def hash_only_def hmac_signed_def Let_def plain_call_def split: if_splits)
  have one: "verifies lib key (au_lastChain a) [ev'] \<and> chain = chain_hash lib key (au_lastChain a @ event_Marshal lib ?ev)"
    using lc fresh by (auto simp: cl prev_text_hex local_chain_def hash_only_def hmac_signed_def Let_def chain_hash_def
        split: if_splits)
  obtain n where a': "a' = (write_event rd ev' (a\<lparr>au_lastChain := chain\<rparr>))\<lparr>au_eventsSince := n\<rparr>"
    using AppendEvent_auditor[of lib rd ev a fs] open_ c e by (auto simp: a'_def)
  show ?thesis using assms(1) one w a' cl
    by (simp add: binds_ok_def write_event_def verifies_snoc chain_end_snoc del: verifies.simps(2))
qed

text \<open>Two logs of the same length that verify and end in the same chain are the same, up to a collision.\<close>

lemma chain_binds:
  assumes "verifies lib key p1 l1" and "verifies lib key p2 l2" and "length l1 = length l2" and "length p1 = length p2"
    and "chain_end lib key p1 l1 = chain_end lib key p2 l2"
    and "inj_on (chain_hash lib key) (set (hashed lib key p1 l1) \<union> set (hashed lib key p2 l2))"
    and "\<forall>x. length (chain_hash lib key x) = 32"
    and "inj_on (event_Marshal lib) (cleared ` (set l1 \<union> set l2))"
  shows "p1 = p2 \<and> l1 = l2"
  using assms(1-6,8)
proof (induction l1 arbitrary: p1 p2 l2)
  case Nil
  then show ?case by simp
next
  case (Cons e1 r1)
  then obtain e2 r2 where l2: "l2 = e2 # r2" by (cases l2) simp_all
  let ?x1 = "p1 @ event_Marshal lib (cleared e1)" and ?x2 = "p2 @ event_Marshal lib (cleared e2)"
  let ?h = "chain_hash lib key"
  have "?h ?x1 = ?h ?x2 \<and> r1 = r2"
  proof (rule Cons.IH)
    show "inj_on ?h (set (hashed lib key (?h ?x1) r1) \<union> set (hashed lib key (?h ?x2) r2))"
      using Cons.prems(6) by (rule inj_on_subset) (auto simp: l2 Let_def)
    show "inj_on (event_Marshal lib) (cleared ` (set r1 \<union> set r2))"
      using Cons.prems(7) by (rule inj_on_subset) (auto simp: l2)
  qed (use Cons.prems assms(7) in \<open>simp_all add: l2 Let_def\<close>)
  moreover have "?x1 \<in> set (hashed lib key p1 (e1 # r1)) \<union> set (hashed lib key p2 l2)"
    "?x2 \<in> set (hashed lib key p1 (e1 # r1)) \<union> set (hashed lib key p2 l2)" by (simp_all add: l2 Let_def)
  ultimately have "?x1 = ?x2" "r1 = r2" using Cons.prems(6) by (blast dest: inj_onD)+
  then have p: "p1 = p2" and m: "event_Marshal lib (cleared e1) = event_Marshal lib (cleared e2)"
    using Cons.prems(4) by auto
  have "cleared e1 = cleared e2" using inj_onD[OF Cons.prems(7) m] l2 by simp
  note heads = verifies_head[OF Cons.prems(1)] verifies_head[OF Cons.prems(2)[unfolded l2]]
  have "e1 = e2"
    by (rule cleared_eqI[OF \<open>cleared e1 = cleared e2\<close>]) (simp_all only: heads \<open>cleared e1 = cleared e2\<close> p)
  then show ?case using p \<open>r1 = r2\<close> l2 by simp
qed

text \<open>
  C38: The end of the chain, which the checkpoints keep, binds the whole log of an auditor that has no key service,
  started on an empty log file, and ran with one HMAC key (or none) throughout, with every write successful, with
  events that came without hashes, and with no refusal for want of a signer: the log verifies, and any other log of
  the same length that verifies and comes to the same end is the same log, unless the hash collides, or the JSON of
  two events is the same, among what the two logs hold.
\<close>

theorem audit_log_is_bound_by_its_end:
  assumes "\<forall>c\<in>set cs. plain_call key enforce c" and "a = auditor_after lib cs (NewAuditor ks keyID False enforce True [], fs)"
    and "\<forall>x. length (chain_hash lib key x) = 32"
    and "length log' = length (au_log a)" and "verifies lib key [] log'" and "chain_end lib key [] log' = au_lastChain a"
    and "inj_on (chain_hash lib key) (set (hashed lib key [] (au_log a)) \<union> set (hashed lib key [] log'))"
    and "inj_on (event_Marshal lib) (cleared ` (set (au_log a) \<union> set log'))"
  shows "verifies lib key [] (au_log a) \<and> log' = au_log a"
proof -
  let ?I = "\<lambda>a. binds_ok lib key a \<and> au_open a \<and> \<not> au_kms a \<and> au_enforceSigned a = enforce"
  have "?I a" unfolding assms(2)
  proof (rule run_invariant[where I = ?I])
    show "?I (NewAuditor ks keyID False enforce True [])" by (simp add: NewAuditor_def binds_ok_def)
    show "?I (fst (memory (AppendEvent lib rd ev (a, fs))))" if "?I a" "(rd, ev) \<in> set cs" for a fs rd ev
      using AppendEvent_binds[OF that(1)] assms(1) that(2) by blast
  qed
  then have v: "verifies lib key [] (au_log a)" "au_lastChain a = chain_end lib key [] (au_log a)"
    by (simp_all add: binds_ok_def)
  then show ?thesis using chain_binds[OF v(1) assms(5)] assms(3,4,6,7,8) by simp
qed

lemma example_hash_length [simp]: "length (sha256 example_audit_lib z) = 32"
  by (simp add: example_audit_lib_def min_def)

definition example_log :: "string \<Rightarrow> Auditor" where
  "example_log action = auditor_after example_audit_lib [(example_audit None '''', example_event action)]
     (NewAuditor None ''k'' False False True [], [])"

lemma example_logs:
  "hashed example_audit_lib '''' [] (au_log (example_log ''a'')) = [[97]]
   \<and> hashed example_audit_lib '''' [] (au_log (example_log ''x'')) = [[120]]
   \<and> map (\<lambda>ev. event_Marshal example_audit_lib (cleared ev)) (au_log (example_log ''a'')) = [[97]]
   \<and> map (\<lambda>ev. event_Marshal example_audit_lib (cleared ev)) (au_log (example_log ''x'')) = [[120]]
   \<and> verifies example_audit_lib '''' [] (au_log (example_log ''x''))
   \<and> chain_hash example_audit_lib '''' [97] \<noteq> chain_hash example_audit_lib '''' [120]"
  by code_simp

lemma audit_log_is_bound_by_its_end_witness:
  "verifies example_audit_lib '''' [] (au_log (example_log ''x''))
   \<and> chain_end example_audit_lib '''' [] (au_log (example_log ''x'')) \<noteq> au_lastChain (example_log ''a'')"
proof -
  let ?l = "au_log (example_log ''a'')" and ?x = "au_log (example_log ''x'')"
  obtain ea where a: "?l = [ea]" "event_Marshal example_audit_lib (cleared ea) = [97]"
    using example_logs by (auto simp: map_eq_Cons_conv)
  obtain ex where x: "?x = [ex]" "event_Marshal example_audit_lib (cleared ex) = [120]"
    using example_logs by (auto simp: map_eq_Cons_conv)
  have "chain_end example_audit_lib '''' [] ?x \<noteq> au_lastChain (example_log ''a'')"
  proof
    assume "chain_end example_audit_lib '''' [] ?x = au_lastChain (example_log ''a'')"
    note same_end = this
    have inj: "inj_on (chain_hash example_audit_lib '''') {[97], [120]}"
      "inj_on (event_Marshal example_audit_lib) {cleared ea, cleared ex}"
      using example_logs a(2) x(2) by (auto simp: inj_on_def)
    have "verifies example_audit_lib '''' [] ?l \<and> ?x = ?l"
    proof (rule audit_log_is_bound_by_its_end)
      show "\<forall>c\<in>set [(example_audit None '''', example_event ''a'')]. plain_call '''' False c"
        by (simp add: plain_call_def example_audit_def example_event_def cleared_def)
      show "\<forall>z. length (chain_hash example_audit_lib '''' z) = 32" by (simp add: chain_hash_def)
      show "inj_on (chain_hash example_audit_lib '''') (set (hashed example_audit_lib '''' [] ?l) \<union> set (hashed example_audit_lib '''' [] ?x))"
        using inj(1) example_logs by (simp add: insert_commute)
      show "inj_on (event_Marshal example_audit_lib) (cleared ` (set ?l \<union> set ?x))"
        using inj(2) a(1) x(1) by (simp add: insert_commute)
    qed (use same_end example_logs a(1) x(1) in \<open>simp_all add: example_log_def\<close>)
    then have "?x = ?l" by blast
    then show False using a x by simp
  qed
  then show ?thesis using example_logs by blast
qed

section \<open>Refusals\<close>

text \<open>
  C39: When signatures are enforced and there is neither a key service nor an HMAC key, an event is refused and not
  written, but the end of the chain moves on to it. So, whatever log the auditor has linked so far, when the next
  event is accepted, after a key has been set, and written, it names as its predecessor the hash of the refused
  event, and the log is linked no longer (unless that hash happens to be the old end of the chain).
\<close>

theorem refusals_break_the_chain:
  assumes "links_ok a" and "\<not> au_closed a" and "au_open a" and "\<not> au_kms a" and "au_enforceSigned a"
    and "ar_hmac_key rd1 = ''''" and "ar_hmac_key rd2 \<noteq> ''''" and "ar_write_ok rd2"
    and h_def: "h = sha256 lib (au_lastChain a @ event_Marshal lib (ev1\<lparr>ae_Timestamp := ar_now rd1\<rparr>))"
    and "h \<noteq> au_lastChain a"
    and a'_def: "a' = auditor_after lib [(rd1, ev1), (rd2, ev2)] (a, fs)"
  shows "\<exists>ev. au_log a' = au_log a @ [ev] \<and> ae_PrevHash ev = hex_EncodeToString h \<and> \<not> linked '''' (au_log a')"
proof -
  have r: "\<exists>r. AppendEvent lib rd1 ev1 (a, fs) = Returned r (a\<lparr>au_lastChain := h\<rparr>, fs)"
    using assms(2,4-6) by (simp add: AppendEvent_def chain_event_def local_chain_def hash_only_def Let_def h_def)
  have two: "a' = fst (memory (AppendEvent lib rd2 ev2 (a\<lparr>au_lastChain := h\<rparr>, fs)))"
    using r by (cases "AppendEvent lib rd2 ev2 (a\<lparr>au_lastChain := h\<rparr>, fs)") (auto simp: a'_def)
  obtain ev chain where c: "chain_event lib rd2 (ev2\<lparr>ae_Timestamp := ar_now rd2\<rparr>) (a\<lparr>au_lastChain := h\<rparr>) = (None, ev, chain)"
    and p: "ae_PrevHash ev = hex_EncodeToString h"
    using assms(4,7) by (simp add: chain_event_def local_chain_def hmac_signed_def Let_def prev_text_hex)
  obtain n where "a' = (write_event rd2 ev (a\<lparr>au_lastChain := chain\<rparr>))\<lparr>au_eventsSince := n\<rparr>"
    using AppendEvent_auditor[of lib rd2 ev2 "a\<lparr>au_lastChain := h\<rparr>" fs] assms(2) c two by auto
  then have log: "au_log a' = au_log a @ [ev]" using assms(3,8) by (simp add: write_event_def)
  have "ae_PrevHash ev \<noteq> hex_EncodeToString (au_lastChain a)" using p assms(10) by (simp add: hex_inj)
  then have "\<not> linked '''' (au_log a')" using assms(1) by (auto simp: log linked_snoc links_ok_def split: if_splits)
  then show ?thesis using log p by blast
qed

lemma example_refusal:
  "sha256 example_audit_lib (event_Marshal example_audit_lib ((example_event ''a'')\<lparr>ae_Timestamp := 5\<rparr>)) \<noteq> []"
  by code_simp

lemma refusals_break_the_chain_witness:
  "\<not> linked '''' (au_log (auditor_after example_audit_lib
     [(example_audit None '''', example_event ''a''), (example_audit None ''key'', example_event ''b'')]
     (NewAuditor None ''k'' False True True [], [])))"
proof -
  let ?a = "NewAuditor None ''k'' False True True []"
  have a: "links_ok ?a" "\<not> au_closed ?a" "au_open ?a" "\<not> au_kms ?a" "au_enforceSigned ?a" "au_lastChain ?a = []"
    by (simp_all add: NewAuditor_def links_ok_def)
  have r: "ar_hmac_key (example_audit None '''') = ''''" "ar_hmac_key (example_audit None ''key'') \<noteq> ''''"
    "ar_write_ok (example_audit None ''key'')" "ar_now (example_audit None '''') = 5"
    by (simp_all add: example_audit_def)
  show ?thesis
    using refusals_break_the_chain[OF a(1-5) r(1-3) refl _ refl, of example_audit_lib "example_event ''a''"
        "example_event ''b''" "[]"] example_refusal a(6) r(4)
    by (auto simp del: audit_run.simps)
qed

end
