(* ===== verification/Monitor.thy ===== *)
theory Monitor
  imports GoPrelude Complex_Main "HOL-Library.List_Lexorder" "HOL-Library.Char_ord"
begin

text \<open>
  The service monitor, \<^verbatim>\<open>src/internal/monitoring/service_monitor.go\<close>: rolling windows of measurements, smoothed
  patterns, health scores and anomalies, subscribers, and restarts. Values of float64 are exact reals, since
  deviations are square roots; measurements are not negative, so no divisor of a ratio is zero but the one of
  \<open>metricToScore\<close>, where a quotient by zero counts as zero here and is infinite in the code. The writer of
  time series and the healer are outside: what they are sent is a list. fmt's verb with two decimals is a parameter.
\<close>

section \<open>Measurements\<close>

abbreviation StatusUp :: string where "StatusUp \<equiv> ''up''"
abbreviation StatusDown :: string where "StatusDown \<equiv> ''down''"
abbreviation StatusWarn :: string where "StatusWarn \<equiv> ''warning''"

record ServiceUsage =
  su_ServiceName :: string
  su_CPU :: real
  su_RAMMB :: real
  su_LatencyMS :: real
  su_ErrorRate :: real
  su_Status :: string
  su_Timestamp :: gotime
  su_Meta :: "(string, any) gomap"

definition no_usage :: ServiceUsage where
  "no_usage = \<lparr>su_ServiceName = '''', su_CPU = 0, su_RAMMB = 0, su_LatencyMS = 0, su_ErrorRate = 0,
     su_Status = '''', su_Timestamp = 0, su_Meta = []\<rparr>"

record HealthSnapshot =
  hs_ServiceName :: string
  hs_HealthScore :: real
  hs_Status :: string
  hs_Latest :: ServiceUsage
  hs_Anomaly :: bool
  hs_Reason :: string
  hs_Trend :: "(string, real) gomap"
  hs_Samples :: int   \<comment> \<open>Meta["samples"]\<close>

section \<open>Rolling windows\<close>

record rollingWindow =
  rw_size :: nat
  rw_buf :: "ServiceUsage list"
  rw_ptr :: nat
  rw_full :: bool

definition newRollingWindow :: "int \<Rightarrow> rollingWindow" where
  "newRollingWindow sz =
     (let n = (if sz \<le> 0 then 128 else nat sz)
      in \<lparr>rw_size = n, rw_buf = replicate n no_usage, rw_ptr = 0, rw_full = False\<rparr>)"

definition rw_push :: "ServiceUsage \<Rightarrow> rollingWindow \<Rightarrow> rollingWindow" where
  "rw_push u r =
     (let r = r\<lparr>rw_buf := (rw_buf r)[rw_ptr r := u], rw_ptr := rw_ptr r + 1\<rparr>
      in if rw_ptr r \<ge> rw_size r then r\<lparr>rw_ptr := 0, rw_full := True\<rparr> else r)"

definition rw_list :: "rollingWindow \<Rightarrow> ServiceUsage list" where
  "rw_list r =
     (if \<not> rw_full r then take (rw_ptr r) (rw_buf r)
      else drop (rw_ptr r) (rw_buf r) @ take (rw_ptr r) (rw_buf r))"

definition rw_latest :: "rollingWindow \<Rightarrow> ServiceUsage option" where
  "rw_latest r =
     (if \<not> rw_full r \<and> rw_ptr r = 0 then None
      else Some (rw_buf r ! (if rw_ptr r = 0 then rw_size r - 1 else rw_ptr r - 1)))"

section \<open>Patterns\<close>

record PatternModel =
  pm_CPU :: real
  pm_RAM :: real
  pm_Latency :: real
  pm_Error :: real
  pm_alpha :: real
  pm_seen :: int

definition newPatternModel :: "real \<Rightarrow> PatternModel" where
  "newPatternModel alpha =
     \<lparr>pm_CPU = 0, pm_RAM = 0, pm_Latency = 0, pm_Error = 0,
      pm_alpha = (if alpha \<le> 0 \<or> alpha \<ge> 1 then 3/10 else alpha), pm_seen = 0\<rparr>"

definition observe :: "ServiceUsage \<Rightarrow> PatternModel \<Rightarrow> PatternModel" where
  "observe u p =
     (if pm_seen p = 0 then
        p\<lparr>pm_CPU := su_CPU u, pm_RAM := su_RAMMB u, pm_Latency := su_LatencyMS u, pm_Error := su_ErrorRate u,
          pm_seen := 1\<rparr>
      else
        let a = pm_alpha p
        in p\<lparr>pm_CPU := a * su_CPU u + (1 - a) * pm_CPU p, pm_RAM := a * su_RAMMB u + (1 - a) * pm_RAM p,
             pm_Latency := a * su_LatencyMS u + (1 - a) * pm_Latency p,
             pm_Error := a * su_ErrorRate u + (1 - a) * pm_Error p, pm_seen := pm_seen p + 1\<rparr>)"

definition predictNext :: "PatternModel \<Rightarrow> real \<times> real \<times> real \<times> real" where
  "predictNext p = (pm_CPU p, pm_RAM p, pm_Latency p, pm_Error p)"

section \<open>Services\<close>

record ServiceConfig =
  HistorySize :: int
  AnomalyZThreshold :: real
  HealthWeightCPU :: real
  HealthWeightRAM :: real
  HealthWeightLatency :: real
  HealthWeightError :: real
  AutoHealEnabled :: bool
  AutoHealOnAnomaly :: bool
  AutoHealCooldown :: duration
  MaxStoredHistory :: int

definition defaultServiceConfig :: ServiceConfig where
  "defaultServiceConfig =
     \<lparr>HistorySize = 256, AnomalyZThreshold = 3, HealthWeightCPU = 3/10, HealthWeightRAM = 2/10,
      HealthWeightLatency = 3/10, HealthWeightError = 2/10, AutoHealEnabled = False, AutoHealOnAnomaly = False,
      AutoHealCooldown = 120 * Second, MaxStoredHistory = 1000\<rparr>"

record serviceEntry =
  se_history :: rollingWindow
  se_model :: PatternModel
  se_lastScore :: real
  se_lastStatus :: string
  se_lastAnom :: bool
  se_lastReason :: string
  se_config :: ServiceConfig

definition new_entry :: "ServiceConfig \<Rightarrow> serviceEntry" where
  "new_entry cfg =
     \<lparr>se_history = newRollingWindow (HistorySize cfg), se_model = newPatternModel (25/100), se_lastScore = 0,
      se_lastStatus = '''', se_lastAnom = False, se_lastReason = '''', se_config = cfg\<rparr>"

text \<open>
  Subscribers are known by name, \<open>None\<close> once they have unsubscribed. \<open>sm_sent\<close>, \<open>sm_written\<close>: the callbacks and
  the writes that have been started. \<open>sm_healing\<close>: the goroutines of restarts that have not ended.
\<close>

record ServiceMonitor =
  sm_services :: "(string, serviceEntry) gomap"
  sm_subscribers :: "string option list"
  sm_autoHealer :: bool
  sm_tsdbWriter :: bool
  sm_globalConfig :: ServiceConfig
  sm_lastAutoHeal :: "(string, gotime) gomap"
  sm_sent :: "(string \<times> string \<times> HealthSnapshot) list"
  sm_written :: "ServiceUsage list"
  sm_healing :: "(string \<times> HealthSnapshot) list"

definition NewServiceMonitor :: ServiceMonitor where
  "NewServiceMonitor =
     \<lparr>sm_services = [], sm_subscribers = [], sm_autoHealer = False, sm_tsdbWriter = False,
      sm_globalConfig = defaultServiceConfig, sm_lastAutoHeal = [], sm_sent = [], sm_written = [], sm_healing = []\<rparr>"

definition RegisterAutoHealer :: "bool \<Rightarrow> ServiceMonitor \<Rightarrow> ServiceMonitor" where
  "RegisterAutoHealer present sm = sm\<lparr>sm_autoHealer := present\<rparr>"

definition RegisterTSDBWriter :: "bool \<Rightarrow> ServiceMonitor \<Rightarrow> ServiceMonitor" where
  "RegisterTSDBWriter present sm = sm\<lparr>sm_tsdbWriter := present\<rparr>"

text \<open>Subscribe returns the place that its function of unsubscribing clears.\<close>

definition Subscribe :: "string \<Rightarrow> ServiceMonitor \<Rightarrow> nat \<times> ServiceMonitor" where
  "Subscribe s sm = (length (sm_subscribers sm), sm\<lparr>sm_subscribers := sm_subscribers sm @ [Some s]\<rparr>)"

definition unsubscribe :: "nat \<Rightarrow> ServiceMonitor \<Rightarrow> ServiceMonitor" where
  "unsubscribe idx sm = sm\<lparr>sm_subscribers := (sm_subscribers sm)[idx := None]\<rparr>"

definition notifyAll :: "string \<Rightarrow> HealthSnapshot \<Rightarrow> ServiceMonitor \<Rightarrow> ServiceMonitor" where
  "notifyAll event snap sm =
     sm\<lparr>sm_sent := sm_sent sm @ map (\<lambda>s. (s, event, snap)) (List.map_filter (\<lambda>s. s) (sm_subscribers sm))\<rparr>"

definition ConfigureService :: "string \<Rightarrow> ServiceConfig \<Rightarrow> ServiceMonitor \<Rightarrow> ServiceMonitor" where
  "ConfigureService service cfg sm =
     sm\<lparr>sm_services := put service
       (case get (sm_services sm) service of None \<Rightarrow> new_entry cfg | Some e \<Rightarrow> e\<lparr>se_config := cfg\<rparr>) (sm_services sm)\<rparr>"

definition ensureEntry :: "string \<Rightarrow> ServiceMonitor \<Rightarrow> serviceEntry \<times> ServiceMonitor" where
  "ensureEntry service sm =
     (case get (sm_services sm) service of
        Some e \<Rightarrow> (e, sm)
      | None \<Rightarrow> let e = new_entry (sm_globalConfig sm) in (e, sm\<lparr>sm_services := put service e (sm_services sm)\<rparr>))"

section \<open>Health\<close>

definition average :: "real list \<Rightarrow> real" where
  "average xs = sum_list xs / real (length xs)"

definition deviation :: "real list \<Rightarrow> real" where
  "deviation xs =
     (let v = (\<Sum>x\<leftarrow>xs. (x - average xs) * (x - average xs))
      in sqrt (if length xs > 1 then v / real (length xs - 1) else v))"

definition safeZscore :: "real \<Rightarrow> real \<Rightarrow> real \<Rightarrow> real" where
  "safeZscore x mean std =
     (if std \<le> 1 / 1000000000 then
        if \<bar>x - mean\<bar> < 1 / 1000000000 then 0 else (if x - mean < 0 then - 6 else 6)
      else (x - mean) / std)"

definition metricToScore :: "real \<Rightarrow> real \<Rightarrow> real" where
  "metricToScore valueRatio baselineRatio =
     (if valueRatio \<le> baselineRatio then 1
      else let k = 2; r = valueRatio / (baselineRatio + 1 / 1000000000) in 1 / (1 + k * (r - 1)))"

definition mathMax :: "real \<Rightarrow> real \<Rightarrow> real" where "mathMax a b = (if a > b then a else b)"
definition mathMin :: "real \<Rightarrow> real \<Rightarrow> real" where "mathMin a b = (if a < b then a else b)"

definition weights :: "ServiceConfig \<Rightarrow> real \<times> real \<times> real \<times> real" where
  "weights cfg =
     (if HealthWeightCPU cfg + HealthWeightRAM cfg + HealthWeightLatency cfg + HealthWeightError cfg = 0
      then (3/10, 2/10, 3/10, 2/10)
      else (HealthWeightCPU cfg, HealthWeightRAM cfg, HealthWeightLatency cfg, HealthWeightError cfg))"

definition health_score :: "ServiceConfig \<Rightarrow> ServiceUsage list \<Rightarrow> ServiceUsage \<Rightarrow> real" where
  "health_score cfg hist u =
     (let avgCPU = average (map su_CPU hist); avgRAM = average (map su_RAMMB hist);
          avgLat = average (map su_LatencyMS hist); avgErr = average (map su_ErrorRate hist);
          cpuScore = metricToScore (su_CPU u / 100) (avgCPU / 100);
          ramScore = metricToScore (su_RAMMB u / (avgRAM + 1)) (avgRAM / (avgRAM + 1));
          latScore = metricToScore (su_LatencyMS u / (avgLat + 1)) (avgLat / (avgLat + 1));
          errScore = metricToScore (su_ErrorRate u) avgErr;
          (wcpu, wram, wlat, werr) = weights cfg;
          raw = cpuScore * wcpu + ramScore * wram + latScore * wlat + errScore * werr
      in mathMax 0 (mathMin 100 (raw * 100)))"

definition zscores :: "ServiceUsage list \<Rightarrow> ServiceUsage \<Rightarrow> (string \<times> real) list" where
  "zscores hist u =
     map (\<lambda>(name, metric).
        (name, safeZscore (metric u) (average (map metric hist)) (deviation (map metric hist))))
       [(''cpu_z='', su_CPU), (''ram_z='', su_RAMMB), (''lat_z='', su_LatencyMS), (''err_z='', su_ErrorRate)]"

fun join_reasons :: "string list \<Rightarrow> string" where
  "join_reasons [] = ''''"
| "join_reasons [r] = r"
| "join_reasons (r # rs) = r @ ''; '' @ join_reasons rs"

definition status_of :: "ServiceUsage \<Rightarrow> bool \<Rightarrow> real \<Rightarrow> string" where
  "status_of u anom score =
     (if su_Status u = StatusDown \<or> score < 35 then StatusDown
      else if anom \<or> score < 70 then StatusWarn else StatusUp)"

definition empty_snapshot :: "string \<Rightarrow> HealthSnapshot" where
  "empty_snapshot service =
     \<lparr>hs_ServiceName = service, hs_HealthScore = 0, hs_Status = StatusDown, hs_Latest = no_usage,
      hs_Anomaly = False, hs_Reason = '''', hs_Trend = [], hs_Samples = 0\<rparr>"

definition snapshot_of :: "(real \<Rightarrow> string) \<Rightarrow> string \<Rightarrow> serviceEntry \<Rightarrow> ServiceUsage \<Rightarrow> HealthSnapshot" where
  "snapshot_of fmt2 service e u =
     (let hist = rw_list (se_history e);
          odd = filter (\<lambda>(name, z). \<bar>z\<bar> \<ge> AnomalyZThreshold (se_config e)) (zscores hist u);
          anom = (odd \<noteq> []);
          score = health_score (se_config e) hist u
      in \<lparr>hs_ServiceName = service, hs_HealthScore = score, hs_Status = status_of u anom score, hs_Latest = u,
          hs_Anomaly = anom, hs_Reason = join_reasons (map (\<lambda>(name, z). name @ fmt2 z) odd),
          hs_Trend = [(''cpu_avg'', average (map su_CPU hist)), (''cpu_latest'', su_CPU u),
                      (''lat_avg'', average (map su_LatencyMS hist)), (''lat_latest'', su_LatencyMS u)],
          hs_Samples = int (length hist)\<rparr>)"

definition evaluateSnapshot :: "(real \<Rightarrow> string) \<Rightarrow> string \<Rightarrow> ServiceMonitor \<Rightarrow> HealthSnapshot \<times> ServiceMonitor" where
  "evaluateSnapshot fmt2 service sm =
     (case ensureEntry service sm of (e, sm) \<Rightarrow>
        case rw_latest (se_history e) of
          None \<Rightarrow> (empty_snapshot service, sm)
        | Some u \<Rightarrow>
            let snap = snapshot_of fmt2 service e u;
                e = e\<lparr>se_lastScore := hs_HealthScore snap, se_lastStatus := hs_Status snap,
                      se_lastAnom := hs_Anomaly snap, se_lastReason := hs_Reason snap\<rparr>
            in (snap, sm\<lparr>sm_services := put service e (sm_services sm)\<rparr>))"

section \<open>Reports and restarts\<close>

definition maybeAutoHeal :: "gotime \<Rightarrow> string \<Rightarrow> HealthSnapshot \<Rightarrow> ServiceMonitor \<Rightarrow> ServiceMonitor" where
  "maybeAutoHeal now service snap sm =
     (if \<not> sm_autoHealer sm then sm
      else
        case ensureEntry service sm of (e, sm) \<Rightarrow>
          if \<not> AutoHealEnabled (se_config e) then sm
          else if now - get0 (sm_lastAutoHeal sm) service < AutoHealCooldown (se_config e) then sm
          else if hs_Status snap = StatusDown \<or> hs_Anomaly snap \<and> AutoHealOnAnomaly (se_config e)
            then sm\<lparr>sm_healing := sm_healing sm @ [(service, snap)]\<rparr>
          else sm)"

text \<open>The end of the goroutine with number \<open>k\<close>, when its restart has returned.\<close>

definition heal_end :: "gotime \<Rightarrow> nat \<Rightarrow> ServiceMonitor \<Rightarrow> ServiceMonitor" where
  "heal_end now k sm =
     (if k < length (sm_healing sm) then
        (case sm_healing sm ! k of (service, snap) \<Rightarrow>
           notifyAll ''auto_heal'' snap
             (sm\<lparr>sm_lastAutoHeal := put service now (sm_lastAutoHeal sm),
                sm_healing := take k (sm_healing sm) @ drop (Suc k) (sm_healing sm)\<rparr>))
      else sm)"

definition Report :: "(real \<Rightarrow> string) \<Rightarrow> gotime \<Rightarrow> ServiceUsage \<Rightarrow> ServiceMonitor \<Rightarrow> ServiceMonitor" where
  "Report fmt2 now usage sm =
     (let service = su_ServiceName usage;
          (e, sm) = ensureEntry service sm;
          e = e\<lparr>se_history := rw_push usage (se_history e), se_model := observe usage (se_model e)\<rparr>;
          sm = sm\<lparr>sm_services := put service e (sm_services sm)\<rparr>;
          sm = (if sm_tsdbWriter sm then sm\<lparr>sm_written := sm_written sm @ [usage]\<rparr> else sm);
          (snap, sm) = evaluateSnapshot fmt2 service sm
      in maybeAutoHeal now service snap (notifyAll ''update'' snap sm))"

section \<open>Queries\<close>

datatype monitor_error = NotMonitored | NotEnoughSamples | ZeroVariance

definition GetStatus :: "(real \<Rightarrow> string) \<Rightarrow> string \<Rightarrow> ServiceMonitor \<Rightarrow> (monitor_error + HealthSnapshot) \<times> ServiceMonitor" where
  "GetStatus fmt2 service sm =
     (if \<not> has_key (sm_services sm) service then (Inl NotMonitored, sm)
      else case evaluateSnapshot fmt2 service sm of (snap, sm) \<Rightarrow> (Inr snap, sm))"

definition ListServices :: "ServiceMonitor \<Rightarrow> string list" where
  "ListServices sm = sort (map fst (sm_services sm))"

definition Usages :: "ServiceMonitor \<Rightarrow> (string, ServiceUsage list) gomap" where
  "Usages sm = map (\<lambda>(k, e). (k, rw_list (se_history e))) (sm_services sm)"

definition PredictNext :: "string \<Rightarrow> gotime \<Rightarrow> ServiceMonitor \<Rightarrow> monitor_error + ServiceUsage" where
  "PredictNext service now sm =
     (case get (sm_services sm) service of
        None \<Rightarrow> Inl NotMonitored
      | Some e \<Rightarrow>
          (case predictNext (se_model e) of (cpu, ram, lat, err) \<Rightarrow>
             Inr \<lparr>su_ServiceName = service, su_CPU = cpu, su_RAMMB = ram, su_LatencyMS = lat, su_ErrorRate = err,
                  su_Status = StatusWarn, su_Timestamp = now, su_Meta = []\<rparr>))"

text \<open>
  The floating-point arithmetic of a correlation is an argument: \<open>fl_nonpos\<close> is the comparison with 0, \<open>fl_of\<close>
  gives the number of a measurement. \<open>exact\<close> is the arithmetic without rounding.
\<close>

record 'f arithmetic =
  fl_of :: "real \<Rightarrow> 'f"
  fl_add :: "'f \<Rightarrow> 'f \<Rightarrow> 'f"
  fl_sub :: "'f \<Rightarrow> 'f \<Rightarrow> 'f"
  fl_mul :: "'f \<Rightarrow> 'f \<Rightarrow> 'f"
  fl_div :: "'f \<Rightarrow> 'f \<Rightarrow> 'f"
  fl_sqrt :: "'f \<Rightarrow> 'f"
  fl_nonpos :: "'f \<Rightarrow> bool"

definition exact :: "real arithmetic" where
  "exact = \<lparr>fl_of = (\<lambda>x. x), fl_add = (+), fl_sub = (-), fl_mul = (*), fl_div = (/), fl_sqrt = sqrt,
     fl_nonpos = (\<lambda>x. x \<le> 0)\<rparr>"

definition fl_sum :: "'f arithmetic \<Rightarrow> 'f list \<Rightarrow> 'f" where
  "fl_sum A xs = foldl (fl_add A) (fl_of A 0) xs"

definition fl_mean :: "'f arithmetic \<Rightarrow> 'f list \<Rightarrow> 'f" where
  "fl_mean A xs = fl_div A (fl_sum A xs) (fl_of A (real (length xs)))"

text \<open>The newest n latencies, newest first.\<close>

definition latencies :: "nat \<Rightarrow> ServiceUsage list \<Rightarrow> real list" where
  "latencies n h = map (\<lambda>i. su_LatencyMS (h ! (length h - 1 - i))) [0..<n]"

definition correlation :: "'f arithmetic \<Rightarrow> 'f list \<Rightarrow> 'f list \<Rightarrow> 'f option" where
  "correlation A xs ys =
     (let dx = map (\<lambda>x. fl_sub A x (fl_mean A xs)) xs; dy = map (\<lambda>y. fl_sub A y (fl_mean A ys)) ys;
          cov = fl_sum A (map (\<lambda>(x, y). fl_mul A x y) (zip dx dy));
          varA = fl_sum A (map (\<lambda>x. fl_mul A x x) dx); varB = fl_sum A (map (\<lambda>y. fl_mul A y y) dy)
      in if fl_nonpos A varA \<or> fl_nonpos A varB then None
         else Some (fl_div A cov (fl_sqrt A (fl_mul A varA varB))))"

definition CorrelateServices ::
    "'f arithmetic \<Rightarrow> string \<Rightarrow> string \<Rightarrow> ServiceMonitor \<Rightarrow> 'f \<times> int \<times> monitor_error option" where
  "CorrelateServices A a b sm =
     (case (get (sm_services sm) a, get (sm_services sm) b) of
        (Some ea, Some eb) \<Rightarrow>
          let ha = rw_list (se_history ea); hb = rw_list (se_history eb); n = min (length ha) (length hb)
          in if n < 5 then (fl_of A 0, int n, Some NotEnoughSamples)
             else case correlation A (map (fl_of A) (latencies n ha)) (map (fl_of A) (latencies n hb)) of
               None \<Rightarrow> (fl_of A 0, int n, Some ZeroVariance)
             | Some c \<Rightarrow> (c, int n, None)
      | _ \<Rightarrow> (fl_of A 0, 0, Some NotMonitored))"

fun export_loop ::
    "(real \<Rightarrow> string) \<Rightarrow> string list \<Rightarrow> ServiceMonitor \<Rightarrow> HealthSnapshot list \<times> ServiceMonitor" where
  "export_loop fmt2 [] sm = ([], sm)"
| "export_loop fmt2 (n # ns) sm =
     (case GetStatus fmt2 n sm of
        (Inl e, sm) \<Rightarrow> export_loop fmt2 ns sm
      | (Inr snap, sm) \<Rightarrow> (case export_loop fmt2 ns sm of (snaps, sm) \<Rightarrow> (snap # snaps, sm)))"

text \<open>ExportStatusJSON, before the snapshots are marshalled.\<close>

definition ExportStatus :: "(real \<Rightarrow> string) \<Rightarrow> ServiceMonitor \<Rightarrow> HealthSnapshot list \<times> ServiceMonitor" where
  "ExportStatus fmt2 sm = export_loop fmt2 (map fst (sm_services sm)) sm"

end
