(* ===== verification/MonitorProps.thy ===== *)
theory MonitorProps
  imports Monitor Window
begin

text \<open>
  Properties of the service monitor: the ring of a service holds its newest measurements; correlations are
  symmetric in any arithmetic and between -1 and 1 without rounding; and restarts pile up until one ends.
\<close>

section \<open>Windows\<close>

definition ring_ok :: "rollingWindow \<Rightarrow> bool" where
  "ring_ok r \<longleftrightarrow> length (rw_buf r) = rw_size r \<and> rw_ptr r < rw_size r"

lemma ring_push:
  assumes "ring_ok r"
  shows "rw_list (rw_push u r) = newest (rw_size r) (rw_list r @ [u])"
proof -
  let ?b = "rw_buf r" and ?p = "rw_ptr r"
  have p: "?p < length ?b" "length ?b = rw_size r" using assms by (simp_all add: ring_ok_def)
  have up: "take (Suc ?p) (?b[?p := u]) = take ?p ?b @ [u]" "drop (Suc ?p) (?b[?p := u]) = drop (Suc ?p) ?b"
    using p by (simp_all add: take_Suc_conv_app_nth)
  have whole: "?b[?p := u] = take ?p ?b @ [u]" if "Suc ?p \<ge> length ?b"
    using up(1) that by simp
  show ?thesis
  proof (cases "rw_full r")
    case True
    have "drop ?p ?b = ?b ! ?p # drop (Suc ?p) ?b" using p(1) by (simp add: Cons_nth_drop_Suc)
    then have "newest (rw_size r) (rw_list r @ [u]) = drop (Suc ?p) ?b @ take ?p ?b @ [u]"
      using p True by (simp add: newest_def rw_list_def)
    then show ?thesis using True up whole p by (cases "Suc ?p \<ge> rw_size r") (auto simp: rw_push_def rw_list_def Let_def)
  next
    case False
    have "length (rw_list r @ [u]) \<le> rw_size r" using p False by (simp add: rw_list_def)
    then show ?thesis using False up whole p
      by (cases "Suc ?p \<ge> rw_size r") (auto simp: newest_short rw_push_def rw_list_def Let_def)
  qed
qed

interpretation ring: bounded_window rw_push rw_list rw_size ring_ok
proof
  show "ring_ok (rw_push u r)" if "ring_ok r" for u r
    using that by (auto simp: ring_ok_def rw_push_def Let_def)
  show "rw_size (rw_push u r) = rw_size r" if "ring_ok r" for u r by (simp add: rw_push_def Let_def)
  show "rw_list (rw_push u r) = newest (rw_size r) (rw_list r @ [u])" if "ring_ok r" for u r
    using that by (rule ring_push)
qed

lemma new_ring [simp]:
  "ring_ok (newRollingWindow n)" "rw_list (newRollingWindow n) = []"
  "rw_size (newRollingWindow n) = (if n \<le> 0 then 128 else nat n)"
  by (simp_all add: ring_ok_def newRollingWindow_def rw_list_def Let_def)

text \<open>Runs of reports, each with its time.\<close>

fun report_run :: "(real \<Rightarrow> string) \<Rightarrow> (gotime \<times> ServiceUsage) list \<Rightarrow> ServiceMonitor \<Rightarrow> ServiceMonitor" where
  "report_run fmt2 [] sm = sm"
| "report_run fmt2 ((now, u) # rs) sm = report_run fmt2 rs (Report fmt2 now u sm)"

definition ring_of :: "string \<Rightarrow> ServiceMonitor \<Rightarrow> rollingWindow" where
  "ring_of s sm =
     (case get (sm_services sm) s of
        Some e \<Rightarrow> se_history e | None \<Rightarrow> newRollingWindow (HistorySize (sm_globalConfig sm)))"

lemma ensureEntry_ring [simp]:
  "ring_of s (snd (ensureEntry s' sm)) = ring_of s sm" "se_history (fst (ensureEntry s sm)) = ring_of s sm"
  "sm_globalConfig (snd (ensureEntry s' sm)) = sm_globalConfig sm"
  by (auto simp: ensureEntry_def ring_of_def new_entry_def Let_def get_put split: option.split)

lemma put_ring:
  "ring_of s (sm\<lparr>sm_services := put s' e (sm_services sm)\<rparr>) = (if s = s' then se_history e else ring_of s sm)"
  by (simp add: ring_of_def get_put split: option.split)

lemma evaluate_ring [simp]:
  "ring_of s (snd (evaluateSnapshot fmt2 s' sm)) = ring_of s sm"
  "sm_globalConfig (snd (evaluateSnapshot fmt2 s' sm)) = sm_globalConfig sm"
  by (auto simp: evaluateSnapshot_def case_prod_beta Let_def put_ring split: option.split)

lemma notify_ring [simp]:
  "ring_of s (notifyAll ev snap sm) = ring_of s sm" "sm_globalConfig (notifyAll ev snap sm) = sm_globalConfig sm"
  by (simp_all add: notifyAll_def ring_of_def split: option.split)

lemma heal_ring [simp]:
  "ring_of s (maybeAutoHeal now s' snap sm) = ring_of s sm"
  "sm_globalConfig (maybeAutoHeal now s' snap sm) = sm_globalConfig sm"
proof -
  have "ring_of s (sm'\<lparr>sm_healing := h\<rparr>) = ring_of s sm'" for sm' h
    by (simp add: ring_of_def split: option.split)
  then show "ring_of s (maybeAutoHeal now s' snap sm) = ring_of s sm"
    by (simp add: maybeAutoHeal_def case_prod_beta)
  show "sm_globalConfig (maybeAutoHeal now s' snap sm) = sm_globalConfig sm"
    by (simp add: maybeAutoHeal_def case_prod_beta)
qed

lemma Report_ring:
  "ring_of s (Report fmt2 now u sm) = (if su_ServiceName u = s then rw_push u (ring_of s sm) else ring_of s sm)"
  "sm_globalConfig (Report fmt2 now u sm) = sm_globalConfig sm"
proof -
  have w: "ring_of s (sm'\<lparr>sm_written := x\<rparr>) = ring_of s sm'" for sm' x
    by (simp add: ring_of_def split: option.split)
  show "ring_of s (Report fmt2 now u sm) = (if su_ServiceName u = s then rw_push u (ring_of s sm) else ring_of s sm)"
    by (simp add: Report_def case_prod_beta Let_def w put_ring)
  show "sm_globalConfig (Report fmt2 now u sm) = sm_globalConfig sm"
    by (simp add: Report_def case_prod_beta Let_def)
qed

lemma report_run_ring:
  "ring_of s (report_run fmt2 rs sm) = fold rw_push (filter (\<lambda>u. su_ServiceName u = s) (map snd rs)) (ring_of s sm)"
  by (induction rs arbitrary: sm) (auto simp: Report_ring)

text \<open>Runs of all operations; each with what it reads from outside.\<close>

datatype sm_event =
  DoReport gotime ServiceUsage
| DoConfigure string ServiceConfig
| DoHealer bool
| DoWriter bool
| DoSubscribe string
| DoUnsubscribe nat
| DoHealEnd gotime nat
| DoStatus string
| DoExport

fun sm_do :: "(real \<Rightarrow> string) \<Rightarrow> sm_event \<Rightarrow> ServiceMonitor \<Rightarrow> ServiceMonitor" where
  "sm_do fmt2 (DoReport now u) sm = Report fmt2 now u sm"
| "sm_do fmt2 (DoConfigure s cfg) sm = ConfigureService s cfg sm"
| "sm_do fmt2 (DoHealer b) sm = RegisterAutoHealer b sm"
| "sm_do fmt2 (DoWriter b) sm = RegisterTSDBWriter b sm"
| "sm_do fmt2 (DoSubscribe s) sm = snd (Subscribe s sm)"
| "sm_do fmt2 (DoUnsubscribe i) sm = unsubscribe i sm"
| "sm_do fmt2 (DoHealEnd now k) sm = heal_end now k sm"
| "sm_do fmt2 (DoStatus s) sm = snd (GetStatus fmt2 s sm)"
| "sm_do fmt2 DoExport sm = snd (ExportStatus fmt2 sm)"

definition sm_run :: "(real \<Rightarrow> string) \<Rightarrow> sm_event list \<Rightarrow> ServiceMonitor \<Rightarrow> ServiceMonitor" where
  "sm_run fmt2 es sm = fold (sm_do fmt2) es sm"

text \<open>What was reported for a service, and the size its ring got when it was first seen.\<close>

fun reported :: "string \<Rightarrow> sm_event list \<Rightarrow> ServiceUsage list" where
  "reported s [] = []"
| "reported s (DoReport now u # es) = (if su_ServiceName u = s then u # reported s es else reported s es)"
| "reported s (e # es) = reported s es"

fun first_size :: "string \<Rightarrow> sm_event list \<Rightarrow> nat" where
  "first_size s [] = 256"
| "first_size s (DoReport now u # es) = (if su_ServiceName u = s then 256 else first_size s es)"
| "first_size s (DoConfigure s' cfg # es) =
     (if s' = s then (if HistorySize cfg \<le> 0 then 128 else nat (HistorySize cfg)) else first_size s es)"
| "first_size s (e # es) = first_size s es"

lemma ConfigureService_ring:
  "ring_of s (ConfigureService s' cfg sm) =
     (if s = s' \<and> \<not> has_key (sm_services sm) s then newRollingWindow (HistorySize cfg) else ring_of s sm)"
  by (simp add: ConfigureService_def ring_of_def get_put new_entry_def has_key_def split: option.split)

text \<open>Which services have an entry.\<close>

abbreviation seen :: "string \<Rightarrow> ServiceMonitor \<Rightarrow> bool" where
  "seen s sm \<equiv> has_key (sm_services sm) s"

lemma seen_ensure [simp]: "seen s (snd (ensureEntry s' sm)) \<longleftrightarrow> s = s' \<or> seen s sm"
  by (auto simp: ensureEntry_def Let_def has_key_def get_put split: option.split)

lemma seen_evaluate [simp]: "seen s (snd (evaluateSnapshot fmt2 s' sm)) \<longleftrightarrow> s = s' \<or> seen s sm"
  using seen_ensure[where s=s and s'=s' and sm=sm]
  by (auto simp: evaluateSnapshot_def case_prod_beta Let_def has_key_put split: option.split)

lemma seen_heal [simp]: "seen s (maybeAutoHeal now s' snap sm) \<longleftrightarrow> s = s' \<and> sm_autoHealer sm \<or> seen s sm"
  by (auto simp: maybeAutoHeal_def case_prod_beta)

lemma seen_notify [simp]: "seen s (notifyAll ev snap sm) = seen s sm"
  by (simp add: notifyAll_def)

lemma seen_Report [simp]: "seen s (Report fmt2 now u sm) \<longleftrightarrow> s = su_ServiceName u \<or> seen s sm"
  using seen_ensure[where s=s and s'="su_ServiceName u" and sm=sm]
  by (auto simp: Report_def case_prod_beta Let_def has_key_put)

lemma seen_status [simp]: "seen s (snd (GetStatus fmt2 s' sm)) = seen s sm"
  by (auto simp: GetStatus_def case_prod_beta)

lemma seen_export [simp]: "seen s (snd (export_loop fmt2 ns sm)) = seen s sm"
proof (induction ns arbitrary: sm)
  case (Cons n ns)
  show ?case using Cons[of "snd (GetStatus fmt2 n sm)"]
    by (simp add: case_prod_beta split: sum.split)
qed simp

lemma export_ring [simp]:
  "ring_of s (snd (GetStatus fmt2 s' sm)) = ring_of s sm"
  "ring_of s (snd (export_loop fmt2 ns sm)) = ring_of s sm"
proof -
  show *: "ring_of s (snd (GetStatus fmt2 s' sm)) = ring_of s sm" for s' sm
    by (simp add: GetStatus_def case_prod_beta)
  show "ring_of s (snd (export_loop fmt2 ns sm)) = ring_of s sm"
  proof (induction ns arbitrary: sm)
    case (Cons n ns)
    show ?case using Cons[of "snd (GetStatus fmt2 n sm)"] *[of n sm]
      by (simp add: case_prod_beta split: sum.split)
  qed simp
qed

lemma heal_end_ring [simp]: "ring_of s (heal_end now k sm) = ring_of s sm" "seen s (heal_end now k sm) = seen s sm"
proof -
  have "ring_of s (sm'\<lparr>sm_lastAutoHeal := l, sm_healing := h\<rparr>) = ring_of s sm'" for sm' l h
    by (simp add: ring_of_def split: option.split)
  then show "ring_of s (heal_end now k sm) = ring_of s sm" by (simp add: heal_end_def split: prod.split)
  show "seen s (heal_end now k sm) = seen s sm" by (simp add: heal_end_def split: prod.split)
qed

lemma sm_run_ring:
  assumes "seen s sm \<or> ring_of s sm = newRollingWindow 256"
  shows "ring_of s (sm_run fmt2 es sm) = fold rw_push (reported s es)
     (if seen s sm then ring_of s sm else newRollingWindow (int (first_size s es)))"
  using assms
proof (induction es arbitrary: sm)
  case (Cons e es)
  have frame: "ring_of s (sm'\<lparr>sm_autoHealer := b\<rparr>) = ring_of s sm'" "ring_of s (sm'\<lparr>sm_tsdbWriter := b\<rparr>) = ring_of s sm'"
    "ring_of s (sm'\<lparr>sm_subscribers := x\<rparr>) = ring_of s sm'" for sm' b x
    by (simp_all add: ring_of_def split: option.split)
  have new: "newRollingWindow 128 = newRollingWindow n" if "n \<le> 0" for n
    using that by (simp add: newRollingWindow_def)
  note step = Cons.IH[of "sm_do fmt2 e sm"]
  show ?case
  proof (cases e)
    case (DoReport now u)
    then show ?thesis using step Cons.prems by (auto simp: sm_run_def Report_ring)
  next
    case (DoConfigure s' cfg)
    have "seen s (ConfigureService s' cfg sm) \<longleftrightarrow> s = s' \<or> seen s sm"
      by (simp add: ConfigureService_def has_key_def get_put)
    then show ?thesis using DoConfigure step Cons.prems by (auto simp: sm_run_def ConfigureService_ring new)
  qed (use step Cons.prems in \<open>simp_all add: sm_run_def frame RegisterAutoHealer_def RegisterTSDBWriter_def Subscribe_def
      unsubscribe_def ExportStatus_def\<close>)
qed (auto simp: sm_run_def)

text \<open>
  C35: The ring of a service refines the list of everything that was reported for it: after any operations on a
  new monitor, for whichever services, it holds the newest of its own measurements, in order, and Usages shows
  them. It holds 256 of them, or, if the service was configured before its first report, as many as this first
  configuration says (128 for a size that is not positive).
\<close>

theorem windows_hold_the_newest:
  "rw_list (ring_of s (sm_run fmt2 es NewServiceMonitor)) = newest (first_size s es) (reported s es)
   \<and> get (Usages (sm_run fmt2 es NewServiceMonitor)) s =
     (case get (sm_services (sm_run fmt2 es NewServiceMonitor)) s of
        None \<Rightarrow> None | Some e \<Rightarrow> Some (newest (first_size s es) (reported s es)))"
proof -
  have "rw_list (ring_of s (sm_run fmt2 es NewServiceMonitor)) = newest (first_size s es) (reported s es)"
  proof -
    have "ring_of s NewServiceMonitor = newRollingWindow 256" "\<not> seen s NewServiceMonitor"
      by (simp_all add: ring_of_def NewServiceMonitor_def defaultServiceConfig_def has_key_def)
    then have "ring_of s (sm_run fmt2 es NewServiceMonitor) =
        fold rw_push (reported s es) (newRollingWindow (int (first_size s es)))"
      using sm_run_ring[where s = s and sm = NewServiceMonitor and es = es] by simp
    moreover have "0 < first_size s es" by (induction s es rule: first_size.induct) auto
    ultimately show ?thesis
      using ring.pushes[of "newRollingWindow (int (first_size s es))" "reported s es"] by simp
  qed
  moreover have "get (Usages sm) s = map_option (\<lambda>e. rw_list (se_history e)) (get (sm_services sm) s)" for sm
    by (simp add: Usages_def map_of_map)
  ultimately show ?thesis by (auto simp: ring_of_def split: option.split)
qed

section \<open>Correlations\<close>

lemma cauchy_schwarz:
  fixes xs ys :: "real list"
  assumes "length xs = length ys"
  shows "(\<Sum>(x, y)\<leftarrow>zip xs ys. x * y)\<^sup>2 \<le> (\<Sum>x\<leftarrow>xs. x * x) * (\<Sum>y\<leftarrow>ys. y * y)"
  using assms
proof (induction xs ys rule: list_induct2)
  case Nil
  then show ?case by simp
next
  case (Cons a xs b ys)
  let ?S = "\<Sum>(x, y)\<leftarrow>zip xs ys. x * y" and ?P = "\<Sum>x\<leftarrow>xs. x * x" and ?Q = "\<Sum>y\<leftarrow>ys. y * y"
  have pq: "0 \<le> ?P" "0 \<le> ?Q" by (intro sum_list_nonneg; auto)+
  have "(2 * (?S * (a * b)))\<^sup>2 \<le> 4 * (?P * ?Q * (a * b)\<^sup>2)"
    using mult_right_mono[OF Cons.IH, of "(a * b)\<^sup>2"] by (simp add: power_mult_distrib)
  also have "\<dots> \<le> (?P * b\<^sup>2 + ?Q * a\<^sup>2)\<^sup>2"
    using zero_le_power2[of "?P * b\<^sup>2 - ?Q * a\<^sup>2"] by (simp add: power2_eq_square algebra_simps)
  finally have "2 * (?S * (a * b)) \<le> ?P * b\<^sup>2 + ?Q * a\<^sup>2"
    by (rule power2_le_imp_le) (use pq in simp)
  then show ?case using Cons.IH by (simp add: power2_eq_square algebra_simps)
qed

lemma foldl_plus: "foldl (+) (a::real) xs = a + sum_list xs"
  by (induction xs arbitrary: a) simp_all

lemma exact_simps:
  "fl_sum exact xs = sum_list xs" "fl_sub exact x y = x - y" "fl_mul exact x y = x * y" "fl_div exact x y = x / y"
  "fl_sqrt exact x = sqrt x" "fl_nonpos exact x \<longleftrightarrow> x \<le> 0" "fl_of exact x = x"
  by (simp_all add: exact_def fl_sum_def foldl_plus)

lemma correlation_between:
  assumes "length xs = length ys" and "correlation exact xs ys = Some c"
  shows "\<bar>c\<bar> \<le> 1"
proof -
  let ?dx = "map (\<lambda>x. x - fl_mean exact xs) xs" and ?dy = "map (\<lambda>y. y - fl_mean exact ys) ys"
  let ?cov = "\<Sum>(x, y)\<leftarrow>zip ?dx ?dy. x * y" and ?A = "\<Sum>x\<leftarrow>?dx. x * x" and ?B = "\<Sum>y\<leftarrow>?dy. y * y"
  have if_some: "(if P then None else Some x) = Some y \<longleftrightarrow> \<not> P \<and> y = x" for P and x y :: real by auto
  have "\<not> (?A \<le> 0 \<or> ?B \<le> 0) \<and> c = ?cov / sqrt (?A * ?B)"
    using assms(2) unfolding correlation_def Let_def if_some exact_simps .
  then have c: "0 < ?A" "0 < ?B" "c = ?cov / sqrt (?A * ?B)" unfolding de_Morgan_disj not_le by blast+
  have "?cov\<^sup>2 \<le> ?A * ?B" using assms(1) by (intro cauchy_schwarz) simp
  then have "sqrt (?cov\<^sup>2) \<le> sqrt (?A * ?B)" by (rule real_sqrt_le_mono)
  then have "\<bar>?cov\<bar> \<le> sqrt (?A * ?B)" unfolding real_sqrt_abs .
  moreover have "0 < sqrt (?A * ?B)" using c(1,2) by simp
  ultimately show ?thesis by (simp add: c(3) divide_le_eq)
qed

lemma map_zip_commute:
  assumes "\<And>x y. f x y = f y x"
  shows "map (\<lambda>(x, y). f x y) (zip xs ys) = map (\<lambda>(x, y). f x y) (zip ys xs)"
proof (induction xs arbitrary: ys)
  case (Cons x xs)
  then show ?case by (cases ys) (simp_all add: assms)
qed simp

lemma correlation_commute:
  assumes "\<And>x y. fl_mul A x y = fl_mul A y x"
  shows "correlation A xs ys = correlation A ys xs"
  unfolding correlation_def Let_def
  by (subst map_zip_commute[of "fl_mul A", OF assms], subst assms[of _ "fl_sum A (map (\<lambda>y. fl_mul A y y) _)"])
    (simp add: disj_commute)

text \<open>
  C36: The correlation of two services does not depend on their order, in any arithmetic whose multiplication
  commutes, rounded or not. Without rounding it lies between -1 and 1.
\<close>

theorem correlations_are_symmetric:
  assumes "\<And>x y. fl_mul A x y = fl_mul A y x"
  shows "CorrelateServices A b a sm = CorrelateServices A a b sm \<and> \<bar>fst (CorrelateServices exact a b sm)\<bar> \<le> 1"
proof -
  have len: "length (map (fl_of exact) (latencies n h)) = n" for n h by (simp add: latencies_def)
  have "\<bar>fst (CorrelateServices exact a b sm)\<bar> \<le> 1"
    using correlation_between[OF len[THEN trans, OF len[symmetric]]]
    by (auto simp: CorrelateServices_def Let_def exact_simps(7) split: option.split)
  moreover have "CorrelateServices A b a sm = CorrelateServices A a b sm"
    using correlation_commute[of A, OF assms]
    by (auto simp: CorrelateServices_def Let_def min.commute split: option.split)
  ultimately show ?thesis by blast
qed

text \<open>Arithmetic that rounds every result down to a multiple of 1/100.\<close>

definition cents :: "real \<Rightarrow> real" where
  "cents x = of_int \<lfloor>100 * x\<rfloor> / 100"

definition rounded :: "real arithmetic" where
  "rounded = \<lparr>fl_of = (\<lambda>x. x), fl_add = (\<lambda>x y. cents (x + y)), fl_sub = (\<lambda>x y. cents (x - y)),
     fl_mul = (\<lambda>x y. cents (x * y)), fl_div = (\<lambda>x y. cents (x / y)), fl_sqrt = (\<lambda>x. cents (sqrt x)),
     fl_nonpos = (\<lambda>x. x \<le> 0)\<rparr>"

definition two_services :: ServiceMonitor where
  "two_services = sm_run (\<lambda>_. '''') (map (\<lambda>(s, l). DoReport 0 (no_usage\<lparr>su_ServiceName := s, su_LatencyMS := l\<rparr>))
     [(''a'', 44), (''b'', 149), (''a'', 129), (''b'', 404), (''a'', 59), (''b'', 194), (''a'', 4), (''b'', 29),
      (''a'', 198), (''b'', 611)]) NewServiceMonitor"

theorem correlations_are_symmetric_witness:
  "CorrelateServices rounded ''b'' ''a'' two_services = CorrelateServices rounded ''a'' ''b'' two_services"
proof -
  have "fl_mul rounded x y = fl_mul rounded y x" for x y by (simp add: rounded_def mult.commute)
  from correlations_are_symmetric[OF this] show ?thesis by blast
qed

section \<open>Restarts\<close>

lemma status_down: "su_Status u = StatusDown \<Longrightarrow> hs_Status (snapshot_of fmt2 s e u) = StatusDown"
  by (simp add: snapshot_of_def Let_def status_of_def)

lemma latest_push: "ring_ok r \<Longrightarrow> rw_latest (rw_push u r) = Some u"
  by (auto simp: ring_ok_def rw_latest_def rw_push_def Let_def le_Suc_eq)

text \<open>The service is monitored, and healing is on for it.\<close>

definition heals :: "string \<Rightarrow> ServiceConfig \<Rightarrow> ServiceMonitor \<Rightarrow> bool" where
  "heals s cfg sm \<longleftrightarrow> sm_autoHealer sm \<and> AutoHealEnabled cfg \<and>
     (\<exists>e. get (sm_services sm) s = Some e \<and> se_config e = cfg \<and> ring_ok (se_history e))"

lemma Report_down:
  assumes "heals s cfg sm" and "su_ServiceName u = s" and "su_Status u = StatusDown"
    and "AutoHealCooldown cfg \<le> now - get0 (sm_lastAutoHeal sm) s"
  shows "heals s cfg (Report fmt2 now u sm) \<and> sm_lastAutoHeal (Report fmt2 now u sm) = sm_lastAutoHeal sm
    \<and> length (sm_healing (Report fmt2 now u sm)) = Suc (length (sm_healing sm))"
proof -
  obtain e where e: "get (sm_services sm) s = Some e" "se_config e = cfg" "ring_ok (se_history e)"
    and on: "sm_autoHealer sm" "AutoHealEnabled cfg" using assms(1) by (auto simp: heals_def)
  let ?e = "e\<lparr>se_history := rw_push u (se_history e), se_model := observe u (se_model e)\<rparr>"
  define sm1 where "sm1 = (let sm = sm\<lparr>sm_services := put s ?e (sm_services sm)\<rparr>
    in if sm_tsdbWriter sm then sm\<lparr>sm_written := sm_written sm @ [u]\<rparr> else sm)"
  have sm1: "get (sm_services sm1) s = Some ?e" "sm_autoHealer sm1" "sm_lastAutoHeal sm1 = sm_lastAutoHeal sm"
      "sm_healing sm1 = sm_healing sm"
    using on by (simp_all add: sm1_def Let_def get_put)
  have ring: "ring_ok (se_history ?e)" using ring.push_ok e(3) by simp
  define snap e2 where "snap = snapshot_of fmt2 s ?e u"
    and "e2 = ?e\<lparr>se_lastScore := hs_HealthScore snap, se_lastStatus := hs_Status snap,
      se_lastAnom := hs_Anomaly snap, se_lastReason := hs_Reason snap\<rparr>"
  define sm2 where "sm2 = notifyAll ''update'' snap (sm1\<lparr>sm_services := put s e2 (sm_services sm1)\<rparr>)"
  have ev: "evaluateSnapshot fmt2 s sm1 = (snap, sm1\<lparr>sm_services := put s e2 (sm_services sm1)\<rparr>)"
    using sm1(1) latest_push[OF e(3)] by (simp add: evaluateSnapshot_def ensureEntry_def snap_def e2_def Let_def)
  have sm2: "get (sm_services sm2) s = Some e2" "sm_autoHealer sm2" "sm_lastAutoHeal sm2 = sm_lastAutoHeal sm"
      "sm_healing sm2 = sm_healing sm"
    using sm1 by (simp_all add: sm2_def notifyAll_def get_put)
  have "Report fmt2 now u sm = maybeAutoHeal now s snap sm2"
    using e(1) assms(2) ev by (simp add: Report_def ensureEntry_def sm1_def sm2_def Let_def)
  also have "\<dots> = sm2\<lparr>sm_healing := sm_healing sm2 @ [(s, snap)]\<rparr>"
    using sm2 assms(4) on status_down[OF assms(3)] e(2)
    by (simp add: maybeAutoHeal_def ensureEntry_def e2_def snap_def)
  finally show ?thesis using sm2 on e(2) ring by (simp add: heals_def e2_def)
qed

text \<open>
  C37: Reports that a service with healing on is down, one after another, each start a restart, whether or not
  one is under way, as long as none ends in between and each comes no sooner than the cooldown after the last
  end of one: the cooldown only counts from the end of a restart, and nothing looks for one under way.
\<close>

theorem restarts_pile_up:
  assumes "heals s cfg sm"
    and "\<forall>(now, u)\<in>set rs. su_ServiceName u = s \<and> su_Status u = StatusDown
      \<and> AutoHealCooldown cfg \<le> now - get0 (sm_lastAutoHeal sm) s"
  shows "length (sm_healing (report_run fmt2 rs sm)) = length (sm_healing sm) + length rs"
  using assms
proof (induction rs arbitrary: sm)
  case (Cons r rs)
  obtain now u where r: "r = (now, u)" by (cases r)
  note one = Report_down[of s cfg sm u now fmt2]
  have "length (sm_healing (report_run fmt2 rs (Report fmt2 now u sm))) =
      length (sm_healing (Report fmt2 now u sm)) + length rs"
    using Cons.prems r one by (intro Cons.IH) auto
  then show ?case using Cons.prems r one by simp
qed simp

definition down_usage :: ServiceUsage where
  "down_usage = no_usage\<lparr>su_ServiceName := ''web'', su_Status := StatusDown\<rparr>"

lemma restarts_pile_up_witness:
  "length (sm_healing (report_run (\<lambda>_. '''') (replicate 7 (300 * Second, down_usage))
     (RegisterAutoHealer True (ConfigureService ''web'' (defaultServiceConfig\<lparr>AutoHealEnabled := True\<rparr>)
       NewServiceMonitor)))) = 7"
proof -
  let ?cfg = "defaultServiceConfig\<lparr>AutoHealEnabled := True\<rparr>"
  let ?sm = "RegisterAutoHealer True (ConfigureService ''web'' ?cfg NewServiceMonitor)"
  have h: "heals ''web'' ?cfg ?sm" and l: "sm_healing ?sm = []" "sm_lastAutoHeal ?sm = []"
    by (simp_all add: heals_def RegisterAutoHealer_def ConfigureService_def NewServiceMonitor_def new_entry_def
        defaultServiceConfig_def)
  have "\<forall>(now, u)\<in>set (replicate 7 (300 * Second, down_usage)). su_ServiceName u = ''web''
      \<and> su_Status u = StatusDown \<and> AutoHealCooldown ?cfg \<le> now - get0 (sm_lastAutoHeal ?sm) ''web''"
    unfolding l by (simp add: down_usage_def defaultServiceConfig_def Second_def)
  from restarts_pile_up[OF h this] show ?thesis by (simp add: l)
qed

end
