(* ===== verification/Spec2Isabelle.thy ===== *)
theory Spec2Isabelle
  imports QoS SchedProps PoolQueue Billing MicrotaskJobs StorageRuns ResidencyProps SRMProps
    PolicyEngineProps SelfHealingProps ScalerRuns ConnectorsProps
    SecStoreProps AuditLogProps MonitorProps
begin

text \<open>
  NebulaCore, the Go control plane under \<^verbatim>\<open>src/internal\<close> and
  \<^verbatim>\<open>src/connectors\<close>: a verification development.

  \<^bold>\<open>The program.\<close> A control plane places work on the nodes of several clouds. The resource pool
  (\<^verbatim>\<open>aggregation/resource_pool.go\<close>) knows the nodes, their capacities and reservations. The
  scheduler (\<^verbatim>\<open>scheduler/advanced.go\<close>) lets an algorithm propose a node for each task and asks the
  pool for a reservation. Admission is limited by the QoS manager (\<^verbatim>\<open>qos/qos.go\<close>), usage is billed by
  the billing engine (\<^verbatim>\<open>billing/billing.go\<close>). Big jobs are cut into slices by the microtask manager
  (\<^verbatim>\<open>microtasking/microtask.go\<close>); files are kept, in shards on several backends, by the distributed
  storage (\<^verbatim>\<open>storage/distributed.go\<close>). Services register where they are (\<^verbatim>\<open>geo/service_location.go\<close>),
  and rules of residency decide which data may move between regions (\<^verbatim>\<open>policy/data_residency.go\<close>).
  Provider accounts are matched and reserved by the resource manager (\<^verbatim>\<open>services/srm.go\<close>) and guarded
  by the policy engine (\<^verbatim>\<open>services/policy.go\<close>). Failures are diagnosed and repaired, and repair tools
  built and deployed, by the self-healing manager (\<^verbatim>\<open>selfhealing/self_healing.go\<close>). The predictive
  scaler (\<^verbatim>\<open>scaling/predictive_scaling.go\<close>) forecasts the demand of a service and bootstraps nodes for
  it; the service monitor (\<^verbatim>\<open>monitoring/service_monitor.go\<close>) rates the health of services and has them
  restarted. Secrets are kept by the encrypted store (\<^verbatim>\<open>secstore/store.go\<close>) and events by the audit log
  (\<^verbatim>\<open>logging/audit.go\<close>). Requests to cloud providers go through the manager of the connectors (\<^verbatim>\<open>connectors/connector.go\<close>).

  \<^bold>\<open>Shared vocabulary\<close> (\<^theory_text>\<open>GoPrelude\<close>). How a call ends (it returns, parks for ever on a lock, or
  panics: \<open>outcome\<close>), mutexes, maps as association lists in an arbitrary order, buffered channels
  with the locale \<open>bounded_fifo\<close>, sort.Slice with the locale \<open>key_order\<close>, exact rationals for float64,
  decimal numbers, and the dynamic values of a map[string]any. \<^theory_text>\<open>GoStrings\<close> and \<^theory_text>\<open>GoPath\<close> model what the
  program uses of the packages strings (on ASCII texts) and path/filepath (on Unix), with the lemmas
  that the sandbox check of a joined and cleaned path is sound. \<^theory_text>\<open>RateLimit\<close> holds the locale
  \<open>rate_limiter\<close>, the contract of a token bucket, interpreted on the buckets of the QoS manager, of the
  policy engine and of the connectors' policy. \<^theory_text>\<open>GoBytes\<close> holds bytes, their hexadecimal text and
  the laws of AES-GCM; \<^theory_text>\<open>Window\<close> the locale \<open>bounded_window\<close>, the contract of a history of the newest samples,
  interpreted on the ring of the service monitor and on the slices of the scaler; \<^theory_text>\<open>GoJSON\<close> what encoding and
  decoding make of the dynamic values of a map[string]any (integers become float64, typed maps and slices plain
  ones), with the values that come back as they were.

  \<^bold>\<open>QoS manager\<close> (\<^theory_text>\<open>QoS\<close>). One record for \<open>QoSManager\<close>, one definition per method; the refill goroutines
  are steps, and one that has been stopped ticks on until it sees that its context is done. Buckets stay within
  their capacity in every reachable state, as long as no request is negative; usage over any run of
  admission checks is bounded by the initial tokens and the refill rate; hard policies are enforced.

  \<^bold>\<open>Resource pool\<close> (\<^theory_text>\<open>ResourcePool\<close>: nodes, KPIs, trace; \<^theory_text>\<open>PoolBooking\<close>: debit, credit, affinity, fresh
  IDs; \<^theory_text>\<open>PoolPolicies\<close>: the three built-in policies under the locale \<open>pool_policy\<close>; \<^theory_text>\<open>PoolAllocate\<close>:
  Allocate, Free and the registry; \<^theory_text>\<open>PoolMaintenance\<close>: rebalancing, health checks, deadlines, the
  pending queue; \<^theory_text>\<open>PoolCorrect\<close>, \<^theory_text>\<open>PoolProps\<close>, \<^theory_text>\<open>PoolQueue\<close>: the properties). The mutex is part of
  the state, so that a method which locks it twice ends in \<open>Blocked\<close>. The search for a fresh
  reservation ID has fuel one more than the number of reservations, which is shown to be enough.

  \<^bold>\<open>Scheduler\<close> (\<^theory_text>\<open>SchedAlgos\<close>: the seven algorithms; \<^theory_text>\<open>SchedCorrect\<close>: the locale \<open>scheduler_algorithm\<close>
  and what each algorithm chooses; \<^theory_text>\<open>Scheduler\<close>: tasks, registry, Schedule with its fallbacks;
  \<^theory_text>\<open>SchedProps\<close>: what Schedule applies, and the deadlock of its error path). Schedule calls the
  model of the pool, not an abstraction of it.

  \<^bold>\<open>Billing engine\<close> (\<^theory_text>\<open>Billing\<close>). Records, running aggregates, invoices, summaries, export and the
  merge of a saved state; the running aggregates agree with the summaries in every history.

  \<^bold>\<open>Microtask manager\<close> (\<^theory_text>\<open>Microtask\<close>: the model, with heaps for the tasks, DAGs and channels that the
  code shares by pointer, and state machines for the dispatcher and the handlers; \<^theory_text>\<open>MicrotaskProps\<close>:
  the step relation, Stop included, its invariant, and the abstract machine of jobs; \<^theory_text>\<open>MicrotaskJobs\<close>: properties,
  among them that no task is lost and that the manager refines the machine of jobs, both as long as no state is
  loaded and only the handlers report results). A saved state goes through the image of its values under JSON.

  \<^bold>\<open>Distributed storage\<close> (\<^theory_text>\<open>Storage\<close>: data, interfaces, hashes, Merkle roots; \<^theory_text>\<open>StorageBuiltins\<close>: the file
  store, the HMAC signer, the orphan registries and the placements, under the locales
  \<open>manifest_store\<close>, \<open>orphan_registry\<close> and \<open>placement\<close>; \<^theory_text>\<open>StorageOps\<close>: the operations;
  \<^theory_text>\<open>StorageMerkle\<close>, \<^theory_text>\<open>StorageUploads\<close>: uploads and downloads between reliable backends;
  \<^theory_text>\<open>StorageProps\<close>, \<^theory_text>\<open>StorageFailure\<close>, \<^theory_text>\<open>StorageHeal\<close>, \<^theory_text>\<open>StorageRuns\<close>: round trips, verified downloads,
  failed and cancelled uploads, repair, signatures, and invariants over every history). Backends,
  encryptors, erasure coders, repair plugins and SHA-256 are parameters; a backend may fail at any
  call, and the theorems say what they assume of it. TriggerRepair has fuel for the depth of its
  recursion, since it may not end; the theorem on it says when it does.

  \<^bold>\<open>Service locations and data residency\<close> (\<^theory_text>\<open>Geo\<close>, \<^theory_text>\<open>GeoProps\<close>: the location manager, distances, the
  interface \<open>location_source\<close>, and the deadlock of a heartbeat; \<^theory_text>\<open>Residency\<close>, \<^theory_text>\<open>ResidencyProps\<close>: the
  enforcer, which calls the location manager through that interface). The order in which Go visits
  the map of rules is an argument of each decision, one for each loop; the properties hold for all
  orders, or show two that differ. Strict rules block; risks stay within 0 and 1.

  \<^bold>\<open>Resource manager and policy engine\<close> (\<^theory_text>\<open>SRM\<close>, \<^theory_text>\<open>SRMProps\<close>; \<^theory_text>\<open>PolicyEngine\<close>, \<^theory_text>\<open>PolicyEngineProps\<close>).
  Reservations stay within the quotas over every history; a match can be reserved; the deadlock of
  a refill and a reservation is a run of their programs of lock actions. Quota checks are rate
  limited, decided by the quota and audited. The database is a parameter of both, and may fail.

  \<^bold>\<open>Self healing\<close> (\<^theory_text>\<open>SelfHealing\<close>, \<^theory_text>\<open>SelfHealingProps\<close>). Incidents, repair plans, playbooks, tools and
  patches; files are a map from cleaned paths to contents. Patches and deployments stay within the
  store; production needs an approval while the safety policy, which may change, asks for one; the number of deployments in an hour is bounded. What a
  compiler, scanner or tool does is an argument.

  \<^bold>\<open>Predictive scaling\<close> (\<^theory_text>\<open>Forecast\<close>, \<^theory_text>\<open>ForecastProps\<close>: trends, averages, percentiles, clipping and
  scores; \<^theory_text>\<open>ScalerParts\<close>: placements, verifiers of tokens, the learner, the file store, electors;
  \<^theory_text>\<open>Scaler\<close>: the scaler, with one definition for each critical section of PredictAndScale and of the
  bootstrap that it starts; \<^theory_text>\<open>ScalerProps\<close>: tokens, limits and backoff; \<^theory_text>\<open>ScalerRuns\<close>: the step relation in
  which predictions, bootstraps and other operations interleave, and its invariants). The trend is the
  least-squares slope; at most one bootstrap of a service is under way; a launch meets every condition.

  \<^bold>\<open>Connectors\<close> (\<^theory_text>\<open>Gateway\<close>: requests, hooks, jobs, policy, failures and the vault; \<^theory_text>\<open>Connectors\<close>: the
  generic connector, the six provider helpers, and the manager; \<^theory_text>\<open>ConnectorsProps\<close>). Connectors are shared by
  pointer and live in a heap; the goroutine of an asynchronous request is a later step. Execute refines
  the choice of the first success among a service and its failovers; requests are rate limited;
  results are kept for their lifetime; the vault can store nothing. A connector that is registered again under the
  same pointer is shared, as in the code.

  \<^bold>\<open>Encrypted store and audit log\<close> (\<^theory_text>\<open>SecStore\<close>, \<^theory_text>\<open>SecStoreProps\<close>: framing, Put, Get and the rotation of keys;
  \<^theory_text>\<open>AuditLog\<close>, \<^theory_text>\<open>AuditLogProps\<close>: the chain of hashes and its checkpoints in the store). The write of a
  file may fail at the temporary file, which it then leaves behind, or at the renaming. A text reads back
  exactly when no part of its file has a separator; a rotation keeps every text if the key service answers with
  none; the end of a chain binds
  its log; a refusal breaks the chain. The laws of AES-GCM, JSON and the key service are named hypotheses.

  \<^bold>\<open>Service monitor\<close> (\<^theory_text>\<open>Monitor\<close>, \<^theory_text>\<open>MonitorProps\<close>). Rings of measurements, health scores, correlations and
  restarts. Each ring holds the newest measurements; correlations are symmetric in every
  arithmetic with a commutative multiplication, and between -1 and 1 in exact arithmetic only; restarts pile up.

  \<^bold>\<open>Abstractions.\<close> float64 is exact: no rounding, infinities only where a quotient can produce them (but for the correlation of two
  services, whose arithmetic is an argument; a quotient by zero in a health score of the monitor counts as 0);
  distances, logarithmic scores and the values of forecasts and of the service monitor are reals. An int is a mathematical integer, wrapped at 64 bits
  where the code adds to a stored amount that nothing else bounds.
  A policy of the pool is a choice from the nodes it reads: the code hands it the pool itself, which a policy
  from outside could change.
  A nil map is the empty map. A range over a map visits its entries in the order of the list, which
  is arbitrary. Clock readings, random numbers and UUIDs are arguments, read once per method. A
  method runs without interruption; a \<open>go\<close> statement is a later step where its order matters. Times
  are in UTC. Payloads of traces, metrics and log lines, which the code only writes, are left out,
  and so are the bytes of files: a file is what its JSON text decodes to.

  \<^bold>\<open>Not modelled\<close>: the parts that call services, kernels, clusters or hardware and keep little
  logic of their own (\<^verbatim>\<open>cmd\<close>, \<^verbatim>\<open>api\<close>, \<^verbatim>\<open>server\<close>, \<^verbatim>\<open>telemetry\<close>, \<^verbatim>\<open>ai\<close>,
  \<^verbatim>\<open>training\<close>, \<^verbatim>\<open>communication\<close>, \<^verbatim>\<open>security\<close>, \<^verbatim>\<open>cryptoengine\<close>, \<^verbatim>\<open>quantum\<close>, \<^verbatim>\<open>store\<close>, and
  \<^verbatim>\<open>service.go\<close> and \<^verbatim>\<open>vault.go\<close> of \<^verbatim>\<open>services\<close>, \<^verbatim>\<open>monitor.go\<close> of \<^verbatim>\<open>monitoring\<close>, and the clients of key services
  in \<^verbatim>\<open>secstore\<close>), and the Python, web
  and mobile front ends.
\<close>

end
